(* ===== verification/Prelude.thy ===== *)
theory Prelude imports
  Complex_Main
  "HOL-Library.Sublist"
  "HOL-Library.Char_ord"
  "HOL-Library.List_Lexorder"
  "HOL-Library.Product_Lexorder"
  "HOL-Library.Multiset"
  "HOL-Library.Monad_Syntax"
begin

text \<open>
  What the component theories share: results with an error as a sum, the JavaScript string
  operations the code uses, tables as lists of rows with the SQL statements over them, and a
  small theory of reachable states.

  A JavaScript string is modelled as a \<^typ>\<open>string\<close>, that is, as a list of code units below
  256; \<open>length\<close> counts code units as \<open>String.length\<close> does. A JavaScript number that the code
  computes with is a \<^typ>\<open>rat\<close>, an \<^typ>\<open>int\<close> or a \<^typ>\<open>nat\<close>, exact where the program uses
  doubles.
\<close>

named_theorems row_simps \<open>how the SQL statements act on projections of a table\<close>

section \<open>Results\<close>

type_synonym ('e, 'a) result = "'e + 'a"

fun bind_result :: "('e, 'a) result \<Rightarrow> ('a \<Rightarrow> ('e, 'b) result) \<Rightarrow> ('e, 'b) result" where
  "bind_result (Inl e) f = Inl e"
| "bind_result (Inr a) f = f a"

fun is_ok :: "('e, 'a) result \<Rightarrow> bool" where
  "is_ok (Inl e) = False"
| "is_ok (Inr a) = True"

lemma bind_result_Inr [simp]:
  "bind_result r f = Inr b \<longleftrightarrow> (\<exists>a. r = Inr a \<and> f a = Inr b)"
  by (cases r) auto

lemma bind_result_Inl:
  "bind_result r f = Inl e \<longleftrightarrow> r = Inl e \<or> (\<exists>a. r = Inr a \<and> f a = Inl e)"
  by (cases r) auto

lemma is_ok_iff: "is_ok r \<longleftrightarrow> (\<exists>a. r = Inr a)"
  by (cases r) auto

fun map_result :: "('a \<Rightarrow> ('e, 'b) result) \<Rightarrow> 'a list \<Rightarrow> ('e, 'b list) result" where
  "map_result f [] = Inr []"
| "map_result f (x # xs) =
     bind_result (f x) (\<lambda>y. bind_result (map_result f xs) (\<lambda>ys. Inr (y # ys)))"

section \<open>Strings\<close>

abbreviation starts_with :: "string \<Rightarrow> string \<Rightarrow> bool" where
  "starts_with s p \<equiv> prefix p s"

abbreviation ends_with :: "string \<Rightarrow> string \<Rightarrow> bool" where
  "ends_with s p \<equiv> suffix p s"

text \<open>A text between single quotes, as the messages show a name.\<close>

definition quoted :: "string \<Rightarrow> string" where
  "quoted s = CHR 0x27 # s @ [CHR 0x27]"

text \<open>The white space of \<open>String.prototype.trim\<close> among the code units below 256.\<close>

definition is_white :: "char \<Rightarrow> bool" where
  "is_white c \<longleftrightarrow> of_char c \<in> set [9, 10, 11, 12, 13, 32, 160 :: nat]"

definition trim_start :: "string \<Rightarrow> string" where
  "trim_start s = dropWhile is_white s"

definition trim_end :: "string \<Rightarrow> string" where
  "trim_end s = rev (dropWhile is_white (rev s))"

definition trim :: "string \<Rightarrow> string" where
  "trim s = trim_end (trim_start s)"

text \<open>\<open>s.split(c)\<close> for a separator of one code unit: always at least one piece.\<close>

fun split_on :: "char \<Rightarrow> string \<Rightarrow> string list" where
  "split_on c [] = [[]]"
| "split_on c (x # xs) =
     (if x = c then [] # split_on c xs
      else (case split_on c xs of [] \<Rightarrow> [[x]] | p # ps \<Rightarrow> (x # p) # ps))"

text \<open>\<open>xs.join(sep)\<close>.\<close>

fun join_with :: "string \<Rightarrow> string list \<Rightarrow> string" where
  "join_with sep [] = []"
| "join_with sep [p] = p"
| "join_with sep (p # q # ps) = p @ sep @ join_with sep (q # ps)"

lemma split_on_neq_Nil [simp]: "split_on c s \<noteq> []"
  by (induction s) (auto split: list.splits)

lemma join_split_on: "join_with [c] (split_on c s) = s"
proof (induction s)
  case Nil
  then show ?case by simp
next
  case (Cons x s)
  obtain p ps where ps: "split_on c s = p # ps"
    by (cases "split_on c s") auto
  with Cons.IH show ?case
    by (cases ps) auto
qed

lemma split_on_no_sep: "c \<notin> set s \<Longrightarrow> split_on c s = [s]"
  by (induction s) auto

lemma split_on_append:
  "c \<notin> set p \<Longrightarrow> split_on c (p @ c # s) = p # split_on c s"
  by (induction p) auto

lemma split_join_with:
  "ps \<noteq> [] \<Longrightarrow> (\<forall>p \<in> set ps. c \<notin> set p) \<Longrightarrow> split_on c (join_with [c] ps) = ps"
proof (induction ps)
  case Nil
  then show ?case by simp
next
  case (Cons p ps)
  then show ?case
    by (cases ps) (simp_all add: split_on_no_sep split_on_append)
qed

lemma split_on_pieces: "p \<in> set (split_on c s) \<Longrightarrow> c \<notin> set p"
proof (induction s arbitrary: p)
  case Nil
  then show ?case by simp
next
  case (Cons x s)
  then show ?case
    by (cases "split_on c s") (auto split: if_splits)
qed

text \<open>\<open>String.prototype.toLowerCase\<close> on the code units below 256.\<close>

definition lower_char :: "char \<Rightarrow> char" where
  "lower_char c =
     (let n = (of_char c :: nat) in
      if 65 \<le> n \<and> n \<le> 90 \<or> 192 \<le> n \<and> n \<le> 222 \<and> n \<noteq> 215 then char_of (n + 32) else c)"

definition to_lower :: "string \<Rightarrow> string" where
  "to_lower s = map lower_char s"

text \<open>Two texts with a separator that neither first part holds are equal part by part.\<close>

lemma append_char_unique:
  "c \<notin> set a \<Longrightarrow> c \<notin> set b \<Longrightarrow> a @ c # x = b @ c # y \<longleftrightarrow> a = b \<and> x = y"
proof (induction a arbitrary: b)
  case Nil
  then show ?case by (cases b) auto
next
  case (Cons d a)
  then show ?case by (cases b) auto
qed

section \<open>Tables\<close>

text \<open>
  A table is the list of its rows. An \<open>update ... where\<close> maps the rows its condition selects, a
  \<open>delete ... where\<close> removes them, and both report how many there were.
\<close>

definition update_where :: "('r \<Rightarrow> bool) \<Rightarrow> ('r \<Rightarrow> 'r) \<Rightarrow> 'r list \<Rightarrow> 'r list" where
  "update_where p f rows = map (\<lambda>r. if p r then f r else r) rows"

definition delete_where :: "('r \<Rightarrow> bool) \<Rightarrow> 'r list \<Rightarrow> 'r list" where
  "delete_where p rows = filter (\<lambda>r. \<not> p r) rows"

definition count_where :: "('r \<Rightarrow> bool) \<Rightarrow> 'r list \<Rightarrow> nat" where
  "count_where p rows = length (filter p rows)"

text \<open>\<open>order by key limit 1\<close> over the rows a condition selects.\<close>

fun least_by :: "('r \<Rightarrow> 'k::linorder) \<Rightarrow> 'r list \<Rightarrow> 'r option" where
  "least_by k [] = None"
| "least_by k (r # rs) =
     (case least_by k rs of None \<Rightarrow> Some r | Some s \<Rightarrow> if k r \<le> k s then Some r else Some s)"

lemma set_update_where:
  "set (update_where p f rows) = {f r | r. r \<in> set rows \<and> p r} \<union> {r \<in> set rows. \<not> p r}"
  by (auto simp: update_where_def)

lemma in_update_whereE:
  assumes "r \<in> set (update_where p f rows)"
  obtains s where "s \<in> set rows" "p s" "r = f s" | "r \<in> set rows" "\<not> p r"
  using assms by (auto simp: set_update_where)

lemma length_update_where [row_simps]: "length (update_where p f rows) = length rows"
  by (simp add: update_where_def)

lemma map_update_where [row_simps]:
  "(\<And>r. r \<in> set rows \<Longrightarrow> p r \<Longrightarrow> g (f r) = g r) \<Longrightarrow> map g (update_where p f rows) = map g rows"
  by (induction rows) (auto simp: update_where_def)

lemma update_where_none [row_simps]:
  "(\<And>r. r \<in> set rows \<Longrightarrow> \<not> p r) \<Longrightarrow> update_where p f rows = rows"
  by (induction rows) (auto simp: update_where_def)

lemma filter_update_where:
  "(\<And>r. r \<in> set rows \<Longrightarrow> p r \<Longrightarrow> \<not> q (f r)) \<Longrightarrow>
    filter q (update_where p f rows) = filter (\<lambda>r. q r \<and> \<not> p r) rows"
  by (induction rows) (auto simp: update_where_def)

lemma set_delete_where [row_simps]: "set (delete_where p rows) = {r \<in> set rows. \<not> p r}"
  by (auto simp: delete_where_def)

lemma distinct_map_delete_where: "distinct (map g rows) \<Longrightarrow> distinct (map g (delete_where p rows))"
  by (simp add: delete_where_def distinct_map_filter)

lemma count_where_Nil [simp]: "count_where p [] = 0"
  by (simp add: count_where_def)

lemma count_where_Cons [simp]:
  "count_where p (r # rs) = (if p r then Suc (count_where p rs) else count_where p rs)"
  by (simp add: count_where_def)

lemma count_where_append [simp]: "count_where p (xs @ ys) = count_where p xs + count_where p ys"
  by (simp add: count_where_def)

lemma count_where_mono:
  "(\<And>r. r \<in> set rows \<Longrightarrow> p r \<Longrightarrow> q r) \<Longrightarrow> count_where p rows \<le> count_where q rows"
  by (induction rows) (auto intro: le_SucI)

lemma count_where_cong:
  "(\<And>r. r \<in> set rows \<Longrightarrow> p r = q r) \<Longrightarrow> count_where p rows = count_where q rows"
  by (induction rows) auto

lemma count_where_update_le:
  "(\<And>r. r \<in> set rows \<Longrightarrow> p r \<Longrightarrow> q (f r) \<Longrightarrow> q r) \<Longrightarrow>
    count_where q (update_where p f rows) \<le> count_where q rows"
  by (induction rows) (auto simp: update_where_def intro: le_SucI)

lemma count_where_update_eq:
  "(\<And>r. r \<in> set rows \<Longrightarrow> p r \<Longrightarrow> q (f r) = q r) \<Longrightarrow>
    count_where q (update_where p f rows) = count_where q rows"
  by (induction rows) (auto simp: update_where_def)

lemma count_where_delete_le: "count_where q (delete_where p rows) \<le> count_where q rows"
  by (induction rows) (auto simp: delete_where_def intro: le_SucI)

text \<open>An update of the one row of a key moves a count by at most one.\<close>

lemma count_where_update_key:
  "distinct (map key rows) \<Longrightarrow>
    count_where q (update_where (\<lambda>r. key r = k) f rows) \<le> Suc (count_where q rows)"
proof (induction rows)
  case Nil
  then show ?case by (simp add: update_where_def)
next
  case (Cons r rows)
  show ?case
  proof (cases "key r = k")
    case True
    with Cons.prems have "update_where (\<lambda>r. key r = k) f rows = rows"
      by (intro update_where_none) (auto dest: sym[of _ "key r"] simp: image_iff)
    then show ?thesis by (auto simp: update_where_def)
  next
    case False
    with Cons show ?thesis by (auto simp: update_where_def)
  qed
qed

lemma count_where_update_one:
  assumes "distinct (map key rows)" and "c \<in> set rows"
  shows "count_where q (update_where (\<lambda>r. key r = key c) f rows) + (if q c then 1 else 0) =
    count_where q rows + (if q (f c) then 1 else 0)"
  using assms
proof (induction rows)
  case Nil
  then show ?case by simp
next
  case (Cons r rows)
  show ?case
  proof (cases "c = r")
    case True
    with Cons.prems have "update_where (\<lambda>x. key x = key c) f rows = rows"
      by (intro update_where_none) (auto dest: sym[of _ "key r"] simp: image_iff)
    then show ?thesis using True by (simp add: update_where_def)
  next
    case False
    with Cons.prems have "c \<in> set rows" "key r \<noteq> key c" by (auto simp: image_iff)
    with Cons False show ?thesis by (auto simp: update_where_def)
  qed
qed

lemma least_by_None [simp]: "least_by k rows = None \<longleftrightarrow> rows = []"
  by (induction rows) (auto split: option.splits)

lemma least_by_Some:
  "least_by k rows = Some r \<Longrightarrow> r \<in> set rows \<and> (\<forall>s \<in> set rows. k r \<le> k s)"
proof (induction rows arbitrary: r)
  case Nil
  then show ?case by simp
next
  case (Cons x rows)
  show ?case
  proof (cases "least_by k rows")
    case None
    with Cons.prems show ?thesis by simp
  next
    case (Some s)
    with Cons.IH[OF Some] Cons.prems show ?thesis
      by (auto split: if_splits)
  qed
qed

lemma distinct_map_inj:
  "distinct (map key rows) \<Longrightarrow> r \<in> set rows \<Longrightarrow> s \<in> set rows \<Longrightarrow> key r = key s \<Longrightarrow> r = s"
  by (metis distinct_map inj_onD)

text \<open>
  A partial unique index: of the rows that have an index key, no two different ones share it.
\<close>

definition unique_by :: "('r \<Rightarrow> 'k option) \<Rightarrow> ('r \<Rightarrow> 'i) \<Rightarrow> 'r list \<Rightarrow> bool" where
  "unique_by key ident rows \<longleftrightarrow>
     (\<forall>r \<in> set rows. \<forall>s \<in> set rows. key r \<noteq> None \<longrightarrow> key r = key s \<longrightarrow> ident r = ident s)"

lemma unique_byD:
  "unique_by key ident rows \<Longrightarrow> r \<in> set rows \<Longrightarrow> s \<in> set rows \<Longrightarrow> key r = Some k \<Longrightarrow> key s = Some k \<Longrightarrow>
    ident r = ident s"
  unfolding unique_by_def by (metis option.distinct(1))

lemma unique_by_Nil [simp]: "unique_by key ident []"
  by (simp add: unique_by_def)

lemma unique_by_subset: "unique_by key ident rows \<Longrightarrow> set rows' \<subseteq> set rows \<Longrightarrow> unique_by key ident rows'"
  unfolding unique_by_def by blast

lemma unique_by_delete: "unique_by key ident rows \<Longrightarrow> unique_by key ident (delete_where p rows)"
  by (rule unique_by_subset) (auto simp: delete_where_def)

lemma unique_by_snoc:
  assumes "unique_by key ident rows" and "\<And>s. s \<in> set rows \<Longrightarrow> key r \<noteq> None \<Longrightarrow> key s \<noteq> key r"
  shows "unique_by key ident (rows @ [r])"
  unfolding unique_by_def
proof (intro ballI impI)
  fix x y
  assume x: "x \<in> set (rows @ [r])" and y: "y \<in> set (rows @ [r])"
    and k: "key x \<noteq> None" and eq: "key x = key y"
  show "ident x = ident y"
  proof (cases "x \<in> set rows \<and> y \<in> set rows")
    case True
    with k eq assms(1) show ?thesis unfolding unique_by_def by blast
  next
    case False
    with x y k eq assms(2)[of x] assms(2)[of y] show ?thesis by auto
  qed
qed

lemma unique_by_update:
  assumes u: "unique_by key ident rows"
    and f: "\<And>r. r \<in> set rows \<Longrightarrow> p r \<Longrightarrow> ident (f r) = ident r \<and> (key (f r) = None \<or> key (f r) = key r)"
  shows "unique_by key ident (update_where p f rows)"
  unfolding unique_by_def
proof (intro ballI impI)
  have old: "\<exists>x' \<in> set rows. ident x' = ident x \<and> key x' = key x"
    if "x \<in> set (update_where p f rows)" "key x \<noteq> None" for x
    using that f by (fastforce simp: set_update_where)
  fix x y
  assume "x \<in> set (update_where p f rows)" "y \<in> set (update_where p f rows)"
    and "key x \<noteq> None" "key x = key y"
  with old[of x] old[of y] u show "ident x = ident y"
    unfolding unique_by_def by metis
qed

text \<open>The row of one id may take a key that no other row has.\<close>

lemma unique_by_update_one:
  assumes u: "unique_by key ident rows"
    and f: "\<And>r. r \<in> set rows \<Longrightarrow> ident r = i \<Longrightarrow> ident (f r) = i"
    and free: "\<And>r s. r \<in> set rows \<Longrightarrow> ident r = i \<Longrightarrow> s \<in> set rows \<Longrightarrow> ident s \<noteq> i \<Longrightarrow>
      key (f r) \<noteq> None \<Longrightarrow> key s \<noteq> key (f r)"
  shows "unique_by key ident (update_where (\<lambda>r. ident r = i) f rows)"
  unfolding unique_by_def
proof (intro ballI impI)
  fix x y
  assume x: "x \<in> set (update_where (\<lambda>r. ident r = i) f rows)"
    and y: "y \<in> set (update_where (\<lambda>r. ident r = i) f rows)"
    and k: "key x \<noteq> None" and eq: "key x = key y"
  have elem: "(\<exists>r \<in> set rows. ident r = i \<and> x = f r \<and> ident x = i) \<or> (x \<in> set rows \<and> ident x \<noteq> i)"
    if "x \<in> set (update_where (\<lambda>r. ident r = i) f rows)" for x
    using that f by (auto simp: set_update_where)
  show "ident x = ident y"
    using elem[OF x] elem[OF y]
  proof (elim disjE bexE conjE)
    fix r assume "r \<in> set rows" "ident r = i" "x = f r" "y \<in> set rows" "ident y \<noteq> i"
    with free[of r y] k eq show ?thesis by metis
  next
    fix r assume "r \<in> set rows" "ident r = i" "y = f r" "x \<in> set rows" "ident x \<noteq> i"
    with free[of r x] k eq show ?thesis by metis
  next
    assume "x \<in> set rows" "y \<in> set rows"
    with u k eq show ?thesis unfolding unique_by_def by blast
  qed simp
qed

lemma find_filter: "List.find p xs = (case filter p xs of [] \<Rightarrow> None | x # _ \<Rightarrow> Some x)"
  by (induction xs) auto

lemma find_append:
  "List.find p (xs @ ys) = (case List.find p xs of None \<Rightarrow> List.find p ys | Some x \<Rightarrow> Some x)"
  by (induction xs) auto

lemma find_Some_iff:
  "List.find p xs = Some x \<Longrightarrow> x \<in> set xs \<and> p x"
  by (induction xs) (auto split: if_splits)

section \<open>Reachable states\<close>

inductive reachable :: "('s \<Rightarrow> bool) \<Rightarrow> ('s \<Rightarrow> 's \<Rightarrow> bool) \<Rightarrow> 's \<Rightarrow> bool"
  for start :: "'s \<Rightarrow> bool" and move :: "'s \<Rightarrow> 's \<Rightarrow> bool" where
  reachable_start: "start s \<Longrightarrow> reachable start move s"
| reachable_move: "reachable start move s \<Longrightarrow> move s t \<Longrightarrow> reachable start move t"

text \<open>The contract a component's state machine offers: an invariant its steps keep.\<close>

locale invariant_system =
  fixes start :: "'s \<Rightarrow> bool"
    and move :: "'s \<Rightarrow> 's \<Rightarrow> bool"
    and inv :: "'s \<Rightarrow> bool"
  assumes inv_start: "start s \<Longrightarrow> inv s"
    and inv_move: "inv s \<Longrightarrow> move s t \<Longrightarrow> inv t"
begin

lemma inv_reachable: "reachable start move s \<Longrightarrow> inv s"
  by (induction rule: reachable.induct) (auto intro: inv_start inv_move)

lemma inv_steps: "move\<^sup>*\<^sup>* s t \<Longrightarrow> inv s \<Longrightarrow> inv t"
  by (induction rule: rtranclp_induct) (auto intro: inv_move)

end

end
