(* ===== verification/Errors.thy ===== *)
theory Errors imports Prelude begin

text \<open>
  JSON values (\<open>packages/core/src/json.ts\<close>) and the errors of the platform with the one rule for
  what an error may tell a caller (\<open>packages/core/src/errors.ts\<close>).
\<close>

section \<open>JSON values\<close>

datatype json =
  JNull
| JBool bool
| JNum rat
| JStr string
| JArr "json list"
| JObj "(string \<times> json) list"

fun isJsonObject :: "json option \<Rightarrow> bool" where
  "isJsonObject (Some (JObj _)) = True"
| "isJsonObject _ = False"

section \<open>Errors\<close>

datatype app_error_code =
  BAD_REQUEST | UNAUTHENTICATED | FORBIDDEN | NOT_FOUND | CONFLICT | TIMEOUT | VALIDATION_FAILED
| RATE_LIMITED | POLICY_DENIED | GUARDRAIL_BLOCKED | DECLINED | IDEMPOTENCY_KEY_REUSED
| OPERATION_IN_PROGRESS | OPERATION_EXPIRED | OUTPUT_NOT_RETAINED | INTERNAL

fun code_name :: "app_error_code \<Rightarrow> string" where
  "code_name BAD_REQUEST = ''BAD_REQUEST''"
| "code_name UNAUTHENTICATED = ''UNAUTHENTICATED''"
| "code_name FORBIDDEN = ''FORBIDDEN''"
| "code_name NOT_FOUND = ''NOT_FOUND''"
| "code_name CONFLICT = ''CONFLICT''"
| "code_name TIMEOUT = ''TIMEOUT''"
| "code_name VALIDATION_FAILED = ''VALIDATION_FAILED''"
| "code_name RATE_LIMITED = ''RATE_LIMITED''"
| "code_name POLICY_DENIED = ''POLICY_DENIED''"
| "code_name GUARDRAIL_BLOCKED = ''GUARDRAIL_BLOCKED''"
| "code_name DECLINED = ''DECLINED''"
| "code_name IDEMPOTENCY_KEY_REUSED = ''IDEMPOTENCY_KEY_REUSED''"
| "code_name OPERATION_IN_PROGRESS = ''OPERATION_IN_PROGRESS''"
| "code_name OPERATION_EXPIRED = ''OPERATION_EXPIRED''"
| "code_name OUTPUT_NOT_RETAINED = ''OUTPUT_NOT_RETAINED''"
| "code_name INTERNAL = ''INTERNAL''"

fun APP_ERROR_STATUS_CODES :: "app_error_code \<Rightarrow> nat" where
  "APP_ERROR_STATUS_CODES BAD_REQUEST = 400"
| "APP_ERROR_STATUS_CODES UNAUTHENTICATED = 401"
| "APP_ERROR_STATUS_CODES FORBIDDEN = 403"
| "APP_ERROR_STATUS_CODES NOT_FOUND = 404"
| "APP_ERROR_STATUS_CODES CONFLICT = 409"
| "APP_ERROR_STATUS_CODES TIMEOUT = 504"
| "APP_ERROR_STATUS_CODES VALIDATION_FAILED = 422"
| "APP_ERROR_STATUS_CODES RATE_LIMITED = 429"
| "APP_ERROR_STATUS_CODES POLICY_DENIED = 403"
| "APP_ERROR_STATUS_CODES GUARDRAIL_BLOCKED = 403"
| "APP_ERROR_STATUS_CODES DECLINED = 403"
| "APP_ERROR_STATUS_CODES IDEMPOTENCY_KEY_REUSED = 409"
| "APP_ERROR_STATUS_CODES OPERATION_IN_PROGRESS = 409"
| "APP_ERROR_STATUS_CODES OPERATION_EXPIRED = 409"
| "APP_ERROR_STATUS_CODES OUTPUT_NOT_RETAINED = 409"
| "APP_ERROR_STATUS_CODES INTERNAL = 500"

text \<open>
  The subclasses of \<open>AppError\<close> that the code tells apart with \<open>instanceof\<close> are a tag of the
  error, and every other thrown value is a \<open>Foreign_Error\<close> with its text.
\<close>

datatype error_class =
  Plain_Error | Model_Usage_Limit_Reached | Non_Retryable_Job | Job_Lease_Lost

record app_error =
  err_class :: error_class
  err_code :: app_error_code
  err_message :: string
  err_statusCode :: nat
  err_details :: "json option"
  err_exposeMessage :: bool

datatype js_error = App_Error app_error | Foreign_Error string

definition new_error ::
    "error_class \<Rightarrow> app_error_code \<Rightarrow> string \<Rightarrow> json option \<Rightarrow> bool option \<Rightarrow> js_error" where
  "new_error cls code message details expose =
     App_Error \<lparr> err_class = cls, err_code = code, err_message = message,
       err_statusCode = APP_ERROR_STATUS_CODES code, err_details = details,
       err_exposeMessage = (case expose of Some b \<Rightarrow> b | None \<Rightarrow> APP_ERROR_STATUS_CODES code < 500) \<rparr>"

abbreviation app_error :: "app_error_code \<Rightarrow> string \<Rightarrow> js_error" where
  "app_error code message \<equiv> new_error Plain_Error code message None None"

abbreviation app_error_with :: "app_error_code \<Rightarrow> string \<Rightarrow> json \<Rightarrow> js_error" where
  "app_error_with code message details \<equiv> new_error Plain_Error code message (Some details) None"

definition modelUsageLimitReachedError :: "string \<Rightarrow> js_error" where
  "modelUsageLimitReachedError message =
     new_error Model_Usage_Limit_Reached FORBIDDEN message None None"

fun isModelUsageLimitReached :: "js_error \<Rightarrow> bool" where
  "isModelUsageLimitReached (App_Error e) = (err_class e = Model_Usage_Limit_Reached)"
| "isModelUsageLimitReached (Foreign_Error _) = False"

fun isAppError :: "js_error \<Rightarrow> bool" where
  "isAppError (App_Error _) = True"
| "isAppError (Foreign_Error _) = False"

definition app_error_codes :: "app_error_code list" where
  "app_error_codes =
     [BAD_REQUEST, UNAUTHENTICATED, FORBIDDEN, NOT_FOUND, CONFLICT, TIMEOUT, VALIDATION_FAILED,
      RATE_LIMITED, POLICY_DENIED, GUARDRAIL_BLOCKED, DECLINED, IDEMPOTENCY_KEY_REUSED,
      OPERATION_IN_PROGRESS, OPERATION_EXPIRED, OUTPUT_NOT_RETAINED, INTERNAL]"

definition isAppErrorCode :: "string \<Rightarrow> bool" where
  "isAppErrorCode code \<longleftrightarrow> code \<in> set (map code_name app_error_codes)"

record error_envelope =
  env_statusCode :: nat
  env_code :: app_error_code
  env_message :: string
  env_details :: "json option"
  env_correlationId :: string

definition INTERNAL_ERROR_MESSAGE :: string where
  "INTERNAL_ERROR_MESSAGE = ''Internal server error''"

fun toErrorEnvelope :: "js_error \<Rightarrow> string \<Rightarrow> error_envelope" where
  "toErrorEnvelope (Foreign_Error _) correlationId =
     \<lparr> env_statusCode = 500, env_code = INTERNAL, env_message = INTERNAL_ERROR_MESSAGE,
       env_details = None, env_correlationId = correlationId \<rparr>"
| "toErrorEnvelope (App_Error e) correlationId =
     \<lparr> env_statusCode = err_statusCode e, env_code = err_code e,
       env_message =
         (if err_code e \<noteq> INTERNAL \<and> err_exposeMessage e then err_message e
          else INTERNAL_ERROR_MESSAGE),
       env_details = (if err_statusCode e < 500 then err_details e else None),
       env_correlationId = correlationId \<rparr>"

section \<open>What an envelope shows\<close>

text \<open>A well-formed error is one a constructor of the code made.\<close>

definition constructed :: "js_error \<Rightarrow> bool" where
  "constructed e \<longleftrightarrow>
     (case e of Foreign_Error _ \<Rightarrow> True
      | App_Error a \<Rightarrow> err_statusCode a = APP_ERROR_STATUS_CODES (err_code a))"

lemma constructed_new_error [simp]: "constructed (new_error cls code message details expose)"
  by (simp add: constructed_def new_error_def)

lemma all_error_codes: "code \<in> set app_error_codes"
  by (cases code) (simp_all add: app_error_codes_def)

lemma isAppErrorCode_code_name [simp]: "isAppErrorCode (code_name code)"
  using all_error_codes by (auto simp: isAppErrorCode_def)

lemma envelope_code_status:
  "constructed e \<Longrightarrow>
    env_statusCode (toErrorEnvelope e c) = APP_ERROR_STATUS_CODES (env_code (toErrorEnvelope e c))"
  by (cases e) (auto simp: constructed_def)

lemma status_internal_range:
  "400 \<le> APP_ERROR_STATUS_CODES code \<and> APP_ERROR_STATUS_CODES code \<le> 504"
  by (cases code) simp_all

lemma status_code_500: "500 \<le> APP_ERROR_STATUS_CODES code \<longleftrightarrow> code = TIMEOUT \<or> code = INTERNAL"
  by (cases code) simp_all

text \<open>
  Two errors that differ only in what must stay inside (the message of an internal error, the
  details of a server error) give the same envelope: the envelope is a function of the rest.
\<close>

definition same_outside :: "js_error \<Rightarrow> js_error \<Rightarrow> bool" where
  "same_outside x y \<longleftrightarrow>
     (case (x, y) of
        (App_Error a, App_Error b) \<Rightarrow>
          err_code a = err_code b \<and> err_statusCode a = err_statusCode b \<and>
          err_exposeMessage a = err_exposeMessage b \<and>
          (err_code a \<noteq> INTERNAL \<and> err_exposeMessage a \<longrightarrow> err_message a = err_message b) \<and>
          (err_statusCode a < 500 \<longrightarrow> err_details a = err_details b)
      | (Foreign_Error _, Foreign_Error _) \<Rightarrow> True
      | _ \<Rightarrow> False)"

lemma envelope_same_outside: "same_outside x y \<Longrightarrow> toErrorEnvelope x c = toErrorEnvelope y c"
  by (cases x; cases y) (auto simp: same_outside_def)

text \<open>
  An envelope tells a caller no more than it may: its status is the one of its code; it has no
  details when the status is a server error; of an internal or a foreign error it carries the one
  generic message; and two errors that agree in what is public give the same envelope.
\<close>

theorem envelopes_leak_nothing:
  assumes "constructed e"
  shows "env_statusCode (toErrorEnvelope e c) = APP_ERROR_STATUS_CODES (env_code (toErrorEnvelope e c)) \<and>
    (500 \<le> env_statusCode (toErrorEnvelope e c) \<longrightarrow> env_details (toErrorEnvelope e c) = None) \<and>
    (env_code (toErrorEnvelope e c) = INTERNAL \<longrightarrow>
       env_message (toErrorEnvelope e c) = INTERNAL_ERROR_MESSAGE) \<and>
    (same_outside e f \<longrightarrow> toErrorEnvelope e c = toErrorEnvelope f c)"
proof -
  have "(500 \<le> env_statusCode (toErrorEnvelope e c) \<longrightarrow> env_details (toErrorEnvelope e c) = None) \<and>
    (env_code (toErrorEnvelope e c) = INTERNAL \<longrightarrow> env_message (toErrorEnvelope e c) = INTERNAL_ERROR_MESSAGE)"
    by (cases e) auto
  then show ?thesis using envelope_code_status[OF assms] envelope_same_outside[of e f] by blast
qed

lemma envelopes_leak_nothing_witness:
  "toErrorEnvelope (app_error INTERNAL ''no such table: users'') ''c1'' =
    toErrorEnvelope (app_error INTERNAL ''disk full'') ''c1''"
  using envelopes_leak_nothing[of "app_error INTERNAL ''no such table: users''" "''c1''" "app_error INTERNAL ''disk full''"]
  by (simp add: same_outside_def new_error_def constructed_def)

end
