(* ===== verification/Job_Kinds.thy ===== *)
theory Job_Kinds imports Errors begin

text \<open>
  The declarations of the job executor (\<open>packages/core/src/jobs.ts\<close>): the statuses of a job, the
  kinds and schedules with their validation, the dedupe keys, and the payload schema of a tick.
  Times are milliseconds. A number of a declaration is a \<^typ>\<open>rat\<close>, so that the checks for whole
  numbers mean what they do in the code.
\<close>

type_synonym time = rat

datatype job_status = Queued | Running | Succeeded | Failed | Dead | Cancelled

record job_backoff =
  baseMs :: rat
  maxMs :: rat

record job_concurrency =
  conc_global :: "rat option"
  conc_perKey :: "rat option"

record job_kind =
  kind :: string
  payloadSchema :: "json \<Rightarrow> (js_error, json) result"
  maxAttempts :: rat
  kind_backoff :: job_backoff
  leaseMs :: rat
  heartbeatMs :: "rat option"
  concurrency :: job_concurrency
  manualRetry :: bool

definition is_integer :: "rat \<Rightarrow> bool" where
  "is_integer x \<longleftrightarrow> of_int \<lfloor>x\<rfloor> = x"

definition positive_integer :: "rat \<Rightarrow> bool" where
  "positive_integer x \<longleftrightarrow> is_integer x \<and> 0 < x"

text \<open>The name of a kind: \<open>/^[a-z][a-z0-9_]*(?:\.[a-z][a-z0-9_]*)+$/u\<close>.\<close>

definition is_lower :: "char \<Rightarrow> bool" where
  "is_lower c \<longleftrightarrow> CHR ''a'' \<le> c \<and> c \<le> CHR ''z''"

definition is_digit :: "char \<Rightarrow> bool" where
  "is_digit c \<longleftrightarrow> CHR ''0'' \<le> c \<and> c \<le> CHR ''9''"

fun is_kind_word :: "string \<Rightarrow> bool" where
  "is_kind_word [] = False"
| "is_kind_word (c # cs) =
     (is_lower c \<and> list_all (\<lambda>d. is_lower d \<or> is_digit d \<or> d = CHR ''_'') cs)"

definition is_kind_name :: "string \<Rightarrow> bool" where
  "is_kind_name s \<longleftrightarrow>
     2 \<le> length (split_on CHR ''.'' s) \<and> list_all is_kind_word (split_on CHR ''.'' s)"

definition defineJobKind :: "job_kind \<Rightarrow> (js_error, job_kind) result" where
  "defineJobKind k =
     (let positive =
        [maxAttempts k, leaseMs k, case conc_global (concurrency k) of None \<Rightarrow> 1 | Some g \<Rightarrow> g,
         case conc_perKey (concurrency k) of None \<Rightarrow> 1 | Some p \<Rightarrow> p]
      in
        if \<not> is_kind_name (kind k) then
          Inl (app_error VALIDATION_FAILED
            (''Job kind '' @ quoted (kind k) @ '' must be named <subject>.<verb>''))
        else if \<not> list_all positive_integer positive then
          Inl (app_error VALIDATION_FAILED
            (''Job kind '' @ quoted (kind k)
              @ '' needs positive whole numbers for attempts, lease and concurrency''))
        else if (case heartbeatMs k of None \<Rightarrow> False
                 | Some h \<Rightarrow> \<not> (positive_integer h \<and> h < leaseMs k)) then
          Inl (app_error VALIDATION_FAILED
            (''Job kind '' @ quoted (kind k)
              @ '' needs a heartbeat that is a positive whole number below its lease''))
        else if \<not> (0 \<le> baseMs (kind_backoff k) \<and> baseMs (kind_backoff k) \<le> maxMs (kind_backoff k))
        then Inl (app_error VALIDATION_FAILED (''Job kind '' @ quoted (kind k) @ '' has an invalid backoff''))
        else Inr k)"

record job_schedule =
  sched_kind :: job_kind
  every :: rat
  dueAtStart :: bool

definition defineSchedule :: "job_schedule \<Rightarrow> (js_error, job_schedule) result" where
  "defineSchedule s =
     (if \<not> positive_integer (every s) then
        Inl (app_error VALIDATION_FAILED
          (''Schedule of '' @ quoted (kind (sched_kind s)) @ '' needs a positive interval''))
      else if maxAttempts (sched_kind s) \<noteq> 1 then
        Inl (app_error VALIDATION_FAILED
          (''Scheduled kind '' @ quoted (kind (sched_kind s))
            @ '' has one attempt; the next tick is the retry''))
      else Inr s)"

definition subjectDedupeKey :: "string \<Rightarrow> string \<Rightarrow> string" where
  "subjectDedupeKey k subjectId = k @ '':'' @ subjectId"

definition scheduleDedupeKey :: "string \<Rightarrow> string" where
  "scheduleDedupeKey k = ''schedule:'' @ k"

text \<open>The schema of a tick: an empty object, answered as one.\<close>

fun scheduledJobPayloadSchema :: "json \<Rightarrow> (js_error, json) result" where
  "scheduledJobPayloadSchema (JObj []) = Inr (JObj [])"
| "scheduledJobPayloadSchema _ =
     Inl (app_error VALIDATION_FAILED ''A schedule tick carries no payload'')"

definition nonRetryableJobError :: "string \<Rightarrow> js_error" where
  "nonRetryableJobError message = new_error Non_Retryable_Job CONFLICT message None None"

definition jobLeaseLostError :: "string \<Rightarrow> js_error" where
  "jobLeaseLostError jobId =
     new_error Job_Lease_Lost CONFLICT (''Job '' @ jobId @ '' is no longer leased to this attempt'')
       None None"

fun is_error_class :: "error_class \<Rightarrow> js_error \<Rightarrow> bool" where
  "is_error_class c (App_Error e) = (err_class e = c)"
| "is_error_class c (Foreign_Error _) = False"

section \<open>What a defined kind guarantees\<close>

text \<open>The numbers of a defined kind, as the lemmas below use them.\<close>

definition valid_kind :: "job_kind \<Rightarrow> bool" where
  "valid_kind k \<longleftrightarrow> defineJobKind k = Inr k"

lemma defineJobKind_id: "defineJobKind k = Inr k' \<Longrightarrow> k' = k"
  by (auto simp: defineJobKind_def Let_def split: if_splits)

lemma valid_kind_numbers:
  assumes "valid_kind k"
  shows valid_kind_name: "is_kind_name (kind k)"
    and valid_kind_attempts: "positive_integer (maxAttempts k)"
    and valid_kind_lease: "positive_integer (leaseMs k)"
    and valid_kind_global: "\<And>g. conc_global (concurrency k) = Some g \<Longrightarrow> positive_integer g"
    and valid_kind_perKey: "\<And>p. conc_perKey (concurrency k) = Some p \<Longrightarrow> positive_integer p"
    and valid_kind_backoff:
      "0 \<le> baseMs (kind_backoff k) \<and> baseMs (kind_backoff k) \<le> maxMs (kind_backoff k)"
  using assms by (auto simp: valid_kind_def defineJobKind_def Let_def split: if_splits)

lemma valid_kind_heartbeat:
  "valid_kind k \<Longrightarrow> heartbeatMs k = Some h \<Longrightarrow> 0 < h \<and> h < leaseMs k"
  by (auto simp: valid_kind_def defineJobKind_def Let_def positive_integer_def split: if_splits)

lemma positive_integer_nat:
  assumes "positive_integer x"
  obtains n where "x = of_nat n" "0 < n"
proof -
  from assms have eq: "of_int \<lfloor>x\<rfloor> = x" and pos: "0 < x"
    by (simp_all add: positive_integer_def is_integer_def)
  from pos eq have "0 < \<lfloor>x\<rfloor>" by (metis of_int_0_less_iff)
  then have whole: "of_nat (nat \<lfloor>x\<rfloor>) = (of_int \<lfloor>x\<rfloor> :: rat)" by (simp add: of_nat_nat)
  have "x = of_nat (nat \<lfloor>x\<rfloor>)" by (rule trans [OF eq [symmetric] whole [symmetric]])
  moreover have "0 < nat \<lfloor>x\<rfloor>" using \<open>0 < \<lfloor>x\<rfloor>\<close> by simp
  ultimately show ?thesis by (rule that)
qed

lemma kind_word_chars:
  "is_kind_word w \<Longrightarrow> c \<in> set w \<Longrightarrow> is_lower c \<or> is_digit c \<or> c = CHR ''_''"
  by (cases w) (auto simp: list_all_iff)

lemma kind_name_no_colon:
  assumes "is_kind_name s"
  shows "CHR '':'' \<notin> set s"
proof
  assume colon: "CHR '':'' \<in> set s"
  have "\<exists>p \<in> set (split_on CHR ''.'' s). CHR '':'' \<in> set p" if "CHR '':'' \<in> set s" for s :: string
    using that by (induction s) (auto split: list.splits)
  with colon obtain p where p: "p \<in> set (split_on CHR ''.'' s)" "CHR '':'' \<in> set p" by blast
  with assms have "is_kind_word p" by (auto simp: is_kind_name_def list_all_iff)
  with p(2) have "is_lower CHR '':'' \<or> is_digit CHR '':'' \<or> CHR '':'' = CHR ''_''"
    using kind_word_chars by blast
  then show False by (simp add: is_lower_def is_digit_def less_eq_char_def)
qed

lemma schedule_not_kind_name: "\<not> is_kind_name ''schedule''"
  by (simp add: is_kind_name_def)

text \<open>
  Dedupe keys do not collide: of kinds that \<open>defineJobKind\<close> accepts, the keys of two subjects
  agree only for the same kind and subject, the keys of two schedules only for the same kind, and no
  subject's key is ever the key of a schedule, whatever the subject's id.
\<close>

theorem dedupe_keys_do_not_collide:
  assumes "valid_kind k" and "valid_kind k'"
  shows "(subjectDedupeKey (kind k) s = subjectDedupeKey (kind k') s' \<longleftrightarrow> kind k = kind k' \<and> s = s') \<and>
    (scheduleDedupeKey (kind k) = scheduleDedupeKey (kind k') \<longleftrightarrow> kind k = kind k') \<and>
    subjectDedupeKey (kind k) s \<noteq> scheduleDedupeKey (kind k')"
proof -
  note colon = kind_name_no_colon[OF valid_kind_name[OF assms(1)]]
    kind_name_no_colon[OF valid_kind_name[OF assms(2)]]
  have schedule: "scheduleDedupeKey name = ''schedule'' @ CHR '':'' # name" for name
    by (simp add: scheduleDedupeKey_def)
  have "kind k \<noteq> ''schedule''" using valid_kind_name[OF assms(1)] schedule_not_kind_name by metis
  then have "subjectDedupeKey (kind k) s \<noteq> scheduleDedupeKey (kind k')"
    unfolding schedule subjectDedupeKey_def using append_char_unique[OF colon(1), of "''schedule''"] by simp
  moreover have "subjectDedupeKey (kind k) s = subjectDedupeKey (kind k') s' \<longleftrightarrow> kind k = kind k' \<and> s = s'"
    unfolding subjectDedupeKey_def using append_char_unique[OF colon] by simp
  ultimately show ?thesis by (simp add: scheduleDedupeKey_def)
qed

definition sample_kind :: job_kind where
  "sample_kind =
     \<lparr> kind = ''file.prepare'', payloadSchema = Inr, maxAttempts = 3,
       kind_backoff = \<lparr> baseMs = 1000, maxMs = 60000 \<rparr>, leaseMs = 30000, heartbeatMs = Some 5000,
       concurrency = \<lparr> conc_global = None, conc_perKey = None \<rparr>, manualRetry = True \<rparr>"

lemma sample_kind_valid: "valid_kind sample_kind"
  by (simp add: valid_kind_def defineJobKind_def sample_kind_def Let_def is_kind_name_def is_lower_def
      positive_integer_def is_integer_def less_eq_char_def)

lemma dedupe_keys_do_not_collide_witness:
  "subjectDedupeKey ''file.prepare'' ''jobs.prune'' \<noteq> scheduleDedupeKey ''file.prepare''"
  using dedupe_keys_do_not_collide[OF sample_kind_valid sample_kind_valid] by (simp add: sample_kind_def)

end
