(* ===== verification/Job_Store.thy ===== *)
theory Job_Store imports Job_Kinds begin

text \<open>
  The job table and the statements over it (\<open>packages/postgres-store/src/jobs/store.ts\<close> and
  \<open>admin-queries.ts\<close>, table \<open>platform_jobs\<close> of \<open>schema/jobs.ts\<close>).

  The table is the list of its rows. Each operation is one transaction: a function of the table as
  it is when the statement runs. \<open>now\<close> is the time of the transaction, \<open>clock\<close> the wall clock of
  the statement. What comes from outside the table is an argument: generated ids and tokens, the
  rows another transaction has locked, and what other transactions committed in between.
\<close>

section \<open>Rows\<close>

record job_row =
  row_id :: string
  row_instance :: string
  row_kind :: string
  row_subject :: "string option"
  row_payload :: json
  row_status :: job_status
  row_runAfter :: time
  row_attempts :: int
  row_maxAttempts :: int
  row_leaseOwner :: "string option"
  row_leaseToken :: "string option"
  row_leaseExpiresAt :: "time option"
  row_heartbeatAt :: "time option"
  row_dedupeKey :: "string option"
  row_concurrencyKey :: "string option"
  row_errorCode :: "string option"
  row_errorMessage :: "string option"
  row_correlationId :: string
  row_createdAt :: time
  row_startedAt :: "time option"
  row_finishedAt :: "time option"

type_synonym jobs = "job_row list"

record job_lease =
  lease_jobId :: string
  lease_token :: string

definition COMPLETED_JOB_RETENTION_DAYS :: rat where
  "COMPLETED_JOB_RETENTION_DAYS = 7"

definition FAILED_JOB_RETENTION_DAYS :: rat where
  "FAILED_JOB_RETENTION_DAYS = 30"

definition EXHAUSTED_BATCH_SIZE :: nat where
  "EXHAUSTED_BATCH_SIZE = 20"

text \<open>
  A job as the product sees it. A \<open>null\<close> column is an absent property. A date leaves as its
  millisecond, which is what \<open>toISOString\<close> writes of it.
\<close>

record job =
  job_id :: string
  job_instance :: string
  job_kindName :: string
  job_subject :: "string option"
  job_payload :: json
  job_status :: job_status
  job_runAfter :: int
  job_attempts :: int
  job_maxAttempts :: int
  job_dedupeKey :: "string option"
  job_concurrencyKey :: "string option"
  job_errorCode :: "string option"
  job_errorMessage :: "string option"
  job_correlationId :: string
  job_createdAt :: int
  job_startedAt :: "int option"
  job_finishedAt :: "int option"

definition mapJob :: "job_row \<Rightarrow> job" where
  "mapJob r =
     \<lparr> job_id = row_id r, job_instance = row_instance r, job_kindName = row_kind r,
       job_subject = row_subject r, job_payload = row_payload r, job_status = row_status r,
       job_runAfter = \<lfloor>row_runAfter r\<rfloor>, job_attempts = row_attempts r,
       job_maxAttempts = row_maxAttempts r, job_dedupeKey = row_dedupeKey r,
       job_concurrencyKey = row_concurrencyKey r, job_errorCode = row_errorCode r,
       job_errorMessage = row_errorMessage r, job_correlationId = row_correlationId r,
       job_createdAt = \<lfloor>row_createdAt r\<rfloor>, job_startedAt = map_option floor (row_startedAt r),
       job_finishedAt = map_option floor (row_finishedAt r) \<rparr>"

section \<open>Enqueue\<close>

record enqueue_options =
  opt_instance :: string
  opt_subject :: "string option"
  opt_runAfter :: "time option"
  opt_dedupeKey :: "string option"
  opt_concurrencyKey :: "string option"
  opt_correlationId :: "string option"
  opt_delayMs :: "rat option"

definition live :: "job_row \<Rightarrow> bool" where
  "live r \<longleftrightarrow> row_status r = Queued \<or> row_status r = Running"

text \<open>The live job of a dedupe key: the index \<open>platform_jobs_live_dedupe_idx\<close> allows one.\<close>

definition live_of :: "string \<Rightarrow> string \<Rightarrow> string option \<Rightarrow> job_row \<Rightarrow> bool" where
  "live_of inst k dedupe r \<longleftrightarrow>
     row_instance r = inst \<and> row_kind r = k \<and>
     (case dedupe of None \<Rightarrow> False | Some d \<Rightarrow> row_dedupeKey r = Some d) \<and> live r"

definition new_row ::
    "time \<Rightarrow> job_kind \<Rightarrow> json \<Rightarrow> enqueue_options \<Rightarrow> string \<Rightarrow> string \<Rightarrow> job_row" where
  "new_row now k payload options newId newCorrelation =
     \<lparr> row_id = newId, row_instance = opt_instance options, row_kind = kind k,
       row_subject = opt_subject options, row_payload = payload, row_status = Queued,
       row_runAfter =
         (case opt_runAfter options of Some t \<Rightarrow> t
          | None \<Rightarrow> now + (case opt_delayMs options of None \<Rightarrow> 0 | Some d \<Rightarrow> d)),
       row_attempts = 0, row_maxAttempts = \<lfloor>maxAttempts k\<rfloor>,
       row_leaseOwner = None, row_leaseToken = None, row_leaseExpiresAt = None,
       row_heartbeatAt = None,
       row_dedupeKey = opt_dedupeKey options, row_concurrencyKey = opt_concurrencyKey options,
       row_errorCode = None, row_errorMessage = None,
       row_correlationId =
         (case opt_correlationId options of Some c \<Rightarrow> c | None \<Rightarrow> newCorrelation),
       row_createdAt = now, row_startedAt = None, row_finishedAt = None \<rparr>"

text \<open>
  \<open>insert ... on conflict do nothing\<close> on the dedupe index: the table with the row, or nothing when
  the index refuses it. A duplicate primary key is an error of the database.
\<close>

definition insert_job :: "jobs \<Rightarrow> job_row \<Rightarrow> (js_error, jobs option) result" where
  "insert_job db r =
     (if row_id r \<in> set (map row_id db) then Inl (Foreign_Error ''duplicate key value'')
      else if list_ex (live_of (row_instance r) (row_kind r) (row_dedupeKey r)) db then Inr None
      else Inr (Some (db @ [r])))"

text \<open>
  The loop of \<open>enqueueJob\<close>: \<open>n\<close> rounds are left and \<open>i\<close> were made. \<open>env i\<close> is what other transactions
  commit between the refused insert of round \<open>i\<close> and the read after it, \<open>between i\<close> what they
  commit before the next round.
\<close>

fun enqueue_rounds ::
    "nat \<Rightarrow> nat \<Rightarrow> (nat \<Rightarrow> jobs \<Rightarrow> jobs) \<Rightarrow> (nat \<Rightarrow> jobs \<Rightarrow> jobs) \<Rightarrow> time \<Rightarrow> job_kind \<Rightarrow> json \<Rightarrow>
      enqueue_options \<Rightarrow> (nat \<Rightarrow> string) \<Rightarrow> (nat \<Rightarrow> string) \<Rightarrow> jobs \<Rightarrow>
      (js_error, jobs \<times> job) result" where
  "enqueue_rounds 0 i env between now k payload options ids corrs db =
     Inl (app_error CONFLICT (''Job of kind '' @ quoted (kind k) @ '' could not be enqueued''))"
| "enqueue_rounds (Suc n) i env between now k payload options ids corrs db =
     (let row = new_row now k payload options (ids i) (corrs i) in
      case insert_job db row of
        Inl e \<Rightarrow> Inl e
      | Inr (Some db') \<Rightarrow> Inr (db', (mapJob row)\<lparr>job_payload := payload\<rparr>)
      | Inr None \<Rightarrow>
          (let db' = env i db in
           case List.find (live_of (opt_instance options) (kind k) (opt_dedupeKey options)) db' of
             Some existing \<Rightarrow>
               (case payloadSchema k (row_payload existing) of
                  Inl e \<Rightarrow> Inl e
                | Inr p \<Rightarrow> Inr (db', (mapJob existing)\<lparr>job_payload := p\<rparr>))
           | None \<Rightarrow>
               enqueue_rounds n (Suc i) env between now k payload options ids corrs (between i db')))"

definition enqueueJob ::
    "(nat \<Rightarrow> jobs \<Rightarrow> jobs) \<Rightarrow> (nat \<Rightarrow> jobs \<Rightarrow> jobs) \<Rightarrow> time \<Rightarrow> job_kind \<Rightarrow> json \<Rightarrow> enqueue_options \<Rightarrow>
      (nat \<Rightarrow> string) \<Rightarrow> (nat \<Rightarrow> string) \<Rightarrow> jobs \<Rightarrow> (js_error, jobs \<times> job) result" where
  "enqueueJob env between now k payload options ids corrs db =
     (case payloadSchema k payload of
        Inl e \<Rightarrow> Inl e
      | Inr validated \<Rightarrow>
          enqueue_rounds 5 0 env between now k validated options ids corrs db)"

definition quiet :: "nat \<Rightarrow> jobs \<Rightarrow> jobs" where
  "quiet i db = db"

definition withdraw :: "string \<Rightarrow> job_kind \<Rightarrow> string \<Rightarrow> jobs \<Rightarrow> jobs" where
  "withdraw inst k dedupe db =
     delete_where (\<lambda>r. row_instance r = inst \<and> row_kind r = kind k \<and>
       row_dedupeKey r = Some dedupe \<and> row_status r = Queued) db"

section \<open>Pruning\<close>

text \<open>A user or a Shared Workspace, as far as pruning reads it.\<close>

record deletion_row =
  del_instance :: string
  del_id :: string
  del_requestedAt :: "time option"

definition marked_for_deletion :: "deletion_row list \<Rightarrow> job_row \<Rightarrow> bool" where
  "marked_for_deletion rows r \<longleftrightarrow>
     list_ex (\<lambda>d. del_instance d = row_instance r \<and> Some (del_id d) = row_subject r \<and>
       del_requestedAt d \<noteq> None) rows"

definition deadJobOfSubjectInDeletion ::
    "deletion_row list \<Rightarrow> deletion_row list \<Rightarrow> job_row \<Rightarrow> bool" where
  "deadJobOfSubjectInDeletion users workspaces r \<longleftrightarrow>
     row_status r = Dead \<and> (marked_for_deletion users r \<or> marked_for_deletion workspaces r)"

definition day_ms :: rat where
  "day_ms = 86400000"

definition ended_before ::
    "time \<Rightarrow> deletion_row list \<Rightarrow> deletion_row list \<Rightarrow> string \<Rightarrow> job_status list \<Rightarrow> rat \<Rightarrow>
      job_row \<Rightarrow> bool" where
  "ended_before now users workspaces inst statuses days r \<longleftrightarrow>
     row_instance r = inst \<and> row_status r \<in> set statuses \<and>
     (case row_finishedAt r of None \<Rightarrow> False | Some t \<Rightarrow> t < now - days * day_ms) \<and>
     \<not> deadJobOfSubjectInDeletion users workspaces r"

definition pruneEndedJobs ::
    "time \<Rightarrow> deletion_row list \<Rightarrow> deletion_row list \<Rightarrow> string \<Rightarrow> jobs \<Rightarrow> jobs \<times> nat \<times> nat" where
  "pruneEndedJobs now users workspaces inst db =
     (let completed = ended_before now users workspaces inst [Succeeded, Cancelled]
            COMPLETED_JOB_RETENTION_DAYS;
          db1 = delete_where completed db;
          failed = ended_before now users workspaces inst [Failed, Dead] FAILED_JOB_RETENTION_DAYS
      in (delete_where failed db1, count_where completed db, count_where failed db1))"

section \<open>Schedules\<close>

definition tick_options :: "string \<Rightarrow> job_schedule \<Rightarrow> rat option \<Rightarrow> enqueue_options" where
  "tick_options inst s delay =
     \<lparr> opt_instance = inst, opt_subject = None, opt_runAfter = None,
       opt_dedupeKey = Some (scheduleDedupeKey (kind (sched_kind s))), opt_concurrencyKey = None,
       opt_correlationId = None, opt_delayMs = delay \<rparr>"

definition ensureScheduleTick ::
    "time \<Rightarrow> string \<Rightarrow> job_schedule \<Rightarrow> (nat \<Rightarrow> string) \<Rightarrow> (nat \<Rightarrow> string) \<Rightarrow> jobs \<Rightarrow>
      (js_error, jobs) result" where
  "ensureScheduleTick now inst s ids corrs db =
     bind_result
       (enqueueJob quiet quiet now (sched_kind s) (JObj []) (tick_options inst s None) ids corrs db)
       (\<lambda>(db', job). Inr db')"

definition makeScheduleTickDue :: "time \<Rightarrow> string \<Rightarrow> job_schedule \<Rightarrow> jobs \<Rightarrow> jobs" where
  "makeScheduleTickDue now inst s db =
     update_where (\<lambda>r. row_instance r = inst \<and> row_kind r = kind (sched_kind s) \<and>
         row_dedupeKey r = Some (scheduleDedupeKey (kind (sched_kind s))) \<and>
         row_status r = Queued \<and> now < row_runAfter r)
       (\<lambda>r. r\<lparr>row_runAfter := now\<rparr>) db"

definition enqueueNextScheduleTick ::
    "time \<Rightarrow> string \<Rightarrow> job_schedule \<Rightarrow> (nat \<Rightarrow> string) \<Rightarrow> (nat \<Rightarrow> string) \<Rightarrow> jobs \<Rightarrow>
      (js_error, jobs) result" where
  "enqueueNextScheduleTick now inst s ids corrs db =
     bind_result
       (enqueueJob quiet quiet now (sched_kind s) (JObj []) (tick_options inst s (Some (every s)))
         ids corrs db)
       (\<lambda>(db', job). Inr db')"

section \<open>Leases\<close>

definition of_kind :: "string \<Rightarrow> string \<Rightarrow> job_row \<Rightarrow> bool" where
  "of_kind inst k r \<longleftrightarrow> row_instance r = inst \<and> row_kind r = k"

definition lease_expired :: "time \<Rightarrow> job_row \<Rightarrow> bool" where
  "lease_expired now r \<longleftrightarrow> (case row_leaseExpiresAt r of None \<Rightarrow> False | Some t \<Rightarrow> t < now)"

definition noLease :: "job_row \<Rightarrow> job_row" where
  "noLease r = r\<lparr>row_leaseOwner := None, row_leaseToken := None, row_leaseExpiresAt := None\<rparr>"

definition exhausted :: "time \<Rightarrow> job_row \<Rightarrow> bool" where
  "exhausted now r \<longleftrightarrow>
     row_status r = Running \<and> lease_expired now r \<and> row_maxAttempts r \<le> row_attempts r"

text \<open>The lease is this attempt's and has not run out, by the wall clock.\<close>

definition heldBy :: "time \<Rightarrow> job_lease \<Rightarrow> job_row \<Rightarrow> bool" where
  "heldBy clock lease r \<longleftrightarrow>
     row_id r = lease_jobId lease \<and> row_leaseToken r = Some (lease_token lease) \<and>
     row_status r = Running \<and>
     (case row_leaseExpiresAt r of None \<Rightarrow> False | Some t \<Rightarrow> clock < t)"

definition backoff :: "job_kind \<Rightarrow> job_row \<Rightarrow> rat" where
  "backoff k r =
     min (maxMs (kind_backoff k)) (baseMs (kind_backoff k) * 2 ^ nat (max (row_attempts r - 1) 0))"

definition listKindsWithWork :: "time \<Rightarrow> string \<Rightarrow> string list \<Rightarrow> jobs \<Rightarrow> string set" where
  "listKindsWithWork now inst kinds db =
     set (map row_kind (filter (\<lambda>r. row_instance r = inst \<and> row_kind r \<in> set kinds \<and>
       (row_status r = Queued \<and> row_runAfter r \<le> now \<or>
        row_status r = Running \<and> lease_expired now r)) db))"

text \<open>Recovery counts the attempt: the job waits out its backoff like after a failure.\<close>

definition recoverable :: "time \<Rightarrow> string \<Rightarrow> job_kind \<Rightarrow> job_row \<Rightarrow> bool" where
  "recoverable now inst k r \<longleftrightarrow>
     of_kind inst (kind k) r \<and> row_status r = Running \<and> lease_expired now r \<and>
     row_attempts r < row_maxAttempts r"

definition recovered :: "time \<Rightarrow> job_kind \<Rightarrow> job_row \<Rightarrow> job_row" where
  "recovered now k r =
     noLease (r\<lparr>row_status := Queued, row_runAfter := now + backoff k r,
       row_errorCode := Some ''LEASE_EXPIRED'',
       row_errorMessage := Some ''The lease expired without a heartbeat''\<rparr>)"

definition running_of :: "string \<Rightarrow> string \<Rightarrow> job_row \<Rightarrow> bool" where
  "running_of inst k r \<longleftrightarrow> of_kind inst k r \<and> row_status r = Running"

definition running_with_key :: "string \<Rightarrow> string \<Rightarrow> string \<Rightarrow> job_row \<Rightarrow> bool" where
  "running_with_key inst k key r \<longleftrightarrow> running_of inst k r \<and> row_concurrencyKey r = Some key"

text \<open>\<open>locked\<close> are the ids whose rows another transaction holds: \<open>for update skip locked\<close>.\<close>

definition claimable ::
    "time \<Rightarrow> string \<Rightarrow> job_kind \<Rightarrow> (string \<Rightarrow> bool) \<Rightarrow> jobs \<Rightarrow> job_row \<Rightarrow> bool" where
  "claimable now inst k locked db r \<longleftrightarrow>
     of_kind inst (kind k) r \<and> row_status r = Queued \<and> row_runAfter r \<le> now \<and>
     (case conc_perKey (concurrency k) of None \<Rightarrow> True
      | Some limit \<Rightarrow>
          (case row_concurrencyKey r of None \<Rightarrow> True
           | Some key \<Rightarrow> of_nat (count_where (running_with_key inst (kind k) key) db) < limit)) \<and>
     \<not> locked (row_id r)"

definition claim_order :: "job_row \<Rightarrow> time \<times> time \<times> string" where
  "claim_order r = (row_runAfter r, row_createdAt r, row_id r)"

definition next_candidate ::
    "time \<Rightarrow> string \<Rightarrow> job_kind \<Rightarrow> (string \<Rightarrow> bool) \<Rightarrow> jobs \<Rightarrow> job_row option" where
  "next_candidate now inst k locked db =
     least_by claim_order (filter (claimable now inst k locked db) db)"

definition mark_running :: "time \<Rightarrow> job_kind \<Rightarrow> string \<Rightarrow> string \<Rightarrow> job_row \<Rightarrow> job_row" where
  "mark_running now k workerId token r =
     r\<lparr>row_status := Running, row_attempts := row_attempts r + 1, row_leaseOwner := Some workerId,
       row_leaseToken := Some token, row_leaseExpiresAt := Some (now + leaseMs k),
       row_heartbeatAt := Some now, row_startedAt := Some now\<rparr>"

text \<open>
  One claim at a time, so each counts the ones before it against the limit per key. \<open>tokens i\<close> is
  the token the database generates for the claim after \<open>i\<close> others.
\<close>

function claim_loop ::
    "time \<Rightarrow> string \<Rightarrow> job_kind \<Rightarrow> string \<Rightarrow> (nat \<Rightarrow> string) \<Rightarrow> (string \<Rightarrow> bool) \<Rightarrow> rat \<Rightarrow>
      jobs \<Rightarrow> job_row list \<Rightarrow> jobs \<times> job_row list" where
  "claim_loop now inst k workerId tokens locked free db claimed =
     (if of_nat (length claimed) < free then
        (case next_candidate now inst k locked db of
           None \<Rightarrow> (db, claimed)
         | Some c \<Rightarrow>
             (let running = mark_running now k workerId (tokens (length claimed)) in
              claim_loop now inst k workerId tokens locked free
                (update_where (\<lambda>r. row_id r = row_id c) running db) (claimed @ [running c])))
      else (db, claimed))"
  by pat_completeness auto
termination
proof (relation "measure (\<lambda>(now, inst, k, workerId, tokens, locked, free, db, claimed).
    nat (\<lceil>free\<rceil> - int (length claimed)))", goal_cases)
  case 1
  show ?case by simp
next
  case (2 now inst k workerId tokens locked free db claimed c running)
  then have "int (length claimed) < \<lceil>free\<rceil>"
    by (metis less_ceiling_iff of_int_of_nat_eq)
  then show ?case by simp
qed

declare claim_loop.simps [simp del]

definition claimJobs ::
    "time \<Rightarrow> string \<Rightarrow> job_kind \<Rightarrow> string \<Rightarrow> rat \<Rightarrow> (nat \<Rightarrow> string) \<Rightarrow> (string \<Rightarrow> bool) \<Rightarrow> jobs \<Rightarrow>
      jobs \<times> job_row list" where
  "claimJobs now inst k workerId limit tokens locked db =
     (let db1 = update_where (recoverable now inst k) (recovered now k) db;
          free =
            (case conc_global (concurrency k) of None \<Rightarrow> limit
             | Some g \<Rightarrow> min limit (g - of_nat (count_where (running_of inst (kind k)) db1)))
      in claim_loop now inst k workerId tokens locked free db1 [])"

definition renewed :: "time \<Rightarrow> rat \<Rightarrow> job_row \<Rightarrow> job_row" where
  "renewed clock leaseTime r =
     r\<lparr>row_leaseExpiresAt := Some (clock + leaseTime), row_heartbeatAt := Some clock\<rparr>"

definition heartbeatJob :: "time \<Rightarrow> job_lease \<Rightarrow> rat \<Rightarrow> jobs \<Rightarrow> jobs \<times> bool" where
  "heartbeatJob clock lease leaseTime db =
     (update_where (heldBy clock lease) (renewed clock leaseTime) db,
      0 < count_where (heldBy clock lease) db)"

definition lockLeasedJob :: "time \<Rightarrow> job_lease \<Rightarrow> jobs \<Rightarrow> job_row option" where
  "lockLeasedJob clock lease db = List.find (heldBy clock lease) db"

definition renewLockedJobLease :: "time \<Rightarrow> job_lease \<Rightarrow> rat \<Rightarrow> jobs \<Rightarrow> jobs" where
  "renewLockedJobLease clock lease leaseTime db =
     update_where (\<lambda>r. row_id r = lease_jobId lease \<and> row_leaseToken r = Some (lease_token lease))
       (renewed clock leaseTime) db"

definition listExhaustedJobIds :: "time \<Rightarrow> string \<Rightarrow> string \<Rightarrow> jobs \<Rightarrow> string list" where
  "listExhaustedJobIds now inst k db =
     take EXHAUSTED_BATCH_SIZE (map row_id (filter (\<lambda>r. exhausted now r \<and> of_kind inst k r) db))"

definition lockExhaustedJob :: "time \<Rightarrow> string \<Rightarrow> jobs \<Rightarrow> job_row option" where
  "lockExhaustedJob now jobId db = List.find (\<lambda>r. exhausted now r \<and> row_id r = jobId) db"

section \<open>The end of an attempt\<close>

datatype job_ending =
  End_Succeeded
| End_Failed (end_code: string) (end_message: string)
| End_Dead (end_code: string) (end_message: string)
| End_Retry (end_kind: job_kind) (end_code: string) (end_message: string)
| End_Released

fun ended_row :: "time \<Rightarrow> job_ending \<Rightarrow> job_row \<Rightarrow> job_row" where
  "ended_row now End_Succeeded r =
     noLease (r\<lparr>row_status := Succeeded, row_finishedAt := Some now, row_errorCode := None,
       row_errorMessage := None\<rparr>)"
| "ended_row now (End_Failed code message) r =
     noLease (r\<lparr>row_status := Failed, row_finishedAt := Some now, row_errorCode := Some code,
       row_errorMessage := Some message\<rparr>)"
| "ended_row now (End_Dead code message) r =
     noLease (r\<lparr>row_status := Dead, row_finishedAt := Some now, row_errorCode := Some code,
       row_errorMessage := Some message\<rparr>)"
| "ended_row now (End_Retry k code message) r =
     noLease (r\<lparr>row_status := Queued, row_runAfter := now + backoff k r,
       row_errorCode := Some code, row_errorMessage := Some message\<rparr>)"
| "ended_row now End_Released r =
     noLease (r\<lparr>row_status := Queued, row_runAfter := now,
       row_attempts := max (row_attempts r - 1) 0\<rparr>)"

definition endJobAttempt :: "time \<Rightarrow> string \<Rightarrow> job_ending \<Rightarrow> jobs \<Rightarrow> jobs" where
  "endJobAttempt now jobId ending db =
     update_where (\<lambda>r. row_id r = jobId) (ended_row now ending) db"

section \<open>Administration\<close>

record job_overview =
  ov_id :: string
  ov_kind :: string
  ov_status :: job_status
  ov_attempts :: int
  ov_maxAttempts :: int
  ov_subject :: "string option"
  ov_errorCode :: "string option"
  ov_createdAt :: int
  ov_startedAt :: "int option"
  ov_finishedAt :: "int option"

definition mapOverview :: "job_row \<Rightarrow> job_overview" where
  "mapOverview r =
     \<lparr> ov_id = row_id r, ov_kind = row_kind r, ov_status = row_status r,
       ov_attempts = row_attempts r, ov_maxAttempts = row_maxAttempts r,
       ov_subject = row_subject r, ov_errorCode = row_errorCode r,
       ov_createdAt = \<lfloor>row_createdAt r\<rfloor>, ov_startedAt = map_option floor (row_startedAt r),
       ov_finishedAt = map_option floor (row_finishedAt r) \<rparr>"

datatype retry_result =
  Requeued job_overview | Retry_Not_Found | Retry_Not_Ended job_status | Superseded

definition requeued_row :: "time \<Rightarrow> job_row \<Rightarrow> job_row" where
  "requeued_row now r =
     r\<lparr>row_status := Queued, row_attempts := 0, row_runAfter := now, row_startedAt := None,
       row_finishedAt := None\<rparr>"

definition retryable :: "string \<Rightarrow> string \<Rightarrow> job_row \<Rightarrow> bool" where
  "retryable inst jobId r \<longleftrightarrow>
     row_instance r = inst \<and> row_id r = jobId \<and> (row_status r = Failed \<or> row_status r = Dead)"

text \<open>
  One update, which the dedupe index refuses when another live job holds the key: the savepoint
  rolls it back and the table is as before.
\<close>

definition retryJob :: "time \<Rightarrow> string \<Rightarrow> string \<Rightarrow> jobs \<Rightarrow> jobs \<times> retry_result" where
  "retryJob now inst jobId db =
     (case List.find (retryable inst jobId) db of
        Some r \<Rightarrow>
          (if list_ex (live_of inst (row_kind r) (row_dedupeKey r)) db then (db, Superseded)
           else (update_where (retryable inst jobId) (requeued_row now) db,
                 Requeued (mapOverview (requeued_row now r))))
      | None \<Rightarrow>
          (case List.find (\<lambda>r. row_instance r = inst \<and> row_id r = jobId) db of
             Some r \<Rightarrow> (db, Retry_Not_Ended (row_status r))
           | None \<Rightarrow> (db, Retry_Not_Found)))"

end
