(* ===== verification/Job_Invariants.thy ===== *)
theory Job_Invariants imports Job_Store begin

text \<open>
  The well-formedness of the job table and that every statement keeps it: the ids are distinct, a
  row has a lease exactly while it runs and an end exactly once it ended, one live job holds a
  dedupe key, and no two rows carry the same lease token.
\<close>

section \<open>Well-formed tables\<close>

definition ended :: "job_row \<Rightarrow> bool" where
  "ended r \<longleftrightarrow> row_status r \<in> {Succeeded, Failed, Dead, Cancelled}"

definition row_ok :: "job_row \<Rightarrow> bool" where
  "row_ok r \<longleftrightarrow>
     (row_leaseToken r \<noteq> None \<longleftrightarrow> row_status r = Running) \<and>
     (row_leaseExpiresAt r \<noteq> None \<longleftrightarrow> row_status r = Running) \<and>
     (row_finishedAt r \<noteq> None \<longleftrightarrow> ended r) \<and>
     0 \<le> row_attempts r \<and> (row_status r = Running \<longrightarrow> 0 < row_attempts r)"

text \<open>The key of a row in \<open>platform_jobs_live_dedupe_idx\<close>.\<close>

definition live_key :: "job_row \<Rightarrow> (string \<times> string \<times> string) option" where
  "live_key r =
     (if live r then map_option (\<lambda>d. (row_instance r, row_kind r, d)) (row_dedupeKey r) else None)"

abbreviation unique_live :: "jobs \<Rightarrow> bool" where
  "unique_live \<equiv> unique_by live_key row_id"

abbreviation unique_tokens :: "jobs \<Rightarrow> bool" where
  "unique_tokens \<equiv> unique_by row_leaseToken row_id"

definition jobs_ok :: "jobs \<Rightarrow> bool" where
  "jobs_ok db \<longleftrightarrow>
     distinct (map row_id db) \<and> (\<forall>r \<in> set db. row_ok r) \<and> unique_live db \<and> unique_tokens db"

lemma live_key_Some:
  "live_key r = Some (inst, k, d) \<longleftrightarrow>
    live r \<and> row_instance r = inst \<and> row_kind r = k \<and> row_dedupeKey r = Some d"
  by (auto simp: live_key_def)

lemma live_of_key:
  "live_of inst k dedupe r \<longleftrightarrow> (\<exists>d. dedupe = Some d \<and> live_key r = Some (inst, k, d))"
  by (auto simp: live_of_def live_key_def split: option.splits)

lemma jobs_okD:
  assumes "jobs_ok db"
  shows jobs_ok_distinct: "distinct (map row_id db)"
    and jobs_ok_row: "\<And>r. r \<in> set db \<Longrightarrow> row_ok r"
    and jobs_ok_unique_live: "unique_live db"
    and jobs_ok_unique_tokens: "unique_tokens db"
  using assms by (auto simp: jobs_ok_def)

lemma jobs_ok_Nil [simp]: "jobs_ok []"
  by (simp add: jobs_ok_def)

lemma jobs_ok_same_id:
  "jobs_ok db \<Longrightarrow> r \<in> set db \<Longrightarrow> s \<in> set db \<Longrightarrow> row_id r = row_id s \<Longrightarrow> r = s"
  using distinct_map_inj jobs_ok_distinct by metis

text \<open>What names a row and its place in the index.\<close>

definition row_key :: "job_row \<Rightarrow> string \<times> string \<times> string \<times> string option" where
  "row_key r = (row_id r, row_instance r, row_kind r, row_dedupeKey r)"

lemma row_key_eq [simp]:
  "row_key r = row_key s \<longleftrightarrow>
    row_id r = row_id s \<and> row_instance r = row_instance s \<and> row_kind r = row_kind s \<and>
    row_dedupeKey r = row_dedupeKey s"
  by (simp add: row_key_def)

text \<open>
  The one preservation rule: an update that keeps the key of every row it changes, gives it a
  good row, brings no row back to life and hands out no token the row did not have.
\<close>

lemma jobs_ok_update:
  assumes ok: "jobs_ok db"
    and key: "\<And>r. r \<in> set db \<Longrightarrow> p r \<Longrightarrow> row_key (f r) = row_key r"
    and good: "\<And>r. r \<in> set db \<Longrightarrow> p r \<Longrightarrow> row_ok r \<Longrightarrow> row_ok (f r)"
    and alive: "\<And>r. r \<in> set db \<Longrightarrow> p r \<Longrightarrow> live (f r) \<Longrightarrow> live r"
    and token: "\<And>r. r \<in> set db \<Longrightarrow> p r \<Longrightarrow>
      row_leaseToken (f r) = None \<or> row_leaseToken (f r) = row_leaseToken r"
  shows "jobs_ok (update_where p f db)"
proof -
  have "map row_id (update_where p f db) = map row_id db"
    using key by (intro map_update_where) auto
  moreover have "unique_live (update_where p f db)"
    using jobs_ok_unique_live[OF ok]
  proof (rule unique_by_update)
    fix r assume r: "r \<in> set db" "p r"
    have "live_key (f r) = None \<or> live_key (f r) = live_key r"
      using key[OF r] alive[OF r] by (auto simp: live_key_def)
    with key[OF r] show "row_id (f r) = row_id r \<and> (live_key (f r) = None \<or> live_key (f r) = live_key r)"
      by simp
  qed
  moreover have "unique_tokens (update_where p f db)"
    using jobs_ok_unique_tokens[OF ok] by (rule unique_by_update) (use key token in auto)
  moreover have "\<forall>r \<in> set (update_where p f db). row_ok r"
    using good jobs_ok_row[OF ok] by (auto simp: set_update_where)
  ultimately show ?thesis
    using ok by (simp add: jobs_ok_def)
qed

lemma jobs_ok_delete: "jobs_ok db \<Longrightarrow> jobs_ok (delete_where p db)"
  by (auto simp: jobs_ok_def set_delete_where distinct_map_delete_where intro: unique_by_delete)

section \<open>Each statement keeps the table well formed\<close>

named_theorems row_defs \<open>the functions that write one row\<close>

lemmas [row_defs] =
  noLease_def recovered_def mark_running_def renewed_def requeued_row_def new_row_def

lemmas row_state_defs = row_ok_def live_def ended_def

lemma jobs_ok_insert:
  assumes ok: "jobs_ok db" and ins: "insert_job db r = Inr (Some db')"
    and row: "row_ok r" "row_leaseToken r = None"
  shows "jobs_ok db'"
proof -
  from ins have fresh: "row_id r \<notin> set (map row_id db)"
    and free: "\<not> list_ex (live_of (row_instance r) (row_kind r) (row_dedupeKey r)) db"
    and db': "db' = db @ [r]"
    by (auto simp: insert_job_def split: if_splits)
  have "unique_live db'"
    unfolding db' using jobs_ok_unique_live[OF ok]
  proof (rule unique_by_snoc)
    fix s assume s: "s \<in> set db" and k: "live_key r \<noteq> None"
    then obtain d where d: "live_key r = Some (row_instance r, row_kind r, d)" "row_dedupeKey r = Some d"
      by (auto simp: live_key_def split: if_splits)
    from free s have "\<not> live_of (row_instance r) (row_kind r) (row_dedupeKey r) s"
      by (simp add: list_ex_iff)
    with d show "live_key s \<noteq> live_key r" by (simp add: live_of_key)
  qed
  moreover have "unique_tokens db'"
    unfolding db' using jobs_ok_unique_tokens[OF ok] row by (intro unique_by_snoc) auto
  ultimately show ?thesis
    using ok fresh row by (auto simp: jobs_ok_def db')
qed

lemma row_ok_new_row [simp]: "row_ok (new_row now k p options i c)"
  and live_new_row [simp]: "live (new_row now k p options i c)"
  and token_new_row [simp]: "row_leaseToken (new_row now k p options i c) = None"
  by (simp_all add: row_defs row_state_defs)

lemma jobs_ok_enqueue_rounds:
  assumes "enqueue_rounds n i env between now k p options ids corrs db = Inr (db', job)"
    and "jobs_ok db"
    and "\<And>i d. jobs_ok d \<Longrightarrow> jobs_ok (env i d)" and "\<And>i d. jobs_ok d \<Longrightarrow> jobs_ok (between i d)"
  shows "jobs_ok db'"
  using assms
proof (induction n i env between now k p options ids corrs db rule: enqueue_rounds.induct)
  case (1 i env between now k p options ids corrs db)
  then show ?case by simp
next
  case (2 n i env between now k p options ids corrs db)
  show ?case
  proof (cases "insert_job db (new_row now k p options (ids i) (corrs i))")
    case (Inl e)
    with "2.prems" show ?thesis by (simp add: Let_def)
  next
    case (Inr ins)
    show ?thesis
    proof (cases ins)
      case (Some d)
      with Inr "2.prems" show ?thesis
        by (auto simp: Let_def intro: jobs_ok_insert)
    next
      case None
      have env: "jobs_ok (env i db)" using "2.prems" by blast
      show ?thesis
      proof (cases "List.find (live_of (opt_instance options) (kind k) (opt_dedupeKey options)) (env i db)")
        case (Some r)
        with Inr None "2.prems" env show ?thesis
          by (auto simp: Let_def split: sum.splits)
      next
        case no: None
        have "enqueue_rounds n (Suc i) env between now k p options ids corrs (between i (env i db))
            = Inr (db', job)"
          using "2.prems"(1) Inr None no by (simp add: Let_def)
        with Inr None no "2.IH" "2.prems" env show ?thesis by blast
      qed
    qed
  qed
qed

lemma jobs_ok_enqueueJob:
  assumes "enqueueJob env between now k p options ids corrs db = Inr (db', job)"
    and "jobs_ok db"
    and "\<And>i d. jobs_ok d \<Longrightarrow> jobs_ok (env i d)" and "\<And>i d. jobs_ok d \<Longrightarrow> jobs_ok (between i d)"
  shows "jobs_ok db'"
  using assms jobs_ok_enqueue_rounds by (auto simp: enqueueJob_def split: sum.splits)

lemma jobs_ok_withdraw: "jobs_ok db \<Longrightarrow> jobs_ok (withdraw inst k dedupe db)"
  unfolding withdraw_def by (rule jobs_ok_delete)

lemma jobs_ok_prune: "jobs_ok db \<Longrightarrow> jobs_ok (fst (pruneEndedJobs now users workspaces inst db))"
  by (simp add: pruneEndedJobs_def Let_def jobs_ok_delete)

lemma jobs_ok_makeScheduleTickDue: "jobs_ok db \<Longrightarrow> jobs_ok (makeScheduleTickDue now inst s db)"
  unfolding makeScheduleTickDue_def
  by (rule jobs_ok_update) (auto simp: row_state_defs)

lemma jobs_ok_recover:
  "jobs_ok db \<Longrightarrow> jobs_ok (update_where (recoverable now inst k) (recovered now k) db)"
  by (rule jobs_ok_update) (auto simp: row_defs row_state_defs recoverable_def)

lemma jobs_ok_heartbeat: "jobs_ok db \<Longrightarrow> jobs_ok (fst (heartbeatJob clock lease leaseTime db))"
  unfolding heartbeatJob_def fst_conv
  by (rule jobs_ok_update) (auto simp: row_defs row_state_defs heldBy_def)

lemma row_ok_leased: "row_ok r \<Longrightarrow> row_leaseToken r = Some t \<Longrightarrow> row_status r = Running"
  by (auto simp: row_ok_def)

lemma jobs_ok_renewLocked: "jobs_ok db \<Longrightarrow> jobs_ok (renewLockedJobLease clock lease leaseTime db)"
  unfolding renewLockedJobLease_def
  by (rule jobs_ok_update) (auto simp: row_defs row_state_defs)

text \<open>Ending an attempt needs the row to be running, which the lock of the caller checked.\<close>

lemma row_ok_ended_row:
  "row_ok r \<Longrightarrow> row_status r = Running \<Longrightarrow> row_ok (ended_row now e r)"
  by (cases e) (auto simp: row_defs row_state_defs)

lemma key_ended_row [simp]: "row_key (ended_row now e r) = row_key r"
  by (cases e) (auto simp: row_defs row_key_def)

lemma token_ended_row [simp]: "row_leaseToken (ended_row now e r) = None"
  by (cases e) (auto simp: row_defs)

lemma jobs_ok_endJobAttempt:
  assumes ok: "jobs_ok db" and run: "r \<in> set db" "row_id r = jobId" "row_status r = Running"
  shows "jobs_ok (endJobAttempt now jobId e db)"
proof -
  have only: "s = r" if "s \<in> set db" "row_id s = jobId" for s
    using jobs_ok_same_id[OF ok that(1) run(1)] that run by simp
  show ?thesis
    unfolding endJobAttempt_def
  proof (rule jobs_ok_update[OF ok])
    fix s assume "s \<in> set db" "row_id s = jobId"
    then have s: "s = r" by (rule only)
    show "row_ok s \<Longrightarrow> row_ok (ended_row now e s)" using s run(3) by (simp add: row_ok_ended_row)
    show "live s" using s run(3) by (simp add: live_def)
  qed simp_all
qed

section \<open>Claims\<close>

lemma next_candidate_Some:
  assumes "next_candidate now inst k locked db = Some c"
  shows "c \<in> set db \<and> claimable now inst k locked db c"
    and "\<And>r. r \<in> set db \<Longrightarrow> claimable now inst k locked db r \<Longrightarrow> claim_order c \<le> claim_order r"
  using least_by_Some[OF assms[unfolded next_candidate_def]] by auto

lemma next_candidate_None:
  "next_candidate now inst k locked db = None \<longleftrightarrow>
    (\<forall>r \<in> set db. \<not> claimable now inst k locked db r)"
  by (auto simp: next_candidate_def filter_empty_conv)

lemma claimableD:
  assumes "claimable now inst k locked db r"
  shows "row_instance r = inst" "row_kind r = kind k" "row_status r = Queued"
    "row_runAfter r \<le> now" "\<not> locked (row_id r)"
  using assms by (auto simp: claimable_def of_kind_def)

lemma jobs_ok_mark_running:
  assumes ok: "jobs_ok db" and c: "c \<in> set db" "row_status c = Queued"
    and fresh: "Some t \<notin> set (map row_leaseToken db)"
  shows "jobs_ok (update_where (\<lambda>r. row_id r = row_id c) (mark_running now k w t) db)"
proof -
  let ?db = "update_where (\<lambda>r. row_id r = row_id c) (mark_running now k w t) db"
  have only: "s = c" if "s \<in> set db" "row_id s = row_id c" for s
    using jobs_ok_same_id[OF ok that(1) c(1)] that by simp
  have key: "row_key (mark_running now k w t s) = row_key s" for s
    by (simp add: row_defs row_key_def)
  have "map row_id ?db = map row_id db"
    using key by (intro map_update_where) auto
  moreover have "\<forall>x \<in> set ?db. row_ok x"
  proof
    fix x assume "x \<in> set ?db"
    then show "row_ok x"
    proof (rule in_update_whereE)
      fix s assume "s \<in> set db" "row_id s = row_id c" "x = mark_running now k w t s"
      moreover from this have "s = c" using only by blast
      ultimately show "row_ok x"
        using jobs_ok_row[OF ok c(1)] c(2) by (simp add: row_defs row_state_defs)
    qed (rule jobs_ok_row[OF ok])
  qed
  moreover have "unique_live ?db"
    using jobs_ok_unique_live[OF ok]
  proof (rule unique_by_update)
    fix s assume "s \<in> set db" "row_id s = row_id c"
    then have "s = c" by (rule only)
    then show "row_id (mark_running now k w t s) = row_id s \<and>
      (live_key (mark_running now k w t s) = None \<or> live_key (mark_running now k w t s) = live_key s)"
      using c(2) by (simp add: row_defs live_key_def live_def)
  qed
  moreover have "unique_tokens ?db"
    using jobs_ok_unique_tokens[OF ok]
    by (rule unique_by_update_one) (use fresh in \<open>auto simp: row_defs image_iff\<close>)
  ultimately show ?thesis using ok by (simp add: jobs_ok_def)
qed

lemma claim_loop_full:
  "\<not> of_nat (length claimed) < free \<Longrightarrow>
    claim_loop now inst k workerId tokens locked free db claimed = (db, claimed)"
  by (subst claim_loop.simps) simp

lemma claim_loop_empty:
  "next_candidate now inst k locked db = None \<Longrightarrow>
    claim_loop now inst k workerId tokens locked free db claimed = (db, claimed)"
  by (subst claim_loop.simps) simp

lemma claim_loop_next:
  "of_nat (length claimed) < free \<Longrightarrow> next_candidate now inst k locked db = Some c \<Longrightarrow>
    claim_loop now inst k workerId tokens locked free db claimed =
    claim_loop now inst k workerId tokens locked free
      (update_where (\<lambda>r. row_id r = row_id c)
        (mark_running now k workerId (tokens (length claimed))) db)
      (claimed @ [mark_running now k workerId (tokens (length claimed)) c])"
  by (subst claim_loop.simps) (simp add: Let_def)

text \<open>The claim loop, as a rule: what each single claim keeps holds at the end.\<close>

lemma claim_loop_rule:
  assumes "P db claimed"
    and "\<And>db claimed c. P db claimed \<Longrightarrow> of_nat (length claimed) < free \<Longrightarrow>
      next_candidate now inst k locked db = Some c \<Longrightarrow>
      P (update_where (\<lambda>r. row_id r = row_id c)
           (mark_running now k workerId (tokens (length claimed))) db)
        (claimed @ [mark_running now k workerId (tokens (length claimed)) c])"
  shows "case claim_loop now inst k workerId tokens locked free db claimed of (db', out) \<Rightarrow> P db' out"
  using assms
proof (induction now inst k workerId tokens locked free db claimed rule: claim_loop.induct)
  case (1 now inst k workerId tokens locked free db claimed)
  show ?case
  proof (cases "of_nat (length claimed) < free")
    case False
    with "1.prems"(1) show ?thesis by (simp add: claim_loop_full)
  next
    case True
    show ?thesis
    proof (cases "next_candidate now inst k locked db")
      case None
      with "1.prems"(1) show ?thesis by (simp add: claim_loop_empty)
    next
      case (Some c)
      show ?thesis
        unfolding claim_loop_next[OF True Some]
        by (rule "1.IH"[OF True Some refl "1.prems"(2)[OF "1.prems"(1) True Some] "1.prems"(2)])
    qed
  qed
qed

text \<open>
  The loop stops because it has what it may take or because nothing is left to take.
\<close>

lemma claim_loop_stops:
  "case claim_loop now inst k workerId tokens locked free db claimed of (db', out) \<Rightarrow>
     free \<le> of_nat (length out) \<or> next_candidate now inst k locked db' = None"
proof (induction now inst k workerId tokens locked free db claimed rule: claim_loop.induct)
  case (1 now inst k workerId tokens locked free db claimed)
  show ?case
  proof (cases "of_nat (length claimed) < free")
    case False
    then show ?thesis by (simp add: claim_loop_full)
  next
    case True
    show ?thesis
    proof (cases "next_candidate now inst k locked db")
      case None
      then show ?thesis by (simp add: claim_loop_empty)
    next
      case (Some c)
      show ?thesis unfolding claim_loop_next[OF True Some] by (rule "1.IH"[OF True Some refl])
    qed
  qed
qed

definition fresh_tokens :: "(nat \<Rightarrow> string) \<Rightarrow> jobs \<Rightarrow> bool" where
  "fresh_tokens tokens db \<longleftrightarrow>
     inj tokens \<and> (\<forall>i. Some (tokens i) \<notin> set (map row_leaseToken db))"

lemma claim_step_tokens:
  "Some t' \<in> set (map row_leaseToken (update_where p (mark_running now k w t) db)) \<Longrightarrow>
    t' = t \<or> Some t' \<in> set (map row_leaseToken db)"
  by (auto simp: set_update_where row_defs)

text \<open>
  The same rule over a well-formed table with tokens that are new to it: each claim finds the one
  row of its candidate, and the table stays well formed.
\<close>

lemma claim_loop_ok_rule:
  assumes ok: "jobs_ok db" and fresh: "fresh_tokens tokens db" and start: "P db []"
    and step: "\<And>d out c m. P d out \<Longrightarrow> jobs_ok d \<Longrightarrow> of_nat (length out) < free \<Longrightarrow>
      next_candidate now inst k locked d = Some c \<Longrightarrow> c \<in> set d \<Longrightarrow> row_status c = Queued \<Longrightarrow>
      (\<And>s. s \<in> set d \<Longrightarrow> row_id s = row_id c \<Longrightarrow> s = c) \<Longrightarrow>
      m = mark_running now k workerId (tokens (length out)) \<Longrightarrow>
      jobs_ok (update_where (\<lambda>r. row_id r = row_id c) m d) \<Longrightarrow>
      P (update_where (\<lambda>r. row_id r = row_id c) m d) (out @ [m c])"
  shows "case claim_loop now inst k workerId tokens locked free db [] of (db', out) \<Rightarrow>
    P db' out \<and> jobs_ok db'"
proof -
  have inj: "inj tokens" using fresh by (simp add: fresh_tokens_def)
  let ?P = "\<lambda>d out. (P d out \<and> jobs_ok d) \<and>
    (\<forall>i \<ge> length out. Some (tokens i) \<notin> set (map row_leaseToken d))"
  have "case claim_loop now inst k workerId tokens locked free db [] of (d, out) \<Rightarrow> ?P d out"
  proof (rule claim_loop_rule)
    show "?P db []" using ok fresh start by (simp add: fresh_tokens_def)
  next
    fix d and out :: "job_row list" and c
    assume P: "?P d out" and more: "of_nat (length out) < free"
      and c: "next_candidate now inst k locked d = Some c"
    let ?t = "tokens (length out)"
    let ?d = "update_where (\<lambda>r. row_id r = row_id c) (mark_running now k workerId ?t) d"
    have okd: "jobs_ok d" and cd: "c \<in> set d" "row_status c = Queued"
      using P next_candidate_Some(1)[OF c] claimableD by blast+
    have only: "s = c" if "s \<in> set d" "row_id s = row_id c" for s
      using jobs_ok_same_id[OF okd that(1) cd(1)] that by simp
    have "Some (tokens i) \<notin> set (map row_leaseToken ?d)" if "Suc (length out) \<le> i" for i
    proof
      assume "Some (tokens i) \<in> set (map row_leaseToken ?d)"
      then have "tokens i = ?t \<or> Some (tokens i) \<in> set (map row_leaseToken d)"
        by (rule claim_step_tokens)
      moreover have "tokens i \<noteq> ?t" using that injD[OF inj, of i "length out"] by auto
      ultimately show False using P that by auto
    qed
    moreover have okd': "jobs_ok ?d"
      using P okd cd by (intro jobs_ok_mark_running) auto
    moreover have "P ?d (out @ [mark_running now k workerId ?t c])"
      using P by (intro step[OF _ okd more c cd only refl okd']) simp_all
    ultimately show "?P ?d (out @ [mark_running now k workerId ?t c])" by simp
  qed
  then show ?thesis by (simp split: prod.splits)
qed

lemma jobs_ok_claim_loop:
  assumes "jobs_ok db" and "fresh_tokens tokens db"
  shows "jobs_ok (fst (claim_loop now inst k workerId tokens locked free db []))"
  using claim_loop_ok_rule[OF assms, of "\<lambda>_ _. True" free now inst k locked workerId]
  by (simp split: prod.splits)

lemma recover_tokens:
  "Some t \<in> set (map row_leaseToken (update_where (recoverable now inst k) (recovered now k) db)) \<Longrightarrow>
    Some t \<in> set (map row_leaseToken db)"
  by (auto simp: set_update_where row_defs)

lemma fresh_tokens_recover:
  assumes "fresh_tokens tokens db"
  shows "fresh_tokens tokens (update_where (recoverable now inst k) (recovered now k) db)"
  using assms recover_tokens unfolding fresh_tokens_def by blast

lemma jobs_ok_claimJobs:
  assumes "jobs_ok db" and "fresh_tokens tokens db"
  shows "jobs_ok (fst (claimJobs now inst k workerId limit tokens locked db))"
  unfolding claimJobs_def Let_def
  by (intro jobs_ok_claim_loop jobs_ok_recover fresh_tokens_recover assms)

section \<open>Retries by hand\<close>

lemma retryable_find:
  assumes "jobs_ok db" and "List.find (retryable inst jobId) db = Some r"
  shows "r \<in> set db" "row_id r = jobId" "row_instance r = inst" "row_status r = Failed \<or> row_status r = Dead"
  using find_Some_iff[OF assms(2)] by (auto simp: retryable_def)

lemma jobs_ok_retryJob:
  assumes ok: "jobs_ok db"
  shows "jobs_ok (fst (retryJob now inst jobId db))"
proof (cases "List.find (retryable inst jobId) db")
  case None
  then show ?thesis using ok by (simp add: retryJob_def split: option.splits)
next
  case (Some r)
  note r = retryable_find[OF ok Some]
  show ?thesis
  proof (cases "list_ex (live_of inst (row_kind r) (row_dedupeKey r)) db")
    case True
    with Some ok show ?thesis by (simp add: retryJob_def)
  next
    case False
    have sel: "retryable inst jobId s \<longleftrightarrow> row_id s = jobId" if "s \<in> set db" for s
      using jobs_ok_same_id[OF ok that r(1)] r by (auto simp: retryable_def)
    have eq: "update_where (retryable inst jobId) (requeued_row now) db =
        update_where (\<lambda>s. row_id s = jobId) (requeued_row now) db"
      unfolding update_where_def using sel by simp
    have only: "s = r" if "s \<in> set db" "row_id s = jobId" for s
      using jobs_ok_same_id[OF ok that(1) r(1)] that r by simp
    let ?db = "update_where (\<lambda>s. row_id s = jobId) (requeued_row now) db"
    have "map row_id ?db = map row_id db"
      by (intro map_update_where) (simp add: row_defs)
    moreover have "\<forall>x \<in> set ?db. row_ok x"
    proof
      fix x assume "x \<in> set ?db"
      then show "row_ok x"
      proof (rule in_update_whereE)
        fix s assume "s \<in> set db" "row_id s = jobId" "x = requeued_row now s"
        moreover from this have "s = r" using only by blast
        ultimately show "row_ok x"
          using jobs_ok_row[OF ok r(1)] r(4) by (auto simp: row_defs row_state_defs)
      qed (rule jobs_ok_row[OF ok])
    qed
    moreover have "unique_live ?db"
      using jobs_ok_unique_live[OF ok]
    proof (rule unique_by_update_one)
      fix x s assume x: "x \<in> set db" "row_id x = jobId" and s: "s \<in> set db" "row_id s \<noteq> jobId"
        and k: "live_key (requeued_row now x) \<noteq> None"
      have xr: "x = r" using x by (rule only)
      from k xr obtain d where d: "row_dedupeKey r = Some d"
        by (auto simp: live_key_def row_defs split: if_splits)
      from False s have "\<not> live_of inst (row_kind r) (row_dedupeKey r) s" by (simp add: list_ex_iff)
      with d r(3) xr show "live_key s \<noteq> live_key (requeued_row now x)"
        by (auto simp: live_of_key live_key_def row_defs live_def split: if_splits)
    qed (simp add: row_defs)
    moreover have "unique_tokens ?db"
      using jobs_ok_unique_tokens[OF ok] by (rule unique_by_update) (simp add: row_defs)
    ultimately have "jobs_ok ?db" using ok by (simp add: jobs_ok_def)
    with Some False show ?thesis by (simp add: retryJob_def eq)
  qed
qed

end
