(* ===== verification/Job_Queue.thy ===== *)
theory Job_Queue imports Job_Invariants begin

text \<open>
  The queue as a state machine: every transaction over the job table is a step, in any order and
  interleaving, with the tokens ever handed out as a history. The invariant of the machine gives
  the promises of the executor: one live job per dedupe key, the concurrency limits of a kind,
  bounded attempts, and leases that never come back once they are lost.
\<close>

section \<open>The machine\<close>

type_synonym queue_state = "jobs \<times> string set"

text \<open>
  \<open>decl\<close> is what the program declares: every process uses the same declaration for one name. The
  steps are the store's operations with the guards their callers check first: an attempt is ended
  or renewed under \<open>lockLeasedJob\<close>, a dead job under \<open>lockExhaustedJob\<close>, and \<open>End_Retry\<close> is chosen
  for a job with attempts left.
\<close>

inductive queue_step :: "(string \<Rightarrow> job_kind option) \<Rightarrow> queue_state \<Rightarrow> queue_state \<Rightarrow> bool"
  for decl :: "string \<Rightarrow> job_kind option" where
  step_enqueue:
    "decl (kind k) = Some k \<Longrightarrow>
     enqueueJob quiet quiet now k payload options ids corrs db = Inr (db', job) \<Longrightarrow>
     queue_step decl (db, used) (db', used)"
| step_withdraw: "queue_step decl (db, used) (withdraw inst k dedupe db, used)"
| step_prune:
    "queue_step decl (db, used) (fst (pruneEndedJobs now users workspaces inst db), used)"
| step_due: "queue_step decl (db, used) (makeScheduleTickDue now inst s db, used)"
| step_claim:
    "decl (kind k) = Some k \<Longrightarrow> fresh_tokens tokens db \<Longrightarrow> range tokens \<inter> used = {} \<Longrightarrow>
     claimJobs now inst k workerId limit tokens locked db = (db', claimed) \<Longrightarrow>
     queue_step decl (db, used) (db', used \<union> {t. Some t \<in> set (map row_leaseToken claimed)})"
| step_heartbeat: "queue_step decl (db, used) (fst (heartbeatJob clock lease leaseTime db), used)"
| step_renew:
    "lockLeasedJob clock lease db = Some r \<Longrightarrow>
     queue_step decl (db, used) (renewLockedJobLease clock' lease leaseTime db, used)"
| step_end:
    "lockLeasedJob clock lease db = Some r \<Longrightarrow>
     (\<And>k code message. ending = End_Retry k code message \<Longrightarrow> row_attempts r < row_maxAttempts r) \<Longrightarrow>
     queue_step decl (db, used) (endJobAttempt now (row_id r) ending db, used)"
| step_bury:
    "lockExhaustedJob now jobId db = Some r \<Longrightarrow>
     ending = End_Failed code message \<or> ending = End_Dead code message \<Longrightarrow>
     queue_step decl (db, used) (endJobAttempt now (row_id r) ending db, used)"
| step_retry: "queue_step decl (db, used) (fst (retryJob now inst jobId db), used)"

inductive_cases queue_stepE: "queue_step decl (db, used) s"

definition queue_start :: "queue_state \<Rightarrow> bool" where
  "queue_start s \<longleftrightarrow> s = ([], {})"

definition valid_declarations :: "(string \<Rightarrow> job_kind option) \<Rightarrow> bool" where
  "valid_declarations decl \<longleftrightarrow>
     (\<forall>name k. decl name = Some k \<longrightarrow> valid_kind k \<and> kind k = name)"

section \<open>Rows under the statements\<close>

lemma lockLeasedJob_Some:
  assumes "lockLeasedJob clock lease db = Some r"
  shows "r \<in> set db" "heldBy clock lease r" "row_id r = lease_jobId lease"
    "row_leaseToken r = Some (lease_token lease)" "row_status r = Running"
  using find_Some_iff[OF assms[unfolded lockLeasedJob_def]] by (auto simp: heldBy_def)

lemma lockExhaustedJob_Some:
  assumes "lockExhaustedJob now jobId db = Some r"
  shows "r \<in> set db" "row_id r = jobId" "exhausted now r" "row_status r = Running"
  using find_Some_iff[OF assms[unfolded lockExhaustedJob_def]] by (auto simp: exhausted_def)

text \<open>What an enqueue of one round does to the table: nothing, or one new queued row at its end.\<close>

lemma enqueueJob_quiet:
  assumes "enqueueJob quiet quiet now k p options ids corrs db = Inr (db', job)"
  obtains "db' = db"
  | v where "payloadSchema k p = Inr v" "db' = db @ [new_row now k v options (ids 0) (corrs 0)]"
      "insert_job db (new_row now k v options (ids 0) (corrs 0)) = Inr (Some db')"
proof -
  from assms obtain v where v: "payloadSchema k p = Inr v"
    and e: "enqueue_rounds 5 0 quiet quiet now k v options ids corrs db = Inr (db', job)"
    by (auto simp: enqueueJob_def split: sum.splits)
  have five: "(5::nat) = Suc 4" by simp
  let ?r = "new_row now k v options (ids 0) (corrs 0)"
  let ?live = "live_of (opt_instance options) (kind k) (opt_dedupeKey options)"
  note e = e[unfolded five enqueue_rounds.simps(2) Let_def quiet_def]
  show ?thesis
  proof (cases "insert_job db ?r")
    case (Inl x)
    with e show ?thesis by simp
  next
    case (Inr ins)
    show ?thesis
    proof (cases ins)
      case (Some d)
      with Inr e v that(2) show ?thesis by (auto simp: insert_job_def split: if_splits)
    next
      case None
      with Inr have "list_ex ?live db"
        by (auto simp: insert_job_def new_row_def split: if_splits)
      then obtain x where "List.find ?live db = Some x"
        by (cases "List.find ?live db") (auto simp: find_None_iff list_ex_iff)
      with None Inr e that(1) show ?thesis by (auto split: sum.splits)
    qed
  qed
qed

text \<open>
  A step writes rows in one of three ways: it changes rows in place, it deletes rows, or it adds
  one queued row. Only a claim makes a row run.
\<close>

lemma running_recovered [simp]: "\<not> running_of inst k' (recovered now k r)"
  by (simp add: running_of_def row_defs)

lemma running_ended_row [simp]: "\<not> running_of inst k' (ended_row now e r)"
  by (cases e) (simp_all add: running_of_def row_defs)

lemma running_requeued_row [simp]: "\<not> running_of inst k' (requeued_row now r)"
  by (simp add: running_of_def row_defs)

lemma running_renewed [simp]: "running_of inst k' (renewed clock t r) = running_of inst k' r"
  by (simp add: running_of_def of_kind_def row_defs)

lemma running_new_row [simp]: "\<not> running_of inst k' (new_row now k p options i c)"
  by (simp add: running_of_def row_defs)

lemma concurrencyKey_row_defs [simp]:
  "row_concurrencyKey (renewed clock t r) = row_concurrencyKey r"
  "row_concurrencyKey (mark_running now k w t' r) = row_concurrencyKey r"
  by (simp_all add: row_defs)

lemma running_mark_running:
  "running_of inst k' (mark_running now k w t r) \<longleftrightarrow> of_kind inst k' r"
  by (simp add: running_of_def of_kind_def row_defs)

text \<open>A predicate on running rows that the writes of a step can only lose.\<close>

definition loses_running :: "(job_row \<Rightarrow> bool) \<Rightarrow> bool" where
  "loses_running q \<longleftrightarrow>
     (\<forall>r. q r \<longrightarrow> row_status r = Running) \<and> (\<forall>r clock t. q (renewed clock t r) = q r) \<and>
     (\<forall>r t. q (r\<lparr>row_runAfter := t\<rparr>) = q r)"

lemma loses_running_of [simp]: "loses_running (running_of inst k)"
  by (auto simp: loses_running_def running_of_def of_kind_def row_defs)

lemma loses_running_with_key [simp]: "loses_running (running_with_key inst k key)"
  by (auto simp: loses_running_def running_with_key_def running_of_def of_kind_def row_defs)

lemma status_ended_row [simp]: "row_status (ended_row now e r) \<noteq> Running"
  by (cases e) (simp_all add: row_defs)

definition claim_step :: "(string \<Rightarrow> job_kind option) \<Rightarrow> jobs \<Rightarrow> jobs \<Rightarrow> bool" where
  "claim_step decl db db' \<longleftrightarrow>
     (\<exists>k tokens now inst workerId limit locked claimed. decl (kind k) = Some k \<and>
       fresh_tokens tokens db \<and>
       claimJobs now inst k workerId limit tokens locked db = (db', claimed))"

lemma claim_stepI:
  "decl (kind k) = Some k \<Longrightarrow> fresh_tokens tokens db \<Longrightarrow>
    claimJobs now inst k workerId limit tokens locked db = (db', claimed) \<Longrightarrow> claim_step decl db db'"
  unfolding claim_step_def by (intro exI conjI)

lemma count_running_step:
  assumes step: "queue_step decl (db, used) (db', used')" and q: "loses_running q"
    and no_claim: "\<not> claim_step decl db db'"
  shows "count_where q db' \<le> count_where q db"
proof -
  have run: "\<And>r. q r \<Longrightarrow> row_status r = Running" and ren: "\<And>r c t. q (renewed c t r) = q r"
    and due: "\<And>r t. q (r\<lparr>row_runAfter := t\<rparr>) = q r"
    using q by (auto simp: loses_running_def)
  have lost: "count_where q (update_where p f db) \<le> count_where q db"
    if "\<And>r. row_status (f r) \<noteq> Running \<or> q (f r) = q r" for p f
    using that run by (intro count_where_update_le) blast
  from step show ?thesis
  proof (cases rule: queue_step.cases)
    case (step_enqueue k now payload options ids corrs job)
    from step_enqueue(3) show ?thesis
      by (rule enqueueJob_quiet) (auto dest!: run simp: row_defs)
  next
    case (step_withdraw inst k dedupe)
    then show ?thesis by (simp add: withdraw_def count_where_delete_le)
  next
    case (step_prune now users workspaces inst)
    have "count_where q (fst (pruneEndedJobs now users workspaces inst db)) \<le> count_where q db"
      unfolding pruneEndedJobs_def Let_def fst_conv
      by (rule order_trans[OF count_where_delete_le count_where_delete_le])
    with step_prune show ?thesis by simp
  next
    case (step_due now inst s)
    have "count_where q (makeScheduleTickDue now inst s db) \<le> count_where q db"
      unfolding makeScheduleTickDue_def by (rule lost) (simp add: due)
    with step_due show ?thesis by simp
  next
    case (step_claim k tokens now inst workerId limit locked claimed)
    from step_claim(2,3,5) have "claim_step decl db db'"
      by (rule claim_stepI[of decl k tokens db now inst workerId limit locked db' claimed])
    with no_claim show ?thesis by simp
  next
    case (step_heartbeat clock lease leaseTime)
    have "count_where q (fst (heartbeatJob clock lease leaseTime db)) \<le> count_where q db"
      unfolding heartbeatJob_def fst_conv by (rule lost) (simp add: ren)
    with step_heartbeat show ?thesis by simp
  next
    case (step_renew clock lease r clock' leaseTime)
    have "count_where q (renewLockedJobLease clock' lease leaseTime db) \<le> count_where q db"
      unfolding renewLockedJobLease_def by (rule lost) (simp add: ren)
    with step_renew show ?thesis by simp
  next
    case (step_end clock lease r ending now)
    have "count_where q (endJobAttempt now (row_id r) ending db) \<le> count_where q db"
      unfolding endJobAttempt_def by (rule lost) simp
    with step_end show ?thesis by simp
  next
    case (step_bury now jobId r ending code message)
    have "count_where q (endJobAttempt now (row_id r) ending db) \<le> count_where q db"
      unfolding endJobAttempt_def by (rule lost) simp
    with step_bury show ?thesis by simp
  next
    case (step_retry now inst jobId)
    have "row_status (requeued_row now r) \<noteq> Running" for r by (simp add: row_defs)
    then have "count_where q (update_where p (requeued_row now) db) \<le> count_where q db" for p
      by (intro lost) blast
    with step_retry show ?thesis by (auto simp: retryJob_def split: option.splits)
  qed
qed

section \<open>Concurrency limits\<close>

definition limits_ok :: "(string \<Rightarrow> job_kind option) \<Rightarrow> jobs \<Rightarrow> bool" where
  "limits_ok decl db \<longleftrightarrow>
     (\<forall>inst name k. decl name = Some k \<longrightarrow>
        (\<forall>g. conc_global (concurrency k) = Some g \<longrightarrow>
           of_nat (count_where (running_of inst name) db) \<le> g) \<and>
        (\<forall>p key. conc_perKey (concurrency k) = Some p \<longrightarrow>
           of_nat (count_where (running_with_key inst name key) db) \<le> p))"

lemma of_nat_lt_positive_integer:
  assumes "positive_integer g" and "of_nat n < g"
  shows "of_nat (Suc n) \<le> g"
proof -
  from assms(1) obtain m where m: "g = of_nat m" by (rule positive_integer_nat)
  with assms(2) have "n < m" by simp
  then have "Suc n \<le> m" by simp
  then show ?thesis unfolding m by (simp only: of_nat_le_iff)
qed

text \<open>One claim adds its row to the counts that cover it and to no other.\<close>

lemma count_claim:
  assumes "jobs_ok db" and "next_candidate now inst k locked db = Some c" and "loses_running q"
  shows "count_where q (update_where (\<lambda>r. row_id r = row_id c) (mark_running now k w t) db) =
    count_where q db + (if q (mark_running now k w t c) then 1 else 0)"
proof -
  have c: "c \<in> set db" "row_status c = Queued"
    using next_candidate_Some(1)[OF assms(2)] claimableD by blast+
  with assms(3) have "\<not> q c" unfolding loses_running_def by force
  with count_where_update_one[OF jobs_ok_distinct[OF assms(1)] c(1), of q "mark_running now k w t"]
  show ?thesis by simp
qed

lemma running_with_key_mark [simp]:
  "running_with_key inst name key (mark_running now k w t r) \<longleftrightarrow>
    of_kind inst name r \<and> row_concurrencyKey r = Some key"
  by (simp add: running_with_key_def running_mark_running)

text \<open>The claims of a pass keep every limit of their kind.\<close>

lemma claim_loop_limits:
  assumes ok: "jobs_ok db" "fresh_tokens tokens db" and valid: "valid_kind k"
    and global: "\<And>g. conc_global (concurrency k) = Some g \<Longrightarrow>
      free \<le> g - of_nat (count_where (running_of inst (kind k)) db)"
    and start: "\<And>g. conc_global (concurrency k) = Some g \<Longrightarrow>
      of_nat (count_where (running_of inst (kind k)) db) \<le> g"
    and perKey: "\<And>p key. conc_perKey (concurrency k) = Some p \<Longrightarrow>
      of_nat (count_where (running_with_key inst (kind k) key) db) \<le> p"
    and res: "claim_loop now inst k workerId tokens locked free db [] = (db', out)"
  shows "\<And>g. conc_global (concurrency k) = Some g \<Longrightarrow>
      of_nat (count_where (running_of inst (kind k)) db') \<le> g"
    and "\<And>p key. conc_perKey (concurrency k) = Some p \<Longrightarrow>
      of_nat (count_where (running_with_key inst (kind k) key) db') \<le> p"
    and "\<And>inst' name. (inst', name) \<noteq> (inst, kind k) \<Longrightarrow>
      count_where (running_of inst' name) db' = count_where (running_of inst' name) db \<and>
      (\<forall>key. count_where (running_with_key inst' name key) db' =
        count_where (running_with_key inst' name key) db)"
proof -
  let ?run = "count_where (running_of inst (kind k))"
  let ?key = "\<lambda>key. count_where (running_with_key inst (kind k) key)"
  let ?P = "\<lambda>d out. ?run d = ?run db + length out \<and>
    (\<forall>g. conc_global (concurrency k) = Some g \<longrightarrow> of_nat (?run d) \<le> g) \<and>
    (\<forall>p key. conc_perKey (concurrency k) = Some p \<longrightarrow> of_nat (?key key d) \<le> p) \<and>
    (\<forall>inst' name. (inst', name) \<noteq> (inst, kind k) \<longrightarrow>
      count_where (running_of inst' name) d = count_where (running_of inst' name) db \<and>
      (\<forall>key. count_where (running_with_key inst' name key) d =
        count_where (running_with_key inst' name key) db))"
  have "case claim_loop now inst k workerId tokens locked free db [] of (d, out) \<Rightarrow>
    ?P d out \<and> jobs_ok d"
    using ok
  proof (rule claim_loop_ok_rule)
    show "?P db []" using start perKey by auto
  next
    fix d and out :: "job_row list" and c m
    assume P: "?P d out" and okd: "jobs_ok d" and more: "of_nat (length out) < free"
      and c: "next_candidate now inst k locked d = Some c"
      and m: "m = mark_running now k workerId (tokens (length out))"
    let ?d = "update_where (\<lambda>r. row_id r = row_id c) m d"
    have cnt: "?run d = ?run db + length out" using P by blast
    note cc = next_candidate_Some(1)[OF c] count_claim[OF okd c, folded m]
    have kc: "of_kind inst (kind k) c" using cc(1) by (simp add: claimable_def)
    have other: "\<not> of_kind inst' name c" if "(inst', name) \<noteq> (inst, kind k)" for inst' name
      using kc that by (auto simp: of_kind_def)
    have run: "?run ?d = Suc (?run d)"
      using cc(2)[OF loses_running_of, of inst "kind k"] kc m by (simp add: running_mark_running)
    have keys: "?key key ?d = ?key key d + (if row_concurrencyKey c = Some key then 1 else 0)" for key
      using cc(2)[OF loses_running_with_key, of inst "kind k" key] kc m by simp
    have "of_nat (?run ?d) \<le> g" if g: "conc_global (concurrency k) = Some g" for g
    proof -
      have "of_nat (?run db + length out) < g" using more global[OF g] by simp
      then show ?thesis
        unfolding run cnt by (rule of_nat_lt_positive_integer[OF valid_kind_global[OF valid g]])
    qed
    moreover have "of_nat (?key key ?d) \<le> p" if p: "conc_perKey (concurrency k) = Some p" for p key
    proof (cases "row_concurrencyKey c = Some key")
      case True
      with cc(1) p have "of_nat (?key key d) < p" by (simp add: claimable_def)
      then have "of_nat (Suc (?key key d)) \<le> p"
        by (rule of_nat_lt_positive_integer[OF valid_kind_perKey[OF valid p]])
      with True keys show ?thesis by simp
    next
      case False
      with keys[of key] P p show ?thesis by simp
    qed
    moreover have "count_where (running_of inst' name) ?d = count_where (running_of inst' name) db \<and>
      (\<forall>key. count_where (running_with_key inst' name key) ?d =
        count_where (running_with_key inst' name key) db)"
      if ne: "(inst', name) \<noteq> (inst, kind k)" for inst' name
      using cc(2)[OF loses_running_of, of inst' name] cc(2)[OF loses_running_with_key, of inst' name]
        other[OF ne] P ne m by (simp add: running_mark_running)
    ultimately show "?P ?d (out @ [m c])"
      using run cnt by simp
  qed
  with res show
    "\<And>g. conc_global (concurrency k) = Some g \<Longrightarrow> of_nat (?run db') \<le> g"
    "\<And>p key. conc_perKey (concurrency k) = Some p \<Longrightarrow> of_nat (?key key db') \<le> p"
    "\<And>inst' name. (inst', name) \<noteq> (inst, kind k) \<Longrightarrow>
      count_where (running_of inst' name) db' = count_where (running_of inst' name) db \<and>
      (\<forall>key. count_where (running_with_key inst' name key) db' =
        count_where (running_with_key inst' name key) db)"
    by auto
qed

lemma limits_ok_mono:
  assumes "limits_ok decl db" and "\<And>q. loses_running q \<Longrightarrow> count_where q db' \<le> count_where q db"
  shows "limits_ok decl db'"
proof -
  have le: "of_nat (count_where q db') \<le> (of_nat (count_where q db) :: rat)" if "loses_running q" for q
    using assms(2)[OF that] by (simp only: of_nat_le_iff)
  show ?thesis
    using assms(1) le[OF loses_running_of] le[OF loses_running_with_key]
    unfolding limits_ok_def by (meson order_trans)
qed

lemma count_recover_le:
  "loses_running q \<Longrightarrow>
    count_where q (update_where (recoverable now inst k) (recovered now k) db) \<le> count_where q db"
  by (intro count_where_update_le) (auto simp: loses_running_def row_defs)

lemma limits_ok_claimJobs:
  assumes ok: "jobs_ok db" "fresh_tokens tokens db" and lim: "limits_ok decl db"
    and decl: "valid_declarations decl" "decl (kind k) = Some k"
    and res: "claimJobs now inst k workerId limit tokens locked db = (db', claimed)"
  shows "limits_ok decl db'"
proof -
  let ?db = "update_where (recoverable now inst k) (recovered now k) db"
  have valid: "valid_kind k" using decl by (auto simp: valid_declarations_def)
  have lim1: "limits_ok decl ?db" by (rule limits_ok_mono[OF lim count_recover_le])
  obtain free where loop: "claim_loop now inst k workerId tokens locked free ?db [] = (db', claimed)"
    and free: "\<And>g. conc_global (concurrency k) = Some g \<Longrightarrow>
      free \<le> g - of_nat (count_where (running_of inst (kind k)) ?db)"
    using res by (auto simp: claimJobs_def Let_def)
  note claim = claim_loop_limits[OF jobs_ok_recover[OF ok(1)] fresh_tokens_recover[OF ok(2)] valid
      free _ _ loop]
  have g0: "of_nat (count_where (running_of inst (kind k)) ?db) \<le> g"
    if "conc_global (concurrency k) = Some g" for g
    using lim1 decl(2) that unfolding limits_ok_def by blast
  have p0: "of_nat (count_where (running_with_key inst (kind k) key) ?db) \<le> p"
    if "conc_perKey (concurrency k) = Some p" for p key
    using lim1 decl(2) that unfolding limits_ok_def by blast
  show ?thesis
    unfolding limits_ok_def
  proof (intro allI impI)
    fix inst' name k'
    assume k': "decl name = Some k'"
    show "(\<forall>g. conc_global (concurrency k') = Some g \<longrightarrow>
        of_nat (count_where (running_of inst' name) db') \<le> g) \<and>
      (\<forall>p key. conc_perKey (concurrency k') = Some p \<longrightarrow>
        of_nat (count_where (running_with_key inst' name key) db') \<le> p)"
    proof (cases "(inst', name) = (inst, kind k)")
      case True
      with k' decl(2) have "k' = k" by simp
      with True claim(1,2)[OF _ g0 p0] show ?thesis by auto
    next
      case False
      note same = claim(3)[OF _ g0 p0 False]
      from lim1 k' show ?thesis
        unfolding limits_ok_def using same by (metis (no_types, lifting))
    qed
  qed
qed

section \<open>Attempts and tokens\<close>

definition attempts_ok :: "job_row \<Rightarrow> bool" where
  "attempts_ok r \<longleftrightarrow>
     0 < row_maxAttempts r \<and> row_attempts r \<le> row_maxAttempts r \<and>
     (row_status r = Queued \<longrightarrow> row_attempts r < row_maxAttempts r)"

lemma attempts_ok_new_row:
  "valid_kind k \<Longrightarrow> attempts_ok (new_row now k p options i c)"
proof -
  assume "valid_kind k"
  then obtain m where "maxAttempts k = of_nat m" "0 < m"
    using positive_integer_nat valid_kind_attempts by metis
  then show ?thesis by (simp add: attempts_ok_def row_defs)
qed

lemma attempts_ok_ended_row:
  assumes "attempts_ok r" "row_ok r" "row_status r = Running"
    and "\<And>k code message. e = End_Retry k code message \<Longrightarrow> row_attempts r < row_maxAttempts r"
  shows "attempts_ok (ended_row now e r)"
  using assms by (cases e) (auto simp: attempts_ok_def row_defs row_ok_def)

definition row_inv :: "string set \<Rightarrow> job_row \<Rightarrow> bool" where
  "row_inv used r \<longleftrightarrow>
     attempts_ok r \<and> (\<forall>t. row_leaseToken r = Some t \<longrightarrow> t \<in> used)"

definition queue_inv :: "(string \<Rightarrow> job_kind option) \<Rightarrow> queue_state \<Rightarrow> bool" where
  "queue_inv decl s \<longleftrightarrow>
     jobs_ok (fst s) \<and> limits_ok decl (fst s) \<and> (\<forall>r \<in> set (fst s). row_inv (snd s) r)"

lemma row_inv_mono: "row_inv used r \<Longrightarrow> used \<subseteq> used' \<Longrightarrow> row_inv used' r"
  by (auto simp: row_inv_def)

lemma row_inv_update:
  assumes "\<forall>r \<in> set db. row_inv used r" and "\<And>r. r \<in> set db \<Longrightarrow> p r \<Longrightarrow> row_inv used (f r)"
  shows "\<forall>r \<in> set (update_where p f db). row_inv used r"
  using assms by (auto simp: set_update_where)

lemma row_inv_renewed [simp]: "row_inv used (renewed clock t r) = row_inv used r"
  by (simp add: row_inv_def attempts_ok_def row_defs)

lemma row_inv_ended_row:
  "attempts_ok (ended_row now e r) \<Longrightarrow> row_inv used (ended_row now e r)"
  by (simp add: row_inv_def)

lemma row_inv_claim_loop:
  assumes rows: "\<forall>r \<in> set db. row_inv used r"
    and ids: "jobs_ok db" "fresh_tokens tokens db"
    and res: "claim_loop now inst k workerId tokens locked free db [] = (db', out)"
  shows "\<forall>r \<in> set db'. row_inv (used \<union> {t. Some t \<in> set (map row_leaseToken out)}) r"
proof -
  let ?U = "\<lambda>out. used \<union> {t. Some t \<in> set (map row_leaseToken out)}"
  have "case claim_loop now inst k workerId tokens locked free db [] of (d, out) \<Rightarrow>
    (\<forall>r \<in> set d. row_inv (?U out) r) \<and> jobs_ok d"
    using ids
  proof (rule claim_loop_ok_rule)
    show "\<forall>r \<in> set db. row_inv (?U []) r" using rows by simp
  next
    fix d and out :: "job_row list" and c m
    assume P: "\<forall>r \<in> set d. row_inv (?U out) r" and c: "c \<in> set d" "row_status c = Queued"
      and only: "\<And>s. s \<in> set d \<Longrightarrow> row_id s = row_id c \<Longrightarrow> s = c"
      and m: "m = mark_running now k workerId (tokens (length out))"
    have mono: "?U out \<subseteq> ?U (out @ [m c])" by auto
    have "row_inv (?U (out @ [m c])) (m c)"
      using bspec[OF P c(1)] c(2) m by (auto simp: row_inv_def attempts_ok_def row_defs)
    moreover have "\<forall>r \<in> set d. row_inv (?U (out @ [m c])) r"
      using P mono row_inv_mono by blast
    ultimately show "\<forall>r \<in> set (update_where (\<lambda>r. row_id r = row_id c) m d). row_inv (?U (out @ [m c])) r"
      using only by (intro row_inv_update) auto
  qed
  with res show ?thesis by simp
qed

text \<open>Every step keeps the invariant of the machine.\<close>

lemma jobs_ok_step:
  assumes "queue_step decl (db, used) (db', used')" and "jobs_ok db"
  shows "jobs_ok db'"
  using assms(1)
proof (cases rule: queue_step.cases)
  case (step_enqueue k now payload options ids corrs job)
  then show ?thesis using assms(2) by (auto intro: jobs_ok_enqueueJob simp: quiet_def)
next
  case (step_claim k tokens now inst workerId limit locked claimed)
  then show ?thesis using jobs_ok_claimJobs[OF assms(2), of tokens now inst k workerId limit locked] by simp
next
  case (step_end clock lease r ending now)
  note r = lockLeasedJob_Some[OF step_end(3)]
  from step_end(1) show ?thesis
    using jobs_ok_endJobAttempt[OF assms(2) r(1) refl r(5)] by simp
next
  case (step_bury now jobId r ending code message)
  note r = lockExhaustedJob_Some[OF step_bury(3)]
  from step_bury(1) show ?thesis
    using jobs_ok_endJobAttempt[OF assms(2) r(1) refl r(4)] by simp
qed (simp_all add: assms(2) jobs_ok_withdraw jobs_ok_prune jobs_ok_makeScheduleTickDue
    jobs_ok_heartbeat jobs_ok_renewLocked jobs_ok_retryJob)

lemma limits_ok_step:
  assumes step: "queue_step decl (db, used) (db', used')" and ok: "jobs_ok db" "limits_ok decl db"
    and decl: "valid_declarations decl"
  shows "limits_ok decl db'"
proof (cases "claim_step decl db db'")
  case True
  then show ?thesis
    unfolding claim_step_def using limits_ok_claimJobs[OF ok(1) _ ok(2) decl] by blast
next
  case False
  show ?thesis by (rule limits_ok_mono[OF ok(2) count_running_step[OF step _ False]])
qed

lemma row_inv_endJobAttempt:
  assumes ok: "jobs_ok db" and rows: "\<forall>r \<in> set db. row_inv used r"
    and r: "r \<in> set db" "row_status r = Running"
    and guard: "\<And>k code message. e = End_Retry k code message \<Longrightarrow> row_attempts r < row_maxAttempts r"
  shows "\<forall>x \<in> set (endJobAttempt now (row_id r) e db). row_inv used x"
  unfolding endJobAttempt_def
proof (rule row_inv_update[OF rows])
  fix s assume "s \<in> set db" "row_id s = row_id r"
  then have "s = r" using jobs_ok_same_id[OF ok] r(1) by blast
  moreover have "attempts_ok (ended_row now e r)"
    using rows r jobs_ok_row[OF ok r(1)] guard by (intro attempts_ok_ended_row) (auto simp: row_inv_def)
  ultimately show "row_inv used (ended_row now e s)" by (simp add: row_inv_ended_row)
qed

lemma row_inv_requeued: "row_inv used r \<Longrightarrow> row_inv used (requeued_row now r)"
  by (simp add: row_inv_def attempts_ok_def row_defs)

lemma row_inv_recovered: "row_inv used r \<Longrightarrow> recoverable now inst k r \<Longrightarrow> row_inv used (recovered now k r)"
  by (simp add: row_inv_def attempts_ok_def row_defs recoverable_def)

lemma row_inv_step:
  assumes step: "queue_step decl (db, used) (db', used')" and ok: "jobs_ok db"
    and rows: "\<forall>r \<in> set db. row_inv used r" and decl: "valid_declarations decl"
  shows "\<forall>r \<in> set db'. row_inv used' r"
  using step
proof (cases rule: queue_step.cases)
  case (step_enqueue k now payload options ids corrs job)
  have "valid_kind k" using decl step_enqueue(2) by (auto simp: valid_declarations_def)
  with step_enqueue rows show ?thesis
    by (auto elim!: enqueueJob_quiet simp: row_inv_def attempts_ok_new_row)
next
  case (step_withdraw inst k dedupe)
  with rows show ?thesis by (simp add: withdraw_def set_delete_where)
next
  case (step_prune now users workspaces inst)
  with rows show ?thesis by (simp add: pruneEndedJobs_def Let_def set_delete_where)
next
  case (step_due now inst s)
  have "\<forall>r \<in> set (makeScheduleTickDue now inst s db). row_inv used r"
    unfolding makeScheduleTickDue_def
    by (rule row_inv_update[OF rows]) (use rows in \<open>auto simp: row_inv_def attempts_ok_def\<close>)
  with step_due show ?thesis by simp
next
  case (step_claim k tokens now inst workerId limit locked claimed)
  let ?db = "update_where (recoverable now inst k) (recovered now k) db"
  have "\<forall>r \<in> set ?db. row_inv used r"
    by (rule row_inv_update[OF rows]) (use rows row_inv_recovered in blast)
  then have "\<forall>r \<in> set db'. row_inv (used \<union> {t. Some t \<in> set (map row_leaseToken claimed)}) r"
    using step_claim(5) row_inv_claim_loop[OF _ jobs_ok_recover[OF ok] fresh_tokens_recover[OF step_claim(3)]]
    unfolding claimJobs_def Let_def by blast
  with step_claim(1) show ?thesis by simp
next
  case (step_heartbeat clock lease leaseTime)
  have "\<forall>r \<in> set (fst (heartbeatJob clock lease leaseTime db)). row_inv used r"
    unfolding heartbeatJob_def fst_conv by (rule row_inv_update[OF rows]) (use rows in simp)
  with step_heartbeat show ?thesis by simp
next
  case (step_renew clock lease r clock' leaseTime)
  have "\<forall>r \<in> set (renewLockedJobLease clock' lease leaseTime db). row_inv used r"
    unfolding renewLockedJobLease_def by (rule row_inv_update[OF rows]) (use rows in simp)
  with step_renew show ?thesis by simp
next
  case (step_end clock lease r ending now)
  note r = lockLeasedJob_Some[OF step_end(3)]
  from row_inv_endJobAttempt[OF ok rows r(1,5) step_end(4)] step_end(1,2) show ?thesis by simp
next
  case (step_bury now jobId r ending code message)
  note r = lockExhaustedJob_Some[OF step_bury(3)]
  have "\<And>k c m. ending = End_Retry k c m \<Longrightarrow> row_attempts r < row_maxAttempts r"
    using step_bury(4) by auto
  from row_inv_endJobAttempt[OF ok rows r(1,4) this] step_bury(1,2) show ?thesis by simp
next
  case (step_retry now inst jobId)
  have "\<forall>r \<in> set (update_where p (requeued_row now) db). row_inv used r" for p
    by (rule row_inv_update[OF rows]) (use rows row_inv_requeued in blast)
  with step_retry rows show ?thesis by (auto simp: retryJob_def split: option.splits)
qed

lemma queue_inv_step:
  "queue_inv decl s \<Longrightarrow> queue_step decl s t \<Longrightarrow> valid_declarations decl \<Longrightarrow> queue_inv decl t"
  using jobs_ok_step limits_ok_step row_inv_step
  by (cases s; cases t) (metis fst_conv snd_conv queue_inv_def)

lemma limits_ok_Nil: "valid_declarations decl \<Longrightarrow> limits_ok decl []"
  unfolding limits_ok_def valid_declarations_def
  using valid_kind_global valid_kind_perKey by (fastforce simp: positive_integer_def less_imp_le)

lemma queue_inv_start: "queue_start s \<Longrightarrow> valid_declarations decl \<Longrightarrow> queue_inv decl s"
  by (simp add: queue_start_def queue_inv_def limits_ok_Nil)

interpretation queue_table: invariant_system queue_start "queue_step decl" "\<lambda>s. jobs_ok (fst s)"
  for decl
  by unfold_locales (auto simp: queue_start_def intro: jobs_ok_step elim: queue_step.cases)

interpretation queue: invariant_system queue_start "queue_step decl"
    "\<lambda>s. valid_declarations decl \<longrightarrow> queue_inv decl s"
  for decl
  by unfold_locales (blast intro: queue_inv_start queue_inv_step)+

lemma queue_inv_reachable:
  "reachable queue_start (queue_step decl) s \<Longrightarrow> valid_declarations decl \<Longrightarrow> queue_inv decl s"
  using queue.inv_reachable by blast

section \<open>Lost leases\<close>

definition token_gone :: "string \<Rightarrow> queue_state \<Rightarrow> bool" where
  "token_gone t s \<longleftrightarrow> t \<in> snd s \<and> (\<forall>r \<in> set (fst s). row_leaseToken r \<noteq> Some t)"

lemma token_update:
  assumes "\<forall>r \<in> set db. row_leaseToken r \<noteq> Some t"
    and "\<And>r. row_leaseToken (f r) = None \<or> row_leaseToken (f r) = row_leaseToken r"
  shows "\<forall>r \<in> set (update_where p f db). row_leaseToken r \<noteq> Some t"
proof
  fix x assume "x \<in> set (update_where p f db)"
  then show "row_leaseToken x \<noteq> Some t"
    by (rule in_update_whereE) (use assms in \<open>metis option.distinct(1)\<close>)+
qed

lemma token_row_defs [simp]:
  "row_leaseToken (renewed clock d r) = row_leaseToken r"
  "row_leaseToken (recovered now k r) = None"
  "row_leaseToken (requeued_row now r) = row_leaseToken r"
  by (simp_all add: row_defs)

lemma token_claim_loop:
  assumes "\<forall>r \<in> set db. row_leaseToken r \<noteq> Some t" and "t \<notin> range tokens"
    and res: "claim_loop now inst k workerId tokens locked free db [] = (db', out)"
  shows "\<forall>r \<in> set db'. row_leaseToken r \<noteq> Some t"
proof -
  have "case claim_loop now inst k workerId tokens locked free db [] of (d, out) \<Rightarrow>
    \<forall>r \<in> set d. row_leaseToken r \<noteq> Some t"
    by (rule claim_loop_rule) (use assms(1,2) in \<open>auto simp: set_update_where row_defs\<close>)
  with res show ?thesis by simp
qed

lemma token_gone_step:
  assumes "queue_step decl (db, used) (db', used')" and gone: "token_gone t (db, used)"
  shows "token_gone t (db', used')"
proof -
  have db: "\<forall>r \<in> set db. row_leaseToken r \<noteq> Some t" and used: "t \<in> used"
    using gone by (auto simp: token_gone_def)
  have renewed: "\<forall>r \<in> set (update_where p (renewed c d) db). row_leaseToken r \<noteq> Some t" for p c d
    by (rule token_update[OF db]) simp
  have ended: "\<forall>r \<in> set (update_where p (ended_row c e) db). row_leaseToken r \<noteq> Some t" for p c e
    by (rule token_update[OF db]) simp
  have "t \<in> used' \<and> (\<forall>r \<in> set db'. row_leaseToken r \<noteq> Some t)"
    using assms(1)
  proof (cases rule: queue_step.cases)
    case (step_enqueue k now payload options ids corrs job)
    with db used show ?thesis by (auto elim!: enqueueJob_quiet)
  next
    case (step_claim k tokens now inst workerId limit locked claimed)
    have "t \<notin> range tokens" using used step_claim(4) by blast
    have "\<forall>r \<in> set (update_where (recoverable now inst k) (recovered now k) db).
        row_leaseToken r \<noteq> Some t"
      by (rule token_update[OF db]) simp
    from token_claim_loop[OF this \<open>t \<notin> range tokens\<close>] step_claim(5)
    have "\<forall>r \<in> set db'. row_leaseToken r \<noteq> Some t" unfolding claimJobs_def Let_def by blast
    with used step_claim(1) show ?thesis by simp
  next
    case (step_retry now inst jobId)
    with db used token_update[OF db, of "requeued_row now"] show ?thesis
      by (auto simp: retryJob_def split: option.splits)
  next
    case (step_due now inst s)
    have "\<forall>r \<in> set (makeScheduleTickDue now inst s db). row_leaseToken r \<noteq> Some t"
      unfolding makeScheduleTickDue_def by (rule token_update[OF db]) simp
    with step_due used show ?thesis by simp
  qed (use db used renewed ended in
      \<open>simp_all add: withdraw_def pruneEndedJobs_def Let_def set_delete_where heartbeatJob_def
        renewLockedJobLease_def endJobAttempt_def\<close>)
  then show ?thesis by (simp add: token_gone_def)
qed

lemma token_gone_steps:
  "(queue_step decl)\<^sup>*\<^sup>* s t \<Longrightarrow> token_gone tok s \<Longrightarrow> token_gone tok t"
proof (induction rule: rtranclp_induct)
  case (step y z)
  then show ?case using token_gone_step by (cases y; cases z) blast
qed simp

lemma not_held:
  assumes "\<forall>r \<in> set db. row_leaseToken r \<noteq> Some (lease_token lease)"
  shows "lockLeasedJob clock lease db = None"
    and "heartbeatJob clock lease leaseTime db = (db, False)"
    and "renewLockedJobLease clock lease leaseTime db = db"
proof -
  have none: "\<not> heldBy clock lease r" if "r \<in> set db" for r
    using assms that by (simp add: heldBy_def)
  then show "lockLeasedJob clock lease db = None"
    by (simp add: lockLeasedJob_def find_None_iff)
  have "count_where (heldBy clock lease) db = 0"
    using none by (auto simp: count_where_def filter_empty_conv)
  then show "heartbeatJob clock lease leaseTime db = (db, False)"
    using none by (simp add: heartbeatJob_def update_where_none)
  show "renewLockedJobLease clock lease leaseTime db = db"
    using assms by (auto simp: renewLockedJobLease_def intro: update_where_none)
qed

text \<open>Ending an attempt under its lock takes its token from the table: no two rows share one.\<close>

lemma token_gone_end:
  assumes ok: "jobs_ok db" and r: "r \<in> set db" "row_leaseToken r = Some t" and used: "t \<in> used"
  shows "token_gone t (endJobAttempt now (row_id r) e db, used)"
  unfolding token_gone_def fst_conv snd_conv
proof (intro conjI ballI used)
  fix x assume "x \<in> set (endJobAttempt now (row_id r) e db)"
  then show "row_leaseToken x \<noteq> Some t"
    unfolding endJobAttempt_def
  proof (rule in_update_whereE)
    assume "x \<in> set db" "row_id x \<noteq> row_id r"
    then show ?thesis using unique_byD[OF jobs_ok_unique_tokens[OF ok] _ r(1) _ r(2)] by blast
  qed simp
qed

section \<open>An example queue\<close>

text \<open>The witnesses below run on this declaration and on one job of it.\<close>

definition demo_kind :: job_kind where
  "demo_kind =
     \<lparr> kind = ''mail.send'', payloadSchema = Inr, maxAttempts = 3,
       kind_backoff = \<lparr> baseMs = 1000, maxMs = 60000 \<rparr>, leaseMs = 30000, heartbeatMs = None,
       concurrency = \<lparr> conc_global = Some 2, conc_perKey = Some 1 \<rparr>, manualRetry = True \<rparr>"

definition demo_decl :: "string \<Rightarrow> job_kind option" where
  "demo_decl name = (if name = ''mail.send'' then Some demo_kind else None)"

definition demo_options :: enqueue_options where
  "demo_options =
     \<lparr> opt_instance = ''ci'', opt_subject = Some ''m1'', opt_runAfter = None,
       opt_dedupeKey = Some ''mail.send:m1'', opt_concurrencyKey = Some ''acme'',
       opt_correlationId = None, opt_delayMs = None \<rparr>"

definition demo_token :: "nat \<Rightarrow> string" where
  "demo_token i = ''t'' @ replicate i CHR ''x''"

definition demo_row :: job_row where
  "demo_row = new_row 0 demo_kind (JObj []) demo_options ''job_1'' ''corr_1''"

definition demo_running :: job_row where
  "demo_running = mark_running 5 demo_kind ''worker_1'' ''t'' demo_row"

lemma demo_kind_valid: "valid_kind demo_kind"
  by (simp add: valid_kind_def defineJobKind_def demo_kind_def Let_def is_kind_name_def is_lower_def
      positive_integer_def is_integer_def less_eq_char_def)

lemma demo_decl_valid: "valid_declarations demo_decl"
  using demo_kind_valid by (auto simp: valid_declarations_def demo_decl_def demo_kind_def split: if_splits)

lemma demo_token_fresh: "fresh_tokens demo_token [demo_row]"
  by (auto simp: fresh_tokens_def demo_token_def inj_def demo_row_def row_defs dest: map_injective)

lemmas demo_defs = demo_kind_def demo_options_def demo_row_def demo_running_def row_defs

lemma demo_enqueue:
  "enqueueJob quiet quiet 0 demo_kind (JObj []) demo_options (\<lambda>_. ''job_1'') (\<lambda>_. ''corr_1'') [] =
    Inr ([demo_row], (mapJob demo_row)\<lparr>job_payload := JObj []\<rparr>)"
proof -
  have five: "(5::nat) = Suc 4" by simp
  show ?thesis
    unfolding enqueueJob_def five enqueue_rounds.simps
    by (simp add: demo_defs insert_job_def Let_def)
qed

lemma demo_claim:
  "claimJobs 5 ''ci'' demo_kind ''worker_1'' 4 demo_token (\<lambda>_. False) [demo_row] =
    ([demo_running], [demo_running])"
proof -
  have rec: "update_where (recoverable 5 ''ci'' demo_kind) (recovered 5 demo_kind) [demo_row] = [demo_row]"
    by (rule update_where_none) (simp add: recoverable_def demo_defs)
  have first: "next_candidate 5 ''ci'' demo_kind (\<lambda>_. False) [demo_row] = Some demo_row"
    by (simp add: next_candidate_def claimable_def of_kind_def running_with_key_def running_of_def demo_defs)
  have upd: "update_where (\<lambda>r. row_id r = row_id demo_row)
      (mark_running 5 demo_kind ''worker_1'' (demo_token 0)) [demo_row] = [demo_running]"
    by (simp add: update_where_def demo_running_def demo_token_def)
  have none: "next_candidate 5 ''ci'' demo_kind (\<lambda>_. False) [demo_running] = None"
    by (simp add: next_candidate_None claimable_def demo_defs)
  have free: "count_where (running_of ''ci'' (kind demo_kind)) [demo_row] = 0"
    by (simp add: running_of_def demo_defs)
  have "claim_loop 5 ''ci'' demo_kind ''worker_1'' demo_token (\<lambda>_. False) 2 [demo_row] [] =
      ([demo_running], [demo_running])"
    using claim_loop_next[OF _ first, of "[]" 2 "''worker_1''" demo_token] claim_loop_empty[OF none] upd
    by (simp add: demo_running_def demo_token_def)
  moreover have "conc_global (concurrency demo_kind) = Some 2" by (simp add: demo_kind_def)
  ultimately show ?thesis unfolding claimJobs_def Let_def rec free by simp
qed

lemma demo_decl_kind: "demo_decl (kind demo_kind) = Some demo_kind"
  by (simp add: demo_decl_def demo_kind_def)

lemma demo_reach_queued: "reachable queue_start (queue_step demo_decl) ([demo_row], {})"
proof -
  have "queue_step demo_decl ([], {}) ([demo_row], {})"
    by (rule step_enqueue, rule demo_decl_kind, rule demo_enqueue)
  with reachable_start show ?thesis
    by (rule reachable_move) (simp add: queue_start_def)
qed

lemma demo_reach_running:
  "reachable queue_start (queue_step demo_decl) ([demo_running], {''t''})"
proof -
  have tok: "{} \<union> {t. Some t \<in> set (map row_leaseToken [demo_running])} = {''t''}"
    by (simp add: demo_running_def mark_running_def)
  have "queue_step demo_decl ([demo_row], {})
      ([demo_running], {} \<union> {t. Some t \<in> set (map row_leaseToken [demo_running])})"
    by (rule step_claim, rule demo_decl_kind, rule demo_token_fresh, simp, rule demo_claim)
  with demo_reach_queued show ?thesis
    unfolding tok by (rule reachable_move)
qed

lemma demo_lock:
  "lockLeasedJob 6 \<lparr>lease_jobId = ''job_1'', lease_token = ''t''\<rparr> [demo_running] = Some demo_running"
  by (simp add: lockLeasedJob_def heldBy_def demo_defs)

lemma jobs_ok_demo_row: "jobs_ok [demo_row]"
  using queue_table.inv_reachable[OF demo_reach_queued] by simp

end
