(* ===== verification/Job_Claims.thy ===== *)
theory Job_Claims imports Job_Queue begin

text \<open>
  What one claim takes from the queue (\<open>claimJobs\<close>), one enqueue puts there (\<open>enqueueJob\<close>) and
  pruning removes (\<open>pruneEndedJobs\<close>): the facts behind the order, idempotence and retention
  promises.
\<close>

section \<open>The order of claims\<close>

text \<open>The table a claim starts from, and how many jobs it may take.\<close>

definition after_recovery :: "time \<Rightarrow> string \<Rightarrow> job_kind \<Rightarrow> jobs \<Rightarrow> jobs" where
  "after_recovery now inst k db = update_where (recoverable now inst k) (recovered now k) db"

definition claim_room :: "string \<Rightarrow> job_kind \<Rightarrow> rat \<Rightarrow> jobs \<Rightarrow> rat" where
  "claim_room inst k limit db =
     (case conc_global (concurrency k) of None \<Rightarrow> limit
      | Some g \<Rightarrow> min limit (g - of_nat (count_where (running_of inst (kind k)) db)))"

lemma claimJobs_loop:
  "claimJobs now inst k workerId limit tokens locked db =
    claim_loop now inst k workerId tokens locked
      (claim_room inst k limit (after_recovery now inst k db)) (after_recovery now inst k db) []"
  by (simp add: claimJobs_def claim_room_def after_recovery_def Let_def)

lemma claim_order_mark [simp]: "claim_order (mark_running now k w t r) = claim_order r"
  by (simp add: claim_order_def row_defs)

text \<open>A claim makes no other job claimable: it only takes room of its own concurrency key.\<close>

lemma claimable_mono:
  assumes "claimable now inst k locked db' r"
    and "\<And>key. count_where (running_with_key inst (kind k) key) db \<le>
      count_where (running_with_key inst (kind k) key) db'"
  shows "claimable now inst k locked db r"
proof -
  have le: "(of_nat (count_where (running_with_key inst (kind k) key) db) :: rat) \<le>
      of_nat (count_where (running_with_key inst (kind k) key) db')" for key
    using assms(2) by simp
  show ?thesis
    using assms(1) by (auto simp: claimable_def split: option.splits intro: le_less_trans[OF le])
qed

lemma claimable_after_claim:
  assumes ok: "jobs_ok db" and c: "next_candidate now inst k locked db = Some c"
    and m: "m = mark_running now k w t"
    and r: "r \<in> set (update_where (\<lambda>r. row_id r = row_id c) m db)"
    and cl: "claimable now inst k locked (update_where (\<lambda>r. row_id r = row_id c) m db) r"
  shows "r \<in> set db \<and> claimable now inst k locked db r"
proof -
  have "row_status r = Queued" using cl by (rule claimableD)
  with r have "r \<in> set db"
    by (rule_tac in_update_whereE[OF r]) (auto simp: m row_defs)
  moreover have "claimable now inst k locked db r"
    using cl by (rule claimable_mono)
      (simp add: m count_claim[OF ok c loses_running_with_key])
  ultimately show ?thesis by blast
qed

lemma sorted_snoc: "sorted xs \<Longrightarrow> (\<And>x. x \<in> set xs \<Longrightarrow> x \<le> y) \<Longrightarrow> sorted (xs @ [y])"
  by (simp add: sorted_append)

definition claim_facts ::
    "time \<Rightarrow> string \<Rightarrow> job_kind \<Rightarrow> (string \<Rightarrow> bool) \<Rightarrow> jobs \<Rightarrow> jobs \<Rightarrow> job_row list \<Rightarrow> bool" where
  "claim_facts now inst k locked db db' claimed \<longleftrightarrow>
     sorted (map claim_order claimed) \<and>
     (\<forall>r \<in> set db'. claimable now inst k locked db' r \<longrightarrow>
        (\<forall>c \<in> set claimed. claim_order c \<le> claim_order r)) \<and>
     (\<forall>c \<in> set claimed. \<exists>q \<in> set db. claimable now inst k locked db q \<and> row_id q = row_id c \<and>
        row_attempts c = row_attempts q + 1)"

lemma claim_loop_facts:
  assumes ok: "jobs_ok db" and fresh: "fresh_tokens tokens db"
    and res: "claim_loop now inst k workerId tokens locked free db [] = (db', claimed)"
  shows "claim_facts now inst k locked db db' claimed"
proof -
  let ?P = "\<lambda>d out. claim_facts now inst k locked db d out \<and>
    (\<forall>r \<in> set d. claimable now inst k locked d r \<longrightarrow> r \<in> set db \<and> claimable now inst k locked db r)"
  have "case claim_loop now inst k workerId tokens locked free db [] of (d, out) \<Rightarrow>
    ?P d out \<and> jobs_ok d"
    using ok fresh
  proof (rule claim_loop_ok_rule)
    show "?P db []" by (simp add: claim_facts_def)
  next
    fix d and out :: "job_row list" and c m
    assume P: "?P d out" and okd: "jobs_ok d" and c: "next_candidate now inst k locked d = Some c"
      and m: "m = mark_running now k workerId (tokens (length out))"
    let ?d = "update_where (\<lambda>r. row_id r = row_id c) m d"
    note cand = next_candidate_Some[OF c]
    note old = claimable_after_claim[OF okd c m]
    have facts: "claim_facts now inst k locked db d out" using P by blast
    have "sorted (map claim_order (out @ [m c]))"
      using facts cand(1) unfolding map_append list.map
      by (intro sorted_snoc) (auto simp: claim_facts_def m)
    moreover have "claim_order x \<le> claim_order r"
      if "r \<in> set ?d" "claimable now inst k locked ?d r" "x \<in> set (out @ [m c])" for r x
      using old[OF that(1,2)] that(3) facts cand(2)[of r] by (auto simp: claim_facts_def m)
    moreover have "\<exists>q \<in> set db. claimable now inst k locked db q \<and> row_id q = row_id (m c) \<and>
        row_attempts (m c) = row_attempts q + 1"
      using P cand(1) by (intro bexI[of _ c]) (auto simp: m row_defs)
    ultimately have "claim_facts now inst k locked db ?d (out @ [m c])"
      using facts by (auto simp: claim_facts_def)
    moreover have "r \<in> set db \<and> claimable now inst k locked db r"
      if "r \<in> set ?d" "claimable now inst k locked ?d r" for r
      using old[OF that] P by blast
    ultimately show "?P ?d (out @ [m c])" by blast
  qed
  with res show ?thesis by simp
qed

lemma claim_loop_length:
  assumes "claim_loop now inst k workerId tokens locked free db [] = (db', claimed)"
  shows "claimed = [] \<or> of_nat (length claimed) < free + 1"
proof -
  have "case claim_loop now inst k workerId tokens locked free db [] of (d, out) \<Rightarrow>
    out = [] \<or> of_nat (length out) < free + 1"
    by (rule claim_loop_rule) auto
  with assms show ?thesis by simp
qed

section \<open>One enqueue\<close>

text \<open>
  What an enqueue does when nothing interferes between its two statements: it finds the live job
  of the key, or it adds the new one.
\<close>

lemma enqueue_rounds_quiet:
  assumes "ids i \<notin> set (map row_id db)"
  shows "enqueue_rounds (Suc n) i quiet between now k v options ids corrs db =
    (case List.find (live_of (opt_instance options) (kind k) (opt_dedupeKey options)) db of
       Some r \<Rightarrow>
         (case payloadSchema k (row_payload r) of
            Inl e \<Rightarrow> Inl e
          | Inr p \<Rightarrow> Inr (db, (mapJob r)\<lparr>job_payload := p\<rparr>))
     | None \<Rightarrow>
         Inr (db @ [new_row now k v options (ids i) (corrs i)],
           mapJob (new_row now k v options (ids i) (corrs i))))"
proof -
  let ?r = "new_row now k v options (ids i) (corrs i)"
  let ?live = "live_of (opt_instance options) (kind k) (opt_dedupeKey options)"
  have key: "row_id ?r = ids i" "row_instance ?r = opt_instance options" "row_kind ?r = kind k"
    "row_dedupeKey ?r = opt_dedupeKey options"
    by (simp_all add: new_row_def)
  have pay: "(mapJob ?r)\<lparr>job_payload := v\<rparr> = mapJob ?r"
    by (simp add: mapJob_def new_row_def)
  show ?thesis
  proof (cases "List.find ?live db")
    case None
    then have "\<not> list_ex ?live db" by (auto simp: find_None_iff list_ex_iff)
    with assms None show ?thesis
      by (simp add: Let_def insert_job_def key pay)
  next
    case (Some r)
    then have "list_ex ?live db" using find_Some_iff[OF Some] by (auto simp: list_ex_iff)
    with assms Some show ?thesis
      by (simp add: Let_def insert_job_def key quiet_def)
  qed
qed

section \<open>Retention\<close>

lemma count_delete_where: "length (delete_where p rows) + count_where p rows = length rows"
  by (simp add: delete_where_def count_where_def add.commute sum_length_filter_compl)

end
