(* ===== verification/Job_Promises.thy ===== *)
theory Job_Promises imports Job_Claims begin

text \<open>
  What the executor promises of its queue: the invariants of every reachable table, the fate of a
  lost lease, the order and the extent of a claim, idempotent enqueues, bounded backoffs, what
  pruning keeps and what a retry by hand does.
\<close>

section \<open>The promises of the queue\<close>

text \<open>
  C1. One live job per dedupe key: in every state the queue can reach, through any interleaving of
  enqueues, claims, heartbeats, recoveries, endings, retries by hand and pruning, two queued or
  running jobs of one kind that hold the same dedupe key are the same job.
\<close>

theorem one_live_job_per_dedupe_key:
  assumes "reachable queue_start (queue_step decl) (db, used)"
    and "r \<in> set db" and "s \<in> set db" and "live r" and "live s"
    and "row_instance r = row_instance s" and "row_kind r = row_kind s"
    and "row_dedupeKey r = Some d" and "row_dedupeKey s = Some d"
  shows "r = s"
proof -
  have ok: "jobs_ok db" using queue_table.inv_reachable[OF assms(1)] by simp
  have "row_id r = row_id s"
    using unique_byD[OF jobs_ok_unique_live[OF ok] assms(2,3)] assms by (simp add: live_key_def)
  then show ?thesis using jobs_ok_same_id[OF ok assms(2,3)] by simp
qed

lemma one_live_job_per_dedupe_key_witness:
  "live demo_running \<and> demo_running \<in> set [demo_running] \<and> demo_running = demo_running"
  using one_live_job_per_dedupe_key[OF demo_reach_running, of demo_running demo_running "''mail.send:m1''"]
  by (simp add: live_def demo_defs)

text \<open>
  C2. The concurrency limits hold: in every reachable state at most \<open>concurrency.global\<close> jobs of a
  declared kind run, and at most \<open>concurrency.perKey\<close> of them with one concurrency key. The
  declarations are those \<open>defineJobKind\<close> accepts; a limit that is no whole number would be overrun.
\<close>

theorem concurrency_limits_hold:
  assumes "reachable queue_start (queue_step decl) (db, used)" and "valid_declarations decl"
    and "decl name = Some k"
  shows "(case conc_global (concurrency k) of None \<Rightarrow> True
      | Some g \<Rightarrow> of_nat (count_where (running_of inst name) db) \<le> g) \<and>
    (case conc_perKey (concurrency k) of None \<Rightarrow> True
      | Some p \<Rightarrow> of_nat (count_where (running_with_key inst name key) db) \<le> p)"
  using queue_inv_reachable[OF assms(1,2)] assms(3)
  by (simp add: queue_inv_def limits_ok_def split: option.splits)

lemma concurrency_limits_hold_witness:
  "of_nat (count_where (running_of ''ci'' ''mail.send'') [demo_running]) \<le> (2 :: rat) \<and>
   of_nat (count_where (running_with_key ''ci'' ''mail.send'' ''acme'') [demo_running]) \<le> (1 :: rat)"
  using concurrency_limits_hold[OF demo_reach_running demo_decl_valid, of "''mail.send''" demo_kind "''ci''" "''acme''"]
  by (simp add: demo_decl_def demo_kind_def)

text \<open>
  C3. A lease that ended never returns: once an attempt is ended under its lock, then in every later
  state, whatever the other transactions do, the attempt can no longer lock its job, its heartbeat
  reports the loss and neither the heartbeat nor a renewal touches the table.
\<close>

theorem ended_lease_never_returns:
  assumes "reachable queue_start (queue_step decl) (db, used)" and "valid_declarations decl"
    and "lockLeasedJob clock lease db = Some r"
    and "(queue_step decl)\<^sup>*\<^sup>* (endJobAttempt now (row_id r) ending db, used) (later, used')"
  shows "lockLeasedJob clock' lease later = None \<and>
    heartbeatJob clock' lease leaseTime later = (later, False) \<and>
    renewLockedJobLease clock' lease leaseTime later = later"
proof -
  note inv = queue_inv_reachable[OF assms(1,2)] and r = lockLeasedJob_Some[OF assms(3)]
  have "token_gone (lease_token lease) (endJobAttempt now (row_id r) ending db, used)"
    using inv r by (intro token_gone_end) (auto simp: queue_inv_def row_inv_def)
  from token_gone_steps[OF assms(4) this] show ?thesis
    using not_held[of later lease] by (simp add: token_gone_def)
qed

lemma ended_lease_never_returns_witness:
  "lockLeasedJob 7 \<lparr>lease_jobId = ''job_1'', lease_token = ''t''\<rparr>
    (endJobAttempt 6 ''job_1'' End_Succeeded [demo_running]) = None"
  using ended_lease_never_returns[OF demo_reach_running demo_decl_valid demo_lock rtranclp.rtrancl_refl,
      of 7 6 End_Succeeded]
  by (simp add: demo_defs)

text \<open>
  Attempts are bounded: in every reachable state a job has used between zero and \<open>maxAttempts\<close>
  attempts, a queued job has one left, and a running one is in an attempt that was counted.
\<close>

lemma attempts_bounded:
  assumes "reachable queue_start (queue_step decl) (db, used)" and "valid_declarations decl"
    and "r \<in> set db"
  shows "0 \<le> row_attempts r \<and> row_attempts r \<le> row_maxAttempts r \<and>
    (row_status r = Queued \<longrightarrow> row_attempts r < row_maxAttempts r) \<and>
    (row_status r = Running \<longrightarrow> 0 < row_attempts r)"
  using queue_inv_reachable[OF assms(1,2)] assms(3)
  by (auto simp: queue_inv_def row_inv_def attempts_ok_def row_ok_def dest: jobs_ok_row)

lemma attempts_bounded_witness:
  "row_attempts demo_running \<le> row_maxAttempts demo_running \<and> 0 < row_attempts demo_running"
  using attempts_bounded[OF demo_reach_running demo_decl_valid, of demo_running]
  by (simp add: demo_defs)

text \<open>
  Claims are fair and complete: a claim takes due queued jobs of its kind, in the order of due
  time, creation and id; it never passes over a claimable job for a later one; and it stops only
  when its room (the limit of the worker and the global limit of the kind) is used up or no job is
  claimable any more.
\<close>

lemma claims_earliest_due_first:
  assumes "jobs_ok db" and "fresh_tokens tokens db"
    and "claimJobs now inst k workerId limit tokens locked db = (db', claimed)"
  shows "sorted (map (\<lambda>r. (row_runAfter r, row_createdAt r, row_id r)) claimed) \<and>
    (\<forall>c \<in> set claimed. \<exists>q \<in> set (after_recovery now inst k db).
       claimable now inst k locked (after_recovery now inst k db) q \<and> row_id q = row_id c \<and>
       row_attempts c = row_attempts q + 1) \<and>
    (claimed = [] \<or>
       of_nat (length claimed) < claim_room inst k limit (after_recovery now inst k db) + 1) \<and>
    (\<forall>r \<in> set db'. claimable now inst k locked db' r \<longrightarrow>
       (\<forall>c \<in> set claimed. (row_runAfter c, row_createdAt c, row_id c) \<le> (row_runAfter r, row_createdAt r, row_id r)) \<and>
       claim_room inst k limit (after_recovery now inst k db) \<le> of_nat (length claimed))"
proof -
  have ok: "jobs_ok (after_recovery now inst k db)" "fresh_tokens tokens (after_recovery now inst k db)"
    unfolding after_recovery_def by (intro jobs_ok_recover fresh_tokens_recover assms)+
  note res = assms(3)[unfolded claimJobs_loop]
  have stop: "claim_room inst k limit (after_recovery now inst k db) \<le> of_nat (length claimed)"
    if "r \<in> set db'" "claimable now inst k locked db' r" for r
    using claim_loop_stops[where free = "claim_room inst k limit (after_recovery now inst k db)"
        and db = "after_recovery now inst k db" and claimed = "[]" and now = now and inst = inst
        and k = k and workerId = workerId and tokens = tokens and locked = locked]
      that unfolding res by (auto simp: next_candidate_None)
  show ?thesis
    using claim_loop_facts[OF ok res] claim_loop_length[OF res] stop
    unfolding claim_facts_def claim_order_def[abs_def] by blast
qed

lemma claims_earliest_due_first_witness:
  "sorted (map (\<lambda>r. (row_runAfter r, row_createdAt r, row_id r)) [demo_running])"
  using claims_earliest_due_first[OF _ demo_token_fresh demo_claim] jobs_ok_demo_row by simp

text \<open>
  What an enqueue does, when no other transaction comes between its statements: an invalid
  payload is refused; a live job of the same instance, kind and dedupe key is answered and the
  table stays as it is; otherwise one queued job with no attempt is added. It never gives up with
  \<open>CONFLICT\<close>.
\<close>

lemma enqueue_spec:
  assumes "ids 0 \<notin> set (map row_id db)"
  shows "enqueueJob quiet between now k payload options ids corrs db =
    (case payloadSchema k payload of
       Inl e \<Rightarrow> Inl e
     | Inr v \<Rightarrow>
         (case List.find (live_of (opt_instance options) (kind k) (opt_dedupeKey options)) db of
            Some r \<Rightarrow> map_sum id (\<lambda>p. (db, (mapJob r)\<lparr>job_payload := p\<rparr>)) (payloadSchema k (row_payload r))
          | None \<Rightarrow>
              Inr (db @ [new_row now k v options (ids 0) (corrs 0)],
                mapJob (new_row now k v options (ids 0) (corrs 0)))))"
proof -
  have five: "(5::nat) = Suc 4" by simp
  show ?thesis
    unfolding enqueueJob_def five enqueue_rounds_quiet[where i = 0 and ids = ids, OF assms]
    by (auto split: sum.split option.split)
qed

lemma enqueue_spec_witness:
  "enqueueJob quiet quiet 9 demo_kind (JObj []) demo_options (\<lambda>_. ''job_2'') (\<lambda>_. ''corr_2'')
      [demo_running] = Inr ([demo_running], mapJob demo_running)"
  using enqueue_spec[where ids = "\<lambda>_. ''job_2''" and db = "[demo_running]" and k = demo_kind
      and options = demo_options]
  by (simp add: live_of_def live_def demo_defs mapJob_def)

text \<open>
  Backoffs are bounded and grow: of a declared kind, the wait before an attempt lies between
  \<open>baseMs\<close> and \<open>maxMs\<close>, is \<open>baseMs\<close> after the first attempt and never shrinks as attempts are used.
\<close>

theorem backoff_bounds:
  assumes "valid_kind k"
  shows "baseMs (kind_backoff k) \<le> backoff k r \<and> backoff k r \<le> maxMs (kind_backoff k) \<and>
    (row_attempts r \<le> 1 \<longrightarrow> backoff k r = baseMs (kind_backoff k)) \<and>
    (row_attempts r \<le> row_attempts s \<longrightarrow> backoff k r \<le> backoff k s)"
proof -
  note b = valid_kind_backoff[OF assms]
  have two: "(1 :: rat) \<le> 2 ^ n" for n by (rule one_le_power) simp
  have up: "baseMs (kind_backoff k) \<le> baseMs (kind_backoff k) * 2 ^ n" for n
    using mult_left_mono[OF two] b by fastforce
  have "backoff k r \<le> backoff k s" if "row_attempts r \<le> row_attempts s"
  proof -
    have "nat (max (row_attempts r - 1) 0) \<le> nat (max (row_attempts s - 1) 0)" using that by linarith
    then have "(2 :: rat) ^ nat (max (row_attempts r - 1) 0) \<le> 2 ^ nat (max (row_attempts s - 1) 0)"
      by (intro power_increasing) auto
    then show ?thesis
      unfolding backoff_def using b by (intro min.mono mult_left_mono) auto
  qed
  then show ?thesis using b up by (auto simp: backoff_def)
qed

lemma backoff_bounds_witness: "1000 \<le> backoff demo_kind demo_row \<and> backoff demo_kind demo_row \<le> 60000"
  using backoff_bounds[OF demo_kind_valid, of demo_row demo_row] by (simp add: demo_kind_def)

text \<open>
  Pruning removes exactly the ended jobs whose retention has passed (seven days after success
  or cancellation, thirty after failure or death), except the dead jobs of a subject that is being
  deleted; every live job stays, and the two counts it reports add up to what it removed.
\<close>

lemma prune_spec:
  assumes "jobs_ok db" and "pruneEndedJobs now users workspaces inst db = (db', completed, failed)"
  shows "set db' = {r \<in> set db. \<not> (row_instance r = inst \<and>
      (case row_finishedAt r of None \<Rightarrow> False
       | Some t \<Rightarrow> t < now - (if row_status r = Succeeded \<or> row_status r = Cancelled then 7 else 30) * day_ms) \<and>
      \<not> deadJobOfSubjectInDeletion users workspaces r)} \<and>
    (\<forall>r \<in> set db. live r \<longrightarrow> r \<in> set db') \<and>
    length db' + completed + failed = length db"
proof -
  let ?c = "ended_before now users workspaces inst [Succeeded, Cancelled] COMPLETED_JOB_RETENTION_DAYS"
  let ?f = "ended_before now users workspaces inst [Failed, Dead] FAILED_JOB_RETENTION_DAYS"
  have db': "db' = delete_where ?f (delete_where ?c db)"
    and n: "completed = count_where ?c db" "failed = count_where ?f (delete_where ?c db)"
    using assms(2) by (auto simp: pruneEndedJobs_def Let_def)
  have "length db' + completed + failed = length db"
    using count_delete_where[of ?c db] count_delete_where[of ?f "delete_where ?c db"] by (simp add: db' n)
  moreover have "?c r \<or> ?f r \<longleftrightarrow> row_instance r = inst \<and>
      (case row_finishedAt r of None \<Rightarrow> False
       | Some t \<Rightarrow> t < now - (if row_status r = Succeeded \<or> row_status r = Cancelled then 7 else 30) * day_ms) \<and>
      \<not> deadJobOfSubjectInDeletion users workspaces r" if "r \<in> set db" for r
    using jobs_ok_row[OF assms(1) that]
    unfolding ended_before_def COMPLETED_JOB_RETENTION_DAYS_def FAILED_JOB_RETENTION_DAYS_def
    by (cases "row_status r") (auto simp: row_ok_def ended_def split: option.splits)
  moreover have "\<not> ?c r \<and> \<not> ?f r" if "live r" for r
    using that by (auto simp: ended_before_def live_def)
  ultimately show ?thesis
    unfolding db' set_delete_where by blast
qed

lemma prune_spec_witness:
  "fst (pruneEndedJobs 9 [] [] ''ci'' [demo_row]) = [demo_row]"
proof -
  have "pruneEndedJobs 9 [] [] ''ci'' [demo_row] = ([demo_row], 0, 0)"
    by (simp add: pruneEndedJobs_def ended_before_def delete_where_def demo_defs)
  with prune_spec[OF jobs_ok_demo_row this] show ?thesis by simp
qed

text \<open>
  A retry by hand requeues a failed or dead job of its instance exactly once: when it reports
  \<open>Requeued\<close>, that one job is queued with all its attempts back and due at once, and no other row
  changed; in every other outcome the table is as before, and the outcome says why.
\<close>

lemma retryJob_spec:
  assumes "jobs_ok db"
  shows "case retryJob now inst jobId db of (db', result) \<Rightarrow>
    (case result of
       Requeued overview \<Rightarrow>
         (\<exists>r \<in> set db. row_instance r = inst \<and> row_id r = jobId \<and>
            (row_status r = Failed \<or> row_status r = Dead) \<and>
            set db' = insert (requeued_row now r) (set db - {r}) \<and>
            overview = mapOverview (requeued_row now r))
     | Superseded \<Rightarrow>
         db' = db \<and> (\<exists>r \<in> set db. \<exists>s \<in> set db. row_instance r = inst \<and> row_id r = jobId \<and>
            (row_status r = Failed \<or> row_status r = Dead) \<and>
            live_of inst (row_kind r) (row_dedupeKey r) s)
     | Retry_Not_Ended status \<Rightarrow>
         db' = db \<and> (\<exists>r \<in> set db. row_instance r = inst \<and> row_id r = jobId \<and>
            row_status r = status \<and> status \<noteq> Failed \<and> status \<noteq> Dead)
     | Retry_Not_Found \<Rightarrow>
         db' = db \<and> (\<forall>r \<in> set db. row_instance r = inst \<longrightarrow> row_id r \<noteq> jobId))"
proof (cases "List.find (retryable inst jobId) db")
  case None
  then have "\<not> retryable inst jobId r" if "r \<in> set db" for r
    using that by (auto simp: find_None_iff)
  then have status: "row_status r \<noteq> Failed \<and> row_status r \<noteq> Dead"
    if "r \<in> set db" "row_instance r = inst" "row_id r = jobId" for r
    using that by (auto simp: retryable_def)
  let ?named = "\<lambda>r. row_instance r = inst \<and> row_id r = jobId"
  show ?thesis
  proof (cases "List.find ?named db")
    case no_row: None
    then have "\<forall>r \<in> set db. row_instance r = inst \<longrightarrow> row_id r \<noteq> jobId"
      unfolding find_None_iff by blast
    with None no_row show ?thesis by (simp add: retryJob_def)
  next
    case row: (Some r)
    with find_Some_iff[OF row] status None show ?thesis by (auto simp: retryJob_def)
  qed
next
  case (Some r)
  note r = retryable_find[OF assms Some]
  have only: "retryable inst jobId x \<longleftrightarrow> x = r" if "x \<in> set db" for x
    using jobs_ok_same_id[OF assms that r(1)] r by (auto simp: retryable_def)
  have "set (update_where (retryable inst jobId) (requeued_row now) db) =
      insert (requeued_row now r) (set db - {r})"
    using only r(1) by (auto simp: set_update_where)
  then show ?thesis
    using Some r by (auto simp: retryJob_def list_ex_iff)
qed

lemma retryJob_spec_witness: "fst (retryJob 9 ''ci'' ''job_1'' [demo_row]) = [demo_row]"
  using retryJob_spec[OF jobs_ok_demo_row, where now = 9 and inst = "''ci''" and jobId = "''job_1''"]
  by (simp add: retryJob_def retryable_def demo_defs)

end
