(* ===== verification/Product_Modules.thy ===== *)
theory Product_Modules imports Errors begin

text \<open>
  Optional modules (\<open>packages/core/src/modules.ts\<close>): the registry of the modules a build ships,
  the snapshot of which are on for an instance, and the one refusal of what an off module owns.
\<close>

datatype product_module = Documents | Resources | AssetManagement | UserInvitations | Apps

fun module_text :: "product_module \<Rightarrow> string" where
  "module_text Documents = ''documents''"
| "module_text Resources = ''resources''"
| "module_text AssetManagement = ''assetManagement''"
| "module_text UserInvitations = ''userInvitations''"
| "module_text Apps = ''apps''"

definition MODULE_NAMES :: "product_module list" where
  "MODULE_NAMES = [Documents, Resources, AssetManagement, UserInvitations, Apps]"

definition isModuleName :: "string \<Rightarrow> bool" where
  "isModuleName value \<longleftrightarrow> value \<in> set (map module_text MODULE_NAMES)"

text \<open>A definition after \<open>defineModule\<close>: a list that was left out is empty.\<close>

record module_definition =
  mod_name :: product_module
  module_requires :: "product_module list"
  module_kinds :: "string list"
  module_operations :: "string list"
  module_jobKinds :: "string list"
  module_tools :: "string list"
  module_ui :: "string list"

datatype module_contribution = Operation_Of | Tool_Of | Job_Kind_Of

fun contribution_list :: "module_contribution \<Rightarrow> module_definition \<Rightarrow> string list" where
  "contribution_list Operation_Of d = module_operations d"
| "contribution_list Tool_Of d = module_tools d"
| "contribution_list Job_Kind_Of d = module_jobKinds d"

text \<open>The switches of release config in the order of their keys.\<close>

type_synonym module_switches = "(string \<times> bool) list"

type_synonym module_registry = "module_definition list"

record module_state =
  state_name :: product_module
  state_enabled :: bool
  state_definition :: "module_definition option"

record module_snapshot =
  snap_modules :: "module_state list"
  snap_enabled :: "product_module list"
  snap_off :: "module_definition list"

fun register_modules ::
    "module_registry \<Rightarrow> module_definition list \<Rightarrow> (js_error, module_registry) result" where
  "register_modules reg [] = Inr reg"
| "register_modules reg (d # ds) =
     (if list_ex (\<lambda>e. mod_name e = mod_name d) reg then
        Inl (app_error VALIDATION_FAILED
          (''Module '' @ quoted (module_text (mod_name d)) @ '' is registered more than once''))
      else register_modules (reg @ [d]) ds)"

definition createModuleRegistry :: "module_definition list \<Rightarrow> (js_error, module_registry) result" where
  "createModuleRegistry definitions = register_modules [] definitions"

definition registry_get :: "module_registry \<Rightarrow> product_module \<Rightarrow> module_definition option" where
  "registry_get reg name = List.find (\<lambda>d. mod_name d = name) reg"

text \<open>The check of one enabled module against the build and against the other switches.\<close>

definition check_enabled ::
    "module_registry \<Rightarrow> product_module list \<Rightarrow> product_module \<Rightarrow> (js_error, unit) result" where
  "check_enabled reg enabled name =
     (case registry_get reg name of
        None \<Rightarrow>
          Inl (app_error VALIDATION_FAILED
            (''Module '' @ quoted (module_text name)
              @ '' is enabled but this build ships no code for it. Turn 'modules.'' @ module_text name
              @ ''.enabled' off or add the package that registers it''))
      | Some d \<Rightarrow>
          (case List.find (\<lambda>r. r \<notin> set enabled) (module_requires d) of
             None \<Rightarrow> Inr ()
           | Some missing \<Rightarrow>
               Inl (app_error VALIDATION_FAILED
                 (''Module '' @ quoted (module_text name) @ '' requires module ''
                   @ quoted (module_text missing) @ '', which is off. Turn 'modules.''
                   @ module_text missing @ ''.enabled' on or turn '' @ quoted (module_text name)
                   @ '' off''))))"

definition snapshot :: "module_registry \<Rightarrow> module_switches \<Rightarrow> (js_error, module_snapshot) result" where
  "snapshot reg switches =
     (case List.find (\<lambda>name. \<not> isModuleName name) (map fst switches) of
        Some unknown \<Rightarrow>
          Inl (app_error VALIDATION_FAILED
            (''Unknown module '' @ quoted unknown @ '' under 'modules'. Known modules: ''
              @ join_with '', '' (map module_text MODULE_NAMES)))
      | None \<Rightarrow>
          (let enabled = filter (\<lambda>name. map_of switches (module_text name) = Some True) MODULE_NAMES in
           bind_result (map_result (check_enabled reg enabled) enabled) (\<lambda>_.
             Inr \<lparr> snap_modules =
                     map (\<lambda>name. \<lparr> state_name = name, state_enabled = name \<in> set enabled,
                       state_definition = registry_get reg name \<rparr>) MODULE_NAMES,
                   snap_enabled = enabled,
                   snap_off = filter (\<lambda>d. mod_name d \<notin> set enabled) reg \<rparr>)))"

definition isEnabled :: "module_snapshot \<Rightarrow> product_module \<Rightarrow> bool" where
  "isEnabled snap name \<longleftrightarrow> name \<in> set (snap_enabled snap)"

definition offModuleOf :: "module_snapshot \<Rightarrow> module_contribution \<Rightarrow> string \<Rightarrow> product_module option" where
  "offModuleOf snap contribution name =
     map_option mod_name
       (List.find (\<lambda>d. name \<in> set (contribution_list contribution d)) (snap_off snap))"

definition moduleOffError :: "product_module \<Rightarrow> js_error" where
  "moduleOffError m =
     app_error_with NOT_FOUND (''Module '' @ quoted (module_text m) @ '' is off on this instance'')
       (JObj [(''reason'', JStr ''module_off''), (''module'', JStr (module_text m))])"

definition requireOperationModuleOn :: "module_snapshot \<Rightarrow> string \<Rightarrow> (js_error, unit) result" where
  "requireOperationModuleOn snap operationId =
     (case offModuleOf snap Operation_Of operationId of
        None \<Rightarrow> Inr ()
      | Some m \<Rightarrow> Inl (moduleOffError m))"

section \<open>What a snapshot guarantees\<close>

lemma all_modules: "m \<in> set MODULE_NAMES"
  by (cases m) (simp_all add: MODULE_NAMES_def)

lemma register_modules_distinct:
  "register_modules reg ds = Inr reg' \<Longrightarrow> distinct (map mod_name reg) \<Longrightarrow>
    distinct (map mod_name reg') \<and> reg' = reg @ ds"
  by (induction ds arbitrary: reg) (fastforce simp: list_ex_iff split: if_splits)+

lemma registry_get_iff:
  assumes "distinct (map mod_name reg)"
  shows "registry_get reg m = Some d \<longleftrightarrow> d \<in> set reg \<and> mod_name d = m"
proof
  assume d: "d \<in> set reg \<and> mod_name d = m"
  then obtain e where e: "registry_get reg m = Some e"
    by (cases "registry_get reg m") (auto simp: registry_get_def find_None_iff)
  then have "e \<in> set reg \<and> mod_name e = m" unfolding registry_get_def by (rule find_Some_iff)
  then have "e = d" using d distinct_map_inj[OF assms] by metis
  with e show "registry_get reg m = Some d" by simp
next
  assume "registry_get reg m = Some d"
  then show "d \<in> set reg \<and> mod_name d = m" unfolding registry_get_def by (rule find_Some_iff)
qed

lemma map_result_Inr_iff:
  "(\<exists>ys. map_result f xs = Inr ys) \<longleftrightarrow> (\<forall>x \<in> set xs. \<exists>y. f x = Inr y)"
  by (induction xs) (auto simp: bind_result_Inl)

lemma check_enabled_ok:
  "(\<exists>u. check_enabled reg enabled m = Inr u) \<longleftrightarrow>
    (\<exists>d. registry_get reg m = Some d \<and> set (module_requires d) \<subseteq> set enabled)"
  by (auto simp: check_enabled_def find_None_iff split: option.splits dest!: find_Some_iff)

lemma snapshot_ok:
  assumes "snapshot reg switches = Inr snap"
  shows snapshot_known: "\<And>name. name \<in> fst ` set switches \<Longrightarrow> isModuleName name"
    and snapshot_enabled: "\<And>m. isEnabled snap m \<longleftrightarrow> map_of switches (module_text m) = Some True"
    and snapshot_built: "\<And>m. isEnabled snap m \<Longrightarrow>
      \<exists>d. registry_get reg m = Some d \<and> (\<forall>r \<in> set (module_requires d). isEnabled snap r)"
    and snapshot_off: "set (snap_off snap) = {d \<in> set reg. \<not> isEnabled snap (mod_name d)}"
proof -
  let ?enabled = "filter (\<lambda>name. map_of switches (module_text name) = Some True) MODULE_NAMES"
  have none: "List.find (\<lambda>name. \<not> isModuleName name) (map fst switches) = None"
    using assms by (auto simp: snapshot_def split: option.splits)
  then show "isModuleName name" if "name \<in> fst ` set switches" for name
    using that by (auto simp: find_None_iff)
  from none assms obtain ys where checks: "map_result (check_enabled reg ?enabled) ?enabled = Inr ys"
    and en: "snap_enabled snap = ?enabled"
    and off: "snap_off snap = filter (\<lambda>d. mod_name d \<notin> set ?enabled) reg"
    by (auto simp: snapshot_def Let_def)
  show on: "isEnabled snap m \<longleftrightarrow> map_of switches (module_text m) = Some True" for m
    using all_modules by (auto simp: isEnabled_def en)
  show "set (snap_off snap) = {d \<in> set reg. \<not> isEnabled snap (mod_name d)}"
    unfolding off isEnabled_def en by auto
  fix m assume "isEnabled snap m"
  then have m: "m \<in> set ?enabled" unfolding isEnabled_def en .
  have "\<forall>x \<in> set ?enabled. \<exists>u. check_enabled reg ?enabled x = Inr u"
    using checks by (intro iffD1[OF map_result_Inr_iff] exI)
  then have "\<exists>u. check_enabled reg ?enabled m = Inr u" using m by (rule bspec)
  then show "\<exists>d. registry_get reg m = Some d \<and> (\<forall>r \<in> set (module_requires d). isEnabled snap r)"
    unfolding check_enabled_ok isEnabled_def en by blast
qed

lemma offModuleOf_Some:
  "offModuleOf snap c name = Some m \<Longrightarrow>
    \<exists>d \<in> set (snap_off snap). mod_name d = m \<and> name \<in> set (contribution_list c d)"
  by (auto simp: offModuleOf_def dest!: find_Some_iff)

lemma offModuleOf_None:
  "offModuleOf snap c name = None \<longleftrightarrow>
    (\<forall>d \<in> set (snap_off snap). name \<notin> set (contribution_list c d))"
  by (auto simp: offModuleOf_def find_None_iff)

section \<open>The promise of the switches\<close>

definition demo_module :: "product_module \<Rightarrow> product_module list \<Rightarrow> string list \<Rightarrow> module_definition" where
  "demo_module name requires operations =
     \<lparr> mod_name = name, module_requires = requires, module_kinds = [],
       module_operations = operations, module_jobKinds = [], module_tools = [], module_ui = [] \<rparr>"

text \<open>
  The switches mean what they say: of a registry and switches that a snapshot accepts, exactly the
  modules switched on are on, each of them has its code in the build and all its requirements on, an
  operation is refused exactly when a module that is off lists it, and then with the module's name.
\<close>

lemma snapshots_follow_the_switches:
  assumes "createModuleRegistry definitions = Inr reg" and "snapshot reg switches = Inr snap"
  shows "(isEnabled snap m \<longleftrightarrow> map_of switches (module_text m) = Some True) \<and>
    (isEnabled snap m \<longrightarrow> (\<exists>d \<in> set definitions. mod_name d = m \<and>
       (\<forall>r \<in> set (module_requires d). isEnabled snap r))) \<and>
    (requireOperationModuleOn snap op = Inr () \<longleftrightarrow>
       (\<forall>d \<in> set definitions. op \<in> set (module_operations d) \<longrightarrow> isEnabled snap (mod_name d))) \<and>
    (\<forall>e. requireOperationModuleOn snap op = Inl e \<longrightarrow>
       (\<exists>d \<in> set definitions. op \<in> set (module_operations d) \<and> \<not> isEnabled snap (mod_name d) \<and>
          e = moduleOffError (mod_name d)))"
proof -
  have reg: "distinct (map mod_name reg)" "set reg = set definitions"
    using register_modules_distinct[OF assms(1)[unfolded createModuleRegistry_def]] by auto
  have off: "offModuleOf snap Operation_Of op = None \<longleftrightarrow>
      (\<forall>d \<in> set definitions. op \<in> set (module_operations d) \<longrightarrow> isEnabled snap (mod_name d))"
    unfolding offModuleOf_None snapshot_off[OF assms(2)] reg(2) by auto
  have "isEnabled snap m \<longrightarrow> (\<exists>d \<in> set definitions. mod_name d = m \<and>
       (\<forall>r \<in> set (module_requires d). isEnabled snap r))"
    using snapshot_built[OF assms(2), of m] unfolding registry_get_iff[OF reg(1)] reg(2) by blast
  moreover have "\<exists>d \<in> set definitions. op \<in> set (module_operations d) \<and> \<not> isEnabled snap (mod_name d) \<and>
      e = moduleOffError (mod_name d)" if "requireOperationModuleOn snap op = Inl e" for e
  proof -
    from that obtain m where m: "offModuleOf snap Operation_Of op = Some m" "e = moduleOffError m"
      by (auto simp: requireOperationModuleOn_def split: option.splits)
    from offModuleOf_Some[OF m(1)] m(2) show ?thesis
      unfolding snapshot_off[OF assms(2)] reg(2) by auto
  qed
  moreover have "requireOperationModuleOn snap op = Inr () \<longleftrightarrow> offModuleOf snap Operation_Of op = None"
    by (auto simp: requireOperationModuleOn_def split: option.splits)
  ultimately show ?thesis
    using snapshot_enabled[OF assms(2), of m] off by (intro conjI) simp_all
qed

lemma snapshots_follow_the_switches_witness:
  "\<exists>snap. snapshot [demo_module Documents [] [''documents.list''], demo_module Apps [Documents] [''apps.run'']]
     [(''documents'', True), (''apps'', False)] = Inr snap \<and> isEnabled snap Documents \<and>
   requireOperationModuleOn snap ''documents.list'' = Inr ()"
proof -
  let ?reg = "[demo_module Documents [] [''documents.list''], demo_module Apps [Documents] [''apps.run'']]"
  have made: "createModuleRegistry ?reg = Inr ?reg"
    by (simp add: createModuleRegistry_def demo_module_def)
  have known: "List.find (\<lambda>name. \<not> isModuleName name) (map fst [(''documents'', True), (''apps'', False)]) = None"
    by (simp add: isModuleName_def MODULE_NAMES_def)
  have on: "filter (\<lambda>m. map_of [(''documents'', True), (''apps'', False)] (module_text m) = Some True) MODULE_NAMES
      = [Documents]"
    by (simp add: MODULE_NAMES_def)
  have check: "check_enabled ?reg [Documents] Documents = Inr ()"
    by (simp add: check_enabled_def registry_get_def demo_module_def)
  obtain snap where snap: "snapshot ?reg [(''documents'', True), (''apps'', False)] = Inr snap"
    unfolding snapshot_def known option.case on Let_def using check by simp
  have d: "mod_name (demo_module Documents [] [''documents.list'']) = Documents"
    "mod_name (demo_module Apps [Documents] [''apps.run'']) = Apps"
    "module_operations (demo_module Apps [Documents] [''apps.run'']) = [''apps.run'']"
    by (simp_all add: demo_module_def)
  have e: "isEnabled snap Documents"
    using snapshots_follow_the_switches[OF made snap, of Documents "''documents.list''"] by simp
  then have "requireOperationModuleOn snap ''documents.list'' = Inr ()"
    using snapshots_follow_the_switches[OF made snap, of Documents "''documents.list''"] d by simp
  with e snap show ?thesis by blast
qed

end
