(* ===== verification/Job_Worker.thy ===== *)
theory Job_Worker imports Job_Claims Product_Modules begin

text \<open>
  The worker over the queue (\<open>packages/postgres-store/src/jobs/worker.ts\<close>) and the handlers it
  runs (\<open>packages/core/src/job-handlers.ts\<close>): how an attempt ends, how a tick hands over to the
  next, burials, schedules, one pass, and the release of what a stopping worker holds.

  A transaction of the stores reads and writes the job table and the rest of the database, of
  which the worker knows nothing: it is the type parameter of a database. What a handler does is
  an argument: the result of its \<open>run\<close>, and its hooks as functions of the database.
\<close>

type_synonym 's database = "jobs \<times> 's"
type_synonym 's hook = "'s database \<Rightarrow> (js_error, 's database) result"

text \<open>\<open>stores.transaction\<close>: an error rolls back.\<close>

definition transaction ::
    "('s database \<Rightarrow> (js_error, 's database \<times> 'a) result) \<Rightarrow> 's database \<Rightarrow>
      's database \<times> (js_error, 'a) result" where
  "transaction f db = (case f db of Inl e \<Rightarrow> (db, Inl e) | Inr (db', x) \<Rightarrow> (db', Inr x))"

text \<open>One statement on the job table, inside a transaction.\<close>

definition on_jobs :: "(jobs \<Rightarrow> (js_error, jobs) result) \<Rightarrow> 's hook" where
  "on_jobs f db = bind_result (f (fst db)) (\<lambda>jobs. Inr (jobs, snd db))"

section \<open>Handlers\<close>

record 's bound_job =
  bound_run :: "(js_error, unit) result"
  bound_onExhausted :: "'s hook option"
  bound_onHeartbeat :: "(string \<Rightarrow> 's hook) option"

record 's job_handler =
  handler_kind :: job_kind
  handler_slots :: rat
  handler_bind :: "job \<Rightarrow> (js_error, 's bound_job) result"

text \<open>The code of one kind: what it makes of a job with a validated payload.\<close>

record 's handler_code =
  code_run :: "job \<Rightarrow> (js_error, unit) result"
  code_onExhausted :: "(job \<Rightarrow> 's hook) option"
  code_onHeartbeat :: "(job \<Rightarrow> string \<Rightarrow> 's hook) option"

definition typed_job :: "job_kind \<Rightarrow> job \<Rightarrow> (js_error, job) result" where
  "typed_job k j = bind_result (payloadSchema k (job_payload j)) (\<lambda>p. Inr (j\<lparr>job_payload := p\<rparr>))"

definition defineJobHandler ::
    "job_kind \<Rightarrow> rat \<Rightarrow> 's handler_code \<Rightarrow> (js_error, 's job_handler) result" where
  "defineJobHandler k slots code =
     (if \<not> positive_integer slots then
        Inl (app_error VALIDATION_FAILED (''Handler of '' @ quoted (kind k) @ '' needs slots''))
      else Inr
        \<lparr> handler_kind = k, handler_slots = slots,
          handler_bind = (\<lambda>j. bind_result (typed_job k j) (\<lambda>typed. Inr
            \<lparr> bound_run = code_run code typed,
              bound_onExhausted = map_option (\<lambda>f. f typed) (code_onExhausted code),
              bound_onHeartbeat = map_option (\<lambda>f. f typed) (code_onHeartbeat code) \<rparr>)) \<rparr>)"

definition defineJobBurial :: "job_kind \<Rightarrow> (job \<Rightarrow> 's hook) \<Rightarrow> 's job_handler" where
  "defineJobBurial k exhaust =
     \<lparr> handler_kind = k, handler_slots = 0,
       handler_bind = (\<lambda>j. bind_result (typed_job k j) (\<lambda>typed. Inr
         \<lparr> bound_run = Inl (app_error INTERNAL (quoted (kind k) @ '' is only buried here'')),
           bound_onExhausted = Some (exhaust typed), bound_onHeartbeat = None \<rparr>)) \<rparr>"

definition bindOrUndefined :: "'s job_handler \<Rightarrow> job_row \<Rightarrow> 's bound_job option" where
  "bindOrUndefined handler row =
     (case handler_bind handler (mapJob row) of Inl _ \<Rightarrow> None | Inr b \<Rightarrow> Some b)"

section \<open>The worker\<close>

record 's worker =
  worker_instance :: string
  worker_id :: string
  worker_handlers :: "'s job_handler list"
  worker_schedules :: "job_schedule list"

definition schedule_of :: "'s worker \<Rightarrow> string \<Rightarrow> job_schedule option" where
  "schedule_of w name = List.find (\<lambda>s. kind (sched_kind s) = name) (worker_schedules w)"

text \<open>
  The constructor: the handlers and schedules of the worker, less those of a module that is off.
  A later schedule of one kind replaces an earlier one in its place, as in a \<open>Map\<close>.
\<close>

fun last_schedules :: "job_schedule list \<Rightarrow> job_schedule list" where
  "last_schedules [] = []"
| "last_schedules (s # ss) =
     (case List.find (\<lambda>t. kind (sched_kind t) = kind (sched_kind s)) (rev ss) of
        None \<Rightarrow> s
      | Some t \<Rightarrow> t)
     # last_schedules (filter (\<lambda>t. kind (sched_kind t) \<noteq> kind (sched_kind s)) ss)"

definition served :: "module_snapshot option \<Rightarrow> string \<Rightarrow> bool" where
  "served modules name \<longleftrightarrow>
     (case modules of None \<Rightarrow> True | Some snap \<Rightarrow> offModuleOf snap Job_Kind_Of name = None)"

definition createPostgresJobWorker ::
    "string \<Rightarrow> string \<Rightarrow> 's job_handler list \<Rightarrow> job_schedule list \<Rightarrow> module_snapshot option \<Rightarrow>
      (js_error, 's worker) result" where
  "createPostgresJobWorker inst newId handlers schedules modules =
     (let names = map (\<lambda>h. kind (handler_kind h)) handlers;
          scheds = last_schedules schedules
      in
        if \<not> distinct names then
          Inl (app_error VALIDATION_FAILED ''A job kind has more than one handler'')
        else (case List.find (\<lambda>s. kind (sched_kind s) \<notin> set names) scheds of
          Some s \<Rightarrow>
            Inl (app_error VALIDATION_FAILED
              (''Schedule of '' @ quoted (kind (sched_kind s)) @ '' has no handler here''))
        | None \<Rightarrow> Inr
            \<lparr> worker_instance = inst, worker_id = newId,
              worker_handlers = filter (\<lambda>h. served modules (kind (handler_kind h))) handlers,
              worker_schedules = filter (\<lambda>s. served modules (kind (sched_kind s))) scheds \<rparr>))"

definition isTick :: "'s worker \<Rightarrow> job_row \<Rightarrow> bool" where
  "isTick w row \<longleftrightarrow>
     schedule_of w (row_kind row) \<noteq> None \<and>
     row_dedupeKey row = Some (scheduleDedupeKey (row_kind row))"

section \<open>The end of an attempt\<close>

text \<open>What a step of a transaction reads of its environment: the clocks and the ids it generates.\<close>

record moment =
  m_now :: time
  m_clock :: time
  m_ids :: "nat \<Rightarrow> string"
  m_corrs :: "nat \<Rightarrow> string"

datatype outcome = Ended (outcome_ending: job_ending) | Exhausted (outcome_ending: job_ending)

fun final_ending :: "job_ending \<Rightarrow> bool" where
  "final_ending End_Released = False"
| "final_ending (End_Retry _ _ _) = False"
| "final_ending _ = True"

definition enqueueTickAfter ::
    "'s worker \<Rightarrow> moment \<Rightarrow> job_row \<Rightarrow> job_ending \<Rightarrow> jobs \<Rightarrow> (js_error, jobs) result" where
  "enqueueTickAfter w m row ending db =
     (case schedule_of w (row_kind row) of
        None \<Rightarrow> Inr db
      | Some s \<Rightarrow>
          (if \<not> isTick w row \<or> \<not> final_ending ending then Inr db
           else enqueueNextScheduleTick (m_now m) (worker_instance w) s (m_ids m) (m_corrs m) db))"

definition run_hook :: "'s hook option \<Rightarrow> 's hook" where
  "run_hook hook db = (case hook of None \<Rightarrow> Inr db | Some f \<Rightarrow> f db)"

definition settle ::
    "'s worker \<Rightarrow> moment \<Rightarrow> job_lease \<Rightarrow> outcome \<Rightarrow> 's hook option \<Rightarrow> 's database \<Rightarrow>
      's database \<times> (js_error, bool) result" where
  "settle w m lease out hook = transaction (\<lambda>db.
     (case lockLeasedJob (m_clock m) lease (fst db) of
        None \<Rightarrow> Inr (db, False)
      | Some row \<Rightarrow>
          bind_result (case out of Exhausted _ \<Rightarrow> run_hook hook db | Ended _ \<Rightarrow> Inr db) (\<lambda>db.
          bind_result (on_jobs (\<lambda>j. Inr (endJobAttempt (m_now m) (row_id row) (outcome_ending out) j)) db) (\<lambda>db.
          bind_result (on_jobs (enqueueTickAfter w m row (outcome_ending out)) db) (\<lambda>db.
          Inr (db, True))))))"

definition outcomeOfFailure :: "'s worker \<Rightarrow> job_row \<Rightarrow> 's job_handler \<Rightarrow> js_error \<Rightarrow> outcome" where
  "outcomeOfFailure w row handler error =
     (let env = toErrorEnvelope error (row_correlationId row);
          code = code_name (env_code env); message = env_message env
      in
        if is_error_class Non_Retryable_Job error \<or> isTick w row then Ended (End_Failed code message)
        else if row_attempts row < row_maxAttempts row then
          Ended (End_Retry (handler_kind handler) code message)
        else Exhausted (End_Dead code message))"

definition bury_without_handler :: outcome where
  "bury_without_handler = Ended (End_Dead ''EXHAUSTED_HANDLER_FAILED''
     ''The last attempt failed and onExhausted failed after it'')"

text \<open>\<open>between\<close> is what other transactions commit before the second try, at \<open>m'\<close>.\<close>

definition settleOrBury ::
    "'s worker \<Rightarrow> moment \<Rightarrow> moment \<Rightarrow> ('s database \<Rightarrow> 's database) \<Rightarrow> job_lease \<Rightarrow> outcome \<Rightarrow>
      's hook option \<Rightarrow> 's database \<Rightarrow> 's database \<times> (js_error, unit) result" where
  "settleOrBury w m m' between lease out hook db =
     (case settle w m lease out hook db of
        (db', Inr _) \<Rightarrow> (db', Inr ())
      | (db', Inl e) \<Rightarrow>
          (case out of
             Ended _ \<Rightarrow> (db', Inl e)
           | Exhausted _ \<Rightarrow>
               (case settle w m' lease bury_without_handler None (between db') of
                  (db'', r) \<Rightarrow> (db'', map_sum id (\<lambda>_. ()) r))))"

definition beat ::
    "time \<Rightarrow> job_lease \<Rightarrow> 's job_handler \<Rightarrow> 's bound_job option \<Rightarrow> 's database \<Rightarrow>
      's database \<times> (js_error, bool) result" where
  "beat clock lease handler bound db =
     (case Option.bind bound bound_onHeartbeat of
        None \<Rightarrow>
          (case heartbeatJob clock lease (leaseMs (handler_kind handler)) (fst db) of
             (jobs, held) \<Rightarrow> ((jobs, snd db), Inr held))
      | Some hook \<Rightarrow> transaction (\<lambda>db.
          (case heartbeatJob clock lease (leaseMs (handler_kind handler)) (fst db) of
             (jobs, held) \<Rightarrow>
               if held then
                 bind_result (hook (lease_token lease) (jobs, snd db)) (\<lambda>db. Inr (db, held))
               else Inr ((jobs, snd db), held))) db)"

definition heartbeat_interval :: "job_kind \<Rightarrow> rat" where
  "heartbeat_interval k = (case heartbeatMs k of Some h \<Rightarrow> h | None \<Rightarrow> leaseMs k / 3)"

text \<open>
  \<open>control.transaction\<close>: the only way a handler writes. \<open>clock\<close> is the wall clock when the lease is
  checked, \<open>clock'\<close> when it is renewed at the end.
\<close>

definition control_transaction ::
    "time \<Rightarrow> time \<Rightarrow> job_lease \<Rightarrow> 's job_handler \<Rightarrow>
      ('s database \<Rightarrow> (js_error, 's database \<times> 'a) result) \<Rightarrow> 's database \<Rightarrow>
      's database \<times> (js_error, 'a) result" where
  "control_transaction clock clock' lease handler f = transaction (\<lambda>db.
     (case lockLeasedJob clock lease (fst db) of
        None \<Rightarrow> Inl (jobLeaseLostError (lease_jobId lease))
      | Some row \<Rightarrow>
          bind_result (f db) (\<lambda>(db, x).
          bind_result (on_jobs (\<lambda>j.
            Inr (renewLockedJobLease clock' lease (leaseMs (handler_kind handler)) j)) db) (\<lambda>db.
          Inr (db, x)))))"

definition lease_of :: "job_row \<Rightarrow> job_lease" where
  "lease_of row =
     \<lparr> lease_jobId = row_id row,
       lease_token = (case row_leaseToken row of Some t \<Rightarrow> t | None \<Rightarrow> '''') \<rparr>"

text \<open>
  The end of \<open>run\<close>: how the result of the handler becomes the outcome of the attempt. A worker
  that is stopping, and not draining, asked the handler to stop, so a failure then is a release.
\<close>

definition attempt_outcome :: "'s worker \<Rightarrow> bool \<Rightarrow> bool \<Rightarrow> 's job_handler \<Rightarrow> job_row \<Rightarrow> outcome" where
  "attempt_outcome w stopping draining handler row =
     (let result =
        (case handler_bind handler (mapJob row) of
           Inl _ \<Rightarrow> Inl (nonRetryableJobError ''The stored payload does not fit the job kind'')
         | Inr b \<Rightarrow> bound_run b)
      in case result of
           Inr _ \<Rightarrow> Ended End_Succeeded
         | Inl e \<Rightarrow>
             if stopping \<and> \<not> draining then Ended End_Released
             else outcomeOfFailure w row handler e)"

definition end_of_run ::
    "'s worker \<Rightarrow> bool \<Rightarrow> bool \<Rightarrow> 's job_handler \<Rightarrow> job_row \<Rightarrow> moment \<Rightarrow> moment \<Rightarrow>
      ('s database \<Rightarrow> 's database) \<Rightarrow> 's database \<Rightarrow> 's database \<times> (js_error, unit) result" where
  "end_of_run w stopping draining handler row m m' between =
     settleOrBury w m m' between (lease_of row) (attempt_outcome w stopping draining handler row)
       (Option.bind (bindOrUndefined handler row) bound_onExhausted)"

section \<open>Burials\<close>

definition burial :: "'s worker \<Rightarrow> job_row \<Rightarrow> job_ending" where
  "burial w row =
     (if isTick w row then End_Failed ''LEASE_EXPIRED'' ''The lease expired without a heartbeat''
      else End_Dead ''LEASE_EXPIRED'' ''The lease expired without a heartbeat'')"

definition bury ::
    "'s worker \<Rightarrow> moment \<Rightarrow> 's job_handler \<Rightarrow> bool \<Rightarrow> string \<Rightarrow> 's database \<Rightarrow>
      's database \<times> (js_error, unit) result" where
  "bury w m handler withHandler jobId = transaction (\<lambda>db.
     (case lockExhaustedJob (m_now m) jobId (fst db) of
        None \<Rightarrow> Inr (db, ())
      | Some row \<Rightarrow>
          bind_result
            (if \<not> isTick w row \<and> withHandler then
               run_hook (Option.bind (bindOrUndefined handler row) bound_onExhausted) db
             else Inr db) (\<lambda>db.
          bind_result (on_jobs (\<lambda>j. Inr (endJobAttempt (m_now m) (row_id row) (burial w row) j)) db) (\<lambda>db.
          bind_result (on_jobs (enqueueTickAfter w m row (burial w row)) db) (\<lambda>db.
          Inr (db, ()))))))"

text \<open>One job of \<open>buryExhausted\<close>: with the handler, and without it when that fails.\<close>

definition bury_one ::
    "'s worker \<Rightarrow> moment \<Rightarrow> moment \<Rightarrow> 's job_handler \<Rightarrow> string \<Rightarrow> 's database \<Rightarrow>
      's database \<times> (js_error, unit) result" where
  "bury_one w m m' handler jobId db =
     (case bury w m handler True jobId db of
        (db', Inr _) \<Rightarrow> (db', Inr ())
      | (db', Inl _) \<Rightarrow> bury w m' handler False jobId db')"

fun bury_list ::
    "'s worker \<Rightarrow> (nat \<Rightarrow> moment) \<Rightarrow> nat \<Rightarrow> 's job_handler \<Rightarrow> string list \<Rightarrow> 's database \<Rightarrow>
      's database \<times> (js_error, unit) result" where
  "bury_list w ms i handler [] db = (db, Inr ())"
| "bury_list w ms i handler (jobId # jobIds) db =
     (case bury_one w (ms i) (ms (Suc i)) handler jobId db of
        (db', Inl e) \<Rightarrow> (db', Inl e)
      | (db', Inr _) \<Rightarrow> bury_list w ms (i + 2) handler jobIds db')"

definition buryExhausted ::
    "'s worker \<Rightarrow> (nat \<Rightarrow> moment) \<Rightarrow> 's job_handler \<Rightarrow> 's database \<Rightarrow>
      's database \<times> (js_error, unit) result" where
  "buryExhausted w ms handler db =
     bury_list w ms 0 handler
       (listExhaustedJobIds (m_now (ms 0)) (worker_instance w) (kind (handler_kind handler)) (fst db)) db"

section \<open>Schedules and passes\<close>

definition SCHEDULE_CHECK_INTERVAL_MS :: rat where
  "SCHEDULE_CHECK_INTERVAL_MS = 60000"

text \<open>The schedules in turn. \<open>first\<close> says that no check was completed before.\<close>

fun ensure_list ::
    "'s worker \<Rightarrow> bool \<Rightarrow> (nat \<Rightarrow> moment) \<Rightarrow> nat \<Rightarrow> job_schedule list \<Rightarrow> jobs \<Rightarrow>
      jobs \<times> (js_error, unit) result" where
  "ensure_list w first ms i [] db = (db, Inr ())"
| "ensure_list w first ms i (s # ss) db =
     (case ensureScheduleTick (m_now (ms i)) (worker_instance w) s (m_ids (ms i)) (m_corrs (ms i)) db of
        Inl e \<Rightarrow> (db, Inl e)
      | Inr db' \<Rightarrow>
          ensure_list w first ms (i + 2) ss
            (if dueAtStart s \<and> first then
               makeScheduleTickDue (m_now (ms (i + 1))) (worker_instance w) s db'
             else db'))"

definition ensureSchedules ::
    "'s worker \<Rightarrow> time \<Rightarrow> time option \<Rightarrow> (nat \<Rightarrow> moment) \<Rightarrow> jobs \<Rightarrow>
      jobs \<times> time option \<times> (js_error, unit) result" where
  "ensureSchedules w now checkedAt ms db =
     (if (case checkedAt of None \<Rightarrow> False | Some t \<Rightarrow> now - t < SCHEDULE_CHECK_INTERVAL_MS) then
        (db, checkedAt, Inr ())
      else (case ensure_list w (checkedAt = None) ms 0 (worker_schedules w) db of
        (db', Inl e) \<Rightarrow> (db', checkedAt, Inl e)
      | (db', Inr _) \<Rightarrow> (db', Some now, Inr ())))"

text \<open>The attempts of this process, by the job they run: the map \<open>active\<close>.\<close>

record active_job =
  act_lease :: job_lease
  act_kind :: string

definition active_of :: "job_row \<Rightarrow> active_job" where
  "active_of row = \<lparr> act_lease = lease_of row, act_kind = row_kind row \<rparr>"

definition free_slots :: "'s job_handler \<Rightarrow> active_job list \<Rightarrow> rat" where
  "free_slots handler active =
     handler_slots handler
       - of_nat (count_where (\<lambda>a. act_kind a = kind (handler_kind handler)) active)"

text \<open>
  The part of a pass for one kind. An error of the burial is logged and the pass goes on. What the
  started attempts and other processes commit meanwhile comes in between: \<open>env\<close> on the database.
\<close>

definition pass_kind ::
    "'s worker \<Rightarrow> time \<Rightarrow> (nat \<Rightarrow> moment) \<Rightarrow> (nat \<Rightarrow> string) \<Rightarrow> (string \<Rightarrow> bool) \<Rightarrow>
      ('s database \<Rightarrow> 's database) \<Rightarrow> 's job_handler \<Rightarrow> active_job list \<Rightarrow> 's database \<Rightarrow>
      's database \<times> active_job list \<times> job_row list" where
  "pass_kind w now ms tokens locked env handler active db =
     (let (jobs, rows) =
        (if 0 < handler_slots handler then
           claimJobs now (worker_instance w) (handler_kind handler) (worker_id w)
             (free_slots handler active) tokens locked (fst db)
         else (fst db, []))
      in (fst (buryExhausted w ms handler (env (jobs, snd db))), active @ map active_of rows, rows))"

text \<open>What one kind of a pass reads from outside.\<close>

record 's pass_input =
  in_now :: time
  in_moments :: "nat \<Rightarrow> moment"
  in_tokens :: "nat \<Rightarrow> string"
  in_locked :: "string \<Rightarrow> bool"
  in_env :: "'s database \<Rightarrow> 's database"

fun pass_kinds ::
    "'s worker \<Rightarrow> (string \<Rightarrow> 's pass_input) \<Rightarrow> string set \<Rightarrow> 's job_handler list \<Rightarrow>
      active_job list \<Rightarrow> 's database \<Rightarrow> 's database \<times> active_job list \<times> job_row list" where
  "pass_kinds w inp withWork [] active db = (db, active, [])"
| "pass_kinds w inp withWork (h # hs) active db =
     (let name = kind (handler_kind h) in
      if name \<notin> withWork then pass_kinds w inp withWork hs active db
      else
        (let (db1, active1, rows1) =
               pass_kind w (in_now (inp name)) (in_moments (inp name)) (in_tokens (inp name))
                 (in_locked (inp name)) (in_env (inp name)) h active db;
             (db2, active2, rows2) = pass_kinds w inp withWork hs active1 db1
         in (db2, active2, rows1 @ rows2)))"

text \<open>
  \<open>releaseActive\<close>: each attempt still held is settled as released; an error is logged and the next
  one is tried.
\<close>

fun releaseActive :: "'s worker \<Rightarrow> (nat \<Rightarrow> moment) \<Rightarrow> nat \<Rightarrow> active_job list \<Rightarrow> 's database \<Rightarrow> 's database" where
  "releaseActive w ms i [] db = db"
| "releaseActive w ms i (a # as) db =
     releaseActive w ms (Suc i) as (fst (settle w (ms i) (act_lease a) (Ended End_Released) None db))"

text \<open>
  \<open>onePass\<close>, at \<open>now\<close>: nothing for a stopping worker; else the schedules, one read of the kinds with
  work, each kind in turn, and the release of what was claimed while the worker began to stop.
  \<open>stopping'\<close> and \<open>draining'\<close> are the flags when the pass ends.
\<close>

definition onePass ::
    "'s worker \<Rightarrow> bool \<Rightarrow> bool \<Rightarrow> bool \<Rightarrow> time \<Rightarrow> (nat \<Rightarrow> moment) \<Rightarrow> (string \<Rightarrow> 's pass_input) \<Rightarrow>
      time option \<Rightarrow> active_job list \<Rightarrow> 's database \<Rightarrow>
      's database \<times> time option \<times> active_job list \<times> (js_error, job_row list) result" where
  "onePass w stopping stopping' draining' now ms inp checkedAt active db =
     (if stopping then (db, checkedAt, active, Inr [])
      else (case ensureSchedules w now checkedAt ms (fst db) of
        (jobs, checkedAt', Inl e) \<Rightarrow> ((jobs, snd db), checkedAt', active, Inl e)
      | (jobs, checkedAt', Inr _) \<Rightarrow>
          (let withWork = listKindsWithWork now (worker_instance w)
                 (map (\<lambda>h. kind (handler_kind h)) (worker_handlers w)) jobs;
               (db', active', started) =
                 pass_kinds w inp withWork (worker_handlers w) active (jobs, snd db)
           in (if stopping' \<and> \<not> draining' then releaseActive w ms 0 active' db' else db',
               checkedAt', active', Inr started))))"

section \<open>The life of a worker process\<close>

text \<open>
  The flags of the loop, and what \<open>start\<close>, the enqueue listener, the passes, the sleep and \<open>stop\<close>
  do to them. The phase is the place of the loop in its code: \<open>At_Top\<close> before the test of the loop,
  \<open>Waking\<close> when the sleep was resolved and the loop has not yet gone on.
\<close>

datatype loop_phase = Not_Started | At_Top | In_Pass | After_Pass | Asleep | Waking | Returned

record worker_flags =
  fl_phase :: loop_phase
  fl_stopping :: bool
  fl_passRequested :: bool
  fl_sleeping :: bool
  fl_passes :: nat
  fl_active :: nat

definition isIdle :: "worker_flags \<Rightarrow> bool" where
  "isIdle f \<longleftrightarrow>
     fl_passes f = 0 \<and> fl_active f = 0 \<and>
     (fl_phase f = Not_Started \<or> fl_sleeping f \<or> fl_stopping f)"

definition wake :: "worker_flags \<Rightarrow> worker_flags" where
  "wake f = f\<lparr>fl_sleeping := False, fl_phase := if fl_phase f = Asleep then Waking else fl_phase f\<rparr>"

definition flags_start :: "worker_flags \<Rightarrow> bool" where
  "flags_start f \<longleftrightarrow>
     f = \<lparr> fl_phase = Not_Started, fl_stopping = False, fl_passRequested = False,
       fl_sleeping = False, fl_passes = 0, fl_active = 0 \<rparr>"

inductive worker_step :: "worker_flags \<Rightarrow> worker_flags \<Rightarrow> bool" where
  worker_start:
    "fl_phase f = Not_Started \<Longrightarrow> \<not> fl_stopping f \<Longrightarrow> worker_step f (f\<lparr>fl_phase := At_Top\<rparr>)"
| worker_enqueue:
    "fl_phase f \<noteq> Not_Started \<Longrightarrow> \<not> fl_stopping f \<Longrightarrow>
     worker_step f (wake (f\<lparr>fl_passRequested := True\<rparr>))"
| worker_pass:
    "fl_phase f = At_Top \<Longrightarrow> \<not> fl_stopping f \<Longrightarrow>
     worker_step f (f\<lparr>fl_phase := In_Pass, fl_passRequested := False, fl_passes := fl_passes f + 1\<rparr>)"
| worker_return: "fl_phase f = At_Top \<Longrightarrow> fl_stopping f \<Longrightarrow> worker_step f (f\<lparr>fl_phase := Returned\<rparr>)"
| worker_passed:
    "fl_phase f = In_Pass \<Longrightarrow> 0 < fl_passes f \<Longrightarrow>
     worker_step f (f\<lparr>fl_phase := After_Pass, fl_passes := fl_passes f - 1\<rparr>)"
| worker_after_pass:
    "fl_phase f = After_Pass \<Longrightarrow>
     worker_step f
       (if fl_stopping f then f\<lparr>fl_phase := Returned\<rparr>
        else if fl_passRequested f then f\<lparr>fl_phase := At_Top\<rparr>
        else f\<lparr>fl_phase := Asleep, fl_sleeping := True\<rparr>)"
| worker_timer: "fl_phase f = Asleep \<Longrightarrow> worker_step f (f\<lparr>fl_phase := Waking\<rparr>)"
| worker_awake: "fl_phase f = Waking \<Longrightarrow> worker_step f (f\<lparr>fl_phase := At_Top, fl_sleeping := False\<rparr>)"
| worker_run_due: "worker_step f (f\<lparr>fl_passes := fl_passes f + 1\<rparr>)"
| worker_run_due_end:
    "1 < fl_passes f \<or> fl_phase f \<noteq> In_Pass \<and> 0 < fl_passes f \<Longrightarrow>
     worker_step f (f\<lparr>fl_passes := fl_passes f - 1\<rparr>)"
| worker_claimed: "0 < fl_passes f \<Longrightarrow> worker_step f (f\<lparr>fl_active := fl_active f + n\<rparr>)"
| worker_ended: "0 < fl_active f \<Longrightarrow> worker_step f (f\<lparr>fl_active := fl_active f - 1\<rparr>)"
| worker_stop: "worker_step f (wake (f\<lparr>fl_stopping := True\<rparr>))"

inductive_cases worker_stepE: "worker_step f g"

end
