(* ===== verification/Job_Worker_Facts.thy ===== *)
theory Job_Worker_Facts imports Job_Worker begin

text \<open>
  Facts about the worker: transactions, the tick of a schedule under every transaction, the lock
  that a lease gives, and the flags of the loop.
\<close>

section \<open>Transactions\<close>

lemma transaction_Inl: "transaction f db = (db', Inl e) \<longleftrightarrow> f db = Inl e \<and> db' = db"
  by (auto simp: transaction_def split: sum.splits)

lemma transaction_Inr: "transaction f db = (db', Inr x) \<longleftrightarrow> f db = Inr (db', x)"
  by (auto simp: transaction_def split: sum.splits)

lemma on_jobs_Inr: "on_jobs f db = Inr db' \<longleftrightarrow> f (fst db) = Inr (fst db') \<and> snd db' = snd db"
  by (cases db') (auto simp: on_jobs_def)

section \<open>The tick of a schedule\<close>

definition has_tick :: "string \<Rightarrow> job_schedule \<Rightarrow> jobs \<Rightarrow> bool" where
  "has_tick inst s db \<longleftrightarrow>
     list_ex (live_of inst (kind (sched_kind s)) (Some (scheduleDedupeKey (kind (sched_kind s))))) db"

lemma has_tick_iff:
  "has_tick inst s db \<longleftrightarrow>
    (\<exists>r \<in> set db. live_of inst (kind (sched_kind s)) (Some (scheduleDedupeKey (kind (sched_kind s)))) r)"
  by (simp add: has_tick_def list_ex_iff)

lemma live_of_row_key:
  "row_key r = row_key s \<Longrightarrow> live r = live s \<Longrightarrow> live_of inst k d r = live_of inst k d s"
  by (simp add: live_of_def split: option.splits)

lemma has_tick_update:
  assumes "has_tick inst s db"
    and "\<And>r. r \<in> set db \<Longrightarrow> p r \<Longrightarrow>
      live_of inst (kind (sched_kind s)) (Some (scheduleDedupeKey (kind (sched_kind s)))) r \<Longrightarrow>
      row_key (f r) = row_key r \<and> live (f r)"
  shows "has_tick inst s (update_where p f db)"
proof -
  let ?t = "live_of inst (kind (sched_kind s)) (Some (scheduleDedupeKey (kind (sched_kind s))))"
  from assms(1) obtain r where r: "r \<in> set db" "?t r" unfolding has_tick_iff by blast
  have "?t (if p r then f r else r)"
    using assms(2)[OF r(1)] r(2) by (auto simp: live_of_def)
  with r(1) show ?thesis unfolding has_tick_iff set_update_where by (cases "p r") auto
qed

lemma has_tick_append: "has_tick inst s db \<Longrightarrow> has_tick inst s (db @ rows)"
  by (simp add: has_tick_def)

text \<open>After an enqueue of a tick there is one, whoever made it.\<close>

lemma has_tick_enqueue:
  assumes "enqueueJob quiet quiet now (sched_kind s) p (tick_options inst s d) ids corrs db = Inr (db', job)"
  shows "has_tick inst s db'"
proof -
  have five: "(5::nat) = Suc 4" by simp
  let ?live = "live_of inst (kind (sched_kind s)) (Some (scheduleDedupeKey (kind (sched_kind s))))"
  from assms obtain v where
    e: "enqueue_rounds 5 0 quiet quiet now (sched_kind s) v (tick_options inst s d) ids corrs db = Inr (db', job)"
    by (auto simp: enqueueJob_def split: sum.splits)
  let ?r = "new_row now (sched_kind s) v (tick_options inst s d) (ids 0) (corrs 0)"
  have key: "row_instance ?r = inst" "row_kind ?r = kind (sched_kind s)"
    "row_dedupeKey ?r = Some (scheduleDedupeKey (kind (sched_kind s)))" "live ?r"
    by (simp_all add: new_row_def tick_options_def live_def)
  then have r: "?live ?r" by (simp add: live_of_def)
  note e = e[unfolded five enqueue_rounds.simps(2) Let_def quiet_def]
  show ?thesis
  proof (cases "insert_job db ?r")
    case (Inl x)
    with e show ?thesis by simp
  next
    case (Inr ins)
    show ?thesis
    proof (cases ins)
      case (Some t)
      with Inr e have "db' = db @ [?r]" by (auto simp: insert_job_def split: if_splits)
      with r show ?thesis by (simp add: has_tick_def)
    next
      case None
      with Inr have ex: "list_ex ?live db" by (auto simp: insert_job_def key split: if_splits)
      then obtain x where "List.find ?live db = Some x"
        by (cases "List.find ?live db") (auto simp: find_None_iff list_ex_iff)
      with None Inr e have "db' = db" by (auto simp: tick_options_def split: sum.splits)
      with ex show ?thesis by (simp add: has_tick_def)
    qed
  qed
qed

lemma has_tick_next: "enqueueNextScheduleTick now inst s ids corrs db = Inr db' \<Longrightarrow> has_tick inst s db'"
  by (auto simp: enqueueNextScheduleTick_def dest: has_tick_enqueue)

lemma has_tick_ensure: "ensureScheduleTick now inst s ids corrs db = Inr db' \<Longrightarrow> has_tick inst s db'"
  by (auto simp: ensureScheduleTick_def dest: has_tick_enqueue)

lemma enqueue_keeps_rows:
  assumes "enqueueJob quiet quiet now k p options ids corrs db = Inr (db', job)"
  shows "\<exists>rows. db' = db @ rows"
  using assms by (rule enqueueJob_quiet) auto

lemma has_tick_enqueue_other:
  "enqueueJob quiet quiet now k p options ids corrs db = Inr (db', job) \<Longrightarrow> has_tick inst s db \<Longrightarrow>
    has_tick inst s db'"
  using enqueue_keeps_rows has_tick_append by blast

lemma has_tick_makeDue: "has_tick inst s db \<Longrightarrow> has_tick inst s (makeScheduleTickDue now inst' s' db)"
  unfolding makeScheduleTickDue_def by (rule has_tick_update) (auto simp: live_def live_of_def)

lemma schedule_of_Some: "schedule_of w name = Some s \<Longrightarrow> kind (sched_kind s) = name \<and> s \<in> set (worker_schedules w)"
  unfolding schedule_of_def by (auto dest: find_Some_iff)

lemma live_ended_row: "\<not> final_ending e \<Longrightarrow> live (ended_row now e r)"
  by (cases e) (simp_all add: row_defs live_def)

text \<open>
  Ending the attempt of a row, and handing over when the row was a tick: the schedule still has one.
\<close>

lemma has_tick_end:
  assumes ok: "jobs_ok db" and r: "r \<in> set db"
    and tick: "schedule_of w (kind (sched_kind s)) = Some s" and has: "has_tick (worker_instance w) s db"
    and handover: "enqueueTickAfter w m r e (endJobAttempt now (row_id r) e db) = Inr db'"
  shows "has_tick (worker_instance w) s db'"
proof -
  let ?t = "live_of (worker_instance w) (kind (sched_kind s))
    (Some (scheduleDedupeKey (kind (sched_kind s))))"
  let ?db = "endJobAttempt now (row_id r) e db"
  have kept: "has_tick (worker_instance w) s ?db" if "\<not> ?t r \<or> \<not> final_ending e"
    unfolding endJobAttempt_def using has
  proof (rule has_tick_update)
    fix x assume "x \<in> set db" "row_id x = row_id r" "?t x"
    then have "x = r" using jobs_ok_same_id[OF ok] r by blast
    with that \<open>?t x\<close> show "row_key (ended_row now e x) = row_key x \<and> live (ended_row now e x)"
      using live_ended_row by simp
  qed
  have later: "has_tick (worker_instance w) s db'" if "has_tick (worker_instance w) s ?db"
    using handover that
    by (auto simp: enqueueTickAfter_def enqueueNextScheduleTick_def
        split: option.splits if_splits dest: has_tick_enqueue_other)
  show ?thesis
  proof (cases "?t r \<and> final_ending e")
    case False
    then show ?thesis using kept later by blast
  next
    case True
    then have "row_kind r = kind (sched_kind s)" "isTick w r"
      using tick by (auto simp: isTick_def live_of_def)
    with True tick handover have
      "enqueueNextScheduleTick (m_now m) (worker_instance w) s (m_ids m) (m_corrs m) ?db = Inr db'"
      by (simp add: enqueueTickAfter_def)
    then show ?thesis by (rule has_tick_next)
  qed
qed

text \<open>
  What the executor asks of a handler's hook: it leaves the job table well formed, the rows of
  running jobs as they are, and the ticks of schedules in their place.
\<close>

definition hook_ok :: "'s hook \<Rightarrow> bool" where
  "hook_ok hook \<longleftrightarrow>
     (\<forall>db db'. jobs_ok (fst db) \<longrightarrow> hook db = Inr db' \<longrightarrow>
        jobs_ok (fst db') \<and> (\<forall>r \<in> set (fst db). row_status r = Running \<longrightarrow> r \<in> set (fst db')) \<and>
        (\<forall>inst s. has_tick inst s (fst db) \<longrightarrow> has_tick inst s (fst db')))"

lemma hook_okD:
  assumes "hook_ok hook" "hook db = Inr db'" "jobs_ok (fst db)"
  shows "jobs_ok (fst db')" and "\<And>r. r \<in> set (fst db) \<Longrightarrow> row_status r = Running \<Longrightarrow> r \<in> set (fst db')"
    and "\<And>inst s. has_tick inst s (fst db) \<Longrightarrow> has_tick inst s (fst db')"
  using assms unfolding hook_ok_def by blast+

lemma hook_ok_none [simp]: "hook_ok (run_hook None)"
  by (simp add: hook_ok_def run_hook_def)

lemma hook_ok_Inr [simp]: "hook_ok Inr"
  by (simp add: hook_ok_def)

lemma jobs_ok_enqueueTickAfter:
  "enqueueTickAfter w m r e db = Inr db' \<Longrightarrow> jobs_ok db \<Longrightarrow> jobs_ok db'"
  by (auto simp: enqueueTickAfter_def enqueueNextScheduleTick_def quiet_def split: option.splits if_splits
      intro: jobs_ok_enqueueJob)

text \<open>The three writes that end an attempt: the hook, the ending and the hand-over.\<close>

definition end_writes :: "'s worker \<Rightarrow> moment \<Rightarrow> job_row \<Rightarrow> job_ending \<Rightarrow> 's hook \<Rightarrow> 's hook" where
  "end_writes w m row e hook db =
     bind_result (hook db) (\<lambda>db.
     bind_result (on_jobs (\<lambda>j. Inr (endJobAttempt (m_now m) (row_id row) e j)) db) (\<lambda>db.
     on_jobs (enqueueTickAfter w m row e) db))"

definition keeps_ticks :: "'s worker \<Rightarrow> 's database \<Rightarrow> 's database \<Rightarrow> bool" where
  "keeps_ticks w db db' \<longleftrightarrow>
     jobs_ok (fst db') \<and>
     (\<forall>s. schedule_of w (kind (sched_kind s)) = Some s \<longrightarrow> has_tick (worker_instance w) s (fst db) \<longrightarrow>
        has_tick (worker_instance w) s (fst db'))"

lemma keeps_ticks_refl: "jobs_ok (fst db) \<Longrightarrow> keeps_ticks w db db"
  by (simp add: keeps_ticks_def)

lemma keeps_ticks_trans: "keeps_ticks w a b \<Longrightarrow> keeps_ticks w b c \<Longrightarrow> keeps_ticks w a c"
  by (simp add: keeps_ticks_def)

lemma end_writes_ok:
  assumes "end_writes w m row e hook db = Inr db'" and ok: "jobs_ok (fst db)" and hook: "hook_ok hook"
    and row: "row \<in> set (fst db)" "row_status row = Running"
  shows "keeps_ticks w db db'"
proof -
  from assms(1) obtain db1 where db1: "hook db = Inr db1"
    and last: "enqueueTickAfter w m row e (endJobAttempt (m_now m) (row_id row) e (fst db1)) = Inr (fst db')"
    by (auto simp: end_writes_def on_jobs_Inr)
  note h = hook_okD[OF hook db1 ok]
  have "jobs_ok (fst db')"
    by (rule jobs_ok_enqueueTickAfter[OF last])
      (rule jobs_ok_endJobAttempt[OF h(1) h(2)[OF row] refl row(2)])
  then show ?thesis
    unfolding keeps_ticks_def using has_tick_end[OF h(1) h(2)[OF row] _ h(3) last] by blast
qed

text \<open>What the writes leave of the row and of its lease.\<close>

lemma enqueueTickAfter_rows:
  assumes "enqueueTickAfter w m r e db = Inr db'"
  shows "\<exists>new. db' = db @ new \<and> length new \<le> 1 \<and> (\<forall>x \<in> set new. row_leaseToken x = None)"
proof -
  have "db' = db \<or> (\<exists>k p options ids corrs now job.
      enqueueJob quiet quiet now k p options ids corrs db = Inr (db', job))"
    using assms by (auto simp: enqueueTickAfter_def enqueueNextScheduleTick_def split: option.splits if_splits)
  then show ?thesis by (auto elim!: enqueueJob_quiet)
qed

lemma set_endJobAttempt:
  assumes "jobs_ok db" and "row \<in> set db"
  shows "set (endJobAttempt now (row_id row) e db) = insert (ended_row now e row) (set db - {row})"
proof -
  have same: "row_id x = row_id row \<longleftrightarrow> x = row" if "x \<in> set db" for x
    using jobs_ok_same_id[OF assms(1) that assms(2)] by blast
  have "{f x | x. x \<in> set db \<and> row_id x = row_id row} = {f row}" for f :: "job_row \<Rightarrow> job_row"
    using same assms(2) by blast
  moreover have "{x \<in> set db. row_id x \<noteq> row_id row} = set db - {row}"
    using same by blast
  ultimately show ?thesis unfolding endJobAttempt_def set_update_where by simp
qed

lemma end_writes_facts:
  assumes "end_writes w m row e hook db = Inr db'" and ok: "jobs_ok (fst db)" and hook: "hook_ok hook"
    and row: "row \<in> set (fst db)" "row_status row = Running" "row_leaseToken row = Some (lease_token lease)"
  shows "lockLeasedJob clock lease (fst db') = None \<and> ended_row (m_now m) e row \<in> set (fst db')"
proof -
  from assms(1) obtain db1 where db1: "hook db = Inr db1"
    and last: "enqueueTickAfter w m row e (endJobAttempt (m_now m) (row_id row) e (fst db1)) = Inr (fst db')"
    by (auto simp: end_writes_def on_jobs_Inr)
  note h = hook_okD[OF hook db1 ok]
  have "token_gone (lease_token lease) (endJobAttempt (m_now m) (row_id row) e (fst db1), {lease_token lease})"
    by (rule token_gone_end[OF h(1) h(2)[OF row(1,2)] row(3)]) simp
  then have "\<forall>r \<in> set (fst db'). row_leaseToken r \<noteq> Some (lease_token lease)"
    using enqueueTickAfter_rows[OF last] by (auto simp: token_gone_def)
  then have "lockLeasedJob clock lease (fst db') = None" by (rule not_held(1))
  moreover have "ended_row (m_now m) e row \<in> set (fst db')"
    using enqueueTickAfter_rows[OF last] set_endJobAttempt[OF h(1) h(2)[OF row(1,2)]] by auto
  ultimately show ?thesis ..
qed

lemma end_writes_alone:
  assumes "end_writes w m row e hook db = Inr db'" and "hook = Inr" and "jobs_ok (fst db)" and "row \<in> set (fst db)"
  shows "snd db' = snd db \<and> (\<exists>new. length new \<le> 1 \<and>
    set (fst db') = insert (ended_row (m_now m) e row) (set (fst db) - {row}) \<union> set new)"
proof -
  from assms(1,2) have last:
    "enqueueTickAfter w m row e (endJobAttempt (m_now m) (row_id row) e (fst db)) = Inr (fst db')"
    and "snd db' = snd db"
    by (auto simp: end_writes_def on_jobs_Inr)
  moreover obtain new where "fst db' = endJobAttempt (m_now m) (row_id row) e (fst db) @ new" "length new \<le> 1"
    using enqueueTickAfter_rows[OF last] by blast
  ultimately show ?thesis using set_endJobAttempt[OF assms(3,4)] by auto
qed

definition outcome_hook :: "outcome \<Rightarrow> 's hook option \<Rightarrow> 's hook" where
  "outcome_hook out hook db = (case out of Exhausted _ \<Rightarrow> run_hook hook db | Ended _ \<Rightarrow> Inr db)"

lemma hook_ok_outcome: "hook_ok (run_hook hook) \<Longrightarrow> hook_ok (outcome_hook out hook)"
  by (cases out) (simp_all add: outcome_hook_def[abs_def] hook_ok_def)

lemma settle_cases:
  assumes "settle w m lease out hook db = (db', r)"
  obtains (rolled_back) e where "r = Inl e" "db' = db"
  | (lost) "r = Inr False" "db' = db" "lockLeasedJob (m_clock m) lease (fst db) = None"
  | (ended) row where "r = Inr True" "lockLeasedJob (m_clock m) lease (fst db) = Some row"
      "end_writes w m row (outcome_ending out) (outcome_hook out hook) db = Inr db'"
proof (cases r)
  case (Inl e)
  with assms that(1) show ?thesis by (simp add: settle_def transaction_Inl)
next
  case (Inr b)
  show ?thesis
  proof (cases "lockLeasedJob (m_clock m) lease (fst db)")
    case None
    with Inr assms that(2) show ?thesis by (simp add: settle_def transaction_Inr)
  next
    case (Some row)
    with Inr assms have "b = True"
      "end_writes w m row (outcome_ending out) (outcome_hook out hook) db = Inr db'"
      by (auto simp: settle_def transaction_Inr end_writes_def outcome_hook_def bind_result_Inl)
    with Inr Some that(3) show ?thesis by simp
  qed
qed

lemma settle_ok:
  assumes "settle w m lease out hook db = (db', r)" and "jobs_ok (fst db)" and "hook_ok (run_hook hook)"
  shows "keeps_ticks w db db'"
  using assms(1)
proof (cases rule: settle_cases)
  case (ended row)
  note row = lockLeasedJob_Some[OF ended(2)]
  show ?thesis by (rule end_writes_ok[OF ended(3) assms(2) hook_ok_outcome[OF assms(3)] row(1,5)])
qed (simp_all add: keeps_ticks_refl assms(2))

lemma bury_cases:
  assumes "bury w m handler withHandler jobId db = (db', r)"
  obtains (rolled_back) e where "r = Inl e" "db' = db"
  | (gone) "r = Inr ()" "db' = db" "lockExhaustedJob (m_now m) jobId (fst db) = None"
  | (ended) row hook where "r = Inr ()" "lockExhaustedJob (m_now m) jobId (fst db) = Some row"
      "hook = Inr \<or> \<not> isTick w row \<and> withHandler \<and>
        hook = run_hook (Option.bind (bindOrUndefined handler row) bound_onExhausted)"
      "end_writes w m row (burial w row) hook db = Inr db'"
proof (cases r)
  case (Inl e)
  with assms that(1) show ?thesis by (simp add: bury_def transaction_Inl)
next
  case (Inr b)
  show ?thesis
  proof (cases "lockExhaustedJob (m_now m) jobId (fst db)")
    case None
    with Inr assms that(2) show ?thesis by (simp add: bury_def transaction_Inr)
  next
    case (Some row)
    let ?hook = "if \<not> isTick w row \<and> withHandler
      then run_hook (Option.bind (bindOrUndefined handler row) bound_onExhausted) else Inr"
    from Inr Some assms have "end_writes w m row (burial w row) ?hook db = Inr db'"
      by (auto simp: bury_def transaction_Inr end_writes_def split: if_splits)
    with Inr Some that(3)[of row ?hook] show ?thesis by auto
  qed
qed

lemma bury_ok:
  assumes "bury w m handler withHandler jobId db = (db', r)" and "jobs_ok (fst db)"
    and "\<And>row. hook_ok (run_hook (Option.bind (bindOrUndefined handler row) bound_onExhausted))"
  shows "keeps_ticks w db db'"
  using assms(1)
proof (cases rule: bury_cases)
  case (ended row hook)
  note row = lockExhaustedJob_Some[OF ended(2)]
  have "hook_ok hook" using ended(3) assms(3) hook_ok_Inr by blast
  then show ?thesis by (rule end_writes_ok[OF ended(4) assms(2) _ row(1,4)])
qed (simp_all add: keeps_ticks_refl assms(2))

lemma settleOrBury_keeps:
  assumes "settleOrBury w m m' between lease out hook db = (db', r)" and ok: "jobs_ok (fst db)"
    and hook: "hook_ok (run_hook hook)"
    and env: "\<And>d. jobs_ok (fst d) \<Longrightarrow> keeps_ticks w d (between d)"
  shows "keeps_ticks w db db'"
proof -
  obtain d q where d: "settle w m lease out hook db = (d, q)" by fastforce
  note first = settle_ok[OF d ok hook]
  then have dok: "jobs_ok (fst d)" by (simp add: keeps_ticks_def)
  obtain d2 q2 where d2: "settle w m' lease bury_without_handler None (between d) = (d2, q2)" by fastforce
  have bok: "jobs_ok (fst (between d))" using env[OF dok] by (simp add: keeps_ticks_def)
  note second = settle_ok[OF d2 bok hook_ok_none]
  have "db' = d \<or> db' = d2"
    using assms(1) d d2 by (auto simp: settleOrBury_def split: sum.splits outcome.splits)
  then show ?thesis
    using first keeps_ticks_trans[OF first keeps_ticks_trans[OF env[OF dok] second]] by blast
qed

lemma settle_of_writes:
  assumes "lockLeasedJob (m_clock m) lease (fst db) = Some row"
  shows "settle w m lease out hook db =
    (case end_writes w m row (outcome_ending out) (outcome_hook out hook) db of
       Inl e \<Rightarrow> (db, Inl e) | Inr d \<Rightarrow> (d, Inr True))"
proof -
  have assoc: "bind_result (bind_result r f) g = bind_result r (\<lambda>x. bind_result (f x) g)"
    for r :: "(js_error, 'b) result" and f :: "'b \<Rightarrow> (js_error, 'c) result" and g :: "'c \<Rightarrow> (js_error, 'd) result"
    by (cases r) simp_all
  have "settle w m lease out hook db =
      transaction (\<lambda>db. bind_result (end_writes w m row (outcome_ending out) (outcome_hook out hook) db)
        (\<lambda>d. Inr (d, True))) db"
    using assms by (simp add: settle_def transaction_def end_writes_def outcome_hook_def assoc)
  then show ?thesis
    by (cases "end_writes w m row (outcome_ending out) (outcome_hook out hook) db") (simp_all add: transaction_def)
qed

text \<open>An end of an attempt that holds its lease, and whose hook does not fail, is its first try.\<close>

lemma settleOrBury_writes:
  assumes "settleOrBury w m m' between lease out hook db = (db', Inr ())"
    and "lockLeasedJob (m_clock m) lease (fst db) = Some row"
    and "\<And>e. out = Exhausted e \<Longrightarrow> \<not> isTick w row \<and> (\<exists>d. run_hook hook db = Inr d)"
  shows "end_writes w m row (outcome_ending out) (outcome_hook out hook) db = Inr db'"
proof -
  have first: "settle w m lease out hook db =
      (case end_writes w m row (outcome_ending out) (outcome_hook out hook) db of
         Inl e \<Rightarrow> (db, Inl e) | Inr d \<Rightarrow> (d, Inr True))"
    by (rule settle_of_writes[OF assms(2)])
  have "\<exists>d. end_writes w m row (outcome_ending out) (outcome_hook out hook) db = Inr d" if "out = Exhausted e" for e
    using assms(3)[OF that] that
    by (auto simp: end_writes_def outcome_hook_def on_jobs_def enqueueTickAfter_def split: option.splits)
  with first assms(1) show ?thesis
    by (cases out) (auto simp: settleOrBury_def split: sum.splits prod.splits)
qed

lemma end_writes_rest:
  assumes "end_writes w m row e hook db = Inr db'"
  shows "\<exists>d. hook db = Inr d \<and> snd db' = snd d"
  using assms by (auto simp: end_writes_def on_jobs_Inr)

abbreviation handler_ok :: "'s job_handler \<Rightarrow> bool" where
  "handler_ok handler \<equiv>
     \<forall>row. hook_ok (run_hook (Option.bind (bindOrUndefined handler row) bound_onExhausted))"

section \<open>What a failure leaves in the table\<close>

text \<open>The error of an attempt: the payload does not fit the kind, or what the handler threw.\<close>

definition run_error :: "'s job_handler \<Rightarrow> job_row \<Rightarrow> js_error option" where
  "run_error handler row =
     (case handler_bind handler (mapJob row) of
        Inl _ \<Rightarrow> Some (nonRetryableJobError ''The stored payload does not fit the job kind'')
      | Inr b \<Rightarrow> (case bound_run b of Inl e \<Rightarrow> Some e | Inr _ \<Rightarrow> None))"

abbreviation exhausted_hook :: "'s job_handler \<Rightarrow> job_row \<Rightarrow> 's hook option" where
  "exhausted_hook handler row \<equiv> Option.bind (bindOrUndefined handler row) bound_onExhausted"

definition never_again :: "'s worker \<Rightarrow> job_row \<Rightarrow> js_error \<Rightarrow> bool" where
  "never_again w row error \<longleftrightarrow> isTick w row \<or> is_error_class Non_Retryable_Job error"

definition last_attempt_failed :: "'s worker \<Rightarrow> job_row \<Rightarrow> js_error \<Rightarrow> bool" where
  "last_attempt_failed w row error \<longleftrightarrow>
     \<not> never_again w row error \<and> row_maxAttempts row \<le> row_attempts row"

text \<open>
  What the row of a failed attempt has to look like afterwards, read off the error and the old row.
\<close>

definition failed_row :: "'s worker \<Rightarrow> time \<Rightarrow> job_kind \<Rightarrow> job_row \<Rightarrow> js_error \<Rightarrow> job_row \<Rightarrow> bool" where
  "failed_row w now k row error r \<longleftrightarrow>
     row_id r = row_id row \<and> row_leaseToken r = None \<and> row_attempts r = row_attempts row \<and>
     row_errorCode r = Some (code_name (env_code (toErrorEnvelope error (row_correlationId row)))) \<and>
     row_errorMessage r = Some (env_message (toErrorEnvelope error (row_correlationId row))) \<and>
     (if never_again w row error then row_status r = Failed \<and> row_finishedAt r = Some now
      else if row_attempts row < row_maxAttempts row then
        row_status r = Queued \<and> row_runAfter r = now + backoff k row
      else row_status r = Dead \<and> row_finishedAt r = Some now)"

lemma attempt_outcome_failed:
  assumes "run_error handler row = Some error" and "\<not> (stopping \<and> \<not> draining)"
  shows "attempt_outcome w stopping draining handler row = outcomeOfFailure w row handler error"
  using assms by (auto simp: attempt_outcome_def run_error_def split: sum.splits)

lemma failed_row_ended:
  "failed_row w now (handler_kind handler) row error
     (ended_row now (outcome_ending (outcomeOfFailure w row handler error)) row)"
  by (simp add: failed_row_def outcomeOfFailure_def never_again_def noLease_def Let_def)

lemma outcomeOfFailure_exhausts:
  "(\<exists>e. outcomeOfFailure w row handler error = Exhausted e) \<longleftrightarrow> last_attempt_failed w row error"
  by (auto simp: outcomeOfFailure_def last_attempt_failed_def never_again_def Let_def)

text \<open>The outcome reads of the error only what is public and whether it may be retried.\<close>

lemma outcomeOfFailure_public:
  assumes "same_outside error error'" and "never_again w row error = never_again w row error'"
    and "handler_kind handler = handler_kind handler'"
  shows "outcomeOfFailure w row handler error = outcomeOfFailure w row handler' error'"
  using assms(2,3) by (auto simp: outcomeOfFailure_def never_again_def envelope_same_outside[OF assms(1)] Let_def)

lemma bury_one_keeps:
  assumes "bury_one w m m' handler jobId db = (db', r)" and "jobs_ok (fst db)" and "handler_ok handler"
  shows "keeps_ticks w db db'"
proof -
  obtain d q where d: "bury w m handler True jobId db = (d, q)" by fastforce
  note first = bury_ok[OF d assms(2) assms(3)[rule_format]]
  then have dok: "jobs_ok (fst d)" by (simp add: keeps_ticks_def)
  obtain d2 q2 where d2: "bury w m' handler False jobId d = (d2, q2)" by fastforce
  note second = bury_ok[OF d2 dok assms(3)[rule_format]]
  have "db' = d \<or> db' = d2" using assms(1) d d2 by (auto simp: bury_one_def split: sum.splits)
  then show ?thesis using first keeps_ticks_trans[OF first second] by blast
qed

lemma bury_list_keeps:
  "bury_list w ms i handler jobIds db = (db', r) \<Longrightarrow> jobs_ok (fst db) \<Longrightarrow> handler_ok handler \<Longrightarrow>
    keeps_ticks w db db'"
proof (induction w ms i handler jobIds db rule: bury_list.induct)
  case (1 w ms i handler db)
  then show ?case by (simp add: keeps_ticks_refl)
next
  case (2 w ms i handler jobId jobIds db)
  obtain d q where d: "bury_one w (ms i) (ms (Suc i)) handler jobId db = (d, q)" by fastforce
  note first = bury_one_keeps[OF d 2(3,4)]
  then have dok: "jobs_ok (fst d)" by (simp add: keeps_ticks_def)
  show ?case
  proof (cases q)
    case (Inl e)
    with 2(2) d first show ?thesis by simp
  next
    case (Inr u)
    with 2(2) d have "bury_list w ms (i + 2) handler jobIds d = (db', r)" by simp
    from 2(1)[OF d[symmetric] Inr this dok 2(4)] first show ?thesis by (rule keeps_ticks_trans[rotated])
  qed
qed

section \<open>What a lease locks\<close>

text \<open>
  The contract between the store and a worker about leases: a lock answers one record, no two leases
  lock the same record, and finishing a record under its lock ends that lease and no other.
\<close>

locale lease_table =
  fixes ok :: "'t \<Rightarrow> bool"
    and lock :: "time \<Rightarrow> 'l \<Rightarrow> 't \<Rightarrow> 'r option"
    and finish :: "nat \<Rightarrow> 'r \<Rightarrow> 't \<Rightarrow> 't"
  assumes finish_ok: "ok t \<Longrightarrow> lock c l t = Some r \<Longrightarrow> ok (finish i r t)"
    and finish_releases: "ok t \<Longrightarrow> lock c l t = Some r \<Longrightarrow> lock c' l (finish i r t) = None"
    and finish_steals_not: "lock c' l' t = None \<Longrightarrow> lock c' l' (finish i r t) = None"
    and lock_expires: "lock c l t = None \<Longrightarrow> c \<le> c' \<Longrightarrow> lock c' l t = None"
begin

text \<open>Finishing, one after another, every record that some leases still hold.\<close>

fun finish_all :: "(nat \<Rightarrow> time) \<Rightarrow> nat \<Rightarrow> 'l list \<Rightarrow> 't \<Rightarrow> 't" where
  "finish_all cs i [] t = t"
| "finish_all cs i (l # ls) t =
     finish_all cs (Suc i) ls (case lock (cs i) l t of None \<Rightarrow> t | Some r \<Rightarrow> finish i r t)"

lemma finish_one_ok: "ok t \<Longrightarrow> ok (case lock c l t of None \<Rightarrow> t | Some r \<Rightarrow> finish i r t)"
  by (auto split: option.splits intro: finish_ok)

lemma finish_one_free:
  "lock c' l' t = None \<Longrightarrow> lock c' l' (case lock c l t of None \<Rightarrow> t | Some r \<Rightarrow> finish i r t) = None"
  by (auto split: option.splits intro: finish_steals_not)

lemma finish_one_releases:
  "ok t \<Longrightarrow> c \<le> c' \<Longrightarrow> lock c' l (case lock c l t of None \<Rightarrow> t | Some r \<Rightarrow> finish i r t) = None"
  by (auto split: option.splits intro: finish_releases lock_expires)

lemma finish_all_free: "lock c l t = None \<Longrightarrow> lock c l (finish_all cs i ls t) = None"
  by (induction cs i ls t rule: finish_all.induct) (simp_all add: finish_one_free)

text \<open>Afterwards none of them holds anything.\<close>

lemma finish_all_releases:
  "ok t \<Longrightarrow> \<forall>j. cs j \<le> c \<Longrightarrow> l \<in> set ls \<Longrightarrow> lock c l (finish_all cs i ls t) = None"
proof (induction cs i ls t rule: finish_all.induct)
  case (2 cs i l' ls t)
  show ?case
  proof (cases "l = l'")
    case True
    with 2 show ?thesis by (simp add: finish_all_free finish_one_releases)
  next
    case False
    with 2 show ?thesis by (simp add: finish_one_ok)
  qed
qed simp

end

lemma lockLeasedJob_None:
  "lockLeasedJob c lease db = None \<longleftrightarrow> (\<forall>r \<in> set db. \<not> heldBy c lease r)"
  by (auto simp: lockLeasedJob_def find_None_iff)

lemma not_held_ended_row [simp]: "\<not> heldBy c lease (ended_row now e r)"
  by (simp add: heldBy_def)

interpretation leases: lease_table jobs_ok lockLeasedJob
    "\<lambda>i row. endJobAttempt (now i) (row_id row) e"
  for now :: "nat \<Rightarrow> time" and e
proof
  fix t :: jobs and c c' :: time and l l' :: job_lease and r and i :: nat
  show "jobs_ok (endJobAttempt (now i) (row_id r) e t)" if "jobs_ok t" "lockLeasedJob c l t = Some r"
    using that lockLeasedJob_Some[OF that(2)] jobs_ok_endJobAttempt by blast
  show "lockLeasedJob c' l' (endJobAttempt (now i) (row_id r) e t) = None"
    if "lockLeasedJob c' l' t = None"
    using that by (auto simp: lockLeasedJob_None endJobAttempt_def set_update_where)
  show "lockLeasedJob c' l t = None" if "lockLeasedJob c l t = None" "c \<le> c'"
    using that by (fastforce simp: lockLeasedJob_None heldBy_def split: option.splits)
  assume ok: "jobs_ok t" and r: "lockLeasedJob c l t = Some r"
  note r = lockLeasedJob_Some[OF r]
  have "token_gone (lease_token l) (endJobAttempt (now i) (row_id r) e t, {lease_token l})"
    by (rule token_gone_end[OF ok r(1,4)]) simp
  then show "lockLeasedJob c' l (endJobAttempt (now i) (row_id r) e t) = None"
    using not_held(1)[of _ l] by (simp add: token_gone_def)
qed

text \<open>A stopping worker gives its attempts back as the contract finishes them.\<close>

lemma settle_released:
  "settle w m lease (Ended End_Released) None db =
    ((case lockLeasedJob (m_clock m) lease (fst db) of
        None \<Rightarrow> fst db
      | Some row \<Rightarrow> endJobAttempt (m_now m) (row_id row) End_Released (fst db), snd db),
     Inr (lockLeasedJob (m_clock m) lease (fst db) \<noteq> None))"
  by (auto simp: settle_def transaction_def on_jobs_def enqueueTickAfter_def split: option.split)

lemma releaseActive_leases:
  "releaseActive w ms i as db =
    (leases.finish_all (\<lambda>i. m_now (ms i)) End_Released (\<lambda>i. m_clock (ms i)) i (map act_lease as) (fst db),
     snd db)"
  by (induction w ms i as db rule: releaseActive.induct) (simp_all add: settle_released)

text \<open>Each row is as before, or it was held and is now the released one.\<close>

lemma release_rows:
  assumes "jobs_ok jobs" and "row \<in> set jobs"
  shows "row \<in> set (leases.finish_all now End_Released clock i ls jobs) \<or>
    (\<exists>l \<in> set ls. \<exists>j. heldBy (clock j) l row \<and>
      ended_row (now j) End_Released row \<in> set (leases.finish_all now End_Released clock i ls jobs))"
  using assms
proof (induction ls arbitrary: i jobs row)
  case Nil
  then show ?case by simp
next
  case (Cons l ls)
  let ?one = "case lockLeasedJob (clock i) l jobs of None \<Rightarrow> jobs
    | Some r \<Rightarrow> endJobAttempt (now i) (row_id r) End_Released jobs"
  have ok: "jobs_ok ?one" by (rule leases.finish_one_ok[OF Cons.prems(1)])
  have "row \<in> set ?one \<or> (heldBy (clock i) l row \<and> ended_row (now i) End_Released row \<in> set ?one)"
  proof (cases "lockLeasedJob (clock i) l jobs")
    case None
    with Cons.prems show ?thesis by simp
  next
    case (Some r)
    with set_endJobAttempt[OF Cons.prems(1) lockLeasedJob_Some(1)[OF Some]] lockLeasedJob_Some(2)[OF Some]
      Cons.prems(2)
    show ?thesis by auto
  qed
  then show ?case
  proof (elim disjE conjE)
    assume "row \<in> set ?one"
    from Cons.IH[OF ok this, of "Suc i"] show ?thesis by auto
  next
    assume held: "heldBy (clock i) l row" and e: "ended_row (now i) End_Released row \<in> set ?one"
    from Cons.IH[OF ok e, of "Suc i"] not_held_ended_row
    have "ended_row (now i) End_Released row \<in>
        set (leases.finish_all now End_Released clock (Suc i) ls ?one)" by blast
    with held show ?thesis unfolding leases.finish_all.simps by (meson list.set_intros(1))
  qed
qed

section \<open>Construction and passes\<close>

lemma last_schedules_kinds:
  "s \<in> set (last_schedules ss) \<Longrightarrow> s \<in> set ss"
proof (induction ss rule: last_schedules.induct)
  case (2 t ss)
  then show ?case
    by (auto split: option.splits dest!: find_Some_iff)
qed simp

lemma createPostgresJobWorker_Inr:
  assumes "createPostgresJobWorker inst newId handlers schedules modules = Inr w"
  shows "worker_instance w = inst \<and> distinct (map (\<lambda>h. kind (handler_kind h)) (worker_handlers w)) \<and>
    (\<forall>h \<in> set (worker_handlers w). served modules (kind (handler_kind h))) \<and>
    (\<forall>s \<in> set (worker_schedules w). \<exists>h \<in> set (worker_handlers w). kind (handler_kind h) = kind (sched_kind s))"
proof -
  from assms have distinct: "distinct (map (\<lambda>h. kind (handler_kind h)) handlers)"
    and none: "List.find (\<lambda>s. kind (sched_kind s) \<notin> set (map (\<lambda>h. kind (handler_kind h)) handlers))
      (last_schedules schedules) = None"
    and w: "w = \<lparr> worker_instance = inst, worker_id = newId,
      worker_handlers = filter (\<lambda>h. served modules (kind (handler_kind h))) handlers,
      worker_schedules = filter (\<lambda>s. served modules (kind (sched_kind s))) (last_schedules schedules) \<rparr>"
    by (auto simp: createPostgresJobWorker_def Let_def split: if_splits option.splits)
  have "\<exists>h \<in> set (worker_handlers w). kind (handler_kind h) = kind (sched_kind s)"
    if s: "s \<in> set (worker_schedules w)" for s
  proof -
    from s none have "kind (sched_kind s) \<in> set (map (\<lambda>h. kind (handler_kind h)) handlers)"
      unfolding find_None_iff w by auto
    with s show ?thesis by (auto simp: w)
  qed
  with distinct show ?thesis by (auto simp: w distinct_map_filter)
qed

lemma pass_kind_rows:
  assumes "pass_kind w now ms tokens locked env h active db = (db', active', rows)"
  shows "rows = [] \<or> of_nat (length rows) < free_slots h active + 1"
    and "handler_slots h = 0 \<Longrightarrow> rows = []"
    and "jobs_ok (fst db) \<Longrightarrow> fresh_tokens tokens (fst db) \<Longrightarrow> r \<in> set rows \<Longrightarrow>
      \<exists>q \<in> set (fst db). row_id q = row_id r \<and> of_kind (worker_instance w) (kind (handler_kind h)) q"
proof -
  let ?k = "handler_kind h" and ?inst = "worker_instance w"
  from assms show "handler_slots h = 0 \<Longrightarrow> rows = []"
    by (auto simp: pass_kind_def)
  show "rows = [] \<or> of_nat (length rows) < free_slots h active + 1"
  proof (cases "0 < handler_slots h")
    case True
    with assms obtain jobs where "claimJobs now ?inst ?k (worker_id w) (free_slots h active) tokens locked (fst db) = (jobs, rows)"
      by (auto simp: pass_kind_def split: prod.splits)
    then have "rows = [] \<or> of_nat (length rows) < claim_room ?inst ?k (free_slots h active) (after_recovery now ?inst ?k (fst db)) + 1"
      unfolding claimJobs_loop by (rule claim_loop_length)
    moreover have "claim_room ?inst ?k (free_slots h active) d \<le> free_slots h active" for d
      by (simp add: claim_room_def split: option.split)
    ultimately show ?thesis by (meson add_right_mono less_le_trans)
  next
    case False
    with assms show ?thesis by (auto simp: pass_kind_def)
  qed
  assume ok: "jobs_ok (fst db)" "fresh_tokens tokens (fst db)" and r: "r \<in> set rows"
  with assms have "0 < handler_slots h" by (auto simp: pass_kind_def split: if_splits)
  with assms obtain jobs where "claimJobs now ?inst ?k (worker_id w) (free_slots h active) tokens locked (fst db) = (jobs, rows)"
    by (auto simp: pass_kind_def split: prod.splits)
  then have "claim_facts now ?inst ?k locked (after_recovery now ?inst ?k (fst db)) jobs rows"
    unfolding claimJobs_loop after_recovery_def
    by (rule claim_loop_facts[OF jobs_ok_recover[OF ok(1)] fresh_tokens_recover[OF ok(2)]])
  with r obtain q where "q \<in> set (after_recovery now ?inst ?k (fst db))" "row_id q = row_id r" "of_kind ?inst (kind ?k) q"
    unfolding claim_facts_def claimable_def by blast
  then show "\<exists>q \<in> set (fst db). row_id q = row_id r \<and> of_kind ?inst (kind ?k) q"
    unfolding after_recovery_def set_update_where by (auto simp: row_defs of_kind_def)
qed

section \<open>The flags\<close>

definition flags_inv :: "worker_flags \<Rightarrow> bool" where
  "flags_inv f \<longleftrightarrow>
     (fl_sleeping f \<longrightarrow> fl_phase f \<in> {Asleep, Waking} \<and> \<not> fl_passRequested f) \<and>
     (fl_phase f = Asleep \<longrightarrow> fl_sleeping f) \<and>
     (fl_phase f = Not_Started \<longrightarrow> \<not> fl_passRequested f) \<and>
     (fl_phase f = In_Pass \<longrightarrow> 0 < fl_passes f)"

interpretation worker_flags: invariant_system flags_start worker_step flags_inv
proof
  fix f g
  show "flags_inv f" if "flags_start f" using that by (simp add: flags_start_def flags_inv_def)
  show "flags_inv g" if "flags_inv f" "worker_step f g"
    using that(2,1) by (cases rule: worker_step.cases) (auto simp: flags_inv_def wake_def split: if_splits)
qed

end
