(* ===== verification/Job_Worker_Promises.thy ===== *)
theory Job_Worker_Promises imports Job_Worker_Facts begin

text \<open>
  What the worker promises: schedules that keep ticking, endings that happen under the lease or not
  at all, failures that choose the right ending, handler writes that a lost lease rolls back, a stop
  that gives everything back, an idle worker with nothing to do, and kinds of off modules left alone.
\<close>

section \<open>An example worker\<close>

definition demo_worker :: "unit worker" where
  "demo_worker =
     \<lparr> worker_instance = ''ci'', worker_id = ''worker_1'', worker_handlers = [],
       worker_schedules = [] \<rparr>"

definition demo_moment :: moment where
  "demo_moment = \<lparr> m_now = 6, m_clock = 6, m_ids = (\<lambda>_. ''job_9''), m_corrs = (\<lambda>_. ''corr_9'') \<rparr>"

definition demo_lease :: job_lease where
  "demo_lease = \<lparr> lease_jobId = ''job_1'', lease_token = ''t'' \<rparr>"

definition demo_handler :: "unit job_handler" where
  "demo_handler =
     \<lparr> handler_kind = demo_kind, handler_slots = 2,
       handler_bind = (\<lambda>j. Inr \<lparr> bound_run = Inr (), bound_onExhausted = Some (\<lambda>_. Inl (Foreign_Error ''down'')),
         bound_onHeartbeat = None \<rparr>) \<rparr>"

lemma demo_lock_worker: "lockLeasedJob (m_clock demo_moment) demo_lease (fst ([demo_running], ())) = Some demo_running"
  using demo_lock by (simp add: demo_moment_def demo_lease_def)

lemma jobs_ok_demo_running: "jobs_ok [demo_running]"
  using queue_table.inv_reachable[OF demo_reach_running] by simp

lemma hook_ok_fails [simp]: "hook_ok (run_hook (Some (\<lambda>_. Inl e)))"
  by (simp add: hook_ok_def run_hook_def)

section \<open>The properties\<close>

text \<open>
  C4. A schedule never loses its tick: whatever ends an attempt (the end of a run with any result,
  in a worker that runs, drains or stops, or the burial of exhausted jobs), if the schedule had a live
  tick before, it has one after, also when the job that ended was the tick itself.
\<close>

theorem schedules_keep_ticking:
  assumes "jobs_ok (fst db)" and "handler_ok handler"
    and "\<And>d. jobs_ok (fst d) \<Longrightarrow> keeps_ticks w d (between d)"
    and "schedule_of w (kind (sched_kind s)) = Some s" and "has_tick (worker_instance w) s (fst db)"
  shows "has_tick (worker_instance w) s
      (fst (fst (end_of_run w stopping draining handler row m m' between db))) \<and>
    has_tick (worker_instance w) s (fst (fst (buryExhausted w ms handler db)))"
proof -
  have "keeps_ticks w db (fst (end_of_run w stopping draining handler row m m' between db))"
    unfolding end_of_run_def
    by (rule settleOrBury_keeps[OF prod.collapse[symmetric] assms(1) assms(2)[rule_format] assms(3)])
  moreover have "keeps_ticks w db (fst (buryExhausted w ms handler db))"
    unfolding buryExhausted_def
    by (rule bury_list_keeps[OF prod.collapse[symmetric] assms(1,2)])
  ultimately show ?thesis using assms(4,5) by (simp add: keeps_ticks_def)
qed

definition tick_kind :: job_kind where
  "tick_kind = demo_kind\<lparr>kind := ''jobs.prune'', payloadSchema := scheduledJobPayloadSchema, maxAttempts := 1\<rparr>"

definition tick_schedule :: job_schedule where
  "tick_schedule = \<lparr> sched_kind = tick_kind, every = 60000, dueAtStart = False \<rparr>"

definition tick_row :: job_row where
  "tick_row = mark_running 5 tick_kind ''worker_1'' ''t''
     (new_row 0 tick_kind (JObj []) (tick_options ''ci'' tick_schedule None) ''job_1'' ''corr_1'')"

definition tick_worker :: "unit worker" where
  "tick_worker = demo_worker\<lparr>worker_schedules := [tick_schedule]\<rparr>"

definition tick_handler :: "unit job_handler" where
  "tick_handler = demo_handler\<lparr>handler_kind := tick_kind, handler_bind := (\<lambda>j. Inl (Foreign_Error ''x''))\<rparr>"

lemmas tick_defs = tick_kind_def tick_schedule_def tick_row_def tick_worker_def tick_handler_def
  demo_worker_def demo_kind_def tick_options_def row_defs scheduleDedupeKey_def

lemma jobs_ok_tick: "jobs_ok [tick_row]"
  by (simp add: jobs_ok_def row_ok_def unique_by_def ended_def tick_defs)

lemma schedules_keep_ticking_witness:
  "has_tick ''ci'' tick_schedule
    (fst (fst (end_of_run tick_worker False False tick_handler tick_row demo_moment demo_moment id ([tick_row], ()))))"
proof -
  have h: "handler_ok tick_handler" by (simp add: bindOrUndefined_def tick_handler_def)
  have s: "schedule_of tick_worker (kind (sched_kind tick_schedule)) = Some tick_schedule"
    by (simp add: schedule_of_def tick_defs)
  have t: "has_tick (worker_instance tick_worker) tick_schedule (fst ([tick_row], ()))"
    by (simp add: has_tick_def live_of_def live_def tick_defs)
  have "worker_instance tick_worker = ''ci''" by (simp add: tick_defs)
  with schedules_keep_ticking[of "([tick_row], ())" tick_handler tick_worker id tick_schedule,
      OF _ h _ s t, of False False tick_row demo_moment demo_moment] jobs_ok_tick
  show ?thesis by (simp add: keeps_ticks_refl)
qed

text \<open>
  An attempt ends under its lease or not at all. \<open>settle\<close> reports an error and rolled everything
  back; or it reports a lost lease and changed nothing, the hook included; or it held the lease, and
  then the lease is gone and, of an outcome without a hook, the job's row is the ended one and every
  other row is as before, with at most one new row, the next tick.
\<close>

lemma settle_under_the_lease:
  assumes "settle w m lease out hook db = (db', r)" and "jobs_ok (fst db)" and "hook_ok (run_hook hook)"
  shows "(case r of
      Inl e \<Rightarrow> db' = db
    | Inr False \<Rightarrow> db' = db \<and> lockLeasedJob (m_clock m) lease (fst db) = None
    | Inr True \<Rightarrow>
        (\<forall>clock. lockLeasedJob clock lease (fst db') = None) \<and>
        (\<exists>row \<in> set (fst db). heldBy (m_clock m) lease row \<and>
          ended_row (m_now m) (outcome_ending out) row \<in> set (fst db') \<and>
          ((\<exists>e. out = Ended e) \<longrightarrow> snd db' = snd db \<and>
            (\<exists>new. length new \<le> 1 \<and> set (fst db') =
               insert (ended_row (m_now m) (outcome_ending out) row) (set (fst db) - {row}) \<union> set new))))"
  using assms(1)
proof (cases rule: settle_cases)
  case (ended row)
  note row = lockLeasedJob_Some[OF ended(2)]
  note facts = end_writes_facts[OF ended(3) assms(2) hook_ok_outcome[OF assms(3)] row(1,5,4)]
  have "\<exists>new. length new \<le> 1 \<and> set (fst db') =
      insert (ended_row (m_now m) (outcome_ending out) row) (set (fst db) - {row}) \<union> set new"
    and "snd db' = snd db" if "out = Ended e" for e
    using end_writes_alone[OF ended(3)[unfolded that] _ assms(2) row(1)] that
    by (simp_all add: outcome_hook_def[abs_def])
  with ended(1) row(1,2) facts show ?thesis by auto
qed (auto)

lemma settle_under_the_lease_witness:
  "\<exists>db' r. settle demo_worker demo_moment demo_lease (Ended End_Succeeded) None ([demo_running], ()) = (db', r) \<and>
    r = Inr True \<and> lockLeasedJob 7 demo_lease (fst db') = None"
proof -
  let ?db = "(endJobAttempt 6 ''job_1'' End_Succeeded [demo_running], ())"
  have "settle demo_worker demo_moment demo_lease (Ended End_Succeeded) None ([demo_running], ()) = (?db, Inr True)"
    unfolding settle_def transaction_def demo_lock_worker
    by (simp add: on_jobs_def enqueueTickAfter_def schedule_of_def demo_worker_def demo_moment_def demo_defs)
  from this settle_under_the_lease[OF this] jobs_ok_demo_running show ?thesis by auto
qed

text \<open>
  C5. A failure chooses its ending, in the table: when the attempt of \<open>row\<close> threw \<open>error\<close> and still
  holds its lease, the stored row has lost the lease; it is failed for good when the job is a tick
  (the next tick is its retry) or the error says so; otherwise it is queued again, due after the
  backoff of its kind, while attempts are left, and dead on the last one, together with what the
  handler's \<open>onExhausted\<close> wrote, which runs in no other case. Stored of the error are the code and the
  message of its envelope, in every case, and the generic message when the envelope is an internal
  one; and nothing else of it: had the handler thrown another error with the same public part and
  the same class, the whole database would be the same.
\<close>

theorem failures_choose_their_ending:
  assumes "jobs_ok (fst db)" and "handler_ok handler"
    and "lockLeasedJob (m_clock m) (lease_of row) (fst db) = Some row"
    and "run_error handler row = Some error" and "\<not> (stopping \<and> \<not> draining)"
    and "last_attempt_failed w row error \<Longrightarrow> run_hook (exhausted_hook handler row) db = Inr hooked"
    and "end_of_run w stopping draining handler row m m' between db = (db', Inr ())"
  shows "(\<exists>r \<in> set (fst db'). failed_row w (m_now m) (handler_kind handler) row error r \<and>
      (env_statusCode (toErrorEnvelope error (row_correlationId row)) = 500 \<and> constructed error \<longrightarrow>
         row_errorMessage r = Some INTERNAL_ERROR_MESSAGE)) \<and>
    snd db' = (if last_attempt_failed w row error then snd hooked else snd db) \<and>
    (\<forall>handler' error'.
       handler_kind handler' = handler_kind handler \<and>
       exhausted_hook handler' row = exhausted_hook handler row \<and>
       run_error handler' row = Some error' \<and> same_outside error error' \<and>
       is_error_class Non_Retryable_Job error' = is_error_class Non_Retryable_Job error \<longrightarrow>
       end_of_run w stopping draining handler' row m m' between db = (db', Inr ()))"
proof (intro conjI allI impI)
  let ?out = "outcomeOfFailure w row handler error" and ?hook = "exhausted_hook handler row"
  have run: "settleOrBury w m m' between (lease_of row) ?out ?hook db = (db', Inr ())"
    using assms(7) attempt_outcome_failed[OF assms(4,5)] by (simp add: end_of_run_def)
  have writes: "end_writes w m row (outcome_ending ?out) (outcome_hook ?out ?hook) db = Inr db'"
    by (rule settleOrBury_writes[OF run assms(3)])
      (use assms(6) outcomeOfFailure_exhausts[of w row handler error] in
        \<open>auto simp: last_attempt_failed_def never_again_def\<close>)
  note row = lockLeasedJob_Some[OF assms(3)]
  have stored: "ended_row (m_now m) (outcome_ending ?out) row \<in> set (fst db')"
    using end_writes_facts[OF writes assms(1) hook_ok_outcome[OF assms(2)[rule_format]] row(1,5,4)] by blast
  have internal: "env_message (toErrorEnvelope error c) = INTERNAL_ERROR_MESSAGE"
    if "env_statusCode (toErrorEnvelope error c) = 500" "constructed error" for c
    using that by (cases error) (auto simp: constructed_def split: if_splits elim: APP_ERROR_STATUS_CODES.elims)
  show "\<exists>r \<in> set (fst db'). failed_row w (m_now m) (handler_kind handler) row error r \<and>
      (env_statusCode (toErrorEnvelope error (row_correlationId row)) = 500 \<and> constructed error \<longrightarrow>
         row_errorMessage r = Some INTERNAL_ERROR_MESSAGE)"
    using stored failed_row_ended[of w "m_now m" handler row error] internal
    by (intro bexI[OF _ stored]) (auto simp: failed_row_def)
  show "snd db' = (if last_attempt_failed w row error then snd hooked else snd db)"
    using end_writes_rest[OF writes] assms(6) outcomeOfFailure_exhausts[of w row handler error]
    by (cases ?out) (auto simp: outcome_hook_def)
next
  fix handler' error'
  assume same: "handler_kind handler' = handler_kind handler \<and>
       exhausted_hook handler' row = exhausted_hook handler row \<and>
       run_error handler' row = Some error' \<and> same_outside error error' \<and>
       is_error_class Non_Retryable_Job error' = is_error_class Non_Retryable_Job error"
  then have "outcomeOfFailure w row handler error = outcomeOfFailure w row handler' error'"
    by (intro outcomeOfFailure_public) (simp_all add: never_again_def)
  then have "end_of_run w stopping draining handler' row m m' between db =
      end_of_run w stopping draining handler row m m' between db"
    using same assms(4,5) by (simp add: end_of_run_def attempt_outcome_failed)
  with assms(7) show "end_of_run w stopping draining handler' row m m' between db = (db', Inr ())" by simp
qed

definition leaking_handler :: "unit job_handler" where
  "leaking_handler = demo_handler\<lparr>handler_bind := (\<lambda>j. Inr
     \<lparr> bound_run = Inl (Foreign_Error ''password=secret''), bound_onExhausted = Some Inr,
       bound_onHeartbeat = None \<rparr>)\<rparr>"

lemma failures_choose_their_ending_witness:
  "\<exists>r \<in> set (fst (fst (end_of_run demo_worker False False leaking_handler demo_running
       demo_moment demo_moment id ([demo_running], ())))).
     row_status r = Queued \<and> row_errorMessage r = Some INTERNAL_ERROR_MESSAGE"
proof -
  let ?r = "end_of_run demo_worker False False leaking_handler demo_running demo_moment demo_moment id ([demo_running], ())"
  have h: "handler_ok leaking_handler"
    by (simp add: leaking_handler_def bindOrUndefined_def hook_ok_def run_hook_def)
  have lease: "lease_of demo_running = demo_lease"
    by (simp add: lease_of_def demo_lease_def demo_defs row_defs)
  have err: "run_error leaking_handler demo_running = Some (Foreign_Error ''password=secret'')"
    by (simp add: run_error_def leaking_handler_def)
  have more: "row_attempts demo_running < row_maxAttempts demo_running"
    by (simp add: demo_defs row_defs)
  have again: "\<not> never_again demo_worker demo_running (Foreign_Error ''password=secret'')"
    by (simp add: never_again_def isTick_def schedule_of_def demo_worker_def)
  then have more': "\<not> last_attempt_failed demo_worker demo_running (Foreign_Error ''password=secret'')"
    using more by (simp add: last_attempt_failed_def)
  have "snd ?r = Inr ()"
    unfolding end_of_run_def settleOrBury_def settle_def transaction_def lease demo_lock_worker
      attempt_outcome_failed[OF err, of False False, simplified]
    using again more
    by (simp add: on_jobs_def enqueueTickAfter_def schedule_of_def demo_worker_def outcomeOfFailure_def
        never_again_def Let_def)
  then have "?r = (fst ?r, Inr ())" by (metis prod.collapse)
  with failures_choose_their_ending[of "([demo_running], ())" leaking_handler demo_moment demo_running
      "Foreign_Error ''password=secret''" False False demo_worker "([demo_running], ())" demo_moment id "fst ?r"]
    jobs_ok_demo_running demo_lock_worker h err lease more' again more
  show ?thesis by (auto simp: failed_row_def constructed_def)
qed

text \<open>
  A handler writes only while it holds the lease: \<open>control.transaction\<close> refuses with
  \<open>JobLeaseLostError\<close> and changes nothing when the lease is lost, changes nothing when the handler's
  function fails, and otherwise commits what the function did with the lease renewed: it then holds
  until a lease's time after the renewal, whatever the transaction took.
\<close>

theorem handler_writes_under_the_lease:
  assumes "control_transaction clock clock' lease handler f db = (db', r)"
    and "\<And>db db1 x. f db = Inr (db1, x) \<Longrightarrow>
      (\<forall>q \<in> set (fst db). row_status q = Running \<longrightarrow> q \<in> set (fst db1))"
  shows "(lockLeasedJob clock lease (fst db) = None \<longrightarrow>
      db' = db \<and> r = Inl (jobLeaseLostError (lease_jobId lease))) \<and>
    (\<forall>e. r = Inl e \<longrightarrow> db' = db) \<and>
    (\<forall>x. r = Inr x \<longrightarrow>
      (\<exists>db1. f db = Inr (db1, x) \<and> snd db' = snd db1 \<and>
         fst db' = renewLockedJobLease clock' lease (leaseMs (handler_kind handler)) (fst db1)) \<and>
      (\<forall>c < clock' + leaseMs (handler_kind handler). lockLeasedJob c lease (fst db') \<noteq> None))"
proof (cases "lockLeasedJob clock lease (fst db)")
  case None
  with assms(1) show ?thesis by (auto simp: control_transaction_def transaction_def)
next
  case (Some row)
  note row = lockLeasedJob_Some[OF Some]
  show ?thesis
  proof (cases "f db")
    case (Inl e)
    with Some assms(1) show ?thesis by (auto simp: control_transaction_def transaction_def)
  next
    case (Inr y)
    obtain db1 x where y: "y = (db1, x)" by fastforce
    have "row \<in> set (fst db1)" using assms(2)[OF Inr[unfolded y]] row(1,5) by blast
    then have row': "renewed clock' (leaseMs (handler_kind handler)) row \<in>
        set (renewLockedJobLease clock' lease (leaseMs (handler_kind handler)) (fst db1))"
      using row(3,4) by (auto simp: renewLockedJobLease_def set_update_where)
    have held: "lockLeasedJob c lease
        (renewLockedJobLease clock' lease (leaseMs (handler_kind handler)) (fst db1)) \<noteq> None"
      if "c < clock' + leaseMs (handler_kind handler)" for c
    proof -
      have "heldBy c lease (renewed clock' (leaseMs (handler_kind handler)) row)"
        using that row by (simp add: heldBy_def row_defs)
      with row' show ?thesis unfolding lockLeasedJob_None by blast
    qed
    have db': "db' = (renewLockedJobLease clock' lease (leaseMs (handler_kind handler)) (fst db1), snd db1)"
      and r: "r = Inr x"
      using Some Inr y assms(1) by (auto simp: control_transaction_def transaction_def on_jobs_def)
    show ?thesis
      unfolding db' r fst_conv snd_conv
    proof (intro conjI allI impI)
      fix z assume "Inr x = (Inr z :: js_error + 'b)"
      then show "\<exists>db1'. f db = Inr (db1', z) \<and> snd db1 = snd db1' \<and>
          renewLockedJobLease clock' lease (leaseMs (handler_kind handler)) (fst db1) =
          renewLockedJobLease clock' lease (leaseMs (handler_kind handler)) (fst db1')"
        using Inr y by blast
    qed (use Some held in simp_all)
  qed
qed

lemma handler_writes_under_the_lease_witness:
  "lockLeasedJob 20000 demo_lease
     (fst (fst (control_transaction 6 7 demo_lease demo_handler (\<lambda>db. Inr (db, ())) ([demo_running], ())))) \<noteq> None"
proof -
  have lock: "lockLeasedJob 6 demo_lease [demo_running] = Some demo_running"
    using demo_lock by (simp add: demo_lease_def)
  have res: "control_transaction 6 7 demo_lease demo_handler (\<lambda>db. Inr (db, ())) ([demo_running], ()) =
      ((renewLockedJobLease 7 demo_lease 30000 [demo_running], ()), Inr ())"
    by (simp add: control_transaction_def transaction_def lock on_jobs_def demo_handler_def demo_kind_def)
  have lease: "leaseMs (handler_kind demo_handler) = 30000" by (simp add: demo_handler_def demo_kind_def)
  have "\<forall>c < 7 + 30000. lockLeasedJob c demo_lease
      (renewLockedJobLease 7 demo_lease 30000 [demo_running]) \<noteq> None"
    using handler_writes_under_the_lease[OF res] unfolding lease by simp
  from this[rule_format, of 20000] show ?thesis unfolding res fst_conv by simp
qed

text \<open>
  A stopping worker gives back what it holds: after \<open>releaseActive\<close> none of its attempts holds a
  lease any more, a job it held is queued again, due at once, with the attempt given back, and the
  rows of all other jobs are untouched.
\<close>

theorem stop_releases_everything:
  assumes "jobs_ok (fst db)" and "\<forall>i. m_clock (ms i) \<le> clock" and "a \<in> set active"
  shows "lockLeasedJob clock (act_lease a) (fst (releaseActive w ms 0 active db)) = None \<and>
    (\<forall>row \<in> set (fst db). row \<in> set (fst (releaseActive w ms 0 active db)) \<or>
      (\<exists>b \<in> set active. \<exists>i. heldBy (m_clock (ms i)) (act_lease b) row \<and>
         ended_row (m_now (ms i)) End_Released row \<in> set (fst (releaseActive w ms 0 active db)))) \<and>
    snd (releaseActive w ms 0 active db) = snd db"
proof (intro conjI ballI)
  have "act_lease a \<in> set (map act_lease active)" using assms(3) by simp
  from leases.finish_all_releases[OF assms(1,2) this]
  show "lockLeasedJob clock (act_lease a) (fst (releaseActive w ms 0 active db)) = None"
    unfolding releaseActive_leases fst_conv .
next
  fix row assume "row \<in> set (fst db)"
  from release_rows[OF assms(1) this, of "\<lambda>i. m_now (ms i)" "\<lambda>i. m_clock (ms i)" 0 "map act_lease active"]
  show "row \<in> set (fst (releaseActive w ms 0 active db)) \<or>
      (\<exists>b \<in> set active. \<exists>i. heldBy (m_clock (ms i)) (act_lease b) row \<and>
         ended_row (m_now (ms i)) End_Released row \<in> set (fst (releaseActive w ms 0 active db)))"
    unfolding releaseActive_leases fst_conv set_map bex_simps .
qed (simp add: releaseActive_leases)

lemma stop_releases_everything_witness:
  "lockLeasedJob 7 demo_lease (fst (releaseActive demo_worker (\<lambda>_. demo_moment) 0
     [active_of demo_running] ([demo_running], ()))) = None"
  using stop_releases_everything[of "([demo_running], ())" "\<lambda>_. demo_moment" 7 "active_of demo_running"
      "[active_of demo_running]" demo_worker] jobs_ok_demo_running
  by (simp add: demo_moment_def active_of_def lease_of_def demo_lease_def demo_defs)

text \<open>
  Idle means idle: whenever a started worker that is not stopping reports that it is idle, it
  sleeps, no pass and no attempt is in flight, and every job enqueued in this process was seen by a
  pass that began after the enqueue: none of them still waits for its pass.
\<close>

lemma idle_has_seen_every_enqueue:
  assumes "reachable flags_start worker_step f" and "isIdle f" and "fl_phase f \<noteq> Not_Started"
    and "\<not> fl_stopping f"
  shows "\<not> fl_passRequested f \<and> fl_phase f \<in> {Asleep, Waking} \<and> fl_passes f = 0 \<and> fl_active f = 0"
  using worker_flags.inv_reachable[OF assms(1)] assms(2-)
  by (auto simp: flags_inv_def isIdle_def)

definition asleep_flags :: worker_flags where
  "asleep_flags = \<lparr> fl_phase = Asleep, fl_stopping = False, fl_passRequested = False,
     fl_sleeping = True, fl_passes = 0, fl_active = 0 \<rparr>"

lemma asleep_reachable: "reachable flags_start worker_step asleep_flags"
proof -
  let ?f = "\<lambda>p s n. \<lparr> fl_phase = p, fl_stopping = False, fl_passRequested = False,
     fl_sleeping = s, fl_passes = n, fl_active = 0 \<rparr> :: worker_flags"
  have "reachable flags_start worker_step (?f Not_Started False 0)"
    by (rule reachable_start) (simp add: flags_start_def)
  moreover have "worker_step (?f Not_Started False 0) (?f At_Top False 0)"
    using worker_start[of "?f Not_Started False 0"] by simp
  moreover have "worker_step (?f At_Top False 0) (?f In_Pass False 1)"
    using worker_pass[of "?f At_Top False 0"] by simp
  moreover have "worker_step (?f In_Pass False 1) (?f After_Pass False 0)"
    using worker_passed[of "?f In_Pass False 1"] by simp
  moreover have "worker_step (?f After_Pass False 0) (?f Asleep True 0)"
    using worker_after_pass[of "?f After_Pass False 0"] by simp
  ultimately show ?thesis unfolding asleep_flags_def by (meson reachable_move)
qed

lemma idle_has_seen_every_enqueue_witness: "isIdle asleep_flags \<and> \<not> fl_passRequested asleep_flags"
  using idle_has_seen_every_enqueue[OF asleep_reachable] by (simp add: asleep_flags_def isIdle_def)

text \<open>
  A job whose \<open>onExhausted\<close> fails is still buried: the failing transaction is rolled back, and if
  the attempt still holds its lease at the second try the job is dead with
  \<open>EXHAUSTED_HANDLER_FAILED\<close>, so no poll finds it again; the rest of the database is as it was.
\<close>

theorem failing_burial_still_buries:
  assumes "settleOrBury w m m' between lease (Exhausted e) (Some hook) db = (db', r)"
    and "hook db = Inl err" and "lockLeasedJob (m_clock m) lease (fst db) = Some row"
    and "lockLeasedJob (m_clock m') lease (fst (between db)) = Some row'"
    and "jobs_ok (fst (between db))" and "schedule_of w (row_kind row') = None"
  shows "r = Inr () \<and> snd db' = snd (between db) \<and>
    set (fst db') = insert (ended_row (m_now m') (End_Dead ''EXHAUSTED_HANDLER_FAILED''
      ''The last attempt failed and onExhausted failed after it'') row') (set (fst (between db)) - {row'})"
proof -
  have first: "settle w m lease (Exhausted e) (Some hook) db = (db, Inl err)"
    by (simp add: settle_def transaction_def assms(2,3) run_hook_def)
  have "settle w m' lease bury_without_handler None (between db) =
      ((endJobAttempt (m_now m') (row_id row') (outcome_ending bury_without_handler) (fst (between db)),
        snd (between db)), Inr True)"
    by (simp add: settle_def transaction_def assms(4) bury_without_handler_def on_jobs_def
        enqueueTickAfter_def assms(6))
  with first assms(1) have "r = Inr ()"
    "db' = (endJobAttempt (m_now m') (row_id row') (outcome_ending bury_without_handler) (fst (between db)),
      snd (between db))"
    by (auto simp: settleOrBury_def)
  then show ?thesis
    using set_endJobAttempt[OF assms(5) lockLeasedJob_Some(1)[OF assms(4)]]
    by (simp add: bury_without_handler_def del: ended_row.simps)
qed

lemma failing_burial_still_buries_witness:
  "snd (settleOrBury demo_worker demo_moment demo_moment id demo_lease (Exhausted End_Succeeded)
     (Some (\<lambda>_. Inl (Foreign_Error ''down''))) ([demo_running], ())) = Inr ()"
proof -
  let ?r = "settleOrBury demo_worker demo_moment demo_moment id demo_lease (Exhausted End_Succeeded)
     (Some (\<lambda>_. Inl (Foreign_Error ''down''))) ([demo_running], ())"
  have lock: "lockLeasedJob (m_clock demo_moment) demo_lease (fst (id ([demo_running], ()))) = Some demo_running"
    using demo_lock_worker by simp
  have ok: "jobs_ok (fst (id ([demo_running], ())))" using jobs_ok_demo_running by simp
  have none: "schedule_of demo_worker (row_kind demo_running) = None"
    by (simp add: schedule_of_def demo_worker_def)
  have "?r = (fst ?r, snd ?r)" by simp
  from failing_burial_still_buries[OF this refl demo_lock_worker lock ok none] show ?thesis by simp
qed

text \<open>
  A worker serves what it may and no more: its handlers are of different kinds, each of its
  schedules has a handler, no kind of a module that is off is among them, and a pass starts at most as
  many jobs of a kind as its free slots, all of that kind and instance, and none for a burial.
\<close>

theorem worker_serves_within_limits:
  assumes "createPostgresJobWorker inst newId handlers schedules modules = Inr w" and "h \<in> set (worker_handlers w)"
  shows "distinct (map (\<lambda>h. kind (handler_kind h)) (worker_handlers w)) \<and> served modules (kind (handler_kind h)) \<and>
    (\<forall>s \<in> set (worker_schedules w). \<exists>h \<in> set (worker_handlers w). kind (handler_kind h) = kind (sched_kind s)) \<and>
    (case pass_kind w now ms tokens locked env h active db of (db', active', rows) \<Rightarrow>
       (rows = [] \<or> of_nat (length rows) < free_slots h active + 1) \<and>
       (handler_slots h = 0 \<longrightarrow> rows = []) \<and>
       (jobs_ok (fst db) \<and> fresh_tokens tokens (fst db) \<longrightarrow>
          (\<forall>r \<in> set rows. \<exists>q \<in> set (fst db). row_id q = row_id r \<and> of_kind inst (kind (handler_kind h)) q)))"
proof -
  note made = createPostgresJobWorker_Inr[OF assms(1)]
  obtain db' active' rows where p: "pass_kind w now ms tokens locked env h active db = (db', active', rows)"
    by (metis prod_cases3)
  show ?thesis
    using made assms(2) pass_kind_rows[OF p] unfolding p by auto
qed

lemma worker_serves_within_limits_witness:
  "\<exists>w. createPostgresJobWorker ''ci'' ''worker_1'' [demo_handler] [] None = Inr w \<and> demo_handler \<in> set (worker_handlers w)
    \<and> distinct (map (\<lambda>h. kind (handler_kind h)) (worker_handlers w))"
proof -
  let ?w = "\<lparr> worker_instance = ''ci'', worker_id = ''worker_1'', worker_handlers = [demo_handler],
    worker_schedules = [] \<rparr>"
  have "createPostgresJobWorker ''ci'' ''worker_1'' [demo_handler] [] None = Inr ?w"
    by (simp add: createPostgresJobWorker_def served_def Let_def)
  with worker_serves_within_limits[OF this, of demo_handler] show ?thesis by auto
qed

end
