(* ===== verification/Permissions.thy ===== *)
theory Permissions imports Errors begin

text \<open>
  Rights (\<open>packages/core/src/permissions.ts\<close>): the four sources of what a holder may do, the one
  evaluation of an action on a resource, and the legacy permission keys with their resolver. Actions
  and keys are texts, as in the code. The refusals are those of
  \<open>packages/core/src/operation-denial.ts\<close>.
\<close>

section \<open>Denials\<close>

datatype refusal = No_Grant | Denied | Unknown_Action | Holder_Inactive

fun refusal_text :: "refusal \<Rightarrow> string" where
  "refusal_text No_Grant = ''no_grant''"
| "refusal_text Denied = ''denied''"
| "refusal_text Unknown_Action = ''unknown_action''"
| "refusal_text Holder_Inactive = ''holder_inactive''"

datatype operation_denial =
  Forbidden_Denial string refusal
| Policy_Denial string
| Guardrail_Denial string "string option"
| Declined_Denial string "string option"

fun operationDenialError :: "operation_denial \<Rightarrow> js_error" where
  "operationDenialError (Forbidden_Denial action reason) =
     app_error_with FORBIDDEN (''Missing the right '' @ quoted action)
       (JObj [(''action'', JStr action), (''reason'', JStr (refusal_text reason))])"
| "operationDenialError (Policy_Denial operation) =
     app_error_with POLICY_DENIED
       (''The instance's policy does not allow '' @ quoted operation @ '' from here'')
       (JObj [(''operation'', JStr operation)])"
| "operationDenialError (Guardrail_Denial guardrailId message) =
     app_error_with GUARDRAIL_BLOCKED
       (case message of Some m \<Rightarrow> m | None \<Rightarrow> ''A guardrail blocked the call'')
       (JObj [(''guardrailId'', JStr guardrailId)])"
| "operationDenialError (Declined_Denial by_whom comment) =
     app_error_with DECLINED ''The call was declined''
       (JObj ((''by'', JStr by_whom) # (case comment of None \<Rightarrow> [] | Some c \<Rightarrow> [(''comment'', JStr c)])))"

section \<open>Keys, actions and roles\<close>

definition PERMISSIONS :: "string list" where
  "PERMISSIONS =
     [''agent_skills.approve'', ''config_assets.read'', ''config_assets.write'',
      ''config_assets.release'', ''usage.view'', ''users.manage'', ''api_access.manage'',
      ''agent_models.manage'', ''audit.view'']"

definition ACTIONS :: "string list" where
  "ACTIONS =
     [''agent.read'', ''agent.write'', ''agent.delete'', ''skill.read'', ''skill.write'',
      ''skill.delete'', ''skill.approve'', ''users.manage'', ''usage.view'', ''audit.view'',
      ''api_access.manage'', ''agent_models.manage'', ''assets.release'']"

definition legacy_table :: "(string \<times> string list) list" where
  "legacy_table =
     [(''agent_skills.approve'', [''skill.approve'']),
      (''config_assets.read'', [''agent.read'', ''skill.read'']),
      (''config_assets.write'', [''agent.write'', ''agent.delete'', ''skill.write'', ''skill.delete'']),
      (''config_assets.release'', [''assets.release'']),
      (''usage.view'', [''usage.view'']),
      (''users.manage'', [''users.manage'']),
      (''api_access.manage'', [''api_access.manage'']),
      (''agent_models.manage'', [''agent_models.manage'']),
      (''audit.view'', [''audit.view''])]"

definition LEGACY_PERMISSION_ACTIONS :: "string \<Rightarrow> string list" where
  "LEGACY_PERMISSION_ACTIONS permission =
     (case map_of legacy_table permission of Some actions \<Rightarrow> actions | None \<Rightarrow> [])"

definition legacyPermissionFor :: "string \<Rightarrow> (js_error, string) result" where
  "legacyPermissionFor action =
     (case List.find (\<lambda>p. action \<in> set (LEGACY_PERMISSION_ACTIONS p)) PERMISSIONS of
        Some p \<Rightarrow> Inr p
      | None \<Rightarrow>
          Inl (app_error VALIDATION_FAILED (''No legacy permission for action '' @ quoted action)))"

definition isDefaultPermissionRole :: "string \<Rightarrow> bool" where
  "isDefaultPermissionRole role \<longleftrightarrow> role = ''user'' \<or> role = ''admin'' \<or> role = ''superadmin''"

definition ROLE_DEFAULT_ACTIONS :: "string \<Rightarrow> string list" where
  "ROLE_DEFAULT_ACTIONS role =
     (if role = ''admin'' then
        filter (\<lambda>a. a \<noteq> ''assets.release'' \<and> a \<noteq> ''api_access.manage'' \<and> a \<noteq> ''agent_models.manage'') ACTIONS
      else if role = ''superadmin'' then filter (\<lambda>a. a \<noteq> ''assets.release'') ACTIONS
      else [])"

definition legacyPermissionsFor :: "string list \<Rightarrow> string list" where
  "legacyPermissionsFor actions =
     filter (\<lambda>p. list_all (\<lambda>a. a \<in> set actions) (LEGACY_PERMISSION_ACTIONS p)) PERMISSIONS"

definition ROLE_DEFAULT_PERMISSIONS :: "string \<Rightarrow> string list" where
  "ROLE_DEFAULT_PERMISSIONS role = legacyPermissionsFor (ROLE_DEFAULT_ACTIONS role)"

definition isPermission :: "string \<Rightarrow> bool" where
  "isPermission p \<longleftrightarrow> p \<in> set PERMISSIONS"

definition isPlatformAction :: "string \<Rightarrow> bool" where
  "isPlatformAction a \<longleftrightarrow> a \<in> set ACTIONS"

definition GRANTABLE_ACTIONS :: "string list" where
  "GRANTABLE_ACTIONS =
     [''agent.read'', ''agent.write'', ''agent.delete'', ''skill.read'', ''skill.write'', ''skill.delete'']"

definition isGrantableAction :: "string \<Rightarrow> bool" where
  "isGrantableAction a \<longleftrightarrow> a \<in> set GRANTABLE_ACTIONS"

definition isSuperadmin :: "string list \<Rightarrow> bool" where
  "isSuperadmin roles \<longleftrightarrow> ''superadmin'' \<in> set roles"

section \<open>Grants, holders and resources\<close>

datatype holder_kind = User_Holder | Service_Principal_Holder | Role_Holder | Group_Holder
datatype effect = Allow | Deny
datatype scope_kind = Instance_Scope | Workspace_Scope | Namespace_Scope | Asset_Scope
datatype access_source = From_Role | From_Legacy | From_Legacy_Ref | From_Grant

record permission_grant =
  grant_id :: string
  grant_instance :: string
  grant_holderKind :: holder_kind
  grant_holderId :: string
  grant_action :: string
  grant_effect :: effect
  grant_scopeKind :: scope_kind
  grant_scopeId :: "string option"
  grant_namespace :: "string option"

record access_resource =
  res_kind :: "string option"
  res_name :: "string option"
  res_assetId :: "string option"
  res_workspaceId :: "string option"

datatype access_decision = Allowed access_source | Refused refusal

record persisted_access =
  holderActive :: bool
  grants :: "permission_grant list"

record access_holder =
  holder_kind :: holder_kind
  holder_id :: string
  holder_instance :: string
  holder_roles :: "string list"
  holder_permissions :: "string list"
  holder_permissionRefs :: "string list"

record access_entry =
  entry_action :: string
  entry_effect :: effect
  entry_scopeKind :: scope_kind
  entry_scopeId :: "string option"
  entry_namespace :: "string option"
  entry_source :: access_source

text \<open>
  An actor (\<open>packages/core/src/identity.ts\<close>): a service principal, a user, or a value of a kind the
  closed union does not have.
\<close>

record actor_record =
  actor_id :: string
  actor_instance :: string
  actor_roles :: "string list"
  actor_permissions :: "string list option"
  actor_permissionRefs :: "string list"

datatype authenticated_identity =
  Service_Principal_Actor actor_record | User_Actor actor_record | Unknown_Actor

fun accessHolderFromIdentity :: "authenticated_identity \<Rightarrow> (js_error, access_holder) result" where
  "accessHolderFromIdentity (Service_Principal_Actor a) =
     Inr \<lparr> holder_kind = Service_Principal_Holder, holder_id = actor_id a,
       holder_instance = actor_instance a, holder_roles = [],
       holder_permissions = (case actor_permissions a of Some ps \<Rightarrow> ps | None \<Rightarrow> []),
       holder_permissionRefs = actor_permissionRefs a \<rparr>"
| "accessHolderFromIdentity (User_Actor a) =
     Inr \<lparr> holder_kind = User_Holder, holder_id = actor_id a,
       holder_instance = actor_instance a, holder_roles = actor_roles a,
       holder_permissions = (case actor_permissions a of Some ps \<Rightarrow> ps | None \<Rightarrow> []),
       holder_permissionRefs = actor_permissionRefs a \<rparr>"
| "accessHolderFromIdentity Unknown_Actor = Inl (app_error FORBIDDEN ''Unknown actor kind'')"

section \<open>Entries\<close>

definition PERMISSION_REF_ACTION_PREFIX :: string where
  "PERMISSION_REF_ACTION_PREFIX = ''ref:''"

definition instance_entry :: "effect \<Rightarrow> access_source \<Rightarrow> string \<Rightarrow> access_entry" where
  "instance_entry eff src action =
     \<lparr> entry_action = action, entry_effect = eff, entry_scopeKind = Instance_Scope,
       entry_scopeId = None, entry_namespace = None, entry_source = src \<rparr>"

definition role_entries :: "string \<Rightarrow> access_entry list" where
  "role_entries role =
     (if isDefaultPermissionRole role
      then map (instance_entry Allow From_Role) (ROLE_DEFAULT_ACTIONS role) else [])"

text \<open>An entry of the legacy column: whether it is a revocation, and the key it names.\<close>

fun legacy_key :: "string \<Rightarrow> bool \<times> string" where
  "legacy_key (c # cs) = (if c = CHR ''!'' then (True, cs) else (False, c # cs))"
| "legacy_key [] = (False, [])"

definition legacy_entries :: "string \<Rightarrow> access_entry list" where
  "legacy_entries entry =
     (case legacy_key entry of (revoked, permission) \<Rightarrow>
        if isPermission permission
        then map (instance_entry (if revoked then Deny else Allow) From_Legacy)
          (LEGACY_PERMISSION_ACTIONS permission)
        else [])"

definition ref_entry :: "string \<Rightarrow> access_entry" where
  "ref_entry permissionRef =
     instance_entry Allow From_Legacy_Ref (PERMISSION_REF_ACTION_PREFIX @ permissionRef)"

definition grant_applies :: "access_holder \<Rightarrow> permission_grant \<Rightarrow> bool" where
  "grant_applies h g \<longleftrightarrow>
     grant_instance g = holder_instance h \<and>
     \<not> ((grant_holderKind g = User_Holder \<or> grant_holderKind g = Service_Principal_Holder) \<and>
        (grant_holderKind g \<noteq> holder_kind h \<or> grant_holderId g \<noteq> holder_id h)) \<and>
     isPlatformAction (grant_action g)"

definition grant_entry :: "permission_grant \<Rightarrow> access_entry" where
  "grant_entry g =
     \<lparr> entry_action = grant_action g, entry_effect = grant_effect g,
       entry_scopeKind = grant_scopeKind g, entry_scopeId = grant_scopeId g,
       entry_namespace = grant_namespace g, entry_source = From_Grant \<rparr>"

definition listAccessEntries :: "access_holder \<Rightarrow> persisted_access \<Rightarrow> access_entry list" where
  "listAccessEntries h persisted =
     concat (map role_entries (holder_roles h)) @
     concat (map legacy_entries (holder_permissions h)) @
     map ref_entry (holder_permissionRefs h) @
     map grant_entry (filter (grant_applies h) (grants persisted))"

definition entryCovers :: "access_entry \<Rightarrow> access_resource option \<Rightarrow> bool" where
  "entryCovers e resource =
     (case entry_scopeKind e of
        Instance_Scope \<Rightarrow> True
      | Namespace_Scope \<Rightarrow>
          (case (entry_namespace e, resource) of
             (Some ns, Some res) \<Rightarrow>
               ns \<noteq> [] \<and> res_workspaceId res = None \<and>
               (case res_name res of Some name \<Rightarrow> starts_with name ns | None \<Rightarrow> False)
           | _ \<Rightarrow> False)
      | Asset_Scope \<Rightarrow>
          entry_scopeId e \<noteq> None \<and>
          (case resource of Some res \<Rightarrow> res_assetId res = entry_scopeId e | None \<Rightarrow> False)
      | Workspace_Scope \<Rightarrow>
          entry_scopeId e \<noteq> None \<and>
          (case resource of Some res \<Rightarrow> res_workspaceId res = entry_scopeId e | None \<Rightarrow> False))"

section \<open>Decisions\<close>

definition covering :: "access_entry list \<Rightarrow> string \<Rightarrow> access_resource option \<Rightarrow> access_entry list" where
  "covering entries action resource =
     filter (\<lambda>e. entry_action e = action \<and> entryCovers e resource) entries"

definition explainAccessEntries ::
    "access_entry list \<Rightarrow> string \<Rightarrow> access_resource option \<Rightarrow> access_decision \<times> access_entry option" where
  "explainAccessEntries entries action resource =
     (case List.find (\<lambda>e. entry_effect e = Deny) (covering entries action resource) of
        Some deny \<Rightarrow> (Refused Denied, Some deny)
      | None \<Rightarrow>
          (case List.find (\<lambda>e. entry_effect e = Allow) (covering entries action resource) of
             Some allow \<Rightarrow> (Allowed (entry_source allow), Some allow)
           | None \<Rightarrow> (Refused No_Grant, None)))"

definition evaluateRegisteredAction ::
    "access_entry list \<Rightarrow> string \<Rightarrow> access_resource option \<Rightarrow> access_decision" where
  "evaluateRegisteredAction entries action resource =
     fst (explainAccessEntries entries action resource)"

text \<open>
  The loop over the actions of a legacy key, with the first allowance and the first refusal so far.
\<close>

fun evaluate_key ::
    "access_entry list \<Rightarrow> access_decision option \<Rightarrow> access_decision option \<Rightarrow> string list \<Rightarrow> access_decision" where
  "evaluate_key entries allowed refused [] =
     (case refused of
        Some d \<Rightarrow> d
      | None \<Rightarrow> (case allowed of Some d \<Rightarrow> d | None \<Rightarrow> Refused No_Grant))"
| "evaluate_key entries allowed refused (target # targets) =
     (let d = evaluateRegisteredAction entries target None in
      case d of
        Allowed _ \<Rightarrow>
          evaluate_key entries (if allowed = None then Some d else allowed) refused targets
      | Refused r \<Rightarrow>
          if r = Denied then d
          else evaluate_key entries allowed (if refused = None then Some d else refused) targets)"

definition evaluateAccess ::
    "access_holder \<Rightarrow> persisted_access \<Rightarrow> string \<Rightarrow> access_resource option \<Rightarrow> access_decision" where
  "evaluateAccess h persisted action resource =
     (if \<not> holderActive persisted then Refused Holder_Inactive
      else
        (let entries = listAccessEntries h persisted;
             granting = filter (\<lambda>e. entry_source e \<noteq> From_Legacy_Ref) entries
         in
          if starts_with action PERMISSION_REF_ACTION_PREFIX then
            (if list_ex (\<lambda>e. entry_source e = From_Legacy_Ref \<and> entry_action e = action) entries
             then Allowed From_Legacy_Ref else Refused No_Grant)
          else if isPermission action then
            evaluate_key granting None None (LEGACY_PERMISSION_ACTIONS action)
          else if isPlatformAction action then evaluateRegisteredAction granting action resource
          else Refused Unknown_Action))"

fun is_allowed :: "access_decision \<Rightarrow> bool" where
  "is_allowed (Allowed _) = True"
| "is_allowed (Refused _) = False"

definition require_access ::
    "access_holder \<Rightarrow> persisted_access \<Rightarrow> string \<Rightarrow> access_resource option \<Rightarrow> (js_error, unit) result" where
  "require_access h persisted action resource =
     (case evaluateAccess h persisted action resource of
        Allowed _ \<Rightarrow> Inr ()
      | Refused reason \<Rightarrow> Inl (operationDenialError (Forbidden_Denial action reason)))"

text \<open>
  \<open>createAuthorizer\<close>: one load of the persisted state per actor; without a store, no rows and an
  active holder.
\<close>

definition forActor ::
    "(string \<Rightarrow> holder_kind \<Rightarrow> string \<Rightarrow> (js_error, persisted_access) result) option \<Rightarrow>
      authenticated_identity \<Rightarrow> (js_error, access_holder \<times> persisted_access) result" where
  "forActor store actor =
     bind_result (accessHolderFromIdentity actor) (\<lambda>h.
     bind_result
       (case store of
          Some load \<Rightarrow> load (holder_instance h) (holder_kind h) (holder_id h)
        | None \<Rightarrow> Inr \<lparr> holderActive = True, grants = [] \<rparr>) (\<lambda>persisted.
     Inr (h, persisted)))"

definition allowedLegacyPermissions :: "access_holder \<Rightarrow> persisted_access \<Rightarrow> string list" where
  "allowedLegacyPermissions h persisted =
     filter (\<lambda>p. is_allowed (evaluateAccess h persisted p None)) PERMISSIONS"

section \<open>The legacy resolver\<close>

definition resolveEffectivePermissions :: "string list \<Rightarrow> string list \<Rightarrow> string set" where
  "resolveEffectivePermissions roles permissions =
     (let effective =
        (\<Union>role \<in> set (filter isDefaultPermissionRole roles). set (ROLE_DEFAULT_PERMISSIONS role)) \<union>
        set (filter isPermission (map snd (filter (\<lambda>k. \<not> fst k) (map legacy_key permissions))));
          revocations = set (filter isPermission (map snd (filter fst (map legacy_key permissions))))
      in effective - revocations)"

definition hasPermission :: "string list \<Rightarrow> string list \<Rightarrow> string \<Rightarrow> bool" where
  "hasPermission roles permissions p \<longleftrightarrow> p \<in> resolveEffectivePermissions roles permissions"

definition requirePermission :: "string list \<Rightarrow> string list \<Rightarrow> string \<Rightarrow> (js_error, unit) result" where
  "requirePermission roles permissions p =
     (if hasPermission roles permissions p then Inr ()
      else Inl (app_error FORBIDDEN (''Missing permission '' @ quoted p)))"

definition permission_scopes :: "(string \<times> string) list" where
  "permission_scopes =
     [(''config_assets.read'', ''config_assets:read''), (''config_assets.write'', ''config_assets:write''),
      (''config_assets.release'', ''config_assets:release''), (''usage.view'', ''governance:read''),
      (''users.manage'', ''user_admin:write''), (''api_access.manage'', ''api_access:write''),
      (''audit.view'', ''governance:read'')]"

definition authScopeForPermission :: "string \<Rightarrow> string option" where
  "authScopeForPermission p = map_of permission_scopes p"

definition permissionForAuthScope :: "string \<Rightarrow> string option" where
  "permissionForAuthScope scope =
     List.find (\<lambda>p. authScopeForPermission p = Some scope) PERMISSIONS"

end
