(* ===== verification/Permission_Facts.thy ===== *)
theory Permission_Facts imports Permissions begin

text \<open>
  What the evaluation of rights guarantees: who is allowed, in terms of the entries that cover; how
  grant rows move a decision; and that the evaluator and the legacy resolver agree on the keys.
\<close>

section \<open>Tables\<close>

lemma legacy_actions_disjoint:
  "list_all (\<lambda>p. list_all (\<lambda>q. list_all (\<lambda>a. a \<in> set (LEGACY_PERMISSION_ACTIONS q) \<longrightarrow> p = q)
     (LEGACY_PERMISSION_ACTIONS p)) PERMISSIONS) PERMISSIONS"
  by code_simp

lemma legacy_actions_nonempty:
  "list_all (\<lambda>p. LEGACY_PERMISSION_ACTIONS p \<noteq> [] \<and> list_all isPlatformAction (LEGACY_PERMISSION_ACTIONS p)) PERMISSIONS"
  by code_simp

lemma role_keys:
  "list_all (\<lambda>role. list_all (\<lambda>p. list_all (\<lambda>a.
     a \<in> set (ROLE_DEFAULT_ACTIONS role) \<longleftrightarrow> p \<in> set (ROLE_DEFAULT_PERMISSIONS role))
     (LEGACY_PERMISSION_ACTIONS p)) PERMISSIONS) [''user'', ''admin'', ''superadmin'']"
  by code_simp

lemma key_not_ref: "list_all (\<lambda>p. \<not> starts_with p PERMISSION_REF_ACTION_PREFIX) PERMISSIONS"
  by code_simp

lemma key_actions:
  assumes "isPermission p"
  shows key_actions_nonempty: "LEGACY_PERMISSION_ACTIONS p \<noteq> []"
    and key_is_not_ref: "\<not> starts_with p PERMISSION_REF_ACTION_PREFIX"
    and key_actions_known: "a \<in> set (LEGACY_PERMISSION_ACTIONS p) \<Longrightarrow> isPlatformAction a"
    and key_of_action: "isPermission q \<Longrightarrow> a \<in> set (LEGACY_PERMISSION_ACTIONS p) \<Longrightarrow>
      a \<in> set (LEGACY_PERMISSION_ACTIONS q) \<longleftrightarrow> p = q"
    and key_of_role: "isDefaultPermissionRole role \<Longrightarrow> a \<in> set (LEGACY_PERMISSION_ACTIONS p) \<Longrightarrow>
      a \<in> set (ROLE_DEFAULT_ACTIONS role) \<longleftrightarrow> p \<in> set (ROLE_DEFAULT_PERMISSIONS role)"
  using assms legacy_actions_disjoint legacy_actions_nonempty role_keys key_not_ref
  unfolding isPermission_def isDefaultPermissionRole_def list_all_iff by auto

section \<open>Decisions over entries\<close>

definition some_covers :: "access_entry set \<Rightarrow> effect \<Rightarrow> string \<Rightarrow> access_resource option \<Rightarrow> bool" where
  "some_covers es eff action resource \<longleftrightarrow>
     (\<exists>e \<in> es. entry_effect e = eff \<and> entry_action e = action \<and> entryCovers e resource)"

lemma find_covering:
  "List.find (\<lambda>e. entry_effect e = eff) (covering es action resource) = None \<longleftrightarrow>
    \<not> some_covers (set es) eff action resource"
  by (auto simp: find_None_iff covering_def some_covers_def)

lemma registered_denied:
  "evaluateRegisteredAction es action resource = Refused Denied \<longleftrightarrow> some_covers (set es) Deny action resource"
  using find_covering[of Deny es action resource]
  by (auto simp: evaluateRegisteredAction_def explainAccessEntries_def split: option.splits)

lemma registered_allowed:
  "is_allowed (evaluateRegisteredAction es action resource) \<longleftrightarrow>
    some_covers (set es) Allow action resource \<and> \<not> some_covers (set es) Deny action resource"
  using find_covering[of Deny es action resource] find_covering[of Allow es action resource]
  by (auto simp: evaluateRegisteredAction_def explainAccessEntries_def split: option.splits)

lemma evaluate_key_allowed:
  "allowed = None \<or> (\<exists>d. allowed = Some d \<and> is_allowed d) \<Longrightarrow>
    refused = None \<or> (\<exists>d. refused = Some d \<and> \<not> is_allowed d) \<Longrightarrow>
    is_allowed (evaluate_key es allowed refused targets) \<longleftrightarrow>
      refused = None \<and> (allowed \<noteq> None \<or> targets \<noteq> []) \<and>
      (\<forall>t \<in> set targets. is_allowed (evaluateRegisteredAction es t None))"
proof (induction es allowed refused targets rule: evaluate_key.induct)
  case (1 es allowed refused)
  then show ?case by auto
next
  case (2 es allowed refused target targets)
  show ?case
  proof (cases "evaluateRegisteredAction es target None")
    case (Allowed src)
    then show ?thesis using 2 by (cases allowed) auto
  next
    case (Refused r)
    then show ?thesis using 2 by (cases refused) (auto simp: Let_def)
  qed
qed

text \<open>The entries that count for an action: all but the references.\<close>

definition granting :: "access_holder \<Rightarrow> persisted_access \<Rightarrow> access_entry set" where
  "granting h persisted = {e \<in> set (listAccessEntries h persisted). entry_source e \<noteq> From_Legacy_Ref}"

definition permitted :: "access_holder \<Rightarrow> persisted_access \<Rightarrow> string \<Rightarrow> access_resource option \<Rightarrow> bool" where
  "permitted h persisted action resource \<longleftrightarrow>
     some_covers (granting h persisted) Allow action resource \<and>
     \<not> some_covers (granting h persisted) Deny action resource"

lemma entry_sources:
  "e \<in> set (role_entries r) \<Longrightarrow> entry_source e = From_Role"
  "e \<in> set (legacy_entries r) \<Longrightarrow> entry_source e = From_Legacy"
  "entry_source (ref_entry r) = From_Legacy_Ref" "entry_source (grant_entry g) = From_Grant"
  by (auto simp: role_entries_def legacy_entries_def instance_entry_def ref_entry_def grant_entry_def
      split: if_splits prod.splits)

lemma granting_entries:
  "granting h persisted =
    (\<Union>r \<in> set (holder_roles h). set (role_entries r)) \<union>
    (\<Union>p \<in> set (holder_permissions h). set (legacy_entries p)) \<union>
    grant_entry ` {g \<in> set (grants persisted). grant_applies h g}"
  by (auto simp: granting_def listAccessEntries_def entry_sources)

lemma ref_entries:
  "list_ex (\<lambda>e. entry_source e = From_Legacy_Ref \<and> entry_action e = action) (listAccessEntries h persisted) \<longleftrightarrow>
    (\<exists>r \<in> set (holder_permissionRefs h). action = PERMISSION_REF_ACTION_PREFIX @ r)"
proof -
  have ref: "entry_action (ref_entry r) = PERMISSION_REF_ACTION_PREFIX @ r" for r
    by (simp add: ref_entry_def instance_entry_def)
  have "{e \<in> set (listAccessEntries h persisted). entry_source e = From_Legacy_Ref} =
      ref_entry ` set (holder_permissionRefs h)"
    by (auto simp: listAccessEntries_def entry_sources(3,4) dest: entry_sources(1,2))
  then have "(\<exists>e. e \<in> set (listAccessEntries h persisted) \<and> entry_source e = From_Legacy_Ref \<and> entry_action e = action)
      \<longleftrightarrow> (\<exists>e \<in> ref_entry ` set (holder_permissionRefs h). entry_action e = action)"
    by blast
  then show ?thesis unfolding list_ex_iff using ref by (auto simp: Bex_def)
qed

lemma evaluateAccess_allowed:
  "is_allowed (evaluateAccess h persisted action resource) \<longleftrightarrow>
    holderActive persisted \<and>
    (if starts_with action PERMISSION_REF_ACTION_PREFIX then
       (\<exists>r \<in> set (holder_permissionRefs h). action = PERMISSION_REF_ACTION_PREFIX @ r)
     else if isPermission action then
       (\<forall>t \<in> set (LEGACY_PERMISSION_ACTIONS action). permitted h persisted t None)
     else isPlatformAction action \<and> permitted h persisted action resource)"
proof -
  let ?es = "filter (\<lambda>e. entry_source e \<noteq> From_Legacy_Ref) (listAccessEntries h persisted)"
  have es: "set ?es = granting h persisted" by (auto simp: granting_def)
  have key: "is_allowed (evaluate_key ?es None None (LEGACY_PERMISSION_ACTIONS action)) \<longleftrightarrow>
      (\<forall>t \<in> set (LEGACY_PERMISSION_ACTIONS action). permitted h persisted t None)" if "isPermission action"
    using evaluate_key_allowed[of None None ?es "LEGACY_PERMISSION_ACTIONS action"] key_actions_nonempty[OF that]
    unfolding registered_allowed es permitted_def by simp
  have reg: "is_allowed (evaluateRegisteredAction ?es action resource) \<longleftrightarrow> permitted h persisted action resource"
    unfolding registered_allowed es permitted_def ..
  show ?thesis
    using key reg by (auto simp: evaluateAccess_def Let_def ref_entries)
qed

section \<open>Grant rows\<close>

lemma permitted_mono:
  assumes "\<And>e. e \<in> granting h p \<Longrightarrow> entry_effect e = Allow \<Longrightarrow> e \<in> granting h p'"
    and "\<And>e. e \<in> granting h p' \<Longrightarrow> entry_effect e = Deny \<Longrightarrow> e \<in> granting h p"
  shows "permitted h p action resource \<Longrightarrow> permitted h p' action resource"
  using assms unfolding permitted_def some_covers_def by blast

lemma allowed_mono:
  assumes "\<And>a r. permitted h p a r \<Longrightarrow> permitted h p' a r" and "holderActive p' = holderActive p"
  shows "is_allowed (evaluateAccess h p action resource) \<Longrightarrow> is_allowed (evaluateAccess h p' action resource)"
  using assms unfolding evaluateAccess_allowed by (auto split: if_splits)

lemma granting_grants:
  "granting h (p\<lparr>grants := gs\<rparr>) = granting h (p\<lparr>grants := []\<rparr>) \<union> grant_entry ` {g \<in> set gs. grant_applies h g}"
  by (auto simp: granting_entries)

lemma grant_entry_effect [simp]: "entry_effect (grant_entry g) = grant_effect g"
  by (simp add: grant_entry_def)

section \<open>The legacy keys\<close>

lemma resolved_permissions:
  "resolveEffectivePermissions roles permissions =
    (\<Union>role \<in> set (filter isDefaultPermissionRole roles). set (ROLE_DEFAULT_PERMISSIONS role)) \<union>
      {p. (False, p) \<in> set (map legacy_key permissions) \<and> isPermission p}
    - {p. (True, p) \<in> set (map legacy_key permissions) \<and> isPermission p}"
proof -
  have "set (filter isPermission (map snd (filter fst ks))) = {p. (True, p) \<in> set ks \<and> isPermission p}"
    "set (filter isPermission (map snd (filter (\<lambda>k. \<not> fst k) ks))) = {p. (False, p) \<in> set ks \<and> isPermission p}" for ks
    by force+
  then show ?thesis unfolding resolveEffectivePermissions_def Let_def by (simp only:)
qed

lemma covers_instance [simp]: "entryCovers (instance_entry eff src a) resource"
  by (simp add: entryCovers_def instance_entry_def)

lemma instance_entry_sel [simp]:
  "entry_action (instance_entry eff src a) = a" "entry_effect (instance_entry eff src a) = eff"
  by (simp_all add: instance_entry_def)

lemma role_entries_cover:
  "(\<exists>e \<in> set (role_entries r). entry_effect e = eff \<and> entry_action e = a \<and> entryCovers e resource) \<longleftrightarrow>
    eff = Allow \<and> isDefaultPermissionRole r \<and> a \<in> set (ROLE_DEFAULT_ACTIONS r)"
  by (auto simp: role_entries_def)

lemma legacy_entries_cover:
  "(\<exists>e \<in> set (legacy_entries s). entry_effect e = eff \<and> entry_action e = a \<and> entryCovers e resource) \<longleftrightarrow>
    (\<exists>p. legacy_key s = (eff = Deny, p) \<and> isPermission p \<and> a \<in> set (LEGACY_PERMISSION_ACTIONS p))"
  by (cases "legacy_key s"; cases eff) (auto simp: legacy_entries_def)

lemma some_covers_Un: "some_covers (A \<union> B) eff a r \<longleftrightarrow> some_covers A eff a r \<or> some_covers B eff a r"
  by (auto simp: some_covers_def)

lemma some_covers_UN: "some_covers (\<Union>x \<in> A. f x) eff a r \<longleftrightarrow> (\<exists>x \<in> A. some_covers (f x) eff a r)"
  by (auto simp: some_covers_def)

lemma some_covers_own:
  "some_covers (granting h \<lparr>holderActive = b, grants = []\<rparr>) eff a resource \<longleftrightarrow>
    (\<exists>r \<in> set (holder_roles h). eff = Allow \<and> isDefaultPermissionRole r \<and> a \<in> set (ROLE_DEFAULT_ACTIONS r)) \<or>
    (\<exists>s \<in> set (holder_permissions h). \<exists>p. legacy_key s = (eff = Deny, p) \<and> isPermission p \<and>
      a \<in> set (LEGACY_PERMISSION_ACTIONS p))"
  unfolding granting_entries some_covers_Un some_covers_UN
  unfolding some_covers_def role_entries_cover legacy_entries_cover by simp

lemma permitted_key:
  assumes p: "isPermission p" and a: "a \<in> set (LEGACY_PERMISSION_ACTIONS p)"
  shows "permitted h \<lparr>holderActive = True, grants = []\<rparr> a resource \<longleftrightarrow>
    hasPermission (holder_roles h) (holder_permissions h) p"
proof -
  have legacy: "(\<exists>s \<in> set (holder_permissions h). \<exists>q. legacy_key s = (b, q) \<and> isPermission q \<and>
      a \<in> set (LEGACY_PERMISSION_ACTIONS q)) \<longleftrightarrow> (b, p) \<in> set (map legacy_key (holder_permissions h))" for b
    using key_of_action[OF p _ a] p unfolding set_map image_iff by metis
  have role: "(\<exists>r \<in> set (holder_roles h). isDefaultPermissionRole r \<and> a \<in> set (ROLE_DEFAULT_ACTIONS r)) \<longleftrightarrow>
      (\<exists>r \<in> set (holder_roles h). isDefaultPermissionRole r \<and> p \<in> set (ROLE_DEFAULT_PERMISSIONS r))"
    using key_of_role[OF p _ a] by blast
  show ?thesis
    unfolding permitted_def some_covers_own
    using legacy[of False] legacy[of True] role p
    by (auto simp: hasPermission_def resolved_permissions Let_def)
qed

section \<open>The promises\<close>

definition demo_holder :: access_holder where
  "demo_holder =
     \<lparr> holder_kind = User_Holder, holder_id = ''u1'', holder_instance = ''ci'',
       holder_roles = [''user''], holder_permissions = [''usage.view''], holder_permissionRefs = [''crm''] \<rparr>"

definition demo_grant :: "effect \<Rightarrow> permission_grant" where
  "demo_grant eff =
     \<lparr> grant_id = ''g1'', grant_instance = ''ci'', grant_holderKind = User_Holder, grant_holderId = ''u1'',
       grant_action = ''agent.read'', grant_effect = eff, grant_scopeKind = Namespace_Scope,
       grant_scopeId = None, grant_namespace = Some ''sales-'' \<rparr>"

definition demo_asset :: access_resource where
  "demo_asset = \<lparr> res_kind = Some ''agent'', res_name = Some ''sales-bot'', res_assetId = None, res_workspaceId = None \<rparr>"

text \<open>
  C6. Who is allowed: nobody whose account is inactive; a reference exactly for those whose own list
  names it; a legacy key exactly when each of its actions is allowed on the whole instance; another
  registered action exactly when an entry allows it that covers the resource and no covering entry
  denies it, and a covering deny is what the refusal says; any other action for nobody.
\<close>

theorem access_is_decided_by_the_entries:
  shows "(is_allowed (evaluateAccess h persisted action resource) \<longleftrightarrow>
      holderActive persisted \<and>
      (if starts_with action PERMISSION_REF_ACTION_PREFIX then
         (\<exists>r \<in> set (holder_permissionRefs h). action = PERMISSION_REF_ACTION_PREFIX @ r)
       else if isPermission action then
         (\<forall>t \<in> set (LEGACY_PERMISSION_ACTIONS action). permitted h persisted t None)
       else isPlatformAction action \<and> permitted h persisted action resource)) \<and>
    (holderActive persisted \<and> isPlatformAction action \<and> \<not> isPermission action \<and>
       \<not> starts_with action PERMISSION_REF_ACTION_PREFIX \<longrightarrow>
     (evaluateAccess h persisted action resource = Refused Denied \<longleftrightarrow>
        some_covers (granting h persisted) Deny action resource)) \<and>
    (require_access h persisted action resource = Inr () \<longleftrightarrow>
       is_allowed (evaluateAccess h persisted action resource))"
proof -
  let ?es = "filter (\<lambda>e. entry_source e \<noteq> From_Legacy_Ref) (listAccessEntries h persisted)"
  have es: "set ?es = granting h persisted" by (auto simp: granting_def)
  have "evaluateRegisteredAction ?es action resource = Refused Denied \<longleftrightarrow>
      some_covers (granting h persisted) Deny action resource"
    unfolding registered_denied es ..
  moreover have "require_access h persisted action resource = Inr () \<longleftrightarrow>
      is_allowed (evaluateAccess h persisted action resource)"
    by (auto simp: require_access_def split: access_decision.splits)
  ultimately show ?thesis
    unfolding evaluateAccess_allowed by (simp add: evaluateAccess_def Let_def)
qed

lemma access_is_decided_by_the_entries_witness:
  "evaluateAccess demo_holder \<lparr>holderActive = True, grants = [demo_grant Deny]\<rparr> ''agent.read'' (Some demo_asset)
     = Refused Denied"
proof -
  have "some_covers (granting demo_holder \<lparr>holderActive = True, grants = [demo_grant Deny]\<rparr>) Deny
      ''agent.read'' (Some demo_asset)"
    unfolding granting_entries some_covers_Un
    by (simp add: some_covers_def demo_grant_def demo_holder_def grant_applies_def grant_entry_def
        isPlatformAction_def ACTIONS_def entryCovers_def demo_asset_def)
  moreover have "isPlatformAction ''agent.read'' \<and> \<not> isPermission ''agent.read'' \<and>
      \<not> starts_with ''agent.read'' PERMISSION_REF_ACTION_PREFIX"
    by code_simp
  ultimately show ?thesis
    using access_is_decided_by_the_entries[of demo_holder
        "\<lparr>holderActive = True, grants = [demo_grant Deny]\<rparr>" "''agent.read''" "Some demo_asset"] by simp
qed

text \<open>
  Grant rows move a decision only their way: adding deny rows never allows what was refused,
  adding allow rows never refuses what was allowed, and rows of another instance, of another holder or
  of an unknown action change no decision at all.
\<close>

lemma grants_are_monotone:
  assumes "\<forall>g \<in> set denies. grant_effect g = Deny" and "\<forall>g \<in> set allows. grant_effect g = Allow"
    and "\<forall>g \<in> set foreign. \<not> grant_applies h g"
  shows "(is_allowed (evaluateAccess h (p\<lparr>grants := gs @ denies\<rparr>) action resource) \<longrightarrow>
      is_allowed (evaluateAccess h (p\<lparr>grants := gs\<rparr>) action resource)) \<and>
    (is_allowed (evaluateAccess h (p\<lparr>grants := gs\<rparr>) action resource) \<longrightarrow>
      is_allowed (evaluateAccess h (p\<lparr>grants := gs @ allows\<rparr>) action resource)) \<and>
    evaluateAccess h (p\<lparr>grants := gs @ foreign\<rparr>) action resource =
      evaluateAccess h (p\<lparr>grants := gs\<rparr>) action resource"
proof -
  have rows: "granting h (p\<lparr>grants := gs @ more\<rparr>) =
      granting h (p\<lparr>grants := gs\<rparr>) \<union> grant_entry ` {g \<in> set more. grant_applies h g}" for more
    unfolding granting_entries by auto
  have deny: "permitted h (p\<lparr>grants := gs @ denies\<rparr>) a r \<Longrightarrow> permitted h (p\<lparr>grants := gs\<rparr>) a r" for a r
    by (erule permitted_mono[rotated 2]) (use assms(1) in \<open>auto simp: rows\<close>)
  have allow: "permitted h (p\<lparr>grants := gs\<rparr>) a r \<Longrightarrow> permitted h (p\<lparr>grants := gs @ allows\<rparr>) a r" for a r
    by (erule permitted_mono[rotated 2]) (use assms(2) in \<open>auto simp: rows\<close>)
  have "filter (grant_applies h) (gs @ foreign) = filter (grant_applies h) gs"
    using assms(3) by (simp add: filter_empty_conv)
  then have "evaluateAccess h (p\<lparr>grants := gs @ foreign\<rparr>) action resource =
      evaluateAccess h (p\<lparr>grants := gs\<rparr>) action resource"
    by (simp add: evaluateAccess_def listAccessEntries_def)
  moreover have "is_allowed (evaluateAccess h (p\<lparr>grants := gs @ denies\<rparr>) action resource) \<Longrightarrow>
      is_allowed (evaluateAccess h (p\<lparr>grants := gs\<rparr>) action resource)"
    by (rule allowed_mono[OF deny]) simp_all
  moreover have "is_allowed (evaluateAccess h (p\<lparr>grants := gs\<rparr>) action resource) \<Longrightarrow>
      is_allowed (evaluateAccess h (p\<lparr>grants := gs @ allows\<rparr>) action resource)"
    by (rule allowed_mono[OF allow]) simp_all
  ultimately show ?thesis by blast
qed

lemma grants_are_monotone_witness:
  "evaluateAccess demo_holder \<lparr>holderActive = True,
      grants = [demo_grant Deny, (demo_grant Allow)\<lparr>grant_holderId := ''u2''\<rparr>]\<rparr> ''agent.read'' (Some demo_asset) =
    evaluateAccess demo_holder \<lparr>holderActive = True, grants = [demo_grant Deny]\<rparr> ''agent.read'' (Some demo_asset)"
proof -
  have "\<not> grant_applies demo_holder ((demo_grant Allow)\<lparr>grant_holderId := ''u2''\<rparr>)"
    by (simp add: grant_applies_def demo_holder_def demo_grant_def)
  then show ?thesis
    using grants_are_monotone[where denies = "[demo_grant Deny]" and allows = "[demo_grant Allow]"
        and foreign = "[(demo_grant Allow)\<lparr>grant_holderId := ''u2''\<rparr>]"
        and h = demo_holder and p = "\<lparr>holderActive = True, grants = []\<rparr>" and gs = "[demo_grant Deny]"
        and action = "''agent.read''" and resource = "Some demo_asset"]
    by (simp add: demo_grant_def)
qed

text \<open>
  Two resolvers, one answer: for a holder without grant rows, the evaluation of a legacy key and
  the legacy resolver \<open>resolveEffectivePermissions\<close> agree on every key, and so does the list that is
  shown to a caller.
\<close>

lemma legacy_resolver_agrees:
  assumes "isPermission key"
  shows "is_allowed (evaluateAccess h \<lparr>holderActive = True, grants = []\<rparr> key resource) =
      hasPermission (holder_roles h) (holder_permissions h) key \<and>
    set (allowedLegacyPermissions h \<lparr>holderActive = True, grants = []\<rparr>) =
      resolveEffectivePermissions (holder_roles h) (holder_permissions h)"
proof -
  have agree: "is_allowed (evaluateAccess h \<lparr>holderActive = True, grants = []\<rparr> k res) =
      hasPermission (holder_roles h) (holder_permissions h) k" if k: "isPermission k" for k res
    unfolding evaluateAccess_allowed
    using key_is_not_ref[OF k] key_actions_nonempty[OF k] permitted_key[OF k] k
    by (cases "LEGACY_PERMISSION_ACTIONS k") (simp_all, blast)
  have keys: "resolveEffectivePermissions (holder_roles h) (holder_permissions h) \<subseteq> set PERMISSIONS"
    by (auto simp: resolved_permissions Let_def isPermission_def ROLE_DEFAULT_PERMISSIONS_def
        legacyPermissionsFor_def)
  have "set (allowedLegacyPermissions h \<lparr>holderActive = True, grants = []\<rparr>) =
      {k \<in> set PERMISSIONS. hasPermission (holder_roles h) (holder_permissions h) k}"
    unfolding allowedLegacyPermissions_def set_filter using agree by (auto simp: isPermission_def)
  then show ?thesis
    using agree[OF assms] keys by (auto simp: hasPermission_def)
qed

lemma legacy_resolver_agrees_witness:
  "is_allowed (evaluateAccess demo_holder \<lparr>holderActive = True, grants = []\<rparr> ''usage.view'' None)"
proof -
  have "isPermission ''usage.view'' \<and>
      legacy_key ''usage.view'' = (False, ''usage.view'')"
    by code_simp
  then show ?thesis
    using legacy_resolver_agrees[of "''usage.view''" demo_holder None]
    by (simp add: hasPermission_def resolved_permissions Let_def demo_holder_def)
qed

end
