(* ===== verification/Usage_Cost.thy ===== *)
theory Usage_Cost imports Errors begin

text \<open>
  What a model call costs (\<open>packages/usage-governance/src/cost.ts\<close>): the rates that apply, the
  components of a cost in millionths of the currency, and the meters that are missing when a cost
  cannot be settled. The data is that of \<open>packages/core/src/usage.ts\<close>.
\<close>

section \<open>Numbers\<close>

text \<open>A number a provider or a caller reports may be no finite number.\<close>

datatype js_number = Finite rat | Not_Finite

definition js_trunc :: "rat \<Rightarrow> int" where
  "js_trunc x = (if 0 \<le> x then \<lfloor>x\<rfloor> else \<lceil>x\<rceil>)"

fun normalizeCount :: "js_number \<Rightarrow> int" where
  "normalizeCount (Finite x) = max 0 (js_trunc x)"
| "normalizeCount Not_Finite = 0"

text \<open>\<open>Math.round\<close>: halves go up.\<close>

definition js_round :: "rat \<Rightarrow> int" where
  "js_round x = \<lfloor>x + 1 / 2\<rfloor>"

definition whole :: "int \<Rightarrow> js_number" where
  "whole n = Finite (of_int n)"

definition priceTokens :: "js_number \<Rightarrow> rat \<Rightarrow> int" where
  "priceTokens tokens price = js_round (of_int (normalizeCount tokens) * price)"

section \<open>Rates\<close>

record token_rates =
  uncachedPrice :: rat
  cachedPrice :: rat
  outputPrice :: rat

record model_rate =
  rate_provider :: string
  rate_model :: string
  rate_normal :: token_rates
  rate_fast :: "token_rates option"

record web_search_rate =
  web_provider :: string
  web_model :: "string option"
  pricePerCall :: rat

record rate_card =
  card_id :: string
  card_version :: string
  card_currency :: string
  card_models :: "model_rate list"
  card_webSearch :: "web_search_rate list option"

datatype usage_source = Provider_Reported | Not_Reported | Estimated

text \<open>
  The event a cost is settled from. The cached tokens and the web searches are counts the callers
  normalized.
\<close>

record usage_cost_event =
  uce_provider :: string
  uce_model :: string
  uce_input :: js_number
  uce_cached :: "int option"
  uce_output :: js_number
  uce_source :: usage_source
  uce_webSearches :: "int option"
  uce_fastMode :: "bool option"
  uce_tier :: "string option"

definition isBilledAsFast :: "bool option \<Rightarrow> string option \<Rightarrow> bool" where
  "isBilledAsFast fastMode tier \<longleftrightarrow>
     fastMode = Some True \<and> (tier = None \<or> tier = Some ''priority'')"

section \<open>Records of a cost\<close>

datatype cost_source = Rate_Card | Backfilled | Provider_Reconciled

datatype missing_meter =
  Missing_Token_Usage | Missing_Cached_Tokens | Missing_Model_Rate | Missing_Fast_Rate
| Missing_Web_Search_Rate

record cost_components =
  uncachedCost :: int
  cachedCost :: int
  outputCost :: int
  webSearchCost :: int

record cost_provenance =
  prov_source :: cost_source
  prov_card :: string
  prov_version :: string
  prov_currency :: string
  prov_rates :: token_rates
  prov_webSearch :: "rat option"

text \<open>
  A cost without any rate names the card it was looked for on, when there is one: its id, version
  and currency.
\<close>

datatype usage_cost =
  Settled_Cost cost_provenance cost_components int
| Partly_Known_Cost cost_provenance cost_components int "missing_meter list"
| Incomplete_Cost cost_source "(string \<times> string \<times> string) option" "missing_meter list"
| Unpriced_Cost cost_source "(string \<times> string \<times> string) option" "missing_meter list"

fun is_settled :: "usage_cost \<Rightarrow> bool" where
  "is_settled (Settled_Cost _ _ _) = True"
| "is_settled _ = False"

fun settled_total :: "usage_cost \<Rightarrow> int option" where
  "settled_total (Settled_Cost _ _ amount) = Some amount"
| "settled_total _ = None"

definition totalComponents :: "cost_components \<Rightarrow> int" where
  "totalComponents c = uncachedCost c + cachedCost c + outputCost c + webSearchCost c"

section \<open>The calculation\<close>

definition findWebSearchRate :: "rate_card \<Rightarrow> usage_cost_event \<Rightarrow> web_search_rate option" where
  "findWebSearchRate rc e =
     (let rates = (case card_webSearch rc of None \<Rightarrow> [] | Some rs \<Rightarrow> rs) in
      case List.find (\<lambda>r. web_provider r = uce_provider e \<and> web_model r = Some (uce_model e)) rates of
        Some r \<Rightarrow> Some r
      | None \<Rightarrow> List.find (\<lambda>r. web_provider r = uce_provider e \<and> web_model r = None) rates)"

definition known_cached :: "usage_cost_event \<Rightarrow> token_rates \<Rightarrow> int option" where
  "known_cached e rates =
     (case uce_cached e of
        Some c \<Rightarrow> Some c
      | None \<Rightarrow> if cachedPrice rates = uncachedPrice rates then Some 0 else None)"

definition web_searches :: "usage_cost_event \<Rightarrow> int" where
  "web_searches e = (case uce_webSearches e of Some n \<Rightarrow> n | None \<Rightarrow> 0)"

definition calculateKnownComponents ::
    "usage_cost_event \<Rightarrow> token_rates \<Rightarrow> web_search_rate option \<Rightarrow> cost_components" where
  "calculateKnownComponents e rates web =
     \<lparr> uncachedCost =
         (case known_cached e rates of
            Some c \<Rightarrow> priceTokens (whole (max 0 (normalizeCount (uce_input e) - c))) (uncachedPrice rates)
          | None \<Rightarrow> 0),
       cachedCost =
         (case known_cached e rates of
            Some c \<Rightarrow> priceTokens (whole c) (cachedPrice rates)
          | None \<Rightarrow> 0),
       outputCost = priceTokens (whole (normalizeCount (uce_output e))) (outputPrice rates),
       webSearchCost =
         (case web of
            Some r \<Rightarrow> js_round (of_int (web_searches e) * pricePerCall r * 1000000)
          | None \<Rightarrow> 0) \<rparr>"

definition card_name :: "rate_card \<Rightarrow> string \<times> string \<times> string" where
  "card_name rc = (card_id rc, card_version rc, card_currency rc)"

definition missing_meters ::
    "usage_cost_event \<Rightarrow> token_rates \<Rightarrow> web_search_rate option \<Rightarrow> missing_meter list" where
  "missing_meters e rates web =
     (if uce_cached e = None \<and> cachedPrice rates \<noteq> uncachedPrice rates then [Missing_Cached_Tokens] else [])
     @ (if 0 < web_searches e \<and> web = None then [Missing_Web_Search_Rate] else [])"

definition find_model_rate :: "rate_card \<Rightarrow> string \<Rightarrow> string \<Rightarrow> model_rate option" where
  "find_model_rate rc provider model =
     List.find (\<lambda>r. rate_provider r = provider \<and> rate_model r = model) (card_models rc)"

definition calculateUsageCost ::
    "usage_cost_event \<Rightarrow> rate_card option \<Rightarrow> cost_source \<Rightarrow> usage_cost" where
  "calculateUsageCost e rateCard src =
     (case rateCard of
        None \<Rightarrow> Unpriced_Cost src None [Missing_Model_Rate]
      | Some rc \<Rightarrow>
          (if uce_source e = Not_Reported then
             Incomplete_Cost src (Some (card_name rc)) [Missing_Token_Usage]
           else (case find_model_rate rc (uce_provider e) (uce_model e) of
             None \<Rightarrow> Unpriced_Cost src (Some (card_name rc)) [Missing_Model_Rate]
           | Some rate \<Rightarrow>
               (case (if isBilledAsFast (uce_fastMode e) (uce_tier e) then rate_fast rate
                      else Some (rate_normal rate)) of
                  None \<Rightarrow> Unpriced_Cost src (Some (card_name rc)) [Missing_Fast_Rate]
                | Some rates \<Rightarrow>
                    (let web = findWebSearchRate rc e;
                         missing = missing_meters e rates web;
                         components = calculateKnownComponents e rates web;
                         provenance =
                           \<lparr> prov_source = src, prov_card = card_id rc,
                             prov_version = card_version rc, prov_currency = card_currency rc,
                             prov_rates = rates, prov_webSearch = map_option pricePerCall web \<rparr>
                     in if missing \<noteq> [] then
                          Partly_Known_Cost provenance components (totalComponents components) missing
                        else Settled_Cost provenance components (totalComponents components))))))"

section \<open>What a cost guarantees\<close>

lemma js_round_mono: "x \<le> y \<Longrightarrow> js_round x \<le> js_round y"
  unfolding js_round_def by (intro floor_mono) simp

lemma js_round_nonneg: "0 \<le> x \<Longrightarrow> 0 \<le> js_round x"
  by (simp add: js_round_def)

lemma js_round_add: "js_round x + js_round y \<le> js_round (x + y) + 1"
  unfolding js_round_def by linarith

lemma normalizeCount_nonneg [simp]: "0 \<le> normalizeCount n"
  by (cases n) simp_all

lemma normalizeCount_whole [simp]: "normalizeCount (whole n) = max 0 n"
  by (simp add: whole_def js_trunc_def)

definition rates_ok :: "token_rates \<Rightarrow> bool" where
  "rates_ok r \<longleftrightarrow> 0 \<le> uncachedPrice r \<and> 0 \<le> cachedPrice r \<and> 0 \<le> outputPrice r"

definition card_ok :: "rate_card \<Rightarrow> bool" where
  "card_ok rc \<longleftrightarrow>
     (\<forall>m \<in> set (card_models rc). rates_ok (rate_normal m) \<and>
        (case rate_fast m of None \<Rightarrow> True | Some r \<Rightarrow> rates_ok r)) \<and>
     (\<forall>w \<in> set (case card_webSearch rc of None \<Rightarrow> [] | Some ws \<Rightarrow> ws). 0 \<le> pricePerCall w)"

lemma priceTokens_mono:
  "0 \<le> p \<Longrightarrow> p \<le> q \<Longrightarrow> normalizeCount m \<le> normalizeCount n \<Longrightarrow> priceTokens m p \<le> priceTokens n q"
  unfolding priceTokens_def by (intro js_round_mono mult_mono) simp_all

lemma priceTokens_nonneg: "0 \<le> p \<Longrightarrow> 0 \<le> priceTokens n p"
  unfolding priceTokens_def by (intro js_round_nonneg mult_nonneg_nonneg) simp_all

text \<open>Splitting the input into cached and uncached tokens costs at most one millionth by rounding.\<close>

lemma priceTokens_split:
  assumes "0 \<le> p" "0 \<le> q" "p \<le> m" "q \<le> m" "0 \<le> c" "c \<le> n"
  shows "priceTokens (whole (n - c)) p + priceTokens (whole c) q \<le> priceTokens (whole n) m + 1"
proof -
  have "js_round (of_int (n - c) * p) + js_round (of_int c * q) \<le>
      js_round (of_int (n - c) * p + of_int c * q) + 1"
    by (rule js_round_add)
  also have "of_int (n - c) * p + of_int c * q \<le> of_int (n - c) * m + of_int c * m"
    using assms by (intro add_mono mult_left_mono) simp_all
  then have "js_round (of_int (n - c) * p + of_int c * q) + 1 \<le> js_round (of_int n * m) + 1"
    by (intro add_right_mono js_round_mono) (simp add: algebra_simps)
  finally show ?thesis using assms by (simp add: priceTokens_def)
qed

lemma settled_cost_cases:
  assumes "calculateUsageCost e (Some rc) src = Settled_Cost prov comps amount"
  obtains rate rates where "find_model_rate rc (uce_provider e) (uce_model e) = Some rate"
    "(if isBilledAsFast (uce_fastMode e) (uce_tier e) then rate_fast rate else Some (rate_normal rate)) = Some rates"
    "missing_meters e rates (findWebSearchRate rc e) = []"
    "comps = calculateKnownComponents e rates (findWebSearchRate rc e)" "amount = totalComponents comps"
    "uce_source e \<noteq> Not_Reported" "prov_rates prov = rates" "prov_currency prov = card_currency rc"
  using assms by (auto simp: calculateUsageCost_def Let_def split: if_splits option.splits)

lemma find_model_rate_in: "find_model_rate rc p m = Some r \<Longrightarrow> r \<in> set (card_models rc) \<and> rate_provider r = p \<and> rate_model r = m"
  unfolding find_model_rate_def by (auto dest: find_Some_iff)

lemma findWebSearchRate_in:
  "findWebSearchRate rc e = Some w \<Longrightarrow>
    w \<in> set (case card_webSearch rc of None \<Rightarrow> [] | Some ws \<Rightarrow> ws) \<and> web_provider w = uce_provider e"
  by (auto simp: findWebSearchRate_def Let_def split: option.splits dest: find_Some_iff)

lemma known_components_nonneg:
  assumes "rates_ok rates" and "\<And>w. web = Some w \<Longrightarrow> 0 \<le> pricePerCall w" and "0 \<le> web_searches e"
  shows "0 \<le> uncachedCost (calculateKnownComponents e rates web) \<and> 0 \<le> cachedCost (calculateKnownComponents e rates web) \<and>
    0 \<le> outputCost (calculateKnownComponents e rates web) \<and> 0 \<le> webSearchCost (calculateKnownComponents e rates web)"
  using assms
  by (auto simp: calculateKnownComponents_def rates_ok_def split: option.split
      intro!: priceTokens_nonneg js_round_nonneg mult_nonneg_nonneg)

end
