(* ===== verification/Usage_Ledger.thy ===== *)
theory Usage_Ledger imports Usage_Cost Job_Store begin

text \<open>
  The ledger of model calls (\<open>packages/postgres-store/src/postgres-usage-ledger.ts\<close>): usage events,
  the counters of the day and the month that admission checks, and the daily sums the reports read.
  Each operation is one statement, a function of the tables and of the time of the statement.

  The flat columns of an event are grouped: its origin, its call and its settlement. Of the counters
  only the scope the statements use exists here, the one of the instance.
\<close>

section \<open>Days and months\<close>

definition dayOf :: "time \<Rightarrow> int" where
  "dayOf t = \<lfloor>t / day_ms\<rfloor>"

text \<open>
  The month of a day in UTC, counted from year zero: the civil calendar on days since 1970-01-01.
\<close>

definition month_of_day :: "int \<Rightarrow> int" where
  "month_of_day day =
     (let z = day + 719468; era = z div 146097; doe = z - era * 146097;
          yoe = (doe - doe div 1460 + doe div 36524 - doe div 146096) div 365;
          doy = doe - (365 * yoe + yoe div 4 - yoe div 100);
          mp = (5 * doy + 2) div 153;
          m = (if mp < 10 then mp + 3 else mp - 9);
          y = yoe + era * 400 + (if m \<le> 2 then 1 else 0)
      in y * 12 + (m - 1))"

definition monthOf :: "time \<Rightarrow> int" where
  "monthOf t = month_of_day (dayOf t)"

datatype period = Day_Period int | Month_Period int

fun in_period :: "period \<Rightarrow> time \<Rightarrow> bool" where
  "in_period (Day_Period d) t = (dayOf t = d)"
| "in_period (Month_Period m) t = (monthOf t = m)"

definition periods_of :: "time \<Rightarrow> period list" where
  "periods_of t = [Day_Period (dayOf t), Month_Period (monthOf t)]"

section \<open>Rows\<close>

record usage_origin =
  uo_conversation :: "string option"
  uo_agentRun :: "string option"
  uo_agentName :: "string option"
  uo_purpose :: "string option"
  uo_user :: "string option"
  uo_workspace :: "string option"
  uo_operationRun :: "string option"

record usage_call =
  uc_provider :: string
  uc_model :: string
  uc_region :: "string option"
  uc_binding :: "string option"
  uc_fastMode :: bool

record usage_settlement =
  us_input :: int
  us_cached :: "int option"
  us_output :: int
  us_total :: int
  us_source :: usage_source
  us_webSearches :: int
  us_tier :: "string option"
  us_cost :: usage_cost

record usage_event_input =
  in_instance :: string
  in_origin :: usage_origin
  in_call :: usage_call
  in_settlement :: usage_settlement
  in_correlation :: string

datatype usage_status = Usage_Pending | Usage_Settled | Usage_Failed | Usage_Abandoned

record usage_counted =
  counted_tokens :: int
  counted_cost :: int

text \<open>An event written before the counters has no counted amounts.\<close>

record usage_event =
  ue_id :: string
  ue_instance :: string
  ue_origin :: usage_origin
  ue_call :: usage_call
  ue_settlement :: usage_settlement
  ue_correlation :: string
  ue_status :: usage_status
  ue_countedTokens :: "int option"
  ue_countedCost :: "int option"
  ue_createdAt :: time

record usage_counter =
  ctr_instance :: string
  ctr_period :: period
  ctr_calls :: int
  ctr_tokens :: int
  ctr_cost :: int

text \<open>The columns \<open>ROLLUP_SUMS\<close>, and the key \<open>ROLLUP_KEYS\<close> of a row of daily sums.\<close>

datatype rollup_column =
  Sum_Calls | Sum_Input | Sum_Cached | Sum_Output | Sum_Total | Sum_Web_Searches | Sum_Settled_Calls
| Sum_Uncached_Cost | Sum_Cached_Cost | Sum_Output_Cost | Sum_Web_Search_Cost | Sum_Settled_Web_Searches

type_synonym amounts = "rollup_column \<Rightarrow> int"

record rollup_key =
  rk_day :: int
  rk_provider :: string
  rk_model :: string
  rk_region :: string
  rk_purpose :: string
  rk_agentName :: string
  rk_currency :: string

record usage_rollup =
  ru_instance :: string
  ru_key :: rollup_key
  ru_amounts :: amounts

record usage_db =
  db_events :: "usage_event list"
  db_counters :: "usage_counter list"
  db_rollups :: "usage_rollup list"

text \<open>What admission reads beside its own tables: users, workspaces and conversations.\<close>

record conversation_row =
  conv_instance :: string
  conv_id :: string
  conv_workspace :: "string option"

record people =
  ppl_users :: "deletion_row list"
  ppl_workspaces :: "deletion_row list"
  ppl_conversations :: "conversation_row list"

section \<open>Amounts\<close>

definition countedTokens :: "usage_event \<Rightarrow> int" where
  "countedTokens e = (case ue_countedTokens e of Some n \<Rightarrow> n | None \<Rightarrow> us_total (ue_settlement e))"

definition countedCost :: "usage_event \<Rightarrow> int" where
  "countedCost e =
     (case ue_countedCost e of
        Some n \<Rightarrow> n
      | None \<Rightarrow> (case settled_total (us_cost (ue_settlement e)) of Some n \<Rightarrow> n | None \<Rightarrow> 0))"

definition or_empty :: "string option \<Rightarrow> string" where
  "or_empty s = (case s of Some t \<Rightarrow> t | None \<Rightarrow> '''')"

fun cost_currency :: "usage_cost \<Rightarrow> string" where
  "cost_currency (Settled_Cost prov _ _) = prov_currency prov"
| "cost_currency _ = ''''"

fun cost_component :: "(cost_components \<Rightarrow> int) \<Rightarrow> usage_cost \<Rightarrow> int" where
  "cost_component f (Settled_Cost _ comps _) = f comps"
| "cost_component f _ = 0"

definition rollup_key_of :: "usage_event \<Rightarrow> rollup_key" where
  "rollup_key_of e =
     \<lparr> rk_day = dayOf (ue_createdAt e), rk_provider = uc_provider (ue_call e),
       rk_model = uc_model (ue_call e), rk_region = or_empty (uc_region (ue_call e)),
       rk_purpose = or_empty (uo_purpose (ue_origin e)),
       rk_agentName =
         (if uo_purpose (ue_origin e) = None then or_empty (uo_agentName (ue_origin e)) else ''''),
       rk_currency = cost_currency (us_cost (ue_settlement e)) \<rparr>"

fun rollup_amounts :: "usage_event \<Rightarrow> amounts" where
  "rollup_amounts e Sum_Calls = 1"
| "rollup_amounts e Sum_Input = us_input (ue_settlement e)"
| "rollup_amounts e Sum_Cached = (case us_cached (ue_settlement e) of Some n \<Rightarrow> n | None \<Rightarrow> 0)"
| "rollup_amounts e Sum_Output = us_output (ue_settlement e)"
| "rollup_amounts e Sum_Total = us_total (ue_settlement e)"
| "rollup_amounts e Sum_Web_Searches = us_webSearches (ue_settlement e)"
| "rollup_amounts e Sum_Settled_Calls = (if is_settled (us_cost (ue_settlement e)) then 1 else 0)"
| "rollup_amounts e Sum_Uncached_Cost = cost_component uncachedCost (us_cost (ue_settlement e))"
| "rollup_amounts e Sum_Cached_Cost = cost_component cachedCost (us_cost (ue_settlement e))"
| "rollup_amounts e Sum_Output_Cost = cost_component outputCost (us_cost (ue_settlement e))"
| "rollup_amounts e Sum_Web_Search_Cost = cost_component webSearchCost (us_cost (ue_settlement e))"
| "rollup_amounts e Sum_Settled_Web_Searches =
     (if is_settled (us_cost (ue_settlement e)) then us_webSearches (ue_settlement e) else 0)"

text \<open>A signed contribution to the sums, and the upsert that adds a group of them.\<close>

record rollup_change =
  ch_sign :: int
  ch_key :: rollup_key
  ch_amounts :: amounts

definition contribution :: "int \<Rightarrow> usage_event \<Rightarrow> rollup_change" where
  "contribution sign e = \<lparr> ch_sign = sign, ch_key = rollup_key_of e, ch_amounts = rollup_amounts e \<rparr>"

definition change_sum :: "rollup_change list \<Rightarrow> rollup_key \<Rightarrow> amounts" where
  "change_sum changes key column =
     (\<Sum>c \<leftarrow> filter (\<lambda>c. ch_key c = key) changes. ch_sign c * ch_amounts c column)"

definition is_rollup :: "string \<Rightarrow> rollup_key \<Rightarrow> usage_rollup \<Rightarrow> bool" where
  "is_rollup inst key r \<longleftrightarrow> ru_instance r = inst \<and> ru_key r = key"

definition upsert_rollup ::
    "string \<Rightarrow> rollup_change list \<Rightarrow> rollup_key \<Rightarrow> usage_rollup list \<Rightarrow> usage_rollup list" where
  "upsert_rollup inst changes key rows =
     (if list_ex (is_rollup inst key) rows then
        update_where (is_rollup inst key)
          (\<lambda>r. r\<lparr>ru_amounts := (\<lambda>column. ru_amounts r column + change_sum changes key column)\<rparr>) rows
      else rows @ [\<lparr> ru_instance = inst, ru_key = key, ru_amounts = change_sum changes key \<rparr>])"

definition addToRollups :: "string \<Rightarrow> rollup_change list \<Rightarrow> usage_rollup list \<Rightarrow> usage_rollup list" where
  "addToRollups inst changes rows = fold (upsert_rollup inst changes) (remdups (map ch_key changes)) rows"

section \<open>Who an event names\<close>

definition attributed_user :: "people \<Rightarrow> usage_event_input \<Rightarrow> deletion_row option" where
  "attributed_user ppl ev =
     List.find (\<lambda>u. del_instance u = in_instance ev \<and> Some (del_id u) = uo_user (in_origin ev)) (ppl_users ppl)"

definition user_open :: "people \<Rightarrow> usage_event_input \<Rightarrow> bool" where
  "user_open ppl ev = (case attributed_user ppl ev of None \<Rightarrow> False | Some u \<Rightarrow> del_requestedAt u = None)"

definition attributed_workspace :: "people \<Rightarrow> usage_event_input \<Rightarrow> string option" where
  "attributed_workspace ppl ev =
     (let named =
        (case uo_workspace (in_origin ev) of
           Some w \<Rightarrow> Some w
         | None \<Rightarrow>
             (case List.find (\<lambda>c. conv_instance c = in_instance ev \<and>
                 Some (conv_id c) = uo_conversation (in_origin ev)) (ppl_conversations ppl) of
                None \<Rightarrow> None
              | Some c \<Rightarrow> conv_workspace c))
      in map_option del_id
           (List.find (\<lambda>w. del_instance w = in_instance ev \<and> Some (del_id w) = named \<and> del_requestedAt w = None)
             (ppl_workspaces ppl)))"

definition personal :: "people \<Rightarrow> usage_event_input \<Rightarrow> 'a option \<Rightarrow> 'a option" where
  "personal ppl ev value =
     (if uo_user (in_origin ev) = None \<or> user_open ppl ev then value else None)"

definition new_event ::
    "time \<Rightarrow> people \<Rightarrow> string \<Rightarrow> usage_event_input \<Rightarrow> usage_status \<Rightarrow> usage_counted \<Rightarrow> usage_event" where
  "new_event now ppl newId ev status counted =
     \<lparr> ue_id = newId, ue_instance = in_instance ev,
       ue_origin =
         \<lparr> uo_conversation = personal ppl ev (uo_conversation (in_origin ev)),
           uo_agentRun = personal ppl ev (uo_agentRun (in_origin ev)),
           uo_agentName = uo_agentName (in_origin ev), uo_purpose = uo_purpose (in_origin ev),
           uo_user = (if user_open ppl ev then uo_user (in_origin ev) else None),
           uo_workspace = attributed_workspace ppl ev,
           uo_operationRun = personal ppl ev (uo_operationRun (in_origin ev)) \<rparr>,
       ue_call = in_call ev, ue_settlement = in_settlement ev,
       ue_correlation = or_empty (personal ppl ev (Some (in_correlation ev))),
       ue_status = status, ue_countedTokens = Some (counted_tokens counted),
       ue_countedCost = Some (counted_cost counted), ue_createdAt = now \<rparr>"

section \<open>Admission\<close>

record counter_limits =
  lim_calls :: "int option"
  lim_tokens :: "int option"
  lim_cost :: "int option"

record period_limits =
  lim_day :: counter_limits
  lim_month :: counter_limits

definition no_limits :: period_limits where
  "no_limits =
     \<lparr> lim_day = \<lparr> lim_calls = None, lim_tokens = None, lim_cost = None \<rparr>,
       lim_month = \<lparr> lim_calls = None, lim_tokens = None, lim_cost = None \<rparr> \<rparr>"

definition at_most :: "int \<Rightarrow> int option \<Rightarrow> bool" where
  "at_most n limit = (case limit of None \<Rightarrow> True | Some l \<Rightarrow> n \<le> l)"

definition within_limits :: "counter_limits \<Rightarrow> usage_counted \<Rightarrow> usage_counter \<Rightarrow> bool" where
  "within_limits limits counted c \<longleftrightarrow>
     at_most (ctr_calls c + 1) (lim_calls limits) \<and>
     at_most (ctr_tokens c + counted_tokens counted) (lim_tokens limits) \<and>
     at_most (ctr_cost c + counted_cost counted) (lim_cost limits)"

definition counter_of :: "string \<Rightarrow> period \<Rightarrow> usage_counter list \<Rightarrow> usage_counter option" where
  "counter_of inst p counters = List.find (\<lambda>c. ctr_instance c = inst \<and> ctr_period c = p) counters"

definition count_call :: "usage_counted \<Rightarrow> usage_counter \<Rightarrow> usage_counter" where
  "count_call counted c =
     c\<lparr>ctr_calls := ctr_calls c + 1, ctr_tokens := ctr_tokens c + counted_tokens counted,
       ctr_cost := ctr_cost c + counted_cost counted\<rparr>"

definition instance_counters :: "string \<Rightarrow> time \<Rightarrow> usage_counter \<Rightarrow> bool" where
  "instance_counters inst t c \<longleftrightarrow> ctr_instance c = inst \<and> ctr_period c \<in> set (periods_of t)"

record admission_row =
  adm_admitted :: bool
  adm_day :: "usage_counter option"
  adm_month :: "usage_counter option"

definition adm_present :: "admission_row \<Rightarrow> bool" where
  "adm_present a \<longleftrightarrow> adm_day a \<noteq> None \<and> adm_month a \<noteq> None"

definition admits ::
    "period_limits \<Rightarrow> usage_counted \<Rightarrow> usage_counter option \<Rightarrow> usage_counter option \<Rightarrow> bool" where
  "admits limits counted day month =
     (case (day, month) of
        (Some d, Some m) \<Rightarrow>
          within_limits (lim_day limits) counted d \<and> within_limits (lim_month limits) counted m
      | _ \<Rightarrow> False)"

definition countAndInsert ::
    "time \<Rightarrow> people \<Rightarrow> string \<Rightarrow> usage_event_input \<Rightarrow> usage_status \<Rightarrow> usage_counted \<Rightarrow> period_limits \<Rightarrow>
      usage_db \<Rightarrow> (js_error, usage_db \<times> admission_row) result" where
  "countAndInsert now ppl newId ev status counted limits db =
     (let inst = in_instance ev;
          day = counter_of inst (Day_Period (dayOf now)) (db_counters db);
          month = counter_of inst (Month_Period (monthOf now)) (db_counters db);
          admitted = admits limits counted day month;
          row = \<lparr> adm_admitted = admitted, adm_day = day, adm_month = month \<rparr>;
          e = new_event now ppl newId ev status counted
      in
        if \<not> admitted then Inr (db, row)
        else if newId \<in> set (map ue_id (db_events db)) then Inl (Foreign_Error ''duplicate key value'')
        else Inr (db\<lparr>
            db_counters := update_where (instance_counters inst now) (count_call counted) (db_counters db),
            db_events := db_events db @ [e],
            db_rollups :=
              (if status = Usage_Pending then db_rollups db
               else addToRollups inst [contribution 1 e] (db_rollups db))\<rparr>, row))"

definition new_counter :: "string \<Rightarrow> usage_event list \<Rightarrow> period \<Rightarrow> usage_counter" where
  "new_counter inst events p =
     (let es = filter (\<lambda>e. ue_instance e = inst \<and> in_period p (ue_createdAt e)) events in
      \<lparr> ctr_instance = inst, ctr_period = p, ctr_calls = int (length es),
        ctr_tokens = (\<Sum>e \<leftarrow> es. countedTokens e), ctr_cost = (\<Sum>e \<leftarrow> es. countedCost e) \<rparr>)"

definition startCounters :: "time \<Rightarrow> string \<Rightarrow> usage_db \<Rightarrow> usage_db" where
  "startCounters now inst db =
     db\<lparr>db_counters := db_counters db @
       map (new_counter inst (db_events db))
         (filter (\<lambda>p. counter_of inst p (db_counters db) = None) (periods_of now))\<rparr>"

text \<open>
  \<open>countedInsert\<close>: \<open>n\<close> attempts are left; \<open>clocks i\<close> is the time of attempt \<open>i\<close> and of the start after it.
\<close>

fun counted_insert ::
    "nat \<Rightarrow> nat \<Rightarrow> (nat \<Rightarrow> time) \<Rightarrow> people \<Rightarrow> string \<Rightarrow> usage_event_input \<Rightarrow> usage_status \<Rightarrow> usage_counted \<Rightarrow>
      period_limits \<Rightarrow> usage_db \<Rightarrow> (js_error, usage_db \<times> admission_row) result" where
  "counted_insert 0 i clocks ppl newId ev status counted limits db =
     Inl (app_error INTERNAL ''The usage counters of the period could not be started'')"
| "counted_insert (Suc n) i clocks ppl newId ev status counted limits db =
     bind_result (countAndInsert (clocks i) ppl newId ev status counted limits db) (\<lambda>(db', row).
       if adm_present row then Inr (db', row)
       else counted_insert n (Suc i) clocks ppl newId ev status counted limits
         (startCounters (clocks i) (in_instance ev) db'))"

definition COUNTER_START_ATTEMPTS :: nat where
  "COUNTER_START_ATTEMPTS = 3"

datatype limit_period = Limit_Day | Limit_Month
datatype limit_metric = Metric_Calls | Metric_Tokens | Metric_Cost

definition over :: "int \<Rightarrow> int option \<Rightarrow> bool" where
  "over n limit = (case limit of None \<Rightarrow> False | Some l \<Rightarrow> l < n)"

definition held :: "(usage_counter \<Rightarrow> int) \<Rightarrow> usage_counter option \<Rightarrow> int" where
  "held f c = (case c of None \<Rightarrow> 0 | Some x \<Rightarrow> f x)"

definition refusalOf ::
    "admission_row \<Rightarrow> period_limits \<Rightarrow> usage_counted \<Rightarrow> (js_error, limit_period \<times> limit_metric) result" where
  "refusalOf row limits reservation =
     (case List.find snd
        [((Limit_Day, Metric_Calls), over (held ctr_calls (adm_day row) + 1) (lim_calls (lim_day limits))),
         ((Limit_Day, Metric_Tokens),
           over (held ctr_tokens (adm_day row) + counted_tokens reservation) (lim_tokens (lim_day limits))),
         ((Limit_Day, Metric_Cost),
           over (held ctr_cost (adm_day row) + counted_cost reservation) (lim_cost (lim_day limits))),
         ((Limit_Month, Metric_Calls), over (held ctr_calls (adm_month row) + 1) (lim_calls (lim_month limits))),
         ((Limit_Month, Metric_Tokens),
           over (held ctr_tokens (adm_month row) + counted_tokens reservation) (lim_tokens (lim_month limits))),
         ((Limit_Month, Metric_Cost),
           over (held ctr_cost (adm_month row) + counted_cost reservation) (lim_cost (lim_month limits)))] of
        Some c \<Rightarrow> Inr (fst c)
      | None \<Rightarrow> Inl (app_error INTERNAL ''Admission refused a call within every limit''))"

definition admitModelUsageEvent ::
    "(nat \<Rightarrow> time) \<Rightarrow> people \<Rightarrow> string \<Rightarrow> usage_event_input \<Rightarrow> usage_counted \<Rightarrow> period_limits \<Rightarrow> usage_db \<Rightarrow>
      (js_error, usage_db \<times> (string + limit_period \<times> limit_metric)) result" where
  "admitModelUsageEvent clocks ppl newId ev reservation limits db =
     bind_result
       (counted_insert COUNTER_START_ATTEMPTS 0 clocks ppl newId ev Usage_Pending reservation limits db)
       (\<lambda>(db', row).
          if adm_admitted row then Inr (db', Inl newId)
          else bind_result (refusalOf row limits reservation) (\<lambda>r. Inr (db', Inr r)))"

definition appendModelUsageEvent ::
    "(nat \<Rightarrow> time) \<Rightarrow> people \<Rightarrow> string \<Rightarrow> usage_event_input \<Rightarrow> usage_counted option \<Rightarrow> usage_db \<Rightarrow>
      (js_error, usage_db) result" where
  "appendModelUsageEvent clocks ppl newId ev counted db =
     (let cost = us_cost (in_settlement ev);
          c = (case counted of
                 Some c \<Rightarrow> c
               | None \<Rightarrow> \<lparr> counted_tokens = us_total (in_settlement ev),
                   counted_cost = (case settled_total cost of Some n \<Rightarrow> n | None \<Rightarrow> 0) \<rparr>)
      in bind_result (counted_insert COUNTER_START_ATTEMPTS 0 clocks ppl newId ev Usage_Settled c no_limits db)
           (\<lambda>(db', row). Inr db'))"

section \<open>Settlement\<close>

definition settled_event :: "usage_settlement \<Rightarrow> usage_status \<Rightarrow> usage_counted \<Rightarrow> usage_event \<Rightarrow> usage_event" where
  "settled_event settlement status counted e =
     e\<lparr>ue_settlement := settlement, ue_status := status,
       ue_countedTokens := Some (counted_tokens counted), ue_countedCost := Some (counted_cost counted)\<rparr>"

definition recount :: "usage_counted \<Rightarrow> usage_event \<Rightarrow> usage_counter \<Rightarrow> usage_counter" where
  "recount counted old c =
     c\<lparr>ctr_tokens := ctr_tokens c + counted_tokens counted - countedTokens old,
       ctr_cost := ctr_cost c + counted_cost counted - countedCost old\<rparr>"

definition settleModelUsageEvent ::
    "string \<Rightarrow> string \<Rightarrow> usage_status list \<Rightarrow> usage_status \<Rightarrow> usage_settlement \<Rightarrow> usage_counted \<Rightarrow> usage_db \<Rightarrow>
      usage_db \<times> bool" where
  "settleModelUsageEvent inst eventId from_list status settlement counted db =
     (case List.find (\<lambda>e. ue_instance e = inst \<and> ue_id e = eventId \<and> ue_status e \<in> set from_list)
        (db_events db) of
        None \<Rightarrow> (db, False)
      | Some old \<Rightarrow>
          (let new = settled_event settlement status counted old in
           (db\<lparr>
              db_events := update_where (\<lambda>e. ue_id e = ue_id old) (settled_event settlement status counted)
                (db_events db),
              db_counters := update_where (instance_counters inst (ue_createdAt old)) (recount counted old)
                (db_counters db),
              db_rollups := addToRollups inst
                ((if ue_status old = Usage_Pending then [] else [contribution (-1) old]) @ [contribution 1 new])
                (db_rollups db)\<rparr>, True)))"

definition listPendingModelUsageEvents :: "time \<Rightarrow> string \<Rightarrow> rat \<Rightarrow> nat \<Rightarrow> usage_db \<Rightarrow> usage_event list" where
  "listPendingModelUsageEvents now inst olderThanMs limit db =
     take limit (sort_key ue_createdAt
       (filter (\<lambda>e. ue_instance e = inst \<and> ue_status e = Usage_Pending \<and> ue_createdAt e < now - olderThanMs)
         (db_events db)))"

section \<open>Reconciliation\<close>

text \<open>What a counter holds beyond its events, subtracted where it is not nothing.\<close>

definition reconcile_counter :: "usage_db \<Rightarrow> usage_counter \<Rightarrow> usage_counter" where
  "reconcile_counter db c =
     (let ledger = new_counter (ctr_instance c) (db_events db) (ctr_period c) in
      c\<lparr>ctr_calls := ctr_calls c - (ctr_calls c - ctr_calls ledger),
        ctr_tokens := ctr_tokens c - (ctr_tokens c - ctr_tokens ledger),
        ctr_cost := ctr_cost c - (ctr_cost c - ctr_cost ledger)\<rparr>)"

definition drifted :: "usage_db \<Rightarrow> usage_counter \<Rightarrow> bool" where
  "drifted db c \<longleftrightarrow> c \<noteq> new_counter (ctr_instance c) (db_events db) (ctr_period c)"

definition rollup_value :: "string \<Rightarrow> rollup_key \<Rightarrow> usage_rollup list \<Rightarrow> amounts" where
  "rollup_value inst key rows column = (\<Sum>r \<leftarrow> filter (is_rollup inst key) rows. ru_amounts r column)"

definition ended_events :: "string \<Rightarrow> usage_event list \<Rightarrow> usage_event list" where
  "ended_events inst events = filter (\<lambda>e. ue_instance e = inst \<and> ue_status e \<noteq> Usage_Pending) events"

definition ledger_value :: "string \<Rightarrow> rollup_key \<Rightarrow> usage_event list \<Rightarrow> amounts" where
  "ledger_value inst key events column =
     (\<Sum>e \<leftarrow> filter (\<lambda>e. rollup_key_of e = key) (ended_events inst events). rollup_amounts e column)"

definition rollup_columns :: "rollup_column list" where
  "rollup_columns =
     [Sum_Calls, Sum_Input, Sum_Cached, Sum_Output, Sum_Total, Sum_Web_Searches, Sum_Settled_Calls,
      Sum_Uncached_Cost, Sum_Cached_Cost, Sum_Output_Cost, Sum_Web_Search_Cost, Sum_Settled_Web_Searches]"

text \<open>
  The reconciliation with scope \<open>all\<close>, with nothing else happening meanwhile: the counters of the
  current day and month, then the daily sums of every key that has events or a row.
\<close>

definition rollup_differences :: "string \<Rightarrow> usage_db \<Rightarrow> rollup_change list" where
  "rollup_differences inst db =
     filter (\<lambda>c. list_ex (\<lambda>column. ch_amounts c column \<noteq> 0) rollup_columns)
       (map (\<lambda>key. \<lparr> ch_sign = 1, ch_key = key,
            ch_amounts = (\<lambda>column. ledger_value inst key (db_events db) column
              - rollup_value inst key (db_rollups db) column) \<rparr>)
         (remdups (map rollup_key_of (ended_events inst (db_events db))
           @ map ru_key (filter (\<lambda>r. ru_instance r = inst) (db_rollups db)))))"

definition reconcileModelUsage :: "time \<Rightarrow> string \<Rightarrow> usage_db \<Rightarrow> usage_db \<times> nat \<times> nat" where
  "reconcileModelUsage now inst db =
     (db\<lparr>
        db_counters := update_where (\<lambda>c. instance_counters inst now c \<and> drifted db c) (reconcile_counter db)
          (db_counters db),
        db_rollups := addToRollups inst (rollup_differences inst db) (db_rollups db)\<rparr>,
      count_where (\<lambda>c. instance_counters inst now c \<and> drifted db c) (db_counters db),
      length (rollup_differences inst db))"

end
