(* ===== verification/Usage_Ledger_Facts.thy ===== *)
theory Usage_Ledger_Facts imports Usage_Ledger begin

text \<open>
  The ledger stays consistent: every counter holds exactly what the events of its period hold, and
  the daily sums hold exactly the contributions of the events that ended, through every interleaving
  of admissions, events nobody admitted, settlements, counter starts and reconciliations.
\<close>

section \<open>Sums\<close>

lemma sum_update_one:
  fixes h :: "'r \<Rightarrow> int"
  assumes "distinct (map key rows)" and "c \<in> set rows"
  shows "(\<Sum>r \<leftarrow> update_where (\<lambda>r. key r = key c) f rows. h r) = (\<Sum>r \<leftarrow> rows. h r) - h c + h (f c)"
  using assms
proof (induction rows)
  case Nil
  then show ?case by simp
next
  case (Cons r rows)
  show ?case
  proof (cases "c = r")
    case True
    with Cons.prems have "update_where (\<lambda>x. key x = key c) f rows = rows"
      by (intro update_where_none) (auto dest: sym[of _ "key r"] simp: image_iff)
    then show ?thesis using True by (simp add: update_where_def)
  next
    case False
    with Cons.prems have "c \<in> set rows" "key r \<noteq> key c" by (auto simp: image_iff)
    with Cons False show ?thesis by (auto simp: update_where_def)
  qed
qed

lemma set_update_id:
  assumes "distinct (map key rows)" and "c \<in> set rows"
  shows "set (update_where (\<lambda>r. key r = key c) f rows) = insert (f c) (set rows - {c})"
proof -
  have k: "key r = key c \<longleftrightarrow> r = c" if "r \<in> set rows" for r
    using distinct_map_inj[OF assms(1) that assms(2)] by blast
  have "{f r | r. r \<in> set rows \<and> key r = key c} = {f c}" using k assms(2) by blast
  moreover have "{r \<in> set rows. key r \<noteq> key c} = set rows - {c}" using k by blast
  ultimately show ?thesis unfolding set_update_where by simp
qed

lemma sum_filter_if: "(\<Sum>x \<leftarrow> filter P xs. f x) = (\<Sum>x \<leftarrow> xs. if P x then f x else (0::int))"
  by (induction xs) simp_all

lemma length_filter_sum: "int (length (filter P xs)) = (\<Sum>x \<leftarrow> xs. if P x then 1 else 0)"
  by (induction xs) simp_all

section \<open>Counters\<close>

lemma in_period_iff: "in_period p t \<longleftrightarrow> p \<in> set (periods_of t)"
  by (cases p) (auto simp: periods_of_def)

definition in_counter :: "string \<Rightarrow> period \<Rightarrow> usage_event \<Rightarrow> bool" where
  "in_counter inst p e \<longleftrightarrow> ue_instance e = inst \<and> in_period p (ue_createdAt e)"

lemma new_counter_sums:
  "new_counter inst events p =
    \<lparr> ctr_instance = inst, ctr_period = p,
      ctr_calls = (\<Sum>e \<leftarrow> events. if in_counter inst p e then 1 else 0),
      ctr_tokens = (\<Sum>e \<leftarrow> events. if in_counter inst p e then countedTokens e else 0),
      ctr_cost = (\<Sum>e \<leftarrow> events. if in_counter inst p e then countedCost e else 0) \<rparr>"
  by (simp add: new_counter_def Let_def in_counter_def[symmetric] sum_filter_if length_filter_sum)

definition counters_exact :: "usage_event list \<Rightarrow> usage_counter list \<Rightarrow> bool" where
  "counters_exact events counters \<longleftrightarrow>
     (\<forall>c \<in> set counters. c = new_counter (ctr_instance c) events (ctr_period c))"

definition counter_key :: "usage_counter \<Rightarrow> string \<times> period" where
  "counter_key c = (ctr_instance c, ctr_period c)"

lemma counter_key_eq [simp]:
  "counter_key c = (inst, p) \<longleftrightarrow> ctr_instance c = inst \<and> ctr_period c = p"
  "counter_key (count_call counted c) = counter_key c" "counter_key (recount counted old c) = counter_key c"
  "counter_key (new_counter inst events p) = (inst, p)" "counter_key (reconcile_counter db c) = counter_key c"
  by (simp_all add: counter_key_def count_call_def recount_def new_counter_sums reconcile_counter_def Let_def)

lemma instance_counters_writes [simp]:
  "instance_counters inst t (count_call counted c) = instance_counters inst t c"
  "instance_counters inst t (recount counted old c) = instance_counters inst t c"
  by (simp_all add: instance_counters_def count_call_def recount_def)

lemma new_counter_snoc:
  "new_counter inst (events @ [e]) p =
    (if in_counter inst p e
     then count_call \<lparr>counted_tokens = countedTokens e, counted_cost = countedCost e\<rparr> (new_counter inst events p)
     else new_counter inst events p)"
  by (simp add: new_counter_sums count_call_def)

lemma in_counter_instance:
  "in_counter (ctr_instance c) (ctr_period c) e \<longleftrightarrow> instance_counters (ue_instance e) (ue_createdAt e) c"
  by (auto simp: in_counter_def instance_counters_def in_period_iff)

lemma counters_exact_insert:
  assumes "counters_exact events counters" and "counted_tokens counted = countedTokens e"
    and "counted_cost counted = countedCost e"
  shows "counters_exact (events @ [e])
    (update_where (instance_counters (ue_instance e) (ue_createdAt e)) (count_call counted) counters)"
  unfolding counters_exact_def
proof
  let ?p = "instance_counters (ue_instance e) (ue_createdAt e)"
  have counted: "count_call \<lparr>counted_tokens = countedTokens e, counted_cost = countedCost e\<rparr> = count_call counted"
    by (rule ext) (simp add: count_call_def assms(2,3))
  fix x assume "x \<in> set (update_where ?p (count_call counted) counters)"
  then show "x = new_counter (ctr_instance x) (events @ [e]) (ctr_period x)"
  proof (rule in_update_whereE)
    fix c assume c: "c \<in> set counters" "?p c" and x: "x = count_call counted c"
    from c assms(1) have "c = new_counter (ctr_instance c) events (ctr_period c)"
      by (simp add: counters_exact_def)
    moreover have "ctr_instance x = ctr_instance c" "ctr_period x = ctr_period c"
      by (simp_all add: x count_call_def)
    ultimately show ?thesis
      using c(2) unfolding new_counter_snoc in_counter_instance counted x by simp
  next
    assume x: "x \<in> set counters" "\<not> ?p x"
    with assms(1) have "x = new_counter (ctr_instance x) events (ctr_period x)"
      by (simp add: counters_exact_def)
    with x(2) show ?thesis unfolding new_counter_snoc in_counter_instance by simp
  qed
qed

lemma counters_exact_start:
  "counters_exact (db_events db) (db_counters db) \<Longrightarrow>
    counters_exact (db_events (startCounters now inst db)) (db_counters (startCounters now inst db))"
  by (auto simp: counters_exact_def startCounters_def new_counter_sums)

text \<open>A settlement replaces what its event held.\<close>

lemma settled_event_sel [simp]:
  "ue_id (settled_event s st counted e) = ue_id e"
  "ue_instance (settled_event s st counted e) = ue_instance e"
  "ue_createdAt (settled_event s st counted e) = ue_createdAt e"
  "ue_status (settled_event s st counted e) = st"
  "countedTokens (settled_event s st counted e) = counted_tokens counted"
  "countedCost (settled_event s st counted e) = counted_cost counted"
  "in_counter inst p (settled_event s st counted e) = in_counter inst p e"
  by (simp_all add: settled_event_def countedTokens_def countedCost_def in_counter_def)

lemma new_counter_settle:
  assumes "distinct (map ue_id events)" and "old \<in> set events"
  shows "new_counter inst (update_where (\<lambda>e. ue_id e = ue_id old) (settled_event s st counted) events) p =
    (if in_counter inst p old then recount counted old (new_counter inst events p)
     else new_counter inst events p)"
  unfolding new_counter_sums sum_update_one[OF assms] by (simp add: recount_def)

lemma counters_exact_settle:
  assumes "counters_exact events counters" and "distinct (map ue_id events)" and "old \<in> set events"
  shows "counters_exact (update_where (\<lambda>e. ue_id e = ue_id old) (settled_event s st counted) events)
    (update_where (instance_counters (ue_instance old) (ue_createdAt old)) (recount counted old) counters)"
  unfolding counters_exact_def
proof
  let ?p = "instance_counters (ue_instance old) (ue_createdAt old)"
  fix x assume "x \<in> set (update_where ?p (recount counted old) counters)"
  then show "x = new_counter (ctr_instance x)
      (update_where (\<lambda>e. ue_id e = ue_id old) (settled_event s st counted) events) (ctr_period x)"
  proof (rule in_update_whereE)
    fix c assume c: "c \<in> set counters" "?p c" and x: "x = recount counted old c"
    from c assms(1) have "c = new_counter (ctr_instance c) events (ctr_period c)"
      by (simp add: counters_exact_def)
    moreover have "ctr_instance x = ctr_instance c" "ctr_period x = ctr_period c"
      by (simp_all add: x recount_def)
    ultimately show ?thesis
      using c(2) unfolding new_counter_settle[OF assms(2,3)] in_counter_instance x by simp
  next
    assume x: "x \<in> set counters" "\<not> ?p x"
    with assms(1) have "x = new_counter (ctr_instance x) events (ctr_period x)"
      by (simp add: counters_exact_def)
    with x(2) show ?thesis
      unfolding new_counter_settle[OF assms(2,3)] in_counter_instance by simp
  qed
qed

section \<open>Daily sums\<close>

definition rollup_ident :: "usage_rollup \<Rightarrow> string \<times> rollup_key" where
  "rollup_ident r = (ru_instance r, ru_key r)"

lemma is_rollup_ident: "is_rollup inst key r \<longleftrightarrow> rollup_ident r = (inst, key)"
  by (auto simp: is_rollup_def rollup_ident_def)

lemma rollup_value_sum:
  "rollup_value inst key rows column = (\<Sum>r \<leftarrow> rows. if rollup_ident r = (inst, key) then ru_amounts r column else 0)"
  by (simp add: rollup_value_def sum_filter_if is_rollup_ident)

lemma upsert_rollup_distinct:
  assumes "distinct (map rollup_ident rows)"
  shows "distinct (map rollup_ident (upsert_rollup inst changes key rows))"
proof (cases "list_ex (is_rollup inst key) rows")
  case True
  have "map rollup_ident (update_where (is_rollup inst key) f rows) = map rollup_ident rows"
    if "\<And>r. rollup_ident (f r) = rollup_ident r" for f
    using that by (intro map_update_where)
  with True assms show ?thesis by (simp add: upsert_rollup_def rollup_ident_def)
next
  case False
  then have "(inst, key) \<notin> set (map rollup_ident rows)"
    by (auto simp: list_ex_iff is_rollup_ident image_iff)
  with False assms show ?thesis by (simp add: upsert_rollup_def rollup_ident_def)
qed

lemma upsert_rollup_value:
  assumes "distinct (map rollup_ident rows)"
  shows "rollup_value inst' key' (upsert_rollup inst changes key rows) column =
    rollup_value inst' key' rows column + (if (inst', key') = (inst, key) then change_sum changes key column else 0)"
proof (cases "list_ex (is_rollup inst key) rows")
  case True
  then obtain c where c: "c \<in> set rows" "rollup_ident c = (inst, key)" by (auto simp: list_ex_iff is_rollup_ident)
  then have p: "is_rollup inst key = (\<lambda>r. rollup_ident r = rollup_ident c)"
    by (auto simp: is_rollup_ident)
  let ?f = "\<lambda>r. r\<lparr>ru_amounts := (\<lambda>column. ru_amounts r column + change_sum changes key column)\<rparr>"
  have "upsert_rollup inst changes key rows = update_where (\<lambda>r. rollup_ident r = rollup_ident c) ?f rows"
    using True by (simp add: upsert_rollup_def p)
  moreover have "rollup_ident (?f c) = rollup_ident c" by (simp add: rollup_ident_def)
  ultimately show ?thesis
    using c(2) by (simp add: rollup_value_sum sum_update_one[OF assms c(1), unfolded c(2)])
next
  case False
  then have "upsert_rollup inst changes key rows =
      rows @ [\<lparr> ru_instance = inst, ru_key = key, ru_amounts = change_sum changes key \<rparr>]"
    by (simp add: upsert_rollup_def)
  then show ?thesis by (auto simp: rollup_value_sum rollup_ident_def)
qed

lemma addToRollups_fold:
  "distinct keys \<Longrightarrow> distinct (map rollup_ident rows) \<Longrightarrow>
    distinct (map rollup_ident (fold (upsert_rollup inst changes) keys rows)) \<and>
    rollup_value inst' key' (fold (upsert_rollup inst changes) keys rows) column =
      rollup_value inst' key' rows column +
      (if inst' = inst \<and> key' \<in> set keys then change_sum changes key' column else 0)"
proof (induction keys arbitrary: rows)
  case Nil
  then show ?case by simp
next
  case (Cons key keys)
  from Cons.IH[OF _ upsert_rollup_distinct[OF Cons.prems(2)]] Cons.prems
  show ?case by (auto simp: upsert_rollup_value)
qed

lemma change_sum_absent: "key \<notin> set (map ch_key changes) \<Longrightarrow> change_sum changes key column = 0"
proof -
  assume "key \<notin> set (map ch_key changes)"
  then have "filter (\<lambda>c. ch_key c = key) changes = []" by (auto simp: filter_empty_conv)
  then show ?thesis by (simp add: change_sum_def)
qed

lemma addToRollups_distinct:
  "distinct (map rollup_ident rows) \<Longrightarrow> distinct (map rollup_ident (addToRollups inst changes rows))"
  unfolding addToRollups_def using addToRollups_fold[of "remdups (map ch_key changes)" rows] by simp

lemma addToRollups_value:
  "distinct (map rollup_ident rows) \<Longrightarrow>
    rollup_value inst' key (addToRollups inst changes rows) column =
      rollup_value inst' key rows column + (if inst' = inst then change_sum changes key column else 0)"
  unfolding addToRollups_def
  using addToRollups_fold[of "remdups (map ch_key changes)" rows inst changes inst' key column]
    change_sum_absent[of key changes column] by auto

definition weight :: "string \<Rightarrow> rollup_key \<Rightarrow> rollup_column \<Rightarrow> usage_event \<Rightarrow> int" where
  "weight inst key column e =
     (if ue_instance e = inst \<and> ue_status e \<noteq> Usage_Pending \<and> rollup_key_of e = key
      then rollup_amounts e column else 0)"

lemma ledger_value_weight: "ledger_value inst key events column = (\<Sum>e \<leftarrow> events. weight inst key column e)"
  unfolding ledger_value_def ended_events_def filter_filter sum_filter_if weight_def
  by (intro arg_cong[where f = sum_list] map_cong refl) auto

lemma change_sum_contribution:
  "change_sum [contribution sign e] key column = (if rollup_key_of e = key then sign * rollup_amounts e column else 0)"
  "change_sum (xs @ ys) key column = change_sum xs key column + change_sum ys key column"
  "change_sum [] key column = 0"
  by (simp_all add: change_sum_def contribution_def)

definition rollups_exact :: "usage_db \<Rightarrow> bool" where
  "rollups_exact db \<longleftrightarrow>
     (\<forall>inst key column. rollup_value inst key (db_rollups db) column = ledger_value inst key (db_events db) column)"

section \<open>The invariant\<close>

definition ledger_ok :: "usage_db \<Rightarrow> bool" where
  "ledger_ok db \<longleftrightarrow>
     distinct (map ue_id (db_events db)) \<and> distinct (map counter_key (db_counters db)) \<and>
     distinct (map rollup_ident (db_rollups db)) \<and>
     counters_exact (db_events db) (db_counters db) \<and> rollups_exact db"

lemma counter_keys_update:
  "(\<And>c. counter_key (f c) = counter_key c) \<Longrightarrow>
    map counter_key (update_where p f counters) = map counter_key counters"
  by (intro map_update_where)

lemma new_event_sel [simp]:
  "ue_id (new_event now ppl i ev st counted) = i"
  "ue_instance (new_event now ppl i ev st counted) = in_instance ev"
  "ue_createdAt (new_event now ppl i ev st counted) = now"
  "ue_status (new_event now ppl i ev st counted) = st"
  "countedTokens (new_event now ppl i ev st counted) = counted_tokens counted"
  "countedCost (new_event now ppl i ev st counted) = counted_cost counted"
  by (simp_all add: new_event_def countedTokens_def countedCost_def)

lemma admits_iff:
  "admits limits counted day month \<longleftrightarrow>
    (\<exists>d m. day = Some d \<and> month = Some m \<and> within_limits (lim_day limits) counted d \<and>
      within_limits (lim_month limits) counted m)"
  by (auto simp: admits_def split: option.splits)

lemma ledger_ok_insert:
  assumes "countAndInsert now ppl i ev st counted limits db = Inr (db', row)" and ok: "ledger_ok db"
  shows "ledger_ok db'"
proof (cases "adm_admitted row")
  case False
  with assms(1) have "db' = db" by (auto simp: countAndInsert_def Let_def split: if_splits)
  with ok show ?thesis by simp
next
  case True
  let ?e = "new_event now ppl i ev st counted" and ?inst = "in_instance ev"
  from True assms(1) have fresh: "i \<notin> set (map ue_id (db_events db))"
    and db': "db_events db' = db_events db @ [?e]"
      "db_counters db' = update_where (instance_counters ?inst now) (count_call counted) (db_counters db)"
      "db_rollups db' = (if st = Usage_Pending then db_rollups db
         else addToRollups ?inst [contribution 1 ?e] (db_rollups db))"
    by (auto simp: countAndInsert_def Let_def split: if_splits)
  from ok have d: "distinct (map rollup_ident (db_rollups db))" by (simp add: ledger_ok_def)
  have "counters_exact (db_events db') (db_counters db')"
    unfolding db' using counters_exact_insert[of "db_events db" "db_counters db" counted ?e] ok
    by (simp add: ledger_ok_def)
  moreover have "rollups_exact db'"
    using ok unfolding rollups_exact_def db' ledger_value_weight ledger_ok_def
    by (auto simp: addToRollups_value[OF d] change_sum_contribution weight_def)
  ultimately show ?thesis
    using ok fresh by (auto simp: ledger_ok_def db' counter_keys_update addToRollups_distinct)
qed

lemma counter_of_None: "counter_of inst p counters = None \<longleftrightarrow> (inst, p) \<notin> set (map counter_key counters)"
  by (auto simp: counter_of_def find_None_iff counter_key_def image_iff)

lemma ledger_ok_start: "ledger_ok db \<Longrightarrow> ledger_ok (startCounters now inst db)"
proof -
  assume ok: "ledger_ok db"
  have "distinct (map counter_key (db_counters (startCounters now inst db)))"
    using ok by (auto simp: startCounters_def ledger_ok_def counter_of_None periods_of_def)
  moreover have "db_events (startCounters now inst db) = db_events db"
    "db_rollups (startCounters now inst db) = db_rollups db"
    by (simp_all add: startCounters_def)
  ultimately show ?thesis
    using ok counters_exact_start[of db now inst] by (simp add: ledger_ok_def rollups_exact_def)
qed

lemma ledger_ok_counted_insert:
  "counted_insert n k clocks ppl i ev st counted limits db = Inr (db', row) \<Longrightarrow> ledger_ok db \<Longrightarrow> ledger_ok db'"
proof (induction n k clocks ppl i ev st counted limits db rule: counted_insert.induct)
  case (2 n k clocks ppl i ev st counted limits db)
  from 2(2) obtain d r where d: "countAndInsert (clocks k) ppl i ev st counted limits db = Inr (d, r)"
    and rest: "(if adm_present r then Inr (d, r) else counted_insert n (Suc k) clocks ppl i ev st counted limits
      (startCounters (clocks k) (in_instance ev) d)) = Inr (db', row)"
    by auto
  note ok = ledger_ok_insert[OF d 2(3)]
  show ?case
  proof (cases "adm_present r")
    case True
    with rest ok show ?thesis by simp
  next
    case False
    with rest 2(1)[OF False] ledger_ok_start[OF ok] show ?thesis by simp
  qed
qed simp

lemma settle_event_cases:
  assumes "settleModelUsageEvent inst i from_list st s counted db = (db', changed)"
  obtains (none) "\<not> changed" "db' = db"
    "\<forall>e \<in> set (db_events db). \<not> (ue_instance e = inst \<and> ue_id e = i \<and> ue_status e \<in> set from_list)"
  | (one) old where "changed" "old \<in> set (db_events db)" "ue_instance old = inst" "ue_id old = i"
      "ue_status old \<in> set from_list"
      "db_events db' = update_where (\<lambda>e. ue_id e = ue_id old) (settled_event s st counted) (db_events db)"
      "db_counters db' = update_where (instance_counters inst (ue_createdAt old)) (recount counted old) (db_counters db)"
      "db_rollups db' = addToRollups inst
        ((if ue_status old = Usage_Pending then [] else [contribution (-1) old])
          @ [contribution 1 (settled_event s st counted old)]) (db_rollups db)"
proof (cases "List.find (\<lambda>e. ue_instance e = inst \<and> ue_id e = i \<and> ue_status e \<in> set from_list) (db_events db)")
  case None
  with assms none show ?thesis by (auto simp: settleModelUsageEvent_def find_None_iff)
next
  case (Some old)
  with assms find_Some_iff[OF Some] one[of old] show ?thesis
    by (auto simp: settleModelUsageEvent_def Let_def)
qed

lemma ledger_ok_settle:
  assumes "settleModelUsageEvent inst i from_list st s counted db = (db', changed)" and ok: "ledger_ok db"
    and st: "st \<noteq> Usage_Pending"
  shows "ledger_ok db'"
  using assms(1)
proof (cases rule: settle_event_cases)
  case none
  with ok show ?thesis by simp
next
  case (one old)
  from ok have ids: "distinct (map ue_id (db_events db))" and d: "distinct (map rollup_ident (db_rollups db))"
    by (simp_all add: ledger_ok_def)
  have "counters_exact (db_events db') (db_counters db')"
    unfolding one(6,7) using counters_exact_settle[OF _ ids one(2), of "db_counters db"] ok one(3)
    by (simp add: ledger_ok_def)
  moreover have "map ue_id (db_events db') = map ue_id (db_events db)"
    unfolding one(6) by (intro map_update_where) simp
  moreover have "rollups_exact db'"
    unfolding rollups_exact_def one(6,8) ledger_value_weight addToRollups_value[OF d] sum_update_one[OF ids one(2)]
  proof (intro allI)
    fix inst' key column
    have "rollup_value inst' key (db_rollups db) column = (\<Sum>e \<leftarrow> db_events db. weight inst' key column e)"
      using ok by (simp add: ledger_ok_def rollups_exact_def ledger_value_weight)
    then show "rollup_value inst' key (db_rollups db) column +
        (if inst' = inst then change_sum ((if ue_status old = Usage_Pending then [] else [contribution (-1) old])
          @ [contribution 1 (settled_event s st counted old)]) key column else 0) =
      (\<Sum>e \<leftarrow> db_events db. weight inst' key column e) - weight inst' key column old
        + weight inst' key column (settled_event s st counted old)"
      using one(3) st by (auto simp: change_sum_contribution weight_def)
  qed
  ultimately show ?thesis
    using ok by (simp add: ledger_ok_def one(7,8) counter_keys_update addToRollups_distinct)
qed

end
