(* ===== verification/Usage_Promises.thy ===== *)
theory Usage_Promises imports Usage_Ledger_Facts begin

text \<open>
  What the ledger promises: exact counters and sums in every reachable state, limits that no admission
  exceeds and refusals that name the limit, settlements that happen once, reconciliations that repair
  and change nothing that is right, and events that name nobody who is being deleted.
\<close>

section \<open>The ledger as a machine\<close>

inductive usage_step :: "usage_db \<Rightarrow> usage_db \<Rightarrow> bool" where
  usage_admit:
    "admitModelUsageEvent clocks ppl i ev reservation limits db = Inr (db', out) \<Longrightarrow> usage_step db db'"
| usage_append: "appendModelUsageEvent clocks ppl i ev counted db = Inr db' \<Longrightarrow> usage_step db db'"
| usage_settle:
    "st \<noteq> Usage_Pending \<Longrightarrow>
     settleModelUsageEvent inst i from_list st s counted db = (db', changed) \<Longrightarrow> usage_step db db'"
| usage_start_counters: "usage_step db (startCounters now inst db)"
| usage_reconcile: "reconcileModelUsage now inst db = (db', n, m) \<Longrightarrow> usage_step db db'"

inductive_cases usage_stepE: "usage_step db db'"

definition usage_start :: "usage_db \<Rightarrow> bool" where
  "usage_start db \<longleftrightarrow> db = \<lparr>db_events = [], db_counters = [], db_rollups = []\<rparr>"

section \<open>Reconciliation\<close>

lemma reconcile_counter_exact:
  "reconcile_counter db c = new_counter (ctr_instance c) (db_events db) (ctr_period c)"
  by (simp add: reconcile_counter_def Let_def new_counter_sums)

lemma all_columns: "column \<in> set rollup_columns"
  by (cases column) (simp_all add: rollup_columns_def)

lemma rollup_value_absent:
  "key \<notin> set (map ru_key (filter (\<lambda>r. ru_instance r = inst) rows)) \<Longrightarrow> rollup_value inst key rows column = 0"
proof -
  assume "key \<notin> set (map ru_key (filter (\<lambda>r. ru_instance r = inst) rows))"
  then have "filter (is_rollup inst key) rows = []" by (auto simp: filter_empty_conv is_rollup_def)
  then show ?thesis by (simp add: rollup_value_def)
qed

lemma ledger_value_absent:
  "key \<notin> set (map rollup_key_of (ended_events inst events)) \<Longrightarrow> ledger_value inst key events column = 0"
proof -
  assume "key \<notin> set (map rollup_key_of (ended_events inst events))"
  then have "filter (\<lambda>e. rollup_key_of e = key) (ended_events inst events) = []" by (auto simp: filter_empty_conv)
  then show ?thesis by (simp add: ledger_value_def)
qed

lemma change_sum_map:
  assumes "distinct keys"
  shows "change_sum (filter P (map (\<lambda>k. \<lparr>ch_sign = 1, ch_key = k, ch_amounts = f k\<rparr>) keys)) key column =
    (if key \<in> set keys \<and> P \<lparr>ch_sign = 1, ch_key = key, ch_amounts = f key\<rparr> then f key column else 0)"
  using assms by (induction keys) (auto simp: change_sum_def)

lemma rollup_differences_sum:
  "change_sum (rollup_differences inst db) key column =
    ledger_value inst key (db_events db) column - rollup_value inst key (db_rollups db) column"
proof -
  let ?f = "\<lambda>key column. ledger_value inst key (db_events db) column - rollup_value inst key (db_rollups db) column"
  let ?keys = "remdups (map rollup_key_of (ended_events inst (db_events db))
    @ map ru_key (filter (\<lambda>r. ru_instance r = inst) (db_rollups db)))"
  have absent: "?f key column = 0" if "key \<notin> set ?keys"
    using that rollup_value_absent[of key inst "db_rollups db" column]
      ledger_value_absent[of key inst "db_events db" column] by auto
  have zero: "?f key column = 0" if "\<not> list_ex (\<lambda>c. ?f key c \<noteq> 0) rollup_columns"
    using that all_columns[of column] by (auto simp: list_ex_iff)
  show ?thesis
    unfolding rollup_differences_def change_sum_map[OF distinct_remdups] using absent zero by auto
qed

lemma rollup_differences_none:
  assumes "\<And>key column. rollup_value inst key (db_rollups db) column = ledger_value inst key (db_events db) column"
  shows "rollup_differences inst db = []"
  using assms by (simp add: rollup_differences_def filter_empty_conv list_ex_iff)

lemma reconcile_exact:
  assumes "ledger_ok db"
  shows "reconcileModelUsage now inst db = (db, 0, 0)"
proof -
  have "\<not> drifted db c" if "c \<in> set (db_counters db)" for c
    using assms that unfolding ledger_ok_def counters_exact_def drifted_def by blast
  then have no: "\<not> (instance_counters inst now c \<and> drifted db c)" if "c \<in> set (db_counters db)" for c
    using that by blast
  have "count_where (\<lambda>c. instance_counters inst now c \<and> drifted db c) (db_counters db) = 0"
    using no by (simp add: count_where_def filter_empty_conv)
  moreover have "update_where (\<lambda>c. instance_counters inst now c \<and> drifted db c) (reconcile_counter db)
      (db_counters db) = db_counters db"
    using no by (rule update_where_none)
  moreover have "rollup_differences inst db = []"
    using assms by (intro rollup_differences_none) (simp add: ledger_ok_def rollups_exact_def)
  ultimately show ?thesis by (simp add: reconcileModelUsage_def addToRollups_def)
qed

section \<open>Every step keeps the ledger exact\<close>

lemma ledger_ok_step: "usage_step db db' \<Longrightarrow> ledger_ok db \<Longrightarrow> ledger_ok db'"
proof (induction rule: usage_step.cases)
  case (usage_admit clocks ppl i ev reservation limits db db' out)
  then show ?case by (auto simp: admitModelUsageEvent_def intro: ledger_ok_counted_insert split: if_splits)
next
  case (usage_append clocks ppl i ev counted db db')
  then show ?case by (auto simp: appendModelUsageEvent_def Let_def intro: ledger_ok_counted_insert)
next
  case (usage_settle st inst i from_list s counted db db' changed)
  then show ?case using ledger_ok_settle by blast
next
  case (usage_start_counters db now inst)
  then show ?case using ledger_ok_start by simp
next
  case (usage_reconcile now inst db db' n m)
  then show ?case using reconcile_exact[of db now inst] by simp
qed

interpretation usage: invariant_system usage_start usage_step ledger_ok
proof
  fix s t
  show "ledger_ok s" if "usage_start s"
    using that by (simp add: usage_start_def ledger_ok_def counters_exact_def rollups_exact_def
        rollup_value_def ledger_value_def ended_events_def)
  show "ledger_ok t" if "ledger_ok s" "usage_step s t" using ledger_ok_step[OF that(2,1)] .
qed

section \<open>Admission\<close>

lemma counted_insert_last:
  "counted_insert n k clocks ppl i ev st counted limits db = Inr (db', row) \<Longrightarrow>
    \<exists>j d. countAndInsert (clocks j) ppl i ev st counted limits d = Inr (db', row) \<and> adm_present row \<and>
      db_events d = db_events db \<and> db_rollups d = db_rollups db \<and> (ledger_ok db \<longrightarrow> ledger_ok d)"
proof (induction n k clocks ppl i ev st counted limits db rule: counted_insert.induct)
  case (2 n k clocks ppl i ev st counted limits db)
  from 2(2) obtain d r where d: "countAndInsert (clocks k) ppl i ev st counted limits db = Inr (d, r)"
    and rest: "(if adm_present r then Inr (d, r) else counted_insert n (Suc k) clocks ppl i ev st counted limits
      (startCounters (clocks k) (in_instance ev) d)) = Inr (db', row)"
    by auto
  show ?case
  proof (cases "adm_present r")
    case True
    with rest d show ?thesis by (intro exI[of _ k] exI[of _ db]) auto
  next
    case False
    then have "\<not> adm_admitted r" using d
      by (auto simp: countAndInsert_def Let_def adm_present_def admits_iff split: if_splits)
    then have "d = db" using d by (auto simp: countAndInsert_def Let_def split: if_splits)
    let ?d = "startCounters (clocks k) (in_instance ev) db"
    have "counted_insert n (Suc k) clocks ppl i ev st counted limits ?d = Inr (db', row)"
      using rest False \<open>d = db\<close> by simp
    from 2(1)[OF False this] ledger_ok_start[of db "clocks k" "in_instance ev"]
    show ?thesis by (auto simp: startCounters_def)
  qed
qed simp

lemma counter_of_Some: "counter_of inst p counters = Some c \<Longrightarrow> c \<in> set counters \<and> counter_key c = (inst, p)"
  unfolding counter_of_def by (auto dest: find_Some_iff)

lemma counter_of_update:
  assumes "counter_of inst p counters = Some c" and "\<And>c. counter_key (f c) = counter_key c" and "q c"
    and "distinct (map counter_key counters)"
  shows "counter_of inst p (update_where q f counters) = Some (f c)"
  using assms by (induction counters) (auto simp: counter_of_def update_where_def counter_key_def split: if_splits)

definition counter_within :: "counter_limits \<Rightarrow> usage_counter \<Rightarrow> bool" where
  "counter_within limits c \<longleftrightarrow>
     at_most (ctr_calls c) (lim_calls limits) \<and> at_most (ctr_tokens c) (lim_tokens limits) \<and>
     at_most (ctr_cost c) (lim_cost limits)"

lemma countAndInsert_admitted:
  assumes "countAndInsert now ppl i ev st counted limits db = Inr (db', row)" and "adm_admitted row"
    and "distinct (map counter_key (db_counters db))"
  shows "\<exists>d m. counter_of (in_instance ev) (Day_Period (dayOf now)) (db_counters db') = Some d \<and>
    counter_of (in_instance ev) (Month_Period (monthOf now)) (db_counters db') = Some m \<and>
    counter_within (lim_day limits) d \<and> counter_within (lim_month limits) m \<and>
    db_events db' = db_events db @ [new_event now ppl i ev st counted]"
proof -
  let ?inst = "in_instance ev"
  from assms(1,2) have adm: "admits limits counted (counter_of ?inst (Day_Period (dayOf now)) (db_counters db))
      (counter_of ?inst (Month_Period (monthOf now)) (db_counters db))" and
    db': "db_counters db' = update_where (instance_counters ?inst now) (count_call counted) (db_counters db)"
      "db_events db' = db_events db @ [new_event now ppl i ev st counted]"
    by (auto simp: countAndInsert_def Let_def split: if_splits)
  from adm obtain d m where
    d: "counter_of ?inst (Day_Period (dayOf now)) (db_counters db) = Some d" and
    m: "counter_of ?inst (Month_Period (monthOf now)) (db_counters db) = Some m" and
    w: "within_limits (lim_day limits) counted d" "within_limits (lim_month limits) counted m"
    unfolding admits_iff by blast
  have own: "instance_counters ?inst now d" "instance_counters ?inst now m"
    using counter_of_Some[OF d] counter_of_Some[OF m] by (simp_all add: instance_counters_def periods_of_def)
  have "counter_of ?inst (Day_Period (dayOf now)) (db_counters db') = Some (count_call counted d)"
    unfolding db' by (rule counter_of_update[where c = d]) (simp_all add: d own assms(3))
  moreover have "counter_of ?inst (Month_Period (monthOf now)) (db_counters db') = Some (count_call counted m)"
    unfolding db' by (rule counter_of_update[where c = m]) (simp_all add: m own assms(3))
  moreover have "counter_within l (count_call counted c)" if "within_limits l counted c" for l c
    using that by (simp add: counter_within_def within_limits_def count_call_def)
  ultimately show ?thesis using w db'(2) by blast
qed

lemma refusalOf_reason:
  assumes "refusalOf row limits reservation = Inr (p, metric)"
  shows "over (case metric of
      Metric_Calls \<Rightarrow> held ctr_calls (case p of Limit_Day \<Rightarrow> adm_day row | Limit_Month \<Rightarrow> adm_month row) + 1
    | Metric_Tokens \<Rightarrow> held ctr_tokens (case p of Limit_Day \<Rightarrow> adm_day row | Limit_Month \<Rightarrow> adm_month row)
        + counted_tokens reservation
    | Metric_Cost \<Rightarrow> held ctr_cost (case p of Limit_Day \<Rightarrow> adm_day row | Limit_Month \<Rightarrow> adm_month row)
        + counted_cost reservation)
    (case metric of
       Metric_Calls \<Rightarrow> lim_calls (case p of Limit_Day \<Rightarrow> lim_day limits | Limit_Month \<Rightarrow> lim_month limits)
     | Metric_Tokens \<Rightarrow> lim_tokens (case p of Limit_Day \<Rightarrow> lim_day limits | Limit_Month \<Rightarrow> lim_month limits)
     | Metric_Cost \<Rightarrow> lim_cost (case p of Limit_Day \<Rightarrow> lim_day limits | Limit_Month \<Rightarrow> lim_month limits))"
  using assms by (auto simp: refusalOf_def split: if_splits option.splits)

lemma at_most_over: "at_most n l \<longleftrightarrow> \<not> over n l"
  by (auto simp: at_most_def over_def split: option.splits)

lemma refusalOf_answers:
  assumes "countAndInsert now ppl i ev st counted limits db = Inr (db', row)" and "adm_present row"
    and "\<not> adm_admitted row"
  shows "\<exists>r. refusalOf row limits counted = Inr r"
proof -
  from assms obtain d m where "adm_day row = Some d" "adm_month row = Some m"
    "\<not> (within_limits (lim_day limits) counted d \<and> within_limits (lim_month limits) counted m)"
    by (auto simp: countAndInsert_def Let_def adm_present_def admits_iff split: if_splits)
  then show ?thesis
    by (auto simp: refusalOf_def held_def within_limits_def at_most_over)
qed

lemma admission_row_counters:
  assumes "countAndInsert now ppl i ev st counted limits db = Inr (db', row)" and "adm_present row"
    and "\<not> adm_admitted row"
  shows "(\<exists>d \<in> set (db_counters db). adm_day row = Some d \<and> (\<exists>n. ctr_period d = Day_Period n)) \<and>
    (\<exists>m \<in> set (db_counters db). adm_month row = Some m \<and> (\<exists>n. ctr_period m = Month_Period n))"
proof -
  from assms have row: "adm_day row = counter_of (in_instance ev) (Day_Period (dayOf now)) (db_counters db)"
    "adm_month row = counter_of (in_instance ev) (Month_Period (monthOf now)) (db_counters db)"
    by (auto simp: countAndInsert_def Let_def split: if_splits)
  with assms(2) obtain d m where dm: "adm_day row = Some d" "adm_month row = Some m"
    by (auto simp: adm_present_def)
  with row counter_of_Some[of "in_instance ev" _ "db_counters db"] show ?thesis by fastforce
qed

text \<open>
  Starting the counters makes the second attempt find them, when the day is still the same; only a
  duplicate id is left as an error.
\<close>

lemma start_finds_counters:
  assumes "dayOf t = dayOf now"
  shows "counter_of inst (Day_Period (dayOf t)) (db_counters (startCounters now inst db)) \<noteq> None \<and>
    counter_of inst (Month_Period (monthOf t)) (db_counters (startCounters now inst db)) \<noteq> None"
  unfolding counter_of_None assms monthOf_def
  by (auto simp: startCounters_def counter_of_None periods_of_def monthOf_def)

lemma countAndInsert_fresh:
  assumes "i \<notin> set (map ue_id (db_events db))"
  shows "\<exists>db' row. countAndInsert now ppl i ev st counted limits db = Inr (db', row) \<and>
    adm_day row = counter_of (in_instance ev) (Day_Period (dayOf now)) (db_counters db) \<and>
    adm_month row = counter_of (in_instance ev) (Month_Period (monthOf now)) (db_counters db) \<and>
    (\<not> adm_present row \<longrightarrow> db' = db)"
  using assms by (auto simp: countAndInsert_def Let_def adm_present_def admits_iff)

lemma counted_insert_answers:
  assumes "\<forall>j. dayOf (clocks j) = dayOf (clocks 0)" and "i \<notin> set (map ue_id (db_events db))"
  shows "\<exists>a. counted_insert COUNTER_START_ATTEMPTS 0 clocks ppl i ev st counted limits db = Inr a"
proof -
  have three: "COUNTER_START_ATTEMPTS = Suc (Suc 1)" by (simp add: COUNTER_START_ATTEMPTS_def)
  from countAndInsert_fresh[OF assms(2), of "clocks 0" ppl ev st counted limits] obtain d r where
    first: "countAndInsert (clocks 0) ppl i ev st counted limits db = Inr (d, r)"
    and keep: "\<not> adm_present r \<longrightarrow> d = db" by blast
  show ?thesis
  proof (cases "adm_present r")
    case True
    with first show ?thesis unfolding three by simp
  next
    case False
    let ?db = "startCounters (clocks 0) (in_instance ev) db"
    have "i \<notin> set (map ue_id (db_events ?db))" using assms(2) by (simp add: startCounters_def)
    from countAndInsert_fresh[OF this, of "clocks (Suc 0)" ppl ev st counted limits] obtain d' r' where
      second: "countAndInsert (clocks (Suc 0)) ppl i ev st counted limits ?db = Inr (d', r')"
      and rows: "adm_day r' = counter_of (in_instance ev) (Day_Period (dayOf (clocks (Suc 0)))) (db_counters ?db)"
        "adm_month r' = counter_of (in_instance ev) (Month_Period (monthOf (clocks (Suc 0)))) (db_counters ?db)"
      by blast
    have "dayOf (clocks (Suc 0)) = dayOf (clocks 0)" using assms(1) by blast
    from start_finds_counters[OF this, of "in_instance ev" db] rows have "adm_present r'"
      by (simp add: adm_present_def)
    with False first keep second show ?thesis unfolding three by simp
  qed
qed

section \<open>An example ledger\<close>

definition demo_event :: usage_event_input where
  "demo_event =
     \<lparr> in_instance = ''ci'',
       in_origin = \<lparr> uo_conversation = Some ''c1'', uo_agentRun = Some ''r1'', uo_agentName = Some ''sales'',
         uo_purpose = None, uo_user = Some ''u1'', uo_workspace = None, uo_operationRun = None \<rparr>,
       in_call = \<lparr> uc_provider = ''openai'', uc_model = ''gpt'', uc_region = None, uc_binding = None,
         uc_fastMode = False \<rparr>,
       in_settlement = \<lparr> us_input = 0, us_cached = Some 0, us_output = 0, us_total = 0,
         us_source = Not_Reported, us_webSearches = 0, us_tier = None,
         us_cost = Unpriced_Cost Rate_Card None [Missing_Model_Rate] \<rparr>,
       in_correlation = ''corr_1'' \<rparr>"

definition demo_people :: people where
  "demo_people =
     \<lparr> ppl_users = [\<lparr> del_instance = ''ci'', del_id = ''u1'', del_requestedAt = Some 3 \<rparr>],
       ppl_workspaces = [], ppl_conversations = [] \<rparr>"

definition demo_limits :: period_limits where
  "demo_limits = no_limits\<lparr>lim_day := \<lparr> lim_calls = Some 1, lim_tokens = None, lim_cost = None \<rparr>\<rparr>"

definition demo_reservation :: usage_counted where
  "demo_reservation = \<lparr> counted_tokens = 100, counted_cost = 7 \<rparr>"

definition empty_ledger :: usage_db where
  "empty_ledger = \<lparr>db_events = [], db_counters = [], db_rollups = []\<rparr>"

definition started_ledger :: usage_db where
  "started_ledger = startCounters 5 ''ci'' empty_ledger"

definition demo_ledger :: usage_db where
  "demo_ledger =
     \<lparr> db_events = [new_event 5 demo_people ''e1'' demo_event Usage_Pending demo_reservation],
       db_counters =
         [\<lparr> ctr_instance = ''ci'', ctr_period = Day_Period (dayOf 5), ctr_calls = 1, ctr_tokens = 100, ctr_cost = 7 \<rparr>,
          \<lparr> ctr_instance = ''ci'', ctr_period = Month_Period (monthOf 5), ctr_calls = 1, ctr_tokens = 100, ctr_cost = 7 \<rparr>],
       db_rollups = [] \<rparr>"

lemma started_counters:
  "db_counters started_ledger =
    [\<lparr> ctr_instance = ''ci'', ctr_period = Day_Period (dayOf 5), ctr_calls = 0, ctr_tokens = 0, ctr_cost = 0 \<rparr>,
     \<lparr> ctr_instance = ''ci'', ctr_period = Month_Period (monthOf 5), ctr_calls = 0, ctr_tokens = 0, ctr_cost = 0 \<rparr>]"
  "db_events started_ledger = []" "db_rollups started_ledger = []"
  by (simp_all add: started_ledger_def startCounters_def empty_ledger_def periods_of_def counter_of_def new_counter_def)

lemma demo_first_attempt:
  "countAndInsert 5 demo_people ''e1'' demo_event Usage_Pending demo_reservation demo_limits empty_ledger =
    Inr (empty_ledger, \<lparr> adm_admitted = False, adm_day = None, adm_month = None \<rparr>)"
  by (simp add: countAndInsert_def Let_def admits_def counter_of_def empty_ledger_def)

lemma demo_second_attempt:
  "\<exists>row. countAndInsert 5 demo_people ''e1'' demo_event Usage_Pending demo_reservation demo_limits started_ledger =
    Inr (demo_ledger, row) \<and> adm_admitted row \<and> adm_present row"
  by (simp add: countAndInsert_def Let_def started_counters counter_of_def admits_def within_limits_def
      at_most_def demo_limits_def no_limits_def demo_reservation_def demo_event_def demo_ledger_def
      update_where_def instance_counters_def periods_of_def count_call_def adm_present_def)

lemma demo_admission:
  "admitModelUsageEvent (\<lambda>_. 5) demo_people ''e1'' demo_event demo_reservation demo_limits empty_ledger =
    Inr (demo_ledger, Inl ''e1'')"
proof -
  have three: "COUNTER_START_ATTEMPTS = Suc (Suc 1)" by (simp add: COUNTER_START_ATTEMPTS_def)
  obtain row where second: "countAndInsert 5 demo_people ''e1'' demo_event Usage_Pending demo_reservation demo_limits
      started_ledger = Inr (demo_ledger, row)" "adm_admitted row" "adm_present row"
    using demo_second_attempt by blast
  have inst: "in_instance demo_event = ''ci''" by (simp add: demo_event_def)
  show ?thesis
    unfolding admitModelUsageEvent_def three counted_insert.simps demo_first_attempt inst
      bind_result.simps prod.case started_ledger_def[symmetric]
    using second by (simp add: adm_present_def)
qed

lemma demo_ledger_reachable: "reachable usage_start usage_step demo_ledger"
proof -
  have "reachable usage_start usage_step empty_ledger"
    by (rule reachable_start) (simp add: usage_start_def empty_ledger_def)
  then show ?thesis by (rule reachable_move) (rule usage_admit[OF demo_admission])
qed

section \<open>The promises\<close>

text \<open>
  C7. The ledger is exact: in every reachable state a counter holds precisely the calls, tokens and
  costs its period's events hold, and for every key the daily sums are precisely the sums over the
  events that ended, whatever was admitted, settled, abandoned, settled after all or reconciled.
\<close>

theorem ledger_is_exact:
  assumes "reachable usage_start usage_step db"
  shows "(\<forall>c \<in> set (db_counters db). c = new_counter (ctr_instance c) (db_events db) (ctr_period c)) \<and>
    (\<forall>inst key column. rollup_value inst key (db_rollups db) column = ledger_value inst key (db_events db) column) \<and>
    distinct (map ue_id (db_events db))"
  using usage.inv_reachable[OF assms] by (simp add: ledger_ok_def counters_exact_def rollups_exact_def)

lemma ledger_is_exact_witness:
  "new_counter ''ci'' (db_events demo_ledger) (Day_Period (dayOf 5)) =
    \<lparr> ctr_instance = ''ci'', ctr_period = Day_Period (dayOf 5), ctr_calls = 1, ctr_tokens = 100, ctr_cost = 7 \<rparr>"
proof -
  have "\<lparr> ctr_instance = ''ci'', ctr_period = Day_Period (dayOf 5), ctr_calls = 1, ctr_tokens = 100, ctr_cost = 7 \<rparr>
      \<in> set (db_counters demo_ledger)"
    by (simp add: demo_ledger_def)
  with ledger_is_exact[OF demo_ledger_reachable] show ?thesis by fastforce
qed

text \<open>
  C8. Admission keeps the limits and says why not: an admitted call is on the books as pending, and
  the counters of the day and the month with it are within every limit; a refused call wrote no event
  and no sum, and the limit it is refused with is one that the call would have exceeded. As long as
  the day does not change between its attempts, admission always gives one of these two answers.
\<close>

theorem admission_keeps_the_limits:
  assumes "ledger_ok db"
  shows "(case admitModelUsageEvent clocks ppl i ev reservation limits db of
      Inl _ \<Rightarrow> \<not> ((\<forall>j. dayOf (clocks j) = dayOf (clocks 0)) \<and> i \<notin> set (map ue_id (db_events db)))
    | Inr (db', Inl admitted) \<Rightarrow>
        admitted = i \<and>
        (\<exists>j d m. counter_of (in_instance ev) (Day_Period (dayOf (clocks j))) (db_counters db') = Some d \<and>
          counter_of (in_instance ev) (Month_Period (monthOf (clocks j))) (db_counters db') = Some m \<and>
          counter_within (lim_day limits) d \<and> counter_within (lim_month limits) m \<and>
          db_events db' = db_events db @ [new_event (clocks j) ppl i ev Usage_Pending reservation])
    | Inr (db', Inr (p, metric)) \<Rightarrow>
        db_events db' = db_events db \<and> db_rollups db' = db_rollups db \<and>
        (\<exists>c \<in> set (db_counters db').
          (case p of Limit_Day \<Rightarrow> \<exists>d. ctr_period c = Day_Period d | Limit_Month \<Rightarrow> \<exists>m. ctr_period c = Month_Period m) \<and>
          over (case metric of Metric_Calls \<Rightarrow> ctr_calls c + 1
              | Metric_Tokens \<Rightarrow> ctr_tokens c + counted_tokens reservation
              | Metric_Cost \<Rightarrow> ctr_cost c + counted_cost reservation)
            (let l = (case p of Limit_Day \<Rightarrow> lim_day limits | Limit_Month \<Rightarrow> lim_month limits) in
             case metric of Metric_Calls \<Rightarrow> lim_calls l | Metric_Tokens \<Rightarrow> lim_tokens l | Metric_Cost \<Rightarrow> lim_cost l)))"
proof (cases "counted_insert COUNTER_START_ATTEMPTS 0 clocks ppl i ev Usage_Pending reservation limits db")
  case (Inl e)
  then show ?thesis
    using counted_insert_answers[of clocks i db ppl ev Usage_Pending reservation limits]
    by (auto simp: admitModelUsageEvent_def)
next
  case (Inr a)
  obtain db' row where a: "a = (db', row)" by fastforce
  note last = counted_insert_last[OF Inr[unfolded a]]
  then obtain j d where ci: "countAndInsert (clocks j) ppl i ev Usage_Pending reservation limits d = Inr (db', row)"
    and pres: "adm_present row" and same: "db_events d = db_events db" "db_rollups d = db_rollups db"
    and okd: "ledger_ok d" using assms by blast
  show ?thesis
  proof (cases "adm_admitted row")
    case True
    have "distinct (map counter_key (db_counters d))" using okd by (simp add: ledger_ok_def)
    from countAndInsert_admitted[OF ci True this] same Inr a True show ?thesis
      by (auto simp: admitModelUsageEvent_def)
  next
    case False
    then have "db' = d" using ci by (auto simp: countAndInsert_def Let_def split: if_splits)
    obtain p metric where r: "refusalOf row limits reservation = Inr (p, metric)"
      using refusalOf_answers[OF ci pres False] by auto
    have "admitModelUsageEvent clocks ppl i ev reservation limits db = Inr (d, Inr (p, metric))"
      using Inr a False r \<open>db' = d\<close> by (simp add: admitModelUsageEvent_def)
    moreover obtain c where "c \<in> set (db_counters d)"
      "case p of Limit_Day \<Rightarrow> adm_day row = Some c \<and> (\<exists>n. ctr_period c = Day_Period n)
        | Limit_Month \<Rightarrow> adm_month row = Some c \<and> (\<exists>n. ctr_period c = Month_Period n)"
      using admission_row_counters[OF ci pres False] by (cases p) auto
    ultimately show ?thesis
      using refusalOf_reason[OF r] same
      by (cases p; cases metric) (auto simp: held_def Let_def)
  qed
qed

lemma admission_keeps_the_limits_witness:
  "\<exists>d. counter_of ''ci'' (Day_Period (dayOf 5)) (db_counters demo_ledger) = Some d \<and>
    counter_within (lim_day demo_limits) d"
proof -
  have "ledger_ok empty_ledger"
    using usage.inv_reachable[OF reachable_start[of usage_start empty_ledger usage_step]]
    by (simp add: usage_start_def empty_ledger_def)
  from admission_keeps_the_limits[OF this, where clocks = "\<lambda>_. 5" and ppl = demo_people and i = "''e1''"
      and ev = demo_event and reservation = demo_reservation and limits = demo_limits]
  show ?thesis unfolding demo_admission by (auto simp: demo_event_def)
qed

lemma settled_is_over:
  assumes ids: "distinct (map ue_id (db_events db))" and old: "old \<in> set (db_events db)"
    and events: "db_events db' = update_where (\<lambda>e. ue_id e = ue_id old) (settled_event settlement status counted)
      (db_events db)"
    and "status \<notin> set from_list"
  shows "settleModelUsageEvent inst (ue_id old) from_list status' settlement' counted' db' = (db', False)"
proof -
  have "\<not> (ue_instance e = inst \<and> ue_id e = ue_id old \<and> ue_status e \<in> set from_list)"
    if "e \<in> set (db_events db')" for e
  proof (cases "e = settled_event settlement status counted old")
    case True
    with assms(4) show ?thesis by simp
  next
    case False
    with that events set_update_id[OF ids old, of "settled_event settlement status counted"]
    have "e \<in> set (db_events db)" "e \<noteq> old" by auto
    then show ?thesis using distinct_map_inj[OF ids _ old, of e] by blast
  qed
  then have "List.find (\<lambda>e. ue_instance e = inst \<and> ue_id e = ue_id old \<and> ue_status e \<in> set from_list)
      (db_events db') = None"
    unfolding find_None_iff by blast
  then show ?thesis by (simp add: settleModelUsageEvent_def)
qed

text \<open>
  A settlement happens once: of a pending or abandoned event it replaces the reported usage, and
  the counters of the event's own day and month hold the settled amounts in place of the reserved
  ones; where no such event is left it changes nothing. A settled or failed event is never settled
  again, so a second settlement of the same call changes nothing.
\<close>

lemma settlement_happens_once:
  assumes "ledger_ok db" and "status \<noteq> Usage_Pending"
    and "settleModelUsageEvent inst i [Usage_Pending, Usage_Abandoned] status settlement counted db = (db', changed)"
  shows "(changed \<longleftrightarrow> (\<exists>e \<in> set (db_events db). ue_instance e = inst \<and> ue_id e = i \<and>
        ue_status e \<in> {Usage_Pending, Usage_Abandoned})) \<and>
    (\<not> changed \<longrightarrow> db' = db) \<and>
    (changed \<longrightarrow> (\<exists>old \<in> set (db_events db). ue_id old = i \<and>
        set (db_events db') = insert (settled_event settlement status counted old) (set (db_events db) - {old}) \<and>
        (\<forall>p c. in_period p (ue_createdAt old) \<longrightarrow> counter_of inst p (db_counters db) = Some c \<longrightarrow>
          counter_of inst p (db_counters db') = Some (recount counted old c)))) \<and>
    (status \<noteq> Usage_Abandoned \<longrightarrow>
      settleModelUsageEvent inst i [Usage_Pending, Usage_Abandoned] status' settlement' counted' db' = (db', False))"
  using assms(3)
proof (cases rule: settle_event_cases)
  case none
  then have "List.find (\<lambda>e. ue_instance e = inst \<and> ue_id e = i \<and>
      ue_status e \<in> set [Usage_Pending, Usage_Abandoned]) (db_events db) = None"
    unfolding find_None_iff by blast
  with none show ?thesis by (auto simp: settleModelUsageEvent_def)
next
  case (one old)
  let ?new = "settled_event settlement status counted old"
  from assms(1) have ids: "distinct (map ue_id (db_events db))"
    and keys: "distinct (map counter_key (db_counters db))" by (simp_all add: ledger_ok_def)
  note events = set_update_id[OF ids one(2), of "settled_event settlement status counted"]
  have kept: "counter_of inst p (db_counters db') = Some (recount counted old c)"
    if "in_period p (ue_createdAt old)" "counter_of inst p (db_counters db) = Some c" for p c
    unfolding one(7)
    by (rule counter_of_update[where c = c])
      (use that counter_of_Some[OF that(2)] keys in \<open>simp_all add: instance_counters_def in_period_iff\<close>)
  have again: "settleModelUsageEvent inst i [Usage_Pending, Usage_Abandoned] status' settlement' counted' db' =
      (db', False)" if "status \<noteq> Usage_Abandoned"
    using settled_is_over[OF ids one(2,6)] assms(2) that one(4) by simp
  have "set (db_events db') = insert ?new (set (db_events db) - {old})"
    using events one(6) by simp
  moreover have "\<exists>e \<in> set (db_events db). ue_instance e = inst \<and> ue_id e = i \<and>
      ue_status e \<in> {Usage_Pending, Usage_Abandoned}"
    using one(2-5) by (intro bexI[of _ old]) auto
  ultimately show ?thesis using one(1,2,4) kept again by blast
qed

lemma settlement_happens_once_witness:
  "\<exists>db'. settleModelUsageEvent ''ci'' ''e1'' [Usage_Pending, Usage_Abandoned] Usage_Settled
      (in_settlement demo_event) demo_reservation demo_ledger = (db', True) \<and>
    settleModelUsageEvent ''ci'' ''e1'' [Usage_Pending, Usage_Abandoned] Usage_Failed
      (in_settlement demo_event) demo_reservation db' = (db', False)"
proof -
  have ok: "ledger_ok demo_ledger" using usage.inv_reachable[OF demo_ledger_reachable] .
  let ?r = "settleModelUsageEvent ''ci'' ''e1'' [Usage_Pending, Usage_Abandoned] Usage_Settled
      (in_settlement demo_event) demo_reservation demo_ledger"
  have split: "?r = (fst ?r, snd ?r)" by simp
  from settlement_happens_once[OF ok _ split, where status' = Usage_Failed
      and settlement' = "in_settlement demo_event" and counted' = demo_reservation]
  have "snd ?r \<longleftrightarrow> (\<exists>e \<in> set (db_events demo_ledger). ue_instance e = ''ci'' \<and> ue_id e = ''e1'' \<and>
      ue_status e \<in> {Usage_Pending, Usage_Abandoned})"
    and again: "settleModelUsageEvent ''ci'' ''e1'' [Usage_Pending, Usage_Abandoned] Usage_Failed
      (in_settlement demo_event) demo_reservation (fst ?r) = (fst ?r, False)"
    by simp_all
  moreover have "\<exists>e \<in> set (db_events demo_ledger). ue_instance e = ''ci'' \<and> ue_id e = ''e1'' \<and>
      ue_status e \<in> {Usage_Pending, Usage_Abandoned}"
    by (simp add: demo_ledger_def new_event_def demo_event_def)
  ultimately have "snd ?r" by blast
  with split again show ?thesis by metis
qed

text \<open>
  A reconciliation repairs: whatever the counters of the current day and month and the daily sums
  held before, afterwards they hold exactly what the events say; counters of other periods, the sums
  of other instances and the events stay as they were, and an exact ledger is not touched at all.
\<close>

lemma reconciliation_repairs:
  assumes "distinct (map rollup_ident (db_rollups db))"
  shows "(case reconcileModelUsage now inst db of (db', corrected_counters, corrected_sums) \<Rightarrow>
      db_events db' = db_events db \<and>
      (\<forall>c \<in> set (db_counters db'). instance_counters inst now c \<longrightarrow>
        c = new_counter inst (db_events db) (ctr_period c)) \<and>
      (\<forall>c \<in> set (db_counters db). \<not> instance_counters inst now c \<longrightarrow> c \<in> set (db_counters db')) \<and>
      map counter_key (db_counters db') = map counter_key (db_counters db) \<and>
      (\<forall>key column. rollup_value inst key (db_rollups db') column = ledger_value inst key (db_events db) column) \<and>
      (\<forall>inst' key column. inst' \<noteq> inst \<longrightarrow>
        rollup_value inst' key (db_rollups db') column = rollup_value inst' key (db_rollups db) column)) \<and>
    (ledger_ok db \<longrightarrow> reconcileModelUsage now inst db = (db, 0, 0))"
proof -
  let ?p = "\<lambda>c. instance_counters inst now c \<and> drifted db c"
  let ?cs = "update_where ?p (reconcile_counter db) (db_counters db)"
  have "c = new_counter inst (db_events db) (ctr_period c)"
    if c: "c \<in> set ?cs" and own: "instance_counters inst now c" for c
    using c
  proof (rule in_update_whereE)
    fix d assume d: "d \<in> set (db_counters db)" "?p d" "c = reconcile_counter db d"
    then have "c = new_counter inst (db_events db) (ctr_period d)"
      by (simp add: reconcile_counter_exact instance_counters_def)
    then show ?thesis by (simp add: new_counter_sums)
  next
    assume "c \<in> set (db_counters db)" "\<not> ?p c"
    with own show ?thesis by (simp add: drifted_def instance_counters_def)
  qed
  moreover have "c \<in> set ?cs" if "c \<in> set (db_counters db)" "\<not> instance_counters inst now c" for c
    using that unfolding set_update_where by blast
  moreover have "map counter_key ?cs = map counter_key (db_counters db)"
    by (rule counter_keys_update) simp
  moreover have "rollup_value inst' key (addToRollups inst (rollup_differences inst db) (db_rollups db)) column =
      (if inst' = inst then ledger_value inst key (db_events db) column
       else rollup_value inst' key (db_rollups db) column)" for inst' key column
    by (simp add: addToRollups_value[OF assms] rollup_differences_sum)
  moreover have "ledger_ok db \<longrightarrow> reconcileModelUsage now inst db = (db, 0, 0)"
    using reconcile_exact by blast
  ultimately show ?thesis
    by (intro conjI) (simp_all only: reconcileModelUsage_def prod.case, simp)
qed

lemma reconciliation_repairs_witness:
  "db_events (fst (reconcileModelUsage 5 ''ci'' demo_ledger)) = db_events demo_ledger \<and>
    reconcileModelUsage 5 ''ci'' demo_ledger = (demo_ledger, 0, 0)"
proof -
  have ok: "ledger_ok demo_ledger" using usage.inv_reachable[OF demo_ledger_reachable] .
  then have "distinct (map rollup_ident (db_rollups demo_ledger))" by (simp add: ledger_ok_def)
  from reconciliation_repairs[OF this, where now = 5 and inst = "''ci''"] ok show ?thesis by simp
qed

text \<open>
  An event names nobody who is being deleted: an event made for a user whose deletion is requested
  or whose row is gone carries neither the user nor what leads back to them, its conversation, run,
  operation run and correlation id; an event for nobody in particular keeps them; a workspace is
  named only while it is open. What was used and what it cost is recorded in every case.
\<close>

theorem events_name_nobody_in_deletion:
  shows "(case uo_user (in_origin ev) of
      None \<Rightarrow> True
    | Some u \<Rightarrow>
        (\<nexists>x. x \<in> set (ppl_users ppl) \<and> del_instance x = in_instance ev \<and> del_id x = u \<and> del_requestedAt x = None) \<longrightarrow>
        (case ue_origin (new_event now ppl i ev st counted) of o' \<Rightarrow>
          uo_user o' = None \<and> uo_conversation o' = None \<and> uo_agentRun o' = None \<and> uo_operationRun o' = None) \<and>
        ue_correlation (new_event now ppl i ev st counted) = '''') \<and>
    (uo_user (in_origin ev) = None \<longrightarrow>
      uo_conversation (ue_origin (new_event now ppl i ev st counted)) = uo_conversation (in_origin ev) \<and>
      uo_user (ue_origin (new_event now ppl i ev st counted)) = None \<and>
      ue_correlation (new_event now ppl i ev st counted) = in_correlation ev) \<and>
    (\<forall>w. uo_workspace (ue_origin (new_event now ppl i ev st counted)) = Some w \<longrightarrow>
      (\<exists>x. x \<in> set (ppl_workspaces ppl) \<and> del_instance x = in_instance ev \<and> del_id x = w \<and> del_requestedAt x = None)) \<and>
    ue_call (new_event now ppl i ev st counted) = in_call ev \<and>
    ue_settlement (new_event now ppl i ev st counted) = in_settlement ev"
proof -
  have closed: "\<not> user_open ppl ev" if "uo_user (in_origin ev) = Some u"
    "\<nexists>x. x \<in> set (ppl_users ppl) \<and> del_instance x = in_instance ev \<and> del_id x = u \<and> del_requestedAt x = None" for u
    using that find_Some_iff[of _ "ppl_users ppl"]
    by (fastforce simp: user_open_def attributed_user_def split: option.splits)
  have nobody: "\<not> user_open ppl ev" if "uo_user (in_origin ev) = None"
    using that by (auto simp: user_open_def attributed_user_def split: option.splits dest: find_Some_iff)
  have open_ws: "\<exists>x. x \<in> set (ppl_workspaces ppl) \<and> del_instance x = in_instance ev \<and> del_id x = w \<and>
      del_requestedAt x = None" if "attributed_workspace ppl ev = Some w" for w
    using that unfolding attributed_workspace_def Let_def by (auto dest: find_Some_iff)
  show ?thesis
    using closed nobody open_ws
    by (cases "uo_user (in_origin ev)") (auto simp: new_event_def personal_def or_empty_def)
qed

lemma events_name_nobody_in_deletion_witness:
  "uo_user (ue_origin (new_event 5 demo_people ''e1'' demo_event Usage_Pending demo_reservation)) = None \<and>
    uo_conversation (ue_origin (new_event 5 demo_people ''e1'' demo_event Usage_Pending demo_reservation)) = None"
  using events_name_nobody_in_deletion[where ev = demo_event and ppl = demo_people and now = 5
      and i = "''e1''" and st = Usage_Pending and counted = demo_reservation]
  by (simp add: demo_event_def demo_people_def)

end
