(* ===== verification/Usage_Governance.thy ===== *)
theory Usage_Governance imports Usage_Ledger_Facts begin

text \<open>
  The governance of model calls (\<open>packages/usage-governance/src/index.ts\<close>): what a call reserves
  before it is sent, its admission, its settlement with what the provider reported, the recovery of
  calls that never ended, and usage nobody admitted.
\<close>

section \<open>Calls and their usage\<close>

datatype model_attribution =
  Agent_Run_Attribution string string string string "string option"
| System_Attribution string "string option" "string option" "string option" "string option"

record model_call =
  mc_instance :: string
  mc_attribution :: model_attribution
  mc_provider :: string
  mc_model :: string
  mc_region :: "string option"
  mc_binding :: "string option"
  mc_fastMode :: "bool option"
  mc_correlation :: string

record request_size =
  rq_inputCharacters :: js_number
  rq_maxOutputTokens :: "js_number option"

record model_call_usage =
  mu_input :: js_number
  mu_cached :: "js_number option"
  mu_output :: js_number
  mu_total :: js_number
  mu_source :: usage_source
  mu_webSearches :: "js_number option"
  mu_tier :: "string option"

record admitted_call =
  ad_id :: string
  ad_instance :: string
  ad_provider :: string
  ad_model :: string
  ad_fastMode :: bool
  ad_reserved :: usage_counted

record governance =
  gov_dailySpend :: "rat option"
  gov_monthlySpend :: "rat option"
  gov_multiplier :: "rat option"
  gov_callsPerDay :: "int option"
  gov_tokensPerDay :: "int option"
  gov_tokensPerMonth :: "int option"
  gov_card :: "rate_card option"
  gov_free :: "string list"
  gov_abandonedAfterMs :: rat

definition MODEL_CALL_RESERVED_OUTPUT_TOKENS :: int where
  "MODEL_CALL_RESERVED_OUTPUT_TOKENS = 16000"

definition RESERVED_CHARACTERS_PER_INPUT_TOKEN :: int where
  "RESERVED_CHARACTERS_PER_INPUT_TOKEN = 3"

definition USAGE_RECOVERY_BATCH :: nat where
  "USAGE_RECOVERY_BATCH = 200"

definition NOTHING_REPORTED :: model_call_usage where
  "NOTHING_REPORTED =
     \<lparr> mu_input = whole 0, mu_cached = Some (whole 0), mu_output = whole 0, mu_total = whole 0,
       mu_source = Not_Reported, mu_webSearches = Some (whole 0), mu_tier = None \<rparr>"

definition NOTHING_COUNTED :: usage_counted where
  "NOTHING_COUNTED = \<lparr> counted_tokens = 0, counted_cost = 0 \<rparr>"

section \<open>Reservations\<close>

definition toMicros :: "rat \<Rightarrow> int" where
  "toMicros value = js_round (value * 1000000)"

text \<open>A limit of zero is no limit, as an absent one.\<close>

definition truthy :: "'a::zero option \<Rightarrow> 'a option" where
  "truthy n = (if n = Some 0 then None else n)"

definition spend :: "governance \<Rightarrow> rat option \<Rightarrow> int option" where
  "spend g limit =
     map_option (\<lambda>l. \<lfloor>of_int (toMicros l) / (case gov_multiplier g of Some m \<Rightarrow> m | None \<Rightarrow> 1)\<rfloor>) (truthy limit)"

definition usage_limits :: "governance \<Rightarrow> period_limits" where
  "usage_limits g =
     \<lparr> lim_day =
         \<lparr> lim_calls = truthy (gov_callsPerDay g), lim_tokens = truthy (gov_tokensPerDay g),
           lim_cost = spend g (gov_dailySpend g) \<rparr>,
       lim_month =
         \<lparr> lim_calls = None, lim_tokens = truthy (gov_tokensPerMonth g),
           lim_cost = spend g (gov_monthlySpend g) \<rparr> \<rparr>"

definition highestCost :: "governance \<Rightarrow> model_call \<Rightarrow> int \<Rightarrow> int \<Rightarrow> int option" where
  "highestCost g call inputTokens outputTokens =
     (case Option.bind (gov_card g) (\<lambda>rc. find_model_rate rc (mc_provider call) (mc_model call)) of
        None \<Rightarrow> None
      | Some rate \<Rightarrow>
          (if mc_fastMode call = Some True \<and> rate_fast rate = None then None
           else
             (let fast = (if mc_fastMode call = Some True then rate_fast rate else None);
                  highest = (\<lambda>price. case fast of
                      None \<Rightarrow> price (rate_normal rate)
                    | Some f \<Rightarrow> max (price (rate_normal rate)) (price f))
              in Some (priceTokens (whole inputTokens) (highest (\<lambda>r. max (uncachedPrice r) (cachedPrice r)))
                   + priceTokens (whole outputTokens) (highest outputPrice)))))"

definition reserved_input :: "request_size \<Rightarrow> int" where
  "reserved_input rq =
     \<lceil>of_int (normalizeCount (rq_inputCharacters rq)) / (of_int RESERVED_CHARACTERS_PER_INPUT_TOKEN :: rat)\<rceil>"

definition reserved_output :: "request_size \<Rightarrow> int" where
  "reserved_output rq =
     normalizeCount (case rq_maxOutputTokens rq of Some n \<Rightarrow> n | None \<Rightarrow> whole MODEL_CALL_RESERVED_OUTPUT_TOKENS)"

definition reservationOf :: "governance \<Rightarrow> model_call \<Rightarrow> request_size \<Rightarrow> (js_error, usage_counted) result" where
  "reservationOf g call rq =
     (let inputTokens = reserved_input rq; outputTokens = reserved_output rq;
          costMicros = (if mc_provider call \<in> set (gov_free g) then Some 0
                        else highestCost g call inputTokens outputTokens)
      in if costMicros = None \<and> (truthy (gov_dailySpend g) \<noteq> None \<or> truthy (gov_monthlySpend g) \<noteq> None) then
           Inl (app_error FORBIDDEN
             ''The model has no price on the rate card; the spend budget cannot be evaluated safely'')
         else Inr \<lparr> counted_tokens = inputTokens + outputTokens,
                counted_cost = (case costMicros of Some n \<Rightarrow> n | None \<Rightarrow> 0) \<rparr>)"

section \<open>Settlements\<close>

text \<open>\<open>None\<close> is the constant \<open>NOTHING_REPORTED\<close>, which the code tells by its identity.\<close>

definition settlementOf ::
    "string \<Rightarrow> string \<Rightarrow> bool option \<Rightarrow> model_call_usage option \<Rightarrow> rate_card option \<Rightarrow> usage_settlement" where
  "settlementOf provider model fastMode reported rateCard =
     (let usage = (case reported of Some u \<Rightarrow> u | None \<Rightarrow> NOTHING_REPORTED);
          inputTokens = normalizeCount (mu_input usage);
          cached = map_option (\<lambda>c. min (normalizeCount c) inputTokens) (mu_cached usage);
          outputTokens = normalizeCount (mu_output usage);
          web = normalizeCount (case mu_webSearches usage of Some n \<Rightarrow> n | None \<Rightarrow> whole 0)
      in \<lparr> us_input = inputTokens, us_cached = cached, us_output = outputTokens,
           us_total = normalizeCount (mu_total usage), us_source = mu_source usage,
           us_webSearches = web, us_tier = mu_tier usage,
           us_cost = calculateUsageCost
             \<lparr> uce_provider = provider, uce_model = model, uce_input = whole inputTokens, uce_cached = cached,
               uce_output = whole outputTokens,
               uce_source = (if reported = None then Estimated else mu_source usage),
               uce_webSearches = Some web, uce_fastMode = fastMode, uce_tier = mu_tier usage \<rparr>
             rateCard Rate_Card \<rparr>)"

definition countedOf :: "usage_settlement \<Rightarrow> usage_counted \<Rightarrow> usage_counted" where
  "countedOf settlement reserved =
     \<lparr> counted_tokens =
         (if us_source settlement = Not_Reported then counted_tokens reserved else us_total settlement),
       counted_cost =
         (case settled_total (us_cost settlement) of Some n \<Rightarrow> n | None \<Rightarrow> counted_cost reserved) \<rparr>"

definition present :: "string option \<Rightarrow> string option" where
  "present s = (if s = Some '''' then None else s)"

fun usageEventOrigin :: "model_attribution \<Rightarrow> usage_origin" where
  "usageEventOrigin (Agent_Run_Attribution conversation run agent user workspace) =
     \<lparr> uo_conversation = Some conversation, uo_agentRun = Some run, uo_agentName = Some agent,
       uo_purpose = None, uo_user = Some user, uo_workspace = workspace, uo_operationRun = None \<rparr>"
| "usageEventOrigin (System_Attribution purpose user workspace conversation operationRun) =
     \<lparr> uo_conversation = present conversation, uo_agentRun = None, uo_agentName = Some purpose,
       uo_purpose = Some purpose, uo_user = user, uo_workspace = workspace,
       uo_operationRun = present operationRun \<rparr>"

definition eventOf :: "governance \<Rightarrow> model_call \<Rightarrow> model_call_usage option \<Rightarrow> usage_event_input" where
  "eventOf g call usage =
     \<lparr> in_instance = mc_instance call, in_origin = usageEventOrigin (mc_attribution call),
       in_call = \<lparr> uc_provider = mc_provider call, uc_model = mc_model call, uc_region = mc_region call,
         uc_binding = mc_binding call, uc_fastMode = (mc_fastMode call = Some True) \<rparr>,
       in_settlement = settlementOf (mc_provider call) (mc_model call) (mc_fastMode call) usage (gov_card g),
       in_correlation = mc_correlation call \<rparr>"

section \<open>The life of a call\<close>

definition refusalError :: "limit_period \<times> limit_metric \<Rightarrow> js_error" where
  "refusalError refusal =
     (let period = (case fst refusal of Limit_Day \<Rightarrow> ''Daily'' | Limit_Month \<Rightarrow> ''Monthly'') in
      modelUsageLimitReachedError (period @
        (case snd refusal of
           Metric_Calls \<Rightarrow> '' model call safeguard has been reached''
         | Metric_Tokens \<Rightarrow> '' model token safeguard has been reached''
         | Metric_Cost \<Rightarrow> '' model spend budget has been reached'')))"

text \<open>The store comes back with the answer, since a refusal may have started counters.\<close>

definition admitModelCall ::
    "governance \<Rightarrow> (nat \<Rightarrow> time) \<Rightarrow> people \<Rightarrow> string \<Rightarrow> model_call \<Rightarrow> request_size \<Rightarrow> usage_db \<Rightarrow>
      usage_db \<times> (js_error, admitted_call) result" where
  "admitModelCall g clocks ppl newId call rq db =
     (case reservationOf g call rq of
        Inl e \<Rightarrow> (db, Inl e)
      | Inr reserved \<Rightarrow>
          (case admitModelUsageEvent clocks ppl newId (eventOf g call None) reserved (usage_limits g) db of
             Inl e \<Rightarrow> (db, Inl e)
           | Inr (db', Inr refusal) \<Rightarrow> (db', Inl (refusalError refusal))
           | Inr (db', Inl i) \<Rightarrow>
               (db', Inr \<lparr> ad_id = i, ad_instance = mc_instance call, ad_provider = mc_provider call,
                  ad_model = mc_model call, ad_fastMode = (mc_fastMode call = Some True),
                  ad_reserved = reserved \<rparr>)))"

definition settleModelCall :: "governance \<Rightarrow> admitted_call \<Rightarrow> model_call_usage option \<Rightarrow> usage_db \<Rightarrow> usage_db" where
  "settleModelCall g admitted usage db =
     (let settlement = settlementOf (ad_provider admitted) (ad_model admitted) (Some (ad_fastMode admitted))
            usage (gov_card g)
      in fst (settleModelUsageEvent (ad_instance admitted) (ad_id admitted) [Usage_Pending, Usage_Abandoned]
           (if usage = None then Usage_Failed else Usage_Settled) settlement
           (if usage = None then NOTHING_COUNTED else countedOf settlement (ad_reserved admitted)) db))"

definition admitted_of :: "usage_event \<Rightarrow> admitted_call" where
  "admitted_of e =
     \<lparr> ad_id = ue_id e, ad_instance = ue_instance e, ad_provider = uc_provider (ue_call e),
       ad_model = uc_model (ue_call e), ad_fastMode = uc_fastMode (ue_call e),
       ad_reserved =
         \<lparr> counted_tokens = (case ue_countedTokens e of Some n \<Rightarrow> n | None \<Rightarrow> 0),
           counted_cost = (case ue_countedCost e of Some n \<Rightarrow> n | None \<Rightarrow> 0) \<rparr> \<rparr>"

definition abandon :: "governance \<Rightarrow> admitted_call \<Rightarrow> usage_db \<Rightarrow> usage_db \<times> bool" where
  "abandon g call db =
     settleModelUsageEvent (ad_instance call) (ad_id call) [Usage_Pending] Usage_Abandoned
       (settlementOf (ad_provider call) (ad_model call) (Some (ad_fastMode call)) None (gov_card g))
       NOTHING_COUNTED db"

fun abandon_all :: "governance \<Rightarrow> admitted_call list \<Rightarrow> usage_db \<Rightarrow> nat \<Rightarrow> usage_db \<times> nat" where
  "abandon_all g [] db released = (db, released)"
| "abandon_all g (c # cs) db released =
     (case abandon g c db of (db', changed) \<Rightarrow>
        abandon_all g cs db' (if changed then released + 1 else released))"

text \<open>
  The loop of the recovery: \<open>clocks k\<close> is the time of list \<open>k\<close> and \<open>aborted k\<close> the signal before it.
  The fuel bounds the lists.
\<close>

fun release_loop ::
    "nat \<Rightarrow> nat \<Rightarrow> governance \<Rightarrow> (nat \<Rightarrow> time) \<Rightarrow> (nat \<Rightarrow> bool) \<Rightarrow> string \<Rightarrow> usage_db \<Rightarrow> nat \<Rightarrow>
      (usage_db \<times> nat) option" where
  "release_loop 0 k g clocks aborted inst db released = None"
| "release_loop (Suc fuel) k g clocks aborted inst db released =
     (if aborted k then Some (db, released)
      else
        (let abandoned = map admitted_of
               (listPendingModelUsageEvents (clocks k) inst (gov_abandonedAfterMs g) USAGE_RECOVERY_BATCH db)
         in case abandon_all g abandoned db released of (db', released') \<Rightarrow>
              if length abandoned < USAGE_RECOVERY_BATCH then Some (db', released')
              else release_loop fuel (Suc k) g clocks aborted inst db' released'))"

definition releaseAbandonedModelCalls ::
    "nat \<Rightarrow> governance \<Rightarrow> (nat \<Rightarrow> time) \<Rightarrow> (nat \<Rightarrow> bool) \<Rightarrow> string \<Rightarrow> usage_db \<Rightarrow> (usage_db \<times> nat) option" where
  "releaseAbandonedModelCalls fuel g clocks aborted inst db = release_loop fuel 0 g clocks aborted inst db 0"

definition recordModelUsage ::
    "governance \<Rightarrow> (nat \<Rightarrow> time) \<Rightarrow> people \<Rightarrow> string \<Rightarrow> model_call \<Rightarrow> model_call_usage \<Rightarrow> usage_db \<Rightarrow>
      (js_error, usage_db) result" where
  "recordModelUsage g clocks ppl newId call usage db =
     (let event = eventOf g call (Some usage); settlement = in_settlement event in
      appendModelUsageEvent clocks ppl newId event
        (Some (countedOf settlement
          \<lparr> counted_tokens = us_total settlement,
            counted_cost = (case highestCost g call (us_input settlement) (us_output settlement) of
                Some n \<Rightarrow> n | None \<Rightarrow> 0) \<rparr>)) db)"

end
