(* ===== verification/Usage_Reports.thy ===== *)
theory Usage_Reports imports Usage_Governance begin

text \<open>
  What the Usage page reads: the sums of the days by month, by day and by caller
  (\<open>packages/postgres-store/src/postgres-usage-ledger.ts\<close>), and the windows, buckets and costs made
  of them (\<open>packages/usage-governance/src/index.ts\<close>). A date is the number of its day, a month the
  number of its month; a text that is empty in the key of a sum is absent in the report.
\<close>

section \<open>Totals\<close>

record usage_totals =
  ut_sums :: amounts
  ut_currencyCount :: int
  ut_currency :: "string option"

definition settled_currencies :: "usage_rollup list \<Rightarrow> string list" where
  "settled_currencies rows =
     remdups (map (\<lambda>r. rk_currency (ru_key r))
       (filter (\<lambda>r. rk_currency (ru_key r) \<noteq> '''' \<and> 0 < ru_amounts r Sum_Settled_Calls) rows))"

definition toTotals :: "usage_rollup list \<Rightarrow> usage_totals" where
  "toTotals rows =
     \<lparr> ut_sums = (\<lambda>column. \<Sum>r \<leftarrow> rows. ru_amounts r column),
       ut_currencyCount = int (length (settled_currencies rows)),
       ut_currency = least_by (\<lambda>c. c) (settled_currencies rows) \<rparr>"

definition NO_USAGE :: usage_totals where
  "NO_USAGE = \<lparr> ut_sums = (\<lambda>column. 0), ut_currencyCount = 0, ut_currency = None \<rparr>"

definition total_components :: "amounts \<Rightarrow> cost_components" where
  "total_components amts =
     \<lparr> uncachedCost = amts Sum_Uncached_Cost, cachedCost = amts Sum_Cached_Cost,
       outputCost = amts Sum_Output_Cost, webSearchCost = amts Sum_Web_Search_Cost \<rparr>"

section \<open>Summaries\<close>

definition rollups_of :: "string \<Rightarrow> usage_db \<Rightarrow> usage_rollup list" where
  "rollups_of inst db = filter (\<lambda>r. ru_instance r = inst) (db_rollups db)"

definition group_by :: "(usage_rollup \<Rightarrow> 'k::linorder) \<Rightarrow> usage_rollup list \<Rightarrow> ('k \<times> usage_totals) list" where
  "group_by key rows =
     map (\<lambda>k. (k, toTotals (filter (\<lambda>r. key r = k) rows))) (sort (remdups (map key rows)))"

definition used :: "('k \<times> usage_totals) list \<Rightarrow> ('k \<times> usage_totals) list" where
  "used groups = filter (\<lambda>g. 0 < ut_sums (snd g) Sum_Calls) groups"

record usage_history =
  uh_allTime :: usage_totals
  uh_months :: "(int \<times> usage_totals) list"

definition summarizeModelUsageHistory :: "string \<Rightarrow> usage_db \<Rightarrow> usage_history" where
  "summarizeModelUsageHistory inst db =
     \<lparr> uh_allTime = toTotals (rollups_of inst db),
       uh_months = used (group_by (\<lambda>r. month_of_day (rk_day (ru_key r))) (rollups_of inst db)) \<rparr>"

record attribution_group =
  ag_date :: int
  ag_model :: string
  ag_provider :: string
  ag_region :: "string option"
  ag_purpose :: "string option"
  ag_agentName :: "string option"
  ag_totals :: usage_totals

record recent_usage =
  ru_days :: "(int \<times> usage_totals) list"
  ru_byAttribution :: "attribution_group list"

definition attribution_key :: "usage_rollup \<Rightarrow> int \<times> string \<times> string \<times> string \<times> string \<times> string" where
  "attribution_key r =
     (let k = ru_key r in
      (rk_day k, rk_model k, rk_provider k, rk_region k, rk_purpose k, rk_agentName k))"

definition to_group ::
    "(int \<times> string \<times> string \<times> string \<times> string \<times> string) \<times> usage_totals \<Rightarrow> attribution_group" where
  "to_group g =
     (case g of ((day, model, provider, region, purpose, agent), totals) \<Rightarrow>
        \<lparr> ag_date = day, ag_model = model, ag_provider = provider, ag_region = present (Some region),
          ag_purpose = present (Some purpose), ag_agentName = present (Some agent), ag_totals = totals \<rparr>)"

definition summarizeRecentModelUsage :: "string \<Rightarrow> time \<Rightarrow> usage_db \<Rightarrow> recent_usage" where
  "summarizeRecentModelUsage inst since db =
     (let rows = filter (\<lambda>r. dayOf since \<le> rk_day (ru_key r)) (rollups_of inst db) in
      \<lparr> ru_days = used (group_by (\<lambda>r. rk_day (ru_key r)) rows),
        ru_byAttribution = map to_group (used (group_by attribution_key rows)) \<rparr>)"

section \<open>Windows\<close>

datatype cost_status = Status_Settled | Status_Incomplete | Status_Unpriced

record billable_cost =
  bc_status :: cost_status
  bc_currency :: "string option"
  bc_uncached :: "int option"
  bc_cached :: "int option"
  bc_output :: "int option"
  bc_webSearch :: "int option"
  bc_billable :: "int option"
  bc_complete :: bool
  bc_webVisible :: bool

record cost_summary = billable_cost +
  bc_settledCalls :: int
  bc_incompleteCalls :: int
  bc_settledWebSearches :: int
  bc_incompleteWebSearches :: int

record usage_window =
  uw_start :: "time option"
  uw_end :: "time option"
  uw_sums :: amounts
  uw_cost :: cost_summary

definition toSafeWindow ::
    "usage_totals \<Rightarrow> time option \<Rightarrow> time option \<Rightarrow> rate_card option \<Rightarrow> bool \<Rightarrow> usage_window" where
  "toSafeWindow totals from_time to_time rateCard showWebSearchCost =
     (let amts = ut_sums totals;
          empty = (amts Sum_Calls = 0);
          incomplete = amts Sum_Calls - amts Sum_Settled_Calls;
          complete = (incomplete = 0 \<and> ut_currencyCount totals \<le> 1 \<and> (\<not> empty \<or> rateCard \<noteq> None));
          currency = (case ut_currency totals of
              Some c \<Rightarrow> Some c
            | None \<Rightarrow> if empty then map_option card_currency rateCard else None);
          shown = (\<lambda>n. if complete then Some n else None)
      in \<lparr> uw_start = from_time, uw_end = to_time, uw_sums = amts,
           uw_cost =
             \<lparr> bc_status =
                 (if complete then Status_Settled
                  else if empty \<and> rateCard = None then Status_Unpriced else Status_Incomplete),
               bc_currency = present currency,
               bc_uncached = shown (amts Sum_Uncached_Cost), bc_cached = shown (amts Sum_Cached_Cost),
               bc_output = shown (amts Sum_Output_Cost),
               bc_webSearch = (if showWebSearchCost then shown (amts Sum_Web_Search_Cost) else None),
               bc_billable = shown (totalComponents (total_components amts)),
               bc_complete = complete, bc_webVisible = showWebSearchCost,
               bc_settledCalls = amts Sum_Settled_Calls, bc_incompleteCalls = incomplete,
               bc_settledWebSearches = amts Sum_Settled_Web_Searches,
               bc_incompleteWebSearches = amts Sum_Web_Searches - amts Sum_Settled_Web_Searches \<rparr> \<rparr>)"

fun cost_status_of :: "usage_cost \<Rightarrow> cost_status" where
  "cost_status_of (Settled_Cost _ _ _) = Status_Settled"
| "cost_status_of (Partly_Known_Cost _ _ _ _) = Status_Incomplete"
| "cost_status_of (Incomplete_Cost _ _ _) = Status_Incomplete"
| "cost_status_of (Unpriced_Cost _ _ _) = Status_Unpriced"

fun named_currency :: "usage_cost \<Rightarrow> string option" where
  "named_currency (Settled_Cost prov _ _) = Some (prov_currency prov)"
| "named_currency (Partly_Known_Cost prov _ _ _) = Some (prov_currency prov)"
| "named_currency (Incomplete_Cost _ named _) = map_option (\<lambda>(_, _, currency). currency) named"
| "named_currency (Unpriced_Cost _ named _) = map_option (\<lambda>(_, _, currency). currency) named"

fun shown_component :: "(cost_components \<Rightarrow> int) \<Rightarrow> usage_cost \<Rightarrow> int option" where
  "shown_component f (Settled_Cost _ comps _) = Some (f comps)"
| "shown_component f _ = None"

text \<open>An event as the page shows it: the user, the workspace and the binding are left out.\<close>

record safe_event =
  se_id :: string
  se_status :: usage_status
  se_instance :: string
  se_conversation :: "string option"
  se_agentRun :: "string option"
  se_agentName :: "string option"
  se_purpose :: "string option"
  se_provider :: string
  se_model :: string
  se_region :: "string option"
  se_input :: int
  se_cached :: "int option"
  se_output :: int
  se_total :: int
  se_source :: usage_source
  se_webSearches :: int
  se_billedAsFast :: bool
  se_correlation :: string
  se_createdAt :: time
  se_cost :: billable_cost

definition toSafeEvent :: "usage_event \<Rightarrow> bool \<Rightarrow> safe_event" where
  "toSafeEvent e showWebSearchCost =
     (let cost = us_cost (ue_settlement e) in
      \<lparr> se_id = ue_id e, se_status = ue_status e, se_instance = ue_instance e,
        se_conversation = uo_conversation (ue_origin e), se_agentRun = uo_agentRun (ue_origin e),
        se_agentName = uo_agentName (ue_origin e), se_purpose = uo_purpose (ue_origin e),
        se_provider = uc_provider (ue_call e), se_model = uc_model (ue_call e), se_region = uc_region (ue_call e),
        se_input = us_input (ue_settlement e), se_cached = us_cached (ue_settlement e),
        se_output = us_output (ue_settlement e), se_total = us_total (ue_settlement e),
        se_source = us_source (ue_settlement e), se_webSearches = us_webSearches (ue_settlement e),
        se_billedAsFast = isBilledAsFast (Some (uc_fastMode (ue_call e))) (us_tier (ue_settlement e)),
        se_correlation = ue_correlation e, se_createdAt = ue_createdAt e,
        se_cost =
          \<lparr> bc_status = cost_status_of cost, bc_currency = present (named_currency cost),
            bc_uncached = shown_component uncachedCost cost, bc_cached = shown_component cachedCost cost,
            bc_output = shown_component outputCost cost,
            bc_webSearch = (if showWebSearchCost then shown_component webSearchCost cost else None),
            bc_billable = settled_total cost, bc_complete = is_settled cost,
            bc_webVisible = showWebSearchCost \<rparr> \<rparr>)"

section \<open>The summary\<close>

definition DAILY_USAGE_BUCKET_COUNT :: int where
  "DAILY_USAGE_BUCKET_COUNT = 30"

definition RECENT_EVENT_COUNT :: nat where
  "RECENT_EVENT_COUNT = 25"

definition utcDayStart :: "int \<Rightarrow> time" where
  "utcDayStart day = of_int day * day_ms"

text \<open>The first day of a month counted from year zero, on the civil calendar.\<close>

definition month_first_day :: "int \<Rightarrow> int" where
  "month_first_day month =
     (let m = month mod 12 + 1; y = month div 12 - (if m \<le> 2 then 1 else 0);
          era = y div 400; yoe = y - era * 400;
          doy = (153 * (if 2 < m then m - 3 else m + 9) + 2) div 5;
          doe = yoe * 365 + yoe div 4 - yoe div 100 + doy
      in era * 146097 + doe - 719468)"

definition utcMonthStart :: "int \<Rightarrow> time" where
  "utcMonthStart month = utcDayStart (month_first_day month)"

record usage_summary =
  sum_generatedAt :: time
  sum_currency :: "string option"
  sum_dailyLimitMicros :: "int option"
  sum_monthlyLimitMicros :: "int option"
  sum_callsPerDay :: "int option"
  sum_tokensPerDay :: "int option"
  sum_tokensPerMonth :: "int option"
  sum_today :: usage_window
  sum_currentMonth :: usage_window
  sum_allTime :: usage_window
  sum_dailyUsage :: "(int \<times> usage_window) list"
  sum_monthlyUsage :: "(int \<times> usage_window) list"
  sum_attributedUsage :: "(attribution_group \<times> usage_window) list"
  sum_recentEvents :: "safe_event list"

definition costed ::
    "rate_card option \<Rightarrow> bool \<Rightarrow> usage_totals option \<Rightarrow> time option \<Rightarrow> time option \<Rightarrow> usage_window" where
  "costed rateCard showWebSearchCost totals from_time to_time =
     toSafeWindow (case totals of Some t \<Rightarrow> t | None \<Rightarrow> NO_USAGE) from_time to_time rateCard showWebSearchCost"

text \<open>The events of an instance without a window or a page, the newest first.\<close>

definition listModelUsageEvents :: "string \<Rightarrow> nat \<Rightarrow> usage_db \<Rightarrow> usage_event list" where
  "listModelUsageEvents inst limit db =
     take limit (rev (sort_key (\<lambda>e. (ue_createdAt e, ue_id e))
       (filter (\<lambda>e. ue_instance e = inst) (db_events db))))"

text \<open>The months of the loop are those that start at the latest now.\<close>

definition createSafeSummary ::
    "governance \<Rightarrow> string \<Rightarrow> time \<Rightarrow> bool option \<Rightarrow> usage_db \<Rightarrow> usage_summary" where
  "createSafeSummary g inst now webSearchEnabled db =
     (let today = dayOf now; month = monthOf now;
          recentEvents = listModelUsageEvents inst RECENT_EVENT_COUNT db;
          history = summarizeModelUsageHistory inst db;
          recent = summarizeRecentModelUsage inst (utcDayStart (today + (1 - DAILY_USAGE_BUCKET_COUNT))) db;
          rateCard = gov_card g;
          has_web_rates = (case Option.bind rateCard card_webSearch of Some (_ # _) \<Rightarrow> True | _ \<Rightarrow> False);
          showWebSearchCost = (case webSearchEnabled of
              Some b \<Rightarrow> b
            | None \<Rightarrow> has_web_rates \<or> 0 < ut_sums (uh_allTime history) Sum_Web_Searches);
          window = costed rateCard showWebSearchCost;
          days = map_of (ru_days recent); months = map_of (uh_months history);
          firstMonth = (case uh_months history of m # _ \<Rightarrow> fst m | [] \<Rightarrow> month)
      in \<lparr> sum_generatedAt = now,
           sum_currency = present (map_option card_currency rateCard),
           sum_dailyLimitMicros = map_option toMicros (gov_dailySpend g),
           sum_monthlyLimitMicros = map_option toMicros (gov_monthlySpend g),
           sum_callsPerDay = gov_callsPerDay g, sum_tokensPerDay = gov_tokensPerDay g,
           sum_tokensPerMonth = gov_tokensPerMonth g,
           sum_today = window (days today) (Some (utcDayStart today)) None,
           sum_currentMonth = window (months month) (Some (utcMonthStart month)) None,
           sum_allTime = window (Some (uh_allTime history)) None None,
           sum_dailyUsage =
             map (\<lambda>day. (day, window (days day) (Some (utcDayStart day)) (Some (utcDayStart (day + 1)))))
               [today + (1 - DAILY_USAGE_BUCKET_COUNT)..today],
           sum_monthlyUsage =
             map (\<lambda>m. (m, window (months m) (Some (utcMonthStart m)) (Some (utcMonthStart (m + 1)))))
               [firstMonth..month],
           sum_attributedUsage =
             map (\<lambda>group. (group, window (Some (ag_totals group)) None None)) (ru_byAttribution recent),
           sum_recentEvents = map (\<lambda>e. toSafeEvent e showWebSearchCost) recentEvents \<rparr>)"

end
