(* ===== verification/Usage_Calls.thy ===== *)
theory Usage_Calls imports Usage_Governance begin

text \<open>
  What the governance of model calls promises: costs that are settled only when every meter has a
  rate, reservations that cover what a call settles, unknown amounts that never count as none, and
  a recovery that releases every abandoned call and nothing else.
\<close>

section \<open>Costs\<close>

text \<open>What a cost would be without rounding, at the rates that apply.\<close>

definition exact_cost :: "usage_cost_event \<Rightarrow> token_rates \<Rightarrow> web_search_rate option \<Rightarrow> rat" where
  "exact_cost e rates web =
     (let c = (case known_cached e rates of Some c \<Rightarrow> c | None \<Rightarrow> 0) in
      of_int (max 0 (normalizeCount (uce_input e) - c)) * uncachedPrice rates
      + of_int (max 0 c) * cachedPrice rates
      + of_int (normalizeCount (uce_output e)) * outputPrice rates
      + (case web of Some r \<Rightarrow> of_int (web_searches e) * pricePerCall r * 1000000 | None \<Rightarrow> 0))"

lemma js_round_near: "\<bar>of_int (js_round x) - x\<bar> \<le> 1 / 2"
  unfolding js_round_def by linarith

lemma priceTokens_near: "\<bar>of_int (priceTokens n p) - of_int (normalizeCount n) * p\<bar> \<le> 1 / 2"
  unfolding priceTokens_def by (rule js_round_near)

lemma four_near:
  fixes a b c d x y z w :: rat
  assumes "\<bar>a - x\<bar> \<le> 1 / 2" "\<bar>b - y\<bar> \<le> 1 / 2" "\<bar>c - z\<bar> \<le> 1 / 2" "\<bar>d - w\<bar> \<le> 1 / 2"
  shows "\<bar>a + b + c + d - (x + y + z + w)\<bar> \<le> 2"
  using assms by linarith

lemma known_components_near:
  assumes "known_cached e rates \<noteq> None"
  shows "\<bar>of_int (totalComponents (calculateKnownComponents e rates web)) - exact_cost e rates web\<bar> \<le> 2"
proof -
  obtain c where c: "known_cached e rates = Some c" using assms by auto
  let ?u = "whole (max 0 (normalizeCount (uce_input e) - c))" and ?o = "whole (normalizeCount (uce_output e))"
  let ?comps = "calculateKnownComponents e rates web"
  have "\<bar>of_int (uncachedCost ?comps) -
      of_int (max 0 (normalizeCount (uce_input e) - c)) * uncachedPrice rates\<bar> \<le> 1 / 2"
    using priceTokens_near[of ?u "uncachedPrice rates"] by (simp add: calculateKnownComponents_def c)
  moreover have "\<bar>of_int (cachedCost ?comps) - of_int (max 0 c) * cachedPrice rates\<bar> \<le> 1 / 2"
    using priceTokens_near[of "whole c" "cachedPrice rates"] by (simp add: calculateKnownComponents_def c)
  moreover have "\<bar>of_int (outputCost ?comps) - of_int (normalizeCount (uce_output e)) * outputPrice rates\<bar> \<le> 1 / 2"
    using priceTokens_near[of ?o "outputPrice rates"] by (simp add: calculateKnownComponents_def)
  moreover have "\<bar>of_int (webSearchCost ?comps) -
      (case web of Some r \<Rightarrow> of_int (web_searches e) * pricePerCall r * 1000000 | None \<Rightarrow> 0)\<bar> \<le> 1 / 2"
    using js_round_near by (auto simp: calculateKnownComponents_def split: option.split)
  ultimately show ?thesis
    unfolding totalComponents_def exact_cost_def Let_def c option.case of_int_add by (rule four_near)
qed

definition applied_rates :: "rate_card \<Rightarrow> usage_cost_event \<Rightarrow> token_rates option" where
  "applied_rates rc e =
     Option.bind (find_model_rate rc (uce_provider e) (uce_model e))
       (\<lambda>rate. if isBilledAsFast (uce_fastMode e) (uce_tier e) then rate_fast rate else Some (rate_normal rate))"

lemma missing_meters_none:
  "missing_meters e rates web = [] \<longleftrightarrow>
    (uce_cached e = None \<longrightarrow> cachedPrice rates = uncachedPrice rates) \<and> (0 < web_searches e \<longrightarrow> web \<noteq> None)"
  by (auto simp: missing_meters_def)

lemma known_cached_when_whole: "missing_meters e rates web = [] \<Longrightarrow> known_cached e rates \<noteq> None"
  by (auto simp: missing_meters_none known_cached_def split: option.splits)

lemma cost_by_rates:
  "calculateUsageCost e (Some rc) src =
    (if uce_source e = Not_Reported then Incomplete_Cost src (Some (card_name rc)) [Missing_Token_Usage]
     else (case applied_rates rc e of
       None \<Rightarrow> Unpriced_Cost src (Some (card_name rc))
         [if find_model_rate rc (uce_provider e) (uce_model e) = None then Missing_Model_Rate else Missing_Fast_Rate]
     | Some rates \<Rightarrow>
         (let web = findWebSearchRate rc e; missing = missing_meters e rates web;
              comps = calculateKnownComponents e rates web;
              prov = \<lparr> prov_source = src, prov_card = card_id rc, prov_version = card_version rc,
                prov_currency = card_currency rc, prov_rates = rates, prov_webSearch = map_option pricePerCall web \<rparr>
          in if missing \<noteq> [] then Partly_Known_Cost prov comps (totalComponents comps) missing
             else Settled_Cost prov comps (totalComponents comps))))"
  by (auto simp: calculateUsageCost_def applied_rates_def Let_def split: option.split)

lemma applied_rates_ok: "card_ok rc \<Longrightarrow> applied_rates rc e = Some rates \<Longrightarrow> rates_ok rates"
  unfolding applied_rates_def card_ok_def
  by (auto split: if_splits option.splits simp: Option.bind_eq_Some_conv dest!: find_model_rate_in)

lemma web_rate_ok: "card_ok rc \<Longrightarrow> findWebSearchRate rc e = Some w \<Longrightarrow> 0 \<le> pricePerCall w"
  unfolding card_ok_def using findWebSearchRate_in[of rc e w] by blast

section \<open>Reservations\<close>

lemma settled_within_highest:
  assumes rates: "applied_rates rc e = Some rates" and ok: "card_ok rc"
    and settled: "calculateUsageCost e (Some rc) src = Settled_Cost prov comps amount"
    and high: "highestCost g call i out = Some h" and "gov_card g = Some rc"
    and "uce_provider e = mc_provider call" "uce_model e = mc_model call"
    and "uce_fastMode e = Some True \<Longrightarrow> mc_fastMode call = Some True"
    and inp: "uce_input e = whole n" "0 \<le> n" "n \<le> i" and outp: "normalizeCount (uce_output e) \<le> out"
    and cached: "\<And>c. uce_cached e = Some c \<Longrightarrow> 0 \<le> c \<and> c \<le> n"
  shows "amount - webSearchCost comps \<le> h + 1"
proof -
  let ?web = "findWebSearchRate rc e"
  from settled rates have whole_cost: "missing_meters e rates ?web = []" "comps = calculateKnownComponents e rates ?web"
    "amount = totalComponents comps"
    by (auto simp: cost_by_rates Let_def split: if_splits)
  from known_cached_when_whole[OF whole_cost(1)] obtain c where c: "known_cached e rates = Some c" by auto
  with cached \<open>0 \<le> n\<close> have cn: "0 \<le> c" "c \<le> n"
    by (auto simp: known_cached_def split: option.splits if_splits)
  obtain rate where rate: "find_model_rate rc (mc_provider call) (mc_model call) = Some rate"
    and which: "rates = rate_normal rate \<or> (mc_fastMode call = Some True \<and> rate_fast rate = Some rates)"
    using rates assms(6-8) by (auto simp: applied_rates_def bind_eq_Some_conv isBilledAsFast_def split: if_splits)
  obtain m k where h: "h = priceTokens (whole i) m + priceTokens (whole out) k"
    and m: "uncachedPrice rates \<le> m" "cachedPrice rates \<le> m" and k: "outputPrice rates \<le> k"
    using high rate which \<open>gov_card g = Some rc\<close>
    by (auto simp: highestCost_def Let_def split: option.splits if_splits)
  have nonneg: "0 \<le> uncachedPrice rates" "0 \<le> cachedPrice rates" "0 \<le> outputPrice rates"
    using applied_rates_ok[OF ok rates] by (simp_all add: rates_ok_def)
  have "priceTokens (whole (n - c)) (uncachedPrice rates) + priceTokens (whole c) (cachedPrice rates) \<le>
      priceTokens (whole n) m + 1"
    using priceTokens_split[OF nonneg(1,2) m cn] .
  moreover have "priceTokens (whole n) m \<le> priceTokens (whole i) m"
    using nonneg m inp by (intro priceTokens_mono) simp_all
  moreover have "priceTokens (whole (normalizeCount (uce_output e))) (outputPrice rates) \<le> priceTokens (whole out) k"
    using nonneg k outp by (intro priceTokens_mono) simp_all
  ultimately show ?thesis
    using cn inp by (simp add: whole_cost h totalComponents_def calculateKnownComponents_def c max_def)
qed

section \<open>Recovery\<close>

definition abandoned_event :: "governance \<Rightarrow> usage_event \<Rightarrow> usage_event" where
  "abandoned_event g e =
     settled_event
       (settlementOf (uc_provider (ue_call e)) (uc_model (ue_call e)) (Some (uc_fastMode (ue_call e))) None (gov_card g))
       Usage_Abandoned NOTHING_COUNTED e"

lemma abandoned_event_sel [simp]:
  "ue_id (abandoned_event g e) = ue_id e" "ue_instance (abandoned_event g e) = ue_instance e"
  "ue_status (abandoned_event g e) = Usage_Abandoned"
  by (simp_all add: abandoned_event_def)

lemma abandon_one:
  assumes ok: "ledger_ok db" and e: "e \<in> set (db_events db)" "ue_status e = Usage_Pending"
  shows "\<exists>db'. abandon g (admitted_of e) db = (db', True) \<and> ledger_ok db' \<and>
    db_events db' = map (\<lambda>x. if x = e then abandoned_event g x else x) (db_events db)"
proof -
  let ?s = "settlementOf (uc_provider (ue_call e)) (uc_model (ue_call e)) (Some (uc_fastMode (ue_call e))) None (gov_card g)"
  have a: "abandon g (admitted_of e) db = settleModelUsageEvent (ue_instance e) (ue_id e) [Usage_Pending]
      Usage_Abandoned ?s NOTHING_COUNTED db"
    by (simp add: abandon_def admitted_of_def)
  obtain db' changed where r: "settleModelUsageEvent (ue_instance e) (ue_id e) [Usage_Pending]
      Usage_Abandoned ?s NOTHING_COUNTED db = (db', changed)" by fastforce
  from ok have ids: "distinct (map ue_id (db_events db))" by (simp add: ledger_ok_def)
  from r show ?thesis
  proof (cases rule: settle_event_cases)
    case none
    with e show ?thesis by auto
  next
    case (one old)
    then have "old = e" using distinct_map_inj[OF ids one(2) e(1)] by simp
    have "ue_id x = ue_id e \<longleftrightarrow> x = e" if "x \<in> set (db_events db)" for x
      using distinct_map_inj[OF ids that e(1)] by blast
    then have "db_events db' = map (\<lambda>x. if x = e then abandoned_event g x else x) (db_events db)"
      unfolding one(6) update_where_def abandoned_event_def \<open>old = e\<close> by (intro map_cong refl) simp
    moreover have "ledger_ok db'" using ledger_ok_settle[OF r ok] by simp
    ultimately show ?thesis using a r one(1) by simp
  qed
qed

lemma abandon_all_spec:
  "ledger_ok db \<Longrightarrow> distinct es \<Longrightarrow> (\<forall>e \<in> set es. e \<in> set (db_events db) \<and> ue_status e = Usage_Pending) \<Longrightarrow>
    \<exists>db'. abandon_all g (map admitted_of es) db n = (db', n + length es) \<and> ledger_ok db' \<and>
      db_events db' = map (\<lambda>x. if x \<in> set es then abandoned_event g x else x) (db_events db)"
proof (induction es arbitrary: db n)
  case Nil
  then show ?case by simp
next
  case (Cons e es)
  then obtain db1 where one: "abandon g (admitted_of e) db = (db1, True)" "ledger_ok db1"
    "db_events db1 = map (\<lambda>x. if x = e then abandoned_event g x else x) (db_events db)"
    using abandon_one[of db e g] by auto
  have "\<forall>x \<in> set es. x \<in> set (db_events db1) \<and> ue_status x = Usage_Pending"
    using Cons.prems one(3) by auto
  with Cons.IH[OF one(2), of "n + 1"] Cons.prems(2) obtain db2 where
    two: "abandon_all g (map admitted_of es) db1 (n + 1) = (db2, n + 1 + length es)" "ledger_ok db2"
      "db_events db2 = map (\<lambda>x. if x \<in> set es then abandoned_event g x else x) (db_events db1)"
    by auto
  have "abandoned_event g e \<notin> set es" using Cons.prems(3) by (metis abandoned_event_sel(3) list.set_intros(2) usage_status.distinct(5))
  then have "db_events db2 = map (\<lambda>x. if x \<in> set (e # es) then abandoned_event g x else x) (db_events db)"
    using Cons.prems(2) unfolding two(3) one(3) by auto
  with one(1) two show ?case by simp
qed

definition overdue :: "governance \<Rightarrow> time \<Rightarrow> string \<Rightarrow> usage_event \<Rightarrow> bool" where
  "overdue g now inst e \<longleftrightarrow>
     ue_instance e = inst \<and> ue_status e = Usage_Pending \<and> ue_createdAt e < now - gov_abandonedAfterMs g"

lemma not_overdue_abandoned [simp]: "\<not> overdue g now inst (abandoned_event g e)"
  by (simp add: overdue_def)

lemma overdue_list:
  assumes "listPendingModelUsageEvents now inst (gov_abandonedAfterMs g) limit db = es" and "ledger_ok db"
  shows "distinct es" and "set es \<subseteq> {e \<in> set (db_events db). overdue g now inst e}"
    and "length es < limit \<Longrightarrow> set es = {e \<in> set (db_events db). overdue g now inst e}"
proof -
  let ?all = "sort_key ue_createdAt (filter (overdue g now inst) (db_events db))"
  have es: "es = take limit ?all"
    using assms(1) by (simp add: listPendingModelUsageEvents_def overdue_def[abs_def])
  have "distinct (db_events db)" using assms(2) by (simp add: ledger_ok_def distinct_map)
  then show "distinct es" by (simp add: es)
  show "set es \<subseteq> {e \<in> set (db_events db). overdue g now inst e}"
    unfolding es using set_take_subset[of limit ?all] by auto
  show "set es = {e \<in> set (db_events db). overdue g now inst e}" if "length es < limit"
  proof -
    have "length ?all \<le> limit" using that unfolding es by simp
    then have "es = ?all" unfolding es by simp
    then show ?thesis by simp
  qed
qed

lemma overdue_count:
  assumes "distinct events" and "distinct es" and "set es \<subseteq> {e \<in> set events. overdue g now inst e}"
  shows "length (filter (overdue g now inst) events) =
    length (filter (overdue g now inst) (map (\<lambda>x. if x \<in> set es then abandoned_event g x else x) events)) + length es"
proof -
  have split: "length (filter (overdue g now inst) xs) =
      length (filter (overdue g now inst) (map (\<lambda>x. if x \<in> set es then abandoned_event g x else x) xs))
      + length (filter (\<lambda>x. x \<in> set es) xs)" if "set xs \<subseteq> set events" for xs
    using that assms(3) by (induction xs) auto
  have "set (filter (\<lambda>x. x \<in> set es) events) = set es" using assms(3) by auto
  then have "length (filter (\<lambda>x. x \<in> set es) events) = length es"
    using assms(1,2) by (metis distinct_card distinct_filter)
  then show ?thesis using split[of events] by simp
qed

lemma release_loop_spec:
  assumes "\<forall>k. \<not> aborted k" and "\<forall>k. clocks k = now"
  shows "ledger_ok db \<Longrightarrow> length (filter (overdue g now inst) (db_events db)) < fuel \<Longrightarrow>
    \<exists>db'. release_loop fuel k g clocks aborted inst db n =
        Some (db', n + length (filter (overdue g now inst) (db_events db))) \<and> ledger_ok db' \<and>
      db_events db' = map (\<lambda>e. if overdue g now inst e then abandoned_event g e else e) (db_events db)"
proof (induction fuel arbitrary: k db n)
  case 0
  then show ?case by simp
next
  case (Suc fuel)
  define es where "es = listPendingModelUsageEvents now inst (gov_abandonedAfterMs g) USAGE_RECOVERY_BATCH db"
  note es = overdue_list[OF es_def[symmetric] Suc.prems(1)]
  from abandon_all_spec[OF Suc.prems(1) es(1), of g n] es(2) obtain db1 where
    all: "abandon_all g (map admitted_of es) db n = (db1, n + length es)" "ledger_ok db1"
      "db_events db1 = map (\<lambda>x. if x \<in> set es then abandoned_event g x else x) (db_events db)"
    by (auto simp: overdue_def subset_iff)
  have ids: "distinct (db_events db)" using Suc.prems(1) by (simp add: ledger_ok_def distinct_map)
  note count = overdue_count[OF ids es(1,2), folded all(3)]
  have step: "release_loop (Suc fuel) k g clocks aborted inst db n =
      (if length es < USAGE_RECOVERY_BATCH then Some (db1, n + length es)
       else release_loop fuel (Suc k) g clocks aborted inst db1 (n + length es))"
    using assms by (simp add: es_def[symmetric] all(1) Let_def)
  show ?case
  proof (cases "length es < USAGE_RECOVERY_BATCH")
    case True
    have none: "filter (overdue g now inst) (db_events db1) = []"
      unfolding all(3) using es(3)[OF True] by (auto simp: filter_empty_conv)
    have "db_events db1 = map (\<lambda>e. if overdue g now inst e then abandoned_event g e else e) (db_events db)"
      unfolding all(3) using es(3)[OF True] by (intro map_cong refl) auto
    with True step count none all(2) show ?thesis by simp
  next
    case False
    then have "0 < length es" unfolding USAGE_RECOVERY_BATCH_def by linarith
    with count Suc.prems(2) have "length (filter (overdue g now inst) (db_events db1)) < fuel" by linarith
    from Suc.IH[OF all(2) this, of "Suc k" "n + length es"] obtain db2 where
      two: "release_loop fuel (Suc k) g clocks aborted inst db1 (n + length es) =
          Some (db2, n + length es + length (filter (overdue g now inst) (db_events db1)))" "ledger_ok db2"
        "db_events db2 = map (\<lambda>e. if overdue g now inst e then abandoned_event g e else e) (db_events db1)"
      by blast
    have "db_events db2 = map (\<lambda>e. if overdue g now inst e then abandoned_event g e else e) (db_events db)"
      unfolding two(3) all(3) using es(2) by (auto simp: subset_iff)
    with False step two(1,2) count show ?thesis by simp
  qed
qed

section \<open>Promises\<close>

text \<open>
  A cost is settled exactly when usage was reported, the model has the rates the call is billed
  at, normal or fast, the cached part of the input is known or costs the same, and web searches have
  a price; then it is the exact price up to two millionths, made of nonnegative components at those
  rates. Otherwise nothing is settled, and the cost says which meter is missing.
\<close>

lemma costs_settle_when_whole:
  assumes "card_ok rc" and "0 \<le> web_searches e"
  shows "(is_settled (calculateUsageCost e (Some rc) src) \<longleftrightarrow>
      uce_source e \<noteq> Not_Reported \<and>
      (\<exists>rates. applied_rates rc e = Some rates \<and>
        (uce_cached e = None \<longrightarrow> cachedPrice rates = uncachedPrice rates) \<and>
        (0 < web_searches e \<longrightarrow> findWebSearchRate rc e \<noteq> None))) \<and>
    (case calculateUsageCost e (Some rc) src of
       Settled_Cost prov comps amount \<Rightarrow>
         applied_rates rc e = Some (prov_rates prov) \<and> prov_currency prov = card_currency rc \<and>
         amount = uncachedCost comps + cachedCost comps + outputCost comps + webSearchCost comps \<and>
         0 \<le> uncachedCost comps \<and> 0 \<le> cachedCost comps \<and> 0 \<le> outputCost comps \<and> 0 \<le> webSearchCost comps \<and>
         \<bar>of_int amount - exact_cost e (prov_rates prov) (findWebSearchRate rc e)\<bar> \<le> 2
     | Partly_Known_Cost prov comps known missing \<Rightarrow>
         set missing \<subseteq> {Missing_Cached_Tokens, Missing_Web_Search_Rate} \<and> missing \<noteq> [] \<and> 0 \<le> known
     | Incomplete_Cost _ _ missing \<Rightarrow> uce_source e = Not_Reported \<and> missing = [Missing_Token_Usage]
     | Unpriced_Cost _ _ missing \<Rightarrow>
         applied_rates rc e = None \<and> missing \<in> {[Missing_Model_Rate], [Missing_Fast_Rate]})"
proof (cases "uce_source e = Not_Reported \<or> applied_rates rc e = None")
  case True
  then show ?thesis by (auto simp: cost_by_rates)
next
  case False
  then obtain rates where rates: "applied_rates rc e = Some rates" and src: "uce_source e \<noteq> Not_Reported" by auto
  let ?web = "findWebSearchRate rc e"
  let ?comps = "calculateKnownComponents e rates ?web"
  have nonneg: "0 \<le> uncachedCost ?comps \<and> 0 \<le> cachedCost ?comps \<and> 0 \<le> outputCost ?comps \<and> 0 \<le> webSearchCost ?comps"
    by (rule known_components_nonneg[OF applied_rates_ok[OF assms(1) rates] web_rate_ok[OF assms(1)] assms(2)])
  show ?thesis
  proof (cases "missing_meters e rates ?web = []")
    case True
    from known_components_near[OF known_cached_when_whole[OF True], of ?web] True nonneg src rates
    show ?thesis
      by (simp add: cost_by_rates Let_def missing_meters_none totalComponents_def)
  next
    case False
    moreover have "set (missing_meters e rates ?web) \<subseteq> {Missing_Cached_Tokens, Missing_Web_Search_Rate}"
      by (auto simp: missing_meters_def)
    ultimately show ?thesis
      using nonneg src rates by (auto simp: cost_by_rates Let_def missing_meters_none totalComponents_def)
  qed
qed


definition demo_card :: rate_card where
  "demo_card =
     \<lparr> card_id = ''prices'', card_version = ''1'', card_currency = ''EUR'',
       card_models =
         [\<lparr> rate_provider = ''openai'', rate_model = ''gpt'',
            rate_normal = \<lparr> uncachedPrice = 2, cachedPrice = 1 / 2, outputPrice = 8 \<rparr>, rate_fast = None \<rparr>],
       card_webSearch = None \<rparr>"

lemma demo_card_ok: "card_ok demo_card"
  by (simp add: card_ok_def demo_card_def rates_ok_def)

definition demo_cost_event :: usage_cost_event where
  "demo_cost_event =
     \<lparr> uce_provider = ''openai'', uce_model = ''gpt'', uce_input = whole 100, uce_cached = Some 40,
       uce_output = whole 10, uce_source = Provider_Reported, uce_webSearches = Some 0,
       uce_fastMode = Some False, uce_tier = None \<rparr>"

lemma costs_settle_when_whole_witness:
  "is_settled (calculateUsageCost demo_cost_event (Some demo_card) Rate_Card)"
proof -
  have "0 \<le> web_searches demo_cost_event" by (simp add: web_searches_def demo_cost_event_def)
  from costs_settle_when_whole[OF demo_card_ok this, of Rate_Card] show ?thesis
    by (simp add: demo_cost_event_def demo_card_def applied_rates_def find_model_rate_def isBilledAsFast_def
        web_searches_def)
qed

text \<open>
  C9. What an admitted call reserves covers what it settles: with a spend budget, a call that used no
  more tokens than were reserved settles, web searches apart, at no more than its reserved cost and
  one millionth of rounding. And an unknown amount never counts as none: where the tokens were not
  reported, or the cost cannot be settled, the reservation stays on the counters.
\<close>

theorem reservations_cover_calls:
  assumes "reservationOf g call rq = Inr r" and "gov_card g = Some rc" and "card_ok rc"
    and "mc_provider call \<notin> set (gov_free g)"
    and "truthy (gov_dailySpend g) \<noteq> None \<or> truthy (gov_monthlySpend g) \<noteq> None"
    and "normalizeCount (mu_input u) \<le> reserved_input rq" and "normalizeCount (mu_output u) \<le> reserved_output rq"
  shows "(case settlementOf (mc_provider call) (mc_model call) (Some (mc_fastMode call = Some True)) (Some u)
        (gov_card g) of s \<Rightarrow>
      (case us_cost s of
         Settled_Cost prov comps amount \<Rightarrow>
           counted_cost (countedOf s r) = amount \<and> amount - webSearchCost comps \<le> counted_cost r + 1
       | _ \<Rightarrow> counted_cost (countedOf s r) = counted_cost r) \<and>
      counted_tokens (countedOf s r) =
        (if mu_source u = Not_Reported then counted_tokens r else normalizeCount (mu_total u)))"
proof -
  define s where "s = settlementOf (mc_provider call) (mc_model call) (Some (mc_fastMode call = Some True)) (Some u)
    (gov_card g)"
  from assms(1,4,5) obtain h where h: "highestCost g call (reserved_input rq) (reserved_output rq) = Some h"
    "counted_cost r = h"
    by (auto simp: reservationOf_def Let_def split: if_splits option.splits)
  have "amount - webSearchCost comps \<le> h + 1" if "us_cost s = Settled_Cost prov comps amount" for prov comps amount
  proof -
    let ?n = "normalizeCount (mu_input u)"
    let ?e = "\<lparr> uce_provider = mc_provider call, uce_model = mc_model call, uce_input = whole ?n,
      uce_cached = map_option (\<lambda>c. min (normalizeCount c) ?n) (mu_cached u),
      uce_output = whole (normalizeCount (mu_output u)), uce_source = mu_source u,
      uce_webSearches = Some (normalizeCount (case mu_webSearches u of Some n \<Rightarrow> n | None \<Rightarrow> whole 0)),
      uce_fastMode = Some (mc_fastMode call = Some True), uce_tier = mu_tier u \<rparr>"
    from that have cost: "calculateUsageCost ?e (Some rc) Rate_Card = Settled_Cost prov comps amount"
      by (simp add: s_def settlementOf_def Let_def assms(2))
    then obtain rates where rates: "applied_rates rc ?e = Some rates"
      by (auto simp: cost_by_rates split: if_splits option.splits)
    show ?thesis
      by (rule settled_within_highest[OF rates assms(3) cost h(1) assms(2), where n = ?n])
        (use assms(6,7) in \<open>auto simp: reserved_output_def\<close>)
  qed
  moreover have "us_source s = mu_source u" "us_total s = normalizeCount (mu_total u)"
    by (simp_all add: s_def settlementOf_def Let_def)
  ultimately have "(case us_cost s of
         Settled_Cost prov comps amount \<Rightarrow>
           counted_cost (countedOf s r) = amount \<and> amount - webSearchCost comps \<le> counted_cost r + 1
       | _ \<Rightarrow> counted_cost (countedOf s r) = counted_cost r) \<and>
      counted_tokens (countedOf s r) =
        (if mu_source u = Not_Reported then counted_tokens r else normalizeCount (mu_total u))"
    by (simp add: countedOf_def h(2) split: usage_cost.split)
  then show ?thesis unfolding s_def .
qed

definition demo_governance :: governance where
  "demo_governance =
     \<lparr> gov_dailySpend = Some 5, gov_monthlySpend = None, gov_multiplier = None, gov_callsPerDay = Some 1,
       gov_tokensPerDay = None, gov_tokensPerMonth = None, gov_card = Some demo_card, gov_free = [],
       gov_abandonedAfterMs = 100 \<rparr>"

definition demo_call :: model_call where
  "demo_call =
     \<lparr> mc_instance = ''ci'', mc_attribution = System_Attribution ''conversation_title'' None None None None,
       mc_provider = ''openai'', mc_model = ''gpt'', mc_region = None, mc_binding = None,
       mc_fastMode = None, mc_correlation = ''corr'' \<rparr>"

definition demo_usage :: model_call_usage where
  "demo_usage =
     \<lparr> mu_input = whole 90, mu_cached = Some (whole 40), mu_output = whole 10, mu_total = whole 100,
       mu_source = Provider_Reported, mu_webSearches = None, mu_tier = None \<rparr>"

lemma reservations_cover_calls_witness:
  "\<exists>r. reservationOf demo_governance demo_call \<lparr>rq_inputCharacters = whole 300, rq_maxOutputTokens = Some (whole 50)\<rparr> = Inr r \<and>
    counted_tokens (countedOf (settlementOf ''openai'' ''gpt'' (Some False) (Some demo_usage) (Some demo_card)) r) = 100"
proof -
  let ?rq = "\<lparr>rq_inputCharacters = whole 300, rq_maxOutputTokens = Some (whole 50)\<rparr>"
  have size: "reserved_input ?rq = 100" "reserved_output ?rq = 50"
    by (simp_all add: reserved_input_def reserved_output_def RESERVED_CHARACTERS_PER_INPUT_TOKEN_def)
  have "\<exists>r. reservationOf demo_governance demo_call ?rq = Inr r"
    by (simp add: reservationOf_def highestCost_def demo_governance_def demo_call_def demo_card_def find_model_rate_def
        Let_def)
  then obtain r where r: "reservationOf demo_governance demo_call ?rq = Inr r" by blast
  have "case settlementOf (mc_provider demo_call) (mc_model demo_call) (Some (mc_fastMode demo_call = Some True))
      (Some demo_usage) (gov_card demo_governance) of s \<Rightarrow> counted_tokens (countedOf s r) = 100"
    using reservations_cover_calls[OF r, of demo_card demo_usage] demo_card_ok
    by (simp add: demo_governance_def demo_call_def demo_usage_def truthy_def size)
  then show ?thesis using r by (auto simp: demo_call_def demo_governance_def)
qed


text \<open>
  Recovery releases the abandoned calls and nothing else: with as many rounds as the calls that
  are overdue, and one more, it ends, every call of the instance that has been pending for too long is
  abandoned and holds nothing on the counters, every other event is as it was, the ledger stays
  exact, and the answer is the number of calls released.
\<close>

lemma recovery_releases_the_abandoned:
  assumes "ledger_ok db" and "\<forall>k. \<not> aborted k" and "\<forall>k. clocks k = now"
    and "length (filter (overdue g now inst) (db_events db)) < fuel"
  shows "\<exists>db'. releaseAbandonedModelCalls fuel g clocks aborted inst db =
      Some (db', length (filter (overdue g now inst) (db_events db))) \<and>
    db_events db' = map (\<lambda>e. if overdue g now inst e then abandoned_event g e else e) (db_events db) \<and>
    (\<forall>e. countedTokens (abandoned_event g e) = 0 \<and> countedCost (abandoned_event g e) = 0 \<and>
      ue_status (abandoned_event g e) = Usage_Abandoned) \<and>
    ledger_ok db'"
proof -
  obtain db' where "release_loop fuel 0 g clocks aborted inst db 0 =
      Some (db', length (filter (overdue g now inst) (db_events db)))" "ledger_ok db'"
    "db_events db' = map (\<lambda>e. if overdue g now inst e then abandoned_event g e else e) (db_events db)"
    using release_loop_spec[OF assms(2,3,1,4), where k = 0 and n = 0] by auto
  then show ?thesis
    by (auto simp: releaseAbandonedModelCalls_def abandoned_event_def NOTHING_COUNTED_def)
qed

definition pending_ledger :: usage_db where
  "pending_ledger =
     \<lparr> db_events = [new_event 5 \<lparr>ppl_users = [], ppl_workspaces = [], ppl_conversations = []\<rparr> ''e1''
         (eventOf demo_governance demo_call None) Usage_Pending NOTHING_COUNTED],
       db_counters = [], db_rollups = [] \<rparr>"

lemma pending_ledger_ok: "ledger_ok pending_ledger"
  by (simp add: ledger_ok_def pending_ledger_def counters_exact_def rollups_exact_def rollup_value_def
      ledger_value_def ended_events_def)

lemma recovery_releases_the_abandoned_witness:
  "\<exists>db'. releaseAbandonedModelCalls 2 demo_governance (\<lambda>_. 200) (\<lambda>_. False) ''ci'' pending_ledger = Some (db', 1) \<and>
    ledger_ok db'"
proof -
  have one: "length (filter (overdue demo_governance 200 ''ci'') (db_events pending_ledger)) = 1"
    by (simp add: pending_ledger_def overdue_def new_event_def eventOf_def demo_call_def demo_governance_def)
  show ?thesis
    using recovery_releases_the_abandoned[OF pending_ledger_ok, where aborted = "\<lambda>_. False" and clocks = "\<lambda>_. 200"
        and now = 200 and g = demo_governance and inst = "''ci''" and fuel = 2]
    by (simp add: one) blast
qed

end
