(* ===== verification/Usage_Report_Promises.thy ===== *)
theory Usage_Report_Promises imports Usage_Reports Usage_Calls begin

text \<open>
  The Usage page shows the ledger: every total it reads is the sum over the events that ended, and a
  cost is shown only when it is the whole cost, in one currency, of all the calls of its window.
\<close>

section \<open>Sums over groups\<close>

lemma sum_list_groups:
  fixes f :: "'a \<Rightarrow> int"
  assumes "finite K" and "key ` set xs \<subseteq> K"
  shows "(\<Sum>x \<leftarrow> xs. f x) = (\<Sum>k \<in> K. \<Sum>x \<leftarrow> filter (\<lambda>x. key x = k) xs. f x)"
  using assms(2)
proof (induction xs)
  case Nil
  then show ?case by simp
next
  case (Cons x xs)
  have "(\<Sum>k \<in> K. \<Sum>y \<leftarrow> filter (\<lambda>y. key y = k) (x # xs). f y) =
      (\<Sum>k \<in> K. (if k = key x then f x else 0) + (\<Sum>y \<leftarrow> filter (\<lambda>y. key y = k) xs. f y))"
    by (rule sum.cong) auto
  also have "\<dots> = f x + (\<Sum>y \<leftarrow> xs. f y)"
    using Cons assms(1) by (simp add: sum.distrib)
  finally show ?case by simp
qed

lemma sum_list_when: "(\<Sum>x \<leftarrow> filter P xs. f x) = (\<Sum>x \<leftarrow> xs. if P x then f x else (0::int))"
  by (rule sum_filter_if)

text \<open>In an exact ledger the rows that satisfy a condition on their key hold what the events with such keys do.\<close>

lemma rows_are_events:
  assumes "rollups_exact db"
  shows "(\<Sum>r \<leftarrow> filter (\<lambda>r. P (ru_key r)) (rollups_of inst db). ru_amounts r column) =
    (\<Sum>e \<leftarrow> filter (\<lambda>e. P (rollup_key_of e)) (ended_events inst (db_events db)). rollup_amounts e column)"
proof -
  let ?rows = "filter (\<lambda>r. P (ru_key r)) (rollups_of inst db)"
  let ?events = "filter (\<lambda>e. P (rollup_key_of e)) (ended_events inst (db_events db))"
  let ?K = "ru_key ` set ?rows \<union> rollup_key_of ` set ?events"
  have "(\<Sum>r \<leftarrow> filter (\<lambda>r. ru_key r = k) ?rows. ru_amounts r column) =
      (\<Sum>e \<leftarrow> filter (\<lambda>e. rollup_key_of e = k) ?events. rollup_amounts e column)" if "k \<in> ?K" for k
  proof -
    have "P k" using that by auto
    then have "filter (\<lambda>r. ru_key r = k) ?rows = filter (is_rollup inst k) (db_rollups db)"
      "filter (\<lambda>e. rollup_key_of e = k) ?events =
        filter (\<lambda>e. rollup_key_of e = k) (ended_events inst (db_events db))"
      by (auto simp: rollups_of_def is_rollup_def[abs_def] intro!: filter_cong)
    then show ?thesis
      using assms by (simp add: rollups_exact_def rollup_value_def ledger_value_def)
  qed
  then have "(\<Sum>k \<in> ?K. \<Sum>r \<leftarrow> filter (\<lambda>r. ru_key r = k) ?rows. ru_amounts r column) =
      (\<Sum>k \<in> ?K. \<Sum>e \<leftarrow> filter (\<lambda>e. rollup_key_of e = k) ?events. rollup_amounts e column)"
    by (rule sum.cong[OF refl])
  moreover have "(\<Sum>r \<leftarrow> ?rows. ru_amounts r column) =
      (\<Sum>k \<in> ?K. \<Sum>r \<leftarrow> filter (\<lambda>r. ru_key r = k) ?rows. ru_amounts r column)"
    by (rule sum_list_groups) auto
  moreover have "(\<Sum>e \<leftarrow> ?events. rollup_amounts e column) =
      (\<Sum>k \<in> ?K. \<Sum>e \<leftarrow> filter (\<lambda>e. rollup_key_of e = k) ?events. rollup_amounts e column)"
    by (rule sum_list_groups) auto
  ultimately show ?thesis by (simp only:)
qed

lemma all_rows_are_events:
  "rollups_exact db \<Longrightarrow>
    (\<Sum>r \<leftarrow> rollups_of inst db. ru_amounts r column) =
      (\<Sum>e \<leftarrow> ended_events inst (db_events db). rollup_amounts e column)"
  using rows_are_events[where P = "\<lambda>_. True" and db = db and inst = inst and column = column] by simp

lemma sum_calls: "(\<Sum>e \<leftarrow> es. rollup_amounts e Sum_Calls) = int (length es)"
  by (induction es) simp_all

lemma sum_settled_calls:
  "(\<Sum>e \<leftarrow> es. rollup_amounts e Sum_Settled_Calls) =
    int (length (filter (\<lambda>e. is_settled (us_cost (ue_settlement e))) es))"
  by (induction es) simp_all

lemma all_of_length: "length (filter P xs) = length xs \<Longrightarrow> \<forall>x \<in> set xs. P x"
  by (metis length_filter_less less_irrefl)

section \<open>Months\<close>

definition month_key :: "usage_rollup \<Rightarrow> int" where
  "month_key r = month_of_day (rk_day (ru_key r))"

lemma rollup_key_day [simp]: "rk_day (rollup_key_of e) = dayOf (ue_createdAt e)"
  "rk_currency (rollup_key_of e) = cost_currency (us_cost (ue_settlement e))"
  by (simp_all add: rollup_key_of_def)

lemma month_rows_are_events:
  assumes "rollups_exact db"
  shows "(\<Sum>r \<leftarrow> filter (\<lambda>r. month_key r = m) (rollups_of inst db). ru_amounts r column) =
    (\<Sum>e \<leftarrow> filter (\<lambda>e. monthOf (ue_createdAt e) = m) (ended_events inst (db_events db)). rollup_amounts e column)"
  using rows_are_events[OF assms, where P = "\<lambda>k. month_of_day (rk_day k) = m" and inst = inst and column = column]
  by (simp add: month_key_def monthOf_def)

lemma history_months:
  "set (uh_months (summarizeModelUsageHistory inst db)) =
    {(m, toTotals (filter (\<lambda>r. month_key r = m) (rollups_of inst db))) | m.
      m \<in> month_key ` set (rollups_of inst db) \<and>
      0 < (\<Sum>r \<leftarrow> filter (\<lambda>r. month_key r = m) (rollups_of inst db). ru_amounts r Sum_Calls)}"
  by (auto simp: summarizeModelUsageHistory_def used_def group_by_def month_key_def[abs_def] toTotals_def image_iff)

lemma history_month_listed:
  assumes "rollups_exact db"
  shows "m \<in> fst ` set (uh_months (summarizeModelUsageHistory inst db)) \<longleftrightarrow>
    (\<exists>e \<in> set (ended_events inst (db_events db)). monthOf (ue_createdAt e) = m)"
proof -
  let ?es = "filter (\<lambda>e. monthOf (ue_createdAt e) = m) (ended_events inst (db_events db))"
  let ?rows = "filter (\<lambda>r. month_key r = m) (rollups_of inst db)"
  have calls: "(\<Sum>r \<leftarrow> ?rows. ru_amounts r Sum_Calls) = int (length ?es)"
    using month_rows_are_events[OF assms, where m = m and inst = inst and column = Sum_Calls] sum_calls[of ?es] by simp
  have "m \<in> month_key ` set (rollups_of inst db)" if "0 < (\<Sum>r \<leftarrow> ?rows. ru_amounts r Sum_Calls)"
  proof (rule ccontr)
    assume "m \<notin> month_key ` set (rollups_of inst db)"
    then have "?rows = []" by (auto simp: filter_empty_conv)
    with that show False by simp
  qed
  moreover have "m \<in> fst ` set (uh_months (summarizeModelUsageHistory inst db)) \<longleftrightarrow>
      m \<in> month_key ` set (rollups_of inst db) \<and> 0 < (\<Sum>r \<leftarrow> ?rows. ru_amounts r Sum_Calls)"
    unfolding history_months by (auto simp: image_iff)
  ultimately have "m \<in> fst ` set (uh_months (summarizeModelUsageHistory inst db)) \<longleftrightarrow> 0 < int (length ?es)"
    unfolding calls by blast
  then show ?thesis by (auto simp: filter_empty_conv)
qed

section \<open>One currency\<close>

lemma positive_row: "0 < (\<Sum>r \<leftarrow> rows. f r :: int) \<Longrightarrow> \<exists>r \<in> set rows. 0 < f r"
  by (induction rows) force+

lemma settled_event_currency:
  assumes "rollups_exact db" and "e \<in> set (ended_events inst (db_events db))"
    and "is_settled (us_cost (ue_settlement e))" and "cost_currency (us_cost (ue_settlement e)) \<noteq> ''''"
  shows "cost_currency (us_cost (ue_settlement e)) \<in> set (settled_currencies (rollups_of inst db))"
proof -
  let ?k = "rollup_key_of e"
  let ?es = "filter (\<lambda>x. rollup_key_of x = ?k) (ended_events inst (db_events db))"
  have "0 < int (length (filter (\<lambda>x. is_settled (us_cost (ue_settlement x))) ?es))"
    using assms(2,3) by (auto simp: filter_empty_conv)
  then have "0 < (\<Sum>r \<leftarrow> filter (\<lambda>r. ru_key r = ?k) (rollups_of inst db). ru_amounts r Sum_Settled_Calls)"
    unfolding rows_are_events[OF assms(1), where P = "\<lambda>k. k = ?k"] sum_settled_calls .
  from positive_row[OF this] obtain r where r: "r \<in> set (rollups_of inst db)" "ru_key r = ?k"
    "0 < ru_amounts r Sum_Settled_Calls" by auto
  then have "rk_currency (ru_key r) = cost_currency (us_cost (ue_settlement e))" by simp
  with r assms(4) show ?thesis unfolding settled_currencies_def by force
qed

lemma at_most_one: "length xs \<le> 1 \<Longrightarrow> x \<in> set xs \<Longrightarrow> y \<in> set xs \<Longrightarrow> x = y"
  by (cases xs) auto

section \<open>The promise\<close>

definition cost_adds_up :: "usage_event \<Rightarrow> bool" where
  "cost_adds_up e =
     (case us_cost (ue_settlement e) of
        Settled_Cost _ comps amount \<Rightarrow> amount = totalComponents comps
      | _ \<Rightarrow> True)"

lemma settled_components_sum:
  assumes "\<forall>e \<in> set es. cost_adds_up e" and "\<forall>e \<in> set es. is_settled (us_cost (ue_settlement e))"
  shows "totalComponents (total_components (\<lambda>column. \<Sum>e \<leftarrow> es. rollup_amounts e column)) =
    (\<Sum>e \<leftarrow> es. the (settled_total (us_cost (ue_settlement e))))"
  using assms
proof (induction es)
  case Nil
  then show ?case by (simp add: totalComponents_def total_components_def)
next
  case (Cons e es)
  then show ?case
    by (cases "us_cost (ue_settlement e)") (auto simp: totalComponents_def total_components_def cost_adds_up_def)
qed

lemma window_complete:
  "bc_complete (uw_cost (toSafeWindow t a b rc show_web)) \<longleftrightarrow>
    ut_sums t Sum_Calls = ut_sums t Sum_Settled_Calls \<and> ut_currencyCount t \<le> 1 \<and>
    (ut_sums t Sum_Calls = 0 \<longrightarrow> rc \<noteq> None)"
  "bc_billable (uw_cost (toSafeWindow t a b rc show_web)) =
    (if bc_complete (uw_cost (toSafeWindow t a b rc show_web))
     then Some (totalComponents (total_components (ut_sums t))) else None)"
  by (auto simp: toSafeWindow_def Let_def)

text \<open>
  C10. The Usage page shows the ledger. In an exact ledger the totals of all time and of every month
  are the sums over the instance's calls that ended, then and in that month, and a month is listed
  just when a call ended in it. A cost is shown only when every one of those calls is settled, all in
  one currency, and then it is the sum of their costs.
\<close>

theorem reports_show_the_ledger:
  assumes "ledger_ok db" and "\<forall>e \<in> set (db_events db). cost_adds_up e"
  shows "(let ended = ended_events inst (db_events db); history = summarizeModelUsageHistory inst db;
        cost = uw_cost (toSafeWindow (uh_allTime history) None None rateCard showWebSearchCost) in
      (\<forall>column. ut_sums (uh_allTime history) column = (\<Sum>e \<leftarrow> ended. rollup_amounts e column)) \<and>
      (\<forall>m totals column. (m, totals) \<in> set (uh_months history) \<longrightarrow>
        ut_sums totals column =
          (\<Sum>e \<leftarrow> filter (\<lambda>e. monthOf (ue_createdAt e) = m) ended. rollup_amounts e column)) \<and>
      (\<forall>m. m \<in> fst ` set (uh_months history) \<longleftrightarrow> (\<exists>e \<in> set ended. monthOf (ue_createdAt e) = m)) \<and>
      (bc_billable cost = (if bc_complete cost
         then Some (\<Sum>e \<leftarrow> ended. the (settled_total (us_cost (ue_settlement e)))) else None)) \<and>
      (bc_complete cost \<longrightarrow>
        (\<forall>e \<in> set ended. is_settled (us_cost (ue_settlement e)) \<and>
          (\<forall>f \<in> set ended. cost_currency (us_cost (ue_settlement e)) \<noteq> '''' \<longrightarrow>
            cost_currency (us_cost (ue_settlement f)) \<noteq> '''' \<longrightarrow>
            cost_currency (us_cost (ue_settlement e)) = cost_currency (us_cost (ue_settlement f))))))"
proof -
  let ?ended = "ended_events inst (db_events db)" and ?h = "summarizeModelUsageHistory inst db"
  let ?w = "toSafeWindow (uh_allTime ?h) None None rateCard showWebSearchCost"
  have exact: "rollups_exact db" using assms(1) by (simp add: ledger_ok_def)
  have all: "ut_sums (uh_allTime ?h) = (\<lambda>column. \<Sum>e \<leftarrow> ?ended. rollup_amounts e column)"
    by (simp add: summarizeModelUsageHistory_def toTotals_def all_rows_are_events[OF exact])
  have months: "ut_sums t column =
      (\<Sum>e \<leftarrow> filter (\<lambda>e. monthOf (ue_createdAt e) = m) ?ended. rollup_amounts e column)"
    if "(m, t) \<in> set (uh_months ?h)" for m t column
    using that unfolding history_months by (auto simp: toTotals_def month_rows_are_events[OF exact])
  have settled: "\<forall>e \<in> set ?ended. is_settled (us_cost (ue_settlement e))" if "bc_complete (uw_cost ?w)"
    using that unfolding window_complete all sum_calls sum_settled_calls by (intro all_of_length) simp
  have adds: "\<forall>e \<in> set ?ended. cost_adds_up e" using assms(2) by (simp add: ended_events_def)
  have currency: "cost_currency (us_cost (ue_settlement e)) = cost_currency (us_cost (ue_settlement f))"
    if "bc_complete (uw_cost ?w)" "e \<in> set ?ended" "f \<in> set ?ended"
      "cost_currency (us_cost (ue_settlement e)) \<noteq> ''''" "cost_currency (us_cost (ue_settlement f)) \<noteq> ''''" for e f
  proof -
    have "length (settled_currencies (rollups_of inst db)) \<le> 1"
      using that(1) unfolding window_complete by (simp add: summarizeModelUsageHistory_def toTotals_def)
    then show ?thesis
      using settled[OF that(1)] settled_event_currency[OF exact that(2) _ that(4)]
        settled_event_currency[OF exact that(3) _ that(5)] that(2,3)
      by (auto intro: at_most_one)
  qed
  have "bc_billable (uw_cost ?w) = (if bc_complete (uw_cost ?w)
      then Some (\<Sum>e \<leftarrow> ?ended. the (settled_total (us_cost (ue_settlement e)))) else None)"
    unfolding window_complete(2) all using settled_components_sum[OF adds] settled by auto
  then show ?thesis
    unfolding Let_def using all months history_month_listed[OF exact] settled currency by auto
qed

definition settled_ledger :: usage_db where
  "settled_ledger =
     fst (settleModelUsageEvent ''ci'' ''e1'' [Usage_Pending, Usage_Abandoned] Usage_Settled
       (settlementOf ''openai'' ''gpt'' (Some False) (Some demo_usage) (Some demo_card)) NOTHING_COUNTED
       pending_ledger)"

lemma settled_ledger_ok: "ledger_ok settled_ledger"
  unfolding settled_ledger_def
  by (rule ledger_ok_settle[OF prod.collapse[symmetric] pending_ledger_ok]) simp

lemma settled_ledger_event:
  "\<exists>e. db_events settled_ledger = [e] \<and> ue_instance e = ''ci'' \<and> ue_status e = Usage_Settled \<and> cost_adds_up e"
  by (simp add: settled_ledger_def pending_ledger_def settleModelUsageEvent_def new_event_def eventOf_def
      demo_call_def update_where_def Let_def settled_event_def cost_adds_up_def settlementOf_def
      calculateUsageCost_def demo_usage_def demo_card_def find_model_rate_def isBilledAsFast_def
      missing_meters_def web_searches_def)

lemma reports_show_the_ledger_witness:
  "ut_sums (uh_allTime (summarizeModelUsageHistory ''ci'' settled_ledger)) Sum_Calls = 1"
proof -
  obtain e where e: "db_events settled_ledger = [e]" "ue_instance e = ''ci''" "ue_status e = Usage_Settled"
    "cost_adds_up e" using settled_ledger_event by blast
  then have "\<forall>x \<in> set (db_events settled_ledger). cost_adds_up x" by simp
  from reports_show_the_ledger[OF settled_ledger_ok this, where inst = "''ci''"] show ?thesis
    by (simp add: Let_def e ended_events_def)
qed

end
