(* ===== verification/Operation_Policy.thy ===== *)
theory Operation_Policy imports Permissions begin

text \<open>
  What the policy asks of a call (\<open>packages/core/src/operation-policy.ts\<close>), and the values, effects and
  origins of operations it is about (\<open>packages/core/src/operations.ts\<close>).
\<close>

section \<open>Operations\<close>

datatype operation_effect = Reading | Changing

datatype policy_value = Policy_Allow | Policy_Confirm | Policy_Approval | Policy_Deny

definition POLICY_VALUES :: "policy_value list" where
  "POLICY_VALUES = [Policy_Allow, Policy_Confirm, Policy_Approval, Policy_Deny]"

datatype operation_origin =
  Agent_Origin (origin_agentRun: string) (origin_conv: string) (origin_agentName: string)
    (origin_toolCall: string) (origin_toolName: string)
| User_Origin
| Cli_Origin
| Mcp_Origin "string option"
| App_Origin string string string "string option"
| Workflow_Origin string string
| Schedule_Origin string

fun callerCanConfirm :: "operation_origin \<Rightarrow> bool" where
  "callerCanConfirm User_Origin = True"
| "callerCanConfirm Cli_Origin = True"
| "callerCanConfirm (Mcp_Origin _) = True"
| "callerCanConfirm (App_Origin _ _ _ _) = True"
| "callerCanConfirm (Agent_Origin _ _ _ _ _) = False"
| "callerCanConfirm (Workflow_Origin _ _) = False"
| "callerCanConfirm (Schedule_Origin _) = False"

section \<open>Policies\<close>

record policy_setting =
  set_operation :: string
  set_value :: policy_value
  set_workspaceId :: "string option"
  set_assetKind :: "string option"
  set_namespace :: "string option"

record policy_target =
  tgt_workspaceId :: "string option"
  tgt_assetKind :: "string option"
  tgt_namespace :: "string option"

datatype event_outcome = Outcome_Allow | Outcome_Warn | Outcome_Require_Approval | Outcome_Block

record policy_input =
  pol_name :: string
  pol_effect :: operation_effect
  pol_declared :: "policy_value option"
  pol_defaults :: "operation_effect \<Rightarrow> policy_value"
  pol_settings :: "policy_setting list"
  pol_targets :: "policy_target list option"
  pol_guardrail :: "event_outcome option"
  pol_callerCanConfirm :: bool
  pol_canPause :: bool

datatype policy_source =
  Instance_Default | Declared_Default | Central_Setting | Guardrail_Source | Surface_Cannot_Pause

datatype policy_next = Next_Run | Next_Run_Direct | Await_Confirmation | Await_Approval | Next_Refuse

record policy_resolution =
  res_value :: policy_value
  res_next :: policy_next
  res_source :: policy_source

text \<open>The position of a value in \<open>POLICY_VALUES\<close>.\<close>

fun strictness :: "policy_value \<Rightarrow> nat" where
  "strictness Policy_Allow = 0"
| "strictness Policy_Confirm = 1"
| "strictness Policy_Approval = 2"
| "strictness Policy_Deny = 3"

definition stricter :: "policy_value \<Rightarrow> policy_value \<Rightarrow> policy_value" where
  "stricter l r = (if strictness r \<le> strictness l then l else r)"

definition ends_with_wildcard :: "string \<Rightarrow> bool" where
  "ends_with_wildcard s = ends_with s ''.*''"

definition names_operation :: "string \<Rightarrow> string \<Rightarrow> bool" where
  "names_operation pattern operation =
     (if ends_with_wildcard pattern then starts_with operation (butlast pattern) else pattern = operation)"

definition narrowed :: "string option \<Rightarrow> string option \<Rightarrow> bool" where
  "narrowed setting target \<longleftrightarrow> setting = None \<or> setting = target"

definition matches :: "policy_setting \<Rightarrow> string \<Rightarrow> policy_target \<Rightarrow> bool" where
  "matches s operation t \<longleftrightarrow>
     names_operation (set_operation s) operation \<and> narrowed (set_workspaceId s) (tgt_workspaceId t) \<and>
     narrowed (set_assetKind s) (tgt_assetKind t) \<and> narrowed (set_namespace s) (tgt_namespace t)"

definition policy_applies :: "operation_effect \<Rightarrow> policy_value \<Rightarrow> bool" where
  "policy_applies eff v \<longleftrightarrow> eff = Changing \<or> v = Policy_Allow \<or> v = Policy_Deny"

definition policy_base :: "policy_input \<Rightarrow> policy_value \<times> policy_source" where
  "policy_base p =
     (case pol_declared p of
        Some v \<Rightarrow> if policy_applies (pol_effect p) v then (v, Declared_Default)
          else (if policy_applies (pol_effect p) (pol_defaults p (pol_effect p))
                then (pol_defaults p (pol_effect p), Instance_Default) else (Policy_Allow, Instance_Default))
      | None \<Rightarrow>
          (if policy_applies (pol_effect p) (pol_defaults p (pol_effect p))
           then (pol_defaults p (pol_effect p), Instance_Default) else (Policy_Allow, Instance_Default)))"

definition policy_targets :: "policy_input \<Rightarrow> policy_target list" where
  "policy_targets p =
     (case pol_targets p of
        Some (t # ts) \<Rightarrow> t # ts
      | _ \<Rightarrow> [\<lparr> tgt_workspaceId = None, tgt_assetKind = None, tgt_namespace = None \<rparr>])"

definition central_values :: "policy_input \<Rightarrow> policy_target \<Rightarrow> policy_value list" where
  "central_values p t =
     filter (policy_applies (pol_effect p))
       (map set_value (filter (\<lambda>s. matches s (pol_name p) t) (pol_settings p)))"

definition target_value :: "policy_input \<Rightarrow> policy_target \<Rightarrow> policy_value \<times> policy_source" where
  "target_value p t =
     (case central_values p t of
        [] \<Rightarrow> policy_base p
      | v # vs \<Rightarrow> (foldl stricter v vs, Central_Setting))"

definition stricter_target ::
    "policy_value \<times> policy_source \<Rightarrow> policy_value \<times> policy_source \<Rightarrow> policy_value \<times> policy_source" where
  "stricter_target l r = (if stricter (fst l) (fst r) = fst l then l else r)"

definition settled_policy :: "policy_input \<Rightarrow> policy_value \<times> policy_source" where
  "settled_policy p =
     (case map (target_value p) (policy_targets p) of
        v # vs \<Rightarrow> foldl stricter_target v vs)"

definition guarded_policy :: "policy_input \<Rightarrow> policy_value \<times> policy_source" where
  "guarded_policy p =
     (let v = settled_policy p;
          asked = (if pol_effect p = Changing then Policy_Approval else Policy_Deny)
      in if pol_guardrail p = Some Outcome_Require_Approval \<and> stricter (fst v) asked \<noteq> fst v
         then (asked, Guardrail_Source) else v)"

definition resolvePolicy :: "policy_input \<Rightarrow> policy_resolution" where
  "resolvePolicy p =
     (if pol_guardrail p = Some Outcome_Block then
        \<lparr> res_value = Policy_Deny, res_next = Next_Refuse, res_source = Guardrail_Source \<rparr>
      else
        (case guarded_policy p of (value, source) \<Rightarrow>
           (case value of
              Policy_Allow \<Rightarrow> \<lparr> res_value = value, res_next = Next_Run, res_source = source \<rparr>
            | Policy_Deny \<Rightarrow> \<lparr> res_value = value, res_next = Next_Refuse, res_source = source \<rparr>
            | Policy_Confirm \<Rightarrow>
                (if pol_callerCanConfirm p then
                   \<lparr> res_value = value, res_next = Next_Run_Direct, res_source = source \<rparr>
                 else if pol_canPause p then
                   \<lparr> res_value = value, res_next = Await_Confirmation, res_source = source \<rparr>
                 else \<lparr> res_value = Policy_Deny, res_next = Next_Refuse, res_source = Surface_Cannot_Pause \<rparr>)
            | Policy_Approval \<Rightarrow>
                (if pol_callerCanConfirm p \<or> pol_canPause p then
                   \<lparr> res_value = value, res_next = Await_Approval, res_source = source \<rparr>
                 else \<lparr> res_value = Policy_Deny, res_next = Next_Refuse, res_source = Surface_Cannot_Pause \<rparr>))))"

section \<open>Strictness\<close>

lemma strictness_eq: "strictness v = strictness w \<longleftrightarrow> v = w"
  by (cases v; cases w) simp_all

text \<open>Values ordered from the loosest to the strictest.\<close>

instantiation policy_value :: linorder
begin

definition less_eq_policy_value :: "policy_value \<Rightarrow> policy_value \<Rightarrow> bool" where
  "less_eq_policy_value v w \<longleftrightarrow> strictness v \<le> strictness w"

definition less_policy_value :: "policy_value \<Rightarrow> policy_value \<Rightarrow> bool" where
  "less_policy_value v w \<longleftrightarrow> strictness v < strictness w"

instance
proof
  fix x y z :: policy_value
  show "(x < y) = (x \<le> y \<and> \<not> y \<le> x)" by (auto simp: less_eq_policy_value_def less_policy_value_def)
  show "x \<le> x" by (simp add: less_eq_policy_value_def)
  show "x \<le> y \<Longrightarrow> y \<le> z \<Longrightarrow> x \<le> z" by (simp add: less_eq_policy_value_def)
  show "x \<le> y \<Longrightarrow> y \<le> x \<Longrightarrow> x = y" by (simp add: less_eq_policy_value_def strictness_eq[symmetric])
  show "x \<le> y \<or> y \<le> x" by (auto simp: less_eq_policy_value_def)
qed

end

lemma strictness_index: "POLICY_VALUES ! strictness v = v \<and> strictness v < length POLICY_VALUES"
  by (cases v) (simp_all add: POLICY_VALUES_def)

lemma stricter_max: "stricter v w = max v w"
  by (auto simp: stricter_def max_def less_eq_policy_value_def strictness_eq[symmetric])

lemma policy_value_bounds [simp]: "Policy_Allow \<le> v" "v \<le> Policy_Deny"
  by (cases v; simp add: less_eq_policy_value_def)+

lemma foldl_stricter: "foldl stricter v vs = Max (insert v (set vs))"
proof (induction vs arbitrary: v)
  case Nil
  then show ?case by simp
next
  case (Cons w vs)
  then show ?case
    by (cases "vs = []") (simp_all add: stricter_max insert_commute max.assoc max.left_commute)
qed

end
