(* ===== verification/Operation_Runs.thy ===== *)
theory Operation_Runs imports Operation_Policy Job_Store begin

text \<open>
  The durable record of calls (\<open>packages/core/src/operation-runs.ts\<close>) and the table that keeps it
  (\<open>packages/postgres-store/src/postgres-operation-run-operations.ts\<close>). Each operation is one statement.
\<close>

section \<open>Rows\<close>

datatype operation_run_status =
  Run_Running | Run_Pending_Confirmation | Run_Pending_Approval | Run_Done | Run_Failed | Run_Denied | Run_Expired

record run_actor =
  ra_kind :: holder_kind
  ra_id :: string
  ra_label :: string
  ra_delegated :: "string option"

datatype decision_mode = Decision_Direct | Decision_Confirmed | Decision_Approved | Decision_Declined

record run_decision =
  dec_mode :: decision_mode
  dec_by :: string
  dec_at :: time
  dec_comment :: "string option"
  dec_edited :: "bool option"
  dec_inputHashes :: "string list option"

record run_error =
  rerr_code :: string
  rerr_message :: string
  rerr_unexecuted :: bool

record operation_run =
  run_id :: string
  run_instance :: string
  run_operation :: string
  run_effect :: operation_effect
  run_actor :: run_actor
  run_ownerUserId :: "string option"
  run_workspaceId :: "string option"
  run_origin :: operation_origin
  run_conversationId :: "string option"
  run_key :: "string option"
  run_inputHash :: string
  run_inputRef :: "string option"
  run_status :: operation_run_status
  run_attempt :: nat
  run_decision :: "run_decision option"
  run_approvalRequestId :: "string option"
  run_output :: "json option"
  run_resultRef :: "string option"
  run_error :: "run_error option"
  run_denial :: "operation_denial option"
  run_usage :: "json option"
  run_correlationId :: string
  run_createdAt :: time
  run_startedAt :: "time option"
  run_finishedAt :: "time option"
  run_expiresAt :: "time option"
  run_updatedAt :: time

type_synonym runs = "operation_run list"

record new_run =
  nr_id :: string
  nr_instance :: string
  nr_operation :: string
  nr_effect :: operation_effect
  nr_actor :: run_actor
  nr_ownerUserId :: "string option"
  nr_workspaceId :: "string option"
  nr_origin :: operation_origin
  nr_conversationId :: "string option"
  nr_key :: "string option"
  nr_inputHash :: string
  nr_correlationId :: string
  nr_startedAt :: time

datatype run_end =
  Ends_Done (end_output: "json option") (end_resultRef: "string option") (end_decision: "run_decision option")
| Ends_Failed (end_error: run_error)
| Ends_Denied (end_denied: run_error) (end_denial: operation_denial)
| Ends_Pending_Approval (end_approval: string) (end_inputRef: string) (end_expiresAt: time)

definition INTERRUPTED_RUN_ERROR :: run_error where
  "INTERRUPTED_RUN_ERROR =
     \<lparr> rerr_code = ''interrupted'', rerr_message = ''The call was interrupted before it finished'',
       rerr_unexecuted = False \<rparr>"

section \<open>Statements\<close>

definition started_run :: "new_run \<Rightarrow> operation_run" where
  "started_run n =
     \<lparr> run_id = nr_id n, run_instance = nr_instance n, run_operation = nr_operation n,
       run_effect = nr_effect n, run_actor = nr_actor n,
       run_ownerUserId = nr_ownerUserId n, run_workspaceId = nr_workspaceId n,
       run_origin = nr_origin n, run_conversationId = nr_conversationId n, run_key = nr_key n,
       run_inputHash = nr_inputHash n, run_inputRef = None, run_status = Run_Running, run_attempt = 1,
       run_decision = None, run_approvalRequestId = None, run_output = None,
       run_resultRef = None, run_error = None, run_denial = None, run_usage = None, run_correlationId = nr_correlationId n, run_createdAt = nr_startedAt n,
       run_startedAt = Some (nr_startedAt n), run_finishedAt = None, run_expiresAt = None,
       run_updatedAt = nr_startedAt n \<rparr>"

text \<open>The unique index: the key belongs to the instance and the actor, and no key is no entry.\<close>

definition run_index :: "operation_run \<Rightarrow> (string \<times> holder_kind \<times> string \<times> string) option" where
  "run_index r =
     map_option (\<lambda>key. (run_instance r, ra_kind (run_actor r), ra_id (run_actor r), key)) (run_key r)"

definition runs_again :: "operation_run \<Rightarrow> bool" where
  "runs_again r \<longleftrightarrow>
     run_status r = Run_Failed \<and>
     (run_effect r = Reading \<or> (case run_error r of Some e \<Rightarrow> rerr_unexecuted e | None \<Rightarrow> False))"

definition takes_over :: "new_run \<Rightarrow> operation_run \<Rightarrow> bool" where
  "takes_over n r \<longleftrightarrow> runs_again r \<and> run_operation r = nr_operation n \<and> run_inputHash r = nr_inputHash n"

definition next_attempt :: "new_run \<Rightarrow> operation_run \<Rightarrow> operation_run" where
  "next_attempt n r =
     r\<lparr>run_status := Run_Running, run_attempt := run_attempt r + 1, run_error := None, run_denial := None,
       run_correlationId := nr_correlationId n, run_startedAt := Some (nr_startedAt n),
       run_finishedAt := None, run_updatedAt := nr_startedAt n\<rparr>"

definition holds_key :: "new_run \<Rightarrow> operation_run \<Rightarrow> bool" where
  "holds_key n r \<longleftrightarrow> run_index r \<noteq> None \<and> run_index r = run_index (started_run n)"

definition createOperationRun :: "new_run \<Rightarrow> runs \<Rightarrow> (js_error, runs \<times> operation_run option) result" where
  "createOperationRun n db =
     (case List.find (holds_key n) db of
        Some r \<Rightarrow>
          (if takes_over n r then
             Inr (update_where (\<lambda>x. run_id x = run_id r) (next_attempt n) db, Some (next_attempt n r))
           else Inr (db, None))
      | None \<Rightarrow>
          (if nr_id n \<in> set (map run_id db) then Inl (Foreign_Error ''duplicate key value'')
           else Inr (db @ [started_run n], Some (started_run n))))"

definition identity_of :: "string \<Rightarrow> string \<Rightarrow> operation_run \<Rightarrow> bool" where
  "identity_of inst i r \<longleftrightarrow> run_instance r = inst \<and> run_id r = i"

fun ended_run :: "time \<Rightarrow> run_end \<Rightarrow> operation_run \<Rightarrow> operation_run" where
  "ended_run t (Ends_Done output resultRef decision) r =
     r\<lparr>run_status := Run_Done, run_updatedAt := t, run_finishedAt := Some t, run_output := output,
       run_resultRef := resultRef, run_decision := decision\<rparr>"
| "ended_run t (Ends_Failed error) r =
     r\<lparr>run_status := Run_Failed, run_updatedAt := t, run_finishedAt := Some t, run_error := Some error,
       run_denial := None\<rparr>"
| "ended_run t (Ends_Denied error denial) r =
     r\<lparr>run_status := Run_Denied, run_updatedAt := t, run_finishedAt := Some t, run_error := Some error,
       run_denial := Some denial\<rparr>"
| "ended_run t (Ends_Pending_Approval approval inputRef expiresAt) r =
     r\<lparr>run_status := Run_Pending_Approval, run_updatedAt := t, run_approvalRequestId := Some approval,
       run_inputRef := Some inputRef, run_expiresAt := Some expiresAt\<rparr>"

definition finishOperationRun ::
    "string \<Rightarrow> string \<Rightarrow> time \<Rightarrow> run_end \<Rightarrow> runs \<Rightarrow> runs \<times> operation_run option" where
  "finishOperationRun inst i t ending db =
     (case List.find (\<lambda>r. identity_of inst i r \<and> run_status r = Run_Running) db of
        None \<Rightarrow> (db, None)
      | Some r \<Rightarrow>
          (update_where (\<lambda>x. run_id x = run_id r) (ended_run t ending) db, Some (ended_run t ending r)))"

definition findOperationRunByIdempotencyKey ::
    "string \<Rightarrow> run_actor \<Rightarrow> string \<Rightarrow> runs \<Rightarrow> operation_run option" where
  "findOperationRunByIdempotencyKey inst actor key db =
     List.find (\<lambda>r. run_index r = Some (inst, ra_kind actor, ra_id actor, key)) db"

definition getOperationRun :: "string \<Rightarrow> string \<Rightarrow> runs \<Rightarrow> operation_run option" where
  "getOperationRun inst i db = List.find (identity_of inst i) db"

definition waits :: "operation_run \<Rightarrow> bool" where
  "waits r \<longleftrightarrow> run_status r \<in> {Run_Pending_Confirmation, Run_Pending_Approval}"

definition expires :: "time \<Rightarrow> string \<Rightarrow> operation_run \<Rightarrow> bool" where
  "expires now inst r \<longleftrightarrow>
     run_instance r = inst \<and> waits r \<and> (case run_expiresAt r of None \<Rightarrow> False | Some t \<Rightarrow> t \<le> now)"

definition expired_run :: "time \<Rightarrow> operation_run \<Rightarrow> operation_run" where
  "expired_run now r = r\<lparr>run_status := Run_Expired, run_finishedAt := Some now, run_updatedAt := now\<rparr>"

definition markOperationRunsExpired :: "time \<Rightarrow> string \<Rightarrow> runs \<Rightarrow> runs \<times> operation_run list" where
  "markOperationRunsExpired now inst db =
     (update_where (expires now inst) (expired_run now) db,
      map (expired_run now) (filter (expires now inst) db))"

definition interrupted_run :: "time \<Rightarrow> operation_run \<Rightarrow> operation_run" where
  "interrupted_run now r =
     r\<lparr>run_status := Run_Failed, run_error := Some INTERRUPTED_RUN_ERROR, run_denial := None,
       run_finishedAt := Some now, run_updatedAt := now\<rparr>"

definition markOperationRunInterrupted ::
    "time \<Rightarrow> string \<Rightarrow> string \<Rightarrow> runs \<Rightarrow> runs \<times> operation_run option" where
  "markOperationRunInterrupted now inst i db =
     (case List.find (\<lambda>r. identity_of inst i r \<and> run_status r = Run_Running) db of
        None \<Rightarrow> (db, None)
      | Some r \<Rightarrow>
          (update_where (\<lambda>x. run_id x = run_id r) (interrupted_run now) db, Some (interrupted_run now r)))"

section \<open>Lists\<close>

fun origin_kind :: "operation_origin \<Rightarrow> string" where
  "origin_kind (Agent_Origin _ _ _ _ _) = ''agent''"
| "origin_kind User_Origin = ''user''"
| "origin_kind Cli_Origin = ''cli''"
| "origin_kind (Mcp_Origin _) = ''mcp''"
| "origin_kind (App_Origin _ _ _ _) = ''app''"
| "origin_kind (Workflow_Origin _ _) = ''workflow''"
| "origin_kind (Schedule_Origin _) = ''schedule''"

record run_filters =
  rf_operation :: "string option"
  rf_status :: "operation_run_status option"
  rf_actorId :: "string option"
  rf_originKind :: "string option"
  rf_workspaceId :: "string option"
  rf_since :: "time option"

definition asked :: "'a option \<Rightarrow> 'a option \<Rightarrow> bool" where
  "asked wanted actual \<longleftrightarrow> wanted = None \<or> wanted = actual"

definition run_selected :: "string \<Rightarrow> run_filters \<Rightarrow> operation_run \<Rightarrow> bool" where
  "run_selected inst f r \<longleftrightarrow>
     run_instance r = inst \<and> asked (rf_operation f) (Some (run_operation r)) \<and>
     asked (rf_status f) (Some (run_status r)) \<and> asked (rf_actorId f) (Some (ra_id (run_actor r))) \<and>
     asked (rf_originKind f) (Some (origin_kind (run_origin r))) \<and>
     asked (rf_workspaceId f) (run_workspaceId r) \<and>
     (case rf_since f of None \<Rightarrow> True | Some t \<Rightarrow> t \<le> run_createdAt r)"

text \<open>
  \<open>keysetFilter\<close> over the creation time and the id, newest first: a page goes on strictly after its
  cursor in that order.
\<close>

definition run_order :: "operation_run \<Rightarrow> time \<times> string" where
  "run_order r = (run_createdAt r, run_id r)"

definition after_cursor :: "(time \<times> string) option \<Rightarrow> operation_run \<Rightarrow> bool" where
  "after_cursor cursor r \<longleftrightarrow> (case cursor of None \<Rightarrow> True | Some c \<Rightarrow> run_order r < c)"

definition listOperationRuns ::
    "string \<Rightarrow> run_filters \<Rightarrow> (time \<times> string) option \<Rightarrow> nat \<Rightarrow> runs \<Rightarrow> operation_run list" where
  "listOperationRuns inst f cursor limit db =
     take limit (rev (sort_key run_order (filter (\<lambda>r. run_selected inst f r \<and> after_cursor cursor r) db)))"

end
