(* ===== verification/Json_Text.thy ===== *)
theory Json_Text imports Errors begin

text \<open>
  JSON as text, as the standard library of the language has it: \<open>JSON.stringify\<close> with its quoting,
  the length of a text in UTF-8, and the canonical text with sorted keys that the input of a call is
  hashed as (\<open>packages/tool-execution/src/run-operation.ts\<close>).

  The decimal text of a number that is no integer is the parameter \<open>num\<close>, as the printing of
  doubles is not modelled; an integer has its usual decimal text.
\<close>

section \<open>Numbers\<close>

definition digit_char :: "nat \<Rightarrow> char" where
  "digit_char d = char_of (48 + d)"

fun nat_text :: "nat \<Rightarrow> string" where
  "nat_text n = (if n < 10 then [digit_char n] else nat_text (n div 10) @ [digit_char (n mod 10)])"

declare nat_text.simps [simp del]

definition int_text :: "int \<Rightarrow> string" where
  "int_text i = (if i < 0 then ''-'' @ nat_text (nat (- i)) else nat_text (nat i))"

definition number_text :: "(rat \<Rightarrow> string) \<Rightarrow> rat \<Rightarrow> string" where
  "number_text num x = (if x = of_int \<lfloor>x\<rfloor> then int_text \<lfloor>x\<rfloor> else num x)"

section \<open>Strings\<close>

definition hex_digit :: "nat \<Rightarrow> char" where
  "hex_digit d = (if d < 10 then char_of (48 + d) else char_of (87 + d))"

text \<open>The escapes of \<open>JSON.stringify\<close> among the code units below 256.\<close>

definition quote_char :: "char \<Rightarrow> string" where
  "quote_char c =
     (let n = of_char c :: nat; esc = CHR 0x5C in
      if n = 34 then [esc, CHR 0x22]
      else if n = 92 then [esc, esc]
      else if n = 8 then [esc, CHR ''b'']
      else if n = 9 then [esc, CHR ''t'']
      else if n = 10 then [esc, CHR ''n'']
      else if n = 12 then [esc, CHR ''f'']
      else if n = 13 then [esc, CHR ''r'']
      else if n < 32 then [esc, CHR ''u'', CHR ''0'', CHR ''0'', hex_digit (n div 16), hex_digit (n mod 16)]
      else [c])"

definition json_quote :: "string \<Rightarrow> string" where
  "json_quote s = CHR 0x22 # concat (map quote_char s) @ [CHR 0x22]"

definition utf8_length :: "string \<Rightarrow> nat" where
  "utf8_length s = (\<Sum>c \<leftarrow> s. if (of_char c :: nat) < 128 then 1 else 2)"

section \<open>Values\<close>

fun json_stringify :: "(rat \<Rightarrow> string) \<Rightarrow> json \<Rightarrow> string" where
  "json_stringify num JNull = ''null''"
| "json_stringify num (JBool b) = (if b then ''true'' else ''false'')"
| "json_stringify num (JNum x) = number_text num x"
| "json_stringify num (JStr s) = json_quote s"
| "json_stringify num (JArr vs) = ''['' @ join_with '','' (map (json_stringify num) vs) @ '']''"
| "json_stringify num (JObj kvs) =
     ''{'' @ join_with '','' (map (\<lambda>(k, v). json_quote k @ '':'' @ json_stringify num v) kvs) @ ''}''"

text \<open>The members of an object have distinct keys; sorting them by key sorts the keys.\<close>

fun canonicalJson :: "(rat \<Rightarrow> string) \<Rightarrow> json \<Rightarrow> string" where
  "canonicalJson num (JArr vs) = ''['' @ join_with '','' (map (canonicalJson num) vs) @ '']''"
| "canonicalJson num (JObj kvs) =
     ''{'' @ join_with '','' (map (\<lambda>(k, t). json_quote k @ '':'' @ t)
       (sort_key fst (map (\<lambda>(k, v). (k, canonicalJson num v)) kvs))) @ ''}''"
| "canonicalJson num JNull = ''null''"
| "canonicalJson num (JBool b) = (if b then ''true'' else ''false'')"
| "canonicalJson num (JNum x) = number_text num x"
| "canonicalJson num (JStr s) = json_quote s"

end
