(* ===== verification/Operation_Call.thy ===== *)
theory Operation_Call imports Operation_Runs Json_Text begin

text \<open>
  The one path every call of a registered operation takes
  (\<open>packages/tool-execution/src/run-operation.ts\<close>, with \<open>packages/core/src/operation-registry.ts\<close>): validate
  the input, start the run, check the right, resolve the policy, ask the guardrails, execute, record.

  What lies outside is a field of the dependencies: the registered definition with its implementation,
  the store of rights, the event emitter, the approvals, the hash, the clock, and what other processes
  do to the table of runs while a call looks for the holder of its key. The implementation and the
  events act on a world of their own type \<open>'w\<close>. Logging is left out.
\<close>

section \<open>Calls and definitions\<close>

record operation_call =
  call_operation :: string
  call_effect :: operation_effect
  call_input :: json
  call_actor :: authenticated_identity
  call_label :: string
  call_delegated :: "string option"
  call_origin :: operation_origin
  call_workspaceId :: "string option"
  call_key :: "string option"
  call_correlationId :: string

record operation_resource =
  orc_kind :: string
  orc_id :: string
  orc_name :: "string option"
  orc_assetId :: "string option"
  orc_workspaceId :: "string option"

definition access_resource_of :: "operation_resource \<Rightarrow> access_resource" where
  "access_resource_of r =
     \<lparr> res_kind = Some (orc_kind r), res_name = orc_name r, res_assetId = orc_assetId r,
       res_workspaceId = orc_workspaceId r \<rparr>"

type_synonym actor_access = "access_holder \<times> persisted_access"

datatype operation_authorization = Right_Allowed | Right_Refused string refusal

record execution_context =
  ctx_runId :: string
  ctx_actor :: authenticated_identity
  ctx_origin :: operation_origin
  ctx_workspaceId :: "string option"
  ctx_correlationId :: string
  ctx_access :: actor_access

record 'w operation_definition =
  op_name :: string
  op_effect :: operation_effect
  op_action :: "string option"
  op_authorize ::
    "(json \<Rightarrow> operation_call \<Rightarrow> actor_access \<Rightarrow> operation_resource option \<Rightarrow> 'w \<Rightarrow>
      (js_error, operation_authorization) result) option"
  op_defaultPolicy :: "policy_value option"
  op_parse :: "json \<Rightarrow> (json, json) result"
  op_resource :: "json \<Rightarrow> operation_resource option"
  op_policyTargets :: "(json \<Rightarrow> 'w \<Rightarrow> (js_error, policy_target list) result) option"
  op_before :: "string option"
  op_after :: "string option"
  op_execute :: "json \<Rightarrow> execution_context \<Rightarrow> 'w \<Rightarrow> 'w \<times> (js_error, json) result"

datatype event_phase = Phase_Before | Phase_After

record platform_event =
  pe_name :: string
  pe_phase :: event_phase
  pe_runId :: string
  pe_operation :: string
  pe_effect :: operation_effect
  pe_attempt :: nat
  pe_payload :: "(string \<times> json) list"
  pe_actor :: authenticated_identity
  pe_origin :: operation_origin
  pe_workspaceId :: "string option"
  pe_correlationId :: string
  pe_subject :: "string \<times> string"

record run_clock =
  ck_started :: "nat \<Rightarrow> time"
  ck_finished :: time
  ck_requested :: time
  ck_decided :: time

record 'w operation_deps =
  dep_instance :: string
  dep_resolve :: "string \<Rightarrow> 'w operation_definition option"
  dep_rights :: "('w \<Rightarrow> string \<Rightarrow> holder_kind \<Rightarrow> string \<Rightarrow> (js_error, persisted_access) result) option"
  dep_emit :: "platform_event \<Rightarrow> 'w \<Rightarrow> 'w \<times> (js_error, event_outcome) result"
  dep_defaults :: "operation_effect \<Rightarrow> policy_value"
  dep_central :: "'w \<Rightarrow> (js_error, policy_setting list) result"
  dep_approvals ::
    "(operation_run \<Rightarrow> operation_call \<Rightarrow> operation_resource option \<Rightarrow> 'w \<Rightarrow> 'w \<times> (js_error, string) result) option"
  dep_ids :: "nat \<Rightarrow> string"
  dep_sha256 :: "string \<Rightarrow> string"
  dep_num :: "rat \<Rightarrow> string"
  dep_clock :: run_clock
  dep_meanwhile :: "nat \<Rightarrow> runs \<Rightarrow> runs"

record 'w op_state =
  os_runs :: runs
  os_world :: 'w

type_synonym ('w, 'a) op_step = "'w op_state \<Rightarrow> 'w op_state \<times> (js_error, 'a) result"

definition then_step :: "('w, 'a) op_step \<Rightarrow> ('a \<Rightarrow> ('w, 'b) op_step) \<Rightarrow> ('w, 'b) op_step" where
  "then_step m f s = (case m s of (s', Inl e) \<Rightarrow> (s', Inl e) | (s', Inr a) \<Rightarrow> f a s')"

definition lift_result :: "(js_error, 'a) result \<Rightarrow> ('w, 'a) op_step" where
  "lift_result r s = (s, r)"

definition in_world :: "('w \<Rightarrow> 'w \<times> (js_error, 'a) result) \<Rightarrow> ('w, 'a) op_step" where
  "in_world f s = (case f (os_world s) of (w, r) \<Rightarrow> (s\<lparr>os_world := w\<rparr>, r))"

datatype operation_result =
  Res_Done (result_run: string) (result_output: json)
| Res_Pending_Confirmation (result_run: string) time json string
| Res_Pending_Approval (result_run: string) string time
| Res_Denied (result_run: string) operation_denial
| Res_Failed (result_run: string) string string "json option"
| Res_Expired (result_run: string)

record operation_outcome =
  oc_result :: operation_result
  oc_run :: operation_run
  oc_replayed :: bool

definition OPERATION_RUN_OUTPUT_MAX_BYTES :: nat where
  "OPERATION_RUN_OUTPUT_MAX_BYTES = 262144"

definition PENDING_APPROVAL_EXPIRES_AFTER_MS :: rat where
  "PENDING_APPROVAL_EXPIRES_AFTER_MS = 604800000"

definition IDEMPOTENCY_CLAIM_ATTEMPTS :: nat where
  "IDEMPOTENCY_CLAIM_ATTEMPTS = 3"

definition IDEMPOTENCY_KEY_MAX_LENGTH :: nat where
  "IDEMPOTENCY_KEY_MAX_LENGTH = 255"

section \<open>Ends of a run\<close>

definition emit ::
    "'w operation_deps \<Rightarrow> operation_run \<Rightarrow> 'w operation_definition \<Rightarrow> operation_call \<Rightarrow> operation_resource option \<Rightarrow> string \<Rightarrow>
      event_phase \<Rightarrow> (string \<times> json) list \<Rightarrow> ('w, event_outcome) op_step" where
  "emit d run def call resource event_name phase payload =
     in_world (dep_emit d
       \<lparr> pe_name = event_name, pe_phase = phase, pe_runId = run_id run, pe_operation = op_name def,
         pe_effect = op_effect def, pe_attempt = run_attempt run, pe_payload = payload,
         pe_actor = call_actor call, pe_origin = call_origin call, pe_workspaceId = call_workspaceId call,
         pe_correlationId = call_correlationId call,
         pe_subject = (case resource of Some r \<Rightarrow> (orc_kind r, orc_id r) | None \<Rightarrow> (''operation'', op_name def)) \<rparr>)"

text \<open>\<open>end\<close>: the run as it is ended, or as it was when something else ended it meanwhile.\<close>

definition end_run :: "'w operation_deps \<Rightarrow> operation_run \<Rightarrow> run_end \<Rightarrow> ('w, operation_run) op_step" where
  "end_run d run ending s =
     (case finishOperationRun (dep_instance d) (run_id run) (ck_finished (dep_clock d)) ending (os_runs s) of
        (db, finished) \<Rightarrow>
          (s\<lparr>os_runs := db\<rparr>, Inr (case finished of Some r \<Rightarrow> r | None \<Rightarrow> run)))"

fun error_texts :: "js_error \<Rightarrow> string \<times> string" where
  "error_texts (App_Error e) = (code_name (err_code e), err_message e)"
| "error_texts (Foreign_Error message) = ('''', message)"

definition denial_error :: "operation_denial \<Rightarrow> run_error" where
  "denial_error denial =
     (case error_texts (operationDenialError denial) of (code, message) \<Rightarrow>
        \<lparr> rerr_code = code, rerr_message = message, rerr_unexecuted = False \<rparr>)"

definition deny ::
    "'w operation_deps \<Rightarrow> operation_run \<Rightarrow> 'w operation_definition \<Rightarrow> operation_call \<Rightarrow> operation_resource option \<Rightarrow> operation_denial \<Rightarrow>
      ('w, operation_result \<times> operation_run) op_step" where
  "deny d run def call resource denial =
     then_step (end_run d run (Ends_Denied (denial_error denial) denial)) (\<lambda>denied.
     then_step (emit d run def call resource ''operation.denied'' Phase_After
         [(''status'', JStr ''denied''), (''reason'', JStr (rerr_code (denial_error denial)))]) (\<lambda>_.
     lift_result (Inr (Res_Denied (run_id run) denial, denied))))"

fun details_record :: "json option \<Rightarrow> json option" where
  "details_record (Some (JObj kvs)) = Some (JObj kvs)"
| "details_record _ = None"

definition fail ::
    "'w operation_deps \<Rightarrow> operation_run \<Rightarrow> 'w operation_definition \<Rightarrow> operation_call \<Rightarrow> operation_resource option \<Rightarrow>
      js_error \<Rightarrow> bool \<Rightarrow> ('w, operation_result \<times> operation_run) op_step" where
  "fail d run def call resource error unexecuted =
     (let safe = toErrorEnvelope error (call_correlationId call);
          code = code_name (env_code safe); message = env_message safe
      in then_step (end_run d run
             (Ends_Failed \<lparr> rerr_code = code, rerr_message = message, rerr_unexecuted = unexecuted \<rparr>)) (\<lambda>failed.
         then_step (emit d run def call resource ''operation.failed'' Phase_After
             [(''status'', JStr ''failed''), (''reason'', JStr code)]) (\<lambda>_.
         lift_result (Inr (Res_Failed (run_id run) code message (details_record (env_details safe)), failed)))))"

section \<open>The decision\<close>

definition strictestOutcome :: "event_outcome list \<Rightarrow> event_outcome" where
  "strictestOutcome outcomes =
     (let rank = (\<lambda>o'. case o' of Outcome_Allow \<Rightarrow> 0 | Outcome_Warn \<Rightarrow> 1 | Outcome_Require_Approval \<Rightarrow> 2
            | Outcome_Block \<Rightarrow> (3 :: nat))
      in foldl (\<lambda>l r. if rank r \<le> rank l then l else r) Outcome_Allow outcomes)"

definition load_access :: "'w operation_deps \<Rightarrow> operation_call \<Rightarrow> ('w, actor_access) op_step" where
  "load_access d call s =
     (s, forActor (map_option (\<lambda>load. load (os_world s)) (dep_rights d)) (call_actor call))"

definition check_right ::
    "'w operation_definition \<Rightarrow> operation_call \<Rightarrow> actor_access \<Rightarrow> operation_resource option \<Rightarrow>
      ('w, operation_authorization) op_step" where
  "check_right def call access resource s =
     (s, case op_action def of
           Some action \<Rightarrow>
             (case evaluateAccess (fst access) (snd access) action (map_option access_resource_of resource) of
                Allowed _ \<Rightarrow> Inr Right_Allowed
              | Refused reason \<Rightarrow> Inr (Right_Refused action reason))
         | None \<Rightarrow>
             (case op_authorize def of
                Some own \<Rightarrow> own (call_input call) call access resource (os_world s)
              | None \<Rightarrow> Inl (Foreign_Error ''definition.authorize is not a function'')))"

definition right_payload :: "'w operation_definition \<Rightarrow> operation_authorization \<Rightarrow> (string \<times> json) list" where
  "right_payload def right =
     (case right of
        Right_Allowed \<Rightarrow>
          (case op_action def of Some a \<Rightarrow> [(''action'', JStr a)] | None \<Rightarrow> []) @ [(''status'', JStr ''success'')]
      | Right_Refused action reason \<Rightarrow>
          (if op_action def = None then [(''status'', JStr ''denied''), (''action'', JStr action)]
           else [(''action'', JStr action), (''status'', JStr ''denied'')])
          @ [(''reason'', JStr (refusal_text reason))])"

definition call_targets ::
    "'w operation_definition \<Rightarrow> operation_call \<Rightarrow> operation_resource option \<Rightarrow> ('w, policy_target list) op_step" where
  "call_targets def call resource s =
     (s, case op_policyTargets def of
           Some targets \<Rightarrow> targets (call_input call) (os_world s)
         | None \<Rightarrow>
             Inr [\<lparr> tgt_workspaceId = call_workspaceId call, tgt_assetKind = map_option orc_kind resource,
               tgt_namespace = None \<rparr>])"

definition policy_input_of ::
    "'w operation_deps \<Rightarrow> 'w operation_definition \<Rightarrow> operation_call \<Rightarrow> policy_setting list \<Rightarrow> policy_target list \<Rightarrow>
      event_outcome option \<Rightarrow> policy_input" where
  "policy_input_of d def call central targets guardrail =
     \<lparr> pol_name = op_name def, pol_effect = op_effect def, pol_declared = op_defaultPolicy def,
       pol_defaults = dep_defaults d, pol_settings = central, pol_targets = Some targets,
       pol_guardrail = guardrail, pol_callerCanConfirm = callerCanConfirm (call_origin call),
       pol_canPause = False \<rparr>"

datatype verdict = Verdict_Deny operation_denial | Verdict_Await | Verdict_Run policy_resolution

definition guardrail_outcome ::
    "'w operation_deps \<Rightarrow> operation_run \<Rightarrow> 'w operation_definition \<Rightarrow> operation_call \<Rightarrow> operation_resource option \<Rightarrow>
      ('w, event_outcome) op_step" where
  "guardrail_outcome d run def call resource =
     then_step (emit d run def call resource ''operation.before_call'' Phase_Before []) (\<lambda>first.
       case op_before def of
         None \<Rightarrow> lift_result (Inr (strictestOutcome [first]))
       | Some own \<Rightarrow>
           then_step (emit d run def call resource own Phase_Before []) (\<lambda>second.
             lift_result (Inr (strictestOutcome [first, second]))))"

definition policy_verdict ::
    "'w operation_deps \<Rightarrow> 'w operation_definition \<Rightarrow> policy_resolution \<Rightarrow> (js_error, verdict) result" where
  "policy_verdict d def policy =
     (case res_next policy of
        Next_Refuse \<Rightarrow>
          Inr (Verdict_Deny
            (if res_source policy = Guardrail_Source then
               Guardrail_Denial (case op_before def of Some own \<Rightarrow> own | None \<Rightarrow> ''operation.before_call'') None
             else Policy_Denial (op_name def)))
      | Await_Confirmation \<Rightarrow> Inl (app_error INTERNAL ''This surface cannot hold a call for a confirmation'')
      | Await_Approval \<Rightarrow>
          Inr (if dep_approvals d = None then Verdict_Deny (Policy_Denial (op_name def)) else Verdict_Await)
      | _ \<Rightarrow> Inr (Verdict_Run policy))"

definition ask_policy ::
    "'w operation_deps \<Rightarrow> operation_run \<Rightarrow> 'w operation_definition \<Rightarrow> operation_call \<Rightarrow> operation_resource option \<Rightarrow>
      ('w, verdict) op_step" where
  "ask_policy d run def call resource =
     then_step (\<lambda>s. (s, dep_central d (os_world s))) (\<lambda>central.
     then_step (call_targets def call resource) (\<lambda>targets.
       if res_next (resolvePolicy (policy_input_of d def call central targets None)) = Next_Refuse then
         lift_result (Inr (Verdict_Deny (Policy_Denial (op_name def))))
       else
         then_step (guardrail_outcome d run def call resource) (\<lambda>outcome.
           lift_result (policy_verdict d def
             (resolvePolicy (policy_input_of d def call central targets (Some outcome)))))))"

definition after_right ::
    "'w operation_deps \<Rightarrow> operation_run \<Rightarrow> 'w operation_definition \<Rightarrow> operation_call \<Rightarrow> operation_resource option \<Rightarrow>
      actor_access \<Rightarrow> operation_authorization \<Rightarrow> ('w, actor_access \<times> verdict) op_step" where
  "after_right d run def call resource access right =
     (case right of
        Right_Refused action reason \<Rightarrow> lift_result (Inr (access, Verdict_Deny (Forbidden_Denial action reason)))
      | Right_Allowed \<Rightarrow>
          then_step (ask_policy d run def call resource) (\<lambda>v. lift_result (Inr (access, v))))"

definition decide_call ::
    "'w operation_deps \<Rightarrow> operation_run \<Rightarrow> 'w operation_definition \<Rightarrow> operation_call \<Rightarrow> operation_resource option \<Rightarrow>
      ('w, actor_access \<times> verdict) op_step" where
  "decide_call d run def call resource =
     then_step (load_access d call) (\<lambda>access.
     then_step (check_right def call access resource) (\<lambda>right.
     then_step (emit d run def call resource ''operation.authorization_checked'' Phase_After
         (right_payload def right)) (\<lambda>_. after_right d run def call resource access right)))"

section \<open>The call\<close>

text \<open>Up to the start of the implementation: an end without it, or the go-ahead.\<close>

datatype before_start =
  Ended_Before operation_result operation_run
| Goes_Ahead actor_access policy_resolution

definition await_approval ::
    "'w operation_deps \<Rightarrow> operation_run \<Rightarrow> operation_call \<Rightarrow> operation_resource option \<Rightarrow>
      ('w, operation_result \<times> operation_run) op_step" where
  "await_approval d run call resource =
     (case dep_approvals d of
        None \<Rightarrow> lift_result (Inl (Foreign_Error ''deps.approvals is undefined''))
      | Some request \<Rightarrow>
          then_step (in_world (request run call resource)) (\<lambda>approvalRequestId.
            let expiresAt = ck_requested (dep_clock d) + PENDING_APPROVAL_EXPIRES_AFTER_MS in
            then_step (end_run d run
                (Ends_Pending_Approval approvalRequestId (''approval_request:'' @ approvalRequestId) expiresAt)) (\<lambda>pending.
            lift_result (Inr (Res_Pending_Approval (run_id run) approvalRequestId expiresAt, pending)))))"

definition until_start ::
    "'w operation_deps \<Rightarrow> operation_run \<Rightarrow> 'w operation_definition \<Rightarrow> operation_call \<Rightarrow> operation_resource option \<Rightarrow>
      ('w, before_start) op_step" where
  "until_start d run def call resource =
     then_step (decide_call d run def call resource) (\<lambda>(access, v).
       case v of
         Verdict_Deny denial \<Rightarrow>
           then_step (deny d run def call resource denial) (\<lambda>(result, r). lift_result (Inr (Ended_Before result r)))
       | Verdict_Await \<Rightarrow>
           then_step (await_approval d run call resource) (\<lambda>(result, r). lift_result (Inr (Ended_Before result r)))
       | Verdict_Run policy \<Rightarrow>
           then_step (emit d run def call resource ''operation.started'' Phase_After [(''status'', JStr ''success'')])
             (\<lambda>_. lift_result (Inr (Goes_Ahead access policy))))"

definition retainedOutput :: "(rat \<Rightarrow> string) \<Rightarrow> json \<Rightarrow> json option" where
  "retainedOutput num output =
     (if utf8_length (json_stringify num output) \<le> OPERATION_RUN_OUTPUT_MAX_BYTES then Some output else None)"

definition refusal_of_text :: "string \<Rightarrow> refusal option" where
  "refusal_of_text t =
     List.find (\<lambda>r. refusal_text r = t) [No_Grant, Denied, Unknown_Action, Holder_Inactive]"

text \<open>\<open>forbiddenSchema\<close>: what an implementation refuses through its access.\<close>

definition forbidden_details :: "js_error \<Rightarrow> operation_denial option" where
  "forbidden_details error =
     (case error of
        App_Error e \<Rightarrow>
          (if err_code e \<noteq> FORBIDDEN then None
           else (case err_details e of
               Some (JObj kvs) \<Rightarrow>
                 (case (map_of kvs ''action'', map_of kvs ''reason'') of
                    (Some (JStr action), Some (JStr reason)) \<Rightarrow>
                      map_option (Forbidden_Denial action) (refusal_of_text reason)
                  | _ \<Rightarrow> None)
             | _ \<Rightarrow> None))
      | Foreign_Error _ \<Rightarrow> None)"

definition caught ::
    "'w operation_deps \<Rightarrow> operation_run \<Rightarrow> 'w operation_definition \<Rightarrow> operation_call \<Rightarrow> operation_resource option \<Rightarrow>
      js_error \<Rightarrow> bool \<Rightarrow> ('w, operation_result \<times> operation_run) op_step" where
  "caught d run def call resource error started =
     (case forbidden_details error of
        Some denial \<Rightarrow> deny d run def call resource denial
      | None \<Rightarrow> fail d run def call resource error (\<not> started))"

text \<open>After the implementation answered, nothing that fails changes the answer of the call.\<close>

definition record_done ::
    "'w operation_deps \<Rightarrow> operation_run \<Rightarrow> 'w operation_definition \<Rightarrow> operation_call \<Rightarrow> operation_resource option \<Rightarrow> policy_resolution \<Rightarrow>
      json \<Rightarrow> 'w op_state \<Rightarrow> 'w op_state \<times> operation_run" where
  "record_done d run def call resource policy output s =
     (case end_run d run
         (Ends_Done (if op_effect def = Changing then retainedOutput (dep_num d) output else None) None
           (if res_next policy = Next_Run_Direct then
              Some \<lparr> dec_mode = Decision_Direct, dec_by = ra_id (run_actor run),
                dec_at = ck_decided (dep_clock d), dec_comment = None, dec_edited = None,
                dec_inputHashes = None \<rparr>
            else None)) s of
        (s1, Inl _) \<Rightarrow> (s1, run)
      | (s1, Inr done_run) \<Rightarrow>
          (fst (then_step (emit d run def call resource ''operation.completed'' Phase_After
              [(''status'', JStr ''success'')]) (\<lambda>_.
            case op_after def of
              Some own \<Rightarrow> emit d run def call resource own Phase_After []
            | None \<Rightarrow> lift_result (Inr Outcome_Allow)) s1), done_run))"

definition executeRun ::
    "'w operation_deps \<Rightarrow> operation_run \<Rightarrow> 'w operation_definition \<Rightarrow> operation_call \<Rightarrow> operation_resource option \<Rightarrow>
      ('w, operation_result \<times> operation_run) op_step" where
  "executeRun d run def call resource s =
     (case until_start d run def call resource s of
        (s1, Inl e) \<Rightarrow> caught d run def call resource e False s1
      | (s1, Inr (Ended_Before result r)) \<Rightarrow> (s1, Inr (result, r))
      | (s1, Inr (Goes_Ahead access policy)) \<Rightarrow>
          (case in_world (op_execute def (call_input call)
              \<lparr> ctx_runId = run_id run, ctx_actor = call_actor call, ctx_origin = call_origin call,
                ctx_workspaceId = call_workspaceId call, ctx_correlationId = call_correlationId call,
                ctx_access = access \<rparr>) s1 of
             (s2, Inl e) \<Rightarrow> caught d run def call resource e True s2
           | (s2, Inr output) \<Rightarrow>
               (case record_done d run def call resource policy output s2 of
                  (s3, done_run) \<Rightarrow> (s3, Inr (Res_Done (run_id run) output, done_run)))))"

section \<open>Idempotency\<close>

definition readIdempotencyKey :: "operation_call \<Rightarrow> 'w operation_definition \<Rightarrow> (js_error, string option) result" where
  "readIdempotencyKey call def =
     (if op_effect def = Reading then Inr None
      else (case call_key call of
          None \<Rightarrow>
            (case call_origin call of
               App_Origin _ _ _ _ \<Rightarrow> Inl (app_error VALIDATION_FAILED ''This call needs an Idempotency-Key'')
             | Workflow_Origin _ _ \<Rightarrow> Inl (app_error VALIDATION_FAILED ''This call needs an Idempotency-Key'')
             | _ \<Rightarrow> Inr None)
        | Some key \<Rightarrow>
            (if key = [] \<or> IDEMPOTENCY_KEY_MAX_LENGTH < length key then
               Inl (app_error VALIDATION_FAILED ''An Idempotency-Key has 1 to 255 characters'')
             else Inr (Some key))))"

fun actor_fields :: "authenticated_identity \<Rightarrow> string" where
  "actor_fields (Service_Principal_Actor a) = actor_id a"
| "actor_fields (User_Actor a) = actor_id a"
| "actor_fields Unknown_Actor = ''''"

definition runActor :: "operation_call \<Rightarrow> run_actor" where
  "runActor call =
     (case call_actor call of
        Service_Principal_Actor a \<Rightarrow>
          \<lparr> ra_kind = Service_Principal_Holder, ra_id = actor_id a, ra_label = call_label call, ra_delegated = None \<rparr>
      | actor \<Rightarrow>
          \<lparr> ra_kind = User_Holder, ra_id = actor_fields actor, ra_label = call_label call,
            ra_delegated = call_delegated call \<rparr>)"

definition sameCall :: "operation_run \<Rightarrow> 'w operation_definition \<Rightarrow> run_actor \<Rightarrow> string \<Rightarrow> bool" where
  "sameCall held_run def actor inputHash \<longleftrightarrow>
     run_operation held_run = op_name def \<and> run_inputHash held_run = inputHash \<and>
     ra_kind (run_actor held_run) = ra_kind actor"

definition keyReused :: js_error where
  "keyReused =
     app_error IDEMPOTENCY_KEY_REUSED ''This Idempotency-Key was used for another call. Send a new key.''"

definition run_details :: "operation_run \<Rightarrow> (string \<times> json) list \<Rightarrow> json" where
  "run_details r extra = JObj ((''operationRunId'', JStr (run_id r)) # extra)"

definition replay ::
    "operation_run \<Rightarrow> 'w operation_definition \<Rightarrow> run_actor \<Rightarrow> string \<Rightarrow> (js_error, operation_result) result" where
  "replay h def actor inputHash =
     (let broken = Inl (app_error INTERNAL
            (''Operation run '' @ quoted (run_id h) @ '' cannot be answered again''))
      in if \<not> sameCall h def actor inputHash then Inl keyReused
         else (case run_status h of
             Run_Done \<Rightarrow>
               (case run_output h of
                  None \<Rightarrow> Inl (app_error_with OUTPUT_NOT_RETAINED
                    ''The call completed and its answer is not kept. Read the result from what it changed.''
                    (run_details h []))
                | Some output \<Rightarrow> Inr (Res_Done (run_id h) output))
           | Run_Pending_Approval \<Rightarrow>
               (case (run_approvalRequestId h, run_expiresAt h) of
                  (Some approval, Some expiresAt) \<Rightarrow> Inr (Res_Pending_Approval (run_id h) approval expiresAt)
                | _ \<Rightarrow> broken)
           | Run_Denied \<Rightarrow>
               (case run_denial h of Some denial \<Rightarrow> Inr (Res_Denied (run_id h) denial) | None \<Rightarrow> broken)
           | Run_Expired \<Rightarrow> Inr (Res_Expired (run_id h))
           | Run_Failed \<Rightarrow>
               (case run_error h of
                  None \<Rightarrow> broken
                | Some e \<Rightarrow>
                    (if rerr_code e = rerr_code INTERRUPTED_RUN_ERROR then
                       Inl (app_error_with OPERATION_IN_PROGRESS
                         ''The first call with this key was interrupted and its outcome is not known. Check what it changed, then call again with a new Idempotency-Key.''
                         (run_details h [(''interrupted'', JBool True)]))
                     else Inr (Res_Failed (run_id h) (rerr_code e) (rerr_message e) None)))
           | _ \<Rightarrow> Inl (app_error_with OPERATION_IN_PROGRESS
               ''The first call with this key has not ended'' (run_details h []))))"

definition hashInput :: "'w operation_deps \<Rightarrow> json \<Rightarrow> string" where
  "hashInput d input = dep_sha256 d (canonicalJson (dep_num d) input)"

definition assertOperationChecksRights :: "'w operation_definition \<Rightarrow> (js_error, unit) result" where
  "assertOperationChecksRights def =
     (let named = (op_action def \<noteq> None \<and> op_action def \<noteq> Some ''''); own = (op_authorize def \<noteq> None) in
      if named = own then
        Inl (app_error INTERNAL
          (''Operation '' @ quoted (op_name def) @
            (if named then '' names a right and may not check rights itself too''
             else '' names no right and has no check of its own'')))
      else Inr ())"

fun origin_conversation :: "operation_origin \<Rightarrow> string option" where
  "origin_conversation (Agent_Origin _ conversation _ _ _) = Some conversation"
| "origin_conversation (App_Origin _ _ _ conversation) = conversation"
| "origin_conversation _ = None"

definition new_run_of ::
    "'w operation_deps \<Rightarrow> 'w operation_definition \<Rightarrow> operation_call \<Rightarrow> string option \<Rightarrow> string \<Rightarrow> nat \<Rightarrow> new_run" where
  "new_run_of d def call key inputHash k =
     \<lparr> nr_id = dep_ids d k, nr_instance = dep_instance d, nr_operation = op_name def,
       nr_effect = op_effect def, nr_actor = runActor call, nr_ownerUserId = None,
       nr_workspaceId = call_workspaceId call,
       nr_origin = call_origin call, nr_conversationId = origin_conversation (call_origin call),
       nr_key = key, nr_inputHash = inputHash, nr_correlationId = call_correlationId call,
       nr_startedAt = ck_started (dep_clock d) k \<rparr>"

text \<open>The loop: \<open>n\<close> attempts are left, and \<open>k\<close> is the number of this one.\<close>

fun claim_run ::
    "nat \<Rightarrow> nat \<Rightarrow> 'w operation_deps \<Rightarrow> 'w operation_definition \<Rightarrow> operation_call \<Rightarrow> operation_resource option \<Rightarrow>
      string option \<Rightarrow> string \<Rightarrow> ('w, operation_outcome) op_step" where
  "claim_run 0 k d def call resource key inputHash s =
     (s, Inl (app_error INTERNAL (''Operation '' @ quoted (op_name def) @ '' could not start a run'')))"
| "claim_run (Suc n) k d def call resource key inputHash s =
     (case createOperationRun (new_run_of d def call key inputHash k) (os_runs s) of
        Inl e \<Rightarrow> (s, Inl e)
      | Inr (db, Some run) \<Rightarrow>
          then_step (executeRun d run def call resource) (\<lambda>(result, r).
            lift_result (Inr \<lparr> oc_result = result, oc_run = r, oc_replayed = False \<rparr>)) (s\<lparr>os_runs := db\<rparr>)
      | Inr (db, None) \<Rightarrow>
          (let s1 = s\<lparr>os_runs := dep_meanwhile d k db\<rparr> in
           case key of
             None \<Rightarrow> claim_run 0 k d def call resource key inputHash s1
           | Some ikey \<Rightarrow>
               (case findOperationRunByIdempotencyKey (dep_instance d) (runActor call) ikey (os_runs s1) of
                  None \<Rightarrow> claim_run n (Suc k) d def call resource key inputHash s1
                | Some h \<Rightarrow>
                    (if \<not> runs_again h then
                       (s1, bind_result (replay h def (runActor call) inputHash) (\<lambda>result.
                          Inr \<lparr> oc_result = result, oc_run = h, oc_replayed = True \<rparr>))
                     else if \<not> sameCall h def (runActor call) inputHash then (s1, Inl keyReused)
                     else claim_run n (Suc k) d def call resource key inputHash s1))))"

definition prepare_call ::
    "operation_call \<Rightarrow> 'w operation_deps \<Rightarrow> (js_error, 'w operation_definition \<times> json \<times> string option) result" where
  "prepare_call call d =
     (case dep_resolve d (call_operation call) of
        None \<Rightarrow> Inl (app_error NOT_FOUND (''Operation '' @ quoted (call_operation call) @ '' is not registered''))
      | Some def \<Rightarrow>
          bind_result (assertOperationChecksRights def) (\<lambda>_.
          if op_effect def \<noteq> call_effect call then
            Inl (app_error INTERNAL (''Operation '' @ quoted (call_operation call) @ '' is '' @
              (case op_effect def of Reading \<Rightarrow> ''reading'' | Changing \<Rightarrow> ''changing'')))
          else
            (case op_parse def (call_input call) of
               Inl issues \<Rightarrow> Inl (app_error_with VALIDATION_FAILED ''Operation input is invalid''
                 (JObj [(''issues'', issues)]))
             | Inr input \<Rightarrow>
                 bind_result (readIdempotencyKey call def) (\<lambda>key. Inr (def, input, key)))))"

definition frozen_call :: "operation_call \<Rightarrow> json \<Rightarrow> operation_resource option \<Rightarrow> operation_call" where
  "frozen_call call input resource =
     call\<lparr>call_input := input,
       call_workspaceId := (case call_workspaceId call of
           Some w \<Rightarrow> Some w
         | None \<Rightarrow> Option.bind resource orc_workspaceId)\<rparr>"

definition runOperation :: "operation_call \<Rightarrow> 'w operation_deps \<Rightarrow> ('w, operation_outcome) op_step" where
  "runOperation call d =
     then_step (lift_result (prepare_call call d)) (\<lambda>(def, input, key).
       let resource = op_resource def input in
       claim_run IDEMPOTENCY_CLAIM_ATTEMPTS 0 d def (frozen_call call input resource) resource key
         (hashInput d input))"

end
