(* ===== verification/Operation_Machine.thy ===== *)
theory Operation_Machine imports Operation_Call begin

text \<open>
  All calls of an instance together: processes create runs, start implementations and end runs in any
  order, and the sweeps for expired and interrupted runs come in between. A process that dies takes no
  further step. A step is one statement on the table or one start of an implementation.
\<close>

section \<open>The machine\<close>

record calls =
  cl_runs :: runs
  cl_before :: "string list"
  cl_ending :: "string list"
  cl_log :: "string list"

definition no_calls :: "calls \<Rightarrow> bool" where
  "no_calls s \<longleftrightarrow> cl_runs s = [] \<and> cl_before s = [] \<and> cl_ending s = [] \<and> cl_log s = []"

text \<open>How a call ends that never reached its implementation, and how one that did.\<close>

fun refusing :: "run_end \<Rightarrow> bool" where
  "refusing (Ends_Denied _ _) = True"
| "refusing (Ends_Failed _) = True"
| "refusing _ = False"

fun after_start :: "run_end \<Rightarrow> bool" where
  "after_start (Ends_Done _ _ _) = True"
| "after_start (Ends_Denied _ _) = True"
| "after_start (Ends_Failed e) = (\<not> rerr_unexecuted e)"
| "after_start (Ends_Pending_Approval _ _ _) = False"

text \<open>
  \<open>cl_before\<close> has the runs whose call may still start its implementation, \<open>cl_ending\<close> those whose call
  was refused and may only end its run again, and \<open>cl_log\<close> every start of an implementation.
\<close>

inductive call_step :: "string \<Rightarrow> calls \<Rightarrow> calls \<Rightarrow> bool" for inst where
  call_begins:
    "createOperationRun n (cl_runs s) = Inr (db, Some r) \<Longrightarrow> nr_instance n = inst \<Longrightarrow>
     (nr_effect n = Reading \<Longrightarrow> nr_key n = None) \<Longrightarrow>
     call_step inst s (s\<lparr>cl_runs := db, cl_before := run_id r # cl_before s\<rparr>)"
| call_starts:
    "i \<in> set (cl_before s) \<Longrightarrow>
     call_step inst s (s\<lparr>cl_before := remove1 i (cl_before s), cl_log := i # cl_log s\<rparr>)"
| call_fails_before:
    "i \<in> set (cl_before s) \<Longrightarrow>
     call_step inst s (s\<lparr>cl_runs := fst (finishOperationRun inst i t (Ends_Failed e) (cl_runs s)),
       cl_before := remove1 i (cl_before s)\<rparr>)"
| call_is_held:
    "i \<in> set (cl_before s) \<Longrightarrow>
     call_step inst s (s\<lparr>cl_runs := fst (finishOperationRun inst i t (Ends_Pending_Approval a ref x) (cl_runs s)),
       cl_before := remove1 i (cl_before s)\<rparr>)"
| call_is_denied:
    "i \<in> set (cl_before s) \<Longrightarrow>
     call_step inst s (s\<lparr>cl_runs := fst (finishOperationRun inst i t (Ends_Denied e denial) (cl_runs s)),
       cl_before := remove1 i (cl_before s), cl_ending := i # cl_ending s\<rparr>)"
| call_is_refused_again:
    "i \<in> set (cl_ending s) \<Longrightarrow> refusing ending \<Longrightarrow>
     call_step inst s (s\<lparr>cl_runs := fst (finishOperationRun inst i t ending (cl_runs s))\<rparr>)"
| call_ends:
    "i \<in> set (cl_log s) \<Longrightarrow> after_start ending \<Longrightarrow>
     call_step inst s (s\<lparr>cl_runs := fst (finishOperationRun inst i t ending (cl_runs s))\<rparr>)"
| runs_expire:
    "call_step inst s (s\<lparr>cl_runs := fst (markOperationRunsExpired now inst (cl_runs s))\<rparr>)"
| run_is_interrupted:
    "call_step inst s (s\<lparr>cl_runs := fst (markOperationRunInterrupted now inst i (cl_runs s))\<rparr>)"

inductive_cases call_stepE: "call_step inst s t"

section \<open>The table of runs\<close>

definition runs_table :: "runs \<Rightarrow> bool" where
  "runs_table db \<longleftrightarrow> distinct (map run_id db) \<and> unique_by run_index run_id db \<and>
     (\<forall>r \<in> set db. run_key r \<noteq> None \<longrightarrow> run_effect r = Changing)"

definition same_run :: "operation_run \<Rightarrow> operation_run \<Rightarrow> bool" where
  "same_run r r' \<longleftrightarrow> run_id r' = run_id r \<and> run_index r' = run_index r \<and> run_effect r' = run_effect r \<and>
     run_key r' = run_key r \<and> run_instance r' = run_instance r"

lemma same_run_updates [simp]:
  "same_run r (next_attempt n r)" "same_run r (ended_run t ending r)" "same_run r (expired_run now r)"
  "same_run r (interrupted_run now r)" "same_run r r"
  by (cases ending; simp add: same_run_def run_index_def next_attempt_def expired_run_def interrupted_run_def)+

lemma same_runD: "same_run r r' \<Longrightarrow> run_id r' = run_id r" "same_run r r' \<Longrightarrow> run_index r' = run_index r"
  "same_run r r' \<Longrightarrow> run_effect r' = run_effect r" "same_run r r' \<Longrightarrow> run_key r' = run_key r" "same_run r r' \<Longrightarrow> run_instance r' = run_instance r"
  by (simp_all add: same_run_def)

lemma update_ids: "(\<And>r. same_run r (f r)) \<Longrightarrow> map run_id (update_where p f db) = map run_id db"
  by (rule map_update_where) (simp add: same_run_def)

lemma runs_table_update:
  assumes "runs_table db" and f: "\<And>r. same_run r (f r)"
  shows "runs_table (update_where p f db)"
  unfolding runs_table_def
proof (intro conjI ballI impI)
  show "distinct (map run_id (update_where p f db))"
    using assms by (simp add: runs_table_def update_ids)
  show "unique_by run_index run_id (update_where p f db)"
    by (rule unique_by_update) (use assms in \<open>simp_all add: runs_table_def same_run_def\<close>)
  fix r assume "r \<in> set (update_where p f db)" "run_key r \<noteq> None"
  then show "run_effect r = Changing"
    using assms same_runD(3,4)[OF f] by (elim in_update_whereE) (auto simp: runs_table_def)
qed

text \<open>What \<open>finish\<close> and the sweeps do to the table is an update of rows that stay the same runs.\<close>

lemma finish_update:
  assumes "runs_table db"
  shows "\<exists>f. fst (finishOperationRun inst i t ending db) = update_where (\<lambda>r. run_id r = i) f db \<and>
    (\<forall>r \<in> set db. run_id r = i \<longrightarrow>
      f r = (if run_instance r = inst \<and> run_status r = Run_Running then ended_run t ending r else r)) \<and>
    (\<forall>r. same_run r (f r))"
proof (cases "List.find (\<lambda>r. identity_of inst i r \<and> run_status r = Run_Running) db")
  case None
  have "fst (finishOperationRun inst i t ending db) = update_where (\<lambda>r. run_id r = i) (\<lambda>r. r) db"
    using None by (simp add: finishOperationRun_def update_where_def)
  moreover have "\<not> (run_instance r = inst \<and> run_status r = Run_Running)" if "r \<in> set db" "run_id r = i" for r
    using None that by (auto simp: find_None_iff identity_of_def)
  ultimately show ?thesis by (intro exI[of _ "\<lambda>r. r"]) auto
next
  case (Some x)
  then have x: "x \<in> set db" "run_instance x = inst" "run_id x = i" "run_status x = Run_Running"
    using find_Some_iff[OF Some] by (simp_all add: identity_of_def)
  have "fst (finishOperationRun inst i t ending db) = update_where (\<lambda>r. run_id r = i) (ended_run t ending) db"
    using Some x by (simp add: finishOperationRun_def)
  moreover have "r = x" if "r \<in> set db" "run_id r = i" for r
    using assms x that by (auto simp: runs_table_def intro: distinct_map_inj)
  then have "\<forall>r \<in> set db. run_id r = i \<longrightarrow> run_instance r = inst \<and> run_status r = Run_Running"
    using x by blast
  ultimately show ?thesis by (intro exI[of _ "ended_run t ending"]) simp
qed

lemma interrupt_update:
  assumes "runs_table db"
  shows "\<exists>f. fst (markOperationRunInterrupted now inst i db) = update_where (\<lambda>r. run_id r = i) f db \<and>
    (\<forall>r \<in> set db. f r = r \<or> f r = interrupted_run now r) \<and> (\<forall>r. same_run r (f r))"
proof (cases "List.find (\<lambda>r. identity_of inst i r \<and> run_status r = Run_Running) db")
  case None
  then show ?thesis
    by (intro exI[of _ "\<lambda>r. r"]) (simp add: markOperationRunInterrupted_def update_where_def)
next
  case (Some x)
  then have "run_id x = i" using find_Some_iff[OF Some] by (simp add: identity_of_def)
  with Some show ?thesis
    by (intro exI[of _ "interrupted_run now"]) (simp add: markOperationRunInterrupted_def)
qed

section \<open>The invariant\<close>

definition run_ok :: "calls \<Rightarrow> operation_run \<Rightarrow> bool" where
  "run_ok s r \<longleftrightarrow>
     (run_effect r = Changing \<longrightarrow>
        count_list (cl_before s) (run_id r) + count_list (cl_log s) (run_id r) \<le> 1 \<and>
        (runs_again r \<longrightarrow> run_id r \<notin> set (cl_before s) \<and> run_id r \<notin> set (cl_log s)) \<and>
        (run_id r \<in> set (cl_ending s) \<longrightarrow> run_status r \<noteq> Run_Running \<and> \<not> runs_again r))"

definition calls_inv :: "string \<Rightarrow> calls \<Rightarrow> bool" where
  "calls_inv inst s \<longleftrightarrow>
     runs_table (cl_runs s) \<and> (\<forall>r \<in> set (cl_runs s). run_instance r = inst) \<and>
     set (cl_before s) \<union> set (cl_ending s) \<union> set (cl_log s) \<subseteq> run_id ` set (cl_runs s) \<and>
     (\<forall>r \<in> set (cl_runs s). run_ok s r)"

lemma calls_inv_start: "no_calls s \<Longrightarrow> calls_inv inst s"
  by (simp add: no_calls_def calls_inv_def runs_table_def)

text \<open>A step on the rows of one id keeps the invariant when it keeps it for those rows.\<close>

lemma calls_inv_row:
  assumes inv: "calls_inv inst s"
    and lists: "set (cl_before t) \<union> set (cl_ending t) \<union> set (cl_log t) \<subseteq> run_id ` set (cl_runs s)"
    and runs: "cl_runs t = update_where (\<lambda>r. run_id r = i) f (cl_runs s)"
    and same: "\<And>r. same_run r (f r)"
    and others: "\<And>r. r \<in> set (cl_runs s) \<Longrightarrow> run_id r \<noteq> i \<Longrightarrow> run_ok s r \<Longrightarrow> run_ok t r"
    and row: "\<And>r. r \<in> set (cl_runs s) \<Longrightarrow> run_id r = i \<Longrightarrow> run_ok s r \<Longrightarrow> run_ok t (f r)"
  shows "calls_inv inst t"
  unfolding calls_inv_def
proof (intro conjI ballI)
  show "runs_table (cl_runs t)"
    using inv same by (simp add: runs calls_inv_def runs_table_update)
  show "run_instance r = inst" if "r \<in> set (cl_runs t)" for r
    using that inv same_runD(5)[OF same] unfolding runs by (elim in_update_whereE) (auto simp: calls_inv_def)
  have "map run_id (cl_runs t) = map run_id (cl_runs s)"
    unfolding runs using same by (intro update_ids) simp
  then have "run_id ` set (cl_runs t) = run_id ` set (cl_runs s)"
    by (metis set_map)
  with lists show "set (cl_before t) \<union> set (cl_ending t) \<union> set (cl_log t) \<subseteq> run_id ` set (cl_runs t)" by simp
  show "run_ok t r" if "r \<in> set (cl_runs t)" for r
    using that unfolding runs
  proof (cases rule: in_update_whereE)
    case (1 x)
    with inv row show ?thesis by (simp add: calls_inv_def)
  next
    case 2
    with inv others show ?thesis by (simp add: calls_inv_def)
  qed
qed

lemma count_list_remove1: "count_list (remove1 x xs) y = count_list xs y - (if x = y then 1 else 0)"
  by (induction xs) (auto simp: count_list_0_iff Suc_diff_le)

lemma remove1_subset: "set (remove1 x xs) \<subseteq> set xs"
  by (rule set_remove1_subset)

lemmas run_ok_simps = run_ok_def runs_again_def same_run_def count_list_remove1

text \<open>Ending the run of a call that has not started, and of one that has.\<close>

lemma finish_keeps:
  assumes inv: "calls_inv inst s"
    and runs: "cl_runs t = fst (finishOperationRun inst i time ending (cl_runs s))"
    and lists: "set (cl_before t) \<union> set (cl_ending t) \<union> set (cl_log t) \<subseteq>
      set (cl_before s) \<union> set (cl_ending s) \<union> set (cl_log s)"
    and others: "\<And>r. run_id r \<noteq> i \<Longrightarrow> run_ok s r \<Longrightarrow> run_ok t r"
    and running: "\<And>r. run_id r = i \<Longrightarrow> run_status r = Run_Running \<Longrightarrow> run_ok s r \<Longrightarrow>
      run_ok t (ended_run time ending r)"
    and done_before: "\<And>r. run_id r = i \<Longrightarrow> run_status r \<noteq> Run_Running \<Longrightarrow> run_ok s r \<Longrightarrow> run_ok t r"
  shows "calls_inv inst t"
proof -
  have table: "runs_table (cl_runs s)" and here: "\<And>r. r \<in> set (cl_runs s) \<Longrightarrow> run_instance r = inst"
    using inv by (simp_all add: calls_inv_def)
  obtain f where f: "fst (finishOperationRun inst i time ending (cl_runs s)) =
      update_where (\<lambda>r. run_id r = i) f (cl_runs s)"
    and row: "\<And>r. r \<in> set (cl_runs s) \<Longrightarrow> run_id r = i \<Longrightarrow>
      f r = (if run_instance r = inst \<and> run_status r = Run_Running then ended_run time ending r else r)"
    and same: "\<And>r. same_run r (f r)"
    using that finish_update[OF table, of inst i time ending] by blast
  show ?thesis
  proof (rule calls_inv_row[OF inv _ _ same])
    show "set (cl_before t) \<union> set (cl_ending t) \<union> set (cl_log t) \<subseteq> run_id ` set (cl_runs s)"
      using lists inv unfolding calls_inv_def by blast
    show "cl_runs t = update_where (\<lambda>r. run_id r = i) f (cl_runs s)" using runs f by simp
    show "run_ok t r" if "run_id r \<noteq> i" "run_ok s r" for r using others that .
    show "run_ok t (f r)" if "r \<in> set (cl_runs s)" "run_id r = i" "run_ok s r" for r
    proof (cases "run_status r = Run_Running")
      case True
      then show ?thesis unfolding row[OF that(1,2)] using here[OF that(1)] running[OF that(2)] that(3) by simp
    next
      case False
      then show ?thesis unfolding row[OF that(1,2)] using done_before[OF that(2)] that(3) by simp
    qed
  qed
qed

lemma begins_keeps:
  assumes inv: "calls_inv inst s"
    and made: "createOperationRun n (cl_runs s) = Inr (db, Some r)" and inst: "nr_instance n = inst"
    and key: "nr_effect n = Reading \<Longrightarrow> nr_key n = None"
  shows "calls_inv inst (s\<lparr>cl_runs := db, cl_before := run_id r # cl_before s\<rparr>)"
proof (cases "List.find (holds_key n) (cl_runs s)")
  case None
  with made have fresh: "nr_id n \<notin> set (map run_id (cl_runs s))"
    and db: "db = cl_runs s @ [started_run n]" and r: "r = started_run n"
    by (auto simp: createOperationRun_def split: if_splits)
  have free: "run_index x \<noteq> run_index (started_run n)"
    if "x \<in> set (cl_runs s)" "run_index (started_run n) \<noteq> None" for x
    using None that by (auto simp: find_None_iff holds_key_def)
  have table: "runs_table (cl_runs s @ [started_run n])"
    using inv fresh free key
    by (auto simp: calls_inv_def runs_table_def started_run_def intro!: unique_by_snoc
        dest: operation_effect.exhaust)
  have new: "run_id (started_run n) = nr_id n" by (simp add: started_run_def)
  have none: "nr_id n \<notin> set (cl_before s)" "nr_id n \<notin> set (cl_ending s)" "nr_id n \<notin> set (cl_log s)"
    using inv fresh by (auto simp: calls_inv_def)
  have "run_ok (s\<lparr>cl_runs := db, cl_before := run_id r # cl_before s\<rparr>) x" if "x \<in> set (cl_runs s)" for x
  proof -
    have "run_id x \<noteq> nr_id n" using fresh that by (auto simp: image_iff)
    moreover have "run_ok s x" using inv that by (simp add: calls_inv_def)
    ultimately show ?thesis by (simp add: run_ok_def r new)
  qed
  moreover have "run_ok (s\<lparr>cl_runs := db, cl_before := run_id r # cl_before s\<rparr>) (started_run n)"
    using none by (simp add: run_ok_def r new runs_again_def) (simp add: started_run_def)
  ultimately show ?thesis
    using inv table inst by (auto simp: calls_inv_def db r new started_run_def)
next
  case (Some x)
  with made have again: "takes_over n x" and r: "r = next_attempt n x"
    and db: "db = update_where (\<lambda>y. run_id y = run_id x) (next_attempt n) (cl_runs s)"
    by (auto simp: createOperationRun_def split: if_splits)
  have x: "x \<in> set (cl_runs s)" using find_Some_iff[OF Some] by simp
  have id: "run_id r = run_id x" by (simp add: r next_attempt_def)
  show ?thesis
  proof (rule calls_inv_row[OF inv, where f = "next_attempt n" and i = "run_id x"])
    show "run_ok (s\<lparr>cl_runs := db, cl_before := run_id r # cl_before s\<rparr>) (next_attempt n y)"
      if y: "y \<in> set (cl_runs s)" "run_id y = run_id x" "run_ok s y" for y
    proof -
      have "y = x" using inv x y by (auto simp: calls_inv_def runs_table_def intro: distinct_map_inj)
      with y again show ?thesis
        by (simp add: run_ok_def takes_over_def id) (simp add: next_attempt_def runs_again_def)
    qed
    show "run_ok (s\<lparr>cl_runs := db, cl_before := run_id r # cl_before s\<rparr>) y"
      if "y \<in> set (cl_runs s)" "run_id y \<noteq> run_id x" "run_ok s y" for y
      using that by (simp add: run_ok_def id)
  qed (use inv x in \<open>auto simp: db id calls_inv_def\<close>)
qed

lemma expire_keeps:
  assumes inv: "calls_inv inst s"
  shows "calls_inv inst (s\<lparr>cl_runs := fst (markOperationRunsExpired now inst (cl_runs s))\<rparr>)"
    (is "calls_inv inst ?t")
proof -
  have runs: "cl_runs ?t = update_where (expires now inst) (expired_run now) (cl_runs s)"
    by (simp add: markOperationRunsExpired_def)
  have ids: "map run_id (cl_runs ?t) = map run_id (cl_runs s)" unfolding runs by (rule update_ids) simp
  then have ids: "run_id ` set (cl_runs ?t) = run_id ` set (cl_runs s)" by (metis set_map)
  have "run_ok ?t r \<and> run_instance r = inst" if "r \<in> set (cl_runs ?t)" for r
    using that unfolding runs
  proof (cases rule: in_update_whereE)
    case (1 x)
    with inv show ?thesis by (simp add: calls_inv_def run_ok_def expired_run_def runs_again_def)
  next
    case 2
    with inv show ?thesis by (simp add: calls_inv_def run_ok_def)
  qed
  moreover have "runs_table (cl_runs ?t)"
    using inv unfolding runs by (simp add: calls_inv_def runs_table_update)
  ultimately show ?thesis
    using inv ids unfolding calls_inv_def by simp
qed

lemma interrupt_keeps:
  assumes inv: "calls_inv inst s"
  shows "calls_inv inst (s\<lparr>cl_runs := fst (markOperationRunInterrupted now inst i (cl_runs s))\<rparr>)"
    (is "calls_inv inst ?t")
proof -
  have table: "runs_table (cl_runs s)" using inv by (simp add: calls_inv_def)
  obtain f where f: "fst (markOperationRunInterrupted now inst i (cl_runs s)) =
      update_where (\<lambda>r. run_id r = i) f (cl_runs s)"
    and row: "\<And>r. r \<in> set (cl_runs s) \<Longrightarrow> f r = r \<or> f r = interrupted_run now r"
    and same: "\<And>r. same_run r (f r)"
    using that interrupt_update[OF table, of now inst i] by blast
  show ?thesis
  proof (rule calls_inv_row[OF inv _ _ same])
    show "run_ok ?t (f r)" if "r \<in> set (cl_runs s)" "run_id r = i" "run_ok s r" for r
      using row[OF that(1)] that(3)
      by (auto simp: run_ok_def interrupted_run_def runs_again_def INTERRUPTED_RUN_ERROR_def)
  qed (use inv in \<open>auto simp: f calls_inv_def run_ok_def\<close>)
qed

lemma count_before: "i \<in> set xs \<Longrightarrow> \<exists>k. count_list xs i = Suc k"
  by (induction xs) auto

text \<open>A call that leaves before its start leaves neither another one of its run nor a start.\<close>

lemma leaving:
  assumes "run_ok s r" "run_effect r = Changing" "run_id r \<in> set (cl_before s)"
  shows "run_id r \<notin> set (remove1 (run_id r) (cl_before s))" "run_id r \<notin> set (cl_log s)" "\<not> runs_again r"
proof -
  obtain k where "count_list (cl_before s) (run_id r) = Suc k" using count_before[OF assms(3)] by blast
  with assms have "count_list (cl_before s) (run_id r) = 1" "count_list (cl_log s) (run_id r) = 0"
    by (simp_all add: run_ok_def)
  then show "run_id r \<notin> set (remove1 (run_id r) (cl_before s))" "run_id r \<notin> set (cl_log s)"
    by (simp_all add: count_list_0_iff[symmetric] count_list_remove1 del: count_list_0_iff)
  show "\<not> runs_again r" using assms by (auto simp: run_ok_def)
qed

lemma starts_keeps:
  assumes inv: "calls_inv inst s" and i: "i \<in> set (cl_before s)"
  shows "calls_inv inst (s\<lparr>cl_before := remove1 i (cl_before s), cl_log := i # cl_log s\<rparr>)"
    (is "calls_inv inst ?t")
proof -
  have "run_ok ?t r" if ok: "run_ok s r" for r
  proof (cases "run_id r = i \<and> run_effect r = Changing")
    case True
    with leaving[OF ok] i ok show ?thesis by (simp add: run_ok_def)
  next
    case False
    with ok show ?thesis by (auto simp: run_ok_def count_list_remove1)
  qed
  with inv i set_remove1_subset[of i "cl_before s"] show ?thesis by (auto simp: calls_inv_def)
qed

lemma leaves_keeps:
  assumes inv: "calls_inv inst s" and i: "i \<in> set (cl_before s)"
  shows "calls_inv inst (s\<lparr>cl_runs := fst (finishOperationRun inst i t ending (cl_runs s)),
      cl_before := remove1 i (cl_before s)\<rparr>)" (is "calls_inv inst ?t")
proof (rule finish_keeps[OF inv])
  show "set (cl_before ?t) \<union> set (cl_ending ?t) \<union> set (cl_log ?t) \<subseteq>
      set (cl_before s) \<union> set (cl_ending s) \<union> set (cl_log s)"
    using set_remove1_subset[of i "cl_before s"] by auto
  show "run_ok ?t r" if "run_id r \<noteq> i" "run_ok s r" for r
    using that by (simp add: run_ok_def count_list_remove1)
  show "run_ok ?t r" if "run_id r = i" "run_status r \<noteq> Run_Running" "run_ok s r" for r
    using that i leaving[OF that(3)] by (auto simp: run_ok_def count_list_remove1)
  show "run_ok ?t (ended_run t ending r)"
    if "run_id r = i" "run_status r = Run_Running" "run_ok s r" for r
  proof (cases "run_effect r = Changing")
    case True
    with that i leaving[OF that(3) True] same_run_updates(2)[of r t ending] show ?thesis
      by (auto simp: run_ok_def same_run_def)
  next
    case False
    with same_run_updates(2)[of r t ending] show ?thesis by (simp add: run_ok_def same_run_def)
  qed
qed simp

lemma denied_keeps:
  assumes inv: "calls_inv inst s" and i: "i \<in> set (cl_before s)"
  shows "calls_inv inst (s\<lparr>cl_runs := fst (finishOperationRun inst i t (Ends_Denied e denial) (cl_runs s)),
      cl_before := remove1 i (cl_before s), cl_ending := i # cl_ending s\<rparr>)" (is "calls_inv inst ?t")
proof (rule finish_keeps[OF inv])
  show "set (cl_before ?t) \<union> set (cl_ending ?t) \<union> set (cl_log ?t) \<subseteq>
      set (cl_before s) \<union> set (cl_ending s) \<union> set (cl_log s)"
    using set_remove1_subset[of i "cl_before s"] i by auto
  show "run_ok ?t r" if "run_id r \<noteq> i" "run_ok s r" for r
    using that by (simp add: run_ok_def count_list_remove1)
  show "run_ok ?t r" if "run_id r = i" "run_status r \<noteq> Run_Running" "run_ok s r" for r
    using that i leaving[OF that(3)] by (auto simp: run_ok_def count_list_remove1)
  show "run_ok ?t (ended_run t (Ends_Denied e denial) r)"
    if "run_id r = i" "run_status r = Run_Running" "run_ok s r" for r
    using that i leaving[OF that(3)] by (auto simp: run_ok_def runs_again_def)
qed simp

lemma ends_keeps:
  assumes inv: "calls_inv inst s"
    and i: "i \<in> set (cl_ending s) \<and> refusing ending \<or> i \<in> set (cl_log s) \<and> after_start ending"
  shows "calls_inv inst (s\<lparr>cl_runs := fst (finishOperationRun inst i t ending (cl_runs s))\<rparr>)"
    (is "calls_inv inst ?t")
proof (rule finish_keeps[OF inv])
  show "run_ok ?t (ended_run t ending r)"
    if "run_id r = i" "run_status r = Run_Running" "run_ok s r" for r
    using that i by (cases ending) (auto simp: run_ok_def runs_again_def)
qed (auto simp: run_ok_def)

lemma calls_inv_step: "calls_inv inst s \<Longrightarrow> call_step inst s t \<Longrightarrow> calls_inv inst t"
  by (erule call_stepE)
    (simp_all add: begins_keeps starts_keeps leaves_keeps denied_keeps ends_keeps expire_keeps interrupt_keeps)

interpretation calls: invariant_system no_calls "call_step inst" "calls_inv inst" for inst
  by unfold_locales (simp_all add: calls_inv_start calls_inv_step)

end
