(* ===== verification/Operation_Paths.thy ===== *)
theory Operation_Paths imports Operation_Machine begin

text \<open>
  A call, as \<open>runOperation\<close> makes it, is a path of the machine of calls: what it does to the table of runs
  is a sequence of steps, and it starts its implementation just where the machine does.
\<close>

section \<open>What leaves the table alone\<close>

definition keeps_runs :: "('w, 'a) op_step \<Rightarrow> bool" where
  "keeps_runs m \<longleftrightarrow> (\<forall>s. os_runs (fst (m s)) = os_runs s)"

lemma keeps_runsD: "keeps_runs m \<Longrightarrow> os_runs (fst (m s)) = os_runs s"
  by (simp add: keeps_runs_def)

lemma keeps_then: "keeps_runs m \<Longrightarrow> (\<And>a. keeps_runs (f a)) \<Longrightarrow> keeps_runs (then_step m f)"
  by (auto simp: keeps_runs_def then_step_def split: prod.split sum.split)
    (metis fst_conv)+

lemma keeps_lift [intro!]: "keeps_runs (lift_result r)"
  by (simp add: keeps_runs_def lift_result_def)

lemma keeps_world [intro!]: "keeps_runs (in_world f)"
  by (simp add: keeps_runs_def in_world_def split: prod.split)

lemma keeps_same [intro!]: "keeps_runs (\<lambda>s. (s, r s))"
  by (simp add: keeps_runs_def)

lemma keeps_emit [intro!]: "keeps_runs (emit d run def call resource n ph pl)"
  by (simp add: emit_def keeps_world)

lemma keeps_reads [intro!]:
  "keeps_runs (load_access d call)" "keeps_runs (check_right def call access resource)"
  "keeps_runs (call_targets def call resource)"
  by (simp_all add: keeps_runs_def load_access_def check_right_def call_targets_def)

lemma keeps_guardrail [intro!]: "keeps_runs (guardrail_outcome d run def call resource)"
  unfolding guardrail_outcome_def
  by (intro keeps_then keeps_emit, cases "op_before def") (auto intro!: keeps_then)

lemma keeps_policy [intro!]: "keeps_runs (ask_policy d run def call resource)"
  unfolding ask_policy_def Let_def by (auto intro!: keeps_then)

lemma keeps_decide [intro!]: "keeps_runs (decide_call d run def call resource)"
  unfolding decide_call_def after_right_def
  by (intro keeps_then keeps_reads keeps_emit) (auto split: operation_authorization.split intro!: keeps_then)

section \<open>Ends\<close>

text \<open>The table after a run was ended.\<close>

definition ended :: "'w operation_deps \<Rightarrow> operation_run \<Rightarrow> run_end \<Rightarrow> 'w op_state \<Rightarrow> runs" where
  "ended d run ending s =
     fst (finishOperationRun (dep_instance d) (run_id run) (ck_finished (dep_clock d)) ending (os_runs s))"

lemma runs_end_run [simp]: "os_runs (fst (end_run d run ending s)) = ended d run ending s"
  by (simp add: end_run_def ended_def split: prod.split)

lemma runs_then_keeps:
  "(\<And>a. keeps_runs (f a)) \<Longrightarrow> os_runs (fst (then_step m f s)) = os_runs (fst (m s))"
  by (auto simp: then_step_def keeps_runs_def split: prod.split sum.split)

lemma runs_deny: "os_runs (fst (deny d run def call resource denial s)) =
    ended d run (Ends_Denied (denial_error denial) denial) s"
  unfolding deny_def by (subst runs_then_keeps) (auto intro!: keeps_then)

lemma runs_fail: "\<exists>e. os_runs (fst (fail d run def call resource error unexecuted s)) =
    ended d run (Ends_Failed e) s \<and> rerr_unexecuted e = unexecuted"
  unfolding fail_def Let_def by (subst runs_then_keeps) (auto intro!: keeps_then)

lemma runs_caught:
  "\<exists>ending. os_runs (fst (caught d run def call resource error started s)) = ended d run ending s \<and>
    ((\<exists>e denial. ending = Ends_Denied e denial) \<or> (\<exists>e. ending = Ends_Failed e \<and> rerr_unexecuted e = (\<not> started)))"
proof (cases "forbidden_details error")
  case None
  with runs_fail[of d run def call resource error "\<not> started" s] show ?thesis
    by (auto simp: caught_def)
next
  case (Some denial)
  then show ?thesis by (auto simp: caught_def runs_deny)
qed

text \<open>The table when the implementation is reached, or when the call ends before it.\<close>

lemma runs_await:
  "os_runs (fst (await_approval d run call resource s)) = os_runs s \<and>
      (\<exists>e. snd (await_approval d run call resource s) = Inl e) \<or>
    (\<exists>a ref x. os_runs (fst (await_approval d run call resource s)) = ended d run (Ends_Pending_Approval a ref x) s)
      \<and> (\<exists>v. snd (await_approval d run call resource s) = Inr v)"
proof (cases "dep_approvals d")
  case None
  then show ?thesis by (simp add: await_approval_def lift_result_def)
next
  case (Some request)
  obtain w r where w: "request run call resource (os_world s) = (w, r)" by force
  show ?thesis
  proof (cases r)
    case (Inl e)
    with Some w show ?thesis by (simp add: await_approval_def then_step_def in_world_def)
  next
    case (Inr a)
    let ?x = "ck_requested (dep_clock d) + PENDING_APPROVAL_EXPIRES_AFTER_MS"
    have "os_runs (fst (await_approval d run call resource s)) =
        ended d run (Ends_Pending_Approval a (''approval_request:'' @ a) ?x) s"
      "\<exists>v. snd (await_approval d run call resource s) = Inr v"
      using Some w Inr
      by (simp_all add: await_approval_def then_step_def in_world_def Let_def end_run_def ended_def lift_result_def
          split: prod.split)
    then show ?thesis by blast
  qed
qed

definition starts ::
    "'w operation_deps \<Rightarrow> operation_run \<Rightarrow> 'w operation_definition \<Rightarrow> operation_call \<Rightarrow> operation_resource option \<Rightarrow>
      'w op_state \<Rightarrow> bool" where
  "starts d run def call resource s =
     (case snd (until_start d run def call resource s) of Inr (Goes_Ahead _ _) \<Rightarrow> True | _ \<Rightarrow> False)"

lemma until_start_cases:
  fixes d :: "'w operation_deps" and run def call resource s
  defines "u \<equiv> until_start d run def call resource s"
  shows "(os_runs (fst u) = os_runs s \<and> ((\<exists>e. snd u = Inl e) \<or> (\<exists>a p. snd u = Inr (Goes_Ahead a p)))) \<or>
    (\<exists>e denial. os_runs (fst u) = ended d run (Ends_Denied e denial) s \<and>
       ((\<exists>e. snd u = Inl e) \<or> (\<exists>v r. snd u = Inr (Ended_Before v r)))) \<or>
    (\<exists>a ref x v r. os_runs (fst u) = ended d run (Ends_Pending_Approval a ref x) s \<and>
       snd u = Inr (Ended_Before v r))"
proof -
  obtain s1 r where decided: "decide_call d run def call resource s = (s1, r)" by force
  have same: "os_runs s1 = os_runs s"
    using keeps_runsD[OF keeps_decide, of d run def call resource s] decided by simp
  then have again: "ended d run ending s1 = ended d run ending s" for ending by (simp add: ended_def)
  show ?thesis
  proof (cases r)
    case (Inl e)
    then show ?thesis using decided same by (simp add: u_def until_start_def then_step_def)
  next
    case (Inr av)
    obtain access v where av: "av = (access, v)" by (cases av)
    show ?thesis
    proof (cases v)
      case (Verdict_Deny denial)
      obtain s2 x where dn: "deny d run def call resource denial s1 = (s2, x)" by force
      then have "os_runs s2 = ended d run (Ends_Denied (denial_error denial) denial) s"
        using runs_deny[of d run def call resource denial s1] again by simp
      moreover have "os_runs (fst u) = os_runs s2" "(\<exists>e. snd u = Inl e) \<or> (\<exists>v r. snd u = Inr (Ended_Before v r))"
        using dn decided Inr av Verdict_Deny
        by (cases x; auto simp: u_def until_start_def then_step_def lift_result_def)+
      ultimately show ?thesis by (metis (no_types))
    next
      case Verdict_Await
      obtain s2 x where aw: "await_approval d run call resource s1 = (s2, x)" by force
      have u: "fst u = s2" "snd u = (case x of Inl e \<Rightarrow> Inl e | Inr (v, r) \<Rightarrow> Inr (Ended_Before v r))"
        using aw decided Inr av Verdict_Await
        by (cases x; auto simp: u_def until_start_def then_step_def lift_result_def)+
      from runs_await[of d run call resource s1] show ?thesis
      proof (elim disjE conjE exE)
        fix e assume "os_runs (fst (await_approval d run call resource s1)) = os_runs s1"
          "snd (await_approval d run call resource s1) = Inl e"
        then show ?thesis using aw same by (simp add: u)
      next
        fix a ref y v assume "os_runs (fst (await_approval d run call resource s1)) =
            ended d run (Ends_Pending_Approval a ref y) s1"
          "snd (await_approval d run call resource s1) = Inr v"
        then have "os_runs (fst u) = ended d run (Ends_Pending_Approval a ref y) s"
          "snd u = Inr (Ended_Before (fst v) (snd v))"
          using aw again by (simp_all add: u split: prod.split)
        then show ?thesis by blast
      qed
    next
      case (Verdict_Run p)
      obtain s2 x where em: "emit d run def call resource ''operation.started'' Phase_After
          [(''status'', JStr ''success'')] s1 = (s2, x)" by force
      then have "os_runs s2 = os_runs s"
        using keeps_runsD[OF keeps_emit, of d run def call resource] same by (metis fst_conv)
      with em decided Inr av Verdict_Run show ?thesis
        by (cases x) (auto simp: u_def until_start_def then_step_def lift_result_def)
    qed
  qed
qed

section \<open>Paths\<close>

lemma ended_cong: "os_runs s = os_runs s' \<Longrightarrow> ended d run ending s = ended d run ending s'"
  by (simp add: ended_def)

lemma steps_of_ends:
  assumes "cl_runs c = os_runs s"
  shows "run_id run \<in> set (cl_before c) \<Longrightarrow>
      call_step (dep_instance d) c (c\<lparr>cl_runs := ended d run (Ends_Failed e) s,
        cl_before := remove1 (run_id run) (cl_before c)\<rparr>)"
    and "run_id run \<in> set (cl_before c) \<Longrightarrow>
      call_step (dep_instance d) c (c\<lparr>cl_runs := ended d run (Ends_Pending_Approval a ref x) s,
        cl_before := remove1 (run_id run) (cl_before c)\<rparr>)"
    and "run_id run \<in> set (cl_before c) \<Longrightarrow>
      call_step (dep_instance d) c (c\<lparr>cl_runs := ended d run (Ends_Denied e denial) s,
        cl_before := remove1 (run_id run) (cl_before c), cl_ending := run_id run # cl_ending c\<rparr>)"
    and "run_id run \<in> set (cl_ending c) \<Longrightarrow> refusing ending \<Longrightarrow>
      call_step (dep_instance d) c (c\<lparr>cl_runs := ended d run ending s\<rparr>)"
    and "run_id run \<in> set (cl_log c) \<Longrightarrow> after_start ending \<Longrightarrow>
      call_step (dep_instance d) c (c\<lparr>cl_runs := ended d run ending s\<rparr>)"
  unfolding ended_def assms[symmetric]
  by (rule call_fails_before call_is_held call_is_denied call_is_refused_again call_ends; assumption)+

text \<open>What a call does from its created run on: the steps it takes, and whether it starts.\<close>

definition call_path ::
    "string \<Rightarrow> string \<Rightarrow> bool \<Rightarrow> calls \<Rightarrow> runs \<Rightarrow> bool" where
  "call_path inst i started c db \<longleftrightarrow>
     (\<exists>c'. (call_step inst)\<^sup>*\<^sup>* c c' \<and> cl_runs c' = db \<and> cl_before c' = remove1 i (cl_before c) \<and>
       cl_log c' = (if started then i # cl_log c else cl_log c))"

lemma call_path1:
  "call_step inst c c' \<Longrightarrow> cl_runs c' = db \<Longrightarrow> cl_before c' = remove1 i (cl_before c) \<Longrightarrow>
    cl_log c' = (if started then i # cl_log c else cl_log c) \<Longrightarrow> call_path inst i started c db"
  unfolding call_path_def by blast

lemma call_path2:
  "call_step inst c c1 \<Longrightarrow> call_step inst c1 c' \<Longrightarrow> cl_runs c' = db \<Longrightarrow>
    cl_before c' = remove1 i (cl_before c) \<Longrightarrow>
    cl_log c' = (if started then i # cl_log c else cl_log c) \<Longrightarrow> call_path inst i started c db"
  unfolding call_path_def by (blast intro: rtranclp.rtrancl_into_rtrancl)

lemma path_caught_before:
  assumes c: "cl_runs c = os_runs s" "run_id run \<in> set (cl_before c)"
    and u: "os_runs s1 = os_runs s \<or> (\<exists>e denial. os_runs s1 = ended d run (Ends_Denied e denial) s)"
  shows "call_path (dep_instance d) (run_id run) False c
    (os_runs (fst (caught d run def call resource error False s1)))"
proof -
  obtain ending where ending: "os_runs (fst (caught d run def call resource error False s1)) = ended d run ending s1"
    and kind: "(\<exists>e denial. ending = Ends_Denied e denial) \<or> (\<exists>e. ending = Ends_Failed e)"
    using runs_caught[of d run def call resource error False s1] by blast
  from u show ?thesis
  proof (elim disjE exE)
    assume "os_runs s1 = os_runs s"
    then have eq: "ended d run ending s1 = ended d run ending s" by (rule ended_cong)
    from kind show ?thesis
    proof (elim disjE exE)
      fix e denial assume "ending = Ends_Denied e denial"
      then show ?thesis
        unfolding ending eq by (intro call_path1[OF steps_of_ends(3)[OF c, of d e denial]]) simp_all
    next
      fix e assume "ending = Ends_Failed e"
      then show ?thesis
        unfolding ending eq by (intro call_path1[OF steps_of_ends(1)[OF c, of d e]]) simp_all
    qed
  next
    fix e denial assume s1: "os_runs s1 = ended d run (Ends_Denied e denial) s"
    let ?c1 = "c\<lparr>cl_runs := ended d run (Ends_Denied e denial) s,
        cl_before := remove1 (run_id run) (cl_before c), cl_ending := run_id run # cl_ending c\<rparr>"
    have one: "call_step (dep_instance d) c ?c1" by (rule steps_of_ends(3)[OF c])
    have "refusing ending" using kind by auto
    then have two: "call_step (dep_instance d) ?c1 (?c1\<lparr>cl_runs := ended d run ending s1\<rparr>)"
      by (intro steps_of_ends(4)) (simp_all add: s1)
    show ?thesis
      unfolding ending by (rule call_path2[OF one two]) simp_all
  qed
qed

lemma path_started:
  assumes c: "cl_runs c = os_runs s" "run_id run \<in> set (cl_before c)"
    and e: "after_start ending"
  shows "call_path (dep_instance d) (run_id run) True c (ended d run ending s)"
proof -
  let ?c1 = "c\<lparr>cl_before := remove1 (run_id run) (cl_before c), cl_log := run_id run # cl_log c\<rparr>"
  have one: "call_step (dep_instance d) c ?c1" using c(2) by (rule call_starts)
  have two: "call_step (dep_instance d) ?c1 (?c1\<lparr>cl_runs := ended d run ending s\<rparr>)"
    using c e by (intro steps_of_ends(5)) simp_all
  show ?thesis
    by (rule call_path2[OF one two]) simp_all
qed

lemma runs_record_done:
  "\<exists>output decision. os_runs (fst (record_done d run def call resource policy out s)) =
    ended d run (Ends_Done output None decision) s"
proof -
  let ?last = "Ends_Done (if op_effect def = Changing then retainedOutput (dep_num d) out else None) None
     (if res_next policy = Next_Run_Direct then
        Some \<lparr> dec_mode = Decision_Direct, dec_by = ra_id (run_actor run), dec_at = ck_decided (dep_clock d),
          dec_comment = None, dec_edited = None, dec_inputHashes = None \<rparr>
      else None)"
  obtain s1 r where er: "end_run d run ?last s = (s1, r)" by force
  then have s1: "os_runs s1 = ended d run ?last s" using runs_end_run[of d run ?last s] by simp
  have "os_runs (fst (record_done d run def call resource policy out s)) = os_runs s1"
  proof (cases r)
    case (Inl e)
    with er show ?thesis by (simp add: record_done_def)
  next
    case (Inr done_run)
    have "keeps_runs (then_step (emit d run def call resource ''operation.completed'' Phase_After
        [(''status'', JStr ''success'')]) (\<lambda>_.
          case op_after def of Some own \<Rightarrow> emit d run def call resource own Phase_After []
          | None \<Rightarrow> lift_result (Inr Outcome_Allow)))"
      by (intro keeps_then keeps_emit) (auto split: option.split)
    with er Inr show ?thesis by (simp add: record_done_def keeps_runsD)
  qed
  with s1 show ?thesis by (intro exI) (rule trans)
qed

lemma executeRun_path:
  assumes c: "cl_runs c = os_runs s" "run_id run \<in> set (cl_before c)"
  shows "call_path (dep_instance d) (run_id run) (starts d run def call resource s) c
    (os_runs (fst (executeRun d run def call resource s)))"
proof -
  obtain s1 u where us: "until_start d run def call resource s = (s1, u)" by force
  note cases = until_start_cases[of d run def call resource s, unfolded us fst_conv snd_conv]
  show ?thesis
  proof (cases u)
    case (Inl e)
    with cases have "os_runs s1 = os_runs s \<or> (\<exists>e denial. os_runs s1 = ended d run (Ends_Denied e denial) s)"
      by auto
    with path_caught_before[OF c] us Inl show ?thesis by (simp add: executeRun_def starts_def)
  next
    case (Inr b)
    show ?thesis
    proof (cases b)
      case (Ended_Before v r)
      with us Inr have ex: "fst (executeRun d run def call resource s) = s1" "\<not> starts d run def call resource s"
        by (simp_all add: executeRun_def starts_def)
      from cases Inr Ended_Before have "(\<exists>e denial. os_runs s1 = ended d run (Ends_Denied e denial) s) \<or>
          (\<exists>a ref x. os_runs s1 = ended d run (Ends_Pending_Approval a ref x) s)" by auto
      then show ?thesis
      proof (elim disjE exE)
        fix e denial assume "os_runs s1 = ended d run (Ends_Denied e denial) s"
        with ex show ?thesis by (intro call_path1[OF steps_of_ends(3)[OF c, of d e denial]]) simp_all
      next
        fix a ref x assume "os_runs s1 = ended d run (Ends_Pending_Approval a ref x) s"
        with ex show ?thesis by (intro call_path1[OF steps_of_ends(2)[OF c, of d a ref x]]) simp_all
      qed
    next
      case (Goes_Ahead access policy)
      let ?ctx = "\<lparr> ctx_runId = run_id run, ctx_actor = call_actor call, ctx_origin = call_origin call,
          ctx_workspaceId = call_workspaceId call, ctx_correlationId = call_correlationId call,
          ctx_access = access \<rparr>"
      from cases Inr Goes_Ahead have same: "os_runs s1 = os_runs s" by auto
      obtain s2 x where ex: "in_world (op_execute def (call_input call) ?ctx) s1 = (s2, x)" by force
      have same2: "os_runs s2 = os_runs s"
        using keeps_runsD[OF keeps_world, of "op_execute def (call_input call) ?ctx" s1] ex same by simp
      have st: "starts d run def call resource s" using us Inr Goes_Ahead by (simp add: starts_def)
      have "\<exists>ending. os_runs (fst (executeRun d run def call resource s)) = ended d run ending s \<and> after_start ending"
      proof (cases x)
        case (Inl e)
        with us Inr Goes_Ahead ex have "executeRun d run def call resource s = caught d run def call resource e True s2"
          by (simp add: executeRun_def)
        with runs_caught[of d run def call resource e True s2] ended_cong[OF same2, of d run] show ?thesis by auto
      next
        case (Inr out)
        with us \<open>u = Inr b\<close> Goes_Ahead ex
        have "fst (executeRun d run def call resource s) = fst (record_done d run def call resource policy out s2)"
          by (simp add: executeRun_def split: prod.split)
        with runs_record_done[of d run def call resource policy out s2] ended_cong[OF same2, of d run]
        show ?thesis by auto
      qed
      with path_started[OF c] st show ?thesis by auto
    qed
  qed
qed

section \<open>Answers\<close>

lemma then_step_Inr:
  "snd (then_step m f s) = Inr b \<longleftrightarrow> (\<exists>a. snd (m s) = Inr a \<and> snd (f a (fst (m s))) = Inr b)"
  by (cases "m s") (auto simp: then_step_def split: sum.split)

lemma snd_lift_result [simp]: "snd (lift_result r s) = r"
  by (simp add: lift_result_def)

lemma deny_answer: "snd (deny d run def call resource denial s) = Inr (v, r) \<Longrightarrow> v = Res_Denied (run_id run) denial"
  by (auto simp: deny_def then_step_Inr)

lemma fail_answer:
  "snd (fail d run def call resource error b s) = Inr (v, r) \<Longrightarrow> \<exists>c m ds. v = Res_Failed (run_id run) c m ds"
  by (auto simp: fail_def Let_def then_step_Inr)

lemma await_answer:
  "snd (await_approval d run call resource s) = Inr (v, r) \<Longrightarrow> \<exists>a x. v = Res_Pending_Approval (run_id run) a x"
  by (auto simp: await_approval_def Let_def then_step_Inr split: option.splits)

lemma caught_answer:
  "snd (caught d run def call resource error b s) = Inr (v, r) \<Longrightarrow> v \<noteq> Res_Done i out"
  by (auto simp: caught_def split: option.splits dest: deny_answer fail_answer)

lemma until_start_answer:
  "snd (until_start d run def call resource s) = Inr (Ended_Before v r) \<Longrightarrow> v \<noteq> Res_Done i out"
proof -
  assume "snd (until_start d run def call resource s) = Inr (Ended_Before v r)"
  then obtain aw where aw: "snd (decide_call d run def call resource s) = Inr aw"
    by (auto simp only: until_start_def then_step_Inr)
  obtain access w where split: "aw = (access, w)" by (cases aw)
  note answered = \<open>snd (until_start d run def call resource s) = Inr (Ended_Before v r)\<close>
  show ?thesis
  proof (cases w)
    case (Verdict_Deny denial)
    with answered aw split show ?thesis by (auto simp: until_start_def then_step_Inr dest: deny_answer)
  next
    case Verdict_Await
    with answered aw split show ?thesis by (auto simp: until_start_def then_step_Inr dest: await_answer)
  next
    case (Verdict_Run p)
    with answered aw split show ?thesis by (auto simp: until_start_def then_step_Inr)
  qed
qed

lemma done_has_started:
  assumes "snd (executeRun d run def call resource s) = Inr (Res_Done i out, r)"
  shows "starts d run def call resource s \<and> i = run_id run"
proof -
  obtain s1 u where us: "until_start d run def call resource s = (s1, u)" by force
  show ?thesis
  proof (cases u)
    case (Inl e)
    with assms us caught_answer show ?thesis by (fastforce simp: executeRun_def)
  next
    case (Inr b)
    show ?thesis
    proof (cases b)
      case (Ended_Before v r')
      with assms us Inr until_start_answer[of d run def call resource s v r' i out] show ?thesis
        by (simp add: executeRun_def)
    next
      case (Goes_Ahead access policy)
      have "i = run_id run"
        using assms us Inr Goes_Ahead
        by (auto simp: executeRun_def split: prod.splits sum.splits dest: caught_answer[of d run def call resource, where i = i])
      with us Inr Goes_Ahead show ?thesis by (simp add: starts_def)
    qed
  qed
qed

section \<open>Starts in the world\<close>

text \<open>
  What ties the machine's log to real starts: \<open>seen\<close> reads off the world which runs' implementations
  were executed, as a log the implementations write would. Every implementation leaves its run there,
  and neither the events nor the requests for approval do.
\<close>

definition counts_starts :: "'w operation_deps \<Rightarrow> ('w \<Rightarrow> string list) \<Rightarrow> bool" where
  "counts_starts d seen \<longleftrightarrow>
     (\<forall>name def input ctx w. dep_resolve d name = Some def \<longrightarrow>
        seen (fst (op_execute def input ctx w)) = ctx_runId ctx # seen w) \<and>
     (\<forall>event w. seen (fst (dep_emit d event w)) = seen w) \<and>
     (\<forall>request run call resource w. dep_approvals d = Some request \<longrightarrow>
        seen (fst (request run call resource w)) = seen w)"

definition keeps_seen :: "('w \<Rightarrow> string list) \<Rightarrow> ('w, 'a) op_step \<Rightarrow> bool" where
  "keeps_seen seen m \<longleftrightarrow> (\<forall>s. seen (os_world (fst (m s))) = seen (os_world s))"

lemma keeps_seenD: "keeps_seen seen m \<Longrightarrow> seen (os_world (fst (m s))) = seen (os_world s)"
  by (simp add: keeps_seen_def)

lemma seen_then: "keeps_seen seen m \<Longrightarrow> (\<And>a. keeps_seen seen (f a)) \<Longrightarrow> keeps_seen seen (then_step m f)"
  unfolding keeps_seen_def then_step_def by (auto split: prod.split sum.split) (metis fst_conv)+

lemma seen_simple [intro!]:
  "keeps_seen seen (lift_result r)" "keeps_seen seen (\<lambda>s. (s, q s))" "keeps_seen seen (end_run d run ending)"
  "keeps_seen seen (load_access d call)" "keeps_seen seen (check_right def call access resource)"
  "keeps_seen seen (call_targets def call resource)"
  by (simp_all add: keeps_seen_def lift_result_def end_run_def load_access_def check_right_def call_targets_def
      split: prod.split)

lemma seen_in_world: "(\<And>w. seen (fst (f w)) = seen w) \<Longrightarrow> keeps_seen seen (in_world f)"
  by (simp add: keeps_seen_def in_world_def split_beta)

lemma seen_emit [intro!]: "counts_starts d seen \<Longrightarrow> keeps_seen seen (emit d run def call resource n ph pl)"
  unfolding emit_def by (rule seen_in_world) (blast dest: counts_starts_def[THEN iffD1])

lemma seen_deny [intro!]: "counts_starts d seen \<Longrightarrow> keeps_seen seen (deny d run def call resource denial)"
  unfolding deny_def by (intro seen_then seen_simple seen_emit)

lemma seen_caught [intro!]: "counts_starts d seen \<Longrightarrow> keeps_seen seen (caught d run def call resource error started)"
  unfolding caught_def fail_def Let_def
  by (cases "forbidden_details error") (auto intro!: seen_then)

lemma seen_await [intro!]:
  assumes "counts_starts d seen"
  shows "keeps_seen seen (await_approval d run call resource)"
proof (cases "dep_approvals d")
  case None
  then show ?thesis by (simp add: await_approval_def seen_simple(1))
next
  case (Some request)
  then have "keeps_seen seen (in_world (request run call resource))" for run call resource
    using assms by (intro seen_in_world) (blast dest: counts_starts_def[THEN iffD1])
  with Some show ?thesis by (auto simp: await_approval_def Let_def intro!: seen_then)
qed

lemma seen_decide [intro!]:
  assumes "counts_starts d seen"
  shows "keeps_seen seen (decide_call d run def call resource)"
proof -
  have "keeps_seen seen (guardrail_outcome d run def call resource)"
    unfolding guardrail_outcome_def using assms by (auto intro!: seen_then split: option.split)
  then have "keeps_seen seen (ask_policy d run def call resource)"
    unfolding ask_policy_def Let_def by (auto intro!: seen_then)
  then show ?thesis
    unfolding decide_call_def after_right_def using assms
    by (auto split: operation_authorization.split intro!: seen_then)
qed

lemma seen_until_start:
  assumes "counts_starts d seen"
  shows "keeps_seen seen (until_start d run def call resource)"
  unfolding until_start_def using assms by (auto intro!: seen_then split: verdict.split)

lemma seen_record_done:
  assumes "counts_starts d seen"
  shows "seen (os_world (fst (record_done d run def call resource policy output s))) = seen (os_world s)"
proof -
  have after: "keeps_seen seen (then_step (emit d run def call resource ''operation.completed'' Phase_After
      [(''status'', JStr ''success'')]) (\<lambda>_.
        case op_after def of Some own \<Rightarrow> emit d run def call resource own Phase_After []
        | None \<Rightarrow> lift_result (Inr Outcome_Allow)))"
    using assms by (auto intro!: seen_then split: option.split)
  let ?e = "Ends_Done (if op_effect def = Changing then retainedOutput (dep_num d) output else None) None
      (if res_next policy = Next_Run_Direct then
         Some \<lparr> dec_mode = Decision_Direct, dec_by = ra_id (run_actor run), dec_at = ck_decided (dep_clock d),
           dec_comment = None, dec_edited = None, dec_inputHashes = None \<rparr>
       else None)"
  obtain s1 r where ended: "end_run d run ?e s = (s1, r)" by force
  then have "os_world s1 = os_world s" by (auto simp: end_run_def split: prod.splits)
  moreover have "seen (os_world (fst (record_done d run def call resource policy output s))) = seen (os_world s1)"
    using keeps_seenD[OF after, of s1] by (cases r) (simp_all add: record_done_def ended)
  ultimately show ?thesis by simp
qed

text \<open>A call's execution leaves its run in the world just when it starts.\<close>

lemma seen_executeRun:
  assumes d: "counts_starts d seen" and def: "dep_resolve d name = Some def"
  shows "seen (os_world (fst (executeRun d run def call resource s))) =
    (if starts d run def call resource s then run_id run # seen (os_world s) else seen (os_world s))"
proof -
  obtain s1 u where us: "until_start d run def call resource s = (s1, u)" by force
  have s1: "seen (os_world s1) = seen (os_world s)"
    using keeps_seenD[OF seen_until_start[OF d], of run def call resource s] us by simp
  show ?thesis
  proof (cases "\<exists>access policy. u = Inr (Goes_Ahead access policy)")
    case False
    then show ?thesis
      using us s1 keeps_seenD[OF seen_caught[OF d], of run def call resource]
      by (cases u) (auto simp: executeRun_def starts_def split: before_start.split)
  next
    case True
    then obtain access policy where u: "u = Inr (Goes_Ahead access policy)" by blast
    let ?ctx = "\<lparr> ctx_runId = run_id run, ctx_actor = call_actor call, ctx_origin = call_origin call,
        ctx_workspaceId = call_workspaceId call, ctx_correlationId = call_correlationId call, ctx_access = access \<rparr>"
    obtain s2 x where ex: "in_world (op_execute def (call_input call) ?ctx) s1 = (s2, x)" by force
    have "os_world s2 = fst (op_execute def (call_input call) ?ctx (os_world s1))"
      using ex by (auto simp: in_world_def split: prod.splits)
    then have s2: "seen (os_world s2) = run_id run # seen (os_world s)"
      using d def s1 by (simp add: counts_starts_def)
    have "seen (os_world (fst (executeRun d run def call resource s))) = seen (os_world s2)"
      using us u ex keeps_seenD[OF seen_caught[OF d], of run def call resource]
        seen_record_done[OF d, of run def call resource policy _ s2]
      by (cases x) (auto simp: executeRun_def split: prod.split, metis fst_conv)
    with s2 us u show ?thesis by (simp add: starts_def)
  qed
qed

section \<open>Whole calls\<close>

lemma create_unchanged: "createOperationRun n db = Inr (db', None) \<Longrightarrow> db' = db"
  by (auto simp: createOperationRun_def split: option.splits if_splits)

text \<open>
  What a call did: its table, its starts, and its answer. \<open>new\<close> are the starts of this call, in the
  machine's log and in the world alike.
\<close>

definition call_outcome ::
    "('w \<Rightarrow> string list) \<Rightarrow> calls \<Rightarrow> calls \<Rightarrow> 'w op_state \<Rightarrow>
      'w op_state \<times> (js_error, operation_outcome) result \<Rightarrow> bool" where
  "call_outcome seen c c' s final \<longleftrightarrow>
     cl_runs c' = os_runs (fst final) \<and> cl_before c' = cl_before c \<and>
     (\<exists>new. length new \<le> 1 \<and> cl_log c' = new @ cl_log c \<and>
        seen (os_world (fst final)) = new @ seen (os_world s) \<and>
        (case snd final of
           Inl e \<Rightarrow> True
         | Inr oc \<Rightarrow>
             (if oc_replayed oc then c' = c \<and> fst final = s \<and> new = []
              else set new \<subseteq> {result_run (oc_result oc)} \<and>
                (case oc_result oc of Res_Done i out \<Rightarrow> new = [i] | _ \<Rightarrow> True))))"

lemma no_start: "cl_runs c = os_runs s \<Longrightarrow> (\<And>oc. r = Inr oc \<Longrightarrow> oc_replayed oc) \<Longrightarrow> call_outcome seen c c s (s, r)"
  by (auto simp: call_outcome_def split: sum.split)

lemma executeRun_result:
  assumes "snd (executeRun d run def call resource s) = Inr (v, r)"
  shows "result_run v = run_id run"
proof -
  have denied: "result_run v = run_id run" if "snd (deny d run def call resource denial t) = Inr (v, r)" for denial t v r
    using deny_answer[OF that] by simp
  have caught: "result_run v = run_id run" if "snd (caught d run def call resource e b t) = Inr (v, r)" for e b t v r
    using that by (auto simp: caught_def split: option.splits dest: deny_answer fail_answer)
  have before: "result_run v = run_id run" if "snd (until_start d run def call resource s) = Inr (Ended_Before v r)" for v r
  proof -
    from that obtain access w where "snd (decide_call d run def call resource s) = Inr (access, w)"
      and rest: "snd ((case w of
         Verdict_Deny denial \<Rightarrow>
           then_step (deny d run def call resource denial) (\<lambda>(result, r). lift_result (Inr (Ended_Before result r)))
       | Verdict_Await \<Rightarrow>
           then_step (await_approval d run call resource) (\<lambda>(result, r). lift_result (Inr (Ended_Before result r)))
       | Verdict_Run policy \<Rightarrow>
           then_step (emit d run def call resource ''operation.started'' Phase_After [(''status'', JStr ''success'')])
             (\<lambda>_. lift_result (Inr (Goes_Ahead access policy)))) (fst (decide_call d run def call resource s))) =
        Inr (Ended_Before v r)"
      unfolding until_start_def then_step_Inr[of "decide_call d run def call resource"] by auto
    from rest show ?thesis
      by (cases w) (auto simp: then_step_Inr dest: denied await_answer)
  qed
  obtain s1 u where us: "until_start d run def call resource s = (s1, u)" by force
  show ?thesis
  proof (cases u)
    case (Inl e)
    with assms us caught show ?thesis by (simp add: executeRun_def)
  next
    case (Inr b)
    with assms us caught before show ?thesis
      by (cases b) (auto simp: executeRun_def split: prod.splits sum.splits)
  qed
qed

lemma executed_outcome:
  fixes s :: "'w op_state" and db
  defines "t \<equiv> s\<lparr>os_runs := db\<rparr>"
  assumes seen: "counts_starts d seen" "dep_resolve d name = Some def"
    and c': "cl_runs c' = os_runs (fst (executeRun d run def call resource t))" "cl_before c' = cl_before c"
      "cl_log c' = (if starts d run def call resource t then run_id run # cl_log c else cl_log c)"
  shows "call_outcome seen c c' s (then_step (executeRun d run def call resource) (\<lambda>(result, r).
    lift_result (Inr \<lparr> oc_result = result, oc_run = r, oc_replayed = False \<rparr>)) t)"
proof -
  let ?new = "if starts d run def call resource t then [run_id run] else []"
  obtain u x where ux: "executeRun d run def call resource t = (u, x)" by force
  have world: "seen (os_world u) = ?new @ seen (os_world s)" "cl_log c' = ?new @ cl_log c" "cl_runs c' = os_runs u"
    using seen_executeRun[OF seen, of run call resource t] c' ux by (simp_all add: t_def)
  show ?thesis
  proof (cases x)
    case (Inl e)
    with ux world c'(2) show ?thesis
      by (auto simp: call_outcome_def then_step_def intro!: exI[of _ ?new])
  next
    case (Inr vr)
    obtain v r where vr: "vr = (v, r)" by (cases vr)
    have "result_run v = run_id run" and "\<And>i out. v = Res_Done i out \<Longrightarrow> starts d run def call resource t \<and> i = run_id run"
      using executeRun_result[of d run def call resource t] done_has_started[of d run def call resource t] ux Inr vr
      by simp_all
    then have "length ?new \<le> 1 \<and> set ?new \<subseteq> {result_run v} \<and> (case v of Res_Done i out \<Rightarrow> ?new = [i] | _ \<Rightarrow> True)"
      by (auto split: operation_result.split)
    with ux world c'(2) Inr vr show ?thesis
      unfolding call_outcome_def then_step_def ux
      by (intro conjI exI[of _ ?new]) (simp_all add: lift_result_def)
  qed
qed

lemma claim_run_path:
  assumes "cl_runs c = os_runs s" and alone: "dep_meanwhile d = (\<lambda>k db. db)"
    and key: "op_effect def = Reading \<Longrightarrow> key = None"
    and seen: "counts_starts d seen" and def: "dep_resolve d name = Some def"
  shows "\<exists>c'. (call_step (dep_instance d))\<^sup>*\<^sup>* c c' \<and>
    call_outcome seen c c' s (claim_run n k d def call resource key h s)"
proof (induction n arbitrary: k)
  case 0
  have "call_outcome seen c c s (s, Inl e)" for e by (rule no_start[OF assms(1)]) simp
  then show ?case by auto
next
  case (Suc n)
  let ?new = "new_run_of d def call key h k"
  show ?case
  proof (cases "createOperationRun ?new (os_runs s)")
    case (Inl e)
    then show ?thesis using no_start[OF assms(1), of "Inl e" seen] by auto
  next
    case (Inr made)
    obtain db answer where made: "made = (db, answer)" by (cases made)
    show ?thesis
    proof (cases answer)
      case None
      with made Inr have db: "db = os_runs s" using create_unchanged by blast
      have "s\<lparr>os_runs := os_runs s\<rparr> = s" by (cases s) simp
      then have same: "s\<lparr>os_runs := dep_meanwhile d k db\<rparr> = s" "dep_meanwhile d k db = os_runs s"
        by (simp_all add: alone db)
      have stays: ?thesis if "claim_run (Suc n) k d def call resource key h s = (s, r)"
          "\<And>oc. r = Inr oc \<Longrightarrow> oc_replayed oc" for r
        unfolding that(1) using no_start[OF assms(1) that(2)] by blast
      show ?thesis
      proof (cases key)
        case None
        with made Inr \<open>answer = None\<close> show ?thesis by (intro stays, simp add: same) simp
      next
        case (Some ikey)
        note step = made Inr \<open>answer = None\<close> Some
        show ?thesis
        proof (cases "findOperationRunByIdempotencyKey (dep_instance d) (runActor call) ikey (os_runs s)")
          case None
          with step Suc.IH[of "Suc k"] show ?thesis by (simp add: same)
        next
          case (Some r)
          show ?thesis
          proof (cases "runs_again r \<and> sameCall r def (runActor call) h")
            case True
            with step Some Suc.IH[of "Suc k"] show ?thesis by (simp add: same)
          next
            case False
            let ?r = "if runs_again r then Inl keyReused else bind_result (replay r def (runActor call) h)
              (\<lambda>result. Inr \<lparr> oc_result = result, oc_run = r, oc_replayed = True \<rparr>)"
            from False step Some have "claim_run (Suc n) k d def call resource key h s = (s, ?r)"
              by (simp add: same)
            then show ?thesis by (rule stays) (simp split: if_splits, auto)
          qed
        qed
      qed
    next
      case (Some run)
      let ?s = "s\<lparr>os_runs := db\<rparr>" and ?c = "c\<lparr>cl_runs := db, cl_before := run_id run # cl_before c\<rparr>"
      have begun: "call_step (dep_instance d) c ?c"
        using made Inr Some assms(1) key
        by (intro call_begins[where n = ?new]) (simp_all add: new_run_of_def)
      have "call_path (dep_instance d) (run_id run) (starts d run def call resource ?s) ?c
          (os_runs (fst (executeRun d run def call resource ?s)))"
        by (rule executeRun_path) simp_all
      then obtain c' where c': "(call_step (dep_instance d))\<^sup>*\<^sup>* ?c c'"
          "cl_runs c' = os_runs (fst (executeRun d run def call resource ?s))" "cl_before c' = cl_before c"
          "cl_log c' = (if starts d run def call resource ?s then run_id run # cl_log c else cl_log c)"
        unfolding call_path_def by auto
      have runs: "claim_run (Suc n) k d def call resource key h s =
          then_step (executeRun d run def call resource) (\<lambda>(result, r).
            lift_result (Inr \<lparr> oc_result = result, oc_run = r, oc_replayed = False \<rparr>)) ?s"
        using made Inr Some by simp
      have "call_outcome seen c c' s (claim_run (Suc n) k d def call resource key h s)"
        unfolding runs by (rule executed_outcome[OF seen def c'(2-4)])
      then show ?thesis using converse_rtranclp_into_rtranclp[OF begun c'(1)] by blast
    qed
  qed
qed

lemma prepare_key:
  "prepare_call call d = Inr (def, input, key) \<Longrightarrow> op_effect def = Reading \<Longrightarrow> key = None"
  by (auto simp: prepare_call_def readIdempotencyKey_def split: option.splits sum.splits if_splits)

lemma prepare_resolves:
  "prepare_call call d = Inr (def, input, key) \<Longrightarrow> dep_resolve d (call_operation call) = Some def"
  by (auto simp: prepare_call_def split: option.splits sum.splits if_splits)

section \<open>An instance\<close>

text \<open>A note is added: the world is the list of notes with the runs that added them, and the operation has its own check.\<close>

definition add_note :: "(json \<times> string) list operation_definition" where
  "add_note =
     \<lparr> op_name = ''note.add'', op_effect = Changing, op_action = None,
       op_authorize = Some (\<lambda>input call access resource w. Inr Right_Allowed), op_defaultPolicy = None,
       op_parse = Inr, op_resource = (\<lambda>input. None), op_policyTargets = None, op_before = None,
       op_after = None, op_execute = (\<lambda>input ctx w. ((input, ctx_runId ctx) # w, Inr (JNum 1))) \<rparr>"

definition note_deps :: "(json \<times> string) list operation_deps" where
  "note_deps =
     \<lparr> dep_instance = ''ci'', dep_resolve = (\<lambda>name. if name = ''note.add'' then Some add_note else None),
       dep_rights = None, dep_emit = (\<lambda>event w. (w, Inr Outcome_Allow)),
       dep_defaults = (\<lambda>_. Policy_Confirm), dep_central = (\<lambda>w. Inr []), dep_approvals = None,
       dep_ids = (\<lambda>k. ''run1''), dep_sha256 = (\<lambda>text. text), dep_num = (\<lambda>x. []),
       dep_clock = \<lparr> ck_started = (\<lambda>k. 1), ck_finished = 2, ck_requested = 3, ck_decided = 4 \<rparr>,
       dep_meanwhile = (\<lambda>k db. db) \<rparr>"

definition note_call :: operation_call where
  "note_call =
     \<lparr> call_operation = ''note.add'', call_effect = Changing, call_input = JStr ''hi'',
       call_actor = User_Actor \<lparr> actor_id = ''u1'', actor_instance = ''ci'', actor_roles = [],
         actor_permissions = None, actor_permissionRefs = [] \<rparr>,
       call_label = ''Ada'', call_delegated = None, call_origin = User_Origin, call_workspaceId = None,
       call_key = Some ''k1'', call_correlationId = ''c1'' \<rparr>"

definition no_notes :: "(json \<times> string) list op_state" where
  "no_notes = \<lparr> os_runs = [], os_world = [] \<rparr>"

lemma note_prepared: "prepare_call note_call note_deps = Inr (add_note, JStr ''hi'', Some ''k1'')"
  by (simp add: prepare_call_def note_call_def note_deps_def add_note_def assertOperationChecksRights_def
      readIdempotencyKey_def IDEMPOTENCY_KEY_MAX_LENGTH_def)

definition note_frozen :: operation_call where
  "note_frozen = frozen_call note_call (JStr ''hi'') None"

definition note_run :: operation_run where
  "note_run = started_run (new_run_of note_deps add_note note_frozen (Some ''k1'')
     (hashInput note_deps (JStr ''hi'')) 0)"

lemma note_decided:
  "\<exists>access policy. until_start note_deps note_run add_note note_frozen None s = (s, Inr (Goes_Ahead access policy))"
  by (simp add: until_start_def decide_call_def after_right_def policy_verdict_def then_step_def load_access_def check_right_def emit_def in_world_def
      lift_result_def ask_policy_def guardrail_outcome_def call_targets_def Let_def
      note_deps_def add_note_def note_frozen_def frozen_call_def note_call_def forActor_def
      policy_input_of_def resolvePolicy_def guarded_policy_def settled_policy_def policy_targets_def
      target_value_def central_values_def policy_base_def policy_applies_def strictestOutcome_def)

lemma note_executed:
  "\<exists>s' r. executeRun note_deps note_run add_note note_frozen None s = (s', Inr (Res_Done ''run1'' (JNum 1), r))"
proof -
  obtain access policy where u: "until_start note_deps note_run add_note note_frozen None s =
      (s, Inr (Goes_Ahead access policy))" using note_decided by blast
  have "run_id note_run = ''run1''" "\<And>i c w. op_execute add_note i c w = ((i, ctx_runId c) # w, Inr (JNum 1))"
    by (simp_all add: note_run_def started_run_def new_run_of_def note_deps_def add_note_def)
  then show ?thesis by (simp add: executeRun_def u in_world_def split: prod.split)
qed

lemma note_added:
  "\<exists>s oc. runOperation note_call note_deps no_notes = (s, Inr oc) \<and> oc_result oc = Res_Done ''run1'' (JNum 1) \<and>
    \<not> oc_replayed oc"
proof -
  have new: "createOperationRun (new_run_of note_deps add_note note_frozen (Some ''k1'')
      (hashInput note_deps (JStr ''hi'')) 0) [] = Inr ([note_run], Some note_run)"
    by (simp add: createOperationRun_def note_run_def)
  obtain s' r where "executeRun note_deps note_run add_note note_frozen None (no_notes\<lparr>os_runs := [note_run]\<rparr>) =
      (s', Inr (Res_Done ''run1'' (JNum 1), r))"
    using note_executed by blast
  moreover have "op_resource add_note (JStr ''hi'') = None" by (simp add: add_note_def)
  moreover have "os_runs no_notes = []" by (simp add: no_notes_def)
  ultimately show ?thesis
    using new
    by (simp add: runOperation_def then_step_def lift_result_def note_prepared IDEMPOTENCY_CLAIM_ATTEMPTS_def
        numeral_3_eq_3 note_frozen_def)
qed

text \<open>
  C12. A whole call is a path of the machine of calls: it takes the table of runs the way the machine's
  steps do, so what every reachable state of the machine satisfies holds after any sequence of calls. The
  machine's log of starts is the log that the implementations themselves leave in the world, for any such
  log \<open>seen\<close>: a call executes its implementation at most once, in the run it answers for; a call whose
  implementation answered has executed it just once; and a call that is answered from the record executes
  nothing and changes neither the table nor the world. Other calls do not change the table while this
  one looks for the holder of its key.
\<close>

theorem calls_are_paths:
  assumes "reachable no_calls (call_step (dep_instance d)) c" and "cl_runs c = os_runs s"
    and "dep_meanwhile d = (\<lambda>k db. db)" and "counts_starts d seen"
  shows "\<exists>c'. reachable no_calls (call_step (dep_instance d)) c' \<and>
    call_outcome seen c c' s (runOperation call d s)"
proof -
  have move: "reachable no_calls (call_step (dep_instance d)) c'"
    if "(call_step (dep_instance d))\<^sup>*\<^sup>* c c'" for c'
    using that assms(1) by (induction rule: rtranclp_induct) (auto intro: reachable_move)
  show ?thesis
  proof (cases "prepare_call call d")
    case (Inl e)
    then have "runOperation call d s = (s, Inl e)"
      by (simp add: runOperation_def then_step_def lift_result_def)
    with no_start[OF assms(2), of "Inl e" seen] assms(1) show ?thesis by auto
  next
    case (Inr prepared)
    obtain def input key where prepared: "prepared = (def, input, key)" by (cases prepared)
    have run: "runOperation call d s =
        claim_run IDEMPOTENCY_CLAIM_ATTEMPTS 0 d def (frozen_call call input (op_resource def input))
          (op_resource def input) key (hashInput d input) s"
      using Inr prepared by (simp add: runOperation_def then_step_def lift_result_def Let_def)
    show ?thesis
      using claim_run_path[OF assms(2,3) prepare_key[OF Inr[unfolded prepared]] assms(4)
          prepare_resolves[OF Inr[unfolded prepared]]] move unfolding run by blast
  qed
qed

lemma note_counts: "counts_starts note_deps (map snd)"
  by (auto simp: counts_starts_def note_deps_def add_note_def split: if_splits)

lemma calls_are_paths_witness:
  "\<exists>c'. reachable no_calls (call_step ''ci'') c' \<and>
    cl_runs c' = os_runs (fst (runOperation note_call note_deps no_notes)) \<and> cl_log c' = [''run1''] \<and>
    map snd (os_world (fst (runOperation note_call note_deps no_notes))) = [''run1'']"
proof -
  let ?c = "\<lparr> cl_runs = [], cl_before = [], cl_ending = [], cl_log = [] \<rparr>"
  have "reachable no_calls (call_step (dep_instance note_deps)) ?c"
    by (rule reachable_start) (simp add: no_calls_def)
  then obtain c' where c': "reachable no_calls (call_step (dep_instance note_deps)) c'"
      "call_outcome (map snd) ?c c' no_notes (runOperation note_call note_deps no_notes)"
    using calls_are_paths[of note_deps ?c no_notes "map snd" note_call] note_counts
    by (auto simp: no_notes_def note_deps_def)
  obtain s oc where "runOperation note_call note_deps no_notes = (s, Inr oc)" "oc_result oc = Res_Done ''run1'' (JNum 1)"
      "\<not> oc_replayed oc"
    using note_added by blast
  with c'(2) have "cl_log c' = [''run1''] \<and> cl_runs c' = os_runs s \<and> map snd (os_world s) = [''run1'']"
    by (simp add: call_outcome_def no_notes_def)
  with c'(1) \<open>runOperation note_call note_deps no_notes = (s, Inr oc)\<close> show ?thesis by (auto simp: note_deps_def)
qed

end
