(* ===== verification/Operation_Replay.thy ===== *)
theory Operation_Replay imports Operation_Paths begin

text \<open>
  The same call sent again: what the record of the first one answers.
\<close>

section \<open>What a call records\<close>

text \<open>The answer of a call goes with the end its run was given.\<close>

fun recorded :: "'w operation_deps \<Rightarrow> 'w operation_definition \<Rightarrow> string \<Rightarrow> run_end \<Rightarrow> operation_result \<Rightarrow> bool" where
  "recorded d def i (Ends_Done output ref decision) v =
     (\<exists>answer. v = Res_Done i answer \<and>
        output = (if op_effect def = Changing then retainedOutput (dep_num d) answer else None))"
| "recorded d def i (Ends_Failed e) v =
     (\<exists>details. v = Res_Failed i (rerr_code e) (rerr_message e) details \<and> (\<exists>code. rerr_code e = code_name code))"
| "recorded d def i (Ends_Denied e denial) v = (v = Res_Denied i denial)"
| "recorded d def i (Ends_Pending_Approval a ref x) v = (v = Res_Pending_Approval i a x)"

abbreviation end_time :: "'w operation_deps \<Rightarrow> time" where
  "end_time d \<equiv> ck_finished (dep_clock d)"

text \<open>The run of a call that is running is the row of the table.\<close>

definition its_row :: "'w operation_deps \<Rightarrow> operation_run \<Rightarrow> runs \<Rightarrow> bool" where
  "its_row d run db \<longleftrightarrow> runs_table db \<and> run \<in> set db \<and> run_status run = Run_Running \<and>
     run_instance run = dep_instance d"

lemma its_row_unique: "its_row d run db \<Longrightarrow> x \<in> set db \<Longrightarrow> run_id x = run_id run \<Longrightarrow> x = run"
  by (auto simp: its_row_def runs_table_def intro: distinct_map_inj)

lemma own_row_found:
  assumes "its_row d run db"
  shows "List.find (\<lambda>r. identity_of (dep_instance d) (run_id run) r \<and> run_status r = Run_Running) db = Some run"
    (is "List.find ?p db = _")
proof (cases "List.find ?p db")
  case None
  with assms show ?thesis by (auto simp: find_None_iff its_row_def identity_of_def)
next
  case (Some x)
  with find_Some_iff[OF Some] its_row_unique[OF assms] show ?thesis by (auto simp: identity_of_def)
qed

lemma ended_row:
  "its_row d run (os_runs s) \<Longrightarrow>
    ended d run ending s = update_where (\<lambda>x. run_id x = run_id run) (ended_run (end_time d) ending) (os_runs s)"
  by (simp add: ended_def finishOperationRun_def own_row_found)

lemma end_run_row:
  "its_row d run (os_runs s) \<Longrightarrow> snd (end_run d run ending s) = Inr (ended_run (end_time d) ending run)"
  by (simp add: end_run_def finishOperationRun_def own_row_found split: prod.split)

lemma ended_rows:
  assumes "its_row d run (os_runs s)" "x \<in> set (ended d run ending s)" "run_id x = run_id run"
  shows "x = ended_run (end_time d) ending run"
  using assms(2,3) its_row_unique[OF assms(1)] same_runD(1)[OF same_run_updates(2)]
  unfolding ended_row[OF assms(1)] by (elim in_update_whereE) auto

lemma ended_status: "run_status (ended_run t ending r) \<noteq> Run_Running"
  by (cases ending) simp_all

text \<open>Once it is ended, nothing ends it again.\<close>

lemma end_run_gone:
  assumes "its_row d run (os_runs s)" and s': "os_runs s' = ended d run ending' s"
  shows "snd (end_run d run ending s') = Inr run"
proof -
  have "List.find (\<lambda>r. identity_of (dep_instance d) (run_id run) r \<and> run_status r = Run_Running) (os_runs s') = None"
    unfolding find_None_iff s' identity_of_def
    using ended_rows[OF assms(1), of _ ending'] ended_status by metis
  then show ?thesis by (simp add: end_run_def finishOperationRun_def)
qed

definition answers ::
    "'w operation_deps \<Rightarrow> 'w operation_definition \<Rightarrow> operation_run \<Rightarrow> 'w op_state \<Rightarrow>
      'w op_state \<times> (js_error, operation_result \<times> operation_run) result \<Rightarrow> bool" where
  "answers d def run s o' \<longleftrightarrow>
     (\<forall>v r. snd o' = Inr (v, r) \<longrightarrow> run_status r \<noteq> Run_Running \<longrightarrow>
        (\<exists>ending. recorded d def (run_id run) ending v \<and> r = ended_run (end_time d) ending run \<and>
          os_runs (fst o') = ended d run ending s))"

lemma answers_deny:
  "its_row d run (os_runs s) \<Longrightarrow> answers d def run s (deny d run def call resource denial s)"
  using runs_deny[of d run def call resource denial s] deny_answer[of d run def call resource denial s]
  by (auto simp: answers_def intro!: exI[of _ "Ends_Denied (denial_error denial) denial"])
    (auto simp: deny_def then_step_Inr end_run_row)

lemma runs_fail_exact:
  "os_runs (fst (fail d run def call resource error unexecuted s)) =
    ended d run (Ends_Failed \<lparr> rerr_code = code_name (env_code (toErrorEnvelope error (call_correlationId call))),
      rerr_message = env_message (toErrorEnvelope error (call_correlationId call)), rerr_unexecuted = unexecuted \<rparr>) s"
  unfolding fail_def Let_def by (subst runs_then_keeps) (auto intro!: keeps_then)

lemma answers_fail:
  "its_row d run (os_runs s) \<Longrightarrow> answers d def run s (fail d run def call resource error unexecuted s)"
  by (auto simp: answers_def runs_fail_exact intro!: exI[of _ "Ends_Failed \<lparr>
      rerr_code = code_name (env_code (toErrorEnvelope error (call_correlationId call))),
      rerr_message = env_message (toErrorEnvelope error (call_correlationId call)), rerr_unexecuted = unexecuted \<rparr>"])
    (auto simp: fail_def Let_def then_step_Inr end_run_row)

lemma answers_caught:
  "its_row d run (os_runs s) \<Longrightarrow> answers d def run s (caught d run def call resource error started s)"
  by (simp add: caught_def answers_deny answers_fail split: option.split)

lemma caught_gone:
  assumes "its_row d run (os_runs s)" "os_runs s' = ended d run ending' s"
    and "snd (caught d run def call resource error started s') = Inr (v, r)"
  shows "r = run"
  using assms(3) end_run_gone[OF assms(1,2)]
  by (auto simp: caught_def deny_def fail_def Let_def then_step_Inr split: option.splits)

lemma answers_await:
  assumes "its_row d run (os_runs s)"
  shows "answers d def run s (await_approval d run call resource s)"
proof (cases "dep_approvals d")
  case None
  then show ?thesis by (simp add: await_approval_def lift_result_def answers_def)
next
  case (Some request)
  obtain w x where w: "request run call resource (os_world s) = (w, x)" by force
  have row: "its_row d run (os_runs (s\<lparr>os_world := w\<rparr>))" using assms by simp
  show ?thesis
  proof (cases x)
    case (Inl e)
    with Some w show ?thesis by (simp add: await_approval_def then_step_def in_world_def answers_def)
  next
    case (Inr a)
    let ?last = "Ends_Pending_Approval a (''approval_request:'' @ a)
        (ck_requested (dep_clock d) + PENDING_APPROVAL_EXPIRES_AFTER_MS)"
    obtain s2 where "end_run d run ?last (s\<lparr>os_world := w\<rparr>) = (s2, Inr (ended_run (end_time d) ?last run))"
      using end_run_row[OF row, of ?last] by (metis prod.collapse)
    moreover from this have "os_runs s2 = ended d run ?last s"
      using runs_end_run[of d run ?last "s\<lparr>os_world := w\<rparr>"] by (simp add: ended_def)
    ultimately show ?thesis
      using Some w Inr
      by (auto simp: await_approval_def then_step_def in_world_def lift_result_def answers_def Let_def
          intro!: exI[of _ ?last])
  qed
qed

lemma answers_same: "os_runs s' = os_runs s \<Longrightarrow> answers d def run s' x \<Longrightarrow> answers d def run s x"
  using ended_cong[of s' s d run] by (simp add: answers_def)

lemma until_start_reports:
  assumes row: "its_row d run (os_runs s)"
    and u: "until_start d run def call resource s = (s1, Inr (Ended_Before v r))"
  shows "answers d def run s (s1, Inr (v, r))"
proof -
  obtain s0 x where dc: "decide_call d run def call resource s = (s0, x)" by force
  then have same: "os_runs s0 = os_runs s" using keeps_runsD[OF keeps_decide] by (metis fst_conv)
  with row have row0: "its_row d run (os_runs s0)" by simp
  from u dc obtain access w where x: "x = Inr (access, w)"
    by (cases x) (auto simp: until_start_def then_step_def)
  have "answers d def run s0 (s1, Inr (v, r))"
  proof (cases w)
    case (Verdict_Deny denial)
    obtain s2 y where "deny d run def call resource denial s0 = (s2, y)" by force
    with u dc x Verdict_Deny answers_deny[OF row0, of def call resource denial] show ?thesis
      by (cases y) (auto simp: until_start_def then_step_def lift_result_def)
  next
    case Verdict_Await
    obtain s2 y where "await_approval d run call resource s0 = (s2, y)" by force
    with u dc x Verdict_Await answers_await[OF row0, of def call resource] show ?thesis
      by (cases y) (auto simp: until_start_def then_step_def lift_result_def)
  next
    case (Verdict_Run p)
    with u dc x show ?thesis
      by (auto simp: until_start_def then_step_def lift_result_def split: prod.splits sum.splits)
  qed
  with same show ?thesis by (rule answers_same)
qed

lemma record_done_row:
  assumes "its_row d run (os_runs s)" "record_done d run def call resource policy out s = (s3, r)"
  shows "\<exists>decision. r = ended_run (end_time d) (Ends_Done (if op_effect def = Changing
        then retainedOutput (dep_num d) out else None) None decision) run \<and>
      os_runs s3 = ended d run (Ends_Done (if op_effect def = Changing
        then retainedOutput (dep_num d) out else None) None decision) s"
proof -
  let ?last = "Ends_Done (if op_effect def = Changing then retainedOutput (dep_num d) out else None) None
     (if res_next policy = Next_Run_Direct then
        Some \<lparr> dec_mode = Decision_Direct, dec_by = ra_id (run_actor run), dec_at = ck_decided (dep_clock d),
          dec_comment = None, dec_edited = None, dec_inputHashes = None \<rparr>
      else None)"
  obtain s2 where s2: "end_run d run ?last s = (s2, Inr (ended_run (end_time d) ?last run))"
    using end_run_row[OF assms(1), of ?last] by (metis prod.collapse)
  then have runs: "os_runs s2 = ended d run ?last s" using runs_end_run[of d run ?last s] by simp
  let ?after = "then_step (emit d run def call resource ''operation.completed'' Phase_After
      [(''status'', JStr ''success'')]) (\<lambda>_. case op_after def of
        Some own \<Rightarrow> emit d run def call resource own Phase_After [] | None \<Rightarrow> lift_result (Inr Outcome_Allow))"
  have "keeps_runs ?after" by (intro keeps_then keeps_emit) (auto split: option.split)
  then have "os_runs (fst (?after s2)) = os_runs s2" by (rule keeps_runsD)
  moreover have "(s3, r) = (fst (?after s2), ended_run (end_time d) ?last run)"
    using assms(2) unfolding record_done_def s2 by simp
  ultimately show ?thesis using runs by auto
qed

lemma answers_done:
  assumes "its_row d run (os_runs s)" "record_done d run def call resource policy out s = (s3, r)"
  shows "answers d def run s (s3, Inr (Res_Done (run_id run) out, r))"
proof -
  obtain decision where "r = ended_run (end_time d) (Ends_Done (if op_effect def = Changing
        then retainedOutput (dep_num d) out else None) None decision) run"
      "os_runs s3 = ended d run (Ends_Done (if op_effect def = Changing
        then retainedOutput (dep_num d) out else None) None decision) s"
    using record_done_row[OF assms] by blast
  then show ?thesis
    unfolding answers_def by (intro allI impI exI[of _ "Ends_Done (if op_effect def = Changing
        then retainedOutput (dep_num d) out else None) None decision"]) (simp del: ended_run.simps)
qed

lemma answers_execute:
  assumes row: "its_row d run (os_runs s)"
  shows "answers d def run s (executeRun d run def call resource s)"
proof -
  obtain s1 u where us: "until_start d run def call resource s = (s1, u)" by force
  note cases = until_start_cases[of d run def call resource s, unfolded us fst_conv snd_conv]
  show ?thesis
  proof (cases u)
    case (Inl e)
    have ex: "executeRun d run def call resource s = caught d run def call resource e False s1"
      using us Inl by (simp add: executeRun_def)
    from cases Inl consider "os_runs s1 = os_runs s" | ending where "os_runs s1 = ended d run ending s" by auto
    then show ?thesis
    proof cases
      case 1
      with row answers_caught[of d run s1] show ?thesis unfolding ex by (auto intro: answers_same)
    next
      case 2
      with caught_gone[OF row 2] row show ?thesis unfolding ex answers_def its_row_def by blast
    qed
  next
    case (Inr b)
    show ?thesis
    proof (cases b)
      case (Ended_Before v r)
      with us Inr until_start_reports[OF row] show ?thesis by (simp add: executeRun_def)
    next
      case (Goes_Ahead access policy)
      from cases Inr Goes_Ahead have same: "os_runs s1 = os_runs s" by auto
      let ?ctx = "\<lparr> ctx_runId = run_id run, ctx_actor = call_actor call, ctx_origin = call_origin call,
          ctx_workspaceId = call_workspaceId call, ctx_correlationId = call_correlationId call,
          ctx_access = access \<rparr>"
      obtain s2 x where ex: "in_world (op_execute def (call_input call) ?ctx) s1 = (s2, x)" by force
      have same2: "os_runs s2 = os_runs s"
        using keeps_runsD[OF keeps_world, of "op_execute def (call_input call) ?ctx" s1] ex same by simp
      with row have row2: "its_row d run (os_runs s2)" by simp
      have "answers d def run s2 (executeRun d run def call resource s)"
      proof (cases x)
        case (Inl e)
        with us Inr Goes_Ahead ex answers_caught[OF row2] show ?thesis by (simp add: executeRun_def)
      next
        case (Inr out)
        obtain s3 r where "record_done d run def call resource policy out s2 = (s3, r)" by force
        with answers_done[OF row2 this] us \<open>u = Inr b\<close> Goes_Ahead ex Inr show ?thesis by (simp add: executeRun_def)
      qed
      with same2 show ?thesis by (rule answers_same)
    qed
  qed
qed

section \<open>What the record answers\<close>

text \<open>The answer of a changing call, given again.\<close>

definition answer_again :: "'w operation_deps \<Rightarrow> operation_result \<Rightarrow> (js_error, operation_result) result" where
  "answer_again d v =
     (case v of
        Res_Done i out \<Rightarrow>
          (if retainedOutput (dep_num d) out = None then
             Inl (app_error_with OUTPUT_NOT_RETAINED
               ''The call completed and its answer is not kept. Read the result from what it changed.''
               (JObj [(''operationRunId'', JStr i)]))
           else Inr v)
      | Res_Failed i code message details \<Rightarrow> Inr (Res_Failed i code message None)
      | _ \<Rightarrow> Inr v)"

lemma code_not_interrupted: "code_name code \<noteq> rerr_code INTERRUPTED_RUN_ERROR"
  by (cases code) (simp_all add: INTERRUPTED_RUN_ERROR_def)

lemma replay_recorded:
  assumes "recorded d def (run_id run) ending v" and r: "r = ended_run t ending run"
    and "op_effect def = Changing" "sameCall r def' actor h"
  shows "replay r def' actor h = answer_again d v"
proof -
  have id: "run_id r = run_id run" unfolding r using same_run_updates(2) by (rule same_runD)
  from assms(4) have same: "replay r def' actor h = (case run_status r of
      Run_Done \<Rightarrow> (case run_output r of
          None \<Rightarrow> Inl (app_error_with OUTPUT_NOT_RETAINED
            ''The call completed and its answer is not kept. Read the result from what it changed.''
            (run_details r []))
        | Some output \<Rightarrow> Inr (Res_Done (run_id r) output))
    | _ \<Rightarrow> replay r def' actor h)"
    by (simp add: replay_def Let_def split: operation_run_status.split option.split)
  show ?thesis
  proof (cases ending)
    case (Ends_Done kept ref decision)
    with assms(1,3) obtain out where v: "v = Res_Done (run_id run) out" "kept = retainedOutput (dep_num d) out" by auto
    have "run_status r = Run_Done" "run_output r = kept" using Ends_Done by (simp_all add: r)
    with same v id show ?thesis
      by (auto simp: answer_again_def run_details_def retainedOutput_def split: option.split if_splits)
  next
    case (Ends_Failed e)
    with assms(1) obtain ds code where v: "v = Res_Failed (run_id run) (rerr_code e) (rerr_message e) ds"
      "rerr_code e = code_name code" by auto
    have "run_status r = Run_Failed" "run_error r = Some e" using Ends_Failed by (simp_all add: r)
    with assms(4) v id show ?thesis by (simp add: replay_def Let_def answer_again_def code_not_interrupted)
  next
    case (Ends_Denied e denial)
    then have "run_status r = Run_Denied" "run_denial r = Some denial" by (simp_all add: r)
    with assms(1,4) Ends_Denied id show ?thesis by (simp add: replay_def Let_def answer_again_def)
  next
    case (Ends_Pending_Approval a ref x)
    then have "run_status r = Run_Pending_Approval" "run_approvalRequestId r = Some a" "run_expiresAt r = Some x"
      by (simp_all add: r)
    with assms(1,4) Ends_Pending_Approval id show ?thesis by (simp add: replay_def Let_def answer_again_def)
  qed
qed

text \<open>A call that was not answered from the record ran in a run of its own.\<close>

lemma claim_fresh:
  assumes alone: "dep_meanwhile d = (\<lambda>k db. db)"
  shows "claim_run n k d def call resource key h s = (s1, Inr oc) \<Longrightarrow> \<not> oc_replayed oc \<Longrightarrow>
    \<exists>j db run. createOperationRun (new_run_of d def call key h j) (os_runs s) = Inr (db, Some run) \<and>
      executeRun d run def call resource (s\<lparr>os_runs := db\<rparr>) = (s1, Inr (oc_result oc, oc_run oc))"
proof (induction n arbitrary: k)
  case 0
  then show ?case by simp
next
  case (Suc n)
  let ?new = "new_run_of d def call key h k"
  obtain db answer where made: "createOperationRun ?new (os_runs s) = Inr (db, answer)"
    using Suc.prems by (cases "createOperationRun ?new (os_runs s)") auto
  show ?case
  proof (cases answer)
    case (Some run)
    obtain s2 y where "executeRun d run def call resource (s\<lparr>os_runs := db\<rparr>) = (s2, y)" by force
    with Suc.prems made Some show ?thesis
      by (intro exI[of _ k] exI[of _ db] exI[of _ run]) (cases y; auto simp: then_step_def lift_result_def)
  next
    case None
    with made create_unchanged have db: "db = os_runs s" by blast
    have "s\<lparr>os_runs := os_runs s\<rparr> = s" by (cases s) simp
    then have same: "s\<lparr>os_runs := dep_meanwhile d k db\<rparr> = s" "dep_meanwhile d k db = os_runs s"
      by (simp_all add: alone db)
    show ?thesis
    proof (cases key)
      case key: None
      with Suc.prems made None show ?thesis by (simp add: same)
    next
      case key: (Some ikey)
      have "claim_run n (Suc k) d def call resource key h s = (s1, Inr oc)"
        using Suc.prems made None key by (auto simp: same split: option.splits if_splits)
      then show ?thesis using Suc.IH Suc.prems(2) by blast
    qed
  qed
qed

lemma table_of_creation:
  assumes "runs_table db" "\<forall>r \<in> set db. run_instance r = nr_instance n" "nr_effect n = Reading \<Longrightarrow> nr_key n = None"
    and made: "createOperationRun n db = Inr (db', Some run)"
  shows "runs_table db' \<and> (\<forall>r \<in> set db'. run_instance r = nr_instance n)"
proof -
  let ?c = "\<lparr> cl_runs = db, cl_before = [], cl_ending = [], cl_log = [] \<rparr>"
  have "calls_inv (nr_instance n) ?c" using assms(1,2) by (simp add: calls_inv_def run_ok_def)
  then have "calls_inv (nr_instance n) (?c\<lparr>cl_runs := db', cl_before := run_id run # cl_before ?c\<rparr>)"
    using made assms(3) by (intro begins_keeps) simp_all
  then show ?thesis by (simp add: calls_inv_def)
qed

text \<open>The run that a call holds is a row of its table, for its operation and its input.\<close>

definition holds :: "new_run \<Rightarrow> operation_run \<Rightarrow> bool" where
  "holds n run \<longleftrightarrow> run_index run = run_index (started_run n) \<and> run_operation run = nr_operation n \<and>
     run_inputHash run = nr_inputHash n \<and> run_status run = Run_Running"

lemma created_row:
  assumes "createOperationRun n db = Inr (db', Some run)"
  shows "run \<in> set db'" "nr_key n \<noteq> None \<Longrightarrow> holds n run"
proof -
  have x: "List.find (holds_key n) db = Some x \<Longrightarrow> x \<in> set db \<and> holds_key n x" for x by (rule find_Some_iff)
  show "run \<in> set db'"
    using assms x by (auto simp: createOperationRun_def set_update_where split: option.splits if_splits)
  show "holds n run"
    using assms x
    by (auto simp: createOperationRun_def holds_def takes_over_def holds_key_def next_attempt_def run_index_def
        started_run_def split: option.splits if_splits)
qed

lemma index_of_run: "run_index (started_run (new_run_of d def call (Some key) h k)) =
    Some (dep_instance d, ra_kind (runActor call), ra_id (runActor call), key)"
  by (simp add: run_index_def started_run_def new_run_of_def)

text \<open>With the key held by an ended run, a call is answered from that run and changes nothing.\<close>

lemma held_call:
  assumes table: "runs_table (os_runs s)" and r: "r \<in> set (os_runs s)"
    and index: "run_index r = Some (dep_instance d, ra_kind (runActor call), ra_id (runActor call), key)"
    and ended: "\<not> runs_again r" and alone: "dep_meanwhile d = (\<lambda>k db. db)"
  shows "claim_run (Suc n) k d def call resource (Some key) h s =
    (s, bind_result (replay r def (runActor call) h) (\<lambda>v. Inr \<lparr> oc_result = v, oc_run = r, oc_replayed = True \<rparr>))"
proof -
  let ?new = "new_run_of d def call (Some key) h k"
  have only: "x = r" if "x \<in> set (os_runs s)" "run_index x = run_index r" for x
  proof -
    have "run_id x = run_id r"
      using table that r index unique_byD[of run_index run_id "os_runs s" x r] by (simp add: runs_table_def)
    with table that r show ?thesis by (auto simp: runs_table_def intro: distinct_map_inj)
  qed
  have holder: "List.find p (os_runs s) = Some r" if "p r" "\<And>x. p x \<Longrightarrow> run_index x = run_index r" for p
  proof (cases "List.find p (os_runs s)")
    case None
    with that(1) r show ?thesis by (simp add: find_None_iff)
  next
    case (Some x)
    from find_Some_iff[OF Some] have "x = r" using only that(2) by blast
    with Some show ?thesis by simp
  qed
  have "List.find (holds_key ?new) (os_runs s) = Some r"
    by (rule holder) (simp_all add: holds_key_def index index_of_run)
  with ended have create: "createOperationRun ?new (os_runs s) = Inr (os_runs s, None)"
    by (simp add: createOperationRun_def takes_over_def)
  have find: "findOperationRunByIdempotencyKey (dep_instance d) (runActor call) key (os_runs s) = Some r"
    unfolding findOperationRunByIdempotencyKey_def by (rule holder) (simp_all add: index)
  have "s\<lparr>os_runs := os_runs s\<rparr> = s" by (cases s) simp
  with create find ended show ?thesis by (simp add: alone)
qed

lemma run_of_call:
  "prepare_call call d = Inr (def, input, key) \<Longrightarrow>
    runOperation call d s =
      claim_run IDEMPOTENCY_CLAIM_ATTEMPTS 0 d def (frozen_call call input (op_resource def input))
        (op_resource def input) key (hashInput d input) s"
  by (simp add: runOperation_def then_step_def lift_result_def Let_def)

lemma runActor_frozen [simp]: "runActor (frozen_call call input resource) = runActor call"
  by (cases "call_actor call") (simp_all add: runActor_def frozen_call_def)

lemma prepare_changing: "prepare_call call d = Inr (def, input, Some key) \<Longrightarrow> op_effect def = Changing"
  using prepare_key[of call d def input "Some key"] by (cases "op_effect def") auto

lemma ended_run_same:
  "run_operation (ended_run t ending r) = run_operation r" "run_inputHash (ended_run t ending r) = run_inputHash r"
  "run_actor (ended_run t ending r) = run_actor r"
  by (cases ending; simp)+

text \<open>
  C13. A changing call sent again with its idempotency key is answered what it was answered, from the
  record: as long as nothing else ended its run, the answer of the first call (without the details of
  an error, or the notice that an answer too large to keep is not kept) comes back for every call of
  the same actor with the same key, operation and input, and every other use of the key is refused as a
  reused key. Neither starts anything or changes the table or the world, whatever became of the world.
\<close>

theorem sent_again_is_answered_again:
  assumes "reachable no_calls (call_step (dep_instance d)) c" and "cl_runs c = os_runs s"
    and alone: "dep_meanwhile d = (\<lambda>k db. db)"
    and first: "prepare_call call d = Inr (def, input, Some key)" "runOperation call d s = (s1, Inr oc)"
    and fresh: "\<not> oc_replayed oc" and its_own: "run_status (oc_run oc) \<noteq> Run_Running"
    and final: "\<not> runs_again (oc_run oc)"
    and again: "prepare_call call' d = Inr (def', input', Some key)" "ra_kind (runActor call') = ra_kind (runActor call)"
      "ra_id (runActor call') = ra_id (runActor call)"
  shows "runOperation call' d (s1\<lparr>os_world := w\<rparr>) =
    (s1\<lparr>os_world := w\<rparr>,
     if op_name def' = op_name def \<and> hashInput d input' = hashInput d input then
       bind_result (answer_again d (oc_result oc)) (\<lambda>v. Inr \<lparr> oc_result = v, oc_run = oc_run oc, oc_replayed = True \<rparr>)
     else Inl keyReused)"
proof -
  let ?h = "hashInput d input" and ?h' = "hashInput d input'"
  let ?call = "frozen_call call input (op_resource def input)"
  have inv: "calls_inv (dep_instance d) c" using assms(1) by (rule calls.inv_reachable)
  have changing: "op_effect def = Changing" using first(1) by (rule prepare_changing)
  obtain j db run where made: "createOperationRun (new_run_of d def ?call (Some key) ?h j) (os_runs s) = Inr (db, Some run)"
    and run: "executeRun d run def ?call (op_resource def input) (s\<lparr>os_runs := db\<rparr>) = (s1, Inr (oc_result oc, oc_run oc))"
    using claim_fresh[OF alone] first(2) fresh unfolding run_of_call[OF first(1)] by blast
  let ?n = "new_run_of d def ?call (Some key) ?h j" and ?r = "oc_run oc"
  have n: "nr_instance ?n = dep_instance d" "nr_effect ?n = Changing" by (simp_all add: new_run_of_def changing)
  have table: "runs_table db" "\<forall>r \<in> set db. run_instance r = dep_instance d"
    using table_of_creation[OF _ _ _ made] inv assms(2) n by (simp_all add: calls_inv_def)
  have holds: "holds ?n run" using created_row(2)[OF made] by (simp add: new_run_of_def)
  then have row: "its_row d run (os_runs (s\<lparr>os_runs := db\<rparr>))"
    using table created_row(1)[OF made] by (simp add: its_row_def holds_def)
  obtain ending where rec: "recorded d def (run_id run) ending (oc_result oc)"
    and r: "?r = ended_run (end_time d) ending run" and s1: "os_runs s1 = ended d run ending (s\<lparr>os_runs := db\<rparr>)"
    using answers_execute[OF row, of def ?call "op_resource def input"] its_own unfolding run answers_def by auto
  have same: "same_run run ?r" "run_operation ?r = run_operation run" "run_inputHash ?r = run_inputHash run"
      "run_actor ?r = run_actor run"
    by (simp_all only: r same_run_updates ended_run_same)
  have index: "run_index ?r = Some (dep_instance d, ra_kind (runActor call'), ra_id (runActor call'), key)"
    using same_runD(2)[OF same(1)] holds again(2,3) by (simp add: holds_def index_of_run)
  have "runs_table (os_runs s1)" unfolding s1 ended_row[OF row] using table(1) by (simp add: runs_table_update)
  moreover have "?r \<in> set (os_runs s1)"
    unfolding s1 ended_row[OF row] r using row by (auto simp: set_update_where its_row_def)
  ultimately have held: "runOperation call' d (s1\<lparr>os_world := w\<rparr>) = (s1\<lparr>os_world := w\<rparr>,
      bind_result (replay ?r def' (runActor call') ?h') (\<lambda>v. Inr \<lparr> oc_result = v, oc_run = ?r, oc_replayed = True \<rparr>))"
    using held_call[of "s1\<lparr>os_world := w\<rparr>" ?r d "frozen_call call' input' (op_resource def' input')" key "Suc (Suc 0)" 0 def'
        "op_resource def' input'" ?h'] index final alone
    unfolding run_of_call[OF again(1)] IDEMPOTENCY_CLAIM_ATTEMPTS_def numeral_3_eq_3 by simp
  have "sameCall ?r def' (runActor call') ?h' \<longleftrightarrow> op_name def' = op_name def \<and> ?h' = ?h"
    using same(2-4) holds index by (auto simp: sameCall_def holds_def new_run_of_def run_index_def)
  then show ?thesis
    using replay_recorded[OF rec r changing, of def' "runActor call'" ?h'] unfolding held
    by (cases "sameCall ?r def' (runActor call') ?h'") (simp_all add: replay_def Let_def, blast)
qed

lemma note_row: "its_row note_deps note_run [note_run]"
  by (simp add: its_row_def runs_table_def unique_by_def)
    (simp add: note_run_def started_run_def new_run_of_def note_deps_def add_note_def)

lemma note_done:
  "\<exists>s' r. executeRun note_deps note_run add_note note_frozen None (no_notes\<lparr>os_runs := [note_run]\<rparr>) =
    (s', Inr (Res_Done ''run1'' (JNum 1), r)) \<and> run_status r = Run_Done"
proof -
  let ?s = "no_notes\<lparr>os_runs := [note_run]\<rparr>"
  obtain access policy where u: "until_start note_deps note_run add_note note_frozen None ?s =
      (?s, Inr (Goes_Ahead access policy))" using note_decided by blast
  have "run_id note_run = ''run1''" "\<And>i c w. op_execute add_note i c w = ((i, ctx_runId c) # w, Inr (JNum 1))"
    by (simp_all add: note_run_def started_run_def new_run_of_def note_deps_def add_note_def)
  moreover have "run_status r = Run_Done"
    if "record_done note_deps note_run add_note note_frozen None policy (JNum 1) (?s\<lparr>os_world := w\<rparr>) = (s', r)" for w s' r
    using record_done_row[OF _ that] note_row by auto
  ultimately show ?thesis by (auto simp: executeRun_def u in_world_def split: prod.split)
qed

lemma note_recorded:
  "\<exists>s oc. runOperation note_call note_deps no_notes = (s, Inr oc) \<and> oc_result oc = Res_Done ''run1'' (JNum 1) \<and>
    \<not> oc_replayed oc \<and> run_status (oc_run oc) = Run_Done"
proof -
  have new: "createOperationRun (new_run_of note_deps add_note note_frozen (Some ''k1'')
      (hashInput note_deps (JStr ''hi'')) 0) [] = Inr ([note_run], Some note_run)"
    by (simp add: createOperationRun_def note_run_def)
  obtain s' r where "executeRun note_deps note_run add_note note_frozen None (no_notes\<lparr>os_runs := [note_run]\<rparr>) =
      (s', Inr (Res_Done ''run1'' (JNum 1), r))" "run_status r = Run_Done"
    using note_done by blast
  moreover have "op_resource add_note (JStr ''hi'') = None" by (simp add: add_note_def)
  moreover have "os_runs no_notes = []" by (simp add: no_notes_def)
  ultimately show ?thesis
    using new
    by (simp add: runOperation_def then_step_def lift_result_def note_prepared IDEMPOTENCY_CLAIM_ATTEMPTS_def
        numeral_3_eq_3 note_frozen_def)
qed

lemma sent_again_is_answered_again_witness:
  "\<exists>s oc. runOperation note_call note_deps no_notes = (s, Inr oc) \<and>
    snd (runOperation note_call note_deps (s\<lparr>os_world := []\<rparr>)) =
      Inr \<lparr> oc_result = Res_Done ''run1'' (JNum 1), oc_run = oc_run oc, oc_replayed = True \<rparr>"
proof -
  let ?c = "\<lparr> cl_runs = [], cl_before = [], cl_ending = [], cl_log = [] \<rparr>"
  have c: "reachable no_calls (call_step (dep_instance note_deps)) ?c" "cl_runs ?c = os_runs no_notes"
    "dep_meanwhile note_deps = (\<lambda>k db. db)"
    by (auto intro: reachable_start simp: no_calls_def no_notes_def note_deps_def)
  obtain s oc where first: "runOperation note_call note_deps no_notes = (s, Inr oc)"
    and oc: "oc_result oc = Res_Done ''run1'' (JNum 1)" "\<not> oc_replayed oc" "run_status (oc_run oc) = Run_Done"
    using note_recorded by blast
  have kept: "retainedOutput (dep_num note_deps) (JNum 1) \<noteq> None"
    by (simp add: retainedOutput_def number_text_def int_text_def nat_text.simps utf8_length_def digit_char_def
        OPERATION_RUN_OUTPUT_MAX_BYTES_def)
  have "runOperation note_call note_deps (s\<lparr>os_world := []\<rparr>) = (s\<lparr>os_world := []\<rparr>,
      bind_result (answer_again note_deps (oc_result oc)) (\<lambda>v. Inr \<lparr> oc_result = v, oc_run = oc_run oc, oc_replayed = True \<rparr>))"
    using sent_again_is_answered_again[OF c note_prepared first oc(2) _ _ note_prepared, of "[]"] oc(3)
    by (simp add: runs_again_def)
  with first oc(1) kept show ?thesis by (auto simp: answer_again_def)
qed

end
