(* ===== verification/Operation_Promises.thy ===== *)
theory Operation_Promises imports Operation_Replay begin

text \<open>
  What the path of a call promises: a policy that is the strictest of everything that applies, an
  implementation that starts only with the right and the policy behind it and at most once per key,
  and records that answer the same call again.
\<close>

section \<open>Policies\<close>

text \<open>What is asked of one target: the strictest setting that matches it, or the base.\<close>

definition target_demand :: "policy_input \<Rightarrow> policy_target \<Rightarrow> policy_value" where
  "target_demand p t =
     (let vs = set [set_value s. s \<leftarrow> pol_settings p,
          matches s (pol_name p) t \<and> policy_applies (pol_effect p) (set_value s)]
      in if vs = {} then fst (policy_base p) else Max vs)"

definition guardrail_demand :: "policy_input \<Rightarrow> policy_value set" where
  "guardrail_demand p =
     (case pol_guardrail p of
        Some Outcome_Block \<Rightarrow> {Policy_Deny}
      | Some Outcome_Require_Approval \<Rightarrow> {if pol_effect p = Changing then Policy_Approval else Policy_Deny}
      | _ \<Rightarrow> {})"

definition policy_demand :: "policy_input \<Rightarrow> policy_value" where
  "policy_demand p = Max (target_demand p ` set (policy_targets p) \<union> guardrail_demand p)"

lemma set_central_values:
  "set (central_values p t) =
    set [set_value s. s \<leftarrow> pol_settings p,
      matches s (pol_name p) t \<and> policy_applies (pol_effect p) (set_value s)]"
  by (auto simp: central_values_def)

lemma central_values_apply: "v \<in> set (central_values p t) \<Longrightarrow> policy_applies (pol_effect p) v"
  by (simp add: central_values_def)

lemma target_demand_set:
  "target_demand p t =
    (if set (central_values p t) = {} then fst (policy_base p) else Max (set (central_values p t)))"
  unfolding set_central_values target_demand_def Let_def ..

lemma target_value_demand: "fst (target_value p t) = target_demand p t"
proof (cases "central_values p t")
  case Nil
  then have "set (central_values p t) = {}" by simp
  with Nil show ?thesis unfolding set_central_values target_demand_def target_value_def by simp
next
  case (Cons v vs)
  then have "set (central_values p t) = insert v (set vs)" by simp
  with Cons show ?thesis
    unfolding set_central_values target_demand_def target_value_def
    by (simp add: foldl_stricter del: Max_insert)
qed

lemma foldl_stricter_target: "fst (foldl stricter_target v vs) = Max (insert (fst v) (fst ` set vs))"
proof -
  have "fst (foldl stricter_target v vs) = foldl stricter (fst v) (map fst vs)"
    by (induction vs arbitrary: v) (auto simp: stricter_target_def stricter_def)
  then show ?thesis by (simp add: foldl_stricter del: Max_insert)
qed

lemma policy_targets_nonempty: "policy_targets p \<noteq> []"
  by (simp add: policy_targets_def split: option.split list.split)

lemma settled_policy_demand: "fst (settled_policy p) = Max (target_demand p ` set (policy_targets p))"
proof -
  obtain t ts where t: "policy_targets p = t # ts" using policy_targets_nonempty by (cases "policy_targets p") auto
  show ?thesis
    by (simp add: settled_policy_def t foldl_stricter_target target_value_demand image_image del: Max_insert)
qed

lemma target_demand_applies: "policy_applies (pol_effect p) (target_demand p t)"
proof (cases "central_values p t")
  case Nil
  then have "target_demand p t = fst (policy_base p)"
    using target_value_demand[of p t] by (simp add: target_value_def)
  then show ?thesis by (auto simp: policy_base_def policy_applies_def split: option.split)
next
  case (Cons v vs)
  then have ne: "set (central_values p t) \<noteq> {}" "finite (set (central_values p t))" by simp_all
  have "target_demand p t = Max (set (central_values p t))"
    using ne(1) by (simp only: target_demand_set if_False)
  then have "target_demand p t \<in> set (central_values p t)" using Max_in[OF ne(2,1)] by simp
  then show ?thesis by (rule central_values_apply)
qed

lemma demand_without_block:
  assumes "pol_guardrail p \<noteq> Some Outcome_Block"
  shows "fst (guarded_policy p) = policy_demand p"
proof -
  let ?ts = "target_demand p ` set (policy_targets p)"
  have ne: "finite ?ts" "?ts \<noteq> {}" using policy_targets_nonempty[of p] by auto
  show ?thesis
  proof (cases "pol_guardrail p = Some Outcome_Require_Approval")
    case True
    let ?a = "if pol_effect p = Changing then Policy_Approval else Policy_Deny"
    have "fst (guarded_policy p) = max (Max ?ts) ?a"
      by (simp add: guarded_policy_def Let_def True settled_policy_demand stricter_max max_def)
    also have "\<dots> = Max (?ts \<union> {?a})" using ne by (subst Max_Un) simp_all
    finally show ?thesis using True by (simp add: policy_demand_def guardrail_demand_def)
  next
    case False
    with assms have "guardrail_demand p = {}"
      by (auto simp: guardrail_demand_def split: option.splits event_outcome.splits)
    with False show ?thesis
      by (simp add: guarded_policy_def Let_def settled_policy_demand policy_demand_def)
  qed
qed

lemma demand_applies: "pol_effect p = Reading \<Longrightarrow> policy_demand p \<in> {Policy_Allow, Policy_Deny}"
proof -
  assume reading: "pol_effect p = Reading"
  let ?vs = "target_demand p ` set (policy_targets p) \<union> guardrail_demand p"
  have "finite ?vs" by (simp add: guardrail_demand_def split: option.split event_outcome.split)
  moreover have "?vs \<noteq> {}" using policy_targets_nonempty[of p] by auto
  ultimately have "policy_demand p \<in> ?vs" unfolding policy_demand_def by (rule Max_in)
  moreover have "?vs \<subseteq> {Policy_Allow, Policy_Deny}"
    using target_demand_applies[of p] reading
    by (auto simp: guardrail_demand_def policy_applies_def split: option.splits event_outcome.splits)
  ultimately show ?thesis by blast
qed

lemma demand_block: "pol_guardrail p = Some Outcome_Block \<Longrightarrow> policy_demand p = Policy_Deny"
proof -
  assume "pol_guardrail p = Some Outcome_Block"
  then have "policy_demand p = Max (target_demand p ` set (policy_targets p) \<union> {Policy_Deny})"
    by (simp add: policy_demand_def guardrail_demand_def)
  also have "\<dots> = Policy_Deny" by (rule Max_eqI) auto
  finally show ?thesis .
qed

lemma without_guardrail:
  "policy_base (p\<lparr>pol_guardrail := g\<rparr>) = policy_base p"
  "central_values (p\<lparr>pol_guardrail := g\<rparr>) t = central_values p t"
  "policy_targets (p\<lparr>pol_guardrail := g\<rparr>) = policy_targets p"
proof -
  show "policy_base (p\<lparr>pol_guardrail := g\<rparr>) = policy_base p"
    by (cases p) (simp only: policy_base_def policy_input.simps)
  show "central_values (p\<lparr>pol_guardrail := g\<rparr>) t = central_values p t"
    by (cases p) (simp only: central_values_def policy_input.simps)
  show "policy_targets (p\<lparr>pol_guardrail := g\<rparr>) = policy_targets p"
    by (cases p) (simp only: policy_targets_def policy_input.simps)
qed

text \<open>
  The policy of a call is the strictest of what applies: of the settings that match a target the
  strictest, else the operation's default; of all targets the strictest, and of the guardrail. Just
  that decides: allowed calls run, a confirmation is the caller's own call or refused where nobody
  can wait, an approval waits, a denial refuses. A read never waits, and no guardrail ever loosens.
\<close>

lemma policy_is_the_strictest:
  shows "res_next (resolvePolicy p) =
      (case policy_demand p of
         Policy_Allow \<Rightarrow> Next_Run
       | Policy_Confirm \<Rightarrow>
           if pol_callerCanConfirm p then Next_Run_Direct
           else if pol_canPause p then Await_Confirmation else Next_Refuse
       | Policy_Approval \<Rightarrow>
           if pol_callerCanConfirm p \<or> pol_canPause p then Await_Approval else Next_Refuse
       | Policy_Deny \<Rightarrow> Next_Refuse) \<and>
    (pol_effect p = Reading \<longrightarrow> res_next (resolvePolicy p) \<in> {Next_Run, Next_Refuse}) \<and>
    policy_demand (p\<lparr>pol_guardrail := None\<rparr>) \<le> policy_demand p \<and>
    (\<forall>t \<in> set (policy_targets p). target_demand p t \<le> policy_demand p)"
proof -
  have nxt: "res_next (resolvePolicy p) =
      (case policy_demand p of
         Policy_Allow \<Rightarrow> Next_Run
       | Policy_Confirm \<Rightarrow>
           if pol_callerCanConfirm p then Next_Run_Direct
           else if pol_canPause p then Await_Confirmation else Next_Refuse
       | Policy_Approval \<Rightarrow>
           if pol_callerCanConfirm p \<or> pol_canPause p then Await_Approval else Next_Refuse
       | Policy_Deny \<Rightarrow> Next_Refuse)"
  proof (cases "pol_guardrail p = Some Outcome_Block")
    case True
    then show ?thesis by (simp add: resolvePolicy_def demand_block)
  next
    case False
    then show ?thesis
      using demand_without_block[OF False]
      by (cases "guarded_policy p") (simp add: resolvePolicy_def split: policy_value.split)
  qed
  let ?vs = "target_demand p ` set (policy_targets p) \<union> guardrail_demand p"
  have fin: "finite ?vs" by (simp add: guardrail_demand_def split: option.split event_outcome.split)
  have same: "target_demand (p\<lparr>pol_guardrail := None\<rparr>) = target_demand p"
    "policy_targets (p\<lparr>pol_guardrail := None\<rparr>) = policy_targets p"
    by (simp_all add: without_guardrail fun_eq_iff target_demand_set)
  have "policy_demand (p\<lparr>pol_guardrail := None\<rparr>) = Max (target_demand p ` set (policy_targets p))"
    by (simp add: policy_demand_def same guardrail_demand_def)
  also have "\<dots> \<le> policy_demand p"
    unfolding policy_demand_def using fin policy_targets_nonempty[of p] by (intro Max_mono) auto
  finally have "policy_demand (p\<lparr>pol_guardrail := None\<rparr>) \<le> policy_demand p" .
  moreover have "\<forall>t \<in> set (policy_targets p). target_demand p t \<le> policy_demand p"
    unfolding policy_demand_def using fin by (auto intro: Max_ge)
  ultimately show ?thesis
    unfolding nxt using demand_applies[of p] by (auto split: policy_value.split)
qed

definition guarded_publish :: policy_input where
  "guarded_publish =
     \<lparr> pol_name = ''page.publish'', pol_effect = Changing, pol_declared = Some Policy_Confirm,
       pol_defaults = (\<lambda>_. Policy_Allow),
       pol_settings =
         [\<lparr> set_operation = ''page.*'', set_value = Policy_Allow, set_workspaceId = None,
            set_assetKind = None, set_namespace = None \<rparr>],
       pol_targets = None, pol_guardrail = Some Outcome_Require_Approval, pol_callerCanConfirm = True,
       pol_canPause = False \<rparr>"

lemma policy_is_the_strictest_witness:
  "policy_demand guarded_publish = Policy_Approval \<and>
    res_next (resolvePolicy guarded_publish) = Await_Approval"
proof -
  have d: "policy_demand guarded_publish = Policy_Approval" by code_simp
  with policy_is_the_strictest[of guarded_publish] show ?thesis by (simp add: guarded_publish_def)
qed

section \<open>At most once\<close>

text \<open>How often an implementation started under one key.\<close>

definition executions :: "calls \<Rightarrow> string \<times> holder_kind \<times> string \<times> string \<Rightarrow> nat" where
  "executions s key =
     count_where (\<lambda>i. list_ex (\<lambda>r. run_id r = i \<and> run_index r = Some key) (cl_runs s)) (cl_log s)"

lemma count_where_le_count_list:
  assumes "\<And>x. x \<in> set xs \<Longrightarrow> p x \<Longrightarrow> x = i"
  shows "count_where p xs \<le> count_list xs i"
proof -
  have "count_where p xs \<le> count_where (\<lambda>x. x = i) xs" using assms by (rule count_where_mono)
  also have "\<dots> = count_list xs i" by (induction xs) simp_all
  finally show ?thesis .
qed

lemma run_starts_once:
  assumes "calls_inv inst s" "r \<in> set (cl_runs s)" "run_effect r = Changing"
  shows "count_list (cl_log s) (run_id r) \<le> 1" "runs_again r \<Longrightarrow> run_id r \<notin> set (cl_log s)"
  using assms by (auto simp: calls_inv_def run_ok_def)

lemma executions_le:
  assumes inv: "calls_inv inst s"
  shows "executions s key \<le> 1"
proof (cases "\<exists>r \<in> set (cl_runs s). run_index r = Some key")
  have unique: "unique_by run_index run_id (cl_runs s)" using inv by (simp add: calls_inv_def runs_table_def)
  case True
  then obtain r where r: "r \<in> set (cl_runs s)" "run_index r = Some key" by blast
  have one: "run_id x = run_id r" if "x \<in> set (cl_runs s)" "run_index x = Some key" for x
    using unique_byD[OF unique that(1) r(1) that(2) r(2)] .
  have "run_key r \<noteq> None" using r(2) by (auto simp: run_index_def)
  then have "run_effect r = Changing" using inv r(1) by (simp add: calls_inv_def runs_table_def)
  then have "count_list (cl_log s) (run_id r) \<le> 1" by (rule run_starts_once(1)[OF inv r(1)])
  moreover have "executions s key \<le> count_list (cl_log s) (run_id r)"
    unfolding executions_def by (rule count_where_le_count_list) (auto simp: list_ex_iff one)
  ultimately show ?thesis by (rule le_trans[rotated])
next
  case False
  then have "executions s key = 0"
    by (simp add: executions_def count_where_def list_ex_iff)
  then show ?thesis by simp
qed

text \<open>
  C11. Under one idempotency key an implementation starts at most once, in whatever order calls, their
  ends, expiries and interruptions of all processes come: the changing call of a run never starts twice,
  and a run that would be tried again has never started its implementation.
\<close>

theorem at_most_once_per_key:
  assumes "reachable no_calls (call_step inst) s"
  shows "executions s key \<le> 1 \<and>
    (\<forall>r \<in> set (cl_runs s). run_effect r = Changing \<longrightarrow>
      count_list (cl_log s) (run_id r) \<le> 1 \<and> (runs_again r \<longrightarrow> run_id r \<notin> set (cl_log s)))"
proof -
  have inv: "calls_inv inst s" using assms by (rule calls.inv_reachable)
  show ?thesis using executions_le[OF inv] run_starts_once[OF inv] by blast
qed

definition publish_run :: new_run where
  "publish_run =
     \<lparr> nr_id = ''r1'', nr_instance = ''ci'', nr_operation = ''page.publish'', nr_effect = Changing,
       nr_actor = \<lparr> ra_kind = User_Holder, ra_id = ''u1'', ra_label = ''Ada'', ra_delegated = None \<rparr>,
       nr_ownerUserId = None, nr_workspaceId = None, nr_origin = User_Origin, nr_conversationId = None,
       nr_key = Some ''k1'', nr_inputHash = ''h1'', nr_correlationId = ''c1'', nr_startedAt = 5 \<rparr>"

definition first_call :: calls where
  "first_call =
     \<lparr> cl_runs = [started_run publish_run], cl_before = [], cl_ending = [], cl_log = [''r1''] \<rparr>"

lemma first_call_reachable: "reachable no_calls (call_step ''ci'') first_call"
proof -
  let ?s = "\<lparr> cl_runs = [], cl_before = [], cl_ending = [], cl_log = [] \<rparr>"
  let ?b = "\<lparr> cl_runs = [started_run publish_run], cl_before = [''r1''], cl_ending = [], cl_log = [] \<rparr>"
  have "call_step ''ci'' ?s (?s\<lparr>cl_runs := [started_run publish_run],
      cl_before := run_id (started_run publish_run) # cl_before ?s\<rparr>)"
    by (rule call_begins[where n = publish_run]) (simp_all add: createOperationRun_def publish_run_def)
  then have begun: "call_step ''ci'' ?s ?b" by (simp add: started_run_def publish_run_def)
  have "call_step ''ci'' ?b (?b\<lparr>cl_before := remove1 ''r1'' (cl_before ?b), cl_log := ''r1'' # cl_log ?b\<rparr>)"
    by (rule call_starts) simp
  then have started: "call_step ''ci'' ?b first_call" by (simp add: first_call_def)
  have "reachable no_calls (call_step ''ci'') ?s" by (rule reachable_start) (simp add: no_calls_def)
  then have "reachable no_calls (call_step ''ci'') ?b" using begun by (rule reachable_move)
  then show ?thesis using started by (rule reachable_move)
qed

lemma at_most_once_per_key_witness:
  "executions first_call (''ci'', User_Holder, ''u1'', ''k1'') \<le> 1 \<and> cl_log first_call = [''r1'']"
  using at_most_once_per_key[OF first_call_reachable] by (simp add: first_call_def)

section \<open>Asked first\<close>

abbreviation with_code :: "'w operation_definition \<Rightarrow> (json \<Rightarrow> execution_context \<Rightarrow> 'w \<Rightarrow> 'w \<times> (js_error, json) result) \<Rightarrow>
    'w operation_definition" where
  "with_code def f \<equiv> def\<lparr>op_execute := f\<rparr>"

lemma emit_ignores_code: "emit d run (with_code def f) call resource = emit d run def call resource"
  by (intro ext) (simp add: emit_def cong: option.case_cong)

lemma steps_ignore_code:
  "deny d run (with_code def f) call resource = deny d run def call resource"
  "fail d run (with_code def f) call resource = fail d run def call resource"
  "check_right (with_code def f) = check_right def"
  "call_targets (with_code def f) = call_targets def"
  "policy_input_of d (with_code def f) = policy_input_of d def"
  "right_payload (with_code def f) = right_payload def"
  by (intro ext, simp add: emit_ignores_code deny_def fail_def check_right_def call_targets_def policy_input_of_def
      right_payload_def cong: option.case_cong operation_authorization.case_cong)+

lemma caught_ignores_code: "caught d run (with_code def f) call resource = caught d run def call resource"
  by (intro ext) (simp add: caught_def steps_ignore_code cong: option.case_cong)

lemma until_start_ignores_code: "until_start d run (with_code def f) call resource = until_start d run def call resource"
proof -
  have "guardrail_outcome d run (with_code def f) call resource = guardrail_outcome d run def call resource"
    by (simp add: guardrail_outcome_def emit_ignores_code cong: option.case_cong)
  then have "ask_policy d run (with_code def f) call resource = ask_policy d run def call resource"
    by (simp add: ask_policy_def policy_verdict_def steps_ignore_code cong: option.case_cong if_cong policy_next.case_cong)
  then have "decide_call d run (with_code def f) call resource = decide_call d run def call resource"
    by (simp add: decide_call_def after_right_def steps_ignore_code emit_ignores_code cong: operation_authorization.case_cong)
  then show ?thesis by (simp add: until_start_def steps_ignore_code emit_ignores_code cong: verdict.case_cong)
qed

text \<open>
  What stands behind a start, read in the states the call really passes: the rights as loaded, the
  settings and targets after the right was checked, and the replies the guardrails really gave.
\<close>

definition guardrail_answers ::
    "'w operation_deps \<Rightarrow> operation_run \<Rightarrow> 'w operation_definition \<Rightarrow> operation_call \<Rightarrow> operation_resource option \<Rightarrow>
      'w op_state \<Rightarrow> event_outcome list \<Rightarrow> bool" where
  "guardrail_answers d run def call resource s replies \<longleftrightarrow>
     (case emit d run def call resource ''operation.before_call'' Phase_Before [] s of
        (s1, r) \<Rightarrow> \<exists>first. r = Inr first \<and>
          (case op_before def of
             None \<Rightarrow> replies = [first]
           | Some own \<Rightarrow> \<exists>second. snd (emit d run def call resource own Phase_Before [] s1) = Inr second \<and>
               replies = [first, second]))"

definition was_asked ::
    "'w operation_deps \<Rightarrow> operation_run \<Rightarrow> 'w operation_definition \<Rightarrow> operation_call \<Rightarrow> operation_resource option \<Rightarrow>
      'w op_state \<Rightarrow> actor_access \<Rightarrow> policy_resolution \<Rightarrow> bool" where
  "was_asked d run def call resource s access policy \<longleftrightarrow>
     snd (load_access d call s) = Inr access \<and> snd (check_right def call access resource s) = Inr Right_Allowed \<and>
     (let s1 = fst (emit d run def call resource ''operation.authorization_checked'' Phase_After
            (right_payload def Right_Allowed) s)
      in \<exists>central targets replies.
        dep_central d (os_world s1) = Inr central \<and> snd (call_targets def call resource s1) = Inr targets \<and>
        guardrail_answers d run def call resource s1 replies \<and>
        set replies \<subseteq> {Outcome_Allow, Outcome_Warn} \<and>
        (policy_demand (policy_input_of d def call central targets None) = Policy_Allow \<or>
         policy_demand (policy_input_of d def call central targets None) = Policy_Confirm \<and>
         callerCanConfirm (call_origin call)) \<and>
        policy = resolvePolicy (policy_input_of d def call central targets (Some (strictestOutcome replies))))"

lemma strictestOutcome_lenient:
  assumes "strictestOutcome replies \<in> {Outcome_Allow, Outcome_Warn}"
  shows "set replies \<subseteq> {Outcome_Allow, Outcome_Warn}"
proof -
  define rank where "rank = (\<lambda>o'. case o' of Outcome_Allow \<Rightarrow> 0 | Outcome_Warn \<Rightarrow> 1
    | Outcome_Require_Approval \<Rightarrow> 2 | Outcome_Block \<Rightarrow> (3 :: nat))"
  define pick where "pick = (\<lambda>l r. if rank r \<le> rank l then l else r)"
  have up: "rank l \<le> rank (foldl pick l xs) \<and> (\<forall>x \<in> set xs. rank x \<le> rank (foldl pick l xs))" for l xs
  proof (induction xs arbitrary: l)
    case (Cons x xs)
    have "rank l \<le> rank (pick l x)" "rank x \<le> rank (pick l x)" by (simp_all add: pick_def)
    with Cons.IH[of "pick l x"] show ?case by fastforce
  qed simp
  have "strictestOutcome replies = foldl pick Outcome_Allow replies"
    by (simp add: strictestOutcome_def Let_def pick_def rank_def)
  with assms up[of Outcome_Allow replies] have "\<forall>x \<in> set replies. rank x \<le> 1"
    by (fastforce simp: rank_def)
  moreover have "rank x \<le> 1 \<Longrightarrow> x \<in> {Outcome_Allow, Outcome_Warn}" for x
    by (cases x) (simp_all add: rank_def)
  ultimately show ?thesis by blast
qed

lemma guardrail_outcome_answers:
  assumes "snd (guardrail_outcome d run def call resource s) = Inr outcome"
  shows "\<exists>replies. guardrail_answers d run def call resource s replies \<and> outcome = strictestOutcome replies"
proof -
  obtain s1 r where emitted: "emit d run def call resource ''operation.before_call'' Phase_Before [] s = (s1, r)" by force
  show ?thesis
    using assms
    by (cases "op_before def") (auto simp: guardrail_outcome_def then_step_Inr guardrail_answers_def emitted)
qed

text \<open>A resolution that lets the call run: what it means for the demand and for the guardrail.\<close>

lemma running_policy:
  assumes "res_next (resolvePolicy p) \<in> {Next_Run, Next_Run_Direct}"
  shows "policy_demand p = Policy_Allow \<or> policy_demand p = Policy_Confirm \<and> pol_callerCanConfirm p"
    and "pol_guardrail p = Some outcome \<Longrightarrow> outcome \<in> {Outcome_Allow, Outcome_Warn}"
proof -
  show demand: "policy_demand p = Policy_Allow \<or> policy_demand p = Policy_Confirm \<and> pol_callerCanConfirm p"
    using assms policy_is_the_strictest[of p] by (cases "policy_demand p") (auto split: if_splits)
  have fin: "finite (target_demand p ` set (policy_targets p) \<union> guardrail_demand p)"
    by (simp add: guardrail_demand_def split: option.split event_outcome.split)
  have le: "v \<le> policy_demand p" if "v \<in> guardrail_demand p" for v
    unfolding policy_demand_def using fin that by (intro Max_ge) auto
  have strict: "\<not> Policy_Deny \<le> policy_demand p" "\<not> Policy_Approval \<le> policy_demand p"
    using demand by (auto simp: less_eq_policy_value_def)
  show "outcome \<in> {Outcome_Allow, Outcome_Warn}" if "pol_guardrail p = Some outcome"
    using that le strict by (cases outcome) (auto simp: guardrail_demand_def split: if_splits)
qed

lemma asked_policy:
  assumes "snd (ask_policy d run def call resource s) = Inr (Verdict_Run policy)"
  shows "\<exists>central targets replies.
        dep_central d (os_world s) = Inr central \<and> snd (call_targets def call resource s) = Inr targets \<and>
        guardrail_answers d run def call resource s replies \<and>
        set replies \<subseteq> {Outcome_Allow, Outcome_Warn} \<and>
        (policy_demand (policy_input_of d def call central targets None) = Policy_Allow \<or>
         policy_demand (policy_input_of d def call central targets None) = Policy_Confirm \<and>
         callerCanConfirm (call_origin call)) \<and>
        policy = resolvePolicy (policy_input_of d def call central targets (Some (strictestOutcome replies)))"
proof -
  obtain central targets outcome where central: "dep_central d (os_world s) = Inr central"
    and targets: "snd (call_targets def call resource s) = Inr targets"
    and first: "res_next (resolvePolicy (policy_input_of d def call central targets None)) \<noteq> Next_Refuse"
    and outcome: "snd (guardrail_outcome d run def call resource s) = Inr outcome"
    and last: "policy_verdict d def (resolvePolicy (policy_input_of d def call central targets (Some outcome))) =
      Inr (Verdict_Run policy)"
    using assms by (auto simp: ask_policy_def then_step_Inr call_targets_def split: if_splits)
  obtain replies where replies: "guardrail_answers d run def call resource s replies" "outcome = strictestOutcome replies"
    using guardrail_outcome_answers[OF outcome] by blast
  define p where "p = policy_input_of d def call central targets (Some outcome)"
  have run: "policy = resolvePolicy p" "res_next (resolvePolicy p) \<in> {Next_Run, Next_Run_Direct}"
    using last unfolding p_def[symmetric] policy_verdict_def
    by (cases "res_next (resolvePolicy p)"; simp split: if_splits)+
  have guard: "pol_guardrail p = Some outcome" "pol_callerCanConfirm p = callerCanConfirm (call_origin call)"
    "p\<lparr>pol_guardrail := None\<rparr> = policy_input_of d def call central targets None"
    by (simp_all add: p_def policy_input_of_def)
  have less: "policy_demand (policy_input_of d def call central targets None) \<le> policy_demand p"
    using policy_is_the_strictest[of p] unfolding guard(3) by blast
  have "policy_demand (policy_input_of d def call central targets None) = Policy_Allow \<or>
      policy_demand (policy_input_of d def call central targets None) = Policy_Confirm \<and>
      callerCanConfirm (call_origin call)"
    using running_policy(1)[OF run(2)] less unfolding guard(2)
    by (cases "policy_demand (policy_input_of d def call central targets None)") (auto simp: less_eq_policy_value_def)
  moreover have "set replies \<subseteq> {Outcome_Allow, Outcome_Warn}"
    using running_policy(2)[OF run(2) guard(1)] unfolding replies(2) by (rule strictestOutcome_lenient)
  ultimately show ?thesis using central targets replies run(1) unfolding p_def by blast
qed

lemma start_was_asked:
  assumes "snd (until_start d run def call resource s) = Inr (Goes_Ahead access policy)"
  shows "was_asked d run def call resource s access policy"
proof -
  obtain access' v where dc: "snd (decide_call d run def call resource s) = Inr (access', v)"
    and rest: "snd ((case v of
         Verdict_Deny denial \<Rightarrow>
           then_step (deny d run def call resource denial) (\<lambda>(result, r). lift_result (Inr (Ended_Before result r)))
       | Verdict_Await \<Rightarrow>
           then_step (await_approval d run call resource) (\<lambda>(result, r). lift_result (Inr (Ended_Before result r)))
       | Verdict_Run policy \<Rightarrow>
           then_step (emit d run def call resource ''operation.started'' Phase_After [(''status'', JStr ''success'')])
             (\<lambda>_. lift_result (Inr (Goes_Ahead access' policy)))) (fst (decide_call d run def call resource s))) =
      Inr (Goes_Ahead access policy)"
    using assms unfolding until_start_def then_step_Inr[of "decide_call d run def call resource"] by auto
  from rest have v: "v = Verdict_Run policy" "access' = access"
    by (cases v; auto simp: then_step_Inr)+
  have loads: "fst (load_access d call s) = s" "fst (check_right def call x resource s) = s" for x
    by (simp_all add: load_access_def check_right_def)
  from dc obtain x right where right: "snd (load_access d call s) = Inr x"
      "snd (check_right def call x resource s) = Inr right"
    and verdict: "snd (after_right d run def call resource x right (fst (emit d run def call resource
        ''operation.authorization_checked'' Phase_After (right_payload def right) s))) = Inr (access, Verdict_Run policy)"
    unfolding decide_call_def v by (simp add: then_step_Inr loads) blast
  from verdict have allowed: "x = access" "right = Right_Allowed"
      "snd (ask_policy d run def call resource (fst (emit d run def call resource
        ''operation.authorization_checked'' Phase_After (right_payload def right) s))) = Inr (Verdict_Run policy)"
    by (cases right; auto simp: after_right_def then_step_Inr)+
  with right asked_policy[OF allowed(3)] show ?thesis unfolding was_asked_def Let_def by simp
qed

text \<open>
  C14. No implementation runs unasked. Where a call reaches its implementation, the actor's rights were
  loaded and the operation's right allowed; then, in the state after that check was announced, the
  settings and targets were read, and the strictest of what they demand is to allow, or a confirmation
  that the caller's own call gives; and each guardrail was asked, in turn and in the state the one
  before left, and answered with allow or warn: one that blocks, asks for an approval or fails stops
  the call. Where a call does not reach its implementation it is the same for every implementation:
  its outcome, its record and the world owe nothing to it.
\<close>

theorem nothing_runs_unasked:
  "if starts d run def call resource s
   then \<exists>access policy. was_asked d run def call resource s access policy
   else executeRun d run (def\<lparr>op_execute := f\<rparr>) call resource s = executeRun d run def call resource s"
proof (cases "starts d run def call resource s")
  case True
  then obtain access policy where "snd (until_start d run def call resource s) = Inr (Goes_Ahead access policy)"
    by (auto simp: starts_def split: sum.splits before_start.splits)
  then have "was_asked d run def call resource s access policy" by (rule start_was_asked)
  with True show ?thesis by (simp only: if_True) blast
next
  case False
  obtain s1 u where u: "until_start d run def call resource s = (s1, u)" by force
  have "executeRun d run (def\<lparr>op_execute := f\<rparr>) call resource s = executeRun d run def call resource s"
  proof (cases u)
    case (Inl e)
    then show ?thesis using u by (simp add: executeRun_def until_start_ignores_code caught_ignores_code)
  next
    case (Inr b)
    with False u obtain v r where "b = Ended_Before v r" by (cases b) (auto simp: starts_def)
    with u Inr show ?thesis by (simp add: executeRun_def until_start_ignores_code)
  qed
  with False show ?thesis by simp
qed

end
