(* ===== verification/Workspace_Paths.thy ===== *)
theory Workspace_Paths imports Errors begin

text \<open>
  Paths in an execution workspace (\<open>packages/tool-execution/src/workspace-paths.ts\<close>), with what they use
  of the path module of the standard library: \<open>posix.normalize\<close> and \<open>resolve\<close> on a POSIX system.
\<close>

section \<open>The path module\<close>

text \<open>
  \<open>normalizeString\<close>: empty and \<open>.\<close> segments go, \<open>..\<close> takes back the segment before it, and stays
  where there is none and the path may leave its start. The segments so far are in reverse.
\<close>

fun push_segment :: "bool \<Rightarrow> string list \<Rightarrow> string \<Rightarrow> string list" where
  "push_segment up acc s =
     (if s = [] \<or> s = ''.'' then acc
      else if s = ''..'' then
        (case acc of
           [] \<Rightarrow> (if up then [''..''] else [])
         | t # ts \<Rightarrow> (if t = ''..'' then (if up then ''..'' # acc else acc) else ts))
      else s # acc)"

definition norm_segments :: "bool \<Rightarrow> string \<Rightarrow> string list" where
  "norm_segments up p = rev (foldl (push_segment up) [] (split_on CHR ''/'' p))"

definition posix_normalize :: "string \<Rightarrow> string" where
  "posix_normalize p =
     (if p = [] then ''.''
      else
        (let absolute = starts_with p ''/'';
             trailing = ends_with p ''/'';
             text = join_with ''/'' (norm_segments (\<not> absolute) p)
         in if text = [] then (if absolute then ''/'' else if trailing then ''./'' else ''.'')
            else (if absolute then ''/'' else []) @ text @ (if trailing then ''/'' else [])))"

text \<open>\<open>resolve\<close>: the right-most absolute part counts, from the working directory on.\<close>

definition join_part :: "string \<Rightarrow> string \<Rightarrow> string" where
  "join_part base p = (if p = [] then base else if starts_with p ''/'' then p else base @ ''/'' @ p)"

definition path_resolve :: "string \<Rightarrow> string list \<Rightarrow> string" where
  "path_resolve cwd parts = ''/'' @ join_with ''/'' (norm_segments False (foldl join_part cwd parts))"

section \<open>Workspace paths\<close>

record path_failure =
  pf_message :: string
  pf_details :: "json option"

definition path_failed :: "string \<Rightarrow> json option \<Rightarrow> (path_failure, 'a) result" where
  "path_failed message details = Inl \<lparr> pf_message = message, pf_details = details \<rparr>"

definition named_path :: "string \<Rightarrow> json option" where
  "named_path value = Some (JObj [(''path'', JStr value)])"

definition has_drive :: "string \<Rightarrow> bool" where
  "has_drive s =
     (case s of
        c # d # _ \<Rightarrow>
          (let n = of_char c :: nat in (65 \<le> n \<and> n \<le> 90 \<or> 97 \<le> n \<and> n \<le> 122) \<and> d = CHR '':'')
      | _ \<Rightarrow> False)"

definition workspace_relative :: "string \<Rightarrow> string" where
  "workspace_relative value =
     (let trimmedInput = trim value in
      if trimmedInput = ''/workspace'' then ''.''
      else if starts_with trimmedInput ''/workspace/'' then drop (length ''/workspace/'') trimmedInput
      else trimmedInput)"

definition normalizeWorkspacePath :: "nat \<Rightarrow> string \<Rightarrow> (path_failure, string) result" where
  "normalizeWorkspacePath maxPathLength value =
     (let trimmed = workspace_relative value in
      if trimmed = [] then path_failed ''Workspace path cannot be blank'' None
      else if length trimmed > maxPathLength then
        path_failed ''Workspace path is too long''
          (Some (JObj [(''maxPathLength'', JNum (of_nat maxPathLength))]))
      else if CHR 0x00 \<in> set trimmed then path_failed ''Workspace path cannot contain NUL bytes'' None
      else if starts_with trimmed ''/'' \<or> starts_with trimmed [CHR 0x5C] \<or> has_drive trimmed then
        path_failed ''Workspace path must be relative'' (named_path value)
      else if CHR 0x5C \<in> set trimmed then
        path_failed ''Workspace path must use forward slashes'' (named_path value)
      else
        (let normalized = posix_normalize trimmed in
         if normalized = ''..'' \<or> starts_with normalized ''../'' then
           path_failed ''Workspace path cannot traverse outside the workspace'' (named_path value)
         else Inr normalized))"

definition normalizeWorkspaceDirectory :: "nat \<Rightarrow> string \<Rightarrow> (path_failure, string) result" where
  "normalizeWorkspaceDirectory maxPathLength value = normalizeWorkspacePath maxPathLength value"

definition normalizeWorkspaceFilePath :: "nat \<Rightarrow> string \<Rightarrow> (path_failure, string) result" where
  "normalizeWorkspaceFilePath maxPathLength value =
     bind_result (normalizeWorkspacePath maxPathLength value) (\<lambda>normalized.
       if normalized = ''.'' then path_failed ''Workspace file path must name a file'' None
       else if ends_with value ''/'' then
         path_failed ''Workspace file path must not end with a slash'' (named_path value)
       else Inr normalized)"

definition resolveWorkspaceFilesystemPath ::
    "string \<Rightarrow> nat \<Rightarrow> string \<Rightarrow> string \<Rightarrow> (path_failure, string) result" where
  "resolveWorkspaceFilesystemPath cwd maxPathLength workspaceDirectory workspacePath =
     bind_result (normalizeWorkspaceDirectory maxPathLength workspacePath) (\<lambda>normalized.
       let workspaceRoot = path_resolve cwd [workspaceDirectory];
           target = (if normalized = ''.'' then workspaceRoot
             else path_resolve cwd (workspaceRoot # split_on CHR ''/'' normalized))
       in if target \<noteq> workspaceRoot \<and> \<not> starts_with target (workspaceRoot @ ''/'') then
            path_failed ''Workspace path cannot traverse outside the workspace'' (named_path workspacePath)
          else Inr target)"

section \<open>Segments\<close>

definition plain_segment :: "string \<Rightarrow> bool" where
  "plain_segment s \<longleftrightarrow> s \<noteq> [] \<and> s \<noteq> ''.'' \<and> s \<noteq> ''..'' \<and> CHR ''/'' \<notin> set s"

text \<open>The segments of a path that the file system steps through.\<close>

definition path_segments :: "string \<Rightarrow> string list" where
  "path_segments p = filter (\<lambda>s. s \<noteq> [] \<and> s \<noteq> ''.'') (split_on CHR ''/'' p)"

definition inside :: "string \<Rightarrow> string list \<Rightarrow> string" where
  "inside base segs = base @ concat (map (\<lambda>s. CHR ''/'' # s) segs)"

text \<open>With no way above the start, all that remains are plain segments.\<close>

lemma push_plain:
  assumes acc: "\<forall>s \<in> set acc. plain_segment s" and s: "CHR ''/'' \<notin> set s"
  shows "\<forall>t \<in> set (push_segment False acc s). plain_segment t"
proof -
  consider "s = [] \<or> s = ''.''" | "s = ''..''" | "plain_segment s" using s by (auto simp: plain_segment_def)
  then show ?thesis
  proof cases
    case 1
    with acc show ?thesis by auto
  next
    case 2
    with acc show ?thesis by (cases acc) auto
  next
    case 3
    then have "push_segment False acc s = s # acc" by (auto simp: plain_segment_def)
    with 3 acc show ?thesis by simp
  qed
qed

lemma fold_push_plain:
  "(\<forall>s \<in> set acc. plain_segment s) \<Longrightarrow> (\<forall>s \<in> set ps. CHR ''/'' \<notin> set s) \<Longrightarrow>
    \<forall>t \<in> set (foldl (push_segment False) acc ps). plain_segment t"
proof (induction ps arbitrary: acc)
  case Nil
  then show ?case by simp
next
  case (Cons s ps)
  from push_plain[OF Cons.prems(1), of s] Cons.prems(2) have "\<forall>t \<in> set (push_segment False acc s). plain_segment t"
    by (simp del: push_segment.simps)
  with Cons.IH[of "push_segment False acc s"] Cons.prems(2) show ?case by (simp del: push_segment.simps)
qed

lemma norm_plain: "s \<in> set (norm_segments False p) \<Longrightarrow> plain_segment s"
  using fold_push_plain[of "[]" "split_on CHR ''/'' p"] split_on_pieces by (auto simp: norm_segments_def)

text \<open>
  A relative path normalizes to steps up and then plain segments: none of the steps up once it does not
  begin with one.
\<close>

definition climbs :: "string list \<Rightarrow> bool" where
  "climbs acc \<longleftrightarrow> (\<exists>ups downs. acc = downs @ ups \<and> (\<forall>s \<in> set ups. s = ''..'') \<and> (\<forall>s \<in> set downs. plain_segment s))"

lemma climbs_push:
  assumes "climbs acc" "CHR ''/'' \<notin> set s"
  shows "climbs (push_segment True acc s)"
proof -
  from assms(1) obtain ups downs where acc: "acc = downs @ ups" "\<forall>s \<in> set ups. s = ''..''" "\<forall>s \<in> set downs. plain_segment s"
    unfolding climbs_def by blast
  consider "s = [] \<or> s = ''.''" | "s = ''..''" | "plain_segment s" using assms(2) by (auto simp: plain_segment_def)
  then show ?thesis
  proof cases
    case 1
    with assms(1) show ?thesis by auto
  next
    case 2
    show ?thesis
    proof (cases downs)
      case Nil
      with acc 2 have "push_segment True acc s = [] @ (''..'' # ups)" by (auto split: list.split)
      with acc(2) show ?thesis unfolding climbs_def by (intro exI[of _ "''..'' # ups"] exI[of _ "[]"]) auto
    next
      case (Cons t ts)
      with acc 2 have "push_segment True acc s = ts @ ups" by (auto simp: plain_segment_def)
      with acc Cons show ?thesis unfolding climbs_def by (intro exI[of _ ups] exI[of _ ts]) auto
    qed
  next
    case 3
    then have "push_segment True acc s = (s # downs) @ ups" using acc by (auto simp: plain_segment_def)
    with acc 3 show ?thesis unfolding climbs_def by (intro exI[of _ ups] exI[of _ "s # downs"]) auto
  qed
qed

lemma climbs_fold: "climbs acc \<Longrightarrow> (\<forall>s \<in> set ps. CHR ''/'' \<notin> set s) \<Longrightarrow> climbs (foldl (push_segment True) acc ps)"
  by (induction ps arbitrary: acc) (simp_all add: climbs_push del: push_segment.simps)

lemma norm_climbs:
  "\<exists>ups downs. norm_segments True p = ups @ downs \<and> (\<forall>s \<in> set ups. s = ''..'') \<and> (\<forall>s \<in> set downs. plain_segment s)"
proof -
  have "climbs (foldl (push_segment True) [] (split_on CHR ''/'' p))"
    by (rule climbs_fold) (auto simp: climbs_def dest: split_on_pieces)
  then obtain ups downs where "foldl (push_segment True) [] (split_on CHR ''/'' p) = downs @ ups"
      "\<forall>s \<in> set ups. s = ''..''" "\<forall>s \<in> set downs. plain_segment s"
    unfolding climbs_def by blast
  then show ?thesis
    unfolding norm_segments_def by (intro exI[of _ "rev ups"] exI[of _ "rev downs"]) simp
qed

lemma join_with_Cons: "join_with sep (p # ps) = p @ (if ps = [] then [] else sep @ join_with sep ps)"
  by (cases ps) simp_all

lemma join_with_Nil [simp]: "(\<forall>s \<in> set ss. s \<noteq> []) \<Longrightarrow> join_with sep ss = [] \<longleftrightarrow> ss = []"
  by (cases ss) (simp_all add: join_with_Cons)

lemma split_on_append_sep: "split_on c (a @ c # b) = split_on c a @ split_on c b"
proof (induction a)
  case Nil
  then show ?case by simp
next
  case (Cons x a)
  then show ?case by (cases "split_on c a") auto
qed

lemma plain_join: "(\<forall>s \<in> set ss. plain_segment s) \<Longrightarrow> join_with ''/'' ss = [] \<longleftrightarrow> ss = []"
  by (auto simp: plain_segment_def)

lemma split_join_plain: "ss \<noteq> [] \<Longrightarrow> (\<forall>s \<in> set ss. plain_segment s) \<Longrightarrow> split_on CHR ''/'' (join_with ''/'' ss) = ss"
  by (rule split_join_with) (auto simp: plain_segment_def)

lemma path_segments_join:
  assumes "\<forall>s \<in> set ss. plain_segment s"
  shows "path_segments (join_with ''/'' ss) = ss" "path_segments (join_with ''/'' ss @ ''/'') = ss"
proof -
  have "filter (\<lambda>s. s \<noteq> [] \<and> s \<noteq> ''.'') ss = ss"
    using assms by (induction ss) (auto simp: plain_segment_def)
  then show "path_segments (join_with ''/'' ss) = ss" "path_segments (join_with ''/'' ss @ ''/'') = ss"
    using split_join_plain[of ss] assms
    by (cases "ss = []"; simp add: path_segments_def split_on_append_sep)+
qed

lemma starts_dotdot: "starts_with (''..'' @ ''/'' @ s) ''../''" by simp

text \<open>A normalized workspace path is its plain segments.\<close>

lemma normalized_segments:
  assumes "normalizeWorkspacePath maxLength value = Inr p"
  shows "p = posix_normalize (workspace_relative value) \<and> (\<forall>s \<in> set (path_segments p). plain_segment s) \<and>
    (p = ''.'' \<or> p = ''./'' \<or> p = join_with ''/'' (path_segments p) \<or> p = join_with ''/'' (path_segments p) @ ''/'')"
proof -
  let ?t = "workspace_relative value"
  from assms have t: "?t \<noteq> []" "\<not> starts_with ?t ''/''" and p: "p = posix_normalize ?t"
    and up: "p \<noteq> ''..''" "\<not> starts_with p ''../''"
    by (auto simp: normalizeWorkspacePath_def Let_def path_failed_def split: if_splits)
  obtain ups downs where split: "norm_segments True ?t = ups @ downs" "\<forall>s \<in> set ups. s = ''..''"
      "\<forall>s \<in> set downs. plain_segment s"
    using norm_climbs by blast
  have form: "p = (let text = join_with ''/'' (ups @ downs) in
      if text = [] then (if ends_with ?t ''/'' then ''./'' else ''.'')
      else text @ (if ends_with ?t ''/'' then ''/'' else []))"
    using t by (simp add: p posix_normalize_def split(1) Let_def)
  have "ups = []"
  proof (rule ccontr)
    assume "ups \<noteq> []"
    with split(2) obtain us where ups: "ups = ''..'' # us" by (cases ups) auto
    have "join_with ''/'' (ups @ downs) = ''..'' @ (if us @ downs = [] then [] else ''/'' @ join_with ''/'' (us @ downs))"
      by (simp add: ups join_with_Cons)
    with form up show False by (auto simp: Let_def split: if_splits)
  qed
  with form plain_join[OF split(3)] path_segments_join[OF split(3)] split(3)
  have "(p = ''.'' \<and> path_segments p = []) \<or> (p = ''./'' \<and> path_segments p = []) \<or>
      (p = join_with ''/'' downs \<and> path_segments p = downs) \<or> (p = join_with ''/'' downs @ ''/'' \<and> path_segments p = downs)"
    by (auto simp: Let_def path_segments_def split: if_splits)
  with p split(3) show ?thesis by auto
qed

section \<open>Resolution\<close>

definition stack_of :: "string \<Rightarrow> string list" where
  "stack_of p = foldl (push_segment False) [] (split_on CHR ''/'' p)"

lemma norm_stack: "norm_segments False p = rev (stack_of p)"
  by (simp add: norm_segments_def stack_of_def)

lemma stack_append: "stack_of (base @ CHR ''/'' # p) = foldl (push_segment False) (stack_of base) (split_on CHR ''/'' p)"
  by (simp add: stack_of_def split_on_append_sep)

lemma push_plain_segment: "plain_segment s \<Longrightarrow> push_segment False acc s = s # acc"
  by (auto simp: plain_segment_def)

lemma fold_plain: "(\<forall>s \<in> set ss. plain_segment s) \<Longrightarrow> foldl (push_segment False) acc ss = rev ss @ acc"
  by (induction ss arbitrary: acc) (simp_all add: push_plain_segment del: push_segment.simps)

lemma stack_of_join: "(\<forall>s \<in> set ss. plain_segment s) \<Longrightarrow> stack_of (''/'' @ join_with ''/'' ss) = rev ss"
  using stack_append[of "[]" "join_with ''/'' ss"] split_join_plain[of ss] fold_plain[of ss "[]"]
  by (cases "ss = []") (simp_all add: stack_of_def)

text \<open>Only the segments of a path move a stack.\<close>

lemma fold_path_segments:
  "foldl (push_segment False) acc ps = foldl (push_segment False) acc (filter (\<lambda>s. s \<noteq> [] \<and> s \<noteq> ''.'') ps)"
  by (induction ps arbitrary: acc) auto

lemma stack_of_parts:
  "starts_with base ''/'' \<Longrightarrow> (\<forall>s \<in> set ps. CHR ''/'' \<notin> set s) \<Longrightarrow>
    stack_of (foldl join_part base ps) = foldl (push_segment False) (stack_of base) ps"
proof (induction ps arbitrary: base)
  case Nil
  then show ?case by simp
next
  case (Cons p ps)
  show ?case
  proof (cases "p = []")
    case True
    with Cons show ?thesis by (simp add: join_part_def)
  next
    case False
    with Cons.prems(2) have join: "join_part base p = base @ CHR ''/'' # p"
      by (cases p) (auto simp: join_part_def)
    with Cons.prems have "stack_of (foldl join_part base (p # ps)) =
        foldl (push_segment False) (stack_of (base @ CHR ''/'' # p)) ps"
      by (simp add: Cons.IH del: push_segment.simps)
    also have "stack_of (base @ CHR ''/'' # p) = push_segment False (stack_of base) p"
      using Cons.prems(2) by (simp add: stack_append split_on_no_sep del: push_segment.simps)
    finally show ?thesis by (simp del: push_segment.simps)
  qed
qed

lemma path_resolve_root:
  "\<exists>rs. path_resolve cwd ps = ''/'' @ join_with ''/'' rs \<and> (\<forall>s \<in> set rs. plain_segment s)"
  unfolding path_resolve_def using norm_plain by blast

text \<open>Resolving the parts of a path against a resolved root puts its segments under the root.\<close>

lemma resolve_under_root:
  assumes rs: "\<forall>s \<in> set rs. plain_segment s" and p: "\<forall>s \<in> set (path_segments p). plain_segment s"
  shows "path_resolve cwd ((''/'' @ join_with ''/'' rs) # split_on CHR ''/'' p) =
    ''/'' @ join_with ''/'' (rs @ path_segments p)"
proof -
  let ?root = "''/'' @ join_with ''/'' rs"
  have "stack_of (foldl join_part cwd (?root # split_on CHR ''/'' p)) =
      stack_of (foldl join_part ?root (split_on CHR ''/'' p))"
    by (simp add: join_part_def)
  also have "\<dots> = foldl (push_segment False) (rev rs) (split_on CHR ''/'' p)"
    by (subst stack_of_parts) (auto simp: stack_of_join[OF rs, simplified] dest: split_on_pieces)
  also have "\<dots> = foldl (push_segment False) (rev rs) (path_segments p)"
    unfolding path_segments_def by (rule fold_path_segments)
  also have "\<dots> = rev (path_segments p) @ rev rs" by (rule fold_plain[OF p])
  finally show ?thesis by (simp add: path_resolve_def norm_stack)
qed

lemma join_inside: "rs \<noteq> [] \<Longrightarrow> join_with ''/'' (rs @ ss) = inside (join_with ''/'' rs) ss"
proof (induction ss arbitrary: rs)
  case Nil
  then show ?case by (simp add: inside_def)
next
  case (Cons s ss)
  have "join_with ''/'' (rs @ [s]) = join_with ''/'' rs @ ''/'' @ s"
    using Cons.prems by (induction rs) (auto simp: join_with_Cons)
  with Cons.IH[of "rs @ [s]"] show ?case by (simp add: inside_def)
qed

lemma join_under_root:
  assumes "''/'' @ join_with ''/'' rs \<noteq> ''/''"
  shows "''/'' @ join_with ''/'' (rs @ ss) = inside (''/'' @ join_with ''/'' rs) ss"
proof -
  have "rs \<noteq> []" using assms by auto
  then show ?thesis by (simp add: join_inside) (simp add: inside_def)
qed

section \<open>Where normalizing is uneven\<close>

text \<open>
  White space is trimmed before the workspace prefix is taken off and not after it, so a directory that was
  normalized once is another one when it is normalized again, as the runner of commands does. A trailing
  slash before white space is kept in the path of a file.
\<close>

lemma normalizing_twice_differs:
  "normalizeWorkspaceDirectory 512 ''/workspace/ a'' = Inr '' a'' \<and> normalizeWorkspaceDirectory 512 '' a'' = Inr ''a''"
  by code_simp

lemma file_path_with_slash: "normalizeWorkspaceFilePath 512 ''dir/ '' = Inr ''dir/''"
  by code_simp

section \<open>Confinement\<close>

text \<open>
  C15. A path of a workspace never leads out of it. What normalizing accepts are plain segments: none is
  empty, \<open>.\<close> or \<open>..\<close> or holds a slash. Resolving such a path in a workspace directory other than the
  root of the file system gives the directory followed by just these segments, so the last check of the
  code never refuses anything, and what resolves is the workspace itself or lies strictly below it.
\<close>

theorem workspace_paths_stay_inside:
  fixes cwd workspaceDirectory
  defines "root_dir \<equiv> path_resolve cwd [workspaceDirectory]"
  assumes "normalizeWorkspaceDirectory maxLength value = Inr p" and "root_dir \<noteq> ''/''"
  shows "(\<forall>s \<in> set (path_segments p). plain_segment s) \<and>
    resolveWorkspaceFilesystemPath cwd maxLength workspaceDirectory value = Inr (inside root_dir (path_segments p))"
proof -
  note norm = normalized_segments[OF assms(2)[unfolded normalizeWorkspaceDirectory_def]]
  obtain rs where rs: "root_dir = ''/'' @ join_with ''/'' rs" "\<forall>s \<in> set rs. plain_segment s"
    using path_resolve_root unfolding root_dir_def by blast
  have "path_resolve cwd (root_dir # split_on CHR ''/'' p) = ''/'' @ join_with ''/'' (rs @ path_segments p)"
    unfolding rs(1) using norm rs(2) by (intro resolve_under_root) auto
  also have "\<dots> = inside root_dir (path_segments p)"
    using assms(3) unfolding rs(1) by (rule join_under_root)
  finally have target: "path_resolve cwd (root_dir # split_on CHR ''/'' p) = inside root_dir (path_segments p)" .
  have dot: "p = ''.'' \<Longrightarrow> root_dir = inside root_dir (path_segments p)"
    by (simp add: path_segments_def inside_def)
  have ok: "\<not> (inside root_dir ss \<noteq> root_dir \<and> \<not> starts_with (inside root_dir ss) (root_dir @ ''/''))" for ss
    by (cases ss) (simp_all add: inside_def)
  have "resolveWorkspaceFilesystemPath cwd maxLength workspaceDirectory value =
      (let target = (if p = ''.'' then root_dir else inside root_dir (path_segments p)) in
       if target \<noteq> root_dir \<and> \<not> starts_with target (root_dir @ ''/'') then
         path_failed ''Workspace path cannot traverse outside the workspace'' (named_path value)
       else Inr target)"
    by (simp only: resolveWorkspaceFilesystemPath_def assms(2) bind_result.simps root_dir_def[symmetric] Let_def target)
  also have "\<dots> = Inr (inside root_dir (path_segments p))"
    using ok dot by (cases "p = ''.''") (simp_all only: Let_def if_True if_False refl simp_thms)
  finally show ?thesis using norm by blast
qed

lemma workspace_paths_stay_inside_witness:
  "resolveWorkspaceFilesystemPath ''/srv'' 512 ''run/ws'' '' /workspace/a/./b//../c '' = Inr ''/srv/run/ws/a/c''"
proof -
  have p: "normalizeWorkspaceDirectory 512 '' /workspace/a/./b//../c '' = Inr ''a/c''" by code_simp
  moreover have "path_resolve ''/srv'' [''run/ws''] = ''/srv/run/ws''" by code_simp
  moreover have "path_segments ''a/c'' = [''a'', ''c'']" by code_simp
  ultimately show ?thesis
    using workspace_paths_stay_inside[OF p, of "''/srv''" "''run/ws''"] by (simp add: inside_def)
qed

end
