(* ===== verification/Tool_Results.thy ===== *)
theory Tool_Results imports Errors begin

text \<open>
  What a tool answers, as a run and the model see it (\<open>packages/core/src/tool-execution.ts\<close>). The parts
  of a success that only the tool layer reads, its private output and its summary for the audit, are
  left out.
\<close>

datatype tool_error_code =
  Tool_Not_Found | Not_Allowed | Approval_Required | Validation_Failed | Handler_Failed | Cancelled_Call
| Timed_Out | Repeated_Tool_Call

record tool_failure =
  tf_code :: tool_error_code
  tf_message :: string
  tf_details :: "json option"

record tool_success =
  ts_output :: "json option"
  ts_display :: "json option"
  ts_structuredResult :: "json option"
  ts_artifacts :: "json option"

datatype failed_status = Status_Failed | Status_Cancelled | Status_Timed_Out

datatype tool_result = Tool_Success tool_success | Tool_Failure failed_status tool_failure

datatype tool_authorization =
  Tool_Allowed "string option"
| Tool_Denied string
| Tool_Requires_Approval string "json option"

end
