(* ===== verification/Workspace_Patch.thy ===== *)
theory Workspace_Patch imports Workspace_Paths Json_Text Tool_Results begin

text \<open>
  Unified diffs for text files of a workspace (\<open>packages/tool-execution/src/workspace-apply-patch.ts\<close>): the
  parser of a patch, and what a change does to a text. Numbers of a hunk header are exact.
\<close>

section \<open>Failures\<close>

definition failed :: "tool_error_code \<Rightarrow> string \<Rightarrow> json option \<Rightarrow> tool_failure" where
  "failed code message details = \<lparr> tf_code = code, tf_message = message, tf_details = details \<rparr>"

definition validationFailed :: "string \<Rightarrow> json option \<Rightarrow> (tool_failure, 'a) result" where
  "validationFailed message details = Inl (failed Validation_Failed message details)"

definition workspacePathValidationToToolValidation :: "(path_failure, string) result \<Rightarrow> (tool_failure, string) result" where
  "workspacePathValidationToToolValidation r =
     (case r of Inl f \<Rightarrow> validationFailed (pf_message f) (pf_details f) | Inr p \<Rightarrow> Inr p)"

abbreviation jnat :: "nat \<Rightarrow> json" where
  "jnat n \<equiv> JNum (of_nat n)"

section \<open>Patches\<close>

datatype patch_line = Context_Line string | Delete_Line string | Add_Line string

record patch_hunk =
  hk_oldStart :: nat
  hk_oldCount :: nat
  hk_newStart :: nat
  hk_newCount :: nat
  hk_lines :: "patch_line list"

datatype patch_operation = Patch_Create | Patch_Update | Patch_Delete

record patch_change =
  pc_operation :: patch_operation
  pc_path :: string
  pc_hunks :: "patch_hunk list"

record patch_limits =
  pl_maxApplyPatchBytes :: nat
  pl_maxPathLength :: nat

section \<open>Lines\<close>

text \<open>\<open>replaceAll\<close> of the two other line ends by the newline.\<close>

fun unix_newlines_after :: "bool \<Rightarrow> string \<Rightarrow> string" where
  "unix_newlines_after cr [] = []"
| "unix_newlines_after cr (c # s) =
     (if c = CHR 0x0D then CHR 0x0A # unix_newlines_after True s
      else if c = CHR 0x0A \<and> cr then unix_newlines_after False s
      else c # unix_newlines_after False s)"

definition unix_newlines :: "string \<Rightarrow> string" where
  "unix_newlines s = unix_newlines_after False s"

definition splitPatchLines :: "string \<Rightarrow> string list" where
  "splitPatchLines patch =
     (let lines = split_on CHR 0x0A (unix_newlines patch)
      in if last lines = [] then butlast lines else lines)"

definition splitTextLines :: "string \<Rightarrow> string list" where
  "splitTextLines t =
     (let normalized = unix_newlines t in
      if normalized = [] then []
      else
        (let withoutFinalNewline =
            (if ends_with normalized [CHR 0x0A] then butlast normalized else normalized)
         in if withoutFinalNewline = [] then [] else split_on CHR 0x0A withoutFinalNewline))"

definition isGitMetadataLine :: "string \<Rightarrow> bool" where
  "isGitMetadataLine line \<longleftrightarrow>
     list_ex (starts_with line)
       [''index '', ''new file mode '', ''deleted file mode '', ''old mode '', ''new mode '',
        ''similarity index '', ''rename from '', ''rename to '']"

definition isBinaryLine :: "string \<Rightarrow> bool" where
  "isBinaryLine line \<longleftrightarrow> starts_with line ''Binary files '' \<or> starts_with line ''GIT binary patch''"

section \<open>Headers\<close>

definition stripWorkspacePatchPrefix :: "string \<Rightarrow> (tool_failure, string) result" where
  "stripWorkspacePatchPrefix rawPath =
     (if rawPath = ''/workspace'' then validationFailed ''Workspace patch path must name a file'' None
      else if starts_with rawPath ''/workspace/'' then Inr (drop (length ''/workspace/'') rawPath)
      else if starts_with rawPath ''/'' \<or> starts_with rawPath [CHR 0x5C] then
        validationFailed ''Workspace patch path must be under /workspace'' (named_path rawPath)
      else if starts_with rawPath ''a/'' \<or> starts_with rawPath ''b/'' then Inr (drop 2 rawPath)
      else Inr rawPath)"

definition normalizePatchHeaderPath :: "patch_limits \<Rightarrow> string \<Rightarrow> (tool_failure, string option) result" where
  "normalizePatchHeaderPath limits headerValue =
     (let rawPath = trim (hd (split_on CHR 0x09 headerValue)) in
      if rawPath = ''/dev/null'' then Inr None
      else
        bind_result (stripWorkspacePatchPrefix rawPath) (\<lambda>workspacePath.
        bind_result (workspacePathValidationToToolValidation
            (normalizeWorkspaceFilePath (pl_maxPathLength limits) workspacePath)) (\<lambda>p. Inr (Some p))))"

definition resolvePatchOperation ::
    "string option \<Rightarrow> string option \<Rightarrow> (tool_failure, patch_operation \<times> string) result" where
  "resolvePatchOperation oldPath newPath =
     (case oldPath of
        None \<Rightarrow>
          (case newPath of
             None \<Rightarrow> validationFailed ''Workspace patch cannot have both old and new paths as /dev/null'' None
           | Some n \<Rightarrow> Inr (Patch_Create, n))
      | Some p \<Rightarrow>
          (case newPath of
             None \<Rightarrow> Inr (Patch_Delete, p)
           | Some n \<Rightarrow>
               (if p \<noteq> n then
                  validationFailed ''Workspace patch does not support renames or copies''
                    (Some (JObj [(''oldPath'', JStr p), (''newPath'', JStr n)]))
                else Inr (Patch_Update, p))))"

definition is_digit :: "char \<Rightarrow> bool" where
  "is_digit c \<longleftrightarrow> 48 \<le> (of_char c :: nat) \<and> (of_char c :: nat) \<le> 57"

definition digits_value :: "string \<Rightarrow> nat" where
  "digits_value ds = foldl (\<lambda>n c. 10 * n + (of_char c - 48)) 0 ds"

fun read_number :: "string \<Rightarrow> (nat \<times> string) option" where
  "read_number s =
     (let ds = takeWhile is_digit s in if ds = [] then None else Some (digits_value ds, dropWhile is_digit s))"

fun read_text :: "string \<Rightarrow> string \<Rightarrow> string option" where
  "read_text t s = (if starts_with s t then Some (drop (length t) s) else None)"

text \<open>A range: a start, and after a comma a count, which is 1 when it is left out.\<close>

definition read_range :: "string \<Rightarrow> ((nat \<times> nat) \<times> string) option" where
  "read_range s =
     Option.bind (read_number s) (\<lambda>(n, r).
       case Option.bind (read_text '','' r) read_number of
         Some (c, r') \<Rightarrow> Some ((n, c), r')
       | None \<Rightarrow> Some ((n, 1), r))"

text \<open>The pattern of a hunk header, with the start and the count of both sides.\<close>

definition read_hunk_header :: "string \<Rightarrow> ((nat \<times> nat) \<times> (nat \<times> nat)) option" where
  "read_hunk_header s =
     Option.bind (read_text ''@@ -'' s) (\<lambda>s1.
     Option.bind (read_range s1) (\<lambda>(old, s2).
     Option.bind (read_text '' +'' s2) (\<lambda>s3.
     Option.bind (read_range s3) (\<lambda>(new, s4).
     Option.bind (read_text '' @@'' s4) (\<lambda>s5.
       if s5 = [] \<or> starts_with s5 '' '' then Some (old, new) else None)))))"

section \<open>Parsing\<close>

definition ends_hunk :: "string \<Rightarrow> bool" where
  "ends_hunk line \<longleftrightarrow> starts_with line ''@@ '' \<or> starts_with line ''--- '' \<or> starts_with line ''diff --git ''"

definition no_final_newline :: string where
  "no_final_newline = CHR 0x5C # '' No newline at end of file''"

text \<open>The lines of a hunk up to what ends it, or the index of a line that is none.\<close>

fun read_hunk_lines :: "nat \<Rightarrow> string list \<Rightarrow> (nat, patch_line list \<times> string list \<times> nat) result" where
  "read_hunk_lines index [] = Inr ([], [], index)"
| "read_hunk_lines index (line # lines) =
     (if ends_hunk line then Inr ([], line # lines, index)
      else if line = no_final_newline then read_hunk_lines (index + 1) lines
      else
        (let go = (\<lambda>l. bind_result (read_hunk_lines (index + 1) lines) (\<lambda>(ls, rest, i). Inr (l # ls, rest, i)))
         in case line of
              [] \<Rightarrow> Inl index
            | marker # t \<Rightarrow>
                if marker = CHR '' '' then go (Context_Line t)
                else if marker = CHR ''-'' then go (Delete_Line t)
                else if marker = CHR ''+'' then go (Add_Line t)
                else Inl index))"

fun old_side :: "patch_line list \<Rightarrow> string list" where
  "old_side [] = []"
| "old_side (Context_Line t # ls) = t # old_side ls"
| "old_side (Delete_Line t # ls) = t # old_side ls"
| "old_side (Add_Line t # ls) = old_side ls"

fun new_side :: "patch_line list \<Rightarrow> string list" where
  "new_side [] = []"
| "new_side (Context_Line t # ls) = t # new_side ls"
| "new_side (Delete_Line t # ls) = new_side ls"
| "new_side (Add_Line t # ls) = t # new_side ls"

definition parseHunk ::
    "string \<Rightarrow> nat \<Rightarrow> string list \<Rightarrow> string \<Rightarrow> (tool_failure, patch_hunk \<times> string list \<times> nat) result" where
  "parseHunk header hunkIndex lines filePath =
     (case read_hunk_header header of
        None \<Rightarrow> validationFailed ''Workspace patch hunk header is invalid''
          (Some (JObj [(''line'', jnat (hunkIndex + 1)), (''path'', JStr filePath)]))
      | Some ((oldStart, oldCount), (newStart, newCount)) \<Rightarrow>
          (case read_hunk_lines (hunkIndex + 1) lines of
             Inl index \<Rightarrow> validationFailed ''Workspace patch hunk line must start with space, +, or -''
               (Some (JObj [(''line'', jnat (index + 1)), (''path'', JStr filePath)]))
           | Inr (ls, rest, index) \<Rightarrow>
               (if length (old_side ls) \<noteq> oldCount \<or> length (new_side ls) \<noteq> newCount then
                  validationFailed ''Workspace patch hunk line counts do not match the header''
                    (Some (JObj [(''path'', JStr filePath), (''oldCount'', jnat oldCount),
                      (''actualOldCount'', jnat (length (old_side ls))), (''newCount'', jnat newCount),
                      (''actualNewCount'', jnat (length (new_side ls)))]))
                else
                  Inr (\<lparr> hk_oldStart = oldStart, hk_oldCount = oldCount, hk_newStart = newStart,
                    hk_newCount = newCount, hk_lines = ls \<rparr>, rest, index))))"

definition skipped :: "string \<Rightarrow> bool" where
  "skipped line \<longleftrightarrow> trim line = [] \<or> isGitMetadataLine line"

lemma read_hunk_lines_length: "read_hunk_lines index lines = Inr (ls, rest, i) \<Longrightarrow> length rest \<le> length lines"
proof (induction lines arbitrary: index ls rest i)
  case Nil
  then show ?case by simp
next
  case (Cons line lines)
  then show ?case
    by (auto simp: Let_def split: if_splits list.splits) (meson le_SucI)+
qed

lemma parseHunk_length: "parseHunk header index lines p = Inr (h, rest, i) \<Longrightarrow> length rest \<le> length lines"
  by (auto simp: parseHunk_def validationFailed_def split: option.splits prod.splits sum.splits if_splits
      dest: read_hunk_lines_length)

text \<open>The hunks of a file, up to the header of the next file.\<close>

function parse_hunks ::
    "string \<Rightarrow> nat \<Rightarrow> string list \<Rightarrow> (tool_failure, patch_hunk list \<times> string list \<times> nat) result" where
  "parse_hunks filePath index [] = Inr ([], [], index)"
| "parse_hunks filePath index (line # lines) =
     (if starts_with line ''--- '' \<or> starts_with line ''diff --git '' then Inr ([], line # lines, index)
      else if skipped line then parse_hunks filePath (index + 1) lines
      else if isBinaryLine line then validationFailed ''Workspace patch cannot apply binary file changes'' None
      else if \<not> starts_with line ''@@ '' then
        validationFailed ''Workspace patch hunk is missing an @@ header''
          (Some (JObj [(''line'', jnat (index + 1)), (''path'', JStr filePath)]))
      else
        (case parseHunk line index lines filePath of
           Inl f \<Rightarrow> Inl f
         | Inr (hunk, rest, next_index) \<Rightarrow>
             bind_result (parse_hunks filePath next_index rest) (\<lambda>(hunks, rest', index'').
               Inr (hunk # hunks, rest', index''))))"
  by pat_completeness auto
termination
  by (relation "measure (\<lambda>(p, i, ls). length ls)") (auto dest: parseHunk_length)

lemma parse_hunks_length: "parse_hunks p index lines = Inr (hs, rest, i) \<Longrightarrow> length rest \<le> length lines"
proof (induction p index lines arbitrary: hs rest i rule: parse_hunks.induct)
  case (1 p index)
  then show ?case by simp
next
  case (2 p index line lines)
  then show ?case
    by (fastforce simp: validationFailed_def split: if_splits sum.splits prod.splits dest: parseHunk_length)
qed

text \<open>The files of a patch.\<close>

function parse_changes ::
    "patch_limits \<Rightarrow> nat \<Rightarrow> string list \<Rightarrow> (tool_failure, patch_change list) result" where
  "parse_changes limits index [] = Inr []"
| "parse_changes limits index (line # lines) =
     (if trim line = [] \<or> starts_with line ''diff --git '' \<or> isGitMetadataLine line then
        parse_changes limits (index + 1) lines
      else if isBinaryLine line then validationFailed ''Workspace patch cannot apply binary file changes'' None
      else if \<not> starts_with line ''--- '' then
        validationFailed ''Workspace patch must use unified diff file headers''
          (Some (JObj [(''line'', jnat (index + 1))]))
      else
        (case normalizePatchHeaderPath limits (drop 4 line) of
           Inl f \<Rightarrow> Inl f
         | Inr oldPath \<Rightarrow>
             (let next_line = (case lines of l # _ \<Rightarrow> l | [] \<Rightarrow> []) in
              if \<not> starts_with next_line ''+++ '' then
                validationFailed ''Workspace patch file header is missing a +++ line''
                  (Some (JObj [(''line'', jnat (index + 2))]))
              else
                (case bind_result (normalizePatchHeaderPath limits (drop 4 next_line)) (resolvePatchOperation oldPath) of
                   Inl f \<Rightarrow> Inl f
                 | Inr (operation, filePath) \<Rightarrow>
                     (case parse_hunks filePath (index + 2) (tl lines) of
                        Inl f \<Rightarrow> Inl f
                      | Inr (hunks, rest, index') \<Rightarrow>
                          (if hunks = [] then
                             validationFailed ''Workspace patch file change must include at least one hunk''
                               (named_path filePath)
                           else
                             bind_result (parse_changes limits index' rest) (\<lambda>changes.
                               Inr (\<lparr> pc_operation = operation, pc_path = filePath, pc_hunks = hunks \<rparr> # changes))))))))"
  by pat_completeness auto
termination
proof (relation "measure (\<lambda>(l, i, ls). length ls)", goal_cases)
  case (3 limits index line lines oldPath next_line operation filePath hunks rest index')
  then show ?case using parse_hunks_length by (cases lines) fastforce+
qed auto

fun repeated_path :: "string list \<Rightarrow> patch_change list \<Rightarrow> string option" where
  "repeated_path seen [] = None"
| "repeated_path seen (c # cs) =
     (if pc_path c \<in> set seen then Some (pc_path c) else repeated_path (pc_path c # seen) cs)"

definition parseWorkspaceApplyPatch :: "string \<Rightarrow> patch_limits \<Rightarrow> (tool_failure, patch_change list) result" where
  "parseWorkspaceApplyPatch patch limits =
     (if length patch > pl_maxApplyPatchBytes limits then
        validationFailed ''Workspace patch is too large''
          (Some (JObj [(''maxApplyPatchBytes'', jnat (pl_maxApplyPatchBytes limits))]))
      else if CHR 0x00 \<in> set patch then validationFailed ''Workspace patch cannot contain NUL bytes'' None
      else
        bind_result (parse_changes limits 0 (splitPatchLines patch)) (\<lambda>changes.
          if changes = [] then
            validationFailed ''Workspace patch must include at least one file change'' None
          else
            (case repeated_path [] changes of
               Some p \<Rightarrow> validationFailed ''Workspace patch must not modify the same path more than once'' (named_path p)
             | None \<Rightarrow> Inr changes)))"

section \<open>Applying\<close>

text \<open>One hunk on the lines from its start: what it puts out and what it leaves, or the line it fails at.\<close>

fun apply_hunk_lines :: "nat \<Rightarrow> patch_line list \<Rightarrow> string list \<Rightarrow> (nat, string list \<times> string list) result" where
  "apply_hunk_lines cursor [] rest = Inr ([], rest)"
| "apply_hunk_lines cursor (Add_Line t # ls) rest =
     bind_result (apply_hunk_lines cursor ls rest) (\<lambda>(out, rest'). Inr (t # out, rest'))"
| "apply_hunk_lines cursor (Context_Line t # ls) rest =
     (case rest of
        [] \<Rightarrow> Inl cursor
      | current # later \<Rightarrow>
          (if current \<noteq> t then Inl cursor
           else bind_result (apply_hunk_lines (cursor + 1) ls later) (\<lambda>(out, rest'). Inr (current # out, rest'))))"
| "apply_hunk_lines cursor (Delete_Line t # ls) rest =
     (case rest of
        [] \<Rightarrow> Inl cursor
      | current # later \<Rightarrow> (if current \<noteq> t then Inl cursor else apply_hunk_lines (cursor + 1) ls later))"

definition start_index :: "patch_hunk \<Rightarrow> nat" where
  "start_index h = (if hk_oldStart h = 0 then 0 else hk_oldStart h - 1)"

text \<open>The hunks in order; \<open>rest\<close> are the lines of the file from \<open>cursor\<close> on.\<close>

fun apply_hunks :: "string \<Rightarrow> nat \<Rightarrow> patch_hunk list \<Rightarrow> string list \<Rightarrow> (tool_failure, string list) result" where
  "apply_hunks filePath cursor [] rest = Inr rest"
| "apply_hunks filePath cursor (h # hs) rest =
     (let start = start_index h in
      if start < cursor \<or> start > cursor + length rest then
        validationFailed ''Workspace patch hunk does not apply at the expected line''
          (Some (JObj [(''path'', JStr filePath), (''line'', jnat (hk_oldStart h))]))
      else
        (case apply_hunk_lines start (hk_lines h) (drop (start - cursor) rest) of
           Inl failed_at \<Rightarrow>
             validationFailed ''Workspace patch context did not match file content''
               (Some (JObj [(''path'', JStr filePath), (''line'', jnat (failed_at + 1))]))
         | Inr (out, rest') \<Rightarrow>
             bind_result (apply_hunks filePath (start + length (old_side (hk_lines h))) hs rest') (\<lambda>later.
               Inr (take (start - cursor) rest @ out @ later))))"

definition applyWorkspacePatchToText :: "string \<Rightarrow> patch_change \<Rightarrow> (tool_failure, string) result" where
  "applyWorkspacePatchToText existingText change =
     bind_result (apply_hunks (pc_path change) 0 (pc_hunks change) (splitTextLines existingText)) (\<lambda>out.
       if out = [] then Inr [] else Inr (join_with [CHR 0x0A] out @ [CHR 0x0A]))"

end
