(* ===== verification/Workspace_Patch_Facts.thy ===== *)
theory Workspace_Patch_Facts imports Workspace_Patch begin

text \<open>
  What a patch means: applying it against the sides of its hunks, and reading a patch that was printed.
\<close>

section \<open>Applying\<close>

text \<open>The lines between the hunks, interleaved with one side of each hunk.\<close>

fun weave :: "'a list list \<Rightarrow> 'a list list \<Rightarrow> 'a list" where
  "weave (g # gs) (s # ss) = g @ s @ weave gs ss"
| "weave gs [] = concat gs"
| "weave [] ss = []"

text \<open>Every hunk stands where it says, counted in the lines before the patch.\<close>

fun placed :: "nat \<Rightarrow> string list list \<Rightarrow> patch_hunk list \<Rightarrow> bool" where
  "placed cursor (g # gs) (h # hs) \<longleftrightarrow>
     start_index h = cursor + length g \<and> placed (start_index h + length (old_side (hk_lines h))) gs hs"
| "placed cursor [] (h # hs) \<longleftrightarrow> False"
| "placed cursor gs [] \<longleftrightarrow> True"

definition old_sides :: "patch_hunk list \<Rightarrow> string list list" where
  "old_sides hs = map (\<lambda>h. old_side (hk_lines h)) hs"

definition new_sides :: "patch_hunk list \<Rightarrow> string list list" where
  "new_sides hs = map (\<lambda>h. new_side (hk_lines h)) hs"

definition text_of :: "string list \<Rightarrow> string" where
  "text_of ls = (if ls = [] then [] else join_with [CHR 0x0A] ls @ [CHR 0x0A])"

lemma apply_hunk_lines_iff:
  "apply_hunk_lines cursor ls rest = Inr (out, rest') \<longleftrightarrow> rest = old_side ls @ rest' \<and> out = new_side ls"
proof (induction cursor ls rest arbitrary: out rest' rule: apply_hunk_lines.induct)
  case (3 cursor t ls rest)
  then show ?case by (cases rest) auto
next
  case (4 cursor t ls rest)
  then show ?case by (cases rest) auto
qed auto

lemma apply_hunks_iff:
  "apply_hunks p cursor hs rest = Inr out \<longleftrightarrow>
    (\<exists>gaps. length gaps = Suc (length hs) \<and> rest = weave gaps (old_sides hs) \<and> placed cursor gaps hs \<and>
      out = weave gaps (new_sides hs))"
proof (induction hs arbitrary: cursor rest out)
  case Nil
  have "(\<exists>gaps. length gaps = Suc 0 \<and> rest = weave gaps [] \<and> out = weave gaps []) \<longleftrightarrow> rest = out"
    by (auto simp: length_Suc_conv intro: exI[of _ "[rest]"])
  then show ?case by (auto simp: old_sides_def new_sides_def)
next
  case (Cons h hs)
  let ?start = "start_index h" and ?old = "old_side (hk_lines h)" and ?new = "new_side (hk_lines h)"
  let ?next = "?start + length ?old"
  show ?case
  proof
    assume ok: "apply_hunks p cursor (h # hs) rest = Inr out"
    then have start: "cursor \<le> ?start" "?start \<le> cursor + length rest"
      by (auto simp: Let_def validationFailed_def split: if_splits)
    with ok obtain o1 rest' o2 where lines: "apply_hunk_lines ?start (hk_lines h) (drop (?start - cursor) rest) = Inr (o1, rest')"
      and hs: "apply_hunks p ?next hs rest' = Inr o2" and out: "out = take (?start - cursor) rest @ o1 @ o2"
      by (auto simp: Let_def validationFailed_def split: sum.splits)
    obtain gaps where gaps: "length gaps = Suc (length hs)" "rest' = weave gaps (old_sides hs)" "placed ?next gaps hs"
        "o2 = weave gaps (new_sides hs)"
      using hs Cons.IH by blast
    let ?g = "take (?start - cursor) rest"
    have "rest = ?g @ ?old @ rest'"
      using lines unfolding apply_hunk_lines_iff by (metis append_take_drop_id)
    moreover have "?start = cursor + length ?g" using start by (simp add: min_def) arith
    ultimately show "\<exists>gaps. length gaps = Suc (length (h # hs)) \<and>
        rest = weave gaps (old_sides (h # hs)) \<and> placed cursor gaps (h # hs) \<and> out = weave gaps (new_sides (h # hs))"
      using gaps lines out unfolding apply_hunk_lines_iff old_sides_def new_sides_def
      by (intro exI[of _ "?g # gaps"]) (simp del: length_take)
  next
    assume "\<exists>gaps. length gaps = Suc (length (h # hs)) \<and>
        rest = weave gaps (old_sides (h # hs)) \<and> placed cursor gaps (h # hs) \<and> out = weave gaps (new_sides (h # hs))"
    then obtain gs where gs: "length gs = Suc (Suc (length hs))" "rest = weave gs (old_sides (h # hs))"
        "placed cursor gs (h # hs)" "out = weave gs (new_sides (h # hs))"
      by auto
    then obtain g gaps where "gs = g # gaps" by (cases gs) auto
    with gs(1,2,4) have gaps: "length gaps = Suc (length hs)"
        "rest = g @ ?old @ weave gaps (old_sides hs)" "out = g @ ?new @ weave gaps (new_sides hs)"
      by (simp_all add: old_sides_def new_sides_def)
    have at: "?start = cursor + length g" "placed ?next gaps hs"
      using gs(3) unfolding \<open>gs = g # gaps\<close> placed.simps by blast+
    have "apply_hunk_lines ?start (hk_lines h) (drop (?start - cursor) rest) = Inr (?new, weave gaps (old_sides hs))"
      using gaps at(1) by (simp add: apply_hunk_lines_iff)
    moreover have "apply_hunks p ?next hs (weave gaps (old_sides hs)) = Inr (weave gaps (new_sides hs))"
      using gaps at(2) Cons.IH by blast
    ultimately show "apply_hunks p cursor (h # hs) rest = Inr out"
      using gaps at(1) by (simp add: Let_def)
  qed
qed

text \<open>
  C16. Applying a change to a text is replacing, hunk by hunk, the old side by the new one. It succeeds just
  when the lines of the text are some lines between the hunks interleaved with the old sides of all hunks,
  in order and each at the line its header names; the new text then is the same lines between, interleaved
  with the new sides, every line ended by a newline. So it never guesses a place, and nothing outside the
  hunks changes.
\<close>

theorem patches_replace_their_hunks:
  "applyWorkspacePatchToText existing change = Inr patched \<longleftrightarrow>
    (\<exists>gaps. length gaps = Suc (length (pc_hunks change)) \<and>
      splitTextLines existing = weave gaps (old_sides (pc_hunks change)) \<and> placed 0 gaps (pc_hunks change) \<and>
      patched = text_of (weave gaps (new_sides (pc_hunks change))))"
proof -
  have "applyWorkspacePatchToText existing change = Inr patched \<longleftrightarrow>
      (\<exists>out. apply_hunks (pc_path change) 0 (pc_hunks change) (splitTextLines existing) = Inr out \<and>
        patched = text_of out)"
    by (auto simp: applyWorkspacePatchToText_def text_of_def)
  then show ?thesis unfolding apply_hunks_iff by blast
qed

text \<open>A text of one empty line counts as no lines, so a patch that only adds a line loses the empty one.\<close>

definition add_first_line :: patch_change where
  "add_first_line =
     \<lparr> pc_operation = Patch_Update, pc_path = ''a.md'',
       pc_hunks = [\<lparr> hk_oldStart = 0, hk_oldCount = 0, hk_newStart = 1, hk_newCount = 1,
         hk_lines = [Add_Line ''x''] \<rparr>] \<rparr>"

lemma empty_line_is_lost:
  "applyWorkspacePatchToText [CHR 0x0A] add_first_line = Inr [CHR ''x'', CHR 0x0A]"
  by code_simp

section \<open>Printing\<close>

fun print_line :: "patch_line \<Rightarrow> string" where
  "print_line (Context_Line t) = CHR '' '' # t"
| "print_line (Delete_Line t) = CHR ''-'' # t"
| "print_line (Add_Line t) = CHR ''+'' # t"

definition print_range :: "nat \<Rightarrow> nat \<Rightarrow> string" where
  "print_range start n = nat_text start @ '','' @ nat_text n"

definition print_hunk :: "patch_hunk \<Rightarrow> string list" where
  "print_hunk h =
     (''@@ -'' @ print_range (hk_oldStart h) (hk_oldCount h) @ '' +'' @ print_range (hk_newStart h) (hk_newCount h) @ '' @@'')
     # map print_line (hk_lines h)"

definition print_change :: "patch_change \<Rightarrow> string list" where
  "print_change c =
     [''--- '' @ (if pc_operation c = Patch_Create then ''/dev/null'' else ''a/'' @ pc_path c),
      ''+++ '' @ (if pc_operation c = Patch_Delete then ''/dev/null'' else ''b/'' @ pc_path c)]
     @ concat (map print_hunk (pc_hunks c))"

definition print_patch :: "patch_change list \<Rightarrow> string" where
  "print_patch cs = concat (map (\<lambda>l. l @ [CHR 0x0A]) (concat (map print_change cs)))"

section \<open>What can be printed\<close>

definition one_line :: "string \<Rightarrow> bool" where
  "one_line t \<longleftrightarrow> set t \<inter> {CHR 0x00, CHR 0x0A, CHR 0x0D} = {}"

text \<open>
  A deleted line that begins with two hyphens and a space prints as the header of a file, so it has none of
  these.
\<close>

fun line_ok :: "patch_line \<Rightarrow> bool" where
  "line_ok (Context_Line t) \<longleftrightarrow> one_line t"
| "line_ok (Delete_Line t) \<longleftrightarrow> one_line t \<and> \<not> starts_with t ''-- ''"
| "line_ok (Add_Line t) \<longleftrightarrow> one_line t"

definition hunk_ok :: "patch_hunk \<Rightarrow> bool" where
  "hunk_ok h \<longleftrightarrow> (\<forall>l \<in> set (hk_lines h). line_ok l) \<and> hk_oldCount h = length (old_side (hk_lines h)) \<and>
     hk_newCount h = length (new_side (hk_lines h))"

definition change_ok :: "patch_limits \<Rightarrow> patch_change \<Rightarrow> bool" where
  "change_ok limits c \<longleftrightarrow>
     normalizeWorkspaceFilePath (pl_maxPathLength limits) (pc_path c) = Inr (pc_path c) \<and>
     one_line (pc_path c) \<and> CHR 0x09 \<notin> set (pc_path c) \<and> \<not> is_white (last (pc_path c)) \<and>
     pc_hunks c \<noteq> [] \<and> (\<forall>h \<in> set (pc_hunks c). hunk_ok h)"

definition patch_ok :: "patch_limits \<Rightarrow> patch_change list \<Rightarrow> bool" where
  "patch_ok limits cs \<longleftrightarrow>
     cs \<noteq> [] \<and> (\<forall>c \<in> set cs. change_ok limits c) \<and> distinct (map pc_path cs) \<and>
     length (print_patch cs) \<le> pl_maxApplyPatchBytes limits"

section \<open>Reading what was printed\<close>

lemma digit_char_code: "d < 10 \<Longrightarrow> of_char (digit_char d) = 48 + d"
  by (simp add: digit_char_def)

lemma is_digit_char: "d < 10 \<Longrightarrow> is_digit (digit_char d)"
  by (simp add: is_digit_def digit_char_code)

lemma digits_append: "digits_value (ds @ [c]) = 10 * digits_value ds + (of_char c - 48)"
  by (simp add: digits_value_def)

lemma nat_text_digits: "(\<forall>c \<in> set (nat_text n). is_digit c) \<and> nat_text n \<noteq> []"
proof (induction n rule: nat_text.induct)
  case (1 n)
  show ?case
  proof (cases "n < 10")
    case True
    then show ?thesis by (simp add: nat_text.simps[of n] is_digit_char)
  next
    case False
    with 1 show ?thesis by (auto simp: nat_text.simps[of n] is_digit_char)
  qed
qed

lemma digits_nat_text: "digits_value (nat_text n) = n"
proof (induction n rule: nat_text.induct)
  case (1 n)
  show ?case
  proof (cases "n < 10")
    case True
    then show ?thesis by (subst nat_text.simps) (simp add: digits_value_def digit_char_code)
  next
    case False
    with 1 show ?thesis by (subst nat_text.simps) (simp add: digits_append digit_char_code)
  qed
qed

lemma read_number_nat_text: "(case r of c # _ \<Rightarrow> \<not> is_digit c | [] \<Rightarrow> True) \<Longrightarrow> read_number (nat_text n @ r) = Some (n, r)"
proof -
  assume r: "case r of c # _ \<Rightarrow> \<not> is_digit c | [] \<Rightarrow> True"
  have "takeWhile is_digit (nat_text n @ r) = nat_text n" "dropWhile is_digit (nat_text n @ r) = r"
    using nat_text_digits[of n] r by (auto simp: takeWhile_append dropWhile_append split: list.splits)
  then show ?thesis using nat_text_digits[of n] by (simp add: digits_nat_text Let_def)
qed

lemma read_range_print:
  assumes "case r of c # _ \<Rightarrow> \<not> is_digit c | [] \<Rightarrow> True"
  shows "read_range (print_range a b @ r) = Some ((a, b), r)"
proof -
  have "\<not> is_digit CHR '',''" by code_simp
  then show ?thesis
    using read_number_nat_text[of "'','' @ nat_text b @ r" a] read_number_nat_text[OF assms, of b]
    by (simp add: read_range_def print_range_def del: read_number.simps)
qed

lemma read_header_print:
  "read_hunk_header (''@@ -'' @ print_range a b @ '' +'' @ print_range c d @ '' @@'') = Some ((a, b), (c, d))"
proof -
  have "\<not> is_digit CHR '' ''" by code_simp
  then show ?thesis
    using read_range_print[of "'' +'' @ print_range c d @ '' @@''" a b] read_range_print[of "'' @@''" c d]
    by (simp add: read_hunk_header_def)
qed

lemma print_line_kept:
  assumes "line_ok l"
  shows "\<not> ends_hunk (print_line l)" "print_line l \<noteq> no_final_newline"
  using assms by (cases l; simp add: ends_hunk_def no_final_newline_def)+

lemma read_lines_print:
  "(\<forall>l \<in> set ls. line_ok l) \<Longrightarrow> (case rest of l # _ \<Rightarrow> ends_hunk l | [] \<Rightarrow> True) \<Longrightarrow>
    read_hunk_lines i (map print_line ls @ rest) = Inr (ls, rest, i + length ls)"
proof (induction ls arbitrary: i)
  case Nil
  then show ?case by (cases rest) simp_all
next
  case (Cons l ls)
  then have "read_hunk_lines (i + 1) (map print_line ls @ rest) = Inr (ls, rest, i + 1 + length ls)" by simp
  with print_line_kept[of l] Cons.prems show ?case by (cases l) (simp_all add: Let_def)
qed

lemma parse_hunk_print:
  assumes "hunk_ok h" "case rest of l # _ \<Rightarrow> ends_hunk l | [] \<Rightarrow> True"
  shows "parseHunk (hd (print_hunk h)) i (tl (print_hunk h) @ rest) p =
    Inr (h, rest, i + 1 + length (hk_lines h))"
proof -
  have "read_hunk_header (hd (print_hunk h)) = Some ((hk_oldStart h, hk_oldCount h), (hk_newStart h, hk_newCount h))"
    by (simp only: print_hunk_def list.sel read_header_print)
  moreover have "tl (print_hunk h) = map print_line (hk_lines h)" by (simp add: print_hunk_def)
  ultimately show ?thesis
    using assms read_lines_print[of "hk_lines h" rest "i + 1"] by (simp add: parseHunk_def hunk_ok_def)
qed

lemma trim_not_blank:
  assumes "c \<in> set s" "\<not> is_white c"
  shows "trim s \<noteq> []"
proof -
  from assms obtain xs where "trim_start s = xs" "c \<in> set xs"
    unfolding trim_start_def by (metis Un_iff set_append set_takeWhileD takeWhile_dropWhile_id)
  with assms show ?thesis by (auto simp: trim_def trim_end_def)
qed

lemma hunk_header_line:
  "\<exists>header ls. print_hunk h = header # ls \<and> starts_with header ''@@ '' \<and> \<not> starts_with header ''--- '' \<and>
    \<not> starts_with header ''diff --git '' \<and> \<not> skipped header \<and> \<not> isBinaryLine header"
proof -
  have "trim (''@@ -'' @ t) \<noteq> []" for t
    by (rule trim_not_blank[of "CHR ''@''"]) (simp_all add: is_white_def)
  then show ?thesis by (simp add: print_hunk_def skipped_def isGitMetadataLine_def isBinaryLine_def)
qed

abbreviation ends_file :: "string list \<Rightarrow> bool" where
  "ends_file rest \<equiv> (case rest of l # _ \<Rightarrow> starts_with l ''--- '' | [] \<Rightarrow> True)"

lemma parse_hunks_print:
  "(\<forall>h \<in> set hs. hunk_ok h) \<Longrightarrow> ends_file rest \<Longrightarrow>
    parse_hunks p i (concat (map print_hunk hs) @ rest) =
      Inr (hs, rest, i + length (concat (map print_hunk hs)))"
proof (induction hs arbitrary: i)
  case Nil
  then show ?case by (cases rest) simp_all
next
  case (Cons h hs)
  let ?later = "concat (map print_hunk hs) @ rest"
  obtain header ls where header: "print_hunk h = header # ls" "starts_with header ''@@ ''" "\<not> starts_with header ''--- ''"
    "\<not> starts_with header ''diff --git ''" "\<not> skipped header" "\<not> isBinaryLine header"
    using hunk_header_line by blast
  have "case ?later of l # _ \<Rightarrow> ends_hunk l | [] \<Rightarrow> True"
  proof (cases hs)
    case Nil
    with Cons.prems(2) show ?thesis by (cases rest) (simp_all add: ends_hunk_def)
  next
    case (Cons h' hs')
    then show ?thesis using hunk_header_line[of h'] by (auto simp: ends_hunk_def)
  qed
  with Cons.prems have "parseHunk header i (ls @ ?later) p = Inr (h, ?later, i + 1 + length (hk_lines h))"
    using parse_hunk_print[of h ?later i p] header(1) by simp
  moreover have "length ls = length (hk_lines h)" using header(1) by (auto simp: print_hunk_def)
  ultimately show ?case using header Cons by simp
qed

lemma dev_null_header: "normalizePatchHeaderPath limits ''/dev/null'' = Inr None"
proof -
  have "trim (hd (split_on CHR 0x09 ''/dev/null'')) = ''/dev/null''" by code_simp
  then show ?thesis by (simp add: normalizePatchHeaderPath_def Let_def)
qed

lemma path_header:
  assumes c: "change_ok limits c" and pre: "pre \<in> {''a/'', ''b/''}"
  shows "normalizePatchHeaderPath limits (pre @ pc_path c) = Inr (Some (pc_path c))"
proof -
  let ?p = "pc_path c"
  have "normalizeWorkspaceFilePath (pl_maxPathLength limits) [] \<noteq> Inr []"
    by (simp add: normalizeWorkspaceFilePath_def normalizeWorkspacePath_def workspace_relative_def trim_def
        trim_start_def trim_end_def path_failed_def)
  with c have ne: "?p \<noteq> []" by (auto simp: change_ok_def)
  have "split_on CHR 0x09 (pre @ ?p) = [pre @ ?p]"
    using c pre by (intro split_on_no_sep) (auto simp: change_ok_def)
  moreover have "trim (pre @ ?p) = pre @ ?p"
  proof -
    have "trim_start (pre @ ?p) = pre @ ?p" using pre by (auto simp: trim_start_def is_white_def)
    moreover have "trim_end (pre @ ?p) = pre @ ?p"
      using c ne by (cases ?p rule: rev_cases) (auto simp: trim_end_def change_ok_def)
    ultimately show ?thesis by (simp add: trim_def)
  qed
  moreover have "pre @ ?p \<noteq> ''/dev/null''" "stripWorkspacePatchPrefix (pre @ ?p) = Inr ?p"
    using pre by (auto simp: stripWorkspacePatchPrefix_def)
  ultimately show ?thesis
    using c by (simp add: normalizePatchHeaderPath_def Let_def change_ok_def workspacePathValidationToToolValidation_def)
qed

lemma file_header_line:
  "trim (''--- '' @ t) \<noteq> []" "\<not> starts_with (''--- '' @ t) ''diff --git ''" "\<not> isGitMetadataLine (''--- '' @ t)"
  "\<not> isBinaryLine (''--- '' @ t)"
proof -
  show "trim (''--- '' @ t) \<noteq> []" by (rule trim_not_blank[of "CHR ''-''"]) (simp_all add: is_white_def)
qed (simp_all add: isGitMetadataLine_def isBinaryLine_def)

lemma parse_changes_print:
  "(\<forall>c \<in> set cs. change_ok limits c) \<Longrightarrow> parse_changes limits i (concat (map print_change cs)) = Inr cs"
proof (induction cs arbitrary: i)
  case Nil
  then show ?case by simp
next
  case (Cons c cs)
  let ?later = "concat (map print_change cs)" and ?hunks = "concat (map print_hunk (pc_hunks c))"
  let ?old = "if pc_operation c = Patch_Create then ''/dev/null'' else ''a/'' @ pc_path c"
  let ?new = "if pc_operation c = Patch_Delete then ''/dev/null'' else ''b/'' @ pc_path c"
  have c: "change_ok limits c" using Cons.prems by simp
  have hunks: "parse_hunks (pc_path c) (i + 2) (?hunks @ ?later) = Inr (pc_hunks c, ?later, i + 2 + length ?hunks)"
    using c by (intro parse_hunks_print) (cases cs; simp add: change_ok_def print_change_def)+
  have old: "normalizePatchHeaderPath limits ?old = Inr (if pc_operation c = Patch_Create then None else Some (pc_path c))"
    and new: "normalizePatchHeaderPath limits ?new = Inr (if pc_operation c = Patch_Delete then None else Some (pc_path c))"
    using path_header[OF c, of "''a/''"] path_header[OF c, of "''b/''"] dev_null_header by simp_all
  have op: "resolvePatchOperation (if pc_operation c = Patch_Create then None else Some (pc_path c))
      (if pc_operation c = Patch_Delete then None else Some (pc_path c)) = Inr (pc_operation c, pc_path c)"
    by (cases "pc_operation c") (simp_all add: resolvePatchOperation_def)
  have parsed: "parse_changes limits i ((''--- '' @ ?old) # (''+++ '' @ ?new) # ?hunks @ ?later) =
      bind_result (parse_changes limits (i + 2 + length ?hunks) ?later) (\<lambda>changes.
        Inr (\<lparr> pc_operation = pc_operation c, pc_path = pc_path c, pc_hunks = pc_hunks c \<rparr> # changes))"
    using file_header_line[of ?old] c hunks old new op
    by (simp add: change_ok_def)
  have split: "concat (map print_change (c # cs)) = (''--- '' @ ?old) # (''+++ '' @ ?new) # ?hunks @ ?later"
    by (simp add: print_change_def)
  from Cons have "parse_changes limits (i + 2 + length ?hunks) ?later = Inr cs" by simp
  then show ?case unfolding split parsed by simp
qed

lemma one_line_append [simp]: "one_line (s @ t) \<longleftrightarrow> one_line s \<and> one_line t"
  by (auto simp: one_line_def)

lemma one_line_Cons [simp]:
  "one_line [] \<longleftrightarrow> True"
  "one_line (c # t) \<longleftrightarrow> c \<noteq> CHR 0x00 \<and> c \<noteq> CHR 0x0A \<and> c \<noteq> CHR 0x0D \<and> one_line t"
  by (auto simp: one_line_def)

lemma one_line_nat_text [simp]: "one_line (nat_text n)"
proof -
  have "\<not> is_digit CHR 0x00" "\<not> is_digit CHR 0x0A" "\<not> is_digit CHR 0x0D" by code_simp+
  then show ?thesis using nat_text_digits[of n] by (auto simp: one_line_def)
qed

lemma one_line_print: "line_ok l \<Longrightarrow> one_line (print_line l)"
  by (cases l) simp_all

lemma print_change_lines: "change_ok limits c \<Longrightarrow> l \<in> set (print_change c) \<Longrightarrow> one_line l"
proof -
  assume c: "change_ok limits c" and l: "l \<in> set (print_change c)"
  have hunk: "one_line l" if "h \<in> set (pc_hunks c)" "l \<in> set (print_hunk h)" for h
    using that c by (auto simp: print_hunk_def print_range_def change_ok_def hunk_ok_def one_line_print)
  from l consider "l = ''--- '' @ (if pc_operation c = Patch_Create then ''/dev/null'' else ''a/'' @ pc_path c)"
    | "l = ''+++ '' @ (if pc_operation c = Patch_Delete then ''/dev/null'' else ''b/'' @ pc_path c)"
    | h where "h \<in> set (pc_hunks c)" "l \<in> set (print_hunk h)"
    unfolding print_change_def by auto
  then show ?thesis
  proof cases
    case 3
    then show ?thesis by (rule hunk)
  qed (use c in \<open>simp_all add: change_ok_def\<close>)
qed

lemma unix_newlines_same: "CHR 0x0D \<notin> set s \<Longrightarrow> unix_newlines s = s"
proof -
  have "unix_newlines_after False s = s" if "CHR 0x0D \<notin> set s" using that by (induction s) auto
  then show "CHR 0x0D \<notin> set s \<Longrightarrow> unix_newlines s = s" by (simp add: unix_newlines_def)
qed

lemma split_lines: "(\<forall>l \<in> set ls. one_line l) \<Longrightarrow> splitPatchLines (concat (map (\<lambda>l. l @ [CHR 0x0A]) ls)) = ls"
proof -
  assume ls: "\<forall>l \<in> set ls. one_line l"
  let ?t = "concat (map (\<lambda>l. l @ [CHR 0x0A]) ls)"
  have "CHR 0x0D \<notin> set ?t" using ls by (auto simp: one_line_def)
  moreover have "split_on CHR 0x0A ?t = ls @ [[]]"
    using ls by (induction ls) (simp_all add: split_on_append_sep split_on_no_sep one_line_def)
  ultimately show ?thesis by (simp add: splitPatchLines_def unix_newlines_same)
qed

lemma repeated_path_none:
  "distinct (map pc_path cs) \<Longrightarrow> pc_path ` set cs \<inter> set seen = {} \<Longrightarrow> repeated_path seen cs = None"
  by (induction cs arbitrary: seen) auto

text \<open>
  C17. A patch that is printed as a unified diff is read back as it was: every file with its operation and
  path, every hunk with its header and its lines. What can be printed is any list of changes of different
  files with normalized paths, whose hunks count their lines right and whose deleted lines do not look like
  the header of a file.
\<close>

theorem patches_read_as_printed:
  assumes "patch_ok limits cs"
  shows "parseWorkspaceApplyPatch (print_patch cs) limits = Inr cs"
proof -
  let ?ls = "concat (map print_change cs)"
  have lines: "\<forall>l \<in> set ?ls. one_line l"
    using assms print_change_lines by (fastforce simp: patch_ok_def)
  then have "CHR 0x00 \<notin> set (print_patch cs)" by (auto simp: print_patch_def one_line_def)
  moreover have "splitPatchLines (print_patch cs) = ?ls"
    unfolding print_patch_def using lines by (rule split_lines)
  moreover have "parse_changes limits 0 ?ls = Inr cs"
    using assms by (intro parse_changes_print) (simp add: patch_ok_def)
  moreover have "repeated_path [] cs = None"
    using assms by (intro repeated_path_none) (auto simp: patch_ok_def)
  ultimately show ?thesis
    using assms by (simp add: parseWorkspaceApplyPatch_def patch_ok_def)
qed

definition readme_change :: patch_change where
  "readme_change =
     \<lparr> pc_operation = Patch_Update, pc_path = ''docs/a.md'',
       pc_hunks = [\<lparr> hk_oldStart = 1, hk_oldCount = 2, hk_newStart = 1, hk_newCount = 2,
         hk_lines = [Context_Line ''one'', Delete_Line ''two'', Add_Line ''2''] \<rparr>] \<rparr>"

definition small_limits :: patch_limits where
  "small_limits = \<lparr> pl_maxApplyPatchBytes = 200, pl_maxPathLength = 40 \<rparr>"

text \<open>A deleted line that begins with two hyphens and a space is taken for the header of a file.\<close>

definition delete_comment :: patch_change where
  "delete_comment =
     \<lparr> pc_operation = Patch_Update, pc_path = ''a.sql'',
       pc_hunks = [\<lparr> hk_oldStart = 1, hk_oldCount = 1, hk_newStart = 0, hk_newCount = 0,
         hk_lines = [Delete_Line ''-- note''] \<rparr>] \<rparr>"

lemma deleted_comment_is_refused:
  "parseWorkspaceApplyPatch (print_patch [delete_comment]) small_limits =
    validationFailed ''Workspace patch hunk line counts do not match the header''
      (Some (JObj [(''path'', JStr ''a.sql''), (''oldCount'', jnat 1), (''actualOldCount'', jnat 0),
        (''newCount'', jnat 0), (''actualNewCount'', jnat 0)]))"
  by code_simp

lemma patches_read_as_printed_witness:
  "parseWorkspaceApplyPatch (print_patch [readme_change]) small_limits = Inr [readme_change]"
proof (rule patches_read_as_printed)
  show "patch_ok small_limits [readme_change]" by code_simp
qed

end
