(* ===== verification/Run_State.thy ===== *)
theory Run_State imports Job_Kinds Tool_Results "HOL-Library.AList" begin

text \<open>
  One agent run in execution (\<open>packages/agent-runtime/src/run-state.ts\<close>): its events in order, its status,
  the writes of its events and its observers; with the events and statuses of
  \<open>packages/core/src/agent-runtime.ts\<close>.
\<close>

section \<open>Statuses and events\<close>

datatype agent_run_status =
  Rn_Queued | Rn_Running | Rn_Waiting_For_Permission | Rn_Cancelling | Rn_Completed | Rn_Cancelled | Rn_Failed

datatype run_failure_category =
  Cat_App_Error | Cat_Internal_Error | Cat_Runtime_Interrupted | Cat_Abort_Error | Cat_Unknown_Error

record agent_run_error =
  re_code :: string
  re_message :: string
  re_category :: run_failure_category

record run_message =
  rm_id :: string
  rm_text :: string
  rm_metadata :: "json option"

datatype run_event =
  Ev_Message_Delta string
| Ev_Reasoning_Delta string string
| Ev_Message_Completed run_message
| Ev_Tool_Call_Preparing string string
| Ev_Tool_Call_Preparation_Cancelled string
| Ev_Tool_Call_Started string string json
| Ev_Tool_Permission_Requested string string string "json option"
| Ev_Tool_Call_Completed string string tool_result string "json option"
| Ev_Tool_Call_Failed string string tool_result string "json option"
| Ev_Run_Completed
| Ev_Run_Cancelled "string option"
| Ev_Run_Failed agent_run_error

record agent_runtime_event =
  ev_runId :: string
  ev_sequence :: nat
  ev_createdAt :: time
  ev_event :: run_event

fun isTerminalRunEvent :: "run_event \<Rightarrow> bool" where
  "isTerminalRunEvent Ev_Run_Completed = True"
| "isTerminalRunEvent (Ev_Run_Cancelled _) = True"
| "isTerminalRunEvent (Ev_Run_Failed _) = True"
| "isTerminalRunEvent _ = False"

section \<open>Why a run failed\<close>

text \<open>What was thrown: an error of the platform or another \<open>Error\<close>, an \<open>AbortError\<close>, or any other value.\<close>

datatype thrown = Thrown_Error js_error | Thrown_Abort string | Thrown_Value

fun categorizeRunFailure :: "thrown \<Rightarrow> run_failure_category" where
  "categorizeRunFailure (Thrown_Error (App_Error e)) =
     (if err_code e = INTERNAL then Cat_Internal_Error else Cat_App_Error)"
| "categorizeRunFailure (Thrown_Error (Foreign_Error _)) = Cat_Internal_Error"
| "categorizeRunFailure (Thrown_Abort _) = Cat_Abort_Error"
| "categorizeRunFailure Thrown_Value = Cat_Unknown_Error"

definition toRunFailureError :: "thrown \<Rightarrow> agent_run_error" where
  "toRunFailureError t =
     \<lparr> re_code = (case t of Thrown_Error (App_Error e) \<Rightarrow> code_name (err_code e) | _ \<Rightarrow> ''INTERNAL''),
       re_message = (case t of
           Thrown_Error (App_Error e) \<Rightarrow> (if err_code e \<noteq> INTERNAL then err_message e else ''Agent run failed'')
         | _ \<Rightarrow> ''Agent run failed''),
       re_category = categorizeRunFailure t \<rparr>"

section \<open>The state\<close>

text \<open>
  \<open>rs_writes\<close> are the events handed to \<open>onEvent\<close> whose write has not settled yet, in the order of the
  queue; \<open>rs_onEvent\<close> says whether there is an \<open>onEvent\<close>.
\<close>

record run_state =
  rs_runId :: string
  rs_startedAt :: time
  rs_status :: agent_run_status
  rs_sequence :: nat
  rs_closed :: bool
  rs_cancellationStarted :: bool
  rs_messageCompleted :: bool
  rs_streamedText :: string
  rs_reasoningById :: "(string \<times> string) list"
  rs_events :: "agent_runtime_event list"
  rs_onEvent :: bool
  rs_writes :: "agent_runtime_event list"
  rs_persistenceFailed :: bool

definition new_run_state :: "string \<Rightarrow> time \<Rightarrow> bool \<Rightarrow> run_state" where
  "new_run_state runId startedAt onEvent =
     \<lparr> rs_runId = runId, rs_startedAt = startedAt, rs_status = Rn_Running, rs_sequence = 0, rs_closed = False,
       rs_cancellationStarted = False, rs_messageCompleted = False, rs_streamedText = [], rs_reasoningById = [],
       rs_events = [], rs_onEvent = onEvent, rs_writes = [], rs_persistenceFailed = False \<rparr>"

section \<open>Operations\<close>

definition persistEvent :: "agent_runtime_event \<Rightarrow> run_state \<Rightarrow> run_state" where
  "persistEvent ev s = (if rs_onEvent s then s\<lparr>rs_writes := rs_writes s @ [ev]\<rparr> else s)"

definition reasoning_of :: "string \<Rightarrow> run_state \<Rightarrow> string" where
  "reasoning_of i s = (case map_of (rs_reasoningById s) i of Some t \<Rightarrow> t | None \<Rightarrow> [])"

fun note_event :: "run_event \<Rightarrow> run_state \<Rightarrow> run_state" where
  "note_event (Ev_Message_Delta delta) s = s\<lparr>rs_streamedText := rs_streamedText s @ delta\<rparr>"
| "note_event (Ev_Reasoning_Delta i delta) s =
     s\<lparr>rs_reasoningById := AList.update i (reasoning_of i s @ delta) (rs_reasoningById s)\<rparr>"
| "note_event (Ev_Message_Completed m) s = s\<lparr>rs_messageCompleted := True, rs_streamedText := rm_text m\<rparr>"
| "note_event _ s = s"

definition emitRuntimeEvent :: "bool \<Rightarrow> time \<Rightarrow> run_event \<Rightarrow> run_state \<Rightarrow> run_state" where
  "emitRuntimeEvent allowDuringCancellation now e s =
     (if rs_closed s \<or> rs_cancellationStarted s \<and> \<not> allowDuringCancellation then s
      else
        (let ev = \<lparr> ev_runId = rs_runId s, ev_sequence = rs_sequence s + 1, ev_createdAt = now, ev_event = e \<rparr>;
             s1 = note_event e s
         in persistEvent ev (s1\<lparr>rs_sequence := rs_sequence s + 1, rs_events := rs_events s @ [ev]\<rparr>)))"

definition emit :: "time \<Rightarrow> run_event \<Rightarrow> run_state \<Rightarrow> run_state" where
  "emit now e s = emitRuntimeEvent False now e s"

definition completeMessage :: "time \<Rightarrow> run_message \<Rightarrow> run_state \<Rightarrow> run_state" where
  "completeMessage now m s = emitRuntimeEvent False now (Ev_Message_Completed m) s"

definition message :: "time \<Rightarrow> run_message \<Rightarrow> run_state \<Rightarrow> run_state" where
  "message now m s = completeMessage now m (emit now (Ev_Message_Delta (rm_text m)) s)"

definition beginCancellation :: "run_state \<Rightarrow> string option \<times> run_state" where
  "beginCancellation s =
     (if rs_closed s then (None, s)
      else (if \<not> rs_messageCompleted s \<and> rs_streamedText s \<noteq> [] then Some (rs_streamedText s) else None,
        s\<lparr>rs_status := Rn_Cancelling, rs_cancellationStarted := True\<rparr>))"

definition getReasoningSummaries :: "run_state \<Rightarrow> (string \<times> string) list" where
  "getReasoningSummaries s = filter (\<lambda>(i, t). t \<noteq> []) (rs_reasoningById s)"

definition close_run :: "run_state \<Rightarrow> run_state" where
  "close_run s = s\<lparr>rs_closed := True\<rparr>"

definition complete :: "time \<Rightarrow> run_state \<Rightarrow> run_state" where
  "complete now s =
     (if rs_closed s then s
      else close_run (emitRuntimeEvent True now Ev_Run_Completed (s\<lparr>rs_status := Rn_Completed\<rparr>)))"

definition cancel :: "time \<Rightarrow> string option \<Rightarrow> run_message option \<Rightarrow> run_state \<Rightarrow> run_state" where
  "cancel now reason partialMessage s =
     (if rs_closed s then s
      else
        (let s1 = s\<lparr>rs_cancellationStarted := True, rs_status := Rn_Cancelled\<rparr>;
             s2 = (case partialMessage of
                Some m \<Rightarrow> if \<not> rs_messageCompleted s1 then emitRuntimeEvent True now (Ev_Message_Completed m) s1 else s1
              | None \<Rightarrow> s1)
         in close_run (emitRuntimeEvent True now (Ev_Run_Cancelled reason) s2)))"

definition fail :: "time \<Rightarrow> agent_run_error \<Rightarrow> run_state \<Rightarrow> run_state" where
  "fail now failure s =
     (if rs_closed s then s
      else close_run (emitRuntimeEvent True now (Ev_Run_Failed failure) (s\<lparr>rs_status := Rn_Failed\<rparr>)))"

definition persistence_error :: agent_run_error where
  "persistence_error =
     \<lparr> re_code = ''OBSERVATION_PERSISTENCE_FAILED'', re_message = ''Agent run observation persistence failed'',
       re_category = Cat_Internal_Error \<rparr>"

text \<open>The write at the head of the queue settles.\<close>

definition write_settled :: "time \<Rightarrow> bool \<Rightarrow> run_state \<Rightarrow> run_state" where
  "write_settled now ok s =
     (case rs_writes s of
        [] \<Rightarrow> s
      | _ # later \<Rightarrow>
          (let s1 = s\<lparr>rs_writes := later\<rparr> in
           if ok \<or> rs_closed s1 \<or> rs_persistenceFailed s1 then s1
           else fail now persistence_error (s1\<lparr>rs_persistenceFailed := True\<rparr>)))"

section \<open>Observers\<close>

definition observe_start :: "nat \<Rightarrow> run_state \<Rightarrow> nat" where
  "observe_start afterSequence s =
     (case List.find (\<lambda>i. ev_sequence (rs_events s ! i) > afterSequence) [0..<length (rs_events s)] of
        Some i \<Rightarrow> i
      | None \<Rightarrow> length (rs_events s))"

text \<open>What an observer at an index of the events does next; it waits for the writes of an event that ends the run.\<close>

datatype observation_step = Observed agent_runtime_event nat | Observe_Waits | Observe_Ends

definition observe_next :: "nat \<Rightarrow> run_state \<Rightarrow> observation_step" where
  "observe_next index s =
     (if index < length (rs_events s) then
        (if isTerminalRunEvent (ev_event (rs_events s ! index)) \<and> rs_writes s \<noteq> [] then Observe_Waits
         else Observed (rs_events s ! index) (index + 1))
      else if rs_closed s \<and> rs_writes s = [] then Observe_Ends
      else Observe_Waits)"

section \<open>Steps\<close>

text \<open>
  Everything that happens to a run: its own operations, an abort or cancel from outside, and the writes of
  its events, in any order. \<open>emit\<close> is called with every event but the ones that end a run, which have
  operations of their own.
\<close>

inductive run_step :: "run_state \<Rightarrow> run_state \<Rightarrow> bool" where
  step_emit: "\<not> isTerminalRunEvent e \<Longrightarrow> run_step s (emit now e s)"
| step_completeMessage: "run_step s (completeMessage now m s)"
| step_beginCancellation: "run_step s (snd (beginCancellation s))"
| step_complete: "run_step s (complete now s)"
| step_cancel: "run_step s (cancel now reason partialMessage s)"
| step_fail: "run_step s (fail now failure s)"
| step_written: "run_step s (write_settled now ok s)"

definition run_starts :: "run_state \<Rightarrow> bool" where
  "run_starts s \<longleftrightarrow> (\<exists>runId startedAt onEvent. s = new_run_state runId startedAt onEvent)"

lemma message_steps: "run_step\<^sup>*\<^sup>* s (message now m s)"
proof -
  let ?t = "emit now (Ev_Message_Delta (rm_text m)) s"
  have "run_step s ?t" by (rule step_emit) simp
  moreover have "run_step ?t (completeMessage now m ?t)" by (rule step_completeMessage)
  ultimately show ?thesis unfolding message_def by (meson r_into_rtranclp rtranclp.rtrancl_into_rtrancl)
qed

end
