(* ===== verification/Run_Projection.thy ===== *)
theory Run_Projection imports Run_State begin

text \<open>
  What a reader is shown of a run: its row and the stored events, projected
  (\<open>packages/core/src/agent-run-projection.ts\<close>). Of a row only what the projection reads.
\<close>

section \<open>Rows and projections\<close>

record agent_run_row =
  ar_id :: string
  ar_status :: agent_run_status
  ar_startedAt :: time
  ar_endedAt :: "time option"
  ar_lastSequence :: nat
  ar_error :: "agent_run_error option"

record run_observation =
  ob_sequence :: nat
  ob_payload :: run_event

datatype call_state = Input_Available | Waiting_For_Permission | Output_Available | Output_Error

record shown_call =
  sc_toolCallId :: string
  sc_toolName :: string
  sc_input :: "json option"
  sc_state :: call_state
  sc_output :: "json option"
  sc_errorText :: "string option"

record shown_reasoning =
  sr_id :: string
  sr_text :: string
  sr_open :: bool

datatype run_part = Text_Part string | Reasoning_Part shown_reasoning | Call_Part shown_call

record run_projection =
  pj_runId :: string
  pj_lastSequence :: nat
  pj_status :: agent_run_status
  pj_durationMs :: "time option"
  pj_parts :: "run_part list"
  pj_text :: string
  pj_reasoning :: "shown_reasoning list"
  pj_preparingTool :: "(string \<times> string) option"
  pj_activeToolCalls :: "shown_call list"
  pj_error :: "agent_run_error option"

definition createAgentRunProjection :: "agent_run_row \<Rightarrow> run_projection" where
  "createAgentRunProjection run =
     \<lparr> pj_runId = ar_id run, pj_lastSequence = ar_lastSequence run, pj_status = ar_status run,
       pj_durationMs = map_option (\<lambda>endedAt. max 0 (endedAt - ar_startedAt run)) (ar_endedAt run),
       pj_parts = [], pj_text = [], pj_reasoning = [], pj_preparingTool = None, pj_activeToolCalls = [],
       pj_error = ar_error run \<rparr>"

section \<open>Parts\<close>

definition cloneParts :: "run_projection \<Rightarrow> run_part list" where
  "cloneParts p =
     (if pj_parts p \<noteq> [] then pj_parts p
      else
        (let parts = map Reasoning_Part (pj_reasoning p) @ map Call_Part (pj_activeToolCalls p)
         in if pj_text p \<noteq> [] \<or> parts = [] then parts @ [Text_Part (pj_text p)] else parts))"

definition appendText :: "string \<Rightarrow> run_part list \<Rightarrow> run_part list" where
  "appendText delta parts =
     (if delta = [] then parts
      else
        (case rev parts of
           Text_Part t # before \<Rightarrow> rev before @ [Text_Part (t @ delta)]
         | _ \<Rightarrow> parts @ [Text_Part delta]))"

fun part_text :: "run_part \<Rightarrow> string" where
  "part_text (Text_Part t) = t"
| "part_text _ = []"

definition observedText :: "run_part list \<Rightarrow> string" where
  "observedText parts = concat (map part_text parts)"

definition reconcileCompletedText :: "string \<Rightarrow> run_part list \<Rightarrow> run_part list" where
  "reconcileCompletedText completedText parts =
     (let observed = observedText parts in
      if observed = [] then
        (if completedText \<noteq> [] \<or> parts = [] then parts @ [Text_Part completedText] else parts)
      else if completedText = observed \<or> completedText \<noteq> [] \<and> ends_with observed completedText then parts
      else if starts_with completedText observed then appendText (drop (length observed) completedText) parts
      else if completedText \<noteq> [] then appendText completedText parts
      else parts)"

fun same_part :: "run_part \<Rightarrow> run_part \<Rightarrow> bool" where
  "same_part (Call_Part c) (Call_Part d) \<longleftrightarrow> sc_toolCallId c = sc_toolCallId d"
| "same_part (Reasoning_Part r) (Reasoning_Part q) \<longleftrightarrow> sr_id r = sr_id q"
| "same_part _ _ \<longleftrightarrow> False"

text \<open>The first entry that matches is replaced; without one the new entry comes last.\<close>

fun upsert :: "('a \<Rightarrow> bool) \<Rightarrow> 'a \<Rightarrow> 'a list \<Rightarrow> 'a list" where
  "upsert p x [] = [x]"
| "upsert p x (y # ys) = (if p y then x # ys else y # upsert p x ys)"

definition upsertPart :: "run_part \<Rightarrow> run_part list \<Rightarrow> run_part list" where
  "upsertPart part parts = upsert (\<lambda>candidate. same_part candidate part) part parts"

definition upsertToolCall :: "shown_call \<Rightarrow> shown_call list \<Rightarrow> shown_call list" where
  "upsertToolCall c cs = upsert (\<lambda>entry. sc_toolCallId entry = sc_toolCallId c) c cs"

definition findToolCallInput :: "shown_call list \<Rightarrow> string \<Rightarrow> json option" where
  "findToolCallInput cs i =
     (case List.find (\<lambda>entry. sc_toolCallId entry = i) cs of Some c \<Rightarrow> sc_input c | None \<Rightarrow> None)"

section \<open>Results\<close>

definition given :: "string \<Rightarrow> json option \<Rightarrow> (string \<times> json) list" where
  "given name v = (case v of Some j \<Rightarrow> [(name, j)] | None \<Rightarrow> [])"

fun status_name :: "failed_status \<Rightarrow> string" where
  "status_name Status_Failed = ''failed''"
| "status_name Status_Cancelled = ''cancelled''"
| "status_name Status_Timed_Out = ''timed_out''"

fun tool_code_name :: "tool_error_code \<Rightarrow> string" where
  "tool_code_name Tool_Not_Found = ''tool_not_found''"
| "tool_code_name Not_Allowed = ''not_allowed''"
| "tool_code_name Approval_Required = ''approval_required''"
| "tool_code_name Validation_Failed = ''validation_failed''"
| "tool_code_name Handler_Failed = ''handler_failed''"
| "tool_code_name Cancelled_Call = ''cancelled''"
| "tool_code_name Timed_Out = ''timed_out''"
| "tool_code_name Repeated_Tool_Call = ''repeated_tool_call''"

definition failure_json :: "tool_failure \<Rightarrow> json" where
  "failure_json f =
     JObj ([(''code'', JStr (tool_code_name (tf_code f))), (''message'', JStr (tf_message f))]
       @ given ''details'' (tf_details f))"

text \<open>Members that are undefined are no members.\<close>

fun toToolOutput :: "tool_result \<Rightarrow> json option \<Rightarrow> json" where
  "toToolOutput (Tool_Success r) notice =
     JObj ([(''status'', JStr ''success'')] @ given ''output'' (ts_output r) @ given ''display'' (ts_display r)
       @ given ''structuredResult'' (ts_structuredResult r) @ given ''artifacts'' (ts_artifacts r)
       @ given ''projectionNotice'' notice)"
| "toToolOutput (Tool_Failure st f) notice =
     JObj ([(''status'', JStr (status_name st)), (''error'', failure_json f)] @ given ''projectionNotice'' notice)"

fun toToolError :: "tool_result \<Rightarrow> string" where
  "toToolError (Tool_Success r) = ''Tool call failed''"
| "toToolError (Tool_Failure st f) = tf_message f"

fun statusAfterEvent :: "agent_run_status \<Rightarrow> run_event \<Rightarrow> agent_run_status" where
  "statusAfterEvent st Ev_Run_Completed = Rn_Completed"
| "statusAfterEvent st (Ev_Run_Cancelled r) = Rn_Cancelled"
| "statusAfterEvent st (Ev_Run_Failed e) = Rn_Failed"
| "statusAfterEvent st _ = st"

section \<open>One event\<close>

text \<open>What an event changes: the parts, the text, the reasoning, the active calls, the tool in preparation.\<close>

definition show_call :: "shown_call \<Rightarrow> run_projection \<Rightarrow> run_projection" where
  "show_call c p =
     p\<lparr>pj_activeToolCalls := upsertToolCall c (pj_activeToolCalls p), pj_parts := upsertPart (Call_Part c) (pj_parts p)\<rparr>"

definition is_prepared :: "string \<Rightarrow> run_projection \<Rightarrow> bool" where
  "is_prepared i p \<longleftrightarrow> map_option fst (pj_preparingTool p) = Some i"

definition reasoning_entry :: "string \<Rightarrow> string \<Rightarrow> shown_reasoning list \<Rightarrow> shown_reasoning" where
  "reasoning_entry i delta rs =
     (case List.find (\<lambda>r. sr_id r = i) rs of
        Some r \<Rightarrow> r\<lparr>sr_text := sr_text r @ delta, sr_open := True\<rparr>
      | None \<Rightarrow> \<lparr> sr_id = i, sr_text = delta, sr_open = True \<rparr>)"

fun close_part :: "run_part \<Rightarrow> run_part" where
  "close_part (Reasoning_Part r) = Reasoning_Part (r\<lparr>sr_open := False\<rparr>)"
| "close_part q = q"

definition close_shown :: "run_projection \<Rightarrow> run_projection" where
  "close_shown p =
     p\<lparr>pj_preparingTool := None, pj_reasoning := map (\<lambda>r. r\<lparr>sr_open := False\<rparr>) (pj_reasoning p),
       pj_parts := map close_part (pj_parts p)\<rparr>"

definition new_call :: "string \<Rightarrow> string \<Rightarrow> json option \<Rightarrow> call_state \<Rightarrow> shown_call" where
  "new_call i name inp st =
     \<lparr> sc_toolCallId = i, sc_toolName = name, sc_input = inp, sc_state = st, sc_output = None, sc_errorText = None \<rparr>"

fun show_event :: "run_event \<Rightarrow> run_projection \<Rightarrow> run_projection" where
  "show_event (Ev_Message_Delta delta) p = p\<lparr>pj_text := pj_text p @ delta, pj_parts := appendText delta (pj_parts p)\<rparr>"
| "show_event (Ev_Message_Completed m) p =
     p\<lparr>pj_text := rm_text m, pj_parts := reconcileCompletedText (rm_text m) (pj_parts p)\<rparr>"
| "show_event (Ev_Reasoning_Delta i delta) p =
     (let entry = reasoning_entry i delta (pj_reasoning p)
      in p\<lparr>pj_reasoning := upsert (\<lambda>r. sr_id r = i) entry (pj_reasoning p),
           pj_parts := upsertPart (Reasoning_Part entry) (pj_parts p)\<rparr>)"
| "show_event (Ev_Tool_Call_Preparing i name) p = p\<lparr>pj_preparingTool := Some (i, name)\<rparr>"
| "show_event (Ev_Tool_Call_Preparation_Cancelled i) p = (if is_prepared i p then p\<lparr>pj_preparingTool := None\<rparr> else p)"
| "show_event (Ev_Tool_Call_Started i name inp) p =
     show_call (new_call i name (Some inp) Input_Available)
       (if is_prepared i p then p\<lparr>pj_preparingTool := None\<rparr> else p)"
| "show_event (Ev_Tool_Permission_Requested i name reason preview) p =
     show_call (new_call i name (findToolCallInput (pj_activeToolCalls p) i) Waiting_For_Permission) p"
| "show_event (Ev_Tool_Call_Completed i name r modelOutput notice) p =
     show_call ((new_call i name (findToolCallInput (pj_activeToolCalls p) i) Output_Available)
       \<lparr>sc_output := Some (toToolOutput r notice)\<rparr>) p"
| "show_event (Ev_Tool_Call_Failed i name r modelOutput notice) p =
     show_call ((new_call i name (findToolCallInput (pj_activeToolCalls p) i) Output_Error)
       \<lparr>sc_errorText := Some (toToolError r)\<rparr>) p"
| "show_event Ev_Run_Completed p = close_shown p"
| "show_event (Ev_Run_Cancelled reason) p = close_shown p"
| "show_event (Ev_Run_Failed e) p = close_shown (p\<lparr>pj_error := Some e\<rparr>)"

definition applyAgentRunObservation :: "run_projection \<Rightarrow> run_observation \<Rightarrow> run_projection" where
  "applyAgentRunObservation p ob =
     (let e = ob_payload ob;
          q = show_event e (p\<lparr>pj_parts := cloneParts p\<rparr>)
      in q\<lparr>pj_lastSequence := max (pj_lastSequence p) (ob_sequence ob), pj_status := statusAfterEvent (pj_status p) e\<rparr>)"

definition projectAgentRun :: "agent_run_row \<Rightarrow> run_observation list \<Rightarrow> run_projection" where
  "projectAgentRun run obs = foldl applyAgentRunObservation (createAgentRunProjection run) obs"

end
