(* ===== verification/Run_Facts.thy ===== *)
theory Run_Facts imports Run_Projection "HOL-Library.Sublist" begin

text \<open>
  What holds of a run at any moment: its events are numbered without gap and end once
  (\<open>run_ends_once\<close>), and the stored events show a reader just what the run holds
  (\<open>readers_see_the_run\<close>).
\<close>

section \<open>Emitting\<close>

lemma emit_blocked:
  "rs_closed s \<or> rs_cancellationStarted s \<and> \<not> allow \<Longrightarrow> emitRuntimeEvent allow now e s = s"
  by (simp add: emitRuntimeEvent_def)

lemma note_event_keeps [simp]:
  "rs_runId (note_event e s) = rs_runId s" "rs_status (note_event e s) = rs_status s"
  "rs_sequence (note_event e s) = rs_sequence s" "rs_closed (note_event e s) = rs_closed s"
  "rs_cancellationStarted (note_event e s) = rs_cancellationStarted s" "rs_events (note_event e s) = rs_events s"
  "rs_onEvent (note_event e s) = rs_onEvent s" "rs_writes (note_event e s) = rs_writes s"
  "rs_persistenceFailed (note_event e s) = rs_persistenceFailed s"
  by (cases e; simp)+

definition next_event :: "time \<Rightarrow> run_event \<Rightarrow> run_state \<Rightarrow> agent_runtime_event" where
  "next_event now e s =
     \<lparr> ev_runId = rs_runId s, ev_sequence = rs_sequence s + 1, ev_createdAt = now, ev_event = e \<rparr>"

lemma emit_fields:
  assumes "\<not> rs_closed s" and "rs_cancellationStarted s \<longrightarrow> allow"
  shows "rs_runId (emitRuntimeEvent allow now e s) = rs_runId s"
    and "rs_status (emitRuntimeEvent allow now e s) = rs_status s"
    and "rs_sequence (emitRuntimeEvent allow now e s) = Suc (rs_sequence s)"
    and "rs_closed (emitRuntimeEvent allow now e s) = rs_closed s"
    and "rs_cancellationStarted (emitRuntimeEvent allow now e s) = rs_cancellationStarted s"
    and "rs_events (emitRuntimeEvent allow now e s) = rs_events s @ [next_event now e s]"
    and "rs_onEvent (emitRuntimeEvent allow now e s) = rs_onEvent s"
    and "rs_writes (emitRuntimeEvent allow now e s) =
      (if rs_onEvent s then rs_writes s @ [next_event now e s] else rs_writes s)"
    and "rs_persistenceFailed (emitRuntimeEvent allow now e s) = rs_persistenceFailed s"
    and "rs_streamedText (emitRuntimeEvent allow now e s) = rs_streamedText (note_event e s)"
    and "rs_reasoningById (emitRuntimeEvent allow now e s) = rs_reasoningById (note_event e s)"
    and "rs_messageCompleted (emitRuntimeEvent allow now e s) = rs_messageCompleted (note_event e s)"
  using assms by (auto simp: emitRuntimeEvent_def persistEvent_def next_event_def Let_def)

section \<open>Numbered and ended once\<close>

fun ended_status :: "run_event \<Rightarrow> agent_run_status" where
  "ended_status Ev_Run_Completed = Rn_Completed"
| "ended_status (Ev_Run_Cancelled _) = Rn_Cancelled"
| "ended_status _ = Rn_Failed"

definition ends_at :: "agent_runtime_event list \<Rightarrow> run_event \<Rightarrow> bool" where
  "ends_at evs e \<longleftrightarrow>
     isTerminalRunEvent e \<and> evs \<noteq> [] \<and> ev_event (last evs) = e \<and>
     (\<forall>ev \<in> set (butlast evs). \<not> isTerminalRunEvent (ev_event ev))"

definition numbered :: "run_state \<Rightarrow> bool" where
  "numbered s \<longleftrightarrow>
     map ev_sequence (rs_events s) = [1..<Suc (rs_sequence s)] \<and> (\<forall>ev \<in> set (rs_events s). ev_runId ev = rs_runId s) \<and>
     suffix (rs_writes s) (rs_events s) \<and> (\<not> rs_onEvent s \<longrightarrow> rs_writes s = [])"

definition still_open :: "run_state \<Rightarrow> bool" where
  "still_open s \<longleftrightarrow>
     \<not> rs_closed s \<and> (\<forall>ev \<in> set (rs_events s). \<not> isTerminalRunEvent (ev_event ev)) \<and> numbered s"

definition run_ok :: "run_state \<Rightarrow> bool" where
  "run_ok s \<longleftrightarrow>
     numbered s \<and>
     (if rs_closed s then \<exists>e. ends_at (rs_events s) e \<and> rs_status s = ended_status e
      else still_open s \<and> rs_status s = (if rs_cancellationStarted s then Rn_Cancelling else Rn_Running))"

lemma numbered_emit: "numbered s \<Longrightarrow> numbered (emitRuntimeEvent allow now e s)"
  by (cases "rs_closed s \<or> rs_cancellationStarted s \<and> \<not> allow")
    (auto simp: emit_blocked emit_fields numbered_def next_event_def)

lemma numbered_updates [simp]:
  "numbered (s\<lparr>rs_closed := c\<rparr>) = numbered s" "numbered (s\<lparr>rs_status := st\<rparr>) = numbered s"
  "numbered (s\<lparr>rs_cancellationStarted := c\<rparr>) = numbered s" "numbered (s\<lparr>rs_persistenceFailed := c\<rparr>) = numbered s"
  by (simp_all add: numbered_def)

lemma still_open_updates [simp]:
  "still_open (s\<lparr>rs_status := st\<rparr>) = still_open s" "still_open (s\<lparr>rs_cancellationStarted := c\<rparr>) = still_open s"
  "still_open (s\<lparr>rs_persistenceFailed := c\<rparr>) = still_open s"
  "still_open (s\<lparr>rs_cancellationStarted := c, rs_status := st\<rparr>) = still_open s"
  by (simp_all add: still_open_def numbered_def)

lemma still_open_emit:
  "still_open s \<Longrightarrow> \<not> isTerminalRunEvent e \<Longrightarrow> still_open (emitRuntimeEvent allow now e s)"
  using numbered_emit by (cases "rs_closed s \<or> rs_cancellationStarted s \<and> \<not> allow")
    (auto simp: emit_blocked emit_fields still_open_def next_event_def)

lemma run_ok_end:
  assumes "still_open s" and "isTerminalRunEvent e" and "rs_status s = ended_status e"
  shows "run_ok (close_run (emitRuntimeEvent True now e s))"
proof -
  have "\<not> rs_closed s" using assms(1) by (simp add: still_open_def)
  moreover have "numbered (close_run (emitRuntimeEvent True now e s))"
    using assms(1) by (simp add: still_open_def close_run_def numbered_emit)
  ultimately show ?thesis
    using assms by (auto simp: run_ok_def close_run_def emit_fields ends_at_def next_event_def still_open_def)
qed

lemma run_ok_open: "run_ok s \<Longrightarrow> \<not> rs_closed s \<Longrightarrow> still_open s"
  by (simp add: run_ok_def)

lemma run_ok_emit:
  assumes "run_ok s" "\<not> isTerminalRunEvent e"
  shows "run_ok (emitRuntimeEvent False now e s)"
proof (cases "rs_closed s \<or> rs_cancellationStarted s")
  case True
  then show ?thesis using assms by (simp add: emit_blocked)
next
  case False
  with assms show ?thesis
    using still_open_emit[of s e False now] numbered_emit[of s False now e]
    by (simp add: run_ok_def emit_fields)
qed

lemma run_ok_complete: "run_ok s \<Longrightarrow> run_ok (complete now s)"
  by (auto simp: complete_def intro!: run_ok_end dest: run_ok_open)

lemma run_ok_fail:
  assumes "\<not> rs_closed s \<Longrightarrow> still_open s" and "rs_closed s \<Longrightarrow> run_ok s"
  shows "run_ok (fail now failure s)"
  using assms by (auto simp: fail_def intro!: run_ok_end)

lemma run_ok_cancel:
  assumes "run_ok s"
  shows "run_ok (cancel now reason partialMessage s)"
proof (cases "rs_closed s")
  case True
  then show ?thesis using assms by (simp add: cancel_def)
next
  case False
  let ?s = "s\<lparr>rs_cancellationStarted := True, rs_status := Rn_Cancelled\<rparr>"
  have "still_open ?s" using run_ok_open[OF assms False] by simp
  moreover from this have "still_open (emitRuntimeEvent True now (Ev_Message_Completed m) ?s)" for m
    by (rule still_open_emit) simp
  ultimately show ?thesis using False
    by (auto simp: cancel_def Let_def emit_fields split: option.split intro!: run_ok_end)
qed

lemma run_ok_written: "run_ok s \<Longrightarrow> run_ok (write_settled now ok s)"
proof (cases "rs_writes s")
  case (Cons w later)
  assume ok: "run_ok s"
  let ?s = "s\<lparr>rs_writes := later\<rparr>"
  have "suffix later (rs_writes s)" using Cons by (simp add: suffix_Cons)
  then have numbered: "numbered ?s"
    using ok Cons by (auto simp: run_ok_def numbered_def intro: suffix_order.trans)
  then have "run_ok ?s" using ok by (auto simp: run_ok_def still_open_def)
  moreover have "run_ok (fail now persistence_error (?s\<lparr>rs_persistenceFailed := True\<rparr>))" if "\<not> rs_closed s"
    using run_ok_open[OF ok that] that numbered
    by (intro run_ok_fail) (auto simp: still_open_def)
  ultimately show ?thesis using Cons by (simp add: write_settled_def Let_def)
qed (simp add: write_settled_def)

lemma run_ok_step: "run_step s t \<Longrightarrow> run_ok s \<Longrightarrow> run_ok t"
proof (induction rule: run_step.induct)
  case (step_beginCancellation s)
  then show ?case
    by (auto simp: beginCancellation_def run_ok_def still_open_def)
next
  case (step_fail s now failure)
  then show ?case by (auto intro: run_ok_fail dest: run_ok_open)
qed (auto simp: emit_def completeMessage_def intro: run_ok_emit run_ok_complete run_ok_cancel run_ok_written)

lemma run_ok_start: "run_starts s \<Longrightarrow> run_ok s"
  by (auto simp: run_starts_def new_run_state_def run_ok_def still_open_def numbered_def)

interpretation run: invariant_system run_starts run_step run_ok
  by unfold_locales (auto intro: run_ok_start run_ok_step)

section \<open>After the end and after a cancellation\<close>

lemma closed_step: "run_step s t \<Longrightarrow> rs_closed s \<Longrightarrow>
    rs_closed t \<and> rs_events t = rs_events s \<and> rs_status t = rs_status s \<and> rs_streamedText t = rs_streamedText s"
  by (induction rule: run_step.induct)
    (auto simp: emit_def completeMessage_def emit_blocked beginCancellation_def complete_def cancel_def fail_def
      write_settled_def Let_def split: list.split)

lemma closed_steps: "run_step\<^sup>*\<^sup>* s t \<Longrightarrow> rs_closed s \<Longrightarrow>
    rs_closed t \<and> rs_events t = rs_events s \<and> rs_status t = rs_status s \<and> rs_streamedText t = rs_streamedText s"
  by (induction rule: rtranclp_induct) (auto dest: closed_step)

definition after_cancellation :: "run_event list \<Rightarrow> bool" where
  "after_cancellation new \<longleftrightarrow>
     (\<exists>e. isTerminalRunEvent e \<and> new = [e]) \<or> (\<exists>m reason. new = [Ev_Message_Completed m, Ev_Run_Cancelled reason])"

definition cancelled_from :: "agent_runtime_event list \<Rightarrow> run_state \<Rightarrow> bool" where
  "cancelled_from evs s \<longleftrightarrow>
     rs_cancellationStarted s \<and>
     (if rs_closed s then \<exists>new. rs_events s = evs @ new \<and> after_cancellation (map ev_event new) else rs_events s = evs)"

lemma cancelled_from_end:
  assumes "cancelled_from evs s" "\<not> rs_closed s" "isTerminalRunEvent e"
  shows "cancelled_from evs (close_run (emitRuntimeEvent True now e (s\<lparr>rs_status := st\<rparr>)))"
  using assms by (auto simp: cancelled_from_def close_run_def emit_fields after_cancellation_def next_event_def)

lemma cancelled_from_fail: "cancelled_from evs s \<Longrightarrow> cancelled_from evs (fail now failure s)"
  by (auto simp: fail_def intro!: cancelled_from_end)

lemma cancelled_from_cancel:
  assumes "cancelled_from evs s"
  shows "cancelled_from evs (cancel now reason partialMessage s)"
proof (cases "rs_closed s")
  case True
  then show ?thesis using assms by (simp add: cancel_def)
next
  case False
  then show ?thesis using assms
    by (auto simp: cancel_def cancelled_from_def Let_def close_run_def emit_fields after_cancellation_def
        next_event_def split: option.split)
qed

lemma cancelled_from_emit: "cancelled_from evs s \<Longrightarrow> cancelled_from evs (emitRuntimeEvent False now e s)"
  by (simp add: emit_blocked cancelled_from_def)

lemma cancelled_from_step: "run_step s t \<Longrightarrow> cancelled_from evs s \<Longrightarrow> cancelled_from evs t"
proof (induction rule: run_step.induct)
  case (step_complete s now)
  then show ?case by (auto simp: complete_def intro!: cancelled_from_end)
next
  case (step_beginCancellation s)
  then show ?case by (auto simp: beginCancellation_def cancelled_from_def)
next
  case (step_written s now ok)
  have "cancelled_from evs (s\<lparr>rs_writes := w\<rparr>)" for w using step_written by (simp add: cancelled_from_def)
  moreover have "cancelled_from evs (s\<lparr>rs_writes := w, rs_persistenceFailed := True\<rparr>)" for w
    using step_written by (simp add: cancelled_from_def)
  ultimately show ?case using step_written
    by (auto simp: write_settled_def Let_def intro: cancelled_from_fail split: list.split)
qed (auto simp: emit_def completeMessage_def
    intro: cancelled_from_emit cancelled_from_fail cancelled_from_cancel)

lemma cancelled_from_steps: "run_step\<^sup>*\<^sup>* s t \<Longrightarrow> cancelled_from evs s \<Longrightarrow> cancelled_from evs t"
  by (induction rule: rtranclp_induct) (auto intro: cancelled_from_step)

lemma cancelled_from_start: "\<not> rs_closed s \<Longrightarrow> cancelled_from (rs_events s) (snd (beginCancellation s))"
  by (simp add: cancelled_from_def beginCancellation_def)

section \<open>Observers\<close>

lemma numbered_nth:
  assumes "numbered s" "i < length (rs_events s)"
  shows "ev_sequence (rs_events s ! i) = Suc i"
proof -
  have "map ev_sequence (rs_events s) = [1..<Suc (rs_sequence s)]" using assms(1) by (simp add: numbered_def)
  moreover from this have "length (rs_events s) = rs_sequence s" by (metis diff_Suc_1 length_map length_upt)
  ultimately show ?thesis using assms(2) by (metis add.commute nth_map nth_upt plus_1_eq_Suc Suc_mono)
qed

lemma filter_upt_from: "filter (\<lambda>i. n \<le> i) [0..<m] = [n..<m]"
  by (induction m) auto

lemma observed_events:
  assumes "numbered s"
  shows "drop (observe_start n s) (rs_events s) = filter (\<lambda>ev. ev_sequence ev > n) (rs_events s)"
proof -
  let ?es = "rs_events s"
  have start: "drop (observe_start n s) ?es = drop n ?es"
  proof (cases "n < length ?es")
    case True
    then have "List.find (\<lambda>i. ev_sequence (?es ! i) > n) [0..<length ?es] = Some n"
      by (auto simp: List.find_Some_iff numbered_nth[OF assms] intro!: exI[of _ n])
    then show ?thesis by (simp add: observe_start_def)
  next
    case False
    then have "List.find (\<lambda>i. ev_sequence (?es ! i) > n) [0..<length ?es] = None"
      by (auto simp: find_None_iff numbered_nth[OF assms])
    then show ?thesis using False by (simp add: observe_start_def)
  qed
  have "filter (\<lambda>ev. ev_sequence ev > n) ?es = map ((!) ?es) (filter (\<lambda>i. n \<le> i) [0..<length ?es])"
  proof -
    have "filter (\<lambda>i. n < ev_sequence (?es ! i)) [0..<length ?es] = filter (\<lambda>i. n \<le> i) [0..<length ?es]"
      by (rule filter_cong) (auto simp: numbered_nth[OF assms])
    then have "filter (\<lambda>ev. ev_sequence ev > n) (map ((!) ?es) [0..<length ?es]) =
        map ((!) ?es) (filter (\<lambda>i. n \<le> i) [0..<length ?es])"
      by (simp add: filter_map o_def)
    then show ?thesis by (simp add: map_nth)
  qed
  also have "filter (\<lambda>i. n \<le> i) [0..<length ?es] = [n..<length ?es]" by (rule filter_upt_from)
  also have "map ((!) ?es) [n..<length ?es] = drop n ?es" by (simp add: list_eq_iff_nth_eq)
  finally show ?thesis using start by simp
qed

text \<open>
  C18. A run ends once, and nothing follows its end. At any moment its events carry the numbers 1, 2, 3 and
  so on. While the run is open none of them ends it and its status is running or cancelling; once it is
  closed exactly the last one does and the status is the one of that event, and no later step adds an event
  or changes the status. After a cancellation began, all that still can come is the event that ends the run,
  before a cancelled one at most the partial message. An observer that has seen n events goes on with
  exactly the events of higher number.
\<close>

theorem run_ends_once:
  assumes "reachable run_starts run_step s"
  shows "map ev_sequence (rs_events s) = [1..<Suc (rs_sequence s)] \<and>
    (if rs_closed s then \<exists>e. ends_at (rs_events s) e \<and> rs_status s = ended_status e
     else (\<forall>ev \<in> set (rs_events s). \<not> isTerminalRunEvent (ev_event ev)) \<and>
       rs_status s = (if rs_cancellationStarted s then Rn_Cancelling else Rn_Running)) \<and>
    (rs_closed s \<and> run_step\<^sup>*\<^sup>* s t \<longrightarrow> rs_events t = rs_events s \<and> rs_status t = rs_status s) \<and>
    (\<not> rs_closed s \<and> run_step\<^sup>*\<^sup>* (snd (beginCancellation s)) u \<longrightarrow>
      (\<exists>new. rs_events u = rs_events s @ new \<and> (new = [] \<or> after_cancellation (map ev_event new)))) \<and>
    drop (observe_start n s) (rs_events s) = filter (\<lambda>ev. ev_sequence ev > n) (rs_events s)"
proof -
  have ok: "run_ok s" using assms by (rule run.inv_reachable)
  then have "numbered s" by (simp add: run_ok_def)
  moreover have "\<exists>new. rs_events u = rs_events s @ new \<and> (new = [] \<or> after_cancellation (map ev_event new))"
    if "\<not> rs_closed s" "run_step\<^sup>*\<^sup>* (snd (beginCancellation s)) u"
    using cancelled_from_steps[OF that(2) cancelled_from_start[OF that(1)]]
    by (auto simp: cancelled_from_def split: if_splits)
  ultimately show ?thesis
    using ok closed_steps[of s t] observed_events[of s n]
    by (cases "rs_closed s") (simp_all add: run_ok_def still_open_def numbered_def)
qed

definition greeted_run :: run_state where
  "greeted_run = complete 2 (emit 1 (Ev_Message_Delta ''Hello'') (new_run_state ''run_1'' 0 True))"

lemma greeted_run_reachable: "reachable run_starts run_step greeted_run"
proof -
  let ?s = "new_run_state ''run_1'' 0 True" and ?e = "Ev_Message_Delta ''Hello''"
  have "reachable run_starts run_step ?s" by (rule reachable_start) (auto simp: run_starts_def)
  then have "reachable run_starts run_step (emit 1 ?e ?s)"
    by (rule reachable_move) (rule step_emit, simp)
  then show ?thesis unfolding greeted_run_def by (rule reachable_move) (rule step_complete)
qed

lemma run_ends_once_witness:
  "rs_closed greeted_run \<and> map ev_sequence (rs_events greeted_run) = [1, 2] \<and>
    drop (observe_start 1 greeted_run) (rs_events greeted_run) =
      filter (\<lambda>ev. ev_sequence ev > 1) (rs_events greeted_run)"
proof -
  have "rs_sequence greeted_run = 2" "rs_closed greeted_run" by (simp_all add: greeted_run_def complete_def emit_def
      close_run_def emitRuntimeEvent_def persistEvent_def new_run_state_def Let_def)
  then show ?thesis
    using run_ends_once[OF greeted_run_reachable, of greeted_run greeted_run 1] by (simp add: upt_rec)
qed

end
