(* ===== verification/Run_Readers.thy ===== *)
theory Run_Readers imports Run_Facts begin

text \<open>
  What a reader is shown of a run is what the run holds: the projection of the events so far refines the
  state of the run, and the parts it shows hold the same text, reasoning and tool calls as its other fields.
\<close>

section \<open>Parts\<close>

fun calls_of :: "run_part list \<Rightarrow> shown_call list" where
  "calls_of [] = []"
| "calls_of (Call_Part c # ps) = c # calls_of ps"
| "calls_of (_ # ps) = calls_of ps"

fun reasonings_of :: "run_part list \<Rightarrow> shown_reasoning list" where
  "reasonings_of [] = []"
| "reasonings_of (Reasoning_Part r # ps) = r # reasonings_of ps"
| "reasonings_of (_ # ps) = reasonings_of ps"

lemma calls_of_append [simp]: "calls_of (xs @ ys) = calls_of xs @ calls_of ys"
  by (induction xs rule: calls_of.induct) auto

lemma reasonings_of_append [simp]: "reasonings_of (xs @ ys) = reasonings_of xs @ reasonings_of ys"
  by (induction xs rule: reasonings_of.induct) auto

lemma appendText_cases:
  "delta = [] \<and> appendText delta ps = ps \<or>
    (\<exists>qs t. ps = qs @ [Text_Part t] \<and> appendText delta ps = qs @ [Text_Part (t @ delta)]) \<or>
    appendText delta ps = ps @ [Text_Part delta]"
proof (cases ps rule: rev_cases)
  case (snoc qs q)
  then show ?thesis by (cases q) (auto simp: appendText_def)
qed (simp add: appendText_def)

lemma appendText_parts:
  "observedText (appendText delta ps) = observedText ps @ delta"
  "calls_of (appendText delta ps) = calls_of ps"
  "reasonings_of (appendText delta ps) = reasonings_of ps"
  using appendText_cases[of delta ps] by (auto simp: observedText_def)

lemma reconcile_parts:
  "calls_of (reconcileCompletedText t ps) = calls_of ps"
  "reasonings_of (reconcileCompletedText t ps) = reasonings_of ps"
  by (simp_all add: reconcileCompletedText_def Let_def appendText_parts)

lemma reconcile_text: "suffix t (observedText (reconcileCompletedText t ps))"
proof -
  let ?o = "observedText ps"
  consider "?o = []" | "?o \<noteq> []" "t = ?o \<or> t \<noteq> [] \<and> ends_with ?o t"
    | "?o \<noteq> []" "\<not> (t = ?o \<or> t \<noteq> [] \<and> ends_with ?o t)" by blast
  then show ?thesis
  proof cases
    case 1
    then have "observedText (ps @ [Text_Part t]) = t" by (simp add: observedText_def)
    then show ?thesis using 1 by (auto simp: reconcileCompletedText_def)
  next
    case 2
    then have "suffix t ?o" by auto
    then show ?thesis using 2 by (simp add: reconcileCompletedText_def Let_def)
  next
    case 3
    then have unfolded: "reconcileCompletedText t ps =
        (if starts_with t ?o then appendText (drop (length ?o) t) ps else if t \<noteq> [] then appendText t ps else ps)"
      by (auto simp: reconcileCompletedText_def Let_def)
    have "?o @ drop (length ?o) t = t" if "starts_with t ?o"
      using that by (auto simp: prefix_def)
    then show ?thesis unfolding unfolded by (auto simp: appendText_parts suffix_def)
  qed
qed

lemma upsertPart_call:
  "calls_of (upsertPart (Call_Part c) ps) = upsertToolCall c (calls_of ps)"
  "reasonings_of (upsertPart (Call_Part c) ps) = reasonings_of ps"
  "observedText (upsertPart (Call_Part c) ps) = observedText ps"
  by (induction ps rule: calls_of.induct)
    (auto simp: upsertPart_def upsertToolCall_def observedText_def)

lemma upsertPart_reasoning:
  "reasonings_of (upsertPart (Reasoning_Part r) ps) = upsert (\<lambda>q. sr_id q = sr_id r) r (reasonings_of ps)"
  "calls_of (upsertPart (Reasoning_Part r) ps) = calls_of ps"
  "observedText (upsertPart (Reasoning_Part r) ps) = observedText ps"
  by (induction ps rule: reasonings_of.induct) (auto simp: upsertPart_def observedText_def)

lemma close_parts:
  "reasonings_of (map close_part ps) = map (\<lambda>r. r\<lparr>sr_open := False\<rparr>) (reasonings_of ps)"
  "calls_of (map close_part ps) = calls_of ps"
  "observedText (map close_part ps) = observedText ps"
  by (induction ps rule: reasonings_of.induct) (auto simp: observedText_def)

section \<open>Reasoning and calls\<close>

abbreviation reasoning_key :: "shown_reasoning \<Rightarrow> string \<times> string" where
  "reasoning_key r \<equiv> (sr_id r, sr_text r)"

lemma upsert_reasoning:
  "sr_id q = i \<Longrightarrow> map reasoning_key (upsert (\<lambda>r. sr_id r = i) q rs) = AList.update i (sr_text q) (map reasoning_key rs)"
  by (induction rs) auto

lemma reasoning_entry_key:
  "sr_id (reasoning_entry i delta rs) = i" "sr_open (reasoning_entry i delta rs)"
  "sr_text (reasoning_entry i delta rs) =
    (case map_of (map reasoning_key rs) i of Some t \<Rightarrow> t | None \<Rightarrow> []) @ delta"
proof -
  show "sr_id (reasoning_entry i delta rs) = i"
  proof (cases "List.find (\<lambda>r. sr_id r = i) rs")
    case (Some r)
    then have "sr_id r = i" using find_Some_iff by fast
    then show ?thesis using Some by (simp add: reasoning_entry_def)
  qed (simp add: reasoning_entry_def)
  show "sr_open (reasoning_entry i delta rs)"
    by (cases "List.find (\<lambda>r. sr_id r = i) rs") (simp_all add: reasoning_entry_def)
  have "map_of (map reasoning_key rs) i = map_option sr_text (List.find (\<lambda>r. sr_id r = i) rs)"
    by (induction rs) auto
  then show "sr_text (reasoning_entry i delta rs) =
      (case map_of (map reasoning_key rs) i of Some t \<Rightarrow> t | None \<Rightarrow> []) @ delta"
    by (auto simp: reasoning_entry_def split: option.split)
qed

lemma upsert_set: "x \<in> set (upsert p y ys) \<Longrightarrow> x = y \<or> x \<in> set ys"
  by (induction ys) (auto split: if_splits)

text \<open>The state of a call is what the last event of the call says.\<close>

definition call_state_of :: "shown_call list \<Rightarrow> string \<Rightarrow> call_state option" where
  "call_state_of cs i = map_option sc_state (List.find (\<lambda>c. sc_toolCallId c = i) cs)"

lemma call_state_upsert:
  "call_state_of (upsertToolCall c cs) = (call_state_of cs)(sc_toolCallId c \<mapsto> sc_state c)"
proof (rule ext)
  show "call_state_of (upsertToolCall c cs) i = ((call_state_of cs)(sc_toolCallId c \<mapsto> sc_state c)) i" for i
    by (induction cs) (auto simp: call_state_of_def upsertToolCall_def)
qed

lemma calls_distinct_upsert:
  "distinct (map sc_toolCallId cs) \<Longrightarrow> distinct (map sc_toolCallId (upsertToolCall c cs))"
proof (induction cs)
  case (Cons d cs)
  have "sc_toolCallId x = sc_toolCallId c \<or> x \<in> set cs" if "x \<in> set (upsertToolCall c cs)" for x
    using upsert_set[OF that[unfolded upsertToolCall_def]] by auto
  with Cons show ?case by (force simp: upsertToolCall_def)
qed (simp add: upsertToolCall_def)

fun call_event :: "run_event \<Rightarrow> (string \<times> call_state) option" where
  "call_event (Ev_Tool_Call_Started i name inp) = Some (i, Input_Available)"
| "call_event (Ev_Tool_Permission_Requested i name reason preview) = Some (i, Waiting_For_Permission)"
| "call_event (Ev_Tool_Call_Completed i name r out notice) = Some (i, Output_Available)"
| "call_event (Ev_Tool_Call_Failed i name r out notice) = Some (i, Output_Error)"
| "call_event _ = None"

definition call_states :: "run_event list \<Rightarrow> string \<Rightarrow> call_state option" where
  "call_states es = foldl (\<lambda>m e. case call_event e of Some (i, st) \<Rightarrow> m(i \<mapsto> st) | None \<Rightarrow> m) Map.empty es"

lemma call_states_snoc:
  "call_states (es @ [e]) =
    (case call_event e of Some (i, st) \<Rightarrow> (call_states es)(i \<mapsto> st) | None \<Rightarrow> call_states es)"
  by (simp add: call_states_def split: option.split)

section \<open>The projection of the events so far\<close>

definition seen :: "agent_runtime_event \<Rightarrow> run_observation" where
  "seen ev = \<lparr> ob_sequence = ev_sequence ev, ob_payload = ev_event ev \<rparr>"

abbreviation shown :: "agent_run_row \<Rightarrow> agent_runtime_event list \<Rightarrow> run_projection" where
  "shown run evs \<equiv> projectAgentRun run (map seen evs)"

lemma shown_snoc: "shown run (evs @ [ev]) = applyAgentRunObservation (shown run evs) (seen ev)"
  by (simp add: projectAgentRun_def)

lemma seen_simps [simp]: "ob_sequence (seen ev) = ev_sequence ev" "ob_payload (seen ev) = ev_event ev"
  by (simp_all add: seen_def)

definition mirrors :: "run_state \<Rightarrow> run_projection \<Rightarrow> bool" where
  "mirrors s p \<longleftrightarrow>
     pj_text p = rs_streamedText s \<and> map reasoning_key (pj_reasoning p) = rs_reasoningById s \<and>
     pj_lastSequence p = rs_sequence s \<and> calls_of (pj_parts p) = pj_activeToolCalls p \<and>
     reasonings_of (pj_parts p) = pj_reasoning p \<and> suffix (pj_text p) (observedText (pj_parts p)) \<and>
     distinct (map sc_toolCallId (pj_activeToolCalls p)) \<and>
     call_state_of (pj_activeToolCalls p) = call_states (map ev_event (rs_events s))"

lemma mirrors_updates [simp]:
  "mirrors (s\<lparr>rs_status := st\<rparr>) p = mirrors s p" "mirrors (s\<lparr>rs_closed := c\<rparr>) p = mirrors s p"
  "mirrors (s\<lparr>rs_cancellationStarted := c\<rparr>) p = mirrors s p" "mirrors (s\<lparr>rs_writes := w\<rparr>) p = mirrors s p"
  "mirrors (s\<lparr>rs_persistenceFailed := c\<rparr>) p = mirrors s p"
  "mirrors (s\<lparr>rs_cancellationStarted := c, rs_status := st\<rparr>) p = mirrors s p"
  "mirrors (s\<lparr>rs_writes := w, rs_persistenceFailed := c\<rparr>) p = mirrors s p"
  "mirrors (s\<lparr>rs_status := st, rs_cancellationStarted := c\<rparr>) p = mirrors s p"
  by (simp_all add: mirrors_def)

lemma mirrors_cloneParts: "mirrors s p \<Longrightarrow> mirrors s (p\<lparr>pj_parts := cloneParts p\<rparr>)"
proof (cases "pj_parts p = []")
  case True
  assume same: "mirrors s p"
  then have empty: "pj_reasoning p = []" "pj_activeToolCalls p = []" "pj_text p = []"
    using True by (auto simp: mirrors_def observedText_def)
  then have "cloneParts p = [Text_Part []]" using True by (simp add: cloneParts_def)
  then show ?thesis using same True empty by (auto simp: mirrors_def observedText_def)
qed (simp add: cloneParts_def)

text \<open>What one event does to the text, the reasoning and the calls, on both sides.\<close>

lemma show_call_fields:
  "pj_text (show_call c p) = pj_text p" "pj_reasoning (show_call c p) = pj_reasoning p"
  "pj_activeToolCalls (show_call c p) = upsertToolCall c (pj_activeToolCalls p)"
  "pj_parts (show_call c p) = upsertPart (Call_Part c) (pj_parts p)"
  by (simp_all add: show_call_def)

lemma show_event_text:
  assumes "mirrors s p"
  shows "pj_text (show_event e p) = rs_streamedText (note_event e s) \<and>
    suffix (pj_text (show_event e p)) (observedText (pj_parts (show_event e p)))"
  using assms by (cases e)
    (auto simp: mirrors_def Let_def show_call_fields upsertPart_call upsertPart_reasoning appendText_parts reconcile_text
      close_shown_def close_parts)

lemma show_event_reasoning:
  assumes "mirrors s p"
  shows "map reasoning_key (pj_reasoning (show_event e p)) = rs_reasoningById (note_event e s) \<and>
    reasonings_of (pj_parts (show_event e p)) = pj_reasoning (show_event e p)"
proof (cases e)
  case (Ev_Reasoning_Delta i delta)
  have "rs_reasoningById s = map reasoning_key (pj_reasoning p)" using assms by (simp add: mirrors_def)
  moreover have "reasonings_of (pj_parts p) = pj_reasoning p" using assms by (simp add: mirrors_def)
  ultimately show ?thesis using Ev_Reasoning_Delta
    by (simp add: Let_def upsert_reasoning reasoning_entry_key upsertPart_reasoning reasoning_of_def)
qed (use assms in \<open>auto simp: mirrors_def show_call_fields upsertPart_call appendText_parts reconcile_parts
      close_shown_def close_parts o_def\<close>)

lemma show_event_calls:
  assumes "mirrors s p"
  shows "calls_of (pj_parts (show_event e p)) = pj_activeToolCalls (show_event e p) \<and>
    distinct (map sc_toolCallId (pj_activeToolCalls (show_event e p))) \<and>
    call_state_of (pj_activeToolCalls (show_event e p)) =
      (case call_event e of Some (i, st) \<Rightarrow> (call_state_of (pj_activeToolCalls p))(i \<mapsto> st)
       | None \<Rightarrow> call_state_of (pj_activeToolCalls p))"
  using assms by (cases e)
    (auto simp: mirrors_def Let_def show_call_fields upsertPart_call upsertPart_reasoning appendText_parts
      reconcile_parts close_shown_def close_parts call_state_upsert new_call_def calls_distinct_upsert)

lemma mirrors_emit:
  assumes "mirrors s (shown run (rs_events s))"
  shows "mirrors (emitRuntimeEvent allow now e s) (shown run (rs_events (emitRuntimeEvent allow now e s)))"
proof (cases "rs_closed s \<or> rs_cancellationStarted s \<and> \<not> allow")
  case True
  then show ?thesis using assms by (simp add: emit_blocked)
next
  case False
  let ?t = "emitRuntimeEvent allow now e s"
  let ?p = "shown run (rs_events s)" let ?q = "?p\<lparr>pj_parts := cloneParts ?p\<rparr>"
  have emitted: "\<not> rs_closed s" "rs_cancellationStarted s \<longrightarrow> allow" using False by auto
  note fields = emit_fields[OF emitted, of now e]
  have q: "mirrors s ?q" using assms by (rule mirrors_cloneParts)
  have calls: "call_state_of (pj_activeToolCalls ?p) = call_states (map ev_event (rs_events s))"
    using q by (simp add: mirrors_def)
  have seq: "pj_lastSequence ?p = rs_sequence s" using q by (simp add: mirrors_def)
  have shown: "shown run (rs_events ?t) =
      (show_event e ?q)\<lparr>pj_lastSequence := Suc (rs_sequence s), pj_status := statusAfterEvent (pj_status ?p) e\<rparr>"
    using seq unfolding fields shown_snoc
    by (simp add: applyAgentRunObservation_def seen_def next_event_def Let_def max_def)
  show ?thesis unfolding mirrors_def shown
    using show_event_text[OF q, of e] show_event_reasoning[OF q, of e] show_event_calls[OF q, of e] calls
    by (auto simp: fields call_states_snoc next_event_def split: option.split)
qed

lemma mirrors_fail:
  "mirrors s (shown run (rs_events s)) \<Longrightarrow> mirrors (fail now f s) (shown run (rs_events (fail now f s)))"
  using mirrors_emit[of "s\<lparr>rs_status := Rn_Failed\<rparr>"] by (simp add: fail_def close_run_def)

lemma mirrors_step:
  "run_step s t \<Longrightarrow> mirrors s (shown run (rs_events s)) \<Longrightarrow> mirrors t (shown run (rs_events t))"
proof (induction rule: run_step.induct)
  case (step_cancel s now reason partialMessage)
  let ?s = "s\<lparr>rs_cancellationStarted := True, rs_status := Rn_Cancelled\<rparr>"
  have start: "mirrors ?s (shown run (rs_events ?s))" using step_cancel by simp
  note one = mirrors_emit[OF start]
  show ?case using step_cancel mirrors_emit[OF start] mirrors_emit[OF one]
    by (auto simp: cancel_def Let_def close_run_def split: option.split)
next
  case (step_complete s now)
  then show ?case using mirrors_emit[of "s\<lparr>rs_status := Rn_Completed\<rparr>"] by (simp add: complete_def close_run_def)
next
  case (step_written s now ok)
  have "mirrors (fail now f (s\<lparr>rs_writes := w, rs_persistenceFailed := True\<rparr>))
      (shown run (rs_events (fail now f (s\<lparr>rs_writes := w, rs_persistenceFailed := True\<rparr>))))" for w f
    using step_written by (intro mirrors_fail) simp
  then show ?case using step_written by (auto simp: write_settled_def Let_def split: list.split)
next
  case (step_beginCancellation s)
  then show ?case by (simp add: beginCancellation_def)
qed (auto simp: emit_def completeMessage_def intro: mirrors_emit mirrors_fail)

definition unread_row :: "agent_run_row \<Rightarrow> bool" where
  "unread_row run \<longleftrightarrow> ar_status run = Rn_Running \<and> ar_lastSequence run = 0 \<and> ar_error run = None"

lemma mirrors_start: "run_starts s \<Longrightarrow> unread_row run \<Longrightarrow> mirrors s (shown run (rs_events s))"
  by (auto simp: run_starts_def new_run_state_def unread_row_def mirrors_def projectAgentRun_def
      createAgentRunProjection_def observedText_def call_states_def call_state_of_def fun_eq_iff)

text \<open>Status, error and open reasoning follow from the events alone.\<close>

lemma show_event_open:
  "\<not> isTerminalRunEvent e \<Longrightarrow> pj_error (show_event e p) = pj_error p \<and>
    ((\<forall>r \<in> set (pj_reasoning p). sr_open r) \<longrightarrow> (\<forall>r \<in> set (pj_reasoning (show_event e p)). sr_open r)) \<and>
    statusAfterEvent st e = st"
  by (cases e) (auto simp: Let_def show_call_def reasoning_entry_key dest: upsert_set)

lemma shown_open:
  "unread_row run \<Longrightarrow> \<forall>ev \<in> set evs. \<not> isTerminalRunEvent (ev_event ev) \<Longrightarrow>
    pj_status (shown run evs) = Rn_Running \<and> pj_error (shown run evs) = None \<and>
    (\<forall>r \<in> set (pj_reasoning (shown run evs)). sr_open r)"
proof (induction evs rule: rev_induct)
  case Nil
  then show ?case by (simp add: projectAgentRun_def createAgentRunProjection_def unread_row_def)
next
  case (snoc ev evs)
  let ?p = "shown run evs"
  have "\<not> isTerminalRunEvent (ev_event ev)" using snoc.prems by simp
  from show_event_open[OF this, of "?p\<lparr>pj_parts := cloneParts ?p\<rparr>"] show ?case
    using snoc unfolding shown_snoc by (simp add: applyAgentRunObservation_def Let_def)
qed

lemma shown_ended:
  assumes "unread_row run" and "ends_at evs e"
  shows "pj_status (shown run evs) = ended_status e \<and> pj_preparingTool (shown run evs) = None \<and>
    (\<forall>r \<in> set (pj_reasoning (shown run evs)). \<not> sr_open r) \<and>
    pj_error (shown run evs) = (case e of Ev_Run_Failed f \<Rightarrow> Some f | _ \<Rightarrow> None)"
proof -
  obtain before ev where evs: "evs = before @ [ev]" "ev_event ev = e" "isTerminalRunEvent e"
      "\<forall>x \<in> set before. \<not> isTerminalRunEvent (ev_event x)"
    using assms(2) by (cases evs rule: rev_cases) (auto simp: ends_at_def)
  then show ?thesis using shown_open[OF assms(1) evs(4)] unfolding evs(1) shown_snoc
    by (cases e) (simp_all add: applyAgentRunObservation_def Let_def close_shown_def)
qed

text \<open>
  C19. A reader sees the run as it is. Projecting a row that was read while nothing had happened with the
  events so far gives the text, the reasoning and the last number of the running state; its status is
  running until the run is closed and the final status then, with the error of a failed run; reasoning is
  shown open just while the run is, and nothing is in preparation after the end. Every tool call is shown
  once, in the state its last event gives it, and the parts hold exactly the calls and the reasoning of the
  other fields, while their text ends with the text of the message.
\<close>

theorem readers_see_the_run:
  assumes "reachable run_starts run_step s" and "unread_row run"
  defines "p \<equiv> projectAgentRun run (map seen (rs_events s))"
  shows "pj_text p = rs_streamedText s \<and> map reasoning_key (pj_reasoning p) = rs_reasoningById s \<and>
    pj_lastSequence p = rs_sequence s \<and> pj_status p = (if rs_closed s then rs_status s else Rn_Running) \<and>
    (\<forall>r \<in> set (pj_reasoning p). sr_open r = (\<not> rs_closed s)) \<and>
    (rs_closed s \<longrightarrow> pj_preparingTool p = None) \<and> (pj_error p = None \<longleftrightarrow> pj_status p \<noteq> Rn_Failed) \<and>
    distinct (map sc_toolCallId (pj_activeToolCalls p)) \<and>
    call_state_of (pj_activeToolCalls p) = call_states (map ev_event (rs_events s)) \<and>
    calls_of (pj_parts p) = pj_activeToolCalls p \<and> reasonings_of (pj_parts p) = pj_reasoning p \<and>
    suffix (pj_text p) (observedText (pj_parts p))"
proof -
  have "mirrors s p" using assms(1) unfolding p_def
    by (induction rule: reachable.induct) (auto intro: mirrors_start[OF _ assms(2)] mirrors_step)
  moreover have "pj_status p = (if rs_closed s then rs_status s else Rn_Running) \<and>
      (\<forall>r \<in> set (pj_reasoning p). sr_open r = (\<not> rs_closed s)) \<and> (rs_closed s \<longrightarrow> pj_preparingTool p = None) \<and>
      (pj_error p = None \<longleftrightarrow> pj_status p \<noteq> Rn_Failed)"
  proof (cases "rs_closed s")
    case True
    then obtain e where e: "ends_at (rs_events s) e" "rs_status s = ended_status e"
      using run.inv_reachable[OF assms(1)] by (auto simp: run_ok_def)
    then show ?thesis using shown_ended[OF assms(2) e(1)] True
      by (cases e) (auto simp: p_def ends_at_def)
  next
    case False
    then have "still_open s" using run.inv_reachable[OF assms(1)] by (simp add: run_ok_def)
    then show ?thesis using shown_open[OF assms(2), of "rs_events s"] False by (simp add: p_def still_open_def)
  qed
  ultimately show ?thesis unfolding mirrors_def by blast
qed

definition fresh_row :: agent_run_row where
  "fresh_row =
     \<lparr> ar_id = ''run_1'', ar_status = Rn_Running, ar_startedAt = 0, ar_endedAt = None, ar_lastSequence = 0,
       ar_error = None \<rparr>"

lemma readers_see_the_run_witness:
  "pj_status (projectAgentRun fresh_row (map seen (rs_events greeted_run))) = rs_status greeted_run \<and>
    pj_text (projectAgentRun fresh_row (map seen (rs_events greeted_run))) = rs_streamedText greeted_run"
proof -
  have "rs_closed greeted_run" by (simp add: greeted_run_def complete_def emit_def
      close_run_def emitRuntimeEvent_def persistEvent_def new_run_state_def Let_def)
  then show ?thesis
    using readers_see_the_run[OF greeted_run_reachable, of fresh_row] by (simp add: fresh_row_def unread_row_def)
qed

end
