(* ===== verification/Model_History.thy ===== *)
theory Model_History imports Run_State begin

text \<open>
  The messages a model is sent, and how the history of a conversation becomes such messages
  (\<open>packages/agent-runtime/src/model-context-projection.ts\<close>, \<open>run/model-input.ts\<close>,
  \<open>packages/model-provider/src/types.ts\<close>).

  A message of the conversation is given as the readers of its metadata see it: whether it is a decision on
  an approval, the tool calls of an assistant message, the call a tool message answers, the continuation an
  assistant message carries, and its content as it is projected for the model.
\<close>

section \<open>Messages of a model\<close>

text \<open>An image with its number of bytes, and what names its source: a tool result or an attachment.\<close>

datatype image_source = From_Tool_Result string | From_User_Attachment string

record model_image =
  mi_mimeType :: string
  mi_bytes :: nat
  mi_source :: "image_source option"

datatype content_part = Text_Content string | Image_Content model_image | Document_Content string nat

datatype model_content = Plain_Content string | Content_Parts "content_part list"

record model_tool_call =
  mc_toolCallId :: string
  mc_toolName :: string
  mc_input :: json
  mc_inputParseError :: "string option"

datatype model_message =
  Msg_System model_content
| Msg_User model_content
| Msg_Assistant model_content "model_tool_call list option"
| Msg_Tool string model_content

fun hasTextContent :: "model_content \<Rightarrow> bool" where
  "hasTextContent (Plain_Content t) \<longleftrightarrow> t \<noteq> []"
| "hasTextContent (Content_Parts ps) \<longleftrightarrow> list_ex (\<lambda>p. case p of Text_Content t \<Rightarrow> t \<noteq> [] | _ \<Rightarrow> False) ps"

text \<open>An assistant message with at least one tool call, and the ids of its calls.\<close>

fun calls_in :: "model_message \<Rightarrow> string list option" where
  "calls_in (Msg_Assistant c (Some (t # ts))) = Some (map mc_toolCallId (t # ts))"
| "calls_in _ = None"

text \<open>
  The results behind such a message: tool messages that answer expected calls not answered yet, until all
  are answered or something else comes.
\<close>

fun take_results ::
    "string list \<Rightarrow> string list \<Rightarrow> model_message list \<Rightarrow> model_message list \<times> model_message list" where
  "take_results expected answered [] = ([], [])"
| "take_results expected answered (m # ms) =
     (case m of
        Msg_Tool i c \<Rightarrow>
          (if i \<notin> set expected \<or> i \<in> set answered then ([], m # ms)
           else if length (i # answered) = length (remdups expected) then ([m], ms)
           else (let (rs, rest) = take_results expected (i # answered) ms in (m # rs, rest)))
      | _ \<Rightarrow> ([], m # ms))"

lemma take_results_split:
  "take_results expected answered ms = (rs, rest) \<Longrightarrow> ms = rs @ rest"
  by (induction expected answered ms arbitrary: rs rest rule: take_results.induct)
    (auto split: model_message.splits if_splits prod.splits)

lemma take_results_length: "take_results expected answered ms = (rs, rest) \<Longrightarrow> length rest \<le> length ms"
  using take_results_split by fastforce

fun without_calls :: "model_message \<Rightarrow> model_message list" where
  "without_calls (Msg_Assistant c ts) = (if hasTextContent c then [Msg_Assistant c None] else [])"
| "without_calls m = [m]"

function removeIncompleteToolContext :: "model_message list \<Rightarrow> model_message list" where
  "removeIncompleteToolContext [] = []"
| "removeIncompleteToolContext (m # ms) =
     (case m of
        Msg_Tool i c \<Rightarrow> removeIncompleteToolContext ms
      | _ \<Rightarrow>
          (case calls_in m of
             None \<Rightarrow> m # removeIncompleteToolContext ms
           | Some ids \<Rightarrow>
               (case take_results ids [] ms of (rs, rest) \<Rightarrow>
                  (if length rs = length (remdups ids) then m # rs @ removeIncompleteToolContext rest
                   else without_calls m @ removeIncompleteToolContext rest))))"
  by pat_completeness auto
termination
  by (relation "measure length") (auto dest: take_results_length[OF sym] simp: le_imp_less_Suc)

section \<open>Messages of a conversation\<close>

datatype chat_role = Role_User | Role_System | Role_Assistant | Role_Tool

record chat_view =
  cv_id :: string
  cv_role :: chat_role
  cv_text :: string
  cv_isDecision :: bool
  cv_toolCalls :: "model_tool_call list option"
  cv_toolResult :: "string option"
  cv_continuation :: "(string \<times> json) option"
  cv_content :: model_content

fun order_decisions :: "chat_view list \<Rightarrow> chat_view list \<Rightarrow> chat_view list" where
  "order_decisions decisions [] = decisions"
| "order_decisions decisions (m # ms) =
     (if cv_isDecision m then order_decisions (decisions @ [m]) ms
      else if cv_role m = Role_User then decisions @ m # order_decisions [] ms
      else m # order_decisions decisions ms)"

definition orderApprovalDecisionsForModel :: "chat_view list \<Rightarrow> chat_view list" where
  "orderApprovalDecisionsForModel ms = order_decisions [] ms"

text \<open>The calls of an assistant message that has some.\<close>

definition open_calls :: "chat_view \<Rightarrow> string list option" where
  "open_calls m =
     (if cv_role m = Role_Assistant then
        (case cv_toolCalls m of Some (t # ts) \<Rightarrow> Some (map mc_toolCallId (t # ts)) | _ \<Rightarrow> None)
      else None)"

fun take_chunk :: "string list \<Rightarrow> string list \<Rightarrow> chat_view list \<Rightarrow> chat_view list \<times> chat_view list" where
  "take_chunk expected answered [] = ([], [])"
| "take_chunk expected answered (m # ms) =
     (case (cv_role m, cv_toolResult m) of
        (Role_Tool, Some i) \<Rightarrow>
          (if i \<notin> set expected then ([], m # ms)
           else if length (remdups (i # answered)) = length (remdups expected) then ([m], ms)
           else (let (rs, rest) = take_chunk expected (i # answered) ms in (m # rs, rest)))
      | _ \<Rightarrow> ([], m # ms))"

lemma take_chunk_split: "take_chunk expected answered ms = (rs, rest) \<Longrightarrow> ms = rs @ rest"
  by (induction expected answered ms arbitrary: rs rest rule: take_chunk.induct)
    (auto split: chat_role.splits option.splits if_splits prod.splits)

lemma take_chunk_length: "take_chunk expected answered ms = (rs, rest) \<Longrightarrow> length rest \<le> length ms"
  using take_chunk_split by fastforce

function chunkHistoryMessages :: "chat_view list \<Rightarrow> chat_view list list" where
  "chunkHistoryMessages [] = []"
| "chunkHistoryMessages (m # ms) =
     (if cv_isDecision m then
        (m # takeWhile cv_isDecision ms) # chunkHistoryMessages (dropWhile cv_isDecision ms)
      else
        (case open_calls m of
           None \<Rightarrow> [m] # chunkHistoryMessages ms
         | Some ids \<Rightarrow>
             (case take_chunk ids [] ms of (rs, rest) \<Rightarrow> (m # rs) # chunkHistoryMessages rest)))"
  by pat_completeness auto
termination
  by (relation "measure length")
    (auto dest: take_chunk_length[OF sym] simp: le_imp_less_Suc length_dropWhile_le)

text \<open>The chunks from the last one on, until the limit is reached; the chunk that reaches it is taken whole.\<close>

fun select_chunks :: "nat \<Rightarrow> nat \<Rightarrow> chat_view list list \<Rightarrow> chat_view list list \<Rightarrow> chat_view list list" where
  "select_chunks limit selectedCount selected [] = selected"
| "select_chunks limit selectedCount selected (c # cs) =
     (if c = [] then select_chunks limit selectedCount selected cs
      else if selectedCount > 0 \<and> selectedCount + length c > limit then c # selected
      else if selectedCount + length c \<ge> limit then c # selected
      else select_chunks limit (selectedCount + length c) (c # selected) cs)"

definition selectRecentCompleteHistory :: "chat_view list \<Rightarrow> nat \<Rightarrow> chat_view list" where
  "selectRecentCompleteHistory messages limit =
     (let ms = orderApprovalDecisionsForModel messages in
      if length ms \<le> limit then ms else concat (select_chunks limit 0 [] (rev (chunkHistoryMessages ms))))"

definition index_where :: "('a \<Rightarrow> bool) \<Rightarrow> 'a list \<Rightarrow> nat option" where
  "index_where p xs = List.find (\<lambda>i. p (xs ! i)) [0..<length xs]"

definition dropCurrentSubmittedMessage :: "chat_view list \<Rightarrow> string \<Rightarrow> string option \<Rightarrow> chat_view list" where
  "dropCurrentSubmittedMessage ms t inputMessageId =
     (case Option.bind inputMessageId (\<lambda>i. if i = [] then None else index_where (\<lambda>m. cv_id m = i) ms) of
        Some index \<Rightarrow> take index ms
      | None \<Rightarrow>
          (if ms \<noteq> [] \<and> cv_role (last ms) = Role_User \<and> cv_text (last ms) = t then butlast ms else ms))"

definition toModelHistoryMessage :: "chat_view \<Rightarrow> model_message option" where
  "toModelHistoryMessage m =
     (if cv_isDecision m then Some (Msg_System (cv_content m))
      else
        (case cv_role m of
           Role_User \<Rightarrow> Some (Msg_User (cv_content m))
         | Role_System \<Rightarrow> Some (Msg_System (cv_content m))
         | Role_Assistant \<Rightarrow>
             Some (Msg_Assistant (cv_content m)
               (case cv_toolCalls m of Some (t # ts) \<Rightarrow> Some (t # ts) | _ \<Rightarrow> None))
         | Role_Tool \<Rightarrow> map_option (\<lambda>i. Msg_Tool i (cv_content m)) (cv_toolResult m)))"

definition projectAgentVisibleHistory :: "chat_view list \<Rightarrow> model_message list" where
  "projectAgentVisibleHistory ms =
     removeIncompleteToolContext (List.map_filter toModelHistoryMessage (orderApprovalDecisionsForModel ms))"

section \<open>Loading the history\<close>

definition DEFAULT_CONVERSATION_HISTORY_LIMIT :: nat where
  "DEFAULT_CONVERSATION_HISTORY_LIMIT = 20"

record history_input =
  hi_persisted :: "chat_view list"
  hi_messageText :: string
  hi_inputMessageId :: "string option"
  hi_providerId :: string
  hi_compactionEnabled :: bool
  hi_checkpoint :: "(string \<times> string \<times> json) option"
  hi_historyMessageLimit :: "nat option"

definition findLatestCompactionCheckpointIndex :: "chat_view list \<Rightarrow> string \<Rightarrow> int" where
  "findLatestCompactionCheckpointIndex ms providerId =
     (case List.find (\<lambda>i. map_option fst (cv_continuation (ms ! i)) = Some providerId) (rev [0..<length ms]) of
        Some i \<Rightarrow> int i
      | None \<Rightarrow> - 1)"

definition visible_history :: "history_input \<Rightarrow> chat_view list \<Rightarrow> chat_view list" where
  "visible_history h history =
     selectRecentCompleteHistory history
       (case hi_historyMessageLimit h of Some n \<Rightarrow> n | None \<Rightarrow> DEFAULT_CONVERSATION_HISTORY_LIMIT)"

text \<open>
  A stored checkpoint is the id of the message it was written with, its provider and its state; without
  compaction none is looked up.
\<close>

definition loadModelHistory :: "history_input \<Rightarrow> bool \<Rightarrow> model_message list \<times> (string \<times> json) option" where
  "loadModelHistory h withoutCheckpoint =
     (let history = orderApprovalDecisionsForModel
            (dropCurrentSubmittedMessage (hi_persisted h) (hi_messageText h) (hi_inputMessageId h))
      in if withoutCheckpoint then
           (projectAgentVisibleHistory (if hi_compactionEnabled h then history else visible_history h history), None)
         else
           (let stored = (if hi_compactionEnabled h then hi_checkpoint h else None);
                storedIndex = (case Option.bind stored (\<lambda>c. index_where (\<lambda>m. cv_id m = fst c) history) of
                   Some i \<Rightarrow> int i | None \<Rightarrow> - 1);
                legacyIndex = (if hi_compactionEnabled h
                   then findLatestCompactionCheckpointIndex history (hi_providerId h) else - 1);
                legacy = (if legacyIndex \<ge> 0 then cv_continuation (history ! nat legacyIndex) else None);
                checkpoint = (case stored of
                   Some c \<Rightarrow> if storedIndex \<ge> legacyIndex \<and> storedIndex \<ge> 0 then Some (snd c) else legacy
                 | None \<Rightarrow> legacy);
                active = (if hi_compactionEnabled h then drop (nat (max (max storedIndex legacyIndex) 0)) history
                   else visible_history h history)
            in (projectAgentVisibleHistory active, checkpoint)))"

end
