(* ===== verification/Model_History_Facts.thy ===== *)
theory Model_History_Facts imports Model_History "HOL-Library.Multiset" begin

text \<open>
  What a model is sent of a conversation is in order: every assistant message with tool calls stands with
  the results of all its calls and no result stands alone, nothing a user or the system said is lost, and a
  window of the history never cuts a round of calls.
\<close>

section \<open>Complete contexts\<close>

fun tool_id :: "model_message \<Rightarrow> string option" where
  "tool_id (Msg_Tool i c) = Some i"
| "tool_id _ = None"

text \<open>A round is a message with calls and one result for each of them.\<close>

inductive complete_context :: "model_message list \<Rightarrow> bool" where
  complete_Nil: "complete_context []"
| complete_plain: "calls_in m = None \<Longrightarrow> tool_id m = None \<Longrightarrow> complete_context ms \<Longrightarrow> complete_context (m # ms)"
| complete_round: "calls_in m = Some ids \<Longrightarrow> map tool_id rs = map Some is \<Longrightarrow> distinct is \<Longrightarrow> set is = set ids \<Longrightarrow>
    complete_context ms \<Longrightarrow> complete_context (m # rs @ ms)"

lemma calls_in_Some: "calls_in m = Some ids \<Longrightarrow> ids \<noteq> [] \<and> tool_id m = None"
  by (induction m rule: calls_in.induct) auto

lemma complete_append: "complete_context xs \<Longrightarrow> complete_context ys \<Longrightarrow> complete_context (xs @ ys)"
proof (induction rule: complete_context.induct)
  case (complete_round m ids rs "is" ms)
  then show ?case using complete_context.complete_round[of m ids rs "is" "ms @ ys"] by simp
qed (auto intro: complete_context.intros)

lemma take_results_ids:
  assumes "take_results expected answered ms = (rs, rest)" "distinct answered" "set answered \<subseteq> set expected"
  shows "\<exists>is. map tool_id rs = map Some is \<and> distinct is \<and> set is \<inter> set answered = {} \<and> set is \<subseteq> set expected"
  using assms
proof (induction expected answered ms arbitrary: rs rest rule: take_results.induct)
  case (2 expected answered m ms)
  show ?case
  proof (cases "\<exists>i c. m = Msg_Tool i c \<and> i \<in> set expected \<and> i \<notin> set answered")
    case True
    then obtain i c where m: "m = Msg_Tool i c" "i \<in> set expected" "i \<notin> set answered" by blast
    show ?thesis
    proof (cases "length (i # answered) = length (remdups expected)")
      case True
      then have "rs = [m]" using 2(2) m by simp
      then show ?thesis using m by (intro exI[of _ "[i]"]) simp
    next
      case False
      obtain rs' where rs': "take_results expected (i # answered) ms = (rs', rest)" "rs = m # rs'"
        using 2(2) m False by (auto split: prod.splits)
      obtain "is" where "map tool_id rs' = map Some is" "distinct is" "set is \<inter> set (i # answered) = {}"
          "set is \<subseteq> set expected"
        using "2.IH"[of i c rs' rest] m False rs'(1) 2(3,4) by auto
      then show ?thesis using m rs' by (intro exI[of _ "i # is"]) auto
    qed
  next
    case False
    then have "rs = []" using 2(2) by (auto split: model_message.splits if_splits)
    then show ?thesis by simp
  qed
qed simp

lemma take_results_all:
  assumes "take_results ids [] ms = (rs, rest)" "length rs = length (remdups ids)"
  shows "\<exists>is. map tool_id rs = map Some is \<and> distinct is \<and> set is = set ids"
proof -
  obtain "is" where ids: "map tool_id rs = map Some is" "distinct is" "set is \<subseteq> set ids"
    using take_results_ids[OF assms(1)] by auto
  have "length is = length (remdups ids)" using ids(1) assms(2) by (metis length_map)
  then have "card (set is) = card (set ids)" using ids(2) by (simp add: distinct_card length_remdups_card_conv)
  then have "set is = set ids" using ids(3) by (simp add: card_subset_eq)
  with ids show ?thesis by blast
qed

lemma take_results_complete:
  assumes "map tool_id rs = map Some is" "is \<noteq> []" "distinct (answered @ is)" "set (answered @ is) = set expected"
  shows "take_results expected answered (rs @ ms) = (rs, ms)"
  using assms
proof (induction rs arbitrary: "is" answered)
  case (Cons r rs)
  then obtain i js where "is": "is = i # js" "tool_id r = Some i" "map tool_id rs = map Some js" by auto
  then obtain c where r: "r = Msg_Tool i c" by (cases r) auto
  have size: "length (remdups expected) = length answered + length is"
    using Cons.prems(3,4) by (metis distinct_card length_append length_remdups_card_conv)
  have i: "i \<in> set expected" "i \<notin> set answered" using Cons.prems(3,4) "is"(1) by auto
  show ?case
  proof (cases "js = []")
    case True
    then have "rs = []" using "is"(3) by simp
    then show ?thesis using r i size True "is"(1) by simp
  next
    case False
    have "take_results expected (i # answered) (rs @ ms) = (rs, ms)"
      using False Cons.prems(3,4) "is"(1) by (intro Cons.IH[OF "is"(3)]) auto
    then show ?thesis using r i size False "is"(1) by simp
  qed
qed simp

lemma removeIncomplete_round:
  "calls_in m = Some ids \<Longrightarrow> removeIncompleteToolContext (m # ms) =
    (case take_results ids [] ms of (rs, rest) \<Rightarrow>
       (if length rs = length (remdups ids) then m # rs @ removeIncompleteToolContext rest
        else without_calls m @ removeIncompleteToolContext rest))"
  by (cases m) auto

lemma removeIncomplete_plain:
  "calls_in m = None \<Longrightarrow> tool_id m = None \<Longrightarrow> removeIncompleteToolContext (m # ms) = m # removeIncompleteToolContext ms"
  by (cases m) auto

lemma removeIncomplete_tool:
  "tool_id m = Some i \<Longrightarrow> removeIncompleteToolContext (m # ms) = removeIncompleteToolContext ms"
  by (cases m) auto

declare removeIncompleteToolContext.simps(2) [simp del]

lemma without_calls_complete: "calls_in m = Some ids \<Longrightarrow> complete_context (without_calls m)"
  by (cases m) (auto intro: complete_context.intros)

text \<open>The three kinds of a first message.\<close>

lemma message_cases:
  obtains (tool) i where "tool_id m = Some i" | (plain) "calls_in m = None" "tool_id m = None"
    | (round) ids where "calls_in m = Some ids"
  by (cases "tool_id m"; cases "calls_in m") auto

lemma removeIncomplete_complete: "complete_context (removeIncompleteToolContext ms)"
proof (induction ms rule: length_induct)
  case (1 ms)
  show ?case
  proof (cases ms)
    case Nil
    then show ?thesis by (simp add: complete_Nil)
  next
    case (Cons m rest)
    have rec: "complete_context (removeIncompleteToolContext xs)" if "length xs \<le> length rest" for xs
      using 1 that Cons by simp
    show ?thesis
    proof (cases m rule: message_cases)
      case (tool i)
      then show ?thesis using Cons rec by (simp add: removeIncomplete_tool)
    next
      case plain
      then show ?thesis using Cons rec by (simp add: removeIncomplete_plain complete_plain)
    next
      case (round ids)
      obtain rs later where split: "take_results ids [] rest = (rs, later)" by fastforce
      have later: "complete_context (removeIncompleteToolContext later)"
        using take_results_length[OF split] by (rule rec)
      show ?thesis
      proof (cases "length rs = length (remdups ids)")
        case True
        obtain "is" where "map tool_id rs = map Some is" "distinct is" "set is = set ids"
          using take_results_all[OF split True] by blast
        from complete_round[OF round this later] show ?thesis
          using Cons True split by (simp add: removeIncomplete_round[OF round])
      next
        case False
        then show ?thesis using Cons split later without_calls_complete[OF round]
          by (simp add: removeIncomplete_round[OF round] complete_append)
      qed
    qed
  qed
qed

lemma removeIncomplete_same: "complete_context ms \<Longrightarrow> removeIncompleteToolContext ms = ms"
proof (induction rule: complete_context.induct)
  case (complete_round m ids rs "is" ms)
  have "is \<noteq> []" using calls_in_Some[OF complete_round(1)] complete_round(4) by auto
  then have "take_results ids [] (rs @ ms) = (rs, ms)"
    using complete_round(2-4) take_results_complete[of rs "is" "[]" ids ms] by simp
  moreover have "length rs = length (remdups ids)"
    using complete_round(2-4) by (metis distinct_card length_map length_remdups_card_conv)
  ultimately show ?case using complete_round by (simp add: removeIncomplete_round)
qed (simp_all add: removeIncomplete_plain)

section \<open>What is kept\<close>

fun is_said :: "model_message \<Rightarrow> bool" where
  "is_said (Msg_System c) \<longleftrightarrow> True"
| "is_said (Msg_User c) \<longleftrightarrow> True"
| "is_said _ \<longleftrightarrow> False"

lemma removeIncomplete_said: "filter is_said (removeIncompleteToolContext ms) = filter is_said ms"
proof (induction ms rule: length_induct)
  case (1 ms)
  show ?case
  proof (cases ms)
    case (Cons m rest)
    have rec: "filter is_said (removeIncompleteToolContext xs) = filter is_said xs" if "length xs \<le> length rest" for xs
      using 1 that Cons by simp
    show ?thesis
    proof (cases m rule: message_cases)
      case (tool i)
      then show ?thesis using Cons rec by (cases m) (auto simp: removeIncomplete_tool)
    next
      case plain
      then show ?thesis using Cons rec by (simp add: removeIncomplete_plain)
    next
      case (round ids)
      obtain rs later where split: "take_results ids [] rest = (rs, later)" by fastforce
      obtain "is" where "map tool_id rs = map Some is" using take_results_ids[OF split] by auto
      then have "filter is_said rs = []"
        by (induction rs arbitrary: "is") (auto elim: tool_id.elims)
      moreover have "\<not> is_said m" "filter is_said (without_calls m) = []" using round by (cases m; auto)+
      ultimately show ?thesis
        using Cons rec[OF take_results_length[OF split]] take_results_split[OF split] split
        by (simp add: removeIncomplete_round[OF round])
    qed
  qed simp
qed

section \<open>Windows\<close>

lemma order_decisions_mset: "mset (order_decisions ds ms) = mset ds + mset ms"
  by (induction ds ms rule: order_decisions.induct) auto

lemma chunks_concat: "concat (chunkHistoryMessages ms) = ms"
proof (induction ms rule: chunkHistoryMessages.induct)
  case (2 m ms)
  then show ?case by (auto split: option.split prod.split dest: take_chunk_split)
qed simp

lemma chunks_nonempty: "[] \<notin> set (chunkHistoryMessages ms)"
  by (induction ms rule: chunkHistoryMessages.induct) (auto split: option.split prod.split)

lemma select_chunks_suffix:
  "[] \<notin> set cs \<Longrightarrow>
    \<exists>n. select_chunks limit k selected cs = rev (take n cs) @ selected \<and>
      (n = length cs \<or> limit \<le> k + length (concat (take n cs)))"
proof (induction cs arbitrary: k selected)
  case (Cons c cs)
  then have c: "c \<noteq> []" "[] \<notin> set cs" by auto
  show ?case
  proof (cases "k > 0 \<and> k + length c > limit \<or> k + length c \<ge> limit")
    case True
    then have "select_chunks limit k selected (c # cs) = c # selected" using c by auto
    then show ?thesis using True by (intro exI[of _ 1]) auto
  next
    case False
    obtain n where "select_chunks limit (k + length c) (c # selected) cs = rev (take n cs) @ c # selected"
        "n = length cs \<or> limit \<le> k + length c + length (concat (take n cs))"
      using Cons.IH[OF c(2), of "k + length c" "c # selected"] by auto
    then show ?thesis using False c by (intro exI[of _ "Suc n"]) auto
  qed
qed simp

text \<open>A window is the last chunks of the history, and has at least as many messages as its limit.\<close>

lemma select_window:
  "\<exists>n. selectRecentCompleteHistory ms limit = concat (drop n (chunkHistoryMessages (orderApprovalDecisionsForModel ms))) \<and>
    min limit (length ms) \<le> length (selectRecentCompleteHistory ms limit)"
proof -
  let ?ms = "orderApprovalDecisionsForModel ms"
  let ?cs = "chunkHistoryMessages ?ms"
  have length: "length ?ms = length ms"
    using order_decisions_mset[of "[]" ms] by (metis add_0 mset.simps(1) orderApprovalDecisionsForModel_def size_mset)
  show ?thesis
  proof (cases "length ?ms \<le> limit")
    case True
    then have "selectRecentCompleteHistory ms limit = ?ms" by (simp add: selectRecentCompleteHistory_def)
    then show ?thesis using length chunks_concat[of ?ms] by (intro exI[of _ 0]) simp
  next
    case False
    obtain n where n: "select_chunks limit 0 [] (rev ?cs) = rev (take n (rev ?cs))"
        "n = length ?cs \<or> limit \<le> length (concat (take n (rev ?cs)))"
      using select_chunks_suffix[of "rev ?cs" limit 0 "[]"] chunks_nonempty[of ?ms] by auto
    have last: "rev (take n (rev ?cs)) = drop (length ?cs - n) ?cs" by (simp add: take_rev)
    have selected: "selectRecentCompleteHistory ms limit = concat (drop (length ?cs - n) ?cs)"
      using False n(1) last by (simp add: selectRecentCompleteHistory_def Let_def)
    have "length (concat (take n (rev ?cs))) = length (concat (rev (take n (rev ?cs))))"
      by (simp add: length_concat sum_list_rev rev_map[symmetric])
    then have "n = length ?cs \<or> limit \<le> length (selectRecentCompleteHistory ms limit)"
      using n(2) last selected by simp
    then have "min limit (length ms) \<le> length (selectRecentCompleteHistory ms limit)"
      using selected length chunks_concat[of ?ms] by auto
    with selected show ?thesis by blast
  qed
qed

text \<open>What the user and the system said, in the words of the conversation.\<close>

fun said_view :: "chat_view \<Rightarrow> model_message option" where
  "said_view m =
     (if cv_isDecision m then Some (Msg_System (cv_content m))
      else if cv_role m = Role_User then Some (Msg_User (cv_content m))
      else if cv_role m = Role_System then Some (Msg_System (cv_content m))
      else None)"

lemma project_said:
  "filter is_said (projectAgentVisibleHistory ms) = List.map_filter said_view (orderApprovalDecisionsForModel ms)"
proof -
  have "filter is_said (List.map_filter toModelHistoryMessage vs) = List.map_filter said_view vs" for vs
  proof (induction vs)
    case (Cons v vs)
    then show ?case
      by (cases "cv_role v") (auto simp: map_filter_simps toModelHistoryMessage_def split: option.split)
  qed (simp add: map_filter_simps)
  then show ?thesis by (simp add: projectAgentVisibleHistory_def removeIncomplete_said)
qed

section \<open>No window cuts a round\<close>

abbreviation projected :: "chat_view list \<Rightarrow> model_message list" where
  "projected vs \<equiv> List.map_filter toModelHistoryMessage vs"

text \<open>A tool message has the metadata of its result and is no decision.\<close>

definition tidy :: "chat_view list \<Rightarrow> bool" where
  "tidy vs \<longleftrightarrow> (\<forall>v \<in> set vs. cv_role v = Role_Tool \<longrightarrow> \<not> cv_isDecision v \<and> cv_toolResult v \<noteq> None)"

lemma tidy_simps [simp]: "tidy []" "tidy (v # vs) \<longleftrightarrow>
    (cv_role v = Role_Tool \<longrightarrow> \<not> cv_isDecision v \<and> cv_toolResult v \<noteq> None) \<and> tidy vs"
    "tidy (us @ vs) \<longleftrightarrow> tidy us \<and> tidy vs"
  by (auto simp: tidy_def)

lemma projected_simps [simp]:
  "projected [] = []"
  "projected (v # vs) = (case toModelHistoryMessage v of Some m \<Rightarrow> m # projected vs | None \<Rightarrow> projected vs)"
  by (simp_all add: map_filter_simps)

lemma projected_append: "projected (us @ vs) = projected us @ projected vs"
  by (induction us) (auto split: option.split)

lemma tidy_projects: "tidy (v # vs) \<Longrightarrow> \<exists>m. toModelHistoryMessage v = Some m"
  by (cases "cv_role v") (auto simp: toModelHistoryMessage_def)

lemma tool_view: "tidy (v # vs) \<Longrightarrow> toModelHistoryMessage v = Some m \<Longrightarrow>
    (tool_id m = Some i \<longleftrightarrow> cv_role v = Role_Tool \<and> cv_toolResult v = Some i)"
  by (cases "cv_role v") (auto simp: toModelHistoryMessage_def split: if_splits)

lemma calls_view: "toModelHistoryMessage v = Some m \<Longrightarrow>
    calls_in m = (if cv_isDecision v then None else open_calls v)"
  by (cases "cv_role v") (auto simp: open_calls_def toModelHistoryMessage_def split: if_splits option.splits list.splits)

lemma take_chunk_round:
  assumes "tidy vs" "projected vs = rs @ ms" "map tool_id rs = map Some is" "is \<noteq> []"
    "distinct (answered @ is)" "set (answered @ is) = set expected"
  shows "\<exists>us later. take_chunk expected answered vs = (us, later) \<and> vs = us @ later \<and> projected later = ms"
  using assms
proof (induction "is" arbitrary: vs rs answered)
  case (Cons i js)
  then obtain r rs' where rs: "rs = r # rs'" "tool_id r = Some i" "map tool_id rs' = map Some js" by auto
  then obtain v vs' where vs: "vs = v # vs'" using Cons.prems(2) by (cases vs) auto
  obtain m where m: "toModelHistoryMessage v = Some m" using tidy_projects Cons.prems(1) vs by blast
  have r: "m = r" "projected vs' = rs' @ ms" using Cons.prems(2) m vs rs(1) by auto
  have v: "cv_role v = Role_Tool" "cv_toolResult v = Some i"
    using tool_view[OF Cons.prems(1)[unfolded vs] m, of i] r(1) rs(2) by simp_all
  have i: "i \<in> set expected" "i \<notin> set answered" "distinct answered" using Cons.prems(5,6) by auto
  have size: "length (remdups expected) = length answered + length (i # js)"
    using Cons.prems(5,6) by (metis distinct_card length_append length_remdups_card_conv)
  show ?case
  proof (cases "js = []")
    case True
    then have "take_chunk expected answered vs = ([v], vs')"
      using vs v i size by (simp add: distinct_remdups_id)
    then show ?thesis using True rs r vs by auto
  next
    case False
    have "\<exists>us later. take_chunk expected (i # answered) vs' = (us, later) \<and> vs' = us @ later \<and> projected later = ms"
      using Cons.prems(1,5,6) False vs r(2) rs(3) by (intro Cons.IH[of vs' rs']) auto
    then show ?thesis using vs v i size False by (auto simp: distinct_remdups_id)
  qed
qed simp

lemma complete_tail:
  assumes "complete_context (m # ms)" "calls_in m = None"
  shows "complete_context ms"
  using assms by (cases rule: complete_context.cases) auto

lemma complete_calls:
  assumes "complete_context (m # ms)" "calls_in m = Some ids"
  shows "\<exists>rs is later. ms = rs @ later \<and> map tool_id rs = map Some is \<and> distinct is \<and> set is = set ids \<and>
    complete_context later"
  using assms by (cases rule: complete_context.cases) auto

lemma complete_rest:
  "tidy vs \<Longrightarrow> complete_context (projected vs) \<Longrightarrow> chunkHistoryMessages vs = c # cs \<Longrightarrow>
    complete_context (projected (concat cs))"
proof (induction vs rule: chunkHistoryMessages.induct)
  case (2 v vs)
  obtain m where m: "toModelHistoryMessage v = Some m" using tidy_projects "2.prems"(1) by blast
  show ?case
  proof (cases "cv_isDecision v")
    case True
    then have "concat cs = dropWhile cv_isDecision vs" using "2.prems"(3) chunks_concat by auto
    moreover have "complete_context (projected vs)"
      using "2.prems"(2) m True calls_view[OF m] by (auto intro: complete_tail)
    moreover have "complete_context (projected (dropWhile cv_isDecision us))"
      if "complete_context (projected us)" "tidy us" for us
      using that
    proof (induction us)
      case (Cons u us)
      show ?case
      proof (cases "cv_isDecision u")
        case True
        obtain k where k: "toModelHistoryMessage u = Some k" using tidy_projects Cons.prems(2) by blast
        then have "complete_context (k # projected us)" "calls_in k = None"
          using Cons.prems(1) calls_view[OF k] True by simp_all
        then have "complete_context (projected us)" by (rule complete_tail)
        then show ?thesis using Cons.IH Cons.prems(2) True by simp
      qed (use Cons.prems in simp)
    qed simp
    ultimately show ?thesis using "2.prems"(1) by simp
  next
    case False
    show ?thesis
    proof (cases "open_calls v")
      case None
      then have "concat cs = vs" using "2.prems"(3) False chunks_concat by auto
      then show ?thesis
        using "2.prems"(2) m None calls_view[OF m] by (auto intro: complete_tail)
    next
      case (Some ids)
      then have calls: "calls_in m = Some ids" using calls_view[OF m] False by simp
      have "complete_context (m # projected vs)" using "2.prems"(2) m by simp
      then obtain rs "is" ms where round: "projected vs = rs @ ms" "map tool_id rs = map Some is"
          "distinct is" "set is = set ids" "complete_context ms"
        using complete_calls[OF _ calls] by blast
      moreover have "is \<noteq> []" using round(4) calls_in_Some[OF calls] by auto
      ultimately obtain us later where "take_chunk ids [] vs = (us, later)" "projected later = ms"
        using take_chunk_round[of vs rs ms "is" "[]" ids] "2.prems"(1) by auto
      then show ?thesis using "2.prems"(3) False Some round(5) chunks_concat by auto
    qed
  qed
qed simp

lemma chunks_tail: "chunkHistoryMessages vs = c # cs \<Longrightarrow> chunkHistoryMessages (concat cs) = cs"
  by (cases vs) (auto simp: chunks_concat split: if_splits option.splits prod.splits)

lemma complete_window:
  "tidy vs \<Longrightarrow> complete_context (projected vs) \<Longrightarrow> complete_context (projected (concat (drop n (chunkHistoryMessages vs))))"
proof (induction n arbitrary: vs)
  case 0
  then show ?case by (simp add: chunks_concat)
next
  case (Suc n)
  show ?case
  proof (cases "chunkHistoryMessages vs")
    case Nil
    then show ?thesis by (simp add: complete_Nil)
  next
    case (Cons c cs)
    have rest: "chunkHistoryMessages (concat cs) = cs" using chunks_tail[OF Cons] .
    have "complete_context (projected (concat cs))" using complete_rest[OF Suc.prems Cons] .
    moreover have "tidy (concat cs)" using Suc.prems(1) chunks_concat[of vs] Cons
      by (metis concat.simps(2) tidy_simps(3))
    ultimately show ?thesis using Suc.IH[of "concat cs"] rest Cons by simp
  qed
qed

section \<open>The promise\<close>

text \<open>
  C20. A model is sent whole rounds. Whatever a conversation holds, the history loaded for a run has every
  message with tool calls followed by one result for each of them and no other result; a history that is
  whole already is sent as it is; and everything users and the system said is there, decisions on approvals
  moved only. A window of the history has as many messages as its limit or all of them and is a last part
  of it, and it cuts no round: of a whole history it is whole again.
\<close>

theorem models_are_sent_whole_rounds:
  assumes "tidy vs" and "complete_context (projected (orderApprovalDecisionsForModel vs))"
  shows "complete_context (fst (loadModelHistory h withoutCheckpoint)) \<and>
    (\<forall>ms. complete_context (removeIncompleteToolContext ms)) \<and>
    (complete_context ms \<longrightarrow> removeIncompleteToolContext ms = ms) \<and>
    filter is_said (projectAgentVisibleHistory us) = List.map_filter said_view (orderApprovalDecisionsForModel us) \<and>
    mset (orderApprovalDecisionsForModel us) = mset us \<and>
    suffix (selectRecentCompleteHistory us limit) (orderApprovalDecisionsForModel us) \<and>
    min limit (length us) \<le> length (selectRecentCompleteHistory us limit) \<and>
    complete_context (projected (selectRecentCompleteHistory vs limit))"
proof -
  have "complete_context (fst (loadModelHistory h withoutCheckpoint))"
    by (simp add: loadModelHistory_def Let_def projectAgentVisibleHistory_def removeIncomplete_complete)
  moreover have "suffix (selectRecentCompleteHistory us limit) (orderApprovalDecisionsForModel us)"
  proof -
    obtain n where "selectRecentCompleteHistory us limit =
        concat (drop n (chunkHistoryMessages (orderApprovalDecisionsForModel us)))"
      using select_window by blast
    then show ?thesis unfolding suffix_def
      by (metis append_take_drop_id chunks_concat concat_append)
  qed
  moreover have "complete_context (projected (selectRecentCompleteHistory vs limit))"
  proof -
    have "tidy (orderApprovalDecisionsForModel vs)"
      using assms(1) order_decisions_mset[of "[]" vs]
      by (metis add_0 mset.simps(1) mset_eq_setD orderApprovalDecisionsForModel_def tidy_def)
    then show ?thesis using complete_window[OF _ assms(2)] select_window[of vs limit] by metis
  qed
  moreover have "mset (orderApprovalDecisionsForModel us) = mset us"
    using order_decisions_mset[of "[]" us] by (simp add: orderApprovalDecisionsForModel_def)
  ultimately show ?thesis
    using removeIncomplete_complete removeIncomplete_same project_said select_window[of us limit] by blast
qed

definition view_of :: "chat_role \<Rightarrow> model_tool_call list option \<Rightarrow> string option \<Rightarrow> chat_view" where
  "view_of r calls answered =
     \<lparr> cv_id = [], cv_role = r, cv_text = [], cv_isDecision = False, cv_toolCalls = calls, cv_toolResult = answered,
       cv_continuation = None, cv_content = Plain_Content [] \<rparr>"

definition asked_and_answered :: "chat_view list" where
  "asked_and_answered =
     [view_of Role_User None None,
      view_of Role_Assistant (Some [\<lparr> mc_toolCallId = ''c1'', mc_toolName = ''search'', mc_input = JNull,
        mc_inputParseError = None \<rparr>]) None,
      view_of Role_Tool None (Some ''c1'')]"

lemma asked_and_answered_complete:
  "tidy asked_and_answered \<and> complete_context (projected (orderApprovalDecisionsForModel asked_and_answered))"
proof -
  have "complete_context (Msg_User (Plain_Content []) #
      Msg_Assistant (Plain_Content []) (Some [\<lparr> mc_toolCallId = ''c1'', mc_toolName = ''search'', mc_input = JNull,
        mc_inputParseError = None \<rparr>]) # [Msg_Tool ''c1'' (Plain_Content [])] @ [])"
    by (rule complete_plain, simp, simp, rule complete_round[of _ "[''c1'']" _ "[''c1'']"]) (simp_all add: complete_Nil)
  then show ?thesis
    by (simp add: asked_and_answered_def view_of_def tidy_def orderApprovalDecisionsForModel_def
        toModelHistoryMessage_def)
qed

lemma models_are_sent_whole_rounds_witness:
  "complete_context (projected (selectRecentCompleteHistory asked_and_answered 1)) \<and>
    1 \<le> length (selectRecentCompleteHistory asked_and_answered 1)"
  using models_are_sent_whole_rounds[where vs = asked_and_answered and us = asked_and_answered and limit = 1]
    asked_and_answered_complete by (simp add: asked_and_answered_def)

end
