(* ===== verification/Model_Budget.thy ===== *)
theory Model_Budget imports Model_History_Facts Json_Text begin

text \<open>
  The images of one request stay within a number of bytes
  (\<open>packages/agent-runtime/src/model-input-image-budget.ts\<close>), and a line says what was left out
  (\<open>model-visible-artifacts.ts\<close>). The code tells images apart by reference, here by their place.
\<close>

section \<open>Leaving images out\<close>

definition VISUAL_CONTEXT_LOADED_HEADER :: string where
  "VISUAL_CONTEXT_LOADED_HEADER = ''[Visual context loaded]''"

definition VISUAL_CONTEXT_NOT_LOADED_HEADER :: string where
  "VISUAL_CONTEXT_NOT_LOADED_HEADER =
     ''[Visual context not loaded: older images are not kept in model context. '' @
     ''To see one again, repeat the tool call that produced it with the values below.]''"

text \<open>\<open>String.replace\<close> of the first occurrence by nothing.\<close>

fun remove_first :: "string \<Rightarrow> string \<Rightarrow> string" where
  "remove_first p [] = []"
| "remove_first p (c # s) =
     (if starts_with (c # s) p then drop (length p) (c # s) else c # remove_first p s)"

fun reload_label :: "image_source option \<Rightarrow> string option" where
  "reload_label (Some (From_Tool_Result l)) = Some l"
| "reload_label _ = None"

fun other_label :: "image_source option \<Rightarrow> string option" where
  "other_label (Some (From_Tool_Result l)) = Some l"
| "other_label (Some (From_User_Attachment l)) = Some l"
| "other_label None = None"

definition list_lines :: "string list \<Rightarrow> string" where
  "list_lines labels = join_with [CHR 0x0A] (VISUAL_CONTEXT_NOT_LOADED_HEADER # map (\<lambda>l. ''- '' @ l) labels)"

definition too_large_note :: "model_image list \<Rightarrow> string" where
  "too_large_note others =
     (let n = length others; names = List.map_filter (\<lambda>im. other_label (mi_source im)) others
      in ''['' @ (if n = 1 then ''1 image was'' else nat_text n @ '' images were'') @
         '' too large to include in the model input and '' @ (if n = 1 then ''was'' else ''were'') @ '' left out'' @
         (if names \<noteq> [] then '': '' @ join_with '', '' names else []) @ ''.]'')"

definition without_labels :: "string list \<Rightarrow> string \<Rightarrow> string" where
  "without_labels labels t =
     (let u = foldl (\<lambda>t l. remove_first ([CHR 0x0A] @ ''- '' @ l) t) t labels
      in if ends_with u VISUAL_CONTEXT_LOADED_HEADER
         then trim_end (take (length u - length VISUAL_CONTEXT_LOADED_HEADER) u) else u)"

fun text_part :: "content_part \<Rightarrow> string" where
  "text_part (Text_Content t) = t"
| "text_part _ = []"

text \<open>The images of a content with the places of their parts.\<close>

fun image_at :: "nat \<times> content_part \<Rightarrow> (nat \<times> model_image) option" where
  "image_at (j, Image_Content im) = Some (j, im)"
| "image_at _ = None"

fun modelContentImages :: "model_content \<Rightarrow> (nat \<times> model_image) list" where
  "modelContentImages (Plain_Content t) = []"
| "modelContentImages (Content_Parts ps) = List.map_filter image_at (enumerate 0 ps)"

text \<open>The text in place of the images that are left out.\<close>

definition omission_text :: "model_image list \<Rightarrow> string \<Rightarrow> string" where
  "omission_text images t =
     (let reloadable = List.map_filter (\<lambda>im. reload_label (mi_source im)) images;
          others = filter (\<lambda>im. reload_label (mi_source im) = None) images;
          notes = (if reloadable \<noteq> [] then [list_lines reloadable] else []) @
            (if others \<noteq> [] then [too_large_note others] else [])
      in join_with [CHR 0x0A, CHR 0x0A]
           (filter (\<lambda>s. s \<noteq> []) ((if reloadable \<noteq> [] then without_labels reloadable t else t) # notes)))"

fun omitModelVisibleImages :: "nat set \<Rightarrow> model_content \<Rightarrow> model_content" where
  "omitModelVisibleImages omitted (Plain_Content t) = Plain_Content t"
| "omitModelVisibleImages omitted (Content_Parts ps) =
     (let places = modelContentImages (Content_Parts ps);
          images = map snd (filter (\<lambda>(j, im). j \<in> omitted) places);
          remaining = map snd (filter (\<lambda>(j, im). j \<notin> omitted) places)
      in if images = [] then Content_Parts ps
         else
           (let projected_text = omission_text images (concat (map text_part ps))
            in if remaining \<noteq> [] then Content_Parts (Text_Content projected_text # map Image_Content remaining)
               else Plain_Content projected_text))"

section \<open>The budget\<close>

definition MODEL_INPUT_IMAGES_MAX_BYTES :: nat where
  "MODEL_INPUT_IMAGES_MAX_BYTES = 32 * 1024 * 1024"

fun message_content :: "model_message \<Rightarrow> model_content" where
  "message_content (Msg_System c) = c"
| "message_content (Msg_User c) = c"
| "message_content (Msg_Assistant c ts) = c"
| "message_content (Msg_Tool i c) = c"

fun with_content :: "model_content \<Rightarrow> model_message \<Rightarrow> model_message" where
  "with_content d (Msg_System c) = Msg_System d"
| "with_content d (Msg_User c) = Msg_User d"
| "with_content d (Msg_Assistant c ts) = Msg_Assistant d ts"
| "with_content d (Msg_Tool i c) = Msg_Tool i d"

fun is_user :: "model_message \<Rightarrow> bool" where
  "is_user (Msg_User c) \<longleftrightarrow> True"
| "is_user _ \<longleftrightarrow> False"

type_synonym image_entry = "(nat \<times> nat) \<times> nat"

definition entries_of :: "nat \<times> model_message \<Rightarrow> image_entry list" where
  "entries_of = (\<lambda>(i, m). map (\<lambda>(j, im). ((i, j), mi_bytes im)) (modelContentImages (message_content m)))"

definition image_entries :: "model_message list \<Rightarrow> image_entry list" where
  "image_entries ms = concat (map entries_of (enumerate 0 ms))"

definition newestUserIndex :: "model_message list \<Rightarrow> nat option" where
  "newestUserIndex ms = List.find (\<lambda>i. is_user (ms ! i)) (rev [0..<length ms])"

definition by_priority :: "model_message list \<Rightarrow> image_entry list" where
  "by_priority ms =
     (let newestFirst = rev (image_entries ms);
          newest = (\<lambda>e. Some (fst (fst e)) = newestUserIndex ms)
      in rev (filter newest newestFirst) @ filter (\<lambda>e. \<not> newest e) newestFirst)"

text \<open>The places of the images that are left out: from the first one that does not fit on, all.\<close>

fun left_out :: "nat \<Rightarrow> bool \<Rightarrow> image_entry list \<Rightarrow> (nat \<times> nat) list" where
  "left_out remainingBytes exhausted [] = []"
| "left_out remainingBytes exhausted ((place, bytes) # es) =
     (let ex = (exhausted \<or> bytes > remainingBytes)
      in if ex then place # left_out remainingBytes ex es else left_out (remainingBytes - bytes) ex es)"

definition applyModelInputImageBudget :: "nat \<Rightarrow> model_message list \<Rightarrow> model_message list \<times> nat" where
  "applyModelInputImageBudget maxBytes ms =
     (let omitted = left_out maxBytes False (by_priority ms)
      in if omitted = [] then (ms, 0)
         else (map (\<lambda>(i, m). with_content (omitModelVisibleImages (set (map snd (filter (\<lambda>e. fst e = i) omitted))) (message_content m)) m)
                 (enumerate 0 ms), length omitted))"

end
