(* ===== verification/Model_Budget_Facts.thy ===== *)
theory Model_Budget_Facts imports Model_Budget begin

text \<open>
  The images of a request stay within the budget, the newest ones first, and leaving images out changes
  nothing but the contents that lose one (\<open>images_within_budget\<close>).
\<close>

section \<open>What is left of a content\<close>

lemma images_of_parts:
  "map snd (List.map_filter image_at (enumerate k (map Image_Content ims))) = ims"
  by (induction ims arbitrary: k) (simp_all add: map_filter_simps)

lemma omit_keeps_the_others:
  "map snd (modelContentImages (omitModelVisibleImages gone c)) =
    map snd (filter (\<lambda>(j, im). j \<notin> gone) (modelContentImages c))"
proof (cases c)
  case (Content_Parts ps)
  let ?at = "modelContentImages c"
  show ?thesis
  proof (cases "filter (\<lambda>(j, im). j \<in> gone) ?at = []")
    case True
    then have "filter (\<lambda>(j, im). j \<notin> gone) ?at = ?at" by (auto simp: filter_empty_conv intro!: filter_True)
    then show ?thesis using True Content_Parts by (simp add: Let_def)
  next
    case False
    let ?rest = "map snd (filter (\<lambda>(j, im). j \<notin> gone) ?at)"
    define t where "t = omission_text (map snd (filter (\<lambda>(j, im). j \<in> gone) ?at)) (concat (map text_part ps))"
    have omitted: "omitModelVisibleImages gone c =
        (if ?rest \<noteq> [] then Content_Parts (Text_Content t # map Image_Content ?rest) else Plain_Content t)"
      using False unfolding Content_Parts omitModelVisibleImages.simps Let_def t_def by (auto simp del: modelContentImages.simps)
    have "map snd (modelContentImages (Content_Parts (Text_Content t # map Image_Content ims))) = ims" for ims
      using images_of_parts[of "Suc 0" ims] by (simp add: map_filter_simps)
    then show ?thesis unfolding omitted by (auto simp del: modelContentImages.simps(2) map_map)
  qed
qed simp

lemma entries_of_omitted:
  "map snd (entries_of (i, with_content (omitModelVisibleImages {j. (i, j) \<in> K} (message_content m)) m)) =
    map snd (filter (\<lambda>e. fst e \<notin> K) (entries_of (i, m)))"
proof -
  have content: "message_content (with_content d m) = d" for d by (cases m) simp_all
  let ?gone = "{j. (i, j) \<in> K}"
  have "map snd (entries_of (i, with_content (omitModelVisibleImages ?gone (message_content m)) m)) =
      map mi_bytes (map snd (modelContentImages (omitModelVisibleImages ?gone (message_content m))))"
    by (auto simp: entries_of_def content)
  also have "\<dots> = map mi_bytes (map snd (filter (\<lambda>(j, im). j \<notin> ?gone) (modelContentImages (message_content m))))"
    by (simp only: omit_keeps_the_others)
  also have "\<dots> = map snd (filter (\<lambda>e. fst e \<notin> K) (entries_of (i, m)))"
    by (induction "modelContentImages (message_content m)") (auto simp: entries_of_def filter_map o_def case_prod_beta)
  finally show ?thesis .
qed

section \<open>Places\<close>

lemma entries_place: "e \<in> set (entries_of (i, m)) \<Longrightarrow> fst (fst e) = i"
  by (auto simp: entries_of_def)

lemma images_places:
  "distinct (map fst (List.map_filter image_at (enumerate k ps))) \<and>
    (\<forall>p \<in> set (List.map_filter image_at (enumerate k ps)). k \<le> fst p)"
proof (induction ps arbitrary: k)
  case (Cons p ps)
  show ?case using Cons.IH[of "Suc k"] by (cases p) (force simp: map_filter_simps)+
qed (simp add: map_filter_simps)

lemma distinct_entries_of: "distinct (map fst (entries_of (i, m)))"
proof -
  have "distinct (map fst (modelContentImages c))" for c
    using images_places by (cases c) auto
  moreover have "map fst (entries_of (i, m)) = map (Pair i) (map fst (modelContentImages (message_content m)))"
    by (auto simp: entries_of_def)
  ultimately show ?thesis by (simp add: distinct_map inj_on_def)
qed

lemma distinct_places: "distinct (map fst (concat (map entries_of (enumerate k ms))))"
proof (induction ms arbitrary: k)
  case (Cons m ms)
  have "fst (fst e) \<ge> Suc k" if "e \<in> set (concat (map entries_of (enumerate (Suc k) ms)))" for e
  proof -
    from that have "\<exists>p \<in> set (enumerate (Suc k) ms). e \<in> set (entries_of p)" by (simp add: set_concat)
    then obtain p where p: "p \<in> set (enumerate (Suc k) ms)" "e \<in> set (entries_of p)" by blast
    then have "Suc k \<le> fst p" by (simp add: in_set_enumerate_eq)
    then show ?thesis using p(2) entries_place[of e "fst p" "snd p"] by simp
  qed
  then have "set (map fst (entries_of (k, m))) \<inter> set (map fst (concat (map entries_of (enumerate (Suc k) ms)))) = {}"
    using entries_place[of _ k m] by fastforce
  then show ?case using distinct_entries_of[of k m] Cons.IH[of "Suc k"] by simp
qed simp

lemma mset_by_priority: "mset (by_priority ms) = mset (image_entries ms)"
  using multiset_partition[of "mset (image_entries ms)" "\<lambda>e. Some (fst (fst e)) = newestUserIndex ms"]
  by (simp add: by_priority_def Let_def)

section \<open>What fits\<close>

lemma left_out_exhausted: "left_out r True es = map fst es"
  by (induction r True es rule: left_out.induct) auto

text \<open>The images are taken in order as long as they fit.\<close>

lemma left_out_rest:
  "\<exists>n \<le> length es. left_out r False es = map fst (drop n es) \<and> sum_list (map snd (take n es)) \<le> r \<and>
    (n < length es \<longrightarrow> r < sum_list (map snd (take (Suc n) es)))"
proof (induction es arbitrary: r)
  case (Cons e es)
  obtain place bytes where e: "e = (place, bytes)" by (cases e)
  show ?case
  proof (cases "bytes > r")
    case True
    then show ?thesis using e by (intro exI[of _ 0]) (simp add: left_out_exhausted)
  next
    case False
    obtain n where "n \<le> length es" "left_out (r - bytes) False es = map fst (drop n es)"
        "sum_list (map snd (take n es)) \<le> r - bytes"
        "n < length es \<longrightarrow> r - bytes < sum_list (map snd (take (Suc n) es))"
      using Cons.IH by blast
    then show ?thesis using False e by (intro exI[of _ "Suc n"]) auto
  qed
qed simp

lemma kept_of_rest:
  assumes "distinct (map fst es)"
  shows "filter (\<lambda>e. fst e \<notin> set (map fst (drop n es))) es = take n es"
proof -
  have "distinct (map fst (take n es) @ map fst (drop n es))" using assms by (metis append_take_drop_id map_append)
  then have "\<forall>e \<in> set (take n es). fst e \<notin> set (map fst (drop n es))" by (auto simp: disjoint_iff)
  then have "filter (\<lambda>e. fst e \<notin> set (map fst (drop n es))) (take n es) = take n es" by (simp only: filter_id_conv)
  moreover have "filter (\<lambda>e. fst e \<notin> set (map fst (drop n es))) (drop n es) = []" by (simp add: filter_empty_conv)
  ultimately show ?thesis by (metis append_Nil2 append_take_drop_id filter_append)
qed

section \<open>The budget\<close>

definition image_bytes :: "model_message list \<Rightarrow> nat" where
  "image_bytes ms = sum_list (map snd (image_entries ms))"

definition kept_entries :: "nat \<Rightarrow> model_message list \<Rightarrow> image_entry list" where
  "kept_entries maxBytes ms =
     filter (\<lambda>e. fst e \<notin> set (left_out maxBytes False (by_priority ms))) (image_entries ms)"

lemma kept_bytes:
  "\<exists>n \<le> length (by_priority ms). mset (kept_entries maxBytes ms) = mset (take n (by_priority ms)) \<and>
    sum_list (map snd (kept_entries maxBytes ms)) \<le> maxBytes \<and>
    length (left_out maxBytes False (by_priority ms)) = length (by_priority ms) - n \<and>
    (n < length (by_priority ms) \<longrightarrow> maxBytes < sum_list (map snd (take (Suc n) (by_priority ms))))"
proof -
  let ?es = "by_priority ms"
  obtain n where n: "n \<le> length ?es" "left_out maxBytes False ?es = map fst (drop n ?es)"
      "sum_list (map snd (take n ?es)) \<le> maxBytes"
      "n < length ?es \<longrightarrow> maxBytes < sum_list (map snd (take (Suc n) ?es))"
    using left_out_rest by blast
  have "distinct (map fst ?es)"
    using distinct_places[of 0 ms] mset_by_priority[of ms]
    by (metis image_entries_def mset_eq_imp_distinct_iff mset_map)
  then have "take n ?es = filter (\<lambda>e. fst e \<notin> set (map fst (drop n ?es))) ?es" by (rule kept_of_rest[symmetric])
  then have kept: "mset (kept_entries maxBytes ms) = mset (take n ?es)"
    using mset_by_priority[of ms] n(2) by (simp add: kept_entries_def)
  then have "sum_list (map snd (kept_entries maxBytes ms)) = sum_list (map snd (take n ?es))"
    by (metis mset_map sum_mset_sum_list)
  with n kept show ?thesis by (intro exI[of _ n]) simp
qed

lemma places_in: "snd ` {e \<in> K. fst e = i} = {j. (i, j) \<in> K}"
  by force

lemma budget_bytes:
  "image_bytes (fst (applyModelInputImageBudget maxBytes ms)) = sum_list (map snd (kept_entries maxBytes ms))"
proof (cases "left_out maxBytes False (by_priority ms) = []")
  case True
  then show ?thesis by (simp add: applyModelInputImageBudget_def image_bytes_def kept_entries_def)
next
  case False
  let ?K = "set (left_out maxBytes False (by_priority ms))"
  let ?lose = "\<lambda>(i, m). with_content (omitModelVisibleImages {j. (i, j) \<in> ?K} (message_content m)) m"
  have result: "fst (applyModelInputImageBudget maxBytes ms) = map ?lose (enumerate 0 ms)"
    using False by (simp add: applyModelInputImageBudget_def Let_def places_in)
  have "map snd (concat (map entries_of (enumerate k (map ?lose (enumerate k xs))))) =
      map snd (filter (\<lambda>e. fst e \<notin> ?K) (concat (map entries_of (enumerate k xs))))" for k xs
    using entries_of_omitted[where K = ?K] by (induction xs arbitrary: k) simp_all
  then show ?thesis unfolding result image_bytes_def kept_entries_def image_entries_def by simp
qed

text \<open>The skeleton of a message: all but its content.\<close>

lemma budget_skeleton:
  "map (with_content d) (fst (applyModelInputImageBudget maxBytes ms)) = map (with_content d) ms"
proof -
  have "with_content d (with_content c m) = with_content d m" for c m by (cases m) simp_all
  then have "map (with_content d) (map (\<lambda>(i, m). with_content (f i m) m) (enumerate k ms)) = map (with_content d) ms"
    for f k by (induction ms arbitrary: k) simp_all
  then show ?thesis by (simp add: applyModelInputImageBudget_def Let_def)
qed

lemma calls_in_content: "calls_in (with_content d m) = calls_in m"
proof (cases m)
  case (Msg_Assistant c ts)
  then show ?thesis
  proof (cases ts)
    case (Some us)
    with Msg_Assistant show ?thesis by (cases us) simp_all
  qed simp
qed simp_all

lemma tool_id_content: "tool_id (with_content d m) = tool_id m"
  by (cases m) simp_all

lemma skeleton_calls: "with_content d m = with_content d m' \<Longrightarrow> calls_in m = calls_in m' \<and> tool_id m = tool_id m'"
  by (metis calls_in_content tool_id_content)

lemma skeleton_tools:
  assumes "map (with_content d) rs = map (with_content d) rs'"
  shows "map tool_id rs' = map tool_id rs"
proof -
  have "map tool_id xs = map tool_id (map (with_content d) xs)" for xs by (simp add: tool_id_content)
  then show ?thesis using assms by metis
qed

lemma skeleton_complete:
  "complete_context ms \<Longrightarrow> map (with_content d) ms = map (with_content d) ms' \<Longrightarrow> complete_context ms'"
proof (induction arbitrary: ms' rule: complete_context.induct)
  case complete_Nil
  then show ?case by (simp add: complete_context.complete_Nil)
next
  case (complete_plain m ms)
  then obtain m' rest where "ms' = m' # rest" "with_content d m = with_content d m'"
      "map (with_content d) ms = map (with_content d) rest" by (cases ms') auto
  then show ?case using complete_plain skeleton_calls[of d m m'] by (auto intro: complete_context.complete_plain)
next
  case (complete_round m ids rs "is" ms)
  then obtain m' rs' rest where split: "ms' = m' # rs' @ rest" "with_content d m = with_content d m'"
      "map (with_content d) rs = map (with_content d) rs'" "map (with_content d) ms = map (with_content d) rest"
    by (auto simp: map_eq_Cons_conv map_eq_append_conv append_eq_map_conv)
  have "map tool_id rs' = map tool_id rs"
    using split(3) by (rule skeleton_tools)
  then show ?case
    using complete_round split skeleton_calls[OF split(2)] complete_context.complete_round[of m' ids rs' "is" rest]
    by auto
qed

text \<open>
  The images of a request stay within the budget, and nothing else changes. The bytes of the images
  that are sent never pass the maximum; the images kept are the first ones by priority, those of the newest
  user message and then the newest, and the next one would not have fit; the count of what was left out is
  the number of the others. Messages keep their kind, their calls and their order, so a context of whole
  rounds stays one, and a request within the budget is sent as it is.
\<close>

lemma images_within_budget:
  "image_bytes (fst (applyModelInputImageBudget maxBytes ms)) \<le> maxBytes \<and>
    (\<exists>n \<le> length (by_priority ms).
      image_bytes (fst (applyModelInputImageBudget maxBytes ms)) = sum_list (map snd (take n (by_priority ms))) \<and>
      snd (applyModelInputImageBudget maxBytes ms) = length (by_priority ms) - n \<and>
      (n < length (by_priority ms) \<longrightarrow> maxBytes < sum_list (map snd (take (Suc n) (by_priority ms))))) \<and>
    (image_bytes ms \<le> maxBytes \<longrightarrow> applyModelInputImageBudget maxBytes ms = (ms, 0)) \<and>
    map (with_content d) (fst (applyModelInputImageBudget maxBytes ms)) = map (with_content d) ms \<and>
    (complete_context ms \<longrightarrow> complete_context (fst (applyModelInputImageBudget maxBytes ms)))"
proof -
  let ?es = "by_priority ms"
  obtain n where n: "n \<le> length ?es" "mset (kept_entries maxBytes ms) = mset (take n ?es)"
      "sum_list (map snd (kept_entries maxBytes ms)) \<le> maxBytes"
      "length (left_out maxBytes False ?es) = length ?es - n"
      "n < length ?es \<longrightarrow> maxBytes < sum_list (map snd (take (Suc n) ?es))"
    using kept_bytes by blast
  have bytes: "image_bytes (fst (applyModelInputImageBudget maxBytes ms)) = sum_list (map snd (take n ?es))"
    using n(2) budget_bytes by (metis mset_map sum_mset_sum_list)
  have left: "snd (applyModelInputImageBudget maxBytes ms) = length ?es - n"
    using n(4) by (auto simp: applyModelInputImageBudget_def Let_def)
  have "applyModelInputImageBudget maxBytes ms = (ms, 0)" if "image_bytes ms \<le> maxBytes"
  proof -
    have "sum_list (map snd (take (Suc n) ?es)) \<le> sum_list (map snd ?es)"
      by (metis append_take_drop_id le_add1 map_append sum_list_append)
    also have "\<dots> = image_bytes ms" using mset_by_priority[of ms] by (metis image_bytes_def mset_map sum_mset_sum_list)
    finally have "n = length ?es" using n(1,5) that by auto
    then show ?thesis using n(4) by (simp add: applyModelInputImageBudget_def)
  qed
  moreover have "complete_context (fst (applyModelInputImageBudget maxBytes ms))" if "complete_context ms"
    using skeleton_complete[OF that] budget_skeleton by metis
  ultimately show ?thesis using n bytes left budget_bytes[of maxBytes ms] budget_skeleton by auto
qed

definition two_pictures :: "model_message list" where
  "two_pictures =
     [Msg_User (Content_Parts [Image_Content \<lparr> mi_mimeType = ''image/png'', mi_bytes = 5, mi_source = None \<rparr>]),
      Msg_Tool ''c1'' (Content_Parts [Image_Content \<lparr> mi_mimeType = ''image/png'', mi_bytes = 4,
        mi_source = Some (From_Tool_Result ''page: 1'') \<rparr>])]"

lemma images_within_budget_witness:
  "applyModelInputImageBudget 9 two_pictures = (two_pictures, 0) \<and>
    image_bytes (fst (applyModelInputImageBudget 8 two_pictures)) \<le> 8"
proof -
  have "image_bytes two_pictures = 9"
    by (simp add: image_bytes_def image_entries_def two_pictures_def entries_of_def map_filter_simps)
  then show ?thesis using images_within_budget[of 9 two_pictures] images_within_budget[of 8 two_pictures] by simp
qed

end
