(* ===== verification/Model_Calls.thy ===== *)
theory Model_Calls imports Model_History Usage_Governance begin

text \<open>
  What a model gives back: its completion and the events of a streamed answer
  (\<open>packages/model-provider/src/types.ts\<close>). The gateway hands them on, the turns of a run read them.
\<close>

record model_completion =
  cp_text :: string
  cp_toolCalls :: "model_tool_call list"
  cp_continuation :: "(string \<times> json) option"
  cp_compacted :: bool
  cp_usage :: model_call_usage
  cp_sources :: "json option"
  cp_citations :: "json option"

datatype stream_event =
  Str_Text_Delta string
| Str_Reasoning_Delta string string
| Str_Tool_Call_Preparing string string
| Str_Tool_Call_Preparation_Cancelled string
| Str_Provider_Tool_Started string string "json option"
| Str_Provider_Tool_Completed string string "json option"
| Str_Completed model_completion

end
