(* ===== verification/Run_Turns.thy ===== *)
theory Run_Turns imports Model_Budget Model_Calls begin

text \<open>
  How an agent run goes: the turns of model and tools (\<open>packages/agent-runtime/src/run/turn-loop.ts\<close>), the
  calls of tools (\<open>run/tool-dispatch.ts\<close>, \<open>tool-call-execution.ts\<close>), the stream of an answer
  (\<open>run/run-events.ts\<close>) and the start of the run (\<open>local-agent-runtime.ts\<close>).

  What lies outside is a field of the services, each a function of a world of its own type \<open>'w\<close>: the gateway
  to the models, the tools, the conversation, the check before an effect, the clock. Whatever else happens to
  the run while one of them is awaited (a cancellation, the writes of events) is given by the service
  \<open>sv_meanwhile\<close>. Every call of a service that matters is recorded in order. What is the same for all calls of a
  run (the binding, the tools, the attribution) is left out, and so is logging.
\<close>

section \<open>The text of a tool's input\<close>

text \<open>
  \<open>stableStringify\<close>: the members of an object sorted, where a member whose name is an array index comes
  first, in the order of the numbers, as in every object of the language.
\<close>

definition array_index :: "string \<Rightarrow> nat option" where
  "array_index k =
     (let n = foldl (\<lambda>n c. 10 * n + (of_char c - 48)) (0 :: nat) k
      in if k \<noteq> [] \<and> nat_text n = k \<and> n < 2 ^ 32 - 1 then Some n else None)"

definition member_order :: "(string \<times> 'a) list \<Rightarrow> (string \<times> 'a) list" where
  "member_order kvs =
     sort_key (\<lambda>kv. the (array_index (fst kv))) (filter (\<lambda>kv. array_index (fst kv) \<noteq> None) kvs)
     @ sort_key fst (filter (\<lambda>kv. array_index (fst kv) = None) kvs)"

fun sortForStableStringify :: "json \<Rightarrow> json" where
  "sortForStableStringify (JArr vs) = JArr (map sortForStableStringify vs)"
| "sortForStableStringify (JObj kvs) = JObj (member_order (map (\<lambda>(k, v). (k, sortForStableStringify v)) kvs))"
| "sortForStableStringify v = v"

definition stableStringify :: "(rat \<Rightarrow> string) \<Rightarrow> json \<Rightarrow> string" where
  "stableStringify num v = json_stringify num (sortForStableStringify v)"

section \<open>Calls and answers\<close>

datatype runtime_effect = Provider_Request | Assistant_Message | Tool_Dispatch | Tool_Result_Message

record turn_request =
  ml_messages :: "model_message list"
  ml_continuation :: "(string \<times> json) option"

record model_output =
  mo_text :: string
  mo_content :: model_content
  mo_notice :: "json option"

record model_context =
  mx_inputTokens :: js_number
  mx_compactThresholdTokens :: nat
  mx_compacted :: bool

text \<open>An assistant message as it is stored: with its tool calls, or as the final one with its sources.\<close>

datatype assistant_kind = Final_Message "json option" "json option" | Calls_Message "model_tool_call list"

record assistant_append =
  aa_text :: string
  aa_kind :: assistant_kind
  aa_reasoning :: "(string \<times> string) list"
  aa_modelContext :: "model_context option"
  aa_continuation :: "(string \<times> json) option"

datatype run_effect =
  Eff_Model_Call turn_request
| Eff_Drop_Continuation
| Eff_Assistant assistant_append
| Eff_Authorize model_tool_call tool_authorization
| Eff_Execute model_tool_call
| Eff_Tool_Message model_tool_call tool_result model_output

section \<open>Services and state\<close>

datatype outside_step =
  Out_Begin_Cancellation
| Out_Cancel time "string option" "run_message option"
| Out_Written time bool

fun apply_outside :: "outside_step \<Rightarrow> run_state \<Rightarrow> run_state" where
  "apply_outside Out_Begin_Cancellation s = snd (beginCancellation s)"
| "apply_outside (Out_Cancel now reason partialMessage) s = cancel now reason partialMessage s"
| "apply_outside (Out_Written now ok) s = write_settled now ok s"

text \<open>
  What the configuration and the conversation give a run before its first turn: the content of the system
  message, the bounds, whether the provider compacts and continues, and the language.
\<close>

record run_setup =
  su_system :: model_content
  su_maxSteps :: nat
  su_repeatedToolCallLimit :: nat
  su_compactThresholdTokens :: "nat option"
  su_continuation :: bool
  su_locale :: "string option"

record 'w run_services =
  sv_setup :: "'w \<Rightarrow> 'w \<times> (thrown, run_setup) result"
  sv_userContent :: "'w \<Rightarrow> 'w \<times> (thrown, model_content) result"
  sv_beforeEffect :: "runtime_effect \<Rightarrow> 'w \<Rightarrow> 'w \<times> (thrown, unit) result"
  sv_streaming :: bool
  sv_complete :: "turn_request \<Rightarrow> 'w \<Rightarrow> 'w \<times> (thrown, model_completion) result"
  sv_stream :: "turn_request \<Rightarrow> 'w \<Rightarrow> 'w \<times> (stream_event list \<times> thrown option)"
  sv_rejectsContinuation :: "thrown \<Rightarrow> bool"
  sv_authorize :: "model_tool_call \<Rightarrow> 'w \<Rightarrow> 'w \<times> (thrown, tool_authorization) result"
  sv_execute :: "model_tool_call \<Rightarrow> 'w \<Rightarrow> 'w \<times> (thrown, tool_result) result"
  sv_toolOutput :: "tool_result \<Rightarrow> 'w \<Rightarrow> 'w \<times> (thrown, model_output) result"
  sv_appendAssistant :: "assistant_append \<Rightarrow> 'w \<Rightarrow> 'w \<times> (thrown, run_message) result"
  sv_appendTool :: "model_tool_call \<Rightarrow> tool_result \<Rightarrow> model_output \<Rightarrow> 'w \<Rightarrow> 'w \<times> (thrown, unit) result"
  sv_dropContinuation :: "'w \<Rightarrow> 'w \<times> (thrown, unit) result"
  sv_history :: "'w \<Rightarrow> 'w \<times> (thrown, history_input) result"
  sv_aborted :: "'w \<Rightarrow> bool"
  sv_now :: "'w \<Rightarrow> time"
  sv_num :: "rat \<Rightarrow> string"
  sv_meanwhile :: "'w \<Rightarrow> 'w \<times> outside_step list"

record 'w turn_state =
  tn_run :: run_state
  tn_world :: 'w
  tn_effects :: "run_effect list"

type_synonym ('w, 'a) turn = "'w turn_state \<Rightarrow> 'w turn_state \<times> (thrown, 'a) result"

definition give :: "'a \<Rightarrow> ('w, 'a) turn" where
  "give a s = (s, Inr a)"

definition throw :: "thrown \<Rightarrow> ('w, 'a) turn" where
  "throw t s = (s, Inl t)"

definition next_turn :: "('w, 'a) turn \<Rightarrow> ('a \<Rightarrow> ('w, 'b) turn) \<Rightarrow> ('w, 'b) turn" where
  "next_turn m f s = (case m s of (s', Inl t) \<Rightarrow> (s', Inl t) | (s', Inr a) \<Rightarrow> f a s')"

definition catch_turn :: "('w, 'a) turn \<Rightarrow> (thrown \<Rightarrow> ('w, 'a) turn) \<Rightarrow> ('w, 'a) turn" where
  "catch_turn m h s = (case m s of (s', Inl t) \<Rightarrow> h t s' | (s', Inr a) \<Rightarrow> (s', Inr a))"

definition with_state :: "('w turn_state \<Rightarrow> ('w, 'a) turn) \<Rightarrow> ('w, 'a) turn" where
  "with_state f s = f s s"

text \<open>What else happened while the program waited.\<close>

definition pause :: "'w run_services \<Rightarrow> 'w turn_state \<Rightarrow> 'w turn_state" where
  "pause sv s =
     (case sv_meanwhile sv (tn_world s) of (w, steps) \<Rightarrow>
        s\<lparr>tn_world := w, tn_run := foldl (\<lambda>r st. apply_outside st r) (tn_run s) steps\<rparr>)"

definition await :: "'w run_services \<Rightarrow> ('w \<Rightarrow> 'w \<times> (thrown, 'a) result) \<Rightarrow> ('w, 'a) turn" where
  "await sv f s = (case f (tn_world s) of (w, r) \<Rightarrow> (pause sv (s\<lparr>tn_world := w\<rparr>), r))"

definition note_effect :: "run_effect \<Rightarrow> ('w, unit) turn" where
  "note_effect e s = (s\<lparr>tn_effects := tn_effects s @ [e]\<rparr>, Inr ())"

definition on_run :: "'w run_services \<Rightarrow> (time \<Rightarrow> run_state \<Rightarrow> run_state) \<Rightarrow> ('w, unit) turn" where
  "on_run sv f s = (s\<lparr>tn_run := f (sv_now sv (tn_world s)) (tn_run s)\<rparr>, Inr ())"

definition emit_turn :: "'w run_services \<Rightarrow> run_event \<Rightarrow> ('w, unit) turn" where
  "emit_turn sv e = on_run sv (\<lambda>now. emit now e)"

definition beforeEffect :: "'w run_services \<Rightarrow> runtime_effect \<Rightarrow> ('w, unit) turn" where
  "beforeEffect sv e = await sv (sv_beforeEffect sv e)"

fun isCancellationRequested :: "agent_run_status \<Rightarrow> bool" where
  "isCancellationRequested st \<longleftrightarrow> st = Rn_Cancelling \<or> st = Rn_Cancelled"

section \<open>Calls of tools\<close>

record repeated_call =
  rc_count :: nat
  rc_limit :: nat

definition repeated :: "repeated_call \<Rightarrow> bool" where
  "repeated rc \<longleftrightarrow> rc_count rc > rc_limit rc"

definition call_key :: "(rat \<Rightarrow> string) \<Rightarrow> model_tool_call \<Rightarrow> string" where
  "call_key num tc = mc_toolName tc @ '':'' @ stableStringify num (mc_input tc)"

definition registerToolCall ::
    "(rat \<Rightarrow> string) \<Rightarrow> nat \<Rightarrow> model_tool_call \<Rightarrow> (string \<Rightarrow> nat) \<Rightarrow> (string \<Rightarrow> nat) \<times> repeated_call" where
  "registerToolCall num limit tc counts =
     (let key = call_key num tc; n = counts key + 1
      in (counts(key := n), \<lparr> rc_count = n, rc_limit = limit \<rparr>))"

definition repeated_failure :: "model_tool_call \<Rightarrow> repeated_call \<Rightarrow> tool_result" where
  "repeated_failure tc rc =
     Tool_Failure Status_Failed
       \<lparr> tf_code = Repeated_Tool_Call,
         tf_message = ''Repeated identical tool call '' @ quoted (mc_toolName tc) @
           '' reached the configured limit of '' @ nat_text (rc_limit rc),
         tf_details = Some (JObj [(''count'', JNum (of_nat (rc_count rc))), (''limit'', JNum (of_nat (rc_limit rc)))]) \<rparr>"

definition denied_failure :: "string \<Rightarrow> tool_result" where
  "denied_failure reason =
     Tool_Failure Status_Failed \<lparr> tf_code = Not_Allowed, tf_message = reason, tf_details = None \<rparr>"

definition invalid_failure :: "string \<Rightarrow> tool_result" where
  "invalid_failure text_of_error =
     Tool_Failure Status_Failed
       \<lparr> tf_code = Validation_Failed, tf_message = text_of_error,
         tf_details = Some (JObj [(''issues'', JArr [JObj [(''code'', JStr ''invalid_json''), (''path'', JStr []),
           (''message'', JStr text_of_error)]])]) \<rparr>"

definition show_result :: "'w run_services \<Rightarrow> model_tool_call \<Rightarrow> tool_result \<Rightarrow> ('w, tool_result \<times> model_output) turn" where
  "show_result sv tc r =
     next_turn (await sv (sv_toolOutput sv r)) (\<lambda>out.
     next_turn (emit_turn sv (case r of
         Tool_Success x \<Rightarrow> Ev_Tool_Call_Completed (mc_toolCallId tc) (mc_toolName tc) r (mo_text out) (mo_notice out)
       | Tool_Failure st f \<Rightarrow> Ev_Tool_Call_Failed (mc_toolCallId tc) (mc_toolName tc) r (mo_text out) (mo_notice out)))
       (\<lambda>_. give (r, out)))"

definition approval_conflict :: thrown where
  "approval_conflict = Thrown_Error (app_error CONFLICT
     ''Tool approval is required, but this v1 request path does not resume paused runs'')"

definition run_allowed_tool :: "'w run_services \<Rightarrow> model_tool_call \<Rightarrow> ('w, tool_result \<times> model_output) turn" where
  "run_allowed_tool sv tc =
     next_turn (beforeEffect sv Tool_Dispatch) (\<lambda>_.
     next_turn (note_effect (Eff_Execute tc)) (\<lambda>_.
     next_turn (await sv (sv_execute sv tc)) (\<lambda>r. show_result sv tc r)))"

text \<open>What is done with a call once its permission is known.\<close>

definition decided_call ::
    "'w run_services \<Rightarrow> model_tool_call \<Rightarrow> tool_authorization \<Rightarrow> ('w, tool_result \<times> model_output) turn" where
  "decided_call sv tc decision =
     (case decision of
        Tool_Denied reason \<Rightarrow> show_result sv tc (denied_failure reason)
      | _ \<Rightarrow>
          (case mc_inputParseError tc of
             Some t \<Rightarrow> show_result sv tc (invalid_failure t)
           | None \<Rightarrow>
               (case decision of
                  Tool_Requires_Approval reason preview \<Rightarrow>
                    next_turn (emit_turn sv
                        (Ev_Tool_Permission_Requested (mc_toolCallId tc) (mc_toolName tc) reason preview))
                      (\<lambda>_. throw approval_conflict)
                | _ \<Rightarrow> run_allowed_tool sv tc)))"

definition executeToolCall ::
    "'w run_services \<Rightarrow> model_tool_call \<Rightarrow> repeated_call \<Rightarrow> ('w, tool_result \<times> model_output) turn" where
  "executeToolCall sv tc rc =
     next_turn (emit_turn sv (Ev_Tool_Call_Started (mc_toolCallId tc) (mc_toolName tc) (mc_input tc))) (\<lambda>_.
       if repeated rc then show_result sv tc (repeated_failure tc rc)
       else
         next_turn (await sv (sv_authorize sv tc)) (\<lambda>decision.
         next_turn (note_effect (Eff_Authorize tc decision)) (\<lambda>_. decided_call sv tc decision)))"

text \<open>What dispatching gives: whether the run stops here, the counts of calls, and the messages.\<close>

type_synonym dispatched = "bool \<times> (string \<Rightarrow> nat) \<times> model_message list"

fun dispatchToolCalls ::
    "'w run_services \<Rightarrow> nat \<Rightarrow> (string \<Rightarrow> nat) \<Rightarrow> model_message list \<Rightarrow> model_tool_call list \<Rightarrow> ('w, dispatched) turn" where
  "dispatchToolCalls sv limit counts messages [] = give (False, counts, messages)"
| "dispatchToolCalls sv limit counts messages (tc # tcs) =
     with_state (\<lambda>s0.
       if sv_aborted sv (tn_world s0) then give (True, counts, messages)
       else
         (case registerToolCall (sv_num sv) limit tc counts of (counts', rc) \<Rightarrow>
            next_turn (executeToolCall sv tc rc) (\<lambda>(r, out).
            with_state (\<lambda>s1.
              if isCancellationRequested (rs_status (tn_run s1)) then give (True, counts', messages)
              else
                next_turn (beforeEffect sv Tool_Result_Message) (\<lambda>_.
                next_turn (await sv (sv_appendTool sv tc r out)) (\<lambda>_.
                next_turn (note_effect (Eff_Tool_Message tc r out)) (\<lambda>_.
                  dispatchToolCalls sv limit counts' (messages @ [Msg_Tool (mc_toolCallId tc) (mo_content out)]) tcs)))))))"

section \<open>The answer of a model\<close>

record stream_state =
  st_completion :: "model_completion option"
  st_emittedDeltas :: bool
  st_streamedText :: string
  st_reasoning :: "(string \<times> string) list"

definition getUnstreamedCompletionText :: "string \<Rightarrow> string \<Rightarrow> bool \<Rightarrow> string" where
  "getUnstreamedCompletionText completionText streamedText emittedDeltas =
     (if completionText = [] then []
      else if \<not> emittedDeltas then completionText
      else if starts_with completionText streamedText then drop (length streamedText) completionText
      else [])"

definition add_reasoning :: "string \<Rightarrow> string \<Rightarrow> (string \<times> string) list \<Rightarrow> (string \<times> string) list" where
  "add_reasoning i delta rs =
     AList.update i ((case map_of rs i of Some t \<Rightarrow> t | None \<Rightarrow> []) @ delta) rs"

fun stream_event_step :: "'w run_services \<Rightarrow> stream_event \<Rightarrow> stream_state \<Rightarrow> ('w, stream_state) turn" where
  "stream_event_step sv (Str_Text_Delta delta) st =
     (if delta = [] then give st
      else next_turn (emit_turn sv (Ev_Message_Delta delta)) (\<lambda>_.
        give (st\<lparr>st_emittedDeltas := True, st_streamedText := st_streamedText st @ delta\<rparr>)))"
| "stream_event_step sv (Str_Reasoning_Delta i delta) st =
     (if delta = [] then give st
      else next_turn (emit_turn sv (Ev_Reasoning_Delta i delta)) (\<lambda>_.
        give (st\<lparr>st_reasoning := add_reasoning i delta (st_reasoning st)\<rparr>)))"
| "stream_event_step sv (Str_Tool_Call_Preparing i name) st =
     next_turn (emit_turn sv (Ev_Tool_Call_Preparing i name)) (\<lambda>_. give st)"
| "stream_event_step sv (Str_Tool_Call_Preparation_Cancelled i) st =
     next_turn (emit_turn sv (Ev_Tool_Call_Preparation_Cancelled i)) (\<lambda>_. give st)"
| "stream_event_step sv (Str_Provider_Tool_Started i name inp) st =
     next_turn (emit_turn sv (Ev_Tool_Call_Started i name (case inp of Some v \<Rightarrow> v | None \<Rightarrow> JObj []))) (\<lambda>_. give st)"
| "stream_event_step sv (Str_Provider_Tool_Completed i name out) st =
     next_turn (emit_turn sv (Ev_Tool_Call_Completed i name
       (Tool_Success \<lparr> ts_output = Some (case out of Some v \<Rightarrow> v | None \<Rightarrow> JObj []), ts_display = None,
          ts_structuredResult = None, ts_artifacts = None \<rparr>) [] None)) (\<lambda>_. give st)"
| "stream_event_step sv (Str_Completed c) st =
     (let unstreamed = getUnstreamedCompletionText (cp_text c) (st_streamedText st) (st_emittedDeltas st);
          st1 = st\<lparr>st_completion := Some c\<rparr>
      in if unstreamed = [] then give st1
         else next_turn (emit_turn sv (Ev_Message_Delta unstreamed)) (\<lambda>_. give (st1\<lparr>st_emittedDeltas := True\<rparr>)))"

fun stream_events :: "'w run_services \<Rightarrow> stream_event list \<Rightarrow> stream_state \<Rightarrow> ('w, stream_state) turn" where
  "stream_events sv [] st = give st"
| "stream_events sv (e # es) st =
     next_turn (stream_event_step sv e st) (\<lambda>st1.
     next_turn (await sv (\<lambda>w. (w, Inr ()))) (\<lambda>_. stream_events sv es st1))"

type_synonym model_answer = "model_completion \<times> bool \<times> (string \<times> string) list"

definition no_completion :: thrown where
  "no_completion = Thrown_Error (app_error INTERNAL ''Model provider stream ended without a completion'')"

definition streamModelCall :: "'w run_services \<Rightarrow> turn_request \<Rightarrow> ('w, model_answer) turn" where
  "streamModelCall sv call =
     (if \<not> sv_streaming sv then
        next_turn (await sv (sv_complete sv call)) (\<lambda>c. give (c, False, []))
      else
        next_turn (await sv (\<lambda>w. case sv_stream sv call w of (w', r) \<Rightarrow> (w', Inr r))) (\<lambda>(events, failure).
        next_turn (stream_events sv events
            \<lparr> st_completion = None, st_emittedDeltas = False, st_streamedText = [], st_reasoning = [] \<rparr>) (\<lambda>st.
          case failure of
            Some t \<Rightarrow> throw t
          | None \<Rightarrow>
              (case st_completion st of
                 None \<Rightarrow> throw no_completion
               | Some c \<Rightarrow> give (c, st_emittedDeltas st, filter (\<lambda>(i, t). t \<noteq> []) (st_reasoning st))))))"

section \<open>The loop of turns\<close>

record loop_state =
  lp_messages :: "model_message list"
  lp_continuation :: "(string \<times> json) option"
  lp_carries :: bool
  lp_compacted :: bool
  lp_counts :: "string \<Rightarrow> nat"

definition callModel ::
    "'w run_services \<Rightarrow> run_setup \<Rightarrow> model_message list \<Rightarrow> (string \<times> json) option \<Rightarrow> ('w, model_answer) turn" where
  "callModel sv su messages continuation =
     (let call = \<lparr> ml_messages = fst (applyModelInputImageBudget MODEL_INPUT_IMAGES_MAX_BYTES messages),
            ml_continuation = (if su_continuation su then continuation else None) \<rparr>
      in next_turn (beforeEffect sv Provider_Request) (\<lambda>_.
         next_turn (note_effect (Eff_Model_Call call)) (\<lambda>_. streamModelCall sv call)))"

definition load_history ::
    "'w run_services \<Rightarrow> run_setup \<Rightarrow> bool \<Rightarrow> ('w, model_message list \<times> (string \<times> json) option) turn" where
  "load_history sv su withoutCheckpoint =
     next_turn (await sv (sv_history sv)) (\<lambda>h.
       give (loadModelHistory (h\<lparr>hi_compactionEnabled := su_compactThresholdTokens su \<noteq> None\<rparr>) withoutCheckpoint))"

text \<open>
  Asking the model. Only a continuation of an earlier run that the provider rejects is dropped, once, and the
  request is sent again from the history of the conversation.
\<close>

definition ask_again ::
    "'w run_services \<Rightarrow> run_setup \<Rightarrow> model_content \<Rightarrow> loop_state \<Rightarrow> thrown \<Rightarrow> ('w, loop_state \<times> model_answer) turn" where
  "ask_again sv su userContent lp t =
     (if \<not> lp_carries lp \<or> \<not> sv_rejectsContinuation sv t then throw t
      else
        next_turn (await sv (sv_dropContinuation sv)) (\<lambda>_.
        next_turn (note_effect Eff_Drop_Continuation) (\<lambda>_.
        next_turn (load_history sv su True) (\<lambda>rebuilt.
          let messages = Msg_System (su_system su) # fst rebuilt @ [Msg_User userContent] in
          next_turn (callModel sv su messages None) (\<lambda>answer.
            give (lp\<lparr>lp_messages := messages, lp_continuation := None\<rparr>, answer))))))"

definition ask_model ::
    "'w run_services \<Rightarrow> run_setup \<Rightarrow> model_content \<Rightarrow> loop_state \<Rightarrow> ('w, loop_state \<times> model_answer) turn" where
  "ask_model sv su userContent lp =
     catch_turn
       (next_turn (callModel sv su (lp_messages lp) (lp_continuation lp)) (\<lambda>answer. give (lp, answer)))
       (ask_again sv su userContent lp)"

fun is_system :: "model_message \<Rightarrow> bool" where
  "is_system (Msg_System c) \<longleftrightarrow> True"
| "is_system _ \<longleftrightarrow> False"

definition removePreCompactionMessages :: "model_message list \<Rightarrow> model_message list" where
  "removePreCompactionMessages messages = takeWhile is_system messages"

definition completedWithoutTextFallback :: "string option \<Rightarrow> string" where
  "completedWithoutTextFallback loc =
     (if loc = Some ''de'' then ''Ich habe die Anfrage abgeschlossen.'' else ''I completed the request.'')"

definition model_context_of :: "run_setup \<Rightarrow> loop_state \<Rightarrow> model_completion \<Rightarrow> model_context option" where
  "model_context_of su lp c =
     map_option (\<lambda>threshold. \<lparr> mx_inputTokens = mu_input (cp_usage c), mx_compactThresholdTokens = threshold,
       mx_compacted = lp_compacted lp \<rparr>) (su_compactThresholdTokens su)"

definition stop_now :: "'w run_services \<Rightarrow> 'w turn_state \<Rightarrow> bool" where
  "stop_now sv s \<longleftrightarrow> sv_aborted sv (tn_world s) \<or> isCancellationRequested (rs_status (tn_run s))"

text \<open>The state after an answer, and the assistant message that is stored for it.\<close>

definition answered :: "loop_state \<Rightarrow> model_completion \<Rightarrow> loop_state" where
  "answered lp c = lp\<lparr>lp_carries := False, lp_continuation := cp_continuation c,
     lp_compacted := lp_compacted lp \<or> cp_compacted c\<rparr>"

definition assistant_message ::
    "run_setup \<Rightarrow> loop_state \<Rightarrow> model_answer \<Rightarrow> string \<Rightarrow> assistant_kind \<Rightarrow> assistant_append" where
  "assistant_message su lp answer t k =
     \<lparr> aa_text = t, aa_kind = k, aa_reasoning = snd (snd answer), aa_modelContext = model_context_of su lp (fst answer),
       aa_continuation = (if cp_compacted (fst answer) then cp_continuation (fst answer) else None) \<rparr>"

definition store_assistant :: "'w run_services \<Rightarrow> assistant_append \<Rightarrow> ('w, run_message) turn" where
  "store_assistant sv a =
     next_turn (beforeEffect sv Assistant_Message) (\<lambda>_.
     next_turn (await sv (sv_appendAssistant sv a)) (\<lambda>persisted.
     next_turn (note_effect (Eff_Assistant a)) (\<lambda>_. give persisted)))"

definition finish_answer :: "'w run_services \<Rightarrow> run_setup \<Rightarrow> loop_state \<Rightarrow> model_answer \<Rightarrow> ('w, unit) turn" where
  "finish_answer sv su lp answer =
     with_state (\<lambda>s. if stop_now sv s then give () else
       (let c = fst answer;
            t = (if cp_text c = [] then completedWithoutTextFallback (su_locale su) else cp_text c)
        in next_turn (store_assistant sv (assistant_message su lp answer t (Final_Message (cp_sources c) (cp_citations c))))
             (\<lambda>persisted.
           next_turn (on_run sv (\<lambda>now. if fst (snd answer) then completeMessage now persisted else message now persisted))
             (\<lambda>_. on_run sv complete))))"

definition with_calls :: "loop_state \<Rightarrow> model_completion \<Rightarrow> model_message list" where
  "with_calls lp c =
     (if cp_compacted c then removePreCompactionMessages (lp_messages lp) else lp_messages lp)
     @ [Msg_Assistant (Plain_Content (cp_text c)) (Some (cp_toolCalls c))]"

definition run_calls :: "'w run_services \<Rightarrow> run_setup \<Rightarrow> loop_state \<Rightarrow> model_answer \<Rightarrow> ('w, dispatched) turn" where
  "run_calls sv su lp answer =
     (let c = fst answer in
      next_turn (store_assistant sv (assistant_message su lp answer (cp_text c) (Calls_Message (cp_toolCalls c)))) (\<lambda>_.
        dispatchToolCalls sv (su_repeatedToolCallLimit su) (lp_counts lp) (with_calls lp c) (cp_toolCalls c)))"

definition step_limit_failure :: "nat \<Rightarrow> agent_run_error" where
  "step_limit_failure maxSteps =
     toRunFailureError (Thrown_Error (app_error CONFLICT
       (''Agent exceeded the maximum step limit of '' @ nat_text maxSteps)))"

fun turn_loop :: "'w run_services \<Rightarrow> run_setup \<Rightarrow> model_content \<Rightarrow> nat \<Rightarrow> loop_state \<Rightarrow> ('w, unit) turn" where
  "turn_loop sv su userContent 0 lp = on_run sv (\<lambda>now. fail now (step_limit_failure (su_maxSteps su)))"
| "turn_loop sv su userContent (Suc steps) lp =
     next_turn (ask_model sv su userContent lp) (\<lambda>(lp1, answer).
       let lp2 = answered lp1 (fst answer) in
       if cp_toolCalls (fst answer) = [] then finish_answer sv su lp2 answer
       else next_turn (run_calls sv su lp2 answer) (\<lambda>(stopped, counts, messages).
         if stopped then give ()
         else turn_loop sv su userContent steps (lp2\<lparr>lp_messages := messages, lp_counts := counts\<rparr>)))"

declare turn_loop.simps(2) [simp del]

definition first_loop_state ::
    "run_setup \<Rightarrow> model_message list \<times> (string \<times> json) option \<Rightarrow> model_content \<Rightarrow> loop_state" where
  "first_loop_state su history userContent =
     \<lparr> lp_messages = Msg_System (su_system su) # fst history @ [Msg_User userContent],
       lp_continuation = snd history, lp_carries = (snd history \<noteq> None), lp_compacted = False, lp_counts = (\<lambda>_. 0) \<rparr>"

definition executeRun :: "'w run_services \<Rightarrow> ('w, unit) turn" where
  "executeRun sv =
     next_turn (await sv (sv_setup sv)) (\<lambda>su.
     next_turn (load_history sv su False) (\<lambda>history.
     next_turn (await sv (sv_userContent sv)) (\<lambda>userContent.
       turn_loop sv su userContent (su_maxSteps su) (first_loop_state su history userContent))))"

text \<open>The run as the runtime starts it: whatever is thrown ends the run as a failure.\<close>

definition run_agent :: "'w run_services \<Rightarrow> ('w, unit) turn" where
  "run_agent sv = catch_turn (executeRun sv) (\<lambda>t. on_run sv (\<lambda>now. fail now (toRunFailureError t)))"

end
