(* ===== verification/Run_Protocol.thy ===== *)
theory Run_Protocol imports Run_Turns Model_Budget_Facts begin

text \<open>
  The protocol of a run: in which order a run asks the model, stores messages, asks for permission and uses
  tools. It is an automaton over the recorded effects, written without the program; the turns of
  \<open>Run_Turns\<close> are shown to follow it (\<open>Run_Protocol_Facts\<close>).
\<close>

section \<open>The automaton\<close>

text \<open>
  A turn is asked (and asked again when an old continuation was dropped); the calls of its answer are worked
  off in order, each decided and then executed or refused; a final message finishes the run.
\<close>

datatype run_phase =
  Asking
| Asked
| Dropped
| Working "model_tool_call list"
| Decided model_tool_call tool_authorization "model_tool_call list"
| Executed model_tool_call "model_tool_call list"
| Finished

record run_protocol =
  pt_phase :: run_phase
  pt_left :: nat
  pt_mayDrop :: bool
  pt_counts :: "string \<Rightarrow> nat"
  pt_distinct :: bool

definition working :: "model_tool_call list \<Rightarrow> run_phase" where
  "working tcs = (if tcs = [] then Asking else Working tcs)"

text \<open>What a request promises, as long as the models have given the calls of a message different ids.\<close>

definition request_ok :: "run_setup \<Rightarrow> run_protocol \<Rightarrow> turn_request \<Rightarrow> bool" where
  "request_ok su p c \<longleftrightarrow>
     image_bytes (ml_messages c) \<le> MODEL_INPUT_IMAGES_MAX_BYTES \<and>
     (pt_distinct p \<longrightarrow> complete_context (ml_messages c)) \<and>
     (\<not> su_continuation su \<longrightarrow> ml_continuation c = None)"

definition next_count :: "(rat \<Rightarrow> string) \<Rightarrow> run_protocol \<Rightarrow> model_tool_call \<Rightarrow> nat" where
  "next_count num p tc = pt_counts p (call_key num tc) + 1"

definition counted :: "(rat \<Rightarrow> string) \<Rightarrow> run_protocol \<Rightarrow> model_tool_call \<Rightarrow> run_protocol" where
  "counted num p tc = p\<lparr>pt_counts := (pt_counts p)(call_key num tc := next_count num p tc)\<rparr>"

fun refusal :: "tool_authorization \<Rightarrow> string option \<Rightarrow> tool_result option" where
  "refusal (Tool_Denied reason) e = Some (denied_failure reason)"
| "refusal d (Some t) = Some (invalid_failure t)"
| "refusal d None = None"

fun allowed :: "tool_authorization \<Rightarrow> bool" where
  "allowed (Tool_Allowed x) \<longleftrightarrow> True"
| "allowed _ \<longleftrightarrow> False"

definition spec_request :: "run_setup \<Rightarrow> turn_request \<Rightarrow> run_protocol \<Rightarrow> run_protocol option" where
  "spec_request su c p =
     (if \<not> request_ok su p c then None
      else case pt_phase p of
        Asking \<Rightarrow> if 0 < pt_left p then Some (p\<lparr>pt_phase := Asked, pt_left := pt_left p - 1\<rparr>) else None
      | Dropped \<Rightarrow> if ml_continuation c = None then Some (p\<lparr>pt_phase := Asked\<rparr>) else None
      | _ \<Rightarrow> None)"

definition spec_drop :: "run_protocol \<Rightarrow> run_protocol option" where
  "spec_drop p =
     (if \<not> pt_mayDrop p then None
      else case pt_phase p of
        Asking \<Rightarrow>
          if 0 < pt_left p then Some (p\<lparr>pt_phase := Dropped, pt_left := pt_left p - 1, pt_mayDrop := False\<rparr>) else None
      | Asked \<Rightarrow> Some (p\<lparr>pt_phase := Dropped, pt_mayDrop := False\<rparr>)
      | _ \<Rightarrow> None)"

definition spec_answer :: "assistant_kind \<Rightarrow> run_protocol \<Rightarrow> run_protocol option" where
  "spec_answer k p =
     (if pt_phase p \<noteq> Asked then None
      else case k of
        Final_Message sources citations \<Rightarrow> Some (p\<lparr>pt_phase := Finished, pt_mayDrop := False\<rparr>)
      | Calls_Message tcs \<Rightarrow>
          if tcs = [] then None
          else Some (p\<lparr>pt_phase := Working tcs, pt_mayDrop := False,
            pt_distinct := (pt_distinct p \<and> distinct (map mc_toolCallId tcs))\<rparr>))"

definition spec_authorize ::
    "(rat \<Rightarrow> string) \<Rightarrow> run_setup \<Rightarrow> model_tool_call \<Rightarrow> tool_authorization \<Rightarrow> run_protocol \<Rightarrow> run_protocol option" where
  "spec_authorize num su tc d p =
     (case pt_phase p of
        Working (tc' # tcs) \<Rightarrow>
          if tc' = tc \<and> next_count num p tc \<le> su_repeatedToolCallLimit su
          then Some ((counted num p tc)\<lparr>pt_phase := Decided tc d tcs\<rparr>) else None
      | _ \<Rightarrow> None)"

definition spec_execute :: "model_tool_call \<Rightarrow> run_protocol \<Rightarrow> run_protocol option" where
  "spec_execute tc p =
     (case pt_phase p of
        Decided tc' d tcs \<Rightarrow>
          if tc' = tc \<and> allowed d \<and> mc_inputParseError tc = None then Some (p\<lparr>pt_phase := Executed tc tcs\<rparr>) else None
      | _ \<Rightarrow> None)"

definition spec_result ::
    "(rat \<Rightarrow> string) \<Rightarrow> run_setup \<Rightarrow> model_tool_call \<Rightarrow> tool_result \<Rightarrow> run_protocol \<Rightarrow> run_protocol option" where
  "spec_result num su tc r p =
     (case pt_phase p of
        Working (tc' # tcs) \<Rightarrow>
          if tc' = tc \<and> next_count num p tc > su_repeatedToolCallLimit su \<and>
             r = repeated_failure tc \<lparr> rc_count = next_count num p tc, rc_limit = su_repeatedToolCallLimit su \<rparr>
          then Some ((counted num p tc)\<lparr>pt_phase := working tcs\<rparr>) else None
      | Decided tc' d tcs \<Rightarrow>
          if tc' = tc \<and> refusal d (mc_inputParseError tc) = Some r then Some (p\<lparr>pt_phase := working tcs\<rparr>) else None
      | Executed tc' tcs \<Rightarrow> if tc' = tc then Some (p\<lparr>pt_phase := working tcs\<rparr>) else None
      | _ \<Rightarrow> None)"

fun spec_step :: "(rat \<Rightarrow> string) \<Rightarrow> run_setup \<Rightarrow> run_effect \<Rightarrow> run_protocol \<Rightarrow> run_protocol option" where
  "spec_step num su (Eff_Model_Call c) p = spec_request su c p"
| "spec_step num su Eff_Drop_Continuation p = spec_drop p"
| "spec_step num su (Eff_Assistant a) p = spec_answer (aa_kind a) p"
| "spec_step num su (Eff_Authorize tc d) p = spec_authorize num su tc d p"
| "spec_step num su (Eff_Execute tc) p = spec_execute tc p"
| "spec_step num su (Eff_Tool_Message tc r out) p = spec_result num su tc r p"

fun spec_run :: "(rat \<Rightarrow> string) \<Rightarrow> run_setup \<Rightarrow> run_protocol \<Rightarrow> run_effect list \<Rightarrow> run_protocol option" where
  "spec_run num su p [] = Some p"
| "spec_run num su p (e # es) = Option.bind (spec_step num su e p) (\<lambda>q. spec_run num su q es)"

definition run_begins :: "run_setup \<Rightarrow> run_protocol" where
  "run_begins su =
     \<lparr> pt_phase = Asking, pt_left = su_maxSteps su, pt_mayDrop = True, pt_counts = (\<lambda>_. 0), pt_distinct = True \<rparr>"

lemma spec_run_append: "spec_run num su p (es @ fs) = Option.bind (spec_run num su p es) (\<lambda>q. spec_run num su q fs)"
  by (induction es arbitrary: p) (auto simp: Option.bind_assoc split: bind_splits)

section \<open>Following the protocol\<close>

text \<open>
  A part of a run follows the protocol from \<open>p\<close>: what it does, the automaton accepts, and \<open>Q\<close> holds where
  it returns and \<open>E\<close> where it throws.
\<close>

definition follows ::
    "(rat \<Rightarrow> string) \<Rightarrow> run_setup \<Rightarrow> run_protocol \<Rightarrow> ('w, 'a) turn \<Rightarrow> (run_protocol \<Rightarrow> 'a \<Rightarrow> bool) \<Rightarrow>
      (run_protocol \<Rightarrow> bool) \<Rightarrow> bool" where
  "follows num su p m Q E \<longleftrightarrow>
     (\<forall>s. \<exists>es q. tn_effects (fst (m s)) = tn_effects s @ es \<and> spec_run num su p es = Some q \<and>
        (case snd (m s) of Inl t \<Rightarrow> E q | Inr a \<Rightarrow> Q q a))"

lemma follows_give: "Q p a \<Longrightarrow> follows num su p (give a) Q E"
  by (simp add: follows_def give_def exI[of _ p])

lemma follows_throw: "E p \<Longrightarrow> follows num su p (throw t) Q E"
  by (simp add: follows_def throw_def exI[of _ p])

lemma follows_next:
  assumes "follows num su p m Q E" and "\<And>q a. Q q a \<Longrightarrow> follows num su q (f a) R E"
  shows "follows num su p (next_turn m f) R E"
  unfolding follows_def
proof
  fix s
  obtain es q where m: "tn_effects (fst (m s)) = tn_effects s @ es" "spec_run num su p es = Some q"
      "case snd (m s) of Inl t \<Rightarrow> E q | Inr a \<Rightarrow> Q q a"
    using assms(1) unfolding follows_def by blast
  show "\<exists>es q. tn_effects (fst (next_turn m f s)) = tn_effects s @ es \<and> spec_run num su p es = Some q \<and>
      (case snd (next_turn m f s) of Inl t \<Rightarrow> E q | Inr a \<Rightarrow> R q a)"
  proof (cases "m s")
    case (Pair s' r)
    show ?thesis
    proof (cases r)
      case (Inl t)
      with Pair m show ?thesis by (auto simp: next_turn_def)
    next
      case (Inr a)
      with Pair m(3) have "Q q a" by simp
      then obtain fs q' where "tn_effects (fst (f a s')) = tn_effects s' @ fs" "spec_run num su q fs = Some q'"
          "case snd (f a s') of Inl t \<Rightarrow> E q' | Inr b \<Rightarrow> R q' b"
        using assms(2) unfolding follows_def by blast
      with Pair Inr m show ?thesis
        by (intro exI[of _ "es @ fs"] exI[of _ q']) (simp add: next_turn_def spec_run_append)
    qed
  qed
qed

lemma follows_catch:
  assumes "follows num su p m Q E'" and "\<And>q t. E' q \<Longrightarrow> follows num su q (h t) Q E"
  shows "follows num su p (catch_turn m h) Q E"
  unfolding follows_def
proof
  fix s
  obtain es q where m: "tn_effects (fst (m s)) = tn_effects s @ es" "spec_run num su p es = Some q"
      "case snd (m s) of Inl t \<Rightarrow> E' q | Inr a \<Rightarrow> Q q a"
    using assms(1) unfolding follows_def by blast
  show "\<exists>es q. tn_effects (fst (catch_turn m h s)) = tn_effects s @ es \<and> spec_run num su p es = Some q \<and>
      (case snd (catch_turn m h s) of Inl t \<Rightarrow> E q | Inr a \<Rightarrow> Q q a)"
  proof (cases "m s")
    case (Pair s' r)
    show ?thesis
    proof (cases r)
      case (Inr a)
      with Pair m show ?thesis by (auto simp: catch_turn_def)
    next
      case (Inl t)
      with Pair m(3) have "E' q" by simp
      then obtain fs q' where "tn_effects (fst (h t s')) = tn_effects s' @ fs" "spec_run num su q fs = Some q'"
          "case snd (h t s') of Inl t \<Rightarrow> E q' | Inr b \<Rightarrow> Q q' b"
        using assms(2) unfolding follows_def by blast
      with Pair Inl m show ?thesis
        by (intro exI[of _ "es @ fs"] exI[of _ q']) (simp add: catch_turn_def spec_run_append)
    qed
  qed
qed

lemma follows_with_state: "(\<And>s. follows num su p (f s) Q E) \<Longrightarrow> follows num su p (with_state f) Q E"
  by (simp add: follows_def with_state_def)

lemma follows_note:
  assumes "spec_step num su e p = Some q" and "Q q ()"
  shows "follows num su p (note_effect e) Q E"
proof -
  have "spec_run num su p [e] = Some q" using assms(1) by simp
  then show ?thesis using assms(2) by (fastforce simp: follows_def note_effect_def)
qed

lemma follows_weaken:
  assumes "follows num su p m Q E" and "\<And>q a. Q q a \<Longrightarrow> Q' q a" and "\<And>q. E q \<Longrightarrow> E' q"
  shows "follows num su p m Q' E'"
  unfolding follows_def
proof
  fix s
  obtain es q where m: "tn_effects (fst (m s)) = tn_effects s @ es" "spec_run num su p es = Some q"
      "case snd (m s) of Inl t \<Rightarrow> E q | Inr a \<Rightarrow> Q q a"
    using assms(1) unfolding follows_def by blast
  then have "case snd (m s) of Inl t \<Rightarrow> E' q | Inr a \<Rightarrow> Q' q a"
    using assms(2,3) by (cases "snd (m s)") auto
  with m show "\<exists>es q. tn_effects (fst (m s)) = tn_effects s @ es \<and> spec_run num su p es = Some q \<and>
      (case snd (m s) of Inl t \<Rightarrow> E' q | Inr a \<Rightarrow> Q' q a)" by blast
qed

section \<open>Parts without effects\<close>

definition quiet :: "('w, 'a) turn \<Rightarrow> bool" where
  "quiet m \<longleftrightarrow> (\<forall>s. tn_effects (fst (m s)) = tn_effects s)"

lemma quiet_follows: "quiet m \<Longrightarrow> (\<And>a. Q p a) \<Longrightarrow> E p \<Longrightarrow> follows num su p m Q E"
  by (simp add: follows_def quiet_def exI[of _ p] split: sum.split)

lemma pause_effects [simp]: "tn_effects (pause sv s) = tn_effects s"
  by (simp add: pause_def split: prod.split)

lemma quiet_await [intro, simp]: "quiet (await sv f)"
  by (simp add: quiet_def await_def split: prod.split)

lemma quiet_on_run [intro, simp]: "quiet (on_run sv f)" "quiet (emit_turn sv e)" "quiet (beforeEffect sv x)"
  by (simp_all add: quiet_def on_run_def emit_turn_def beforeEffect_def await_def split: prod.split)

lemma quiet_give [intro, simp]: "quiet (give a)" "quiet (throw t)"
  by (simp_all add: quiet_def give_def throw_def)

lemma quiet_next [intro]:
  assumes "quiet m" and "\<And>a. quiet (f a)"
  shows "quiet (next_turn m f)"
  unfolding quiet_def
proof
  fix s
  show "tn_effects (fst (next_turn m f s)) = tn_effects s"
  proof (cases "m s")
    case (Pair s' r)
    then have "tn_effects s' = tn_effects s" using assms(1) by (metis fst_conv quiet_def)
    then show ?thesis using assms(2) Pair by (simp add: next_turn_def quiet_def split: sum.split)
  qed
qed

lemma quiet_event: "quiet (stream_event_step sv e st)"
  by (cases e) (simp_all add: Let_def quiet_next)

lemma quiet_events: "quiet (stream_events sv es st)"
  by (induction es arbitrary: st) (simp_all add: quiet_event quiet_next)

lemma quiet_stream [intro, simp]: "quiet (streamModelCall sv call)"
  by (auto simp: streamModelCall_def split: option.split intro!: quiet_next quiet_events)

lemma quiet_load [intro, simp]: "quiet (load_history sv su b)"
  by (auto simp: load_history_def)

lemma follows_quiet_next:
  assumes "quiet m" and "E p" and "\<And>a. follows num su p (f a) R E"
  shows "follows num su p (next_turn m f) R E"
  by (rule follows_next[OF quiet_follows[where Q = "\<lambda>q a. q = p"]]) (use assms in auto)

lemma follows_note_next:
  assumes "spec_step num su e p = Some q" and "follows num su q (f ()) R E"
  shows "follows num su p (next_turn (note_effect e) f) R E"
  by (rule follows_next[OF follows_note[where Q = "\<lambda>x a. x = q"]]) (use assms in auto)

end
