(* ===== verification/Run_Protocol_Facts.thy ===== *)
theory Run_Protocol_Facts imports Run_Protocol begin

text \<open>
  The turns of a run follow the protocol, part by part, and what the protocol says of permissions,
  repetitions, bounds and requests.
\<close>

section \<open>A call of a tool\<close>

lemma follows_show: "follows num su p (show_result sv tc r) (\<lambda>q x. q = p \<and> fst x = r) (\<lambda>q. True)"
  by (auto simp: show_result_def intro!: follows_quiet_next follows_give)

definition after_call :: "(rat \<Rightarrow> string) \<Rightarrow> run_protocol \<Rightarrow> model_tool_call \<Rightarrow> model_tool_call list \<Rightarrow> run_protocol" where
  "after_call num p tc tcs = (counted num p tc)\<lparr>pt_phase := working tcs\<rparr>"

lemma follows_allowed:
  assumes "pt_phase p = Decided tc d tcs" "allowed d" "mc_inputParseError tc = None"
  shows "follows num su p (run_allowed_tool sv tc)
    (\<lambda>q x. spec_result num su tc (fst x) q = Some (p\<lparr>pt_phase := working tcs\<rparr>)) (\<lambda>q. True)"
proof -
  let ?q = "p\<lparr>pt_phase := Executed tc tcs\<rparr>"
  have step: "spec_step num su (Eff_Execute tc) p = Some ?q" using assms by (simp add: spec_execute_def)
  have "follows num su ?q (show_result sv tc r)
      (\<lambda>q x. spec_result num su tc (fst x) q = Some (p\<lparr>pt_phase := working tcs\<rparr>)) (\<lambda>q. True)" for r
    by (rule follows_weaken[OF follows_show]) (auto simp: spec_result_def)
  then show ?thesis unfolding run_allowed_tool_def
    by (auto intro!: follows_quiet_next follows_note_next[OF step])
qed

lemma follows_decided:
  assumes "pt_phase p = Decided tc d tcs"
  shows "follows num su p (decided_call sv tc d)
    (\<lambda>q x. spec_result num su tc (fst x) q = Some (p\<lparr>pt_phase := working tcs\<rparr>)) (\<lambda>q. True)"
proof -
  have refused: "follows num su p (show_result sv tc r)
      (\<lambda>q x. spec_result num su tc (fst x) q = Some (p\<lparr>pt_phase := working tcs\<rparr>)) (\<lambda>q. True)"
    if "refusal d (mc_inputParseError tc) = Some r" for r
    by (rule follows_weaken[OF follows_show]) (use that assms in \<open>auto simp: spec_result_def\<close>)
  have asked: "follows num su p (next_turn (emit_turn sv e) (\<lambda>_. throw approval_conflict))
      (\<lambda>q x. spec_result num su tc (fst x) q = Some (p\<lparr>pt_phase := working tcs\<rparr>)) (\<lambda>q. True)" for e
    by (auto intro!: follows_quiet_next follows_throw)
  show ?thesis
    using refused asked follows_allowed[OF assms] by (cases d) (auto simp: decided_call_def split: option.split)
qed

lemma follows_call:
  assumes "pt_phase p = Working (tc # tcs)"
    and "rc = \<lparr> rc_count = next_count num p tc, rc_limit = su_repeatedToolCallLimit su \<rparr>"
  shows "follows num su p (executeToolCall sv tc rc)
    (\<lambda>q x. spec_result num su tc (fst x) q = Some (after_call num p tc tcs)) (\<lambda>q. True)"
proof -
  let ?Q = "\<lambda>q x. spec_result num su tc (fst x) q = Some (after_call num p tc tcs)"
  have again: "follows num su p (show_result sv tc (repeated_failure tc rc)) ?Q (\<lambda>q. True)" if "repeated rc"
    by (rule follows_weaken[OF follows_show])
      (use that assms in \<open>auto simp: spec_result_def repeated_def after_call_def\<close>)
  have asked: "follows num su p (next_turn (note_effect (Eff_Authorize tc d)) (\<lambda>_. decided_call sv tc d)) ?Q (\<lambda>q. True)"
    if "\<not> repeated rc" for d
  proof -
    let ?q = "(counted num p tc)\<lparr>pt_phase := Decided tc d tcs\<rparr>"
    have "spec_step num su (Eff_Authorize tc d) p = Some ?q"
      using assms that by (simp add: spec_authorize_def repeated_def)
    moreover have "follows num su ?q (decided_call sv tc d) ?Q (\<lambda>q. True)"
      using follows_decided[of ?q tc d tcs num su sv] by (simp add: after_call_def)
    ultimately show ?thesis by (rule follows_note_next)
  qed
  show ?thesis unfolding executeToolCall_def
    using again asked by (cases "repeated rc") (auto intro: follows_quiet_next)
qed

section \<open>The calls of an answer\<close>

definition tool_messages :: "model_tool_call list \<Rightarrow> model_content list \<Rightarrow> model_message list" where
  "tool_messages tcs cs = map2 (\<lambda>tc c. Msg_Tool (mc_toolCallId tc) c) tcs cs"

lemma after_call_same [simp]:
  "pt_left (after_call num p tc tcs) = pt_left p" "pt_mayDrop (after_call num p tc tcs) = pt_mayDrop p"
  "pt_distinct (after_call num p tc tcs) = pt_distinct p" "pt_phase (after_call num p tc tcs) = working tcs"
  by (simp_all add: after_call_def counted_def)

text \<open>What dispatching leaves when it does not stop the run.\<close>

definition dispatched_ok ::
    "run_protocol \<Rightarrow> model_message list \<Rightarrow> model_tool_call list \<Rightarrow> run_protocol \<Rightarrow> dispatched \<Rightarrow> bool" where
  "dispatched_ok p ms tcs q d \<longleftrightarrow>
     \<not> fst d \<longrightarrow> pt_phase q = Asking \<and> pt_left q = pt_left p \<and> pt_mayDrop q = pt_mayDrop p \<and>
       pt_distinct q = pt_distinct p \<and> pt_counts q = fst (snd d) \<and>
       (\<exists>cs. length cs = length tcs \<and> snd (snd d) = ms @ tool_messages tcs cs)"

lemma dispatched_ok_stopped [simp]: "dispatched_ok p ms tcs q (True, rest)"
  by (simp add: dispatched_ok_def)

lemma dispatched_ok_Cons:
  assumes "dispatched_ok (after_call num p tc tcs) (ms @ [Msg_Tool (mc_toolCallId tc) c]) tcs q d"
  shows "dispatched_ok p ms (tc # tcs) q d"
proof (cases "fst d")
  case False
  then obtain cs where "length cs = length tcs" "snd (snd d) = (ms @ [Msg_Tool (mc_toolCallId tc) c]) @ tool_messages tcs cs"
    using assms by (auto simp: dispatched_ok_def)
  then have "length (c # cs) = length (tc # tcs)" "snd (snd d) = ms @ tool_messages (tc # tcs) (c # cs)"
    by (simp_all add: tool_messages_def)
  then show ?thesis using assms unfolding dispatched_ok_def by (metis after_call_same(1,2,3))
qed (simp add: dispatched_ok_def)

lemma follows_dispatch:
  assumes "pt_phase p = working tcs" and "counts = pt_counts p"
  shows "follows (sv_num sv) su p (dispatchToolCalls sv (su_repeatedToolCallLimit su) counts ms tcs)
    (dispatched_ok p ms tcs) (\<lambda>q. True)"
  using assms
proof (induction tcs arbitrary: p counts ms)
  case Nil
  then show ?case by (auto intro!: follows_give simp: dispatched_ok_def working_def tool_messages_def)
next
  case (Cons tc tcs)
  let ?rc = "\<lparr> rc_count = next_count (sv_num sv) p tc, rc_limit = su_repeatedToolCallLimit su \<rparr>"
  let ?q = "after_call (sv_num sv) p tc tcs"
  have reg: "registerToolCall (sv_num sv) (su_repeatedToolCallLimit su) tc counts = (pt_counts ?q, ?rc)"
    using Cons.prems by (simp add: registerToolCall_def Let_def next_count_def after_call_def counted_def)
  have phase: "pt_phase p = Working (tc # tcs)" using Cons.prems by (simp add: working_def)
  have stored: "follows (sv_num sv) su q
      (next_turn (beforeEffect sv Tool_Result_Message) (\<lambda>_.
       next_turn (await sv (sv_appendTool sv tc r out)) (\<lambda>_.
       next_turn (note_effect (Eff_Tool_Message tc r out)) (\<lambda>_.
         dispatchToolCalls sv (su_repeatedToolCallLimit su) (pt_counts ?q) (ms @ [Msg_Tool (mc_toolCallId tc) (mo_content out)]) tcs))))
      (dispatched_ok p ms (tc # tcs)) (\<lambda>q. True)"
    if q: "spec_result (sv_num sv) su tc r q = Some ?q" for q r out
  proof -
    have "follows (sv_num sv) su ?q (dispatchToolCalls sv (su_repeatedToolCallLimit su) (pt_counts ?q)
        (ms @ [Msg_Tool (mc_toolCallId tc) (mo_content out)]) tcs) (dispatched_ok p ms (tc # tcs)) (\<lambda>q. True)"
      by (rule follows_weaken[OF Cons.IH]) (auto intro: dispatched_ok_Cons)
    moreover have "spec_step (sv_num sv) su (Eff_Tool_Message tc r out) q = Some ?q" using q by simp
    ultimately show ?thesis
      by (intro follows_quiet_next[OF _ _ follows_quiet_next[OF _ _ follows_note_next]]) simp_all
  qed
  have "follows (sv_num sv) su p (next_turn (executeToolCall sv tc ?rc) (\<lambda>(r, out).
      with_state (\<lambda>s1. if isCancellationRequested (rs_status (tn_run s1)) then give (True, pt_counts ?q, ms)
        else next_turn (beforeEffect sv Tool_Result_Message) (\<lambda>_.
          next_turn (await sv (sv_appendTool sv tc r out)) (\<lambda>_.
          next_turn (note_effect (Eff_Tool_Message tc r out)) (\<lambda>_.
            dispatchToolCalls sv (su_repeatedToolCallLimit su) (pt_counts ?q) (ms @ [Msg_Tool (mc_toolCallId tc) (mo_content out)]) tcs))))))
      (dispatched_ok p ms (tc # tcs)) (\<lambda>q. True)"
    by (rule follows_next[OF follows_call[OF phase refl]])
      (auto intro!: follows_with_state follows_give stored split: prod.split)
  then show ?case by (auto intro!: follows_with_state follows_give simp: reg)
qed

section \<open>Asking the model\<close>

definition call_of :: "run_setup \<Rightarrow> model_message list \<Rightarrow> (string \<times> json) option \<Rightarrow> turn_request" where
  "call_of su ms continuation =
     \<lparr> ml_messages = fst (applyModelInputImageBudget MODEL_INPUT_IMAGES_MAX_BYTES ms),
       ml_continuation = (if su_continuation su then continuation else None) \<rparr>"

lemma callModel_call: "callModel sv su ms continuation =
    next_turn (beforeEffect sv Provider_Request) (\<lambda>_.
    next_turn (note_effect (Eff_Model_Call (call_of su ms continuation))) (\<lambda>_. streamModelCall sv (call_of su ms continuation)))"
  by (simp add: callModel_def call_of_def Let_def)

lemma request_ok_call:
  "(pt_distinct p \<Longrightarrow> complete_context ms) \<Longrightarrow> request_ok su p (call_of su ms continuation)"
  using kept_bytes[of ms MODEL_INPUT_IMAGES_MAX_BYTES] skeleton_complete[OF _ budget_skeleton[symmetric]]
  by (auto simp: request_ok_def call_of_def budget_bytes)

lemma follows_request:
  assumes "spec_request su (call_of su ms continuation) p = Some p'" and "E p" and "E p'"
  shows "follows num su p (callModel sv su ms continuation) (\<lambda>q a. q = p') E"
proof -
  have "follows num su p' (streamModelCall sv (call_of su ms continuation)) (\<lambda>q a. q = p') E"
    by (rule quiet_follows) (use assms in auto)
  then show ?thesis unfolding callModel_call using assms
    by (intro follows_quiet_next[OF _ _ follows_note_next]) simp_all
qed

definition asked_ok :: "run_protocol \<Rightarrow> loop_state \<Rightarrow> run_protocol \<Rightarrow> loop_state \<times> model_answer \<Rightarrow> bool" where
  "asked_ok p lp q x \<longleftrightarrow>
     pt_phase q = Asked \<and> pt_left q = pt_left p - 1 \<and> pt_counts q = pt_counts p \<and> pt_distinct q = pt_distinct p \<and>
     lp_counts (fst x) = lp_counts lp \<and> (pt_distinct p \<longrightarrow> complete_context (lp_messages (fst x)))"

lemma rebuilt_complete:
  "complete_context (Msg_System c # fst (loadModelHistory h b) @ [Msg_User u])"
proof -
  have "complete_context (fst (loadModelHistory h b))"
    by (simp add: loadModelHistory_def Let_def projectAgentVisibleHistory_def removeIncomplete_complete)
  moreover have "complete_context [Msg_User u]" by (rule complete_plain) (simp_all add: complete_Nil)
  ultimately have "complete_context (fst (loadModelHistory h b) @ [Msg_User u])" by (rule complete_append)
  then show ?thesis by (intro complete_plain) simp_all
qed

lemma follows_load:
  "(\<And>h. follows num su p (f (loadModelHistory h b)) Q E) \<Longrightarrow> E p \<Longrightarrow> follows num su p (next_turn (load_history sv su b) f) Q E"
  unfolding load_history_def
  by (rule follows_next[where Q = "\<lambda>q a. q = p \<and> (\<exists>h. a = loadModelHistory h b)"])
    (auto intro!: follows_quiet_next follows_give)

lemma follows_ask_again:
  assumes "pt_phase p = Asking" and "0 < pt_left p" and "lp_carries lp \<longrightarrow> pt_mayDrop p"
    and q: "q = p \<or> q = p\<lparr>pt_phase := Asked, pt_left := pt_left p - 1\<rparr>"
  shows "follows num su q (ask_again sv su u lp t) (asked_ok p lp) (\<lambda>q. True)"
proof (cases "lp_carries lp \<and> sv_rejectsContinuation sv t")
  case True
  let ?d = "p\<lparr>pt_phase := Dropped, pt_left := pt_left p - 1, pt_mayDrop := False\<rparr>"
  have drop: "spec_step num su Eff_Drop_Continuation q = Some ?d"
    using assms True by (auto simp: spec_drop_def)
  have call: "follows num su ?d (next_turn (callModel sv su ms None) (\<lambda>answer.
      give (lp\<lparr>lp_messages := ms, lp_continuation := None\<rparr>, answer))) (asked_ok p lp) (\<lambda>q. True)"
    if "complete_context ms" for ms
  proof -
    have "spec_request su (call_of su ms None) ?d = Some (?d\<lparr>pt_phase := Asked\<rparr>)"
      using that by (simp add: spec_request_def request_ok_call) (simp add: call_of_def)
    from follows_request[OF this] show ?thesis
      by (rule follows_next) (use that in \<open>auto intro!: follows_give simp: asked_ok_def\<close>)
  qed
  have "follows num su ?d (next_turn (load_history sv su True) (\<lambda>rebuilt.
      let messages = Msg_System (su_system su) # fst rebuilt @ [Msg_User u] in
      next_turn (callModel sv su messages None) (\<lambda>answer.
        give (lp\<lparr>lp_messages := messages, lp_continuation := None\<rparr>, answer)))) (asked_ok p lp) (\<lambda>q. True)"
    unfolding Let_def by (rule follows_load, rule call, rule rebuilt_complete) simp
  with drop show ?thesis using True unfolding ask_again_def
    by (simp, intro follows_quiet_next[OF _ _ follows_note_next]) simp_all
qed (auto simp: ask_again_def intro: follows_throw)

lemma follows_ask:
  assumes "pt_phase p = Asking" and "0 < pt_left p" and "lp_carries lp \<longrightarrow> pt_mayDrop p"
    and "pt_distinct p \<Longrightarrow> complete_context (lp_messages lp)"
  shows "follows num su p (ask_model sv su u lp) (asked_ok p lp) (\<lambda>q. True)"
proof -
  let ?q = "p\<lparr>pt_phase := Asked, pt_left := pt_left p - 1\<rparr>"
  have "spec_request su (call_of su (lp_messages lp) (lp_continuation lp)) p = Some ?q"
    using assms by (simp add: spec_request_def request_ok_call)
  then have "follows num su p (callModel sv su (lp_messages lp) (lp_continuation lp)) (\<lambda>q a. q = ?q)
      (\<lambda>q. q = p \<or> q = ?q)" by (rule follows_request) auto
  then have "follows num su p (next_turn (callModel sv su (lp_messages lp) (lp_continuation lp)) (\<lambda>answer. give (lp, answer)))
      (asked_ok p lp) (\<lambda>q. q = p \<or> q = ?q)"
    by (rule follows_next) (use assms(4) in \<open>auto intro!: follows_give simp: asked_ok_def\<close>)
  then show ?thesis unfolding ask_model_def
    by (rule follows_catch) (use assms in \<open>auto intro: follows_ask_again\<close>)
qed

section \<open>The loop\<close>

lemma follows_store:
  assumes "spec_answer (aa_kind a) p = Some q" and "\<And>m. follows num su q (f m) Q (\<lambda>q. True)"
  shows "follows num su p (next_turn (store_assistant sv a) f) Q (\<lambda>q. True)"
proof -
  have "follows num su p (store_assistant sv a) (\<lambda>x m. x = q) (\<lambda>q. True)"
    using assms(1) unfolding store_assistant_def
    by (intro follows_quiet_next[OF _ _ follows_quiet_next[OF _ _ follows_note_next]]) (auto intro: follows_give)
  then show ?thesis by (rule follows_next) (simp add: assms(2))
qed

lemma follows_finish:
  assumes "pt_phase p = Asked"
  shows "follows num su p (finish_answer sv su lp answer) (\<lambda>q a. True) (\<lambda>q. True)"
proof -
  have "spec_answer (Final_Message x y) p = Some (p\<lparr>pt_phase := Finished, pt_mayDrop := False\<rparr>)" for x y
    using assms by (simp add: spec_answer_def)
  then show ?thesis
    unfolding finish_answer_def Let_def
    by (intro follows_with_state) (auto intro!: follows_give follows_store quiet_follows simp: assistant_message_def)
qed

lemma system_complete: "complete_context (takeWhile is_system ms)"
proof (induction ms)
  case (Cons m ms)
  then show ?case by (cases m) (auto intro: complete_plain simp: complete_Nil)
qed (simp add: complete_Nil)

lemma tool_messages_ids: "length cs = length tcs \<Longrightarrow> map tool_id (tool_messages tcs cs) = map Some (map mc_toolCallId tcs)"
  by (induction tcs cs rule: list_induct2') (simp_all add: tool_messages_def)

lemma round_complete:
  assumes "complete_context (lp_messages lp)" and "cp_toolCalls c \<noteq> []"
    and "distinct (map mc_toolCallId (cp_toolCalls c))" and "length cs = length (cp_toolCalls c)"
  shows "complete_context (with_calls lp c @ tool_messages (cp_toolCalls c) cs)"
proof -
  let ?m = "Msg_Assistant (Plain_Content (cp_text c)) (Some (cp_toolCalls c))"
  have "calls_in ?m = Some (map mc_toolCallId (cp_toolCalls c))" using assms(2) by (cases "cp_toolCalls c") simp_all
  then have "complete_context (?m # tool_messages (cp_toolCalls c) cs @ [])"
    using tool_messages_ids[OF assms(4)] assms(3) by (intro complete_round) (simp_all add: complete_Nil)
  then show ?thesis
    using assms(1) system_complete by (auto simp: with_calls_def removePreCompactionMessages_def intro: complete_append)
qed

lemma follows_calls:
  assumes "pt_phase p = Asked" and "cp_toolCalls (fst answer) \<noteq> []" and "pt_counts p = lp_counts lp"
  shows "follows (sv_num sv) su p (run_calls sv su lp answer)
    (dispatched_ok (p\<lparr>pt_mayDrop := False,
       pt_distinct := pt_distinct p \<and> distinct (map mc_toolCallId (cp_toolCalls (fst answer)))\<rparr>)
      (with_calls lp (fst answer)) (cp_toolCalls (fst answer))) (\<lambda>q. True)"
proof -
  let ?tcs = "cp_toolCalls (fst answer)"
  let ?d = "pt_distinct p \<and> distinct (map mc_toolCallId ?tcs)"
  let ?q = "p\<lparr>pt_phase := Working ?tcs, pt_mayDrop := False, pt_distinct := ?d\<rparr>"
  have "follows (sv_num sv) su ?q (dispatchToolCalls sv (su_repeatedToolCallLimit su) (lp_counts lp)
      (with_calls lp (fst answer)) ?tcs) (dispatched_ok ?q (with_calls lp (fst answer)) ?tcs) (\<lambda>q. True)"
    by (rule follows_dispatch) (use assms in \<open>simp_all add: working_def\<close>)
  moreover have "dispatched_ok ?q = dispatched_ok (p\<lparr>pt_mayDrop := False, pt_distinct := ?d\<rparr>)"
    by (simp add: dispatched_ok_def fun_eq_iff)
  moreover have "spec_answer (Calls_Message ?tcs) p = Some ?q" using assms by (simp add: spec_answer_def)
  ultimately show ?thesis
    by (auto simp: run_calls_def Let_def assistant_message_def intro!: follows_store)
qed

lemma follows_loop:
  assumes "pt_phase p = Asking" and "pt_left p = steps" and "lp_carries lp \<longrightarrow> pt_mayDrop p"
    and "pt_counts p = lp_counts lp" and "pt_distinct p \<longrightarrow> complete_context (lp_messages lp)"
  shows "follows (sv_num sv) su p (turn_loop sv su u steps lp) (\<lambda>q a. True) (\<lambda>q. True)"
  using assms
proof (induction steps arbitrary: p lp)
  case 0
  then show ?case by (auto intro: quiet_follows)
next
  case (Suc steps)
  have ask: "follows (sv_num sv) su p (ask_model sv su u lp) (asked_ok p lp) (\<lambda>q. True)"
    by (rule follows_ask) (use Suc.prems in auto)
  show ?case unfolding turn_loop.simps
  proof (rule follows_next[OF ask])
    fix q x
    assume x: "asked_ok p lp q x"
    obtain lp1 answer where [simp]: "x = (lp1, answer)" by (cases x)
    let ?lp = "answered lp1 (fst answer)"
    let ?tcs = "cp_toolCalls (fst answer)"
    have loop: "follows (sv_num sv) su r (turn_loop sv su u steps (?lp\<lparr>lp_messages := ms, lp_counts := counts\<rparr>))
        (\<lambda>q a. True) (\<lambda>q. True)"
      if r: "dispatched_ok (q\<lparr>pt_mayDrop := False, pt_distinct := pt_distinct q \<and> distinct (map mc_toolCallId ?tcs)\<rparr>)
          (with_calls ?lp (fst answer)) ?tcs r (False, counts, ms)" and "?tcs \<noteq> []" for r counts ms
    proof (rule Suc.IH)
      show "pt_phase r = Asking" "pt_left r = steps"
        using r x Suc.prems by (simp_all add: dispatched_ok_def asked_ok_def)
      show "lp_carries (?lp\<lparr>lp_messages := ms, lp_counts := counts\<rparr>) \<longrightarrow> pt_mayDrop r"
        "pt_counts r = lp_counts (?lp\<lparr>lp_messages := ms, lp_counts := counts\<rparr>)"
        using r by (simp_all add: dispatched_ok_def answered_def)
      show "pt_distinct r \<longrightarrow> complete_context (lp_messages (?lp\<lparr>lp_messages := ms, lp_counts := counts\<rparr>))"
        using r x that(2) by (auto simp: dispatched_ok_def asked_ok_def answered_def intro!: round_complete)
    qed
    have "pt_counts q = lp_counts ?lp" "pt_phase q = Asked"
      using x Suc.prems by (simp_all add: asked_ok_def answered_def)
    then show "follows (sv_num sv) su q (case x of (lp1, answer) \<Rightarrow>
        let lp2 = answered lp1 (fst answer) in
        if cp_toolCalls (fst answer) = [] then finish_answer sv su lp2 answer
        else next_turn (run_calls sv su lp2 answer) (\<lambda>(stopped, counts, messages).
          if stopped then give () else turn_loop sv su u steps (lp2\<lparr>lp_messages := messages, lp_counts := counts\<rparr>)))
        (\<lambda>q a. True) (\<lambda>q. True)"
      by (auto simp: Let_def intro!: follows_finish follows_give loop follows_next[OF follows_calls] split: prod.split)
  qed
qed

lemma follows_history:
  "follows (sv_num sv) su (run_begins su) (next_turn (load_history sv su False) (\<lambda>history.
     next_turn (await sv (sv_userContent sv)) (\<lambda>userContent.
       turn_loop sv su userContent (su_maxSteps su) (first_loop_state su history userContent))))
     (\<lambda>q a. True) (\<lambda>q. True)"
  by (rule follows_load, rule follows_quiet_next, simp, simp, rule follows_loop)
    (simp_all add: run_begins_def first_loop_state_def rebuilt_complete)

lemma await_Inr:
  "f (tn_world s) = (w, Inr a) \<Longrightarrow> next_turn (await sv f) g s = g a (pause sv (s\<lparr>tn_world := w\<rparr>))"
  by (simp add: next_turn_def await_def)

lemma run_agent_effects:
  assumes "sv_setup sv (tn_world s) = (w, Inr su)"
  shows "\<exists>es. tn_effects (fst (run_agent sv s)) = tn_effects s @ es \<and> spec_run (sv_num sv) su (run_begins su) es \<noteq> None"
proof -
  define m where "m = next_turn (load_history sv su False) (\<lambda>history.
     next_turn (await sv (sv_userContent sv)) (\<lambda>userContent.
       turn_loop sv su userContent (su_maxSteps su) (first_loop_state su history userContent)))"
  let ?h = "\<lambda>t. on_run sv (\<lambda>now. fail now (toRunFailureError t))"
  have "follows (sv_num sv) su (run_begins su) (catch_turn m ?h) (\<lambda>q a. True) (\<lambda>q. True)"
    unfolding m_def by (rule follows_catch[OF follows_history]) (auto intro: quiet_follows)
  moreover have "run_agent sv s = catch_turn m ?h (pause sv (s\<lparr>tn_world := w\<rparr>))"
    unfolding run_agent_def executeRun_def catch_turn_def m_def by (simp only: await_Inr[where f = "sv_setup sv", OF assms])
  ultimately show ?thesis unfolding follows_def by (fastforce dest: spec[of _ "pause sv (s\<lparr>tn_world := w\<rparr>)"])
qed

lemma run_agent_failed_setup:
  "sv_setup sv (tn_world s) = (w, Inl t) \<Longrightarrow> tn_effects (fst (run_agent sv s)) = tn_effects s"
  by (simp add: run_agent_def executeRun_def catch_turn_def next_turn_def await_def on_run_def)

section \<open>What the protocol says\<close>

lemmas spec_defs = spec_request_def spec_drop_def spec_answer_def spec_authorize_def spec_execute_def spec_result_def
  counted_def next_count_def

text \<open>The calls of the answer that have no result yet.\<close>

fun pending :: "run_phase \<Rightarrow> model_tool_call list" where
  "pending (Working tcs) = tcs"
| "pending (Decided tc d tcs) = tc # tcs"
| "pending (Executed tc tcs) = tc # tcs"
| "pending _ = []"

lemma pending_working [simp]: "pending (working tcs) = tcs"
  by (simp add: working_def)

lemma spec_step_cases:
  assumes "spec_step num su e p = Some q"
  obtains
    (ask) c where "e = Eff_Model_Call c" "request_ok su p c" "pt_phase p = Asking" "0 < pt_left p"
      "q = p\<lparr>pt_phase := Asked, pt_left := pt_left p - 1\<rparr>"
  | (ask_again) c where "e = Eff_Model_Call c" "request_ok su p c" "pt_phase p = Dropped" "q = p\<lparr>pt_phase := Asked\<rparr>"
  | (drop_first) "e = Eff_Drop_Continuation" "pt_mayDrop p" "pt_phase p = Asking" "0 < pt_left p"
      "q = p\<lparr>pt_phase := Dropped, pt_left := pt_left p - 1, pt_mayDrop := False\<rparr>"
  | (drop) "e = Eff_Drop_Continuation" "pt_mayDrop p" "pt_phase p = Asked" "q = p\<lparr>pt_phase := Dropped, pt_mayDrop := False\<rparr>"
  | (final) a x y where "e = Eff_Assistant a" "aa_kind a = Final_Message x y" "pt_phase p = Asked"
      "q = p\<lparr>pt_phase := Finished, pt_mayDrop := False\<rparr>"
  | (calls) a tcs where "e = Eff_Assistant a" "aa_kind a = Calls_Message tcs" "tcs \<noteq> []" "pt_phase p = Asked"
      "q = p\<lparr>pt_phase := Working tcs, pt_mayDrop := False,
        pt_distinct := (pt_distinct p \<and> distinct (map mc_toolCallId tcs))\<rparr>"
  | (authorize) tc d tcs where "e = Eff_Authorize tc d" "pt_phase p = Working (tc # tcs)"
      "next_count num p tc \<le> su_repeatedToolCallLimit su" "q = (counted num p tc)\<lparr>pt_phase := Decided tc d tcs\<rparr>"
  | (exec) tc d tcs where "e = Eff_Execute tc" "pt_phase p = Decided tc d tcs" "allowed d"
      "mc_inputParseError tc = None" "q = p\<lparr>pt_phase := Executed tc tcs\<rparr>"
  | (again) tc r out tcs where "e = Eff_Tool_Message tc r out" "pt_phase p = Working (tc # tcs)"
      "q = (counted num p tc)\<lparr>pt_phase := working tcs\<rparr>"
  | (result) tc r out tcs where "e = Eff_Tool_Message tc r out" "pending (pt_phase p) = tc # tcs"
      "pt_phase p \<noteq> Working (tc # tcs)" "q = p\<lparr>pt_phase := working tcs\<rparr>"
proof (cases e)
  case (Eff_Model_Call c)
  with assms that(1,2) show ?thesis by (auto simp: spec_request_def split: if_splits run_phase.splits)
next
  case Eff_Drop_Continuation
  with assms that(3,4) show ?thesis by (auto simp: spec_drop_def split: if_splits run_phase.splits)
next
  case (Eff_Assistant a)
  with assms that(5,6) show ?thesis by (auto simp: spec_answer_def split: if_splits assistant_kind.splits)
next
  case (Eff_Authorize tc d)
  with assms that(7) show ?thesis by (auto simp: spec_authorize_def split: if_splits run_phase.splits list.splits)
next
  case (Eff_Execute tc)
  with assms that(8) show ?thesis by (auto simp: spec_execute_def split: if_splits run_phase.splits)
next
  case (Eff_Tool_Message tc r out)
  with assms that(9,10) show ?thesis by (auto simp: spec_result_def split: if_splits run_phase.splits list.splits)
qed

lemma spec_induct [consumes 1, case_names Start Step]:
  assumes "spec_run num su p es = Some q" and "R [] p"
    and "\<And>es e q q'. spec_run num su p es = Some q \<Longrightarrow> R es q \<Longrightarrow> spec_step num su e q = Some q' \<Longrightarrow> R (es @ [e]) q'"
  shows "R es q"
  using assms(1)
proof (induction es arbitrary: q rule: rev_induct)
  case Nil
  then show ?case using assms(2) by simp
next
  case (snoc e es)
  then obtain q0 where "spec_run num su p es = Some q0" "spec_step num su e q0 = Some q"
    by (auto simp: spec_run_append split: bind_splits)
  then show ?case using snoc.IH assms(3) by blast
qed

lemma spec_at:
  assumes "spec_run num su p es \<noteq> None" and "i < length es"
  shows "\<exists>q q'. spec_run num su p (take i es) = Some q \<and> spec_step num su (es ! i) q = Some q'"
proof -
  have "es = take i es @ es ! i # drop (Suc i) es" using assms(2) by (rule id_take_nth_drop)
  then show ?thesis using assms(1) by (metis (no_types, lifting) bind.bind_lzero bind.bind_lunit not_None_eq spec_run.simps(2) spec_run_append)
qed

text \<open>The calls that were made and the ones that have a result.\<close>

fun calls_of :: "run_effect \<Rightarrow> model_tool_call list" where
  "calls_of (Eff_Assistant a) = (case aa_kind a of Calls_Message tcs \<Rightarrow> tcs | _ \<Rightarrow> [])"
| "calls_of _ = []"

fun result_of :: "run_effect \<Rightarrow> model_tool_call list" where
  "result_of (Eff_Tool_Message tc r out) = [tc]"
| "result_of _ = []"

definition calls_made :: "run_effect list \<Rightarrow> model_tool_call list" where
  "calls_made es = concat (map calls_of es)"

definition calls_answered :: "run_effect list \<Rightarrow> model_tool_call list" where
  "calls_answered es = concat (map result_of es)"

lemma calls_pending:
  assumes "spec_run num su (run_begins su) es = Some q"
  shows "calls_made es = calls_answered es @ pending (pt_phase q)"
  using assms
proof (induction rule: spec_induct)
  case (Step es e q q')
  from Step(2) show ?case
    by (cases rule: spec_step_cases) (use Step(3) in \<open>auto simp: counted_def next_count_def calls_made_def calls_answered_def\<close>)
qed (simp add: calls_made_def calls_answered_def run_begins_def)

lemma decided_last:
  assumes "spec_run num su (run_begins su) es = Some q" and "pt_phase q = Decided tc d tcs"
  shows "es \<noteq> [] \<and> last es = Eff_Authorize tc d"
  using assms
proof (induction rule: spec_induct)
  case (Step es e q q')
  from Step(2) show ?case
    by (cases rule: spec_step_cases) (use Step(3,4) in \<open>auto split: if_splits simp: working_def counted_def next_count_def\<close>)
qed (simp add: run_begins_def)

fun executes :: "(rat \<Rightarrow> string) \<Rightarrow> string \<Rightarrow> run_effect \<Rightarrow> bool" where
  "executes num key (Eff_Execute tc) \<longleftrightarrow> call_key num tc = key"
| "executes num key _ \<longleftrightarrow> False"

fun due :: "(rat \<Rightarrow> string) \<Rightarrow> string \<Rightarrow> run_phase \<Rightarrow> nat" where
  "due num key (Decided tc d tcs) = of_bool (call_key num tc = key)"
| "due num key _ = 0"

lemma executed_at_most:
  assumes "spec_run num su (run_begins su) es = Some q"
  shows "length (filter (executes num key) es) + due num key (pt_phase q)
    \<le> min (pt_counts q key) (su_repeatedToolCallLimit su)"
  using assms
proof (induction rule: spec_induct)
  case (Step es e q q')
  from Step(2) show ?case
    by (cases rule: spec_step_cases) (use Step(3) in \<open>auto simp: working_def counted_def next_count_def\<close>)
qed (simp add: run_begins_def)

fun asks :: "run_effect \<Rightarrow> bool" where
  "asks (Eff_Model_Call c) \<longleftrightarrow> True"
| "asks _ \<longleftrightarrow> False"

lemma asked_at_most:
  assumes "spec_run num su (run_begins su) es = Some q"
  shows "length (filter asks es) + pt_left q + of_bool (pt_phase q = Dropped) + of_bool (pt_mayDrop q) \<le> su_maxSteps su + 1"
  using assms
proof (induction rule: spec_induct)
  case (Step es e q q')
  from Step(2) show ?case
    by (cases rule: spec_step_cases) (use Step(3) in \<open>auto simp: working_def counted_def next_count_def\<close>)
qed (simp add: run_begins_def)

fun ids_differ :: "run_effect \<Rightarrow> bool" where
  "ids_differ e \<longleftrightarrow> distinct (map mc_toolCallId (calls_of e))"

lemma distinct_so_far:
  assumes "spec_run num su (run_begins su) es = Some q"
  shows "pt_distinct q \<longleftrightarrow> list_all ids_differ es"
  using assms
proof (induction rule: spec_induct)
  case (Step es e q q')
  from Step(2) show ?case
    by (cases rule: spec_step_cases) (use Step(3) in \<open>auto simp: working_def counted_def next_count_def\<close>)
qed (simp add: run_begins_def)

lemma finished_last:
  assumes "spec_run num su (run_begins su) es \<noteq> None" and "i < length es"
    and "es ! i = Eff_Assistant a" and "aa_kind a = Final_Message x y"
  shows "Suc i = length es"
proof (rule ccontr)
  assume "Suc i \<noteq> length es"
  then have i: "Suc i < length es" using assms(2) by simp
  obtain q q' where q: "spec_run num su (run_begins su) (take i es) = Some q" "spec_step num su (es ! i) q = Some q'"
    using spec_at[OF assms(1,2)] by blast
  obtain r r' where r: "spec_run num su (run_begins su) (take (Suc i) es) = Some r" "spec_step num su (es ! Suc i) r = Some r'"
    using spec_at[OF assms(1) i] by blast
  have "r = q'" using q r(1) assms(2) by (simp add: take_Suc_conv_app_nth spec_run_append)
  moreover have "pt_phase q' = Finished" using q(2) assms(3,4) by (auto simp: spec_defs split: if_splits)
  ultimately show False using r(2) by (cases "es ! Suc i") (auto simp: spec_defs split: if_splits)
qed

end
