(* ===== verification/Run_Promises.thy ===== *)
theory Run_Promises imports Run_Protocol_Facts Run_Facts begin

text \<open>
  What a run of an agent promises: it follows its protocol (\<open>run_follows_the_protocol\<close>), uses tools only with
  permission and within its bounds (\<open>tools_run_only_with_permission\<close>), asks the model only in order
  (\<open>requests_follow_results\<close>), and ends (\<open>runs_come_to_an_end\<close>).
\<close>

section \<open>The promises\<close>

text \<open>
  C21. The turns of a run refine its protocol. Whatever the models answer, the tools do, the services throw and
  happens meanwhile, the effects of a run, in their order, are accepted by the automaton: a request, then the
  assistant message stored, then its calls one after the other, each with a permission, a use or a refusal, and
  a result stored, then the next request; a refused old continuation is dropped once. Without a setup a run
  has no effect.
\<close>

theorem run_follows_the_protocol:
  "case sv_setup sv (tn_world s) of
     (w, Inl t) \<Rightarrow> tn_effects (fst (run_agent sv s)) = tn_effects s
   | (w, Inr su) \<Rightarrow> \<exists>es. tn_effects (fst (run_agent sv s)) = tn_effects s @ es \<and>
       spec_run (sv_num sv) su (run_begins su) es \<noteq> None"
proof (cases "sv_setup sv (tn_world s)")
  case (Pair w r)
  show ?thesis
  proof (cases r)
    case (Inl t)
    then show ?thesis using Pair run_agent_failed_setup by simp
  next
    case (Inr su)
    then show ?thesis using Pair run_agent_effects[of sv s w su] by simp
  qed
qed

definition effects_of_run :: "'w run_services \<Rightarrow> 'w turn_state \<Rightarrow> run_effect list" where
  "effects_of_run sv s = drop (length (tn_effects s)) (tn_effects (fst (run_agent sv s)))"

lemma effects_accepted:
  assumes "snd (sv_setup sv (tn_world s)) = Inr su"
  shows "spec_run (sv_num sv) su (run_begins su) (effects_of_run sv s) \<noteq> None"
proof -
  obtain w where "sv_setup sv (tn_world s) = (w, Inr su)" using assms by (metis prod.collapse)
  from run_agent_effects[OF this] show ?thesis by (auto simp: effects_of_run_def)
qed

lemma executed_with_permission:
  assumes "spec_run num su (run_begins su) es \<noteq> None" and "i < length es" and "es ! i = Eff_Execute tc"
  shows "0 < i \<and> (\<exists>x. es ! (i - 1) = Eff_Authorize tc (Tool_Allowed x)) \<and> mc_inputParseError tc = None"
proof -
  obtain q q' where q: "spec_run num su (run_begins su) (take i es) = Some q" "spec_step num su (es ! i) q = Some q'"
    using spec_at[OF assms(1,2)] by blast
  from q(2) obtain d tcs where d: "pt_phase q = Decided tc d tcs" "allowed d" "mc_inputParseError tc = None"
    by (cases rule: spec_step_cases) (use assms(3) in auto)
  have "take i es \<noteq> []" "last (take i es) = Eff_Authorize tc d" using decided_last[OF q(1) d(1)] by auto
  moreover from this have "last (take i es) = es ! (i - 1)" using assms(2) by (cases i) (simp_all add: take_Suc_conv_app_nth)
  moreover obtain x where "d = Tool_Allowed x" using d(2) by (cases d) auto
  ultimately show ?thesis using d(3) by auto
qed

text \<open>
  C22. No tool runs without permission, and none runs away: in every run, a tool is used only directly after
  its own call was allowed and only where the input of the call could be read; identical calls are executed at
  most as often as the limit says; the model is asked at most once more than the maximum of steps; and after
  the final message nothing is done any more.
\<close>

theorem tools_run_only_with_permission:
  assumes "snd (sv_setup sv (tn_world s)) = Inr su"
  shows "(i < length (effects_of_run sv s) \<and> effects_of_run sv s ! i = Eff_Execute tc \<longrightarrow>
      0 < i \<and> (\<exists>x. effects_of_run sv s ! (i - 1) = Eff_Authorize tc (Tool_Allowed x)) \<and> mc_inputParseError tc = None) \<and>
    length (filter (executes (sv_num sv) key) (effects_of_run sv s)) \<le> su_repeatedToolCallLimit su \<and>
    length (filter asks (effects_of_run sv s)) \<le> su_maxSteps su + 1 \<and>
    (j < length (effects_of_run sv s) \<and> effects_of_run sv s ! j = Eff_Assistant a \<and> aa_kind a = Final_Message x y \<longrightarrow>
      Suc j = length (effects_of_run sv s))"
proof -
  have ok: "spec_run (sv_num sv) su (run_begins su) (effects_of_run sv s) \<noteq> None" by (rule effects_accepted[OF assms])
  then obtain q where q: "spec_run (sv_num sv) su (run_begins su) (effects_of_run sv s) = Some q" by blast
  show ?thesis
    using executed_with_permission[OF ok] executed_at_most[OF q, of key] asked_at_most[OF q] finished_last[OF ok]
    by auto
qed

text \<open>
  Every request is in order: when the model is asked, all calls it made before have their result stored,
  in the order of the calls; the images are within the budget; and where the models gave the calls of each
  answer different ids, the messages sent are whole rounds of calls and results. Results are stored only for
  calls that were made, in their order.
\<close>

lemma requests_follow_results:
  assumes "snd (sv_setup sv (tn_world s)) = Inr su"
    and "i < length (effects_of_run sv s)" and "effects_of_run sv s ! i = Eff_Model_Call c"
  shows "calls_answered (take i (effects_of_run sv s)) = calls_made (take i (effects_of_run sv s)) \<and>
    image_bytes (ml_messages c) \<le> MODEL_INPUT_IMAGES_MAX_BYTES \<and>
    (list_all ids_differ (take i (effects_of_run sv s)) \<longrightarrow> complete_context (ml_messages c)) \<and>
    prefix (calls_answered (effects_of_run sv s)) (calls_made (effects_of_run sv s))"
proof -
  have ok: "spec_run (sv_num sv) su (run_begins su) (effects_of_run sv s) \<noteq> None" by (rule effects_accepted[OF assms(1)])
  then obtain r where r: "spec_run (sv_num sv) su (run_begins su) (effects_of_run sv s) = Some r" by blast
  obtain q q' where q: "spec_run (sv_num sv) su (run_begins su) (take i (effects_of_run sv s)) = Some q"
      "spec_step (sv_num sv) su (effects_of_run sv s ! i) q = Some q'"
    using spec_at[OF ok assms(2)] by blast
  from q(2) have c: "request_ok su q c" "pt_phase q = Asking \<or> pt_phase q = Dropped"
    by (cases rule: spec_step_cases; use assms(3) in auto)+
  have "calls_made (take i (effects_of_run sv s)) = calls_answered (take i (effects_of_run sv s))"
    using calls_pending[OF q(1)] c(2) by auto
  then show ?thesis
    using c(1) distinct_so_far[OF q(1)] calls_pending[OF r] by (simp add: request_ok_def)
qed

section \<open>A run in the small\<close>

text \<open>The world is the list of answers the model gives; every tool is allowed and does what it is told.\<close>

definition demo_call :: model_tool_call where
  "demo_call = \<lparr> mc_toolCallId = ''c'', mc_toolName = ''t'', mc_input = JNull, mc_inputParseError = None \<rparr>"

definition demo_answer :: "model_tool_call list \<Rightarrow> model_completion" where
  "demo_answer tcs = \<lparr> cp_text = ''a'', cp_toolCalls = tcs, cp_continuation = None, cp_compacted = False,
     cp_usage = NOTHING_REPORTED, cp_sources = None, cp_citations = None \<rparr>"

definition demo_result :: tool_result where
  "demo_result = Tool_Success \<lparr> ts_output = None, ts_display = None, ts_structuredResult = None, ts_artifacts = None \<rparr>"

definition demo_setup :: run_setup where
  "demo_setup = \<lparr> su_system = Plain_Content ''s'', su_maxSteps = 2, su_repeatedToolCallLimit = 3,
     su_compactThresholdTokens = None, su_continuation = False, su_locale = None \<rparr>"

definition demo_output :: model_output where
  "demo_output = \<lparr> mo_text = ''o'', mo_content = Plain_Content ''o'', mo_notice = None \<rparr>"

definition demo_history :: history_input where
  "demo_history = \<lparr> hi_persisted = [], hi_messageText = ''u'', hi_inputMessageId = None, hi_providerId = ''p'',
     hi_compactionEnabled = False, hi_checkpoint = None, hi_historyMessageLimit = None \<rparr>"

definition demo_services :: "model_completion list run_services" where
  "demo_services = \<lparr>
     sv_setup = (\<lambda>w. (w, Inr demo_setup)),
     sv_userContent = (\<lambda>w. (w, Inr (Plain_Content ''u''))),
     sv_beforeEffect = (\<lambda>e w. (w, Inr ())),
     sv_streaming = False,
     sv_complete = (\<lambda>c w. (tl w, case w of [] \<Rightarrow> Inl Thrown_Value | a # _ \<Rightarrow> Inr a)),
     sv_stream = (\<lambda>c w. (w, [], None)),
     sv_rejectsContinuation = (\<lambda>t. False),
     sv_authorize = (\<lambda>tc w. (w, Inr (Tool_Allowed None))),
     sv_execute = (\<lambda>tc w. (w, Inr demo_result)),
     sv_toolOutput = (\<lambda>r w. (w, Inr demo_output)),
     sv_appendAssistant = (\<lambda>a w. (w, Inr \<lparr> rm_id = ''m'', rm_text = aa_text a, rm_metadata = None \<rparr>)),
     sv_appendTool = (\<lambda>tc r out w. (w, Inr ())),
     sv_dropContinuation = (\<lambda>w. (w, Inr ())),
     sv_history = (\<lambda>w. (w, Inr demo_history)),
     sv_aborted = (\<lambda>w. False),
     sv_now = (\<lambda>w. 0),
     sv_num = (\<lambda>q. ''0''),
     sv_meanwhile = (\<lambda>w. (w, [])) \<rparr>"

definition demo_start :: "model_completion list turn_state" where
  "demo_start = \<lparr> tn_run = new_run_state ''r'' 0 False, tn_world = [demo_answer [demo_call], demo_answer []], tn_effects = [] \<rparr>"

lemma demo_fields [simp]:
  "\<not> sv_streaming demo_services" "sv_complete demo_services c (a # w) = (w, Inr a)"
  "sv_setup demo_services v = (v, Inr demo_setup)" "sv_userContent demo_services v = (v, Inr (Plain_Content ''u''))"
  "sv_beforeEffect demo_services e v = (v, Inr ())" "sv_authorize demo_services tc v = (v, Inr (Tool_Allowed None))"
  "sv_execute demo_services tc v = (v, Inr demo_result)" "sv_toolOutput demo_services r v = (v, Inr demo_output)"
  "sv_appendAssistant demo_services m v = (v, Inr \<lparr> rm_id = ''m'', rm_text = aa_text m, rm_metadata = None \<rparr>)"
  "sv_appendTool demo_services tc r out v = (v, Inr ())" "\<not> sv_aborted demo_services v"
  "sv_meanwhile demo_services v = (v, [])" "sv_history demo_services v = (v, Inr demo_history)"
  by (simp_all add: demo_services_def)

lemma demo_await [simp]: "await demo_services f s = (case f (tn_world s) of (w, r) \<Rightarrow> (s\<lparr>tn_world := w\<rparr>, r))"
  by (simp add: await_def pause_def split: prod.split)

lemma demo_before [simp]: "beforeEffect demo_services e s = (s, Inr ())"
  by (simp add: beforeEffect_def)

lemmas turn_defs = next_turn_def note_effect_def give_def with_state_def

lemma demo_ask:
  "tn_world s = a # w \<Longrightarrow> ask_model demo_services su u lp s =
    (s\<lparr>tn_world := w, tn_effects := tn_effects s @ [Eff_Model_Call (call_of su (lp_messages lp) (lp_continuation lp))]\<rparr>,
     Inr (lp, a, False, []))"
  by (simp add: ask_model_def catch_turn_def turn_defs callModel_call streamModelCall_def)

lemma demo_store:
  "store_assistant demo_services a s =
    (s\<lparr>tn_effects := tn_effects s @ [Eff_Assistant a]\<rparr>, Inr \<lparr> rm_id = ''m'', rm_text = aa_text a, rm_metadata = None \<rparr>)"
  by (simp add: store_assistant_def turn_defs)

lemma emit_status [simp]: "rs_status (emitRuntimeEvent allow now e r) = rs_status r"
  by (cases "rs_closed r \<or> rs_cancellationStarted r \<and> \<not> allow") (auto simp: emit_blocked emit_fields)

lemma demo_run:
  "map asks (effects_of_run demo_services demo_start) = [True, False, False, False, False, True, False] \<and>
    effects_of_run demo_services demo_start ! 2 = Eff_Authorize demo_call (Tool_Allowed None) \<and>
    effects_of_run demo_services demo_start ! 3 = Eff_Execute demo_call"
proof -
  have su: "su_maxSteps demo_setup = Suc (Suc 0)" "su_repeatedToolCallLimit demo_setup = 3"
    by (simp_all add: demo_setup_def)
  define h where "h = demo_history\<lparr>hi_compactionEnabled := su_compactThresholdTokens demo_setup \<noteq> None\<rparr>"
  have h: "load_history demo_services demo_setup False s = (s, Inr (loadModelHistory h False))" for s
    by (simp add: load_history_def turn_defs h_def)
  have [simp]: "tn_run demo_start = new_run_state ''r'' 0 False" "tn_effects demo_start = []"
    "tn_world demo_start = [demo_answer [demo_call], demo_answer []]" "rs_status (new_run_state ''r'' 0 False) = Rn_Running"
    by (simp_all add: demo_start_def new_run_state_def)
  have [simp]: "cp_toolCalls (demo_answer tcs) = tcs" "mc_inputParseError demo_call = None" for tcs
    by (simp_all add: demo_answer_def demo_call_def)
  show ?thesis
    by (simp add: effects_of_run_def run_agent_def catch_turn_def executeRun_def turn_defs h su turn_loop.simps demo_ask
        first_loop_state_def answered_def run_calls_def demo_store assistant_message_def registerToolCall_def
        executeToolCall_def decided_call_def run_allowed_tool_def show_result_def
        emit_turn_def on_run_def emit_def repeated_def Let_def finish_answer_def stop_now_def)
qed

lemma tools_run_only_with_permission_witness:
  "(\<exists>x. effects_of_run demo_services demo_start ! 2 = Eff_Authorize demo_call (Tool_Allowed x)) \<and>
    length (filter (executes (sv_num demo_services) ''t:null'') (effects_of_run demo_services demo_start)) \<le> 3 \<and>
    length (filter asks (effects_of_run demo_services demo_start)) \<le> 3"
proof -
  have "length (map asks (effects_of_run demo_services demo_start)) = 7" using demo_run by simp
  then show ?thesis
    using tools_run_only_with_permission[of demo_services demo_start demo_setup 3 demo_call "''t:null''"] demo_run
    by (simp add: demo_setup_def)
qed

lemma requests_follow_results_witness:
  "\<exists>c. effects_of_run demo_services demo_start ! 5 = Eff_Model_Call c \<and>
    calls_answered (take 5 (effects_of_run demo_services demo_start)) =
      calls_made (take 5 (effects_of_run demo_services demo_start)) \<and>
    image_bytes (ml_messages c) \<le> MODEL_INPUT_IMAGES_MAX_BYTES"
proof -
  have "length (map asks (effects_of_run demo_services demo_start)) = 7" using demo_run by simp
  then have len: "length (effects_of_run demo_services demo_start) = 7" by simp
  then have "asks (effects_of_run demo_services demo_start ! 5)"
    using demo_run nth_map[of 5 "effects_of_run demo_services demo_start" asks] by simp
  then obtain c where "effects_of_run demo_services demo_start ! 5 = Eff_Model_Call c"
    by (cases "effects_of_run demo_services demo_start ! 5") simp_all
  then show ?thesis
    using requests_follow_results[of demo_services demo_start demo_setup 5 c] len by simp
qed

section \<open>How runs end\<close>

definition completed_in :: "run_state \<Rightarrow> bool" where
  "completed_in r \<longleftrightarrow> (\<exists>ev \<in> set (rs_events r). ev_event ev = Ev_Run_Completed)"

definition ordinary_step :: "run_state \<Rightarrow> run_state \<Rightarrow> bool" where
  "ordinary_step r t \<longleftrightarrow> run_step r t \<and> (completed_in t \<longrightarrow> completed_in r)"

lemma completed_emit: "completed_in (emitRuntimeEvent allow now e r) \<Longrightarrow> e \<noteq> Ev_Run_Completed \<Longrightarrow> completed_in r"
  by (cases "rs_closed r \<or> rs_cancellationStarted r \<and> \<not> allow")
    (auto simp: emit_blocked emit_fields completed_in_def next_event_def)

lemma completed_update [simp]:
  "completed_in (r\<lparr>rs_status := st\<rparr>) = completed_in r" "completed_in (r\<lparr>rs_cancellationStarted := c\<rparr>) = completed_in r"
  "completed_in (r\<lparr>rs_persistenceFailed := c\<rparr>) = completed_in r" "completed_in (r\<lparr>rs_writes := w\<rparr>) = completed_in r"
  "completed_in (close_run r) = completed_in r"
  by (simp_all add: completed_in_def close_run_def)

lemma completed_fail: "completed_in (fail now failure r) \<Longrightarrow> completed_in r"
  by (auto simp: fail_def split: if_splits dest: completed_emit)

lemma ordinary_steps:
  "\<not> isTerminalRunEvent e \<Longrightarrow> ordinary_step r (emit now e r)"
  "ordinary_step r (completeMessage now m r)"
  "ordinary_step r (fail now failure r)"
  "ordinary_step r (apply_outside out r)"
proof -
  show "\<not> isTerminalRunEvent e \<Longrightarrow> ordinary_step r (emit now e r)"
    by (auto simp: ordinary_step_def emit_def dest!: completed_emit) (metis emit_def step_emit)
  show "ordinary_step r (completeMessage now m r)"
    unfolding ordinary_step_def completeMessage_def by (metis completed_emit completeMessage_def run_event.distinct step_completeMessage)
  show "ordinary_step r (fail now failure r)"
    using completed_fail step_fail by (auto simp: ordinary_step_def)
  show "ordinary_step r (apply_outside out r)"
  proof (cases out)
    case Out_Begin_Cancellation
    then show ?thesis using step_beginCancellation by (auto simp: ordinary_step_def beginCancellation_def)
  next
    case (Out_Cancel now reason partialMessage)
    have "completed_in (cancel now reason partialMessage r) \<Longrightarrow> completed_in r"
      by (auto simp: cancel_def Let_def split: if_splits option.splits dest!: completed_emit)
    then show ?thesis using Out_Cancel step_cancel by (simp add: ordinary_step_def)
  next
    case (Out_Written now ok)
    have "completed_in (write_settled now ok r) \<Longrightarrow> completed_in r"
      by (auto simp: write_settled_def Let_def split: if_splits list.splits dest!: completed_fail)
    then show ?thesis using Out_Written step_written by (simp add: ordinary_step_def)
  qed
qed

text \<open>A run is proper: reached by its steps, and completed only with a final message stored.\<close>

fun final_message :: "run_effect \<Rightarrow> bool" where
  "final_message (Eff_Assistant a) \<longleftrightarrow> (case aa_kind a of Final_Message x y \<Rightarrow> True | _ \<Rightarrow> False)"
| "final_message _ \<longleftrightarrow> False"

definition final_stored :: "'w turn_state \<Rightarrow> bool" where
  "final_stored s \<longleftrightarrow> list_ex final_message (tn_effects s)"

definition proper :: "'w turn_state \<Rightarrow> bool" where
  "proper s \<longleftrightarrow> reachable run_starts run_step (tn_run s) \<and> (completed_in (tn_run s) \<longrightarrow> final_stored s)"

lemma proper_step: "ordinary_step (tn_run s) r \<Longrightarrow> proper s \<Longrightarrow> proper (s\<lparr>tn_run := r\<rparr>)"
  by (auto simp: proper_def ordinary_step_def final_stored_def intro: reachable_move)

lemma proper_world [simp]: "proper (s\<lparr>tn_world := w\<rparr>) = proper s"
  by (simp add: proper_def final_stored_def)

lemma proper_pause: "proper s \<Longrightarrow> proper (pause sv s)"
proof -
  have "proper s \<Longrightarrow> proper (s\<lparr>tn_world := w, tn_run := foldl (\<lambda>r st. apply_outside st r) (tn_run s) steps\<rparr>)" for w steps
  proof (induction steps rule: rev_induct)
    case (snoc st steps)
    then show ?case
      using proper_step[of "s\<lparr>tn_world := w, tn_run := foldl (\<lambda>r st. apply_outside st r) (tn_run s) steps\<rparr>"
          "apply_outside st (foldl (\<lambda>r st. apply_outside st r) (tn_run s) steps)"]
      by (simp add: ordinary_steps)
  qed simp
  then show "proper s \<Longrightarrow> proper (pause sv s)" by (simp add: pause_def split: prod.split)
qed

definition stays_proper :: "('w, 'a) turn \<Rightarrow> bool" where
  "stays_proper m \<longleftrightarrow> (\<forall>s. proper s \<longrightarrow> proper (fst (m s)))"

named_theorems proper_parts

lemma proper_basic [proper_parts]:
  "stays_proper (give a)" "stays_proper (throw t)" "stays_proper (await sv f)" "stays_proper (beforeEffect sv x)"
  by (auto simp: stays_proper_def give_def throw_def await_def beforeEffect_def intro: proper_pause split: prod.split)

lemma proper_note [proper_parts]: "stays_proper (note_effect e)"
  by (auto simp: stays_proper_def note_effect_def proper_def final_stored_def)

lemma proper_emit [proper_parts]: "\<not> isTerminalRunEvent e \<Longrightarrow> stays_proper (emit_turn sv e)"
  by (simp add: stays_proper_def emit_turn_def on_run_def proper_step ordinary_steps)

lemma proper_fail [proper_parts]: "stays_proper (on_run sv (\<lambda>now. fail now failure))"
  by (simp add: stays_proper_def on_run_def proper_step ordinary_steps)

lemma proper_said: "proper s \<Longrightarrow> proper (s\<lparr>tn_run := message now m (tn_run s)\<rparr>)"
  using proper_step[OF ordinary_steps(1)[of "Ev_Message_Delta (rm_text m)" "tn_run s" now]]
    proper_step[OF ordinary_steps(2), of "s\<lparr>tn_run := emit now (Ev_Message_Delta (rm_text m)) (tn_run s)\<rparr>" now m]
  by (simp add: message_def)

lemma proper_message [proper_parts]:
  "stays_proper (on_run sv (\<lambda>now. if b then completeMessage now m else message now m))"
  by (simp add: stays_proper_def on_run_def proper_step ordinary_steps proper_said)

lemma proper_next [proper_parts]: "stays_proper m \<Longrightarrow> (\<And>a. stays_proper (f a)) \<Longrightarrow> stays_proper (next_turn m f)"
  unfolding stays_proper_def next_turn_def by (auto split: prod.split sum.split)

lemma proper_catch [proper_parts]: "stays_proper m \<Longrightarrow> (\<And>t. stays_proper (h t)) \<Longrightarrow> stays_proper (catch_turn m h)"
  unfolding stays_proper_def catch_turn_def by (auto split: prod.split sum.split)

lemma proper_with_state [proper_parts]: "(\<And>s. stays_proper (f s)) \<Longrightarrow> stays_proper (with_state f)"
  by (simp add: stays_proper_def with_state_def)

lemma proper_show [proper_parts]: "stays_proper (show_result sv tc r)"
  unfolding show_result_def by (intro proper_parts) (auto split: tool_result.split)

lemma proper_call [proper_parts]: "stays_proper (executeToolCall sv tc rc)"
  unfolding executeToolCall_def decided_call_def run_allowed_tool_def
  by (auto intro!: proper_parts split: tool_authorization.split option.split)

lemma proper_dispatch [proper_parts]: "stays_proper (dispatchToolCalls sv limit counts ms tcs)"
  by (induction tcs arbitrary: counts ms) (auto intro!: proper_parts split: prod.split)

lemma proper_event: "stays_proper (stream_event_step sv e st)"
  by (cases e) (auto simp: Let_def intro!: proper_parts)

lemma proper_events: "stays_proper (stream_events sv es st)"
  by (induction es arbitrary: st) (auto intro!: proper_parts proper_event)

lemma proper_stream [proper_parts]: "stays_proper (streamModelCall sv call)"
  unfolding streamModelCall_def by (auto intro!: proper_parts proper_events split: prod.split option.split)

lemma proper_ask [proper_parts]: "stays_proper (ask_model sv su u lp)"
  unfolding ask_model_def ask_again_def callModel_def load_history_def Let_def
  by (auto intro!: proper_parts split: prod.split)

lemma proper_store [proper_parts]: "stays_proper (store_assistant sv a)"
  unfolding store_assistant_def by (auto intro!: proper_parts)

lemma proper_calls [proper_parts]: "stays_proper (run_calls sv su lp answer)"
  unfolding run_calls_def Let_def by (auto intro!: proper_parts)

lemma proper_complete: "proper s \<Longrightarrow> final_stored s \<Longrightarrow> proper (s\<lparr>tn_run := complete now (tn_run s)\<rparr>)"
  by (auto simp: proper_def final_stored_def intro: reachable_move step_complete)

lemma final_run [simp]: "final_stored (s\<lparr>tn_run := r\<rparr>) = final_stored s"
  by (simp add: final_stored_def)

text \<open>A run is over when it is closed, being cancelled, or aborted.\<close>

definition is_over :: "'w run_services \<Rightarrow> 'w turn_state \<Rightarrow> bool" where
  "is_over sv s \<longleftrightarrow> rs_closed (tn_run s) \<or> isCancellationRequested (rs_status (tn_run s)) \<or> sv_aborted sv (tn_world s)"

lemma closed_ends [simp]: "rs_closed (complete now r)" "rs_closed (fail now failure r)"
  by (simp_all add: complete_def fail_def close_run_def)

lemma store_final:
  assumes "store_assistant sv a s = (s', Inr m)" and "aa_kind a = Final_Message x y"
  shows "final_stored s'"
  using assms by (auto simp: store_assistant_def next_turn_def note_effect_def give_def final_stored_def
      split: prod.splits sum.splits)

lemma finish_ends:
  assumes "finish_answer sv su lp answer s = (s', r)" and "proper s"
  shows "proper s' \<and> (r = Inr () \<longrightarrow> is_over sv s')"
proof (cases "stop_now sv s")
  case True
  then show ?thesis using assms by (auto simp: finish_answer_def with_state_def give_def is_over_def stop_now_def)
next
  case False
  define a where "a = assistant_message su lp answer
    (if cp_text (fst answer) = [] then completedWithoutTextFallback (su_locale su) else cp_text (fst answer))
    (Final_Message (cp_sources (fst answer)) (cp_citations (fst answer)))"
  obtain s1 stored where st: "store_assistant sv a s = (s1, stored)" by (cases "store_assistant sv a s")
  have s1: "proper s1" using proper_store[of sv a] st assms(2) unfolding stays_proper_def by (metis fst_conv)
  show ?thesis
  proof (cases stored)
    case (Inl t)
    then show ?thesis using assms(1) False st s1
      by (auto simp: finish_answer_def with_state_def next_turn_def a_def Let_def)
  next
    case (Inr m)
    have "final_stored s1" using store_final[of sv a s s1 m] st Inr by (simp add: a_def assistant_message_def)
    then have "proper (s1\<lparr>tn_run := complete now r\<rparr>)" if "proper (s1\<lparr>tn_run := r\<rparr>)" for r now
      using proper_complete[OF that, of now] by simp
    moreover have "proper (fst (on_run sv (\<lambda>now. if fst (snd answer) then completeMessage now m else message now m) s1))"
      using proper_message s1 unfolding stays_proper_def by blast
    ultimately show ?thesis using assms(1) False st Inr
      by (auto simp: finish_answer_def with_state_def next_turn_def a_def Let_def on_run_def is_over_def)
  qed
qed

lemma dispatch_stops:
  assumes "dispatchToolCalls sv limit counts ms tcs s = (s', Inr (True, rest))"
  shows "is_over sv s'"
  using assms
proof (induction tcs arbitrary: counts ms s)
  case (Cons tc tcs)
  then show ?case
    by (auto simp: with_state_def give_def next_turn_def is_over_def split: if_splits prod.splits sum.splits)
qed (simp add: give_def)

lemma next_Inr:
  assumes "next_turn m f s = (s', Inr b)"
  obtains s1 a where "m s = (s1, Inr a)" and "f a s1 = (s', Inr b)"
  using assms by (auto simp: next_turn_def split: prod.splits sum.splits)

lemma loop_proper: "stays_proper (turn_loop sv su u n lp)"
proof (induction n arbitrary: lp)
  case (Suc n)
  have "stays_proper (finish_answer sv su lp answer)" for lp answer
    unfolding stays_proper_def using finish_ends by (metis prod.collapse)
  then show ?case unfolding turn_loop.simps(2) Let_def using Suc.IH by (auto intro!: proper_parts split: prod.split)
qed (simp add: proper_parts)

lemma loop_ends:
  assumes "turn_loop sv su u n lp s = (s', Inr ())" and "proper s"
  shows "is_over sv s'"
  using assms
proof (induction n arbitrary: lp s)
  case 0
  then show ?case by (auto simp: on_run_def is_over_def)
next
  case (Suc n)
  from Suc.prems(1) obtain s1 lp1 answer where ask: "ask_model sv su u lp s = (s1, Inr (lp1, answer))"
    and rest: "(if cp_toolCalls (fst answer) = [] then finish_answer sv su (answered lp1 (fst answer)) answer
       else next_turn (run_calls sv su (answered lp1 (fst answer)) answer) (\<lambda>(stopped, counts, messages).
         if stopped then give () else turn_loop sv su u n
           ((answered lp1 (fst answer))\<lparr>lp_messages := messages, lp_counts := counts\<rparr>))) s1 = (s', Inr ())"
    unfolding turn_loop.simps(2) by (elim next_Inr) (auto simp: Let_def split: prod.splits)
  have s1: "proper s1" using proper_ask[of sv su u lp] ask Suc.prems(2) unfolding stays_proper_def by (metis fst_conv)
  show ?case
  proof (cases "cp_toolCalls (fst answer) = []")
    case True
    then show ?thesis using rest s1 finish_ends[of sv su "answered lp1 (fst answer)" answer s1 s' "Inr ()"] by simp
  next
    case False
    let ?lp = "answered lp1 (fst answer)"
    from rest False obtain s2 d where d: "run_calls sv su ?lp answer s1 = (s2, Inr d)"
      and more: "(case d of (stopped, counts, messages) \<Rightarrow> if stopped then give ()
        else turn_loop sv su u n (?lp\<lparr>lp_messages := messages, lp_counts := counts\<rparr>)) s2 = (s', Inr ())"
      by (auto elim: next_Inr)
    have s2: "proper s2" using proper_calls[of sv su ?lp answer] d s1 unfolding stays_proper_def by (metis fst_conv)
    show ?thesis
    proof (cases "fst d")
      case True
      then have "is_over sv s2" using d
        by (cases d) (auto simp: run_calls_def Let_def elim!: next_Inr intro: dispatch_stops)
      then show ?thesis using more True by (cases d) (simp add: give_def)
    next
      case False
      then show ?thesis using more s2 Suc.IH by (cases d) auto
    qed
  qed
qed

lemma execute_proper: "stays_proper (executeRun sv)"
  unfolding executeRun_def load_history_def by (auto intro!: proper_parts loop_proper)

lemma execute_ends:
  assumes "executeRun sv s = (s', Inr ())" and "proper s"
  shows "is_over sv s'"
proof -
  from assms(1) obtain s1 su where s1: "await sv (sv_setup sv) s = (s1, Inr su)"
    and r1: "next_turn (load_history sv su False) (\<lambda>history. next_turn (await sv (sv_userContent sv)) (\<lambda>u.
       turn_loop sv su u (su_maxSteps su) (first_loop_state su history u))) s1 = (s', Inr ())"
    unfolding executeRun_def by (erule next_Inr)
  from r1 obtain s2 h where s2: "load_history sv su False s1 = (s2, Inr h)"
    and r2: "next_turn (await sv (sv_userContent sv)) (\<lambda>u.
       turn_loop sv su u (su_maxSteps su) (first_loop_state su h u)) s2 = (s', Inr ())" by (erule next_Inr)
  from r2 obtain s3 u where s3: "await sv (sv_userContent sv) s2 = (s3, Inr u)"
    and r3: "turn_loop sv su u (su_maxSteps su) (first_loop_state su h u) s3 = (s', Inr ())" by (erule next_Inr)
  have "stays_proper (load_history sv su False)" unfolding load_history_def by (auto intro!: proper_parts)
  then have "proper s3" using assms(2) s1 s2 s3 proper_basic(3) unfolding stays_proper_def by (metis fst_conv)
  then show ?thesis using loop_ends r3 by blast
qed

text \<open>
  C23. Every run comes to an end. Whatever is answered, thrown or happens meanwhile, the program returns, no
  error escapes it, and then the run is closed, being cancelled or aborted. A closed run has exactly one event
  that ends it, its last one, with the status of that event; and a run is said to be completed only after its
  final message was stored.
\<close>

theorem runs_come_to_an_end:
  assumes "run_starts (tn_run s)"
  shows "snd (run_agent sv s) = Inr () \<and> is_over sv (fst (run_agent sv s)) \<and>
    reachable run_starts run_step (tn_run (fst (run_agent sv s))) \<and>
    (rs_closed (tn_run (fst (run_agent sv s))) \<longrightarrow>
      (\<exists>e. ends_at (rs_events (tn_run (fst (run_agent sv s)))) e \<and>
        rs_status (tn_run (fst (run_agent sv s))) = ended_status e \<and>
        (e = Ev_Run_Completed \<longrightarrow> list_ex final_message (tn_effects (fst (run_agent sv s))))))"
proof -
  have "\<not> completed_in (tn_run s)" using assms by (auto simp: run_starts_def new_run_state_def completed_in_def)
  then have s: "proper s" using assms by (simp add: proper_def reachable_start)
  have "stays_proper (run_agent sv)" unfolding run_agent_def by (auto intro!: proper_parts execute_proper)
  then have "proper (fst (run_agent sv s))" using s by (simp add: stays_proper_def)
  moreover have "snd (run_agent sv s) = Inr () \<and> is_over sv (fst (run_agent sv s))"
  proof (cases "executeRun sv s")
    case (Pair s' r)
    then show ?thesis using execute_ends[of sv s s'] s
      by (cases r) (auto simp: run_agent_def catch_turn_def on_run_def is_over_def)
  qed
  moreover have "run_ok r \<and> rs_closed r \<Longrightarrow> \<exists>e. ends_at (rs_events r) e \<and> rs_status r = ended_status e" for r
    by (simp add: run_ok_def)
  moreover have "ends_at (rs_events r) Ev_Run_Completed \<Longrightarrow> completed_in r" for r
    using last_in_set by (auto simp: ends_at_def completed_in_def)
  ultimately show ?thesis using run.inv_reachable by (fastforce simp: proper_def final_stored_def)
qed

lemma runs_come_to_an_end_witness:
  "snd (run_agent demo_services demo_start) = Inr () \<and> is_over demo_services (fst (run_agent demo_services demo_start))"
  using runs_come_to_an_end[of demo_start demo_services] by (auto simp: demo_start_def run_starts_def)

end
