(* ===== verification/Model_Retry.thy ===== *)
theory Model_Retry imports Model_Calls Json_Text begin

text \<open>
  When a call to a model is sent again (\<open>packages/model-provider/src/retry.ts\<close>, \<open>model-provider-error.ts\<close>):
  the errors of adapters, what they become, and the policy that names the wait before the next attempt.
\<close>

section \<open>Errors\<close>

datatype provider_error_kind =
  Rate_Limit | Server_Error | Timed_Out | Network | Context_Length_Exceeded | Continuation_Rejected
| Invalid_Request | Invalid_Response

record provider_error =
  pe_kind :: provider_error_kind
  pe_message :: string
  pe_retryable :: bool
  pe_retryAfterMs :: "nat option"
  pe_usage :: "model_call_usage option"

text \<open>
  What is thrown while a call runs. An error of no known class is known by the codes of itself and its
  causes alone.
\<close>

datatype call_thrown =
  Provider_Failure provider_error
| App_Failure js_error
| Abort_Thrown string
| Other_Thrown "string option list"

definition retryable_kind :: "provider_error_kind \<Rightarrow> bool" where
  "retryable_kind k \<longleftrightarrow> k \<in> {Rate_Limit, Server_Error, Timed_Out, Network}"

definition new_provider_error :: "provider_error_kind \<Rightarrow> string \<Rightarrow> bool option \<Rightarrow> provider_error" where
  "new_provider_error k m r =
     \<lparr> pe_kind = k, pe_message = m, pe_retryable = (case r of Some b \<Rightarrow> b | None \<Rightarrow> retryable_kind k),
       pe_retryAfterMs = None, pe_usage = None \<rparr>"

definition modelProviderErrorKindForStatus :: "nat \<Rightarrow> provider_error_kind" where
  "modelProviderErrorKindForStatus status =
     (if status = 429 then Rate_Limit
      else if status = 408 then Timed_Out
      else if status \<ge> 500 then Server_Error
      else Invalid_Request)"

fun isModelProviderContinuationRejected :: "call_thrown \<Rightarrow> bool" where
  "isModelProviderContinuationRejected (Provider_Failure e) \<longleftrightarrow> pe_kind e = Continuation_Rejected"
| "isModelProviderContinuationRejected _ \<longleftrightarrow> False"

definition CONNECTION_ERROR_CODES :: "string list" where
  "CONNECTION_ERROR_CODES = [''ECONNRESET'', ''ECONNREFUSED'', ''EPIPE'', ''ETIMEDOUT'', ''UND_ERR_SOCKET'']"

definition hasConnectionErrorCode :: "string option list \<Rightarrow> bool" where
  "hasConnectionErrorCode codes \<longleftrightarrow>
     list_ex (\<lambda>c. case c of Some k \<Rightarrow> k \<in> set CONNECTION_ERROR_CODES | None \<Rightarrow> False) (take 4 codes)"

definition connection_failed :: call_thrown where
  "connection_failed = Provider_Failure (new_provider_error Network ''Model provider connection failed'' None)"

fun toModelTransportFailure :: "call_thrown \<Rightarrow> call_thrown" where
  "toModelTransportFailure (App_Failure (Foreign_Error m)) = connection_failed"
| "toModelTransportFailure (Other_Thrown codes) = connection_failed"
| "toModelTransportFailure t = t"

fun normalizeModelAdapterError :: "call_thrown \<Rightarrow> call_thrown" where
  "normalizeModelAdapterError (Provider_Failure e) = Provider_Failure e"
| "normalizeModelAdapterError (App_Failure (App_Error e)) =
     (if err_code e = TIMEOUT then Provider_Failure (new_provider_error Timed_Out (err_message e) None)
      else App_Failure (App_Error e))"
| "normalizeModelAdapterError (App_Failure (Foreign_Error m)) = App_Failure (Foreign_Error m)"
| "normalizeModelAdapterError (Abort_Thrown m) = Abort_Thrown m"
| "normalizeModelAdapterError (Other_Thrown codes) =
     (if hasConnectionErrorCode codes then connection_failed else Other_Thrown codes)"

text \<open>What a call fails with: for a rate limit a sentence the user may read.\<close>

fun modelCallFailureFor :: "call_thrown \<Rightarrow> call_thrown" where
  "modelCallFailureFor (Provider_Failure e) =
     (if pe_kind e = Rate_Limit then App_Failure (app_error RATE_LIMITED
        ''The model is receiving too many requests. Try again in a minute.'')
      else Provider_Failure e)"
| "modelCallFailureFor t = t"

section \<open>Waits\<close>

definition MODEL_PROVIDER_RETRY_WAITS_MS :: "nat list" where
  "MODEL_PROVIDER_RETRY_WAITS_MS = [1000, 4000]"

definition MODEL_PROVIDER_RATE_LIMIT_WAIT_TOTAL_MS :: nat where
  "MODEL_PROVIDER_RATE_LIMIT_WAIT_TOTAL_MS = 60000"

definition MODEL_PROVIDER_RATE_LIMIT_FIRST_WAIT_MS :: nat where
  "MODEL_PROVIDER_RATE_LIMIT_FIRST_WAIT_MS = 4000"

definition MODEL_PROVIDER_RETRY_JITTER_RATIO :: rat where
  "MODEL_PROVIDER_RETRY_JITTER_RATIO = 1 / 5"

definition MODEL_PROVIDER_RETRY_AFTER_MAX_MS :: nat where
  "MODEL_PROVIDER_RETRY_AFTER_MAX_MS = 60000"

text \<open>\<open>random\<close> is what \<open>Math.random\<close> gives, at least 0 and less than 1.\<close>

definition withRetryJitter :: "rat \<Rightarrow> nat \<Rightarrow> nat" where
  "withRetryJitter random waitMs =
     nat (js_round (of_nat waitMs * (1 + (random * 2 - 1) * MODEL_PROVIDER_RETRY_JITTER_RATIO)))"

definition retryWaitMs :: "rat \<Rightarrow> nat \<Rightarrow> nat" where
  "retryWaitMs random failedAttempt =
     withRetryJitter random
       (if failedAttempt - 1 < length MODEL_PROVIDER_RETRY_WAITS_MS
        then MODEL_PROVIDER_RETRY_WAITS_MS ! (failedAttempt - 1) else 0)"

definition rateLimitWaitMs :: "rat \<Rightarrow> nat \<Rightarrow> nat" where
  "rateLimitWaitMs random failedAttempt =
     withRetryJitter random (MODEL_PROVIDER_RATE_LIMIT_FIRST_WAIT_MS * 2 ^ (failedAttempt - 1))"

section \<open>The policy of one call\<close>

record retry_state =
  rp_transientFailures :: nat
  rp_rateLimitFailures :: nat
  rp_rateLimitWaitLeftMs :: nat

definition createModelRetryPolicy :: retry_state where
  "createModelRetryPolicy =
     \<lparr> rp_transientFailures = 0, rp_rateLimitFailures = 0,
       rp_rateLimitWaitLeftMs = MODEL_PROVIDER_RATE_LIMIT_WAIT_TOTAL_MS \<rparr>"

definition assertAttemptMayStart :: "bool \<Rightarrow> time \<Rightarrow> time option \<Rightarrow> (call_thrown, unit) result" where
  "assertAttemptMayStart aborted now deadline =
     (if aborted then
        Inl (App_Failure (app_error CONFLICT ''The model call was stopped before the provider was called''))
      else case deadline of
        None \<Rightarrow> Inr ()
      | Some d \<Rightarrow>
          if now \<ge> d then Inl (App_Failure (app_error TIMEOUT
            (''The model call'' @ [CHR 0x27] @ ''s deadline passed before the provider was called'')))
          else Inr ())"

definition wait_on_rate_limit :: "rat \<Rightarrow> nat option \<Rightarrow> retry_state \<Rightarrow> (nat \<times> retry_state) option" where
  "wait_on_rate_limit random retryAfterMs p =
     (let failures = rp_rateLimitFailures p + 1;
          asked = (case retryAfterMs of Some n \<Rightarrow> n | None \<Rightarrow> 0);
          left = rp_rateLimitWaitLeftMs p;
          waitMs = min (max asked (rateLimitWaitMs random failures)) left
      in if waitMs = 0 \<or> asked > left then None
         else Some (waitMs, p\<lparr>rp_rateLimitFailures := failures, rp_rateLimitWaitLeftMs := left - waitMs\<rparr>))"

definition wait_on_failure :: "rat \<Rightarrow> nat option \<Rightarrow> retry_state \<Rightarrow> (nat \<times> retry_state) option" where
  "wait_on_failure random retryAfterMs p =
     (let failures = rp_transientFailures p + 1;
          waitMs = (case retryAfterMs of Some n \<Rightarrow> n | None \<Rightarrow> retryWaitMs random failures)
      in if failures > length MODEL_PROVIDER_RETRY_WAITS_MS then None
         else if waitMs > MODEL_PROVIDER_RETRY_AFTER_MAX_MS then None
         else Some (waitMs, p\<lparr>rp_transientFailures := failures\<rparr>))"

text \<open>
  The wait before the next attempt with the state after it, or what the call fails with. A policy that
  refuses is never asked again.
\<close>

fun waitBeforeRetryMs ::
    "bool \<Rightarrow> time \<Rightarrow> time option \<Rightarrow> rat \<Rightarrow> bool \<Rightarrow> call_thrown \<Rightarrow> retry_state \<Rightarrow> (call_thrown, nat \<times> retry_state) result" where
  "waitBeforeRetryMs aborted now deadline random retrySafe (Provider_Failure e) p =
     (let failure = modelCallFailureFor (Provider_Failure e) in
      if \<not> retrySafe \<or> aborted \<or> \<not> pe_retryable e then Inl failure
      else
        (case (if pe_kind e = Rate_Limit then wait_on_rate_limit random (pe_retryAfterMs e) p
               else wait_on_failure random (pe_retryAfterMs e) p) of
           None \<Rightarrow> Inl failure
         | Some (waitMs, p') \<Rightarrow>
             (case deadline of
                Some d \<Rightarrow> if now + of_nat waitMs \<ge> d then Inl failure else Inr (waitMs, p')
              | None \<Rightarrow> Inr (waitMs, p'))))"
| "waitBeforeRetryMs aborted now deadline random retrySafe t p = Inl (modelCallFailureFor t)"

section \<open>The policy ends\<close>

text \<open>
  Every wait uses up the policy: a transient failure counts, and a rate limit takes from what is left of the
  minute.
\<close>

definition retries_left :: "retry_state \<Rightarrow> nat" where
  "retries_left p = (2 - rp_transientFailures p) + rp_rateLimitWaitLeftMs p"

lemma wait_uses_up:
  assumes "waitBeforeRetryMs aborted now deadline random retrySafe t p = Inr (waitMs, p')"
  shows "retries_left p' < retries_left p"
proof (cases t)
  case (Provider_Failure e)
  show ?thesis
  proof (cases "pe_kind e = Rate_Limit")
    case True
    with assms Provider_Failure have "wait_on_rate_limit random (pe_retryAfterMs e) p = Some (waitMs, p')"
      by (auto simp: Let_def split: if_splits option.splits)
    then show ?thesis by (auto simp: wait_on_rate_limit_def Let_def retries_left_def split: if_splits)
  next
    case False
    with assms Provider_Failure have "wait_on_failure random (pe_retryAfterMs e) p = Some (waitMs, p')"
      by (auto simp: Let_def split: if_splits option.splits)
    then show ?thesis
      by (auto simp: wait_on_failure_def Let_def retries_left_def MODEL_PROVIDER_RETRY_WAITS_MS_def split: if_splits)
  qed
qed (use assms in simp_all)

end
