(* ===== verification/Json_Check.thy ===== *)
theory Json_Check imports Json_Text begin

text \<open>
  Which texts \<open>JSON.parse\<close> reads, as a recognizer that gives the rest of the text behind a value. Each call
  of it costs one unit of fuel, and between two calls that consume nothing a character is consumed.
\<close>

definition skip_space :: "string \<Rightarrow> string" where
  "skip_space s = dropWhile (\<lambda>c. c \<in> {CHR '' '', CHR 0x09, CHR 0x0A, CHR 0x0D}) s"

definition is_digit :: "char \<Rightarrow> bool" where
  "is_digit c \<longleftrightarrow> 48 \<le> (of_char c :: nat) \<and> (of_char c :: nat) \<le> 57"

definition is_hex :: "char \<Rightarrow> bool" where
  "is_hex c \<longleftrightarrow> is_digit c \<or> 65 \<le> (of_char c :: nat) \<and> (of_char c :: nat) \<le> 70 \<or>
     97 \<le> (of_char c :: nat) \<and> (of_char c :: nat) \<le> 102"

fun digits_rest :: "string \<Rightarrow> string option" where
  "digits_rest (c # s) = (if is_digit c then Some (dropWhile is_digit s) else None)"
| "digits_rest [] = None"

fun whole_rest :: "string \<Rightarrow> string option" where
  "whole_rest (c # s) = (if c = CHR ''0'' then Some s else digits_rest (c # s))"
| "whole_rest [] = None"

definition fraction_rest :: "string \<Rightarrow> string option" where
  "fraction_rest s = (case s of c # r \<Rightarrow> if c = CHR ''.'' then digits_rest r else Some s | [] \<Rightarrow> Some s)"

definition exponent_rest :: "string \<Rightarrow> string option" where
  "exponent_rest s =
     (case s of
        c # r \<Rightarrow>
          if c = CHR ''e'' \<or> c = CHR ''E'' then
            (case r of
               d # r' \<Rightarrow> if d = CHR ''+'' \<or> d = CHR ''-'' then digits_rest r' else digits_rest r
             | [] \<Rightarrow> None)
          else Some s
      | [] \<Rightarrow> Some s)"

definition json_number_rest :: "string \<Rightarrow> string option" where
  "json_number_rest s =
     Option.bind (whole_rest (case s of c # r \<Rightarrow> if c = CHR ''-'' then r else s | [] \<Rightarrow> s)) (\<lambda>r.
     Option.bind (fraction_rest r) exponent_rest)"

text \<open>Behind the opening quote of a string.\<close>

fun string_rest :: "string \<Rightarrow> string option" where
  "string_rest [] = None"
| "string_rest (c # s) =
     (if c = CHR 0x22 then Some s
      else if c = CHR 0x5C then
        (case s of
           e # r \<Rightarrow>
             if e \<in> {CHR 0x22, CHR 0x5C, CHR ''/'', CHR ''b'', CHR ''f'', CHR ''n'', CHR ''r'', CHR ''t''} then string_rest r
             else if e = CHR ''u'' then
               (if length r \<ge> 4 \<and> list_all is_hex (take 4 r) then string_rest (drop 4 r) else None)
             else None
         | [] \<Rightarrow> None)
      else if (of_char c :: nat) < 32 then None
      else string_rest s)"

definition literal_rest :: "string \<Rightarrow> string option" where
  "literal_rest s =
     (if take 4 s = ''true'' \<or> take 4 s = ''null'' then Some (drop 4 s)
      else if take 5 s = ''false'' then Some (drop 5 s)
      else json_number_rest s)"

fun value_rest :: "nat \<Rightarrow> string \<Rightarrow> string option"
  and items_rest :: "nat \<Rightarrow> string \<Rightarrow> string option"
  and members_rest :: "nat \<Rightarrow> string \<Rightarrow> string option" where
  "value_rest 0 s = None"
| "value_rest (Suc n) s =
     (case skip_space s of
        [] \<Rightarrow> None
      | c # r \<Rightarrow>
          if c = CHR ''{'' then
            (if take 1 (skip_space r) = ''}'' then Some (drop 1 (skip_space r)) else members_rest n r)
          else if c = CHR ''['' then
            (if take 1 (skip_space r) = '']'' then Some (drop 1 (skip_space r)) else items_rest n r)
          else if c = CHR 0x22 then string_rest r
          else literal_rest (c # r))"
| "items_rest 0 s = None"
| "items_rest (Suc n) s =
     Option.bind (value_rest n s) (\<lambda>r.
       case skip_space r of
         [] \<Rightarrow> None
       | c # r' \<Rightarrow> if c = CHR '','' then items_rest n r' else if c = CHR '']'' then Some r' else None)"
| "members_rest 0 s = None"
| "members_rest (Suc n) s =
     (case skip_space s of
        [] \<Rightarrow> None
      | q # r \<Rightarrow>
          if q \<noteq> CHR 0x22 then None
          else Option.bind (string_rest r) (\<lambda>r1.
            case skip_space r1 of
              [] \<Rightarrow> None
            | d # r2 \<Rightarrow>
                if d \<noteq> CHR '':'' then None
                else Option.bind (value_rest n r2) (\<lambda>r3.
                  case skip_space r3 of
                    [] \<Rightarrow> None
                  | c # r4 \<Rightarrow>
                      if c = CHR '','' then members_rest n r4 else if c = CHR ''}'' then Some r4 else None)))"

definition is_json :: "string \<Rightarrow> bool" where
  "is_json s \<longleftrightarrow> (case value_rest (2 * length s + 2) s of Some r \<Rightarrow> skip_space r = [] | None \<Rightarrow> False)"

end
