(* ===== verification/Model_Gateway.thy ===== *)
theory Model_Gateway imports Model_Retry Json_Check begin

text \<open>
  The gateway, the one way a call reaches a model (\<open>packages/model-provider/src/gateway.ts\<close>): it finds the
  target of a call, checks what the model can do, has the call admitted, sends it in one or more attempts and
  settles what it used.

  The adapters, the governance of usage, the clock, the timers and the random numbers are services over a
  world of type \<open>'w\<close>. A caller may stop reading after any event it was given. A call without a deadline whose
  adapter never answers does not return; it is not modelled.
\<close>

section \<open>Calls\<close>

datatype binding_ref = By_Binding string | By_Provider string "string option"

record model_binding =
  mb_id :: string
  mb_providerId :: string
  mb_model :: "string option"

record model_provider =
  mp_id :: string
  mp_model :: string
  mp_region :: "string option"

datatype model_tool = Function_Tool string string "json option" | Native_Tool string

record gateway_call =
  gc_binding :: binding_ref
  gc_messages :: "model_message list"
  gc_tools :: "model_tool list"
  gc_jsonSchema :: "json option"
  gc_reasoningEffort :: "string option"
  gc_fastTier :: "bool option"
  gc_continuation :: "(string \<times> json) option"
  gc_attribution :: model_attribution
  gc_instance :: string
  gc_correlation :: string
  gc_deadline :: "time option"

record model_capabilities =
  ca_reasoningEfforts :: "string list"
  ca_nativeTools :: "string list"
  ca_toolCalls :: bool
  ca_continuation :: bool
  ca_fastTier :: bool
  ca_structuredOutput :: bool
  ca_streaming :: bool
  ca_documentInput :: bool

datatype adapter_event =
  Ad_Answer stream_event
| Ad_Usage_Reported model_call_usage
| Ad_Input_Delta string

record model_target =
  mt_provider :: model_provider
  mt_model :: string
  mt_bindingId :: "string option"

datatype abort_reason = Reason_Error call_thrown | Reason_Text string | Reason_Other

text \<open>A completion may still be open when the deadline of its call passes.\<close>

datatype pending_completion = Completion_Settled "(call_thrown, model_completion) result" | Open_At_Deadline

record 'w gateway_services =
  gs_providers :: "model_provider list"
  gs_bindings :: "model_binding list"
  gs_adapters :: "string list"
  gs_capabilities :: "string \<Rightarrow> string \<Rightarrow> model_capabilities"
  gs_complete :: "model_target \<Rightarrow> gateway_call \<Rightarrow> 'w \<Rightarrow> 'w \<times> pending_completion"
  gs_stream :: "model_target \<Rightarrow> gateway_call \<Rightarrow> 'w \<Rightarrow> 'w \<times> adapter_event list \<times> call_thrown option"
  gs_admit :: "model_call \<Rightarrow> request_size \<Rightarrow> 'w \<Rightarrow> 'w \<times> (call_thrown, admitted_call) result"
  gs_settle :: "admitted_call \<Rightarrow> model_call_usage option \<Rightarrow> 'w \<Rightarrow> 'w \<times> (call_thrown, unit) result"
  gs_aborted :: "'w \<Rightarrow> bool"
  gs_abortReason :: "'w \<Rightarrow> abort_reason"
  gs_timedOut :: "'w \<Rightarrow> bool"
  gs_now :: "'w \<Rightarrow> time"
  gs_random :: "'w \<Rightarrow> rat"
  gs_sleep :: "nat \<Rightarrow> 'w \<Rightarrow> 'w \<times> bool"
  gs_num :: "rat \<Rightarrow> string"

section \<open>Targets and capabilities\<close>

definition find_target ::
    "'w gateway_services \<Rightarrow> string \<Rightarrow> string option \<Rightarrow> string option \<Rightarrow> (call_thrown, model_target) result" where
  "find_target sv providerId model bindingId =
     (case List.find (\<lambda>p. mp_id p = providerId) (gs_providers sv) of
        Some p \<Rightarrow>
          if providerId \<in> set (gs_adapters sv) then
            Inr \<lparr> mt_provider = p, mt_model = (case model of Some m \<Rightarrow> m | None \<Rightarrow> mp_model p), mt_bindingId = bindingId \<rparr>
          else Inl (App_Failure (app_error NOT_FOUND (''Model provider '' @ quoted providerId @ '' is not defined'')))
      | None \<Rightarrow> Inl (App_Failure (app_error NOT_FOUND (''Model provider '' @ quoted providerId @ '' is not defined''))))"

fun resolve :: "'w gateway_services \<Rightarrow> binding_ref \<Rightarrow> (call_thrown, model_target) result" where
  "resolve sv (By_Binding bindingId) =
     (case List.find (\<lambda>b. mb_id b = bindingId) (gs_bindings sv) of
        None \<Rightarrow> Inl (App_Failure (app_error NOT_FOUND (''Model binding '' @ quoted bindingId @ '' is not defined'')))
      | Some b \<Rightarrow> find_target sv (mb_providerId b) (mb_model b) (Some bindingId))"
| "resolve sv (By_Provider providerId model) = find_target sv providerId model None"

fun is_function_tool :: "model_tool \<Rightarrow> bool" where
  "is_function_tool (Function_Tool a d s) \<longleftrightarrow> True"
| "is_function_tool (Native_Tool a) \<longleftrightarrow> False"

fun uses_tools :: "model_message \<Rightarrow> bool" where
  "uses_tools (Msg_Tool i c) \<longleftrightarrow> True"
| "uses_tools (Msg_Assistant c (Some (t # ts))) \<longleftrightarrow> True"
| "uses_tools _ \<longleftrightarrow> False"

definition carriesToolUse :: "gateway_call \<Rightarrow> bool" where
  "carriesToolUse call \<longleftrightarrow> list_ex uses_tools (gc_messages call)"

fun message_parts :: "model_message \<Rightarrow> model_content" where
  "message_parts (Msg_System c) = c"
| "message_parts (Msg_User c) = c"
| "message_parts (Msg_Assistant c t) = c"
| "message_parts (Msg_Tool i c) = c"

definition carriesDocument :: "model_message \<Rightarrow> bool" where
  "carriesDocument m \<longleftrightarrow>
     (case message_parts m of
        Plain_Content t \<Rightarrow> False
      | Content_Parts ps \<Rightarrow> list_ex (\<lambda>p. case p of Document_Content t n \<Rightarrow> True | _ \<Rightarrow> False) ps)"

definition missing_capabilities :: "model_capabilities \<Rightarrow> gateway_call \<Rightarrow> bool \<Rightarrow> string list" where
  "missing_capabilities ca call streaming =
     (if streaming \<and> \<not> ca_streaming ca then [''streaming''] else [])
     @ (case gc_reasoningEffort call of
          Some e \<Rightarrow> if e \<in> set (ca_reasoningEfforts ca) then [] else [''reasoning effort '' @ quoted e]
        | None \<Rightarrow> [])
     @ concat (map (\<lambda>t. case t of
          Native_Tool n \<Rightarrow> if n \<in> set (ca_nativeTools ca) then [] else [''native tool '' @ quoted n]
        | _ \<Rightarrow> []) (gc_tools call))
     @ (if \<not> ca_toolCalls ca \<and> (list_ex is_function_tool (gc_tools call) \<or> carriesToolUse call)
        then [''tool calls''] else [])
     @ (if gc_continuation call \<noteq> None \<and> \<not> ca_continuation ca then [''continuation''] else [])
     @ (if gc_fastTier call = Some True \<and> \<not> ca_fastTier ca then [''fast tier''] else [])
     @ (if gc_jsonSchema call \<noteq> None \<and> \<not> ca_structuredOutput ca then [''structured output''] else [])
     @ (if \<not> ca_documentInput ca \<and> list_ex carriesDocument (gc_messages call) then [''document input''] else [])"

definition assertWithinCapabilities ::
    "'w gateway_services \<Rightarrow> gateway_call \<Rightarrow> model_target \<Rightarrow> bool \<Rightarrow> (call_thrown, unit) result" where
  "assertWithinCapabilities sv call tg streaming =
     (let missing = missing_capabilities (gs_capabilities sv (mp_id (mt_provider tg)) (mt_model tg)) call streaming
      in if missing = [] then Inr ()
         else Inl (App_Failure (app_error VALIDATION_FAILED (''Model '' @ quoted (mt_model tg) @ '' of provider '' @
           quoted (mp_id (mt_provider tg)) @ '' does not support: '' @ join_with '', '' missing))))"

section \<open>Sizes and estimates\<close>

definition ESTIMATED_CHARACTERS_PER_TOKEN :: nat where
  "ESTIMATED_CHARACTERS_PER_TOKEN = 3"

definition MAX_ESTIMATED_TOKENS_PER_CALL :: nat where
  "MAX_ESTIMATED_TOKENS_PER_CALL = 10000000"

definition MAX_ESTIMATED_WEB_SEARCHES_PER_CALL :: nat where
  "MAX_ESTIMATED_WEB_SEARCHES_PER_CALL = 1000"

definition WEB_SEARCH_MODEL_TOOL_NAME :: string where
  "WEB_SEARCH_MODEL_TOOL_NAME = ''web_search''"

definition estimatedCharacters :: "string \<Rightarrow> nat" where
  "estimatedCharacters t =
     length t + length (filter (\<lambda>c. (of_char c :: nat) > 0x7f) t) * (ESTIMATED_CHARACTERS_PER_TOKEN - 1)"

text \<open>The characters of what arrived, over all attempts of a call.\<close>

record call_size =
  cz_inputCharacters :: nat
  cz_outputCharacters :: nat
  cz_webSearchCallCount :: nat

definition estimated_tokens :: "nat \<Rightarrow> nat" where
  "estimated_tokens characters =
     min MAX_ESTIMATED_TOKENS_PER_CALL ((characters + ESTIMATED_CHARACTERS_PER_TOKEN - 1) div ESTIMATED_CHARACTERS_PER_TOKEN)"

definition estimateInterruptedCallUsage :: "call_size \<Rightarrow> model_call_usage" where
  "estimateInterruptedCallUsage z =
     (let inputTokens = estimated_tokens (cz_inputCharacters z);
          outputTokens = max 1 (estimated_tokens (cz_outputCharacters z))
      in \<lparr> mu_input = whole (int inputTokens), mu_cached = Some (whole 0), mu_output = whole (int outputTokens),
           mu_total = whole (int (inputTokens + outputTokens)), mu_source = Estimated,
           mu_webSearches = Some (whole (int (min MAX_ESTIMATED_WEB_SEARCHES_PER_CALL (cz_webSearchCallCount z)))),
           mu_tier = None \<rparr>)"

definition size_of_json :: "(rat \<Rightarrow> string) \<Rightarrow> json option \<Rightarrow> nat" where
  "size_of_json num v = (case v of None \<Rightarrow> 0 | Some j \<Rightarrow> estimatedCharacters (json_stringify num j))"

text \<open>What one event shows the provider to have produced: characters and web searches.\<close>

fun receivedWith :: "(rat \<Rightarrow> string) \<Rightarrow> adapter_event \<Rightarrow> (nat \<times> nat) option" where
  "receivedWith num (Ad_Input_Delta delta) = (if delta = [] then None else Some (estimatedCharacters delta, 0))"
| "receivedWith num (Ad_Answer (Str_Text_Delta delta)) = (if delta = [] then None else Some (estimatedCharacters delta, 0))"
| "receivedWith num (Ad_Answer (Str_Reasoning_Delta i delta)) =
     (if delta = [] then None else Some (estimatedCharacters delta, 0))"
| "receivedWith num (Ad_Answer (Str_Tool_Call_Preparing i name)) = Some (length name, 0)"
| "receivedWith num (Ad_Answer (Str_Provider_Tool_Started i name inp)) =
     Some (length name + size_of_json num inp, if name = WEB_SEARCH_MODEL_TOOL_NAME then 1 else 0)"
| "receivedWith num (Ad_Answer (Str_Provider_Tool_Completed i name out)) = Some (length name + size_of_json num out, 0)"
| "receivedWith num _ = None"

text \<open>The size of what a call sends. An image counts as nothing.\<close>

definition content_characters :: "(string \<Rightarrow> nat) \<Rightarrow> model_content \<Rightarrow> nat" where
  "content_characters sizeOf c =
     (case c of
        Plain_Content t \<Rightarrow> sizeOf t
      | Content_Parts ps \<Rightarrow> (\<Sum>p \<leftarrow> ps. case p of Text_Content t \<Rightarrow> sizeOf t | _ \<Rightarrow> 0))"

definition call_characters :: "(rat \<Rightarrow> string) \<Rightarrow> (string \<Rightarrow> nat) \<Rightarrow> model_tool_call \<Rightarrow> nat" where
  "call_characters num sizeOf tc = sizeOf (mc_toolName tc) + sizeOf (json_stringify num (mc_input tc))"

fun message_characters :: "(rat \<Rightarrow> string) \<Rightarrow> (string \<Rightarrow> nat) \<Rightarrow> model_message \<Rightarrow> nat" where
  "message_characters num sizeOf (Msg_Assistant c (Some tcs)) =
     content_characters sizeOf c + (\<Sum>tc \<leftarrow> tcs. call_characters num sizeOf tc)"
| "message_characters num sizeOf m = content_characters sizeOf (message_parts m)"

fun tool_characters :: "(rat \<Rightarrow> string) \<Rightarrow> (string \<Rightarrow> nat) \<Rightarrow> model_tool \<Rightarrow> nat" where
  "tool_characters num sizeOf (Function_Tool name description schema) =
     sizeOf name + (sizeOf description +
       sizeOf (json_stringify num (case schema of Some s \<Rightarrow> s | None \<Rightarrow> JObj [])))"
| "tool_characters num sizeOf (Native_Tool name) = sizeOf name"

definition requestCharacters :: "(rat \<Rightarrow> string) \<Rightarrow> gateway_call \<Rightarrow> (string \<Rightarrow> nat) \<Rightarrow> nat" where
  "requestCharacters num call sizeOf =
     (\<Sum>m \<leftarrow> gc_messages call. message_characters num sizeOf m)
     + (\<Sum>t \<leftarrow> gc_tools call. tool_characters num sizeOf t)
     + (case gc_jsonSchema call of Some s \<Rightarrow> sizeOf (json_stringify num s) | None \<Rightarrow> 0)"

section \<open>The state of a call\<close>

text \<open>What the gateway did, in order, besides handing on events.\<close>

datatype gateway_effect =
  Eff_Admitted admitted_call
| Eff_Attempt
| Eff_Wait nat
| Eff_Settled admitted_call "model_call_usage option"

record 'w gateway_state =
  gw_world :: 'w
  gw_delivered :: "stream_event list"
  gw_effects :: "gateway_effect list"
  gw_completion :: "model_completion option"
  gw_reportedUsage :: "model_call_usage option"
  gw_received :: call_size

text \<open>Why a call goes no further: its caller stopped reading, or something was thrown.\<close>

datatype call_stop = Left_Unread | Call_Threw call_thrown

definition note_gateway :: "gateway_effect \<Rightarrow> 'w gateway_state \<Rightarrow> 'w gateway_state" where
  "note_gateway e s = s\<lparr>gw_effects := gw_effects s @ [e]\<rparr>"

text \<open>An event is handed to the caller, who reads on or not.\<close>

definition yield_event ::
    "(stream_event list \<Rightarrow> bool) \<Rightarrow> stream_event \<Rightarrow> 'w gateway_state \<Rightarrow> 'w gateway_state \<times> call_stop option" where
  "yield_event stops e s =
     (let s' = s\<lparr>gw_delivered := gw_delivered s @ [e]\<rparr>
      in (s', if stops (gw_delivered s') then Some Left_Unread else None))"

fun yield_all ::
    "(stream_event list \<Rightarrow> bool) \<Rightarrow> stream_event list \<Rightarrow> 'w gateway_state \<Rightarrow> 'w gateway_state \<times> call_stop option" where
  "yield_all stops [] s = (s, None)"
| "yield_all stops (e # es) s =
     (case yield_event stops e s of
        (s', Some r) \<Rightarrow> (s', Some r)
      | (s', None) \<Rightarrow> yield_all stops es s')"

section \<open>One attempt\<close>

record attempt_state =
  at_retrySafe :: bool
  at_answering :: bool
  at_preparing :: "string list"

definition new_attempt :: attempt_state where
  "new_attempt = \<lparr> at_retrySafe = True, at_answering = False, at_preparing = [] \<rparr>"

definition invalid_answer :: call_thrown where
  "invalid_answer = Provider_Failure (new_provider_error Invalid_Response ''Model answer is not valid JSON'' None)"

definition answers_in_format :: "gateway_call \<Rightarrow> model_completion \<Rightarrow> bool" where
  "answers_in_format call c \<longleftrightarrow> gc_jsonSchema call = None \<or> cp_toolCalls c \<noteq> [] \<or> is_json (cp_text c)"

definition note_received ::
    "(rat \<Rightarrow> string) \<Rightarrow> gateway_call \<Rightarrow> adapter_event \<Rightarrow> attempt_state \<Rightarrow> 'w gateway_state \<Rightarrow> attempt_state \<times> 'w gateway_state" where
  "note_received num call e a s =
     (case receivedWith num e of
        None \<Rightarrow> (a, s)
      | Some (characters, searches) \<Rightarrow>
          (let z = gw_received s in
           (a\<lparr>at_answering := True\<rparr>,
            s\<lparr>gw_received :=
              \<lparr> cz_inputCharacters = cz_inputCharacters z +
                  (if at_answering a then 0 else requestCharacters num call estimatedCharacters),
                cz_outputCharacters = cz_outputCharacters z + characters,
                cz_webSearchCallCount = cz_webSearchCallCount z + searches \<rparr>\<rparr>)))"

fun is_empty_delta :: "stream_event \<Rightarrow> bool" where
  "is_empty_delta (Str_Text_Delta d) \<longleftrightarrow> d = []"
| "is_empty_delta (Str_Reasoning_Delta i d) \<longleftrightarrow> d = []"
| "is_empty_delta _ \<longleftrightarrow> False"

text \<open>One event of the answer, after its size was noted.\<close>

fun answer_event ::
    "gateway_call \<Rightarrow> (stream_event list \<Rightarrow> bool) \<Rightarrow> stream_event \<Rightarrow> attempt_state \<Rightarrow> 'w gateway_state \<Rightarrow>
      'w gateway_state \<times> attempt_state \<times> call_stop option" where
  "answer_event call stops (Str_Tool_Call_Preparing i name) a s =
     (case yield_event stops (Str_Tool_Call_Preparing i name) s of
        (s', r) \<Rightarrow> (s', a\<lparr>at_preparing := at_preparing a @ [i]\<rparr>, r))"
| "answer_event call stops (Str_Completed c) a s =
     (let a' = a\<lparr>at_retrySafe := False\<rparr>; s1 = s\<lparr>gw_completion := Some c\<rparr> in
      if \<not> answers_in_format call c then (s1, a', Some (Call_Threw invalid_answer))
      else case yield_event stops (Str_Completed c) s1 of (s', r) \<Rightarrow> (s', a', r))"
| "answer_event call stops e a s =
     (case yield_event stops e s of
        (s', r) \<Rightarrow> (s', if is_empty_delta e then a else a\<lparr>at_retrySafe := False\<rparr>, r))"

definition read_event ::
    "'w gateway_services \<Rightarrow> gateway_call \<Rightarrow> (stream_event list \<Rightarrow> bool) \<Rightarrow> adapter_event \<Rightarrow> attempt_state \<Rightarrow>
      'w gateway_state \<Rightarrow> 'w gateway_state \<times> attempt_state \<times> call_stop option" where
  "read_event sv call stops e a s =
     (case e of
        Ad_Usage_Reported u \<Rightarrow> (s\<lparr>gw_reportedUsage := Some u\<rparr>, a, None)
      | _ \<Rightarrow>
          (case note_received (gs_num sv) call e a s of
             (a', s') \<Rightarrow>
               (case e of
                  Ad_Answer x \<Rightarrow> answer_event call stops x a' s'
                | _ \<Rightarrow> (s', a', None))))"

fun read_events ::
    "'w gateway_services \<Rightarrow> gateway_call \<Rightarrow> (stream_event list \<Rightarrow> bool) \<Rightarrow> adapter_event list \<Rightarrow> attempt_state \<Rightarrow>
      'w gateway_state \<Rightarrow> 'w gateway_state \<times> attempt_state \<times> call_stop option" where
  "read_events sv call stops [] a s = (s, a, None)"
| "read_events sv call stops (e # es) a s =
     (case read_event sv call stops e a s of
        (s', a', Some r) \<Rightarrow> (s', a', Some r)
      | (s', a', None) \<Rightarrow> read_events sv call stops es a' s')"

definition deadlinePassed :: call_thrown where
  "deadlinePassed = App_Failure (app_error TIMEOUT ''The model call did not finish before its deadline'')"

definition attempt_complete ::
    "'w gateway_services \<Rightarrow> gateway_call \<Rightarrow> model_target \<Rightarrow> (stream_event list \<Rightarrow> bool) \<Rightarrow> 'w gateway_state \<Rightarrow>
      'w gateway_state \<times> attempt_state \<times> call_stop option" where
  "attempt_complete sv call tg stops s =
     (case gs_complete sv tg call (gw_world s) of
        (w, Completion_Settled (Inr c)) \<Rightarrow> answer_event call stops (Str_Completed c) new_attempt (s\<lparr>gw_world := w\<rparr>)
      | (w, Completion_Settled (Inl t)) \<Rightarrow> (s\<lparr>gw_world := w\<rparr>, new_attempt, Some (Call_Threw t))
      | (w, Open_At_Deadline) \<Rightarrow> (s\<lparr>gw_world := w\<rparr>, new_attempt, Some (Call_Threw deadlinePassed)))"

definition attempt_stream ::
    "'w gateway_services \<Rightarrow> gateway_call \<Rightarrow> model_target \<Rightarrow> (stream_event list \<Rightarrow> bool) \<Rightarrow> 'w gateway_state \<Rightarrow>
      'w gateway_state \<times> attempt_state \<times> call_stop option" where
  "attempt_stream sv call tg stops s =
     (case gs_stream sv tg call (gw_world s) of
        (w, events, failure) \<Rightarrow>
          (case read_events sv call stops events new_attempt (s\<lparr>gw_world := w\<rparr>) of
             (s', a, Some r) \<Rightarrow> (s', a, Some r)
           | (s', a, None) \<Rightarrow>
               (s', a,
                case failure of
                  Some t \<Rightarrow> Some (Call_Threw t)
                | None \<Rightarrow>
                    if gw_completion s' = None then
                      Some (Call_Threw (App_Failure (app_error INTERNAL ''Model provider stream ended without a completion'')))
                    else None)))"

definition attempt ::
    "'w gateway_services \<Rightarrow> gateway_call \<Rightarrow> model_target \<Rightarrow> bool \<Rightarrow> (stream_event list \<Rightarrow> bool) \<Rightarrow> 'w gateway_state \<Rightarrow>
      'w gateway_state \<times> attempt_state \<times> call_stop option" where
  "attempt sv call tg streaming stops s =
     (let s1 = note_gateway Eff_Attempt s in
      if streaming then attempt_stream sv call tg stops s1 else attempt_complete sv call tg stops s1)"

section \<open>Attempts\<close>

text \<open>What a stopped call throws.\<close>

fun stopOf :: "abort_reason \<Rightarrow> call_thrown \<Rightarrow> call_thrown" where
  "stopOf reason (Provider_Failure e) =
     (case reason of
        Reason_Error t \<Rightarrow> t
      | Reason_Text m \<Rightarrow> Abort_Thrown m
      | Reason_Other \<Rightarrow> Abort_Thrown ''The model call was stopped'')"
| "stopOf reason t = t"

definition expired :: "'w gateway_services \<Rightarrow> gateway_call \<Rightarrow> 'w \<Rightarrow> bool" where
  "expired sv call w \<longleftrightarrow> gc_deadline call \<noteq> None \<and> gs_timedOut sv w"

fun reported_with :: "call_thrown \<Rightarrow> model_call_usage option" where
  "reported_with (Provider_Failure e) = pe_usage e"
| "reported_with _ = None"

text \<open>After a failed attempt: what the call fails with, or the wait before the next one.\<close>

definition after_failure ::
    "'w gateway_services \<Rightarrow> gateway_call \<Rightarrow> retry_state \<Rightarrow> attempt_state \<Rightarrow> call_thrown \<Rightarrow> 'w gateway_state \<Rightarrow>
      'w gateway_state \<times> (call_thrown, nat \<times> retry_state) result" where
  "after_failure sv call p a t s =
     (let w = gw_world s in
      if gs_aborted sv w then (s, Inl (stopOf (gs_abortReason sv w) t))
      else if expired sv call w then (s, Inl deadlinePassed)
      else
        (let e = normalizeModelAdapterError t;
             s' = (case reported_with e of Some u \<Rightarrow> s\<lparr>gw_reportedUsage := Some u\<rparr> | None \<Rightarrow> s)
         in (s', waitBeforeRetryMs (gs_aborted sv w) (gs_now sv w) (gc_deadline call) (gs_random sv w)
               (at_retrySafe a) e p)))"

text \<open>The announced calls are taken back and the wait goes by, unless the call is stopped meanwhile.\<close>

definition wait_for_retry ::
    "'w gateway_services \<Rightarrow> (stream_event list \<Rightarrow> bool) \<Rightarrow> attempt_state \<Rightarrow> call_thrown \<Rightarrow> nat \<Rightarrow> 'w gateway_state \<Rightarrow>
      'w gateway_state \<times> call_stop option" where
  "wait_for_retry sv stops a t waitMs s =
     (case yield_all stops (map Str_Tool_Call_Preparation_Cancelled (at_preparing a)) s of
        (s1, Some r) \<Rightarrow> (s1, Some r)
      | (s1, None) \<Rightarrow>
          (case gs_sleep sv waitMs (gw_world s1) of
             (w, stopped) \<Rightarrow>
               (note_gateway (Eff_Wait waitMs) (s1\<lparr>gw_world := w\<rparr>),
                if stopped then Some (Call_Threw (modelCallFailureFor (normalizeModelAdapterError t))) else None)))"

function attempts ::
    "'w gateway_services \<Rightarrow> gateway_call \<Rightarrow> model_target \<Rightarrow> bool \<Rightarrow> (stream_event list \<Rightarrow> bool) \<Rightarrow> retry_state \<Rightarrow>
      'w gateway_state \<Rightarrow> 'w gateway_state \<times> call_stop option" where
  "attempts sv call tg streaming stops p s =
     (case assertAttemptMayStart (gs_aborted sv (gw_world s)) (gs_now sv (gw_world s)) (gc_deadline call) of
        Inl t \<Rightarrow> (s, Some (Call_Threw t))
      | Inr _ \<Rightarrow>
          (case attempt sv call tg streaming stops s of
             (s1, a, None) \<Rightarrow> (s1, None)
           | (s1, a, Some Left_Unread) \<Rightarrow> (s1, Some Left_Unread)
           | (s1, a, Some (Call_Threw t)) \<Rightarrow>
               (case after_failure sv call p a t s1 of
                  (s2, Inl failure) \<Rightarrow> (s2, Some (Call_Threw failure))
                | (s2, Inr (waitMs, p')) \<Rightarrow>
                    (case wait_for_retry sv stops a t waitMs s2 of
                       (s3, Some r) \<Rightarrow> (s3, Some r)
                     | (s3, None) \<Rightarrow> attempts sv call tg streaming stops p' s3))))"
  by pat_completeness auto

lemma after_failure_uses_up:
  "after_failure sv call p a t s = (s', Inr (waitMs, p')) \<Longrightarrow> retries_left p' < retries_left p"
  by (auto simp: after_failure_def Let_def split: if_splits dest: wait_uses_up)

termination attempts
  by (relation "measure (\<lambda>(sv, call, tg, streaming, stops, p, s). retries_left p)")
    (auto intro: after_failure_uses_up[OF sym])

declare attempts.simps [simp del]

section \<open>The call\<close>

definition settled_usage :: "'w gateway_state \<Rightarrow> model_call_usage option" where
  "settled_usage s =
     (case gw_completion s of
        Some c \<Rightarrow> Some (cp_usage c)
      | None \<Rightarrow>
          (case gw_reportedUsage s of
             Some u \<Rightarrow> Some u
           | None \<Rightarrow>
               if cz_outputCharacters (gw_received s) > 0 then Some (estimateInterruptedCallUsage (gw_received s)) else None))"

text \<open>
  Settling throws only where an answer was handed on. What an answer leaves when its settlement fails is the
  error of the settlement.
\<close>

definition settle_call ::
    "'w gateway_services \<Rightarrow> admitted_call \<Rightarrow> 'w gateway_state \<times> call_stop option \<Rightarrow> 'w gateway_state \<times> call_stop option" where
  "settle_call sv admitted outcome =
     (case outcome of
        (s, stopped) \<Rightarrow>
          (case gs_settle sv admitted (settled_usage s) (gw_world s) of
             (w, r) \<Rightarrow>
               (note_gateway (Eff_Settled admitted (settled_usage s)) (s\<lparr>gw_world := w\<rparr>),
                case (stopped, r) of (None, Inl t) \<Rightarrow> Some (Call_Threw t) | _ \<Rightarrow> stopped)))"

definition admission_of :: "gateway_call \<Rightarrow> model_target \<Rightarrow> model_call" where
  "admission_of call tg =
     \<lparr> mc_instance = gc_instance call, mc_attribution = gc_attribution call, mc_provider = mp_id (mt_provider tg),
       mc_model = mt_model tg, mc_region = present (mp_region (mt_provider tg)), mc_binding = mt_bindingId tg,
       mc_fastMode = Some (gc_fastTier call = Some True), mc_correlation = gc_correlation call \<rparr>"

definition request_size_of :: "(rat \<Rightarrow> string) \<Rightarrow> gateway_call \<Rightarrow> request_size" where
  "request_size_of num call =
     \<lparr> rq_inputCharacters = whole (int (requestCharacters num call length)), rq_maxOutputTokens = None \<rparr>"

definition new_gateway_state :: "'w \<Rightarrow> 'w gateway_state" where
  "new_gateway_state w =
     \<lparr> gw_world = w, gw_delivered = [], gw_effects = [], gw_completion = None, gw_reportedUsage = None,
       gw_received = \<lparr> cz_inputCharacters = 0, cz_outputCharacters = 0, cz_webSearchCallCount = 0 \<rparr> \<rparr>"

text \<open>What comes before the attempts: the target and the checks.\<close>

definition checked_target ::
    "'w gateway_services \<Rightarrow> gateway_call \<Rightarrow> bool \<Rightarrow> 'w \<Rightarrow> (call_thrown, model_target) result" where
  "checked_target sv call streaming w =
     bind_result (resolve sv (gc_binding call)) (\<lambda>tg.
     bind_result (assertWithinCapabilities sv call tg streaming) (\<lambda>_.
     bind_result (assertAttemptMayStart (gs_aborted sv w) (gs_now sv w) (gc_deadline call)) (\<lambda>_. Inr tg)))"

definition run_call ::
    "'w gateway_services \<Rightarrow> gateway_call \<Rightarrow> bool \<Rightarrow> (stream_event list \<Rightarrow> bool) \<Rightarrow> 'w \<Rightarrow> 'w gateway_state \<times> call_stop option" where
  "run_call sv call streaming stops w =
     (case checked_target sv call streaming w of
        Inl t \<Rightarrow> (new_gateway_state w, Some (Call_Threw t))
      | Inr tg \<Rightarrow>
          (case gs_admit sv (admission_of call tg) (request_size_of (gs_num sv) call) w of
             (w1, Inl t) \<Rightarrow> (new_gateway_state w1, Some (Call_Threw t))
           | (w1, Inr admitted) \<Rightarrow>
               settle_call sv admitted
                 (attempts sv call tg streaming stops createModelRetryPolicy
                   (note_gateway (Eff_Admitted admitted) (new_gateway_state w1)))))"

fun completions :: "stream_event list \<Rightarrow> model_completion list" where
  "completions (Str_Completed c # es) = c # completions es"
| "completions (_ # es) = completions es"
| "completions [] = []"

definition complete_call ::
    "'w gateway_services \<Rightarrow> gateway_call \<Rightarrow> 'w \<Rightarrow> 'w gateway_state \<times> (call_thrown, model_completion) result" where
  "complete_call sv call w =
     (case run_call sv call False (\<lambda>_. False) w of
        (s, Some (Call_Threw t)) \<Rightarrow> (s, Inl t)
      | (s, _) \<Rightarrow>
          (s, if completions (gw_delivered s) = []
              then Inl (App_Failure (app_error INTERNAL ''Model call ended without a completion''))
              else Inr (last (completions (gw_delivered s)))))"

end
