(* ===== verification/Model_Gateway_Facts.thy ===== *)
theory Model_Gateway_Facts imports Model_Gateway "HOL-Library.Sublist" begin

text \<open>
  What the gateway promises of a call: its attempts and waits are bounded (\<open>attempts_are_bounded\<close>), an attempt
  that is repeated left nothing with the caller (\<open>retries_are_invisible\<close>), and every admitted call is settled
  once, an answer never unrecorded (\<open>calls_are_settled_once\<close>).
\<close>

section \<open>A chain of attempts\<close>

inductive attempt_run ::
    "'w gateway_services \<Rightarrow> gateway_call \<Rightarrow> model_target \<Rightarrow> bool \<Rightarrow> (stream_event list \<Rightarrow> bool) \<Rightarrow> retry_state \<Rightarrow>
      'w gateway_state \<Rightarrow> 'w gateway_state \<Rightarrow> call_stop option \<Rightarrow> bool"
  for sv call tg streaming stops where
  run_refused: "attempt_run sv call tg streaming stops p s s (Some (Call_Threw t))"
| run_answered: "attempt sv call tg streaming stops s = (s1, a, None) \<Longrightarrow>
    attempt_run sv call tg streaming stops p s s1 None"
| run_unread: "attempt sv call tg streaming stops s = (s1, a, Some Left_Unread) \<Longrightarrow>
    attempt_run sv call tg streaming stops p s s1 (Some Left_Unread)"
| run_failed: "attempt sv call tg streaming stops s = (s1, a, Some (Call_Threw t)) \<Longrightarrow>
    after_failure sv call p a t s1 = (s2, Inl failure) \<Longrightarrow>
    attempt_run sv call tg streaming stops p s s2 (Some (Call_Threw failure))"
| run_waiting: "attempt sv call tg streaming stops s = (s1, a, Some (Call_Threw t)) \<Longrightarrow>
    after_failure sv call p a t s1 = (s2, Inr (waitMs, p')) \<Longrightarrow>
    wait_for_retry sv stops a t waitMs s2 = (s3, Some r) \<Longrightarrow>
    attempt_run sv call tg streaming stops p s s3 (Some r)"
| run_again: "attempt sv call tg streaming stops s = (s1, a, Some (Call_Threw t)) \<Longrightarrow>
    after_failure sv call p a t s1 = (s2, Inr (waitMs, p')) \<Longrightarrow>
    wait_for_retry sv stops a t waitMs s2 = (s3, None) \<Longrightarrow>
    attempt_run sv call tg streaming stops p' s3 s4 r \<Longrightarrow>
    attempt_run sv call tg streaming stops p s s4 r"

lemma attempts_run:
  "attempts sv call tg streaming stops p s = (s', r) \<Longrightarrow> attempt_run sv call tg streaming stops p s s' r"
proof (induction sv call tg streaming stops p s arbitrary: s' r rule: attempts.induct)
  case (1 sv call tg streaming stops p s)
  obtain s1 a o1 where at: "attempt sv call tg streaming stops s = (s1, a, o1)" by (metis prod_cases3)
  show ?case
  proof (cases "assertAttemptMayStart (gs_aborted sv (gw_world s)) (gs_now sv (gw_world s)) (gc_deadline call)")
    case (Inl t)
    then show ?thesis using "1.prems" by (auto simp: attempts.simps[of sv] intro: run_refused)
  next
    case (Inr u)
    note may = this
    consider "o1 = None" | "o1 = Some Left_Unread" | t where "o1 = Some (Call_Threw t)" by (cases o1; metis call_stop.exhaust)
    then show ?thesis
    proof cases
      case 3
      obtain s2 d where fail: "after_failure sv call p a t s1 = (s2, d)" by (metis prod.exhaust)
      show ?thesis
      proof (cases d)
        case (Inl f)
        then show ?thesis using "1.prems" may at 3 fail by (auto simp: attempts.simps[of sv] intro: run_failed)
      next
        case (Inr x)
        obtain waitMs p' where x: "x = (waitMs, p')" by (cases x)
        obtain s3 o3 where wait: "wait_for_retry sv stops a t waitMs s2 = (s3, o3)" by (metis prod.exhaust)
        show ?thesis
        proof (cases o3)
          case None
          then have "attempts sv call tg streaming stops p' s3 = (s', r)"
            using "1.prems" may at 3 fail Inr x wait by (simp add: attempts.simps[of sv _ _ _ _ p])
          then have "attempt_run sv call tg streaming stops p' s3 s' r"
            using "1.IH"[OF may at[symmetric] refl 3 refl fail[symmetric] Inr x[symmetric] wait[symmetric] None] by simp
          then show ?thesis using at 3 fail Inr x wait None run_again by blast
        next
          case (Some q)
          then show ?thesis using "1.prems" may at 3 fail Inr x wait
            by (auto simp: attempts.simps[of sv] intro: run_waiting)
        qed
      qed
    qed (use "1.prems" may at in \<open>auto simp: attempts.simps[of sv] intro: run_answered run_unread\<close>)
  qed
qed

section \<open>What the parts leave\<close>

lemma yield_all_keeps:
  "yield_all stops es s = (s', r) \<Longrightarrow> gw_effects s' = gw_effects s \<and> gw_world s' = gw_world s \<and>
    gw_completion s' = gw_completion s \<and> gw_reportedUsage s' = gw_reportedUsage s \<and> gw_received s' = gw_received s \<and>
    (\<exists>ds. prefix ds es \<and> gw_delivered s' = gw_delivered s @ ds \<and> (r = None \<longrightarrow> ds = es))"
proof (induction es arbitrary: s)
  case (Cons e es)
  show ?case
  proof (cases "stops (gw_delivered s @ [e])")
    case True
    then show ?thesis using Cons.prems by (auto simp: yield_event_def Let_def intro!: exI[of _ "[e]"])
  next
    case False
    then have "yield_all stops es (s\<lparr>gw_delivered := gw_delivered s @ [e]\<rparr>) = (s', r)"
      using Cons.prems by (simp add: yield_event_def Let_def)
    from Cons.IH[OF this] obtain ds where "prefix ds es" "gw_delivered s' = gw_delivered s @ e # ds" "r = None \<longrightarrow> ds = es"
      by auto
    then show ?thesis using Cons.IH[OF \<open>yield_all stops es _ = (s', r)\<close>] by (auto intro!: exI[of _ "e # ds"])
  qed
qed simp

text \<open>What the caller notices of an event, and whether it is an announcement of a call.\<close>

fun noticed :: "stream_event \<Rightarrow> bool" where
  "noticed (Str_Tool_Call_Preparing i name) \<longleftrightarrow> False"
| "noticed (Str_Tool_Call_Preparation_Cancelled i) \<longleftrightarrow> False"
| "noticed e \<longleftrightarrow> \<not> is_empty_delta e"

fun announced :: "stream_event \<Rightarrow> string list" where
  "announced (Str_Tool_Call_Preparing i name) = [i]"
| "announced _ = []"

fun taken_back :: "stream_event \<Rightarrow> string list" where
  "taken_back (Str_Tool_Call_Preparation_Cancelled i) = [i]"
| "taken_back _ = []"

fun answers_in :: "adapter_event list \<Rightarrow> stream_event list" where
  "answers_in [] = []"
| "answers_in (Ad_Answer e # es) = e # answers_in es"
| "answers_in (_ # es) = answers_in es"

text \<open>
  One step of an attempt: what is delivered is a part of what the adapter said, and an attempt that may be
  repeated delivered nothing the caller notices and knows the calls it announced.
\<close>

definition attempt_tells ::
    "stream_event list \<Rightarrow> attempt_state \<Rightarrow> 'w gateway_state \<Rightarrow> 'w gateway_state \<Rightarrow> attempt_state \<Rightarrow> bool" where
  "attempt_tells ds a s s' a' \<longleftrightarrow>
     gw_delivered s' = gw_delivered s @ ds \<and> gw_effects s' = gw_effects s \<and> gw_world s' = gw_world s \<and>
     (at_retrySafe a' \<longrightarrow> at_retrySafe a \<and> \<not> list_ex noticed ds) \<and>
     at_preparing a' = at_preparing a @ concat (map announced ds) \<and>
     (gw_completion s \<noteq> None \<longrightarrow> gw_completion s' \<noteq> None)"

lemma tells_none: "attempt_tells [] a s s a"
  by (simp add: attempt_tells_def)

lemma tells_append:
  "attempt_tells ds a s s1 a1 \<Longrightarrow> attempt_tells es a1 s1 s2 a2 \<Longrightarrow> attempt_tells (ds @ es) a s s2 a2"
  by (auto simp: attempt_tells_def)

lemma answer_event_tells:
  assumes "answer_event call stops e a s = (s', a', r)"
  shows "\<exists>ds. prefix ds [e] \<and> attempt_tells ds a s s' a' \<and> (r = None \<longrightarrow> ds = [e])"
proof (cases "(\<exists>c. e = Str_Completed c \<and> \<not> answers_in_format call c)")
  case True
  then show ?thesis using assms by (auto simp: Let_def attempt_tells_def intro!: exI[of _ "[]"])
next
  case False
  then show ?thesis using assms
    by (cases e) (auto simp: Let_def yield_event_def attempt_tells_def split: if_splits intro!: exI[of _ "[e]"])
qed

lemma note_received_keeps:
  "note_received num call e a s = (a', s') \<Longrightarrow> at_retrySafe a' = at_retrySafe a \<and> at_preparing a' = at_preparing a \<and>
    gw_delivered s' = gw_delivered s \<and> gw_effects s' = gw_effects s \<and> gw_world s' = gw_world s \<and>
    gw_completion s' = gw_completion s \<and> gw_reportedUsage s' = gw_reportedUsage s"
  by (auto simp: note_received_def Let_def split: option.splits)

lemma read_event_tells:
  assumes "read_event sv call stops e a s = (s', a', r)"
  shows "\<exists>ds. prefix ds (answers_in [e]) \<and> attempt_tells ds a s s' a' \<and> (r = None \<longrightarrow> ds = answers_in [e])"
proof (cases e)
  case (Ad_Answer x)
  obtain a1 s1 where n: "note_received (gs_num sv) call e a s = (a1, s1)" by (metis prod.exhaust)
  then have "answer_event call stops x a1 s1 = (s', a', r)" using assms Ad_Answer by (simp add: read_event_def)
  from answer_event_tells[OF this] note_received_keeps[OF n] Ad_Answer show ?thesis
    by (fastforce simp: attempt_tells_def)
next
  case (Ad_Usage_Reported u)
  then show ?thesis using assms by (auto simp: read_event_def attempt_tells_def)
next
  case (Ad_Input_Delta d)
  obtain a1 s1 where n: "note_received (gs_num sv) call e a s = (a1, s1)" by (metis prod.exhaust)
  with assms Ad_Input_Delta note_received_keeps[OF n] show ?thesis by (simp add: read_event_def attempt_tells_def)
qed

lemma answers_in_Cons: "answers_in (e # es) = answers_in [e] @ answers_in es"
  by (cases e) simp_all

lemma read_events_tells:
  "read_events sv call stops es a s = (s', a', r) \<Longrightarrow>
    \<exists>ds. prefix ds (answers_in es) \<and> attempt_tells ds a s s' a'"
proof (induction es arbitrary: a s)
  case Nil
  then show ?case using tells_none by force
next
  case (Cons e es)
  obtain s1 a1 r1 where one: "read_event sv call stops e a s = (s1, a1, r1)" by (metis prod_cases3)
  from read_event_tells[OF one] obtain ds where
    ds: "prefix ds (answers_in [e])" "attempt_tells ds a s s1 a1" "r1 = None \<longrightarrow> ds = answers_in [e]" by blast
  show ?case
  proof (cases r1)
    case (Some q)
    then have "s1 = s' \<and> a1 = a'" using Cons.prems one by simp
    then show ?thesis using ds(1,2) unfolding answers_in_Cons[of e es] by (metis prefix_prefix)
  next
    case None
    then have "read_events sv call stops es a1 s1 = (s', a', r)" using Cons.prems one by simp
    from Cons.IH[OF this] obtain es' where "prefix es' (answers_in es)" "attempt_tells es' a1 s1 s' a'" by blast
    then show ?thesis using ds None unfolding answers_in_Cons[of e es] by (metis same_prefix_prefix tells_append)
  qed
qed

definition one_attempt ::
    "'w gateway_services \<Rightarrow> gateway_call \<Rightarrow> model_target \<Rightarrow> bool \<Rightarrow> 'w \<Rightarrow> stream_event list \<Rightarrow> bool" where
  "one_attempt sv call tg streaming w ds \<longleftrightarrow>
     (if streaming then prefix ds (answers_in (fst (snd (gs_stream sv tg call w))))
      else ds = [] \<or> (\<exists>c. snd (gs_complete sv tg call w) = Completion_Settled (Inr c) \<and> ds = [Str_Completed c]))"

lemma one_attempt_none [simp]: "one_attempt sv call tg streaming w []"
  by (simp add: one_attempt_def)

lemma complete_tells:
  assumes "attempt_complete sv call tg stops s = (s1, a, r)"
  shows "\<exists>ds. gw_delivered s1 = gw_delivered s @ ds \<and> gw_effects s1 = gw_effects s \<and>
    (at_retrySafe a \<longrightarrow> \<not> list_ex noticed ds) \<and> at_preparing a = concat (map announced ds) \<and>
    one_attempt sv call tg False (gw_world s) ds \<and> (r = None \<longrightarrow> gw_completion s1 \<noteq> None)"
proof -
  obtain w pc where w: "gs_complete sv tg call (gw_world s) = (w, pc)" by (metis prod.exhaust)
  show ?thesis
  proof (cases "\<exists>c. pc = Completion_Settled (Inr c)")
    case True
    then obtain c where c: "pc = Completion_Settled (Inr c)" by blast
    then show ?thesis using assms w
      by (auto simp: attempt_complete_def Let_def yield_event_def new_attempt_def one_attempt_def split: if_splits)
  next
    case False
    then have "s1 = s\<lparr>gw_world := w\<rparr> \<and> a = new_attempt \<and> r \<noteq> None" using assms w
      by (auto simp: attempt_complete_def split: pending_completion.splits sum.splits)
    then show ?thesis by (auto simp: new_attempt_def)
  qed
qed

lemma stream_tells:
  assumes "attempt_stream sv call tg stops s = (s1, a, r)"
  shows "\<exists>ds. gw_delivered s1 = gw_delivered s @ ds \<and> gw_effects s1 = gw_effects s \<and>
    (at_retrySafe a \<longrightarrow> \<not> list_ex noticed ds) \<and> at_preparing a = concat (map announced ds) \<and>
    one_attempt sv call tg True (gw_world s) ds \<and> (r = None \<longrightarrow> gw_completion s1 \<noteq> None)"
proof -
  obtain w es failure where w: "gs_stream sv tg call (gw_world s) = (w, es, failure)" by (metis prod_cases3)
  obtain s2 a2 r2 where e: "read_events sv call stops es new_attempt (s\<lparr>gw_world := w\<rparr>) = (s2, a2, r2)" by (metis prod_cases3)
  from read_events_tells[OF e] obtain ds where
    ds: "prefix ds (answers_in es)" "attempt_tells ds new_attempt (s\<lparr>gw_world := w\<rparr>) s2 a2" by blast
  have "s1 = s2 \<and> a = a2 \<and> (r = None \<longrightarrow> gw_completion s2 \<noteq> None)"
    using assms w e by (auto simp: attempt_stream_def split: option.splits if_splits)
  then show ?thesis using ds w by (auto simp: attempt_tells_def new_attempt_def one_attempt_def)
qed

lemma attempt_tells_all:
  assumes "attempt sv call tg streaming stops s = (s1, a, r)"
  shows "\<exists>ds. gw_delivered s1 = gw_delivered s @ ds \<and> gw_effects s1 = gw_effects s @ [Eff_Attempt] \<and>
    (at_retrySafe a \<longrightarrow> \<not> list_ex noticed ds) \<and> at_preparing a = concat (map announced ds) \<and>
    one_attempt sv call tg streaming (gw_world s) ds \<and> (r = None \<longrightarrow> gw_completion s1 \<noteq> None)"
  using assms complete_tells[of sv call tg stops "note_gateway Eff_Attempt s" s1 a r]
    stream_tells[of sv call tg stops "note_gateway Eff_Attempt s" s1 a r]
  by (cases streaming) (simp_all add: attempt_def Let_def note_gateway_def)

lemma failure_keeps:
  assumes "after_failure sv call p a t s = (s', d)"
  shows "gw_delivered s' = gw_delivered s \<and> gw_effects s' = gw_effects s \<and> gw_completion s' = gw_completion s \<and>
    gw_received s' = gw_received s"
  using assms by (auto simp: after_failure_def Let_def split: if_splits option.splits)

lemma failure_retries:
  assumes "after_failure sv call p a t s = (s', Inr (waitMs, p'))"
  shows "at_retrySafe a \<and> (\<exists>asked. wait_on_rate_limit (gs_random sv (gw_world s)) asked p = Some (waitMs, p') \<or>
    wait_on_failure (gs_random sv (gw_world s)) asked p = Some (waitMs, p'))"
proof -
  have "waitBeforeRetryMs (gs_aborted sv (gw_world s)) (gs_now sv (gw_world s)) (gc_deadline call)
      (gs_random sv (gw_world s)) (at_retrySafe a) (normalizeModelAdapterError t) p = Inr (waitMs, p')"
    using assms by (auto simp: after_failure_def Let_def split: if_splits)
  then show ?thesis
    by (cases "normalizeModelAdapterError t") (auto simp: Let_def split: if_splits option.splits)
qed

lemma yield_all_left: "yield_all stops es s = (s', Some x) \<Longrightarrow> x = Left_Unread"
  by (induction es arbitrary: s) (auto simp: yield_event_def Let_def split: if_splits)

lemma wait_tells:
  assumes "wait_for_retry sv stops a t waitMs s = (s', r)"
  shows "\<exists>cs. prefix cs (at_preparing a) \<and> gw_delivered s' = gw_delivered s @ map Str_Tool_Call_Preparation_Cancelled cs \<and>
    gw_completion s' = gw_completion s \<and> gw_received s' = gw_received s \<and>
    (if r = Some Left_Unread then gw_effects s' = gw_effects s
     else cs = at_preparing a \<and> gw_effects s' = gw_effects s @ [Eff_Wait waitMs])"
proof -
  obtain s1 q where y: "yield_all stops (map Str_Tool_Call_Preparation_Cancelled (at_preparing a)) s = (s1, q)"
    by (metis prod.exhaust)
  have left: "q = Some x \<Longrightarrow> x = Left_Unread" for x using y yield_all_left by blast
  from yield_all_keeps[OF y] obtain ds where ds: "prefix ds (map Str_Tool_Call_Preparation_Cancelled (at_preparing a))"
    "gw_delivered s1 = gw_delivered s @ ds" "q = None \<longrightarrow> ds = map Str_Tool_Call_Preparation_Cancelled (at_preparing a)"
    by blast
  then obtain cs where cs: "prefix cs (at_preparing a)" "ds = map Str_Tool_Call_Preparation_Cancelled cs"
    by (metis map_append prefix_def map_eq_append_conv)
  show ?thesis
  proof (cases q)
    case (Some x)
    then show ?thesis using assms y yield_all_keeps[OF y] ds cs left by (auto simp: wait_for_retry_def)
  next
    case None
    then have "gw_delivered s1 = gw_delivered s @ map Str_Tool_Call_Preparation_Cancelled (at_preparing a)"
      using ds by simp
    then show ?thesis using assms y None yield_all_keeps[OF y]
      by (auto simp: wait_for_retry_def note_gateway_def split: prod.splits if_splits intro!: exI[of _ "at_preparing a"])
  qed
qed

section \<open>Attempts that are repeated\<close>

lemma cancellations [simp]:
  "\<not> list_ex noticed (map Str_Tool_Call_Preparation_Cancelled cs)"
  "concat (map announced (map Str_Tool_Call_Preparation_Cancelled cs)) = []"
  "concat (map taken_back (map Str_Tool_Call_Preparation_Cancelled cs)) = cs"
  by (induction cs) simp_all

lemma run_tells:
  "attempt_run sv call tg streaming stops p s s' r \<Longrightarrow>
    \<exists>pre ds cs w. gw_delivered s' = gw_delivered s @ pre @ ds @ map Str_Tool_Call_Preparation_Cancelled cs \<and>
      \<not> list_ex noticed pre \<and> set (concat (map announced pre)) \<subseteq> set (concat (map taken_back pre)) \<and>
      one_attempt sv call tg streaming w ds \<and> (cs \<noteq> [] \<longrightarrow> r = Some Left_Unread)"
proof (induction rule: attempt_run.induct)
  case (run_refused p s t)
  show ?case by (intro exI[of _ "[]"]) simp
next
  case (run_answered s s1 a p)
  from attempt_tells_all[OF this] obtain ds where "gw_delivered s1 = gw_delivered s @ ds"
    "one_attempt sv call tg streaming (gw_world s) ds" by blast
  then show ?case by (intro exI[of _ "[]"] exI[of _ ds]) auto
next
  case (run_unread s s1 a p)
  from attempt_tells_all[OF this] obtain ds where "gw_delivered s1 = gw_delivered s @ ds"
    "one_attempt sv call tg streaming (gw_world s) ds" by blast
  then show ?case by (intro exI[of _ "[]"] exI[of _ ds]) auto
next
  case (run_failed s s1 a t p s2 failure)
  from attempt_tells_all[OF run_failed(1)] failure_keeps[OF run_failed(2)] obtain ds where
    "gw_delivered s2 = gw_delivered s @ ds" "one_attempt sv call tg streaming (gw_world s) ds" by metis
  then show ?case by (intro exI[of _ "[]"] exI[of _ ds]) auto
next
  case (run_waiting s s1 a t p s2 waitMs p' s3 r)
  from attempt_tells_all[OF run_waiting(1)] failure_keeps[OF run_waiting(2)] obtain ds where
    ds: "gw_delivered s2 = gw_delivered s @ ds" "one_attempt sv call tg streaming (gw_world s) ds"
      "at_retrySafe a \<longrightarrow> \<not> list_ex noticed ds" "at_preparing a = concat (map announced ds)" by metis
  from wait_tells[OF run_waiting(3)] obtain cs where
    cs: "gw_delivered s3 = gw_delivered s2 @ map Str_Tool_Call_Preparation_Cancelled cs"
      "Some r \<noteq> Some Left_Unread \<longrightarrow> cs = at_preparing a" by (metis (no_types))
  show ?case
  proof (cases "r = Left_Unread")
    case True
    then show ?thesis using ds cs by (intro exI[of _ "[]"] exI[of _ ds] exI[of _ cs]) auto
  next
    case False
    then show ?thesis using ds cs failure_retries[OF run_waiting(2)]
      by (intro exI[of _ "ds @ map Str_Tool_Call_Preparation_Cancelled cs"] exI[of _ "[]"]) (simp add: comp_def)
  qed
next
  case (run_again s s1 a t p s2 waitMs p' s3 s4 r)
  from attempt_tells_all[OF run_again(1)] failure_keeps[OF run_again(2)] obtain ds where
    ds: "gw_delivered s2 = gw_delivered s @ ds"
      "at_retrySafe a \<longrightarrow> \<not> list_ex noticed ds" "at_preparing a = concat (map announced ds)" by metis
  from wait_tells[OF run_again(3)] have cs:
    "gw_delivered s3 = gw_delivered s2 @ map Str_Tool_Call_Preparation_Cancelled (at_preparing a)" by auto
  from run_again.IH obtain pre es cs' w where ih:
    "gw_delivered s4 = gw_delivered s3 @ pre @ es @ map Str_Tool_Call_Preparation_Cancelled cs'"
    "\<not> list_ex noticed pre" "set (concat (map announced pre)) \<subseteq> set (concat (map taken_back pre))"
    "one_attempt sv call tg streaming w es" "cs' \<noteq> [] \<longrightarrow> r = Some Left_Unread" by blast
  let ?pre = "ds @ map Str_Tool_Call_Preparation_Cancelled (at_preparing a) @ pre"
  have "gw_delivered s4 = gw_delivered s @ ?pre @ es @ map Str_Tool_Call_Preparation_Cancelled cs'"
    using ds cs ih by simp
  moreover have "\<not> list_ex noticed ?pre" using ds ih failure_retries[OF run_again(2)] by simp
  moreover have "set (concat (map announced ?pre)) \<subseteq> set (concat (map taken_back ?pre))"
    using ds(3) ih(3) cancellations(2,3)[of "at_preparing a"] by (auto simp del: cancellations)
  ultimately show ?case using ih by blast
qed

section \<open>Bounds\<close>

definition waits_in :: "gateway_effect list \<Rightarrow> nat list" where
  "waits_in es = concat (map (\<lambda>e. case e of Eff_Wait n \<Rightarrow> [n] | _ \<Rightarrow> []) es)"

definition attempts_in :: "gateway_effect list \<Rightarrow> nat" where
  "attempts_in es = length (filter (\<lambda>e. e = Eff_Attempt) es)"

fun on_the_way :: "gateway_effect \<Rightarrow> bool" where
  "on_the_way Eff_Attempt \<longleftrightarrow> True"
| "on_the_way (Eff_Wait n) \<longleftrightarrow> True"
| "on_the_way _ \<longleftrightarrow> False"

text \<open>What may be left of the minute after so many waits on a rate limit.\<close>

definition rate_left :: "nat \<Rightarrow> nat" where
  "rate_left n = [60000, 56800, 50400, 37600, 12000, 0] ! n"

definition policy_ok :: "retry_state \<Rightarrow> bool" where
  "policy_ok p \<longleftrightarrow> rp_transientFailures p \<le> 2 \<and> rp_rateLimitFailures p \<le> 5 \<and>
     rp_rateLimitWaitLeftMs p \<le> rate_left (rp_rateLimitFailures p)"

lemma jitter_low:
  assumes "0 \<le> random"
  shows "4 * n \<le> withRetryJitter random (5 * n)"
proof -
  have "of_int (4 * int n) \<le> of_nat (5 * n) * (1 + (random * 2 - 1) * MODEL_PROVIDER_RETRY_JITTER_RATIO)"
    using mult_left_mono[OF assms, of "of_nat n"] by (simp add: MODEL_PROVIDER_RETRY_JITTER_RATIO_def algebra_simps)
  then have "4 * int n \<le> js_round (of_nat (5 * n) * (1 + (random * 2 - 1) * MODEL_PROVIDER_RETRY_JITTER_RATIO))"
    unfolding js_round_def by linarith
  then show ?thesis unfolding withRetryJitter_def by linarith
qed

lemma rate_wait_low:
  assumes "0 \<le> random"
  shows "3200 * 2 ^ n \<le> rateLimitWaitMs random (Suc n)"
  using jitter_low[OF assms, of "800 * 2 ^ n"] by (simp add: rateLimitWaitMs_def MODEL_PROVIDER_RATE_LIMIT_FIRST_WAIT_MS_def)

lemma rate_step:
  assumes "policy_ok p" and "0 \<le> random" and "wait_on_rate_limit random ra p = Some (waitMs, p')"
  shows "policy_ok p' \<and> rp_rateLimitFailures p' = Suc (rp_rateLimitFailures p) \<and>
    rp_transientFailures p' = rp_transientFailures p \<and> rp_rateLimitWaitLeftMs p' + waitMs = rp_rateLimitWaitLeftMs p"
proof -
  let ?n = "rp_rateLimitFailures p"
  from assms(3) have w: "waitMs \<noteq> 0" "waitMs \<le> rp_rateLimitWaitLeftMs p"
    "waitMs = rp_rateLimitWaitLeftMs p \<or> rateLimitWaitMs random (Suc ?n) \<le> waitMs"
    "p' = p\<lparr>rp_rateLimitFailures := Suc ?n, rp_rateLimitWaitLeftMs := rp_rateLimitWaitLeftMs p - waitMs\<rparr>"
    by (auto simp: wait_on_rate_limit_def Let_def split: if_splits)
  have low: "3200 * 2 ^ ?n \<le> rateLimitWaitMs random (Suc ?n)" by (rule rate_wait_low[OF assms(2)])
  have n: "?n \<in> {0, 1, 2, 3, 4, 5}" using assms(1) unfolding policy_ok_def by auto
  have left: "rp_rateLimitWaitLeftMs p \<le> rate_left ?n" using assms(1) by (simp add: policy_ok_def)
  have "rp_rateLimitWaitLeftMs p - waitMs \<le> rate_left (Suc ?n) \<and> Suc ?n \<le> 5"
    using n left low w(1-3) by (auto simp: rate_left_def numeral_2_eq_2[symmetric])
  then show ?thesis using w assms(1) by (simp add: policy_ok_def)
qed

lemma failure_step:
  assumes "policy_ok p" and "wait_on_failure random ra p = Some (waitMs, p')"
  shows "policy_ok p' \<and> rp_transientFailures p' = Suc (rp_transientFailures p) \<and>
    rp_rateLimitFailures p' = rp_rateLimitFailures p \<and> rp_rateLimitWaitLeftMs p' = rp_rateLimitWaitLeftMs p \<and> waitMs \<le> 60000"
  using assms by (auto simp: wait_on_failure_def Let_def policy_ok_def MODEL_PROVIDER_RETRY_WAITS_MS_def
      MODEL_PROVIDER_RETRY_AFTER_MAX_MS_def split: if_splits)

text \<open>What a policy still lets happen: retries, and milliseconds of waiting.\<close>

definition retries_allowed :: "retry_state \<Rightarrow> nat" where
  "retries_allowed p = (2 - rp_transientFailures p) + (5 - rp_rateLimitFailures p)"

definition wait_allowed :: "retry_state \<Rightarrow> nat" where
  "wait_allowed p = rp_rateLimitWaitLeftMs p + 60000 * (2 - rp_transientFailures p)"

lemma retry_step:
  assumes "policy_ok p" and "0 \<le> gs_random sv (gw_world s)" and "after_failure sv call p a t s = (s', Inr (waitMs, p'))"
  shows "policy_ok p' \<and> Suc (retries_allowed p') \<le> retries_allowed p \<and> wait_allowed p' + waitMs \<le> wait_allowed p"
proof -
  from failure_retries[OF assms(3)] obtain asked where
    "wait_on_rate_limit (gs_random sv (gw_world s)) asked p = Some (waitMs, p') \<or>
     wait_on_failure (gs_random sv (gw_world s)) asked p = Some (waitMs, p')" by blast
  then show ?thesis
  proof
    assume "wait_on_rate_limit (gs_random sv (gw_world s)) asked p = Some (waitMs, p')"
    from rate_step[OF assms(1,2) this] show ?thesis
      by (auto simp: retries_allowed_def wait_allowed_def policy_ok_def)
  next
    assume "wait_on_failure (gs_random sv (gw_world s)) asked p = Some (waitMs, p')"
    from failure_step[OF assms(1) this] show ?thesis
      by (auto simp: retries_allowed_def wait_allowed_def policy_ok_def)
  qed
qed

lemma effect_counts [simp]:
  "waits_in [] = []" "waits_in (es @ fs) = waits_in es @ waits_in fs" "waits_in (Eff_Attempt # es) = waits_in es"
  "waits_in (Eff_Wait n # es) = n # waits_in es" "waits_in (Eff_Admitted ad # es) = waits_in es"
  "waits_in (Eff_Settled ad u # es) = waits_in es"
  "attempts_in [] = 0" "attempts_in (e # es) = of_bool (e = Eff_Attempt) + attempts_in es"
  "attempts_in (es @ fs) = attempts_in es + attempts_in fs"
  by (simp_all add: waits_in_def attempts_in_def)

lemma run_bounded:
  assumes "\<And>w. 0 \<le> gs_random sv w"
  shows "attempt_run sv call tg streaming stops p s s' r \<Longrightarrow> policy_ok p \<Longrightarrow>
    \<exists>es. gw_effects s' = gw_effects s @ es \<and> list_all on_the_way es \<and>
      attempts_in es \<le> retries_allowed p + 1 \<and> sum_list (waits_in es) \<le> wait_allowed p"
proof (induction rule: attempt_run.induct)
  case (run_refused p s t)
  show ?case by (intro exI[of _ "[]"]) simp
next
  case (run_answered s s1 a p)
  from attempt_tells_all[OF run_answered(1)] show ?case by (auto intro!: exI[of _ "[Eff_Attempt]"])
next
  case (run_unread s s1 a p)
  from attempt_tells_all[OF run_unread(1)] show ?case by (auto intro!: exI[of _ "[Eff_Attempt]"])
next
  case (run_failed s s1 a t p s2 failure)
  from attempt_tells_all[OF run_failed(1)] failure_keeps[OF run_failed(2)] show ?case
    by (auto intro!: exI[of _ "[Eff_Attempt]"])
next
  case (run_waiting s s1 a t p s2 waitMs p' s3 r)
  have "gw_effects s2 = gw_effects s @ [Eff_Attempt]"
    using attempt_tells_all[OF run_waiting(1)] failure_keeps[OF run_waiting(2)] by auto
  moreover have "gw_effects s3 = gw_effects s2 \<or> gw_effects s3 = gw_effects s2 @ [Eff_Wait waitMs]"
    using wait_tells[OF run_waiting(3)] by (auto split: if_splits)
  moreover have "waitMs \<le> wait_allowed p" using retry_step[OF run_waiting(4) assms run_waiting(2)] by simp
  ultimately show ?case
    by (elim disjE) (auto intro!: exI[of _ "[Eff_Attempt]"] exI[of _ "[Eff_Attempt, Eff_Wait waitMs]"])
next
  case (run_again s s1 a t p s2 waitMs p' s3 s4 r)
  have "gw_effects s3 = gw_effects s @ [Eff_Attempt, Eff_Wait waitMs]"
    using attempt_tells_all[OF run_again(1)] failure_keeps[OF run_again(2)] wait_tells[OF run_again(3)] by auto
  moreover have step: "policy_ok p'" "Suc (retries_allowed p') \<le> retries_allowed p" "wait_allowed p' + waitMs \<le> wait_allowed p"
    using retry_step[OF run_again.prems assms run_again(2)] by simp_all
  moreover obtain es where "gw_effects s4 = gw_effects s3 @ es" "list_all on_the_way es"
      "attempts_in es \<le> retries_allowed p' + 1" "sum_list (waits_in es) \<le> wait_allowed p'"
    using run_again.IH[OF step(1)] by blast
  ultimately show ?case by (intro exI[of _ "Eff_Attempt # Eff_Wait waitMs # es"]) simp
qed

lemma run_on_the_way:
  "attempt_run sv call tg streaming stops p s s' r \<Longrightarrow> \<exists>es. gw_effects s' = gw_effects s @ es \<and> list_all on_the_way es"
proof (induction rule: attempt_run.induct)
  case (run_failed s s1 a t p s2 failure)
  from attempt_tells_all[OF run_failed(1)] failure_keeps[OF run_failed(2)] show ?case
    by (auto intro!: exI[of _ "[Eff_Attempt]"])
next
  case (run_waiting s s1 a t p s2 waitMs p' s3 r)
  have "gw_effects s2 = gw_effects s @ [Eff_Attempt]"
    using attempt_tells_all[OF run_waiting(1)] failure_keeps[OF run_waiting(2)] by auto
  moreover have "gw_effects s3 = gw_effects s2 \<or> gw_effects s3 = gw_effects s2 @ [Eff_Wait waitMs]"
    using wait_tells[OF run_waiting(3)] by (auto split: if_splits)
  ultimately show ?case
    by (elim disjE) (auto intro!: exI[of _ "[Eff_Attempt]"] exI[of _ "[Eff_Attempt, Eff_Wait waitMs]"])
next
  case (run_again s s1 a t p s2 waitMs p' s3 s4 r)
  have "gw_effects s3 = gw_effects s @ [Eff_Attempt, Eff_Wait waitMs]"
    using attempt_tells_all[OF run_again(1)] failure_keeps[OF run_again(2)] wait_tells[OF run_again(3)] by auto
  with run_again.IH show ?case by auto
qed (use attempt_tells_all in \<open>fastforce+\<close>)

section \<open>Sizes\<close>

fun said :: "stream_event \<Rightarrow> bool" where
  "said (Str_Text_Delta d) \<longleftrightarrow> d \<noteq> []"
| "said (Str_Reasoning_Delta i d) \<longleftrightarrow> d \<noteq> []"
| "said _ \<longleftrightarrow> False"

definition sized :: "'w gateway_state \<Rightarrow> bool" where
  "sized s \<longleftrightarrow> (list_ex said (gw_delivered s) \<longrightarrow> 0 < cz_outputCharacters (gw_received s))"

lemma estimated_positive: "d \<noteq> [] \<Longrightarrow> 0 < estimatedCharacters d"
  by (simp add: estimatedCharacters_def)

lemma sized_event:
  assumes "read_event sv call stops e a s = (s', a', r)" and "sized s"
  shows "sized s'"
proof (cases e)
  case (Ad_Answer x)
  then show ?thesis using assms estimated_positive
    by (cases x) (auto simp: read_event_def note_received_def Let_def yield_event_def sized_def split: if_splits)
next
  case (Ad_Usage_Reported u)
  then show ?thesis using assms by (auto simp: read_event_def sized_def)
next
  case (Ad_Input_Delta d)
  then show ?thesis using assms by (auto simp: read_event_def note_received_def Let_def sized_def split: if_splits)
qed

lemma sized_events: "read_events sv call stops es a s = (s', a', r) \<Longrightarrow> sized s \<Longrightarrow> sized s'"
proof (induction es arbitrary: a s)
  case (Cons e es)
  obtain s1 a1 r1 where one: "read_event sv call stops e a s = (s1, a1, r1)" by (metis prod_cases3)
  from sized_event[OF one] Cons show ?case using one by (cases r1) auto
qed simp

lemma sized_attempt:
  assumes "attempt sv call tg streaming stops s = (s1, a, r)" and "sized s"
  shows "sized s1"
proof (cases streaming)
  case True
  obtain w es failure where w: "gs_stream sv tg call (gw_world s) = (w, es, failure)" by (metis prod_cases3)
  define s0 where "s0 = (note_gateway Eff_Attempt s)\<lparr>gw_world := w\<rparr>"
  obtain s2 a2 r2 where e: "read_events sv call stops es new_attempt s0 = (s2, a2, r2)" by (metis prod_cases3)
  have "s1 = s2" using assms(1) w e True
    by (auto simp: attempt_def attempt_stream_def note_gateway_def s0_def split: option.splits)
  moreover have "sized s0" using assms(2) by (simp add: s0_def note_gateway_def sized_def)
  ultimately show ?thesis using sized_events[OF e] by simp
next
  case False
  then show ?thesis using assms
    by (auto simp: attempt_def attempt_complete_def note_gateway_def sized_def Let_def yield_event_def
        split: prod.splits pending_completion.splits sum.splits if_splits)
qed

lemma not_said_back [simp]: "\<not> list_ex said (map Str_Tool_Call_Preparation_Cancelled cs)"
  by (induction cs) simp_all

lemma sized_run: "attempt_run sv call tg streaming stops p s s' r \<Longrightarrow> sized s \<Longrightarrow> sized s'"
proof (induction rule: attempt_run.induct)
  case (run_failed s s1 a t p s2 failure)
  from sized_attempt[OF run_failed(1,3)] show ?case using failure_keeps[OF run_failed(2)] by (simp add: sized_def)
next
  case (run_waiting s s1 a t p s2 waitMs p' s3 r)
  from sized_attempt[OF run_waiting(1,4)] have "sized s2" using failure_keeps[OF run_waiting(2)] by (simp add: sized_def)
  then show ?case using wait_tells[OF run_waiting(3)] by (auto simp: sized_def)
next
  case (run_again s s1 a t p s2 waitMs p' s3 s4 r)
  from sized_attempt[OF run_again(1) run_again.prems] have "sized s2" using failure_keeps[OF run_again(2)] by (simp add: sized_def)
  then have "sized s3" using wait_tells[OF run_again(3)] by (auto simp: sized_def)
  then show ?case by (rule run_again.IH)
qed (auto intro: sized_attempt)

lemma run_completed: "attempt_run sv call tg streaming stops p s s' r \<Longrightarrow> r = None \<Longrightarrow> gw_completion s' \<noteq> None"
proof (induction rule: attempt_run.induct)
  case (run_answered s s1 a p)
  from attempt_tells_all[OF run_answered(1)] show ?case by auto
qed simp_all

section \<open>A whole call\<close>

lemma run_call_cases:
  assumes "run_call sv call streaming stops w = (s, r)"
  obtains (refused) w1 t where "s = new_gateway_state w1" "r = Some (Call_Threw t)"
  | (sent) tg ad w1 s1 r1 where "checked_target sv call streaming w = Inr tg"
      "gs_admit sv (admission_of call tg) (request_size_of (gs_num sv) call) w = (w1, Inr ad)"
      "attempt_run sv call tg streaming stops createModelRetryPolicy
        (note_gateway (Eff_Admitted ad) (new_gateway_state w1)) s1 r1"
      "settle_call sv ad (s1, r1) = (s, r)"
proof (cases "checked_target sv call streaming w")
  case (Inl t)
  then show ?thesis using assms refused by (auto simp: run_call_def)
next
  case (Inr tg)
  obtain w1 d where d: "gs_admit sv (admission_of call tg) (request_size_of (gs_num sv) call) w = (w1, d)"
    by (metis prod.exhaust)
  show ?thesis
  proof (cases d)
    case (Inl t)
    then show ?thesis using assms refused Inr d by (auto simp: run_call_def)
  next
    case ad: (Inr ad)
    obtain s1 r1 where at: "attempts sv call tg streaming stops createModelRetryPolicy
        (note_gateway (Eff_Admitted ad) (new_gateway_state w1)) = (s1, r1)" by (metis prod.exhaust)
    then have "settle_call sv ad (s1, r1) = (s, r)" using assms Inr d ad by (simp add: run_call_def)
    then show ?thesis using sent[OF Inr, of w1 ad s1 r1] d ad attempts_run[OF at] by simp
  qed
qed

lemma settle_keeps:
  assumes "settle_call sv ad (s1, r1) = (s, r)"
  shows "gw_delivered s = gw_delivered s1 \<and> gw_effects s = gw_effects s1 @ [Eff_Settled ad (settled_usage s1)] \<and>
    gw_completion s = gw_completion s1 \<and> gw_received s = gw_received s1 \<and> settled_usage s = settled_usage s1 \<and>
    (r = None \<longrightarrow> r1 = None) \<and> (r1 = Some Left_Unread \<longleftrightarrow> r = Some Left_Unread)"
  using assms by (auto simp: settle_call_def note_gateway_def settled_usage_def split: prod.splits option.splits sum.splits)

lemma policy_start: "policy_ok createModelRetryPolicy" "retries_allowed createModelRetryPolicy = 7"
  "wait_allowed createModelRetryPolicy = 180000"
  by (simp_all add: createModelRetryPolicy_def policy_ok_def rate_left_def retries_allowed_def wait_allowed_def
      MODEL_PROVIDER_RATE_LIMIT_WAIT_TOTAL_MS_def)

lemma estimates_in_bounds:
  assumes "estimateInterruptedCallUsage z = x"
  shows "\<exists>i n. mu_input x = whole i \<and> mu_output x = whole n \<and> mu_total x = whole (i + n) \<and>
    0 \<le> i \<and> i \<le> 10000000 \<and> 1 \<le> n \<and> n \<le> 10000000"
  unfolding assms[symmetric] estimateInterruptedCallUsage_def Let_def
  by (intro exI[of _ "int (estimated_tokens (cz_inputCharacters z))"]
      exI[of _ "int (max 1 (estimated_tokens (cz_outputCharacters z)))"])
    (simp add: estimated_tokens_def MAX_ESTIMATED_TOKENS_PER_CALL_def)

section \<open>The promises\<close>

text \<open>
  The attempts of a call are bounded: whatever the adapters answer, and however long
  the providers ask to wait, a call is sent at most eight times and its waits take at most three minutes
  together.
\<close>

lemma attempts_are_bounded:
  assumes "\<And>w. 0 \<le> gs_random sv w"
  shows "attempts_in (gw_effects (fst (run_call sv call streaming stops w))) \<le> 8 \<and>
    sum_list (waits_in (gw_effects (fst (run_call sv call streaming stops w)))) \<le> 180000"
proof -
  obtain s r where call: "run_call sv call streaming stops w = (s, r)" by (metis prod.exhaust)
  then show ?thesis
  proof (cases rule: run_call_cases)
    case (refused w1 t)
    then show ?thesis using call by (simp add: new_gateway_state_def)
  next
    case (sent tg ad w1 s1 r1)
    from run_bounded[OF assms sent(3) policy_start(1)] obtain es where
      "gw_effects s1 = gw_effects (note_gateway (Eff_Admitted ad) (new_gateway_state w1)) @ es"
      "attempts_in es \<le> retries_allowed createModelRetryPolicy + 1"
      "sum_list (waits_in es) \<le> wait_allowed createModelRetryPolicy" by blast
    then show ?thesis
      using call settle_keeps[OF sent(4)] by (simp add: policy_start note_gateway_def new_gateway_state_def)
  qed
qed

text \<open>
  An attempt that is repeated leaves nothing with the caller: what the caller is given are announcements
  of calls and empty pieces from the attempts that were repeated, each announcement taken back, and then the
  events of one attempt alone, as far as its adapter gave them. Only a caller that stops reading may miss that
  an announcement is taken back.
\<close>

lemma retries_are_invisible:
  assumes "run_call sv call streaming stops w = (s, r)"
  shows "\<exists>pre ds cs tg v. gw_delivered s = pre @ ds @ map Str_Tool_Call_Preparation_Cancelled cs \<and>
    \<not> list_ex noticed pre \<and> set (concat (map announced pre)) \<subseteq> set (concat (map taken_back pre)) \<and>
    one_attempt sv call tg streaming v ds \<and> (cs \<noteq> [] \<longrightarrow> r = Some Left_Unread)"
  using assms
proof (cases rule: run_call_cases)
  case (refused w1 t)
  then show ?thesis by (intro exI[of _ "[]"]) (auto simp: new_gateway_state_def intro!: exI[of _ "[]"])
next
  case (sent tg ad w1 s1 r1)
  let ?s0 = "note_gateway (Eff_Admitted ad) (new_gateway_state w1)"
  have "gw_delivered ?s0 = []" by (simp add: note_gateway_def new_gateway_state_def)
  moreover from run_tells[OF sent(3)] obtain pre ds cs v where
    "gw_delivered s1 = gw_delivered ?s0 @ pre @ ds @ map Str_Tool_Call_Preparation_Cancelled cs"
    "\<not> list_ex noticed pre" "set (concat (map announced pre)) \<subseteq> set (concat (map taken_back pre))"
    "one_attempt sv call tg streaming v ds" "cs \<noteq> [] \<longrightarrow> r1 = Some Left_Unread" by blast
  ultimately show ?thesis using settle_keeps[OF sent(4)]
    by (intro exI[of _ pre] exI[of _ ds] exI[of _ cs] exI[of _ tg] exI[of _ v]) simp
qed

text \<open>
  Every admitted call is settled once, and no answer goes unrecorded. A call that is refused before or at
  its admission gives nothing and records nothing. Every other call is admitted first and settled last, once,
  with the usage its completion or the provider reported, or with an estimate between one and ten million
  tokens where an answer had begun; text or reasoning the caller was given is never settled with nothing. A
  call succeeds only with a completion and after its settlement succeeded.
\<close>

lemma calls_are_settled_once:
  assumes "run_call sv call streaming stops w = (s, r)"
  shows "(gw_effects s = [] \<and> gw_delivered s = [] \<and> r \<noteq> None) \<or>
    (\<exists>ad es u. gw_effects s = Eff_Admitted ad # es @ [Eff_Settled ad u] \<and>
      (\<forall>e \<in> set es. e = Eff_Attempt \<or> (\<exists>n. e = Eff_Wait n)) \<and> u = settled_usage s \<and>
      (list_ex said (gw_delivered s) \<longrightarrow> u \<noteq> None) \<and>
      (\<forall>x. u = Some x \<and> mu_source x = Estimated \<and> gw_completion s = None \<and> gw_reportedUsage s = None \<longrightarrow>
        (\<exists>i n. mu_input x = whole i \<and> mu_output x = whole n \<and> mu_total x = whole (i + n) \<and>
          0 \<le> i \<and> i \<le> 10000000 \<and> 1 \<le> n \<and> n \<le> 10000000)) \<and>
      (r = None \<longrightarrow> (\<exists>c v. gw_completion s = Some c \<and> u = Some (cp_usage c) \<and> snd (gs_settle sv ad u v) = Inr ())))"
  using assms
proof (cases rule: run_call_cases)
  case (refused w1 t)
  then show ?thesis by (simp add: new_gateway_state_def)
next
  case (sent tg ad w1 s1 r1)
  note kept = settle_keeps[OF sent(4)]
  let ?s0 = "note_gateway (Eff_Admitted ad) (new_gateway_state w1)"
  from run_on_the_way[OF sent(3)] obtain es where es: "gw_effects s1 = gw_effects ?s0 @ es" "list_all on_the_way es" by blast
  have "gw_effects s = Eff_Admitted ad # es @ [Eff_Settled ad (settled_usage s)]"
    using kept es(1) by (simp add: note_gateway_def new_gateway_state_def)
  moreover have "\<forall>e \<in> set es. e = Eff_Attempt \<or> (\<exists>n. e = Eff_Wait n)"
    using es(2) by (auto simp: list_all_iff elim: on_the_way.elims)
  moreover have "sized s1" by (rule sized_run[OF sent(3)]) (simp add: sized_def note_gateway_def new_gateway_state_def)
  then have "list_ex said (gw_delivered s) \<longrightarrow> settled_usage s \<noteq> None"
    using kept by (auto simp: sized_def settled_usage_def split: option.split)
  moreover have "\<exists>c v. gw_completion s = Some c \<and> settled_usage s = Some (cp_usage c) \<and> snd (gs_settle sv ad (settled_usage s) v) = Inr ()"
    if "r = None"
  proof -
    have "r1 = None" using kept that by blast
    with run_completed[OF sent(3)] kept obtain c where c: "gw_completion s = Some c" by auto
    have "snd (gs_settle sv ad (settled_usage s1) (gw_world s1)) = Inr ()"
      using sent(4) \<open>r1 = None\<close> that by (auto simp: settle_call_def split: prod.splits sum.splits)
    then show ?thesis using c kept by (auto simp: settled_usage_def)
  qed
  moreover have "\<exists>i n. mu_input x = whole i \<and> mu_output x = whole n \<and> mu_total x = whole (i + n) \<and>
      0 \<le> i \<and> i \<le> 10000000 \<and> 1 \<le> n \<and> n \<le> 10000000"
    if "settled_usage s = Some x" "gw_completion s = None" "gw_reportedUsage s = None" for x
    using that estimates_in_bounds by (auto simp: settled_usage_def split: if_splits)
  ultimately show ?thesis by blast
qed

section \<open>A call in the small\<close>

text \<open>The world counts the attempts: the first one announces a call and breaks off, the second one answers.\<close>

definition small_completion :: model_completion where
  "small_completion = \<lparr> cp_text = ''hi'', cp_toolCalls = [], cp_continuation = None, cp_compacted = False,
     cp_usage = NOTHING_REPORTED, cp_sources = None, cp_citations = None \<rparr>"

definition small_admitted :: admitted_call where
  "small_admitted = \<lparr> ad_id = ''e'', ad_instance = ''ci'', ad_provider = ''p'', ad_model = ''m'', ad_fastMode = False,
     ad_reserved = \<lparr> counted_tokens = 1, counted_cost = 0 \<rparr> \<rparr>"

definition small_capabilities :: model_capabilities where
  "small_capabilities = \<lparr> ca_reasoningEfforts = [], ca_nativeTools = [], ca_toolCalls = True, ca_continuation = False,
     ca_fastTier = False, ca_structuredOutput = False, ca_streaming = True, ca_documentInput = False \<rparr>"

definition small_stream :: "nat \<Rightarrow> adapter_event list \<times> call_thrown option" where
  "small_stream n =
     (if n = 0 then ([Ad_Answer (Str_Tool_Call_Preparing ''c'' ''t'')], Some connection_failed)
      else ([Ad_Answer (Str_Text_Delta ''hi''), Ad_Answer (Str_Completed small_completion)], None))"

definition small_services :: "nat gateway_services" where
  "small_services = \<lparr>
     gs_providers = [\<lparr> mp_id = ''p'', mp_model = ''m'', mp_region = None \<rparr>], gs_bindings = [], gs_adapters = [''p''],
     gs_capabilities = (\<lambda>a m. small_capabilities),
     gs_complete = (\<lambda>tg c n. (n, Completion_Settled (Inr small_completion))),
     gs_stream = (\<lambda>tg c n. (Suc n, small_stream n)),
     gs_admit = (\<lambda>c z n. (n, Inr small_admitted)),
     gs_settle = (\<lambda>ad u n. (n, Inr ())),
     gs_aborted = (\<lambda>n. False), gs_abortReason = (\<lambda>n. Reason_Other), gs_timedOut = (\<lambda>n. False),
     gs_now = (\<lambda>n. 0), gs_random = (\<lambda>n. 1 / 2), gs_sleep = (\<lambda>ms n. (n, False)), gs_num = (\<lambda>x. ''0'') \<rparr>"

definition small_call :: gateway_call where
  "small_call = \<lparr> gc_binding = By_Provider ''p'' None, gc_messages = [Msg_User (Plain_Content ''q'')], gc_tools = [],
     gc_jsonSchema = None, gc_reasoningEffort = None, gc_fastTier = None, gc_continuation = None,
     gc_attribution = System_Attribution ''title'' None None None None, gc_instance = ''ci'', gc_correlation = ''x'',
     gc_deadline = None \<rparr>"

lemma small_fields [simp]:
  "gs_stream small_services tg c n = (Suc n, small_stream n)" "gs_admit small_services a z n = (n, Inr small_admitted)"
  "gs_settle small_services ad u n = (n, Inr ())" "\<not> gs_aborted small_services n" "\<not> gs_timedOut small_services n"
  "gs_now small_services n = 0" "gs_random small_services n = 1 / 2" "gs_sleep small_services ms n = (n, False)"
  "gc_deadline small_call = None" "gc_jsonSchema small_call = None"
  by (simp_all add: small_services_def small_call_def)

lemma small_target: "\<exists>tg. checked_target small_services small_call True n = Inr tg"
  by (simp add: checked_target_def small_call_def small_services_def find_target_def assertWithinCapabilities_def
      missing_capabilities_def small_capabilities_def carriesDocument_def assertAttemptMayStart_def Let_def)

lemma small_steps:
  "assertAttemptMayStart False 0 None = Inr ()" "answers_in_format small_call small_completion"
  "normalizeModelAdapterError connection_failed = connection_failed" "reported_with connection_failed = None"
  "waitBeforeRetryMs False 0 None (1 / 2) True connection_failed createModelRetryPolicy =
      Inr (1000, createModelRetryPolicy\<lparr>rp_transientFailures := Suc 0\<rparr>)"
proof -
  have half: "\<lfloor>1 / 2 :: rat\<rfloor> = 0" by linarith
  show "waitBeforeRetryMs False 0 None (1 / 2) True connection_failed createModelRetryPolicy =
      Inr (1000, createModelRetryPolicy\<lparr>rp_transientFailures := Suc 0\<rparr>)"
    by (simp add: connection_failed_def new_provider_error_def retryable_kind_def wait_on_failure_def
        createModelRetryPolicy_def MODEL_PROVIDER_RETRY_WAITS_MS_def MODEL_PROVIDER_RETRY_AFTER_MAX_MS_def retryWaitMs_def
        withRetryJitter_def js_round_def half Let_def)
qed (simp_all add: assertAttemptMayStart_def answers_in_format_def connection_failed_def new_provider_error_def)

lemma small_run:
  "gw_delivered (fst (run_call small_services small_call True (\<lambda>_. False) 0)) =
    [Str_Tool_Call_Preparing ''c'' ''t'', Str_Tool_Call_Preparation_Cancelled ''c'', Str_Text_Delta ''hi'',
     Str_Completed small_completion] \<and>
   attempts_in (gw_effects (fst (run_call small_services small_call True (\<lambda>_. False) 0))) = 2 \<and>
   snd (run_call small_services small_call True (\<lambda>_. False) 0) = None"
proof -
  obtain tg where tg: "checked_target small_services small_call True 0 = Inr tg" using small_target by blast
  show ?thesis
    by (simp add: run_call_def tg attempts.simps[of small_services small_call tg True "\<lambda>_. False" createModelRetryPolicy]
        attempts.simps[of small_services small_call tg True "\<lambda>_. False"
          "createModelRetryPolicy\<lparr>rp_transientFailures := Suc 0\<rparr>"] small_steps attempt_def attempt_stream_def small_stream_def
        note_gateway_def new_gateway_state_def read_event_def note_received_def yield_event_def new_attempt_def
        after_failure_def wait_for_retry_def settle_call_def expired_def Let_def)
qed

lemma attempts_are_bounded_witness:
  "attempts_in (gw_effects (fst (run_call small_services small_call True (\<lambda>_. False) 0))) \<le> 8 \<and>
    sum_list (waits_in (gw_effects (fst (run_call small_services small_call True (\<lambda>_. False) 0)))) \<le> 180000"
  by (rule attempts_are_bounded) simp

lemma retries_are_invisible_witness:
  "\<exists>pre ds cs tg v. gw_delivered (fst (run_call small_services small_call True (\<lambda>_. False) 0)) =
      pre @ ds @ map Str_Tool_Call_Preparation_Cancelled cs \<and>
    \<not> list_ex noticed pre \<and> set (concat (map announced pre)) \<subseteq> set (concat (map taken_back pre)) \<and>
    one_attempt small_services small_call tg True v ds \<and> cs = []"
proof -
  have "run_call small_services small_call True (\<lambda>_. False) 0 =
      (fst (run_call small_services small_call True (\<lambda>_. False) 0), None)"
    using small_run by (metis prod.collapse)
  from retries_are_invisible[OF this] show ?thesis by blast
qed

lemma calls_are_settled_once_witness:
  "\<exists>ad es u. gw_effects (fst (run_call small_services small_call True (\<lambda>_. False) 0)) =
      Eff_Admitted ad # es @ [Eff_Settled ad u] \<and> u \<noteq> None"
proof -
  have "run_call small_services small_call True (\<lambda>_. False) 0 =
      (fst (run_call small_services small_call True (\<lambda>_. False) 0), None)"
    using small_run by (metis prod.collapse)
  from calls_are_settled_once[OF this] show ?thesis using small_run by auto
qed

end
