(* ===== verification/Model_Gateway_Ledger.thy ===== *)
theory Model_Gateway_Ledger imports Model_Gateway_Facts Usage_Promises begin

text \<open>
  The gateway and the governance of usage together: what the gateway relies on is an interface of two
  operations, admitting and settling, and the ledger of usage events keeps it, whatever other processes do to
  the ledger meanwhile. So every admitted call has one usage event, and it is settled when the call ends
  (\<open>calls_end_on_the_ledger\<close>).
\<close>

section \<open>What the gateway relies on\<close>

locale call_governance =
  fixes sv :: "'w gateway_services"
    and ok :: "'w \<Rightarrow> bool"
    and opened :: "admitted_call \<Rightarrow> 'w \<Rightarrow> bool"
    and closed :: "admitted_call \<Rightarrow> model_call_usage option \<Rightarrow> 'w \<Rightarrow> bool"
  assumes admit_opens: "ok w \<Longrightarrow> gs_admit sv c z w = (w', Inr ad) \<Longrightarrow> opened ad w'"
    and complete_keeps: "opened ad w \<Longrightarrow> opened ad (fst (gs_complete sv tg call w))"
    and stream_keeps: "opened ad w \<Longrightarrow> opened ad (fst (gs_stream sv tg call w))"
    and sleep_keeps: "opened ad w \<Longrightarrow> opened ad (fst (gs_sleep sv n w))"
    and settle_closes: "opened ad w \<Longrightarrow> closed ad u (fst (gs_settle sv ad u w))"
begin

lemma attempt_keeps_open:
  assumes "attempt sv call tg streaming stops s = (s1, a, r)" and "opened ad (gw_world s)"
  shows "opened ad (gw_world s1)"
proof (cases streaming)
  case True
  obtain w es failure where w: "gs_stream sv tg call (gw_world s) = (w, es, failure)" by (metis prod_cases3)
  obtain s2 a2 r2 where e: "read_events sv call stops es new_attempt ((note_gateway Eff_Attempt s)\<lparr>gw_world := w\<rparr>) = (s2, a2, r2)"
    by (metis prod_cases3)
  from read_events_tells[OF e] have "gw_world s2 = w" by (auto simp: attempt_tells_def)
  moreover have "s1 = s2" using assms(1) w e True
    by (auto simp: attempt_def attempt_stream_def note_gateway_def split: option.splits)
  ultimately show ?thesis using stream_keeps[OF assms(2), of tg call] w by simp
next
  case False
  have "gw_world s1 = fst (gs_complete sv tg call (gw_world s))" using assms(1) False
    by (auto simp: attempt_def attempt_complete_def note_gateway_def Let_def yield_event_def
        split: prod.splits pending_completion.splits sum.splits if_splits)
  then show ?thesis using complete_keeps[OF assms(2)] by simp
qed

lemma failure_keeps_open: "after_failure sv call p a t s = (s', d) \<Longrightarrow> gw_world s' = gw_world s"
  by (auto simp: after_failure_def Let_def split: if_splits option.splits)

lemma wait_keeps_open:
  assumes "wait_for_retry sv stops a t waitMs s = (s', r)" and "opened ad (gw_world s)"
  shows "opened ad (gw_world s')"
proof -
  obtain s1 q where y: "yield_all stops (map Str_Tool_Call_Preparation_Cancelled (at_preparing a)) s = (s1, q)"
    by (metis prod.exhaust)
  have "gw_world s1 = gw_world s" using yield_all_keeps[OF y] by blast
  then show ?thesis using assms y sleep_keeps[OF assms(2), of waitMs]
    by (auto simp: wait_for_retry_def note_gateway_def split: option.splits prod.splits)
qed

lemma run_keeps_open:
  "attempt_run sv call tg streaming stops p s s' r \<Longrightarrow> opened ad (gw_world s) \<Longrightarrow> opened ad (gw_world s')"
proof (induction rule: attempt_run.induct)
  case (run_failed s s1 a t p s2 failure)
  from attempt_keeps_open[OF run_failed(1,3)] failure_keeps_open[OF run_failed(2)] show ?case by simp
next
  case (run_waiting s s1 a t p s2 waitMs p' s3 r)
  from attempt_keeps_open[OF run_waiting(1,4)] failure_keeps_open[OF run_waiting(2)] show ?case
    using wait_keeps_open[OF run_waiting(3)] by simp
next
  case (run_again s s1 a t p s2 waitMs p' s3 s4 r)
  from attempt_keeps_open[OF run_again(1) run_again.prems] failure_keeps_open[OF run_again(2)]
  have "opened ad (gw_world s3)" using wait_keeps_open[OF run_again(3)] by simp
  then show ?case by (rule run_again.IH)
qed (auto intro: attempt_keeps_open)

lemma admitted_is_closed:
  assumes "run_call sv call streaming stops w = (s, r)" and "ok w"
  shows "gw_effects s = [] \<or>
    (\<exists>c z ad w1. gs_admit sv c z w = (w1, Inr ad) \<and> closed ad (settled_usage s) (gw_world s))"
  using assms(1)
proof (cases rule: run_call_cases)
  case (refused w1 t)
  then show ?thesis by (simp add: new_gateway_state_def)
next
  case (sent tg ad w1 s1 r1)
  have "opened ad (gw_world s1)"
    by (rule run_keeps_open[OF sent(3)]) (simp add: note_gateway_def new_gateway_state_def admit_opens[OF assms(2) sent(2)])
  from settle_closes[OF this] have "closed ad (settled_usage s1) (gw_world s)"
    using sent(4) by (auto simp: settle_call_def note_gateway_def split: prod.splits)
       (metis fst_conv)
  then show ?thesis using sent(2) settle_keeps[OF sent(4)] by auto
qed

end

section \<open>The ledger behind the gateway\<close>

text \<open>
  What other processes do to the ledger while a call goes on: they admit and settle calls of their own, and the
  recovery may give up any call that is pending, this one too.
\<close>

datatype ledger_work =
  Work_Admit "nat \<Rightarrow> time" people string usage_event_input usage_counted period_limits
| Work_Settle string string usage_status usage_settlement usage_counted
| Work_Give_Up string string usage_settlement
| Work_Reconcile time string

fun work_on :: "string \<Rightarrow> ledger_work \<Rightarrow> usage_db \<Rightarrow> usage_db" where
  "work_on own (Work_Admit clocks ppl i ev reservation limits) db =
     (case admitModelUsageEvent clocks ppl i ev reservation limits db of Inr (db', x) \<Rightarrow> db' | Inl e \<Rightarrow> db)"
| "work_on own (Work_Settle inst i status settlement counted) db =
     (if i = own \<or> status = Usage_Pending then db
      else fst (settleModelUsageEvent inst i [Usage_Pending, Usage_Abandoned] status settlement counted db))"
| "work_on own (Work_Give_Up inst i settlement) db =
     fst (settleModelUsageEvent inst i [Usage_Pending] Usage_Abandoned settlement NOTHING_COUNTED db)"
| "work_on own (Work_Reconcile now inst) db = fst (reconcileModelUsage now inst db)"

text \<open>
  The services of a gateway over a ledger: the governance admits and settles on it, and everything else is that
  of the services \<open>sv\<close>, after which the others' work is done.
\<close>

definition others_work :: "string \<Rightarrow> ('v \<Rightarrow> ledger_work list) \<Rightarrow> usage_db \<Rightarrow> 'v \<Rightarrow> usage_db \<times> 'v" where
  "others_work own meanwhile db v = (fold (work_on own) (meanwhile v) db, v)"

definition on_ledger ::
    "governance \<Rightarrow> (nat \<Rightarrow> time) \<Rightarrow> people \<Rightarrow> string \<Rightarrow> ('v \<Rightarrow> ledger_work list) \<Rightarrow> 'v gateway_services \<Rightarrow>
      (usage_db \<times> 'v) gateway_services" where
  "on_ledger g clocks ppl newId meanwhile sv =
     \<lparr> gs_providers = gs_providers sv, gs_bindings = gs_bindings sv, gs_adapters = gs_adapters sv,
       gs_capabilities = gs_capabilities sv,
       gs_complete = (\<lambda>tg call (db, v). case gs_complete sv tg call v of (v', r) \<Rightarrow> (others_work newId meanwhile db v', r)),
       gs_stream = (\<lambda>tg call (db, v). case gs_stream sv tg call v of (v', r) \<Rightarrow> (others_work newId meanwhile db v', r)),
       gs_admit = (\<lambda>call rq (db, v).
         case admitModelCall g clocks ppl newId call rq db of
           (db', Inl e) \<Rightarrow> ((db', v), Inl (App_Failure e))
         | (db', Inr ad) \<Rightarrow> ((db', v), Inr ad)),
       gs_settle = (\<lambda>ad u (db, v). ((settleModelCall g ad u db, v), Inr ())),
       gs_aborted = (\<lambda>(db, v). gs_aborted sv v), gs_abortReason = (\<lambda>(db, v). gs_abortReason sv v),
       gs_timedOut = (\<lambda>(db, v). gs_timedOut sv v), gs_now = (\<lambda>(db, v). gs_now sv v),
       gs_random = (\<lambda>(db, v). gs_random sv v),
       gs_sleep = (\<lambda>n (db, v). case gs_sleep sv n v of (v', b) \<Rightarrow> (others_work newId meanwhile db v', b)),
       gs_num = gs_num sv \<rparr>"

definition record_open :: "string \<Rightarrow> string \<Rightarrow> usage_db \<Rightarrow> bool" where
  "record_open inst i db \<longleftrightarrow>
     ledger_ok db \<and> (\<exists>e \<in> set (db_events db). ue_instance e = inst \<and> ue_id e = i \<and>
       ue_status e \<in> {Usage_Pending, Usage_Abandoned})"

definition record_closed :: "string \<Rightarrow> usage_status \<Rightarrow> usage_db \<Rightarrow> bool" where
  "record_closed i status db \<longleftrightarrow>
     ledger_ok db \<and> (\<exists>e. filter (\<lambda>e. ue_id e = i) (db_events db) = [e] \<and> ue_status e = status)"

lemma admit_events:
  assumes "admitModelUsageEvent clocks ppl i ev reservation limits db = Inr (db', x)" and "ledger_ok db"
  shows "ledger_ok db' \<and> set (db_events db) \<subseteq> set (db_events db') \<and>
    (x = Inl i' \<longrightarrow> i' = i \<and> (\<exists>e \<in> set (db_events db'). ue_instance e = in_instance ev \<and> ue_id e = i \<and> ue_status e = Usage_Pending))"
proof -
  obtain row where row: "counted_insert COUNTER_START_ATTEMPTS 0 clocks ppl i ev Usage_Pending reservation limits db = Inr (db', row)"
    and x: "x = Inl i' \<longrightarrow> i' = i \<and> adm_admitted row"
    using assms(1) by (auto simp: admitModelUsageEvent_def split: if_splits)
  from counted_insert_last[OF row] assms(2) obtain j d where
    d: "countAndInsert (clocks j) ppl i ev Usage_Pending reservation limits d = Inr (db', row)"
      "db_events d = db_events db" "ledger_ok d" by blast
  have "db_events db' = db_events db @ (if adm_admitted row then [new_event (clocks j) ppl i ev Usage_Pending reservation] else [])"
    using d(1,2) by (auto simp: countAndInsert_def Let_def split: if_splits)
  then show ?thesis using ledger_ok_counted_insert[OF row assms(2)] x by auto
qed

lemma settle_keeps_others:
  assumes "settleModelUsageEvent inst i from_list st settlement counted db = (db', changed)" and "ledger_ok db"
    and "st \<noteq> Usage_Pending" and "e \<in> set (db_events db)" and "ue_id e \<noteq> i \<or> st = Usage_Abandoned"
    and "ue_status e \<in> {Usage_Pending, Usage_Abandoned}"
  shows "ledger_ok db' \<and> (\<exists>e' \<in> set (db_events db'). ue_instance e' = ue_instance e \<and> ue_id e' = ue_id e \<and>
    ue_status e' \<in> {Usage_Pending, Usage_Abandoned})"
  using assms(1)
proof (cases rule: settle_event_cases)
  case none
  then show ?thesis using assms by blast
next
  case (one old)
  have ids: "distinct (map ue_id (db_events db))" using assms(2) by (simp add: ledger_ok_def)
  have "set (db_events db') = insert (settled_event settlement st counted old) (set (db_events db) - {old})"
    unfolding one(6) by (rule set_update_id[OF ids one(2)])
  then have "\<exists>e' \<in> set (db_events db'). ue_instance e' = ue_instance e \<and> ue_id e' = ue_id e \<and>
      ue_status e' \<in> {Usage_Pending, Usage_Abandoned}"
    using assms(4-6) one(4) by (cases "e = old") auto
  then show ?thesis using ledger_ok_settle[OF assms(1,2,3)] by blast
qed

lemma work_keeps_open: "record_open inst own db \<Longrightarrow> record_open inst own (work_on own w db)"
proof (cases w)
  case (Work_Admit clocks ppl i ev reservation limits)
  assume o: "record_open inst own db"
  show ?thesis
  proof (cases "admitModelUsageEvent clocks ppl i ev reservation limits db")
    case (Inl e)
    then show ?thesis using o Work_Admit by simp
  next
    case (Inr y)
    obtain db' x where y: "y = (db', x)" by (cases y)
    from admit_events[OF Inr[unfolded y]] o have "ledger_ok db'" "set (db_events db) \<subseteq> set (db_events db')"
      by (auto simp: record_open_def)
    then show ?thesis using o Work_Admit Inr y by (auto simp: record_open_def)
  qed
next
  case (Work_Settle inst' i status settlement counted)
  assume o: "record_open inst own db"
  obtain db' changed where "settleModelUsageEvent inst' i [Usage_Pending, Usage_Abandoned] status settlement counted db = (db', changed)"
    by (metis prod.exhaust)
  then show ?thesis using o Work_Settle settle_keeps_others by (fastforce simp: record_open_def)
next
  case (Work_Give_Up inst' i settlement)
  assume o: "record_open inst own db"
  obtain db' changed where "settleModelUsageEvent inst' i [Usage_Pending] Usage_Abandoned settlement NOTHING_COUNTED db = (db', changed)"
    by (metis prod.exhaust)
  then show ?thesis using o Work_Give_Up settle_keeps_others by (fastforce simp: record_open_def)
next
  case (Work_Reconcile now inst')
  assume o: "record_open inst own db"
  then show ?thesis using Work_Reconcile reconcile_exact[of db now inst']
    by (auto simp: record_open_def reconcileModelUsage_def Let_def split: prod.splits)
qed

lemma others_keep_open: "record_open inst own db \<Longrightarrow> record_open inst own (fst (others_work own meanwhile db v))"
proof -
  have "record_open inst own db \<Longrightarrow> record_open inst own (fold (work_on own) ws db)" for ws
    by (induction ws arbitrary: db) (auto intro: work_keeps_open)
  then show "record_open inst own db \<Longrightarrow> record_open inst own (fst (others_work own meanwhile db v))"
    by (simp add: others_work_def)
qed

lemma one_with_id:
  "distinct (map key xs) \<Longrightarrow> x \<in> set xs \<Longrightarrow> filter (\<lambda>y. key y = key x) xs = [x]"
proof (induction xs)
  case (Cons y ys)
  show ?case
  proof (cases "x = y")
    case True
    then have "key z \<noteq> key x" if "z \<in> set ys" for z using Cons.prems(1) that by (metis distinct.simps(2) image_eqI list.simps(9) list.set_map)
    then have "filter (\<lambda>z. key z = key x) ys = []" by (simp add: filter_empty_conv)
    then show ?thesis using True by simp
  next
    case False
    then have "x \<in> set ys" "key y \<noteq> key x" using Cons.prems by (auto simp: image_iff)
    then show ?thesis using Cons by simp
  qed
qed simp

lemma settle_closes_record:
  assumes "record_open (ad_instance ad) (ad_id ad) db"
  shows "record_closed (ad_id ad) (if u = None then Usage_Failed else Usage_Settled) (settleModelCall g ad u db)"
proof -
  let ?st = "if u = None then Usage_Failed else Usage_Settled"
  define settlement where "settlement = settlementOf (ad_provider ad) (ad_model ad) (Some (ad_fastMode ad)) u (gov_card g)"
  define counted where "counted = (if u = None then NOTHING_COUNTED else countedOf settlement (ad_reserved ad))"
  obtain db' changed where db': "settleModelUsageEvent (ad_instance ad) (ad_id ad) [Usage_Pending, Usage_Abandoned] ?st
      settlement counted db = (db', changed)" by (metis prod.exhaust)
  then have result: "settleModelCall g ad u db = db'"
    by (cases u) (simp_all add: settleModelCall_def settlement_def counted_def Let_def)
  have ok: "ledger_ok db" using assms by (simp add: record_open_def)
  from db' have "record_closed (ad_id ad) ?st db'"
  proof (cases rule: settle_event_cases)
    case none
    then show ?thesis using assms by (auto simp: record_open_def)
  next
    case (one old)
    have ids: "distinct (map ue_id (db_events db))" using ok by (simp add: ledger_ok_def)
    have "settled_event settlement ?st counted old \<in> set (db_events db')"
      unfolding one(6) using set_update_id[OF ids one(2)] by blast
    moreover have "ledger_ok db'" using ledger_ok_settle[OF db' ok] by simp
    moreover from this have "distinct (map ue_id (db_events db'))" by (simp add: ledger_ok_def)
    ultimately have "filter (\<lambda>e. ue_id e = ad_id ad) (db_events db') = [settled_event settlement ?st counted old]"
      using one_with_id[where key = ue_id] one(4) by fastforce
    then show ?thesis using \<open>ledger_ok db'\<close> by (simp add: record_closed_def)
  qed
  then show ?thesis using result by simp
qed

lemma admit_opens_record:
  assumes "admitModelCall g clocks ppl newId call rq db = (db', Inr ad)" and "ledger_ok db"
  shows "record_open (ad_instance ad) (ad_id ad) db' \<and> ad_id ad = newId"
proof -
  from assms(1) obtain reserved i where
    a: "admitModelUsageEvent clocks ppl newId (eventOf g call None) reserved (usage_limits g) db = Inr (db', Inl i)"
    and ad: "ad_id ad = i" "ad_instance ad = mc_instance call"
    by (auto simp: admitModelCall_def split: sum.splits prod.splits)
  from admit_events[OF a assms(2), of i] show ?thesis using ad by (auto simp: record_open_def eventOf_def)
qed

interpretation ledger: call_governance "on_ledger g clocks ppl newId meanwhile sv" "\<lambda>w. ledger_ok (fst w)"
    "\<lambda>ad w. record_open (ad_instance ad) (ad_id ad) (fst w) \<and> ad_id ad = newId"
    "\<lambda>ad u w. record_closed newId (if u = None then Usage_Failed else Usage_Settled) (fst w)"
  for g clocks ppl newId meanwhile sv
proof
  fix w w' :: "usage_db \<times> 'a" and c z ad
  show "record_open (ad_instance ad) (ad_id ad) (fst w') \<and> ad_id ad = newId"
    if "ledger_ok (fst w)" "gs_admit (on_ledger g clocks ppl newId meanwhile sv) c z w = (w', Inr ad)"
    using that admit_opens_record[of g clocks ppl newId c z "fst w" "fst w'" ad]
    by (auto simp: on_ledger_def split: prod.splits sum.splits)
next
  fix ad and w :: "usage_db \<times> 'a" and tg call
  assume "record_open (ad_instance ad) (ad_id ad) (fst w) \<and> ad_id ad = newId"
  then show "record_open (ad_instance ad) (ad_id ad)
      (fst (fst (gs_complete (on_ledger g clocks ppl newId meanwhile sv) tg call w))) \<and> ad_id ad = newId"
    and "record_open (ad_instance ad) (ad_id ad)
      (fst (fst (gs_stream (on_ledger g clocks ppl newId meanwhile sv) tg call w))) \<and> ad_id ad = newId"
    by (auto simp: on_ledger_def others_keep_open split: prod.splits)
next
  fix ad and w :: "usage_db \<times> 'a" and n
  assume "record_open (ad_instance ad) (ad_id ad) (fst w) \<and> ad_id ad = newId"
  then show "record_open (ad_instance ad) (ad_id ad)
      (fst (fst (gs_sleep (on_ledger g clocks ppl newId meanwhile sv) n w))) \<and> ad_id ad = newId"
    by (auto simp: on_ledger_def others_keep_open split: prod.splits)
next
  fix ad :: admitted_call and w :: "usage_db \<times> 'a" and u
  assume "record_open (ad_instance ad) (ad_id ad) (fst w) \<and> ad_id ad = newId"
  then show "record_closed newId (if u = None then Usage_Failed else Usage_Settled)
      (fst (fst (gs_settle (on_ledger g clocks ppl newId meanwhile sv) ad u w)))"
    using settle_closes_record[of ad "fst w" u g] by (auto simp: on_ledger_def split: prod.splits)
qed

section \<open>The promise\<close>

text \<open>
  C24. Gateway and ledger together: whatever the adapters do, the caller reads and other processes do to the
  ledger meanwhile, when an admitted call ends the ledger is in order and holds exactly one usage event for
  it, settled where usage is known and failed where nothing was used; a call that succeeds is settled.
\<close>

theorem calls_end_on_the_ledger:
  assumes "ledger_ok db" and "run_call (on_ledger g clocks ppl newId meanwhile sv) call streaming stops (db, v) = (s, r)"
  shows "gw_effects s = [] \<and> r \<noteq> None \<or>
    record_closed newId (if settled_usage s = None then Usage_Failed else Usage_Settled) (fst (gw_world s)) \<and>
    (r = None \<longrightarrow> record_closed newId Usage_Settled (fst (gw_world s)))"
proof -
  from ledger.admitted_is_closed[OF assms(2)] assms(1) have closed: "gw_effects s = [] \<or>
      record_closed newId (if settled_usage s = None then Usage_Failed else Usage_Settled) (fst (gw_world s))" by auto
  from assms(2) show ?thesis
  proof (cases rule: run_call_cases)
    case (refused w1 t)
    then show ?thesis by (simp add: new_gateway_state_def)
  next
    case (sent tg ad w1 s1 r1)
    note kept = settle_keeps[OF sent(4)]
    have "settled_usage s \<noteq> None" if "r = None"
      using kept run_completed[OF sent(3)] that by (auto simp: settled_usage_def split: option.splits)
    moreover have "gw_effects s \<noteq> []" using kept by simp
    ultimately show ?thesis using closed by (cases "r = None") auto
  qed
qed

text \<open>A governance without limits over an empty ledger, and the call whose second attempt answers.\<close>

definition free_governance :: governance where
  "free_governance =
     \<lparr> gov_dailySpend = None, gov_monthlySpend = None, gov_multiplier = None, gov_callsPerDay = None,
       gov_tokensPerDay = None, gov_tokensPerMonth = None, gov_card = None, gov_free = [''p''], gov_abandonedAfterMs = 100 \<rparr>"

definition small_ledger :: "(usage_db \<times> nat) gateway_services" where
  "small_ledger = on_ledger free_governance (\<lambda>_. 5) demo_people ''e9'' (\<lambda>_. [Work_Give_Up ''ci'' ''e9'' (in_settlement demo_event)])
     small_services"

definition small_end :: "(usage_db \<times> nat) gateway_state \<times> call_stop option" where
  "small_end = run_call small_ledger small_call True (\<lambda>_. False) (empty_ledger, 0)"

lemma admitted_without_limits:
  assumes "in_instance ev = ''ci''"
  shows "\<exists>db'. admitModelUsageEvent (\<lambda>_. 5) ppl i ev reservation no_limits empty_ledger = Inr (db', Inl i)"
proof -
  have three: "COUNTER_START_ATTEMPTS = Suc (Suc 1)" by (simp add: COUNTER_START_ATTEMPTS_def)
  have first: "countAndInsert 5 ppl i ev Usage_Pending reservation no_limits empty_ledger =
      Inr (empty_ledger, \<lparr> adm_admitted = False, adm_day = None, adm_month = None \<rparr>)"
    by (simp add: countAndInsert_def Let_def admits_def counter_of_def empty_ledger_def)
  have "\<exists>db' row. countAndInsert 5 ppl i ev Usage_Pending reservation no_limits started_ledger = Inr (db', row) \<and>
      adm_admitted row \<and> adm_present row"
    using assms by (simp add: countAndInsert_def Let_def started_counters counter_of_def admits_def within_limits_def
      at_most_def no_limits_def adm_present_def)
  then obtain db' row where second: "countAndInsert 5 ppl i ev Usage_Pending reservation no_limits started_ledger = Inr (db', row)"
    "adm_admitted row" "adm_present row" by blast
  show ?thesis unfolding admitModelUsageEvent_def three counted_insert.simps first assms bind_result.simps prod.case
      started_ledger_def[symmetric] using second by (simp add: adm_present_def)
qed

lemma small_ledger_fields:
  "gs_stream small_ledger tg c (db, n) =
    ((others_work ''e9'' (\<lambda>_. [Work_Give_Up ''ci'' ''e9'' (in_settlement demo_event)]) db (Suc n)), small_stream n)"
  "gs_settle small_ledger ad u (db, n) = ((settleModelCall free_governance ad u db, n), Inr ())"
  "\<not> gs_aborted small_ledger (db, n)" "\<not> gs_timedOut small_ledger (db, n)" "gs_now small_ledger (db, n) = 0"
  "gs_random small_ledger (db, n) = 1 / 2"
  "gs_sleep small_ledger ms (db, n) =
    ((others_work ''e9'' (\<lambda>_. [Work_Give_Up ''ci'' ''e9'' (in_settlement demo_event)]) db n), False)"
  by (simp_all add: small_ledger_def on_ledger_def)

lemma small_ledger_target: "\<exists>tg. checked_target small_ledger small_call True w = Inr tg \<and> mp_id (mt_provider tg) = ''p''"
  by (simp add: checked_target_def small_call_def small_services_def find_target_def assertWithinCapabilities_def
      missing_capabilities_def small_capabilities_def carriesDocument_def assertAttemptMayStart_def Let_def
      small_ledger_def on_ledger_def split: prod.splits)

lemma small_admission:
  assumes "mp_id (mt_provider tg) = ''p''"
  shows "\<exists>db' ad. gs_admit small_ledger (admission_of small_call tg) z (empty_ledger, 0) = ((db', 0), Inr ad)"
proof -
  have open_limits: "usage_limits free_governance = no_limits"
    by (simp add: usage_limits_def free_governance_def no_limits_def truthy_def spend_def)
  obtain r where r: "reservationOf free_governance (admission_of small_call tg) z = Inr r"
    using assms by (simp add: reservationOf_def free_governance_def admission_of_def truthy_def Let_def)
  have "in_instance (eventOf free_governance (admission_of small_call tg) None) = ''ci''"
    by (simp add: eventOf_def admission_of_def small_call_def)
  from admitted_without_limits[OF this] obtain db' where "admitModelUsageEvent (\<lambda>_. 5) demo_people ''e9''
      (eventOf free_governance (admission_of small_call tg) None) r no_limits empty_ledger = Inr (db', Inl ''e9'')" by blast
  then show ?thesis by (simp add: small_ledger_def on_ledger_def admitModelCall_def open_limits r)
qed

lemma small_end_ok: "gw_effects (fst small_end) \<noteq> [] \<and> snd small_end = None"
proof -
  obtain tg where tg: "checked_target small_ledger small_call True (empty_ledger, 0) = Inr tg" "mp_id (mt_provider tg) = ''p''"
    using small_ledger_target by blast
  obtain db' ad where ad: "gs_admit small_ledger (admission_of small_call tg)
      (request_size_of (gs_num small_ledger) small_call) (empty_ledger, 0) = ((db', 0), Inr ad)"
    using small_admission[OF tg(2)] by blast
  show ?thesis unfolding small_end_def
    by (simp add: run_call_def tg ad attempts.simps[of small_ledger small_call tg True "\<lambda>_. False" createModelRetryPolicy]
        attempts.simps[of small_ledger small_call tg True "\<lambda>_. False"
          "createModelRetryPolicy\<lparr>rp_transientFailures := Suc 0\<rparr>"] small_steps attempt_def attempt_stream_def small_stream_def
        small_ledger_fields others_work_def
        note_gateway_def new_gateway_state_def read_event_def note_received_def yield_event_def new_attempt_def
        after_failure_def wait_for_retry_def settle_call_def expired_def Let_def)
qed

lemma calls_end_on_the_ledger_witness: "record_closed ''e9'' Usage_Settled (fst (gw_world (fst small_end)))"
proof -
  have "ledger_ok empty_ledger" using usage.inv_start by (simp add: usage_start_def empty_ledger_def)
  moreover have "run_call (on_ledger free_governance (\<lambda>_. 5) demo_people ''e9''
      (\<lambda>_. [Work_Give_Up ''ci'' ''e9'' (in_settlement demo_event)]) small_services) small_call True (\<lambda>_. False) (empty_ledger, 0) =
      (fst small_end, snd small_end)" by (simp add: small_end_def small_ledger_def)
  ultimately show ?thesis using small_end_ok by (auto dest: calls_end_on_the_ledger)
qed

end
