(* ===== verification/Web_Address.thy ===== *)
theory Web_Address imports Prelude "HOL-Library.Word" begin

text \<open>
  Which addresses the web tool may reach (\<open>packages/web-access/src/url-safety.ts\<close>): the texts of addresses,
  the networks that are blocked, and the check of a URL before anything is sent to it.

  What \<open>isIP\<close> of \<open>node:net\<close> and \<open>Number.parseInt\<close> do with a text is written out. How a URL is parsed is a
  parameter, since nothing here depends on it.
\<close>

unbundle bit_operations_syntax

section \<open>Texts\<close>

definition digit_value :: "char \<Rightarrow> nat option" where
  "digit_value c =
     (let n = (of_char c :: nat) in
      if 48 \<le> n \<and> n \<le> 57 then Some (n - 48)
      else if 65 \<le> n \<and> n \<le> 90 then Some (n - 55)
      else if 97 \<le> n \<and> n \<le> 122 then Some (n - 87)
      else None)"

definition is_digit_in :: "nat \<Rightarrow> char \<Rightarrow> bool" where
  "is_digit_in base c = (case digit_value c of Some d \<Rightarrow> d < base | None \<Rightarrow> False)"

definition number_value :: "nat \<Rightarrow> string \<Rightarrow> nat" where
  "number_value base s = foldl (\<lambda>n c. n * base + (case digit_value c of Some d \<Rightarrow> d | None \<Rightarrow> 0)) 0 s"

text \<open>\<open>Number.parseInt\<close>: white space, a sign and a prefix \<open>0x\<close> may come first, anything may follow the digits.\<close>

definition parse_int :: "nat \<Rightarrow> string \<Rightarrow> int option" where
  "parse_int base s =
     (let t = trim_start s;
          negative = (t \<noteq> [] \<and> hd t = CHR ''-'');
          t1 = (if t \<noteq> [] \<and> (hd t = CHR ''-'' \<or> hd t = CHR ''+'') then tl t else t);
          t2 = (if base = 16 \<and> (starts_with t1 ''0x'' \<or> starts_with t1 ''0X'') then drop 2 t1 else t1);
          ds = takeWhile (is_digit_in base) t2
      in if ds = [] then None
         else Some (if negative then - int (number_value base ds) else int (number_value base ds)))"

text \<open>\<open>s.replace(/^\[|\]$/gu, "")\<close> and \<open>s.replace(/\.+$/gu, "")\<close>.\<close>

definition strip_brackets :: "string \<Rightarrow> string" where
  "strip_brackets s =
     (let t = (if s \<noteq> [] \<and> hd s = CHR ''['' then tl s else s)
      in if t \<noteq> [] \<and> last t = CHR '']'' then butlast t else t)"

definition strip_end_dots :: "string \<Rightarrow> string" where
  "strip_end_dots s = rev (dropWhile (\<lambda>c. c = CHR ''.'') (rev s))"

definition normalizeHostname :: "string \<Rightarrow> string" where
  "normalizeHostname hostname = strip_end_dots (strip_brackets (to_lower hostname))"

text \<open>\<open>s.split("::")\<close>.\<close>

fun split_double :: "char \<Rightarrow> string \<Rightarrow> string list" where
  "split_double c (x # y # s) =
     (if x = c \<and> y = c then [] # split_double c s
      else (case split_double c (y # s) of [] \<Rightarrow> [[x]] | p # ps \<Rightarrow> (x # p) # ps))"
| "split_double c s = [s]"

section \<open>What an address is\<close>

type_synonym octets = "nat \<times> nat \<times> nat \<times> nat"

text \<open>\<open>isIPv4\<close>: four decimal numbers below 256 without leading zeros. It is read to four numbers.\<close>

definition is_octet_text :: "string \<Rightarrow> bool" where
  "is_octet_text p \<longleftrightarrow>
     p \<noteq> [] \<and> list_all (is_digit_in 10) p \<and> (hd p = CHR ''0'' \<longrightarrow> length p = 1) \<and> length p \<le> 3 \<and> number_value 10 p \<le> 255"

definition is_ipv4 :: "string \<Rightarrow> bool" where
  "is_ipv4 s \<longleftrightarrow> length (split_on CHR ''.'' s) = 4 \<and> list_all is_octet_text (split_on CHR ''.'' s)"

fun read_octets :: "string list \<Rightarrow> octets" where
  "read_octets [a, b, c, d] = (number_value 10 a, number_value 10 b, number_value 10 c, number_value 10 d)"
| "read_octets _ = (0, 0, 0, 0)"

definition read_ipv4 :: "string \<Rightarrow> octets option" where
  "read_ipv4 s = (if is_ipv4 s then Some (read_octets (split_on CHR ''.'' s)) else None)"

definition is_group_text :: "string \<Rightarrow> bool" where
  "is_group_text p \<longleftrightarrow> p \<noteq> [] \<and> list_all (is_digit_in 16) p \<and> length p \<le> 4"

definition group_of :: "nat \<Rightarrow> nat \<Rightarrow> 16 word" where
  "group_of high low = push_bit 8 (word_of_nat high) OR word_of_nat low"

text \<open>
  \<open>isIPv6\<close>: groups of up to four hexadecimal digits, the last two of them possibly written as an address of
  version 4, and at most one gap \<open>::\<close> for at least one group. A zone may follow after a percent sign.
\<close>

fun read_groups :: "bool \<Rightarrow> string list \<Rightarrow> 16 word list option" where
  "read_groups v4_last [] = Some []"
| "read_groups v4_last [p] =
     (if is_group_text p then Some [word_of_nat (number_value 16 p)]
      else if v4_last then map_option (\<lambda>(a, b, c, d). [group_of a b, group_of c d]) (read_ipv4 p)
      else None)"
| "read_groups v4_last (p # ps) =
     (if is_group_text p then map_option ((#) (word_of_nat (number_value 16 p))) (read_groups v4_last ps) else None)"

definition read_side :: "bool \<Rightarrow> string \<Rightarrow> 16 word list option" where
  "read_side v4_last s = (if s = [] then Some [] else read_groups v4_last (split_on CHR '':'' s))"

definition read_ipv6 :: "string \<Rightarrow> 16 word list option" where
  "read_ipv6 s =
     (case split_double CHR '':'' s of
        [whole_text] \<Rightarrow>
          (case read_side True whole_text of Some gs \<Rightarrow> if length gs = 8 then Some gs else None | None \<Rightarrow> None)
      | [l, r] \<Rightarrow>
          (case (read_side False l, read_side True r) of
             (Some ls, Some rs) \<Rightarrow>
               if length ls + length rs \<le> 7 then Some (ls @ replicate (8 - length ls - length rs) 0 @ rs) else None
           | _ \<Rightarrow> None)
      | _ \<Rightarrow> None)"

definition is_zone :: "string \<Rightarrow> bool" where
  "is_zone z \<longleftrightarrow> z \<noteq> [] \<and> list_all (\<lambda>c. is_digit_in 36 c \<or> c \<in> {CHR ''-'', CHR ''.'', CHR '':''}) z"

definition is_ipv6 :: "string \<Rightarrow> bool" where
  "is_ipv6 s \<longleftrightarrow>
     (case dropWhile (\<lambda>c. c \<noteq> CHR ''%'') s of
        [] \<Rightarrow> read_ipv6 s \<noteq> None
      | _ # zone \<Rightarrow> read_ipv6 (takeWhile (\<lambda>c. c \<noteq> CHR ''%'') s) \<noteq> None \<and> is_zone zone)"

definition isIP :: "string \<Rightarrow> nat" where
  "isIP s = (if is_ipv4 s then 4 else if is_ipv6 s then 6 else 0)"

section \<open>Addresses of version 4\<close>

definition is_octet :: "int option \<Rightarrow> bool" where
  "is_octet v = (case v of Some n \<Rightarrow> 0 \<le> n \<and> n \<le> 255 | None \<Rightarrow> False)"

definition parseIpv4Octets :: "string \<Rightarrow> octets option" where
  "parseIpv4Octets address =
     (let parts = split_on CHR ''.'' address; octets = map (parse_int 10) parts in
      if length parts \<noteq> 4 then None
      else if list_ex (\<lambda>v. \<not> is_octet v) octets then None
      else (let part = (\<lambda>i. nat (the (octets ! i))) in Some (part 0, part 1, part 2, part 3)))"

fun isBlockedOctets :: "octets \<Rightarrow> bool" where
  "isBlockedOctets (a, b, c, d) \<longleftrightarrow>
     a = 0 \<or> a = 10 \<or> a = 127 \<or>
     a = 100 \<and> b \<ge> 64 \<and> b \<le> 127 \<or>
     a = 169 \<and> b = 254 \<or>
     a = 172 \<and> b \<ge> 16 \<and> b \<le> 31 \<or>
     a = 192 \<and> b = 168 \<or>
     a = 192 \<and> b = 0 \<or>
     a = 198 \<and> (b = 18 \<or> b = 19) \<or>
     a = 224 \<or> a > 224 \<or>
     a = 100 \<and> b = 100 \<and> c = 100 \<and> d = 200 \<or>
     a = 192 \<and> b = 0 \<and> c = 2 \<or>
     a = 198 \<and> b = 51 \<and> c = 100 \<or>
     a = 203 \<and> b = 0 \<and> c = 113"

definition isBlockedIpv4Address :: "string \<Rightarrow> bool" where
  "isBlockedIpv4Address address =
     (case parseIpv4Octets address of None \<Rightarrow> True | Some octets \<Rightarrow> isBlockedOctets octets)"

section \<open>Addresses of version 6\<close>

text \<open>\<open>Number.prototype.toString\<close> in a base up to 16.\<close>

definition digit_text :: "nat \<Rightarrow> char" where
  "digit_text d = (if d < 10 then char_of (48 + d) else char_of (87 + d))"

fun number_text :: "nat \<Rightarrow> nat \<Rightarrow> string" where
  "number_text base n =
     (if base < 2 \<or> n < base then [digit_text n] else number_text base (n div base) @ [digit_text (n mod base)])"

declare number_text.simps [simp del]

definition hex_group :: "string \<Rightarrow> bool" where
  "hex_group g \<longleftrightarrow>
     g \<noteq> [] \<and> length g \<le> 4 \<and> list_all (\<lambda>c. is_digit_in 16 c \<and> lower_char c = c) g"

definition in_16_bits :: "int option \<Rightarrow> bool" where
  "in_16_bits v = (case v of Some n \<Rightarrow> 0 \<le> n \<and> n \<le> 65535 | None \<Rightarrow> False)"

definition parseIpv6Groups :: "string \<Rightarrow> 16 word list option" where
  "parseIpv6Groups input =
     (if input = [] then Some []
      else (let groups = split_on CHR '':'' input; parsed = map (parse_int 16) groups in
        if list_ex (\<lambda>g. \<not> hex_group g) groups \<or> list_ex (\<lambda>v. \<not> in_16_bits v) parsed then None
        else Some (map (\<lambda>v. word_of_int (the v)) parsed)))"

definition last_colon :: "string \<Rightarrow> (string \<times> string) option" where
  "last_colon s =
     (if CHR '':'' \<notin> set s then None
      else (let after = rev (takeWhile (\<lambda>c. c \<noteq> CHR '':'') (rev s))
            in Some (take (length s - length after - 1) s, after)))"

definition expandEmbeddedIpv4 :: "string \<Rightarrow> string" where
  "expandEmbeddedIpv4 address =
     (if CHR ''.'' \<notin> set address then address
      else (case last_colon address of
              None \<Rightarrow> address
            | Some (front, ipv4) \<Rightarrow>
                (case parseIpv4Octets ipv4 of
                   None \<Rightarrow> address
                 | Some (a, b, c, d) \<Rightarrow>
                     front @ '':'' @ number_text 16 (unat (group_of a b)) @ '':'' @ number_text 16 (unat (group_of c d)))))"

definition group_bytes :: "16 word \<Rightarrow> 8 word list" where
  "group_bytes g = [ucast (drop_bit 8 g AND 0xff), ucast (g AND 0xff)]"

definition parseIpv6Bytes :: "string \<Rightarrow> 8 word list option" where
  "parseIpv6Bytes address =
     (let parts = split_double CHR '':'' (expandEmbeddedIpv4 (strip_brackets (to_lower address))) in
      if length parts > 2 then None
      else (case (parseIpv6Groups (parts ! 0), parseIpv6Groups (if length parts = 2 then parts ! 1 else [])) of
              (Some left, Some right) \<Rightarrow>
                (let missing = 8 - int (length left) - int (length right) in
                 if length parts = 1 \<and> missing \<noteq> 0 then None
                 else if length parts = 2 \<and> missing < 1 then None
                 else (let groups = left @ replicate (nat missing) 0 @ right in
                       if length groups \<noteq> 8 then None else Some (concat (map group_bytes groups))))
            | _ \<Rightarrow> None))"

definition getIpv4MappedAddress :: "8 word list \<Rightarrow> string option" where
  "getIpv4MappedAddress bytes =
     (if list_all (\<lambda>b. b = 0) (take 10 bytes) \<and> bytes ! 10 = 0xff \<and> bytes ! 11 = 0xff then
        Some (join_with ''.'' (map (\<lambda>b. number_text 10 (unat b)) (take 4 (drop 12 bytes))))
      else None)"

definition isBlockedBytes :: "8 word list \<Rightarrow> bool" where
  "isBlockedBytes bytes \<longleftrightarrow>
     (case getIpv4MappedAddress bytes of Some ipv4 \<Rightarrow> isBlockedIpv4Address ipv4 | None \<Rightarrow> False) \<or>
     list_all (\<lambda>b. b = 0) bytes \<or>
     list_all (\<lambda>b. b = 0) (take 15 bytes) \<and> bytes ! 15 = 1 \<or>
     bytes ! 0 AND 0xfe = 0xfc \<or>
     bytes ! 0 = 0xfe \<or>
     bytes ! 0 = 0xff \<or>
     bytes ! 0 = 0x20 \<and> bytes ! 1 = 0x01 \<and> bytes ! 2 = 0x0d \<and> bytes ! 3 = 0xb8"

definition isBlockedIpv6Address :: "string \<Rightarrow> bool" where
  "isBlockedIpv6Address address =
     (case parseIpv6Bytes address of None \<Rightarrow> True | Some bytes \<Rightarrow> isBlockedBytes bytes)"

definition isBlockedIpAddress :: "string \<Rightarrow> bool" where
  "isBlockedIpAddress address =
     (if isIP address = 4 then isBlockedIpv4Address address
      else if isIP address = 6 then isBlockedIpv6Address address
      else True)"

section \<open>The check of a URL\<close>

text \<open>What the code reads of a \<open>URL\<close>.\<close>

record web_url =
  url_protocol :: string
  url_username :: string
  url_password :: string
  url_hostname :: string
  url_port :: string
  url_host :: string
  url_path :: string
  url_search :: string
  url_href :: string

record resolved_address =
  ra_address :: string
  ra_family :: nat

definition blockedMetadataHostnames :: "string list" where
  "blockedMetadataHostnames =
     [''metadata'', ''metadata.google.internal'', ''instance-data'', ''instance-data.ec2.internal'']"

definition parseWebFetchUrl :: "(string \<Rightarrow> web_url option) \<Rightarrow> string \<Rightarrow> (string, web_url) result" where
  "parseWebFetchUrl new_URL rawUrl =
     (case new_URL rawUrl of
        None \<Rightarrow> Inl ''URL is invalid''
      | Some url \<Rightarrow>
          if url_protocol url \<noteq> ''http:'' \<and> url_protocol url \<noteq> ''https:'' then
            Inl ''Only http and https URLs are allowed''
          else if url_username url \<noteq> [] \<or> url_password url \<noteq> [] then Inl ''URL credentials are not allowed''
          else if url_port url \<noteq> [] then Inl ''Only default http and https ports are allowed''
          else if url_hostname url = [] then Inl ''URL host is required''
          else Inr url)"

definition assertAllowedHostname :: "string \<Rightarrow> (string, unit) result" where
  "assertAllowedHostname hostname =
     (if hostname = ''localhost'' \<or> ends_with hostname ''.localhost'' then
        Inl (''URL host '' @ quoted hostname @ '' is blocked'')
      else if hostname \<in> set blockedMetadataHostnames then
        Inl (''URL host '' @ quoted hostname @ '' is blocked as a metadata host'')
      else Inr ())"

definition assertAllowedIpAddress :: "string \<Rightarrow> (string, unit) result" where
  "assertAllowedIpAddress address =
     (if isBlockedIpAddress address then Inl (''URL address '' @ quoted address @ '' is blocked'') else Inr ())"

text \<open>What a safe name resolves to is safe when every address is, and one that resolves to nothing is not.\<close>

definition check_resolved :: "string \<Rightarrow> resolved_address list \<Rightarrow> (string, unit) result" where
  "check_resolved hostname addresses =
     (if addresses = [] then Inl (''URL host '' @ quoted hostname @ '' did not resolve to an IP address'')
      else (case List.find (\<lambda>a. isBlockedIpAddress (ra_address a)) addresses of
              Some a \<Rightarrow>
                Inl (''URL host '' @ quoted hostname @ '' resolves to blocked address '' @ quoted (ra_address a))
            | None \<Rightarrow> Inr ()))"

end
