(* ===== verification/Web_Text.thy ===== *)
theory Web_Text imports Web_Address begin

text \<open>
  The text of a page (\<open>packages/web-access/src/html-text.ts\<close>). Each pattern of the code is a function that gives
  the rest of a text behind a match at its start. \<open>String.fromCodePoint\<close> is a parameter that has no value where it
  throws, since the strings of the model hold code units below 256; a byte order mark is not among them.
\<close>

section \<open>Replacing matches\<close>

text \<open>\<open>s.replace(pattern, by)\<close> for a pattern with the flag \<open>g\<close> that never matches the empty text.\<close>

function replace_all :: "(string \<Rightarrow> (string \<times> string) option) \<Rightarrow> string \<Rightarrow> string" where
  "replace_all m s =
     (case s of
        [] \<Rightarrow> []
      | c # cs \<Rightarrow>
          (case m s of
             Some (by_text, rest) \<Rightarrow>
               if length rest < length s then by_text @ replace_all m rest else c # replace_all m cs
           | None \<Rightarrow> c # replace_all m cs))"
  by pat_completeness auto
termination by (relation "measure (\<lambda>(m, s). length s)") auto

declare replace_all.simps [simp del]

definition is_word_char :: "char \<Rightarrow> bool" where
  "is_word_char c \<longleftrightarrow> is_digit_in 36 c \<or> c = CHR ''_''"

text \<open>A text at the start of another, in any case.\<close>

definition starts_with_any_case :: "string \<Rightarrow> string \<Rightarrow> bool" where
  "starts_with_any_case s p \<longleftrightarrow> length p \<le> length s \<and> to_lower (take (length p) s) = to_lower p"

text \<open>What comes before the first place that starts with \<open>p\<close>, and what comes after it.\<close>

fun split_at_first :: "string \<Rightarrow> string \<Rightarrow> (string \<times> string) option" where
  "split_at_first p s =
     (if starts_with_any_case s p then Some ([], drop (length p) s)
      else (case s of [] \<Rightarrow> None | c # cs \<Rightarrow> map_option (\<lambda>(u, v). (c # u, v)) (split_at_first p cs)))"

declare split_at_first.simps [simp del]

section \<open>The patterns\<close>

text \<open>\<open><name\b[^>]*>\<close>, as it starts an element.\<close>

definition after_open_tag :: "string \<Rightarrow> string \<Rightarrow> string option" where
  "after_open_tag tag s =
     (let p = CHR ''<'' # tag; r = drop (length p) s in
      if starts_with_any_case s p \<and> \<not> (r \<noteq> [] \<and> is_word_char (hd r)) then map_option snd (split_at_first ''>'' r)
      else None)"

definition element :: "string \<Rightarrow> string \<Rightarrow> (string \<times> string) option" where
  "element tag s = Option.bind (after_open_tag tag s) (split_at_first (''</'' @ tag @ ''>''))"

definition removableElementPattern :: "string \<Rightarrow> (string \<times> string) option" where
  "removableElementPattern s =
     (case List.map_filter (\<lambda>tag. element tag s) [''script'', ''style'', ''noscript'', ''template''] of
        [] \<Rightarrow> None
      | (inner, rest) # _ \<Rightarrow> Some ('' '', rest))"

definition htmlCommentPattern :: "string \<Rightarrow> (string \<times> string) option" where
  "htmlCommentPattern s =
     (if starts_with s ''<!--'' then map_option (\<lambda>(u, v). ('' '', v)) (split_at_first ''-->'' (drop 4 s)) else None)"

definition htmlTagPattern :: "string \<Rightarrow> (string \<times> string) option" where
  "htmlTagPattern s =
     (if starts_with s ''<'' then
        (case split_at_first ''>'' (tl s) of
           Some (u, v) \<Rightarrow> if u = [] then None else Some ('' '', v)
         | None \<Rightarrow> None)
      else None)"

definition htmlWhitespacePattern :: "string \<Rightarrow> (string \<times> string) option" where
  "htmlWhitespacePattern s = (if s \<noteq> [] \<and> is_white (hd s) then Some ('' '', dropWhile is_white s) else None)"

section \<open>Entities\<close>

definition namedEntities :: "(string \<times> string) list" where
  "namedEntities =
     [(''amp'', ''&''), (''apos'', [CHR 0x27]), (''gt'', ''>''), (''lt'', ''<''), (''nbsp'', '' ''), (''quot'', [CHR 0x22])]"

definition decodeCodePoint :: "(nat \<Rightarrow> string option) \<Rightarrow> nat \<Rightarrow> string \<Rightarrow> string" where
  "decodeCodePoint fromCodePoint codePoint fallback =
     (case fromCodePoint codePoint of Some t \<Rightarrow> t | None \<Rightarrow> fallback)"

definition is_letter :: "char \<Rightarrow> bool" where
  "is_letter c \<longleftrightarrow> is_digit_in 36 c \<and> \<not> is_digit_in 10 c"

text \<open>The three kinds of a value between \<open>&\<close> and the first semicolon.\<close>

definition is_entity_value :: "string \<Rightarrow> bool" where
  "is_entity_value v \<longleftrightarrow>
     starts_with_any_case v ''#x'' \<and> length v > 2 \<and> list_all (is_digit_in 16) (drop 2 v) \<or>
     starts_with v ''#'' \<and> length v > 1 \<and> list_all (is_digit_in 10) (drop 1 v) \<or>
     length v > 1 \<and> is_letter (hd v) \<and> list_all (is_digit_in 36) v"

definition decoded_value :: "(nat \<Rightarrow> string option) \<Rightarrow> string \<Rightarrow> string" where
  "decoded_value fromCodePoint v =
     (let normalized = to_lower v; entity = CHR ''&'' # v @ '';'' in
      if starts_with normalized ''#x'' then decodeCodePoint fromCodePoint (number_value 16 (drop 2 normalized)) entity
      else if starts_with normalized ''#'' then decodeCodePoint fromCodePoint (number_value 10 (drop 1 normalized)) entity
      else (case map_of namedEntities normalized of Some t \<Rightarrow> t | None \<Rightarrow> entity))"

definition entityPattern :: "(nat \<Rightarrow> string option) \<Rightarrow> string \<Rightarrow> (string \<times> string) option" where
  "entityPattern fromCodePoint s =
     (if starts_with s ''&'' then
        (case split_at_first '';'' (tl s) of
           Some (v, rest) \<Rightarrow> if is_entity_value v then Some (decoded_value fromCodePoint v, rest) else None
         | None \<Rightarrow> None)
      else None)"

definition decodeHtmlEntities :: "(nat \<Rightarrow> string option) \<Rightarrow> string \<Rightarrow> string" where
  "decodeHtmlEntities fromCodePoint text_in = replace_all (entityPattern fromCodePoint) text_in"

section \<open>Pages\<close>

record extracted_text =
  et_title :: "string option"
  et_text :: string

definition parseMediaType :: "string \<Rightarrow> string option" where
  "parseMediaType contentType =
     (let t = to_lower (trim (hd (split_on CHR '';'' contentType))) in if t = [] then None else Some t)"

definition isHtmlContentType :: "string \<Rightarrow> bool" where
  "isHtmlContentType contentType \<longleftrightarrow>
     to_lower (trim (hd (split_on CHR '';'' contentType))) \<in> {''text/html'', ''application/xhtml+xml''}"

definition one_line :: "(nat \<Rightarrow> string option) \<Rightarrow> string \<Rightarrow> string" where
  "one_line fromCodePoint html =
     trim (replace_all htmlWhitespacePattern (decodeHtmlEntities fromCodePoint (replace_all htmlTagPattern html)))"

text \<open>The inside of the first element \<open>title\<close>.\<close>

fun first_title :: "string \<Rightarrow> string option" where
  "first_title s =
     (case element ''title'' s of
        Some (inner, rest) \<Rightarrow> Some inner
      | None \<Rightarrow> (case s of [] \<Rightarrow> None | c # cs \<Rightarrow> first_title cs))"

declare first_title.simps [simp del]

definition extractHtmlTitle :: "(nat \<Rightarrow> string option) \<Rightarrow> string \<Rightarrow> string option" where
  "extractHtmlTitle fromCodePoint html =
     (case first_title html of
        None \<Rightarrow> None
      | Some rawTitle \<Rightarrow>
          if rawTitle = [] then None
          else (let title = one_line fromCodePoint rawTitle in if title = [] then None else Some title))"

fun unix_lines :: "string \<Rightarrow> string" where
  "unix_lines (x # y # s) =
     (if x = CHR 0x0D \<and> y = CHR 0x0A then CHR 0x0A # unix_lines s
      else (if x = CHR 0x0D then CHR 0x0A else x) # unix_lines (y # s))"
| "unix_lines [x] = [if x = CHR 0x0D then CHR 0x0A else x]"
| "unix_lines [] = []"

definition normalizePlainText :: "string \<Rightarrow> string" where
  "normalizePlainText t = trim (unix_lines t)"

definition extractWebPageText :: "(nat \<Rightarrow> string option) \<Rightarrow> string \<Rightarrow> string \<Rightarrow> extracted_text" where
  "extractWebPageText fromCodePoint contentType body =
     (if \<not> isHtmlContentType contentType then \<lparr> et_title = None, et_text = normalizePlainText body \<rparr>
      else \<lparr> et_title = extractHtmlTitle fromCodePoint body,
             et_text = one_line fromCodePoint (replace_all htmlCommentPattern (replace_all removableElementPattern body)) \<rparr>)"

end
