(* ===== verification/Web_Fetch.thy ===== *)
theory Web_Fetch imports Web_Text Tool_Results begin

text \<open>
  The web tool (\<open>packages/web-access/src/direct-web-fetcher.ts\<close>, \<open>web-fetch-tool.ts\<close>): a page is fetched over up to
  a number of redirects, each of which is checked like the first URL, from an address that was checked and to
  which the connection is bound.

  The parser of URLs, the resolver of names, the connections, the clock, the hash and the signal that stops the
  call are services over a world of type \<open>'w\<close>. Every connection that was opened is noted in the state.
\<close>

section \<open>Services and failures\<close>

datatype abort_status = Abort_Cancelled | Abort_Timed_Out

text \<open>What something may throw that is no failure of the tool: an \<open>Error\<close> with its message, or any other value.\<close>

datatype web_thrown = Thrown_Error string | Thrown_Other

datatype header_value = Header_One string | Header_Many "string list"

type_synonym headers = "(string \<times> header_value) list"

text \<open>A connection: where it leads, and what is sent.\<close>

record request_options =
  ro_protocol :: string
  ro_hostname :: string
  ro_port :: "int option"
  ro_path :: string
  ro_host :: string
  ro_servername :: "string option"
  ro_address :: resolved_address

text \<open>What comes back: the chunks of the body as they arrive, and an error that may follow them.\<close>

record raw_response =
  raw_status :: nat
  raw_headers :: headers
  raw_chunks :: "string list"
  raw_error :: "web_thrown option"

record http_response =
  hr_status :: nat
  hr_headers :: headers
  hr_body :: string
  hr_truncated :: bool

record 'w web_services =
  ws_new_URL :: "string \<Rightarrow> web_url option"
  ws_join_URL :: "string \<Rightarrow> web_url \<Rightarrow> string option"
  ws_print_URL :: "web_url \<Rightarrow> string"
  ws_resolve :: "string \<Rightarrow> 'w \<Rightarrow> 'w \<times> (web_thrown, resolved_address list) result"
  ws_connect :: "request_options \<Rightarrow> 'w \<Rightarrow> 'w \<times> (web_thrown, raw_response) result"
  ws_abort :: "'w \<Rightarrow> abort_status option"
  ws_now :: "'w \<Rightarrow> string"
  ws_utf8 :: "string \<Rightarrow> string"
  ws_sha256 :: "string \<Rightarrow> string"
  ws_code_point :: "nat \<Rightarrow> string option"

record 'w web_state =
  web_world :: 'w
  web_sent :: "request_options list"

record fetch_config =
  fc_maxResponseBytes :: nat
  fc_maxTextCharacters :: nat
  fc_maxRedirects :: nat

definition defaultRuntimeConfig :: fetch_config where
  "defaultRuntimeConfig = \<lparr> fc_maxResponseBytes = 1024 * 1024, fc_maxTextCharacters = 20000, fc_maxRedirects = 5 \<rparr>"

record fetch_input =
  fi_url :: string
  fi_maxCharacters :: "nat option"

record web_failure =
  we_message :: string
  we_status :: failed_status
  we_code :: tool_error_code
  we_subject :: string
  we_metadata :: "(string \<times> json) list"

record web_source =
  wr_id :: string
  wr_url :: string
  wr_title :: "string option"
  wr_retrievedAt :: string
  wr_contentHash :: string

record fetch_output =
  fo_finalUrl :: string
  fo_title :: "string option"
  fo_contentType :: string
  fo_bytes :: nat
  fo_text :: string
  fo_truncated :: bool
  fo_source :: web_source

section \<open>Credentials are left out of what is recorded\<close>

definition is_scheme_char :: "char \<Rightarrow> bool" where
  "is_scheme_char c \<longleftrightarrow> is_digit_in 36 c \<or> c \<in> {CHR ''+'', CHR ''.'', CHR ''-''}"

definition is_userinfo_char :: "char \<Rightarrow> bool" where
  "is_userinfo_char c \<longleftrightarrow> c \<noteq> CHR ''/'' \<and> c \<noteq> CHR ''@'' \<and> \<not> is_white c"

text \<open>\<open>([a-z][a-z0-9+.-]*://)([^/@\s]+@)\<close> at the start of a text: the first group, and what comes after the match.\<close>

definition userinfo_at :: "string \<Rightarrow> (string \<times> string) option" where
  "userinfo_at s =
     (let scheme = takeWhile is_scheme_char s; r = dropWhile is_scheme_char s;
          user = takeWhile is_userinfo_char (drop 3 r); rest = dropWhile is_userinfo_char (drop 3 r)
      in if s \<noteq> [] \<and> is_letter (hd s) \<and> starts_with r ''://'' \<and> user \<noteq> [] \<and> starts_with rest ''@'' then
           Some (scheme @ ''://'', tl rest)
         else None)"

text \<open>The match starts at a word boundary: \<open>inside\<close> says whether a word character stands before the text.\<close>

function without_userinfo :: "bool \<Rightarrow> string \<Rightarrow> string" where
  "without_userinfo inside s =
     (case s of
        [] \<Rightarrow> []
      | c # cs \<Rightarrow>
          (case (if inside then None else userinfo_at s) of
             Some (kept, rest) \<Rightarrow>
               if length rest < length s then kept @ without_userinfo False rest
               else c # without_userinfo (is_word_char c) cs
           | None \<Rightarrow> c # without_userinfo (is_word_char c) cs))"
  by pat_completeness auto
termination by (relation "measure (\<lambda>(b, s). length s)") auto

declare without_userinfo.simps [simp del]

definition redactUrlUserInfoForAudit :: "'w web_services \<Rightarrow> string \<Rightarrow> string" where
  "redactUrlUserInfoForAudit sv value =
     (case ws_new_URL sv value of
        None \<Rightarrow> without_userinfo False value
      | Some url \<Rightarrow>
          if url_username url = [] \<and> url_password url = [] then value
          else ws_print_URL sv (url\<lparr>url_username := [], url_password := []\<rparr>))"

fun redactWebFetchAuditValue :: "'w web_services \<Rightarrow> json \<Rightarrow> json" where
  "redactWebFetchAuditValue sv (JStr s) = JStr (redactUrlUserInfoForAudit sv s)"
| "redactWebFetchAuditValue sv (JArr vs) = JArr (map (redactWebFetchAuditValue sv) vs)"
| "redactWebFetchAuditValue sv (JObj ms) = JObj (map (\<lambda>(k, v). (k, redactWebFetchAuditValue sv v)) ms)"
| "redactWebFetchAuditValue sv v = v"

definition redactWebFetchMetadata :: "'w web_services \<Rightarrow> (string \<times> json) list \<Rightarrow> (string \<times> json) list" where
  "redactWebFetchMetadata sv metadata = map (\<lambda>(k, v). (k, redactWebFetchAuditValue sv v)) metadata"

definition new_failure ::
    "'w web_services \<Rightarrow> string \<Rightarrow> failed_status \<Rightarrow> tool_error_code \<Rightarrow> string \<Rightarrow> (string \<times> json) list \<Rightarrow> web_failure" where
  "new_failure sv message status code subject metadata =
     \<lparr> we_message = message, we_status = status, we_code = code,
       we_subject = redactUrlUserInfoForAudit sv subject, we_metadata = redactWebFetchMetadata sv metadata \<rparr>"

section \<open>Connections\<close>

text \<open>\<open>headers[name]\<close>, with the first of several values.\<close>

definition getHeader :: "headers \<Rightarrow> string \<Rightarrow> string option" where
  "getHeader hs name =
     (case map_of hs (to_lower name) of
        None \<Rightarrow> None
      | Some (Header_One v) \<Rightarrow> Some v
      | Some (Header_Many []) \<Rightarrow> None
      | Some (Header_Many (v # vs)) \<Rightarrow> Some v)"

definition isRedirectStatus :: "nat \<Rightarrow> bool" where
  "isRedirectStatus status \<longleftrightarrow> status \<in> set [301, 302, 303, 307, 308]"

definition allowedContentTypes :: "string list" where
  "allowedContentTypes = [''text/html'', ''text/plain'', ''application/xhtml+xml'']"

text \<open>\<open>getHeader(headers, "content-encoding")?.trim().toLowerCase()\<close>, where it asks for a decoder.\<close>

definition encoding_of :: "headers \<Rightarrow> string option" where
  "encoding_of hs =
     (case getHeader hs ''content-encoding'' of
        None \<Rightarrow> None
      | Some v \<Rightarrow> (let e = to_lower (trim v) in if e = [] \<or> e = ''identity'' then None else Some e))"

definition content_type_of :: "headers \<Rightarrow> string" where
  "content_type_of hs = (case getHeader hs ''content-type'' of Some v \<Rightarrow> v | None \<Rightarrow> [])"

definition is_allowed_type :: "string \<Rightarrow> bool" where
  "is_allowed_type contentType =
     (case parseMediaType contentType of Some t \<Rightarrow> t \<in> set allowedContentTypes | None \<Rightarrow> False)"

definition shouldReadResponseBody :: "nat \<Rightarrow> headers \<Rightarrow> bool" where
  "shouldReadResponseBody status hs \<longleftrightarrow>
     200 \<le> status \<and> status < 300 \<and> encoding_of hs = None \<and> is_allowed_type (content_type_of hs)"

text \<open>The chunks are stored up to the limit; the first one that does not fit ends the reading.\<close>

fun read_chunks :: "nat \<Rightarrow> string \<Rightarrow> string list \<Rightarrow> string \<times> bool" where
  "read_chunks maxBytes stored [] = (stored, False)"
| "read_chunks maxBytes stored (chunk # chunks) =
     (let remaining = maxBytes - length stored in
      if length chunk > remaining then (stored @ take remaining chunk, True)
      else read_chunks maxBytes (stored @ chunk) chunks)"

definition request_options_for :: "web_url \<Rightarrow> resolved_address \<Rightarrow> request_options" where
  "request_options_for url address =
     (let isHttps = (url_protocol url = ''https:''); hostname = normalizeHostname (url_hostname url) in
      \<lparr> ro_protocol = url_protocol url, ro_hostname = hostname,
        ro_port = (if url_port url \<noteq> [] then parse_int 10 (url_port url) else if isHttps then Some 443 else Some 80),
        ro_path = (if url_path url = [] then ''/'' else url_path url) @ url_search url, ro_host = url_host url,
        ro_servername = (if isHttps \<and> isIP hostname = 0 then Some hostname else None), ro_address = address \<rparr>)"

definition response_of :: "nat \<Rightarrow> raw_response \<Rightarrow> (web_thrown, http_response) result" where
  "response_of maxBytes raw =
     (let unread = \<lparr> hr_status = raw_status raw, hr_headers = raw_headers raw, hr_body = [], hr_truncated = False \<rparr> in
      if isRedirectStatus (raw_status raw) \<or> \<not> shouldReadResponseBody (raw_status raw) (raw_headers raw) then Inr unread
      else (case read_chunks maxBytes [] (raw_chunks raw) of
              (body, truncated) \<Rightarrow>
                (case (truncated, raw_error raw) of
                   (False, Some t) \<Rightarrow> Inl t
                 | _ \<Rightarrow> Inr (unread\<lparr>hr_body := body, hr_truncated := truncated\<rparr>))))"

definition nodeWebFetchHttpRequest ::
    "'w web_services \<Rightarrow> web_url \<Rightarrow> resolved_address \<Rightarrow> nat \<Rightarrow> 'w web_state \<Rightarrow>
      'w web_state \<times> (web_thrown, http_response) result" where
  "nodeWebFetchHttpRequest sv url address maxBytes s =
     (let opts = request_options_for url address in
      case ws_connect sv opts (web_world s) of
        (w, r) \<Rightarrow>
          (\<lparr> web_world = w, web_sent = web_sent s @ [opts] \<rparr>,
           case r of Inl t \<Rightarrow> Inl t | Inr raw \<Rightarrow> response_of maxBytes raw))"

section \<open>One hop\<close>

datatype fetch_error = Failed_With web_failure | Threw_Up web_thrown

text \<open>What a stopped call fails with (\<open>throwIfOperationAborted\<close>, and \<open>mapWebFetchError\<close> for a stopped call).\<close>

definition abort_failure :: "'w web_services \<Rightarrow> abort_status \<Rightarrow> string \<Rightarrow> nat \<Rightarrow> web_failure" where
  "abort_failure sv status subject redirectCount =
     (case status of
        Abort_Timed_Out \<Rightarrow>
          new_failure sv ''web_fetch timed out'' Status_Timed_Out Timed_Out subject
            [(''status'', JStr ''timed_out''), (''redirectCount'', JNum (of_nat redirectCount))]
      | Abort_Cancelled \<Rightarrow>
          new_failure sv ''web_fetch was cancelled'' Status_Cancelled Cancelled_Call subject
            [(''status'', JStr ''cancelled''), (''redirectCount'', JNum (of_nat redirectCount))])"

definition throwIfOperationAborted ::
    "'w web_services \<Rightarrow> string \<Rightarrow> nat \<Rightarrow> 'w web_state \<Rightarrow> (fetch_error, unit) result" where
  "throwIfOperationAborted sv subject redirectCount s =
     (case ws_abort sv (web_world s) of
        None \<Rightarrow> Inr ()
      | Some status \<Rightarrow> Inl (Failed_With (abort_failure sv status subject redirectCount)))"

definition failed :: "'w web_services \<Rightarrow> string \<Rightarrow> tool_error_code \<Rightarrow> string \<Rightarrow> string \<Rightarrow> (string \<times> json) list \<Rightarrow> fetch_error" where
  "failed sv message code subject reason metadata =
     Failed_With (new_failure sv message Status_Failed code subject
       ([(''status'', JStr ''failed''), (''reason'', JStr reason)] @ metadata))"

definition validateWebFetchUrl ::
    "'w web_services \<Rightarrow> string \<Rightarrow> 'w \<Rightarrow> 'w \<times> (string + web_thrown, web_url \<times> resolved_address list) result" where
  "validateWebFetchUrl sv rawUrl w =
     (case parseWebFetchUrl (ws_new_URL sv) rawUrl of
        Inl m \<Rightarrow> (w, Inl (Inl m))
      | Inr url \<Rightarrow>
          (let hostname = normalizeHostname (url_hostname url) in
           case assertAllowedHostname hostname of
             Inl m \<Rightarrow> (w, Inl (Inl m))
           | Inr _ \<Rightarrow>
               if isIP hostname \<noteq> 0 then
                 (case assertAllowedIpAddress hostname of
                    Inl m \<Rightarrow> (w, Inl (Inl m))
                  | Inr _ \<Rightarrow> (w, Inr (url, [\<lparr> ra_address = hostname, ra_family = isIP hostname \<rparr>])))
               else
                 (case ws_resolve sv hostname w of
                    (w', Inl t) \<Rightarrow> (w', Inl (Inr t))
                  | (w', Inr addresses) \<Rightarrow>
                      (case check_resolved hostname addresses of
                         Inl m \<Rightarrow> (w', Inl (Inl m))
                       | Inr _ \<Rightarrow> (w', Inr (url, addresses))))))"

text \<open>The check of a URL, unless the call is stopped meanwhile.\<close>

definition validateTarget ::
    "'w web_services \<Rightarrow> string \<Rightarrow> string \<Rightarrow> nat \<Rightarrow> 'w web_state \<Rightarrow>
      'w web_state \<times> (fetch_error, web_url \<times> resolved_address list) result" where
  "validateTarget sv url requestedUrl redirectCount s =
     (case validateWebFetchUrl sv url (web_world s) of
        (w, r) \<Rightarrow>
          (let s' = s\<lparr>web_world := w\<rparr> in
           (s', bind_result (throwIfOperationAborted sv url redirectCount s') (\<lambda>_.
             case r of
               Inr target \<Rightarrow> Inr target
             | Inl (Inr t) \<Rightarrow> Inl (Threw_Up t)
             | Inl (Inl m) \<Rightarrow>
                 Inl (failed sv m Validation_Failed url ''blocked_url''
                   [(''requestedUrl'', JStr requestedUrl), (''redirectCount'', JNum (of_nat redirectCount))])))))"

text \<open>The addresses are tried one after the other.\<close>

fun requestTarget ::
    "'w web_services \<Rightarrow> fetch_config \<Rightarrow> web_url \<Rightarrow> resolved_address list \<Rightarrow> string \<Rightarrow> nat \<Rightarrow> web_thrown option \<Rightarrow>
      'w web_state \<Rightarrow> 'w web_state \<times> (fetch_error, http_response) result" where
  "requestTarget sv cfg url [] requestedUrl redirectCount lastError s =
     (s, Inl (failed sv
        (case lastError of Some (Thrown_Error m) \<Rightarrow> m | _ \<Rightarrow> ''web_fetch network request failed'') Handler_Failed
        (url_href url) ''network_error''
        [(''requestedUrl'', JStr requestedUrl), (''redirectCount'', JNum (of_nat redirectCount))]))"
| "requestTarget sv cfg url (address # addresses) requestedUrl redirectCount lastError s =
     (case nodeWebFetchHttpRequest sv url address (fc_maxResponseBytes cfg) s of
        (s', Inr response) \<Rightarrow> (s', Inr response)
      | (s', Inl t) \<Rightarrow>
          if ws_abort sv (web_world s') \<noteq> None then (s', Inl (Threw_Up t))
          else requestTarget sv cfg url addresses requestedUrl redirectCount (Some t) s')"

definition resolveRedirectUrl ::
    "'w web_services \<Rightarrow> string \<Rightarrow> web_url \<Rightarrow> string \<Rightarrow> nat \<Rightarrow> (fetch_error, string) result" where
  "resolveRedirectUrl sv location baseUrl requestedUrl redirectCount =
     (case ws_join_URL sv location baseUrl of
        Some u \<Rightarrow> Inr u
      | None \<Rightarrow>
          Inl (failed sv (''Redirect response from '' @ quoted (url_href baseUrl) @ '' included an invalid Location header'')
            Validation_Failed (url_href baseUrl) ''invalid_redirect_location''
            [(''requestedUrl'', JStr requestedUrl), (''redirectCount'', JNum (of_nat redirectCount))]))"

section \<open>The page\<close>

definition http_facts :: "http_response \<Rightarrow> (string \<times> json) list" where
  "http_facts response = [(''httpStatus'', JNum (of_nat (hr_status response)))]"

definition bytes_read :: "http_response \<Rightarrow> (string \<times> json) list" where
  "bytes_read response = [(''bytes'', JNum (of_nat (length (hr_body response))))]"

definition redirects_seen :: "nat \<Rightarrow> (string \<times> json) list" where
  "redirects_seen redirectCount = [(''redirectCount'', JNum (of_nat redirectCount))]"

definition content_type_seen :: "string \<Rightarrow> (string \<times> json) list" where
  "content_type_seen contentType = (if contentType = [] then [] else [(''contentType'', JStr contentType)])"

definition text_limit :: "fetch_config \<Rightarrow> fetch_input \<Rightarrow> nat" where
  "text_limit cfg input =
     min (case fi_maxCharacters input of Some n \<Rightarrow> n | None \<Rightarrow> fc_maxTextCharacters cfg) (fc_maxTextCharacters cfg)"

definition page_output ::
    "'w web_services \<Rightarrow> fetch_config \<Rightarrow> fetch_input \<Rightarrow> web_url \<Rightarrow> http_response \<Rightarrow> string \<Rightarrow> 'w web_state \<Rightarrow> fetch_output" where
  "page_output sv cfg input url response mediaType s =
     (let contentType = content_type_of (hr_headers response);
          extracted = extractWebPageText (ws_code_point sv) mediaType (ws_utf8 sv (hr_body response));
          t = take (text_limit cfg input) (et_text extracted);
          hash = ws_sha256 sv (url_href url @ [CHR 0x0A] @ t)
      in \<lparr> fo_finalUrl = url_href url, fo_title = et_title extracted,
           fo_contentType = (if contentType = [] then mediaType else contentType), fo_bytes = length (hr_body response),
           fo_text = t, fo_truncated = (hr_truncated response \<or> length (et_text extracted) > length t),
           fo_source = \<lparr> wr_id = ''web_'' @ take 16 hash, wr_url = url_href url, wr_title = et_title extracted,
             wr_retrievedAt = ws_now sv (web_world s), wr_contentHash = hash \<rparr> \<rparr>)"

definition read_page ::
    "'w web_services \<Rightarrow> fetch_config \<Rightarrow> fetch_input \<Rightarrow> web_url \<Rightarrow> http_response \<Rightarrow> nat \<Rightarrow> 'w web_state \<Rightarrow>
      (fetch_error, fetch_output) result" where
  "read_page sv cfg input url response redirectCount s =
     (let contentType = content_type_of (hr_headers response); subject = url_href url in
      if hr_status response < 200 \<or> hr_status response \<ge> 300 then
        Inl (failed sv (''web_fetch received HTTP '' @ number_text 10 (hr_status response)) Handler_Failed subject ''http_error''
          (http_facts response @ content_type_seen contentType @ bytes_read response @ redirects_seen redirectCount))
      else
        (case encoding_of (hr_headers response) of
           Some e \<Rightarrow>
             Inl (failed sv (''Content encoding '' @ quoted e @ '' is not allowed for web_fetch'') Validation_Failed subject
               ''unsupported_content_encoding''
               (http_facts response @ [(''contentEncoding'', JStr e)] @ bytes_read response @ redirects_seen redirectCount))
         | None \<Rightarrow>
             (case parseMediaType contentType of
                Some mediaType \<Rightarrow>
                  if mediaType \<in> set allowedContentTypes then Inr (page_output sv cfg input url response mediaType s)
                  else
                    Inl (failed sv (''Content type '' @ quoted contentType @ '' is not allowed for web_fetch'') Validation_Failed
                      subject ''unsupported_content_type''
                      (http_facts response @ content_type_seen contentType @ bytes_read response @ redirects_seen redirectCount))
              | None \<Rightarrow>
                  Inl (failed sv
                    (if contentType \<noteq> [] then ''Content type '' @ quoted contentType @ '' is not allowed for web_fetch''
                     else ''Response did not include an allowed content type'') Validation_Failed subject
                    ''unsupported_content_type''
                    (http_facts response @ content_type_seen contentType @ bytes_read response @ redirects_seen redirectCount)))))"

section \<open>The loop over redirects\<close>

datatype hop = Hop_Redirect string | Hop_Page fetch_output

definition follow_hop ::
    "'w web_services \<Rightarrow> fetch_config \<Rightarrow> fetch_input \<Rightarrow> web_url \<Rightarrow> http_response \<Rightarrow> nat \<Rightarrow> 'w web_state \<Rightarrow>
      (fetch_error, hop) result" where
  "follow_hop sv cfg input url response redirectCount s =
     (if isRedirectStatus (hr_status response) then
        (let location = getHeader (hr_headers response) ''location'' in
         if location = None \<or> location = Some [] then
           Inl (failed sv (''Redirect response from '' @ quoted (url_href url) @ '' did not include a Location header'')
             Handler_Failed (url_href url) ''missing_redirect_location''
             (http_facts response @ redirects_seen redirectCount))
         else if redirectCount \<ge> fc_maxRedirects cfg then
           Inl (failed sv (''web_fetch exceeded redirect limit of '' @ number_text 10 (fc_maxRedirects cfg))
             Handler_Failed (url_href url) ''redirect_limit_exceeded''
             (http_facts response @ redirects_seen redirectCount))
         else bind_result (resolveRedirectUrl sv (the location) url (fi_url input) redirectCount) (\<lambda>u. Inr (Hop_Redirect u)))
      else bind_result (read_page sv cfg input url response redirectCount s) (\<lambda>page. Inr (Hop_Page page)))"

definition fetch_hop ::
    "'w web_services \<Rightarrow> fetch_config \<Rightarrow> fetch_input \<Rightarrow> string \<Rightarrow> nat \<Rightarrow> 'w web_state \<Rightarrow>
      'w web_state \<times> (fetch_error, hop) result" where
  "fetch_hop sv cfg input currentUrl redirectCount s =
     (case throwIfOperationAborted sv currentUrl redirectCount s of
        Inl e \<Rightarrow> (s, Inl e)
      | Inr _ \<Rightarrow>
          (case validateTarget sv currentUrl (fi_url input) redirectCount s of
             (s1, Inl e) \<Rightarrow> (s1, Inl e)
           | (s1, Inr (url, addresses)) \<Rightarrow>
               (case throwIfOperationAborted sv (url_href url) redirectCount s1 of
                  Inl e \<Rightarrow> (s1, Inl e)
                | Inr _ \<Rightarrow>
                    (case requestTarget sv cfg url addresses (fi_url input) redirectCount None s1 of
                       (s2, Inl e) \<Rightarrow> (s2, Inl e)
                     | (s2, Inr response) \<Rightarrow> (s2, follow_hop sv cfg input url response redirectCount s2)))))"

text \<open>What is no failure of the tool becomes one.\<close>

definition mapWebFetchError :: "'w web_services \<Rightarrow> fetch_error \<Rightarrow> string \<Rightarrow> nat \<Rightarrow> 'w web_state \<Rightarrow> web_failure" where
  "mapWebFetchError sv e subject redirectCount s =
     (case e of
        Failed_With f \<Rightarrow> f
      | Threw_Up t \<Rightarrow>
          (case ws_abort sv (web_world s) of
             Some status \<Rightarrow> abort_failure sv status subject redirectCount
           | None \<Rightarrow>
               new_failure sv (case t of Thrown_Error m \<Rightarrow> m | Thrown_Other \<Rightarrow> ''web_fetch failed'') Status_Failed Handler_Failed
                 subject ([(''status'', JStr ''failed''), (''reason'', JStr ''handler_error'')] @ redirects_seen redirectCount)))"

lemma redirects_below: "follow_hop sv cfg input url response n s = Inr (Hop_Redirect u) \<Longrightarrow> n < fc_maxRedirects cfg"
  by (auto simp: follow_hop_def Let_def split: if_splits)

lemma fetch_hop_redirects:
  "fetch_hop sv cfg input currentUrl n s = (s', Inr (Hop_Redirect u)) \<Longrightarrow> n < fc_maxRedirects cfg"
  by (auto simp: fetch_hop_def intro: redirects_below split: sum.splits prod.splits)

function fetch_from ::
    "'w web_services \<Rightarrow> fetch_config \<Rightarrow> fetch_input \<Rightarrow> string \<Rightarrow> nat \<Rightarrow> 'w web_state \<Rightarrow>
      'w web_state \<times> (web_failure, fetch_output \<times> nat) result" where
  "fetch_from sv cfg input currentUrl redirectCount s =
     (case fetch_hop sv cfg input currentUrl redirectCount s of
        (s', Inl e) \<Rightarrow> (s', Inl (mapWebFetchError sv e currentUrl redirectCount s'))
      | (s', Inr (Hop_Page page)) \<Rightarrow> (s', Inr (page, redirectCount))
      | (s', Inr (Hop_Redirect u)) \<Rightarrow> fetch_from sv cfg input u (redirectCount + 1) s')"
  by pat_completeness auto
termination
  by (relation "measure (\<lambda>(sv, cfg, input, currentUrl, n, s). fc_maxRedirects cfg - n)")
    (auto dest!: fetch_hop_redirects[OF sym])

declare fetch_from.simps [simp del]

definition fetch ::
    "'w web_services \<Rightarrow> fetch_config \<Rightarrow> fetch_input \<Rightarrow> 'w \<Rightarrow> 'w web_state \<times> (web_failure, fetch_output \<times> nat) result" where
  "fetch sv cfg input w = fetch_from sv cfg input (fi_url input) 0 \<lparr> web_world = w, web_sent = [] \<rparr>"

text \<open>What the tool answers: the page without its count of redirects, or the failure.\<close>

definition web_fetch_tool ::
    "'w web_services \<Rightarrow> fetch_config \<Rightarrow> fetch_input \<Rightarrow> 'w \<Rightarrow> 'w web_state \<times> (failed_status \<times> tool_failure, fetch_output) result" where
  "web_fetch_tool sv cfg input w =
     (case fetch sv cfg input w of
        (s, Inr (page, redirectCount)) \<Rightarrow> (s, Inr page)
      | (s, Inl f) \<Rightarrow> (s, Inl (we_status f, \<lparr> tf_code = we_code f, tf_message = we_message f, tf_details = None \<rparr>)))"

end
