(* ===== verification/Web_Networks.thy ===== *)
theory Web_Networks imports Web_Address begin

text \<open>
  The check of addresses, written on texts and bytes, is membership in networks: an address is a word of 32 or
  128 bits, and a network is all words with a given prefix.
\<close>

section \<open>Networks\<close>

definition in_network :: "'a::len word \<Rightarrow> 'a word \<times> nat \<Rightarrow> bool" where
  "in_network a net \<longleftrightarrow> drop_bit (LENGTH('a) - snd net) a = drop_bit (LENGTH('a) - snd net) (fst net)"

fun octets_number :: "octets \<Rightarrow> nat" where
  "octets_number (a, b, c, d) = ((a * 256 + b) * 256 + c) * 256 + d"

definition v4_address :: "octets \<Rightarrow> 32 word" where
  "v4_address x = word_of_nat (octets_number x)"

definition groups_number :: "16 word list \<Rightarrow> nat" where
  "groups_number gs = foldl (\<lambda>n g. n * 65536 + unat g) 0 gs"

definition v6_address :: "16 word list \<Rightarrow> 128 word" where
  "v6_address gs = word_of_nat (groups_number gs)"

definition blocked_v4 :: "(32 word \<times> nat) list" where
  "blocked_v4 = map (\<lambda>(x, n). (v4_address x, n))
     [((0, 0, 0, 0), 8), ((10, 0, 0, 0), 8), ((127, 0, 0, 0), 8), ((100, 64, 0, 0), 10), ((169, 254, 0, 0), 16),
      ((172, 16, 0, 0), 12), ((192, 168, 0, 0), 16), ((192, 0, 0, 0), 16), ((198, 18, 0, 0), 15),
      ((198, 51, 100, 0), 24), ((203, 0, 113, 0), 24), ((224, 0, 0, 0), 3)]"

definition v4_mapped :: "128 word \<times> nat" where
  "v4_mapped = (v6_address [0, 0, 0, 0, 0, 0xffff, 0, 0], 96)"

definition blocked_v6 :: "(128 word \<times> nat) list" where
  "blocked_v6 = map (\<lambda>(x, n). (v6_address x, n))
     [([0, 0, 0, 0, 0, 0, 0, 0], 128), ([0, 0, 0, 0, 0, 0, 0, 1], 128), ([0xfc00, 0, 0, 0, 0, 0, 0, 0], 7),
      ([0xfe00, 0, 0, 0, 0, 0, 0, 0], 8), ([0xff00, 0, 0, 0, 0, 0, 0, 0], 8), ([0x2001, 0xdb8, 0, 0, 0, 0, 0, 0], 32)]"

section \<open>Version 4\<close>

fun octets_ok :: "octets \<Rightarrow> bool" where
  "octets_ok (a, b, c, d) \<longleftrightarrow> a < 256 \<and> b < 256 \<and> c < 256 \<and> d < 256"

lemma octets_bound: "octets_ok x \<Longrightarrow> octets_number x < 2 ^ 32"
  by (cases x) auto

lemma unat_drop: "unat (drop_bit k w) = unat w div 2 ^ k" for w :: "'a::len word"
proof -
  have "unat (drop_bit k w) = drop_bit k (unat w)" by (simp add: unat_drop_bit_eq)
  then show ?thesis by (simp add: drop_bit_eq_div)
qed

lemma unat_of_small: "n < 2 ^ LENGTH('a) \<Longrightarrow> unat (word_of_nat n :: 'a::len word) = n"
  by (simp add: unat_of_nat)

lemma in_v4_network:
  assumes "octets_ok x" and "octets_ok y"
  shows "in_network (v4_address x) (v4_address y, n) \<longleftrightarrow>
    octets_number x div 2 ^ (32 - n) = octets_number y div 2 ^ (32 - n)"
  using octets_bound[OF assms(1)] octets_bound[OF assms(2)]
  by (simp add: in_network_def v4_address_def word_unat_eq_iff unat_drop unat_of_small)

lemma v4_prefixes:
  fixes a b c d :: nat
  assumes "a < 256" "b < 256" "c < 256" "d < 256"
  shows "octets_number (a, b, c, d) div 2 ^ (32 - 8) = a"
    and "octets_number (a, b, c, d) div 2 ^ (32 - 10) = a * 4 + b div 64"
    and "octets_number (a, b, c, d) div 2 ^ (32 - 12) = a * 16 + b div 16"
    and "octets_number (a, b, c, d) div 2 ^ (32 - 15) = a * 128 + b div 2"
    and "octets_number (a, b, c, d) div 2 ^ (32 - 16) = a * 256 + b"
    and "octets_number (a, b, c, d) div 2 ^ (32 - 24) = (a * 256 + b) * 256 + c"
    and "octets_number (a, b, c, d) div 2 ^ (32 - 3) = a div 32"
  using assms by simp_all

lemma pair_eq:
  fixes a b :: nat
  assumes "b < k" and "y < k"
  shows "a * k + b = x * k + y \<longleftrightarrow> a = x \<and> b = y"
proof
  assume e: "a * k + b = x * k + y"
  have "k \<noteq> 0" using assms by simp
  then have "a = x" using arg_cong[OF e, of "\<lambda>n. n div k"] assms by simp
  then show "a = x \<and> b = y" using e by simp
qed simp

lemma octet_ranges:
  fixes a b c :: nat
  assumes "a < 256" "b < 256" "c < 256"
  shows "a * 4 + b div 64 = 401 \<longleftrightarrow> a = 100 \<and> b \<ge> 64 \<and> b \<le> 127"
    and "a * 256 + b = 43518 \<longleftrightarrow> a = 169 \<and> b = 254"
    and "a * 16 + b div 16 = 2753 \<longleftrightarrow> a = 172 \<and> b \<ge> 16 \<and> b \<le> 31"
    and "a * 256 + b = 49320 \<longleftrightarrow> a = 192 \<and> b = 168"
    and "a * 256 + b = 49152 \<longleftrightarrow> a = 192 \<and> b = 0"
    and "a * 128 + b div 2 = 25353 \<longleftrightarrow> a = 198 \<and> (b = 18 \<or> b = 19)"
    and "(a * 256 + b) * 256 + c = 12989284 \<longleftrightarrow> a = 198 \<and> b = 51 \<and> c = 100"
    and "(a * 256 + b) * 256 + c = 13303921 \<longleftrightarrow> a = 203 \<and> b = 0 \<and> c = 113"
    and "a div 32 = 7 \<longleftrightarrow> a = 224 \<or> a > 224"
proof -
  have quarter: "b div 64 = 1 \<longleftrightarrow> b \<ge> 64 \<and> b \<le> 127" by (auto; linarith)
  show "a * 4 + b div 64 = 401 \<longleftrightarrow> a = 100 \<and> b \<ge> 64 \<and> b \<le> 127"
    using pair_eq[of "b div 64" 4 1 a 100] assms quarter by simp
  show "a * 256 + b = 43518 \<longleftrightarrow> a = 169 \<and> b = 254" using pair_eq[of b 256 254 a 169] assms by simp
  have sixteenth: "b div 16 = 1 \<longleftrightarrow> b \<ge> 16 \<and> b \<le> 31" by (auto; linarith)
  show "a * 16 + b div 16 = 2753 \<longleftrightarrow> a = 172 \<and> b \<ge> 16 \<and> b \<le> 31"
    using pair_eq[of "b div 16" 16 1 a 172] assms sixteenth by simp
  show "a * 256 + b = 49320 \<longleftrightarrow> a = 192 \<and> b = 168" using pair_eq[of b 256 168 a 192] assms by simp
  show "a * 256 + b = 49152 \<longleftrightarrow> a = 192 \<and> b = 0" using pair_eq[of b 256 0 a 192] assms by simp
  have half: "b div 2 = 9 \<longleftrightarrow> b = 18 \<or> b = 19" by (auto; linarith)
  show "a * 128 + b div 2 = 25353 \<longleftrightarrow> a = 198 \<and> (b = 18 \<or> b = 19)"
    using pair_eq[of "b div 2" 128 9 a 198] assms half by simp
  show "(a * 256 + b) * 256 + c = 12989284 \<longleftrightarrow> a = 198 \<and> b = 51 \<and> c = 100"
    using pair_eq[of c 256 100 "a * 256 + b" 50739] pair_eq[of b 256 51 a 198] assms by simp
  show "(a * 256 + b) * 256 + c = 13303921 \<longleftrightarrow> a = 203 \<and> b = 0 \<and> c = 113"
    using pair_eq[of c 256 113 "a * 256 + b" 51968] pair_eq[of b 256 0 a 203] assms by simp
  show "a div 32 = 7 \<longleftrightarrow> a = 224 \<or> a > 224" using assms by (auto; linarith)
qed

lemma network_numbers:
  "octets_number (0, 0, 0, 0) div 2 ^ (32 - 8) = 0" "octets_ok (0, 0, 0, 0)"
  "octets_number (10, 0, 0, 0) div 2 ^ (32 - 8) = 10" "octets_ok (10, 0, 0, 0)"
  "octets_number (127, 0, 0, 0) div 2 ^ (32 - 8) = 127" "octets_ok (127, 0, 0, 0)"
  "octets_number (100, 64, 0, 0) div 2 ^ (32 - 10) = 401" "octets_ok (100, 64, 0, 0)"
  "octets_number (169, 254, 0, 0) div 2 ^ (32 - 16) = 43518" "octets_ok (169, 254, 0, 0)"
  "octets_number (172, 16, 0, 0) div 2 ^ (32 - 12) = 2753" "octets_ok (172, 16, 0, 0)"
  "octets_number (192, 168, 0, 0) div 2 ^ (32 - 16) = 49320" "octets_ok (192, 168, 0, 0)"
  "octets_number (192, 0, 0, 0) div 2 ^ (32 - 16) = 49152" "octets_ok (192, 0, 0, 0)"
  "octets_number (198, 18, 0, 0) div 2 ^ (32 - 15) = 25353" "octets_ok (198, 18, 0, 0)"
  "octets_number (198, 51, 100, 0) div 2 ^ (32 - 24) = 12989284" "octets_ok (198, 51, 100, 0)"
  "octets_number (203, 0, 113, 0) div 2 ^ (32 - 24) = 13303921" "octets_ok (203, 0, 113, 0)"
  "octets_number (224, 0, 0, 0) div 2 ^ (32 - 3) = 7" "octets_ok (224, 0, 0, 0)"
  by simp_all

lemma v4_network_octets:
  assumes "a < 256" "b < 256" "c < 256" "d < 256"
  shows "in_network (v4_address (a, b, c, d)) (v4_address (0, 0, 0, 0), 8) \<longleftrightarrow> a = 0"
    and "in_network (v4_address (a, b, c, d)) (v4_address (10, 0, 0, 0), 8) \<longleftrightarrow> a = 10"
    and "in_network (v4_address (a, b, c, d)) (v4_address (127, 0, 0, 0), 8) \<longleftrightarrow> a = 127"
    and "in_network (v4_address (a, b, c, d)) (v4_address (100, 64, 0, 0), 10) \<longleftrightarrow> a = 100 \<and> b \<ge> 64 \<and> b \<le> 127"
    and "in_network (v4_address (a, b, c, d)) (v4_address (169, 254, 0, 0), 16) \<longleftrightarrow> a = 169 \<and> b = 254"
    and "in_network (v4_address (a, b, c, d)) (v4_address (172, 16, 0, 0), 12) \<longleftrightarrow> a = 172 \<and> b \<ge> 16 \<and> b \<le> 31"
    and "in_network (v4_address (a, b, c, d)) (v4_address (192, 168, 0, 0), 16) \<longleftrightarrow> a = 192 \<and> b = 168"
    and "in_network (v4_address (a, b, c, d)) (v4_address (192, 0, 0, 0), 16) \<longleftrightarrow> a = 192 \<and> b = 0"
    and "in_network (v4_address (a, b, c, d)) (v4_address (198, 18, 0, 0), 15) \<longleftrightarrow> a = 198 \<and> (b = 18 \<or> b = 19)"
    and "in_network (v4_address (a, b, c, d)) (v4_address (198, 51, 100, 0), 24) \<longleftrightarrow> a = 198 \<and> b = 51 \<and> c = 100"
    and "in_network (v4_address (a, b, c, d)) (v4_address (203, 0, 113, 0), 24) \<longleftrightarrow> a = 203 \<and> b = 0 \<and> c = 113"
    and "in_network (v4_address (a, b, c, d)) (v4_address (224, 0, 0, 0), 3) \<longleftrightarrow> a = 224 \<or> a > 224"
proof -
  have ok: "octets_ok (a, b, c, d)" using assms by simp
  note net = in_v4_network[OF ok] v4_prefixes[OF assms] network_numbers octet_ranges[OF assms(1-3)]
  show "in_network (v4_address (a, b, c, d)) (v4_address (0, 0, 0, 0), 8) \<longleftrightarrow> a = 0" by (simp only: net)
  show "in_network (v4_address (a, b, c, d)) (v4_address (10, 0, 0, 0), 8) \<longleftrightarrow> a = 10" by (simp only: net)
  show "in_network (v4_address (a, b, c, d)) (v4_address (127, 0, 0, 0), 8) \<longleftrightarrow> a = 127" by (simp only: net)
  show "in_network (v4_address (a, b, c, d)) (v4_address (100, 64, 0, 0), 10) \<longleftrightarrow> a = 100 \<and> b \<ge> 64 \<and> b \<le> 127" by (simp only: net)
  show "in_network (v4_address (a, b, c, d)) (v4_address (169, 254, 0, 0), 16) \<longleftrightarrow> a = 169 \<and> b = 254" by (simp only: net)
  show "in_network (v4_address (a, b, c, d)) (v4_address (172, 16, 0, 0), 12) \<longleftrightarrow> a = 172 \<and> b \<ge> 16 \<and> b \<le> 31" by (simp only: net)
  show "in_network (v4_address (a, b, c, d)) (v4_address (192, 168, 0, 0), 16) \<longleftrightarrow> a = 192 \<and> b = 168" by (simp only: net)
  show "in_network (v4_address (a, b, c, d)) (v4_address (192, 0, 0, 0), 16) \<longleftrightarrow> a = 192 \<and> b = 0" by (simp only: net)
  show "in_network (v4_address (a, b, c, d)) (v4_address (198, 18, 0, 0), 15) \<longleftrightarrow> a = 198 \<and> (b = 18 \<or> b = 19)" by (simp only: net)
  show "in_network (v4_address (a, b, c, d)) (v4_address (198, 51, 100, 0), 24) \<longleftrightarrow> a = 198 \<and> b = 51 \<and> c = 100" by (simp only: net)
  show "in_network (v4_address (a, b, c, d)) (v4_address (203, 0, 113, 0), 24) \<longleftrightarrow> a = 203 \<and> b = 0 \<and> c = 113" by (simp only: net)
  show "in_network (v4_address (a, b, c, d)) (v4_address (224, 0, 0, 0), 3) \<longleftrightarrow> a = 224 \<or> a > 224" by (simp only: net)
qed

lemma blocked_v4_networks:
  assumes "octets_ok x"
  shows "isBlockedOctets x \<longleftrightarrow> list_ex (in_network (v4_address x)) blocked_v4"
proof -
  obtain a b c d where x: "x = (a, b, c, d)" by (cases x)
  have lt: "a < 256" "b < 256" "c < 256" "d < 256" using assms x by auto
  have "a = 100 \<and> b = 100 \<and> c = 100 \<and> d = 200 \<Longrightarrow> a = 100 \<and> b \<ge> 64 \<and> b \<le> 127" by simp
  then show ?thesis
    unfolding x blocked_v4_def list.map prod.case list_ex_Cons_iff list_ex_Nil_iff v4_network_octets[OF lt] isBlockedOctets.simps by argo
qed

section \<open>Version 6\<close>

lemma groups_number_snoc [simp]: "groups_number (gs @ [g]) = groups_number gs * 65536 + unat g"
  by (simp add: groups_number_def)

lemma groups_number_Nil [simp]: "groups_number [] = 0"
  by (simp add: groups_number_def)

lemma group_lt: "unat g < 65536" for g :: "16 word"
  using unsigned_less[of g, where ?'a = nat] by simp

lemma groups_number_lt: "groups_number gs < 65536 ^ length gs"
proof (induction gs rule: rev_induct)
  case (snoc g gs)
  have "groups_number gs * 65536 + unat g < (groups_number gs + 1) * 65536" using group_lt[of g] by simp
  also have "\<dots> \<le> 65536 ^ length gs * 65536" using snoc by (intro mult_right_mono) simp_all
  finally show ?case by simp
qed simp

lemma groups_number_append: "groups_number (gs @ hs) = groups_number gs * 65536 ^ length hs + groups_number hs"
proof (induction hs rule: rev_induct)
  case (snoc h hs)
  then show ?case by (simp flip: append_assoc add: algebra_simps)
qed simp

lemma groups_number_inj: "length gs = length hs \<Longrightarrow> groups_number gs = groups_number hs \<longleftrightarrow> gs = hs"
proof (induction gs hs rule: rev_induct2)
  case (4 g gs h hs)
  have "groups_number gs * 65536 + unat g = groups_number hs * 65536 + unat h \<longleftrightarrow>
      groups_number gs = groups_number hs \<and> unat g = unat h"
    using pair_eq[of "unat g" 65536 "unat h" "groups_number gs" "groups_number hs"] group_lt[of g] group_lt[of h] by simp
  then show ?case using 4 by (simp add: word_unat_eq_iff)
qed simp_all

lemma groups_number_take: "groups_number gs div 65536 ^ (length gs - k) = groups_number (take k gs)" if "k \<le> length gs"
proof -
  have "groups_number gs = groups_number (take k gs) * 65536 ^ (length gs - k) + groups_number (drop k gs)"
    using groups_number_append[of "take k gs" "drop k gs"] by simp
  moreover have "groups_number (drop k gs) < 65536 ^ (length gs - k)" using groups_number_lt[of "drop k gs"] by simp
  ultimately show ?thesis by simp
qed

lemma unat_v6: "length gs = 8 \<Longrightarrow> unat (v6_address gs) = groups_number gs"
  using groups_number_lt[of gs] by (simp add: v6_address_def unat_of_small)

lemma in_v6_network:
  assumes "length gs = 8" "length hs = 8"
  shows "in_network (v6_address gs) (v6_address hs, n) \<longleftrightarrow>
    groups_number gs div 2 ^ (128 - n) = groups_number hs div 2 ^ (128 - n)"
  using assms by (simp add: in_network_def word_unat_eq_iff unat_drop unat_v6)

lemma in_v6_groups:
  assumes "length gs = 8" "length hs = 8" "k \<le> 8"
  shows "in_network (v6_address gs) (v6_address hs, 16 * k) \<longleftrightarrow> take k gs = take k hs"
proof -
  have "(2::nat) ^ (128 - 16 * k) = 65536 ^ (8 - k)" using power_mult[of "2::nat" 16 "8 - k"] by (simp add: algebra_simps)
  then show ?thesis unfolding in_v6_network[OF assms(1,2)]
    using groups_number_take[of k gs] groups_number_take[of k hs] groups_number_inj[of "take k gs" "take k hs"] assms
    by simp
qed

lemma in_v6_first:
  assumes "length gs = 8" "length hs = 8" "n \<le> 16"
  shows "in_network (v6_address gs) (v6_address hs, n) \<longleftrightarrow>
    unat (gs ! 0) div 2 ^ (16 - n) = unat (hs ! 0) div 2 ^ (16 - n)"
proof -
  have "groups_number xs div 2 ^ (128 - n) = unat (xs ! 0) div 2 ^ (16 - n)" if "length xs = 8" for xs
  proof -
    obtain x ys where xs: "xs = x # ys" using \<open>length xs = 8\<close> by (cases xs) auto
    have "(2::nat) ^ (128 - n) = 65536 ^ (8 - 1) * 2 ^ (16 - n)"
      using power_add[of "2::nat" 112 "16 - n"] assms(3) by simp
    then have "groups_number xs div 2 ^ (128 - n) = groups_number (take 1 xs) div 2 ^ (16 - n)"
      using groups_number_take[of 1 xs] \<open>length xs = 8\<close> by (simp add: div_mult2_eq)
    then show ?thesis using xs by (simp add: groups_number_def)
  qed
  then show ?thesis unfolding in_v6_network[OF assms(1,2)] using assms by simp
qed

section \<open>Numbers as texts\<close>

lemma number_value_snoc [simp]:
  "number_value base (s @ [c]) = number_value base s * base + (case digit_value c of Some d \<Rightarrow> d | None \<Rightarrow> 0)"
  by (simp add: number_value_def)

lemma digit_text_value: "d < 16 \<Longrightarrow> digit_value (digit_text d) = Some d"
  by (auto simp: digit_value_def digit_text_def)

lemma number_text_digits:
  assumes "1 < base" and "base \<le> 16"
  shows "list_all (is_digit_in base) (number_text base n) \<and> number_text base n \<noteq> [] \<and>
    number_value base (number_text base n) = n"
proof (induction n rule: less_induct)
  case (less n)
  show ?case
  proof (cases "n < base")
    case True
    then show ?thesis using assms
      by (subst (1 2 3) number_text.simps) (simp add: digit_text_value is_digit_in_def number_value_def)
  next
    case False
    then have "n div base < n" using assms by simp
    moreover have "n mod base < 16" using assms by (meson less_le_trans mod_less_divisor zero_less_one less_trans)
    then have "is_digit_in base (digit_text (n mod base))"
      using assms by (simp add: is_digit_in_def digit_text_value)
    ultimately show ?thesis using less[of "n div base"] False assms \<open>n mod base < 16\<close>
      by (subst (1 2 3) number_text.simps) (simp add: digit_text_value)
  qed
qed

lemma digit_no_sign:
  assumes "is_digit_in base c" and "base \<le> 16"
  shows "\<not> is_white c" "c \<noteq> CHR ''-''" "c \<noteq> CHR ''+''" "c \<noteq> CHR ''x''" "c \<noteq> CHR ''X''" "c \<noteq> CHR ''.''" "c \<noteq> CHR '':''"
    "c \<noteq> CHR ''%''" "c \<noteq> CHR ''[''" "c \<noteq> CHR '']''"
  using assms by (auto simp: is_digit_in_def digit_value_def is_white_def split: option.splits if_splits)

lemma parse_int_digits:
  assumes "p \<noteq> []" and "list_all (is_digit_in base) p" and "base \<le> 16"
  shows "parse_int base p = Some (int (number_value base p))"
proof -
  obtain c cs where p: "p = c # cs" using assms(1) by (cases p) auto
  note c = digit_no_sign[of base, OF _ assms(3)]
  have all: "\<forall>x \<in> set p. is_digit_in base x" using assms(2) by (simp add: list_all_iff)
  have "trim_start p = p" using c(1)[of c] all p by (simp add: trim_start_def)
  moreover have "hd p \<noteq> CHR ''-''" "hd p \<noteq> CHR ''+''" using c(2,3)[of c] all p by simp_all
  moreover have "\<not> starts_with p ''0x''" "\<not> starts_with p ''0X''"
    using c(4,5)[of "p ! 1"] all p by (auto simp: prefix_def)
  moreover have tw: "takeWhile (is_digit_in base) p = p" using all by simp
  ultimately show ?thesis using assms(1) by (simp add: parse_int_def tw)
qed

lemma octets_of_bytes:
  fixes bs :: "8 word list"
  assumes "length bs = 4"
  shows "parseIpv4Octets (join_with ''.'' (map (\<lambda>b. number_text 10 (unat b)) bs)) =
    Some (unat (bs ! 0), unat (bs ! 1), unat (bs ! 2), unat (bs ! 3))"
proof -
  let ?t = "\<lambda>b :: 8 word. number_text 10 (unat b)"
  have digits: "list_all (is_digit_in 10) (?t b) \<and> ?t b \<noteq> [] \<and> number_value 10 (?t b) = unat b" for b
    by (rule number_text_digits) simp_all
  have "\<forall>p \<in> set (map ?t bs). CHR ''.'' \<notin> set p"
    using digits digit_no_sign(6)[of 10] by (auto simp: list_all_iff)
  then have split: "split_on CHR ''.'' (join_with ''.'' (map ?t bs)) = map ?t bs"
    using assms by (intro split_join_with) auto
  have parsed: "parse_int 10 (?t b) = Some (int (unat b))" for b
    using parse_int_digits[of "?t b" 10] digits[of b] by simp
  have "uint b \<le> 255" for b :: "8 word" using unsigned_less[of b, where ?'a = int] by simp
  then have "is_octet (Some (int (unat b)))" for b :: "8 word" by (simp add: is_octet_def)
  moreover obtain a b c d where "bs = [a, b, c, d]" using assms by (auto simp: length_Suc_conv numeral_eq_Suc)
  ultimately show ?thesis unfolding parseIpv4Octets_def split by (simp add: parsed)
qed

section \<open>Bytes\<close>

definition high_byte :: "16 word \<Rightarrow> 8 word" where
  "high_byte g = ucast (drop_bit 8 g AND 0xff)"

definition low_byte :: "16 word \<Rightarrow> 8 word" where
  "low_byte g = ucast (g AND 0xff)"

lemma group_bytes_pair: "group_bytes g = [high_byte g, low_byte g]"
  by (simp add: group_bytes_def high_byte_def low_byte_def)

lemma byte_of_group: "unat (ucast (g AND 0xff) :: 8 word) = unat g mod 256" for g :: "16 word"
proof -
  have "g AND 0xff = take_bit 8 g" by (simp add: take_bit_eq_mask mask_eq_exp_minus_1)
  then show ?thesis by (simp only: unsigned_ucast_eq unsigned_take_bit_eq) (simp add: take_bit_eq_mod)
qed

lemma unat_low_byte: "unat (low_byte g) = unat g mod 256"
  by (simp add: low_byte_def byte_of_group)

lemma unat_high_byte: "unat (high_byte g) = unat g div 256"
  unfolding high_byte_def byte_of_group unat_drop using group_lt[of g] by simp

lemma bytes_eq: "high_byte g = x \<and> low_byte g = y \<longleftrightarrow> unat g = unat x * 256 + unat y"
proof -
  have "unat y < 256" using unsigned_less[of y, where ?'a = nat] by simp
  then have "unat g = unat x * 256 + unat y \<longleftrightarrow> unat g div 256 = unat x \<and> unat g mod 256 = unat y"
    using pair_eq[of "unat g mod 256" 256 "unat y" "unat g div 256" "unat x"] by simp
  then show ?thesis by (simp add: word_unat_eq_iff unat_low_byte unat_high_byte)
qed

lemma zero_bytes: "high_byte g = 0 \<and> low_byte g = 0 \<longleftrightarrow> g = 0"
  using bytes_eq[of g 0 0] by (simp add: unat_eq_0)

lemma ones_bytes: "high_byte g = 0xff \<and> low_byte g = 0xff \<longleftrightarrow> g = 0xffff"
  using bytes_eq[of g "0xff" "0xff"] by (simp add: word_unat_eq_iff)

lemma one_bytes: "high_byte g = 0 \<and> low_byte g = 1 \<longleftrightarrow> g = 1"
  using bytes_eq[of g 0 1] by (simp add: word_unat_eq_iff)

lemma even_part: "n AND 254 = 2 * (n div 2 mod 128)" for n :: nat
proof -
  have "m AND 127 = m mod 128" for m :: nat
    by (simp add: take_bit_eq_mod flip: take_bit_eq_mask[of 7 m, simplified mask_eq_exp_minus_1, simplified])
  then show ?thesis by (subst and_rec) simp
qed

lemma unique_local: "b AND 0xfe = 0xfc \<longleftrightarrow> unat b div 2 = 126" for b :: "8 word"
proof -
  have "unat b < 256" using unsigned_less[of b, where ?'a = nat] by simp
  then have "unat (b AND 0xfe) = 2 * (unat b div 2)" using even_part[of "unat b"] by (simp add: unsigned_and_eq)
  then show ?thesis by (auto simp: word_unat_eq_iff)
qed

lemma eight_groups:
  assumes "length gs = 8"
  obtains a b c d e f g h where "gs = [a, b, c, d, e, f, g, h :: 16 word]"
  using assms by (auto simp: length_Suc_conv numeral_eq_Suc)

lemma v6_prefixes:
  assumes "gs = [a, b, c, d, e, f, g, h]"
  shows "in_network (v6_address gs) (v6_address [0, 0, 0, 0, 0, 0, 0, 0], 128) \<longleftrightarrow>
      a = 0 \<and> b = 0 \<and> c = 0 \<and> d = 0 \<and> e = 0 \<and> f = 0 \<and> g = 0 \<and> h = 0"
    and "in_network (v6_address gs) (v6_address [0, 0, 0, 0, 0, 0, 0, 1], 128) \<longleftrightarrow>
      a = 0 \<and> b = 0 \<and> c = 0 \<and> d = 0 \<and> e = 0 \<and> f = 0 \<and> g = 0 \<and> h = 1"
    and "in_network (v6_address gs) (v6_address [0xfc00, 0, 0, 0, 0, 0, 0, 0], 7) \<longleftrightarrow> unat a div 512 = 126"
    and "in_network (v6_address gs) (v6_address [0xfe00, 0, 0, 0, 0, 0, 0, 0], 8) \<longleftrightarrow> unat a div 256 = 254"
    and "in_network (v6_address gs) (v6_address [0xff00, 0, 0, 0, 0, 0, 0, 0], 8) \<longleftrightarrow> unat a div 256 = 255"
    and "in_network (v6_address gs) (v6_address [0x2001, 0xdb8, 0, 0, 0, 0, 0, 0], 32) \<longleftrightarrow> a = 0x2001 \<and> b = 0xdb8"
    and "in_network (v6_address gs) v4_mapped \<longleftrightarrow> a = 0 \<and> b = 0 \<and> c = 0 \<and> d = 0 \<and> e = 0 \<and> f = 0xffff"
proof -
  have len: "length gs = 8" using assms by simp
  note nets = in_v6_groups[OF len, where k = 8] in_v6_groups[OF len, where k = 2] in_v6_groups[OF len, where k = 6]
  show "in_network (v6_address gs) (v6_address [0, 0, 0, 0, 0, 0, 0, 0], 128) \<longleftrightarrow>
      a = 0 \<and> b = 0 \<and> c = 0 \<and> d = 0 \<and> e = 0 \<and> f = 0 \<and> g = 0 \<and> h = 0"
    and "in_network (v6_address gs) (v6_address [0, 0, 0, 0, 0, 0, 0, 1], 128) \<longleftrightarrow>
      a = 0 \<and> b = 0 \<and> c = 0 \<and> d = 0 \<and> e = 0 \<and> f = 0 \<and> g = 0 \<and> h = 1"
    and "in_network (v6_address gs) (v6_address [0x2001, 0xdb8, 0, 0, 0, 0, 0, 0], 32) \<longleftrightarrow> a = 0x2001 \<and> b = 0xdb8"
    and "in_network (v6_address gs) v4_mapped \<longleftrightarrow> a = 0 \<and> b = 0 \<and> c = 0 \<and> d = 0 \<and> e = 0 \<and> f = 0xffff"
    using nets by (simp_all add: v4_mapped_def assms)
  show "in_network (v6_address gs) (v6_address [0xfc00, 0, 0, 0, 0, 0, 0, 0], 7) \<longleftrightarrow> unat a div 512 = 126"
    and "in_network (v6_address gs) (v6_address [0xfe00, 0, 0, 0, 0, 0, 0, 0], 8) \<longleftrightarrow> unat a div 256 = 254"
    and "in_network (v6_address gs) (v6_address [0xff00, 0, 0, 0, 0, 0, 0, 0], 8) \<longleftrightarrow> unat a div 256 = 255"
    using in_v6_first[OF len, where n = 7] in_v6_first[OF len, where n = 8] by (simp_all add: assms)
qed

lemma low_address:
  assumes "gs = [a, b, c, d, e, f, g, h]"
  shows "ucast (v6_address gs) =
    v4_address (unat g div 256, unat g mod 256, unat h div 256, unat h mod 256)"
proof -
  have "groups_number gs = groups_number [a, b, c, d, e, f] * 65536 ^ 2 + (unat g * 65536 + unat h)"
    using groups_number_append[of "[a, b, c, d, e, f]" "[g, h]"] assms by (simp add: groups_number_def)
  moreover have "unat g * 65536 + unat h < 4294967296" using group_lt[of g] group_lt[of h] by simp
  ultimately have "groups_number gs mod 2 ^ 32 = unat g * 65536 + unat h" by simp
  moreover have number: "octets_number (unat g div 256, unat g mod 256, unat h div 256, unat h mod 256) =
      unat g * 65536 + unat h" by simp
  have "unat (v4_address (unat g div 256, unat g mod 256, unat h div 256, unat h mod 256)) = unat g * 65536 + unat h"
    unfolding v4_address_def number
    by (rule unat_of_small) (use \<open>unat g * 65536 + unat h < 4294967296\<close> in simp)
  moreover have "unat (ucast (v6_address gs) :: 32 word) = groups_number gs mod 2 ^ 32"
    using assms by (simp add: unsigned_ucast_eq unat_v6 take_bit_eq_mod)
  ultimately show ?thesis unfolding word_unat_eq_iff by simp
qed

definition blocked_address :: "128 word \<Rightarrow> bool" where
  "blocked_address a \<longleftrightarrow>
     list_ex (in_network a) blocked_v6 \<or> in_network a v4_mapped \<and> list_ex (in_network (ucast a)) blocked_v4"

lemma first_byte:
  "high_byte a AND 0xfe = 0xfc \<longleftrightarrow> unat a div 512 = 126"
  "high_byte a = 0xfe \<longleftrightarrow> unat a div 256 = 254"
  "high_byte a = 0xff \<longleftrightarrow> unat a div 256 = 255"
proof -
  show "high_byte a AND 0xfe = 0xfc \<longleftrightarrow> unat a div 512 = 126"
    unfolding unique_local unat_high_byte by (simp flip: div_mult2_eq)
qed (simp_all add: word_unat_eq_iff unat_high_byte)

lemma documentation_bytes:
  "high_byte a = 0x20 \<and> low_byte a = 0x01 \<longleftrightarrow> a = 0x2001"
  "high_byte b = 0x0d \<and> low_byte b = 0xb8 \<longleftrightarrow> b = 0xdb8"
  using bytes_eq[of a "0x20" "0x01"] bytes_eq[of b "0x0d" "0xb8"] by (simp_all add: word_unat_eq_iff)

lemma blocked_v6_networks:
  assumes "length gs = 8"
  shows "isBlockedBytes (concat (map group_bytes gs)) \<longleftrightarrow> blocked_address (v6_address gs)"
proof -
  obtain a b c d e f g h where gs: "gs = [a, b, c, d, e, f, g, h]" by (rule eight_groups[OF assms])
  let ?bs = "concat (map group_bytes gs)"
  let ?last = "[high_byte g, low_byte g, high_byte h, low_byte h]"
  have bs: "?bs = [high_byte a, low_byte a, high_byte b, low_byte b, high_byte c, low_byte c, high_byte d, low_byte d,
      high_byte e, low_byte e, high_byte f, low_byte f] @ ?last" by (simp add: gs group_bytes_pair)
  have zero: "x = 0 \<longleftrightarrow> high_byte x = 0 \<and> low_byte x = 0" for x using zero_bytes by blast
  have "unat (high_byte g) < 256" "unat (low_byte g) < 256" "unat (high_byte h) < 256" "unat (low_byte h) < 256"
    using unsigned_less[where ?'a = nat and ?'b = 8] by simp_all
  then have ok: "octets_ok (unat g div 256, unat g mod 256, unat h div 256, unat h mod 256)"
    by (simp add: unat_high_byte unat_low_byte)
  have "isBlockedIpv4Address (join_with ''.'' (map (\<lambda>b. number_text 10 (unat b)) ?last)) \<longleftrightarrow>
      list_ex (in_network (ucast (v6_address gs))) blocked_v4"
    using octets_of_bytes[of ?last] blocked_v4_networks[OF ok] low_address[OF gs]
    by (simp add: isBlockedIpv4Address_def unat_high_byte unat_low_byte del: isBlockedOctets.simps)
  then have mapped: "(case getIpv4MappedAddress ?bs of Some ipv4 \<Rightarrow> isBlockedIpv4Address ipv4 | None \<Rightarrow> False) \<longleftrightarrow>
      in_network (v6_address gs) v4_mapped \<and> list_ex (in_network (ucast (v6_address gs))) blocked_v4"
    unfolding v6_prefixes(7)[OF gs] zero ones_bytes[symmetric] bs
    by (simp add: getIpv4MappedAddress_def) blast
  show ?thesis
    unfolding isBlockedBytes_def mapped blocked_address_def blocked_v6_def list.map prod.case list_ex_Cons_iff list_ex_Nil_iff
      v6_prefixes[OF gs] first_byte[symmetric] one_bytes[symmetric] documentation_bytes[symmetric] zero
    unfolding bs by (simp add: numeral_eq_Suc) argo
qed

end
