(* ===== verification/Web_Notations.thy ===== *)
theory Web_Notations imports Web_Networks begin

text \<open>
  Every notation of an address is read by the check as the address it stands for: in upper and lower case,
  with and without a gap, and with the last 32 bits written as an address of version 4.
\<close>

section \<open>Lower case\<close>

lemma of_char_lower:
  "(of_char (lower_char c) :: nat) =
    (let n = of_char c in if 65 \<le> n \<and> n \<le> 90 \<or> 192 \<le> n \<and> n \<le> 222 \<and> n \<noteq> 215 then n + 32 else n)"
  by (auto simp: lower_char_def Let_def)

lemma lower_char_code:
  assumes "of_char d < (65 :: nat) \<or> (of_char d = (91 :: nat)) \<or> of_char d = (93 :: nat)"
  shows "lower_char c = d \<longleftrightarrow> c = d"
proof -
  have "lower_char c = d \<longleftrightarrow> (of_char (lower_char c) :: nat) = of_char d" by (simp add: of_char_eq_iff)
  also have "\<dots> \<longleftrightarrow> (of_char c :: nat) = of_char d" using assms by (auto simp: of_char_lower Let_def)
  finally show ?thesis by (simp add: of_char_eq_iff)
qed

lemma lower_literals [simp]:
  "lower_char c = CHR '':'' \<longleftrightarrow> c = CHR '':''" "lower_char c = CHR ''.'' \<longleftrightarrow> c = CHR ''.''"
  "lower_char c = CHR ''['' \<longleftrightarrow> c = CHR ''[''" "lower_char c = CHR '']'' \<longleftrightarrow> c = CHR '']''"
  by (simp_all add: lower_char_code)

lemma lower_lower [simp]: "lower_char (lower_char c) = lower_char c"
proof -
  have "(of_char (lower_char (lower_char c)) :: nat) = of_char (lower_char c)" by (auto simp: of_char_lower Let_def)
  then show ?thesis by (simp add: of_char_eq_iff)
qed

lemma to_lower_to_lower [simp]: "to_lower (to_lower s) = to_lower s"
  by (simp add: to_lower_def)

lemma digit_value_lower [simp]: "digit_value (lower_char c) = digit_value c"
  by (auto simp: digit_value_def of_char_lower Let_def)

lemma is_digit_in_lower [simp]: "is_digit_in base (lower_char c) = is_digit_in base c"
  by (simp add: is_digit_in_def)

lemma digits_lower [simp]: "list_all (is_digit_in base) (to_lower p) = list_all (is_digit_in base) p"
  by (simp add: to_lower_def list.pred_map comp_def)

lemma number_value_lower [simp]: "number_value base (to_lower s) = number_value base s"
  by (induction s rule: rev_induct) (simp_all add: to_lower_def)

lemma length_lower [simp]: "length (to_lower s) = length s" "to_lower s = [] \<longleftrightarrow> s = []"
  by (simp_all add: to_lower_def)

lemma decimal_lower: "is_digit_in 10 c \<Longrightarrow> lower_char c = c"
  by (auto simp: is_digit_in_def digit_value_def lower_char_def Let_def split: if_splits)

lemma decimals_lower: "list_all (is_digit_in 10) p \<Longrightarrow> to_lower p = p"
  by (simp add: to_lower_def list_all_iff decimal_lower map_idI)

lemma split_on_lower:
  assumes "\<And>x. lower_char x = c \<longleftrightarrow> x = c"
  shows "split_on c (to_lower s) = map to_lower (split_on c s)"
proof (induction s)
  case (Cons x s)
  then show ?case using assms by (auto simp: to_lower_def split: list.splits)
qed (simp add: to_lower_def)

lemma split_double_lower:
  assumes "\<And>x. lower_char x = c \<longleftrightarrow> x = c"
  shows "split_double c (to_lower s) = map to_lower (split_double c s)"
  using assms by (induction c s rule: split_double.induct) (auto simp: to_lower_def split: list.splits)

lemma is_octet_text_lower [simp]: "is_octet_text (to_lower p) = is_octet_text p"
proof (cases "list_all (is_digit_in 10) p")
  case True
  then show ?thesis by (simp add: decimals_lower)
qed (simp add: is_octet_text_def)

lemma read_ipv4_lower [simp]: "read_ipv4 (to_lower s) = read_ipv4 s"
proof -
  let ?ps = "split_on CHR ''.'' s"
  have split: "split_on CHR ''.'' (to_lower s) = map to_lower ?ps" by (rule split_on_lower) simp
  have "read_octets (map to_lower ps) = read_octets ps" for ps
    by (cases ps rule: read_octets.cases) simp_all
  then show ?thesis by (simp add: read_ipv4_def is_ipv4_def split list.pred_map comp_def)
qed

lemma is_group_text_lower [simp]: "is_group_text (to_lower p) = is_group_text p"
  by (simp add: is_group_text_def)

lemma read_groups_lower [simp]: "read_groups v4 (map to_lower ps) = read_groups v4 ps"
  by (induction v4 ps rule: read_groups.induct) simp_all

lemma read_side_lower [simp]: "read_side v4 (to_lower s) = read_side v4 s"
  by (simp add: read_side_def split_on_lower)

lemma read_ipv6_lower [simp]: "read_ipv6 (to_lower s) = read_ipv6 s"
  by (simp add: read_ipv6_def split_double_lower split: list.split option.split)

section \<open>Addresses of version 4\<close>

lemma number_value_lt:
  assumes "list_all (is_digit_in base) p"
  shows "number_value base p < base ^ length p"
  using assms
proof (induction p rule: rev_induct)
  case (snoc c p)
  obtain d where d: "digit_value c = Some d" "d < base"
    using snoc.prems by (auto simp: is_digit_in_def split: option.splits)
  have "number_value base p * base + d < (number_value base p + 1) * base" using d(2) by simp
  also have "\<dots> \<le> base ^ length p * base" using snoc by (intro mult_right_mono) simp_all
  finally show ?case using d by (simp add: mult.commute)
qed (simp add: number_value_def)

lemma octet_parsed:
  assumes "is_octet_text p"
  shows "parse_int 10 p = Some (int (number_value 10 p))" "number_value 10 p \<le> 255"
  using assms parse_int_digits[of p 10] by (simp_all add: is_octet_text_def)

lemma read_ipv4_parsed:
  assumes "read_ipv4 s = Some x"
  shows "parseIpv4Octets s = Some x \<and> octets_ok x"
proof -
  from assms have ip: "is_ipv4 s" and x: "x = read_octets (split_on CHR ''.'' s)"
    by (auto simp: read_ipv4_def split: if_splits)
  then obtain a b c d where split: "split_on CHR ''.'' s = [a, b, c, d]"
    by (auto simp: is_ipv4_def length_Suc_conv numeral_eq_Suc)
  then have oct: "is_octet_text a" "is_octet_text b" "is_octet_text c" "is_octet_text d" using ip by (simp_all add: is_ipv4_def)
  note val = oct[THEN octet_parsed(1)] oct[THEN octet_parsed(2)]
  show ?thesis using val by (simp add: parseIpv4Octets_def split x is_octet_def)
qed

section \<open>Gaps\<close>

lemma split_double_neq_Nil [simp]: "split_double c s \<noteq> []"
  by (induction c s rule: split_double.induct) (auto split: list.splits)

lemma join_split_double: "join_with [c, c] (split_double c s) = s"
proof (induction c s rule: split_double.induct)
  case (1 c x y s)
  show ?case
  proof (cases "x = c \<and> y = c")
    case True
    then show ?thesis using 1(1) by (cases "split_double c s") simp_all
  next
    case False
    obtain p ps where "split_double c (y # s) = p # ps" by (cases "split_double c (y # s)") auto
    then show ?thesis using 1(2)[OF False] False by (cases ps) auto
  qed
qed simp_all

lemma split_double_append:
  assumes "v \<noteq> []" and "hd v \<noteq> c" and "split_double c v = [v]"
  shows "split_double c (u @ v) = butlast (split_double c u) @ [last (split_double c u) @ v]"
  using assms
proof (induction c u rule: split_double.induct)
  case (1 c x y s)
  show ?case
  proof (cases "x = c \<and> y = c")
    case True
    then show ?thesis using 1 by simp
  next
    case False
    obtain p ps where "split_double c (y # s) = p # ps" by (cases "split_double c (y # s)") auto
    then show ?thesis using 1(2)[OF False 1(3-5)] False by (cases ps) auto
  qed
next
  case "2_2"
  then show ?case by (cases v) (auto split: list.splits)
qed simp

lemma split_double_none: "c \<notin> set s \<Longrightarrow> split_double c s = [s]"
  by (induction c s rule: split_double.induct) auto

lemma join_with_snoc:
  "join_with sep (ps @ [u @ v]) = join_with sep (ps @ [u]) @ v"
proof (induction ps)
  case (Cons p ps)
  then show ?case by (cases ps) simp_all
qed simp

text \<open>Another end of the last side does not move the gap.\<close>

lemma split_double_last:
  assumes "split_double c s = pre @ [u @ v]" and "v \<noteq> []" and "c \<notin> set v"
    and "w \<noteq> []" and "hd w \<noteq> c" and "split_double c w = [w]"
  shows "\<exists>t. s = t @ v \<and> split_double c t = pre @ [u] \<and> split_double c (t @ w) = pre @ [u @ w]"
proof -
  let ?t = "join_with [c, c] (pre @ [u])"
  have s: "s = ?t @ v" using join_split_double[of c s] assms(1) by (simp add: join_with_snoc)
  have "hd v \<noteq> c" using assms(2,3) by (cases v) auto
  then have "butlast (split_double c ?t) @ [last (split_double c ?t) @ v] = pre @ [u @ v]"
    using split_double_append[of v c ?t] split_double_none[OF assms(3)] assms(1,2) s by simp
  then have "butlast (split_double c ?t) = pre" "last (split_double c ?t) = u" by simp_all
  then have t: "split_double c ?t = pre @ [u]" by (metis append_butlast_last_id split_double_neq_Nil)
  then show ?thesis using s split_double_append[OF assms(4-6), of ?t] by auto
qed

section \<open>Sides\<close>

abbreviation group_value :: "string \<Rightarrow> 16 word" where
  "group_value p \<equiv> word_of_nat (number_value 16 p)"

lemma read_groups_cases:
  assumes "read_groups v4 ps = Some gs"
  obtains (plain) "list_all is_group_text ps" "gs = map group_value ps"
  | (mixed) qs v a b c d where "v4" "ps = qs @ [v]" "list_all is_group_text qs" "read_ipv4 v = Some (a, b, c, d)"
      "gs = map group_value qs @ [group_of a b, group_of c d]"
proof -
  have "(list_all is_group_text ps \<and> gs = map group_value ps) \<or>
    (\<exists>qs v a b c d. v4 \<and> ps = qs @ [v] \<and> list_all is_group_text qs \<and> read_ipv4 v = Some (a, b, c, d) \<and>
      gs = map group_value qs @ [group_of a b, group_of c d])"
    using assms
  proof (induction v4 ps arbitrary: gs rule: read_groups.induct)
    case (2 v4 p)
    then show ?case
      by (cases "is_group_text p") (auto split: if_splits intro!: exI[of _ "[]"])
  next
    case (3 v4 p q ps)
    from 3(2) obtain hs where hs: "is_group_text p" "read_groups v4 (q # ps) = Some hs" "gs = group_value p # hs"
      by (auto split: if_splits)
    from 3(1)[OF hs(1,2)] show ?case
    proof
      assume "list_all is_group_text (q # ps) \<and> hs = map group_value (q # ps)"
      then show ?case using hs by simp
    next
      assume "\<exists>qs v a b c d. v4 \<and> q # ps = qs @ [v] \<and> list_all is_group_text qs \<and> read_ipv4 v = Some (a, b, c, d) \<and>
        hs = map group_value qs @ [group_of a b, group_of c d]"
      then obtain qs v a b c d where "v4" "q # ps = qs @ [v]" "list_all is_group_text qs" "read_ipv4 v = Some (a, b, c, d)"
        "hs = map group_value qs @ [group_of a b, group_of c d]" by blast
      then show ?case using hs by (intro disjI2 exI[of _ "p # qs"]) auto
    qed
  qed simp
  then show ?thesis using plain mixed by blast
qed

lemma group_text_chars: "is_group_text p \<Longrightarrow> c \<in> set p \<Longrightarrow> is_digit_in 16 c"
  by (simp add: is_group_text_def list_all_iff)

lemma in_split_on: "c \<in> set s \<Longrightarrow> c = d \<or> (\<exists>p \<in> set (split_on d s). c \<in> set p)"
proof (induction s)
  case (Cons x s)
  then show ?case by (cases "split_on d s") auto
qed simp

lemma split_on_in: "p \<in> set (split_on d s) \<Longrightarrow> set p \<subseteq> set s"
proof (induction s arbitrary: p)
  case (Cons x s)
  then show ?case by (cases "split_on d s") (fastforce split: if_splits)+
qed simp

lemma ipv4_chars:
  assumes "read_ipv4 v = Some x" and "c \<in> set v"
  shows "is_digit_in 10 c \<or> c = CHR ''.''"
proof (rule ccontr)
  assume no: "\<not> (is_digit_in 10 c \<or> c = CHR ''.'')"
  then obtain p where "p \<in> set (split_on CHR ''.'' v)" "c \<in> set p"
    using assms(2) in_split_on[of c v "CHR ''.''"] by blast
  moreover have "list_all is_octet_text (split_on CHR ''.'' v)"
    using assms(1) by (simp add: read_ipv4_def is_ipv4_def split: if_splits)
  ultimately show False using no by (auto simp: list_all_iff is_octet_text_def)
qed

lemma group_parsed:
  assumes "is_group_text p" and "to_lower p = p"
  shows "hex_group p" "parse_int 16 p = Some (int (number_value 16 p))" "number_value 16 p \<le> 65535"
proof -
  have "\<forall>c \<in> set p. lower_char c = c" using assms(2) unfolding to_lower_def by (metis map_eq_conv map_ident)
  then show "hex_group p" using assms(1) by (simp add: hex_group_def is_group_text_def list_all_iff)
  show "parse_int 16 p = Some (int (number_value 16 p))"
    using assms(1) parse_int_digits[of p 16] by (simp add: is_group_text_def)
  have "number_value 16 p < 16 ^ length p" using assms(1) by (simp add: is_group_text_def number_value_lt)
  also have "\<dots> \<le> 16 ^ 4" using assms(1) by (intro power_increasing) (simp_all add: is_group_text_def)
  finally show "number_value 16 p \<le> 65535" by simp
qed

lemma parse_groups:
  assumes "ps \<noteq> []" and "list_all is_group_text ps" and "list_all (\<lambda>p. to_lower p = p) ps"
  shows "parseIpv6Groups (join_with '':'' ps) = Some (map group_value ps)"
proof -
  have chars: "\<forall>p \<in> set ps. CHR '':'' \<notin> set p"
    using assms(2) group_text_chars digit_no_sign(7)[of 16] by (fastforce simp: list_all_iff)
  then have split: "split_on CHR '':'' (join_with '':'' ps) = ps" by (rule split_join_with[OF assms(1)])
  have "join_with '':'' ps \<noteq> []"
  proof
    assume "join_with '':'' ps = []"
    then have "ps = [[]]" using split by simp
    then show False using assms(2) by (simp add: is_group_text_def)
  qed
  moreover have "list_all hex_group ps" using assms(2,3) group_parsed(1) by (simp add: list_all_iff)
  moreover have "\<forall>p \<in> set ps. parse_int 16 p = Some (int (number_value 16 p)) \<and> number_value 16 p \<le> 65535"
    using assms(2,3) group_parsed(2,3) by (simp add: list_all_iff)
  ultimately show ?thesis
    by (auto simp: parseIpv6Groups_def split list_ex_iff list_all_iff in_16_bits_def)
qed

lemma ipv4_dotted: "read_ipv4 v = Some x \<Longrightarrow> CHR ''.'' \<in> set v"
  using split_on_no_sep[of "CHR ''.''" v] by (cases "CHR ''.'' \<in> set v") (simp_all add: read_ipv4_def is_ipv4_def)

lemma pieces_lower:
  assumes "to_lower t = t"
  shows "list_all (\<lambda>p. to_lower p = p) (split_on CHR '':'' t)"
proof -
  have "map to_lower (split_on CHR '':'' t) = split_on CHR '':'' t"
    using split_on_lower[of "CHR '':''" t] assms by simp
  then have "\<forall>p \<in> set (split_on CHR '':'' t). to_lower p = id p" unfolding map_eq_conv[symmetric] by simp
  then show ?thesis by (simp add: list_all_iff)
qed

lemma plain_side:
  assumes "read_side v4 t = Some gs" and "CHR ''.'' \<notin> set t" and "to_lower t = t"
  shows "parseIpv6Groups t = Some gs"
proof (cases "t = []")
  case True
  then show ?thesis using assms(1) by (simp add: read_side_def parseIpv6Groups_def)
next
  case False
  then have "read_groups v4 (split_on CHR '':'' t) = Some gs" using assms(1) by (simp add: read_side_def)
  then show ?thesis
  proof (cases rule: read_groups_cases)
    case plain
    then show ?thesis
      using parse_groups[OF split_on_neq_Nil plain(1) pieces_lower[OF assms(3)]] by (simp add: join_split_on)
  next
    case (mixed qs v a b c d)
    then have "set v \<subseteq> set t" using split_on_in[of v "CHR '':''" t] by simp
    then show ?thesis using ipv4_dotted[OF mixed(4)] assms(2) by blast
  qed
qed

lemma number_text_length: "n < 16 ^ Suc k \<Longrightarrow> length (number_text 16 n) \<le> Suc k"
proof (induction k arbitrary: n)
  case 0
  then show ?case by (simp add: number_text.simps[of 16 n])
next
  case (Suc k)
  then have "length (number_text 16 (n div 16)) \<le> Suc k" by (simp add: less_mult_imp_div_less)
  then show ?case by (subst number_text.simps) simp
qed

lemma digit_text_lower: "d < 16 \<Longrightarrow> lower_char (digit_text d) = digit_text d"
  by (auto simp: digit_text_def lower_char_def)

lemma number_text_lower: "to_lower (number_text 16 n) = number_text 16 n"
proof (induction n rule: less_induct)
  case (less n)
  then show ?case
    by (subst (1 2) number_text.simps) (simp add: to_lower_def digit_text_lower)
qed

lemma group_text:
  "is_group_text (number_text 16 (unat g))" "group_value (number_text 16 (unat g)) = (g :: 16 word)"
proof -
  have "length (number_text 16 (unat g)) \<le> 4"
    using number_text_length[of "unat g" 3] group_lt[of g] by simp
  then show "is_group_text (number_text 16 (unat g))" using number_text_digits[of 16 "unat g"] by (simp add: is_group_text_def)
  show "group_value (number_text 16 (unat g)) = g" using number_text_digits[of 16 "unat g"] by simp
qed

definition groups_text :: "octets \<Rightarrow> string" where
  "groups_text x = (case x of (a, b, c, d) \<Rightarrow>
     number_text 16 (unat (group_of a b)) @ '':'' @ number_text 16 (unat (group_of c d)))"

lemma dotted_side:
  assumes "read_side v4 t = Some gs" and "CHR ''.'' \<in> set t" and "to_lower t = t"
  obtains u v x where "v4" "t = u @ v" "read_ipv4 v = Some x" "u = [] \<or> last u = CHR '':''" "u = [] \<longrightarrow> length gs = 2"
    "parseIpv6Groups (u @ groups_text x) = Some gs"
proof -
  have "t \<noteq> []" using assms(2) by auto
  then have "read_groups v4 (split_on CHR '':'' t) = Some gs" using assms(1) by (simp add: read_side_def)
  then show ?thesis
  proof (cases rule: read_groups_cases)
    case plain
    obtain p where "p \<in> set (split_on CHR '':'' t)" "CHR ''.'' \<in> set p"
      using in_split_on[OF assms(2), of "CHR '':''"] by auto
    then show ?thesis using plain(1) group_text_chars digit_no_sign(6)[of 16] by (fastforce simp: list_all_iff)
  next
    case (mixed qs v a b c d)
    define u where "u = (if qs = [] then [] else join_with '':'' qs @ '':'')"
    have join: "join_with '':'' (qs @ ps) = u @ join_with '':'' ps" if "ps \<noteq> []" for ps
      using that unfolding u_def by (induction qs rule: induct_list012) (auto simp: neq_Nil_conv)
    have "t = u @ v" using join_split_on[of "CHR '':''" t] join[of "[v]"] mixed(2) by simp
    moreover have "parseIpv6Groups (u @ groups_text (a, b, c, d)) = Some gs"
    proof -
      let ?ps = "qs @ [number_text 16 (unat (group_of a b)), number_text 16 (unat (group_of c d))]"
      have "parseIpv6Groups (join_with '':'' ?ps) = Some (map group_value ?ps)"
        using mixed(2,3) pieces_lower[OF assms(3)] by (intro parse_groups) (simp_all add: group_text number_text_lower)
      then show ?thesis
        using join[of "[number_text 16 (unat (group_of a b)), number_text 16 (unat (group_of c d))]"] mixed(5)
        by (simp add: groups_text_def group_text)
    qed
    moreover have "u = [] \<or> last u = CHR '':''" "u = [] \<longrightarrow> length gs = 2" using mixed(5) by (simp_all add: u_def)
    ultimately show ?thesis using that mixed(1,4) by blast
  qed
qed

section \<open>Whole addresses\<close>

lemma in_split_double: "c \<in> set s \<Longrightarrow> c = d \<or> (\<exists>p \<in> set (split_double d s). c \<in> set p)"
proof (induction d s rule: split_double.induct)
  case (1 d x y s)
  then show ?case by (cases "split_double d (y # s)") auto
qed auto

lemma split_double_in: "p \<in> set (split_double d s) \<Longrightarrow> set p \<subseteq> set s"
proof (induction d s arbitrary: p rule: split_double.induct)
  case (1 d x y s)
  then show ?case by (cases "split_double d (y # s)") (fastforce split: if_splits)+
qed auto

lemma sides_lower:
  assumes "to_lower s = s"
  shows "list_all (\<lambda>p. to_lower p = p) (split_double CHR '':'' s)"
proof -
  have "map to_lower (split_double CHR '':'' s) = split_double CHR '':'' s"
    using split_double_lower[of "CHR '':''" s] assms by simp
  then have "\<forall>p \<in> set (split_double CHR '':'' s). to_lower p = id p" unfolding map_eq_conv[symmetric] by simp
  then show ?thesis by (simp add: list_all_iff)
qed

lemma side_chars:
  assumes "read_side v4 t = Some gs" and "c \<in> set t"
  shows "is_digit_in 16 c \<or> c = CHR '':'' \<or> c = CHR ''.''"
proof -
  obtain p where p: "c = CHR '':'' \<or> p \<in> set (split_on CHR '':'' t) \<and> c \<in> set p"
    using in_split_on[OF assms(2)] by blast
  have "read_groups v4 (split_on CHR '':'' t) = Some gs" using assms by (auto simp: read_side_def split: if_splits)
  then show ?thesis
  proof (cases rule: read_groups_cases)
    case plain
    then show ?thesis using p group_text_chars by (auto simp: list_all_iff)
  next
    case (mixed qs v a b c' d)
    have "is_digit_in 16 x" if "is_digit_in 10 x" for x using that by (auto simp: is_digit_in_def split: option.splits)
    then show ?thesis using p mixed(2,3) group_text_chars[of _ c] ipv4_chars[OF mixed(4), of c] by (auto simp: list_all_iff)
  qed
qed

text \<open>What reading an address and reading its sides have to do with each other.\<close>

definition sides_give :: "(string \<Rightarrow> 16 word list option) \<Rightarrow> (string \<Rightarrow> 16 word list option) \<Rightarrow> string list \<Rightarrow> 16 word list \<Rightarrow> bool" where
  "sides_give inner outer sides gs \<longleftrightarrow>
     (\<exists>t. sides = [t] \<and> outer t = Some gs \<and> length gs = 8) \<or>
     (\<exists>l r ls rs. sides = [l, r] \<and> inner l = Some ls \<and> outer r = Some rs \<and> length ls + length rs \<le> 7 \<and>
        gs = ls @ replicate (8 - length ls - length rs) 0 @ rs)"

lemma read_ipv6_sides:
  assumes "read_ipv6 s = Some gs"
  shows "sides_give (read_side False) (read_side True) (split_double CHR '':'' s) gs"
  using assms by (auto simp: read_ipv6_def sides_give_def split: list.splits option.splits if_splits)

lemma read_ipv6_length: "read_ipv6 s = Some gs \<Longrightarrow> length gs = 8"
  using read_ipv6_sides by (fastforce simp: sides_give_def)

lemma read_ipv6_chars:
  assumes "read_ipv6 s = Some gs" and "c \<in> set s"
  shows "is_digit_in 16 c \<or> c = CHR '':'' \<or> c = CHR ''.''"
proof -
  obtain p where p: "c = CHR '':'' \<or> p \<in> set (split_double CHR '':'' s) \<and> c \<in> set p"
    using in_split_double[OF assms(2)] by blast
  show ?thesis
    using read_ipv6_sides[OF assms(1)] p side_chars[of True _ _ c] side_chars[of False _ _ c] unfolding sides_give_def by auto
qed

lemma parse_sides:
  assumes "sides_give parseIpv6Groups parseIpv6Groups
    (split_double CHR '':'' (expandEmbeddedIpv4 (strip_brackets (to_lower s)))) gs"
  shows "parseIpv6Bytes s = Some (concat (map group_bytes gs))"
  using assms unfolding sides_give_def
proof (elim disjE exE conjE)
  fix t
  assume "split_double CHR '':'' (expandEmbeddedIpv4 (strip_brackets (to_lower s))) = [t]"
    "parseIpv6Groups t = Some gs" "length gs = 8"
  then show ?thesis by (simp add: parseIpv6Bytes_def parseIpv6Groups_def[of "[]"])
next
  fix l r ls rs
  assume a: "split_double CHR '':'' (expandEmbeddedIpv4 (strip_brackets (to_lower s))) = [l, r]"
    "parseIpv6Groups l = Some ls" "parseIpv6Groups r = Some rs" "length ls + length rs \<le> 7"
    "gs = ls @ replicate (8 - length ls - length rs) 0 @ rs"
  then have "nat (8 - int (length ls) - int (length rs)) = 8 - length ls - length rs" by simp
  then show ?thesis using a by (simp add: parseIpv6Bytes_def)
qed

lemma split_double_pair:
  "c \<notin> set p \<Longrightarrow> q \<noteq> [] \<Longrightarrow> c \<notin> set q \<Longrightarrow> split_double c (p @ c # q) = [p @ c # q]"
proof (induction p)
  case Nil
  then show ?case by (cases q) (auto simp: split_double_none)
next
  case (Cons x p)
  then show ?case by (cases p) auto
qed

lemma groups_text_ends:
  "groups_text x \<noteq> []" "hd (groups_text x) \<noteq> CHR '':''" "split_double CHR '':'' (groups_text x) = [groups_text x]"
proof -
  obtain a b c d where x: "x = (a, b, c, d)" by (cases x)
  have "CHR '':'' \<notin> set (number_text 16 n)" "number_text 16 n \<noteq> []" for n
    using number_text_digits[of 16 n] digit_no_sign(7)[of 16] by (auto simp: list_all_iff)
  then show "groups_text x \<noteq> []" "hd (groups_text x) \<noteq> CHR '':''"
    "split_double CHR '':'' (groups_text x) = [groups_text x]"
    by (simp_all add: x groups_text_def split_double_pair hd_append) (metis hd_in_set)
qed

lemma expand_end:
  assumes "u \<noteq> []" and "last u = CHR '':''" and "read_ipv4 v = Some x"
  shows "expandEmbeddedIpv4 (u @ v) = u @ groups_text x"
proof -
  have v: "CHR '':'' \<notin> set v" using ipv4_chars[OF assms(3)] digit_no_sign(7)[of 10] by fastforce
  obtain w where u: "u = w @ [CHR '':'']" using assms(1,2) by (metis append_butlast_last_id)
  have "takeWhile (\<lambda>c. c \<noteq> CHR '':'') (rev (u @ v)) = rev v"
    using v by (simp add: u takeWhile_append)
  then have "last_colon (u @ v) = Some (w, v)" by (simp add: last_colon_def u)
  then show ?thesis
    using ipv4_dotted[OF assms(3)] read_ipv4_parsed[OF assms(3)] u
    by (cases x) (simp add: expandEmbeddedIpv4_def groups_text_def)
qed

lemma plain_sides:
  assumes "sides_give (read_side False) (read_side True) sides gs" and "list_all (\<lambda>p. to_lower p = p) sides"
    and "\<forall>p \<in> set sides. CHR ''.'' \<notin> set p"
  shows "sides_give parseIpv6Groups parseIpv6Groups sides gs"
  using assms(1)[unfolded sides_give_def]
proof (elim disjE exE conjE)
  fix l r ls rs
  assume lr: "sides = [l, r]" "read_side False l = Some ls" "read_side True r = Some rs"
    "length ls + length rs \<le> 7" "gs = ls @ replicate (8 - length ls - length rs) 0 @ rs"
  then have "parseIpv6Groups l = Some ls" "parseIpv6Groups r = Some rs"
    using plain_side[OF lr(2)] plain_side[OF lr(3)] assms(2,3) by simp_all
  then show ?thesis using lr by (simp add: sides_give_def)
qed (use assms in \<open>auto simp: sides_give_def intro: plain_side\<close>)

lemma dotted_sides:
  assumes sides: "sides_give (read_side False) (read_side True) (split_double CHR '':'' s) gs"
    and lower: "to_lower s = s" and dot: "CHR ''.'' \<in> set s"
  shows "sides_give parseIpv6Groups parseIpv6Groups (split_double CHR '':'' (expandEmbeddedIpv4 s)) gs"
proof -
  note lowers = sides_lower[OF lower]
  have replaced: "\<exists>t. s = t @ v \<and> split_double CHR '':'' t = pre @ [u] \<and>
      split_double CHR '':'' (t @ groups_text x) = pre @ [u @ groups_text x]"
    if "split_double CHR '':'' s = pre @ [u @ v]" "read_ipv4 v = Some x" for pre u v x
  proof -
    have "v \<noteq> []" using ipv4_dotted[OF that(2)] by auto
    moreover have "CHR '':'' \<notin> set v" using ipv4_chars[OF that(2)] digit_no_sign(7)[of 10] by fastforce
    ultimately show ?thesis by (rule split_double_last[OF that(1) _ _ groups_text_ends])
  qed
  from sides[unfolded sides_give_def] show ?thesis
  proof (elim disjE exE conjE)
    fix t
    assume t: "split_double CHR '':'' s = [t]" "read_side True t = Some gs" "length gs = 8"
    then have "s = t" using join_split_double[of "CHR '':''" s] by simp
    obtain u v x where u: "t = u @ v" "read_ipv4 v = Some x" "u = [] \<or> last u = CHR '':''" "u = [] \<longrightarrow> length gs = 2"
      "parseIpv6Groups (u @ groups_text x) = Some gs"
      using dotted_side[OF t(2)] dot lower \<open>s = t\<close> by metis
    have "u \<noteq> []" using u(4) t(3) by auto
    then have "expandEmbeddedIpv4 s = u @ groups_text x" using expand_end u(1-3) \<open>s = t\<close> by metis
    moreover have "split_double CHR '':'' (u @ groups_text x) = [u @ groups_text x]"
      using replaced[of "[]" u v x] t(1) u(1,2) \<open>s = t\<close> by auto
    ultimately show ?thesis using u(5) t(3) by (simp add: sides_give_def)
  next
    fix l r ls rs
    assume lr: "split_double CHR '':'' s = [l, r]" "read_side False l = Some ls" "read_side True r = Some rs"
      "length ls + length rs \<le> 7" "gs = ls @ replicate (8 - length ls - length rs) 0 @ rs"
    have low: "to_lower l = l" "to_lower r = r" using lowers lr(1) by simp_all
    have l: "CHR ''.'' \<notin> set l" using dotted_side[OF lr(2) _ low(1)] by blast
    moreover have "CHR ''.'' \<in> set r" using in_split_double[OF dot, of "CHR '':''"] l lr(1) by auto
    ultimately obtain u v x where u: "r = u @ v" "read_ipv4 v = Some x" "u = [] \<or> last u = CHR '':''"
      "parseIpv6Groups (u @ groups_text x) = Some rs"
      using dotted_side[OF lr(3) _ low(2)] by metis
    obtain t where t: "s = t @ v" "split_double CHR '':'' t = [l, u]"
      "split_double CHR '':'' (t @ groups_text x) = [l, u @ groups_text x]"
      using replaced[of "[l]" u v x] lr(1) u(1,2) by auto
    have "t = l @ ''::'' @ u" using join_split_double[of "CHR '':''" t] t(2) by simp
    then have "expandEmbeddedIpv4 s = t @ groups_text x" using expand_end[OF _ _ u(2), of t] u(3) t(1) by auto
    then show ?thesis using t(3) plain_side[OF lr(2) l low(1)] u(4) lr(4,5) by (simp add: sides_give_def)
  qed
qed

lemma strip_nothing:
  assumes "CHR ''['' \<notin> set t" and "CHR '']'' \<notin> set t"
  shows "strip_brackets t = t"
proof -
  have "t \<noteq> [] \<Longrightarrow> hd t \<noteq> CHR ''[''" "t \<noteq> [] \<Longrightarrow> last t \<noteq> CHR '']''"
    using assms by (metis hd_in_set, metis last_in_set)
  then show ?thesis by (auto simp: strip_brackets_def Let_def)
qed

lemma read_ipv6_parsed:
  assumes "read_ipv6 s = Some gs"
  shows "parseIpv6Bytes s = Some (concat (map group_bytes gs))"
proof -
  let ?s = "to_lower s"
  have read: "read_ipv6 ?s = Some gs" using assms by simp
  have "CHR ''['' \<notin> set ?s" "CHR '']'' \<notin> set ?s"
    using read_ipv6_chars[OF read] digit_no_sign(9,10)[of 16] by fastforce+
  then have strip: "strip_brackets ?s = ?s" by (rule strip_nothing)
  have lower: "to_lower ?s = ?s" by simp
  have "sides_give parseIpv6Groups parseIpv6Groups (split_double CHR '':'' (expandEmbeddedIpv4 ?s)) gs"
  proof (cases "CHR ''.'' \<in> set ?s")
    case True
    then show ?thesis by (rule dotted_sides[OF read_ipv6_sides[OF read] lower])
  next
    case False
    then have "expandEmbeddedIpv4 ?s = ?s" by (simp add: expandEmbeddedIpv4_def)
    then show ?thesis using plain_sides[OF read_ipv6_sides[OF read] sides_lower[OF lower]] split_double_in False by fastforce
  qed
  then show ?thesis using parse_sides[of s gs] strip by simp
qed

section \<open>The check\<close>

text \<open>The address that a text without a zone stands for.\<close>

definition blocked_text :: "string \<Rightarrow> bool" where
  "blocked_text s \<longleftrightarrow>
     (case (read_ipv4 s, read_ipv6 s) of
        (Some x, _) \<Rightarrow> list_ex (in_network (v4_address x)) blocked_v4
      | (None, Some gs) \<Rightarrow> blocked_address (v6_address gs)
      | _ \<Rightarrow> True)"

text \<open>
  C26. The check of addresses is membership in networks: in whatever notation without a zone an address is written, it is
  blocked exactly when it is, as a word of 32 or 128 bits, in one of the blocked networks, or stands for an
  address of version 4 that is; a text that is no address is blocked.
\<close>

theorem blocked_addresses_are_networks:
  assumes "CHR ''%'' \<notin> set s"
  shows "isBlockedIpAddress s \<longleftrightarrow> blocked_text s"
proof -
  have "dropWhile (\<lambda>c. c \<noteq> CHR ''%'') s = []" using assms by auto
  then have six: "is_ipv6 s \<longleftrightarrow> read_ipv6 s \<noteq> None" unfolding is_ipv6_def by (simp only: list.case)
  show ?thesis
  proof (cases "read_ipv4 s")
    case (Some x)
    then have "is_ipv4 s" by (simp add: read_ipv4_def split: if_splits)
    then show ?thesis
      using read_ipv4_parsed[OF Some] blocked_v4_networks[of x] Some
      by (simp add: isBlockedIpAddress_def isIP_def isBlockedIpv4Address_def blocked_text_def)
  next
    case None
    then have "\<not> is_ipv4 s" by (simp add: read_ipv4_def split: if_splits)
    then show ?thesis
      using None six read_ipv6_parsed[of s] read_ipv6_length[of s] blocked_v6_networks
      by (cases "read_ipv6 s") (simp_all add: isBlockedIpAddress_def isIP_def isBlockedIpv6Address_def blocked_text_def)
  qed
qed

lemmas evaluate_text = read_ipv4_def is_ipv4_def is_octet_text_def read_side_def is_group_text_def
  is_digit_in_def digit_value_def number_value_def group_of_def

lemma evaluate_gaps:
  "split_double CHR '':'' ''::FFFF:10.1.2.3'' = [[], ''FFFF:10.1.2.3'']"
  "split_double CHR '':'' ''2606:4700::1111'' = [''2606:4700'', ''1111'']"
  "split_double CHR '':'' ''64:ff9b::169.254.169.254'' = [''64:ff9b'', ''169.254.169.254'']"
  by simp_all

lemma evaluate_sides:
  "read_side v4 [] = Some []" "read_side True ''FFFF:10.1.2.3'' = Some [0xffff, 0x0a01, 0x0203]"
  "read_side v4 ''2606:4700'' = Some [0x2606, 0x4700]" "read_side v4 ''1111'' = Some [0x1111]"
  "read_side v4 ''64:ff9b'' = Some [0x64, 0xff9b]" "read_side True ''169.254.169.254'' = Some [0xa9fe, 0xa9fe]"
  by (simp_all add: evaluate_text)

lemma evaluate_zeros: "replicate 5 x = [x, x, x, x, x]" "replicate 4 x = [x, x, x, x]"
  by (simp_all add: numeral_eq_Suc)

lemma evaluate_addresses:
  "read_ipv6 ''::FFFF:10.1.2.3'' = Some [0, 0, 0, 0, 0, 0xffff, 0x0a01, 0x0203]"
  "read_ipv6 ''2606:4700::1111'' = Some [0x2606, 0x4700, 0, 0, 0, 0, 0, 0x1111]"
  "read_ipv6 ''64:ff9b::169.254.169.254'' = Some [0x64, 0xff9b, 0, 0, 0, 0, 0xa9fe, 0xa9fe]"
  by (simp_all only: read_ipv6_def evaluate_gaps evaluate_sides list.case option.case prod.case) (simp_all add: evaluate_zeros)

lemma evaluate_no_ipv4:
  "read_ipv4 ''::FFFF:10.1.2.3'' = None" "read_ipv4 ''2606:4700::1111'' = None" "read_ipv4 ''64:ff9b::169.254.169.254'' = None"
  by (simp_all add: evaluate_text)

lemma evaluate_blocked:
  "blocked_text ''::FFFF:10.1.2.3''" "\<not> blocked_text ''2606:4700::1111''" "\<not> blocked_text ''64:ff9b::169.254.169.254''"
proof -
  have "list_ex (in_network (v4_address (10, 1, 2, 3))) blocked_v4"
    using blocked_v4_networks[of "(10, 1, 2, 3)"] by simp
  then have "in_network (v6_address [0, 0, 0, 0, 0, 0xffff, 0x0a01, 0x0203]) v4_mapped \<and>
      list_ex (in_network (ucast (v6_address [0, 0, 0, 0, 0, 0xffff, 0x0a01, 0x0203]))) blocked_v4"
    unfolding v6_prefixes(7)[OF refl] low_address[OF refl] by simp
  then show "blocked_text ''::FFFF:10.1.2.3''"
    by (simp only: blocked_text_def evaluate_addresses evaluate_no_ipv4 blocked_address_def prod.case option.case simp_thms)
  show "\<not> blocked_text ''2606:4700::1111''" "\<not> blocked_text ''64:ff9b::169.254.169.254''"
    unfolding blocked_text_def evaluate_addresses evaluate_no_ipv4 blocked_address_def prod.case option.case blocked_v6_def
      list.map list_ex_Cons_iff list_ex_Nil_iff v6_prefixes[OF refl] by simp_all
qed

lemma blocked_addresses_are_networks_witness:
  "isBlockedIpAddress ''::FFFF:10.1.2.3'' \<and> \<not> isBlockedIpAddress ''2606:4700::1111''"
  using blocked_addresses_are_networks[of "''::FFFF:10.1.2.3''"] blocked_addresses_are_networks[of "''2606:4700::1111''"]
    evaluate_blocked by simp

section \<open>What the check does not do\<close>

text \<open>
  The block \<open>192.0.0.0/16\<close> is wider than the reserved \<open>192.0.0.0/24\<close>: public addresses are refused. Addresses of
  version 4 are also reached through prefixes other than the mapped one, as that of the translation of
  addresses, which are not looked into.
\<close>

lemma public_address_is_blocked: "isBlockedIpAddress ''192.0.78.24''"
  by code_simp

lemma translated_address_is_not_blocked: "blocked_text ''169.254.169.254'' \<and> \<not> blocked_text ''64:ff9b::169.254.169.254''"
proof -
  have "read_ipv4 ''169.254.169.254'' = Some (169, 254, 169, 254)" by (simp add: evaluate_text)
  then show ?thesis
    using evaluate_blocked(3) blocked_v4_networks[of "(169, 254, 169, 254)"] by (simp add: blocked_text_def)
qed

end
