(* ===== verification/Web_Promises.thy ===== *)
theory Web_Promises imports Web_Fetch Web_Notations begin

text \<open>
  What the web tool promises: it connects to public addresses only, over the default ports, for names that are
  not local, on the first hop as after every redirect (\<open>requests_stay_public\<close>), and what it returns is bounded and
  says when it is not the whole page (\<open>pages_are_bounded\<close>).
\<close>

section \<open>Connections\<close>

definition public_request :: "request_options \<Rightarrow> bool" where
  "public_request q \<longleftrightarrow>
     (ro_protocol q = ''http:'' \<and> ro_port q = Some 80 \<or> ro_protocol q = ''https:'' \<and> ro_port q = Some 443) \<and>
     \<not> isBlockedIpAddress (ra_address (ro_address q)) \<and>
     ro_hostname q \<noteq> ''localhost'' \<and> \<not> ends_with (ro_hostname q) ''.localhost'' \<and>
     ro_hostname q \<notin> set blockedMetadataHostnames \<and>
     (isIP (ro_hostname q) \<noteq> 0 \<longrightarrow> ra_address (ro_address q) = ro_hostname q)"

text \<open>All requests of a hop are for one URL.\<close>

definition same_page :: "request_options list \<Rightarrow> bool" where
  "same_page h \<longleftrightarrow> (\<exists>url. \<forall>q \<in> set h. q = request_options_for url (ro_address q))"

lemma validated:
  assumes "validateTarget sv u requestedUrl n s = (s1, Inr (url, addresses))"
  shows "web_sent s1 = web_sent s \<and> (\<forall>a \<in> set addresses. public_request (request_options_for url a))"
proof -
  obtain w r where v: "validateWebFetchUrl sv u (web_world s) = (w, r)" by (metis prod.exhaust)
  have r: "r = Inr (url, addresses)" and s1: "s1 = s\<lparr>web_world := w\<rparr>"
    using assms v by (auto simp: validateTarget_def Let_def throwIfOperationAborted_def split: option.splits sum.splits)
  let ?h = "normalizeHostname (url_hostname url)"
  have parsed: "parseWebFetchUrl (ws_new_URL sv) u = Inr url" and name: "assertAllowedHostname ?h = Inr ()"
    and addr: "\<forall>a \<in> set addresses. \<not> isBlockedIpAddress (ra_address a) \<and> (isIP ?h \<noteq> 0 \<longrightarrow> ra_address a = ?h)"
    using v unfolding r
    by (auto simp: validateWebFetchUrl_def Let_def assertAllowedIpAddress_def check_resolved_def find_None_iff
        split: sum.splits if_splits option.splits prod.splits)
  from parsed have "url_protocol url = ''http:'' \<or> url_protocol url = ''https:''" "url_port url = []"
    by (auto simp: parseWebFetchUrl_def split: option.splits if_splits)
  moreover from name have "?h \<noteq> ''localhost''" "\<not> ends_with ?h ''.localhost''" "?h \<notin> set blockedMetadataHostnames"
    by (auto simp: assertAllowedHostname_def split: if_splits)
  ultimately show ?thesis using addr s1 by (auto simp: public_request_def request_options_for_def Let_def)
qed

lemma requested:
  assumes "requestTarget sv cfg url addresses requestedUrl n lastError s = (s1, r)"
  shows "\<exists>h. web_sent s1 = web_sent s @ h \<and> (\<forall>q \<in> set h. \<exists>a \<in> set addresses. q = request_options_for url a)"
  using assms
proof (induction sv cfg url addresses requestedUrl n lastError s arbitrary: s1 r rule: requestTarget.induct)
  case (2 sv cfg url a as requestedUrl n lastError s)
  obtain s2 x where x: "nodeWebFetchHttpRequest sv url a (fc_maxResponseBytes cfg) s = (s2, x)" by (metis prod.exhaust)
  then have sent: "web_sent s2 = web_sent s @ [request_options_for url a]"
    by (auto simp: nodeWebFetchHttpRequest_def Let_def split: prod.splits)
  show ?case
  proof (cases "\<exists>t. x = Inl t \<and> ws_abort sv (web_world s2) = None")
    case True
    then obtain t where t: "x = Inl t" "ws_abort sv (web_world s2) = None" by blast
    then have "requestTarget sv cfg url as requestedUrl n (Some t) s2 = (s1, r)" using 2(2) x by simp
    from 2(1)[OF x[symmetric] t(1) _ this] t(2) obtain h where
      "web_sent s1 = web_sent s2 @ h" "\<forall>q \<in> set h. \<exists>a \<in> set as. q = request_options_for url a" by auto
    then show ?thesis using sent by (intro exI[of _ "request_options_for url a # h"]) auto
  next
    case False
    then have "s1 = s2" using 2(2) x by (auto split: sum.splits if_splits)
    then show ?thesis using sent by auto
  qed
qed simp

lemma hop_requests:
  assumes "fetch_hop sv cfg input u n s = (s1, r)"
  shows "\<exists>h. web_sent s1 = web_sent s @ h \<and> same_page h \<and> (\<forall>q \<in> set h. public_request q)"
proof (cases "\<exists>s2 url addresses. validateTarget sv u (fi_url input) n s = (s2, Inr (url, addresses)) \<and>
    throwIfOperationAborted sv u n s = Inr () \<and> throwIfOperationAborted sv (url_href url) n s2 = Inr ()")
  case True
  then obtain s2 url addresses where v: "validateTarget sv u (fi_url input) n s = (s2, Inr (url, addresses))"
    "throwIfOperationAborted sv u n s = Inr ()" "throwIfOperationAborted sv (url_href url) n s2 = Inr ()" by blast
  obtain s3 x where x: "requestTarget sv cfg url addresses (fi_url input) n None s2 = (s3, x)" by (metis prod.exhaust)
  have "s1 = s3" using assms v x by (auto simp: fetch_hop_def split: sum.splits)
  moreover obtain h where h: "web_sent s3 = web_sent s2 @ h" "\<forall>q \<in> set h. \<exists>a \<in> set addresses. q = request_options_for url a"
    using requested[OF x] by blast
  moreover have "ro_address (request_options_for url a) = a" for a by (simp add: request_options_for_def Let_def)
  ultimately show ?thesis using validated[OF v(1)] unfolding same_page_def by (intro exI[of _ h]) fastforce
next
  case False
  obtain s2 y where y: "validateTarget sv u (fi_url input) n s = (s2, y)" by (metis prod.exhaust)
  have "web_sent s2 = web_sent s" using y by (auto simp: validateTarget_def Let_def split: prod.splits)
  then have "web_sent s1 = web_sent s" using assms y False by (auto simp: fetch_hop_def split: sum.splits prod.splits)
  then show ?thesis by (intro exI[of _ "[]"]) (simp add: same_page_def)
qed

lemma loop_requests:
  assumes "fetch_from sv cfg input u n s = (s1, r)" and "n \<le> fc_maxRedirects cfg"
  shows "(\<exists>hops. web_sent s1 = web_sent s @ concat hops \<and> length hops \<le> fc_maxRedirects cfg - n + 1 \<and>
      (\<forall>h \<in> set hops. same_page h \<and> (\<forall>q \<in> set h. public_request q)))"
  using assms
proof (induction sv cfg input u n s arbitrary: s1 r rule: fetch_from.induct)
  case (1 sv cfg input u n s)
  obtain s2 x where x: "fetch_hop sv cfg input u n s = (s2, x)" by (metis prod.exhaust)
  obtain h where h: "web_sent s2 = web_sent s @ h" "same_page h" "\<forall>q \<in> set h. public_request q"
    using hop_requests[OF x] by blast
  show ?case
  proof (cases "\<exists>v. x = Inr (Hop_Redirect v)")
    case True
    then obtain v where v: "x = Inr (Hop_Redirect v)" by blast
    then have lt: "n < fc_maxRedirects cfg" using fetch_hop_redirects x by blast
    have "fetch_from sv cfg input v (n + 1) s2 = (s1, r)" using 1(2) x v by (simp add: fetch_from.simps[of sv cfg input u n s])
    from 1(1)[OF x[symmetric] v refl this] lt obtain hops where hops: "web_sent s1 = web_sent s2 @ concat hops"
      "length hops \<le> fc_maxRedirects cfg - (n + 1) + 1" "\<forall>h \<in> set hops. same_page h \<and> (\<forall>q \<in> set h. public_request q)" by auto
    then show ?thesis using h lt by (intro exI[of _ "h # hops"]) auto
  next
    case False
    then have "s1 = s2" using 1(2) x by (auto simp: fetch_from.simps[of sv cfg input u n s] split: sum.splits hop.splits)
    then show ?thesis using h by (intro exI[of _ "[h]"]) auto
  qed
qed

text \<open>
  C25. The web tool stays outside: whatever names resolve to and servers redirect to, every connection it opens
  goes to an address that is not blocked, over the default port of http or https, for a host that is neither
  local nor a metadata host, and for a host written as an address to that address itself. The connections are
  those of at most one more page than redirects are allowed, each page asked for under one URL.
\<close>

theorem requests_stay_public:
  assumes "fetch sv cfg input w = (s, r)"
  shows "\<exists>hops. web_sent s = concat hops \<and> length hops \<le> fc_maxRedirects cfg + 1 \<and>
    (\<forall>h \<in> set hops. same_page h \<and> (\<forall>q \<in> set h. public_request q))"
  using loop_requests[of sv cfg input "fi_url input" 0 "\<lparr> web_world = w, web_sent = [] \<rparr>" s r] assms
  by (simp add: fetch_def)

section \<open>Pages\<close>

lemma read_chunks_takes:
  "length stored \<le> maxBytes \<Longrightarrow> read_chunks maxBytes stored chunks =
    (take maxBytes (stored @ concat chunks), length (stored @ concat chunks) > maxBytes)"
proof (induction maxBytes stored chunks rule: read_chunks.induct)
  case (2 maxBytes stored chunk chunks)
  then show ?case by (cases "length chunk > maxBytes - length stored") (auto simp: Let_def)
qed simp

lemma page_hop:
  assumes "fetch_from sv cfg input u n s = (s1, Inr (page, m))"
  shows "m \<le> max n (fc_maxRedirects cfg) \<and> (\<exists>v s0. fetch_hop sv cfg input v m s0 = (s1, Inr (Hop_Page page)))"
  using assms
proof (induction sv cfg input u n s arbitrary: rule: fetch_from.induct)
  case (1 sv cfg input u n s)
  obtain s2 x where x: "fetch_hop sv cfg input u n s = (s2, x)" by (metis prod.exhaust)
  note step = fetch_from.simps[of sv cfg input u n s]
  show ?case
  proof (cases x)
    case (Inr hop)
    show ?thesis
    proof (cases hop)
      case (Hop_Redirect v)
      then have "n < fc_maxRedirects cfg" using fetch_hop_redirects x Inr by blast
      moreover have "fetch_from sv cfg input v (n + 1) s2 = (s1, Inr (page, m))" using 1(2) x Inr Hop_Redirect by (simp add: step)
      ultimately show ?thesis using 1(1)[OF x[symmetric] Inr Hop_Redirect] by auto
    next
      case (Hop_Page p)
      then show ?thesis using 1(2) x Inr by (auto simp: step)
    qed
  qed (use 1(2) x in \<open>simp add: step\<close>)
qed

lemma answered:
  assumes "requestTarget sv cfg url addresses requestedUrl n lastError s = (s1, Inr response)"
  shows "\<exists>w0 w1 raw. web_sent s1 \<noteq> [] \<and> ws_connect sv (last (web_sent s1)) w0 = (w1, Inr raw) \<and>
    response_of (fc_maxResponseBytes cfg) raw = Inr response"
  using assms
proof (induction sv cfg url addresses requestedUrl n lastError s rule: requestTarget.induct)
  case (2 sv cfg url a as requestedUrl n lastError s)
  obtain s2 x where x: "nodeWebFetchHttpRequest sv url a (fc_maxResponseBytes cfg) s = (s2, x)" by (metis prod.exhaust)
  show ?case
  proof (cases x)
    case (Inl t)
    then have c: "ws_abort sv (web_world s2) = None"
      "requestTarget sv cfg url as requestedUrl n (Some t) s2 = (s1, Inr response)" using 2(2) x by (auto split: if_splits)
    from 2(1)[OF x[symmetric] Inl _ c(2)] c(1) show ?thesis by simp
  next
    case (Inr y)
    then have "s1 = s2" "y = response" using 2(2) x by auto
    then show ?thesis using x Inr
      by (fastforce simp: nodeWebFetchHttpRequest_def Let_def split: prod.splits sum.splits)
  qed
qed simp

lemma page_read:
  assumes "fetch_hop sv cfg input u n s = (s1, Inr (Hop_Page page))"
  shows "\<exists>w0 w1 raw response url. web_sent s1 \<noteq> [] \<and> ws_connect sv (last (web_sent s1)) w0 = (w1, Inr raw) \<and>
    response_of (fc_maxResponseBytes cfg) raw = Inr response \<and> \<not> isRedirectStatus (hr_status response) \<and>
    read_page sv cfg input url response n s1 = Inr page"
proof -
  obtain s2 url addresses response where "requestTarget sv cfg url addresses (fi_url input) n None s2 = (s1, Inr response)"
    "follow_hop sv cfg input url response n s1 = Inr (Hop_Page page)"
    using assms by (auto simp: fetch_hop_def split: sum.splits prod.splits)
  then show ?thesis using answered[of sv cfg url addresses "fi_url input" n None s2 s1 response]
    by (fastforce simp: follow_hop_def Let_def split: if_splits)
qed

definition page_of :: "'w web_services \<Rightarrow> fetch_config \<Rightarrow> fetch_input \<Rightarrow> string \<Rightarrow> fetch_output \<Rightarrow> bool" where
  "page_of sv cfg input body page \<longleftrightarrow>
     (\<exists>mediaType \<in> set allowedContentTypes.
        let t = et_text (extractWebPageText (ws_code_point sv) mediaType (ws_utf8 sv (take (fc_maxResponseBytes cfg) body)))
        in fo_bytes page = min (fc_maxResponseBytes cfg) (length body) \<and> fo_text page = take (text_limit cfg input) t \<and>
           (fo_truncated page \<longleftrightarrow> length body > fc_maxResponseBytes cfg \<or> length t > text_limit cfg input))"

text \<open>
  Pages are bounded and say when they are cut: a page comes after at most as many redirects as are allowed,
  from the last connection, whose answer succeeded with a readable type; it holds the text of the body up to
  the limit of bytes, up to the limit of characters, and it is marked as truncated exactly when one of the two
  limits cut something off.
\<close>

lemma pages_are_bounded:
  assumes "fetch sv cfg input w = (s, Inr (page, n))"
  shows "n \<le> fc_maxRedirects cfg \<and> web_sent s \<noteq> [] \<and>
    (\<exists>w0 w1 raw. ws_connect sv (last (web_sent s)) w0 = (w1, Inr raw) \<and> 200 \<le> raw_status raw \<and> raw_status raw < 300 \<and>
      page_of sv cfg input (concat (raw_chunks raw)) page)"
proof -
  obtain u s0 where n: "n \<le> fc_maxRedirects cfg" and hop: "fetch_hop sv cfg input u n s0 = (s, Inr (Hop_Page page))"
    using page_hop assms unfolding fetch_def by (metis max_0L)
  obtain w0 w1 raw response url where r: "web_sent s \<noteq> []" "ws_connect sv (last (web_sent s)) w0 = (w1, Inr raw)"
    "response_of (fc_maxResponseBytes cfg) raw = Inr response" "\<not> isRedirectStatus (hr_status response)"
    "read_page sv cfg input url response n s = Inr page" using page_read[OF hop] by blast
  obtain mt where ok: "200 \<le> hr_status response" "hr_status response < 300" "encoding_of (hr_headers response) = None"
    and mt: "parseMediaType (content_type_of (hr_headers response)) = Some mt" "mt \<in> set allowedContentTypes"
    and page: "page = page_output sv cfg input url response mt s"
    using r(5) by (auto simp: read_page_def Let_def split: if_splits option.splits)
  have same: "hr_status response = raw_status raw" "hr_headers response = raw_headers raw"
    using r(3) by (auto simp: response_of_def Let_def split: if_splits prod.splits option.splits bool.splits)
  have "shouldReadResponseBody (raw_status raw) (raw_headers raw)"
    using ok mt same by (simp add: shouldReadResponseBody_def is_allowed_type_def)
  then have body: "hr_body response = take (fc_maxResponseBytes cfg) (concat (raw_chunks raw))"
    "hr_truncated response \<longleftrightarrow> length (concat (raw_chunks raw)) > fc_maxResponseBytes cfg"
    using r(3,4) same read_chunks_takes[of "[]" "fc_maxResponseBytes cfg" "raw_chunks raw"]
    by (auto simp: response_of_def Let_def split: option.splits bool.splits)
  have "page_of sv cfg input (concat (raw_chunks raw)) page"
    using mt(2) body unfolding page_of_def by (intro bexI[of _ mt]) (auto simp: page page_output_def Let_def)
  then show ?thesis using n r(1,2) ok same by auto
qed

section \<open>An example\<close>

text \<open>A page that redirects to another one, which is longer than the tool may return.\<close>

definition demo_url :: "string \<Rightarrow> web_url" where
  "demo_url host =
     \<lparr> url_protocol = ''http:'', url_username = [], url_password = [], url_hostname = host, url_port = [], url_host = host,
       url_path = ''/'', url_search = [], url_href = ''http://'' @ host @ ''/'' \<rparr>"

definition demo_web :: "nat web_services" where
  "demo_web =
     \<lparr> ws_new_URL = (\<lambda>s. if s = ''a'' \<or> s = ''b'' then Some (demo_url s) else None), ws_join_URL = (\<lambda>l u. Some l),
       ws_print_URL = url_href, ws_resolve = (\<lambda>h n. (n, Inr [\<lparr> ra_address = ''8.8.8.8'', ra_family = 4 \<rparr>])),
       ws_connect = (\<lambda>q n. (Suc n,
         if n = 0 then Inr \<lparr> raw_status = 302, raw_headers = [(''location'', Header_One ''b'')], raw_chunks = [], raw_error = None \<rparr>
         else Inr \<lparr> raw_status = 200, raw_headers = [(''content-type'', Header_One ''text/plain'')],
           raw_chunks = [''he'', ''llo''], raw_error = None \<rparr>)),
       ws_abort = (\<lambda>n. None), ws_now = (\<lambda>n. []), ws_utf8 = (\<lambda>s. s), ws_sha256 = (\<lambda>s. s), ws_code_point = (\<lambda>n. None) \<rparr>"

definition demo_input :: fetch_input where
  "demo_input = \<lparr> fi_url = ''a'', fi_maxCharacters = Some 3 \<rparr>"

abbreviation demo_fetch :: "nat web_state \<times> (web_failure, fetch_output \<times> nat) result" where
  "demo_fetch \<equiv> fetch demo_web defaultRuntimeConfig demo_input 0"

lemma demo_address: "isIP ''a'' = 0" "isIP ''b'' = 0" "\<not> isBlockedIpAddress ''8.8.8.8''"
  by code_simp+

lemma demo_names: "normalizeHostname ''a'' = ''a''" "normalizeHostname ''b'' = ''b''"
  by code_simp+

lemma demo_types:
  "parseMediaType ''text/plain'' = Some ''text/plain''" "\<not> isHtmlContentType ''text/plain''" "normalizePlainText ''hello'' = ''hello''"
  "to_lower ''location'' = ''location''" "to_lower ''content-type'' = ''content-type''"
  "to_lower ''content-encoding'' = ''content-encoding''"
  by code_simp+

lemma demo_services:
  "ws_new_URL demo_web ''a'' = Some (demo_url ''a'')" "ws_new_URL demo_web ''b'' = Some (demo_url ''b'')"
  "ws_join_URL demo_web l u = Some l" "ws_abort demo_web n = None" "ws_utf8 demo_web t = t"
  "ws_resolve demo_web h n = (n, Inr [\<lparr> ra_address = ''8.8.8.8'', ra_family = 4 \<rparr>])"
  "ws_connect demo_web q 0 = (Suc 0, Inr \<lparr> raw_status = 302, raw_headers = [(''location'', Header_One ''b'')],
     raw_chunks = [], raw_error = None \<rparr>)"
  "ws_connect demo_web q (Suc 0) = (Suc (Suc 0), Inr \<lparr> raw_status = 200,
     raw_headers = [(''content-type'', Header_One ''text/plain'')], raw_chunks = [''he'', ''llo''], raw_error = None \<rparr>)"
  by (simp_all add: demo_web_def)

lemmas demo_steps = fetch_hop_def throwIfOperationAborted_def validateTarget_def validateWebFetchUrl_def parseWebFetchUrl_def
  demo_services demo_url_def assertAllowedHostname_def demo_address demo_names demo_types check_resolved_def
  nodeWebFetchHttpRequest_def response_of_def follow_hop_def isRedirectStatus_def getHeader_def resolveRedirectUrl_def
  shouldReadResponseBody_def is_allowed_type_def content_type_of_def encoding_of_def allowedContentTypes_def
  read_page_def page_output_def extractWebPageText_def text_limit_def suffix_def blockedMetadataHostnames_def

lemma demo_first_hop:
  "\<exists>q. fetch_hop demo_web defaultRuntimeConfig demo_input ''a'' 0 \<lparr> web_world = 0, web_sent = [] \<rparr> =
    (\<lparr> web_world = Suc 0, web_sent = [q] \<rparr>, Inr (Hop_Redirect ''b''))"
  by (simp add: demo_steps Let_def defaultRuntimeConfig_def)

lemma demo_second_hop:
  "\<exists>q page. fetch_hop demo_web defaultRuntimeConfig demo_input ''b'' (Suc 0) \<lparr> web_world = Suc 0, web_sent = [p] \<rparr> =
    (\<lparr> web_world = Suc (Suc 0), web_sent = [p, q] \<rparr>, Inr (Hop_Page page)) \<and> fo_text page = ''hel'' \<and> fo_truncated page"
  by (simp add: demo_steps Let_def defaultRuntimeConfig_def demo_input_def)

lemma demo_runs:
  "\<exists>page. snd demo_fetch = Inr (page, 1) \<and> fo_text page = ''hel'' \<and> fo_truncated page \<and> web_sent (fst demo_fetch) \<noteq> []"
proof -
  obtain p where p: "fetch_hop demo_web defaultRuntimeConfig demo_input ''a'' 0 \<lparr> web_world = 0, web_sent = [] \<rparr> =
    (\<lparr> web_world = Suc 0, web_sent = [p] \<rparr>, Inr (Hop_Redirect ''b''))" using demo_first_hop by blast
  obtain q page where q: "fetch_hop demo_web defaultRuntimeConfig demo_input ''b'' (Suc 0)
      \<lparr> web_world = Suc 0, web_sent = [p] \<rparr> = (\<lparr> web_world = Suc (Suc 0), web_sent = [p, q] \<rparr>, Inr (Hop_Page page))"
    "fo_text page = ''hel''" "fo_truncated page" using demo_second_hop by blast
  have "fi_url demo_input = ''a''" by (simp add: demo_input_def)
  then show ?thesis using q(2,3)
    by (simp add: fetch_def fetch_from.simps[of demo_web defaultRuntimeConfig demo_input "''a''" 0] p
        fetch_from.simps[of demo_web defaultRuntimeConfig demo_input "''b''" "Suc 0"] q(1))
qed

lemma default_redirects: "fc_maxRedirects defaultRuntimeConfig = 5"
  by (simp add: defaultRuntimeConfig_def)

lemma requests_stay_public_witness:
  "\<exists>hops. web_sent (fst demo_fetch) = concat hops \<and> length hops \<le> 6 \<and>
    list_all (\<lambda>h. same_page h \<and> list_all public_request h) hops \<and> concat hops \<noteq> []"
proof -
  have "fetch demo_web defaultRuntimeConfig demo_input 0 = (fst demo_fetch, snd demo_fetch)" by simp
  from requests_stay_public[OF this] demo_runs show ?thesis
    unfolding default_redirects list_all_iff by auto
qed

lemma pages_are_bounded_witness:
  "\<exists>page w0 w1 raw. snd demo_fetch = Inr (page, 1) \<and> fo_text page = ''hel'' \<and>
    ws_connect demo_web (last (web_sent (fst demo_fetch))) w0 = (w1, Inr raw) \<and>
    page_of demo_web defaultRuntimeConfig demo_input (concat (raw_chunks raw)) page"
proof -
  obtain page where page: "snd demo_fetch = Inr (page, 1)" "fo_text page = ''hel''" using demo_runs by blast
  then have "fetch demo_web defaultRuntimeConfig demo_input 0 = (fst demo_fetch, Inr (page, 1))" by (metis prod.collapse)
  from pages_are_bounded[OF this] page show ?thesis by blast
qed

end
