(* ===== verification/Config_Assets.thy ===== *)
theory Config_Assets imports Permissions "HOL-Library.List_Lexorder" "HOL-Library.Char_ord" begin

text \<open>
  Config assets: the agents, skills and other definitions an instance keeps as versioned records.
  The types are of \<open>packages/core/src/config-assets.ts\<close> and \<open>asset-kinds.ts\<close>, the check of what a
  writer had seen of \<open>config-asset-concurrency.ts\<close>, and the tables with their transactions of
  \<open>packages/postgres-store/src/postgres-config-asset-operations.ts\<close> and \<open>schema/configAssets.ts\<close>.

  Every operation that writes is one transaction under the lock of the state row: it returns the
  tables after it, or an error and the tables stay as they are. The ids that \<open>createPlatformId\<close>
  makes are functions of the place of the mutation in its batch, and a date is its millisecond.
\<close>

section \<open>Scopes and availability\<close>

datatype asset_scope = Of_Instance | Of_Workspace string

definition INSTANCE_ASSET_SCOPE :: asset_scope where
  "INSTANCE_ASSET_SCOPE = Of_Instance"

fun assetScopesEqual :: "asset_scope \<Rightarrow> asset_scope \<Rightarrow> bool" where
  "assetScopesEqual (Of_Workspace l) right =
     (case right of Of_Workspace r \<Rightarrow> l = r | Of_Instance \<Rightarrow> False)"
| "assetScopesEqual Of_Instance right = (right = Of_Instance)"

datatype availability_mode = Available_To_All | Available_To_Selected

record agent_availability =
  av_mode :: availability_mode
  av_personal :: bool
  av_workspaces :: "string list"

datatype initial_availability = Initially_All | Initially_Selected | Selected_When_Replacing

fun resolveInitialAgentAvailabilityMode :: "initial_availability option \<Rightarrow> bool \<Rightarrow> availability_mode" where
  "resolveInitialAgentAvailabilityMode (Some Selected_When_Replacing) deletesSelected =
     (if deletesSelected then Available_To_Selected else Available_To_All)"
| "resolveInitialAgentAvailabilityMode (Some Initially_Selected) deletesSelected = Available_To_Selected"
| "resolveInitialAgentAvailabilityMode (Some Initially_All) deletesSelected = Available_To_All"
| "resolveInitialAgentAvailabilityMode None deletesSelected = Available_To_All"

datatype workspace_kind = Personal_Workspace | Shared_Workspace

definition isAgentAvailableInWorkspace ::
    "agent_availability option \<Rightarrow> workspace_kind \<Rightarrow> string option \<Rightarrow> bool" where
  "isAgentAvailableInWorkspace availability wkind wid =
     (case availability of
        None \<Rightarrow> False
      | Some a \<Rightarrow>
          if av_mode a = Available_To_All then True
          else if wkind = Personal_Workspace then av_personal a
          else (case wid of None \<Rightarrow> False | Some w \<Rightarrow> w \<in> set (av_workspaces a)))"

section \<open>Records\<close>

datatype asset_status = Asset_Active | Asset_Deleted
datatype revision_operation = Op_Create | Op_Update | Op_Delete | Op_Revert

record audit_actor =
  act_userId :: "string option"
  act_externalUserId :: "string option"
  act_label :: string
  act_roles :: "string list"
  act_principalKind :: "string option"
  act_principalId :: "string option"
  act_principalLabel :: "string option"
  act_credentialId :: "string option"
  act_subjectUserId :: "string option"
  act_delegated :: "string option"

record revision_origin =
  orig_requestId :: string
  orig_summary :: string

record config_asset =
  ca_id :: string
  ca_instance :: string
  ca_kind :: string
  ca_name :: string
  ca_scope :: asset_scope
  ca_status :: asset_status
  ca_activeRevisionId :: string
  ca_revision :: nat
  ca_config :: "json option"
  ca_createdAt :: int
  ca_updatedAt :: int

record config_revision =
  rev_id :: string
  rev_assetId :: string
  rev_instance :: string
  rev_revision :: nat
  rev_operation :: revision_operation
  rev_config :: "json option"
  rev_actor :: "audit_actor option"
  rev_origin :: "revision_origin option"
  rev_globalVersion :: nat
  rev_createdAt :: int

record config_state =
  cs_version :: nat
  cs_defaultAgentName :: "string option"

datatype config_mutation =
  Upsert string string json "revision_operation option" "asset_scope option"
| Delete_Asset string string "asset_scope option"
| Set_Default_Agent "string option"

record mutation_input =
  mi_instance :: string
  mi_baseVersion :: "nat option"
  mi_baseRevisions :: "(string \<rightharpoonup> nat option) option"
  mi_baseDefaultAgentName :: "string option option"
  mi_actor :: "audit_actor option"
  mi_origin :: "revision_origin option"
  mi_initialAvailability :: "initial_availability option"
  mi_mutations :: "config_mutation list"

section \<open>The check of what the writer had seen\<close>

fun mutation_key :: "config_mutation \<Rightarrow> (string \<times> string) option" where
  "mutation_key (Upsert kind name config operation scope) = Some (kind, name)"
| "mutation_key (Delete_Asset kind name scope) = Some (kind, name)"
| "mutation_key (Set_Default_Agent name) = None"

fun key_text :: "string \<times> string \<Rightarrow> string" where
  "key_text (kind, name) = kind @ '':'' @ name"

type_synonym current_asset = "asset_status \<times> config_revision"

definition base_matches :: "nat option \<Rightarrow> current_asset option \<Rightarrow> bool" where
  "base_matches base asset =
     (case base of
        None \<Rightarrow> (case asset of None \<Rightarrow> True | Some (status, r) \<Rightarrow> status = Asset_Deleted)
      | Some n \<Rightarrow> (case asset of None \<Rightarrow> False | Some (status, r) \<Rightarrow> rev_revision r = n))"

fun operation_text :: "revision_operation \<Rightarrow> string" where
  "operation_text Op_Create = ''create''"
| "operation_text Op_Update = ''update''"
| "operation_text Op_Delete = ''delete''"
| "operation_text Op_Revert = ''revert''"

fun or_null :: "json option \<Rightarrow> json" where
  "or_null None = JNull"
| "or_null (Some v) = v"

definition conflict_entry :: "string \<times> string \<Rightarrow> current_asset option \<Rightarrow> json" where
  "conflict_entry key asset = JObj
     [(''kind'', JStr (fst key)), (''name'', JStr (snd key)),
      (''currentRevision'', or_null (map_option (\<lambda>a. JNum (of_nat (rev_revision (snd a)))) asset)),
      (''actorLabel'', or_null (case asset of None \<Rightarrow> None
         | Some a \<Rightarrow> map_option (JStr \<circ> act_label) (rev_actor (snd a)))),
      (''timestamp'', or_null (map_option (\<lambda>a. JNum (of_int (rev_createdAt (snd a)))) asset)),
      (''operation'', or_null (map_option (\<lambda>a. JStr (operation_text (rev_operation (snd a)))) asset))]"

record base_check =
  bc_conflicts :: "json list"
  bc_checked :: "string list"
  bc_default :: "string option option"

fun check_base ::
    "mutation_input \<Rightarrow> (string \<rightharpoonup> nat option) \<Rightarrow> config_state \<Rightarrow> (string \<rightharpoonup> current_asset) \<Rightarrow>
     config_mutation \<Rightarrow> base_check \<Rightarrow> (js_error, base_check) result" where
  "check_base i bases st current (Set_Default_Agent name) c =
     (case mi_baseDefaultAgentName i of
        None \<Rightarrow> Inl (app_error VALIDATION_FAILED ''Missing default-agent baseline'')
      | Some base \<Rightarrow>
          Inr (if base \<noteq> cs_defaultAgentName st
               then c\<lparr>bc_default := Some (cs_defaultAgentName st)\<rparr> else c))"
| "check_base i bases st current m c =
     (case mutation_key m of
        None \<Rightarrow> Inr c
      | Some (kind, name) \<Rightarrow>
          let key = key_text (kind, name) in
          if key \<in> set (bc_checked c) then Inr c
          else (case bases key of
              None \<Rightarrow> Inl (app_error VALIDATION_FAILED (''Missing base revision for '' @ quoted key))
            | Some base \<Rightarrow>
                let c' = c\<lparr>bc_checked := bc_checked c @ [key]\<rparr> in
                Inr (if base_matches base (current key) then c'
                     else c'\<lparr>bc_conflicts := bc_conflicts c' @ [conflict_entry (kind, name) (current key)]\<rparr>)))"

fun check_bases ::
    "mutation_input \<Rightarrow> (string \<rightharpoonup> nat option) \<Rightarrow> config_state \<Rightarrow> (string \<rightharpoonup> current_asset) \<Rightarrow>
     config_mutation list \<Rightarrow> base_check \<Rightarrow> (js_error, base_check) result" where
  "check_bases i bases st current [] c = Inr c"
| "check_bases i bases st current (m # ms) c =
     bind_result (check_base i bases st current m c) (check_bases i bases st current ms)"

definition assertConfigAssetBases ::
    "mutation_input \<Rightarrow> config_state \<Rightarrow> (string \<rightharpoonup> current_asset) \<Rightarrow> (js_error, unit) result" where
  "assertConfigAssetBases i st current =
     (case mi_baseRevisions i of
        None \<Rightarrow>
          (case mi_baseVersion i of
             None \<Rightarrow> Inr ()
           | Some base \<Rightarrow>
               if base \<noteq> cs_version st
               then Inl (app_error_with CONFLICT ''Config version mismatch''
                 (JObj [(''currentVersion'', JNum (of_nat (cs_version st))),
                        (''baseVersion'', JNum (of_nat base))]))
               else Inr ())
      | Some bases \<Rightarrow>
          bind_result
            (check_bases i bases st current (mi_mutations i)
              \<lparr>bc_conflicts = [], bc_checked = [], bc_default = None\<rparr>)
            (\<lambda>c. if bc_conflicts c \<noteq> [] \<or> bc_default c \<noteq> None
               then Inl (app_error_with CONFLICT ''Config assets changed since the last pull''
                 (JObj ((''conflicts'', JArr (bc_conflicts c)) #
                   (case bc_default c of None \<Rightarrow> []
                    | Some d \<Rightarrow> [(''defaultAgentConflict'',
                        JObj [(''currentAgentName'', or_null (map_option JStr d))])]))))
               else Inr ()))"

section \<open>The tables\<close>

datatype owner_kind = Owned_By_Instance | Owned_By_Workspace

record state_row =
  st_instance :: string
  st_version :: nat
  st_defaultAgentName :: "string option"
  st_updatedAt :: int

record asset_row =
  ar_id :: string
  ar_instance :: string
  ar_kind :: string
  ar_name :: string
  ar_scopeKind :: owner_kind
  ar_scopeId :: "string option"
  ar_status :: asset_status
  ar_activeRevisionId :: string
  ar_createdAt :: int
  ar_updatedAt :: int

record availability_row =
  avr_assetId :: string
  avr_instance :: string
  avr_mode :: availability_mode
  avr_personal :: bool
  avr_updatedAt :: int

record workspace_availability_row =
  wav_assetId :: string
  wav_workspaceId :: string

text \<open>
  Beside its own tables an operation touches the grants on assets, and the foreign keys look at the
  ids of the workspaces there are.
\<close>

record config_tables =
  ct_states :: "state_row list"
  ct_assets :: "asset_row list"
  ct_revisions :: "config_revision list"
  ct_availability :: "availability_row list"
  ct_workspaceAvailability :: "workspace_availability_row list"
  ct_grants :: "permission_grant list"
  ct_workspaces :: "string list"

definition mapConfigAssetState :: "state_row option \<Rightarrow> config_state" where
  "mapConfigAssetState row =
     (case row of
        None \<Rightarrow> \<lparr>cs_version = 0, cs_defaultAgentName = None\<rparr>
      | Some r \<Rightarrow> \<lparr>cs_version = st_version r, cs_defaultAgentName = st_defaultAgentName r\<rparr>)"

definition mapAssetScope :: "asset_row \<Rightarrow> (js_error, asset_scope) result" where
  "mapAssetScope row =
     (if ar_scopeKind row = Owned_By_Instance then Inr Of_Instance
      else (case ar_scopeId row of
          None \<Rightarrow> Inl (app_error INTERNAL ''A workspace-owned config asset names no workspace'')
        | Some w \<Rightarrow> Inr (Of_Workspace w)))"

definition mapConfigAsset :: "asset_row \<Rightarrow> config_revision \<Rightarrow> (js_error, config_asset) result" where
  "mapConfigAsset row revision =
     (if rev_id revision \<noteq> ar_activeRevisionId row
      then Inl (app_error INTERNAL ''Expected config asset with its active revision'')
      else bind_result (mapAssetScope row) (\<lambda>scope. Inr
        \<lparr>ca_id = ar_id row, ca_instance = ar_instance row, ca_kind = ar_kind row, ca_name = ar_name row,
         ca_scope = scope, ca_status = ar_status row, ca_activeRevisionId = ar_activeRevisionId row,
         ca_revision = rev_revision revision, ca_config = rev_config revision,
         ca_createdAt = ar_createdAt row, ca_updatedAt = ar_updatedAt row\<rparr>))"

definition lock_state :: "config_tables \<Rightarrow> string \<Rightarrow> state_row option" where
  "lock_state t inst = List.find (\<lambda>r. st_instance r = inst) (ct_states t)"

definition getConfigAssetState :: "config_tables \<Rightarrow> string \<Rightarrow> config_state" where
  "getConfigAssetState t inst = mapConfigAssetState (lock_state t inst)"

definition findConfigAssetRow :: "config_tables \<Rightarrow> string \<Rightarrow> string \<Rightarrow> string \<Rightarrow> asset_row option" where
  "findConfigAssetRow t inst kind name =
     List.find (\<lambda>a. ar_instance a = inst \<and> ar_kind a = kind \<and> ar_name a = name) (ct_assets t)"

text \<open>The join of a row with its active revision.\<close>

definition active_revision :: "config_tables \<Rightarrow> asset_row \<Rightarrow> config_revision option" where
  "active_revision t a = List.find (\<lambda>r. rev_id r = ar_activeRevisionId a) (ct_revisions t)"

definition asset_with_revision :: "config_tables \<Rightarrow> string \<Rightarrow> string \<Rightarrow> string \<Rightarrow> (asset_row \<times> config_revision) option" where
  "asset_with_revision t inst kind name =
     (case findConfigAssetRow t inst kind name of
        None \<Rightarrow> None
      | Some a \<Rightarrow> map_option (\<lambda>r. (a, r)) (active_revision t a))"

definition getConfigAsset ::
    "config_tables \<Rightarrow> string \<Rightarrow> string \<Rightarrow> string \<Rightarrow> (js_error, config_asset option) result" where
  "getConfigAsset t inst kind name =
     (case asset_with_revision t inst kind name of
        None \<Rightarrow> Inr None
      | Some (a, r) \<Rightarrow> bind_result (mapConfigAsset a r) (Inr \<circ> Some))"

end
