(* ===== verification/Config_Asset_Store.thy ===== *)
theory Config_Asset_Store imports Config_Assets begin

text \<open>
  The transactions over config assets
  (\<open>packages/postgres-store/src/postgres-config-asset-operations.ts\<close>): a batch of mutations, the
  availability of an agent and the removal of what a workspace owns, and the lists.
\<close>

section \<open>What a batch is checked against\<close>

definition read_current :: "config_tables \<Rightarrow> mutation_input \<Rightarrow> string \<rightharpoonup> current_asset" where
  "read_current t i =
     foldl (\<lambda>current m. case mutation_key m of
         None \<Rightarrow> current
       | Some (kind, name) \<Rightarrow>
           (case asset_with_revision t (mi_instance i) kind name of
              None \<Rightarrow> current
            | Some (a, r) \<Rightarrow> current(key_text (kind, name) \<mapsto> (ar_status a, r))))
       Map.empty (mi_mutations i)"

definition current_for :: "config_tables \<Rightarrow> mutation_input \<Rightarrow> string \<rightharpoonup> current_asset" where
  "current_for t i = (if mi_baseRevisions i = None then Map.empty else read_current t i)"

fun deleted_agent :: "config_mutation \<Rightarrow> string option" where
  "deleted_agent (Delete_Asset kind name scope) = (if kind = ''agent'' then Some name else None)"
| "deleted_agent m = None"

definition deletes_selected_agent :: "config_tables \<Rightarrow> mutation_input \<Rightarrow> bool" where
  "deletes_selected_agent t i \<longleftrightarrow>
     (let names = List.map_filter deleted_agent (mi_mutations i) in
      mi_initialAvailability i = Some Selected_When_Replacing \<and> names \<noteq> [] \<and>
      (\<exists>v \<in> set (ct_availability t). avr_mode v = Available_To_Selected \<and>
         (\<exists>a \<in> set (ct_assets t). ar_id a = avr_assetId v \<and> ar_instance a = mi_instance i \<and>
            ar_kind a = ''agent'' \<and> ar_name a \<in> set names)))"

section \<open>One mutation\<close>

text \<open>
  What a batch has fixed when it reaches its mutations: the new version, the mode new agents start
  with, the moment, and the ids it makes.
\<close>

record batch =
  b_input :: mutation_input
  b_version :: nat
  b_mode :: availability_mode
  b_now :: int
  b_assetId :: "nat \<Rightarrow> string"
  b_revisionId :: "nat \<Rightarrow> string"

text \<open>A statement that breaks a key of the schema fails, and the transaction with it.\<close>

definition key_refused :: js_error where
  "key_refused = Foreign_Error ''a key of the schema is violated''"

definition insertInitialAvailability ::
    "batch \<Rightarrow> string \<Rightarrow> config_tables \<Rightarrow> (js_error, config_tables) result" where
  "insertInitialAvailability b assetId t =
     (if \<exists>v \<in> set (ct_availability t). avr_assetId v = assetId then Inl key_refused
      else Inr (t\<lparr>ct_availability := ct_availability t @
        [\<lparr>avr_assetId = assetId, avr_instance = mi_instance (b_input b), avr_mode = b_mode b,
          avr_personal = False, avr_updatedAt = b_now b\<rparr>]\<rparr>))"

definition new_revision ::
    "batch \<Rightarrow> string \<Rightarrow> string \<Rightarrow> string \<Rightarrow> nat \<Rightarrow> revision_operation \<Rightarrow> json option \<Rightarrow> config_revision" where
  "new_revision b rid inst assetId n operation config =
     \<lparr>rev_id = rid, rev_assetId = assetId, rev_instance = inst, rev_revision = n,
      rev_operation = operation, rev_config = config, rev_actor = mi_actor (b_input b),
      rev_origin = mi_origin (b_input b), rev_globalVersion = b_version b, rev_createdAt = b_now b\<rparr>"

definition insert_revision :: "config_revision \<Rightarrow> config_tables \<Rightarrow> (js_error, config_tables) result" where
  "insert_revision r t =
     (if (\<exists>s \<in> set (ct_revisions t). rev_id s = rev_id r \<or>
            rev_assetId s = rev_assetId r \<and> rev_revision s = rev_revision r) \<or>
         \<not> (\<exists>a \<in> set (ct_assets t). ar_id a = rev_assetId r)
      then Inl key_refused
      else Inr (t\<lparr>ct_revisions := ct_revisions t @ [r]\<rparr>))"

definition appendAndActivateRevision ::
    "batch \<Rightarrow> nat \<Rightarrow> asset_row \<Rightarrow> revision_operation \<Rightarrow> json option \<Rightarrow> asset_status \<Rightarrow> config_tables \<Rightarrow>
     (js_error, config_tables) result" where
  "appendAndActivateRevision b p asset operation config status t =
     (case active_revision t asset of
        None \<Rightarrow> Inl (app_error INTERNAL ''Config asset active revision is missing'')
      | Some active \<Rightarrow>
          bind_result
            (insert_revision (new_revision b (b_revisionId b p) (ar_instance asset) (ar_id asset)
               (rev_revision active + 1) operation config) t)
            (\<lambda>t. Inr (t\<lparr>ct_assets := update_where (\<lambda>a. ar_id a = ar_id asset)
               (\<lambda>a. a\<lparr>ar_status := status, ar_activeRevisionId := b_revisionId b p, ar_updatedAt := b_now b\<rparr>)
               (ct_assets t)\<rparr>)))"

text \<open>The availability of an asset goes with the places it names: the key between them cascades.\<close>

definition drop_availability :: "string \<Rightarrow> config_tables \<Rightarrow> config_tables" where
  "drop_availability assetId t = t
     \<lparr>ct_availability := delete_where (\<lambda>v. avr_assetId v = assetId) (ct_availability t),
      ct_workspaceAvailability :=
        delete_where (\<lambda>w. wav_assetId w = assetId) (ct_workspaceAvailability t)\<rparr>"

definition drop_allowing_grants :: "string \<Rightarrow> string \<Rightarrow> config_tables \<Rightarrow> config_tables" where
  "drop_allowing_grants inst assetId t = t
     \<lparr>ct_grants := delete_where (\<lambda>g. grant_instance g = inst \<and> grant_scopeKind g = Asset_Scope \<and>
        grant_scopeId g = Some assetId \<and> grant_effect g = Allow) (ct_grants t)\<rparr>"

fun scope_columns :: "asset_scope \<Rightarrow> owner_kind \<times> string option" where
  "scope_columns Of_Instance = (Owned_By_Instance, None)"
| "scope_columns (Of_Workspace w) = (Owned_By_Workspace, Some w)"

definition new_asset_row :: "batch \<Rightarrow> nat \<Rightarrow> string \<Rightarrow> string \<Rightarrow> asset_scope \<Rightarrow> asset_row" where
  "new_asset_row b p kind name scope =
     \<lparr>ar_id = b_assetId b p, ar_instance = mi_instance (b_input b), ar_kind = kind, ar_name = name,
      ar_scopeKind = fst (scope_columns scope), ar_scopeId = snd (scope_columns scope),
      ar_status = Asset_Active, ar_activeRevisionId = b_revisionId b p,
      ar_createdAt = b_now b, ar_updatedAt = b_now b\<rparr>"

definition insert_asset :: "asset_row \<Rightarrow> config_tables \<Rightarrow> (js_error, config_tables) result" where
  "insert_asset a t =
     (if (\<exists>x \<in> set (ct_assets t). ar_id x = ar_id a \<or>
            ar_instance x = ar_instance a \<and> ar_kind x = ar_kind a \<and> ar_name x = ar_name a) \<or>
         (case ar_scopeId a of None \<Rightarrow> False | Some w \<Rightarrow> w \<notin> set (ct_workspaces t))
      then Inl key_refused
      else Inr (t\<lparr>ct_assets := ct_assets t @ [a]\<rparr>))"

definition check_scope :: "asset_row option \<Rightarrow> asset_scope \<Rightarrow> string \<Rightarrow> string \<Rightarrow> (js_error, unit) result" where
  "check_scope asset scope kind name =
     (case asset of
        None \<Rightarrow> Inr ()
      | Some a \<Rightarrow> bind_result (mapAssetScope a) (\<lambda>owner.
          if \<not> assetScopesEqual scope owner
          then Inl (app_error_with VALIDATION_FAILED
            (''Config '' @ kind @ '' '' @ quoted name @ '' belongs to another scope'')
            (JObj [(''reason'', JStr ''invalid_scope'')]))
          else Inr ()))"

definition scope_of_mutation :: "asset_scope option \<Rightarrow> asset_scope" where
  "scope_of_mutation scope = (case scope of None \<Rightarrow> INSTANCE_ASSET_SCOPE | Some s \<Rightarrow> s)"

definition delete_asset :: "batch \<Rightarrow> nat \<Rightarrow> asset_row option \<Rightarrow> config_tables \<Rightarrow> (js_error, config_tables) result" where
  "delete_asset b p asset t =
     (case asset of
        None \<Rightarrow> Inr t
      | Some a \<Rightarrow>
          if ar_status a = Asset_Deleted then Inr t
          else bind_result (appendAndActivateRevision b p a Op_Delete None Asset_Deleted t)
            (\<lambda>t. Inr (drop_allowing_grants (mi_instance (b_input b)) (ar_id a)
               (drop_availability (ar_id a) t))))"

definition create_asset ::
    "batch \<Rightarrow> nat \<Rightarrow> string \<Rightarrow> string \<Rightarrow> json \<Rightarrow> revision_operation option \<Rightarrow> asset_scope \<Rightarrow> config_tables \<Rightarrow>
     (js_error, config_tables) result" where
  "create_asset b p kind name config operation scope t =
     bind_result (insert_asset (new_asset_row b p kind name scope) t) (\<lambda>t.
     bind_result (insert_revision (new_revision b (b_revisionId b p) (mi_instance (b_input b))
        (b_assetId b p) 1 (case operation of None \<Rightarrow> Op_Create | Some oper \<Rightarrow> oper) (Some config)) t) (\<lambda>t.
     if kind = ''agent'' then insertInitialAvailability b (b_assetId b p) t else Inr t))"

definition update_asset ::
    "batch \<Rightarrow> nat \<Rightarrow> asset_row \<Rightarrow> json \<Rightarrow> revision_operation option \<Rightarrow> config_tables \<Rightarrow>
     (js_error, config_tables) result" where
  "update_asset b p a config operation t =
     bind_result (appendAndActivateRevision b p a
        (case operation of
           None \<Rightarrow> (if ar_status a = Asset_Deleted then Op_Create else Op_Update)
         | Some oper \<Rightarrow> oper) (Some config) Asset_Active t) (\<lambda>t.
     if ar_kind a = ''agent'' \<and> ar_status a = Asset_Deleted
     then insertInitialAvailability b (ar_id a) t else Inr t)"

text \<open>The tables and the default agent, as the loop over the mutations carries them.\<close>

type_synonym batch_state = "config_tables \<times> string option"

fun apply_mutation ::
    "batch \<Rightarrow> nat \<Rightarrow> config_mutation \<Rightarrow> batch_state \<Rightarrow> (js_error, batch_state) result" where
  "apply_mutation b p (Set_Default_Agent name) (t, d) = Inr (t, name)"
| "apply_mutation b p (Delete_Asset kind name scope) (t, d) =
     (let asset = findConfigAssetRow t (mi_instance (b_input b)) kind name in
      bind_result (check_scope asset (scope_of_mutation scope) kind name) (\<lambda>_.
      bind_result (delete_asset b p asset t) (\<lambda>t. Inr (t, d))))"
| "apply_mutation b p (Upsert kind name config operation scope) (t, d) =
     (let asset = findConfigAssetRow t (mi_instance (b_input b)) kind name in
      bind_result (check_scope asset (scope_of_mutation scope) kind name) (\<lambda>_.
      bind_result (case asset of
          None \<Rightarrow> create_asset b p kind name config operation (scope_of_mutation scope) t
        | Some a \<Rightarrow> update_asset b p a config operation t) (\<lambda>t. Inr (t, d))))"

fun apply_mutations ::
    "batch \<Rightarrow> nat \<Rightarrow> config_mutation list \<Rightarrow> batch_state \<Rightarrow> (js_error, batch_state) result" where
  "apply_mutations b p [] s = Inr s"
| "apply_mutations b p (m # ms) s =
     bind_result (apply_mutation b p m s) (apply_mutations b (p + 1) ms)"

section \<open>A batch\<close>

definition availability_of :: "config_tables \<Rightarrow> string \<Rightarrow> availability_row option" where
  "availability_of t assetId = List.find (\<lambda>v. avr_assetId v = assetId) (ct_availability t)"

definition check_default_agent :: "string \<Rightarrow> batch_state \<Rightarrow> (js_error, unit) result" where
  "check_default_agent inst s =
     (case snd s of
        None \<Rightarrow> Inr ()
      | Some d \<Rightarrow>
          (case findConfigAssetRow (fst s) inst ''agent'' d of
             None \<Rightarrow> Inl (app_error VALIDATION_FAILED
               (''Default agent '' @ quoted d @ '' is not an active config asset''))
           | Some a \<Rightarrow>
               if ar_status a \<noteq> Asset_Active
               then Inl (app_error VALIDATION_FAILED
                 (''Default agent '' @ quoted d @ '' is not an active config asset''))
               else if map_option avr_mode (availability_of (fst s) (ar_id a)) \<noteq> Some Available_To_All
               then Inl (app_error VALIDATION_FAILED
                 (''Default agent '' @ quoted d @ '' must be available in all workspaces''))
               else Inr ()))"

definition ensure_state :: "string \<Rightarrow> int \<Rightarrow> config_tables \<Rightarrow> config_tables" where
  "ensure_state inst now t =
     (if \<exists>r \<in> set (ct_states t). st_instance r = inst then t
      else t\<lparr>ct_states := ct_states t @
        [\<lparr>st_instance = inst, st_version = 0, st_defaultAgentName = None, st_updatedAt = now\<rparr>]\<rparr>)"

definition write_state :: "string \<Rightarrow> nat \<Rightarrow> string option \<Rightarrow> int \<Rightarrow> config_tables \<Rightarrow> config_tables" where
  "write_state inst version d now t = t
     \<lparr>ct_states := update_where (\<lambda>r. st_instance r = inst)
        (\<lambda>r. r\<lparr>st_version := version, st_defaultAgentName := d, st_updatedAt := now\<rparr>) (ct_states t)\<rparr>"

definition batch_of ::
    "mutation_input \<Rightarrow> int \<Rightarrow> (nat \<Rightarrow> string) \<Rightarrow> (nat \<Rightarrow> string) \<Rightarrow> nat \<Rightarrow> config_tables \<Rightarrow> batch" where
  "batch_of i now assetIds revisionIds version t =
     \<lparr>b_input = i, b_version = version + 1,
      b_mode = resolveInitialAgentAvailabilityMode (mi_initialAvailability i) (deletes_selected_agent t i),
      b_now = now, b_assetId = assetIds, b_revisionId = revisionIds\<rparr>"

definition applyConfigAssetMutations ::
    "mutation_input \<Rightarrow> int \<Rightarrow> (nat \<Rightarrow> string) \<Rightarrow> (nat \<Rightarrow> string) \<Rightarrow> config_tables \<Rightarrow>
     (js_error, config_tables \<times> nat) result" where
  "applyConfigAssetMutations i now assetIds revisionIds t0 =
     (let inst = mi_instance i; t = ensure_state inst now t0 in
      case lock_state t inst of
        None \<Rightarrow> Inl (app_error INTERNAL ''Failed to lock config asset state'')
      | Some st \<Rightarrow>
          bind_result (assertConfigAssetBases i (mapConfigAssetState (Some st)) (current_for t i)) (\<lambda>_.
          bind_result (apply_mutations (batch_of i now assetIds revisionIds (st_version st) t) 0 (mi_mutations i)
             (t, st_defaultAgentName st)) (\<lambda>s.
          bind_result (check_default_agent inst s) (\<lambda>_.
          Inr (write_state inst (st_version st + 1) (snd s) now (fst s), st_version st + 1)))))"

section \<open>Availability\<close>

definition shown_availability :: "config_tables \<Rightarrow> availability_row \<Rightarrow> agent_availability" where
  "shown_availability t v =
     \<lparr>av_mode = avr_mode v, av_personal = avr_personal v,
      av_workspaces = sort (map wav_workspaceId
        (filter (\<lambda>w. wav_assetId w = avr_assetId v) (ct_workspaceAvailability t)))\<rparr>"

definition listAgentAvailability :: "config_tables \<Rightarrow> string \<Rightarrow> (string \<times> agent_availability) list" where
  "listAgentAvailability t inst =
     concat (map (\<lambda>v. map (\<lambda>a. (ar_name a, shown_availability t v))
       (filter (\<lambda>a. ar_id a = avr_assetId v \<and> ar_instance a = inst \<and> ar_kind a = ''agent'' \<and>
          ar_status a = Asset_Active) (ct_assets t))) (ct_availability t))"

definition upsert_availability :: "availability_row \<Rightarrow> config_tables \<Rightarrow> config_tables" where
  "upsert_availability row t = t
     \<lparr>ct_availability :=
        (if \<exists>v \<in> set (ct_availability t). avr_assetId v = avr_assetId row
         then update_where (\<lambda>v. avr_assetId v = avr_assetId row)
           (\<lambda>v. v\<lparr>avr_mode := avr_mode row, avr_personal := avr_personal row,
              avr_updatedAt := avr_updatedAt row\<rparr>) (ct_availability t)
         else ct_availability t @ [row])\<rparr>"

definition replace_places :: "string \<Rightarrow> string list \<Rightarrow> config_tables \<Rightarrow> (js_error, config_tables) result" where
  "replace_places assetId places t =
     (if \<exists>w \<in> set places. w \<notin> set (ct_workspaces t) then Inl key_refused
      else Inr (t\<lparr>ct_workspaceAvailability :=
        delete_where (\<lambda>w. wav_assetId w = assetId) (ct_workspaceAvailability t) @
        map (\<lambda>w. \<lparr>wav_assetId = assetId, wav_workspaceId = w\<rparr>) places\<rparr>))"

definition setAgentAvailability ::
    "string \<Rightarrow> string \<Rightarrow> agent_availability \<Rightarrow> int \<Rightarrow> config_tables \<Rightarrow>
     (js_error, config_tables \<times> agent_availability) result" where
  "setAgentAvailability inst agentName availability now t =
     (case findConfigAssetRow t inst ''agent'' agentName of
        None \<Rightarrow> Inl (app_error NOT_FOUND (''Config agent '' @ quoted agentName @ '' was not found''))
      | Some a \<Rightarrow>
          if ar_status a \<noteq> Asset_Active
          then Inl (app_error NOT_FOUND (''Config agent '' @ quoted agentName @ '' was not found''))
          else if av_mode availability \<noteq> Available_To_All \<and>
             (case lock_state t inst of None \<Rightarrow> False
              | Some st \<Rightarrow> st_defaultAgentName st = Some agentName)
          then Inl (app_error VALIDATION_FAILED
            (''Default agent '' @ quoted agentName @ '' must be available in all workspaces''))
          else
            (let places = sort (remdups (av_workspaces availability)) in
             bind_result (replace_places (ar_id a) places
               (upsert_availability \<lparr>avr_assetId = ar_id a, avr_instance = inst,
                  avr_mode = av_mode availability, avr_personal = av_personal availability,
                  avr_updatedAt = now\<rparr> t)) (\<lambda>t.
             Inr (t, availability\<lparr>av_workspaces := places\<rparr>))))"

section \<open>The removal of a workspace\<close>

definition owned_by :: "string \<Rightarrow> string \<Rightarrow> asset_row \<Rightarrow> bool" where
  "owned_by inst w a \<longleftrightarrow>
     ar_instance a = inst \<and> ar_scopeKind a = Owned_By_Workspace \<and> ar_scopeId a = Some w"

text \<open>Deleting rows of assets takes their revisions and their availability with them.\<close>

definition delete_assets :: "(asset_row \<Rightarrow> bool) \<Rightarrow> config_tables \<Rightarrow> config_tables" where
  "delete_assets p t =
     (let gone = map ar_id (filter p (ct_assets t)) in
      t\<lparr>ct_assets := delete_where p (ct_assets t),
        ct_revisions := delete_where (\<lambda>r. rev_assetId r \<in> set gone) (ct_revisions t),
        ct_availability := delete_where (\<lambda>v. avr_assetId v \<in> set gone) (ct_availability t),
        ct_workspaceAvailability :=
          delete_where (\<lambda>w. wav_assetId w \<in> set gone) (ct_workspaceAvailability t)\<rparr>)"

definition deleteWorkspaceOwnedAssets :: "string \<Rightarrow> string \<Rightarrow> int \<Rightarrow> config_tables \<Rightarrow> config_tables" where
  "deleteWorkspaceOwnedAssets inst w now t =
     (let removed = filter (owned_by inst w) (ct_assets t) in
      if removed = [] then t
      else
        (let t' = delete_assets (owned_by inst w) t;
             t'' = t'\<lparr>ct_grants := delete_where (\<lambda>g. grant_instance g = inst \<and>
               grant_scopeKind g = Asset_Scope \<and>
               grant_scopeId g \<in> (Some \<circ> ar_id) ` set removed) (ct_grants t')\<rparr> in
         case lock_state t inst of
           None \<Rightarrow> t''
         | Some st \<Rightarrow>
             write_state inst (st_version st + 1)
               (if \<exists>a \<in> set removed. ar_kind a = ''agent'' \<and> Some (ar_name a) = st_defaultAgentName st
                then None else st_defaultAgentName st) now t''))"

text \<open>
  The removal of a workspace itself: what it owns first, then its row, with the places that name it.
  A workspace that still owns an asset is refused by the key on \<open>scope_id\<close>.
\<close>

definition delete_workspace_row :: "string \<Rightarrow> config_tables \<Rightarrow> (js_error, config_tables) result" where
  "delete_workspace_row w t =
     (if \<exists>a \<in> set (ct_assets t). ar_scopeId a = Some w then Inl key_refused
      else Inr (t\<lparr>ct_workspaces := filter (\<lambda>x. x \<noteq> w) (ct_workspaces t),
        ct_workspaceAvailability :=
          delete_where (\<lambda>v. wav_workspaceId v = w) (ct_workspaceAvailability t)\<rparr>))"

end
