(* ===== verification/Config_Asset_Facts.thy ===== *)
theory Config_Asset_Facts imports Config_Asset_Store begin

text \<open>
  What the tables of config assets keep: keys are unique, the revisions of an asset are numbered
  without a gap and the last one is the active one, and exactly the active agents have an
  availability. Each statement of a transaction is followed over these facts.
\<close>

section \<open>The invariant of the rows\<close>

definition asset_key :: "asset_row \<Rightarrow> string \<times> string \<times> string" where
  "asset_key a = (ar_instance a, ar_kind a, ar_name a)"

definition history :: "config_tables \<Rightarrow> string \<Rightarrow> config_revision list" where
  "history t assetId = filter (\<lambda>r. rev_assetId r = assetId) (ct_revisions t)"

definition history_ok :: "config_tables \<Rightarrow> asset_row \<Rightarrow> bool" where
  "history_ok t a \<longleftrightarrow>
     (let h = history t (ar_id a) in
      h \<noteq> [] \<and> map rev_revision h = map Suc [0..<length h] \<and> rev_id (last h) = ar_activeRevisionId a \<and>
      list_all (\<lambda>r. rev_instance r = ar_instance a) h \<and>
      (ar_status a = Asset_Deleted \<longleftrightarrow> rev_config (last h) = None))"

definition scope_ok :: "config_tables \<Rightarrow> asset_row \<Rightarrow> bool" where
  "scope_ok t a \<longleftrightarrow>
     (ar_scopeKind a = Owned_By_Instance \<longleftrightarrow> ar_scopeId a = None) \<and>
     set_option (ar_scopeId a) \<subseteq> set (ct_workspaces t)"

definition rows_ok :: "config_tables \<Rightarrow> bool" where
  "rows_ok t \<longleftrightarrow>
     distinct (map ar_id (ct_assets t)) \<and> distinct (map asset_key (ct_assets t)) \<and>
     distinct (map rev_id (ct_revisions t)) \<and>
     (\<forall>a \<in> set (ct_assets t). history_ok t a \<and> scope_ok t a) \<and>
     (\<forall>r \<in> set (ct_revisions t). rev_assetId r \<in> ar_id ` set (ct_assets t))"

definition active_agent :: "asset_row \<Rightarrow> bool" where
  "active_agent a \<longleftrightarrow> ar_kind a = ''agent'' \<and> ar_status a = Asset_Active"

definition availability_ok :: "config_tables \<Rightarrow> bool" where
  "availability_ok t \<longleftrightarrow>
     distinct (map avr_assetId (ct_availability t)) \<and>
     avr_assetId ` set (ct_availability t) = ar_id ` {a \<in> set (ct_assets t). active_agent a} \<and>
     (\<forall>w \<in> set (ct_workspaceAvailability t). wav_assetId w \<in> avr_assetId ` set (ct_availability t) \<and>
        wav_workspaceId w \<in> set (ct_workspaces t))"

definition default_ok :: "config_tables \<Rightarrow> string \<Rightarrow> string option \<Rightarrow> bool" where
  "default_ok t inst d \<longleftrightarrow> (case d of None \<Rightarrow> True | Some name \<Rightarrow>
     (\<exists>a \<in> set (ct_assets t). asset_key a = (inst, ''agent'', name) \<and> ar_status a = Asset_Active \<and>
        map_option avr_mode (availability_of t (ar_id a)) = Some Available_To_All))"

text \<open>The state row of an instance counts every change, and names a default agent everybody may use.\<close>

definition states_ok :: "config_tables \<Rightarrow> bool" where
  "states_ok t \<longleftrightarrow>
     distinct (map st_instance (ct_states t)) \<and>
     (\<forall>r \<in> set (ct_revisions t). \<exists>s \<in> set (ct_states t).
        st_instance s = rev_instance r \<and> rev_globalVersion r \<le> st_version s) \<and>
     (\<forall>s \<in> set (ct_states t). default_ok t (st_instance s) (st_defaultAgentName s))"

definition config_ok :: "config_tables \<Rightarrow> bool" where
  "config_ok t \<longleftrightarrow> rows_ok t \<and> availability_ok t \<and> states_ok t"

section \<open>Finding rows\<close>

lemma find_by_key:
  assumes "distinct (map key rows)"
  shows "List.find (\<lambda>r. key r = k) rows = Some r \<longleftrightarrow> r \<in> set rows \<and> key r = k"
  using assms by (induction rows) auto

lemma find_none: "List.find p rows = None \<longleftrightarrow> (\<forall>r \<in> set rows. \<not> p r)"
  by (auto simp: find_None_iff)

lemma find_row_by_key:
  "findConfigAssetRow t inst kind name = List.find (\<lambda>a. asset_key a = (inst, kind, name)) (ct_assets t)"
  by (simp add: findConfigAssetRow_def asset_key_def)

lemma find_row:
  assumes "distinct (map asset_key (ct_assets t))"
  shows "findConfigAssetRow t inst kind name = Some a \<longleftrightarrow>
    a \<in> set (ct_assets t) \<and> asset_key a = (inst, kind, name)"
  using find_by_key[OF assms, of "(inst, kind, name)"] by (simp add: find_row_by_key)

lemma find_row_None:
  "findConfigAssetRow t inst kind name = None \<longleftrightarrow>
    (\<forall>a \<in> set (ct_assets t). asset_key a \<noteq> (inst, kind, name))"
  by (simp add: find_row_by_key find_none)

lemma same_asset:
  "rows_ok t \<Longrightarrow> a \<in> set (ct_assets t) \<Longrightarrow> b \<in> set (ct_assets t) \<Longrightarrow> ar_id a = ar_id b \<Longrightarrow> a = b"
  by (simp add: rows_ok_def distinct_map inj_on_def)

lemma history_facts:
  assumes "rows_ok t" and "a \<in> set (ct_assets t)"
  shows "history t (ar_id a) \<noteq> []"
    and "map rev_revision (history t (ar_id a)) = map Suc [0..<length (history t (ar_id a))]"
    and "rev_id (last (history t (ar_id a))) = ar_activeRevisionId a"
    and "r \<in> set (history t (ar_id a)) \<Longrightarrow> rev_instance r = ar_instance a"
    and "ar_status a = Asset_Deleted \<longleftrightarrow> rev_config (last (history t (ar_id a))) = None"
  using assms unfolding rows_ok_def history_ok_def Let_def by (auto simp: list_all_iff)

lemma active_revision:
  assumes "rows_ok t" and "a \<in> set (ct_assets t)"
  shows "active_revision t a = Some (last (history t (ar_id a)))"
proof -
  have "last (history t (ar_id a)) \<in> set (history t (ar_id a))"
    using history_facts(1)[OF assms] by simp
  then have "last (history t (ar_id a)) \<in> set (ct_revisions t)" by (simp add: history_def)
  then show ?thesis
    using assms(1) history_facts(3)[OF assms]
    by (simp add: active_revision_def rows_ok_def find_by_key)
qed

lemma last_revision:
  assumes "rows_ok t" and "a \<in> set (ct_assets t)"
  shows "rev_revision (last (history t (ar_id a))) = length (history t (ar_id a))"
proof -
  have "last (map rev_revision (history t (ar_id a))) = length (history t (ar_id a))"
    using history_facts(1)[OF assms] unfolding history_facts(2)[OF assms] by (simp add: last_map)
  then show ?thesis using history_facts(1)[OF assms] by (simp add: last_map)
qed

lemma asset_scope:
  assumes "rows_ok t" and "a \<in> set (ct_assets t)"
  obtains scope where "mapAssetScope a = Inr scope" "scope_columns scope = (ar_scopeKind a, ar_scopeId a)"
proof -
  have "scope_ok t a" using assms by (simp add: rows_ok_def)
  then show ?thesis
    by (cases "ar_scopeId a"; cases "ar_scopeKind a") (auto simp: scope_ok_def mapAssetScope_def intro: that)
qed

lemma scopes_equal: "assetScopesEqual s u \<longleftrightarrow> s = u"
  by (cases s; cases u) auto

section \<open>The statements\<close>

lemma revisions_of_update [simp]:
  "history (t\<lparr>ct_assets := x\<rparr>) = history t"
  "history (t\<lparr>ct_availability := y\<rparr>) = history t"
  "history (t\<lparr>ct_workspaceAvailability := z\<rparr>) = history t"
  "history (t\<lparr>ct_grants := g\<rparr>) = history t"
  "history (t\<lparr>ct_states := s\<rparr>) = history t"
  "history (t\<lparr>ct_workspaces := w\<rparr>) = history t"
  by (simp_all add: history_def fun_eq_iff)

lemma history_snoc [simp]:
  "history (t\<lparr>ct_revisions := ct_revisions t @ [r]\<rparr>) i =
    history t i @ (if rev_assetId r = i then [r] else [])"
  by (simp add: history_def)

lemma rows_ok_others [simp]:
  "rows_ok (t\<lparr>ct_availability := y\<rparr>) = rows_ok t"
  "rows_ok (t\<lparr>ct_workspaceAvailability := z\<rparr>) = rows_ok t"
  "rows_ok (t\<lparr>ct_grants := g\<rparr>) = rows_ok t"
  "rows_ok (t\<lparr>ct_states := s\<rparr>) = rows_ok t"
  by (simp_all add: rows_ok_def history_ok_def scope_ok_def)

definition activated :: "batch \<Rightarrow> nat \<Rightarrow> asset_status \<Rightarrow> asset_row \<Rightarrow> asset_row" where
  "activated b p status a =
     a\<lparr>ar_status := status, ar_activeRevisionId := b_revisionId b p, ar_updatedAt := b_now b\<rparr>"

lemma activated_sel [simp]:
  "ar_id (activated b p status a) = ar_id a" "asset_key (activated b p status a) = asset_key a"
  "ar_instance (activated b p status a) = ar_instance a" "ar_kind (activated b p status a) = ar_kind a"
  "ar_scopeKind (activated b p status a) = ar_scopeKind a" "ar_scopeId (activated b p status a) = ar_scopeId a"
  "ar_status (activated b p status a) = status" "ar_name (activated b p status a) = ar_name a"
  "ar_activeRevisionId (activated b p status a) = b_revisionId b p"
  by (simp_all add: activated_def asset_key_def)

definition appended :: "batch \<Rightarrow> nat \<Rightarrow> asset_row \<Rightarrow> revision_operation \<Rightarrow> json option \<Rightarrow> config_tables \<Rightarrow> config_revision" where
  "appended b p a operation config t =
     new_revision b (b_revisionId b p) (ar_instance a) (ar_id a)
       (length (history t (ar_id a)) + 1) operation config"

lemma new_revision_sel [simp]:
  "rev_id (new_revision b rid inst assetId n operation config) = rid"
  "rev_assetId (new_revision b rid inst assetId n operation config) = assetId"
  "rev_instance (new_revision b rid inst assetId n operation config) = inst"
  "rev_revision (new_revision b rid inst assetId n operation config) = n"
  "rev_operation (new_revision b rid inst assetId n operation config) = operation"
  "rev_config (new_revision b rid inst assetId n operation config) = config"
  "rev_globalVersion (new_revision b rid inst assetId n operation config) = b_version b"
  by (simp_all add: new_revision_def)

definition after_append :: "batch \<Rightarrow> nat \<Rightarrow> asset_row \<Rightarrow> revision_operation \<Rightarrow> json option \<Rightarrow> asset_status \<Rightarrow> config_tables \<Rightarrow> config_tables" where
  "after_append b p a operation config status t = t
     \<lparr>ct_revisions := ct_revisions t @ [appended b p a operation config t],
      ct_assets := update_where (\<lambda>x. ar_id x = ar_id a) (activated b p status) (ct_assets t)\<rparr>"

lemma append_cases:
  assumes "rows_ok t" and "a \<in> set (ct_assets t)"
  shows "appendAndActivateRevision b p a operation config status t =
    (if b_revisionId b p \<in> rev_id ` set (ct_revisions t) then Inl key_refused
     else Inr (after_append b p a operation config status t))"
proof -
  have "rev_revision s \<le> length (history t (ar_id a))"
    if "s \<in> set (ct_revisions t)" "rev_assetId s = ar_id a" for s
  proof -
    have "rev_revision s \<in> set (map rev_revision (history t (ar_id a)))"
      using that by (auto simp: history_def)
    then show ?thesis unfolding history_facts(2)[OF assms] by auto
  qed
  then have none: "\<not> (s \<in> set (ct_revisions t) \<and> rev_assetId s = ar_id a \<and>
      rev_revision s = Suc (length (history t (ar_id a))))" for s
    by (metis Suc_n_not_le_n)
  have "(\<exists>s \<in> set (ct_revisions t). rev_id s = b_revisionId b p \<or>
      rev_assetId s = ar_id a \<and> rev_revision s = Suc (length (history t (ar_id a)))) \<longleftrightarrow>
    b_revisionId b p \<in> rev_id ` set (ct_revisions t)"
    unfolding image_iff using none by metis
  moreover have "\<exists>x \<in> set (ct_assets t). ar_id x = ar_id a" using assms(2) by blast
  ultimately show ?thesis
    by (simp add: appendAndActivateRevision_def active_revision[OF assms] last_revision[OF assms]
        insert_revision_def appended_def after_append_def activated_def[abs_def] cong: if_cong)
qed

lemma after_append_sel:
  "ct_revisions (after_append b p a operation config status t) =
    ct_revisions t @ [appended b p a operation config t]"
  "ct_assets (after_append b p a operation config status t) =
    update_where (\<lambda>x. ar_id x = ar_id a) (activated b p status) (ct_assets t)"
  "ct_availability (after_append b p a operation config status t) = ct_availability t"
  "ct_workspaceAvailability (after_append b p a operation config status t) = ct_workspaceAvailability t"
  "ct_workspaces (after_append b p a operation config status t) = ct_workspaces t"
  "ct_states (after_append b p a operation config status t) = ct_states t"
  by (simp_all add: after_append_def)

lemma history_after_append:
  "history (after_append b p a operation config status t) i =
    history t i @ (if i = ar_id a then [appended b p a operation config t] else [])"
  by (simp add: history_def after_append_def appended_def)

lemma history_ok_append:
  assumes "rows_ok t" and "a \<in> set (ct_assets t)" and "status = Asset_Deleted \<longleftrightarrow> config = None"
  shows "history_ok (after_append b p a operation config status t) (activated b p status a)"
  using history_facts[OF assms(1,2)] assms(3)
  by (simp add: history_ok_def history_after_append appended_def list_all_iff Let_def)

lemma rows_ok_append:
  assumes ok: "rows_ok t" and a: "a \<in> set (ct_assets t)" and st: "status = Asset_Deleted \<longleftrightarrow> config = None"
    and new: "b_revisionId b p \<notin> rev_id ` set (ct_revisions t)"
  shows "rows_ok (after_append b p a operation config status t)"
proof -
  have h: "history_ok (after_append b p a operation config status t) x \<and>
      scope_ok (after_append b p a operation config status t) x"
    if "x \<in> set (update_where (\<lambda>x. ar_id x = ar_id a) (activated b p status) (ct_assets t))" for x
    using that
  proof (rule in_update_whereE)
    fix s assume "s \<in> set (ct_assets t)" "ar_id s = ar_id a" and x: "x = activated b p status s"
    then have s: "s = a" using same_asset[OF ok _ a] by blast
    have "scope_ok t a" using ok a by (simp add: rows_ok_def)
    then show ?thesis
      using history_ok_append[OF ok a st] unfolding x s by (simp add: scope_ok_def after_append_sel)
  next
    assume "x \<in> set (ct_assets t)" "ar_id x \<noteq> ar_id a"
    moreover from this have "history_ok t x" "scope_ok t x" using ok by (simp_all add: rows_ok_def)
    ultimately show ?thesis
      by (simp add: history_ok_def scope_ok_def history_after_append after_append_sel)
  qed
  have ids: "map ar_id (update_where (\<lambda>x. ar_id x = ar_id a) (activated b p status) (ct_assets t)) =
      map ar_id (ct_assets t)"
    by (rule map_update_where) simp
  have "map asset_key (update_where (\<lambda>x. ar_id x = ar_id a) (activated b p status) (ct_assets t)) =
      map asset_key (ct_assets t)"
    by (rule map_update_where) simp
  moreover have "ar_id ` set (update_where (\<lambda>x. ar_id x = ar_id a) (activated b p status) (ct_assets t)) =
      ar_id ` set (ct_assets t)"
    using arg_cong[OF ids, of set] by simp
  ultimately show ?thesis
    using ok a new h ids unfolding rows_ok_def after_append_sel
    by (auto simp: appended_def)
qed

end
