(* ===== verification/Config_Asset_Spec.thy ===== *)
theory Config_Asset_Spec imports Config_Asset_Facts begin

text \<open>
  What the tables of config assets stand for: a map from the key of an asset to its owner, the
  contents it has had and where it is available. A mutation is specified on that map, without rows,
  ids or revision numbers, and the transactions are shown to do what the specification says.
\<close>

section \<open>The specification\<close>

type_synonym revision_content =
  "revision_operation \<times> json option \<times> audit_actor option \<times> revision_origin option \<times> nat \<times> int"

record asset_view =
  vw_scope :: asset_scope
  vw_history :: "revision_content list"
  vw_availability :: "agent_availability option"

type_synonym asset_map = "string \<times> string \<times> string \<rightharpoonup> asset_view"

definition is_gone :: "asset_view \<Rightarrow> bool" where
  "is_gone v \<longleftrightarrow> fst (snd (last (vw_history v))) = None"

definition written_content :: "batch \<Rightarrow> revision_operation \<Rightarrow> json option \<Rightarrow> revision_content" where
  "written_content b operation config =
     (operation, config, mi_actor (b_input b), mi_origin (b_input b), b_version b, b_now b)"

definition first_availability :: "batch \<Rightarrow> agent_availability" where
  "first_availability b = \<lparr>av_mode = b_mode b, av_personal = False, av_workspaces = []\<rparr>"

definition other_scope :: "string \<Rightarrow> string \<Rightarrow> js_error" where
  "other_scope kind name = app_error_with VALIDATION_FAILED
     (''Config '' @ kind @ '' '' @ quoted name @ '' belongs to another scope'')
     (JObj [(''reason'', JStr ''invalid_scope'')])"

definition deleted_view :: "batch \<Rightarrow> asset_view \<Rightarrow> asset_view" where
  "deleted_view b v =
     (if is_gone v then v
      else v\<lparr>vw_history := vw_history v @ [written_content b Op_Delete None], vw_availability := None\<rparr>)"

definition updated_view :: "batch \<Rightarrow> string \<Rightarrow> json \<Rightarrow> revision_operation option \<Rightarrow> asset_view \<Rightarrow> asset_view" where
  "updated_view b kind config operation v =
     v\<lparr>vw_history := vw_history v @ [written_content b
          (case operation of None \<Rightarrow> (if is_gone v then Op_Create else Op_Update) | Some oper \<Rightarrow> oper) (Some config)],
       vw_availability := (if kind = ''agent'' \<and> is_gone v then Some (first_availability b) else vw_availability v)\<rparr>"

definition created_view :: "batch \<Rightarrow> string \<Rightarrow> json \<Rightarrow> revision_operation option \<Rightarrow> asset_scope \<Rightarrow> asset_view" where
  "created_view b kind config operation scope =
     \<lparr>vw_scope = scope,
      vw_history = [written_content b (case operation of None \<Rightarrow> Op_Create | Some oper \<Rightarrow> oper) (Some config)],
      vw_availability = (if kind = ''agent'' then Some (first_availability b) else None)\<rparr>"

fun scope_exists :: "string list \<Rightarrow> asset_scope \<Rightarrow> bool" where
  "scope_exists workspaces Of_Instance = True"
| "scope_exists workspaces (Of_Workspace w) = (w \<in> set workspaces)"

fun spec_mutation ::
    "batch \<Rightarrow> string list \<Rightarrow> config_mutation \<Rightarrow> asset_map \<times> string option \<Rightarrow>
     (js_error, asset_map \<times> string option) result" where
  "spec_mutation b workspaces (Set_Default_Agent name) (m, d) = Inr (m, name)"
| "spec_mutation b workspaces (Delete_Asset kind name scope) (m, d) =
     (let key = (mi_instance (b_input b), kind, name) in
      case m key of
        None \<Rightarrow> Inr (m, d)
      | Some v \<Rightarrow>
          if scope_of_mutation scope \<noteq> vw_scope v then Inl (other_scope kind name)
          else Inr (m(key \<mapsto> deleted_view b v), d))"
| "spec_mutation b workspaces (Upsert kind name config operation scope) (m, d) =
     (let key = (mi_instance (b_input b), kind, name) in
      case m key of
        None \<Rightarrow>
          if \<not> scope_exists workspaces (scope_of_mutation scope) then Inl key_refused
          else Inr (m(key \<mapsto> created_view b kind config operation (scope_of_mutation scope)), d)
      | Some v \<Rightarrow>
          if scope_of_mutation scope \<noteq> vw_scope v then Inl (other_scope kind name)
          else Inr (m(key \<mapsto> updated_view b kind config operation v), d))"

fun spec_mutations ::
    "batch \<Rightarrow> string list \<Rightarrow> config_mutation list \<Rightarrow> asset_map \<times> string option \<Rightarrow>
     (js_error, asset_map \<times> string option) result" where
  "spec_mutations b workspaces [] s = Inr s"
| "spec_mutations b workspaces (c # cs) s =
     bind_result (spec_mutation b workspaces c s) (spec_mutations b workspaces cs)"

section \<open>The map of the tables\<close>

definition content_of :: "config_revision \<Rightarrow> revision_content" where
  "content_of r = (rev_operation r, rev_config r, rev_actor r, rev_origin r, rev_globalVersion r, rev_createdAt r)"

definition avail_view :: "config_tables \<Rightarrow> string \<Rightarrow> agent_availability option" where
  "avail_view t i = map_option (shown_availability t) (availability_of t i)"

definition scope_view :: "asset_row \<Rightarrow> asset_scope" where
  "scope_view a = (case ar_scopeId a of None \<Rightarrow> Of_Instance | Some w \<Rightarrow> Of_Workspace w)"

definition view_of :: "config_tables \<Rightarrow> asset_row \<Rightarrow> asset_view" where
  "view_of t a =
     \<lparr>vw_scope = scope_view a, vw_history = map content_of (history t (ar_id a)),
      vw_availability = avail_view t (ar_id a)\<rparr>"

definition asset_map_of :: "config_tables \<Rightarrow> asset_map" where
  "asset_map_of t key = map_option (view_of t) (List.find (\<lambda>a. asset_key a = key) (ct_assets t))"

lemma asset_map_Some:
  "distinct (map asset_key (ct_assets t)) \<Longrightarrow> a \<in> set (ct_assets t) \<Longrightarrow>
    asset_map_of t (asset_key a) = Some (view_of t a)"
  by (simp add: asset_map_of_def find_by_key[THEN iffD2])

lemma asset_map_None: "asset_map_of t key = None \<longleftrightarrow> (\<forall>a \<in> set (ct_assets t). asset_key a \<noteq> key)"
  by (simp add: asset_map_of_def find_none)

lemma scope_of_row:
  "scope_ok t a \<Longrightarrow> mapAssetScope a = Inr (scope_view a)"
  by (cases "ar_scopeId a"; cases "ar_scopeKind a") (auto simp: scope_ok_def mapAssetScope_def scope_view_def)

lemma gone_view:
  assumes "rows_ok t" and "a \<in> set (ct_assets t)"
  shows "is_gone (view_of t a) \<longleftrightarrow> ar_status a = Asset_Deleted"
  using history_facts(1,5)[OF assms]
  by (simp add: is_gone_def view_of_def last_map content_of_def)

lemma avail_view_cong:
  "ct_availability t = ct_availability u \<Longrightarrow> ct_workspaceAvailability t = ct_workspaceAvailability u \<Longrightarrow>
    avail_view t = avail_view u"
  by (simp add: avail_view_def fun_eq_iff availability_of_def shown_availability_def[abs_def])

lemma find_update_where:
  "(\<And>r. q r \<Longrightarrow> key (f r) = key r) \<Longrightarrow> List.find (\<lambda>r. key r = k) (update_where q f rows) =
    map_option (\<lambda>r. if q r then f r else r) (List.find (\<lambda>r. key r = k) rows)"
  by (induction rows) (auto simp: update_where_def)

lemma find_delete_where:
  "List.find (\<lambda>r. key r = k) (delete_where (\<lambda>r. key r = j) rows) =
    (if k = j then None else List.find (\<lambda>r. key r = k) rows)"
  by (induction rows) (auto simp: delete_where_def)

text \<open>An appended revision is one more content of its asset, and of no other.\<close>

lemma view_after_append:
  assumes "rows_ok t" and "a \<in> set (ct_assets t)" and "x \<in> set (ct_assets t)"
  shows "view_of (after_append b p a operation config status t) (if ar_id x = ar_id a then activated b p status x else x) =
    (if x = a then (view_of t a)\<lparr>vw_history := vw_history (view_of t a) @ [written_content b operation config]\<rparr>
     else view_of t x)"
proof -
  have av: "avail_view (after_append b p a operation config status t) = avail_view t"
    by (rule avail_view_cong) (simp_all add: after_append_sel)
  have c: "content_of (appended b p a operation config t) = written_content b operation config"
    by (simp add: content_of_def appended_def new_revision_def written_content_def)
  show ?thesis
    using same_asset[OF assms(1) assms(3,2)] c
    by (auto simp: view_of_def history_after_append av scope_view_def)
qed

lemma map_after_append:
  assumes ok: "rows_ok t" and a: "a \<in> set (ct_assets t)"
  shows "asset_map_of (after_append b p a operation config status t) = (asset_map_of t)(asset_key a \<mapsto>
    (view_of t a)\<lparr>vw_history := vw_history (view_of t a) @ [written_content b operation config]\<rparr>)"
proof
  fix k
  have u: "distinct (map asset_key (ct_assets t))" using ok by (simp add: rows_ok_def)
  have f: "List.find (\<lambda>x. asset_key x = k) (ct_assets (after_append b p a operation config status t)) =
    map_option (\<lambda>x. if ar_id x = ar_id a then activated b p status x else x)
      (List.find (\<lambda>x. asset_key x = k) (ct_assets t))"
    unfolding after_append_sel by (rule find_update_where) simp
  show "asset_map_of (after_append b p a operation config status t) k = ((asset_map_of t)(asset_key a \<mapsto>
    (view_of t a)\<lparr>vw_history := vw_history (view_of t a) @ [written_content b operation config]\<rparr>)) k"
  proof (cases "List.find (\<lambda>x. asset_key x = k) (ct_assets t)")
    case None
    moreover from this have "asset_key a \<noteq> k" using a by (auto simp: find_none)
    ultimately show ?thesis by (simp add: asset_map_of_def f)
  next
    case (Some x)
    then have x: "x \<in> set (ct_assets t)" "asset_key x = k" using find_by_key[OF u] by blast+
    have "x = a \<longleftrightarrow> asset_key a = k"
      using x a distinct_map_inj[OF u] by blast
    then show ?thesis
      using view_after_append[OF ok a x(1), of b p operation config status] Some
      by (auto simp: asset_map_of_def f)
  qed
qed

end
