(* ===== verification/Config_Asset_Refine.thy ===== *)
theory Config_Asset_Refine imports Config_Asset_Spec begin

text \<open>
  The mutations of a batch keep the invariant of the rows and do to the map of the tables what the
  specification says.
\<close>

section \<open>Availability\<close>

lemma avail_after_drop:
  "avail_view (drop_availability i t) j = (if j = i then None else avail_view t j)"
proof (cases "j = i")
  case False
  have "shown_availability (drop_availability i t) v = shown_availability t v" if "avr_assetId v = j" for v
    using False that by (simp add: shown_availability_def drop_availability_def delete_where_def conj_commute)
      (metis (mono_tags, lifting) filter_cong)
  then show ?thesis using False
    by (auto simp: avail_view_def availability_of_def drop_availability_def find_delete_where
        intro!: map_option_cong dest: find_Some_iff)
qed (simp add: avail_view_def availability_of_def drop_availability_def find_delete_where)

definition first_row :: "batch \<Rightarrow> string \<Rightarrow> availability_row" where
  "first_row b i = \<lparr>avr_assetId = i, avr_instance = mi_instance (b_input b), avr_mode = b_mode b,
     avr_personal = False, avr_updatedAt = b_now b\<rparr>"

definition with_row :: "availability_row \<Rightarrow> config_tables \<Rightarrow> config_tables" where
  "with_row v t = t\<lparr>ct_availability := ct_availability t @ [v]\<rparr>"

lemma with_row_sel [simp]:
  "ct_availability (with_row v t) = ct_availability t @ [v]" "ct_assets (with_row v t) = ct_assets t"
  "ct_revisions (with_row v t) = ct_revisions t" "ct_workspaces (with_row v t) = ct_workspaces t"
  "ct_workspaceAvailability (with_row v t) = ct_workspaceAvailability t"
  "ct_states (with_row v t) = ct_states t" "rows_ok (with_row v t) = rows_ok t"
  "avr_assetId (first_row b i) = i"
  by (simp_all add: with_row_def first_row_def)

lemma insert_first_row:
  "insertInitialAvailability b i t =
    (if i \<in> avr_assetId ` set (ct_availability t) then Inl key_refused else Inr (with_row (first_row b i) t))"
  by (auto simp: insertInitialAvailability_def with_row_def first_row_def)

lemma avail_after_first:
  assumes "i \<notin> avr_assetId ` set (ct_availability t)"
    and "i \<notin> wav_assetId ` set (ct_workspaceAvailability t)"
  shows "avail_view (with_row (first_row b i) t) j =
    (if j = i then Some (first_availability b) else avail_view t j)"
proof -
  have s: "shown_availability (with_row (first_row b i) t) = shown_availability t"
    by (simp add: shown_availability_def[abs_def] with_row_def)
  have "filter (\<lambda>w. wav_assetId w = i) (ct_workspaceAvailability t) = []"
    using assms(2) by (auto simp: filter_empty_conv)
  then have f: "shown_availability t (first_row b i) = first_availability b"
    by (simp add: shown_availability_def first_row_def first_availability_def)
  have "List.find (\<lambda>v. avr_assetId v = i) (ct_availability t) = None"
    using assms(1) by (auto simp: find_none)
  then show ?thesis
    by (auto simp: avail_view_def s availability_of_def find_append f split: option.splits)
qed

lemma map_of_avail:
  assumes "ct_assets t' = ct_assets t" and "ct_revisions t' = ct_revisions t"
    and a: "a \<in> set (ct_assets t)" and ok: "rows_ok t"
    and av: "\<And>j. avail_view t' j = (if j = ar_id a then v else avail_view t j)"
  shows "asset_map_of t' = (asset_map_of t)(asset_key a \<mapsto> (view_of t a)\<lparr>vw_availability := v\<rparr>)"
proof
  fix k
  have u: "distinct (map asset_key (ct_assets t))" using ok by (simp add: rows_ok_def)
  show "asset_map_of t' k = ((asset_map_of t)(asset_key a \<mapsto> (view_of t a)\<lparr>vw_availability := v\<rparr>)) k"
  proof (cases "List.find (\<lambda>x. asset_key x = k) (ct_assets t)")
    case None
    moreover from this have "asset_key a \<noteq> k" using a by (auto simp: find_none)
    ultimately show ?thesis using assms(1) by (simp add: asset_map_of_def)
  next
    case (Some x)
    then have x: "x \<in> set (ct_assets t)" "asset_key x = k" using find_by_key[OF u] by blast+
    have "ar_id x = ar_id a \<longleftrightarrow> asset_key a = k"
      using x a distinct_map_inj[OF u] same_asset[OF ok] by blast
    moreover have "asset_key a = k \<Longrightarrow> x = a" using x a distinct_map_inj[OF u] by blast
    ultimately show ?thesis
      using Some assms(1,2) by (auto simp: asset_map_of_def view_of_def av history_def)
  qed
qed

definition active_ids :: "config_tables \<Rightarrow> string set" where
  "active_ids t = ar_id ` {a \<in> set (ct_assets t). active_agent a}"

lemma availability_ok_active:
  "availability_ok t \<longleftrightarrow>
     distinct (map avr_assetId (ct_availability t)) \<and>
     avr_assetId ` set (ct_availability t) = active_ids t \<and>
     (\<forall>w \<in> set (ct_workspaceAvailability t). wav_assetId w \<in> active_ids t \<and>
        wav_workspaceId w \<in> set (ct_workspaces t))"
  by (auto simp: availability_ok_def active_ids_def)

lemma image_of_changed: "(\<And>x. h (f x) = h x) \<Longrightarrow> h ` {x \<in> f ` S. P x} = h ` {x \<in> S. P (f x)}"
  by (auto simp: image_iff) metis

lemma active_ids_append:
  assumes ok: "rows_ok t" and a: "a \<in> set (ct_assets t)"
  shows "active_ids (after_append b p a operation config status t) =
    (if ar_kind a = ''agent'' \<and> status = Asset_Active then insert (ar_id a) (active_ids t)
     else active_ids t - {ar_id a})"
proof -
  have same: "x \<in> set (ct_assets t) \<Longrightarrow> ar_id x = ar_id a \<longleftrightarrow> x = a" for x
    using same_asset[OF ok _ a] by blast
  let ?f = "\<lambda>x. if ar_id x = ar_id a then activated b p status x else x"
  have f: "active_agent (?f x) \<longleftrightarrow>
      (if x = a then ar_kind a = ''agent'' \<and> status = Asset_Active else active_agent x)"
    if "x \<in> set (ct_assets t)" for x
    using same[OF that] by (simp add: active_agent_def)
  have "active_ids (after_append b p a operation config status t) =
    ar_id ` {x \<in> ?f ` set (ct_assets t). active_agent x}"
    by (simp add: active_ids_def after_append_sel update_where_def)
  also have "\<dots> = ar_id ` {x \<in> set (ct_assets t). active_agent (?f x)}"
    by (rule image_of_changed) simp
  also have "\<dots> = ar_id ` {x \<in> set (ct_assets t).
      if x = a then ar_kind a = ''agent'' \<and> status = Asset_Active else active_agent x}"
    using f by (intro arg_cong[where f = "image ar_id"] Collect_cong) blast
  also have "\<dots> = (if ar_kind a = ''agent'' \<and> status = Asset_Active then insert (ar_id a) (active_ids t)
     else active_ids t - {ar_id a})"
  proof (cases "ar_kind a = ''agent'' \<and> status = Asset_Active")
    case True
    then have "{x \<in> set (ct_assets t). if x = a then ar_kind a = ''agent'' \<and> status = Asset_Active else active_agent x} =
        insert a {x \<in> set (ct_assets t). active_agent x}"
      using a by auto
    then show ?thesis using True by (simp add: active_ids_def)
  next
    case False
    then have "{x \<in> set (ct_assets t). if x = a then ar_kind a = ''agent'' \<and> status = Asset_Active else active_agent x} =
        {x \<in> set (ct_assets t). active_agent x} - {a}"
      by auto
    moreover have "{x \<in> set (ct_assets t). active_agent x} - {a} =
        {x \<in> set (ct_assets t). active_agent x \<and> ar_id x \<noteq> ar_id a}"
      using same by blast
    moreover have "ar_id ` {x \<in> set (ct_assets t). active_agent x \<and> ar_id x \<noteq> ar_id a} = active_ids t - {ar_id a}"
      unfolding active_ids_def by auto
    ultimately show ?thesis unfolding if_not_P[OF False] by simp
  qed
  finally show ?thesis .
qed

lemma active_idsI: "rows_ok t \<Longrightarrow> a \<in> set (ct_assets t) \<Longrightarrow> ar_id a \<in> active_ids t \<longleftrightarrow> active_agent a"
  unfolding active_ids_def using same_asset by auto

lemma active_ids_cong [simp]:
  "active_ids (t\<lparr>ct_availability := y\<rparr>) = active_ids t"
  "active_ids (t\<lparr>ct_workspaceAvailability := z\<rparr>) = active_ids t"
  "active_ids (t\<lparr>ct_grants := g\<rparr>) = active_ids t"
  "active_ids (t\<lparr>ct_revisions := r\<rparr>) = active_ids t"
  "active_ids (t\<lparr>ct_states := s\<rparr>) = active_ids t"
  by (simp_all add: active_ids_def)

section \<open>Deleting, writing and creating an asset\<close>

text \<open>What a statement that succeeded has left: the invariant, and the map with one entry changed.\<close>

definition tables_ok :: "config_tables \<Rightarrow> bool" where
  "tables_ok t \<longleftrightarrow> rows_ok t \<and> availability_ok t"

lemma delete_cases:
  assumes ok: "tables_ok t" and a: "a \<in> set (ct_assets t)"
  shows "delete_asset b p (Some a) t =
    (if ar_status a = Asset_Deleted then Inr t
     else if b_revisionId b p \<in> rev_id ` set (ct_revisions t) then Inl key_refused
     else Inr (drop_allowing_grants (mi_instance (b_input b)) (ar_id a)
       (drop_availability (ar_id a) (after_append b p a Op_Delete None Asset_Deleted t))))"
  using append_cases[OF _ a] ok by (simp add: delete_asset_def tables_ok_def)

lemma drop_sel [simp]:
  "ct_assets (drop_availability i t) = ct_assets t" "ct_revisions (drop_availability i t) = ct_revisions t"
  "ct_workspaces (drop_availability i t) = ct_workspaces t" "ct_states (drop_availability i t) = ct_states t"
  "ct_availability (drop_availability i t) = delete_where (\<lambda>v. avr_assetId v = i) (ct_availability t)"
  "ct_workspaceAvailability (drop_availability i t) =
     delete_where (\<lambda>w. wav_assetId w = i) (ct_workspaceAvailability t)"
  "rows_ok (drop_availability i t) = rows_ok t" "active_ids (drop_availability i t) = active_ids t"
  by (simp_all add: drop_availability_def)

lemma drop_grants_sel [simp]:
  "ct_assets (drop_allowing_grants inst i t) = ct_assets t"
  "ct_revisions (drop_allowing_grants inst i t) = ct_revisions t"
  "ct_workspaces (drop_allowing_grants inst i t) = ct_workspaces t"
  "ct_states (drop_allowing_grants inst i t) = ct_states t"
  "ct_availability (drop_allowing_grants inst i t) = ct_availability t"
  "ct_workspaceAvailability (drop_allowing_grants inst i t) = ct_workspaceAvailability t"
  "rows_ok (drop_allowing_grants inst i t) = rows_ok t"
  "active_ids (drop_allowing_grants inst i t) = active_ids t"
  by (simp_all add: drop_allowing_grants_def)

lemma asset_map_cong:
  "ct_assets t = ct_assets u \<Longrightarrow> ct_revisions t = ct_revisions u \<Longrightarrow> ct_availability t = ct_availability u \<Longrightarrow>
    ct_workspaceAvailability t = ct_workspaceAvailability u \<Longrightarrow> asset_map_of t = asset_map_of u"
  using avail_view_cong[of t u]
  by (simp add: asset_map_of_def fun_eq_iff view_of_def[abs_def] history_def)

lemma after_append_key:
  assumes "a \<in> set (ct_assets t)"
  shows "activated b p status a \<in> set (ct_assets (after_append b p a operation config status t))"
  using assms by (auto simp: after_append_sel update_where_def)

lemma delete_ok:
  assumes ok: "tables_ok t" and a: "a \<in> set (ct_assets t)" and d: "delete_asset b p (Some a) t = Inr t'"
  shows "tables_ok t' \<and> asset_map_of t' = (asset_map_of t)(asset_key a \<mapsto> deleted_view b (view_of t a))"
proof (cases "ar_status a = Asset_Deleted")
  case True
  have "rows_ok t" using ok by (simp add: tables_ok_def)
  then have "deleted_view b (view_of t a) = view_of t a" and "asset_map_of t (asset_key a) = Some (view_of t a)"
    using True gone_view[OF _ a] asset_map_Some[OF _ a] by (simp_all add: deleted_view_def rows_ok_def)
  then show ?thesis using d ok True by (auto simp: delete_cases[OF ok a] fun_upd_idem)
next
  case False
  let ?u = "after_append b p a Op_Delete None Asset_Deleted t"
  have r: "rows_ok t" and v: "availability_ok t" using ok by (simp_all add: tables_ok_def)
  have new: "b_revisionId b p \<notin> rev_id ` set (ct_revisions t)"
    and t': "t' = drop_allowing_grants (mi_instance (b_input b)) (ar_id a) (drop_availability (ar_id a) ?u)"
    using d False by (auto simp: delete_cases[OF ok a] split: if_splits)
  have ru: "rows_ok ?u" by (rule rows_ok_append[OF r a _ new]) simp
  have "asset_map_of t' = asset_map_of (drop_availability (ar_id a) ?u)"
    unfolding t' by (rule asset_map_cong) simp_all
  also have "\<dots> = (asset_map_of ?u)(asset_key (activated b p Asset_Deleted a) \<mapsto>
      (view_of ?u (activated b p Asset_Deleted a))\<lparr>vw_availability := None\<rparr>)"
    by (rule map_of_avail[OF _ _ after_append_key[OF a] ru]) (simp_all add: avail_after_drop)
  also have "\<dots> = (asset_map_of t)(asset_key a \<mapsto> deleted_view b (view_of t a))"
    using view_after_append[OF r a a, of b p Op_Delete None Asset_Deleted] gone_view[OF r a] False
    by (simp add: map_after_append[OF r a] deleted_view_def)
  finally have m: "asset_map_of t' = \<dots>" .
  have "availability_ok t'"
    using v unfolding availability_ok_active t'
    by (auto simp: active_ids_append[OF r a] after_append_sel distinct_map_delete_where row_simps)
  then show ?thesis using m ru t' by (simp add: tables_ok_def)
qed

lemma first_absent:
  assumes "availability_ok t" and "i \<notin> active_ids t"
  shows "i \<notin> avr_assetId ` set (ct_availability t)" and "i \<notin> wav_assetId ` set (ct_workspaceAvailability t)"
  using assms unfolding availability_ok_active by auto

lemma with_first_ok:
  assumes ok: "rows_ok t" and v: "availability_ok u" and a: "a \<in> set (ct_assets t)"
    and i: "ar_id a \<notin> active_ids u" and t: "active_ids t = insert (ar_id a) (active_ids u)"
    and same: "ct_availability t = ct_availability u" "ct_workspaceAvailability t = ct_workspaceAvailability u"
      "ct_workspaces t = ct_workspaces u"
  shows "insertInitialAvailability b (ar_id a) t = Inr (with_row (first_row b (ar_id a)) t) \<and>
    tables_ok (with_row (first_row b (ar_id a)) t) \<and>
    asset_map_of (with_row (first_row b (ar_id a)) t) =
      (asset_map_of t)(asset_key a \<mapsto> (view_of t a)\<lparr>vw_availability := Some (first_availability b)\<rparr>)"
proof -
  have n: "ar_id a \<notin> avr_assetId ` set (ct_availability t)" "ar_id a \<notin> wav_assetId ` set (ct_workspaceAvailability t)"
    unfolding same by (rule first_absent[OF v i])+
  have "active_ids (with_row (first_row b (ar_id a)) t) = active_ids t" by (simp add: with_row_def)
  then have "availability_ok (with_row (first_row b (ar_id a)) t)"
    using v i unfolding availability_ok_active by (auto simp: t same)
  then show ?thesis
    using n ok map_of_avail[OF _ _ a ok avail_after_first[OF n, of b]]
    by (simp add: insert_first_row tables_ok_def)
qed

definition update_operation :: "revision_operation option \<Rightarrow> asset_row \<Rightarrow> revision_operation" where
  "update_operation operation a =
     (case operation of None \<Rightarrow> (if ar_status a = Asset_Deleted then Op_Create else Op_Update) | Some oper \<Rightarrow> oper)"

lemma update_ok:
  assumes ok: "tables_ok t" and a: "a \<in> set (ct_assets t)"
  shows "if b_revisionId b p \<in> rev_id ` set (ct_revisions t)
    then update_asset b p a config operation t = Inl key_refused
    else \<exists>t'. update_asset b p a config operation t = Inr t' \<and> tables_ok t' \<and>
      asset_map_of t' = (asset_map_of t)(asset_key a \<mapsto> updated_view b (ar_kind a) config operation (view_of t a))"
proof (cases "b_revisionId b p \<in> rev_id ` set (ct_revisions t)")
  case True
  then show ?thesis using append_cases[OF _ a] ok by (simp add: update_asset_def tables_ok_def)
next
  case False
  let ?u = "after_append b p a (update_operation operation a) (Some config) Asset_Active t"
  let ?a = "activated b p Asset_Active a"
  have r: "rows_ok t" and v: "availability_ok t" using ok by (simp_all add: tables_ok_def)
  have ru: "rows_ok ?u" by (rule rows_ok_append[OF r a _ False]) simp
  have u: "update_asset b p a config operation t =
      (if ar_kind a = ''agent'' \<and> ar_status a = Asset_Deleted then insertInitialAvailability b (ar_id a) ?u else Inr ?u)"
    using False by (simp add: update_asset_def append_cases[OF r a] update_operation_def)
  have m: "asset_map_of ?u = (asset_map_of t)(asset_key a \<mapsto>
      (view_of t a)\<lparr>vw_history := vw_history (view_of t a) @ [written_content b (update_operation operation a) (Some config)]\<rparr>)"
    by (rule map_after_append[OF r a])
  have vu: "view_of ?u ?a = (view_of t a)\<lparr>vw_history := vw_history (view_of t a) @
      [written_content b (update_operation operation a) (Some config)]\<rparr>"
    using view_after_append[OF r a a, of b p _ "Some config" Asset_Active] by simp
  have op: "(case operation of None \<Rightarrow> (if is_gone (view_of t a) then Op_Create else Op_Update) | Some oper \<Rightarrow> oper) =
      update_operation operation a"
    using gone_view[OF r a] by (simp add: update_operation_def)
  show ?thesis
  proof (cases "ar_kind a = ''agent'' \<and> ar_status a = Asset_Deleted")
    case True
    have "ar_id ?a \<notin> active_ids t" using True active_idsI[OF r a] by (simp add: active_agent_def)
    from with_first_ok[OF ru v after_append_key[OF a] this, of b] True
    show ?thesis using False op gone_view[OF r a] m vu
      by (simp add: u after_append_sel active_ids_append[OF r a] updated_view_def)
  next
    case no: False
    have "active_ids ?u = active_ids t"
      using no active_idsI[OF r a] by (auto simp: active_ids_append[OF r a] active_agent_def)
        (metis asset_status.exhaust insert_absorb)
    then have "availability_ok ?u" using v by (simp add: availability_ok_active after_append_sel)
    moreover have "updated_view b (ar_kind a) config operation (view_of t a) = view_of ?u ?a"
      using no op gone_view[OF r a] unfolding vu by (auto simp: updated_view_def)
    ultimately show ?thesis using False no m ru vu by (auto simp: u tables_ok_def)
  qed
qed

definition create_operation :: "revision_operation option \<Rightarrow> revision_operation" where
  "create_operation operation = (case operation of None \<Rightarrow> Op_Create | Some oper \<Rightarrow> oper)"

definition after_create ::
    "batch \<Rightarrow> nat \<Rightarrow> string \<Rightarrow> string \<Rightarrow> json \<Rightarrow> revision_operation option \<Rightarrow> asset_scope \<Rightarrow> config_tables \<Rightarrow> config_tables" where
  "after_create b p kind name config operation scope t = t
     \<lparr>ct_assets := ct_assets t @ [new_asset_row b p kind name scope],
      ct_revisions := ct_revisions t @ [new_revision b (b_revisionId b p) (mi_instance (b_input b))
        (b_assetId b p) 1 (create_operation operation) (Some config)]\<rparr>"

lemma after_create_sel [simp]:
  "ct_assets (after_create b p kind name config operation scope t) =
     ct_assets t @ [new_asset_row b p kind name scope]"
  "ct_availability (after_create b p kind name config operation scope t) = ct_availability t"
  "ct_workspaceAvailability (after_create b p kind name config operation scope t) = ct_workspaceAvailability t"
  "ct_workspaces (after_create b p kind name config operation scope t) = ct_workspaces t"
  "ct_states (after_create b p kind name config operation scope t) = ct_states t"
  by (simp_all add: after_create_def)

lemma history_after_create:
  "history (after_create b p kind name config operation scope t) i = history t i @
    (if i = b_assetId b p then [new_revision b (b_revisionId b p) (mi_instance (b_input b))
       (b_assetId b p) 1 (create_operation operation) (Some config)] else [])"
  by (simp add: history_def after_create_def)

lemma new_asset_row_sel [simp]:
  "ar_id (new_asset_row b p kind name scope) = b_assetId b p"
  "asset_key (new_asset_row b p kind name scope) = (mi_instance (b_input b), kind, name)"
  "ar_instance (new_asset_row b p kind name scope) = mi_instance (b_input b)"
  "ar_kind (new_asset_row b p kind name scope) = kind"
  "ar_status (new_asset_row b p kind name scope) = Asset_Active"
  "ar_activeRevisionId (new_asset_row b p kind name scope) = b_revisionId b p"
  "ar_scopeKind (new_asset_row b p kind name scope) = fst (scope_columns scope)"
  "ar_scopeId (new_asset_row b p kind name scope) = snd (scope_columns scope)"
  "scope_view (new_asset_row b p kind name scope) = scope"
  by (cases scope; simp add: new_asset_row_def asset_key_def scope_view_def)+

definition fresh_at :: "batch \<Rightarrow> nat \<Rightarrow> config_tables \<Rightarrow> bool" where
  "fresh_at b p t \<longleftrightarrow> b_assetId b p \<notin> ar_id ` set (ct_assets t) \<and> b_revisionId b p \<notin> rev_id ` set (ct_revisions t)"

lemma not_imageD: "i \<notin> f ` S \<Longrightarrow> x \<in> S \<Longrightarrow> f x \<noteq> i"
  by auto

lemma no_history:
  "rows_ok t \<Longrightarrow> i \<notin> ar_id ` set (ct_assets t) \<Longrightarrow> history t i = []"
  by (auto simp: rows_ok_def history_def filter_empty_conv)

lemma create_rows:
  assumes ok: "rows_ok t" and new: "fresh_at b p t"
    and key: "(mi_instance (b_input b), kind, name) \<notin> asset_key ` set (ct_assets t)"
    and scope: "scope_exists (ct_workspaces t) scope"
  shows "rows_ok (after_create b p kind name config operation scope t)"
proof -
  let ?t = "after_create b p kind name config operation scope t"
  have "history_ok ?t a \<and> scope_ok ?t a" if a: "a \<in> set (ct_assets t)" for a
  proof -
    have "ar_id a \<noteq> b_assetId b p" using a new not_imageD by (fastforce simp: fresh_at_def)
    moreover have "history_ok t a" "scope_ok t a" using ok a by (simp_all add: rows_ok_def)
    ultimately show ?thesis by (simp add: history_ok_def scope_ok_def history_after_create)
  qed
  moreover have "history_ok ?t (new_asset_row b p kind name scope)"
    using no_history[OF ok, of "b_assetId b p"] new
    by (simp add: history_ok_def history_after_create fresh_at_def)
  moreover have "scope_ok ?t (new_asset_row b p kind name scope)"
    using scope by (cases scope) (simp_all add: scope_ok_def)
  ultimately show ?thesis
    using ok new key by (auto simp: rows_ok_def fresh_at_def after_create_def)
qed

lemma create_map:
  assumes ok: "tables_ok t" and new: "fresh_at b p t"
    and key: "(mi_instance (b_input b), kind, name) \<notin> asset_key ` set (ct_assets t)"
  shows "asset_map_of (after_create b p kind name config operation scope t) =
    (asset_map_of t)((mi_instance (b_input b), kind, name) \<mapsto>
      view_of (after_create b p kind name config operation scope t) (new_asset_row b p kind name scope))"
proof
  fix k
  let ?t = "after_create b p kind name config operation scope t"
  have av: "avail_view ?t = avail_view t" by (rule avail_view_cong) simp_all
  have old: "view_of ?t a = view_of t a" if "a \<in> set (ct_assets t)" for a
  proof -
    have "ar_id a \<noteq> b_assetId b p" using that new not_imageD by (fastforce simp: fresh_at_def)
    then show ?thesis by (simp add: view_of_def av history_after_create)
  qed
  show "asset_map_of ?t k = ((asset_map_of t)((mi_instance (b_input b), kind, name) \<mapsto>
      view_of ?t (new_asset_row b p kind name scope))) k"
    using old not_imageD[OF key]
    by (auto simp: asset_map_of_def find_append split: option.splits dest!: find_Some_iff)
qed

lemma create_view:
  assumes ok: "tables_ok t" and new: "fresh_at b p t"
  shows "view_of (after_create b p kind name config operation scope t) (new_asset_row b p kind name scope) =
    \<lparr>vw_scope = scope, vw_history = [written_content b (create_operation operation) (Some config)],
     vw_availability = None\<rparr>"
proof -
  let ?t = "after_create b p kind name config operation scope t"
  have r: "rows_ok t" and v: "availability_ok t" using ok by (simp_all add: tables_ok_def)
  have i: "b_assetId b p \<notin> active_ids t" using new by (auto simp: fresh_at_def active_ids_def)
  have "avail_view ?t = avail_view t" by (rule avail_view_cong) simp_all
  moreover have "avail_view t (b_assetId b p) = None"
    using first_absent(1)[OF v i] not_imageD by (fastforce simp: avail_view_def availability_of_def find_none)
  ultimately show ?thesis
    using no_history[OF r, of "b_assetId b p"] new
    by (simp add: view_of_def history_after_create fresh_at_def content_of_def new_revision_def written_content_def)
qed

lemma create_ok:
  assumes ok: "tables_ok t" and new: "fresh_at b p t"
    and key: "(mi_instance (b_input b), kind, name) \<notin> asset_key ` set (ct_assets t)"
  shows "if scope_exists (ct_workspaces t) scope
    then \<exists>t'. create_asset b p kind name config operation scope t = Inr t' \<and> tables_ok t' \<and>
      asset_map_of t' = (asset_map_of t)((mi_instance (b_input b), kind, name) \<mapsto> created_view b kind config operation scope)
    else create_asset b p kind name config operation scope t = Inl key_refused"
proof (cases "scope_exists (ct_workspaces t) scope")
  case False
  then show ?thesis by (cases scope) (simp_all add: create_asset_def insert_asset_def)
next
  case True
  let ?row = "new_asset_row b p kind name scope"
  let ?t = "after_create b p kind name config operation scope t"
  have r: "rows_ok t" and v: "availability_ok t" using ok by (simp_all add: tables_ok_def)
  have "\<not> (\<exists>x \<in> set (ct_assets t). ar_id x = ar_id ?row \<or> ar_instance x = ar_instance ?row \<and>
      ar_kind x = kind \<and> ar_name x = name)"
    using new key unfolding fresh_at_def asset_key_def image_iff by (metis new_asset_row_sel(1,3))
  moreover have "ar_name ?row = name" by (simp add: new_asset_row_def)
  moreover have "\<not> (case ar_scopeId ?row of None \<Rightarrow> False | Some w \<Rightarrow> w \<notin> set (ct_workspaces t))"
    using True by (cases scope) auto
  ultimately have ins: "insert_asset ?row t = Inr (t\<lparr>ct_assets := ct_assets t @ [?row]\<rparr>)"
    by (simp add: insert_asset_def)
  have "rev_assetId s \<noteq> b_assetId b p \<and> rev_id s \<noteq> b_revisionId b p" if "s \<in> set (ct_revisions t)" for s
  proof -
    have "rev_assetId s \<in> ar_id ` set (ct_assets t)" using that r by (simp add: rows_ok_def)
    then show ?thesis using new that unfolding fresh_at_def by (metis image_eqI)
  qed
  then have c: "create_asset b p kind name config operation scope t =
      (if kind = ''agent'' then insertInitialAvailability b (b_assetId b p) ?t else Inr ?t)"
    by (auto simp: create_asset_def ins insert_revision_def after_create_def create_operation_def)
  have rt: "rows_ok ?t" by (rule create_rows[OF r new key True])
  have i: "b_assetId b p \<notin> active_ids t" using new by (auto simp: fresh_at_def active_ids_def)
  have ids: "active_ids ?t = (if kind = ''agent'' then insert (b_assetId b p) (active_ids t) else active_ids t)"
  proof -
    have "{a \<in> set (ct_assets ?t). active_agent a} = {a \<in> set (ct_assets t). active_agent a} \<union>
        (if kind = ''agent'' then {?row} else {})"
      by (auto simp: active_agent_def)
    then show ?thesis unfolding active_ids_def by simp
  qed
  show ?thesis
  proof (cases "kind = ''agent''")
    case agent: True
    have "?row \<in> set (ct_assets ?t)" by simp
    from with_first_ok[OF rt v this, of b] agent show ?thesis
      using True i create_view[OF ok new] create_map[OF ok new key]
      by (simp add: c[unfolded agent] ids[unfolded agent] created_view_def create_operation_def)
  next
    case no: False
    then have "availability_ok ?t" using v by (simp add: availability_ok_active ids)
    then show ?thesis using True no rt create_view[OF ok new] create_map[OF ok new key]
      by (simp add: c tables_ok_def created_view_def create_operation_def)
  qed
qed

end
