(* ===== verification/Config_Asset_Steps.thy ===== *)
theory Config_Asset_Steps imports Config_Asset_Refine begin

text \<open>
  The transactions over config assets as steps of the tables, and the invariant every reachable
  state of the tables has.
\<close>

section \<open>One mutation\<close>

text \<open>What a mutation cannot change, and what it may add.\<close>

definition mutation_frame :: "batch \<Rightarrow> nat \<Rightarrow> config_tables \<Rightarrow> config_tables \<Rightarrow> bool" where
  "mutation_frame b p t t' \<longleftrightarrow>
     ct_workspaces t' = ct_workspaces t \<and> ct_states t' = ct_states t \<and>
     (ct_revisions t' = ct_revisions t \<or>
      (\<exists>r. ct_revisions t' = ct_revisions t @ [r] \<and> rev_id r = b_revisionId b p \<and>
         rev_globalVersion r = b_version b \<and> rev_instance r = mi_instance (b_input b))) \<and>
     ar_id ` set (ct_assets t') \<subseteq> insert (b_assetId b p) (ar_id ` set (ct_assets t))"

lemma frame_same: "mutation_frame b p t t"
  by (auto simp: mutation_frame_def)

lemma frame_append:
  assumes "ar_instance a = mi_instance (b_input b)"
  shows "mutation_frame b p t (after_append b p a operation config status t)"
proof -
  have "map ar_id (update_where (\<lambda>x. ar_id x = ar_id a) (activated b p status) (ct_assets t)) = map ar_id (ct_assets t)"
    by (rule map_update_where) simp
  from arg_cong[OF this, of set] show ?thesis
    using assms by (auto simp: mutation_frame_def after_append_sel appended_def)
qed

lemma frame_cong:
  "mutation_frame b p t u \<Longrightarrow> ct_workspaces v = ct_workspaces u \<Longrightarrow> ct_states v = ct_states u \<Longrightarrow>
    ct_revisions v = ct_revisions u \<Longrightarrow> ct_assets v = ct_assets u \<Longrightarrow> mutation_frame b p t v"
  by (simp add: mutation_frame_def)

lemma frame_create: "mutation_frame b p t (after_create b p kind name config operation scope t)"
  by (auto simp: mutation_frame_def after_create_def)

lemma first_row_frame:
  "insertInitialAvailability b i u = Inr t' \<Longrightarrow> mutation_frame b p t u \<Longrightarrow> mutation_frame b p t t'"
  by (auto simp: insert_first_row split: if_splits elim!: frame_cong)

lemma create_success:
  assumes ok: "rows_ok t" and c: "create_asset b p kind name config operation scope t = Inr t'"
  shows "fresh_at b p t \<and> mutation_frame b p t t'"
proof -
  obtain u v where u: "insert_asset (new_asset_row b p kind name scope) t = Inr u"
    and v: "insert_revision (new_revision b (b_revisionId b p) (mi_instance (b_input b)) (b_assetId b p) 1
      (create_operation operation) (Some config)) u = Inr v"
    and t': "(if kind = ''agent'' then insertInitialAvailability b (b_assetId b p) v else Inr v) = Inr t'"
    using c unfolding create_asset_def create_operation_def by auto
  have v': "v = after_create b p kind name config operation scope t"
    and f: "fresh_at b p t"
    using u v by (auto simp: insert_asset_def insert_revision_def after_create_def fresh_at_def split: if_splits)
  have "mutation_frame b p t v" unfolding v' by (rule frame_create)
  then show ?thesis using f t' first_row_frame by (auto split: if_splits)
qed

lemma scope_checked:
  assumes ok: "tables_ok t" and a: "a \<in> set (ct_assets t)"
  shows "check_scope (Some a) scope kind name =
    (if scope \<noteq> vw_scope (view_of t a) then Inl (other_scope kind name) else Inr ())"
proof -
  have "scope_ok t a" using ok a by (simp add: tables_ok_def rows_ok_def)
  then show ?thesis
    by (simp add: check_scope_def scope_of_row scopes_equal other_scope_def view_of_def)
qed

lemma found_view:
  assumes ok: "tables_ok t" and f: "findConfigAssetRow t inst kind name = Some a"
  shows "a \<in> set (ct_assets t)" and "asset_key a = (inst, kind, name)"
    and "asset_map_of t (inst, kind, name) = Some (view_of t a)"
proof -
  have u: "distinct (map asset_key (ct_assets t))" using ok by (simp add: tables_ok_def rows_ok_def)
  show a: "a \<in> set (ct_assets t)" and k: "asset_key a = (inst, kind, name)"
    using f find_row[OF u] by blast+
  show "asset_map_of t (inst, kind, name) = Some (view_of t a)"
    using asset_map_Some[OF u a] k by simp
qed

lemma update_frame:
  assumes "rows_ok t" and "a \<in> set (ct_assets t)" and "ar_instance a = mi_instance (b_input b)"
    and "update_asset b p a config operation t = Inr t'"
  shows "mutation_frame b p t t'"
  using assms(4) frame_append[OF assms(3), of p t]
  by (auto simp: update_asset_def append_cases[OF assms(1,2)] split: if_splits intro: first_row_frame)

lemma delete_frame:
  assumes "tables_ok t" and "a \<in> set (ct_assets t)" and "ar_instance a = mi_instance (b_input b)"
    and "delete_asset b p (Some a) t = Inr t'"
  shows "mutation_frame b p t t'"
proof (cases "ar_status a = Asset_Deleted")
  case True
  then show ?thesis using assms(4) frame_same by (simp add: delete_asset_def)
next
  case False
  then have "t' = drop_allowing_grants (mi_instance (b_input b)) (ar_id a)
      (drop_availability (ar_id a) (after_append b p a Op_Delete None Asset_Deleted t))"
    using assms(4) by (simp add: delete_cases[OF assms(1,2)] split: if_splits)
  then show ?thesis using frame_cong[OF frame_append[OF assms(3)]] by simp
qed

text \<open>What a mutation that succeeds leaves, whatever ids it was given.\<close>

lemma mutation_ok:
  assumes ok: "tables_ok t" and m: "apply_mutation b p m (t, d) = Inr (t', d')"
  shows "tables_ok t' \<and> mutation_frame b p t t' \<and>
    spec_mutation b (ct_workspaces t) m (asset_map_of t, d) = Inr (asset_map_of t', d')"
proof (cases m)
  case (Set_Default_Agent name)
  then show ?thesis using m ok by (simp add: frame_same)
next
  case (Delete_Asset kind name scope)
  let ?inst = "mi_instance (b_input b)"
  show ?thesis
  proof (cases "findConfigAssetRow t ?inst kind name")
    case None
    then show ?thesis using m ok Delete_Asset
      by (auto simp: check_scope_def delete_asset_def find_row_by_key asset_map_of_def frame_same)
  next
    case (Some a)
    note a = found_view[OF ok Some]
    have s: "scope_of_mutation scope = vw_scope (view_of t a)" and d': "d' = d"
      and r: "delete_asset b p (Some a) t = Inr t'"
      using m Delete_Asset Some by (auto simp: scope_checked[OF ok a(1)] split: if_splits)
    have i: "ar_instance a = ?inst" using a(2) by (simp add: asset_key_def)
    have "mutation_frame b p t t'" by (rule delete_frame[OF ok a(1) i r])
    then show ?thesis using delete_ok[OF ok a(1) r] s a d' Delete_Asset by simp
  qed
next
  case (Upsert kind name config operation scope)
  let ?inst = "mi_instance (b_input b)"
  show ?thesis
  proof (cases "findConfigAssetRow t ?inst kind name")
    case None
    have c: "create_asset b p kind name config operation (scope_of_mutation scope) t = Inr t'" and d': "d' = d"
      using m Upsert None by (auto simp: check_scope_def)
    have f: "fresh_at b p t" "mutation_frame b p t t'"
      using create_success[OF _ c] ok by (simp_all add: tables_ok_def)
    have k: "(?inst, kind, name) \<notin> asset_key ` set (ct_assets t)" using None by (auto simp: find_row_None)
    then have "asset_map_of t (?inst, kind, name) = None"
      unfolding asset_map_None using not_imageD[OF k] by blast
    then show ?thesis using create_ok[OF ok f(1) k, of "scope_of_mutation scope" config operation] c f(2) d' Upsert
      by (simp split: if_splits)
  next
    case (Some a)
    note a = found_view[OF ok Some]
    have s: "scope_of_mutation scope = vw_scope (view_of t a)" and d': "d' = d"
      and r: "update_asset b p a config operation t = Inr t'"
      using m Upsert Some by (auto simp: scope_checked[OF ok a(1)] split: if_splits)
    have i: "ar_instance a = ?inst" "ar_kind a = kind" using a(2) by (simp_all add: asset_key_def)
    have "mutation_frame b p t t'" using update_frame[OF _ a(1) i(1) r] ok by (simp add: tables_ok_def)
    then show ?thesis using update_ok[OF ok a(1), of b p config operation] r s a d' i(2) Upsert
      by (auto split: if_splits)
  qed
qed

text \<open>With ids nobody has, a mutation fails only where the specification does, and with its error.\<close>

lemma mutation_fails:
  assumes ok: "tables_ok t" and f: "fresh_at b p t" and m: "apply_mutation b p m (t, d) = Inl e"
  shows "spec_mutation b (ct_workspaces t) m (asset_map_of t, d) = Inl e"
proof (cases m)
  case (Set_Default_Agent name)
  then show ?thesis using m by simp
next
  case (Delete_Asset kind name scope)
  let ?inst = "mi_instance (b_input b)"
  show ?thesis
  proof (cases "findConfigAssetRow t ?inst kind name")
    case None
    then show ?thesis using m Delete_Asset by (simp add: check_scope_def delete_asset_def)
  next
    case (Some a)
    note a = found_view[OF ok Some]
    show ?thesis using m Delete_Asset Some a f
      by (auto simp: scope_checked[OF ok a(1)] delete_cases[OF ok a(1)] fresh_at_def split: if_splits)
  qed
next
  case (Upsert kind name config operation scope)
  let ?inst = "mi_instance (b_input b)"
  show ?thesis
  proof (cases "findConfigAssetRow t ?inst kind name")
    case None
    have k: "(?inst, kind, name) \<notin> asset_key ` set (ct_assets t)" using None by (auto simp: find_row_None)
    then have "asset_map_of t (?inst, kind, name) = None"
      unfolding asset_map_None using not_imageD[OF k] by blast
    then show ?thesis using m Upsert None create_ok[OF ok f k, of "scope_of_mutation scope" config operation]
      by (auto simp: check_scope_def split: if_splits)
  next
    case (Some a)
    note a = found_view[OF ok Some]
    have "b_revisionId b p \<notin> rev_id ` set (ct_revisions t)" using f by (simp add: fresh_at_def)
    then obtain t' where "update_asset b p a config operation t = Inr t'"
      using update_ok[OF ok a(1), of b p config operation] by auto
    then show ?thesis using m Upsert Some a by (auto simp: scope_checked[OF ok a(1)] split: if_splits)
  qed
qed

section \<open>The mutations of a batch\<close>

definition batch_frame :: "batch \<Rightarrow> config_tables \<Rightarrow> config_tables \<Rightarrow> bool" where
  "batch_frame b t t' \<longleftrightarrow>
     ct_workspaces t' = ct_workspaces t \<and> ct_states t' = ct_states t \<and>
     (\<forall>r \<in> set (ct_revisions t'). r \<in> set (ct_revisions t) \<or>
        rev_globalVersion r = b_version b \<and> rev_instance r = mi_instance (b_input b))"

lemma batch_frame_refl: "batch_frame b t t"
  by (simp add: batch_frame_def)

lemma batch_frame_step: "mutation_frame b p t u \<Longrightarrow> batch_frame b u v \<Longrightarrow> batch_frame b t v"
  unfolding mutation_frame_def batch_frame_def by auto

lemma mutations_ok:
  "tables_ok t \<Longrightarrow> apply_mutations b p ms (t, d) = Inr (t', d') \<Longrightarrow>
    tables_ok t' \<and> batch_frame b t t' \<and>
    spec_mutations b (ct_workspaces t) ms (asset_map_of t, d) = Inr (asset_map_of t', d')"
proof (induction ms arbitrary: p t d)
  case Nil
  then show ?case by (simp add: batch_frame_refl)
next
  case (Cons m ms)
  obtain u e where m: "apply_mutation b p m (t, d) = Inr (u, e)"
    and ms: "apply_mutations b (p + 1) ms (u, e) = Inr (t', d')"
    using Cons.prems(2) by auto
  have one: "tables_ok u" "mutation_frame b p t u"
    "spec_mutation b (ct_workspaces t) m (asset_map_of t, d) = Inr (asset_map_of u, e)"
    using mutation_ok[OF Cons.prems(1) m] by simp_all
  moreover have "ct_workspaces u = ct_workspaces t" using one(2) by (simp add: mutation_frame_def)
  ultimately show ?case using Cons.IH[OF one(1) ms] batch_frame_step[OF one(2)] by simp
qed

definition fresh_from :: "batch \<Rightarrow> nat \<Rightarrow> config_tables \<Rightarrow> bool" where
  "fresh_from b p t \<longleftrightarrow> inj (b_assetId b) \<and> inj (b_revisionId b) \<and> (\<forall>i \<ge> p. fresh_at b i t)"

lemma fresh_from_next:
  assumes "fresh_from b p t" and "mutation_frame b p t t'"
  shows "fresh_from b (p + 1) t'"
proof -
  have "fresh_at b i t'" if "p + 1 \<le> i" for i
  proof -
    have "b_assetId b i \<noteq> b_assetId b p" "b_revisionId b i \<noteq> b_revisionId b p"
      using that assms(1) by (auto simp: fresh_from_def dest: injD)
    moreover have "fresh_at b i t" using that assms(1) by (simp add: fresh_from_def)
    ultimately show ?thesis using assms(2) by (auto simp: fresh_at_def mutation_frame_def)
  qed
  then show ?thesis using assms(1) by (simp add: fresh_from_def)
qed

lemma mutations_fail:
  "tables_ok t \<Longrightarrow> fresh_from b p t \<Longrightarrow> apply_mutations b p ms (t, d) = Inl e \<Longrightarrow>
    spec_mutations b (ct_workspaces t) ms (asset_map_of t, d) = Inl e"
proof (induction ms arbitrary: p t d)
  case (Cons m ms)
  have f: "fresh_at b p t" using Cons.prems(2) by (simp add: fresh_from_def)
  show ?case
  proof (cases "apply_mutation b p m (t, d)")
    case (Inl e')
    then show ?thesis using mutation_fails[OF Cons.prems(1) f Inl] Cons.prems(3) by simp
  next
    case (Inr u)
    obtain t' d' where u: "u = (t', d')" by (cases u)
    from mutation_ok[OF Cons.prems(1) Inr[unfolded u]]
      Cons.IH[of t' "p + 1" d'] fresh_from_next[OF Cons.prems(2), of t'] Cons.prems(3)
    show ?thesis by (auto simp: Inr u mutation_frame_def)
  qed
qed simp

section \<open>A batch\<close>

definition spec_default :: "string \<Rightarrow> asset_map \<Rightarrow> string option \<Rightarrow> (js_error, unit) result" where
  "spec_default inst m d =
     (case d of
        None \<Rightarrow> Inr ()
      | Some name \<Rightarrow>
          (case m (inst, ''agent'', name) of
             None \<Rightarrow> Inl (app_error VALIDATION_FAILED
               (''Default agent '' @ quoted name @ '' is not an active config asset''))
           | Some v \<Rightarrow>
               if is_gone v
               then Inl (app_error VALIDATION_FAILED
                 (''Default agent '' @ quoted name @ '' is not an active config asset''))
               else if map_option av_mode (vw_availability v) \<noteq> Some Available_To_All
               then Inl (app_error VALIDATION_FAILED
                 (''Default agent '' @ quoted name @ '' must be available in all workspaces''))
               else Inr ()))"

definition spec_batch ::
    "batch \<Rightarrow> string list \<Rightarrow> asset_map \<times> string option \<Rightarrow> (js_error, asset_map \<times> string option) result" where
  "spec_batch b workspaces s =
     bind_result (spec_mutations b workspaces (mi_mutations (b_input b)) s) (\<lambda>u.
     bind_result (spec_default (mi_instance (b_input b)) (fst u) (snd u)) (\<lambda>_. Inr u))"

lemma view_mode:
  "map_option av_mode (vw_availability (view_of t a)) = map_option avr_mode (availability_of t (ar_id a))"
  by (simp add: view_of_def avail_view_def option.map_comp comp_def shown_availability_def)

lemma default_checked:
  assumes ok: "tables_ok t"
  shows "check_default_agent inst (t, d) = spec_default inst (asset_map_of t) d"
proof (cases d)
  case (Some name)
  show ?thesis
  proof (cases "findConfigAssetRow t inst ''agent'' name")
    case None
    then show ?thesis using Some by (simp add: check_default_agent_def spec_default_def find_row_by_key asset_map_of_def)
  next
    case (Some a)
    note a = found_view[OF ok Some]
    have "is_gone (view_of t a) \<longleftrightarrow> ar_status a \<noteq> Asset_Active"
      using gone_view[OF _ a(1)] ok by (cases "ar_status a") (simp_all add: tables_ok_def)
    then show ?thesis using \<open>d = Some name\<close> Some a view_mode[of t a]
      by (simp add: check_default_agent_def spec_default_def)
  qed
qed (simp add: check_default_agent_def spec_default_def)

lemma default_ok_iff:
  assumes ok: "tables_ok t"
  shows "default_ok t inst d \<longleftrightarrow> spec_default inst (asset_map_of t) d = Inr ()"
proof (cases d)
  case (Some name)
  have u: "distinct (map asset_key (ct_assets t))" using ok by (simp add: tables_ok_def rows_ok_def)
  have g: "is_gone (view_of t a) \<longleftrightarrow> ar_status a \<noteq> Asset_Active" if "a \<in> set (ct_assets t)" for a
    using gone_view[OF _ that] ok by (cases "ar_status a") (simp_all add: tables_ok_def)
  show ?thesis
  proof (cases "asset_map_of t (inst, ''agent'', name)")
    case None
    moreover from this have "\<forall>a \<in> set (ct_assets t). asset_key a \<noteq> (inst, ''agent'', name)"
      by (simp add: asset_map_None)
    ultimately show ?thesis using Some by (simp add: default_ok_def spec_default_def)
  next
    case (Some v)
    then obtain a where a: "a \<in> set (ct_assets t)" "asset_key a = (inst, ''agent'', name)" "v = view_of t a"
      by (auto simp: asset_map_of_def find_by_key[OF u])
    have "b = a" if "b \<in> set (ct_assets t)" "asset_key b = (inst, ''agent'', name)" for b
      using that a distinct_map_inj[OF u] by metis
    then have one: "(\<exists>b \<in> set (ct_assets t). asset_key b = (inst, ''agent'', name) \<and> q b) \<longleftrightarrow> q a" for q
      using a by blast
    have "default_ok t inst d \<longleftrightarrow> ar_status a = Asset_Active \<and>
        map_option avr_mode (availability_of t (ar_id a)) = Some Available_To_All"
      by (simp only: default_ok_def \<open>d = Some name\<close> option.case one)
    moreover have "spec_default inst (asset_map_of t) d = Inr () \<longleftrightarrow> ar_status a = Asset_Active \<and>
        map_option avr_mode (availability_of t (ar_id a)) = Some Available_To_All"
      by (simp add: \<open>d = Some name\<close> spec_default_def Some a(3) g[OF a(1)] view_mode)
    ultimately show ?thesis by blast
  qed
qed (simp add: default_ok_def spec_default_def)

end
