(* ===== verification/Config_Asset_Invariant.thy ===== *)
theory Config_Asset_Invariant imports Config_Asset_Steps begin

text \<open>
  Every transaction over config assets keeps the whole invariant: the rows, the availability and
  the state row of each instance.
\<close>

section \<open>Batches\<close>

lemma state_row:
  assumes "distinct (map st_instance (ct_states t))"
  shows "lock_state t inst = Some s \<longleftrightarrow> s \<in> set (ct_states t) \<and> st_instance s = inst"
  using find_by_key[OF assms, of inst] by (simp add: lock_state_def)

lemma ensure_state_sel [simp]:
  "ct_assets (ensure_state inst now t) = ct_assets t" "ct_revisions (ensure_state inst now t) = ct_revisions t"
  "ct_availability (ensure_state inst now t) = ct_availability t"
  "ct_workspaceAvailability (ensure_state inst now t) = ct_workspaceAvailability t"
  "ct_workspaces (ensure_state inst now t) = ct_workspaces t"
  by (simp_all add: ensure_state_def)

lemma tables_ok_cong:
  assumes "ct_assets t = ct_assets u" "ct_revisions t = ct_revisions u" "ct_availability t = ct_availability u"
    "ct_workspaceAvailability t = ct_workspaceAvailability u" "ct_workspaces t = ct_workspaces u"
  shows "tables_ok t = tables_ok u" and "asset_map_of t = asset_map_of u" and "default_ok t = default_ok u"
proof -
  have "history t = history u" using assms by (simp add: history_def fun_eq_iff)
  then show "tables_ok t = tables_ok u" using assms
    by (simp add: tables_ok_def rows_ok_def availability_ok_def history_ok_def scope_ok_def)
  show "asset_map_of t = asset_map_of u" by (rule asset_map_cong) (simp_all add: assms)
  have "availability_of t = availability_of u" using assms by (simp add: availability_of_def fun_eq_iff)
  then show "default_ok t = default_ok u" using assms by (simp add: default_ok_def[abs_def])
qed

lemma config_ok_parts: "config_ok t \<longleftrightarrow> tables_ok t \<and> states_ok t"
  by (auto simp: config_ok_def tables_ok_def)

lemma states_ok_ensure:
  assumes "states_ok t"
  shows "states_ok (ensure_state inst now t)"
proof -
  have d: "default_ok (ensure_state inst now t) = default_ok t" by (rule tables_ok_cong(3)) simp_all
  show ?thesis
  proof (cases "\<exists>r \<in> set (ct_states t). st_instance r = inst")
    case True
    then show ?thesis using assms by (simp add: ensure_state_def)
  next
    case False
    then have "ct_states (ensure_state inst now t) = ct_states t @
        [\<lparr>st_instance = inst, st_version = 0, st_defaultAgentName = None, st_updatedAt = now\<rparr>]"
      by (simp add: ensure_state_def)
    moreover have "inst \<notin> st_instance ` set (ct_states t)" using False by auto
    moreover have "default_ok t inst None" by (simp add: default_ok_def)
    ultimately show ?thesis using assms unfolding states_ok_def by (auto simp: d)
  qed
qed

lemma write_state_sel [simp]:
  "ct_assets (write_state inst n d now t) = ct_assets t" "ct_revisions (write_state inst n d now t) = ct_revisions t"
  "ct_availability (write_state inst n d now t) = ct_availability t"
  "ct_workspaceAvailability (write_state inst n d now t) = ct_workspaceAvailability t"
  "ct_workspaces (write_state inst n d now t) = ct_workspaces t"
  by (simp_all add: write_state_def)

lemma states_after_write:
  assumes "s \<in> set (ct_states (write_state inst n d now t))"
  obtains "s \<in> set (ct_states t)" "st_instance s \<noteq> inst"
  | "st_instance s = inst" "st_version s = n" "st_defaultAgentName s = d"
  using assms by (auto simp: write_state_def set_update_where)

lemma written_state:
  assumes "s \<in> set (ct_states t)" and "st_instance s = inst"
  shows "\<exists>r \<in> set (ct_states (write_state inst n d now t)). st_instance r = inst \<and> st_version r = n \<and>
    st_defaultAgentName r = d"
proof -
  let ?r = "s\<lparr>st_version := n, st_defaultAgentName := d, st_updatedAt := now\<rparr>"
  have "?r \<in> set (ct_states (write_state inst n d now t))"
    using assms by (auto simp: write_state_def set_update_where)
  then show ?thesis using assms(2) by (intro bexI[where x = ?r]) simp_all
qed

lemma states_ok_write:
  assumes d: "distinct (map st_instance (ct_states t))" and st: "st \<in> set (ct_states t)" "st_instance st = inst"
    and old: "st_version st \<le> n"
    and revs: "\<And>r. r \<in> set (ct_revisions t) \<Longrightarrow> (\<exists>s \<in> set (ct_states t).
      st_instance s = rev_instance r \<and> rev_globalVersion r \<le> st_version s) \<or>
      rev_instance r = inst \<and> rev_globalVersion r \<le> n"
    and dflt: "default_ok t inst name"
    and others: "\<And>s. s \<in> set (ct_states t) \<Longrightarrow> st_instance s \<noteq> inst \<Longrightarrow>
      default_ok t (st_instance s) (st_defaultAgentName s)"
  shows "states_ok (write_state inst n name now t)"
  unfolding states_ok_def
proof (intro conjI ballI)
  let ?t = "write_state inst n name now t"
  have dk: "default_ok ?t = default_ok t" by (rule tables_ok_cong(3)) simp_all
  have "map st_instance (ct_states ?t) = map st_instance (ct_states t)"
    unfolding write_state_def by (simp add: map_update_where)
  then show "distinct (map st_instance (ct_states ?t))" using d by simp
  have keep: "\<exists>s \<in> set (ct_states ?t). st_instance s = i \<and> v \<le> st_version s"
    if "s \<in> set (ct_states t)" "st_instance s = i" "v \<le> st_version s" for s i v
  proof (cases "i = inst")
    case True
    then have "s = st" using that st distinct_map_inj[OF d] by metis
    then have "v \<le> n" using that old by simp
    then show ?thesis using written_state[OF st, of n name now] True by auto
  next
    case False
    then have "s \<in> set (ct_states ?t)" using that by (auto simp: write_state_def set_update_where)
    then show ?thesis using that by blast
  qed
  fix r assume "r \<in> set (ct_revisions ?t)"
  then have "r \<in> set (ct_revisions t)" by simp
  from revs[OF this] show "\<exists>s \<in> set (ct_states ?t). st_instance s = rev_instance r \<and> rev_globalVersion r \<le> st_version s"
    using keep written_state[OF st, of n name now] by force
next
  fix s assume "s \<in> set (ct_states (write_state inst n name now t))"
  moreover have dk: "default_ok (write_state inst n name now t) = default_ok t"
    by (rule tables_ok_cong(3)) simp_all
  ultimately show "default_ok (write_state inst n name now t) (st_instance s) (st_defaultAgentName s)"
    using dflt others by (auto elim: states_after_write)
qed

text \<open>A mutation reaches the assets of its own instance only.\<close>

lemma spec_other_instance:
  "spec_mutations b ws ms (m, d) = Inr (m', d') \<Longrightarrow> fst key \<noteq> mi_instance (b_input b) \<Longrightarrow> m' key = m key"
proof (induction ms arbitrary: m d)
  case (Cons c cs)
  obtain n e where c: "spec_mutation b ws c (m, d) = Inr (n, e)" and cs: "spec_mutations b ws cs (n, e) = Inr (m', d')"
    using Cons.prems(1) by auto
  have "n key = m key"
    using c Cons.prems(2) by (cases c) (auto simp: Let_def split: option.splits if_splits)
  then show ?case using Cons.IH[OF cs Cons.prems(2)] by simp
qed simp

lemma spec_default_cong:
  "m (inst, ''agent'', the d) = m' (inst, ''agent'', the d) \<Longrightarrow> spec_default inst m d = spec_default inst m' d"
  by (cases d) (simp_all add: spec_default_def)

text \<open>What a batch that succeeded has done.\<close>

lemma batch_success:
  assumes ok: "config_ok t" and r: "applyConfigAssetMutations i now assetIds revisionIds t = Inr (t', v)"
  obtains st u d where "lock_state (ensure_state (mi_instance i) now t) (mi_instance i) = Some st"
    and "assertConfigAssetBases i (mapConfigAssetState (Some st)) (current_for (ensure_state (mi_instance i) now t) i) = Inr ()"
    and "apply_mutations (batch_of i now assetIds revisionIds (st_version st) (ensure_state (mi_instance i) now t)) 0 (mi_mutations i)
      (ensure_state (mi_instance i) now t, st_defaultAgentName st) = Inr (u, d)"
    and "check_default_agent (mi_instance i) (u, d) = Inr ()"
    and "t' = write_state (mi_instance i) (st_version st + 1) d now u" and "v = st_version st + 1"
  using r unfolding applyConfigAssetMutations_def Let_def by (auto split: option.splits)

lemma config_ok_batch:
  assumes ok: "config_ok t" and r: "applyConfigAssetMutations i now assetIds revisionIds t = Inr (t', v)"
  shows "config_ok t'"
proof -
  let ?t = "ensure_state (mi_instance i) now t"
  from batch_success[OF ok r] obtain st u d where st: "lock_state ?t (mi_instance i) = Some st"
    and m: "apply_mutations (batch_of i now assetIds revisionIds (st_version st) ?t) 0 (mi_mutations i) (?t, st_defaultAgentName st) = Inr (u, d)"
    and c: "check_default_agent (mi_instance i) (u, d) = Inr ()"
    and t': "t' = write_state (mi_instance i) (st_version st + 1) d now u" by metis
  have tk: "tables_ok ?t" and sk: "states_ok ?t"
    using ok tables_ok_cong(1)[of ?t t] states_ok_ensure by (simp_all add: config_ok_parts)
  note u = mutations_ok[OF tk m]
  have fr: "ct_states u = ct_states ?t" using u by (simp add: batch_frame_def)
  have s: "st \<in> set (ct_states ?t)" "st_instance st = mi_instance i"
    using st sk state_row by (auto simp: states_ok_def)
  have "default_ok u (mi_instance i) d"
    using c u by (simp add: default_ok_iff default_checked)
  moreover have "default_ok u (st_instance s) (st_defaultAgentName s)"
    if "s \<in> set (ct_states u)" "st_instance s \<noteq> mi_instance i" for s
  proof -
    have "default_ok ?t (st_instance s) (st_defaultAgentName s)" using sk that fr by (simp add: states_ok_def)
    then have "spec_default (st_instance s) (asset_map_of ?t) (st_defaultAgentName s) = Inr ()"
      using default_ok_iff[OF tk] by simp
    moreover have "asset_map_of u (st_instance s, ''agent'', the (st_defaultAgentName s)) =
        asset_map_of ?t (st_instance s, ''agent'', the (st_defaultAgentName s))"
      using u that by (intro spec_other_instance) (auto simp: batch_of_def)
    ultimately show ?thesis using u default_ok_iff spec_default_cong by metis
  qed
  moreover have "(\<exists>s \<in> set (ct_states u). st_instance s = rev_instance r \<and> rev_globalVersion r \<le> st_version s) \<or>
      rev_instance r = mi_instance i \<and> rev_globalVersion r \<le> st_version st + 1" if "r \<in> set (ct_revisions u)" for r
    using u sk that unfolding fr by (auto simp: batch_frame_def states_ok_def batch_of_def)
  ultimately have "states_ok t'"
    unfolding t' using s sk by (intro states_ok_write[where st = st]) (simp_all add: fr states_ok_def)
  moreover have "tables_ok t'" using u tables_ok_cong(1)[of t' u] by (simp add: t')
  ultimately show ?thesis by (simp add: config_ok_parts)
qed

section \<open>The availability of an agent\<close>

definition set_places :: "string \<Rightarrow> string list \<Rightarrow> config_tables \<Rightarrow> config_tables" where
  "set_places assetId places t = t\<lparr>ct_workspaceAvailability :=
     delete_where (\<lambda>w. wav_assetId w = assetId) (ct_workspaceAvailability t) @
     map (\<lambda>w. \<lparr>wav_assetId = assetId, wav_workspaceId = w\<rparr>) places\<rparr>"

lemma availability_success:
  assumes ok: "tables_ok t" and r: "setAgentAvailability inst agentName availability now t = Inr (t', shown)"
  obtains a row where "findConfigAssetRow t inst ''agent'' agentName = Some a" and "ar_status a = Asset_Active"
    and "av_mode availability = Available_To_All \<or>
      (\<forall>st. lock_state t inst = Some st \<longrightarrow> st_defaultAgentName st \<noteq> Some agentName)"
    and "set (av_workspaces availability) \<subseteq> set (ct_workspaces t)"
    and "avr_assetId row = ar_id a" "avr_mode row = av_mode availability" "avr_personal row = av_personal availability"
    and "t' = set_places (ar_id a) (sort (remdups (av_workspaces availability))) (upsert_availability row t)"
    and "shown = availability\<lparr>av_workspaces := sort (remdups (av_workspaces availability))\<rparr>"
proof -
  obtain a where a: "findConfigAssetRow t inst ''agent'' agentName = Some a" "ar_status a = Asset_Active"
    and g: "\<not> (av_mode availability \<noteq> Available_To_All \<and>
      (case lock_state t inst of None \<Rightarrow> False | Some st \<Rightarrow> st_defaultAgentName st = Some agentName))"
    and p: "replace_places (ar_id a) (sort (remdups (av_workspaces availability))) (upsert_availability
        \<lparr>avr_assetId = ar_id a, avr_instance = inst, avr_mode = av_mode availability,
         avr_personal = av_personal availability, avr_updatedAt = now\<rparr> t) = Inr t'"
    and s: "shown = availability\<lparr>av_workspaces := sort (remdups (av_workspaces availability))\<rparr>"
    using r unfolding setAgentAvailability_def Let_def by (auto split: option.splits if_splits)
  show ?thesis
  proof (rule that[OF a _ _ _ _ _ _ s])
    show "av_mode availability = Available_To_All \<or>
      (\<forall>st. lock_state t inst = Some st \<longrightarrow> st_defaultAgentName st \<noteq> Some agentName)"
      using g by (auto split: option.splits)
    show "set (av_workspaces availability) \<subseteq> set (ct_workspaces t)"
      using p by (auto simp: replace_places_def upsert_availability_def split: if_splits)
    show "t' = set_places (ar_id a) (sort (remdups (av_workspaces availability))) (upsert_availability
        \<lparr>avr_assetId = ar_id a, avr_instance = inst, avr_mode = av_mode availability,
         avr_personal = av_personal availability, avr_updatedAt = now\<rparr> t)"
      using p by (auto simp: replace_places_def set_places_def split: if_splits)
  qed simp_all
qed

definition replace_row :: "availability_row \<Rightarrow> availability_row \<Rightarrow> availability_row" where
  "replace_row row v = v\<lparr>avr_mode := avr_mode row, avr_personal := avr_personal row, avr_updatedAt := avr_updatedAt row\<rparr>"

lemma avail_after_set:
  assumes up: "ct_availability t' = update_where (\<lambda>v. avr_assetId v = i) (replace_row row) (ct_availability t)"
    and ws: "ct_workspaceAvailability t' = delete_where (\<lambda>w. wav_assetId w = i) (ct_workspaceAvailability t) @
      map (\<lambda>w. \<lparr>wav_assetId = i, wav_workspaceId = w\<rparr>) places"
    and sorted: "sorted places" and i: "i \<in> avr_assetId ` set (ct_availability t)"
  shows "avail_view t' j = (if j = i then
      Some \<lparr>av_mode = avr_mode row, av_personal = avr_personal row, av_workspaces = places\<rparr> else avail_view t j)"
proof -
  have f: "availability_of t' j = map_option (\<lambda>v. if avr_assetId v = i then replace_row row v else v) (availability_of t j)"
    unfolding availability_of_def up by (rule find_update_where) (simp add: replace_row_def)
  have k: "avr_assetId v = j" if "availability_of t j = Some v" for v
    using find_Some_iff[OF that[unfolded availability_of_def]] by simp
  show ?thesis
  proof (cases "j = i")
    case True
    have "\<exists>v \<in> set (ct_availability t). avr_assetId v = i" using i by auto
    then obtain v where v: "availability_of t i = Some v"
      by (cases "availability_of t i") (auto simp: availability_of_def find_none)
    have "filter (\<lambda>w. wav_assetId w = i) (delete_where (\<lambda>w. wav_assetId w = i) (ct_workspaceAvailability t)) = []"
      by (simp add: delete_where_def)
    then have "shown_availability t' (replace_row row v) =
        \<lparr>av_mode = avr_mode row, av_personal = avr_personal row, av_workspaces = places\<rparr>"
      using k[of v] v True sorted
      by (simp add: shown_availability_def ws replace_row_def filter_map comp_def sorted_sort_id)
    then show ?thesis using True f v k[of v] by (simp add: avail_view_def)
  next
    case False
    then have n: "filter (\<lambda>w. wav_assetId w = j) (map (\<lambda>w. \<lparr>wav_assetId = i, wav_workspaceId = w\<rparr>) places) = []"
      by (simp add: filter_empty_conv)
    have "filter (\<lambda>w. wav_assetId w = j) (delete_where (\<lambda>w. wav_assetId w = i) (ct_workspaceAvailability t)) =
        filter (\<lambda>w. wav_assetId w = j) (ct_workspaceAvailability t)"
      using False unfolding delete_where_def filter_filter by (intro filter_cong) auto
    then have "shown_availability t' v = shown_availability t v" if "avr_assetId v = j" for v
      using that n by (simp add: shown_availability_def ws)
    then show ?thesis using False f k by (cases "availability_of t j") (auto simp: avail_view_def)
  qed
qed

lemma set_availability_ok:
  assumes ok: "tables_ok t" and a: "a \<in> set (ct_assets t)" "active_agent a" and row: "avr_assetId row = ar_id a"
    and w: "set places \<subseteq> set (ct_workspaces t)" "distinct places" "sorted places"
    and t': "t' = set_places (ar_id a) places (upsert_availability row t)"
  shows "tables_ok t' \<and> asset_map_of t' = (asset_map_of t)(asset_key a \<mapsto> (view_of t a)\<lparr>vw_availability :=
      Some \<lparr>av_mode = avr_mode row, av_personal = avr_personal row, av_workspaces = places\<rparr>\<rparr>)"
proof -
  have r: "rows_ok t" and v: "availability_ok t" using ok by (simp_all add: tables_ok_def)
  have act: "ar_id a \<in> active_ids t" using active_idsI[OF r a(1)] a(2) by simp
  then have "\<exists>v \<in> set (ct_availability t). avr_assetId v = ar_id a"
    using v unfolding availability_ok_active image_iff by (metis (mono_tags) image_iff)
  then have up: "ct_availability t' = update_where (\<lambda>v. avr_assetId v = ar_id a) (replace_row row) (ct_availability t)"
    by (simp add: t' set_places_def upsert_availability_def row replace_row_def[abs_def])
  have ws: "ct_workspaceAvailability t' = delete_where (\<lambda>w. wav_assetId w = ar_id a) (ct_workspaceAvailability t) @
      map (\<lambda>w. \<lparr>wav_assetId = ar_id a, wav_workspaceId = w\<rparr>) places"
    by (simp add: t' set_places_def upsert_availability_def)
  have same: "ct_assets t' = ct_assets t" "ct_revisions t' = ct_revisions t" "ct_workspaces t' = ct_workspaces t"
    by (simp_all add: t' set_places_def upsert_availability_def)
  have ids: "map avr_assetId (ct_availability t') = map avr_assetId (ct_availability t)"
    unfolding up by (rule map_update_where) (simp add: replace_row_def)
  have "rows_ok t'" using r by (simp add: t' set_places_def upsert_availability_def)
  moreover have "active_ids t' = active_ids t" by (simp add: active_ids_def same)
  moreover have "avr_assetId ` set (ct_availability t') = avr_assetId ` set (ct_availability t)"
    using arg_cong[OF ids, of set] by simp
  ultimately have "rows_ok t'" "availability_ok t'"
    using v act w(1) unfolding availability_ok_active ids ws by (auto simp: same row_simps)
  moreover have av: "avail_view t' j = (if j = ar_id a then
      Some \<lparr>av_mode = avr_mode row, av_personal = avr_personal row, av_workspaces = places\<rparr> else avail_view t j)" for j
    by (rule avail_after_set[OF up ws w(3)]) (use v act in \<open>auto simp: availability_ok_active\<close>)
  ultimately show ?thesis
    using map_of_avail[OF same(1,2) a(1) r, of "Some \<lparr>av_mode = avr_mode row, av_personal = avr_personal row,
      av_workspaces = places\<rparr>"] av by (simp add: tables_ok_def)
qed

lemma config_ok_availability:
  assumes ok: "config_ok t" and r: "setAgentAvailability inst agentName availability now t = Inr (t', shown)"
  shows "config_ok t'"
proof -
  have tk: "tables_ok t" and sk: "states_ok t" using ok by (simp_all add: config_ok_parts)
  from availability_success[OF tk r] obtain a row where f: "findConfigAssetRow t inst ''agent'' agentName = Some a"
    and act: "ar_status a = Asset_Active" and g: "av_mode availability = Available_To_All \<or>
      (\<forall>st. lock_state t inst = Some st \<longrightarrow> st_defaultAgentName st \<noteq> Some agentName)"
    and w: "set (av_workspaces availability) \<subseteq> set (ct_workspaces t)"
    and row: "avr_assetId row = ar_id a" "avr_mode row = av_mode availability"
    and t': "t' = set_places (ar_id a) (sort (remdups (av_workspaces availability))) (upsert_availability row t)" by metis
  note a = found_view[OF tk f]
  have "active_agent a" using a(2) act by (simp add: active_agent_def asset_key_def)
  note u = set_availability_ok[OF tk a(1) this row(1) _ _ _ t']
  have m: "tables_ok t'" "asset_map_of t' = (asset_map_of t)(asset_key a \<mapsto> (view_of t a)\<lparr>vw_availability :=
      Some \<lparr>av_mode = avr_mode row, av_personal = avr_personal row,
        av_workspaces = sort (remdups (av_workspaces availability))\<rparr>\<rparr>)"
    using u w by simp_all
  have st: "ct_states t' = ct_states t" "ct_revisions t' = ct_revisions t"
    by (simp_all add: t' set_places_def upsert_availability_def)
  have "default_ok t' (st_instance s) (st_defaultAgentName s)" if s: "s \<in> set (ct_states t)" for s
  proof -
    have old: "spec_default (st_instance s) (asset_map_of t) (st_defaultAgentName s) = Inr ()"
      using sk s default_ok_iff[OF tk] by (simp add: states_ok_def)
    have "spec_default (st_instance s) (asset_map_of t') (st_defaultAgentName s) = Inr ()"
    proof (cases "st_defaultAgentName s = Some agentName \<and> st_instance s = inst")
      case True
      then have "lock_state t inst = Some s" using sk s by (simp add: state_row states_ok_def)
      then have "av_mode availability = Available_To_All" using g True by auto
      then show ?thesis using old True a m(2) row(2) by (simp add: spec_default_def is_gone_def split: if_splits)
    next
      case False
      then have "(st_instance s, ''agent'', the (st_defaultAgentName s)) \<noteq> asset_key a" if "st_defaultAgentName s \<noteq> None"
        using that a(2) by auto
      then show ?thesis using old m(2)
        by (cases "st_defaultAgentName s") (simp_all add: spec_default_def)
    qed
    then show ?thesis using default_ok_iff[OF m(1)] by simp
  qed
  then have "states_ok t'" using sk by (simp add: states_ok_def st)
  then show ?thesis using m(1) by (simp add: config_ok_parts)
qed

section \<open>The removal of a workspace\<close>

text \<open>The ids a delete of assets takes with it.\<close>

definition gone_ids :: "(asset_row \<Rightarrow> bool) \<Rightarrow> config_tables \<Rightarrow> string set" where
  "gone_ids p t = set (map ar_id (filter p (ct_assets t)))"

lemma kept_ids:
  assumes ok: "rows_ok t" and a: "a \<in> set (ct_assets t)"
  shows "ar_id a \<in> gone_ids p t \<longleftrightarrow> p a"
  using same_asset[OF ok _ a] a by (auto simp: gone_ids_def)

lemma delete_assets_sel:
  "ct_assets (delete_assets p t) = delete_where p (ct_assets t)"
  "ct_revisions (delete_assets p t) =
     delete_where (\<lambda>r. rev_assetId r \<in> gone_ids p t) (ct_revisions t)"
  "ct_availability (delete_assets p t) =
     delete_where (\<lambda>v. avr_assetId v \<in> gone_ids p t) (ct_availability t)"
  "ct_workspaceAvailability (delete_assets p t) =
     delete_where (\<lambda>w. wav_assetId w \<in> gone_ids p t) (ct_workspaceAvailability t)"
  "ct_workspaces (delete_assets p t) = ct_workspaces t" "ct_states (delete_assets p t) = ct_states t"
  by (simp_all add: delete_assets_def Let_def gone_ids_def)

lemma history_after_delete:
  assumes ok: "rows_ok t" and a: "a \<in> set (ct_assets t)" "\<not> p a"
  shows "history (delete_assets p t) (ar_id a) = history t (ar_id a)"
proof -
  have "ar_id a \<notin> gone_ids p t" using kept_ids[OF ok a(1)] a(2) by simp
  then show ?thesis unfolding history_def delete_assets_sel delete_where_def filter_filter
    by (intro filter_cong) auto
qed

lemma avail_after_delete:
  assumes "i \<notin> gone_ids p t"
  shows "avail_view (delete_assets p t) i = avail_view t i"
proof -
  have f: "availability_of (delete_assets p t) i = availability_of t i"
    using assms unfolding availability_of_def delete_assets_sel delete_where_def
    by (induction "ct_availability t") (auto simp: find_filter conj_commute cong: filter_cong conj_cong)
  have "shown_availability (delete_assets p t) v = shown_availability t v" if "avr_assetId v = i" for v
  proof -
    have "filter (\<lambda>w. wav_assetId w = i) (ct_workspaceAvailability (delete_assets p t)) =
        filter (\<lambda>w. wav_assetId w = i) (ct_workspaceAvailability t)"
      using assms unfolding delete_assets_sel delete_where_def filter_filter by (intro filter_cong) auto
    then show ?thesis using that by (simp add: shown_availability_def)
  qed
  moreover have "avr_assetId v = i" if "availability_of t i = Some v" for v
    using find_Some_iff[OF that[unfolded availability_of_def]] by simp
  ultimately show ?thesis by (cases "availability_of t i") (auto simp: avail_view_def f)
qed

lemma delete_assets_ok:
  assumes ok: "tables_ok t"
  shows "tables_ok (delete_assets p t)"
proof -
  let ?u = "delete_assets p t"
  have r: "rows_ok t" and v: "availability_ok t" using ok by (simp_all add: tables_ok_def)
  have rows: "history_ok ?u a \<and> scope_ok ?u a" if "a \<in> set (ct_assets ?u)" for a
  proof -
    have a: "a \<in> set (ct_assets t)" "\<not> p a" using that by (simp_all add: delete_assets_sel row_simps)
    then have "history_ok t a" "scope_ok t a" using r by (simp_all add: rows_ok_def)
    then show ?thesis using history_after_delete[where p = p, OF r a]
      by (simp add: history_ok_def scope_ok_def delete_assets_sel)
  qed
  have "rev_assetId s \<in> ar_id ` set (ct_assets ?u)" if "s \<in> set (ct_revisions ?u)" for s
  proof -
    have s: "s \<in> set (ct_revisions t)" "rev_assetId s \<notin> gone_ids p t"
      using that by (simp_all add: delete_assets_sel row_simps)
    then obtain a where "a \<in> set (ct_assets t)" "rev_assetId s = ar_id a" using r by (auto simp: rows_ok_def)
    moreover from this have "\<not> p a" using s(2) kept_ids[OF r] by metis
    ultimately show ?thesis by (auto simp: delete_assets_sel row_simps)
  qed
  then have "rows_ok ?u" using r rows
    unfolding rows_ok_def delete_assets_sel by (simp add: distinct_map_delete_where)
  moreover have act: "active_ids ?u = active_ids t - gone_ids p t"
    using kept_ids[OF r, of _ p] by (auto simp: active_ids_def delete_assets_sel row_simps)
  have "availability_ok ?u"
    using v unfolding availability_ok_active act delete_assets_sel
    by (auto simp: distinct_map_delete_where row_simps)
  ultimately show ?thesis by (simp add: tables_ok_def)
qed

lemma map_after_delete:
  assumes ok: "tables_ok t" and p: "\<And>a. a \<in> set (ct_assets t) \<Longrightarrow> p a \<longleftrightarrow> q (asset_key a) (view_of t a)"
  shows "asset_map_of (delete_assets p t) key =
    (case asset_map_of t key of None \<Rightarrow> None | Some v \<Rightarrow> if q key v then None else Some v)"
proof -
  have r: "rows_ok t" and u: "distinct (map asset_key (ct_assets t))" using ok by (simp_all add: tables_ok_def rows_ok_def)
  have u': "distinct (map asset_key (ct_assets (delete_assets p t)))"
    using delete_assets_ok[OF ok, of p] by (simp add: tables_ok_def rows_ok_def)
  show ?thesis
  proof (cases "asset_map_of t key")
    case None
    then have "asset_map_of (delete_assets p t) key = None"
      by (auto simp: asset_map_None delete_assets_sel row_simps)
    then show ?thesis using None by simp
  next
    case (Some v)
    then obtain a where a: "a \<in> set (ct_assets t)" "asset_key a = key" "v = view_of t a"
      by (auto simp: asset_map_of_def find_by_key[OF u])
    show ?thesis
    proof (cases "p a")
      case True
      have "asset_key b \<noteq> key" if "b \<in> set (ct_assets (delete_assets p t))" for b
        using that a True distinct_map_inj[OF u, of b a] by (auto simp: delete_assets_sel row_simps)
      then show ?thesis using Some True p[OF a(1)] a by (simp add: asset_map_None)
    next
      case False
      have "a \<in> set (ct_assets (delete_assets p t))" using a False by (simp add: delete_assets_sel row_simps)
      moreover have "view_of (delete_assets p t) a = view_of t a"
        using history_after_delete[where p = p, OF r a(1) False] avail_after_delete[of "ar_id a" p t] kept_ids[OF r a(1), of p] False
        by (simp add: view_of_def)
      ultimately show ?thesis using asset_map_Some[OF u'] a Some False p[OF a(1)] by auto
    qed
  qed
qed

definition owned_key :: "string \<Rightarrow> string \<Rightarrow> string \<times> string \<times> string \<Rightarrow> asset_view \<Rightarrow> bool" where
  "owned_key inst w key v \<longleftrightarrow> fst key = inst \<and> vw_scope v = Of_Workspace w"

lemma owned_view:
  assumes "rows_ok t" and "a \<in> set (ct_assets t)"
  shows "owned_by inst w a \<longleftrightarrow> owned_key inst w (asset_key a) (view_of t a)"
proof -
  have "scope_ok t a" using assms by (simp add: rows_ok_def)
  then show ?thesis
    by (cases "ar_scopeId a"; cases "ar_scopeKind a")
      (auto simp: owned_by_def owned_key_def asset_key_def view_of_def scope_view_def scope_ok_def)
qed

definition drop_grants_of :: "string \<Rightarrow> asset_row list \<Rightarrow> config_tables \<Rightarrow> config_tables" where
  "drop_grants_of inst removed t = t\<lparr>ct_grants := delete_where (\<lambda>g. grant_instance g = inst \<and>
     grant_scopeKind g = Asset_Scope \<and> grant_scopeId g \<in> (Some \<circ> ar_id) ` set removed) (ct_grants t)\<rparr>"

lemma drop_grants_of_sel [simp]:
  "ct_assets (drop_grants_of inst r t) = ct_assets t" "ct_revisions (drop_grants_of inst r t) = ct_revisions t"
  "ct_availability (drop_grants_of inst r t) = ct_availability t" "ct_states (drop_grants_of inst r t) = ct_states t"
  "ct_workspaceAvailability (drop_grants_of inst r t) = ct_workspaceAvailability t"
  "ct_workspaces (drop_grants_of inst r t) = ct_workspaces t"
  by (simp_all add: drop_grants_of_def)

definition owned_assets :: "string \<Rightarrow> string \<Rightarrow> config_tables \<Rightarrow> asset_row list" where
  "owned_assets inst w t = filter (owned_by inst w) (ct_assets t)"

definition without_owned :: "string \<Rightarrow> string \<Rightarrow> config_tables \<Rightarrow> config_tables" where
  "without_owned inst w t = drop_grants_of inst (owned_assets inst w t) (delete_assets (owned_by inst w) t)"

lemma removal_cases:
  "deleteWorkspaceOwnedAssets inst w now t =
    (if owned_assets inst w t = [] then t
     else case lock_state t inst of
         None \<Rightarrow> without_owned inst w t
       | Some st \<Rightarrow> write_state inst (st_version st + 1)
           (if \<exists>a \<in> set (owned_assets inst w t). ar_kind a = ''agent'' \<and> Some (ar_name a) = st_defaultAgentName st
            then None else st_defaultAgentName st) now (without_owned inst w t))"
  by (simp only: deleteWorkspaceOwnedAssets_def owned_assets_def without_owned_def drop_grants_of_def Let_def)

lemma without_owned_sel:
  "ct_states (without_owned inst w t) = ct_states t" "ct_workspaces (without_owned inst w t) = ct_workspaces t"
  "set (ct_revisions (without_owned inst w t)) \<subseteq> set (ct_revisions t)"
  by (auto simp: without_owned_def delete_assets_sel row_simps)

lemma without_owned_ok: "tables_ok t \<Longrightarrow> tables_ok (without_owned inst w t)"
  using delete_assets_ok[of t "owned_by inst w"]
    tables_ok_cong(1)[of "without_owned inst w t" "delete_assets (owned_by inst w) t"]
  by (simp add: without_owned_def)

lemma without_owned_map:
  assumes "tables_ok t"
  shows "asset_map_of (without_owned inst w t) key =
    (case asset_map_of t key of None \<Rightarrow> None | Some v \<Rightarrow> if owned_key inst w key v then None else Some v)"
proof -
  have r: "rows_ok t" using assms by (simp add: tables_ok_def)
  have "asset_map_of (without_owned inst w t) = asset_map_of (delete_assets (owned_by inst w) t)"
    by (rule asset_map_cong) (simp_all add: without_owned_def)
  then show ?thesis
    using map_after_delete[where p = "owned_by inst w" and q = "owned_key inst w", OF assms owned_view[OF r]] by simp
qed

lemma owned_asset_key:
  assumes ok: "tables_ok t" and m: "asset_map_of t key = Some v" and o: "owned_key inst w key v"
  obtains a where "a \<in> set (owned_assets inst w t)" "asset_key a = key"
proof -
  have u: "distinct (map asset_key (ct_assets t))" and r: "rows_ok t" using ok by (simp_all add: tables_ok_def rows_ok_def)
  obtain a where a: "a \<in> set (ct_assets t)" "asset_key a = key" "v = view_of t a"
    using m by (auto simp: asset_map_of_def find_by_key[OF u])
  then have "a \<in> set (owned_assets inst w t)" using owned_view[OF r a(1)] o by (simp add: owned_assets_def)
  then show ?thesis using that a(2) by blast
qed

lemma removal_map:
  assumes ok: "tables_ok t"
  shows "asset_map_of (deleteWorkspaceOwnedAssets inst w now t) key =
    (case asset_map_of t key of None \<Rightarrow> None | Some v \<Rightarrow> if owned_key inst w key v then None else Some v)"
proof (cases "owned_assets inst w t = []")
  case True
  then have "\<not> owned_key inst w key v" if "asset_map_of t key = Some v" for v
    using owned_asset_key[OF ok that] by fastforce
  then show ?thesis using True by (auto simp: removal_cases split: option.splits)
next
  case False
  have "asset_map_of (write_state inst n d now (without_owned inst w t)) = asset_map_of (without_owned inst w t)" for n d
    by (rule asset_map_cong) simp_all
  then show ?thesis using False without_owned_map[OF ok] by (simp add: removal_cases split: option.split)
qed

lemma removal_states:
  assumes tk: "tables_ok t" and sk: "states_ok t"
  shows "states_ok (deleteWorkspaceOwnedAssets inst w now t)"
proof -
  let ?u = "without_owned inst w t"
  note uk = without_owned_ok[OF tk, of inst w]
  have revs: "\<exists>s \<in> set (ct_states ?u). st_instance s = rev_instance r \<and> rev_globalVersion r \<le> st_version s"
    if "r \<in> set (ct_revisions ?u)" for r
    using that sk without_owned_sel(1,3)[of inst w t] by (auto simp: states_ok_def)
  have old: "spec_default (st_instance s) (asset_map_of t) (st_defaultAgentName s) = Inr ()" if "s \<in> set (ct_states t)" for s
    using that sk default_ok_iff[OF tk] by (simp add: states_ok_def)
  have keep: "default_ok ?u (st_instance s) (st_defaultAgentName s)"
    if s: "s \<in> set (ct_states t)" and d: "\<not> (st_instance s = inst \<and>
      (\<exists>a \<in> set (owned_assets inst w t). ar_kind a = ''agent'' \<and> Some (ar_name a) = st_defaultAgentName s))" for s
  proof (cases "st_defaultAgentName s")
    case (Some name)
    let ?k = "(st_instance s, ''agent'', name)"
    obtain v where v: "asset_map_of t ?k = Some v" using old[OF s] Some by (auto simp: spec_default_def split: option.splits)
    have "\<not> owned_key inst w ?k v"
    proof
      assume o: "owned_key inst w ?k v"
      from owned_asset_key[OF tk v o] obtain a where "a \<in> set (owned_assets inst w t)" "asset_key a = ?k" by metis
      with d o Some show False by (auto simp: asset_key_def owned_key_def)
    qed
    then show ?thesis using old[OF s] v Some default_ok_iff[OF uk]
      by (simp add: spec_default_def without_owned_map[OF tk])
  qed (simp add: default_ok_def)
  show ?thesis
  proof (cases "owned_assets inst w t = [] \<or> lock_state t inst = None")
    case True
    have "st_instance s \<noteq> inst" if "lock_state t inst = None" "s \<in> set (ct_states t)" for s
      using that by (auto simp: lock_state_def find_none)
    then show ?thesis using True sk revs keep
      by (auto simp: removal_cases states_ok_def without_owned_sel)
  next
    case False
    then obtain st where st: "lock_state t inst = Some st" by auto
    then have s: "st \<in> set (ct_states t)" "st_instance st = inst" using sk state_row by (auto simp: states_ok_def)
    have same: "s = st" if "s \<in> set (ct_states t)" "st_instance s = inst" for s
      using that s sk distinct_map_inj[of st_instance "ct_states t"] by (metis states_ok_def)
    define d where "d = (if \<exists>a \<in> set (owned_assets inst w t). ar_kind a = ''agent'' \<and>
      Some (ar_name a) = st_defaultAgentName st then None else st_defaultAgentName st)"
    have "default_ok ?u inst d" using keep[OF s(1)] s(2) by (auto simp: d_def default_ok_def)
    then have "states_ok (write_state inst (st_version st + 1) d now ?u)"
      using s keep revs sk by (intro states_ok_write[where st = st]) (auto simp: without_owned_sel states_ok_def)
    then show ?thesis using False by (simp add: removal_cases st d_def)
  qed
qed

lemma config_ok_removal:
  assumes ok: "config_ok t"
  shows "config_ok (deleteWorkspaceOwnedAssets inst w now t)"
proof -
  have tk: "tables_ok t" and sk: "states_ok t" using ok by (simp_all add: config_ok_parts)
  have "tables_ok (write_state inst n d now (without_owned inst w t)) = tables_ok (without_owned inst w t)" for n d
    by (rule tables_ok_cong(1)) simp_all
  then have "tables_ok (deleteWorkspaceOwnedAssets inst w now t)"
    using tk without_owned_ok[OF tk] by (auto simp: removal_cases split: option.split)
  then show ?thesis using removal_states[OF tk sk] by (simp add: config_ok_parts)
qed

lemma config_ok_workspace_row:
  assumes ok: "config_ok t" and r: "delete_workspace_row w t = Inr t'"
  shows "config_ok t'"
proof -
  have free: "\<And>a. a \<in> set (ct_assets t) \<Longrightarrow> ar_scopeId a \<noteq> Some w"
    and t': "t' = t\<lparr>ct_workspaces := filter (\<lambda>x. x \<noteq> w) (ct_workspaces t),
      ct_workspaceAvailability := delete_where (\<lambda>v. wav_workspaceId v = w) (ct_workspaceAvailability t)\<rparr>"
    using r by (auto simp: delete_workspace_row_def split: if_splits)
  have same: "ct_assets t' = ct_assets t" "ct_revisions t' = ct_revisions t" "ct_states t' = ct_states t"
    "ct_availability t' = ct_availability t" "active_ids t' = active_ids t" "history t' = history t"
    "availability_of t' = availability_of t"
    by (simp_all add: t' active_ids_def availability_of_def fun_eq_iff)
  have rk: "rows_ok t" and v: "availability_ok t" and sk: "states_ok t"
    using ok by (simp_all add: config_ok_def)
  have "scope_ok t' a" if a: "a \<in> set (ct_assets t)" for a
  proof -
    have "scope_ok t a" using rk a by (simp add: rows_ok_def)
    then show ?thesis using free[OF a] by (auto simp: scope_ok_def t')
  qed
  then have "rows_ok t'" using rk by (simp add: rows_ok_def same history_ok_def)
  moreover have "availability_ok t'"
    using v unfolding availability_ok_active same by (auto simp: t' row_simps)
  moreover have "default_ok t' = default_ok t" by (simp add: default_ok_def[abs_def] same)
  then have "states_ok t'" using sk by (simp add: states_ok_def same)
  ultimately show ?thesis by (simp add: config_ok_def)
qed

lemma config_ok_more_workspaces:
  assumes ok: "config_ok t"
  shows "config_ok (t\<lparr>ct_workspaces := w # ct_workspaces t\<rparr>)"
proof -
  let ?t = "t\<lparr>ct_workspaces := w # ct_workspaces t\<rparr>"
  have "rows_ok ?t" using ok by (auto simp: config_ok_def rows_ok_def history_ok_def scope_ok_def)
  moreover have "availability_ok ?t" using ok by (auto simp: config_ok_def availability_ok_def)
  moreover have "default_ok ?t = default_ok t"
    by (simp add: default_ok_def[abs_def] availability_of_def)
  then have "states_ok ?t" using ok by (simp add: config_ok_def states_ok_def)
  ultimately show ?thesis by (simp add: config_ok_def)
qed

lemma config_ok_grants: "config_ok (t\<lparr>ct_grants := g\<rparr>) = config_ok t"
proof -
  have "tables_ok (t\<lparr>ct_grants := g\<rparr>) = tables_ok t" "default_ok (t\<lparr>ct_grants := g\<rparr>) = default_ok t"
    by (rule tables_ok_cong; simp)+
  then show ?thesis by (simp add: config_ok_parts states_ok_def)
qed

section \<open>The steps\<close>

definition config_start :: "config_tables \<Rightarrow> bool" where
  "config_start t \<longleftrightarrow> ct_states t = [] \<and> ct_assets t = [] \<and> ct_revisions t = [] \<and> ct_availability t = [] \<and>
     ct_workspaceAvailability t = []"

inductive config_step :: "config_tables \<Rightarrow> config_tables \<Rightarrow> bool" where
  batch_step: "applyConfigAssetMutations i now assetIds revisionIds t = Inr (t', v) \<Longrightarrow> config_step t t'"
| availability_step: "setAgentAvailability inst agentName availability now t = Inr (t', shown) \<Longrightarrow> config_step t t'"
| workspace_removed: "delete_workspace_row w (deleteWorkspaceOwnedAssets inst w now t) = Inr t' \<Longrightarrow> config_step t t'"
| workspace_added: "config_step t (t\<lparr>ct_workspaces := w # ct_workspaces t\<rparr>)"
| grants_written: "config_step t (t\<lparr>ct_grants := g\<rparr>)"

lemma config_ok_start: "config_start t \<Longrightarrow> config_ok t"
  by (simp add: config_start_def config_ok_def rows_ok_def availability_ok_def states_ok_def)

lemma config_ok_step: "config_step t t' \<Longrightarrow> config_ok t \<Longrightarrow> config_ok t'"
  by (induction rule: config_step.induct)
    (auto intro: config_ok_batch config_ok_availability config_ok_workspace_row config_ok_removal
      config_ok_more_workspaces simp: config_ok_grants)

interpretation config_store: invariant_system config_start config_step config_ok
  by unfold_locales (auto intro: config_ok_start config_ok_step)

end
