(* ===== verification/Config_Asset_Promises.thy ===== *)
theory Config_Asset_Promises imports Config_Asset_Invariant begin

text \<open>
  What the store of config assets promises its callers: it stays consistent, its default agent is
  available to everybody, a batch does what the specification says or nothing, nobody overwrites a
  revision they have not seen, and no revision is ever lost.
\<close>

section \<open>Reading an asset\<close>

lemma config_parts:
  assumes "config_ok t"
  shows "tables_ok t" and "rows_ok t" and "states_ok t" and "distinct (map asset_key (ct_assets t))"
    and "distinct (map st_instance (ct_states t))"
  using assms by (simp_all add: config_ok_def tables_ok_def rows_ok_def states_ok_def)

lemma joined_asset:
  assumes ok: "config_ok t" and f: "findConfigAssetRow t inst kind name = Some a"
  shows "asset_with_revision t inst kind name = Some (a, last (history t (ar_id a)))"
  using found_view(1)[OF config_parts(1)[OF ok] f] active_revision[OF config_parts(2)[OF ok]] f
  by (simp add: asset_with_revision_def)

lemma getConfigAsset_None:
  assumes "asset_map_of t (inst, kind, name) = None"
  shows "getConfigAsset t inst kind name = Inr None"
  using assms by (simp add: getConfigAsset_def asset_with_revision_def find_row_by_key asset_map_of_def)

lemma getConfigAsset_Some:
  assumes ok: "config_ok t" and m: "asset_map_of t (inst, kind, name) = Some v"
  obtains c where "getConfigAsset t inst kind name = Inr (Some c)" and "ca_scope c = vw_scope v"
    and "ca_revision c = length (vw_history v)" and "ca_config c = fst (snd (last (vw_history v)))"
    and "ca_status c = (if is_gone v then Asset_Deleted else Asset_Active)"
proof -
  note p = config_parts[OF ok]
  obtain a where f: "findConfigAssetRow t inst kind name = Some a" and v: "v = view_of t a"
    using m by (auto simp: asset_map_of_def find_row_by_key)
  note a = found_view[OF p(1) f]
  let ?r = "last (history t (ar_id a))"
  have "scope_ok t a" using p(2) a(1) by (simp add: rows_ok_def)
  then have s: "mapAssetScope a = Inr (scope_view a)" by (rule scope_of_row)
  have h: "history t (ar_id a) \<noteq> []" and id: "rev_id ?r = ar_activeRevisionId a"
    using history_facts[OF p(2) a(1)] by simp_all
  obtain c where c: "mapConfigAsset a ?r = Inr c" "ca_scope c = scope_view a" "ca_revision c = rev_revision ?r"
    "ca_config c = rev_config ?r" "ca_status c = ar_status a"
    using id by (simp add: mapConfigAsset_def s)
  show ?thesis
  proof (rule that)
    show "getConfigAsset t inst kind name = Inr (Some c)" by (simp add: getConfigAsset_def joined_asset[OF ok f] c(1))
    show "ca_scope c = vw_scope v" by (simp add: c(2) v view_of_def)
    show "ca_revision c = length (vw_history v)" by (simp add: c(3) v view_of_def last_revision[OF p(2) a(1)])
    show "ca_config c = fst (snd (last (vw_history v)))" by (simp add: c(4) v view_of_def last_map h content_of_def)
    show "ca_status c = (if is_gone v then Asset_Deleted else Asset_Active)"
      using gone_view[OF p(2) a(1)] by (cases "ar_status a") (simp_all add: c(5) v)
  qed
qed

section \<open>Who may use an agent\<close>

lemma listed_availability:
  "(n, a) \<in> set (listAgentAvailability t inst) \<longleftrightarrow>
    (\<exists>v \<in> set (ct_availability t). \<exists>r \<in> set (ct_assets t). ar_id r = avr_assetId v \<and>
      asset_key r = (inst, ''agent'', n) \<and> ar_status r = Asset_Active \<and> a = shown_availability t v)"
  by (force simp: listAgentAvailability_def asset_key_def)

lemma listed_agent:
  assumes ok: "config_ok t" and a: "a \<in> set (ct_assets t)" "asset_key a = (inst, ''agent'', n)"
    "ar_status a = Asset_Active"
  shows "map_of (listAgentAvailability t inst) n = avail_view t (ar_id a) \<and> avail_view t (ar_id a) \<noteq> None"
proof -
  note p = config_parts[OF ok]
  have v: "availability_ok t" using ok by (simp add: config_ok_def)
  have "active_agent a" using a by (simp add: active_agent_def asset_key_def)
  then have "ar_id a \<in> active_ids t" using active_idsI[OF p(2) a(1)] by simp
  then have "ar_id a \<in> avr_assetId ` set (ct_availability t)" using v by (simp add: availability_ok_active)
  then obtain w where w: "w \<in> set (ct_availability t)" "avr_assetId w = ar_id a" by auto
  have d: "distinct (map avr_assetId (ct_availability t))" using v by (simp add: availability_ok_def)
  have f: "availability_of t (ar_id a) = Some w"
    using w by (simp add: availability_of_def find_by_key[OF d])
  have only: "x = shown_availability t w" if "(n, x) \<in> set (listAgentAvailability t inst)" for x
  proof -
    obtain u r where u: "u \<in> set (ct_availability t)" "r \<in> set (ct_assets t)" "ar_id r = avr_assetId u"
      "asset_key r = (inst, ''agent'', n)" "x = shown_availability t u"
      using \<open>(n, x) \<in> _\<close> unfolding listed_availability by blast
    have "r = a" using u a distinct_map_inj[OF p(4)] by metis
    then have "u = w" using u w distinct_map_inj[OF d] by metis
    then show ?thesis using u by simp
  qed
  moreover have "(n, shown_availability t w) \<in> set (listAgentAvailability t inst)"
    unfolding listed_availability using w a by metis
  ultimately have "map_of (listAgentAvailability t inst) n = Some (shown_availability t w)"
    by (metis map_of_SomeD weak_map_of_SomeI)
  then show ?thesis by (simp add: avail_view_def f)
qed

section \<open>What a writer had seen\<close>

definition no_colon :: "config_mutation \<Rightarrow> bool" where
  "no_colon m = (case mutation_key m of None \<Rightarrow> True | Some key \<Rightarrow> CHR '':'' \<notin> set (fst key))"

lemma key_text_inj:
  "CHR '':'' \<notin> set (fst k) \<Longrightarrow> CHR '':'' \<notin> set (fst l) \<Longrightarrow> key_text k = key_text l \<longleftrightarrow> k = l"
  by (cases k; cases l) (simp add: append_char_unique)

definition seen_asset :: "config_tables \<Rightarrow> mutation_input \<Rightarrow> string \<times> string \<Rightarrow> current_asset option" where
  "seen_asset t i key =
     map_option (\<lambda>(a, r). (ar_status a, r)) (asset_with_revision t (mi_instance i) (fst key) (snd key))"

lemma read_current_fold:
  assumes "list_all no_colon ms" and "CHR '':'' \<notin> set (fst key)"
    and "c (key_text key) = (if done then seen_asset t i key else None)"
  shows "foldl (\<lambda>current m. case mutation_key m of
         None \<Rightarrow> current
       | Some (kind, name) \<Rightarrow>
           (case asset_with_revision t (mi_instance i) kind name of
              None \<Rightarrow> current
            | Some (a, r) \<Rightarrow> current(key_text (kind, name) \<mapsto> (ar_status a, r)))) c ms (key_text key) =
    (if done \<or> Some key \<in> mutation_key ` set ms then seen_asset t i key else None)"
  using assms
proof (induction ms arbitrary: c "done")
  case (Cons m ms)
  define c' where "c' = (case mutation_key m of
         None \<Rightarrow> c
       | Some (kind, name) \<Rightarrow>
           (case asset_with_revision t (mi_instance i) kind name of
              None \<Rightarrow> c
            | Some (a, r) \<Rightarrow> c(key_text (kind, name) \<mapsto> (ar_status a, r))))"
  have k: "key_text k = key_text key \<longleftrightarrow> k = key" if "mutation_key m = Some k" for k
    using key_text_inj[of k key] Cons.prems that by (simp add: no_colon_def)
  have "c' (key_text key) = (if done \<or> mutation_key m = Some key then seen_asset t i key else None)"
  proof (cases "mutation_key m")
    case None
    then show ?thesis using Cons.prems(3) by (simp add: c'_def)
  next
    case (Some k)
    obtain kind name where kn: "k = (kind, name)" by (cases k)
    show ?thesis
      using k[OF Some] Cons.prems(3) Some kn
      by (cases "k = key"; cases "asset_with_revision t (mi_instance i) kind name")
        (auto simp: c'_def seen_asset_def)
  qed
  with Cons.IH[of c' "done \<or> mutation_key m = Some key"] Cons.prems(1,2) show ?case by (auto simp: c'_def)
qed simp

lemma read_current_key:
  assumes "list_all no_colon (mi_mutations i)" and "m \<in> set (mi_mutations i)" and "mutation_key m = Some key"
  shows "read_current t i (key_text key) = seen_asset t i key"
proof -
  have "no_colon m" using assms(1,2) by (simp add: list_all_iff)
  then have "CHR '':'' \<notin> set (fst key)" using assms(3) by (simp add: no_colon_def)
  moreover have "Some key \<in> mutation_key ` set (mi_mutations i)" using assms(2,3) by (metis image_eqI)
  ultimately show ?thesis
    using read_current_fold[OF assms(1), of key Map.empty False] unfolding read_current_def by simp
qed

lemma check_base_key:
  assumes "mutation_key m = Some key"
  shows "check_base i bases st current m c =
    (if key_text key \<in> set (bc_checked c) then Inr c
     else (case bases (key_text key) of
         None \<Rightarrow> Inl (app_error VALIDATION_FAILED (''Missing base revision for '' @ quoted (key_text key)))
       | Some base \<Rightarrow>
           let c' = c\<lparr>bc_checked := bc_checked c @ [key_text key]\<rparr> in
           Inr (if base_matches base (current (key_text key)) then c'
                else c'\<lparr>bc_conflicts := bc_conflicts c' @ [conflict_entry key (current (key_text key))]\<rparr>)))"
  using assms by (cases m) (auto simp: Let_def split: option.split)

definition base_seen :: "(string \<rightharpoonup> nat option) \<Rightarrow> (string \<rightharpoonup> current_asset) \<Rightarrow> string \<Rightarrow> bool" where
  "base_seen bases current key \<longleftrightarrow> (\<exists>base. bases key = Some base \<and> base_matches base (current key))"

lemma check_base_seen:
  assumes "check_base i bases st current m c = Inr c'" and "bc_conflicts c' = []"
    and "\<forall>k \<in> set (bc_checked c). base_seen bases current k"
  shows "bc_conflicts c = []" and "\<forall>k \<in> set (bc_checked c'). base_seen bases current k"
    and "mutation_key m = Some key \<Longrightarrow> key_text key \<in> set (bc_checked c')"
    and "set (bc_checked c) \<subseteq> set (bc_checked c')"
proof -
  have "bc_conflicts c = [] \<and> (\<forall>k \<in> set (bc_checked c'). base_seen bases current k) \<and>
      (\<forall>key. mutation_key m = Some key \<longrightarrow> key_text key \<in> set (bc_checked c')) \<and>
      set (bc_checked c) \<subseteq> set (bc_checked c')"
  proof (cases "mutation_key m")
    case None
    then obtain name where "m = Set_Default_Agent name" by (cases m) auto
    then show ?thesis using assms by (auto split: option.splits if_splits)
  next
    case (Some k)
    then show ?thesis using assms
      by (auto simp: check_base_key[OF Some] Let_def base_seen_def split: if_splits option.splits)
  qed
  then show "bc_conflicts c = []" and "\<forall>k \<in> set (bc_checked c'). base_seen bases current k"
    and "mutation_key m = Some key \<Longrightarrow> key_text key \<in> set (bc_checked c')"
    and "set (bc_checked c) \<subseteq> set (bc_checked c')" by blast+
qed

lemma check_bases_conflicts:
  "check_bases i bases st current ms c = Inr c' \<Longrightarrow> bc_conflicts c' = [] \<Longrightarrow> bc_conflicts c = []"
proof (induction ms arbitrary: c)
  case (Cons m ms)
  obtain d where m: "check_base i bases st current m c = Inr d"
    and ms: "check_bases i bases st current ms d = Inr c'" using Cons.prems(1) by auto
  have "bc_conflicts d = []" using Cons.IH[OF ms Cons.prems(2)] .
  then show ?case using m
    by (cases "mutation_key m"; cases m) (auto simp: Let_def split: option.splits if_splits)
qed simp

lemma check_bases_seen:
  "check_bases i bases st current ms c = Inr c' \<Longrightarrow> bc_conflicts c' = [] \<Longrightarrow>
    \<forall>k \<in> set (bc_checked c). base_seen bases current k \<Longrightarrow>
    bc_conflicts c = [] \<and> set (bc_checked c) \<subseteq> set (bc_checked c') \<and>
    (\<forall>k \<in> set (bc_checked c'). base_seen bases current k) \<and>
    (\<forall>m \<in> set ms. \<forall>key. mutation_key m = Some key \<longrightarrow> key_text key \<in> set (bc_checked c'))"
proof (induction ms arbitrary: c)
  case (Cons m ms)
  obtain d where m: "check_base i bases st current m c = Inr d"
    and ms: "check_bases i bases st current ms d = Inr c'" using Cons.prems(1) by auto
  have "bc_conflicts d = []" using check_bases_conflicts[OF ms Cons.prems(2)] .
  note one = check_base_seen[OF m this Cons.prems(3)]
  from Cons.IH[OF ms Cons.prems(2) one(2)] one show ?case by auto
qed simp

text \<open>An accepted batch: every asset it touches is at the revision the writer named.\<close>

lemma accepted_base:
  assumes b: "mi_baseRevisions i = Some bases" and ok: "assertConfigAssetBases i st (current_for t i) = Inr ()"
    and k: "list_all no_colon (mi_mutations i)" and m: "m \<in> set (mi_mutations i)" "mutation_key m = Some key"
  obtains base where "bases (key_text key) = Some base" and "base_matches base (seen_asset t i key)"
proof -
  obtain c where c: "check_bases i bases st (current_for t i) (mi_mutations i)
      \<lparr>bc_conflicts = [], bc_checked = [], bc_default = None\<rparr> = Inr c" "bc_conflicts c = []"
    using ok b by (auto simp: assertConfigAssetBases_def split: if_splits)
  have start: "\<forall>k \<in> set (bc_checked \<lparr>bc_conflicts = [], bc_checked = [], bc_default = None\<rparr>).
      base_seen bases (current_for t i) k" by simp
  have "base_seen bases (current_for t i) (key_text key)"
    using check_bases_seen[OF c start] m by blast
  moreover have "current_for t i (key_text key) = seen_asset t i key"
    using read_current_key[OF k m] b by (simp add: current_for_def)
  ultimately show ?thesis using that by (auto simp: base_seen_def)
qed

section \<open>What a batch does to one asset\<close>

definition mentions :: "config_mutation \<Rightarrow> string \<times> string \<Rightarrow> bool" where
  "mentions m key \<longleftrightarrow> mutation_key m = Some key"

lemma spec_mutation_other:
  "spec_mutation b ws c (m, d) = Inr (m', d') \<Longrightarrow> \<not> mentions c (kind, name) \<Longrightarrow>
    m' (inst, kind, name) = m (inst, kind, name)"
  by (cases c) (auto simp: Let_def mentions_def split: option.splits if_splits)

lemma spec_mutations_other:
  "spec_mutations b ws cs (m, d) = Inr (m', d') \<Longrightarrow> list_all (\<lambda>c. \<not> mentions c (kind, name)) cs \<Longrightarrow>
    m' (inst, kind, name) = m (inst, kind, name)"
proof (induction cs arbitrary: m d)
  case (Cons c cs)
  obtain n e where c: "spec_mutation b ws c (m, d) = Inr (n, e)" and cs: "spec_mutations b ws cs (n, e) = Inr (m', d')"
    using Cons.prems(1) by auto
  have "n (inst, kind, name) = m (inst, kind, name)"
    by (rule spec_mutation_other[OF c]) (use Cons.prems(2) in simp)
  then show ?case using Cons.IH[OF cs] Cons.prems(2) by simp
qed simp

lemma spec_mutations_append:
  "spec_mutations b ws (xs @ ys) s = bind_result (spec_mutations b ws xs s) (spec_mutations b ws ys)"
proof (induction xs arbitrary: s)
  case (Cons x xs)
  then show ?case by (cases "spec_mutation b ws x s") simp_all
qed simp

text \<open>Contents are only ever added, and an asset stays with its owner.\<close>

definition grown :: "asset_view option \<Rightarrow> asset_view option \<Rightarrow> bool" where
  "grown v v' \<longleftrightarrow> (case v of None \<Rightarrow> True | Some x \<Rightarrow> (case v' of None \<Rightarrow> False | Some y \<Rightarrow>
     prefix (vw_history x) (vw_history y) \<and> vw_scope y = vw_scope x))"

lemma grown_refl: "grown v v"
  by (simp add: grown_def split: option.split)

lemma grown_trans: "grown u v \<Longrightarrow> grown v w \<Longrightarrow> grown u w"
  unfolding grown_def by (auto split: option.splits)

lemma spec_mutation_grows:
  assumes "spec_mutation b ws c (m, d) = Inr (m', d')"
  shows "grown (m k) (m' k)"
proof -
  have "prefix (vw_history v) (vw_history (deleted_view b v)) \<and> vw_scope (deleted_view b v) = vw_scope v" for v
    by (simp add: deleted_view_def)
  moreover have "prefix (vw_history v) (vw_history (updated_view b kind config operation v)) \<and>
      vw_scope (updated_view b kind config operation v) = vw_scope v" for kind config operation v
    by (simp add: updated_view_def)
  ultimately show ?thesis using assms
    by (cases c) (auto simp: Let_def grown_def split: option.splits if_splits)
qed

lemma spec_mutations_grow: "spec_mutations b ws cs (m, d) = Inr (m', d') \<Longrightarrow> grown (m k) (m' k)"
proof (induction cs arbitrary: m d)
  case (Cons c cs)
  obtain n e where c: "spec_mutation b ws c (m, d) = Inr (n, e)" and cs: "spec_mutations b ws cs (n, e) = Inr (m', d')"
    using Cons.prems(1) by auto
  show ?case using grown_trans[OF spec_mutation_grows[OF c] Cons.IH[OF cs]] .
qed (simp add: grown_refl)

lemma ensured_state:
  assumes "lock_state (ensure_state inst now t) inst = Some st"
  shows "getConfigAssetState t inst = \<lparr>cs_version = st_version st, cs_defaultAgentName = st_defaultAgentName st\<rparr>"
proof (cases "lock_state t inst")
  case None
  then have "\<not> (\<exists>r \<in> set (ct_states t). st_instance r = inst)" by (auto simp: lock_state_def find_none)
  then show ?thesis using assms None
    by (auto simp: ensure_state_def lock_state_def find_append getConfigAssetState_def mapConfigAssetState_def)
next
  case (Some s)
  then have "\<exists>r \<in> set (ct_states t). st_instance r = inst" by (auto simp: lock_state_def dest: find_Some_iff)
  then show ?thesis using assms Some by (simp add: ensure_state_def getConfigAssetState_def mapConfigAssetState_def)
qed

lemma ensured_reads:
  "current_for (ensure_state inst now t) i = current_for t i"
  "batch_of i now assetIds revisionIds n (ensure_state inst now t) = batch_of i now assetIds revisionIds n t"
proof -
  have "active_revision (ensure_state inst now t) = active_revision t"
    by (simp add: active_revision_def fun_eq_iff)
  moreover have "findConfigAssetRow (ensure_state inst now t) = findConfigAssetRow t"
    by (simp add: findConfigAssetRow_def fun_eq_iff)
  ultimately have "asset_with_revision (ensure_state inst now t) = asset_with_revision t"
    unfolding asset_with_revision_def[abs_def] by (simp only:)
  then show "current_for (ensure_state inst now t) i = current_for t i"
    by (simp only: current_for_def read_current_def)
  show "batch_of i now assetIds revisionIds n (ensure_state inst now t) = batch_of i now assetIds revisionIds n t"
    by (simp add: batch_of_def deletes_selected_agent_def)
qed

lemma batch_spec:
  assumes ok: "config_ok t" and r: "applyConfigAssetMutations i now assetIds revisionIds t = Inr (t', v)"
  obtains d where "spec_mutations (batch_of i now assetIds revisionIds (cs_version (getConfigAssetState t (mi_instance i))) t)
      (ct_workspaces t) (mi_mutations i) (asset_map_of t, cs_defaultAgentName (getConfigAssetState t (mi_instance i))) =
      Inr (asset_map_of t', d)"
    and "assertConfigAssetBases i (getConfigAssetState t (mi_instance i)) (current_for t i) = Inr ()"
    and "spec_default (mi_instance i) (asset_map_of t') d = Inr ()"
    and "getConfigAssetState t' (mi_instance i) = \<lparr>cs_version = v, cs_defaultAgentName = d\<rparr>"
    and "v = cs_version (getConfigAssetState t (mi_instance i)) + 1"
    and "ct_workspaces t' = ct_workspaces t"
proof -
  let ?inst = "mi_instance i" and ?t = "ensure_state (mi_instance i) now t"
  from batch_success[OF ok r] obtain st u d where st: "lock_state ?t ?inst = Some st"
    and b: "assertConfigAssetBases i (mapConfigAssetState (Some st)) (current_for ?t i) = Inr ()"
    and m: "apply_mutations (batch_of i now assetIds revisionIds (st_version st) ?t) 0 (mi_mutations i) (?t, st_defaultAgentName st) = Inr (u, d)"
    and c: "check_default_agent ?inst (u, d) = Inr ()"
    and t': "t' = write_state ?inst (st_version st + 1) d now u" and v: "v = st_version st + 1" by metis
  have tk: "tables_ok ?t" and sk: "states_ok ?t"
    using ok tables_ok_cong(1)[of ?t t] states_ok_ensure by (simp_all add: config_ok_parts)
  note u = mutations_ok[OF tk m]
  note e = ensured_state[OF st] ensured_reads
  have maps: "asset_map_of ?t = asset_map_of t" "asset_map_of t' = asset_map_of u"
    by (rule asset_map_cong; simp add: t')+
  have "default_ok u ?inst d" using c u by (simp add: default_ok_iff default_checked)
  then have "spec_default ?inst (asset_map_of t') d = Inr ()" using u maps(2) by (simp add: default_ok_iff)
  moreover have "getConfigAssetState t' ?inst = \<lparr>cs_version = v, cs_defaultAgentName = d\<rparr>"
  proof -
    have s: "st \<in> set (ct_states u)" "st_instance st = ?inst"
      using st sk u state_row by (auto simp: states_ok_def batch_frame_def)
    from written_state[OF s, of v d now] obtain r where r: "r \<in> set (ct_states t')" "st_instance r = ?inst"
      "st_version r = v" "st_defaultAgentName r = d" unfolding t' v by auto
    have "distinct (map st_instance (ct_states t'))"
      using config_ok_batch[OF ok assms(2)] by (rule config_parts(5))
    then have "lock_state t' ?inst = Some r" using r by (simp add: state_row)
    then show ?thesis using r by (simp add: getConfigAssetState_def mapConfigAssetState_def)
  qed
  moreover have "ct_workspaces t' = ct_workspaces t" using u by (simp add: t' batch_frame_def)
  moreover have "mapConfigAssetState (Some st) = getConfigAssetState t ?inst"
    by (simp add: e(1) mapConfigAssetState_def)
  ultimately show ?thesis
    using u b v maps by (intro that[of d]) (simp_all add: e)
qed

lemma batch_failure:
  assumes ok: "config_ok t"
    and f: "fresh_from (batch_of i now assetIds revisionIds (cs_version (getConfigAssetState t (mi_instance i))) t) 0 t"
    and b: "assertConfigAssetBases i (getConfigAssetState t (mi_instance i)) (current_for t i) = Inr ()"
    and r: "applyConfigAssetMutations i now assetIds revisionIds t = Inl e"
  shows "spec_batch (batch_of i now assetIds revisionIds (cs_version (getConfigAssetState t (mi_instance i))) t)
    (ct_workspaces t) (asset_map_of t, cs_defaultAgentName (getConfigAssetState t (mi_instance i))) = Inl e"
proof -
  let ?inst = "mi_instance i" and ?t = "ensure_state (mi_instance i) now t"
  let ?b = "batch_of i now assetIds revisionIds (cs_version (getConfigAssetState t ?inst)) t"
  have tk: "tables_ok ?t" using ok tables_ok_cong(1)[of ?t t] by (simp add: config_ok_parts)
  have map: "asset_map_of ?t = asset_map_of t" by (rule asset_map_cong) simp_all
  have "\<exists>r \<in> set (ct_states ?t). st_instance r = ?inst" by (auto simp: ensure_state_def)
  then obtain st where st: "lock_state ?t ?inst = Some st"
    by (cases "lock_state ?t ?inst") (auto simp: lock_state_def find_none)
  note e = ensured_state[OF st] ensured_reads
  have s: "mapConfigAssetState (Some st) = getConfigAssetState t ?inst" by (simp add: e(1) mapConfigAssetState_def)
  have bi: "b_input ?b = i" by (simp add: batch_of_def)
  have fr: "fresh_from ?b 0 ?t" using f by (simp add: fresh_from_def fresh_at_def)
  show ?thesis
  proof (cases "apply_mutations ?b 0 (mi_mutations i) (?t, cs_defaultAgentName (getConfigAssetState t ?inst))")
    case (Inl x)
    then have "e = x" using r b by (simp add: applyConfigAssetMutations_def st s e)
    then show ?thesis using mutations_fail[OF tk fr Inl] by (simp add: spec_batch_def bi map)
  next
    case (Inr y)
    obtain u d where y: "y = (u, d)" by (cases y)
    note m = mutations_ok[OF tk Inr[unfolded y]]
    have "check_default_agent ?inst (u, d) = Inl e"
      using r b Inr y by (cases "check_default_agent ?inst (u, d)") (simp_all add: applyConfigAssetMutations_def st s e)
    then show ?thesis using m default_checked by (simp add: spec_batch_def bi map)
  qed
qed

lemma seen_None: "asset_map_of t (mi_instance i, kind, name) = None \<Longrightarrow> seen_asset t i (kind, name) = None"
  by (simp add: seen_asset_def asset_with_revision_def find_row_by_key asset_map_of_def)

lemma seen_Some:
  assumes ok: "config_ok t" and m: "asset_map_of t (mi_instance i, kind, name) = Some v"
  obtains r where "seen_asset t i (kind, name) = Some (if is_gone v then Asset_Deleted else Asset_Active, r)"
    and "rev_revision r = length (vw_history v)"
proof -
  note p = config_parts[OF ok]
  obtain a where f: "findConfigAssetRow t (mi_instance i) kind name = Some a" and v: "v = view_of t a"
    using m by (auto simp: asset_map_of_def find_row_by_key)
  note a = found_view[OF p(1) f]
  have "ar_status a = (if is_gone v then Asset_Deleted else Asset_Active)"
    using gone_view[OF p(2) a(1)] by (cases "ar_status a") (simp_all add: v)
  then show ?thesis using that last_revision[OF p(2) a(1)]
    by (simp add: seen_asset_def joined_asset[OF ok f] v view_of_def)
qed

text \<open>What a base of a write says of the asset as it is read.\<close>

definition writer_has_seen :: "nat option \<Rightarrow> (js_error, config_asset option) result \<Rightarrow> bool" where
  "writer_has_seen base found =
     (case found of
        Inl e \<Rightarrow> False
      | Inr None \<Rightarrow> base = None
      | Inr (Some c) \<Rightarrow> (case base of None \<Rightarrow> ca_status c = Asset_Deleted | Some n \<Rightarrow> ca_revision c = n))"

definition revision_in :: "(js_error, config_asset option) result \<Rightarrow> nat" where
  "revision_in found = (case found of Inr (Some c) \<Rightarrow> ca_revision c | _ \<Rightarrow> 0)"

lemma matching_base:
  assumes ok: "config_ok t" and b: "base_matches base (seen_asset t i (kind, name))"
  shows "writer_has_seen base (getConfigAsset t (mi_instance i) kind name)"
proof (cases "asset_map_of t (mi_instance i, kind, name)")
  case None
  then show ?thesis using b seen_None[OF None] getConfigAsset_None[OF None]
    by (auto simp: base_matches_def writer_has_seen_def split: option.splits)
next
  case (Some v)
  obtain r where "seen_asset t i (kind, name) = Some (if is_gone v then Asset_Deleted else Asset_Active, r)"
    "rev_revision r = length (vw_history v)" by (rule seen_Some[OF ok Some])
  moreover obtain c where "getConfigAsset t (mi_instance i) kind name = Inr (Some c)"
    "ca_revision c = length (vw_history v)" "ca_status c = (if is_gone v then Asset_Deleted else Asset_Active)"
    by (rule getConfigAsset_Some[OF ok Some])
  ultimately show ?thesis using b
    by (auto simp: base_matches_def writer_has_seen_def split: option.splits if_splits)
qed

lemma written_asset:
  assumes ok: "config_ok t" and r: "applyConfigAssetMutations i now assetIds revisionIds t = Inr (t', v)"
    and ms: "mi_mutations i = pre @ Upsert kind name config operation scope # post"
    and once: "list_all (\<lambda>c. \<not> mentions c (kind, name)) (pre @ post)"
  shows "\<exists>c. getConfigAsset t' (mi_instance i) kind name = Inr (Some c) \<and> ca_status c = Asset_Active \<and>
    ca_config c = Some config \<and> ca_revision c = Suc (revision_in (getConfigAsset t (mi_instance i) kind name))"
proof -
  let ?k = "(mi_instance i, kind, name)"
  let ?b = "batch_of i now assetIds revisionIds (cs_version (getConfigAssetState t (mi_instance i))) t"
  from batch_spec[OF ok r] obtain d where "spec_mutations ?b (ct_workspaces t) (mi_mutations i)
      (asset_map_of t, cs_defaultAgentName (getConfigAssetState t (mi_instance i))) = Inr (asset_map_of t', d)" by metis
  then obtain m e m' e' where pre: "spec_mutations ?b (ct_workspaces t) pre
      (asset_map_of t, cs_defaultAgentName (getConfigAssetState t (mi_instance i))) = Inr (m, e)"
    and one: "spec_mutation ?b (ct_workspaces t) (Upsert kind name config operation scope) (m, e) = Inr (m', e')"
    and post: "spec_mutations ?b (ct_workspaces t) post (m', e') = Inr (asset_map_of t', d)"
    unfolding ms spec_mutations_append by fastforce
  have m: "m ?k = asset_map_of t ?k" "asset_map_of t' ?k = m' ?k"
    using spec_mutations_other[OF pre] spec_mutations_other[OF post] once by simp_all
  obtain w where w: "m' ?k = Some w" "fst (snd (last (vw_history w))) = Some config"
    "length (vw_history w) = Suc (case m ?k of None \<Rightarrow> 0 | Some x \<Rightarrow> length (vw_history x))"
    using one by (auto simp: Let_def batch_of_def created_view_def updated_view_def written_content_def
        split: option.splits if_splits)
  have n: "revision_in (getConfigAsset t (mi_instance i) kind name) =
      (case m ?k of None \<Rightarrow> 0 | Some x \<Rightarrow> length (vw_history x))"
  proof (cases "asset_map_of t ?k")
    case None
    then show ?thesis using m(1) getConfigAsset_None[OF None] by (simp add: revision_in_def)
  next
    case (Some x)
    obtain c where "getConfigAsset t (mi_instance i) kind name = Inr (Some c)"
      "ca_revision c = length (vw_history x)" by (rule getConfigAsset_Some[OF ok Some])
    then show ?thesis using m(1) Some by (simp add: revision_in_def)
  qed
  have "asset_map_of t' ?k = Some w" using m(2) w(1) by simp
  from getConfigAsset_Some[OF config_ok_batch[OF ok r] this] show ?thesis
    using w n by (metis is_gone_def option.distinct(1))
qed

section \<open>Steps\<close>

lemma grown_availability:
  assumes ok: "config_ok t" and r: "setAgentAvailability inst agentName availability now t = Inr (t', shown)"
  shows "grown (asset_map_of t k) (asset_map_of t' k)"
proof -
  from availability_success[OF config_parts(1)[OF ok] r] obtain a row where
    f: "findConfigAssetRow t inst ''agent'' agentName = Some a" and act: "ar_status a = Asset_Active"
    and w: "set (av_workspaces availability) \<subseteq> set (ct_workspaces t)" and row: "avr_assetId row = ar_id a"
    and t': "t' = set_places (ar_id a) (sort (remdups (av_workspaces availability))) (upsert_availability row t)" by metis
  note a = found_view[OF config_parts(1)[OF ok] f]
  have "active_agent a" using a(2) act by (simp add: active_agent_def asset_key_def)
  from set_availability_ok[OF config_parts(1)[OF ok] a(1) this row _ _ _ t'] w a(2,3) show ?thesis
    by (simp add: grown_def split: option.split)
qed

lemma grown_workspace_row:
  assumes "delete_workspace_row w t = Inr t'"
  shows "grown (asset_map_of t k) (asset_map_of t' k)"
proof -
  have "ct_assets t' = ct_assets t" "history t' = history t"
    using assms by (auto simp: delete_workspace_row_def split: if_splits)
  then show ?thesis by (simp add: asset_map_of_def view_of_def grown_def split: option.split)
qed

lemma grown_step:
  assumes "config_step t t'" and "config_ok t" and "asset_map_of t k = Some v" and "vw_scope v = Of_Instance"
  shows "grown (asset_map_of t k) (asset_map_of t' k)"
  using assms
proof (cases rule: config_step.cases)
  case (batch_step i now assetIds revisionIds n)
  then show ?thesis using batch_spec[OF assms(2) batch_step] spec_mutations_grow by metis
next
  case (availability_step inst agentName availability now shown)
  then show ?thesis using grown_availability[OF assms(2)] by blast
next
  case (workspace_removed w inst now)
  have "asset_map_of (deleteWorkspaceOwnedAssets inst w now t) k = asset_map_of t k"
    using removal_map[OF config_parts(1)[OF assms(2)], of inst w now k] assms(3,4) by (simp add: owned_key_def)
  then show ?thesis using grown_workspace_row[OF workspace_removed] by metis
next
  case (workspace_added w)
  then show ?thesis using asset_map_cong[of t' t] by (simp add: grown_refl)
next
  case (grants_written g)
  then show ?thesis using asset_map_cong[of t' t] by (simp add: grown_refl)
qed

lemma grown_steps:
  "config_step\<^sup>*\<^sup>* t t' \<Longrightarrow> config_ok t \<Longrightarrow> asset_map_of t k = Some v \<Longrightarrow> vw_scope v = Of_Instance \<Longrightarrow>
    config_ok t' \<and> grown (asset_map_of t k) (asset_map_of t' k)"
proof (induction rule: rtranclp_induct)
  case base
  then show ?case by (simp add: grown_refl)
next
  case (step u w)
  then have g: "config_ok u" "grown (asset_map_of t k) (asset_map_of u k)" by simp_all
  then obtain x where "asset_map_of u k = Some x" "vw_scope x = Of_Instance"
    using step.prems by (auto simp: grown_def split: option.splits)
  then have "grown (asset_map_of u k) (asset_map_of w k)" using grown_step step.hyps(2) g(1) by blast
  then show ?case using g grown_trans config_ok_step step.hyps(2) by blast
qed

section \<open>A small store\<close>

definition demo_ids :: "char \<Rightarrow> nat \<Rightarrow> string" where
  "demo_ids c n = c # replicate n CHR ''x''"

lemma demo_ids_inj: "inj (demo_ids c)"
proof (rule injI)
  fix x y assume "demo_ids c x = demo_ids c y"
  then have "length (demo_ids c x) = length (demo_ids c y)" by simp
  then show "x = y" by (simp add: demo_ids_def)
qed

definition no_tables :: config_tables where
  "no_tables = \<lparr>ct_states = [], ct_assets = [], ct_revisions = [], ct_availability = [],
     ct_workspaceAvailability = [], ct_grants = [], ct_workspaces = []\<rparr>"

definition demo_batch :: "(string \<rightharpoonup> nat option) option \<Rightarrow> config_mutation list \<Rightarrow> mutation_input" where
  "demo_batch bases ms = \<lparr>mi_instance = ''i'', mi_baseVersion = None, mi_baseRevisions = bases,
     mi_baseDefaultAgentName = None, mi_actor = None, mi_origin = None, mi_initialAvailability = None,
     mi_mutations = ms\<rparr>"

definition demo_push :: mutation_input where
  "demo_push = demo_batch None [Upsert ''agent'' ''h'' (JObj []) None None, Set_Default_Agent (Some ''h'')]"

definition demo_edit :: mutation_input where
  "demo_edit = demo_batch (Some [key_text (''agent'', ''h'') \<mapsto> Some 1]) [Upsert ''agent'' ''h'' (JObj [(''a'', JNull)]) None None]"

definition demo_tables :: config_tables where
  "demo_tables = (case applyConfigAssetMutations demo_push 1 (demo_ids CHR ''a'') (demo_ids CHR ''r'') no_tables of
     Inr (t, v) \<Rightarrow> t | Inl e \<Rightarrow> no_tables)"

lemma demo_pushed:
  "applyConfigAssetMutations demo_push 1 (demo_ids CHR ''a'') (demo_ids CHR ''r'') no_tables = Inr (demo_tables, 1)"
  by code_simp

lemma demo_reachable: "reachable config_start config_step demo_tables"
proof -
  have "reachable config_start config_step no_tables"
    by (rule reachable_start) (simp add: config_start_def no_tables_def)
  then show ?thesis by (rule reachable_move) (rule batch_step[OF demo_pushed])
qed

lemma demo_default: "cs_defaultAgentName (getConfigAssetState demo_tables ''i'') = Some ''h''"
  by code_simp

lemma demo_edited:
  "is_ok (applyConfigAssetMutations demo_edit 2 (demo_ids CHR ''b'') (demo_ids CHR ''s'') demo_tables)"
  by code_simp

section \<open>The promises\<close>

text \<open>
  C29. However batches, changes of availability, removals of workspaces and grants follow each other,
  the store stays consistent: ids and names are unique, the revisions of an asset are numbered from 1
  without a gap and the active one is the last, an asset is deleted exactly when its last revision has
  no content, exactly the active agents have an availability, no revision is newer than its
  instance's version, and a default agent is an active agent that is available to all.
\<close>

theorem config_assets_stay_consistent:
  assumes "reachable config_start config_step t"
  shows "config_ok t"
  using assms by (rule config_store.inv_reachable)

theorem config_assets_stay_consistent_witness:
  "reachable config_start config_step demo_tables \<and> config_ok demo_tables \<and> ct_assets demo_tables \<noteq> []"
proof (intro conjI)
  show "ct_assets demo_tables \<noteq> []" by code_simp
qed (use demo_reachable config_assets_stay_consistent[OF demo_reachable] in \<open>simp_all\<close>)

text \<open>
  C28. The default agent of an instance is an asset with content that everybody may use, in every
  workspace of any kind: no change of assets or of availability can hide or delete it.
\<close>

theorem default_agent_is_available_everywhere:
  assumes "reachable config_start config_step t"
    and "cs_defaultAgentName (getConfigAssetState t inst) = Some name"
  shows "isAgentAvailableInWorkspace (map_of (listAgentAvailability t inst) name) wkind wid \<and>
    (\<exists>c. getConfigAsset t inst ''agent'' name = Inr (Some c) \<and> ca_status c = Asset_Active)"
proof (rule conjI)
  have ok: "config_ok t" using assms(1) by (rule config_store.inv_reachable)
  note p = config_parts[OF ok]
  obtain s where s: "s \<in> set (ct_states t)" "st_instance s = inst" "st_defaultAgentName s = Some name"
    using assms(2) by (auto simp: getConfigAssetState_def mapConfigAssetState_def state_row[OF p(5)] split: option.splits)
  then have "default_ok t inst (Some name)" using p(3) by (auto simp: states_ok_def)
  then obtain a where a: "a \<in> set (ct_assets t)" "asset_key a = (inst, ''agent'', name)" "ar_status a = Asset_Active"
    and m: "map_option avr_mode (availability_of t (ar_id a)) = Some Available_To_All"
    by (auto simp: default_ok_def)
  obtain x where x: "avail_view t (ar_id a) = Some x" using listed_agent[OF ok a] by auto
  have "av_mode x = Available_To_All" using x m by (auto simp: avail_view_def shown_availability_def)
  then show "isAgentAvailableInWorkspace (map_of (listAgentAvailability t inst) name) wkind wid"
    using listed_agent[OF ok a] x by (simp add: isAgentAvailableInWorkspace_def)
  have "asset_map_of t (inst, ''agent'', name) = Some (view_of t a)" using asset_map_Some[OF p(4) a(1)] a(2) by simp
  moreover have "\<not> is_gone (view_of t a)" using gone_view[OF p(2) a(1)] a(3) by simp
  ultimately show "\<exists>c. getConfigAsset t inst ''agent'' name = Inr (Some c) \<and> ca_status c = Asset_Active"
    using getConfigAsset_Some[OF ok] by metis
qed

theorem default_agent_is_available_everywhere_witness:
  "isAgentAvailableInWorkspace (map_of (listAgentAvailability demo_tables ''i'') ''h'') Personal_Workspace None"
  by (rule default_agent_is_available_everywhere[OF demo_reachable demo_default, THEN conjunct1])

text \<open>
  C30. A batch with ids nobody has and bases that are accepted does to the map from the keys of assets
  to their owners, contents and availability what the specification of its mutations says, moves the
  version by one and sets the default agent; where the specification refuses, it fails with the same
  error.
\<close>

theorem batches_follow_the_specification:
  assumes "reachable config_start config_step t" and "inj assetIds" and "inj revisionIds"
    and "\<And>n. assetIds n \<notin> ar_id ` set (ct_assets t)" and "\<And>n. revisionIds n \<notin> rev_id ` set (ct_revisions t)"
    and "assertConfigAssetBases i (getConfigAssetState t (mi_instance i)) (current_for t i) = Inr ()"
  shows "spec_batch
      (batch_of i now assetIds revisionIds (cs_version (getConfigAssetState t (mi_instance i))) t)
      (ct_workspaces t) (asset_map_of t, cs_defaultAgentName (getConfigAssetState t (mi_instance i))) =
    (case applyConfigAssetMutations i now assetIds revisionIds t of
       Inl e \<Rightarrow> Inl e
     | Inr (t', v) \<Rightarrow> Inr (asset_map_of t', cs_defaultAgentName (getConfigAssetState t' (mi_instance i)))) \<and>
    (\<forall>t' v. applyConfigAssetMutations i now assetIds revisionIds t = Inr (t', v) \<longrightarrow>
      v = cs_version (getConfigAssetState t (mi_instance i)) + 1 \<and>
      cs_version (getConfigAssetState t' (mi_instance i)) = v)"
proof (intro conjI[OF _ allI[OF allI[OF impI]]])
  have ok: "config_ok t" using assms(1) by (rule config_store.inv_reachable)
  let ?b = "batch_of i now assetIds revisionIds (cs_version (getConfigAssetState t (mi_instance i))) t"
  have b: "b_input ?b = i" "b_assetId ?b = assetIds" "b_revisionId ?b = revisionIds" by (simp_all add: batch_of_def)
  have f: "fresh_from ?b 0 t" using assms(2-5) by (simp add: fresh_from_def fresh_at_def b)
  show "spec_batch ?b (ct_workspaces t) (asset_map_of t, cs_defaultAgentName (getConfigAssetState t (mi_instance i))) =
    (case applyConfigAssetMutations i now assetIds revisionIds t of
       Inl e \<Rightarrow> Inl e
     | Inr (t', v) \<Rightarrow> Inr (asset_map_of t', cs_defaultAgentName (getConfigAssetState t' (mi_instance i))))"
  proof (cases "applyConfigAssetMutations i now assetIds revisionIds t")
    case (Inl e)
    from batch_failure[OF ok f[unfolded b] assms(6) Inl] show ?thesis by (simp add: Inl)
  next
    case (Inr r)
    obtain t' v where r: "r = (t', v)" by (cases r)
    obtain d where d: "spec_mutations ?b (ct_workspaces t) (mi_mutations i)
        (asset_map_of t, cs_defaultAgentName (getConfigAssetState t (mi_instance i))) = Inr (asset_map_of t', d)"
      "spec_default (mi_instance i) (asset_map_of t') d = Inr ()"
      "getConfigAssetState t' (mi_instance i) = \<lparr>cs_version = v, cs_defaultAgentName = d\<rparr>"
      by (rule batch_spec[OF ok Inr[unfolded r]])
    show ?thesis by (simp add: Inr r spec_batch_def b d)
  qed
  show "v = cs_version (getConfigAssetState t (mi_instance i)) + 1 \<and> cs_version (getConfigAssetState t' (mi_instance i)) = v"
    if "applyConfigAssetMutations i now assetIds revisionIds t = Inr (t', v)" for t' v
    by (rule batch_spec[OF ok that]) simp
qed

lemma demo_empty: "reachable config_start config_step no_tables"
  by (rule reachable_start) (simp add: config_start_def no_tables_def)

theorem batches_follow_the_specification_witness:
  "spec_batch (batch_of demo_push 1 (demo_ids CHR ''a'') (demo_ids CHR ''r'') 0 no_tables) []
      (asset_map_of no_tables, None) = Inr (asset_map_of demo_tables, Some ''h'')"
proof -
  have start: "assertConfigAssetBases demo_push (getConfigAssetState no_tables ''i'') (current_for no_tables demo_push) = Inr ()"
    "getConfigAssetState no_tables ''i'' = \<lparr>cs_version = 0, cs_defaultAgentName = None\<rparr>"
    "mi_instance demo_push = ''i''" "ct_workspaces no_tables = []"
    by code_simp+
  show ?thesis
    using batches_follow_the_specification[OF demo_empty demo_ids_inj[of "CHR ''a''"]
        demo_ids_inj[of "CHR ''r''"], where i = demo_push and now = 1, THEN conjunct1] start
    by (simp add: no_tables_def demo_pushed[unfolded no_tables_def] demo_default)
qed

text \<open>
  C27. A writer who names the revisions it has seen overwrites no other: where its batch is accepted,
  every asset the batch writes or deletes is at the revision the writer named, or not there when it
  named none, and an asset it writes once is then active with the content written, one revision
  further on.
\<close>

theorem no_update_is_lost:
  assumes "reachable config_start config_step t" and "mi_baseRevisions i = Some bases"
    and "list_all no_colon (mi_mutations i)"
    and "applyConfigAssetMutations i now assetIds revisionIds t = Inr (t', v)"
  shows "(\<forall>m kind name. m \<in> set (mi_mutations i) \<longrightarrow> mutation_key m = Some (kind, name) \<longrightarrow>
      (\<exists>base. bases (key_text (kind, name)) = Some base \<and>
        writer_has_seen base (getConfigAsset t (mi_instance i) kind name))) \<and>
    (\<forall>pre kind name config operation scope post.
      mi_mutations i = pre @ Upsert kind name config operation scope # post \<longrightarrow>
      list_all (\<lambda>c. \<not> mentions c (kind, name)) (pre @ post) \<longrightarrow>
      (\<exists>c. getConfigAsset t' (mi_instance i) kind name = Inr (Some c) \<and> ca_status c = Asset_Active \<and>
        ca_config c = Some config \<and>
        ca_revision c = Suc (revision_in (getConfigAsset t (mi_instance i) kind name))))"
proof (intro conjI allI impI)
  have ok: "config_ok t" using assms(1) by (rule config_store.inv_reachable)
  show "\<exists>base. bases (key_text (kind, name)) = Some base \<and>
      writer_has_seen base (getConfigAsset t (mi_instance i) kind name)"
    if m: "m \<in> set (mi_mutations i)" "mutation_key m = Some (kind, name)" for m kind name
  proof -
    have "assertConfigAssetBases i (getConfigAssetState t (mi_instance i)) (current_for t i) = Inr ()"
      by (rule batch_spec[OF ok assms(4)])
    from accepted_base[OF assms(2) this assms(3) m] matching_base[OF ok] show ?thesis by metis
  qed
  show "\<exists>c. getConfigAsset t' (mi_instance i) kind name = Inr (Some c) \<and> ca_status c = Asset_Active \<and>
      ca_config c = Some config \<and> ca_revision c = Suc (revision_in (getConfigAsset t (mi_instance i) kind name))"
    if "mi_mutations i = pre @ Upsert kind name config operation scope # post"
      "list_all (\<lambda>c. \<not> mentions c (kind, name)) (pre @ post)" for pre kind name config operation scope post
    using written_asset[OF ok assms(4) that] .
qed

theorem no_update_is_lost_witness:
  "\<exists>t' v c. applyConfigAssetMutations demo_edit 2 (demo_ids CHR ''b'') (demo_ids CHR ''s'') demo_tables = Inr (t', v) \<and>
    writer_has_seen (Some 1) (getConfigAsset demo_tables ''i'' ''agent'' ''h'') \<and>
    getConfigAsset t' ''i'' ''agent'' ''h'' = Inr (Some c) \<and> ca_revision c = 2"
proof -
  obtain t' v where r: "applyConfigAssetMutations demo_edit 2 (demo_ids CHR ''b'') (demo_ids CHR ''s'') demo_tables = Inr (t', v)"
    using demo_edited by (auto simp: is_ok_iff)
  have e: "mi_baseRevisions demo_edit = Some [key_text (''agent'', ''h'') \<mapsto> Some 1]" "mi_instance demo_edit = ''i''"
    "mi_mutations demo_edit = [] @ Upsert ''agent'' ''h'' (JObj [(''a'', JNull)]) None None # []"
    "list_all no_colon (mi_mutations demo_edit)"
    by (simp_all add: demo_edit_def demo_batch_def no_colon_def)
  have rev: "revision_in (getConfigAsset demo_tables ''i'' ''agent'' ''h'') = 1" by code_simp
  have "writer_has_seen (Some 1) (getConfigAsset demo_tables ''i'' ''agent'' ''h'')"
    using no_update_is_lost[THEN conjunct1, OF demo_reachable e(1,4) r] e(2,3) by simp
  moreover obtain c where "getConfigAsset t' ''i'' ''agent'' ''h'' = Inr (Some c)" "ca_revision c = 2"
    using no_update_is_lost[THEN conjunct2, OF demo_reachable e(1,4) r, rule_format, OF e(3)] rev e(2) by auto
  ultimately show ?thesis using r by blast
qed

text \<open>
  Nothing an instance's asset has ever contained is lost: whatever follows, the contents it has
  are a prefix of the contents it will have, through updates, deletions and a later creation under its
  name, and the asset stays the instance's own.
\<close>

lemma histories_only_grow:
  assumes "reachable config_start config_step t" and "config_step\<^sup>*\<^sup>* t t'"
    and "asset_map_of t (inst, kind, name) = Some v" and "vw_scope v = Of_Instance"
  shows "\<exists>v'. asset_map_of t' (inst, kind, name) = Some v' \<and> prefix (vw_history v) (vw_history v') \<and>
    vw_scope v' = Of_Instance"
  using grown_steps[OF assms(2) config_store.inv_reachable[OF assms(1)] assms(3,4)] assms(3,4)
  by (auto simp: grown_def split: option.splits)

theorem histories_only_grow_witness:
  "\<exists>t' v v'. config_step\<^sup>*\<^sup>* demo_tables t' \<and> asset_map_of demo_tables (''i'', ''agent'', ''h'') = Some v \<and>
    asset_map_of t' (''i'', ''agent'', ''h'') = Some v' \<and> prefix (vw_history v) (vw_history v')"
proof -
  obtain t' n where "applyConfigAssetMutations demo_edit 2 (demo_ids CHR ''b'') (demo_ids CHR ''s'') demo_tables = Inr (t', n)"
    using demo_edited by (auto simp: is_ok_iff)
  then have s: "config_step\<^sup>*\<^sup>* demo_tables t'" by (blast intro: batch_step)
  have "map_option vw_scope (asset_map_of demo_tables (''i'', ''agent'', ''h'')) = Some Of_Instance" by code_simp
  then obtain v where v: "asset_map_of demo_tables (''i'', ''agent'', ''h'') = Some v" "vw_scope v = Of_Instance"
    by auto
  from histories_only_grow[OF demo_reachable s v] s v(1) show ?thesis by blast
qed

end
