(* ===== verification/Config_Asset_Lists.thy ===== *)
theory Config_Asset_Lists imports Config_Asset_Promises begin

text \<open>
  The lists of config assets (\<open>packages/postgres-store/src/postgres-config-asset-operations.ts\<close>), with
  the patterns they select names by (\<open>like-pattern.ts\<close> there). A page is read in batches of keys until
  it is full, and shows of the keys only those its caller may read. Names are in the order of their
  bytes, and one list sees one state of the tables.
\<close>

section \<open>Patterns\<close>

text \<open>
  The match of a text with a \<open>like\<close> pattern: \<open>%\<close> stands for any text, \<open>_\<close> for one character, and a
  backslash takes the character after it as it is.
\<close>

fun like :: "string \<Rightarrow> string \<Rightarrow> bool" where
  "like [] s \<longleftrightarrow> s = []"
| "like (x # p) s \<longleftrightarrow>
     (if x = CHR 0x25 then like p s \<or> (case s of [] \<Rightarrow> False | c # s' \<Rightarrow> like (x # p) s')
      else (case s of
          [] \<Rightarrow> False
        | c # s' \<Rightarrow>
            if x = CHR 0x5C then (case p of [] \<Rightarrow> False | y # p' \<Rightarrow> c = y \<and> like p' s')
            else (x = CHR 0x5F \<or> x = c) \<and> like p s'))"

definition escape_char :: "char \<Rightarrow> string" where
  "escape_char c = (if c \<in> {CHR 0x5C, CHR 0x25, CHR 0x5F} then [CHR 0x5C, c] else [c])"

definition escapeLikePattern :: "string \<Rightarrow> string" where
  "escapeLikePattern s = concat (map escape_char s)"

definition replaceAll :: "char \<Rightarrow> string \<Rightarrow> string \<Rightarrow> string" where
  "replaceAll c new s = concat (map (\<lambda>x. if x = c then new else [x]) s)"

definition containsPattern :: "string \<Rightarrow> string" where
  "containsPattern s = CHR 0x25 #
     replaceAll (CHR 0x5F) [CHR 0x5C, CHR 0x5F] (replaceAll (CHR 0x25) [CHR 0x5C, CHR 0x25]
       (replaceAll (CHR 0x5C) [CHR 0x5C, CHR 0x5C] s)) @ [CHR 0x25]"

lemma containsPattern_escaped: "containsPattern s = CHR 0x25 # escapeLikePattern s @ [CHR 0x25]"
proof -
  have "replaceAll (CHR 0x5F) [CHR 0x5C, CHR 0x5F] (replaceAll (CHR 0x25) [CHR 0x5C, CHR 0x25]
       (replaceAll (CHR 0x5C) [CHR 0x5C, CHR 0x5C] s)) = escapeLikePattern s"
    by (induction s) (auto simp: replaceAll_def escapeLikePattern_def escape_char_def)
  then show ?thesis by (simp add: containsPattern_def)
qed

lemma like_escaped:
  "like (escapeLikePattern p @ q) s \<longleftrightarrow> (\<exists>u. s = p @ u \<and> like q u)"
proof (induction p arbitrary: s)
  case (Cons c p)
  show ?case
  proof (cases s)
    case Nil
    then show ?thesis by (simp add: escapeLikePattern_def escape_char_def)
  next
    case s: (Cons d r)
    have "like (escapeLikePattern (c # p) @ q) s \<longleftrightarrow> d = c \<and> like (escapeLikePattern p @ q) r"
      by (auto simp: escapeLikePattern_def escape_char_def s)
    then show ?thesis using Cons.IH s by auto
  qed
qed (simp add: escapeLikePattern_def)

lemma like_any: "like (CHR 0x25 # p) s \<longleftrightarrow> (\<exists>u v. s = u @ v \<and> like p v)"
proof (induction s)
  case (Cons c s)
  have "(\<exists>u v. c # s = u @ v \<and> like p v) \<longleftrightarrow> like p (c # s) \<or> (\<exists>u v. s = u @ v \<and> like p v)"
    by (auto simp: Cons_eq_append_conv)
  then show ?case using Cons.IH by simp
qed simp

declare like.simps(2) [simp del]

lemma like_rest: "like [CHR 0x25] s"
  unfolding like_any by simp

text \<open>A name is found by a prefix or by a part of it, whatever characters the caller asks for.\<close>

lemma like_prefix: "like (escapeLikePattern p @ [CHR 0x25]) s \<longleftrightarrow> prefix p s"
  by (simp add: like_escaped like_rest prefix_def)

lemma like_contains: "like (containsPattern p) s \<longleftrightarrow> sublist p s"
  by (auto simp: containsPattern_escaped like_any like_escaped like_rest sublist_def)

section \<open>The lists\<close>

definition listActiveConfigAssets ::
    "config_tables \<Rightarrow> string \<Rightarrow> string option \<Rightarrow> string option \<Rightarrow> (js_error, config_asset list) result" where
  "listActiveConfigAssets t inst kind namePrefix =
     map_result (\<lambda>(a, r). mapConfigAsset a r)
       (List.map_filter (\<lambda>a. map_option (\<lambda>r. (a, r)) (active_revision t a))
         (sort_key (\<lambda>a. (ar_kind a, ar_name a)) (filter (\<lambda>a. ar_instance a = inst \<and> ar_status a = Asset_Active \<and>
            (case kind of None \<Rightarrow> True | Some k \<Rightarrow> ar_kind a = k) \<and>
            (case namePrefix of None \<Rightarrow> True | Some p \<Rightarrow> like (escapeLikePattern p @ [CHR 0x25]) (ar_name a)))
          (ct_assets t))))"

definition listConfigAssetRevisions ::
    "config_tables \<Rightarrow> string \<Rightarrow> string \<Rightarrow> string \<Rightarrow> nat option \<Rightarrow> nat \<Rightarrow> config_revision list" where
  "listConfigAssetRevisions t inst kind name cursor limit =
     (case findConfigAssetRow t inst kind name of
        None \<Rightarrow> []
      | Some a \<Rightarrow> take limit (sort_key rev_revision (filter (\<lambda>r. rev_instance r = inst \<and> rev_assetId r = ar_id a \<and>
          (case cursor of None \<Rightarrow> True | Some n \<Rightarrow> n < rev_revision r)) (ct_revisions t))))"

record asset_list_input =
  li_instance :: string
  li_kind :: string
  li_scope :: asset_scope
  li_namePrefix :: "string option"
  li_nameContains :: "string option"
  li_afterName :: "string option"
  li_limit :: nat

record asset_list_key =
  lk_id :: string
  lk_kind :: string
  lk_name :: string
  lk_scope :: asset_scope

definition ASSET_LIST_SCAN_BATCH :: nat where
  "ASSET_LIST_SCAN_BATCH = 1000"

definition list_selected :: "asset_list_input \<Rightarrow> asset_row \<Rightarrow> bool" where
  "list_selected i a \<longleftrightarrow>
     ar_instance a = li_instance i \<and> ar_kind a = li_kind i \<and> ar_status a = Asset_Active \<and>
     (case li_scope i of
        Of_Workspace w \<Rightarrow> ar_scopeKind a = Owned_By_Workspace \<and> ar_scopeId a = Some w
      | Of_Instance \<Rightarrow> ar_scopeKind a = Owned_By_Instance) \<and>
     (case li_namePrefix i of None \<Rightarrow> True | Some p \<Rightarrow> like (escapeLikePattern p @ [CHR 0x25]) (ar_name a)) \<and>
     (case li_nameContains i of None \<Rightarrow> True | Some p \<Rightarrow> like (to_lower (containsPattern p)) (to_lower (ar_name a)))"

definition after_name :: "string option \<Rightarrow> asset_row \<Rightarrow> bool" where
  "after_name cursor a \<longleftrightarrow> (case cursor of None \<Rightarrow> True | Some n \<Rightarrow> n < ar_name a)"

definition scan_keys :: "nat \<Rightarrow> asset_row list \<Rightarrow> string option \<Rightarrow> asset_row list" where
  "scan_keys width rows cursor = take width (sort_key ar_name (filter (after_name cursor) rows))"

fun take_readable ::
    "(asset_list_key \<Rightarrow> bool) \<Rightarrow> nat \<Rightarrow> asset_row list \<Rightarrow> string list \<Rightarrow> (js_error, string list) result" where
  "take_readable readable limit [] ids = Inr ids"
| "take_readable readable limit (a # keys) ids =
     (if length ids < limit
      then bind_result (mapAssetScope a) (\<lambda>scope. take_readable readable limit keys
        (if readable \<lparr>lk_id = ar_id a, lk_kind = ar_kind a, lk_name = ar_name a, lk_scope = scope\<rparr>
         then ids @ [ar_id a] else ids))
      else take_readable readable limit keys ids)"

text \<open>
  The loop over batches. It goes on after the last name of a full batch, so each round leaves fewer
  names to read.
\<close>

function scan_loop ::
    "(asset_list_key \<Rightarrow> bool) \<Rightarrow> nat \<Rightarrow> nat \<Rightarrow> asset_row list \<Rightarrow> string option \<Rightarrow> string list \<Rightarrow>
     (js_error, string list) result" where
  "scan_loop readable limit width rows cursor ids =
     (if length ids < limit
      then
        (let keys = scan_keys width rows cursor in
         bind_result (take_readable readable limit keys ids) (\<lambda>ids.
         if length keys < width \<or> keys = [] then Inr ids
         else scan_loop readable limit width rows (Some (ar_name (last keys))) ids))
      else Inr ids)"
  by pat_completeness auto

lemma scan_keys_in: "a \<in> set (scan_keys width rows cursor) \<Longrightarrow> a \<in> set rows \<and> after_name cursor a"
  unfolding scan_keys_def by (auto dest: in_set_takeD)

lemma fewer_left:
  assumes "keys = scan_keys width rows cursor" and "keys \<noteq> []"
  shows "length (filter (after_name (Some (ar_name (last keys)))) rows) < length (filter (after_name cursor) rows)"
proof -
  have l: "last keys \<in> set rows" "after_name cursor (last keys)"
    using scan_keys_in[of "last keys" width rows cursor] assms by simp_all
  have "filter (after_name (Some (ar_name (last keys)))) rows =
      filter (after_name (Some (ar_name (last keys)))) (filter (after_name cursor) rows)"
    using l(2) by (auto simp: after_name_def intro!: filter_cong split: option.splits)
  moreover have "last keys \<in> set (filter (after_name cursor) rows)" using l by simp
  moreover have "\<not> after_name (Some (ar_name (last keys))) (last keys)" by (simp add: after_name_def)
  ultimately show ?thesis by (metis length_filter_less)
qed

termination scan_loop
  by (relation "measure (\<lambda>(readable, limit, width, rows, cursor, ids). length (filter (after_name cursor) rows))")
    (auto intro: fewer_left)

declare scan_loop.simps [simp del]

definition listConfigAssetPage ::
    "config_tables \<Rightarrow> asset_list_input \<Rightarrow> (asset_list_key \<Rightarrow> bool) \<Rightarrow> (js_error, config_asset list) result" where
  "listConfigAssetPage t i readable =
     bind_result (scan_loop readable (li_limit i) ASSET_LIST_SCAN_BATCH (filter (list_selected i) (ct_assets t))
       (li_afterName i) []) (\<lambda>ids.
     map_result (\<lambda>(a, r). mapConfigAsset a r)
       (List.map_filter (\<lambda>i. case List.find (\<lambda>a. ar_id a = i \<and> ar_status a = Asset_Active) (ct_assets t) of
            None \<Rightarrow> None
          | Some a \<Rightarrow> map_option (\<lambda>r. (a, r)) (active_revision t a)) ids))"

section \<open>What a page shows\<close>

definition key_of :: "asset_row \<Rightarrow> asset_list_key" where
  "key_of a = \<lparr>lk_id = ar_id a, lk_kind = ar_kind a, lk_name = ar_name a, lk_scope = scope_view a\<rparr>"

lemma take_readable_all:
  assumes "\<And>a. a \<in> set keys \<Longrightarrow> mapAssetScope a = Inr (scope_view a)" and "length ids \<le> limit"
  shows "take_readable readable limit keys ids =
    Inr (take limit (ids @ map ar_id (filter (\<lambda>a. readable (key_of a)) keys)))"
  using assms
proof (induction keys arbitrary: ids)
  case (Cons a keys)
  have s: "mapAssetScope a = Inr (scope_view a)" using Cons.prems(1) by simp
  show ?case
  proof (cases "length ids < limit")
    case True
    then show ?thesis using Cons.IH[of ids] Cons.IH[of "ids @ [ar_id a]"] Cons.prems(1)
      by (simp add: s key_of_def)
  next
    case False
    then have "length ids = limit" using Cons.prems(2) by simp
    then show ?thesis using False Cons.IH[of ids] Cons.prems(1) by simp
  qed
qed simp

lemma take_take_append: "take n (take n xs @ ys) = take n (xs @ ys)"
  by (cases "n \<le> length xs") simp_all

lemma after_sorted:
  assumes "sorted_wrt (\<lambda>a b. ar_name a < ar_name b) xs" and "0 < n" and "n \<le> length xs"
  shows "filter (after_name (Some (ar_name (last (take n xs))))) xs = drop n xs"
proof -
  define u x v where "u = take (n - 1) xs" and "x = xs ! (n - 1)" and "v = drop n xs"
  have split: "xs = u @ x # v"
    using assms(2,3) id_take_nth_drop[of "n - 1" xs] by (simp add: u_def x_def v_def)
  have t: "take n xs = u @ [x]"
    using assms(2,3) take_Suc_conv_app_nth[of "n - 1" xs] by (simp add: u_def x_def)
  have order: "\<forall>a \<in> set u. ar_name a < ar_name x" "\<forall>a \<in> set v. ar_name x < ar_name a"
    using assms(1)[unfolded split] by (simp_all add: sorted_wrt_append)
  have "filter (after_name (Some (ar_name x))) u = []"
    using order(1) by (auto simp: filter_empty_conv after_name_def dest: less_imp_not_less)
  moreover have "filter (after_name (Some (ar_name x))) v = v"
    using order(2) by (auto simp: filter_id_conv after_name_def)
  ultimately have "filter (after_name (Some (ar_name x))) (u @ x # v) = v" by (simp add: after_name_def)
  then have "filter (after_name (Some (ar_name x))) xs = v" by (simp only: split[symmetric])
  moreover have "last (take n xs) = x" by (simp add: t)
  ultimately show ?thesis by (simp only: v_def)
qed

lemma strictly_sorted:
  assumes "distinct (map ar_name rows)"
  shows "sorted_wrt (\<lambda>a b. ar_name a < ar_name b) (sort_key ar_name rows)"
proof -
  have "distinct (map ar_name (sort_key ar_name rows))"
    using assms by (metis distinct_map distinct_sort set_sort)
  moreover have "sorted (map ar_name (sort_key ar_name rows))" by simp
  ultimately have "sorted_wrt (<) (map ar_name (sort_key ar_name rows))" by (simp add: strict_sorted_iff)
  then show ?thesis by (simp add: sorted_wrt_map)
qed

lemma rest_after:
  assumes d: "distinct (map ar_name rows)" and k: "keys = scan_keys width rows cursor" "keys \<noteq> []"
    "\<not> length keys < width"
  shows "sort_key ar_name (filter (after_name (Some (ar_name (last keys)))) rows) =
    drop width (sort_key ar_name (filter (after_name cursor) rows))"
proof -
  let ?s = "sort_key ar_name (filter (after_name cursor) rows)"
  have w: "0 < width" "width \<le> length ?s" using k by (auto simp: scan_keys_def)
  have keys: "keys = take width ?s" using k(1) by (simp add: scan_keys_def)
  have "after_name cursor (last keys)" using scan_keys_in[of "last keys" width rows cursor] k by simp
  then have "filter (after_name (Some (ar_name (last keys)))) rows =
      filter (after_name (Some (ar_name (last keys)))) (filter (after_name cursor) rows)"
    by (auto simp: after_name_def intro!: filter_cong split: option.splits)
  then have "sort_key ar_name (filter (after_name (Some (ar_name (last keys)))) rows) =
      filter (after_name (Some (ar_name (last keys)))) ?s"
    by (simp add: filter_sort)
  moreover have "distinct (map ar_name (filter (after_name cursor) rows))" using d by (simp add: distinct_map_filter)
  ultimately show ?thesis using after_sorted[OF strictly_sorted w] keys by simp
qed

lemma scan_loop_all:
  assumes "distinct (map ar_name rows)" and "0 < width"
    and "\<And>a. a \<in> set rows \<Longrightarrow> mapAssetScope a = Inr (scope_view a)" and "length ids \<le> limit"
  shows "scan_loop readable limit width rows cursor ids = Inr (take limit (ids @ map ar_id
    (filter (\<lambda>a. readable (key_of a)) (sort_key ar_name (filter (after_name cursor) rows)))))"
  using assms
proof (induction readable limit width rows cursor ids rule: scan_loop.induct)
  case (1 readable limit width rows cursor ids)
  let ?s = "sort_key ar_name (filter (after_name cursor) rows)"
  define keys where "keys = scan_keys width rows cursor"
  define more where "more = map ar_id (filter (\<lambda>a. readable (key_of a)) keys)"
  show ?case
  proof (cases "length ids < limit")
    case False
    then have "length ids = limit" using "1.prems"(4) by simp
    then show ?thesis by (simp add: scan_loop.simps[of readable limit])
  next
    case True
    have t: "take_readable readable limit keys ids = Inr (take limit (ids @ more))"
      using take_readable_all[of keys ids limit readable] scan_keys_in[of _ width rows cursor] "1.prems"(3,4)
      by (simp add: keys_def more_def)
    have keys: "keys = take width ?s" by (simp add: keys_def scan_keys_def)
    show ?thesis
    proof (cases "length keys < width \<or> keys = []")
      case stop: True
      have "keys = ?s"
      proof (cases "?s = []")
        case empty: True
        show ?thesis unfolding keys empty by simp
      next
        case False
        then have "length keys < width" using stop keys "1.prems"(2) by auto
        then show ?thesis unfolding keys by (cases "length ?s < width") simp_all
      qed
      then show ?thesis using True t stop
        by (simp add: scan_loop.simps[of readable limit] keys_def[symmetric] Let_def more_def)
    next
      case False
      have r: "sort_key ar_name (filter (after_name (Some (ar_name (last keys)))) rows) = drop width ?s"
        using rest_after[OF "1.prems"(1) keys_def] False by simp
      have "scan_loop readable limit width rows (Some (ar_name (last keys))) (take limit (ids @ more)) =
          Inr (take limit (take limit (ids @ more) @ map ar_id (filter (\<lambda>a. readable (key_of a)) (drop width ?s))))"
        using "1.IH"[OF True keys_def, of "take limit (ids @ more)"] False "1.prems"(1-3) r by simp
      moreover have "map ar_id (filter (\<lambda>a. readable (key_of a)) ?s) =
          more @ map ar_id (filter (\<lambda>a. readable (key_of a)) (drop width ?s))"
        unfolding more_def keys map_append[symmetric] filter_append[symmetric] by simp
      moreover have "scan_loop readable limit width rows cursor ids =
          scan_loop readable limit width rows (Some (ar_name (last keys))) (take limit (ids @ more))"
        by (subst scan_loop.simps) (use True False t in \<open>simp only: keys_def[symmetric] Let_def bind_result.simps if_True if_False\<close>)
      ultimately show ?thesis by (simp only: take_take_append append_assoc)
    qed
  qed
qed

lemma of_lower_char: "(of_char (lower_char c) :: nat) =
    (let n = of_char c in if 65 \<le> n \<and> n \<le> 90 \<or> 192 \<le> n \<and> n \<le> 222 \<and> n \<noteq> 215 then n + 32 else n)"
  by (simp add: lower_char_def Let_def of_char_of)

lemma escape_lower: "escape_char (lower_char c) = map lower_char (escape_char c)"
proof -
  have same: "lower_char c = d \<longleftrightarrow> c = d" if "d \<in> {CHR 0x5C, CHR 0x25, CHR 0x5F}" for d
  proof -
    have "(of_char (lower_char c) :: nat) = of_char d \<longleftrightarrow> (of_char c :: nat) = of_char d"
      using that unfolding of_lower_char Let_def by auto
    then show ?thesis by simp
  qed
  have keep: "lower_char (CHR 0x5C) = CHR 0x5C" by (simp add: lower_char_def)
  show ?thesis using same[of "CHR 0x5C"] same[of "CHR 0x25"] same[of "CHR 0x5F"]
    by (auto simp: escape_char_def keep)
qed

lemma contains_lower: "to_lower (containsPattern p) = containsPattern (to_lower p)"
proof -
  have "lower_char (CHR 0x25) = CHR 0x25" by (simp add: lower_char_def)
  moreover have "map lower_char (escapeLikePattern p) = escapeLikePattern (map lower_char p)"
    by (induction p) (simp_all add: escapeLikePattern_def escape_lower)
  ultimately show ?thesis by (simp add: containsPattern_escaped to_lower_def)
qed

text \<open>
  The reference for a page: of the active assets of the kind and owner whose name the caller asks for,
  in the order of their names, the first ones after the cursor that the caller may read.
\<close>

definition listed_asset :: "asset_list_input \<Rightarrow> asset_row \<Rightarrow> bool" where
  "listed_asset i a \<longleftrightarrow>
     ar_instance a = li_instance i \<and> ar_kind a = li_kind i \<and> ar_status a = Asset_Active \<and>
     scope_view a = li_scope i \<and>
     (case li_namePrefix i of None \<Rightarrow> True | Some p \<Rightarrow> prefix p (ar_name a)) \<and>
     (case li_nameContains i of None \<Rightarrow> True | Some p \<Rightarrow> sublist (to_lower p) (to_lower (ar_name a)))"

definition assets_page :: "config_tables \<Rightarrow> asset_list_input \<Rightarrow> (asset_list_key \<Rightarrow> bool) \<Rightarrow> asset_row list" where
  "assets_page t i readable = take (li_limit i) (filter (\<lambda>a. readable (key_of a))
     (sort_key ar_name (filter (after_name (li_afterName i)) (filter (listed_asset i) (ct_assets t)))))"

lemma selected_listed:
  assumes "scope_ok t a"
  shows "list_selected i a \<longleftrightarrow> listed_asset i a"
  using assms by (cases "ar_scopeId a"; cases "li_scope i"; cases "ar_scopeKind a")
    (auto simp: list_selected_def listed_asset_def scope_ok_def scope_view_def like_prefix contains_lower
      like_contains split: option.splits)

lemma distinct_names:
  assumes "distinct (map asset_key rows)" and "\<And>a. p a \<Longrightarrow> ar_instance a = inst \<and> ar_kind a = kind"
  shows "distinct (map ar_name (filter p rows))"
  using assms(1)
proof (induction rows)
  case (Cons a rows)
  have "ar_name a \<noteq> ar_name b" if "p a" "p b" "b \<in> set rows" for b
  proof
    assume "ar_name a = ar_name b"
    then have "asset_key b = asset_key a" using assms(2) that by (simp add: asset_key_def)
    then show False using Cons.prems that(3) by (auto simp: image_iff)
  qed
  then show ?case using Cons by auto
qed simp

lemma find_the_one:
  assumes "a \<in> set xs" and "p a" and "\<And>b. b \<in> set xs \<Longrightarrow> p b \<Longrightarrow> b = a"
  shows "List.find p xs = Some a"
proof (cases "List.find p xs")
  case None
  then show ?thesis using assms(1,2) by (simp add: find_none)
next
  case (Some b)
  then show ?thesis using assms(3) find_Some_iff by metis
qed

lemma map_filter_of: "(\<And>x. x \<in> set xs \<Longrightarrow> f (h x) = Some (g x)) \<Longrightarrow> List.map_filter f (map h xs) = map g xs"
  by (induction xs) (simp_all add: List.map_filter_simps)

lemma map_result_all:
  "(\<And>x. x \<in> set xs \<Longrightarrow> f (h x) = Inr (g x)) \<Longrightarrow> map_result f (map h xs) = Inr (map g xs)"
  by (induction xs) simp_all

text \<open>
  C31. A page of assets is what the reference says, whatever the batches it is read in: it holds the
  first assets after the cursor, in the order of their names, that the caller asks for and may read,
  each as it is read alone, and no reading of a page fails or goes on for ever.
\<close>

theorem pages_show_what_may_be_read:
  assumes "reachable config_start config_step t"
  shows "\<exists>cs. listConfigAssetPage t i readable = Inr cs \<and>
    map (\<lambda>c. Inr (Some c)) cs =
      map (\<lambda>a. getConfigAsset t (li_instance i) (li_kind i) (ar_name a)) (assets_page t i readable)"
proof -
  have ok: "config_ok t" using assms by (rule config_store.inv_reachable)
  note p = config_parts[OF ok]
  have scope: "scope_ok t a" if "a \<in> set (ct_assets t)" for a using that p(2) by (simp add: rows_ok_def)
  let ?rows = "filter (list_selected i) (ct_assets t)"
  have rows: "?rows = filter (listed_asset i) (ct_assets t)"
    using scope selected_listed by (intro filter_cong) blast+
  have d: "distinct (map ar_name ?rows)"
    by (rule distinct_names[OF p(4), where inst = "li_instance i" and kind = "li_kind i"]) (simp add: list_selected_def)
  have owners: "mapAssetScope a = Inr (scope_view a)" if "a \<in> set ?rows" for a
    using that by (intro scope_of_row[of t] scope) simp
  have ids: "scan_loop readable (li_limit i) ASSET_LIST_SCAN_BATCH ?rows (li_afterName i) [] =
      Inr (map ar_id (assets_page t i readable))"
    using scan_loop_all[OF d _ owners, of ASSET_LIST_SCAN_BATCH "[]" "li_limit i" readable "li_afterName i"]
    by (simp add: ASSET_LIST_SCAN_BATCH_def assets_page_def rows[symmetric] take_map)
  have page: "a \<in> set (ct_assets t) \<and> ar_status a = Asset_Active \<and> asset_key a = (li_instance i, li_kind i, ar_name a)"
    if "a \<in> set (assets_page t i readable)" for a
    using that unfolding assets_page_def by (auto dest!: in_set_takeD simp: listed_asset_def asset_key_def)
  have one: "List.find (\<lambda>x. ar_id x = ar_id a \<and> ar_status x = Asset_Active) (ct_assets t) = Some a \<and>
      active_revision t a = Some (last (history t (ar_id a))) \<and>
      findConfigAssetRow t (li_instance i) (li_kind i) (ar_name a) = Some a"
    if "a \<in> set (assets_page t i readable)" for a
  proof -
    note a = page[OF that]
    have "List.find (\<lambda>x. ar_id x = ar_id a \<and> ar_status x = Asset_Active) (ct_assets t) = Some a"
      by (rule find_the_one) (use a same_asset[OF p(2)] in blast)+
    moreover have "findConfigAssetRow t (li_instance i) (li_kind i) (ar_name a) = Some a" using a by (simp add: find_row[OF p(4)])
    ultimately show ?thesis using a active_revision[OF p(2)] by blast
  qed
  have "\<forall>a \<in> set (assets_page t i readable). \<exists>c. mapConfigAsset a (last (history t (ar_id a))) = Inr c"
  proof
    fix a assume "a \<in> set (assets_page t i readable)"
    then have a: "a \<in> set (ct_assets t)" using page by blast
    then show "\<exists>c. mapConfigAsset a (last (history t (ar_id a))) = Inr c"
      using history_facts(3)[OF p(2) a] scope_of_row[OF scope[OF a]] by (simp add: mapConfigAsset_def)
  qed
  then obtain g where g: "\<And>a. a \<in> set (assets_page t i readable) \<Longrightarrow>
      mapConfigAsset a (last (history t (ar_id a))) = Inr (g a)"
    using bchoice by metis
  have "List.map_filter (\<lambda>i. case List.find (\<lambda>a. ar_id a = i \<and> ar_status a = Asset_Active) (ct_assets t) of
        None \<Rightarrow> None | Some a \<Rightarrow> map_option (\<lambda>r. (a, r)) (active_revision t a)) (map ar_id (assets_page t i readable)) =
      map (\<lambda>a. (a, last (history t (ar_id a)))) (assets_page t i readable)"
    using one by (intro map_filter_of) simp
  moreover have "map_result (\<lambda>(a, r). mapConfigAsset a r)
      (map (\<lambda>a. (a, last (history t (ar_id a)))) (assets_page t i readable)) = Inr (map g (assets_page t i readable))"
    using g by (intro map_result_all) simp
  ultimately have "listConfigAssetPage t i readable = Inr (map g (assets_page t i readable))"
    by (simp add: listConfigAssetPage_def ids)
  moreover have "getConfigAsset t (li_instance i) (li_kind i) (ar_name a) = Inr (Some (g a))"
    if "a \<in> set (assets_page t i readable)" for a
    using joined_asset[OF ok] one[OF that] g[OF that] by (simp add: getConfigAsset_def)
  ultimately show ?thesis by (auto intro!: exI[of _ "map g (assets_page t i readable)"])
qed

definition demo_list :: asset_list_input where
  "demo_list = \<lparr>li_instance = ''i'', li_kind = ''agent'', li_scope = Of_Instance, li_namePrefix = None,
     li_nameContains = None, li_afterName = None, li_limit = 1\<rparr>"

theorem pages_show_what_may_be_read_witness:
  "\<exists>cs. listConfigAssetPage demo_tables demo_list (\<lambda>k. True) = Inr cs \<and> length cs = 1"
proof -
  have "length (assets_page demo_tables demo_list (\<lambda>k. True)) = 1" by code_simp
  moreover obtain cs where "listConfigAssetPage demo_tables demo_list (\<lambda>k. True) = Inr cs"
    and "map (\<lambda>c. Inr (Some c)) cs = map (\<lambda>a. getConfigAsset demo_tables (li_instance demo_list) (li_kind demo_list)
      (ar_name a)) (assets_page demo_tables demo_list (\<lambda>k. True))"
    using pages_show_what_may_be_read[OF demo_reachable] by blast
  ultimately show ?thesis by (metis length_map)
qed

end
