(* ===== verification/Approval_Requests.thy ===== *)
theory Approval_Requests imports Permissions Json_Text "HOL-Library.List_Lexorder" "HOL-Library.Char_ord" begin

text \<open>
  Approval requests: proposals that a person with the right to decide them applies or refuses. The
  types are of \<open>packages/core/src/approval-requests.ts\<close>, the table of
  \<open>packages/postgres-store/src/schema/approvals.ts\<close> with its statements in
  \<open>postgres-approval-request-operations.ts\<close>, and the message a decision leaves in the conversation
  it came from of \<open>packages/core/src/message-metadata.ts\<close>. A date is its millisecond.

  What a kind of request changes is behind its handler, which works on a world of its own; the
  transaction of a transition cannot roll that world back.
\<close>

section \<open>Requests\<close>

datatype approval_status =
  Pending | Approved | Rejected | Changes_Requested | Superseded | Withdrawn | Reverted

fun status_text :: "approval_status \<Rightarrow> string" where
  "status_text Pending = ''pending''"
| "status_text Approved = ''approved''"
| "status_text Rejected = ''rejected''"
| "status_text Changes_Requested = ''changes_requested''"
| "status_text Superseded = ''superseded''"
| "status_text Withdrawn = ''withdrawn''"
| "status_text Reverted = ''reverted''"

datatype check_status = Check_Passed | Check_Warned | Check_Blocked

record check_result =
  chk_id :: string
  chk_status :: check_status
  chk_message :: string

record requester =
  rq_id :: string
  rq_label :: string

record request_origin =
  ro_conversationId :: string
  ro_agentRunId :: string
  ro_toolCallId :: string
  ro_agentName :: string

record approval_decision =
  ad_approved :: bool
  ad_by :: string
  ad_label :: string
  ad_at :: int
  ad_comment :: "string option"

record reversion =
  rv_by :: string
  rv_label :: string
  rv_at :: int

record approval_request =
  ap_id :: string
  ap_instance :: string
  ap_kind :: string
  ap_summary :: string
  ap_payload :: json
  ap_requestedBy :: requester
  ap_origin :: "request_origin option"
  ap_status :: approval_status
  ap_decision :: "approval_decision option"
  ap_reversion :: "reversion option"
  ap_checks :: "check_result list"
  ap_applyResult :: "json option"
  ap_createdAt :: int
  ap_updatedAt :: int

text \<open>In the table the reversion is kept inside the decision.\<close>

record approval_row =
  aw_id :: string
  aw_instance :: string
  aw_kind :: string
  aw_summary :: string
  aw_payload :: json
  aw_requestedBy :: requester
  aw_origin :: "request_origin option"
  aw_status :: approval_status
  aw_decision :: "(approval_decision \<times> reversion option) option"
  aw_checks :: "check_result list"
  aw_applyResult :: "json option"
  aw_createdAt :: int
  aw_updatedAt :: int

definition mapApprovalRequest :: "approval_row \<Rightarrow> approval_request" where
  "mapApprovalRequest r =
     \<lparr>ap_id = aw_id r, ap_instance = aw_instance r, ap_kind = aw_kind r, ap_summary = aw_summary r,
      ap_payload = aw_payload r, ap_requestedBy = aw_requestedBy r, ap_origin = aw_origin r,
      ap_status = aw_status r, ap_decision = map_option fst (aw_decision r),
      ap_reversion = (case aw_decision r of None \<Rightarrow> None | Some d \<Rightarrow> snd d),
      ap_checks = aw_checks r, ap_applyResult = aw_applyResult r,
      ap_createdAt = aw_createdAt r, ap_updatedAt = aw_updatedAt r\<rparr>"

record approval_outcome =
  ao_status :: approval_status
  ao_decision :: "approval_decision option"
  ao_applyResult :: "json option"
  ao_reversion :: "reversion option"

section \<open>The message of a decision\<close>

record decision_event =
  de_requestId :: string
  de_requestKind :: string
  de_status :: approval_status
  de_by :: string
  de_label :: string
  de_at :: int
  de_summary :: string
  de_comment :: "string option"
  de_requestedBy :: "string option"

record decision_message =
  dm_id :: string
  dm_instance :: string
  dm_conversationId :: string
  dm_text :: string
  dm_event :: decision_event
  dm_createdAt :: int

datatype revision_owner = Requester_Revises | Reviewer_Revises

definition approvalRevisionOwner :: "decision_event \<Rightarrow> revision_owner option" where
  "approvalRevisionOwner e =
     (if de_status e \<noteq> Changes_Requested then None
      else if de_requestedBy e \<noteq> None \<and> de_requestedBy e \<noteq> Some (de_by e) then Some Reviewer_Revises
      else Some Requester_Revises)"

definition approvalDecisionNote :: "(int \<Rightarrow> string) \<Rightarrow> decision_event \<Rightarrow> string" where
  "approvalDecisionNote shown e =
     (let outcome =
        (if de_status e = Approved then '' The change is now active.''
         else if approvalRevisionOwner e = Some Reviewer_Revises
         then '' The reviewer has taken over the revision and submits the revised proposal themselves. Do NOT submit a revised proposal in this conversation unless the user explicitly asks for one.''
         else if approvalRevisionOwner e = Some Requester_Revises
         then '' When the user continues, submit a revised proposal addressing the requested changes.''
         else if de_status e = Reverted then '' The approved change has been reverted.'' else [])
      in ''Approval request '' @ de_requestId e @ '' ('' @ de_requestKind e @ '': '' @ json_quote (de_summary e) @
         '') was '' @ status_text (de_status e) @ '' by '' @ json_quote (de_label e) @ '' at '' @ shown (de_at e) @ ''.'' @
         outcome @
         (case de_comment e of None \<Rightarrow> [] | Some c \<Rightarrow> if c = [] then [] else '' Comment: '' @ json_quote c))"

definition decision_event_of :: "approval_request \<Rightarrow> decision_event" where
  "decision_event_of r =
     (let reversion = (if ap_status r = Reverted then ap_reversion r else None) in
      \<lparr>de_requestId = ap_id r, de_requestKind = ap_kind r, de_status = ap_status r,
       de_by = (case reversion of Some v \<Rightarrow> rv_by v
         | None \<Rightarrow> (case ap_decision r of Some d \<Rightarrow> ad_by d | None \<Rightarrow> rq_id (ap_requestedBy r))),
       de_label = (case reversion of Some v \<Rightarrow> rv_label v
         | None \<Rightarrow> (case ap_decision r of Some d \<Rightarrow> ad_label d | None \<Rightarrow> rq_label (ap_requestedBy r))),
       de_at = (case reversion of Some v \<Rightarrow> rv_at v
         | None \<Rightarrow> (case ap_decision r of Some d \<Rightarrow> ad_at d | None \<Rightarrow> ap_updatedAt r)),
       de_summary = ap_summary r,
       de_comment = (if ap_status r = Reverted then None
         else case ap_decision r of None \<Rightarrow> None
           | Some d \<Rightarrow> (case ad_comment d of None \<Rightarrow> None | Some c \<Rightarrow> if c = [] then None else Some c)),
       de_requestedBy = Some (rq_id (ap_requestedBy r))\<rparr>)"

definition createApprovalDecisionMessage ::
    "(int \<Rightarrow> string) \<Rightarrow> int \<Rightarrow> approval_request \<Rightarrow> decision_message option" where
  "createApprovalDecisionMessage shown now r =
     (case ap_origin r of
        None \<Rightarrow> None
      | Some origin \<Rightarrow>
          if ap_status r = Pending then None
          else Some \<lparr>dm_id = ''msg_'' @ ap_id r @ ''_'' @ status_text (ap_status r), dm_instance = ap_instance r,
            dm_conversationId = ro_conversationId origin,
            dm_text = approvalDecisionNote shown (decision_event_of r), dm_event = decision_event_of r,
            dm_createdAt = now\<rparr>)"

section \<open>The store\<close>

record conversation_row =
  cv_id :: string
  cv_instance :: string
  cv_active :: bool
  cv_updatedAt :: int

text \<open>The tables a request touches, with the world its handler works on.\<close>

record 'w approval_store =
  as_requests :: "approval_row list"
  as_conversations :: "conversation_row list"
  as_messages :: "decision_message list"
  as_world :: 'w

definition appendApprovalDecision ::
    "(int \<Rightarrow> string) \<Rightarrow> int \<Rightarrow> approval_request \<Rightarrow> 'w approval_store \<Rightarrow> 'w approval_store" where
  "appendApprovalDecision shown now r s =
     (case createApprovalDecisionMessage shown now r of
        None \<Rightarrow> s
      | Some m \<Rightarrow>
          let identity = (\<lambda>c. cv_instance c = dm_instance m \<and> cv_id c = dm_conversationId m \<and> cv_active c) in
          if \<not> list_ex identity (as_conversations s) then s
          else if list_ex (\<lambda>x. dm_id x = dm_id m) (as_messages s) then s
          else s\<lparr>as_messages := as_messages s @ [m],
            as_conversations := update_where identity (\<lambda>c. c\<lparr>cv_updatedAt := now\<rparr>) (as_conversations s)\<rparr>)"

record new_request =
  nr_instance :: string
  nr_kind :: string
  nr_summary :: string
  nr_payload :: json
  nr_requestedBy :: requester
  nr_origin :: "request_origin option"
  nr_checks :: "check_result list"

text \<open>
  A request that an agent run makes is created only while the run holds its lease: \<open>fence\<close> is what
  that check answers, when there is one.
\<close>

definition createApprovalRequest ::
    "new_request \<Rightarrow> (js_error, unit) result option \<Rightarrow> string \<Rightarrow> int \<Rightarrow> 'w approval_store \<Rightarrow>
     (js_error, 'w approval_store \<times> approval_request) result" where
  "createApprovalRequest n fence newId now s =
     bind_result (case fence of None \<Rightarrow> Inr () | Some answer \<Rightarrow> answer) (\<lambda>_.
       let row = \<lparr>aw_id = newId, aw_instance = nr_instance n, aw_kind = nr_kind n, aw_summary = nr_summary n,
         aw_payload = nr_payload n, aw_requestedBy = nr_requestedBy n, aw_origin = nr_origin n,
         aw_status = Pending, aw_decision = None, aw_checks = nr_checks n, aw_applyResult = None,
         aw_createdAt = now, aw_updatedAt = now\<rparr> in
       if list_ex (\<lambda>r. aw_id r = newId) (as_requests s)
       then Inl (Foreign_Error ''a key of the schema is violated'')
       else Inr (s\<lparr>as_requests := as_requests s @ [row]\<rparr>, mapApprovalRequest row))"

definition find_request :: "string \<Rightarrow> string \<Rightarrow> approval_row list \<Rightarrow> approval_row option" where
  "find_request inst rid rows = List.find (\<lambda>r. aw_instance r = inst \<and> aw_id r = rid) rows"

definition getApprovalRequest :: "'w approval_store \<Rightarrow> string \<Rightarrow> string \<Rightarrow> approval_request option" where
  "getApprovalRequest s inst rid = map_option mapApprovalRequest (find_request inst rid (as_requests s))"

record request_filter =
  rf_kinds :: "string list"
  rf_status :: "approval_status option"
  rf_excludeStatus :: "approval_status option"
  rf_requestedById :: "string option"
  rf_updatedSince :: "int option"
  rf_conversationId :: "string option"
  rf_after :: "(int \<times> string) option"
  rf_limit :: "nat option"

definition asked_for :: "'a option \<Rightarrow> ('a \<Rightarrow> bool) \<Rightarrow> bool" where
  "asked_for x p = (case x of None \<Rightarrow> True | Some v \<Rightarrow> p v)"

definition request_order :: "approval_row \<Rightarrow> int \<times> string" where
  "request_order r = (aw_createdAt r, aw_id r)"

definition request_selected :: "string \<Rightarrow> request_filter \<Rightarrow> approval_row \<Rightarrow> bool" where
  "request_selected inst f r \<longleftrightarrow>
     aw_instance r = inst \<and> aw_kind r \<in> set (rf_kinds f) \<and>
     asked_for (rf_after f) (\<lambda>c. aw_createdAt r < fst c \<or> aw_createdAt r = fst c \<and> aw_id r < snd c) \<and>
     asked_for (rf_status f) (\<lambda>st. aw_status r = st) \<and>
     asked_for (rf_excludeStatus f) (\<lambda>st. aw_status r \<noteq> st) \<and>
     asked_for (rf_requestedById f) (\<lambda>u. rq_id (aw_requestedBy r) = u) \<and>
     asked_for (rf_updatedSince f) (\<lambda>t. t \<le> aw_updatedAt r) \<and>
     asked_for (rf_conversationId f) (\<lambda>c. map_option ro_conversationId (aw_origin r) = Some c)"

definition listApprovalRequests :: "'w approval_store \<Rightarrow> string \<Rightarrow> request_filter \<Rightarrow> approval_request list" where
  "listApprovalRequests s inst f =
     (if rf_kinds f = [] then []
      else
        (let rows = rev (sort_key request_order (filter (request_selected inst f) (as_requests s))) in
         map mapApprovalRequest (case rf_limit f of None \<Rightarrow> rows | Some n \<Rightarrow> take n rows)))"

definition countPendingApprovalRequests :: "'w approval_store \<Rightarrow> string \<Rightarrow> string list \<Rightarrow> nat" where
  "countPendingApprovalRequests s inst kinds =
     (if kinds = [] then 0
      else count_where (\<lambda>r. aw_instance r = inst \<and> aw_kind r \<in> set kinds \<and> aw_status r = Pending) (as_requests s))"

definition countOwnApprovalRequests :: "'w approval_store \<Rightarrow> string \<Rightarrow> string list \<Rightarrow> string \<Rightarrow> nat \<times> nat" where
  "countOwnApprovalRequests s inst kinds user =
     (if kinds = [] then (0, 0)
      else
        (let own = (\<lambda>r. aw_instance r = inst \<and> rq_id (aw_requestedBy r) = user \<and> aw_kind r \<in> set kinds) in
         (count_where (\<lambda>r. own r \<and> aw_status r = Pending) (as_requests s), count_where own (as_requests s))))"

text \<open>
  A transition locks its row, hands the request to \<open>resolve\<close> and records the outcome with its
  message. When \<open>resolve\<close> fails the tables stay, and the world keeps what it did.
\<close>

definition store_outcome :: "approval_outcome \<Rightarrow> int \<Rightarrow> approval_row \<Rightarrow> approval_row" where
  "store_outcome outcome now r = r\<lparr>aw_status := ao_status outcome,
     aw_decision := map_option (\<lambda>d. (d, ao_reversion outcome)) (ao_decision outcome),
     aw_applyResult := ao_applyResult outcome, aw_updatedAt := now\<rparr>"

definition expected_conflict :: "approval_status \<Rightarrow> js_error" where
  "expected_conflict expected = app_error CONFLICT (''Approval request is no longer '' @ status_text expected)"

definition transition ::
    "(int \<Rightarrow> string) \<Rightarrow> int \<Rightarrow> string \<Rightarrow> string \<Rightarrow> approval_status \<Rightarrow>
     (approval_request \<Rightarrow> 'w \<Rightarrow> (js_error, approval_outcome) result \<times> 'w) \<Rightarrow> 'w approval_store \<Rightarrow>
     (js_error, approval_request) result \<times> 'w approval_store" where
  "transition shown now inst rid expected resolve s =
     (case find_request inst rid (as_requests s) of
        None \<Rightarrow> (Inl (app_error NOT_FOUND ''Approval request was not found''), s)
      | Some row \<Rightarrow>
          if aw_status row \<noteq> expected then (Inl (expected_conflict expected), s)
          else
            (case resolve (mapApprovalRequest row) (as_world s) of
               (Inl e, w) \<Rightarrow> (Inl e, s\<lparr>as_world := w\<rparr>)
             | (Inr outcome, w) \<Rightarrow>
                 let request = mapApprovalRequest (store_outcome outcome now row) in
                 (Inr request,
                  appendApprovalDecision shown now request (s\<lparr>as_world := w,
                    as_requests := update_where (\<lambda>r. aw_instance r = inst \<and> aw_id r = rid \<and> aw_status r = expected)
                      (store_outcome outcome now) (as_requests s)\<rparr>))))"

definition transitionPendingApprovalRequest ::
    "(int \<Rightarrow> string) \<Rightarrow> int \<Rightarrow> string \<Rightarrow> string \<Rightarrow>
     (approval_request \<Rightarrow> 'w \<Rightarrow> (js_error, approval_outcome) result \<times> 'w) \<Rightarrow> 'w approval_store \<Rightarrow>
     (js_error, approval_request) result \<times> 'w approval_store" where
  "transitionPendingApprovalRequest shown now inst rid resolve = transition shown now inst rid Pending resolve"

definition transitionApprovedApprovalRequest ::
    "(int \<Rightarrow> string) \<Rightarrow> int \<Rightarrow> string \<Rightarrow> string \<Rightarrow>
     (approval_request \<Rightarrow> 'w \<Rightarrow> (js_error, approval_outcome) result \<times> 'w) \<Rightarrow> 'w approval_store \<Rightarrow>
     (js_error, approval_request) result \<times> 'w approval_store" where
  "transitionApprovedApprovalRequest shown now inst rid resolve = transition shown now inst rid Approved resolve"

end
