(* ===== verification/Approval_Workflow.thy ===== *)
theory Approval_Workflow imports Approval_Requests begin

text \<open>
  What a person does with approval requests
  (\<open>packages/chat-server/src/approval-request-workflow.ts\<close>) and the checks a proposal passes first
  (\<open>approval-check-runner.ts\<close> there). The handler of a kind is the interface the code gives it: its
  functions work on the world of the store. The verdict of a check's model is a parameter.
\<close>

section \<open>Handlers and callers\<close>

record handler_context =
  hc_instance :: string
  hc_requestId :: string
  hc_correlationId :: string
  hc_origin :: "request_origin option"
  hc_status :: approval_status
  hc_summary :: string

record approval_user =
  au_id :: string
  au_instance :: string
  au_label :: string
  au_scopes :: "string list option"

record 'w approval_handler =
  ah_kind :: string
  ah_permission :: string
  ah_validate :: "json \<Rightarrow> (js_error, json) result"
  ah_checkContent :: "(json \<Rightarrow> (js_error, string) result) option"
  ah_revert :: "(approval_request \<Rightarrow> approval_user \<Rightarrow> handler_context \<Rightarrow> 'w \<Rightarrow> (js_error, json) result \<times> 'w) option"
  ah_preview :: "json \<Rightarrow> handler_context \<Rightarrow> 'w \<Rightarrow> (js_error, json) result"
  ah_isStale :: "json \<Rightarrow> handler_context \<Rightarrow> 'w \<Rightarrow> (js_error, bool) result"
  ah_isApplied :: "(json \<Rightarrow> handler_context \<Rightarrow> 'w \<Rightarrow> (js_error, bool) result) option"
  ah_apply :: "json \<Rightarrow> approval_user \<Rightarrow> handler_context \<Rightarrow> 'w \<Rightarrow> (js_error, json) result \<times> 'w"

type_synonym 'w handlers = "(string \<times> 'w approval_handler) list"

text \<open>The rights of a caller, as the authorizer loaded them.\<close>

type_synonym actor_access = "access_holder \<times> persisted_access"

definition authorize :: "actor_access \<Rightarrow> string \<Rightarrow> access_decision" where
  "authorize a action = evaluateAccess (fst a) (snd a) action None"

definition require_action :: "actor_access \<Rightarrow> string \<Rightarrow> (js_error, unit) result" where
  "require_action a action = require_access (fst a) (snd a) action None"

definition AUTH_SCOPE_WILDCARD :: string where
  "AUTH_SCOPE_WILDCARD = ''*''"

definition getAuthScopes :: "approval_user \<Rightarrow> string list" where
  "getAuthScopes u = (case au_scopes u of None \<Rightarrow> [AUTH_SCOPE_WILDCARD] | Some s \<Rightarrow> s)"

definition hasAuthScope :: "approval_user \<Rightarrow> string \<Rightarrow> bool" where
  "hasAuthScope u scope \<longleftrightarrow> AUTH_SCOPE_WILDCARD \<in> set (getAuthScopes u) \<or> scope \<in> set (getAuthScopes u)"

definition APPROVAL_DECIDE_AUTH_SCOPE :: string where
  "APPROVAL_DECIDE_AUTH_SCOPE = ''governance:write''"

definition APPROVAL_WITHDRAW_AUTH_SCOPE :: string where
  "APPROVAL_WITHDRAW_AUTH_SCOPE = ''conversation:write''"

definition DECIDED_LIST_WINDOW_MS :: int where
  "DECIDED_LIST_WINDOW_MS = 30 * 24 * 60 * 60 * 1000"

section \<open>The checks of a proposal\<close>

datatype on_fail = Warn_On_Fail | Block_On_Fail

record approval_check =
  ack_id :: string
  ack_appliesTo :: string
  ack_onFail :: on_fail

record check_verdict =
  cvd_violates :: bool
  cvd_reason :: string

text \<open>
  What one evaluation came to: the verdict or the error of the call, whether the limit it ran under
  was its own, and whether that limit had passed when it failed.
\<close>

record check_answer =
  ca_verdict :: "(js_error, check_verdict) result"
  ca_ownDeadline :: bool
  ca_pastDeadline :: bool

definition APPROVAL_CHECK_TIMEOUT_MESSAGE :: string where
  "APPROVAL_CHECK_TIMEOUT_MESSAGE = ''did not answer within 60 seconds''"

definition APPROVAL_CHECK_LIMIT_MESSAGE :: string where
  "APPROVAL_CHECK_LIMIT_MESSAGE = ''could not run because the model usage limit of this instance is reached''"

fun is_timeout :: "js_error \<Rightarrow> bool" where
  "is_timeout (App_Error e) = (err_code e = TIMEOUT)"
| "is_timeout (Foreign_Error m) = False"

definition failed_check :: "approval_check \<Rightarrow> check_answer \<Rightarrow> js_error \<Rightarrow> check_result" where
  "failed_check c a e =
     (if ack_onFail c = Block_On_Fail
      then \<lparr>chk_id = ack_id c, chk_status = Check_Blocked,
        chk_message = ''Check '' @ quoted (ack_id c) @ '' '' @
          (if isModelUsageLimitReached e then APPROVAL_CHECK_LIMIT_MESSAGE
           else if ca_ownDeadline a \<and> is_timeout e \<and> ca_pastDeadline a then APPROVAL_CHECK_TIMEOUT_MESSAGE
           else ''could not be evaluated'') @ ''. Try again later.''\<rparr>
      else \<lparr>chk_id = ack_id c, chk_status = Check_Warned, chk_message = []\<rparr>)"

definition evaluate_check :: "(approval_check \<Rightarrow> string \<Rightarrow> check_answer) \<Rightarrow> string \<Rightarrow> approval_check \<Rightarrow> check_result" where
  "evaluate_check ask content c =
     (let a = ask c content in
      case ca_verdict a of
        Inr v \<Rightarrow>
          \<lparr>chk_id = ack_id c,
           chk_status = (if cvd_violates v
             then (if ack_onFail c = Block_On_Fail then Check_Blocked else Check_Warned) else Check_Passed),
           chk_message = (if cvd_violates v then cvd_reason v else [])\<rparr>
      | Inl e \<Rightarrow> failed_check c a e)"

record proposal =
  pr_kind :: string
  pr_summary :: string
  pr_payload :: json
  pr_origin :: "request_origin option"

definition check_content :: "string \<Rightarrow> string \<Rightarrow> string" where
  "check_content summary content =
     ''{'' @ json_quote ''summary'' @ '':'' @ json_quote summary @ '','' @ json_quote ''newContent'' @ '':'' @
     json_quote content @ ''}''"

definition run_checks ::
    "approval_check list \<Rightarrow> (approval_check \<Rightarrow> string \<Rightarrow> check_answer) \<Rightarrow> 'w approval_handler \<Rightarrow> proposal \<Rightarrow>
     (js_error, check_result list) result" where
  "run_checks configured ask h p =
     (let checks = filter (\<lambda>c. ack_appliesTo c = pr_kind p) configured in
      case ah_checkContent h of
        None \<Rightarrow> Inr []
      | Some contentOf \<Rightarrow>
          if checks = [] then Inr []
          else bind_result (contentOf (pr_payload p)) (\<lambda>content.
            Inr (map (evaluate_check ask (check_content (pr_summary p) content)) checks)))"

section \<open>The workflow\<close>

record audit_event =
  ae_type :: string
  ae_actor :: string
  ae_correlationId :: string
  ae_requestId :: string
  ae_kind :: string
  ae_status :: approval_status
  ae_checks :: "(string \<times> check_status) list"

text \<open>
  What one call of the workflow is given: the instance, the handlers, the recorder of audit events
  and the listener for decisions with their answers, the clock and how a date is shown.
\<close>

record 'w workflow =
  wf_instance :: string
  wf_handlers :: "'w handlers"
  wf_record :: "audit_event \<Rightarrow> (js_error, unit) result"
  wf_onDecided :: "(approval_request \<Rightarrow> (js_error, unit) result) option"
  wf_now :: int
  wf_shown :: "int \<Rightarrow> string"
  wf_correlationId :: string

definition handler_of :: "'w workflow \<Rightarrow> string \<Rightarrow> (js_error, 'w approval_handler) result" where
  "handler_of flow kind =
     (case map_of (wf_handlers flow) kind of
        None \<Rightarrow> Inl (app_error NOT_FOUND ''Approval request kind was not found'')
      | Some h \<Rightarrow> Inr h)"

definition handlerContext :: "'w workflow \<Rightarrow> approval_request \<Rightarrow> handler_context" where
  "handlerContext flow r =
     \<lparr>hc_instance = wf_instance flow, hc_requestId = ap_id r, hc_correlationId = wf_correlationId flow,
      hc_origin = ap_origin r, hc_status = ap_status r, hc_summary = ap_summary r\<rparr>"

definition assertClientInstance :: "'w workflow \<Rightarrow> approval_user \<Rightarrow> (js_error, unit) result" where
  "assertClientInstance flow u =
     (if au_instance u \<noteq> wf_instance flow
      then Inl (app_error FORBIDDEN ''User belongs to another client instance'') else Inr ())"

definition record_event :: "'w workflow \<Rightarrow> approval_user \<Rightarrow> string \<Rightarrow> approval_request \<Rightarrow> (js_error, unit) result" where
  "record_event flow u type r = wf_record flow
     \<lparr>ae_type = type, ae_actor = au_id u, ae_correlationId = wf_correlationId flow, ae_requestId = ap_id r,
      ae_kind = ap_kind r, ae_status = ap_status r,
      ae_checks = (if type = ''approval_request.created''
        then map (\<lambda>c. (chk_id c, chk_status c)) (ap_checks r) else [])\<rparr>"

definition visibleRequest ::
    "'w workflow \<Rightarrow> approval_user \<Rightarrow> actor_access \<Rightarrow> string \<Rightarrow> 'w approval_store \<Rightarrow> (js_error, approval_request) result" where
  "visibleRequest flow u access rid s =
     bind_result (assertClientInstance flow u) (\<lambda>_.
       case getApprovalRequest s (wf_instance flow) rid of
         None \<Rightarrow> Inl (app_error NOT_FOUND ''Approval request was not found'')
       | Some r \<Rightarrow>
           if rq_id (ap_requestedBy r) \<noteq> au_id u \<and>
              (case map_of (wf_handlers flow) (ap_kind r) of
                 None \<Rightarrow> True | Some h \<Rightarrow> \<not> is_allowed (authorize access (ah_permission h)))
           then Inl (app_error NOT_FOUND ''Approval request was not found'')
           else Inr r)"

definition createRequest ::
    "'w workflow \<Rightarrow> approval_check list \<Rightarrow> (approval_check \<Rightarrow> string \<Rightarrow> check_answer) option \<Rightarrow> approval_user \<Rightarrow>
     proposal \<Rightarrow> (js_error, unit) result option \<Rightarrow> string \<Rightarrow> 'w approval_store \<Rightarrow>
     (js_error, approval_request) result \<times> 'w approval_store" where
  "createRequest flow configured ask u p fence newId s =
     (case bind_result (assertClientInstance flow u) (\<lambda>_.
           bind_result (handler_of flow (pr_kind p)) (\<lambda>h.
           bind_result (ah_validate h (pr_payload p)) (\<lambda>payload.
           bind_result (if trim (pr_summary p) = []
              then Inl (app_error VALIDATION_FAILED ''Approval request summary is required'') else Inr ()) (\<lambda>_.
           bind_result (case ask of None \<Rightarrow> Inr []
              | Some a \<Rightarrow> run_checks configured a h (p\<lparr>pr_payload := payload\<rparr>)) (\<lambda>checks.
           let blocked = filter (\<lambda>c. chk_status c = Check_Blocked) checks in
           if blocked \<noteq> []
           then Inl (app_error VALIDATION_FAILED
             (''Approval request blocked: '' @ join_with ''; '' (map chk_message blocked)))
           else createApprovalRequest \<lparr>nr_instance = wf_instance flow, nr_kind = pr_kind p,
             nr_summary = pr_summary p, nr_payload = payload,
             nr_requestedBy = \<lparr>rq_id = au_id u, rq_label = au_label u\<rparr>, nr_origin = pr_origin p,
             nr_checks = checks\<rparr> fence newId (wf_now flow) s))))) of
        Inl e \<Rightarrow> (Inl e, s)
      | Inr (s', r) \<Rightarrow>
          (bind_result (record_event flow u ''approval_request.created'' r) (\<lambda>_. Inr r), s'))"

text \<open>
  A change whose outcome could not be recorded is live: its request must not end as refused.
\<close>

definition assertNotApplied :: "'w workflow \<Rightarrow> approval_request \<Rightarrow> 'w \<Rightarrow> (js_error, unit) result" where
  "assertNotApplied flow r w =
     (case map_of (wf_handlers flow) (ap_kind r) of
        None \<Rightarrow> Inr ()
      | Some h \<Rightarrow>
          (case ah_isApplied h of
             None \<Rightarrow> Inr ()
           | Some isApplied \<Rightarrow> bind_result (isApplied (ap_payload r) (handlerContext flow r) w) (\<lambda>live.
               if live
               then Inl (app_error CONFLICT
                 (''This request'' @ [CHR 0x27] @ ''s change is already applied; approve it to record the outcome''))
               else Inr ())))"

datatype approval_choice = Approve | Reject | Request_Changes

definition trimmed_comment :: "string option \<Rightarrow> string option" where
  "trimmed_comment c = (case c of None \<Rightarrow> None | Some t \<Rightarrow> if trim t = [] then None else Some (trim t))"

definition resolve_decision ::
    "'w workflow \<Rightarrow> 'w approval_handler \<Rightarrow> approval_user \<Rightarrow> approval_choice \<Rightarrow> string option \<Rightarrow>
     approval_request \<Rightarrow> 'w \<Rightarrow> (js_error, approval_outcome) result \<times> 'w" where
  "resolve_decision flow h u choice comment pending w =
     (let decision = \<lparr>ad_approved = (choice = Approve), ad_by = au_id u, ad_label = au_label u,
        ad_at = wf_now flow, ad_comment = comment\<rparr> in
      if choice \<noteq> Approve
      then
        (bind_result (assertNotApplied flow pending w) (\<lambda>_.
           Inr \<lparr>ao_status = (if choice = Reject then Rejected else Changes_Requested),
             ao_decision = Some decision, ao_applyResult = None, ao_reversion = None\<rparr>), w)
      else
        (case bind_result (ah_validate h (ap_payload pending)) (\<lambda>payload.
              bind_result (ah_isStale h payload (handlerContext flow pending) w) (\<lambda>stale. Inr (payload, stale))) of
           Inl e \<Rightarrow> (Inl e, w)
         | Inr (payload, stale) \<Rightarrow>
             if stale
             then (Inr \<lparr>ao_status = Superseded, ao_decision = Some decision, ao_applyResult = None,
               ao_reversion = None\<rparr>, w)
             else
               (case ah_apply h payload u (handlerContext flow pending) w of
                  (Inl e, w') \<Rightarrow> (Inl e, w')
                | (Inr applied, w') \<Rightarrow>
                    (Inr \<lparr>ao_status = Approved, ao_decision = Some decision, ao_applyResult = Some applied,
                      ao_reversion = None\<rparr>, w'))))"

text \<open>
  Every transition ends the same way: its event is recorded and the listener is told, after the
  tables were written.
\<close>

definition finish_transition ::
    "'w workflow \<Rightarrow> approval_user \<Rightarrow> string \<Rightarrow> (js_error, approval_request) result \<times> 'w approval_store \<Rightarrow>
     (js_error, approval_request) result \<times> 'w approval_store" where
  "finish_transition flow u type answer =
     (bind_result (fst answer) (\<lambda>updated.
        bind_result (record_event flow u type updated) (\<lambda>_.
        bind_result (case wf_onDecided flow of None \<Rightarrow> Inr () | Some told \<Rightarrow> told updated) (\<lambda>_. Inr updated))),
      snd answer)"

definition decidable_request ::
    "'w workflow \<Rightarrow> approval_user \<Rightarrow> actor_access \<Rightarrow> string \<Rightarrow> approval_choice \<Rightarrow> string option \<Rightarrow>
     'w approval_store \<Rightarrow> (js_error, approval_request \<times> 'w approval_handler) result" where
  "decidable_request flow u access rid choice comment s =
     bind_result (visibleRequest flow u access rid s) (\<lambda>r.
     bind_result (handler_of flow (ap_kind r)) (\<lambda>h.
     bind_result (require_action access (ah_permission h)) (\<lambda>_.
       if choice = Request_Changes \<and> trimmed_comment comment = None
       then Inl (app_error VALIDATION_FAILED ''Requesting changes requires a comment'')
       else Inr (r, h))))"

definition decideRequest ::
    "'w workflow \<Rightarrow> approval_user \<Rightarrow> actor_access \<Rightarrow> string \<Rightarrow> approval_choice \<Rightarrow> string option \<Rightarrow>
     'w approval_store \<Rightarrow> (js_error, approval_request) result \<times> 'w approval_store" where
  "decideRequest flow u access rid choice comment s =
     (case decidable_request flow u access rid choice comment s of
        Inl e \<Rightarrow> (Inl e, s)
      | Inr (r, h) \<Rightarrow> finish_transition flow u ''approval_request.decided''
          (transitionPendingApprovalRequest (wf_shown flow) (wf_now flow) (wf_instance flow) (ap_id r)
            (resolve_decision flow h u choice (trimmed_comment comment)) s))"

definition resolve_withdrawal ::
    "'w workflow \<Rightarrow> approval_user \<Rightarrow> approval_request \<Rightarrow> 'w \<Rightarrow> (js_error, approval_outcome) result \<times> 'w" where
  "resolve_withdrawal flow u pending w =
     (bind_result (assertNotApplied flow pending w) (\<lambda>_. Inr
        \<lparr>ao_status = Withdrawn,
         ao_decision = Some \<lparr>ad_approved = False, ad_by = au_id u, ad_label = au_label u, ad_at = wf_now flow,
           ad_comment = None\<rparr>,
         ao_applyResult = None, ao_reversion = None\<rparr>), w)"

definition withdrawRequest ::
    "'w workflow \<Rightarrow> approval_user \<Rightarrow> actor_access \<Rightarrow> string \<Rightarrow> 'w approval_store \<Rightarrow>
     (js_error, approval_request) result \<times> 'w approval_store" where
  "withdrawRequest flow u access rid s =
     (case bind_result (visibleRequest flow u access rid s) (\<lambda>r.
           if rq_id (ap_requestedBy r) \<noteq> au_id u
           then Inl (app_error FORBIDDEN ''Only the requester can withdraw an approval request'') else Inr ()) of
        Inl e \<Rightarrow> (Inl e, s)
      | Inr _ \<Rightarrow> finish_transition flow u ''approval_request.withdrawn''
          (transitionPendingApprovalRequest (wf_shown flow) (wf_now flow) (wf_instance flow) rid
            (resolve_withdrawal flow u) s))"

definition resolve_reversion ::
    "'w workflow \<Rightarrow> (approval_request \<Rightarrow> approval_user \<Rightarrow> handler_context \<Rightarrow> 'w \<Rightarrow> (js_error, json) result \<times> 'w) \<Rightarrow>
     approval_user \<Rightarrow> approval_request \<Rightarrow> 'w \<Rightarrow> (js_error, approval_outcome) result \<times> 'w" where
  "resolve_reversion flow revert u approved w =
     (case revert approved u (handlerContext flow approved) w of
        (Inl e, w') \<Rightarrow> (Inl e, w')
      | (Inr _, w') \<Rightarrow> (Inr
          \<lparr>ao_status = Reverted, ao_decision = ap_decision approved, ao_applyResult = ap_applyResult approved,
           ao_reversion = Some \<lparr>rv_by = au_id u, rv_label = au_label u, rv_at = wf_now flow\<rparr>\<rparr>, w'))"

definition revertible_request ::
    "'w workflow \<Rightarrow> approval_user \<Rightarrow> actor_access \<Rightarrow> string \<Rightarrow> 'w approval_store \<Rightarrow>
     (js_error, approval_request \<Rightarrow> approval_user \<Rightarrow> handler_context \<Rightarrow> 'w \<Rightarrow> (js_error, json) result \<times> 'w) result" where
  "revertible_request flow u access rid s =
     bind_result (visibleRequest flow u access rid s) (\<lambda>r.
     bind_result (handler_of flow (ap_kind r)) (\<lambda>h.
     bind_result (require_action access (ah_permission h)) (\<lambda>_.
       case ah_revert h of
         None \<Rightarrow> Inl (app_error CONFLICT ''This approval request kind does not support revert'')
       | Some revert \<Rightarrow> Inr revert)))"

definition revertRequest ::
    "'w workflow \<Rightarrow> approval_user \<Rightarrow> actor_access \<Rightarrow> string \<Rightarrow> 'w approval_store \<Rightarrow>
     (js_error, approval_request) result \<times> 'w approval_store" where
  "revertRequest flow u access rid s =
     (case revertible_request flow u access rid s of
        Inl e \<Rightarrow> (Inl e, s)
      | Inr revert \<Rightarrow> finish_transition flow u ''approval_request.reverted''
          (transitionApprovedApprovalRequest (wf_shown flow) (wf_now flow) (wf_instance flow) rid
            (resolve_reversion flow revert u) s))"

section \<open>What is shown\<close>

record approval_view =
  avw_request :: approval_request
  avw_preview :: json
  avw_canDecide :: bool
  avw_canWithdraw :: bool
  avw_canRevert :: bool

definition approval_view_of ::
    "'w workflow \<Rightarrow> approval_user \<Rightarrow> actor_access \<Rightarrow> 'w \<Rightarrow> approval_request \<Rightarrow> (js_error, approval_view) result" where
  "approval_view_of flow u access w r =
     bind_result (handler_of flow (ap_kind r)) (\<lambda>h.
     let withToken = hasAuthScope u APPROVAL_DECIDE_AUTH_SCOPE;
         allowed = is_allowed (authorize access (ah_permission h)) in
     bind_result (ah_validate h (ap_payload r)) (\<lambda>payload.
     bind_result (ah_preview h payload (handlerContext flow r) w) (\<lambda>preview. Inr
       \<lparr>avw_request = r, avw_preview = preview,
        avw_canDecide = (ap_status r = Pending \<and> withToken \<and> allowed),
        avw_canWithdraw = (ap_status r = Pending \<and> rq_id (ap_requestedBy r) = au_id u \<and>
          hasAuthScope u APPROVAL_WITHDRAW_AUTH_SCOPE),
        avw_canRevert = (ap_status r = Approved \<and> ah_revert h \<noteq> None \<and> withToken \<and> allowed)\<rparr>)))"

definition getRequest ::
    "'w workflow \<Rightarrow> approval_user \<Rightarrow> actor_access \<Rightarrow> string \<Rightarrow> 'w approval_store \<Rightarrow> (js_error, approval_view) result" where
  "getRequest flow u access rid s =
     bind_result (visibleRequest flow u access rid s) (approval_view_of flow u access (as_world s))"

definition reviewableKinds :: "'w workflow \<Rightarrow> approval_user \<Rightarrow> actor_access \<Rightarrow> (js_error, string list) result" where
  "reviewableKinds flow u access =
     bind_result (assertClientInstance flow u) (\<lambda>_. Inr (map ah_kind
       (filter (\<lambda>h. is_allowed (authorize access (ah_permission h))) (map snd (wf_handlers flow)))))"

definition registeredKinds :: "'w workflow \<Rightarrow> string list" where
  "registeredKinds flow = map fst (wf_handlers flow)"

definition kinds_filter :: "string list \<Rightarrow> (int \<times> string) option \<Rightarrow> nat option \<Rightarrow> request_filter" where
  "kinds_filter kinds after limit =
     \<lparr>rf_kinds = kinds, rf_status = None, rf_excludeStatus = None, rf_requestedById = None,
      rf_updatedSince = None, rf_conversationId = None, rf_after = after, rf_limit = limit\<rparr>"

definition listRequests ::
    "'w workflow \<Rightarrow> approval_user \<Rightarrow> actor_access \<Rightarrow> approval_status option \<Rightarrow> bool \<Rightarrow> (int \<times> string) option \<Rightarrow>
     nat option \<Rightarrow> 'w approval_store \<Rightarrow> (js_error, approval_view list) result" where
  "listRequests flow u access status decided after limit s =
     bind_result (reviewableKinds flow u access) (\<lambda>kinds.
       if kinds = []
       then Inl (app_error FORBIDDEN (''Approval review requires a registered kind'' @ [CHR 0x27] @ ''s permission''))
       else map_result (approval_view_of flow u access (as_world s))
         (listApprovalRequests s (wf_instance flow) ((kinds_filter kinds after limit)
           \<lparr>rf_status := status, rf_excludeStatus := (if decided then Some Pending else None),
            rf_updatedSince := (if decided then Some (wf_now flow - DECIDED_LIST_WINDOW_MS) else None)\<rparr>)))"

definition listOwnRequests ::
    "'w workflow \<Rightarrow> approval_user \<Rightarrow> actor_access \<Rightarrow> (int \<times> string) option \<Rightarrow> nat option \<Rightarrow> 'w approval_store \<Rightarrow>
     (js_error, approval_view list) result" where
  "listOwnRequests flow u access after limit s =
     bind_result (assertClientInstance flow u) (\<lambda>_.
       map_result (approval_view_of flow u access (as_world s))
         (listApprovalRequests s (wf_instance flow) ((kinds_filter (registeredKinds flow) after limit)
           \<lparr>rf_requestedById := Some (au_id u)\<rparr>)))"

record pending_count =
  pc_count :: nat
  pc_canReview :: bool
  pc_mine :: "nat \<times> nat"

definition pendingCount ::
    "'w workflow \<Rightarrow> approval_user \<Rightarrow> actor_access \<Rightarrow> 'w approval_store \<Rightarrow> (js_error, pending_count) result" where
  "pendingCount flow u access s =
     bind_result (reviewableKinds flow u access) (\<lambda>kinds. Inr
       \<lparr>pc_count = countPendingApprovalRequests s (wf_instance flow) kinds,
        pc_canReview = (kinds \<noteq> []),
        pc_mine = countOwnApprovalRequests s (wf_instance flow) (registeredKinds flow) (au_id u)\<rparr>)"

end
