(* ===== verification/Approval_Facts.thy ===== *)
theory Approval_Facts imports Approval_Workflow begin

text \<open>
  The calls on approval requests as steps of their tables, what a transition does, and the invariant
  every call keeps: a request and its decision agree, and every message of a decision is true.
\<close>

section \<open>Calls and steps\<close>

datatype 'w approval_call =
  Create_Request proposal "approval_check list" "(approval_check \<Rightarrow> string \<Rightarrow> check_answer) option"
    "(js_error, unit) result option" string
| Decide_Request actor_access string approval_choice "string option"
| Withdraw_Request actor_access string
| Revert_Request actor_access string

fun call_approval ::
    "'w workflow \<Rightarrow> approval_user \<Rightarrow> 'w approval_call \<Rightarrow> 'w approval_store \<Rightarrow>
     (js_error, approval_request) result \<times> 'w approval_store" where
  "call_approval flow u (Create_Request p configured ask fence newId) s = createRequest flow configured ask u p fence newId s"
| "call_approval flow u (Decide_Request access rid choice comment) s = decideRequest flow u access rid choice comment s"
| "call_approval flow u (Withdraw_Request access rid) s = withdrawRequest flow u access rid s"
| "call_approval flow u (Revert_Request access rid) s = revertRequest flow u access rid s"

text \<open>
  Between calls the world of the handlers changes freely, conversations come and go, and their
  messages go with them. \<open>shown\<close> is how every process of the system writes a date.
\<close>

inductive approval_step :: "(int \<Rightarrow> string) \<Rightarrow> 'w approval_store \<Rightarrow> 'w approval_store \<Rightarrow> bool" for shown where
  approval_called: "wf_shown flow = shown \<Longrightarrow> approval_step shown s (snd (call_approval flow u c s))"
| world_changed: "approval_step shown s (s\<lparr>as_world := w\<rparr>)"
| conversations_changed:
    "approval_step shown s (s\<lparr>as_conversations := cs, as_messages := filter keep (as_messages s)\<rparr>)"

definition approval_start :: "'w approval_store \<Rightarrow> bool" where
  "approval_start s \<longleftrightarrow> as_requests s = [] \<and> as_messages s = []"

section \<open>The invariant\<close>

definition decision_ok :: "approval_status \<Rightarrow> (approval_decision \<times> reversion option) option \<Rightarrow> bool" where
  "decision_ok st d =
     (case d of
        None \<Rightarrow> st = Pending
      | Some (x, v) \<Rightarrow> st \<noteq> Pending \<and> ad_approved x = (st \<in> {Approved, Superseded, Reverted}) \<and>
          (v \<noteq> None) = (st = Reverted) \<and> (st = Changes_Requested \<longrightarrow> ad_comment x \<noteq> None))"

definition request_ok :: "approval_row \<Rightarrow> bool" where
  "request_ok r \<longleftrightarrow> decision_ok (aw_status r) (aw_decision r) \<and>
     (aw_applyResult r \<noteq> None) = (aw_status r \<in> {Approved, Reverted}) \<and>
     list_all (\<lambda>c. chk_status c \<noteq> Check_Blocked) (aw_checks r)"

text \<open>
  What the table knows about how a request reached a status: who brought it there, under which name,
  when, and with which comment. A reversion has its own person and time and repeats no comment.
\<close>

definition decided_by :: "approval_row \<Rightarrow> approval_status \<Rightarrow> (string \<times> string \<times> int \<times> string option) option" where
  "decided_by r st =
     (case aw_decision r of
        None \<Rightarrow> None
      | Some (d, v) \<Rightarrow>
          if st = Reverted then map_option (\<lambda>v. (rv_by v, rv_label v, rv_at v, None)) v
          else Some (ad_by d, ad_label d, ad_at d,
            case ad_comment d of None \<Rightarrow> None | Some c \<Rightarrow> if c = [] then None else Some c))"

text \<open>The words for what a request came to, and what they announce, in the reader's terms.\<close>

fun said_status :: "approval_status \<Rightarrow> string" where
  "said_status Approved = ''approved''"
| "said_status Rejected = ''rejected''"
| "said_status Changes_Requested = ''changes_requested''"
| "said_status Superseded = ''superseded''"
| "said_status Withdrawn = ''withdrawn''"
| "said_status Reverted = ''reverted''"
| "said_status Pending = []"

fun announced :: "approval_status \<Rightarrow> bool \<Rightarrow> string" where
  "announced Approved own = '' The change is now active.''"
| "announced Reverted own = '' The approved change has been reverted.''"
| "announced Changes_Requested True =
     '' When the user continues, submit a revised proposal addressing the requested changes.''"
| "announced Changes_Requested False =
     '' The reviewer has taken over the revision and submits the revised proposal themselves. Do NOT submit a revised proposal in this conversation unless the user explicitly asks for one.''"
| "announced _ own = []"

text \<open>
  A message of a decision says of its request, as the table has it, what it is, what it came to, who
  decided that and when, what follows and why. Of a reverted request the message of the approval
  stays beside the one of the reversion. Everything, the sentence included, is read off the row.
\<close>

definition message_true :: "(int \<Rightarrow> string) \<Rightarrow> approval_row \<Rightarrow> decision_message \<Rightarrow> bool" where
  "message_true shown r m \<longleftrightarrow>
     dm_instance m = aw_instance r \<and> map_option ro_conversationId (aw_origin r) = Some (dm_conversationId m) \<and>
     (\<exists>st by label time comment.
        (st = aw_status r \<or> st = Approved \<and> aw_status r = Reverted) \<and> st \<noteq> Pending \<and>
        decided_by r st = Some (by, label, time, comment) \<and>
        dm_id m = ''msg_'' @ aw_id r @ ''_'' @ said_status st \<and>
        dm_event m =
          \<lparr>de_requestId = aw_id r, de_requestKind = aw_kind r, de_status = st, de_by = by, de_label = label,
           de_at = time, de_summary = aw_summary r, de_comment = comment,
           de_requestedBy = Some (rq_id (aw_requestedBy r))\<rparr> \<and>
        dm_text m =
          ''Approval request '' @ aw_id r @ '' ('' @ aw_kind r @ '': '' @ json_quote (aw_summary r) @ '') was '' @
          said_status st @ '' by '' @ json_quote label @ '' at '' @ shown time @ ''.'' @
          announced st (by = rq_id (aw_requestedBy r)) @
          (case comment of None \<Rightarrow> [] | Some c \<Rightarrow> '' Comment: '' @ json_quote c))"

definition approvals_ok :: "(int \<Rightarrow> string) \<Rightarrow> 'w approval_store \<Rightarrow> bool" where
  "approvals_ok shown s \<longleftrightarrow> distinct (map aw_id (as_requests s)) \<and> distinct (map dm_id (as_messages s)) \<and>
     (\<forall>r \<in> set (as_requests s). request_ok r) \<and>
     (\<forall>m \<in> set (as_messages s). \<exists>r \<in> set (as_requests s). message_true shown r m)"

text \<open>How a request may look later.\<close>

definition same_request :: "approval_row \<Rightarrow> approval_row \<Rightarrow> bool" where
  "same_request r r' \<longleftrightarrow> aw_id r' = aw_id r \<and> aw_instance r' = aw_instance r \<and> aw_kind r' = aw_kind r \<and>
     aw_summary r' = aw_summary r \<and> aw_payload r' = aw_payload r \<and> aw_requestedBy r' = aw_requestedBy r \<and>
     aw_origin r' = aw_origin r \<and> aw_checks r' = aw_checks r \<and> aw_createdAt r' = aw_createdAt r"

definition request_later :: "approval_row \<Rightarrow> approval_row \<Rightarrow> bool" where
  "request_later r r' \<longleftrightarrow> r' = r \<or>
     same_request r r' \<and> (aw_status r = Pending \<and> aw_status r' \<noteq> Pending \<or>
       aw_status r = Approved \<and> aw_status r' = Reverted \<and> aw_applyResult r' = aw_applyResult r \<and>
       map_option fst (aw_decision r') = map_option fst (aw_decision r))"

definition requests_later :: "'w approval_store \<Rightarrow> 'w approval_store \<Rightarrow> bool" where
  "requests_later s t \<longleftrightarrow> (\<forall>r \<in> set (as_requests s). \<exists>r' \<in> set (as_requests t). request_later r r')"

lemma request_later_refl: "request_later r r"
  by (simp add: request_later_def)

lemma same_request_trans: "same_request a b \<Longrightarrow> same_request b c \<Longrightarrow> same_request a c"
  by (simp add: same_request_def)

lemma request_later_trans: "request_later a b \<Longrightarrow> request_later b c \<Longrightarrow> request_later a c"
  unfolding request_later_def using same_request_trans[of a b c] by auto

lemma requests_later_refl: "requests_later s s"
  unfolding requests_later_def using request_later_refl by blast

lemma requests_later_trans: "requests_later a b \<Longrightarrow> requests_later b c \<Longrightarrow> requests_later a c"
  unfolding requests_later_def using request_later_trans by blast

section \<open>Transitions\<close>

text \<open>The outcomes a transition out of a status may have, given what the request was.\<close>

definition outcome_ok :: "approval_request \<Rightarrow> approval_outcome \<Rightarrow> bool" where
  "outcome_ok r o' \<longleftrightarrow>
     decision_ok (ao_status o') (map_option (\<lambda>d. (d, ao_reversion o')) (ao_decision o')) \<and>
     (ao_applyResult o' \<noteq> None) = (ao_status o' \<in> {Approved, Reverted}) \<and>
     (if ap_status r = Approved
      then ao_status o' = Reverted \<and> ao_decision o' = ap_decision r \<and> ao_applyResult o' = ap_applyResult r
      else ap_status r = Pending \<and> ao_status o' \<noteq> Pending)"

lemma resolve_decision_ok:
  assumes "resolve_decision flow h u choice comment pending w = (Inr oc, w')"
    and "ap_status pending = Pending" and "choice = Request_Changes \<Longrightarrow> comment \<noteq> None"
  shows "outcome_ok pending oc"
  using assms
  by (cases choice)
    (auto simp: resolve_decision_def outcome_ok_def decision_ok_def Let_def bind_result_Inr
      split: sum.splits if_splits prod.splits)

lemma resolve_withdrawal_ok:
  assumes "resolve_withdrawal flow u pending w = (Inr oc, w')" and "ap_status pending = Pending"
  shows "outcome_ok pending oc"
  using assms by (auto simp: resolve_withdrawal_def outcome_ok_def decision_ok_def)

lemma resolve_reversion_ok:
  assumes "resolve_reversion flow revert u approved w = (Inr oc, w')" and "ap_status approved = Approved"
    and "ap_decision approved = Some d" "ad_approved d" and "ap_applyResult approved \<noteq> None"
  shows "outcome_ok approved oc"
  using assms by (auto simp: resolve_reversion_def outcome_ok_def decision_ok_def split: sum.splits prod.splits)

text \<open>The one row a transition moves.\<close>

definition moved :: "string \<Rightarrow> string \<Rightarrow> approval_status \<Rightarrow> approval_outcome \<Rightarrow> int \<Rightarrow> 'w \<Rightarrow> 'w approval_store \<Rightarrow> 'w approval_store" where
  "moved inst rid expected oc now w s = s\<lparr>as_world := w, as_requests :=
     update_where (\<lambda>r. aw_instance r = inst \<and> aw_id r = rid \<and> aw_status r = expected) (store_outcome oc now) (as_requests s)\<rparr>"

lemma transition_cases:
  assumes "transition shown now inst rid expected resolve s = (a, t)"
  obtains (failed) e w where "a = Inl e" "t = s\<lparr>as_world := w\<rparr>"
      "w \<noteq> as_world s \<Longrightarrow> \<exists>row. find_request inst rid (as_requests s) = Some row \<and> aw_status row = expected \<and>
        resolve (mapApprovalRequest row) (as_world s) = (Inl e, w)"
  | (moved) row oc w where "find_request inst rid (as_requests s) = Some row" "aw_status row = expected"
      "resolve (mapApprovalRequest row) (as_world s) = (Inr oc, w)"
      "a = Inr (mapApprovalRequest (store_outcome oc now row))"
      "t = appendApprovalDecision shown now (mapApprovalRequest (store_outcome oc now row))
        (moved inst rid expected oc now w s)"
proof (cases "find_request inst rid (as_requests s)")
  case None
  with assms have "a = Inl (app_error NOT_FOUND ''Approval request was not found'')" "t = s"
    by (simp_all add: transition_def)
  then show ?thesis using failed[of _ "as_world s"] by simp
next
  case (Some row)
  show ?thesis
  proof (cases "aw_status row = expected")
    case False
    with assms Some have "a = Inl (expected_conflict expected)" "t = s" by (simp_all add: transition_def)
    then show ?thesis using failed[of _ "as_world s"] by simp
  next
    case True
    obtain x w where x: "resolve (mapApprovalRequest row) (as_world s) = (x, w)" by (cases "resolve (mapApprovalRequest row) (as_world s)")
    show ?thesis
    proof (cases x)
      case (Inl e)
      then show ?thesis using assms Some True x failed[of e w] by (simp add: transition_def)
    next
      case (Inr oc)
      then show ?thesis using assms Some True x moved[of row oc w]
        by (simp add: transition_def moved_def Let_def)
    qed
  qed
qed

lemma find_request_row:
  assumes "find_request inst rid rows = Some row"
  shows "row \<in> set rows" "aw_instance row = inst" "aw_id row = rid"
  using find_Some_iff[OF assms[unfolded find_request_def]] by simp_all

lemma find_request_known:
  assumes "distinct (map aw_id rows)" and "row \<in> set rows"
  shows "find_request (aw_instance row) (aw_id row) rows = Some row"
proof (cases "find_request (aw_instance row) (aw_id row) rows")
  case None
  then show ?thesis using assms(2) by (auto simp: find_request_def find_None_iff)
next
  case (Some r)
  note r = find_request_row[OF this]
  have "r = row" using distinct_map_inj[OF assms(1) r(1) assms(2)] r(3) by simp
  then show ?thesis using Some by simp
qed

lemma store_outcome_sel [simp]:
  "aw_id (store_outcome oc now r) = aw_id r" "aw_instance (store_outcome oc now r) = aw_instance r"
  "aw_status (store_outcome oc now r) = ao_status oc" "aw_checks (store_outcome oc now r) = aw_checks r"
  "aw_applyResult (store_outcome oc now r) = ao_applyResult oc" "aw_origin (store_outcome oc now r) = aw_origin r"
  "aw_kind (store_outcome oc now r) = aw_kind r" "aw_summary (store_outcome oc now r) = aw_summary r"
  "aw_requestedBy (store_outcome oc now r) = aw_requestedBy r"
  "aw_decision (store_outcome oc now r) = map_option (\<lambda>d. (d, ao_reversion oc)) (ao_decision oc)"
  by (simp_all add: store_outcome_def)

lemma map_request_sel [simp]:
  "ap_status (mapApprovalRequest r) = aw_status r" "ap_id (mapApprovalRequest r) = aw_id r"
  "ap_instance (mapApprovalRequest r) = aw_instance r" "ap_origin (mapApprovalRequest r) = aw_origin r"
  "ap_applyResult (mapApprovalRequest r) = aw_applyResult r"
  "ap_decision (mapApprovalRequest r) = map_option fst (aw_decision r)"
  "ap_kind (mapApprovalRequest r) = aw_kind r" "ap_payload (mapApprovalRequest r) = aw_payload r"
  "ap_requestedBy (mapApprovalRequest r) = aw_requestedBy r" "ap_summary (mapApprovalRequest r) = aw_summary r"
  "ap_reversion (mapApprovalRequest r) = (case aw_decision r of None \<Rightarrow> None | Some d \<Rightarrow> snd d)"
  by (simp_all add: mapApprovalRequest_def)

lemma outcome_later: "outcome_ok (mapApprovalRequest r) oc \<Longrightarrow> request_later r (store_outcome oc now r)"
  by (auto simp: outcome_ok_def request_later_def same_request_def store_outcome_def option.map_comp comp_def
      split: if_splits)

lemma outcome_request_ok:
  "request_ok r \<Longrightarrow> outcome_ok (mapApprovalRequest r) oc \<Longrightarrow> request_ok (store_outcome oc now r)"
  by (simp add: outcome_ok_def request_ok_def)

lemma moved_rows:
  assumes "distinct (map aw_id (as_requests s))" and "find_request inst rid (as_requests s) = Some row"
    and "aw_status row = expected"
  shows "set (as_requests (moved inst rid expected oc now w s)) =
      insert (store_outcome oc now row) (set (as_requests s) - {row})"
    and "map aw_id (as_requests (moved inst rid expected oc now w s)) = map aw_id (as_requests s)"
proof -
  note row = find_request_row[OF assms(2)]
  have one: "aw_instance r = inst \<and> aw_id r = rid \<and> aw_status r = expected \<longleftrightarrow> r = row"
    if "r \<in> set (as_requests s)" for r
    using that row assms(1,3) by (auto simp: distinct_map dest: inj_onD)
  have "{store_outcome oc now r | r. r \<in> set (as_requests s) \<and> aw_instance r = inst \<and> aw_id r = rid \<and> aw_status r = expected}
      = {store_outcome oc now row}"
    using row(1) one by blast
  moreover have "{r \<in> set (as_requests s). \<not> (aw_instance r = inst \<and> aw_id r = rid \<and> aw_status r = expected)}
      = set (as_requests s) - {row}"
    using one by blast
  ultimately show "set (as_requests (moved inst rid expected oc now w s)) = insert (store_outcome oc now row) (set (as_requests s) - {row})"
    by (simp add: moved_def set_update_where)
  show "map aw_id (as_requests (moved inst rid expected oc now w s)) = map aw_id (as_requests s)"
    by (simp add: moved_def map_update_where)
qed

section \<open>Every call keeps the invariant\<close>

lemma message_stays:
  assumes "message_true shown r m" and "outcome_ok (mapApprovalRequest r) oc"
  shows "message_true shown (store_outcome oc now r) m"
proof -
  from assms have approved: "aw_status r = Approved" and later: "ao_status oc = Reverted"
      "ao_decision oc = map_option fst (aw_decision r)"
    by (auto simp: message_true_def outcome_ok_def split: if_splits)
  then have "decided_by (store_outcome oc now r) Approved = decided_by r Approved"
    by (auto simp: decided_by_def split: option.split)
  with assms(1) approved later(1) show ?thesis unfolding message_true_def by auto
qed

lemma said_status_text: "st \<noteq> Pending \<Longrightarrow> status_text st = said_status st"
  by (cases st) simp_all

lemma decision_event_of_row:
  assumes "request_ok r" and "aw_status r \<noteq> Pending"
  shows "\<exists>by label time comment. decided_by r (aw_status r) = Some (by, label, time, comment) \<and>
    comment \<noteq> Some [] \<and>
    decision_event_of (mapApprovalRequest r) =
      \<lparr>de_requestId = aw_id r, de_requestKind = aw_kind r, de_status = aw_status r, de_by = by, de_label = label,
       de_at = time, de_summary = aw_summary r, de_comment = comment,
       de_requestedBy = Some (rq_id (aw_requestedBy r))\<rparr>"
proof -
  obtain d v where dv: "aw_decision r = Some (d, v)" "(v \<noteq> None) = (aw_status r = Reverted)"
    using assms by (auto simp: request_ok_def decision_ok_def split: option.splits)
  show ?thesis
  proof (cases v)
    case None
    with dv show ?thesis
      by (auto simp: decided_by_def decision_event_of_def split: option.split)
  next
    case (Some x)
    with dv show ?thesis by (auto simp: decided_by_def decision_event_of_def)
  qed
qed

lemma note_of_event:
  assumes "de_status e \<noteq> Pending" and "de_requestedBy e = Some asker" and "de_comment e \<noteq> Some []"
  shows "approvalDecisionNote shown e =
    ''Approval request '' @ de_requestId e @ '' ('' @ de_requestKind e @ '': '' @ json_quote (de_summary e) @ '') was '' @
    said_status (de_status e) @ '' by '' @ json_quote (de_label e) @ '' at '' @ shown (de_at e) @ ''.'' @
    announced (de_status e) (de_by e = asker) @
    (case de_comment e of None \<Rightarrow> [] | Some c \<Rightarrow> '' Comment: '' @ json_quote c)"
proof -
  have outcome: "(if de_status e = Approved then '' The change is now active.''
         else if approvalRevisionOwner e = Some Reviewer_Revises
         then '' The reviewer has taken over the revision and submits the revised proposal themselves. Do NOT submit a revised proposal in this conversation unless the user explicitly asks for one.''
         else if approvalRevisionOwner e = Some Requester_Revises
         then '' When the user continues, submit a revised proposal addressing the requested changes.''
         else if de_status e = Reverted then '' The approved change has been reverted.'' else []) =
      announced (de_status e) (de_by e = asker)"
    using assms(2) by (cases "de_status e"; cases "de_by e = asker"; simp add: approvalRevisionOwner_def)
  show ?thesis
    unfolding approvalDecisionNote_def Let_def outcome said_status_text[OF assms(1)]
    using assms(3) by (auto split: option.split)
qed

lemma decision_message:
  assumes "createApprovalDecisionMessage shown now (mapApprovalRequest r) = Some m" and "request_ok r"
  shows "message_true shown r m"
proof -
  let ?e = "decision_event_of (mapApprovalRequest r)"
  from assms(1) obtain origin where origin: "aw_origin r = Some origin" and status: "aw_status r \<noteq> Pending"
    and m: "m = \<lparr>dm_id = ''msg_'' @ aw_id r @ ''_'' @ status_text (aw_status r), dm_instance = aw_instance r,
      dm_conversationId = ro_conversationId origin, dm_text = approvalDecisionNote shown ?e, dm_event = ?e,
      dm_createdAt = now\<rparr>"
    by (auto simp: createApprovalDecisionMessage_def split: option.splits if_splits)
  obtain by' label time comment where seen: "decided_by r (aw_status r) = Some (by', label, time, comment)"
    "comment \<noteq> Some []"
    and e: "?e = \<lparr>de_requestId = aw_id r, de_requestKind = aw_kind r, de_status = aw_status r, de_by = by',
      de_label = label, de_at = time, de_summary = aw_summary r, de_comment = comment,
      de_requestedBy = Some (rq_id (aw_requestedBy r))\<rparr>"
    using decision_event_of_row[OF assms(2) status] by blast
  have note': "approvalDecisionNote shown ?e =
      ''Approval request '' @ aw_id r @ '' ('' @ aw_kind r @ '': '' @ json_quote (aw_summary r) @ '') was '' @
      said_status (aw_status r) @ '' by '' @ json_quote label @ '' at '' @ shown time @ ''.'' @
      announced (aw_status r) (by' = rq_id (aw_requestedBy r)) @
      (case comment of None \<Rightarrow> [] | Some c \<Rightarrow> '' Comment: '' @ json_quote c)"
    using note_of_event[of ?e "rq_id (aw_requestedBy r)" shown] status seen(2) unfolding e by simp
  show ?thesis
    unfolding message_true_def m e note'[unfolded e] said_status_text[OF status] using origin status seen(1) by auto
qed

lemma append_sel [simp]:
  "as_requests (appendApprovalDecision shown now r s) = as_requests s"
  "as_world (appendApprovalDecision shown now r s) = as_world s"
  by (simp_all add: appendApprovalDecision_def Let_def split: option.split)

lemma append_messages:
  "as_messages (appendApprovalDecision shown now r s) = as_messages s \<or>
    (\<exists>m. createApprovalDecisionMessage shown now r = Some m \<and> dm_id m \<notin> dm_id ` set (as_messages s) \<and>
      as_messages (appendApprovalDecision shown now r s) = as_messages s @ [m])"
  by (auto simp: appendApprovalDecision_def Let_def list_ex_iff split: option.split)

lemma moved_sel [simp]:
  "as_messages (moved inst rid expected oc now w s) = as_messages s"
  "as_conversations (moved inst rid expected oc now w s) = as_conversations s"
  "as_world (moved inst rid expected oc now w s) = w"
  by (simp_all add: moved_def)

lemma moved_ok:
  assumes "approvals_ok shown s" and "find_request inst rid (as_requests s) = Some row" and "aw_status row = expected"
    and "outcome_ok (mapApprovalRequest row) oc"
  shows "approvals_ok shown (appendApprovalDecision shown now (mapApprovalRequest (store_outcome oc now row))
      (moved inst rid expected oc now w s)) \<and>
    requests_later s (moved inst rid expected oc now w s)"
proof (rule conjI)
  let ?row = "store_outcome oc now row" and ?s = "moved inst rid expected oc now w s"
  let ?t = "appendApprovalDecision shown now (mapApprovalRequest ?row) ?s"
  have ok: "distinct (map aw_id (as_requests s))" "distinct (map dm_id (as_messages s))"
    "\<forall>r \<in> set (as_requests s). request_ok r" "\<forall>m \<in> set (as_messages s). \<exists>r \<in> set (as_requests s). message_true shown r m"
    using assms(1) by (simp_all add: approvals_ok_def)
  note row = find_request_row[OF assms(2)] and rows = moved_rows[OF ok(1) assms(2,3), of oc now w]
  show "requests_later s ?s"
    unfolding requests_later_def rows(1)
    using outcome_later[OF assms(4), of now] request_later_refl by blast
  have old: "\<exists>r \<in> set (as_requests ?s). message_true shown r m" if "m \<in> set (as_messages s)" for m
    using ok(4) that message_stays[OF _ assms(4), of shown m now] unfolding rows(1) by blast
  have new_ok: "request_ok ?row" using ok(3) row(1) outcome_request_ok[OF _ assms(4), of now] by blast
  have new: "\<exists>r \<in> set (as_requests ?s). message_true shown r m"
    if "createApprovalDecisionMessage shown now (mapApprovalRequest ?row) = Some m" for m
    using decision_message[OF that new_ok] unfolding rows(1) by blast
  from append_messages[of shown now "mapApprovalRequest ?row" ?s]
  have "distinct (map dm_id (as_messages ?t)) \<and> (\<forall>m \<in> set (as_messages ?t). \<exists>r \<in> set (as_requests ?s). message_true shown r m)"
    using ok(2) old new by (elim disjE exE conjE) auto
  moreover have "\<forall>r \<in> set (as_requests ?s). request_ok r"
    unfolding rows(1) using ok(3) row(1) outcome_request_ok[OF _ assms(4), of now] by blast
  ultimately show "approvals_ok shown ?t" using ok(1) by (simp add: approvals_ok_def rows(2))
qed

lemma approvals_ok_world [simp]: "approvals_ok shown (s\<lparr>as_world := w\<rparr>) = approvals_ok shown s"
  by (simp add: approvals_ok_def)

lemma requests_later_same: "as_requests t = as_requests s \<Longrightarrow> requests_later s t"
  using requests_later_refl[of s] by (simp add: requests_later_def)

lemma transition_ok:
  assumes "transition shown now inst rid expected resolve s = (a, t)" and "approvals_ok shown s"
    and "\<And>row w oc w'. request_ok row \<Longrightarrow> aw_status row = expected \<Longrightarrow>
      resolve (mapApprovalRequest row) w = (Inr oc, w') \<Longrightarrow> outcome_ok (mapApprovalRequest row) oc"
  shows "approvals_ok shown t \<and> requests_later s t"
  using assms(1)
proof (cases rule: transition_cases)
  case (failed e w)
  then show ?thesis using assms(2) by (simp add: requests_later_same)
next
  case (moved row oc w)
  have "request_ok row" using find_request_row(1)[OF moved(1)] assms(2) by (simp add: approvals_ok_def)
  then have "outcome_ok (mapApprovalRequest row) oc" using assms(3) moved(2,3) by blast
  from moved_ok[OF assms(2) moved(1,2) this, of now w]
  show ?thesis unfolding moved(5) by (simp add: requests_later_def)
qed

lemma decidable_comment:
  "decidable_request flow u access rid choice comment s = Inr (r, h) \<Longrightarrow> choice = Request_Changes \<Longrightarrow>
    trimmed_comment comment \<noteq> None"
  by (auto simp: decidable_request_def split: if_splits)

lemma finish_sel [simp]: "snd (finish_transition flow u type answer) = snd answer"
  by (simp add: finish_transition_def)

lemma decide_ok:
  assumes "approvals_ok (wf_shown flow) s"
  shows "approvals_ok (wf_shown flow) (snd (decideRequest flow u access rid choice comment s)) \<and>
    requests_later s (snd (decideRequest flow u access rid choice comment s))"
proof (cases "decidable_request flow u access rid choice comment s")
  case (Inl e)
  then show ?thesis using assms by (simp add: decideRequest_def requests_later_refl)
next
  case (Inr p)
  obtain r h where p: "p = (r, h)" by (cases p)
  let ?move = "transitionPendingApprovalRequest (wf_shown flow) (wf_now flow) (wf_instance flow) (ap_id r)
    (resolve_decision flow h u choice (trimmed_comment comment)) s"
  have "approvals_ok (wf_shown flow) (snd ?move) \<and> requests_later s (snd ?move)"
    unfolding transitionPendingApprovalRequest_def
    by (rule transition_ok[OF surjective_pairing assms])
      (auto elim!: resolve_decision_ok dest: decidable_comment[OF Inr[unfolded p]])
  then show ?thesis using Inr by (simp add: decideRequest_def p)
qed

lemma withdraw_ok:
  assumes "approvals_ok (wf_shown flow) s"
  shows "approvals_ok (wf_shown flow) (snd (withdrawRequest flow u access rid s)) \<and>
    requests_later s (snd (withdrawRequest flow u access rid s))"
proof -
  let ?move = "transitionPendingApprovalRequest (wf_shown flow) (wf_now flow) (wf_instance flow) rid
    (resolve_withdrawal flow u) s"
  have "approvals_ok (wf_shown flow) (snd ?move) \<and> requests_later s (snd ?move)"
    unfolding transitionPendingApprovalRequest_def
    by (rule transition_ok[OF surjective_pairing assms]) (auto elim!: resolve_withdrawal_ok)
  then show ?thesis
    using assms by (auto simp: withdrawRequest_def requests_later_refl split: sum.split)
qed

lemma approved_request:
  "request_ok r \<Longrightarrow> aw_status r = Approved \<Longrightarrow>
    (\<exists>d. ap_decision (mapApprovalRequest r) = Some d \<and> ad_approved d) \<and> ap_applyResult (mapApprovalRequest r) \<noteq> None"
  by (auto simp: request_ok_def decision_ok_def split: option.splits)

lemma revert_ok:
  assumes "approvals_ok (wf_shown flow) s"
  shows "approvals_ok (wf_shown flow) (snd (revertRequest flow u access rid s)) \<and>
    requests_later s (snd (revertRequest flow u access rid s))"
proof -
  have move: "approvals_ok (wf_shown flow) (snd m) \<and> requests_later s (snd m)"
    if "m = transitionApprovedApprovalRequest (wf_shown flow) (wf_now flow) (wf_instance flow) rid
      (resolve_reversion flow revert u) s" for m revert
    unfolding that transitionApprovedApprovalRequest_def
  proof (rule transition_ok[OF surjective_pairing assms])
    fix row w oc w'
    assume "request_ok row" "aw_status row = Approved" and
      r: "resolve_reversion flow revert u (mapApprovalRequest row) w = (Inr oc, w')"
    from approved_request[OF this(1,2)] this(2) show "outcome_ok (mapApprovalRequest row) oc"
      using resolve_reversion_ok[OF r] by auto
  qed
  show ?thesis
    using assms move by (auto simp: revertRequest_def requests_later_refl split: sum.split)
qed

lemma created_request:
  assumes "createApprovalRequest n fence newId now s = Inr (t, r)"
  obtains row where "t = s\<lparr>as_requests := as_requests s @ [row]\<rparr>" "r = mapApprovalRequest row" "aw_id row = newId"
    "newId \<notin> aw_id ` set (as_requests s)" "aw_status row = Pending" "aw_decision row = None"
    "aw_applyResult row = None" "aw_checks row = nr_checks n" "aw_kind row = nr_kind n" "aw_payload row = nr_payload n"
    "aw_requestedBy row = nr_requestedBy n" "aw_instance row = nr_instance n"
proof -
  have "newId \<notin> aw_id ` set (as_requests s)"
    using assms by (auto simp: createApprovalRequest_def Let_def list_ex_iff split: if_splits)
  with assms show ?thesis
    by (intro that) (auto simp: createApprovalRequest_def Let_def split: if_splits)
qed

lemma created_ok:
  assumes "approvals_ok shown s" and "createApprovalRequest n fence newId now s = Inr (t, r)"
    and "list_all (\<lambda>c. chk_status c \<noteq> Check_Blocked) (nr_checks n)"
  shows "approvals_ok shown t \<and> requests_later s t"
proof (rule created_request[OF assms(2)])
  fix row
  assume t: "t = s\<lparr>as_requests := as_requests s @ [row]\<rparr>" and r: "aw_id row = newId"
    "newId \<notin> aw_id ` set (as_requests s)" "aw_status row = Pending" "aw_decision row = None"
    "aw_applyResult row = None" "aw_checks row = nr_checks n"
  have "request_ok row" using r assms(3) by (simp add: request_ok_def decision_ok_def)
  then have "approvals_ok shown t" using assms(1) r(1,2) unfolding t approvals_ok_def by auto
  moreover have "requests_later s t" unfolding requests_later_def t using request_later_refl by fastforce
  ultimately show ?thesis by simp
qed

text \<open>What a creation writes, when it writes.\<close>

definition new_request_of :: "'w workflow \<Rightarrow> approval_user \<Rightarrow> proposal \<Rightarrow> json \<Rightarrow> check_result list \<Rightarrow> new_request" where
  "new_request_of flow u p payload checks = \<lparr>nr_instance = wf_instance flow, nr_kind = pr_kind p,
     nr_summary = pr_summary p, nr_payload = payload, nr_requestedBy = \<lparr>rq_id = au_id u, rq_label = au_label u\<rparr>,
     nr_origin = pr_origin p, nr_checks = checks\<rparr>"

definition checks_of ::
    "approval_check list \<Rightarrow> (approval_check \<Rightarrow> string \<Rightarrow> check_answer) option \<Rightarrow> 'w approval_handler \<Rightarrow> proposal \<Rightarrow>
     (js_error, check_result list) result" where
  "checks_of configured ask h p = (case ask of None \<Rightarrow> Inr [] | Some a \<Rightarrow> run_checks configured a h p)"

lemma create_cases:
  assumes "createRequest flow configured ask u p fence newId s = (a, t)"
  obtains (refused) e where "a = Inl e" "t = s"
  | (created) h payload checks r where "au_instance u = wf_instance flow"
      "map_of (wf_handlers flow) (pr_kind p) = Some h" "ah_validate h (pr_payload p) = Inr payload"
      "trim (pr_summary p) \<noteq> []" "checks_of configured ask h (p\<lparr>pr_payload := payload\<rparr>) = Inr checks"
      "list_all (\<lambda>c. chk_status c \<noteq> Check_Blocked) checks"
      "createApprovalRequest (new_request_of flow u p payload checks) fence newId (wf_now flow) s = Inr (t, r)"
      "a = bind_result (record_event flow u ''approval_request.created'' r) (\<lambda>_. Inr r)"
proof -
  let ?done = "bind_result (assertClientInstance flow u) (\<lambda>_. bind_result (handler_of flow (pr_kind p)) (\<lambda>h.
    bind_result (ah_validate h (pr_payload p)) (\<lambda>payload.
    bind_result (if trim (pr_summary p) = []
      then Inl (app_error VALIDATION_FAILED ''Approval request summary is required'') else Inr ()) (\<lambda>_.
    bind_result (checks_of configured ask h (p\<lparr>pr_payload := payload\<rparr>)) (\<lambda>checks.
      let blocked = filter (\<lambda>c. chk_status c = Check_Blocked) checks in
      if blocked \<noteq> []
      then Inl (app_error VALIDATION_FAILED (''Approval request blocked: '' @ join_with ''; '' (map chk_message blocked)))
      else createApprovalRequest (new_request_of flow u p payload checks) fence newId (wf_now flow) s)))))"
  have eq: "createRequest flow configured ask u p fence newId s = (case ?done of Inl e \<Rightarrow> (Inl e, s)
    | Inr (s', r) \<Rightarrow> (bind_result (record_event flow u ''approval_request.created'' r) (\<lambda>_. Inr r), s'))"
    unfolding createRequest_def checks_of_def new_request_of_def ..
  show ?thesis
  proof (cases ?done)
    case (Inl e)
    with assms have "a = Inl e" "t = s" unfolding eq by simp_all
    then show ?thesis by (rule refused)
  next
    case (Inr x)
    obtain t' r where x: "x = (t', r)" by (cases x)
    from assms Inr have "t = t'" "a = bind_result (record_event flow u ''approval_request.created'' r) (\<lambda>_. Inr r)"
      unfolding eq x by simp_all
    with Inr show ?thesis unfolding x
      by (auto simp: assertClientInstance_def handler_of_def Let_def filter_empty_conv list_all_iff
          intro!: created split: if_splits option.splits)
  qed
qed

lemma creation_ok:
  assumes "approvals_ok shown s"
  shows "approvals_ok shown (snd (createRequest flow configured ask u p fence newId s)) \<and>
    requests_later s (snd (createRequest flow configured ask u p fence newId s))"
proof -
  obtain a t where c: "createRequest flow configured ask u p fence newId s = (a, t)"
    by (cases "createRequest flow configured ask u p fence newId s")
  have "approvals_ok shown t \<and> requests_later s t"
    by (rule create_cases[OF c]) (use assms created_ok[OF assms] in \<open>auto simp: requests_later_refl new_request_of_def\<close>)
  then show ?thesis by (simp add: c)
qed

lemma call_ok:
  "approvals_ok (wf_shown flow) s \<Longrightarrow> approvals_ok (wf_shown flow) (snd (call_approval flow u c s)) \<and> requests_later s (snd (call_approval flow u c s))"
  by (cases c) (simp_all add: creation_ok decide_ok withdraw_ok revert_ok)

text \<open>
  The one who moves a request is the one the table names: whatever request a call brings into another
  status, the decision or reversion kept for it names the caller and the time of the call.
\<close>

definition moved_by :: "approval_user \<Rightarrow> int \<Rightarrow> 'w approval_store \<Rightarrow> 'w approval_store \<Rightarrow> bool" where
  "moved_by u now s t \<longleftrightarrow>
     (\<forall>r \<in> set (as_requests s). \<forall>r' \<in> set (as_requests t).
        aw_id r' = aw_id r \<and> aw_status r' \<noteq> aw_status r \<longrightarrow>
          (\<exists>comment. decided_by r' (aw_status r') = Some (au_id u, au_label u, now, comment)))"

definition outcome_by :: "approval_user \<Rightarrow> int \<Rightarrow> approval_outcome \<Rightarrow> bool" where
  "outcome_by u now oc \<longleftrightarrow>
     (if ao_status oc = Reverted
      then ao_decision oc \<noteq> None \<and> ao_reversion oc = Some \<lparr>rv_by = au_id u, rv_label = au_label u, rv_at = now\<rparr>
      else \<exists>d. ao_decision oc = Some d \<and> ad_by d = au_id u \<and> ad_label d = au_label u \<and> ad_at d = now)"

lemma moved_by_same: "distinct (map aw_id (as_requests s)) \<Longrightarrow> as_requests t = as_requests s \<Longrightarrow> moved_by u now s t"
  unfolding moved_by_def using distinct_map_inj[of aw_id "as_requests s"] by metis

lemma resolved_by:
  "resolve_decision flow h u choice comment r w = (Inr oc, w') \<Longrightarrow> outcome_by u (wf_now flow) oc"
  "resolve_withdrawal flow u r w = (Inr oc, w') \<Longrightarrow> outcome_by u (wf_now flow) oc"
  "resolve_reversion flow revert u r w = (Inr oc, w') \<Longrightarrow> ap_decision r \<noteq> None \<Longrightarrow> outcome_by u (wf_now flow) oc"
  by (auto simp: resolve_decision_def resolve_withdrawal_def resolve_reversion_def outcome_by_def Let_def
      split: sum.splits if_splits prod.splits)

lemma transition_by:
  assumes "transition shown now inst rid expected resolve s = (a, t)" and ok: "approvals_ok shown' s"
    and "\<And>row w oc w'. request_ok row \<Longrightarrow> aw_status row = expected \<Longrightarrow>
      resolve (mapApprovalRequest row) w = (Inr oc, w') \<Longrightarrow> outcome_by u now oc"
  shows "moved_by u now s t"
  using assms(1)
proof (cases rule: transition_cases)
  case (failed e w)
  then show ?thesis using ok by (intro moved_by_same) (simp_all add: approvals_ok_def)
next
  case (moved row oc w)
  have ids: "distinct (map aw_id (as_requests s))" using ok by (simp add: approvals_ok_def)
  have "request_ok row" using find_request_row(1)[OF moved(1)] ok by (simp add: approvals_ok_def)
  then have "outcome_by u now oc" using assms(3) moved(2,3) by blast
  then have new: "\<exists>comment. decided_by (store_outcome oc now row) (ao_status oc) = Some (au_id u, au_label u, now, comment)"
    by (auto simp: decided_by_def outcome_by_def split: if_splits)
  have rows: "set (as_requests t) = insert (store_outcome oc now row) (set (as_requests s) - {row})"
    using moved_rows(1)[OF ids moved(1,2), of oc now w] moved(5) by simp
  have same: "r' = r" if "r \<in> set (as_requests s)" "r' \<in> set (as_requests s)" "aw_id r' = aw_id r" for r r'
    using distinct_map_inj[OF ids that(2,1,3)] .
  show ?thesis
    unfolding moved_by_def rows using same new by auto
qed

lemma call_moved_by:
  assumes ok: "approvals_ok (wf_shown flow) s"
  shows "moved_by u (wf_now flow) s (snd (call_approval flow u c s))"
proof -
  have ids: "distinct (map aw_id (as_requests s))" using ok by (simp add: approvals_ok_def)
  note stay = moved_by_same[OF ids refl]
  show ?thesis
  proof (cases c)
    case (Create_Request p configured ask fence newId)
    obtain a t where c: "createRequest flow configured ask u p fence newId s = (a, t)"
      by (cases "createRequest flow configured ask u p fence newId s")
    then have "moved_by u (wf_now flow) s t"
    proof (cases rule: create_cases)
      case (created h payload checks r)
      from created(7) obtain row where t: "t = s\<lparr>as_requests := as_requests s @ [row]\<rparr>"
        "aw_id row \<notin> aw_id ` set (as_requests s)"
        by (rule created_request) auto
      show ?thesis using stay t unfolding moved_by_def by auto
    qed (simp add: stay)
    with c Create_Request show ?thesis by simp
  next
    case (Decide_Request access rid choice comment)
    have "moved_by u (wf_now flow) s (snd (transition (wf_shown flow) (wf_now flow) (wf_instance flow) rid' Pending
        (resolve_decision flow h u choice comment') s))" for rid' h comment'
      by (rule transition_by[OF surjective_pairing ok]) (rule resolved_by(1))
    with Decide_Request show ?thesis
      by (simp add: decideRequest_def transitionPendingApprovalRequest_def stay split: sum.split prod.split)
  next
    case (Withdraw_Request access rid)
    have "moved_by u (wf_now flow) s (snd (transition (wf_shown flow) (wf_now flow) (wf_instance flow) rid Pending
        (resolve_withdrawal flow u) s))"
      by (rule transition_by[OF surjective_pairing ok]) (rule resolved_by(2))
    with Withdraw_Request show ?thesis
      by (simp add: withdrawRequest_def transitionPendingApprovalRequest_def stay split: sum.split)
  next
    case (Revert_Request access rid)
    have "moved_by u (wf_now flow) s (snd (transition (wf_shown flow) (wf_now flow) (wf_instance flow) rid Approved
        (resolve_reversion flow revert u) s))" for revert
      by (rule transition_by[OF surjective_pairing ok]) (metis resolved_by(3) approved_request option.distinct(1))
    with Revert_Request show ?thesis
      by (simp add: revertRequest_def transitionApprovedApprovalRequest_def stay split: sum.split)
  qed
qed

lemma approvals_ok_start: "approval_start s \<Longrightarrow> approvals_ok shown s"
  by (simp add: approval_start_def approvals_ok_def)

lemma approvals_ok_conversations:
  "approvals_ok shown s \<Longrightarrow> approvals_ok shown (s\<lparr>as_conversations := cs, as_messages := filter keep (as_messages s)\<rparr>)"
  by (auto simp: approvals_ok_def distinct_map_filter)

lemma approvals_ok_step: "approval_step shown s t \<Longrightarrow> approvals_ok shown s \<Longrightarrow> approvals_ok shown t"
  by (induction rule: approval_step.induct) (use call_ok in \<open>auto simp: approvals_ok_conversations\<close>)

lemma later_step: "approval_step shown s t \<Longrightarrow> approvals_ok shown s \<Longrightarrow> requests_later s t"
  by (induction rule: approval_step.induct) (use call_ok in \<open>auto intro: requests_later_same\<close>)

interpretation approvals: invariant_system approval_start "approval_step shown" "approvals_ok shown" for shown
  by unfold_locales (auto intro: approvals_ok_start approvals_ok_step)

lemma later_steps:
  "(approval_step shown)\<^sup>*\<^sup>* s t \<Longrightarrow> approvals_ok shown s \<Longrightarrow> requests_later s t"
proof (induction rule: rtranclp_induct)
  case base
  then show ?case by (simp add: requests_later_refl)
next
  case (step t' t)
  then show ?case using later_step approvals.inv_steps requests_later_trans by metis
qed

end
