(* ===== verification/Approval_Promises.thy ===== *)
theory Approval_Promises imports Approval_Facts begin

text \<open>
  What the approval workflow promises: requests only move forward and their messages are true, the
  world behind a request changes through the people who may decide it, a refused request has left no
  change, and what a view offers is what the workflow accepts.
\<close>

section \<open>What a call did\<close>

lemma visible_facts:
  assumes "visibleRequest flow u access rid s = Inr r"
  shows "getApprovalRequest s (wf_instance flow) rid = Some r" "au_instance u = wf_instance flow" "ap_id r = rid"
proof -
  show found: "getApprovalRequest s (wf_instance flow) rid = Some r" and "au_instance u = wf_instance flow"
    using assms by (auto simp: visibleRequest_def assertClientInstance_def split: if_splits option.splits)
  then show "ap_id r = rid" by (auto simp: getApprovalRequest_def dest: find_request_row(3))
qed

lemma handler_of_Inr [simp]: "handler_of flow kind = Inr h \<longleftrightarrow> map_of (wf_handlers flow) kind = Some h"
  by (simp add: handler_of_def split: option.split)

lemma require_allowed [simp]: "require_action access action = Inr x \<longleftrightarrow> is_allowed (authorize access action)"
  by (simp add: require_action_def require_access_def authorize_def split: access_decision.split)

lemma decidable_facts:
  assumes "decidable_request flow u access rid choice comment s = Inr (r, h)"
  shows "visibleRequest flow u access rid s = Inr r" "map_of (wf_handlers flow) (ap_kind r) = Some h"
    "is_allowed (authorize access (ah_permission h))"
  using assms by (auto simp: decidable_request_def split: if_splits)

lemma created_pending: "createApprovalRequest n fence newId now s = Inr (t, r) \<Longrightarrow> ap_status r = Pending"
  by (erule created_request) simp

lemma finish_Inr:
  "fst (finish_transition flow u type answer) = Inr r \<Longrightarrow> fst answer = Inr r"
  by (auto simp: finish_transition_def)

lemma finished:
  "(a, t) = finish_transition flow u type m \<Longrightarrow> m = (fst m, t)"
  "(a, t) = finish_transition flow u type m \<Longrightarrow> a = Inr x \<Longrightarrow> fst m = Inr x"
proof -
  assume e: "(a, t) = finish_transition flow u type m"
  then show "m = (fst m, t)" by (cases m) (simp add: finish_transition_def)
  show "fst m = Inr x" if "a = Inr x"
    using finish_Inr[of flow u type m x] that by (simp add: e[symmetric])
qed

lemma decided:
  assumes "decideRequest flow u access rid choice comment s = (a, t)"
  obtains (refused) e where "a = Inl e" "t = s"
  | (tried) r h b where "visibleRequest flow u access rid s = Inr r" "map_of (wf_handlers flow) (ap_kind r) = Some h"
      "is_allowed (authorize access (ah_permission h))"
      "transition (wf_shown flow) (wf_now flow) (wf_instance flow) rid Pending
        (resolve_decision flow h u choice (trimmed_comment comment)) s = (b, t)"
      "\<And>x. a = Inr x \<Longrightarrow> b = Inr x"
proof (cases "decidable_request flow u access rid choice comment s")
  case (Inl e)
  with assms have "a = Inl e" "t = s" by (simp_all add: decideRequest_def)
  then show ?thesis by (rule refused)
next
  case (Inr p)
  obtain r h where p: "p = (r, h)" by (cases p)
  note f = decidable_facts[OF Inr[unfolded p]]
  have id: "ap_id r = rid" using visible_facts(3)[OF f(1)] .
  let ?m = "transition (wf_shown flow) (wf_now flow) (wf_instance flow) rid Pending
    (resolve_decision flow h u choice (trimmed_comment comment)) s"
  have "(a, t) = finish_transition flow u ''approval_request.decided'' ?m"
    using assms Inr by (simp add: decideRequest_def p id transitionPendingApprovalRequest_def)
  then have "?m = (fst ?m, t)" "\<And>x. a = Inr x \<Longrightarrow> fst ?m = Inr x"
    by (simp_all add: finished)
  from tried[OF f this] show ?thesis .
qed

lemma withdrawn:
  assumes "withdrawRequest flow u access rid s = (a, t)"
  obtains (refused) e where "a = Inl e" "t = s"
  | (tried) r b where "visibleRequest flow u access rid s = Inr r" "rq_id (ap_requestedBy r) = au_id u"
      "transition (wf_shown flow) (wf_now flow) (wf_instance flow) rid Pending (resolve_withdrawal flow u) s = (b, t)"
      "\<And>x. a = Inr x \<Longrightarrow> b = Inr x"
proof -
  let ?guard = "bind_result (visibleRequest flow u access rid s) (\<lambda>r. if rq_id (ap_requestedBy r) \<noteq> au_id u
    then Inl (app_error FORBIDDEN ''Only the requester can withdraw an approval request'') else Inr ())"
  let ?m = "transition (wf_shown flow) (wf_now flow) (wf_instance flow) rid Pending (resolve_withdrawal flow u) s"
  show ?thesis
  proof (cases ?guard)
    case (Inl e)
    with assms have "a = Inl e" "t = s" by (simp_all add: withdrawRequest_def)
    then show ?thesis by (rule refused)
  next
    case (Inr x)
    then obtain r where r: "visibleRequest flow u access rid s = Inr r" "rq_id (ap_requestedBy r) = au_id u"
      by (auto split: if_splits)
    have "(a, t) = finish_transition flow u ''approval_request.withdrawn'' ?m"
      using assms Inr by (simp add: withdrawRequest_def transitionPendingApprovalRequest_def)
    then have "?m = (fst ?m, t)" "\<And>x. a = Inr x \<Longrightarrow> fst ?m = Inr x"
      by (simp_all add: finished)
    from tried[OF r this] show ?thesis .
  qed
qed

lemma reverted:
  assumes "revertRequest flow u access rid s = (a, t)"
  obtains (refused) e where "a = Inl e" "t = s"
  | (tried) r h revert b where "visibleRequest flow u access rid s = Inr r"
      "map_of (wf_handlers flow) (ap_kind r) = Some h" "is_allowed (authorize access (ah_permission h))"
      "ah_revert h = Some revert"
      "transition (wf_shown flow) (wf_now flow) (wf_instance flow) rid Approved (resolve_reversion flow revert u) s = (b, t)"
      "\<And>x. a = Inr x \<Longrightarrow> b = Inr x"
proof (cases "revertible_request flow u access rid s")
  case (Inl e)
  with assms have "a = Inl e" "t = s" by (simp_all add: revertRequest_def)
  then show ?thesis by (rule refused)
next
  case (Inr revert)
  then obtain r h where r: "visibleRequest flow u access rid s = Inr r" "map_of (wf_handlers flow) (ap_kind r) = Some h"
    "is_allowed (authorize access (ah_permission h))" "ah_revert h = Some revert"
    by (auto simp: revertible_request_def split: option.splits)
  let ?m = "transition (wf_shown flow) (wf_now flow) (wf_instance flow) rid Approved (resolve_reversion flow revert u) s"
  have "(a, t) = finish_transition flow u ''approval_request.reverted'' ?m"
    using assms Inr by (simp add: revertRequest_def transitionApprovedApprovalRequest_def)
  then have "?m = (fst ?m, t)" "\<And>x. a = Inr x \<Longrightarrow> fst ?m = Inr x"
    by (simp_all add: finished)
  from tried[OF r this] show ?thesis .
qed

text \<open>Where a transition changed the world, \<open>resolve\<close> did on the request of the row.\<close>

lemma transition_world:
  assumes "transition shown now inst rid expected resolve s = (a, t)" and "getApprovalRequest s inst rid = Some r"
    and "as_world t \<noteq> as_world s"
  shows "ap_status r = expected \<and> as_world t = snd (resolve r (as_world s))"
  using assms(1)
proof (cases rule: transition_cases)
  case (failed e w)
  then show ?thesis using assms(2,3) by (auto simp: getApprovalRequest_def)
next
  case (moved row oc w)
  then show ?thesis using assms(2) by (auto simp: getApprovalRequest_def)
qed

lemma transition_answer:
  assumes "transition shown now inst rid expected resolve s = (Inr x, t)" and "getApprovalRequest s inst rid = Some r"
  shows "\<exists>oc. ap_status r = expected \<and> resolve r (as_world s) = (Inr oc, as_world t) \<and>
    ap_status x = ao_status oc \<and> ap_id x = rid"
  using assms(1)
proof (cases rule: transition_cases)
  case (failed e w)
  then show ?thesis by simp
next
  case (moved row oc w)
  then show ?thesis using assms(2) find_request_row(3)[OF moved(1)] by (auto simp: getApprovalRequest_def)
qed

lemma resolve_decision_world:
  assumes "snd (resolve_decision flow h u choice comment r w) \<noteq> w"
  shows "choice = Approve \<and> (\<exists>payload. ah_validate h (ap_payload r) = Inr payload \<and>
    ah_isStale h payload (handlerContext flow r) w = Inr False \<and>
    snd (resolve_decision flow h u choice comment r w) = snd (ah_apply h payload u (handlerContext flow r) w))"
proof (cases "choice = Approve")
  case False
  then show ?thesis using assms by (simp add: resolve_decision_def Let_def)
next
  case True
  show ?thesis
  proof (cases "bind_result (ah_validate h (ap_payload r)) (\<lambda>payload.
      bind_result (ah_isStale h payload (handlerContext flow r) w) (\<lambda>stale. Inr (payload, stale)))")
    case (Inl e)
    then show ?thesis using assms True by (simp add: resolve_decision_def Let_def)
  next
    case (Inr p)
    obtain payload stale where p: "p = (payload, stale)" by (cases p)
    have "snd (resolve_decision flow h u choice comment r w) =
        (if stale then w else snd (ah_apply h payload u (handlerContext flow r) w))"
      using Inr True by (simp add: resolve_decision_def Let_def p split: sum.split prod.split)
    then show ?thesis using assms True Inr p by (auto split: if_splits)
  qed
qed

section \<open>A small instance\<close>

text \<open>A kind whose change is the id of its request, kept in a list.\<close>

definition demo_handler :: "string list approval_handler" where
  "demo_handler =
     \<lparr>ah_kind = ''note'', ah_permission = ''agent_skills.approve'', ah_validate = Inr,
      ah_checkContent = Some (\<lambda>_. Inr ''text''),
      ah_revert = Some (\<lambda>_ _ c w. (Inr JNull, removeAll (hc_requestId c) w)),
      ah_preview = (\<lambda>_ _ _. Inr JNull), ah_isStale = (\<lambda>_ _ _. Inr False),
      ah_isApplied = Some (\<lambda>_ c w. Inr (hc_requestId c \<in> set w)),
      ah_apply = (\<lambda>_ _ c w. (Inr JNull, w @ [hc_requestId c]))\<rparr>"

definition demo_flow :: "string list workflow" where
  "demo_flow =
     \<lparr>wf_instance = ''ci'', wf_handlers = [(''note'', demo_handler)], wf_record = (\<lambda>_. Inr ()),
      wf_onDecided = None, wf_now = 5, wf_shown = (\<lambda>_. ''now''), wf_correlationId = ''c''\<rparr>"

definition demo_user :: "string \<Rightarrow> approval_user" where
  "demo_user i = \<lparr>au_id = i, au_instance = ''ci'', au_label = i, au_scopes = None\<rparr>"

definition demo_access :: "string \<Rightarrow> actor_access" where
  "demo_access i =
     (\<lparr>holder_kind = User_Holder, holder_id = i, holder_instance = ''ci'', holder_roles = [''superadmin''],
       holder_permissions = [], holder_permissionRefs = []\<rparr>, \<lparr>holderActive = True, grants = []\<rparr>)"

definition demo_proposal :: proposal where
  "demo_proposal = \<lparr>pr_kind = ''note'', pr_summary = ''add'', pr_payload = JNull,
     pr_origin = Some \<lparr>ro_conversationId = ''v'', ro_agentRunId = ''r'', ro_toolCallId = ''t'', ro_agentName = ''a''\<rparr>\<rparr>"

definition demo_empty_store :: "string list approval_store" where
  "demo_empty_store = \<lparr>as_requests = [], as_conversations =
     [\<lparr>cv_id = ''v'', cv_instance = ''ci'', cv_active = True, cv_updatedAt = 0\<rparr>], as_messages = [], as_world = []\<rparr>"

definition demo_created :: "string list approval_store" where
  "demo_created = snd (call_approval demo_flow (demo_user ''u'') (Create_Request demo_proposal [] None None ''q'') demo_empty_store)"

definition demo_decided :: "approval_choice \<Rightarrow> string list approval_store" where
  "demo_decided choice = snd (call_approval demo_flow (demo_user ''b'')
     (Decide_Request (demo_access ''b'') ''q'' choice (Some ''c'')) demo_created)"

lemma demo_created_reachable: "reachable approval_start (approval_step (\<lambda>_. ''now'')) demo_created"
proof -
  have "reachable approval_start (approval_step (\<lambda>_. ''now'')) demo_empty_store"
    by (rule reachable_start) (simp add: demo_empty_store_def approval_start_def)
  then show ?thesis unfolding demo_created_def by (rule reachable_move) (rule approval_called, simp add: demo_flow_def)
qed

lemma demo_approved:
  "as_world demo_created = []" "as_world (demo_decided Approve) = [''q'']"
  "as_world (demo_decided Reject) = []"
  "map aw_status (as_requests demo_created) = [Pending]"
  "map aw_status (as_requests (demo_decided Approve)) = [Approved]"
  "map aw_id (as_requests demo_created) = [''q'']" "length (as_messages (demo_decided Approve)) = 1"
  by code_simp+

section \<open>The promises\<close>

text \<open>
  C36. Approval requests only move forward: along every run of the workflow a request keeps its
  identity, its proposal and its checks, leaves the pending status once for one outcome, and afterwards
  only an approved one changes again, into a reverted one that keeps its decision and its result. Who
  moves a request is who the table names for it, with the time of the call. A decision, a result and a
  reversion are there exactly in the statuses they belong to, and no stored check is a blocking one.
  Every decision message in a conversation is true of its request as the table has it: it is of the
  conversation the request came from, and its event and its sentence name the request, its kind and
  its summary, what became of it, who decided that and when, what follows from it and the comment.
\<close>

theorem approvals_only_move_forward:
  assumes "reachable approval_start (approval_step shown) s" and "(approval_step shown)\<^sup>*\<^sup>* s t"
  shows "approvals_ok shown t \<and> requests_later s t \<and>
    (\<forall>flow u c. wf_shown flow = shown \<longrightarrow> moved_by u (wf_now flow) t (snd (call_approval flow u c t)))"
  using approvals.inv_reachable[OF assms(1)] approvals.inv_steps[OF assms(2)] later_steps[OF assms(2)] call_moved_by
  by blast

theorem approvals_only_move_forward_witness:
  "approvals_ok (\<lambda>_. ''now'') (demo_decided Approve) \<and> requests_later demo_created (demo_decided Approve) \<and>
    map aw_status (as_requests demo_created) = [Pending] \<and>
    map aw_status (as_requests (demo_decided Approve)) = [Approved] \<and> length (as_messages (demo_decided Approve)) = 1"
proof -
  have "(approval_step (\<lambda>_. ''now''))\<^sup>*\<^sup>* demo_created (demo_decided Approve)"
    unfolding demo_decided_def by (rule r_into_rtranclp) (rule approval_called, simp add: demo_flow_def)
  from approvals_only_move_forward[OF demo_created_reachable this] show ?thesis by (simp add: demo_approved)
qed

text \<open>
  C37. The world behind approval requests changes only through people who may change it: when a call
  changed it, the caller is of the instance and holds the permission of the request's kind, and either
  approves a pending request whose payload is still valid and not stale, by the handler's \<open>apply\<close>, or
  reverts an approved one, by the handler's \<open>revert\<close>.
\<close>

theorem changes_need_an_approver:
  assumes "call_approval flow u c s = (a, t)" and "as_world t \<noteq> as_world s"
  shows "\<exists>access rid r h. getApprovalRequest s (wf_instance flow) rid = Some r \<and>
    au_instance u = wf_instance flow \<and> map_of (wf_handlers flow) (ap_kind r) = Some h \<and>
    is_allowed (authorize access (ah_permission h)) \<and>
    ((\<exists>comment payload. c = Decide_Request access rid Approve comment \<and> ap_status r = Pending \<and>
        ah_validate h (ap_payload r) = Inr payload \<and>
        ah_isStale h payload (handlerContext flow r) (as_world s) = Inr False \<and>
        as_world t = snd (ah_apply h payload u (handlerContext flow r) (as_world s))) \<or>
     (\<exists>revert. c = Revert_Request access rid \<and> ap_status r = Approved \<and> ah_revert h = Some revert \<and>
        as_world t = snd (revert r u (handlerContext flow r) (as_world s))))"
proof (cases c)
  case (Create_Request p configured ask fence newId)
  with assms(1) have "createRequest flow configured ask u p fence newId s = (a, t)" by simp
  then have "as_world t = as_world s" by (rule create_cases) (auto elim: created_request)
  then show ?thesis using assms(2) by simp
next
  case (Withdraw_Request access rid)
  with assms(1) have "withdrawRequest flow u access rid s = (a, t)" by simp
  then have "as_world t = as_world s"
  proof (cases rule: withdrawn)
    case (tried r b)
    show ?thesis using transition_world[OF tried(3) visible_facts(1)[OF tried(1)]]
      by (auto simp: resolve_withdrawal_def)
  qed simp
  then show ?thesis using assms(2) by simp
next
  case c: (Decide_Request access rid choice comment)
  with assms(1) have "decideRequest flow u access rid choice comment s = (a, t)" by simp
  then show ?thesis
  proof (cases rule: decided)
    case (tried r h b)
    note v = visible_facts[OF tried(1)]
    have w: "ap_status r = Pending"
      "as_world t = snd (resolve_decision flow h u choice (trimmed_comment comment) r (as_world s))"
      using transition_world[OF tried(4) v(1) assms(2)] by auto
    from resolve_decision_world[OF assms(2)[unfolded w(2)]] show ?thesis
      unfolding w(2) using v tried(2,3) c w(1) by blast
  qed (use assms(2) in simp)
next
  case c: (Revert_Request access rid)
  with assms(1) have "revertRequest flow u access rid s = (a, t)" by simp
  then show ?thesis
  proof (cases rule: reverted)
    case (tried r h revert b)
    note v = visible_facts[OF tried(1)]
    have "ap_status r = Approved" "as_world t = snd (resolve_reversion flow revert u r (as_world s))"
      using transition_world[OF tried(5) v(1) assms(2)] by auto
    then have "as_world t = snd (revert r u (handlerContext flow r) (as_world s))"
      by (auto simp: resolve_reversion_def split: sum.splits prod.splits)
    then show ?thesis using v tried(2-4) c \<open>ap_status r = Approved\<close> by blast
  qed (use assms(2) in simp)
qed

theorem changes_need_an_approver_witness:
  "\<exists>access rid r h. getApprovalRequest demo_created ''ci'' rid = Some r \<and>
    map_of (wf_handlers demo_flow) (ap_kind r) = Some h \<and> is_allowed (authorize access (ah_permission h))"
proof -
  let ?c = "Decide_Request (demo_access ''b'') ''q'' Approve (Some ''c'')"
  have d: "snd (call_approval demo_flow (demo_user ''b'') ?c demo_created) = demo_decided Approve"
    by (simp add: demo_decided_def)
  have i: "wf_instance demo_flow = ''ci''" by (simp add: demo_flow_def)
  have "as_world (snd (call_approval demo_flow (demo_user ''b'') ?c demo_created)) \<noteq> as_world demo_created"
    unfolding d by (simp add: demo_approved)
  from changes_need_an_approver[OF surjective_pairing this, unfolded i] show ?thesis by blast
qed

text \<open>
  A request that ends as rejected, sent back or withdrawn has left no change: the call changes
  nothing of the world, and where the handler of its kind can tell, it says at that moment that the
  change of the request is not live. Only its requester withdraws it, only a person with the permission
  of its kind rejects it or sends it back, and sending it back takes a comment.
\<close>

lemma refusals_leave_no_change:
  assumes "call_approval flow u c s = (Inr x, t)" and "ap_status x \<in> {Rejected, Changes_Requested, Withdrawn}"
  shows "as_world t = as_world s \<and>
    (\<exists>r. getApprovalRequest s (wf_instance flow) (ap_id x) = Some r \<and> ap_status r = Pending \<and>
      (\<forall>h live. map_of (wf_handlers flow) (ap_kind r) = Some h \<longrightarrow> ah_isApplied h = Some live \<longrightarrow>
        live (ap_payload r) (handlerContext flow r) (as_world s) = Inr False) \<and>
      (if ap_status x = Withdrawn then rq_id (ap_requestedBy r) = au_id u
       else \<exists>access choice comment h. c = Decide_Request access (ap_id x) choice comment \<and>
         map_of (wf_handlers flow) (ap_kind r) = Some h \<and> is_allowed (authorize access (ah_permission h))))"
proof -
  have clean: "\<forall>h live. map_of (wf_handlers flow) (ap_kind r) = Some h \<longrightarrow> ah_isApplied h = Some live \<longrightarrow>
      live (ap_payload r) (handlerContext flow r) w = Inr False"
    if "assertNotApplied flow r w = Inr y" for r w y
    using that by (auto simp: assertNotApplied_def split: if_splits)
  show ?thesis
  proof (cases c)
    case (Withdraw_Request access rid)
    with assms(1) have "withdrawRequest flow u access rid s = (Inr x, t)" by simp
    then show ?thesis
    proof (cases rule: withdrawn)
      case (tried r b)
      have v: "getApprovalRequest s (wf_instance flow) rid = Some r" by (rule visible_facts(1)[OF tried(1)])
      from transition_answer[OF tried(3)[unfolded tried(4)[OF refl]] v] obtain oc where
        "ap_status r = Pending" "resolve_withdrawal flow u r (as_world s) = (Inr oc, as_world t)"
        "ap_status x = ao_status oc" "ap_id x = rid" by auto
      then show ?thesis using v tried(2) by (auto simp: resolve_withdrawal_def dest: clean)
    qed simp
  next
    case c: (Decide_Request access rid choice comment)
    with assms(1) have "decideRequest flow u access rid choice comment s = (Inr x, t)" by simp
    then show ?thesis
    proof (cases rule: decided)
      case (tried r h b)
      have v: "getApprovalRequest s (wf_instance flow) rid = Some r" by (rule visible_facts(1)[OF tried(1)])
      from transition_answer[OF tried(4)[unfolded tried(5)[OF refl]] v] obtain oc where oc:
        "ap_status r = Pending" "resolve_decision flow h u choice (trimmed_comment comment) r (as_world s) = (Inr oc, as_world t)"
        "ap_status x = ao_status oc" "ap_id x = rid" by auto
      have "choice \<noteq> Approve" using oc(2,3) assms(2)
        by (auto simp: resolve_decision_def Let_def split: sum.splits if_splits prod.splits)
      then have "assertNotApplied flow r (as_world s) = Inr ()" "as_world t = as_world s" "ap_status x \<noteq> Withdrawn"
        using oc(2,3) by (auto simp: resolve_decision_def Let_def split: if_splits)
      then show ?thesis using v oc(1) tried(2,3) clean[of r "as_world s" "()"] c unfolding oc(4)
        by (intro conjI exI[of _ r]) (simp_all, blast?)
    qed simp
  next
    case (Revert_Request access rid)
    with assms(1) have "revertRequest flow u access rid s = (Inr x, t)" by simp
    then show ?thesis
    proof (cases rule: reverted)
      case (tried r h revert b)
      from transition_answer[OF tried(5)[unfolded tried(6)[OF refl]] visible_facts(1)[OF tried(1)]]
      show ?thesis using assms(2) by (auto simp: resolve_reversion_def split: sum.splits prod.splits)
    qed simp
  next
    case (Create_Request p configured ask fence newId)
    with assms(1) have "createRequest flow configured ask u p fence newId s = (Inr x, t)" by simp
    then have "ap_status x = Pending" by (rule create_cases) (auto dest: created_pending dest!: sym[of "Inr x"])
    then show ?thesis using assms(2) by simp
  qed
qed

theorem refusals_leave_no_change_witness:
  "as_world (demo_decided Reject) = as_world demo_created \<and>
    (\<exists>r. getApprovalRequest demo_created ''ci'' ''q'' = Some r \<and> ap_status r = Pending)"
proof -
  let ?c = "Decide_Request (demo_access ''b'') ''q'' Reject (Some ''c'')"
  have "case call_approval demo_flow (demo_user ''b'') ?c demo_created of
      (Inr x, t) \<Rightarrow> ap_status x = Rejected \<and> ap_id x = ''q'' | _ \<Rightarrow> False"
    by code_simp
  then obtain x t where c: "call_approval demo_flow (demo_user ''b'') ?c demo_created = (Inr x, t)"
    and x: "ap_status x = Rejected" "ap_id x = ''q''"
    by (auto split: prod.splits sum.splits)
  have t: "t = demo_decided Reject" unfolding demo_decided_def c by simp
  show ?thesis using refusals_leave_no_change[OF c] x unfolding t by (auto simp: demo_flow_def)
qed

text \<open>
  C38. What a view offers is what the workflow accepts: with the scopes of the routes, a decision, a
  withdrawal or a reversion that is not offered is refused and changes nothing, and one that is offered
  passes every guard, its request being in the status the transition expects.
\<close>

theorem views_offer_what_is_accepted:
  assumes "visibleRequest flow u access rid s = Inr r" and "approval_view_of flow u access (as_world s) r = Inr v"
  shows "(if avw_canDecide v
      then ap_status r = Pending \<and> (\<exists>h. decidable_request flow u access rid Approve None s = Inr (r, h))
      else hasAuthScope u APPROVAL_DECIDE_AUTH_SCOPE \<longrightarrow>
        (\<forall>choice comment. \<exists>e. decideRequest flow u access rid choice comment s = (Inl e, s))) \<and>
    (if avw_canWithdraw v then ap_status r = Pending \<and> rq_id (ap_requestedBy r) = au_id u
      else hasAuthScope u APPROVAL_WITHDRAW_AUTH_SCOPE \<longrightarrow> (\<exists>e. withdrawRequest flow u access rid s = (Inl e, s))) \<and>
    (if avw_canRevert v
      then ap_status r = Approved \<and> (\<exists>revert. revertible_request flow u access rid s = Inr revert)
      else hasAuthScope u APPROVAL_DECIDE_AUTH_SCOPE \<longrightarrow> (\<exists>e. revertRequest flow u access rid s = (Inl e, s)))"
proof -
  obtain h where h: "map_of (wf_handlers flow) (ap_kind r) = Some h" and v:
    "avw_canDecide v \<longleftrightarrow> ap_status r = Pending \<and> hasAuthScope u APPROVAL_DECIDE_AUTH_SCOPE \<and>
      is_allowed (authorize access (ah_permission h))"
    "avw_canWithdraw v \<longleftrightarrow> ap_status r = Pending \<and> rq_id (ap_requestedBy r) = au_id u \<and>
      hasAuthScope u APPROVAL_WITHDRAW_AUTH_SCOPE"
    "avw_canRevert v \<longleftrightarrow> ap_status r = Approved \<and> ah_revert h \<noteq> None \<and>
      hasAuthScope u APPROVAL_DECIDE_AUTH_SCOPE \<and> is_allowed (authorize access (ah_permission h))"
    using assms(2) by (auto simp: approval_view_of_def Let_def)
  note f = visible_facts[OF assms(1)]
  obtain row where row: "find_request (wf_instance flow) rid (as_requests s) = Some row" "r = mapApprovalRequest row"
    using f(1) by (auto simp: getApprovalRequest_def)
  have stuck: "transition shown now (wf_instance flow) rid expected resolve s = (Inl (expected_conflict expected), s)"
    if "ap_status r \<noteq> expected" for expected shown now resolve
    using that row by (simp add: transition_def)
  have guard: "\<exists>e. require_action access (ah_permission h) = Inl e" if "\<not> is_allowed (authorize access (ah_permission h))"
    using that require_allowed[of access "ah_permission h" "()"] by (cases "require_action access (ah_permission h)") auto
  have decide: "\<exists>e. decideRequest flow u access rid choice comment s = (Inl e, s)"
    if "\<not> (ap_status r = Pending \<and> is_allowed (authorize access (ah_permission h)))" for choice comment
  proof (cases "decidable_request flow u access rid choice comment s")
    case (Inr p)
    then have "ap_status r \<noteq> Pending" "fst p = r" using that assms(1) h
      by (auto simp: decidable_request_def split: if_splits)
    then show ?thesis using Inr f(3) stuck
      by (cases p) (simp add: decideRequest_def transitionPendingApprovalRequest_def finish_transition_def)
  qed (simp add: decideRequest_def)
  have withdraw: "\<exists>e. withdrawRequest flow u access rid s = (Inl e, s)"
    if "\<not> (ap_status r = Pending \<and> rq_id (ap_requestedBy r) = au_id u)"
    using that assms(1) stuck[of Pending]
    by (auto simp: withdrawRequest_def transitionPendingApprovalRequest_def finish_transition_def)
  have revert: "\<exists>e. revertRequest flow u access rid s = (Inl e, s)"
    if "\<not> (ap_status r = Approved \<and> ah_revert h \<noteq> None \<and> is_allowed (authorize access (ah_permission h)))"
    using that assms(1) h stuck[of Approved] guard
    by (auto simp: revertRequest_def revertible_request_def transitionApprovedApprovalRequest_def finish_transition_def
        split: option.split sum.split)
  show ?thesis
    using v decide withdraw revert assms(1) h by (auto simp: decidable_request_def revertible_request_def)
qed

theorem views_offer_what_is_accepted_witness:
  "\<exists>r v. approval_view_of demo_flow (demo_user ''b'') (demo_access ''b'') (as_world demo_created) r = Inr v \<and>
    avw_canDecide v \<and> \<not> avw_canWithdraw v \<and>
    (\<exists>e. withdrawRequest demo_flow (demo_user ''b'') (demo_access ''b'') ''q'' demo_created = (Inl e, demo_created)) \<and>
    (\<exists>h. decidable_request demo_flow (demo_user ''b'') (demo_access ''b'') ''q'' Approve None demo_created = Inr (r, h))"
proof -
  have "case visibleRequest demo_flow (demo_user ''b'') (demo_access ''b'') ''q'' demo_created of
      Inl _ \<Rightarrow> False
    | Inr r \<Rightarrow> (case approval_view_of demo_flow (demo_user ''b'') (demo_access ''b'') (as_world demo_created) r of
        Inl _ \<Rightarrow> False | Inr v \<Rightarrow> avw_canDecide v \<and> \<not> avw_canWithdraw v)"
    by code_simp
  then obtain r v where r: "visibleRequest demo_flow (demo_user ''b'') (demo_access ''b'') ''q'' demo_created = Inr r"
    and v: "approval_view_of demo_flow (demo_user ''b'') (demo_access ''b'') (as_world demo_created) r = Inr v"
      "avw_canDecide v" "\<not> avw_canWithdraw v"
    by (auto split: sum.splits)
  have "hasAuthScope (demo_user ''b'') APPROVAL_WITHDRAW_AUTH_SCOPE" by code_simp
  with views_offer_what_is_accepted[OF r v(1)] v show ?thesis by auto
qed

end
