(* ===== verification/Collab_Store.thy ===== *)
theory Collab_Store imports Errors begin

text \<open>
  Collaboration workspaces: the workspaces people share and the one each has alone, memberships with
  their roles, requests for access, and the users behind them
  (\<open>packages/core/src/collaboration-workspace.ts\<close>, the tables of
  \<open>packages/postgres-store/src/schema/workspaces.ts\<close> with the statements of
  \<open>postgres-collaboration-workspace-operations.ts\<close>, \<open>postgres-workspace-deletion.ts\<close> and the parts of
  \<open>postgres-user-operations.ts\<close> that open and close an account). A date is its millisecond. A row stands
  for what is read from it. Conversations are seen as far as they keep a workspace from going, and the
  assets a workspace owns as a value of a free type that a parameter removes from.
\<close>

section \<open>Rows\<close>

datatype collab_kind = Personal | Shared

datatype workspace_visibility = Discoverable | Private_Workspace

datatype conversation_visibility = For_Workspace | Private_Conversation

datatype membership_role = Owner | Admin | Member

record collab_workspace =
  cw_id :: string
  cw_instance :: string
  cw_kind :: collab_kind
  cw_name :: string
  cw_description :: "string option"
  cw_visibility :: workspace_visibility
  cw_defaultVisibility :: conversation_visibility
  cw_emoji :: "string option"
  cw_accentColor :: "string option"
  cw_personalUserId :: "string option"
  cw_deletionRequestedAt :: "int option"
  cw_createdAt :: int
  cw_updatedAt :: int

record membership =
  mb_workspace :: string
  mb_instance :: string
  mb_user :: string
  mb_role :: membership_role
  mb_createdAt :: int
  mb_updatedAt :: int

record access_request =
  xr_id :: string
  xr_workspace :: string
  xr_instance :: string
  xr_user :: string
  xr_createdAt :: int

record product_user =
  us_id :: string
  us_instance :: string
  us_displayLabel :: string
  us_email :: "string option"
  us_identities :: "(bool \<times> string option) list"
  us_disabled :: bool
  us_deletionRequestedAt :: "int option"

datatype user_status = Active | Disabled | Deleting

definition user_status_of :: "product_user \<Rightarrow> user_status" where
  "user_status_of u =
     (if us_deletionRequestedAt u \<noteq> None then Deleting else if us_disabled u then Disabled else Active)"

record conversation_place =
  cp_id :: string
  cp_workspace :: string
  cp_instance :: string
  cp_active :: bool

record 'a collab =
  cl_workspaces :: "collab_workspace list"
  cl_memberships :: "membership list"
  cl_requests :: "access_request list"
  cl_users :: "product_user list"
  cl_conversations :: "conversation_place list"
  cl_assets :: 'a

definition constraint_violated :: js_error where
  "constraint_violated = Foreign_Error ''a constraint of the schema is violated''"

section \<open>Reading\<close>

definition notInDeletion :: "collab_workspace \<Rightarrow> bool" where
  "notInDeletion w \<longleftrightarrow> cw_deletionRequestedAt w = None"

definition workspace_row :: "string \<Rightarrow> string \<Rightarrow> collab_workspace \<Rightarrow> bool" where
  "workspace_row inst wid w \<longleftrightarrow> cw_instance w = inst \<and> cw_id w = wid"

definition getWorkspace :: "'a collab \<Rightarrow> string \<Rightarrow> string \<Rightarrow> collab_workspace option" where
  "getWorkspace s inst wid = List.find (\<lambda>w. workspace_row inst wid w \<and> notInDeletion w) (cl_workspaces s)"

definition requireWorkspace :: "'a collab \<Rightarrow> string \<Rightarrow> string \<Rightarrow> (js_error, collab_workspace) result" where
  "requireWorkspace s inst wid =
     (case getWorkspace s inst wid of
        None \<Rightarrow> Inl (app_error NOT_FOUND ''Collaboration Workspace is not available'')
      | Some w \<Rightarrow> Inr w)"

definition joined :: "membership \<Rightarrow> collab_workspace \<Rightarrow> bool" where
  "joined m w \<longleftrightarrow> cw_id w = mb_workspace m \<and> cw_instance w = mb_instance m"

definition listWorkspacesForUser :: "'a collab \<Rightarrow> string \<Rightarrow> string \<Rightarrow> (collab_workspace \<times> membership_role) list" where
  "listWorkspacesForUser s inst user =
     sort_key (\<lambda>(w, _). cw_createdAt w)
       (concat (map (\<lambda>m. map (\<lambda>w. (w, mb_role m)) (filter (\<lambda>w. joined m w \<and> notInDeletion w) (cl_workspaces s)))
         (filter (\<lambda>m. mb_instance m = inst \<and> mb_user m = user) (cl_memberships s))))"

definition listDiscoverableWorkspaces :: "'a collab \<Rightarrow> string \<Rightarrow> collab_workspace list" where
  "listDiscoverableWorkspaces s inst = sort_key cw_createdAt
     (filter (\<lambda>w. cw_instance w = inst \<and> cw_kind w = Shared \<and> cw_visibility w = Discoverable \<and> notInDeletion w)
       (cl_workspaces s))"

definition listSharedWorkspaces :: "'a collab \<Rightarrow> string \<Rightarrow> collab_workspace list" where
  "listSharedWorkspaces s inst = sort_key cw_createdAt
     (filter (\<lambda>w. cw_instance w = inst \<and> cw_kind w = Shared \<and> notInDeletion w) (cl_workspaces s))"

definition membership_where :: "string \<Rightarrow> string \<Rightarrow> string \<Rightarrow> membership \<Rightarrow> bool" where
  "membership_where inst wid user m \<longleftrightarrow> mb_instance m = inst \<and> mb_workspace m = wid \<and> mb_user m = user"

definition getMembership :: "'a collab \<Rightarrow> string \<Rightarrow> string \<Rightarrow> string \<Rightarrow> membership option" where
  "getMembership s inst wid user =
     List.find (\<lambda>m. membership_where inst wid user m \<and> list_ex (\<lambda>w. joined m w \<and> notInDeletion w) (cl_workspaces s))
       (cl_memberships s)"

definition memberships_in :: "'a collab \<Rightarrow> string \<Rightarrow> string \<Rightarrow> membership list" where
  "memberships_in s inst wid =
     sort_key mb_createdAt (filter (\<lambda>m. mb_instance m = inst \<and> mb_workspace m = wid) (cl_memberships s))"

definition listMemberships :: "'a collab \<Rightarrow> string \<Rightarrow> string \<Rightarrow> (js_error, membership list) result" where
  "listMemberships s inst wid = bind_result (requireWorkspace s inst wid) (\<lambda>_. Inr (memberships_in s inst wid))"

definition access_request_where :: "string \<Rightarrow> string \<Rightarrow> string \<Rightarrow> access_request \<Rightarrow> bool" where
  "access_request_where inst wid user x \<longleftrightarrow> xr_instance x = inst \<and> xr_workspace x = wid \<and> xr_user x = user"

definition getAccessRequest :: "'a collab \<Rightarrow> string \<Rightarrow> string \<Rightarrow> string \<Rightarrow> access_request option" where
  "getAccessRequest s inst wid user = List.find (access_request_where inst wid user) (cl_requests s)"

definition listAccessRequestsForWorkspace :: "'a collab \<Rightarrow> string \<Rightarrow> string \<Rightarrow> (js_error, access_request list) result" where
  "listAccessRequestsForWorkspace s inst wid =
     bind_result (requireWorkspace s inst wid) (\<lambda>_. Inr (sort_key xr_createdAt
       (filter (\<lambda>x. xr_instance x = inst \<and> xr_workspace x = wid) (cl_requests s))))"

definition getPersonalWorkspace :: "'a collab \<Rightarrow> string \<Rightarrow> string \<Rightarrow> collab_workspace option" where
  "getPersonalWorkspace s inst user = List.find
     (\<lambda>w. cw_instance w = inst \<and> cw_kind w = Personal \<and> cw_personalUserId w = Some user) (cl_workspaces s)"

definition getWorkspaceInDeletion :: "'a collab \<Rightarrow> string \<Rightarrow> string \<Rightarrow> (collab_workspace \<times> membership list) option" where
  "getWorkspaceInDeletion s inst wid =
     map_option (\<lambda>w. (w, memberships_in s inst wid))
       (List.find (\<lambda>w. workspace_row inst wid w \<and> \<not> notInDeletion w) (cl_workspaces s))"

definition user_row :: "string \<Rightarrow> string \<Rightarrow> product_user \<Rightarrow> bool" where
  "user_row inst user u \<longleftrightarrow> us_instance u = inst \<and> us_id u = user"

definition listUsers :: "'a collab \<Rightarrow> string \<Rightarrow> product_user list" where
  "listUsers s inst = filter (\<lambda>u. us_instance u = inst) (cl_users s)"

section \<open>Inserting under the keys of the schema\<close>

definition insert_workspace :: "collab_workspace \<Rightarrow> 'a collab \<Rightarrow> (js_error, 'a collab) result" where
  "insert_workspace w s =
     (if list_ex (\<lambda>v. cw_id v = cw_id w) (cl_workspaces s) \<or>
         cw_kind w = Personal \<and>
           list_ex (\<lambda>v. cw_kind v = Personal \<and> cw_instance v = cw_instance w \<and> cw_personalUserId v = cw_personalUserId w)
             (cl_workspaces s) \<or>
         (case cw_personalUserId w of None \<Rightarrow> False
          | Some user \<Rightarrow> \<not> list_ex (user_row (cw_instance w) user) (cl_users s)) \<or>
         (cw_kind w = Personal) \<noteq> (cw_personalUserId w \<noteq> None) \<or>
         cw_kind w = Personal \<and> (cw_visibility w \<noteq> Private_Workspace \<or> cw_defaultVisibility w \<noteq> For_Workspace)
      then Inl constraint_violated
      else Inr (s\<lparr>cl_workspaces := cl_workspaces s @ [w]\<rparr>))"

definition insert_membership :: "membership \<Rightarrow> 'a collab \<Rightarrow> (js_error, 'a collab) result" where
  "insert_membership m s =
     (if list_ex (\<lambda>n. mb_workspace n = mb_workspace m \<and> mb_user n = mb_user m) (cl_memberships s) \<or>
         \<not> list_ex (joined m) (cl_workspaces s) \<or> \<not> list_ex (user_row (mb_instance m) (mb_user m)) (cl_users s)
      then Inl constraint_violated
      else Inr (s\<lparr>cl_memberships := cl_memberships s @ [m]\<rparr>))"

definition insert_request :: "access_request \<Rightarrow> 'a collab \<Rightarrow> (js_error, 'a collab) result" where
  "insert_request x s =
     (if list_ex (\<lambda>y. xr_id y = xr_id x \<or> xr_workspace y = xr_workspace x \<and> xr_user y = xr_user x) (cl_requests s) \<or>
         \<not> list_ex (workspace_row (xr_instance x) (xr_workspace x)) (cl_workspaces s) \<or>
         \<not> list_ex (user_row (xr_instance x) (xr_user x)) (cl_users s)
      then Inl constraint_violated
      else Inr (s\<lparr>cl_requests := cl_requests s @ [x]\<rparr>))"

text \<open>Removing a workspace takes its memberships and requests with it.\<close>

definition remove_workspace :: "string \<Rightarrow> string \<Rightarrow> 'a collab \<Rightarrow> 'a collab" where
  "remove_workspace inst wid s = s
     \<lparr>cl_workspaces := delete_where (workspace_row inst wid) (cl_workspaces s),
      cl_memberships := delete_where (\<lambda>m. mb_instance m = inst \<and> mb_workspace m = wid) (cl_memberships s),
      cl_requests := delete_where (\<lambda>x. xr_instance x = inst \<and> xr_workspace x = wid) (cl_requests s)\<rparr>"

section \<open>Workspaces\<close>

record workspace_creation =
  wc_instance :: string
  wc_kind :: collab_kind
  wc_name :: string
  wc_description :: "string option"
  wc_visibility :: "workspace_visibility option"
  wc_defaultVisibility :: "conversation_visibility option"
  wc_emoji :: "string option"
  wc_accentColor :: "string option"
  wc_personalUserId :: "string option"
  wc_creator :: string

definition validateWorkspaceCreation :: "workspace_creation \<Rightarrow> (js_error, unit) result" where
  "validateWorkspaceCreation c =
     (if wc_kind c = Personal
      then
        (if wc_personalUserId c = Some [] \<or> wc_personalUserId c \<noteq> Some (wc_creator c)
         then Inl (app_error VALIDATION_FAILED ''A Personal Workspace must belong to its creator'')
         else if wc_visibility c = Some Discoverable
         then Inl (app_error VALIDATION_FAILED ''A Personal Workspace must be private'')
         else if wc_defaultVisibility c = Some Private_Conversation
         then Inl (app_error VALIDATION_FAILED ''A Personal Workspace cannot default to private conversations'')
         else Inr ())
      else if wc_personalUserId c \<noteq> None \<and> wc_personalUserId c \<noteq> Some []
      then Inl (app_error VALIDATION_FAILED ''A Shared Workspace cannot have a personal user'')
      else Inr ())"

definition new_membership :: "int \<Rightarrow> string \<Rightarrow> string \<Rightarrow> string \<Rightarrow> membership_role \<Rightarrow> membership" where
  "new_membership now inst wid user role =
     \<lparr>mb_workspace = wid, mb_instance = inst, mb_user = user, mb_role = role, mb_createdAt = now, mb_updatedAt = now\<rparr>"

definition createWorkspaceRecords ::
    "workspace_creation \<Rightarrow> string \<Rightarrow> int \<Rightarrow> 'a collab \<Rightarrow> (js_error, 'a collab \<times> collab_workspace) result" where
  "createWorkspaceRecords c newId now s =
     (if \<not> list_ex (user_row (wc_instance c) (wc_creator c)) (cl_users s)
      then Inl (app_error NOT_FOUND ''User is not available'')
      else if wc_kind c = Personal \<and> getPersonalWorkspace s (wc_instance c) (wc_creator c) \<noteq> None
      then Inl (app_error CONFLICT ''User already has a Personal Workspace'')
      else
        (let w = \<lparr>cw_id = newId, cw_instance = wc_instance c, cw_kind = wc_kind c, cw_name = wc_name c,
           cw_description = wc_description c,
           cw_visibility = (if wc_kind c = Personal then Private_Workspace
             else case wc_visibility c of None \<Rightarrow> Discoverable | Some v \<Rightarrow> v),
           cw_defaultVisibility = (case wc_defaultVisibility c of None \<Rightarrow> For_Workspace | Some v \<Rightarrow> v),
           cw_emoji = wc_emoji c, cw_accentColor = wc_accentColor c,
           cw_personalUserId = (if wc_kind c = Personal then wc_personalUserId c else None),
           cw_deletionRequestedAt = None, cw_createdAt = now, cw_updatedAt = now\<rparr> in
         bind_result (insert_workspace w s) (\<lambda>s1.
         bind_result (insert_membership (new_membership now (wc_instance c) newId (wc_creator c) Owner) s1) (\<lambda>s2.
         Inr (s2, w)))))"

definition createWorkspace ::
    "workspace_creation \<Rightarrow> string \<Rightarrow> int \<Rightarrow> 'a collab \<Rightarrow> (js_error, 'a collab \<times> collab_workspace) result" where
  "createWorkspace c newId now s =
     bind_result (validateWorkspaceCreation c) (\<lambda>_. createWorkspaceRecords c newId now s)"

text \<open>An update names the columns it sets; a description may be set to nothing.\<close>

record workspace_update =
  wu_name :: "string option"
  wu_description :: "string option option"
  wu_visibility :: "workspace_visibility option"
  wu_defaultVisibility :: "conversation_visibility option"
  wu_emoji :: "string option option"
  wu_accentColor :: "string option option"

definition set_or_keep :: "'b option \<Rightarrow> 'b \<Rightarrow> 'b" where
  "set_or_keep new old = (case new of None \<Rightarrow> old | Some x \<Rightarrow> x)"

definition updated_workspace :: "workspace_update \<Rightarrow> int \<Rightarrow> collab_workspace \<Rightarrow> collab_workspace" where
  "updated_workspace u now w = w
     \<lparr>cw_name := set_or_keep (wu_name u) (cw_name w),
      cw_description := set_or_keep (wu_description u) (cw_description w),
      cw_visibility := set_or_keep (wu_visibility u) (cw_visibility w),
      cw_defaultVisibility := set_or_keep (wu_defaultVisibility u) (cw_defaultVisibility w),
      cw_emoji := set_or_keep (wu_emoji u) (cw_emoji w),
      cw_accentColor := set_or_keep (wu_accentColor u) (cw_accentColor w),
      cw_updatedAt := now\<rparr>"

definition updateWorkspace ::
    "string \<Rightarrow> string \<Rightarrow> workspace_update \<Rightarrow> int \<Rightarrow> 'a collab \<Rightarrow> (js_error, 'a collab \<times> collab_workspace) result" where
  "updateWorkspace inst wid u now s =
     bind_result (requireWorkspace s inst wid) (\<lambda>w.
       if cw_kind w = Personal \<and> wu_name u \<noteq> None
       then Inl (app_error VALIDATION_FAILED ''A Personal Workspace cannot be renamed'')
       else if cw_kind w = Personal \<and> wu_visibility u = Some Discoverable
       then Inl (app_error VALIDATION_FAILED ''A Personal Workspace must remain private'')
       else if cw_kind w = Personal \<and> wu_defaultVisibility u = Some Private_Conversation
       then Inl (app_error VALIDATION_FAILED ''A Personal Workspace cannot default to private conversations'')
       else Inr (s\<lparr>cl_workspaces := update_where (workspace_row inst wid) (updated_workspace u now) (cl_workspaces s)\<rparr>,
         updated_workspace u now w))"

definition ensurePersonalWorkspace ::
    "string \<Rightarrow> string \<Rightarrow> string \<Rightarrow> int \<Rightarrow> 'a collab \<Rightarrow> (js_error, 'a collab \<times> collab_workspace) result" where
  "ensurePersonalWorkspace inst user newId now s =
     (case getPersonalWorkspace s inst user of
        Some w \<Rightarrow> Inr (s, w)
      | None \<Rightarrow>
          (let w = \<lparr>cw_id = newId, cw_instance = inst, cw_kind = Personal, cw_name = ''Personal workspace'',
             cw_description = None, cw_visibility = Private_Workspace, cw_defaultVisibility = For_Workspace,
             cw_emoji = None, cw_accentColor = None, cw_personalUserId = Some user, cw_deletionRequestedAt = None,
             cw_createdAt = now, cw_updatedAt = now\<rparr> in
           if \<not> list_ex (user_row inst user) (cl_users s) then Inl constraint_violated
           else
             (case insert_workspace w s of
                Inl _ \<Rightarrow> Inl (app_error INTERNAL ''Failed to provision Personal Workspace'')
              | Inr s1 \<Rightarrow>
                  (case insert_membership (new_membership now inst newId user Owner) s1 of
                     Inl _ \<Rightarrow> Inr (s1, w)
                   | Inr s2 \<Rightarrow> Inr (s2, w)))))"

section \<open>Memberships\<close>

definition addMembership ::
    "string \<Rightarrow> string \<Rightarrow> string \<Rightarrow> membership_role \<Rightarrow> int \<Rightarrow> 'a collab \<Rightarrow> (js_error, 'a collab \<times> membership) result" where
  "addMembership inst wid user role now s =
     bind_result (requireWorkspace s inst wid) (\<lambda>w.
       if cw_kind w = Personal
       then Inl (app_error VALIDATION_FAILED ''A Personal Workspace cannot gain members'')
       else if getMembership s inst wid user \<noteq> None
       then Inl (app_error CONFLICT ''Workspace Membership already exists'')
       else
         (let m = new_membership now inst wid user role in
          bind_result (insert_membership m s) (\<lambda>s'. Inr (s', m))))"

definition with_role :: "membership_role \<Rightarrow> int \<Rightarrow> membership \<Rightarrow> membership" where
  "with_role role now m = m\<lparr>mb_role := role, mb_updatedAt := now\<rparr>"

definition updateMembershipRole ::
    "string \<Rightarrow> string \<Rightarrow> string \<Rightarrow> membership_role \<Rightarrow> int \<Rightarrow> 'a collab \<Rightarrow> (js_error, 'a collab \<times> membership) result" where
  "updateMembershipRole inst wid user role now s =
     bind_result (requireWorkspace s inst wid) (\<lambda>w.
       if cw_kind w = Personal
       then Inl (app_error VALIDATION_FAILED ''A Personal Workspace membership cannot change'')
       else (case List.find (membership_where inst wid user) (cl_memberships s) of
           None \<Rightarrow> Inl (app_error NOT_FOUND ''Workspace Membership is not available'')
         | Some m \<Rightarrow> Inr (s\<lparr>cl_memberships :=
             update_where (membership_where inst wid user) (with_role role now) (cl_memberships s)\<rparr>, with_role role now m)))"

definition removeMembership ::
    "string \<Rightarrow> string \<Rightarrow> string \<Rightarrow> 'a collab \<Rightarrow> (js_error, 'a collab \<times> membership) result" where
  "removeMembership inst wid user s =
     bind_result (requireWorkspace s inst wid) (\<lambda>w.
       if cw_kind w = Personal
       then Inl (app_error VALIDATION_FAILED ''A Personal Workspace membership cannot be removed'')
       else (case List.find (membership_where inst wid user) (cl_memberships s) of
           None \<Rightarrow> Inl (app_error NOT_FOUND ''Workspace Membership is not available'')
         | Some m \<Rightarrow> Inr (s\<lparr>cl_memberships := delete_where (membership_where inst wid user) (cl_memberships s)\<rparr>, m)))"

definition removeMembershipsForUser :: "string \<Rightarrow> string \<Rightarrow> 'a collab \<Rightarrow> 'a collab \<times> nat" where
  "removeMembershipsForUser inst user s =
     (let shared = map cw_id (filter (\<lambda>w. cw_instance w = inst \<and> cw_kind w = Shared) (cl_workspaces s));
          theirs = (\<lambda>m. mb_instance m = inst \<and> mb_user m = user \<and> mb_workspace m \<in> set shared) in
      (s\<lparr>cl_memberships := delete_where theirs (cl_memberships s)\<rparr>, count_where theirs (cl_memberships s)))"

section \<open>Requests for access\<close>

definition createAccessRequest ::
    "string \<Rightarrow> string \<Rightarrow> string \<Rightarrow> string \<Rightarrow> int \<Rightarrow> 'a collab \<Rightarrow> (js_error, 'a collab \<times> access_request) result" where
  "createAccessRequest inst wid user newId now s =
     bind_result (requireWorkspace s inst wid) (\<lambda>w.
       if cw_kind w \<noteq> Shared \<or> cw_visibility w \<noteq> Discoverable
       then Inl (app_error VALIDATION_FAILED ''Access requests require a Discoverable Shared Workspace'')
       else if getMembership s inst wid user \<noteq> None
       then Inl (app_error CONFLICT ''User is already a workspace member'')
       else if getAccessRequest s inst wid user \<noteq> None
       then Inl (app_error CONFLICT ''Workspace Access Request already exists'')
       else
         (let x = \<lparr>xr_id = newId, xr_workspace = wid, xr_instance = inst, xr_user = user, xr_createdAt = now\<rparr> in
          bind_result (insert_request x s) (\<lambda>s'. Inr (s', x))))"

definition deleteAccessRequest ::
    "string \<Rightarrow> string \<Rightarrow> string \<Rightarrow> 'a collab \<Rightarrow> (js_error, 'a collab \<times> access_request) result" where
  "deleteAccessRequest inst wid user s =
     (case getAccessRequest s inst wid user of
        None \<Rightarrow> Inl (app_error NOT_FOUND ''Workspace Access Request is not available'')
      | Some x \<Rightarrow> Inr (s\<lparr>cl_requests := delete_where (access_request_where inst wid user) (cl_requests s)\<rparr>, x))"

definition deleteAccessRequestsForUser :: "string \<Rightarrow> string \<Rightarrow> 'a collab \<Rightarrow> 'a collab \<times> nat" where
  "deleteAccessRequestsForUser inst user s =
     (let theirs = (\<lambda>x. xr_instance x = inst \<and> xr_user x = user) in
      (s\<lparr>cl_requests := delete_where theirs (cl_requests s)\<rparr>, count_where theirs (cl_requests s)))"

end
