(* ===== verification/Collab_Accounts.thy ===== *)
theory Collab_Accounts imports Collab_Store Json_Text begin

text \<open>
  Closing workspaces and accounts: the marks of a deletion, the locks that serialize whatever can take
  the last owner from a workspace, and the removal of what was marked
  (\<open>packages/postgres-store/src/postgres-workspace-deletion.ts\<close>, \<open>postgres-user-operations.ts\<close>,
  \<open>packages/chat-server/src/user-deletion.ts\<close>, \<open>account-deletion.ts\<close>). How many deleted
  conversations of a workspace still hold data, and the removal of the assets it owns, are parameters.
\<close>

section \<open>Workspaces\<close>

definition markWorkspaceDeletionRequested ::
    "string \<Rightarrow> string \<Rightarrow> int \<Rightarrow> 'a collab \<Rightarrow> (js_error, 'a collab \<times> bool) result" where
  "markWorkspaceDeletionRequested inst wid now s =
     (let target = (\<lambda>w. workspace_row inst wid w \<and> cw_kind w = Shared \<and> notInDeletion w) in
      if list_ex target (cl_workspaces s)
      then Inr (s\<lparr>cl_workspaces := update_where target (\<lambda>w. w\<lparr>cw_deletionRequestedAt := Some now\<rparr>) (cl_workspaces s)\<rparr>, True)
      else
        (case List.find (workspace_row inst wid) (cl_workspaces s) of
           None \<Rightarrow> Inl (app_error NOT_FOUND ''Collaboration Workspace is not available'')
         | Some w \<Rightarrow>
             if cw_kind w = Personal
             then Inl (app_error VALIDATION_FAILED ''A Personal Workspace cannot be deleted'')
             else Inr (s, False)))"

definition pendingConversationCleanupError :: "collab_kind \<Rightarrow> nat \<Rightarrow> js_error" where
  "pendingConversationCleanupError kind n = app_error_with CONFLICT
     ((if kind = Personal then ''The account'' else ''This workspace'') @
      '' cannot be deleted yet because data of its deleted conversations is still being removed. Try again later.'')
     (JObj [(''pendingCleanupCount'', JNum (of_nat n))])"

definition requireNoPendingConversationCleanup :: "(string \<Rightarrow> nat) \<Rightarrow> collab_workspace \<Rightarrow> (js_error, unit) result" where
  "requireNoPendingConversationCleanup pending w =
     (if 0 < pending (cw_id w) then Inl (pendingConversationCleanupError (cw_kind w) (pending (cw_id w))) else Inr ())"

definition in_workspace :: "string \<Rightarrow> string \<Rightarrow> conversation_place \<Rightarrow> bool" where
  "in_workspace inst wid c \<longleftrightarrow> cp_instance c = inst \<and> cp_workspace c = wid"

text \<open>
  The end of both removals: the conversations that are left, the assets the workspace owns, the row.
\<close>

definition remove_for_good ::
    "(string \<Rightarrow> string \<Rightarrow> 'a \<Rightarrow> (js_error, 'a) result) \<Rightarrow> string \<Rightarrow> string \<Rightarrow> 'a collab \<Rightarrow> (js_error, 'a collab) result" where
  "remove_for_good deleteOwned inst wid s =
     bind_result (deleteOwned inst wid (cl_assets s)) (\<lambda>assets.
       Inr ((remove_workspace inst wid s)
         \<lparr>cl_assets := assets, cl_conversations := delete_where (in_workspace inst wid) (cl_conversations s)\<rparr>))"

definition deleteWorkspace ::
    "(string \<Rightarrow> nat) \<Rightarrow> (string \<Rightarrow> string \<Rightarrow> 'a \<Rightarrow> (js_error, 'a) result) \<Rightarrow> string \<Rightarrow> string \<Rightarrow> 'a collab \<Rightarrow>
     (js_error, 'a collab \<times> collab_workspace) result" where
  "deleteWorkspace pending deleteOwned inst wid s =
     (case List.find (workspace_row inst wid) (cl_workspaces s) of
        None \<Rightarrow> Inl (app_error NOT_FOUND ''Collaboration Workspace is not available'')
      | Some w \<Rightarrow>
          if cw_kind w = Personal
          then Inl (app_error VALIDATION_FAILED ''A Personal Workspace cannot be deleted'')
          else if list_ex (\<lambda>c. in_workspace inst wid c \<and> cp_active c) (cl_conversations s)
          then Inl (app_error CONFLICT ''Workspace still contains conversations'')
          else
            bind_result (requireNoPendingConversationCleanup pending w) (\<lambda>_.
            bind_result (remove_for_good deleteOwned inst wid s) (\<lambda>s'. Inr (s', w))))"

definition deletePersonalWorkspaceForUser ::
    "(string \<Rightarrow> nat) \<Rightarrow> (string \<Rightarrow> string \<Rightarrow> 'a \<Rightarrow> (js_error, 'a) result) \<Rightarrow> string \<Rightarrow> string \<Rightarrow> 'a collab \<Rightarrow>
     (js_error, 'a collab \<times> collab_workspace) result" where
  "deletePersonalWorkspaceForUser pending deleteOwned inst user s =
     (case getPersonalWorkspace s inst user of
        None \<Rightarrow> Inl (app_error NOT_FOUND ''Personal Workspace is not available'')
      | Some w \<Rightarrow>
          if list_ex (\<lambda>c. in_workspace inst (cw_id w) c \<and> cp_active c) (cl_conversations s)
          then Inl (app_error CONFLICT ''Personal Workspace still has active conversations'')
          else
            bind_result (requireNoPendingConversationCleanup pending w) (\<lambda>_.
            bind_result (remove_for_good deleteOwned inst (cw_id w) s) (\<lambda>s'. Inr (s', w))))"

section \<open>Users\<close>

definition userInDeletionError :: js_error where
  "userInDeletionError = app_error CONFLICT ''User account is being deleted''"

definition requireUserRecord :: "'a collab \<Rightarrow> string \<Rightarrow> string \<Rightarrow> (js_error, product_user) result" where
  "requireUserRecord s inst user =
     (case List.find (user_row inst user) (cl_users s) of
        None \<Rightarrow> Inl (app_error NOT_FOUND ''User is not available'')
      | Some u \<Rightarrow> Inr u)"

definition insert_user :: "product_user \<Rightarrow> 'a collab \<Rightarrow> (js_error, 'a collab) result" where
  "insert_user u s =
     (if list_ex (\<lambda>v. us_id v = us_id u) (cl_users s) \<or> us_deletionRequestedAt u \<noteq> None
      then Inl constraint_violated else Inr (s\<lparr>cl_users := cl_users s @ [u]\<rparr>))"

text \<open>A user comes with a personal workspace, in one transaction.\<close>

definition createUser :: "product_user \<Rightarrow> string \<Rightarrow> int \<Rightarrow> 'a collab \<Rightarrow> (js_error, 'a collab) result" where
  "createUser u newId now s =
     bind_result (insert_user u s) (\<lambda>s1.
     bind_result (ensurePersonalWorkspace (us_instance u) (us_id u) newId now s1) (\<lambda>(s2, _). Inr s2))"

text \<open>An update of a user, with the columns a row here has: the label, the address and whether it is disabled.\<close>

definition updateUser ::
    "string \<Rightarrow> string \<Rightarrow> string option \<Rightarrow> string option option \<Rightarrow> bool option \<Rightarrow> 'a collab \<Rightarrow> (js_error, 'a collab) result" where
  "updateUser inst user label email disabled s =
     (let target = (\<lambda>u. user_row inst user u \<and> us_deletionRequestedAt u = None) in
      if list_ex target (cl_users s)
      then Inr (s\<lparr>cl_users := update_where target
        (\<lambda>u. u\<lparr>us_displayLabel := set_or_keep label (us_displayLabel u), us_email := set_or_keep email (us_email u), us_disabled := set_or_keep disabled (us_disabled u)\<rparr>) (cl_users s)\<rparr>)
      else bind_result (requireUserRecord s inst user) (\<lambda>_. Inl userInDeletionError))"

definition markUserDeletionRequested ::
    "string \<Rightarrow> string \<Rightarrow> int \<Rightarrow> 'a collab \<Rightarrow> (js_error, 'a collab \<times> bool) result" where
  "markUserDeletionRequested inst user now s =
     (let target = (\<lambda>u. user_row inst user u \<and> us_deletionRequestedAt u = None) in
      if list_ex target (cl_users s)
      then Inr (s\<lparr>cl_users := update_where target (\<lambda>u. u\<lparr>us_deletionRequestedAt := Some now\<rparr>) (cl_users s)\<rparr>, True)
      else bind_result (requireUserRecord s inst user) (\<lambda>_. Inr (s, False)))"

text \<open>
  A user with a membership or a personal workspace cannot be deleted; requests for access go along. The
  grants of the user, which go in the same transaction, are rows of another component.
\<close>

definition deleteUser :: "string \<Rightarrow> string \<Rightarrow> 'a collab \<Rightarrow> (js_error, 'a collab) result" where
  "deleteUser inst user s =
     bind_result (requireUserRecord s inst user) (\<lambda>_.
       if list_ex (\<lambda>m. mb_instance m = inst \<and> mb_user m = user) (cl_memberships s) \<or>
          list_ex (\<lambda>w. cw_instance w = inst \<and> cw_personalUserId w = Some user) (cl_workspaces s)
       then Inl constraint_violated
       else Inr (s\<lparr>cl_users := delete_where (user_row inst user) (cl_users s),
         cl_requests := delete_where (\<lambda>x. xr_instance x = inst \<and> xr_user x = user) (cl_requests s)\<rparr>))"

section \<open>The last owner\<close>

definition active_users :: "'a collab \<Rightarrow> string \<Rightarrow> string set" where
  "active_users s inst = set (map us_id (filter (\<lambda>u. user_status_of u = Active) (listUsers s inst)))"

definition another_active_owner :: "'a collab \<Rightarrow> string \<Rightarrow> string \<Rightarrow> membership list \<Rightarrow> bool" where
  "another_active_owner s inst user ms \<longleftrightarrow>
     list_ex (\<lambda>m. mb_role m = Owner \<and> mb_user m \<noteq> user \<and> mb_user m \<in> active_users s inst) ms"

text \<open>The workspaces that are locked: the one named, or all shared ones the user owns.\<close>

definition locked_for_owner_change :: "'a collab \<Rightarrow> string \<Rightarrow> string + string \<Rightarrow> string list" where
  "locked_for_owner_change s inst which =
     map cw_id (filter (\<lambda>w. cw_instance w = inst \<and> cw_kind w = Shared \<and>
       (case which of
          Inl wid \<Rightarrow> cw_id w = wid
        | Inr user \<Rightarrow> list_ex (\<lambda>m. mb_instance m = inst \<and> mb_user m = user \<and> mb_role m = Owner \<and> mb_workspace m = cw_id w)
            (cl_memberships s))) (cl_workspaces s))"

definition blocking_workspaces :: "'a collab \<Rightarrow> string \<Rightarrow> string \<Rightarrow> (js_error, nat) result" where
  "blocking_workspaces s inst user =
     bind_result
       (map_result (\<lambda>(w, role).
          if cw_kind w \<noteq> Shared \<or> role \<noteq> Owner then Inr False
          else bind_result (listMemberships s inst (cw_id w)) (\<lambda>ms. Inr (\<not> another_active_owner s inst user ms)))
         (listWorkspacesForUser s inst user))
       (\<lambda>bs. Inr (count_where (\<lambda>b. b) bs))"

definition requireNoSoleOwnedSharedWorkspace :: "'a collab \<Rightarrow> string \<Rightarrow> string \<Rightarrow> (js_error, unit) result" where
  "requireNoSoleOwnedSharedWorkspace s inst user =
     bind_result (blocking_workspaces s inst user) (\<lambda>n.
       if 0 < n
       then Inl (app_error_with CONFLICT
         (''User is the last active owner of '' @ int_text (int n) @ '' Shared Workspace'' @ (if n = 1 then [] else ''s''))
         (JObj [(''blockingWorkspaceCount'', JNum (of_nat n))]))
       else Inr ())"

text \<open>
  The transaction that accepts the deletion of an account: what it reads is state \<open>s\<close>, what it marks
  is \<open>t\<close>. Under locks that cover whatever happens in between they are the same.
\<close>

definition requestAccountDeletion ::
    "string \<Rightarrow> string \<Rightarrow> bool \<Rightarrow> int \<Rightarrow> 'a collab \<Rightarrow> 'a collab \<Rightarrow> (js_error, 'a collab \<times> bool) result" where
  "requestAccountDeletion inst user alreadyRequested now s t =
     bind_result (if alreadyRequested then Inr () else requireNoSoleOwnedSharedWorkspace s inst user) (\<lambda>_.
       markUserDeletionRequested inst user now t)"

end
