(* ===== verification/Collab_Workflow.thy ===== *)
theory Collab_Workflow imports Collab_Accounts begin

text \<open>
  What people do in collaboration workspaces
  (\<open>packages/chat-server/src/collaboration-workspace-workflow.ts\<close>). A handler checks what it reads and
  then writes in a transaction of its own; what others do in between is a parameter. Every change of an
  owner reads the role again under the lock.
\<close>

section \<open>Callers and access\<close>

record collab_user =
  cu_id :: string
  cu_superadmin :: bool

record 'a collab_env =
  ce_instance :: string
  ce_now :: int
  ce_newId :: string
  ce_meanwhile :: "'a collab \<Rightarrow> 'a collab"
  ce_record :: "string \<Rightarrow> (js_error, unit) result"
  ce_idle :: "string \<Rightarrow> (js_error, unit) result"

record workspace_access =
  wa_userId :: string
  wa_role :: membership_role
  wa_membershipRole :: "membership_role option"

definition effectiveWorkspaceRole ::
    "collab_user \<Rightarrow> collab_workspace \<Rightarrow> membership_role option \<Rightarrow> membership_role option" where
  "effectiveWorkspaceRole u w role = (if cu_superadmin u \<and> cw_kind w = Shared then Some Owner else role)"

definition requireWorkspaceAccess ::
    "'a collab_env \<Rightarrow> collab_user \<Rightarrow> string \<Rightarrow> 'a collab \<Rightarrow> (js_error, workspace_access) result" where
  "requireWorkspaceAccess env u wid s =
     (let membershipRole = map_option mb_role (getMembership s (ce_instance env) wid (cu_id u));
          role = (case (if cu_superadmin u then getWorkspace s (ce_instance env) wid else None) of
             Some w \<Rightarrow> effectiveWorkspaceRole u w membershipRole
           | None \<Rightarrow> membershipRole) in
      case role of
        None \<Rightarrow> Inl (app_error NOT_FOUND ''Collaboration Workspace is not available'')
      | Some r \<Rightarrow> Inr \<lparr>wa_userId = cu_id u, wa_role = r, wa_membershipRole = membershipRole\<rparr>)"

definition requireOwnerOrAdmin :: "workspace_access \<Rightarrow> (js_error, unit) result" where
  "requireOwnerOrAdmin a =
     (if wa_role a \<noteq> Owner \<and> wa_role a \<noteq> Admin
      then Inl (app_error FORBIDDEN ''Workspace Owner or Admin access is required'') else Inr ())"

definition requireOwner :: "workspace_access \<Rightarrow> (js_error, unit) result" where
  "requireOwner a =
     (if wa_role a \<noteq> Owner then Inl (app_error FORBIDDEN ''Workspace Owner access is required'') else Inr ())"

definition requireSharedWorkspace :: "'a collab_env \<Rightarrow> string \<Rightarrow> 'a collab \<Rightarrow> (js_error, collab_workspace) result" where
  "requireSharedWorkspace env wid s =
     bind_result (requireWorkspace s (ce_instance env) wid) (\<lambda>w.
       if cw_kind w \<noteq> Shared then Inl (app_error VALIDATION_FAILED ''This action requires a Shared Workspace'')
       else Inr w)"

definition requireMembership :: "'a collab_env \<Rightarrow> string \<Rightarrow> string \<Rightarrow> 'a collab \<Rightarrow> (js_error, membership) result" where
  "requireMembership env wid user s =
     (case getMembership s (ce_instance env) wid user of
        None \<Rightarrow> Inl (app_error NOT_FOUND ''Workspace member is not available'')
      | Some m \<Rightarrow> Inr m)"

text \<open>Checks on what was read, then a transaction on what is there by then; and the event that follows it.\<close>

definition checked_write ::
    "'a collab_env \<Rightarrow> (js_error, 'c) result \<Rightarrow> ('c \<Rightarrow> 'a collab \<Rightarrow> (js_error, 'a collab \<times> 'b) result) \<Rightarrow>
     'a collab \<Rightarrow> (js_error, 'b) result \<times> 'a collab" where
  "checked_write env checks write s =
     (case checks of
        Inl e \<Rightarrow> (Inl e, s)
      | Inr c \<Rightarrow>
          let t = ce_meanwhile env s in
          (case write c t of Inl e \<Rightarrow> (Inl e, t) | Inr (t', b) \<Rightarrow> (Inr b, t')))"

definition checked_then ::
    "'a collab_env \<Rightarrow> string \<Rightarrow> (js_error, 'c) result \<Rightarrow> ('c \<Rightarrow> 'a collab \<Rightarrow> (js_error, 'a collab \<times> 'b) result) \<Rightarrow>
     'a collab \<Rightarrow> (js_error, 'b) result \<times> 'a collab" where
  "checked_then env type checks write s =
     (let (r, t) = checked_write env checks write s in
      (bind_result r (\<lambda>b. bind_result (ce_record env type) (\<lambda>_. Inr b)), t))"

text \<open>What a handler answers, from what it wrote and what is there then.\<close>

definition answering ::
    "('b \<Rightarrow> 'a collab \<Rightarrow> (js_error, 'd) result) \<Rightarrow> (js_error, 'b) result \<times> 'a collab \<Rightarrow> (js_error, 'd) result \<times> 'a collab" where
  "answering f p = (bind_result (fst p) (\<lambda>b. f b (snd p)), snd p)"

text \<open>The transaction around every change that may take an owner away.\<close>

definition underOwnerLock ::
    "'a collab_env \<Rightarrow> string \<Rightarrow> string \<Rightarrow> ('a collab \<Rightarrow> (js_error, 'a collab \<times> 'b) result) \<Rightarrow> 'a collab \<Rightarrow>
     (js_error, 'a collab \<times> 'b) result" where
  "underOwnerLock env wid user change t =
     bind_result
       (if map_option mb_role (getMembership t (ce_instance env) wid user) = Some Owner
        then bind_result (listMemberships t (ce_instance env) wid) (\<lambda>ms.
          if another_active_owner t (ce_instance env) user ms then Inr ()
          else Inl (app_error CONFLICT ''A Shared Workspace must retain at least one active owner''))
        else Inr ())
       (\<lambda>_. change t)"

section \<open>Texts of a workspace\<close>

definition MAX_WORKSPACE_NAME_LENGTH :: nat where
  "MAX_WORKSPACE_NAME_LENGTH = 120"

definition MAX_WORKSPACE_DESCRIPTION_LENGTH :: nat where
  "MAX_WORKSPACE_DESCRIPTION_LENGTH = 500"

definition MAX_WORKSPACE_EMOJI_LENGTH :: nat where
  "MAX_WORKSPACE_EMOJI_LENGTH = 32"

definition WORKSPACE_ACCENT_COLORS :: "string list" where
  "WORKSPACE_ACCENT_COLORS =
     [''garnet'', ''ruby'', ''mahogany'', ''copper'', ''amber'', ''olive'', ''jade'', ''emerald'', ''teal'',
      ''turquoise'', ''azure'', ''sapphire'', ''indigo'', ''violet'', ''magenta'', ''rose'', ''stone'', ''slate'']"

definition normalizeRequiredName :: "string \<Rightarrow> (js_error, string) result" where
  "normalizeRequiredName value =
     (let normalized = trim value in
      if normalized = [] then Inl (app_error VALIDATION_FAILED ''Workspace name is required'')
      else if MAX_WORKSPACE_NAME_LENGTH < length normalized
      then Inl (app_error VALIDATION_FAILED ''Workspace name must be at most 120 characters'')
      else Inr normalized)"

definition normalized_optional :: "nat \<Rightarrow> string \<Rightarrow> string option \<Rightarrow> (js_error, string option) result" where
  "normalized_optional limit message value =
     (case value of
        None \<Rightarrow> Inr None
      | Some v \<Rightarrow>
          let normalized = trim v in
          if limit < length normalized then Inl (app_error VALIDATION_FAILED message)
          else Inr (if normalized = [] then None else Some normalized))"

definition normalizeDescription :: "string option \<Rightarrow> (js_error, string option) result" where
  "normalizeDescription = normalized_optional MAX_WORKSPACE_DESCRIPTION_LENGTH
     ''Workspace description must be at most 500 characters''"

definition normalizeEmoji :: "string option \<Rightarrow> (js_error, string option) result" where
  "normalizeEmoji = normalized_optional MAX_WORKSPACE_EMOJI_LENGTH ''Workspace emoji must be at most 32 characters''"

definition validateAccentColor :: "string option \<Rightarrow> (js_error, string option) result" where
  "validateAccentColor value =
     (case value of
        None \<Rightarrow> Inr None
      | Some c \<Rightarrow>
          if c \<in> set WORKSPACE_ACCENT_COLORS then Inr (Some c)
          else Inl (app_error VALIDATION_FAILED ''Workspace accent color is not available''))"

text \<open>A part of an update that is given is normalized, one that is not stays away.\<close>

definition given :: "('b \<Rightarrow> (js_error, 'c) result) \<Rightarrow> 'b option \<Rightarrow> (js_error, 'c option) result" where
  "given f x = (case x of None \<Rightarrow> Inr None | Some v \<Rightarrow> bind_result (f v) (\<lambda>y. Inr (Some y)))"

definition normalized_update :: "workspace_update \<Rightarrow> (js_error, workspace_update) result" where
  "normalized_update u =
     bind_result (given normalizeRequiredName (wu_name u)) (\<lambda>n.
     bind_result (given normalizeDescription (wu_description u)) (\<lambda>d.
     bind_result (given normalizeEmoji (wu_emoji u)) (\<lambda>e.
     bind_result (given validateAccentColor (wu_accentColor u)) (\<lambda>c.
       Inr \<lparr>wu_name = n, wu_description = d, wu_visibility = wu_visibility u,
         wu_defaultVisibility = wu_defaultVisibility u, wu_emoji = e, wu_accentColor = c\<rparr>))))"

definition workspaceChangedFields :: "collab_workspace \<Rightarrow> workspace_update \<Rightarrow> string list" where
  "workspaceChangedFields w u =
     (let changes = (\<lambda>new old. case new of None \<Rightarrow> False | Some x \<Rightarrow> x \<noteq> old) in
      map fst (filter snd
        [(''name'', changes (wu_name u) (cw_name w)),
         (''description'', case wu_description u of None \<Rightarrow> False | Some x \<Rightarrow> x \<noteq> cw_description w),
         (''visibility'', case wu_visibility u of None \<Rightarrow> False | Some x \<Rightarrow> x \<noteq> cw_visibility w),
         (''defaultConversationVisibility'',
            case wu_defaultVisibility u of None \<Rightarrow> False | Some x \<Rightarrow> x \<noteq> cw_defaultVisibility w),
         (''emoji'', case wu_emoji u of None \<Rightarrow> False | Some x \<Rightarrow> x \<noteq> cw_emoji w),
         (''accentColor'', case wu_accentColor u of None \<Rightarrow> False | Some x \<Rightarrow> x \<noteq> cw_accentColor w)]))"

section \<open>What is answered\<close>

record workspace_item =
  wi_workspace :: collab_workspace
  wi_role :: membership_role
  wi_membershipRole :: "membership_role option"
  wi_pendingAccessRequestCount :: nat

definition countPendingAccessRequests ::
    "'a collab_env \<Rightarrow> string \<Rightarrow> membership_role option \<Rightarrow> 'a collab \<Rightarrow> (js_error, nat) result" where
  "countPendingAccessRequests env wid role s =
     (if role \<noteq> Some Owner \<and> role \<noteq> Some Admin then Inr 0
      else bind_result (listAccessRequestsForWorkspace s (ce_instance env) wid) (\<lambda>xs. Inr (length xs)))"

definition toListItem ::
    "'a collab_env \<Rightarrow> 'a collab \<Rightarrow> collab_workspace \<Rightarrow> membership_role \<Rightarrow> membership_role option \<Rightarrow> (js_error, workspace_item) result" where
  "toListItem env s w role membershipRole =
     bind_result (countPendingAccessRequests env (cw_id w) membershipRole s) (\<lambda>n. Inr
       \<lparr>wi_workspace = w, wi_role = role, wi_membershipRole = membershipRole, wi_pendingAccessRequestCount = n\<rparr>)"

definition get_workspace :: "'a collab_env \<Rightarrow> collab_user \<Rightarrow> string \<Rightarrow> 'a collab \<Rightarrow> (js_error, workspace_item) result" where
  "get_workspace env u wid s =
     bind_result (requireWorkspaceAccess env u wid s) (\<lambda>a.
     bind_result (requireWorkspace s (ce_instance env) wid) (\<lambda>w.
       toListItem env s w (wa_role a) (wa_membershipRole a)))"

record member_item =
  mi_userId :: string
  mi_displayLabel :: string
  mi_email :: "string option"
  mi_role :: membership_role

definition member_item_of :: "product_user \<Rightarrow> membership_role \<Rightarrow> member_item" where
  "member_item_of v role = \<lparr>mi_userId = us_id v, mi_displayLabel = us_displayLabel v, mi_email = us_email v, mi_role = role\<rparr>"

section \<open>Settings and members\<close>

definition createSharedWorkspace ::
    "'a collab_env \<Rightarrow> collab_user \<Rightarrow> workspace_creation \<Rightarrow> 'a collab \<Rightarrow> (js_error, workspace_item) result \<times> 'a collab" where
  "createSharedWorkspace env u c s =
     answering (\<lambda>w _. Inr \<lparr>wi_workspace = w, wi_role = Owner, wi_membershipRole = Some Owner, wi_pendingAccessRequestCount = 0\<rparr>)
     (checked_then env ''collaboration_workspace.created''
       (bind_result (normalizeRequiredName (wc_name c)) (\<lambda>n.
        bind_result (normalizeDescription (wc_description c)) (\<lambda>d.
        bind_result (normalizeEmoji (wc_emoji c)) (\<lambda>e.
        bind_result (validateAccentColor (wc_accentColor c)) (\<lambda>k.
          Inr \<lparr>wc_instance = ce_instance env, wc_kind = Shared, wc_name = n, wc_description = d,
            wc_visibility = Some (set_or_keep (wc_visibility c) Discoverable),
            wc_defaultVisibility = Some (set_or_keep (wc_defaultVisibility c) For_Workspace),
            wc_emoji = e, wc_accentColor = k, wc_personalUserId = None, wc_creator = cu_id u\<rparr>)))))
       (\<lambda>c' t. createWorkspace c' (ce_newId env) (ce_now env) t) s)"

definition updateSettings ::
    "'a collab_env \<Rightarrow> collab_user \<Rightarrow> string \<Rightarrow> workspace_update \<Rightarrow> 'a collab \<Rightarrow> (js_error, workspace_item) result \<times> 'a collab" where
  "updateSettings env u wid command s =
     (let checks =
        bind_result (requireWorkspaceAccess env u wid s) (\<lambda>a.
        bind_result (requireOwnerOrAdmin a) (\<lambda>_.
        bind_result (requireWorkspace s (ce_instance env) wid) (\<lambda>w.
          if cw_kind w = Personal
          then Inl (app_error VALIDATION_FAILED ''Personal Workspace settings cannot be changed'')
          else bind_result (normalized_update command) (\<lambda>update. Inr (a, w, update))))) in
      case checks of
        Inl e \<Rightarrow> (Inl e, s)
      | Inr (a, w, update) \<Rightarrow>
          if workspaceChangedFields w update = []
          then (get_workspace env u wid (ce_meanwhile env s), ce_meanwhile env s)
          else answering (\<lambda>w t. toListItem env t w (wa_role a) (wa_membershipRole a))
            (checked_then env ''collaboration_workspace.updated'' (Inr update)
              (\<lambda>update t. updateWorkspace (ce_instance env) wid update (ce_now env) t) s))"

definition CANNOT_ADD_MEMBER_MESSAGE :: string where
  "CANNOT_ADD_MEMBER_MESSAGE =
     ''This user cannot be added. Invitations for people without an eligible account are not available yet.''"

definition eligible_by_email :: "string \<Rightarrow> product_user \<Rightarrow> bool" where
  "eligible_by_email email u \<longleftrightarrow> user_status_of u = Active \<and>
     (map_option to_lower (us_email u) = Some email \<or>
      list_ex (\<lambda>(verified, e). verified \<and> map_option to_lower e = Some email) (us_identities u))"

text \<open>
  The two statements that make a requester a member are not one transaction: the request goes after
  the membership was written.
\<close>

definition add_and_clear ::
    "'a collab_env \<Rightarrow> string \<Rightarrow> string \<Rightarrow> string \<Rightarrow> bool \<Rightarrow> 'a collab \<Rightarrow> (js_error, membership) result \<times> 'a collab" where
  "add_and_clear env type wid user pending s =
     (case addMembership (ce_instance env) wid user Member (ce_now env) s of
        Inl e \<Rightarrow> (Inl e, s)
      | Inr (t, m) \<Rightarrow>
          if \<not> pending then (bind_result (ce_record env type) (\<lambda>_. Inr m), t)
          else checked_then env type (Inr ())
            (\<lambda>_ t. bind_result (deleteAccessRequest (ce_instance env) wid user t) (\<lambda>(t', _). Inr (t', m))) t)"

definition addMemberByEmail ::
    "'a collab_env \<Rightarrow> collab_user \<Rightarrow> string \<Rightarrow> string \<Rightarrow> 'a collab \<Rightarrow> (js_error, member_item) result \<times> 'a collab" where
  "addMemberByEmail env u wid email s =
     (case bind_result (requireWorkspaceAccess env u wid s) (\<lambda>a.
           bind_result (requireOwnerOrAdmin a) (\<lambda>_.
           bind_result (requireSharedWorkspace env wid s) (\<lambda>_.
           if trim email = [] then Inl (app_error VALIDATION_FAILED CANNOT_ADD_MEMBER_MESSAGE)
           else
             (case filter (eligible_by_email (to_lower (trim email))) (listUsers s (ce_instance env)) of
                [target] \<Rightarrow>
                  if getMembership s (ce_instance env) wid (us_id target) \<noteq> None
                  then Inl (app_error CONFLICT ''User is already a workspace member'')
                  else Inr (target, getAccessRequest s (ce_instance env) wid (us_id target) \<noteq> None)
              | _ \<Rightarrow> Inl (app_error VALIDATION_FAILED CANNOT_ADD_MEMBER_MESSAGE))))) of
        Inl e \<Rightarrow> (Inl e, s)
      | Inr (target, pending) \<Rightarrow>
          answering (\<lambda>_ _. Inr (member_item_of target Member))
            (add_and_clear env ''collaboration_workspace.member_added'' wid (us_id target) pending (ce_meanwhile env s)))"

definition changeMemberRole ::
    "'a collab_env \<Rightarrow> collab_user \<Rightarrow> string \<Rightarrow> string \<Rightarrow> membership_role \<Rightarrow> 'a collab \<Rightarrow>
     (js_error, membership) result \<times> 'a collab" where
  "changeMemberRole env u wid target role s =
     checked_then env ''collaboration_workspace.member_role_changed''
       (bind_result (requireWorkspaceAccess env u wid s) (\<lambda>actor.
          if wa_role actor \<noteq> Owner \<and> wa_role actor \<noteq> Admin
          then Inl (app_error FORBIDDEN ''Workspace Owner access is required'')
          else
            bind_result (requireSharedWorkspace env wid s) (\<lambda>_.
            bind_result (requireMembership env wid target s) (\<lambda>m.
              if wa_role actor = Admin \<and> (mb_role m \<noteq> Member \<or> role \<noteq> Member)
              then Inl (app_error FORBIDDEN ''Workspace Admins may manage regular Members only'')
              else if mb_role m = role then Inl (app_error CONFLICT ''Workspace role is unchanged'')
              else Inr ()))))
       (\<lambda>_ t. underOwnerLock env wid target
          (\<lambda>t. updateMembershipRole (ce_instance env) wid target role (ce_now env) t) t) s"

definition removeMember ::
    "'a collab_env \<Rightarrow> collab_user \<Rightarrow> string \<Rightarrow> string \<Rightarrow> 'a collab \<Rightarrow> (js_error, membership) result \<times> 'a collab" where
  "removeMember env u wid target s =
     checked_then env ''collaboration_workspace.member_removed''
       (bind_result (requireWorkspaceAccess env u wid s) (\<lambda>actor.
        bind_result (requireOwnerOrAdmin actor) (\<lambda>_.
        bind_result (requireSharedWorkspace env wid s) (\<lambda>_.
        bind_result (requireMembership env wid target s) (\<lambda>m.
          if wa_role actor = Admin \<and> mb_role m \<noteq> Member
          then Inl (app_error FORBIDDEN ''Workspace Admins may remove regular Members only'')
          else Inr ())))))
       (\<lambda>_ t. underOwnerLock env wid target (\<lambda>t. removeMembership (ce_instance env) wid target t) t) s"

definition leaveWorkspace ::
    "'a collab_env \<Rightarrow> collab_user \<Rightarrow> string \<Rightarrow> 'a collab \<Rightarrow> (js_error, membership) result \<times> 'a collab" where
  "leaveWorkspace env u wid s =
     checked_then env ''collaboration_workspace.member_left''
       (bind_result (requireWorkspaceAccess env u wid s) (\<lambda>a.
        bind_result (requireSharedWorkspace env wid s) (\<lambda>_.
          if wa_membershipRole a = None then Inl (app_error CONFLICT ''User is not a workspace member'')
          else Inr (wa_userId a))))
       (\<lambda>user t. underOwnerLock env wid user (\<lambda>t. removeMembership (ce_instance env) wid user t) t) s"

section \<open>Requests for access\<close>

definition requestAccess ::
    "'a collab_env \<Rightarrow> collab_user \<Rightarrow> string \<Rightarrow> 'a collab \<Rightarrow> (js_error, access_request) result \<times> 'a collab" where
  "requestAccess env u wid s =
     checked_then env ''collaboration_workspace.access_requested''
       (case getWorkspace s (ce_instance env) wid of
          None \<Rightarrow> Inl (app_error NOT_FOUND ''Collaboration Workspace is not available'')
        | Some w \<Rightarrow>
            if cw_kind w \<noteq> Shared \<or> cw_visibility w \<noteq> Discoverable
            then Inl (app_error NOT_FOUND ''Collaboration Workspace is not available'')
            else if getMembership s (ce_instance env) wid (cu_id u) \<noteq> None
            then Inl (app_error CONFLICT ''User is already a workspace member'')
            else if getAccessRequest s (ce_instance env) wid (cu_id u) \<noteq> None
            then Inl (app_error CONFLICT ''A workspace access request is already pending'')
            else Inr ())
       (\<lambda>_ t. createAccessRequest (ce_instance env) wid (cu_id u) (ce_newId env) (ce_now env) t) s"

definition approveAccessRequest ::
    "'a collab_env \<Rightarrow> collab_user \<Rightarrow> string \<Rightarrow> string \<Rightarrow> 'a collab \<Rightarrow> (js_error, membership) result \<times> 'a collab" where
  "approveAccessRequest env u wid target s =
     (case bind_result (requireWorkspaceAccess env u wid s) (\<lambda>a.
           bind_result (requireOwnerOrAdmin a) (\<lambda>_.
           bind_result (requireSharedWorkspace env wid s) (\<lambda>_.
           if getAccessRequest s (ce_instance env) wid target = None
           then Inl (app_error NOT_FOUND ''Workspace Access Request is not available'')
           else if target \<notin> active_users s (ce_instance env)
           then Inl (app_error CONFLICT CANNOT_ADD_MEMBER_MESSAGE)
           else Inr ()))) of
        Inl e \<Rightarrow> (Inl e, s)
      | Inr _ \<Rightarrow>
          add_and_clear env ''collaboration_workspace.access_request_approved'' wid target True (ce_meanwhile env s))"

definition declineAccessRequest ::
    "'a collab_env \<Rightarrow> collab_user \<Rightarrow> string \<Rightarrow> string \<Rightarrow> 'a collab \<Rightarrow> (js_error, access_request) result \<times> 'a collab" where
  "declineAccessRequest env u wid target s =
     checked_then env ''collaboration_workspace.access_request_declined''
       (bind_result (requireWorkspaceAccess env u wid s) requireOwnerOrAdmin)
       (\<lambda>_ t. deleteAccessRequest (ce_instance env) wid target t) s"

section \<open>Deletion\<close>

text \<open>The acceptance of a deletion. The passes that follow it remove what the store lets them remove.\<close>

definition deleteSharedWorkspace ::
    "'a collab_env \<Rightarrow> collab_user \<Rightarrow> string \<Rightarrow> string \<Rightarrow> 'a collab \<Rightarrow> (js_error, bool) result \<times> 'a collab" where
  "deleteSharedWorkspace env u wid confirmName s =
     checked_write env
       (let inDeletion = getWorkspaceInDeletion s (ce_instance env) wid in
        bind_result
          (case inDeletion of
             Some (w, ms) \<Rightarrow>
               if \<not> list_ex (\<lambda>m. mb_user m = cu_id u \<and> mb_role m = Owner) ms \<and> \<not> cu_superadmin u
               then Inl (app_error NOT_FOUND ''Collaboration Workspace is not available'') else Inr ()
           | None \<Rightarrow> bind_result (requireWorkspaceAccess env u wid s) requireOwner) (\<lambda>_.
        bind_result (case inDeletion of Some (w, _) \<Rightarrow> Inr w | None \<Rightarrow> requireSharedWorkspace env wid s) (\<lambda>w.
          if confirmName \<noteq> cw_name w
          then Inl (app_error VALIDATION_FAILED ''Workspace name confirmation does not match'')
          else if inDeletion \<noteq> None then Inr ()
          else bind_result (map_result (\<lambda>c. ce_idle env (cp_id c))
            (filter (\<lambda>c. in_workspace (ce_instance env) wid c \<and> cp_active c) (cl_conversations s))) (\<lambda>_. Inr ()))))
       (\<lambda>_ t. bind_result (markWorkspaceDeletionRequested (ce_instance env) wid (ce_now env) t) (\<lambda>(t', marked).
          bind_result (if marked then ce_record env ''collaboration_workspace.deletion_requested'' else Inr ())
            (\<lambda>_. Inr (t', marked)))) s"

section \<open>What is listed\<close>

definition listWorkspaces :: "'a collab_env \<Rightarrow> collab_user \<Rightarrow> 'a collab \<Rightarrow> (js_error, workspace_item list) result" where
  "listWorkspaces env u s =
     (let mine = listWorkspacesForUser s (ce_instance env) (cu_id u);
          others = (if cu_superadmin u
            then filter (\<lambda>w. cw_id w \<notin> set (map (\<lambda>(w, _). cw_id w) mine)) (listSharedWorkspaces s (ce_instance env))
            else []) in
      bind_result (map_result (\<lambda>(w, role). toListItem env s w
        (set_or_keep (effectiveWorkspaceRole u w (Some role)) role) (Some role)) mine) (\<lambda>xs.
      bind_result (map_result (\<lambda>w. toListItem env s w Owner None) others) (\<lambda>ys. Inr (xs @ ys))))"

definition listMembers :: "'a collab_env \<Rightarrow> collab_user \<Rightarrow> string \<Rightarrow> 'a collab \<Rightarrow> (js_error, member_item list) result" where
  "listMembers env u wid s =
     bind_result (requireWorkspaceAccess env u wid s) (\<lambda>a.
     bind_result (requireOwnerOrAdmin a) (\<lambda>_.
     bind_result (listMemberships s (ce_instance env) wid) (\<lambda>ms.
       map_result (\<lambda>m. case List.find (\<lambda>v. us_id v = mb_user m) (rev (listUsers s (ce_instance env))) of
           None \<Rightarrow> Inl (app_error INTERNAL ''Workspace member is not available'')
         | Some v \<Rightarrow> Inr (member_item_of v (mb_role m))) ms)))"

record request_item =
  qi_userId :: string
  qi_displayLabel :: string
  qi_email :: "string option"
  qi_createdAt :: int

definition listAccessRequests :: "'a collab_env \<Rightarrow> collab_user \<Rightarrow> string \<Rightarrow> 'a collab \<Rightarrow> (js_error, request_item list) result" where
  "listAccessRequests env u wid s =
     bind_result (requireWorkspaceAccess env u wid s) (\<lambda>a.
     bind_result (requireOwnerOrAdmin a) (\<lambda>_.
     bind_result (listAccessRequestsForWorkspace s (ce_instance env) wid) (\<lambda>xs.
       map_result (\<lambda>x. case List.find (\<lambda>v. us_id v = xr_user x) (rev (listUsers s (ce_instance env))) of
           None \<Rightarrow> Inl (app_error INTERNAL ''Access requester is not available'')
         | Some v \<Rightarrow> Inr \<lparr>qi_userId = us_id v, qi_displayLabel = us_displayLabel v, qi_email = us_email v,
             qi_createdAt = xr_createdAt x\<rparr>) xs)))"

datatype access_state = Is_Member | Request_Pending | Can_Request

definition browseDirectory :: "'a collab_env \<Rightarrow> collab_user \<Rightarrow> 'a collab \<Rightarrow> (collab_workspace \<times> access_state) list" where
  "browseDirectory env u s =
     map (\<lambda>w. (w,
       if getMembership s (ce_instance env) (cw_id w) (cu_id u) \<noteq> None then Is_Member
       else if getAccessRequest s (ce_instance env) (cw_id w) (cu_id u) \<noteq> None then Request_Pending
       else Can_Request)) (listDiscoverableWorkspaces s (ce_instance env))"

definition getDeletionImpact :: "'a collab_env \<Rightarrow> collab_user \<Rightarrow> string \<Rightarrow> 'a collab \<Rightarrow> (js_error, nat \<times> nat \<times> nat) result" where
  "getDeletionImpact env u wid s =
     bind_result (requireWorkspaceAccess env u wid s) (\<lambda>a.
     bind_result (requireOwner a) (\<lambda>_.
     bind_result (requireSharedWorkspace env wid s) (\<lambda>_.
     bind_result (listMemberships s (ce_instance env) wid) (\<lambda>ms.
     bind_result (listAccessRequestsForWorkspace s (ce_instance env) wid) (\<lambda>xs.
       Inr (count_where (\<lambda>c. in_workspace (ce_instance env) wid c \<and> cp_active c) (cl_conversations s),
         length ms, length xs))))))"

end
