(* ===== verification/Collab_Facts.thy ===== *)
theory Collab_Facts imports Collab_Workflow begin

text \<open>
  What the transactions on collaboration workspaces keep: the tables fit together. The transactions are
  the moves of a machine; a handler is a path of it, whatever others do between its checks and its
  writes. None of the moves has a condition that its transaction does not check itself.
\<close>

section \<open>Tables that fit together\<close>

definition workspaces_ok :: "'a collab \<Rightarrow> bool" where
  "workspaces_ok s \<longleftrightarrow>
     distinct (map cw_id (cl_workspaces s)) \<and> distinct (map us_id (cl_users s)) \<and>
     unique_by (\<lambda>w. if cw_kind w = Personal then Some (cw_instance w, cw_personalUserId w) else None) cw_id
       (cl_workspaces s) \<and>
     (\<forall>w \<in> set (cl_workspaces s).
        (cw_kind w = Shared \<longrightarrow> cw_personalUserId w = None) \<and>
        (cw_kind w = Personal \<longrightarrow> cw_visibility w = Private_Workspace \<and> cw_defaultVisibility w = For_Workspace \<and>
          notInDeletion w \<and>
          (\<exists>user. cw_personalUserId w = Some user \<and> (\<exists>u \<in> set (cl_users s). user_row (cw_instance w) user u))))"

definition members_ok :: "'a collab \<Rightarrow> bool" where
  "members_ok s \<longleftrightarrow>
     distinct (map (\<lambda>m. (mb_workspace m, mb_user m)) (cl_memberships s)) \<and>
     (\<forall>m \<in> set (cl_memberships s).
        (\<exists>w \<in> set (cl_workspaces s). joined m w \<and>
           (cw_kind w = Personal \<longrightarrow> cw_personalUserId w = Some (mb_user m) \<and> mb_role m = Owner)) \<and>
        (\<exists>u \<in> set (cl_users s). user_row (mb_instance m) (mb_user m) u))"

definition requests_ok :: "'a collab \<Rightarrow> bool" where
  "requests_ok s \<longleftrightarrow>
     distinct (map (\<lambda>x. (xr_workspace x, xr_user x)) (cl_requests s)) \<and>
     (\<forall>x \<in> set (cl_requests s).
        (\<exists>w \<in> set (cl_workspaces s). workspace_row (xr_instance x) (xr_workspace x) w \<and> cw_kind w = Shared) \<and>
        (\<exists>u \<in> set (cl_users s). user_row (xr_instance x) (xr_user x) u))"

definition tables_fit :: "'a collab \<Rightarrow> bool" where
  "tables_fit s \<longleftrightarrow> workspaces_ok s \<and> members_ok s \<and> requests_ok s"

text \<open>
  An account that is not closed, a workspace that such an account owns, perhaps besides one user, and
  tables in which that holds for every open shared workspace but the named ones.
\<close>

definition open_account :: "'a collab \<Rightarrow> string \<Rightarrow> string \<Rightarrow> bool" where
  "open_account s inst user \<longleftrightarrow> list_ex (\<lambda>u. user_row inst user u \<and> us_deletionRequestedAt u = None) (cl_users s)"

definition owner_besides :: "string option \<Rightarrow> 'a collab \<Rightarrow> collab_workspace \<Rightarrow> bool" where
  "owner_besides x s w \<longleftrightarrow>
     list_ex (\<lambda>m. joined m w \<and> mb_role m = Owner \<and> Some (mb_user m) \<noteq> x \<and> open_account s (mb_instance m) (mb_user m))
       (cl_memberships s)"

definition open_shared :: "'a collab \<Rightarrow> collab_workspace \<Rightarrow> bool" where
  "open_shared s w \<longleftrightarrow> w \<in> set (cl_workspaces s) \<and> cw_kind w = Shared \<and> notInDeletion w"

definition owners_stay :: "string list \<Rightarrow> 'a collab \<Rightarrow> bool" where
  "owners_stay strays s \<longleftrightarrow> (\<forall>w. open_shared s w \<and> cw_id w \<notin> set strays \<longrightarrow> owner_besides None s w)"

named_theorems collab_simps

lemmas collab_rows [collab_simps] =
  workspace_row_def joined_def membership_where_def user_row_def access_request_where_def notInDeletion_def
  Bex_set_list_ex [symmetric]

section \<open>What the reads say\<close>

lemma requireWorkspace_Inr:
  "requireWorkspace s inst wid = Inr w \<Longrightarrow> w \<in> set (cl_workspaces s) \<and> workspace_row inst wid w \<and> notInDeletion w"
  by (auto simp: requireWorkspace_def getWorkspace_def split: option.splits dest: find_Some_iff)

lemma getMembership_Some:
  "getMembership s inst wid user = Some m \<Longrightarrow> m \<in> set (cl_memberships s) \<and> membership_where inst wid user m"
  by (auto simp: getMembership_def dest: find_Some_iff)

lemma getMembership_open:
  assumes "requireWorkspace s inst wid = Inr w" "List.find (membership_where inst wid user) (cl_memberships s) = Some m"
  shows "\<exists>n. getMembership s inst wid user = Some n"
proof -
  have "\<exists>n \<in> set (cl_memberships s). membership_where inst wid user n \<and>
      list_ex (\<lambda>w. joined n w \<and> notInDeletion w) (cl_workspaces s)"
    using requireWorkspace_Inr[OF assms(1)] find_Some_iff[OF assms(2)]
    by (fastforce simp: collab_simps list_ex_iff)
  then show ?thesis
    unfolding getMembership_def by (metis (no_types, lifting) find_None_iff not_Some_eq)
qed

lemma same_workspace:
  "workspaces_ok s \<Longrightarrow> v \<in> set (cl_workspaces s) \<Longrightarrow> w \<in> set (cl_workspaces s) \<Longrightarrow> cw_id v = cw_id w \<Longrightarrow> v = w"
  unfolding workspaces_ok_def by (meson distinct_map inj_onD)

lemma same_membership:
  "members_ok s \<Longrightarrow> m \<in> set (cl_memberships s) \<Longrightarrow> n \<in> set (cl_memberships s) \<Longrightarrow>
    membership_where inst wid user m \<Longrightarrow> membership_where inst wid user n \<Longrightarrow> m = n"
  unfolding members_ok_def membership_where_def distinct_map inj_on_def by auto

lemma another_active_ownerE:
  assumes "another_active_owner s inst user ms"
  obtains m where "m \<in> set ms" "mb_role m = Owner" "mb_user m \<noteq> user" "open_account s inst (mb_user m)"
  using assms unfolding another_active_owner_def active_users_def listUsers_def list_ex_iff
  by (fastforce simp: open_account_def list_ex_iff user_row_def user_status_of_def split: if_splits)

section \<open>Each statement keeps the tables\<close>

lemma insert_workspace_Inr:
  assumes "insert_workspace w s = Inr t"
  shows "t = s\<lparr>cl_workspaces := cl_workspaces s @ [w]\<rparr>"
    and "w' \<in> set (cl_workspaces s) \<Longrightarrow> cw_id w' \<noteq> cw_id w"
    and "\<lbrakk>w' \<in> set (cl_workspaces s); cw_kind w' = Personal; cw_kind w = Personal; cw_instance w' = cw_instance w\<rbrakk> \<Longrightarrow>
      cw_personalUserId w' \<noteq> cw_personalUserId w"
    and "cw_kind w = Personal \<Longrightarrow> cw_visibility w = Private_Workspace \<and> cw_defaultVisibility w = For_Workspace \<and>
      (\<exists>user. cw_personalUserId w = Some user \<and> list_ex (user_row (cw_instance w) user) (cl_users s))"
    and "cw_kind w = Shared \<Longrightarrow> cw_personalUserId w = None"
  using assms by (auto simp: insert_workspace_def list_ex_iff split: if_splits option.splits)

lemma insert_workspace_ok:
  assumes ok: "tables_fit s" and i: "insert_workspace w s = Inr t" and o: "notInDeletion w"
  shows "tables_fit t"
proof -
  note t = insert_workspace_Inr(1)[OF i] and facts = insert_workspace_Inr(2-5)[OF i]
  have fresh: "cw_id w \<notin> set (map cw_id (cl_workspaces s))"
    using facts(1) by fastforce
  have key: "unique_by (\<lambda>w. if cw_kind w = Personal then Some (cw_instance w, cw_personalUserId w) else None) cw_id
      (cl_workspaces t)"
    using ok facts(2) unfolding t workspaces_ok_def tables_fit_def
    by (auto intro!: unique_by_snoc split: if_splits)
  have "workspaces_ok t"
    using ok o facts(3,4) fresh key unfolding workspaces_ok_def tables_fit_def
    by (auto simp: t list_ex_iff)
  moreover have "members_ok t" "requests_ok t"
    using ok unfolding tables_fit_def members_ok_def requests_ok_def by (fastforce simp: t)+
  ultimately show ?thesis by (simp add: tables_fit_def)
qed

lemma insert_membership_ok:
  assumes ok: "tables_fit s" and i: "insert_membership m s = Inr t"
    and p: "\<And>w. w \<in> set (cl_workspaces s) \<Longrightarrow> joined m w \<Longrightarrow> cw_kind w = Personal \<Longrightarrow>
      cw_personalUserId w = Some (mb_user m) \<and> mb_role m = Owner"
  shows "tables_fit t"
proof -
  have t: "t = s\<lparr>cl_memberships := cl_memberships s @ [m]\<rparr>"
    and new: "\<forall>n \<in> set (cl_memberships s). mb_workspace n \<noteq> mb_workspace m \<or> mb_user n \<noteq> mb_user m"
    and w: "\<exists>w \<in> set (cl_workspaces s). joined m w"
    and u: "\<exists>u \<in> set (cl_users s). user_row (mb_instance m) (mb_user m) u"
    using i by (auto simp: insert_membership_def list_ex_iff split: if_splits)
  have "members_ok t"
    using ok new w u p unfolding tables_fit_def members_ok_def by (auto simp: t)
  then show ?thesis using ok by (simp add: t tables_fit_def workspaces_ok_def requests_ok_def)
qed

lemma insert_request_ok:
  assumes ok: "tables_fit s" and i: "insert_request x s = Inr t"
    and p: "\<exists>w \<in> set (cl_workspaces s). workspace_row (xr_instance x) (xr_workspace x) w \<and> cw_kind w = Shared"
  shows "tables_fit t"
proof -
  have t: "t = s\<lparr>cl_requests := cl_requests s @ [x]\<rparr>"
    and new: "\<forall>y \<in> set (cl_requests s). xr_workspace y \<noteq> xr_workspace x \<or> xr_user y \<noteq> xr_user x"
    and u: "\<exists>u \<in> set (cl_users s). user_row (xr_instance x) (xr_user x) u"
    using i by (auto simp: insert_request_def list_ex_iff split: if_splits)
  have "requests_ok t"
    using ok new p u unfolding tables_fit_def requests_ok_def by (auto simp: t)
  then show ?thesis using ok by (simp add: t tables_fit_def workspaces_ok_def members_ok_def)
qed

lemma delete_memberships_ok:
  "tables_fit s \<Longrightarrow> tables_fit (s\<lparr>cl_memberships := delete_where p (cl_memberships s)\<rparr>)"
  by (auto simp: tables_fit_def workspaces_ok_def members_ok_def requests_ok_def row_simps
      intro: distinct_map_delete_where)

lemma delete_requests_ok:
  "tables_fit s \<Longrightarrow> tables_fit (s\<lparr>cl_requests := delete_where p (cl_requests s)\<rparr>)"
  by (auto simp: tables_fit_def workspaces_ok_def members_ok_def requests_ok_def row_simps
      intro: distinct_map_delete_where)

text \<open>An update of workspaces or users that keeps what the others refer to.\<close>

lemma update_workspaces_ok:
  assumes ok: "tables_fit s"
    and keep: "\<And>w. w \<in> set (cl_workspaces s) \<Longrightarrow> p w \<Longrightarrow> cw_id (f w) = cw_id w \<and> cw_instance (f w) = cw_instance w \<and>
      cw_kind (f w) = cw_kind w \<and> cw_personalUserId (f w) = cw_personalUserId w"
    and personal: "\<And>w. w \<in> set (cl_workspaces s) \<Longrightarrow> p w \<Longrightarrow> cw_kind w = Personal \<Longrightarrow>
      cw_visibility w = Private_Workspace \<and> cw_defaultVisibility w = For_Workspace \<and> notInDeletion w \<Longrightarrow>
      cw_visibility (f w) = Private_Workspace \<and> cw_defaultVisibility (f w) = For_Workspace \<and> notInDeletion (f w)"
  shows "tables_fit (s\<lparr>cl_workspaces := update_where p f (cl_workspaces s)\<rparr>)"
proof -
  let ?t = "s\<lparr>cl_workspaces := update_where p f (cl_workspaces s)\<rparr>"
  have ids: "map cw_id (update_where p f (cl_workspaces s)) = map cw_id (cl_workspaces s)"
    using keep by (simp add: map_update_where)
  have key: "unique_by (\<lambda>w. if cw_kind w = Personal then Some (cw_instance w, cw_personalUserId w) else None) cw_id
      (update_where p f (cl_workspaces s))"
    using ok keep unfolding tables_fit_def workspaces_ok_def by (intro unique_by_update) auto
  have "workspaces_ok ?t"
    using ok ids key keep personal unfolding tables_fit_def workspaces_ok_def
    by (simp add: set_update_where) fastforce
  moreover have there: "\<exists>v \<in> set (update_where p f (cl_workspaces s)). cw_id v = cw_id w \<and>
      cw_instance v = cw_instance w \<and> cw_kind v = cw_kind w \<and> cw_personalUserId v = cw_personalUserId w"
    if "w \<in> set (cl_workspaces s)" for w
    using that keep[OF that] by (cases "p w") (force simp: set_update_where)+
  have "members_ok ?t"
    using ok unfolding tables_fit_def members_ok_def joined_def
    by (simp del: ex_simps all_simps) (metis there)
  moreover have "requests_ok ?t"
    using ok unfolding tables_fit_def requests_ok_def workspace_row_def
    by (simp del: ex_simps all_simps) (metis there)
  ultimately show ?thesis by (simp add: tables_fit_def)
qed

lemma update_users_ok:
  assumes ok: "tables_fit s"
    and keep: "\<And>u. u \<in> set (cl_users s) \<Longrightarrow> p u \<Longrightarrow> us_id (f u) = us_id u \<and> us_instance (f u) = us_instance u"
  shows "tables_fit (s\<lparr>cl_users := update_where p f (cl_users s)\<rparr>)"
proof -
  have ids: "map us_id (update_where p f (cl_users s)) = map us_id (cl_users s)"
    using keep by (simp add: map_update_where)
  have rows: "(\<exists>u \<in> set (update_where p f (cl_users s)). user_row inst user u) \<longleftrightarrow>
      (\<exists>u \<in> set (cl_users s). user_row inst user u)" for inst user
    using keep unfolding set_update_where user_row_def by (auto; metis)
  show ?thesis
    using ok unfolding tables_fit_def workspaces_ok_def members_ok_def requests_ok_def
    by (simp add: ids rows)
qed

lemma update_role_ok:
  assumes ok: "tables_fit s" and w: "requireWorkspace s inst wid = Inr w" and k: "cw_kind w \<noteq> Personal"
  shows "tables_fit (s\<lparr>cl_memberships := update_where (membership_where inst wid user) (with_role role now) (cl_memberships s)\<rparr>)"
    (is "tables_fit ?t")
proof -
  have keys: "map (\<lambda>m. (mb_workspace m, mb_user m)) (cl_memberships ?t) = map (\<lambda>m. (mb_workspace m, mb_user m)) (cl_memberships s)"
    by (simp add: map_update_where with_role_def)
  have shared: "cw_kind v \<noteq> Personal" if "v \<in> set (cl_workspaces s)" "cw_id v = wid" for v
    using same_workspace[of s v w] that requireWorkspace_Inr[OF w] ok k
    by (auto simp: tables_fit_def workspace_row_def)
  have "members_ok ?t"
    unfolding members_ok_def keys
  proof (intro conjI ballI)
    show "distinct (map (\<lambda>m. (mb_workspace m, mb_user m)) (cl_memberships s))"
      using ok by (simp add: tables_fit_def members_ok_def)
    fix m assume "m \<in> set (cl_memberships ?t)"
    then obtain n where n: "n \<in> set (cl_memberships s)" "m = n \<or> membership_where inst wid user n \<and> m = with_role role now n"
      by (auto simp: set_update_where)
    from ok n(1) obtain v u where "v \<in> set (cl_workspaces s)" "joined n v"
        "cw_kind v = Personal \<longrightarrow> cw_personalUserId v = Some (mb_user n) \<and> mb_role n = Owner"
        "u \<in> set (cl_users s)" "user_row (mb_instance n) (mb_user n) u"
      unfolding tables_fit_def members_ok_def by blast
    with n(2) shared[of v] show "\<exists>w \<in> set (cl_workspaces ?t). joined m w \<and>
        (cw_kind w = Personal \<longrightarrow> cw_personalUserId w = Some (mb_user m) \<and> mb_role m = Owner)"
      and "\<exists>u \<in> set (cl_users ?t). user_row (mb_instance m) (mb_user m) u"
      by (auto simp: with_role_def joined_def membership_where_def)
  qed
  then show ?thesis using ok by (simp add: tables_fit_def workspaces_ok_def requests_ok_def)
qed

lemma remove_workspace_ok:
  assumes ok: "tables_fit s" shows "tables_fit (remove_workspace inst wid s)"
proof -
  have key: "unique_by (\<lambda>w. if cw_kind w = Personal then Some (cw_instance w, cw_personalUserId w) else None) cw_id
      (delete_where (workspace_row inst wid) (cl_workspaces s))"
    using ok by (simp add: unique_by_delete tables_fit_def workspaces_ok_def)
  have "workspaces_ok (remove_workspace inst wid s)"
    using ok key by (auto simp: remove_workspace_def tables_fit_def workspaces_ok_def row_simps intro: distinct_map_delete_where)
  moreover have "members_ok (remove_workspace inst wid s)"
    unfolding members_ok_def
  proof (intro conjI ballI)
    show "distinct (map (\<lambda>m. (mb_workspace m, mb_user m)) (cl_memberships (remove_workspace inst wid s)))"
      using ok by (simp add: remove_workspace_def tables_fit_def members_ok_def distinct_map_delete_where)
    fix m assume "m \<in> set (cl_memberships (remove_workspace inst wid s))"
    then have m: "m \<in> set (cl_memberships s)" "\<not> (mb_instance m = inst \<and> mb_workspace m = wid)"
      by (auto simp: remove_workspace_def row_simps)
    then show "\<exists>u \<in> set (cl_users (remove_workspace inst wid s)). user_row (mb_instance m) (mb_user m) u"
      using ok by (simp add: remove_workspace_def tables_fit_def members_ok_def)
    from m ok obtain w where "w \<in> set (cl_workspaces s)" "joined m w"
        "cw_kind w = Personal \<longrightarrow> cw_personalUserId w = Some (mb_user m) \<and> mb_role m = Owner"
      unfolding tables_fit_def members_ok_def by blast
    with m(2) show "\<exists>w \<in> set (cl_workspaces (remove_workspace inst wid s)). joined m w \<and>
        (cw_kind w = Personal \<longrightarrow> cw_personalUserId w = Some (mb_user m) \<and> mb_role m = Owner)"
      by (intro bexI[of _ w]) (auto simp: remove_workspace_def row_simps joined_def workspace_row_def)
  qed
  moreover have "requests_ok (remove_workspace inst wid s)"
    unfolding requests_ok_def
  proof (intro conjI ballI)
    show "distinct (map (\<lambda>x. (xr_workspace x, xr_user x)) (cl_requests (remove_workspace inst wid s)))"
      using ok by (simp add: remove_workspace_def tables_fit_def requests_ok_def distinct_map_delete_where)
    fix x assume "x \<in> set (cl_requests (remove_workspace inst wid s))"
    then have x: "x \<in> set (cl_requests s)" "\<not> (xr_instance x = inst \<and> xr_workspace x = wid)"
      by (auto simp: remove_workspace_def row_simps)
    then show "\<exists>u \<in> set (cl_users (remove_workspace inst wid s)). user_row (xr_instance x) (xr_user x) u"
      using ok by (simp add: remove_workspace_def tables_fit_def requests_ok_def)
    from x ok obtain w where "w \<in> set (cl_workspaces s)" "workspace_row (xr_instance x) (xr_workspace x) w" "cw_kind w = Shared"
      unfolding tables_fit_def requests_ok_def by blast
    with x(2) show "\<exists>w \<in> set (cl_workspaces (remove_workspace inst wid s)).
        workspace_row (xr_instance x) (xr_workspace x) w \<and> cw_kind w = Shared"
      by (intro bexI[of _ w]) (auto simp: remove_workspace_def row_simps workspace_row_def)
  qed
  ultimately show ?thesis by (simp add: tables_fit_def)
qed

lemma deleteUser_ok:
  assumes ok: "tables_fit s" and d: "deleteUser inst user s = Inr t"
  shows "tables_fit t"
proof -
  have t: "t = s\<lparr>cl_users := delete_where (user_row inst user) (cl_users s),
      cl_requests := delete_where (\<lambda>x. xr_instance x = inst \<and> xr_user x = user) (cl_requests s)\<rparr>"
    and m: "\<forall>m \<in> set (cl_memberships s). mb_instance m = inst \<longrightarrow> mb_user m \<noteq> user"
    and w: "\<forall>w \<in> set (cl_workspaces s). cw_instance w = inst \<longrightarrow> cw_personalUserId w \<noteq> Some user"
    using d by (auto simp: deleteUser_def bind_result_Inr list_ex_iff split: sum.splits if_splits)
  have left: "(\<exists>u \<in> set (cl_users t). user_row i v u) \<longleftrightarrow> (\<exists>u \<in> set (cl_users s). user_row i v u)"
    if "i \<noteq> inst \<or> v \<noteq> user" for i v
    using that by (auto simp: t row_simps user_row_def)
  have "workspaces_ok t"
    unfolding workspaces_ok_def
  proof (intro conjI ballI impI)
    show "distinct (map us_id (cl_users t))"
      using ok by (simp add: t tables_fit_def workspaces_ok_def distinct_map_delete_where)
    fix v assume v: "v \<in> set (cl_workspaces t)" "cw_kind v = Personal"
    with ok have "\<exists>x. cw_personalUserId v = Some x \<and> (\<exists>u \<in> set (cl_users s). user_row (cw_instance v) x u)"
      by (simp add: t tables_fit_def workspaces_ok_def)
    then obtain x where "cw_personalUserId v = Some x" "\<exists>u \<in> set (cl_users s). user_row (cw_instance v) x u"
      by blast
    with v w left[of "cw_instance v" x]
    show "\<exists>user. cw_personalUserId v = Some user \<and> (\<exists>u \<in> set (cl_users t). user_row (cw_instance v) user u)"
      by (auto simp: t)
  qed (use ok in \<open>auto simp: t tables_fit_def workspaces_ok_def\<close>)
  moreover have "members_ok t"
    using ok m left unfolding tables_fit_def members_ok_def by (auto simp: t)
  moreover have "requests_ok t"
    using ok left unfolding tables_fit_def requests_ok_def
    by (auto simp: t row_simps intro: distinct_map_delete_where)
  ultimately show ?thesis by (simp add: tables_fit_def)
qed

section \<open>The transactions\<close>

text \<open>First those that take no owner away from a workspace that goes on, whatever is going on beside them.\<close>

inductive quiet_move :: "'a collab \<Rightarrow> 'a collab \<Rightarrow> bool" where
  mv_personal: "ensurePersonalWorkspace inst user newId now s = Inr (t, w) \<Longrightarrow> quiet_move s t"
| mv_update: "updateWorkspace inst wid u now s = Inr (t, w) \<Longrightarrow> quiet_move s t"
| mv_add: "addMembership inst wid user role now s = Inr (t, m) \<Longrightarrow> quiet_move s t"
| mv_request: "createAccessRequest inst wid user newId now s = Inr (t, x) \<Longrightarrow> quiet_move s t"
| mv_answer: "deleteAccessRequest inst wid user s = Inr (t, x) \<Longrightarrow> quiet_move s t"
| mv_close: "markWorkspaceDeletionRequested inst wid now s = Inr (t, b) \<Longrightarrow> quiet_move s t"
| mv_new_user: "insert_user u s = Inr t \<Longrightarrow> quiet_move s t"
| mv_update_user: "updateUser inst user label email disabled s = Inr t \<Longrightarrow> quiet_move s t"
| mv_withdraw_requests: "quiet_move s (fst (deleteAccessRequestsForUser inst user s))"
| mv_delete_personal: "deletePersonalWorkspaceForUser pending deleteOwned inst user s = Inr (t, w) \<Longrightarrow> quiet_move s t"
| mv_delete_user: "deleteUser inst user s = Inr t \<Longrightarrow> quiet_move s t"

text \<open>
  Then all of them, each in any state: a workspace for an account that is closed by then, the mark of an
  account whatever was read before it, and the withdrawal of memberships whoever they are of.
\<close>

inductive collab_move :: "'a collab \<Rightarrow> 'a collab \<Rightarrow> bool" where
  mv_quiet: "quiet_move s t \<Longrightarrow> collab_move s t"
| mv_create: "createWorkspace c newId now s = Inr (t, w) \<Longrightarrow> collab_move s t"
| mv_role: "underOwnerLock env wid user (\<lambda>t. updateMembershipRole (ce_instance env) wid user role now t) s = Inr (t, m) \<Longrightarrow>
    collab_move s t"
| mv_remove: "underOwnerLock env wid user (\<lambda>t. removeMembership (ce_instance env) wid user t) s = Inr (t, m) \<Longrightarrow>
    collab_move s t"
| mv_delete: "deleteWorkspace pending deleteOwned inst wid s = Inr (t, w) \<Longrightarrow> collab_move s t"
| mv_mark_user: "markUserDeletionRequested inst user now s = Inr (t, b) \<Longrightarrow> collab_move s t"
| mv_withdraw_memberships: "collab_move s (fst (removeMembershipsForUser inst user s))"

definition no_collab :: "'a collab \<Rightarrow> bool" where
  "no_collab s \<longleftrightarrow> cl_workspaces s = [] \<and> cl_memberships s = [] \<and> cl_requests s = [] \<and> cl_users s = []"

lemma requireNoPending_Inr: "requireNoPendingConversationCleanup pending w = Inr u \<longleftrightarrow> pending (cw_id w) = 0"
  by (simp add: requireNoPendingConversationCleanup_def)

lemma remove_for_good_Inr:
  "remove_for_good d inst wid s = Inr t \<Longrightarrow>
    cl_workspaces t = cl_workspaces (remove_workspace inst wid s) \<and>
    cl_memberships t = cl_memberships (remove_workspace inst wid s) \<and>
    cl_requests t = cl_requests (remove_workspace inst wid s) \<and> cl_users t = cl_users s"
  by (auto simp: remove_for_good_def bind_result_Inr remove_workspace_def split: sum.splits)

lemma tables_fit_cong:
  "cl_workspaces t = cl_workspaces s \<Longrightarrow> cl_memberships t = cl_memberships s \<Longrightarrow> cl_requests t = cl_requests s \<Longrightarrow>
    cl_users t = cl_users s \<Longrightarrow> tables_fit t = tables_fit s"
  by (simp add: tables_fit_def workspaces_ok_def members_ok_def requests_ok_def)

lemma remove_for_good_ok: "tables_fit s \<Longrightarrow> remove_for_good d inst wid s = Inr t \<Longrightarrow> tables_fit t"
  using remove_for_good_Inr[of d inst wid s t] remove_workspace_ok[of s inst wid]
  by (subst tables_fit_cong[of t "remove_workspace inst wid s"]) (auto simp: remove_workspace_def)

section \<open>Every move keeps the tables\<close>

text \<open>A workspace is inserted together with its first owner.\<close>

lemma insert_owned_ok:
  assumes ok: "tables_fit s" and i: "insert_workspace w s = Inr s1"
    and m: "insert_membership (new_membership now inst (cw_id w) user Owner) s1 = Inr t"
    and o: "notInDeletion w" and p: "cw_kind w = Personal \<Longrightarrow> cw_personalUserId w = Some user"
  shows "tables_fit t"
proof (rule insert_membership_ok[OF insert_workspace_ok[OF ok i o] m])
  fix v assume v: "v \<in> set (cl_workspaces s1)" "joined (new_membership now inst (cw_id w) user Owner) v"
    and k: "cw_kind v = Personal"
  from v have "v = w"
    using insert_workspace_Inr(1,2)[OF i] by (auto simp: joined_def new_membership_def)
  with p k show "cw_personalUserId v = Some (mb_user (new_membership now inst (cw_id w) user Owner)) \<and>
      mb_role (new_membership now inst (cw_id w) user Owner) = Owner"
    by (simp add: new_membership_def)
qed

lemma validateWorkspaceCreation_Inr:
  "validateWorkspaceCreation c = Inr u \<Longrightarrow> wc_kind c = Personal \<Longrightarrow>
    wc_personalUserId c = Some (wc_creator c) \<and> wc_visibility c \<noteq> Some Discoverable \<and>
    wc_defaultVisibility c \<noteq> Some Private_Conversation"
  by (simp add: validateWorkspaceCreation_def split: if_splits)

lemma createWorkspace_Inr:
  assumes "createWorkspace c newId now s = Inr (t, w)"
  obtains s1 where "insert_workspace w s = Inr s1"
    "insert_membership (new_membership now (wc_instance c) (cw_id w) (wc_creator c) Owner) s1 = Inr t"
    "notInDeletion w" "cw_kind w = Personal \<Longrightarrow> cw_personalUserId w = Some (wc_creator c)"
    "cw_instance w = wc_instance c" "cw_kind w = wc_kind c" "cw_id w = newId"
  using assms validateWorkspaceCreation_Inr[of c]
  by (auto simp: createWorkspace_def createWorkspaceRecords_def Let_def notInDeletion_def split: if_splits)

lemma createWorkspace_ok:
  assumes "tables_fit s" "createWorkspace c newId now s = Inr (t, w)"
  shows "tables_fit t"
  by (rule createWorkspace_Inr[OF assms(2)], rule insert_owned_ok[OF assms(1)], assumption+)

lemma ensurePersonalWorkspace_Inr:
  assumes "ensurePersonalWorkspace inst user newId now s = Inr (t, w)"
  obtains "t = s"
  | s1 where "insert_workspace w s = Inr s1" "cw_kind w = Personal" "notInDeletion w" "cw_personalUserId w = Some user"
    "t = s1 \<or> insert_membership (new_membership now inst (cw_id w) user Owner) s1 = Inr t"
  using assms
  by (auto simp: ensurePersonalWorkspace_def Let_def notInDeletion_def split: option.splits sum.splits if_splits)

lemma ensurePersonalWorkspace_ok:
  assumes ok: "tables_fit s" and e: "ensurePersonalWorkspace inst user newId now s = Inr (t, w)"
  shows "tables_fit t"
  using e
proof (cases rule: ensurePersonalWorkspace_Inr)
  case (2 s1)
  then show ?thesis using insert_workspace_ok[OF ok 2(1,3)] insert_owned_ok[OF ok 2(1) _ 2(3)] by blast
qed (use ok in simp)

lemma personal_workspace_of:
  "tables_fit s \<Longrightarrow> requireWorkspace s inst wid = Inr w \<Longrightarrow> cw_kind w \<noteq> Personal \<Longrightarrow>
    v \<in> set (cl_workspaces s) \<Longrightarrow> cw_id v = wid \<Longrightarrow> cw_kind v \<noteq> Personal"
  using same_workspace[of s v w] requireWorkspace_Inr[of s inst wid w]
  by (auto simp: tables_fit_def workspace_row_def)

lemma addMembership_Inr:
  assumes "addMembership inst wid user role now s = Inr (t, m)"
  shows "insert_membership m s = Inr t" "m = new_membership now inst wid user role"
    "\<exists>w. requireWorkspace s inst wid = Inr w \<and> cw_kind w \<noteq> Personal"
  using assms by (auto simp: addMembership_def Let_def split: if_splits)

lemma addMembership_ok:
  assumes ok: "tables_fit s" and a: "addMembership inst wid user role now s = Inr (t, m)"
  shows "tables_fit t"
  using addMembership_Inr[OF a] personal_workspace_of[OF ok]
  by (intro insert_membership_ok[OF ok]) (auto simp: joined_def new_membership_def)

lemma createAccessRequest_ok:
  assumes ok: "tables_fit s" and a: "createAccessRequest inst wid user newId now s = Inr (t, x)"
  shows "tables_fit t"
proof -
  from a obtain w where i: "insert_request x s = Inr t" and w: "requireWorkspace s inst wid = Inr w" "cw_kind w = Shared"
    and x: "xr_instance x = inst" "xr_workspace x = wid"
    by (auto simp: createAccessRequest_def Let_def split: if_splits)
  show ?thesis using requireWorkspace_Inr[OF w(1)] w(2) x by (intro insert_request_ok[OF ok i]) auto
qed

lemma updateWorkspace_Inr:
  assumes "updateWorkspace inst wid u now s = Inr (t, w)"
  obtains v where "requireWorkspace s inst wid = Inr v" "w = updated_workspace u now v"
    "t = s\<lparr>cl_workspaces := update_where (workspace_row inst wid) (updated_workspace u now) (cl_workspaces s)\<rparr>"
    "cw_kind v = Personal \<Longrightarrow> wu_visibility u \<noteq> Some Discoverable \<and> wu_defaultVisibility u \<noteq> Some Private_Conversation"
  using assms by (auto simp: updateWorkspace_def split: if_splits)

lemma not_discoverable: "v \<noteq> Discoverable \<longleftrightarrow> v = Private_Workspace"
  by (cases v) auto

lemma not_private_conversation: "v \<noteq> Private_Conversation \<longleftrightarrow> v = For_Workspace"
  by (cases v) auto

lemma updated_workspace_keeps [simp]:
  "cw_id (updated_workspace u now w) = cw_id w" "cw_instance (updated_workspace u now w) = cw_instance w"
  "cw_kind (updated_workspace u now w) = cw_kind w" "cw_personalUserId (updated_workspace u now w) = cw_personalUserId w"
  "notInDeletion (updated_workspace u now w) = notInDeletion w"
  by (simp_all add: updated_workspace_def notInDeletion_def)

lemma updateWorkspace_ok:
  assumes ok: "tables_fit s" and u: "updateWorkspace inst wid u now s = Inr (t, w)"
  shows "tables_fit t"
  using u
proof (cases rule: updateWorkspace_Inr)
  case (1 v)
  have same: "x = v" if "x \<in> set (cl_workspaces s)" "workspace_row inst wid x" for x
    using that requireWorkspace_Inr[OF 1(1)] same_workspace[of s x v] ok
    by (auto simp: tables_fit_def workspace_row_def)
  show ?thesis
    unfolding 1(3)
  proof (rule update_workspaces_ok[OF ok], goal_cases)
    case (2 x)
    with same[of x] 1(4) show ?case
      by (auto simp: updated_workspace_def set_or_keep_def notInDeletion_def not_discoverable not_private_conversation
          split: option.split)
  qed auto
qed

lemma markWorkspaceDeletionRequested_Inr:
  assumes "markWorkspaceDeletionRequested inst wid now s = Inr (t, b)"
  shows "t = s\<lparr>cl_workspaces := update_where (\<lambda>w. workspace_row inst wid w \<and> cw_kind w = Shared \<and> notInDeletion w)
    (\<lambda>w. w\<lparr>cw_deletionRequestedAt := Some now\<rparr>) (cl_workspaces s)\<rparr> \<or> t = s"
  using assms by (auto simp: markWorkspaceDeletionRequested_def Let_def split: if_splits option.splits)

lemma markWorkspaceDeletionRequested_ok:
  assumes ok: "tables_fit s" and m: "markWorkspaceDeletionRequested inst wid now s = Inr (t, b)"
  shows "tables_fit t"
  using markWorkspaceDeletionRequested_Inr[OF m]
proof
  assume t: "t = s\<lparr>cl_workspaces := update_where (\<lambda>w. workspace_row inst wid w \<and> cw_kind w = Shared \<and> notInDeletion w)
    (\<lambda>w. w\<lparr>cw_deletionRequestedAt := Some now\<rparr>) (cl_workspaces s)\<rparr>"
  show ?thesis unfolding t by (rule update_workspaces_ok[OF ok]) auto
qed (use ok in simp)

lemma deleteWorkspace_Inr:
  "deleteWorkspace pending d inst wid s = Inr (t, w) \<Longrightarrow> remove_for_good d inst wid s = Inr t"
  by (auto simp: deleteWorkspace_def split: option.splits if_splits)

lemma deletePersonalWorkspaceForUser_Inr:
  "deletePersonalWorkspaceForUser pending d inst user s = Inr (t, w) \<Longrightarrow> remove_for_good d inst (cw_id w) s = Inr t"
  by (auto simp: deletePersonalWorkspaceForUser_def split: option.splits if_splits)

lemma insert_user_Inr:
  "insert_user u s = Inr t \<Longrightarrow> t = s\<lparr>cl_users := cl_users s @ [u]\<rparr> \<and> us_id u \<notin> set (map us_id (cl_users s))"
  by (auto simp: insert_user_def list_ex_iff split: if_splits)

lemma insert_user_ok:
  assumes ok: "tables_fit s" and c: "insert_user u s = Inr t"
  shows "tables_fit t"
proof -
  have t: "cl_workspaces t = cl_workspaces s" "cl_memberships t = cl_memberships s" "cl_requests t = cl_requests s"
      "cl_users t = cl_users s @ [u]" "us_id u \<notin> set (map us_id (cl_users s))"
    using insert_user_Inr[OF c] by auto
  have "\<exists>v \<in> set (cl_users t). user_row i x v" if "\<exists>v \<in> set (cl_users s). user_row i x v" for i x
    using that by (auto simp: t)
  moreover have "distinct (map us_id (cl_users t))"
    using ok t(5) by (simp add: t tables_fit_def workspaces_ok_def)
  ultimately show ?thesis
    using ok unfolding tables_fit_def workspaces_ok_def members_ok_def requests_ok_def t(1-3) by blast
qed

lemma updateUser_Inr:
  "updateUser inst user label email disabled s = Inr t \<Longrightarrow>
    t = s\<lparr>cl_users := update_where (\<lambda>u. user_row inst user u \<and> us_deletionRequestedAt u = None)
      (\<lambda>u. u\<lparr>us_displayLabel := set_or_keep label (us_displayLabel u), us_email := set_or_keep email (us_email u), us_disabled := set_or_keep disabled (us_disabled u)\<rparr>) (cl_users s)\<rparr>"
  by (auto simp: updateUser_def Let_def split: if_splits)

lemma markUserDeletionRequested_Inr:
  "markUserDeletionRequested inst user now s = Inr (t, b) \<Longrightarrow>
    t = s\<lparr>cl_users := update_where (\<lambda>u. user_row inst user u \<and> us_deletionRequestedAt u = None)
      (\<lambda>u. u\<lparr>us_deletionRequestedAt := Some now\<rparr>) (cl_users s)\<rparr> \<or> t = s \<and> \<not> open_account s inst user"
  by (auto simp: markUserDeletionRequested_def open_account_def Let_def split: if_splits)

lemma requestAccountDeletion_Inr:
  "requestAccountDeletion inst user already now s t = Inr (t', b) \<Longrightarrow>
    markUserDeletionRequested inst user now t = Inr (t', b) \<and>
    (already \<or> requireNoSoleOwnedSharedWorkspace s inst user = Inr ())"
  by (auto simp: requestAccountDeletion_def split: if_splits)

lemma markUserDeletionRequested_ok:
  assumes ok: "tables_fit s" and r: "markUserDeletionRequested inst user now s = Inr (t, b)"
  shows "tables_fit t"
  using markUserDeletionRequested_Inr[OF r] ok update_users_ok[OF ok] by auto

lemma underOwnerLock_Inr:
  "underOwnerLock env wid user change t = Inr r \<Longrightarrow>
    change t = Inr r \<and>
    (map_option mb_role (getMembership t (ce_instance env) wid user) = Some Owner \<longrightarrow>
      (\<exists>ms. listMemberships t (ce_instance env) wid = Inr ms \<and> another_active_owner t (ce_instance env) user ms))"
  by (auto simp: underOwnerLock_def split: if_splits)

lemma updateMembershipRole_Inr:
  assumes "updateMembershipRole inst wid user role now s = Inr (t, m)"
  obtains w n where "requireWorkspace s inst wid = Inr w" "cw_kind w \<noteq> Personal"
    "List.find (membership_where inst wid user) (cl_memberships s) = Some n" "m = with_role role now n"
    "t = s\<lparr>cl_memberships := update_where (membership_where inst wid user) (with_role role now) (cl_memberships s)\<rparr>"
  using assms by (auto simp: updateMembershipRole_def split: if_splits option.splits)

lemma removeMembership_Inr:
  assumes "removeMembership inst wid user s = Inr (t, m)"
  obtains w where "requireWorkspace s inst wid = Inr w" "cw_kind w \<noteq> Personal"
    "List.find (membership_where inst wid user) (cl_memberships s) = Some m"
    "t = s\<lparr>cl_memberships := delete_where (membership_where inst wid user) (cl_memberships s)\<rparr>"
  using assms by (auto simp: removeMembership_def split: if_splits option.splits)

lemma deleteAccessRequest_Inr:
  "deleteAccessRequest inst wid user s = Inr (t, x) \<Longrightarrow>
    t = s\<lparr>cl_requests := delete_where (access_request_where inst wid user) (cl_requests s)\<rparr>"
  by (auto simp: deleteAccessRequest_def split: option.splits)

lemma update_role_move_ok:
  "tables_fit s \<Longrightarrow> updateMembershipRole inst wid user role now s = Inr (t, m) \<Longrightarrow> tables_fit t"
  by (erule updateMembershipRole_Inr) (simp add: update_role_ok)

lemma remove_move_ok: "tables_fit s \<Longrightarrow> removeMembership inst wid user s = Inr (t, m) \<Longrightarrow> tables_fit t"
  by (erule removeMembership_Inr) (simp add: delete_memberships_ok)

lemma quiet_moves_keep_the_tables: "quiet_move s t \<Longrightarrow> tables_fit s \<Longrightarrow> tables_fit t"
proof (induction rule: quiet_move.induct)
  case (mv_update_user inst user label email disabled s t)
  then show ?case using updateUser_Inr[OF mv_update_user(1)] update_users_ok[OF mv_update_user(2)] by simp
qed (auto dest: ensurePersonalWorkspace_ok updateWorkspace_ok addMembership_ok createAccessRequest_ok
    deleteAccessRequest_Inr markWorkspaceDeletionRequested_ok remove_for_good_ok insert_user_ok
    deletePersonalWorkspaceForUser_Inr deleteUser_ok
    simp: delete_requests_ok deleteAccessRequestsForUser_def Let_def)

lemma moves_keep_the_tables: "collab_move s t \<Longrightarrow> tables_fit s \<Longrightarrow> tables_fit t"
  by (induction rule: collab_move.induct)
    (auto dest: quiet_moves_keep_the_tables createWorkspace_ok update_role_move_ok remove_move_ok
      deleteWorkspace_Inr remove_for_good_ok markUserDeletionRequested_ok underOwnerLock_Inr
      simp: removeMembershipsForUser_def Let_def delete_memberships_ok)

text \<open>The invariant of the tables.\<close>

interpretation collab: invariant_system no_collab collab_move tables_fit
proof unfold_locales
  show "no_collab s \<Longrightarrow> tables_fit s" for s :: "'a collab"
    by (simp add: no_collab_def tables_fit_def workspaces_ok_def members_ok_def requests_ok_def)
  show "tables_fit s \<Longrightarrow> collab_move s t \<Longrightarrow> tables_fit t" for s t :: "'a collab"
    by (rule moves_keep_the_tables)
qed

end
