(* ===== verification/Collab_Owners.thy ===== *)
theory Collab_Owners imports Collab_Facts begin

text \<open>
  Who owns a shared workspace while accounts are being closed. The acceptance of a deletion takes
  several steps: it locks the workspaces its user owns, reads the owners and the accounts, and marks
  the account later; everything else goes on in between, as far as the locks let it. The machine here
  has those steps. It notes the workspaces the locks come too late for: one created for an account
  that is closed by then, and one its user became an owner of after the locks were taken. Every other
  open shared workspace keeps an owner whose account is not closed.
\<close>

section \<open>What keeps an owner\<close>

lemma owner_besidesI:
  "m \<in> set (cl_memberships s) \<Longrightarrow> joined m w \<Longrightarrow> mb_role m = Owner \<Longrightarrow> Some (mb_user m) \<noteq> x \<Longrightarrow>
    open_account s (mb_instance m) (mb_user m) \<Longrightarrow> owner_besides x s w"
  by (auto simp: owner_besides_def list_ex_iff)

lemma owner_besidesE:
  assumes "owner_besides x s w"
  obtains m where "m \<in> set (cl_memberships s)" "joined m w" "mb_role m = Owner" "Some (mb_user m) \<noteq> x"
    "open_account s (mb_instance m) (mb_user m)"
  using assms by (auto simp: owner_besides_def list_ex_iff)

lemma open_account_cong: "cl_users t = cl_users s \<Longrightarrow> open_account t = open_account s"
  by (intro ext) (simp add: open_account_def)

text \<open>
  A step carries the owners when every open shared workspace after it, but some, was one before it and
  has all the open owners it had.
\<close>

definition owners_carried :: "string set \<Rightarrow> 'a collab \<Rightarrow> 'a collab \<Rightarrow> bool" where
  "owners_carried X s t \<longleftrightarrow>
     (\<forall>w. open_shared t w \<and> cw_id w \<notin> X \<longrightarrow>
        (\<exists>v. open_shared s v \<and> cw_id v = cw_id w \<and> cw_instance v = cw_instance w \<and>
           (\<forall>x. owner_besides x s v \<longrightarrow> owner_besides x t w)))"

lemma owners_carriedI:
  assumes ws: "\<And>w. open_shared t w \<Longrightarrow> cw_id w \<notin> X \<Longrightarrow>
      \<exists>v. open_shared s v \<and> cw_id v = cw_id w \<and> cw_instance v = cw_instance w"
    and ms: "\<And>m w. m \<in> set (cl_memberships s) \<Longrightarrow> open_shared t w \<Longrightarrow> cw_id w \<notin> X \<Longrightarrow> joined m w \<Longrightarrow>
      mb_role m = Owner \<Longrightarrow> open_account s (mb_instance m) (mb_user m) \<Longrightarrow>
      m \<in> set (cl_memberships t) \<and> open_account t (mb_instance m) (mb_user m)"
  shows "owners_carried X s t"
  unfolding owners_carried_def
proof (intro allI impI)
  fix w assume w: "open_shared t w \<and> cw_id w \<notin> X"
  with ws obtain v where v: "open_shared s v" "cw_id v = cw_id w" "cw_instance v = cw_instance w" by blast
  have "owner_besides x t w" if "owner_besides x s v" for x
    using that
  proof (rule owner_besidesE)
    fix m assume m: "m \<in> set (cl_memberships s)" "joined m v" "mb_role m = Owner" "Some (mb_user m) \<noteq> x"
      "open_account s (mb_instance m) (mb_user m)"
    with v w ms[of m w] show ?thesis by (auto simp: joined_def intro: owner_besidesI)
  qed
  with v show "\<exists>v. open_shared s v \<and> cw_id v = cw_id w \<and> cw_instance v = cw_instance w \<and>
      (\<forall>x. owner_besides x s v \<longrightarrow> owner_besides x t w)" by blast
qed

text \<open>The same when workspaces only go and users only come.\<close>

lemma owners_carried_frame:
  assumes "set (cl_workspaces t) \<subseteq> set (cl_workspaces s)"
    and "set (cl_memberships s) \<subseteq> set (cl_memberships t)" "set (cl_users s) \<subseteq> set (cl_users t)"
  shows "owners_carried {} s t"
  using assms by (intro owners_carriedI) (auto simp: open_account_def list_ex_iff open_shared_def)

lemma owners_carried_refl: "owners_carried {} s s"
  by (rule owners_carried_frame) simp_all

lemma owners_carried_trans:
  assumes "owners_carried {} r s" "owners_carried {} s t"
  shows "owners_carried {} r t"
  unfolding owners_carried_def
proof (intro allI impI)
  fix w assume "open_shared t w \<and> cw_id w \<notin> {}"
  with assms(2) obtain v where v: "open_shared s v" "cw_id v = cw_id w" "cw_instance v = cw_instance w"
      "\<forall>x. owner_besides x s v \<longrightarrow> owner_besides x t w" unfolding owners_carried_def by blast
  with assms(1) obtain u where "open_shared r u" "cw_id u = cw_id v" "cw_instance u = cw_instance v"
      "\<forall>x. owner_besides x r u \<longrightarrow> owner_besides x s v" unfolding owners_carried_def by blast
  with v show "\<exists>v. open_shared r v \<and> cw_id v = cw_id w \<and> cw_instance v = cw_instance w \<and>
      (\<forall>x. owner_besides x r v \<longrightarrow> owner_besides x t w)" by auto
qed

lemma owners_carried_mono: "owners_carried X s t \<Longrightarrow> X \<subseteq> Y \<Longrightarrow> owners_carried Y s t"
  unfolding owners_carried_def by blast

lemma carried_owners_stay:
  assumes "owners_carried X s t" and "owners_stay strays s"
    and "\<And>w. open_shared t w \<Longrightarrow> cw_id w \<notin> set strays' \<Longrightarrow> cw_id w \<in> X \<Longrightarrow> owner_besides None t w"
    and "set strays \<subseteq> set strays'"
  shows "owners_stay strays' t"
  unfolding owners_stay_def
proof (intro allI impI)
  fix w assume w: "open_shared t w \<and> cw_id w \<notin> set strays'"
  show "owner_besides None t w"
  proof (cases "cw_id w \<in> X")
    case True
    then show ?thesis using w assms(3) by blast
  next
    case False
    with w assms(1) obtain v where "open_shared s v" "cw_id v = cw_id w"
        "\<forall>x. owner_besides x s v \<longrightarrow> owner_besides x t w"
      unfolding owners_carried_def by blast
    moreover have "cw_id v \<notin> set strays" using w assms(4) \<open>cw_id v = cw_id w\<close> by auto
    ultimately show ?thesis using assms(2) unfolding owners_stay_def by blast
  qed
qed

section \<open>The quiet moves\<close>

lemma update_workspaces_carries:
  assumes f: "\<And>w. p w \<Longrightarrow> cw_id (f w) = cw_id w \<and> cw_instance (f w) = cw_instance w \<and> cw_kind (f w) = cw_kind w \<and>
      (notInDeletion (f w) \<longrightarrow> notInDeletion w)"
  shows "owners_carried {} s (s\<lparr>cl_workspaces := update_where p f (cl_workspaces s)\<rparr>)"
proof (rule owners_carriedI, goal_cases)
  case (1 w)
  then obtain v where "v \<in> set (cl_workspaces s)" "w = v \<or> p v \<and> w = f v" by (auto simp: set_update_where open_shared_def)
  with 1 f show ?case by (intro exI[of _ v]) (auto simp: open_shared_def)
qed (auto simp: open_account_def)

lemma update_users_carries:
  assumes f: "\<And>u. p u \<Longrightarrow> us_id (f u) = us_id u \<and> us_instance (f u) = us_instance u \<and>
      us_deletionRequestedAt (f u) = us_deletionRequestedAt u"
  shows "owners_carried {} s (s\<lparr>cl_users := update_where p f (cl_users s)\<rparr>)"
proof (rule owners_carriedI, goal_cases)
  case (2 m w)
  then obtain u where u: "u \<in> set (cl_users s)" "user_row (mb_instance m) (mb_user m) u" "us_deletionRequestedAt u = None"
    by (auto simp: open_account_def list_ex_iff)
  then have "(if p u then f u else u) \<in> set (update_where p f (cl_users s))" by (auto simp: update_where_def)
  with u f[of u] 2 show ?case
    by (auto simp: open_account_def list_ex_iff user_row_def split: if_splits)
qed (auto simp: open_shared_def)

lemma insert_personal_carries:
  assumes "insert_workspace w s = Inr t" "cw_kind w = Personal"
  shows "owners_carried {} s t"
  using assms(2) insert_workspace_Inr(1)[OF assms(1)]
  by (intro owners_carriedI) (auto simp: open_account_def open_shared_def)

lemma deleteUser_carries:
  assumes d: "deleteUser inst user s = Inr t"
  shows "owners_carried {} s t"
proof (rule owners_carriedI, goal_cases)
  case (2 m w)
  with d have "\<not> (mb_instance m = inst \<and> mb_user m = user)"
    by (auto simp: deleteUser_def list_ex_iff split: if_splits)
  with 2 d show ?case
    by (auto simp: deleteUser_def open_account_def list_ex_iff row_simps user_row_def split: if_splits)
qed (use d in \<open>auto simp: deleteUser_def open_shared_def split: if_splits\<close>)

lemma remove_for_good_carries:
  assumes "remove_for_good d inst wid s = Inr t"
  shows "owners_carried {} s t"
  using remove_for_good_Inr[OF assms]
  by (intro owners_carriedI)
    (auto simp: remove_workspace_def row_simps open_account_def joined_def workspace_row_def open_shared_def)

lemma insert_membership_carries: "insert_membership m s = Inr t \<Longrightarrow> owners_carried {} s t"
  by (auto simp: insert_membership_def split: if_splits intro: owners_carried_frame)

lemma quiet_moves_carry: "quiet_move s t \<Longrightarrow> owners_carried {} s t"
proof (induction rule: quiet_move.induct)
  case (mv_personal inst user newId now s t w)
  then show ?case
  proof (cases rule: ensurePersonalWorkspace_Inr)
    case (2 s1)
    note one = insert_personal_carries[OF 2(1,2)]
    from 2(5) show ?thesis using one owners_carried_trans[OF one insert_membership_carries] by blast
  qed (simp add: owners_carried_refl)
next
  case (mv_update inst wid u now s t w)
  then show ?case by (rule updateWorkspace_Inr) (simp add: update_workspaces_carries)
next
  case (mv_add inst wid user role now s t m)
  from addMembership_Inr(1)[OF this] show ?case by (rule insert_membership_carries)
next
  case (mv_request inst wid user newId now s t x)
  then show ?case
    by (auto simp: createAccessRequest_def insert_request_def Let_def split: if_splits intro: owners_carried_frame)
next
  case (mv_answer inst wid user s t x)
  then show ?case using deleteAccessRequest_Inr[OF mv_answer] by (auto intro: owners_carried_frame)
next
  case (mv_close inst wid now s t b)
  from markWorkspaceDeletionRequested_Inr[OF this] show ?case
    by (auto simp: notInDeletion_def owners_carried_refl intro!: update_workspaces_carries)
next
  case (mv_new_user u s t)
  with insert_user_Inr[OF this] show ?case by (auto intro: owners_carried_frame)
next
  case (mv_update_user inst user label email disabled s t)
  from updateUser_Inr[OF this] show ?case by (auto intro!: update_users_carries)
next
  case (mv_withdraw_requests s inst user)
  show ?case by (auto simp: deleteAccessRequestsForUser_def Let_def intro: owners_carried_frame)
next
  case (mv_delete_personal pending d inst user s t w)
  from deletePersonalWorkspaceForUser_Inr[OF this] show ?case by (rule remove_for_good_carries)
next
  case (mv_delete_user inst user s t)
  then show ?case by (rule deleteUser_carries)
qed

section \<open>Taking an owner away\<close>

text \<open>
  Under the lock of a workspace the role of one user in it changes or ends. If the user was not an owner
  no owner is lost; if the user was one, another is there. No other workspace loses anything.
\<close>

lemma locked_change_carries:
  assumes rest: "\<And>m. m \<in> set (cl_memberships s) \<Longrightarrow> \<not> membership_where inst wid user m \<Longrightarrow> m \<in> set (cl_memberships t)"
    and same: "cl_workspaces t = cl_workspaces s" "cl_users t = cl_users s"
  shows "owners_carried {wid} s t"
proof (rule owners_carriedI, goal_cases)
  case (2 m w)
  then have "\<not> membership_where inst wid user m" by (auto simp: membership_where_def joined_def)
  with 2 rest open_account_cong[OF same(2)] show ?case by simp
qed (auto simp: open_shared_def same)

lemma locked_change_keeps_owner:
  fixes s t :: "'a collab"
  assumes ok: "tables_fit s" and keep: "owners_stay strays s"
    and lock: "map_option mb_role (getMembership s inst wid user) = Some Owner \<Longrightarrow>
      \<exists>ms. listMemberships s inst wid = Inr ms \<and> another_active_owner s inst user ms"
    and open_there: "requireWorkspace s inst wid = Inr w" "List.find (membership_where inst wid user) (cl_memberships s) = Some n"
    and rest: "\<And>m. m \<in> set (cl_memberships s) \<Longrightarrow> \<not> membership_where inst wid user m \<Longrightarrow> m \<in> set (cl_memberships t)"
    and same: "cl_workspaces t = cl_workspaces s" "cl_users t = cl_users s"
  shows "owners_stay strays t"
proof (rule carried_owners_stay[where X = "{wid}" and s = s and strays = strays])
  show "owners_stay strays s" "set strays \<subseteq> set strays" using keep by simp_all
  show "owners_carried {wid} s t"
    by (rule locked_change_carries[where inst = inst and user = user]) (use rest same in auto)
  note acc = open_account_cong[OF same(2)]
  have n: "n \<in> set (cl_memberships s)" "membership_where inst wid user n" using find_Some_iff[OF open_there(2)] by auto
  obtain g where g: "getMembership s inst wid user = Some g" using getMembership_open[OF open_there] by blast
  have gn: "g = n"
    using same_membership[of s g n inst wid user] getMembership_Some[OF g] n ok by (auto simp: tables_fit_def)
  fix v assume "open_shared t v" "cw_id v \<notin> set strays"
  with keep same have "owner_besides None s v" by (simp add: owners_stay_def open_shared_def)
  then obtain m where m: "m \<in> set (cl_memberships s)" "joined m v" "mb_role m = Owner"
      "open_account s (mb_instance m) (mb_user m)" by (rule owner_besidesE)
  show "owner_besides None t v"
  proof (cases "membership_where inst wid user m")
    case False
    from owner_besidesI[OF rest[OF m(1) False] m(2,3)] m(4) acc show ?thesis by simp
  next
    case True
    have "m = n" using same_membership[of s m n inst wid user] m(1) True n ok by (simp add: tables_fit_def)
    with m(3) g gn lock obtain ms where ms: "listMemberships s inst wid = Inr ms" "another_active_owner s inst user ms"
      by auto
    from ms(2) obtain k where o: "k \<in> set ms" "mb_role k = Owner" "mb_user k \<noteq> user" "open_account s inst (mb_user k)"
      by (rule another_active_ownerE)
    from o(1) ms(1) have there: "k \<in> set (cl_memberships s)" "mb_instance k = inst" "mb_workspace k = wid"
      by (auto simp: listMemberships_def memberships_in_def)
    have "k \<in> set (cl_memberships t)" using rest there(1) o(3) by (simp add: membership_where_def)
    moreover have "joined k v" using True m(2) there by (simp add: joined_def membership_where_def)
    ultimately show ?thesis using o(2,4) acc there(2) by (intro owner_besidesI[of k]) auto
  qed
qed

lemma role_move_owners:
  assumes u: "underOwnerLock env wid user (\<lambda>t. updateMembershipRole (ce_instance env) wid user role now t) s = Inr (t, m)"
  shows "owners_carried {wid} s t" and "tables_fit s \<Longrightarrow> owners_stay strays s \<Longrightarrow> owners_stay strays t"
proof -
  note lock = underOwnerLock_Inr[OF u]
  show "owners_carried {wid} s t"
    by (rule updateMembershipRole_Inr[OF conjunct1[OF lock]],
        rule locked_change_carries[where inst = "ce_instance env" and user = user]) (auto simp: set_update_where)
  show "owners_stay strays t" if "tables_fit s" "owners_stay strays s"
    by (rule updateMembershipRole_Inr[OF conjunct1[OF lock]],
        rule locked_change_keeps_owner[OF that conjunct2[OF lock, rule_format]])
      (auto simp: set_update_where)
qed

lemma remove_move_owners:
  assumes u: "underOwnerLock env wid user (\<lambda>t. removeMembership (ce_instance env) wid user t) s = Inr (t, m)"
  shows "owners_carried {wid} s t" and "tables_fit s \<Longrightarrow> owners_stay strays s \<Longrightarrow> owners_stay strays t"
proof -
  note lock = underOwnerLock_Inr[OF u]
  show "owners_carried {wid} s t"
    by (rule removeMembership_Inr[OF conjunct1[OF lock]],
        rule locked_change_carries[where inst = "ce_instance env" and user = user]) (auto simp: row_simps)
  show "owners_stay strays t" if "tables_fit s" "owners_stay strays s"
    by (rule removeMembership_Inr[OF conjunct1[OF lock]],
        rule locked_change_keeps_owner[OF that conjunct2[OF lock, rule_format]])
      (auto simp: row_simps)
qed

section \<open>Creating a workspace\<close>

lemma create_carries:
  assumes "createWorkspace c newId now s = Inr (t, w)"
  shows "owners_carried {newId} s t"
    and "newId \<notin> cw_id ` set (cl_workspaces s)"
    and "open_account s (wc_instance c) (wc_creator c) \<Longrightarrow> open_shared t v \<Longrightarrow> cw_id v = newId \<Longrightarrow> owner_besides None t v"
proof -
  from assms obtain s1 where i: "insert_workspace w s = Inr s1"
    and m: "insert_membership (new_membership now (wc_instance c) (cw_id w) (wc_creator c) Owner) s1 = Inr t"
    and w: "cw_instance w = wc_instance c" "cw_id w = newId"
    by (rule createWorkspace_Inr) blast
  have s1: "s1 = s\<lparr>cl_workspaces := cl_workspaces s @ [w]\<rparr>" by (rule insert_workspace_Inr(1)[OF i])
  from m have t: "t = s1\<lparr>cl_memberships := cl_memberships s1 @ [new_membership now (wc_instance c) (cw_id w) (wc_creator c) Owner]\<rparr>"
    by (auto simp: insert_membership_def split: if_splits)
  have users: "open_account t = open_account s" by (rule open_account_cong) (simp add: t s1)
  show fresh: "newId \<notin> cw_id ` set (cl_workspaces s)" using insert_workspace_Inr(2)[OF i] w(2) by (metis imageE)
  show "owners_carried {newId} s t"
    by (rule owners_carriedI) (use users w in \<open>auto simp: t s1 open_shared_def\<close>)
  show "owner_besides None t v" if "open_account s (wc_instance c) (wc_creator c)" "open_shared t v" "cw_id v = newId"
  proof -
    have "v = w" using that(2,3) fresh w by (auto simp: t s1 open_shared_def)
    then show ?thesis using that(1) users w
      by (intro owner_besidesI[of "new_membership now (wc_instance c) (cw_id w) (wc_creator c) Owner"])
        (auto simp: t new_membership_def joined_def)
  qed
qed

section \<open>Closing an account\<close>

lemma map_result_covers: "map_result f xs = Inr ys \<Longrightarrow> x \<in> set xs \<Longrightarrow> \<exists>y \<in> set ys. f x = Inr y"
  by (induction xs arbitrary: ys) auto

lemma other_owner_of_each:
  assumes r: "requireNoSoleOwnedSharedWorkspace s inst user = Inr ()"
    and m: "m \<in> set (cl_memberships s)" "mb_instance m = inst" "mb_user m = user" "mb_role m = Owner"
    and w: "open_shared s w" "joined m w"
  shows "owner_besides (Some user) s w"
proof -
  have w': "w \<in> set (cl_workspaces s)" "cw_kind w = Shared" "notInDeletion w" using w(1) by (simp_all add: open_shared_def)
  have "(w, Owner) \<in> set (listWorkspacesForUser s inst user)"
    using m w(2) w' by (force simp: listWorkspacesForUser_def)
  moreover obtain bs where bs: "map_result (\<lambda>(w, role). if cw_kind w \<noteq> Shared \<or> role \<noteq> Owner then Inr False
      else bind_result (listMemberships s inst (cw_id w)) (\<lambda>ms. Inr (\<not> another_active_owner s inst user ms)))
      (listWorkspacesForUser s inst user) = Inr bs" "count_where (\<lambda>b. b) bs = 0"
    using r by (auto simp: requireNoSoleOwnedSharedWorkspace_def blocking_workspaces_def split: if_splits)
  ultimately obtain b where "b \<in> set bs"
      "bind_result (listMemberships s inst (cw_id w)) (\<lambda>ms. Inr (\<not> another_active_owner s inst user ms)) = Inr b"
    using map_result_covers[OF bs(1)] w'(2) by fastforce
  moreover have "\<not> b" if "b \<in> set bs" for b
    using bs(2) that by (auto simp: count_where_def filter_empty_conv)
  ultimately obtain ms where ms: "listMemberships s inst (cw_id w) = Inr ms" "another_active_owner s inst user ms" by auto
  from ms(2) obtain k where o: "k \<in> set ms" "mb_role k = Owner" "mb_user k \<noteq> user" "open_account s inst (mb_user k)"
    by (rule another_active_ownerE)
  from o(1) ms(1) have "k \<in> set (cl_memberships s)" "mb_instance k = inst" "mb_workspace k = cw_id w"
    by (auto simp: listMemberships_def memberships_in_def)
  with o w(2) m(2) show ?thesis by (intro owner_besidesI[of k]) (auto simp: joined_def)
qed

text \<open>A mark takes one user's ownerships out of account, and nothing else.\<close>

lemma mark_facts:
  assumes "markUserDeletionRequested inst user now s = Inr (t, b)"
  shows "cl_workspaces t = cl_workspaces s" "cl_memberships t = cl_memberships s"
    and "open_account s i x \<Longrightarrow> i \<noteq> inst \<or> x \<noteq> user \<Longrightarrow> open_account t i x"
    and "\<not> open_account s inst user \<Longrightarrow> t = s"
  using markUserDeletionRequested_Inr[OF assms]
  by (auto simp: open_account_def list_ex_iff set_update_where user_row_def markUserDeletionRequested_def)
    (use assms in \<open>auto simp: markUserDeletionRequested_def list_ex_iff user_row_def Let_def split: if_splits\<close>)

text \<open>Memberships of a closed account are withdrawn without a loss.\<close>

lemma withdrawn_memberships_carry:
  assumes "\<not> open_account s inst user"
  shows "owners_carried {} s (fst (removeMembershipsForUser inst user s))"
  using assms by (intro owners_carriedI)
    (auto simp: removeMembershipsForUser_def Let_def row_simps open_account_def open_shared_def)

section \<open>The machine\<close>

text \<open>
  An acceptance under way: whose account it closes, the ids it has locked, and, once it has read, the
  tables it read. A run of the system: its tables, the acceptances under way, and the ids of the
  workspaces the locks came too late for.
\<close>

record 'a closing =
  cg_instance :: string
  cg_user :: string
  cg_locks :: "string list"
  cg_read :: "'a collab option"

record 'a collab_run =
  cr_tables :: "'a collab"
  cr_closing :: "'a closing list"
  cr_strays :: "string list"

definition no_run :: "'a collab_run \<Rightarrow> bool" where
  "no_run r \<longleftrightarrow> no_collab (cr_tables r) \<and> cr_closing r = [] \<and> cr_strays r = []"

definition unlocked :: "'a collab_run \<Rightarrow> string \<Rightarrow> bool" where
  "unlocked r wid \<longleftrightarrow> (\<forall>c \<in> set (cr_closing r). wid \<notin> set (cg_locks c))"

text \<open>The open shared workspaces the user owns although they are not locked.\<close>

definition owned_unlocked :: "'a collab \<Rightarrow> 'a closing \<Rightarrow> string list" where
  "owned_unlocked s c =
     map cw_id (filter (\<lambda>w. cw_kind w = Shared \<and> notInDeletion w \<and> cw_id w \<notin> set (cg_locks c) \<and>
       list_ex (\<lambda>m. joined m w \<and> mb_role m = Owner \<and> mb_instance m = cg_instance c \<and> mb_user m = cg_user c)
         (cl_memberships s)) (cl_workspaces s))"

text \<open>
  A change of an owner and the removal of a workspace wait until its lock is free. Everything else may
  happen at any time. An account is marked by the acceptance that checked it, in tables that may have
  changed since it read; an account that is closed already is marked again without a check.
\<close>

inductive owners_step :: "'a collab_run \<Rightarrow> 'a collab_run \<Rightarrow> bool" where
  os_quiet: "quiet_move (cr_tables r) t \<Longrightarrow> owners_step r (r\<lparr>cr_tables := t\<rparr>)"
| os_create: "createWorkspace c newId now (cr_tables r) = Inr (t, w) \<Longrightarrow>
    owners_step r (r\<lparr>cr_tables := t,
      cr_strays := (if open_account (cr_tables r) (wc_instance c) (wc_creator c) then cr_strays r else newId # cr_strays r)\<rparr>)"
| os_role: "unlocked r wid \<Longrightarrow>
    underOwnerLock env wid user (\<lambda>t. updateMembershipRole (ce_instance env) wid user role now t) (cr_tables r) = Inr (t, m) \<Longrightarrow>
    owners_step r (r\<lparr>cr_tables := t\<rparr>)"
| os_remove: "unlocked r wid \<Longrightarrow>
    underOwnerLock env wid user (\<lambda>t. removeMembership (ce_instance env) wid user t) (cr_tables r) = Inr (t, m) \<Longrightarrow>
    owners_step r (r\<lparr>cr_tables := t\<rparr>)"
| os_delete: "unlocked r wid \<Longrightarrow> deleteWorkspace pending deleteOwned inst wid (cr_tables r) = Inr (t, w) \<Longrightarrow>
    owners_step r (r\<lparr>cr_tables := t\<rparr>)"
| os_lock: "ids = locked_for_owner_change (cr_tables r) inst (Inr user) \<Longrightarrow> (\<And>wid. wid \<in> set ids \<Longrightarrow> unlocked r wid) \<Longrightarrow>
    owners_step r (r\<lparr>cr_closing := \<lparr>cg_instance = inst, cg_user = user, cg_locks = ids, cg_read = None\<rparr> # cr_closing r\<rparr>)"
| os_read: "c \<in> set (cr_closing r) \<Longrightarrow> cg_read c = None \<Longrightarrow>
    owners_step r (r\<lparr>cr_closing := c\<lparr>cg_read := Some (cr_tables r)\<rparr> # remove1 c (cr_closing r)\<rparr>)"
| os_mark: "c \<in> set (cr_closing r) \<Longrightarrow> cg_read c = Some s \<Longrightarrow>
    requestAccountDeletion (cg_instance c) (cg_user c) False now s (cr_tables r) = Inr (t, b) \<Longrightarrow>
    owners_step r (r\<lparr>cr_tables := t, cr_closing := remove1 c (cr_closing r),
      cr_strays := owned_unlocked (cr_tables r) c @ cr_strays r\<rparr>)"
| os_abandon: "owners_step r (r\<lparr>cr_closing := remove1 c (cr_closing r)\<rparr>)"
| os_mark_again: "\<not> open_account (cr_tables r) inst user \<Longrightarrow>
    requestAccountDeletion inst user True now s (cr_tables r) = Inr (t, b) \<Longrightarrow> owners_step r (r\<lparr>cr_tables := t\<rparr>)"
| os_withdraw: "\<not> open_account (cr_tables r) inst user \<Longrightarrow>
    owners_step r (r\<lparr>cr_tables := fst (removeMembershipsForUser inst user (cr_tables r))\<rparr>)"

inductive_cases owners_stepE: "owners_step r r'"

section \<open>Its invariant\<close>

text \<open>What an acceptance that has read may rely on: its workspaces have an owner besides its user.\<close>

definition cleared :: "'a closing \<Rightarrow> bool" where
  "cleared c \<longleftrightarrow>
     (\<exists>s. cg_read c = Some s \<and> requireNoSoleOwnedSharedWorkspace s (cg_instance c) (cg_user c) = Inr ())"

definition closing_ok :: "'a collab \<Rightarrow> string list \<Rightarrow> 'a closing \<Rightarrow> bool" where
  "closing_ok s strays c \<longleftrightarrow>
     (\<forall>wid \<in> set (cg_locks c). \<exists>w \<in> set (cl_workspaces s). cw_id w = wid \<and> cw_kind w = Shared \<and>
        cw_instance w = cg_instance c) \<and>
     (cleared c \<longrightarrow> (\<forall>w. open_shared s w \<and> cw_id w \<in> set (cg_locks c) \<and> cw_id w \<notin> set strays \<longrightarrow>
        owner_besides (Some (cg_user c)) s w))"

fun apart :: "'a closing list \<Rightarrow> bool" where
  "apart [] = True"
| "apart (c # cs) = ((\<forall>d \<in> set cs. set (cg_locks c) \<inter> set (cg_locks d) = {}) \<and> apart cs)"

definition run_ok :: "'a collab_run \<Rightarrow> bool" where
  "run_ok r \<longleftrightarrow> tables_fit (cr_tables r) \<and> owners_stay (cr_strays r) (cr_tables r) \<and>
     apart (cr_closing r) \<and>
     (\<forall>c \<in> set (cr_closing r). closing_ok (cr_tables r) (cr_strays r) c)"

lemma set_remove1_sub: "d \<in> set (remove1 c cs) \<Longrightarrow> d \<in> set cs"
  by (meson notin_set_remove1)

lemma apart_remove1: "apart cs \<Longrightarrow> apart (remove1 c cs)"
  by (induction cs) (auto dest: set_remove1_sub)

lemma apart_others:
  "apart cs \<Longrightarrow> c \<in> set cs \<Longrightarrow> d \<in> set (remove1 c cs) \<Longrightarrow> set (cg_locks c) \<inter> set (cg_locks d) = {}"
  by (induction cs) (auto split: if_splits)

text \<open>A step that carries the owners of what is locked keeps every acceptance under way as it is.\<close>

lemma closing_stays:
  assumes "closing_ok s strays c" and "owners_carried X s t" and "X \<inter> set (cg_locks c) = {}"
    and "set strays \<subseteq> set strays'"
    and "\<And>wid w. wid \<in> set (cg_locks c) \<Longrightarrow> w \<in> set (cl_workspaces s) \<Longrightarrow> cw_id w = wid \<Longrightarrow> cw_kind w = Shared \<Longrightarrow>
      cw_instance w = cg_instance c \<Longrightarrow>
      \<exists>v \<in> set (cl_workspaces t). cw_id v = wid \<and> cw_kind v = Shared \<and> cw_instance v = cg_instance c"
  shows "closing_ok t strays' c"
  unfolding closing_ok_def
proof (intro conjI ballI impI allI)
  fix wid assume "wid \<in> set (cg_locks c)"
  with assms(1,5) show "\<exists>w \<in> set (cl_workspaces t). cw_id w = wid \<and> cw_kind w = Shared \<and> cw_instance w = cg_instance c"
    unfolding closing_ok_def by blast
next
  fix w assume "cleared c" and w: "open_shared t w \<and> cw_id w \<in> set (cg_locks c) \<and> cw_id w \<notin> set strays'"
  with assms(2,3) obtain v where v: "open_shared s v" "cw_id v = cw_id w"
      "\<forall>x. owner_besides x s v \<longrightarrow> owner_besides x t w"
    unfolding owners_carried_def by blast
  moreover have "cw_id v \<in> set (cg_locks c)" "cw_id v \<notin> set strays" using v(2) w assms(4) by auto
  ultimately show "owner_besides (Some (cg_user c)) t w"
    using assms(1) \<open>cleared c\<close> unfolding closing_ok_def by blast
qed

text \<open>A shared workspace that is locked is still there after a quiet move.\<close>

definition shared_there :: "string \<Rightarrow> 'a collab \<Rightarrow> string set" where
  "shared_there i s = cw_id ` {w \<in> set (cl_workspaces s). cw_kind w = Shared \<and> cw_instance w = i}"

lemma shared_there_sub: "set (cl_workspaces s) \<subseteq> set (cl_workspaces t) \<Longrightarrow> shared_there i s \<subseteq> shared_there i t"
  by (auto simp: shared_there_def)

lemma shared_there_update:
  assumes "\<And>w. p w \<Longrightarrow> cw_id (f w) = cw_id w \<and> cw_kind (f w) = cw_kind w \<and> cw_instance (f w) = cw_instance w"
  shows "shared_there i s \<subseteq> shared_there i (s\<lparr>cl_workspaces := update_where p f (cl_workspaces s)\<rparr>)"
proof
  fix x assume "x \<in> shared_there i s"
  then obtain w where w: "w \<in> set (cl_workspaces s)" "cw_kind w = Shared" "cw_id w = x" "cw_instance w = i" by (auto simp: shared_there_def)
  then have "(if p w then f w else w) \<in> set (update_where p f (cl_workspaces s))" by (auto simp: update_where_def)
  moreover have "cw_id (if p w then f w else w) = x \<and> cw_kind (if p w then f w else w) = Shared \<and>
      cw_instance (if p w then f w else w) = i" using w assms[of w] by simp
  ultimately show "x \<in> shared_there i (s\<lparr>cl_workspaces := update_where p f (cl_workspaces s)\<rparr>)"
    by (auto simp: shared_there_def)
qed

lemma shared_there_remove:
  assumes "remove_for_good d inst wid s = Inr t"
  shows "shared_there i s - {wid} \<subseteq> shared_there i t"
  using remove_for_good_Inr[OF assms] by (auto simp: shared_there_def remove_workspace_def row_simps workspace_row_def)

lemma personal_there:
  assumes "tables_fit s" "deletePersonalWorkspaceForUser pending d inst user s = Inr (t, w)"
  shows "shared_there i s \<subseteq> shared_there i t"
proof -
  have w: "w \<in> set (cl_workspaces s)" "cw_kind w = Personal"
    using assms(2) by (auto simp: deletePersonalWorkspaceForUser_def getPersonalWorkspace_def
        dest: find_Some_iff split: option.splits if_splits)
  have "cw_id w \<notin> shared_there i s"
    using same_workspace[of s w] w assms(1) by (auto simp: shared_there_def tables_fit_def)
  with shared_there_remove[OF deletePersonalWorkspaceForUser_Inr[OF assms(2)]] show ?thesis by blast
qed

lemma quiet_moves_there: "quiet_move s t \<Longrightarrow> tables_fit s \<Longrightarrow> shared_there i s \<subseteq> shared_there i t"
proof (induction rule: quiet_move.induct)
  case (mv_personal inst user newId now s t w)
  from mv_personal(1) show ?case
    by (rule ensurePersonalWorkspace_Inr)
      (auto dest!: insert_workspace_Inr(1) simp: insert_membership_def shared_there_def split: if_splits)
next
  case (mv_update inst wid u now s t w)
  from mv_update(1) show ?case by (rule updateWorkspace_Inr) (simp add: shared_there_update)
next
  case (mv_close inst wid now s t b)
  have "shared_there i s \<subseteq> shared_there i (s\<lparr>cl_workspaces := update_where p (\<lambda>w. w\<lparr>cw_deletionRequestedAt := Some now\<rparr>)
      (cl_workspaces s)\<rparr>)" for p :: "collab_workspace \<Rightarrow> bool" by (rule shared_there_update) simp
  with markWorkspaceDeletionRequested_Inr[OF mv_close(1)] show ?case by blast
next
  case (mv_update_user inst user label email disabled s t)
  from updateUser_Inr[OF mv_update_user(1)] show ?case by (simp add: shared_there_def)
next
  case (mv_delete_personal pending d inst user s t w)
  then show ?case by (rule personal_there[rotated])
next
  case (mv_answer inst wid user s t x)
  from deleteAccessRequest_Inr[OF mv_answer(1)] show ?case by (simp add: shared_there_def)
qed (auto dest!: addMembership_Inr(1) insert_user_Inr simp: insert_membership_def createAccessRequest_def insert_request_def
    deleteAccessRequestsForUser_def deleteUser_def shared_there_def Let_def split: if_splits)

section \<open>The steps keep it\<close>

text \<open>The part of the invariant that speaks of the tables, for a step that carries the owners but some.\<close>

lemma tables_step_ok:
  assumes ok: "run_ok r" and fit: "tables_fit t" and carried: "owners_carried X (cr_tables r) t"
    and there: "\<And>i. shared_there i (cr_tables r) - X \<subseteq> shared_there i t"
    and free: "\<And>c. c \<in> set (cr_closing r) \<Longrightarrow> X \<inter> set (cg_locks c) = {}"
    and owners: "owners_stay strays t" and more: "set (cr_strays r) \<subseteq> set strays"
  shows "run_ok (r\<lparr>cr_tables := t, cr_strays := strays\<rparr>)"
proof -
  have "closing_ok t strays c" if c: "c \<in> set (cr_closing r)" for c
  proof (rule closing_stays[OF _ carried free[OF c] more])
    show "closing_ok (cr_tables r) (cr_strays r) c" using ok c by (simp add: run_ok_def)
    fix wid w assume w: "wid \<in> set (cg_locks c)" "w \<in> set (cl_workspaces (cr_tables r))" "cw_id w = wid"
      "cw_kind w = Shared" "cw_instance w = cg_instance c"
    then have "wid \<in> shared_there (cg_instance c) (cr_tables r) - X" using free[OF c] by (auto simp: shared_there_def)
    with there have "wid \<in> shared_there (cg_instance c) t" by blast
    then show "\<exists>v \<in> set (cl_workspaces t). cw_id v = wid \<and> cw_kind v = Shared \<and> cw_instance v = cg_instance c"
      by (auto simp: shared_there_def)
  qed
  with ok fit owners show ?thesis by (simp add: run_ok_def)
qed

lemma all_carried_ok:
  assumes ok: "run_ok r" and "tables_fit t" and carried: "owners_carried {} (cr_tables r) t"
    and "\<And>i. shared_there i (cr_tables r) \<subseteq> shared_there i t"
  shows "run_ok (r\<lparr>cr_tables := t\<rparr>)"
proof -
  have "owners_stay (cr_strays r) t"
    by (rule carried_owners_stay[OF carried, of "cr_strays r"]) (use ok in \<open>simp_all add: run_ok_def\<close>)
  from tables_step_ok[OF ok assms(2) carried _ _ this] assms(4) show ?thesis by simp
qed

lemma locked_step_ok:
  assumes ok: "run_ok r" and fit: "tables_fit t" and carried: "owners_carried {wid} (cr_tables r) t"
    and there: "\<And>i. shared_there i (cr_tables r) - {wid} \<subseteq> shared_there i t" and free: "unlocked r wid"
    and owners: "owners_stay (cr_strays r) t"
  shows "run_ok (r\<lparr>cr_tables := t\<rparr>)"
  using tables_step_ok[OF ok fit carried there _ owners order_refl] free by (auto simp: unlocked_def)

lemma create_step_ok:
  assumes ok: "run_ok r" and c: "createWorkspace c newId now (cr_tables r) = Inr (t, w)"
  defines "strays \<equiv> (if open_account (cr_tables r) (wc_instance c) (wc_creator c) then cr_strays r else newId # cr_strays r)"
  shows "run_ok (r\<lparr>cr_tables := t, cr_strays := strays\<rparr>)"
proof (rule tables_step_ok[OF ok _ create_carries(1)[OF c]])
  have fit: "tables_fit (cr_tables r)" using ok by (simp add: run_ok_def)
  show "tables_fit t" by (rule createWorkspace_ok[OF fit c])
  from c have more: "set (cl_workspaces (cr_tables r)) \<subseteq> set (cl_workspaces t)"
    by (rule createWorkspace_Inr) (auto dest!: insert_workspace_Inr(1) simp: insert_membership_def split: if_splits)
  show "shared_there i (cr_tables r) - {newId} \<subseteq> shared_there i t" for i using shared_there_sub[OF more] by blast
  show "{newId} \<inter> set (cg_locks d) = {}" if "d \<in> set (cr_closing r)" for d
  proof -
    have "set (cg_locks d) \<subseteq> cw_id ` set (cl_workspaces (cr_tables r))"
      using ok that by (fastforce simp: run_ok_def closing_ok_def)
    with create_carries(2)[OF c] show ?thesis by blast
  qed
  show "owners_stay strays t"
    by (rule carried_owners_stay[OF create_carries(1)[OF c], of "cr_strays r"])
      (use ok create_carries(3)[OF c] in \<open>auto simp: run_ok_def strays_def split: if_splits\<close>)
  show "set (cr_strays r) \<subseteq> set strays" by (auto simp: strays_def)
qed

text \<open>What an acceptance has read clears the workspaces it has locked.\<close>

lemma locked_instance:
  assumes "run_ok r" "c \<in> set (cr_closing r)" "w \<in> set (cl_workspaces (cr_tables r))" "cw_id w \<in> set (cg_locks c)"
  shows "cw_instance w = cg_instance c"
  using assms same_workspace[of "cr_tables r" _ w] unfolding run_ok_def closing_ok_def tables_fit_def by metis

lemma read_step_ok:
  assumes ok: "run_ok r" and c: "c \<in> set (cr_closing r)"
  shows "run_ok (r\<lparr>cr_closing := c\<lparr>cg_read := Some (cr_tables r)\<rparr> # remove1 c (cr_closing r)\<rparr>)"
proof -
  let ?c = "c\<lparr>cg_read := Some (cr_tables r)\<rparr>"
  have old: "closing_ok (cr_tables r) (cr_strays r) c" "apart (cr_closing r)" using ok c by (simp_all add: run_ok_def)
  have "owner_besides (Some (cg_user c)) (cr_tables r) w"
    if "cleared ?c" and w: "open_shared (cr_tables r) w" "cw_id w \<in> set (cg_locks c)" "cw_id w \<notin> set (cr_strays r)" for w
  proof -
    have r: "requireNoSoleOwnedSharedWorkspace (cr_tables r) (cg_instance c) (cg_user c) = Inr ()"
      using that(1) by (simp add: cleared_def)
    have inst: "cw_instance w = cg_instance c" using locked_instance[OF ok c] w by (simp add: open_shared_def)
    from ok w have "owner_besides None (cr_tables r) w" by (simp add: run_ok_def owners_stay_def)
    then obtain m where m: "m \<in> set (cl_memberships (cr_tables r))" "joined m w" "mb_role m = Owner"
        "open_account (cr_tables r) (mb_instance m) (mb_user m)" by (rule owner_besidesE)
    show ?thesis
    proof (cases "mb_user m = cg_user c")
      case True
      from m(2) inst have "mb_instance m = cg_instance c" by (simp add: joined_def)
      from other_owner_of_each[OF r m(1) this True m(3) w(1) m(2)] show ?thesis .
    next
      case False
      with m show ?thesis by (intro owner_besidesI[of m]) auto
    qed
  qed
  then have "closing_ok (cr_tables r) (cr_strays r) ?c" using old(1) by (simp add: closing_ok_def)
  with ok old c show ?thesis
    by (auto simp: run_ok_def apart_remove1 dest: set_remove1_sub apart_others)
qed

lemma lock_step_ok:
  assumes ok: "run_ok r" and ids: "ids = locked_for_owner_change (cr_tables r) inst (Inr user)"
    and free: "\<And>wid. wid \<in> set ids \<Longrightarrow> unlocked r wid"
  shows "run_ok (r\<lparr>cr_closing := \<lparr>cg_instance = inst, cg_user = user, cg_locks = ids, cg_read = None\<rparr> # cr_closing r\<rparr>)"
  using ok free by (auto simp: run_ok_def closing_ok_def cleared_def ids locked_for_owner_change_def unlocked_def)

text \<open>
  The mark itself. Of what its user owns, the workspaces that are locked have somebody else, and the
  others are strays from then on.
\<close>

lemma mark_step_ok:
  assumes ok: "run_ok r" and c: "c \<in> set (cr_closing r)" and read: "cg_read c = Some s"
    and q: "requestAccountDeletion (cg_instance c) (cg_user c) False now s (cr_tables r) = Inr (t, b)"
  defines "strays \<equiv> owned_unlocked (cr_tables r) c @ cr_strays r"
  shows "run_ok (r\<lparr>cr_tables := t, cr_closing := remove1 c (cr_closing r), cr_strays := strays\<rparr>)"
proof -
  note q' = requestAccountDeletion_Inr[OF q]
  note mark = mark_facts[OF conjunct1[OF q']]
  have cleared: "cleared c" using q' read by (simp add: cleared_def)
  have fit: "tables_fit t"
    using markUserDeletionRequested_ok[OF _ conjunct1[OF q']] ok by (simp add: run_ok_def)
  have rest: "owner_besides x t w"
    if "owner_besides x (cr_tables r) w" "open_shared t w" "cw_id w \<notin> set strays"
      "cw_id w \<in> set (cg_locks c) \<Longrightarrow> x = Some (cg_user c)" for x w
    using that(1)
  proof (rule owner_besidesE)
    fix m assume m: "m \<in> set (cl_memberships (cr_tables r))" "joined m w" "mb_role m = Owner" "Some (mb_user m) \<noteq> x"
      "open_account (cr_tables r) (mb_instance m) (mb_user m)"
    have "\<not> (mb_instance m = cg_instance c \<and> mb_user m = cg_user c)"
      using m that(2-4) mark(1) by (force simp: strays_def owned_unlocked_def open_shared_def list_ex_iff)
    with m mark show ?thesis by (intro owner_besidesI[of m]) auto
  qed
  have there: "open_shared t w = open_shared (cr_tables r) w" for w using mark(1) by (simp add: open_shared_def)
  have "owners_stay strays t"
    unfolding owners_stay_def
  proof (intro allI impI)
    fix w assume w: "open_shared t w \<and> cw_id w \<notin> set strays"
    show "owner_besides None t w"
    proof (cases "cw_id w \<in> set (cg_locks c)")
      case True
      with ok c cleared w have "owner_besides (Some (cg_user c)) (cr_tables r) w"
        by (auto simp: run_ok_def closing_ok_def there strays_def)
      from rest[OF this] w have "owner_besides (Some (cg_user c)) t w" by blast
      then show ?thesis by (auto simp: owner_besides_def list_ex_iff)
    next
      case False
      from ok w have "owner_besides None (cr_tables r) w" by (auto simp: run_ok_def owners_stay_def there strays_def)
      from rest[OF this] w False show ?thesis by blast
    qed
  qed
  moreover have "closing_ok t strays d" if d: "d \<in> set (remove1 c (cr_closing r))" for d
  proof -
    have old: "closing_ok (cr_tables r) (cr_strays r) d" using ok set_remove1_sub[OF d] by (simp add: run_ok_def)
    have "cw_id w \<notin> set (cg_locks c)" if "cw_id w \<in> set (cg_locks d)" for w
      using apart_others[OF _ c d] ok that by (auto simp: run_ok_def)
    then have "owner_besides (Some (cg_user d)) t w"
      if "cleared d" "open_shared t w" "cw_id w \<in> set (cg_locks d)" "cw_id w \<notin> set strays" for w
      using old that rest[of "Some (cg_user d)" w] unfolding closing_ok_def there by (auto simp: strays_def)
    with old show ?thesis unfolding closing_ok_def mark(1) by blast
  qed
  ultimately show ?thesis using ok fit by (auto simp: run_ok_def apart_remove1)
qed

lemma steps_keep_owners: "owners_step r r' \<Longrightarrow> run_ok r \<Longrightarrow> run_ok r'"
proof (induction rule: owners_step.induct)
  case (os_quiet r t)
  then have fit: "tables_fit (cr_tables r)" by (simp add: run_ok_def)
  show ?case
    by (rule all_carried_ok[OF os_quiet(2) quiet_moves_keep_the_tables[OF os_quiet(1) fit] quiet_moves_carry[OF os_quiet(1)]
          quiet_moves_there[OF os_quiet(1) fit]])
next
  case (os_create c newId now r t w)
  then show ?case by (intro create_step_ok)
next
  case (os_role r wid env user role now t m)
  then have "tables_fit (cr_tables r)" "owners_stay (cr_strays r) (cr_tables r)" by (simp_all add: run_ok_def)
  note keep = role_move_owners(2)[OF os_role(2) this] and fit = moves_keep_the_tables[OF mv_role[OF os_role(2)] this(1)]
  have "cl_workspaces t = cl_workspaces (cr_tables r)"
    using underOwnerLock_Inr[OF os_role(2)] by (auto elim!: updateMembershipRole_Inr)
  then show ?case
    by (intro locked_step_ok[OF os_role(3) fit role_move_owners(1)[OF os_role(2)] _ os_role(1) keep])
      (auto simp: shared_there_def)
next
  case (os_remove r wid env user t m)
  then have "tables_fit (cr_tables r)" "owners_stay (cr_strays r) (cr_tables r)" by (simp_all add: run_ok_def)
  note keep = remove_move_owners(2)[OF os_remove(2) this] and fit = moves_keep_the_tables[OF mv_remove[OF os_remove(2)] this(1)]
  have "cl_workspaces t = cl_workspaces (cr_tables r)"
    using underOwnerLock_Inr[OF os_remove(2)] by (auto elim!: removeMembership_Inr)
  then show ?case
    by (intro locked_step_ok[OF os_remove(3) fit remove_move_owners(1)[OF os_remove(2)] _ os_remove(1) keep])
      (auto simp: shared_there_def)
next
  case (os_delete r wid pending d inst t w)
  note gone = deleteWorkspace_Inr[OF os_delete(2)]
  have fit: "tables_fit (cr_tables r)" using os_delete(3) by (simp add: run_ok_def)
  have keep: "owners_stay (cr_strays r) t"
    by (rule carried_owners_stay[OF remove_for_good_carries[OF gone], of "cr_strays r"])
      (use os_delete(3) in \<open>simp_all add: run_ok_def\<close>)
  show ?case
    by (rule locked_step_ok[OF os_delete(3) remove_for_good_ok[OF fit gone]
          owners_carried_mono[OF remove_for_good_carries[OF gone]] shared_there_remove[OF gone] os_delete(1) keep]) simp
next
  case (os_lock ids r inst user)
  then show ?case by (intro lock_step_ok)
next
  case (os_read c r)
  then show ?case by (intro read_step_ok)
next
  case (os_mark c r s now t b)
  then show ?case by (intro mark_step_ok)
next
  case (os_abandon r c)
  then show ?case by (auto simp: run_ok_def apart_remove1 dest: set_remove1_sub)
next
  case (os_mark_again r inst user now s t b)
  then have "t = cr_tables r" using mark_facts(4)[OF conjunct1[OF requestAccountDeletion_Inr]] by blast
  with os_mark_again show ?case by simp
next
  case (os_withdraw r inst user)
  then have fit: "tables_fit (cr_tables r)" by (simp add: run_ok_def)
  show ?case
    by (rule all_carried_ok[OF os_withdraw(2) moves_keep_the_tables[OF mv_withdraw_memberships fit]
          withdrawn_memberships_carry[OF os_withdraw(1)]])
      (simp add: shared_there_def removeMembershipsForUser_def Let_def)
qed

interpretation owners: invariant_system no_run owners_step run_ok
proof unfold_locales
  show "no_run r \<Longrightarrow> run_ok r" for r :: "'a collab_run"
    by (simp add: no_run_def run_ok_def no_collab_def tables_fit_def workspaces_ok_def members_ok_def requests_ok_def
        owners_stay_def open_shared_def)
  show "run_ok r \<Longrightarrow> owners_step r r' \<Longrightarrow> run_ok r'" for r r' :: "'a collab_run"
    by (rule steps_keep_owners)
qed

text \<open>
  The two ways in which a workspace escapes: it is created for an account that is closed by then, or
  the account that is being closed owns it without its lock.
\<close>

lemma how_workspaces_escape:
  assumes "owners_step r r'" "wid \<in> set (cr_strays r')" "wid \<notin> set (cr_strays r)"
  shows "(\<exists>c now t w. createWorkspace c wid now (cr_tables r) = Inr (t, w) \<and> cr_tables r' = t \<and>
      \<not> open_account (cr_tables r) (wc_instance c) (wc_creator c)) \<or>
    (\<exists>c \<in> set (cr_closing r). wid \<notin> set (cg_locks c) \<and>
      (\<exists>m \<in> set (cl_memberships (cr_tables r)). mb_workspace m = wid \<and> mb_role m = Owner \<and>
         mb_instance m = cg_instance c \<and> mb_user m = cg_user c))"
  using assms(1)
proof (cases rule: owners_step.cases)
  case (os_create c newId now t w)
  with assms(2,3) have "wid = newId" "\<not> open_account (cr_tables r) (wc_instance c) (wc_creator c)"
    by (auto split: if_splits)
  with os_create show ?thesis by auto
next
  case (os_mark c s now t b)
  with assms(2,3) have "wid \<in> set (owned_unlocked (cr_tables r) c)" by simp
  then have "wid \<notin> set (cg_locks c)" "\<exists>m \<in> set (cl_memberships (cr_tables r)). mb_workspace m = wid \<and>
      mb_role m = Owner \<and> mb_instance m = cg_instance c \<and> mb_user m = cg_user c"
    by (auto simp: owned_unlocked_def joined_def list_ex_iff)
  with os_mark(2) show ?thesis by blast
qed (use assms(2,3) in auto)

end
