(* ===== verification/Collab_Promises.thy ===== *)
theory Collab_Promises imports Collab_Owners begin

text \<open>
  What people rely on in collaboration workspaces: a shared workspace keeps an owner unless a lock came
  too late, the tables fit together, memberships change only by right, and the list shows what may be
  opened. And where the checks made before a transaction do not hold in it.
\<close>

section \<open>Calls\<close>

datatype collab_call =
    Create workspace_creation
  | Update string workspace_update
  | Add_Member string string
  | Change_Role string string membership_role
  | Remove_Member string string
  | Leave string
  | Request_Access string
  | Approve string string
  | Decline string string
  | Delete string string

fun perform :: "'a collab_env \<Rightarrow> collab_user \<Rightarrow> collab_call \<Rightarrow> 'a collab \<Rightarrow> 'a collab" where
  "perform env u (Create c) s = snd (createSharedWorkspace env u c s)"
| "perform env u (Update wid x) s = snd (updateSettings env u wid x s)"
| "perform env u (Add_Member wid email) s = snd (addMemberByEmail env u wid email s)"
| "perform env u (Change_Role wid user role) s = snd (changeMemberRole env u wid user role s)"
| "perform env u (Remove_Member wid user) s = snd (removeMember env u wid user s)"
| "perform env u (Leave wid) s = snd (leaveWorkspace env u wid s)"
| "perform env u (Request_Access wid) s = snd (requestAccess env u wid s)"
| "perform env u (Approve wid user) s = snd (approveAccessRequest env u wid user s)"
| "perform env u (Decline wid user) s = snd (declineAccessRequest env u wid user s)"
| "perform env u (Delete wid name) s = snd (deleteSharedWorkspace env u wid name s)"

text \<open>
  Others do what the transactions do, in any order and any number, between the checks of a call and its
  write, and between two writes.
\<close>

definition others_move :: "'a collab_env \<Rightarrow> bool" where
  "others_move env \<longleftrightarrow> (\<forall>s. collab_move\<^sup>*\<^sup>* s (ce_meanwhile env s))"

lemma snd_checked_then [simp]: "snd (checked_then env type checks change s) = snd (checked_write env checks change s)"
  by (simp add: checked_then_def split: prod.split)

lemma snd_answering [simp]: "snd (answering f p) = snd p"
  by (simp add: answering_def)

lemma checked_write_moves:
  assumes "others_move env" "\<And>c t' b. checks = Inr c \<Longrightarrow> change c (ce_meanwhile env s) = Inr (t', b) \<Longrightarrow>
    collab_move (ce_meanwhile env s) t'"
  shows "collab_move\<^sup>*\<^sup>* s (snd (checked_write env checks change s))"
  using assms
  by (auto simp: checked_write_def others_move_def Let_def split: sum.split intro: rtranclp.rtrancl_into_rtrancl)

lemma add_and_clear_moves:
  assumes "others_move env"
  shows "collab_move\<^sup>*\<^sup>* s (snd (add_and_clear env type wid user pending s))"
proof (cases "addMembership (ce_instance env) wid user Member (ce_now env) s")
  case (Inr p)
  obtain t m where p: "p = (t, m)" by (cases p)
  have "collab_move s t" using Inr p by (auto intro: mv_quiet mv_add)
  moreover have "collab_move\<^sup>*\<^sup>* t (snd (checked_write env (Inr ())
      (\<lambda>_ t. bind_result (deleteAccessRequest (ce_instance env) wid user t) (\<lambda>(t', _). Inr (t', m))) t))"
    by (rule checked_write_moves[OF assms]) (auto intro: mv_quiet mv_answer)
  ultimately show ?thesis
    using Inr p by (auto simp: add_and_clear_def intro: converse_rtranclp_into_rtranclp)
qed (simp add: add_and_clear_def)

lemma new_users_are_moves:
  assumes "createUser u newId now s = Inr t"
  shows "collab_move\<^sup>*\<^sup>* s t"
proof -
  from assms obtain a w where "insert_user u s = Inr a" "ensurePersonalWorkspace (us_instance u) (us_id u) newId now a = Inr (t, w)"
    by (auto simp: createUser_def)
  then have "collab_move s a" "collab_move a t" using mv_quiet[OF mv_new_user] mv_quiet[OF mv_personal] by blast+
  then show ?thesis by (blast intro: converse_rtranclp_into_rtranclp)
qed

lemma calls_are_moves:
  assumes o: "others_move env"
  shows "collab_move\<^sup>*\<^sup>* s (perform env u call s)"
proof (cases call)
  case (Create c)
  then show ?thesis by (auto simp: createSharedWorkspace_def intro!: checked_write_moves[OF o] mv_create)
next
  case (Update wid x)
  moreover have "collab_move\<^sup>*\<^sup>* s (ce_meanwhile env s)" using o by (simp add: others_move_def)
  ultimately show ?thesis
    by (auto simp: updateSettings_def Let_def intro!: checked_write_moves[OF o] mv_quiet mv_update split: sum.split)
next
  case (Add_Member wid email)
  have "collab_move\<^sup>*\<^sup>* s (ce_meanwhile env s)" using o by (simp add: others_move_def)
  then show ?thesis using Add_Member
    by (auto simp: addMemberByEmail_def split: sum.split intro: rtranclp_trans[OF _ add_and_clear_moves[OF o]])
next
  case (Approve wid user)
  have "collab_move\<^sup>*\<^sup>* s (ce_meanwhile env s)" using o by (simp add: others_move_def)
  then show ?thesis using Approve
    by (auto simp: approveAccessRequest_def split: sum.split intro: rtranclp_trans[OF _ add_and_clear_moves[OF o]])
next
  case (Delete wid name)
  then show ?thesis
    by (auto simp: deleteSharedWorkspace_def Let_def intro!: checked_write_moves[OF o] dest!: mv_close intro: mv_quiet)
qed (auto simp: changeMemberRole_def removeMember_def leaveWorkspace_def requestAccess_def declineAccessRequest_def
    intro!: checked_write_moves[OF o] intro: collab_move.intros quiet_move.intros)

lemma calls_reach:
  assumes "reachable no_collab collab_move s" "others_move env"
  shows "tables_fit (perform env u call s)"
  by (rule collab.inv_steps[OF calls_are_moves[OF assms(2)] collab.inv_reachable[OF assms(1)]])

section \<open>Calls while accounts are closed\<close>

text \<open>The workspace in which a call may take an owner away: its write waits until nobody else has the lock.\<close>

fun waits_for :: "collab_call \<Rightarrow> string option" where
  "waits_for (Change_Role wid user role) = Some wid"
| "waits_for (Remove_Member wid user) = Some wid"
| "waits_for (Leave wid) = Some wid"
| "waits_for _ = None"

definition may_write :: "collab_call \<Rightarrow> 'a collab_run \<Rightarrow> bool" where
  "may_write call r \<longleftrightarrow> (\<forall>wid. waits_for call = Some wid \<longrightarrow> unlocked r wid)"

text \<open>
  Others take steps of the machine of owners, acceptances of deletions among them, from whatever run they
  find; by the time the call writes, its lock is free.
\<close>

definition others_run :: "'a collab_env \<Rightarrow> collab_call \<Rightarrow> bool" where
  "others_run env call \<longleftrightarrow>
     (\<forall>r. reachable no_run owners_step r \<longrightarrow>
        (\<exists>r'. owners_step\<^sup>*\<^sup>* r r' \<and> cr_tables r' = ce_meanwhile env (cr_tables r) \<and> may_write call r'))"

lemma reachable_steps:
  assumes "step\<^sup>*\<^sup>* s t" "reachable start step s"
  shows "reachable start step t"
  using assms by (induction rule: rtranclp_induct) (auto intro: reachable_move)

text \<open>A run takes the tables somewhere.\<close>

definition runs_to :: "'a collab_run \<Rightarrow> 'a collab \<Rightarrow> bool" where
  "runs_to r t \<longleftrightarrow> (\<exists>r'. owners_step\<^sup>*\<^sup>* r r' \<and> cr_tables r' = t)"

lemma runs_to_refl: "runs_to r (cr_tables r)"
  unfolding runs_to_def by blast

lemma runs_to_step: "owners_step\<^sup>*\<^sup>* r r1 \<Longrightarrow> owners_step r1 r2 \<Longrightarrow> cr_tables r2 = t \<Longrightarrow> runs_to r t"
  unfolding runs_to_def by (blast intro: rtranclp.rtrancl_into_rtrancl)

lemma checked_write_runs:
  assumes o: "others_run env call" and r: "reachable no_run owners_step r"
    and does: "\<And>c t b r1. checks = Inr c \<Longrightarrow> may_write call r1 \<Longrightarrow> change c (cr_tables r1) = Inr (t, b) \<Longrightarrow>
      \<exists>r2. owners_step r1 r2 \<and> cr_tables r2 = t"
  shows "runs_to r (snd (checked_write env checks change (cr_tables r)))"
proof (cases checks)
  case (Inr c)
  from o r obtain r1 where r1: "owners_step\<^sup>*\<^sup>* r r1" "cr_tables r1 = ce_meanwhile env (cr_tables r)" "may_write call r1"
    unfolding others_run_def by blast
  show ?thesis
  proof (cases "change c (cr_tables r1)")
    case (Inl e)
    with Inr r1 show ?thesis by (auto simp: checked_write_def Let_def runs_to_def)
  next
    case second: (Inr tb)
    obtain t b where tb: "tb = (t, b)" by (cases tb)
    with second does[OF Inr r1(3)] obtain r2 where "owners_step r1 r2" "cr_tables r2 = t" by blast
    then have "runs_to r t" by (rule runs_to_step[OF r1(1)])
    with Inr second tb r1(2) show ?thesis by (simp add: checked_write_def Let_def)
  qed
qed (simp add: checked_write_def runs_to_refl)

lemma quiet_write: "quiet_move (cr_tables r) t \<Longrightarrow> \<exists>r'. owners_step r r' \<and> cr_tables r' = t"
  by (intro exI conjI, erule os_quiet) simp

lemma add_and_clear_runs:
  assumes o: "others_run env call" and r: "reachable no_run owners_step r"
  shows "runs_to r (snd (add_and_clear env type wid user pending (ce_meanwhile env (cr_tables r))))"
proof -
  from o r obtain r1 where r1: "owners_step\<^sup>*\<^sup>* r r1" "cr_tables r1 = ce_meanwhile env (cr_tables r)"
    unfolding others_run_def by blast
  show ?thesis
  proof (cases "addMembership (ce_instance env) wid user Member (ce_now env) (cr_tables r1)")
    case (Inl e)
    with r1 show ?thesis by (auto simp: add_and_clear_def runs_to_def)
  next
    case (Inr p)
    obtain t m where p: "p = (t, m)" by (cases p)
    from Inr p obtain r2 where r2: "owners_step r1 r2" "cr_tables r2 = t" using quiet_write[OF mv_add] by blast
    have to2: "owners_step\<^sup>*\<^sup>* r r2" using r1(1) r2(1) by (rule rtranclp.rtrancl_into_rtrancl)
    have "runs_to r2 (snd (checked_write env (Inr ())
        (\<lambda>_ t. bind_result (deleteAccessRequest (ce_instance env) wid user t) (\<lambda>(t', _). Inr (t', m))) (cr_tables r2)))"
      by (rule checked_write_runs[OF o reachable_steps[OF to2 r]]) (auto dest!: mv_answer intro!: quiet_write)
    with to2 r2 have "runs_to r (snd (checked_write env (Inr ())
        (\<lambda>_ t. bind_result (deleteAccessRequest (ce_instance env) wid user t) (\<lambda>(t', _). Inr (t', m))) t))"
      unfolding runs_to_def by (auto intro: rtranclp_trans)
    moreover have "runs_to r t" using to2 r2(2) by (auto simp: runs_to_def)
    ultimately show ?thesis using Inr p r1(2) by (simp add: add_and_clear_def)
  qed
qed

lemma others_alone:
  assumes "others_run env call" "reachable no_run owners_step r"
  shows "runs_to r (ce_meanwhile env (cr_tables r))"
  using assms by (auto simp: others_run_def runs_to_def)

lemma owner_writes:
  assumes "may_write call r"
  shows "createWorkspace c newId now (cr_tables r) = Inr (t, w) \<Longrightarrow> \<exists>r'. owners_step r r' \<and> cr_tables r' = t"
    and "waits_for call = Some wid \<Longrightarrow>
      underOwnerLock env wid user (\<lambda>t. updateMembershipRole (ce_instance env) wid user role now t) (cr_tables r) = Inr (t, m) \<Longrightarrow>
      \<exists>r'. owners_step r r' \<and> cr_tables r' = t"
    and "waits_for call = Some wid \<Longrightarrow>
      underOwnerLock env wid user (\<lambda>t. removeMembership (ce_instance env) wid user t) (cr_tables r) = Inr (t, m) \<Longrightarrow>
      \<exists>r'. owners_step r r' \<and> cr_tables r' = t"
  using os_create[of c newId now r t w] os_role[of r wid env user role now t m] os_remove[of r wid env user t m] assms
  by (fastforce simp: may_write_def)+

lemma calls_run:
  assumes o: "others_run env call" and r: "reachable no_run owners_step r"
  shows "runs_to r (perform env u call (cr_tables r))"
proof -
  note run = checked_write_runs[OF o r] and quiet = quiet_move.intros[THEN quiet_write]
  show ?thesis
  proof (cases call)
    case (Create c)
    then show ?thesis by (auto simp: createSharedWorkspace_def intro!: run owner_writes(1))
  next
    case (Update wid x)
    then show ?thesis using others_alone[OF o r]
      by (auto simp: updateSettings_def Let_def runs_to_refl intro!: run quiet(2) split: sum.split)
  next
    case (Add_Member wid email)
    then show ?thesis using add_and_clear_runs[OF o r]
      by (auto simp: addMemberByEmail_def runs_to_refl split: sum.split)
  next
    case (Change_Role wid user role)
    then show ?thesis by (auto simp: changeMemberRole_def intro!: run owner_writes(2))
  next
    case (Remove_Member wid user)
    then show ?thesis by (auto simp: removeMember_def intro!: run owner_writes(3))
  next
    case (Leave wid)
    then show ?thesis by (auto simp: leaveWorkspace_def intro!: run owner_writes(3))
  next
    case (Request_Access wid)
    then show ?thesis by (auto simp: requestAccess_def intro!: run quiet(4))
  next
    case (Approve wid user)
    then show ?thesis using add_and_clear_runs[OF o r]
      by (auto simp: approveAccessRequest_def runs_to_refl split: sum.split)
  next
    case (Decline wid user)
    then show ?thesis by (auto simp: declineAccessRequest_def intro!: run quiet(5))
  next
    case (Delete wid name)
    then show ?thesis by (auto simp: deleteSharedWorkspace_def Let_def intro!: run quiet(6))
  qed
qed

text \<open>
  C32. While calls, the creation and removal of users and workspaces and any number of acceptances of
  account deletions go on at once, each acceptance locking, reading and marking at moments of its own,
  every call is a run of that machine, and every shared workspace that is not being deleted keeps a
  member who is its owner and whose account is not closed, but for the strays. A workspace becomes a
  stray in two ways only: it is created for an account that is closed by then, or the account that is
  being closed owns it although it is not among the ones it locked, having become an owner later.
  Both happen: the last section has the runs.
\<close>

theorem workspaces_keep_an_owner:
  assumes "reachable no_run owners_step r" and "others_run env call"
  shows "(\<exists>r'. owners_step\<^sup>*\<^sup>* r r' \<and> cr_tables r' = perform env u call (cr_tables r)) \<and>
    (\<forall>w \<in> set (cl_workspaces (cr_tables r)).
       cw_kind w = Shared \<and> cw_deletionRequestedAt w = None \<and> cw_id w \<notin> set (cr_strays r) \<longrightarrow>
       (\<exists>m \<in> set (cl_memberships (cr_tables r)). \<exists>v \<in> set (cl_users (cr_tables r)).
          mb_workspace m = cw_id w \<and> mb_instance m = cw_instance w \<and> mb_role m = Owner \<and>
          us_id v = mb_user m \<and> us_instance v = cw_instance w \<and> us_deletionRequestedAt v = None)) \<and>
    (\<forall>r' wid. owners_step r r' \<and> wid \<in> set (cr_strays r') \<and> wid \<notin> set (cr_strays r) \<longrightarrow>
       (\<exists>c now t w. createWorkspace c wid now (cr_tables r) = Inr (t, w) \<and> cr_tables r' = t \<and>
          \<not> open_account (cr_tables r) (wc_instance c) (wc_creator c)) \<or>
       (\<exists>c \<in> set (cr_closing r). wid \<notin> set (cg_locks c) \<and>
          (\<exists>m \<in> set (cl_memberships (cr_tables r)). mb_workspace m = wid \<and> mb_role m = Owner \<and>
             mb_instance m = cg_instance c \<and> mb_user m = cg_user c)))"
proof (intro conjI ballI impI allI)
  show "\<exists>r'. owners_step\<^sup>*\<^sup>* r r' \<and> cr_tables r' = perform env u call (cr_tables r)"
    using calls_run[OF assms(2,1)] by (simp add: runs_to_def)
next
  fix w assume "w \<in> set (cl_workspaces (cr_tables r))"
    "cw_kind w = Shared \<and> cw_deletionRequestedAt w = None \<and> cw_id w \<notin> set (cr_strays r)"
  then have "owner_besides None (cr_tables r) w"
    using owners.inv_reachable[OF assms(1)] by (simp add: run_ok_def owners_stay_def open_shared_def notInDeletion_def)
  then show "\<exists>m \<in> set (cl_memberships (cr_tables r)). \<exists>v \<in> set (cl_users (cr_tables r)).
      mb_workspace m = cw_id w \<and> mb_instance m = cw_instance w \<and> mb_role m = Owner \<and>
      us_id v = mb_user m \<and> us_instance v = cw_instance w \<and> us_deletionRequestedAt v = None"
    by (rule owner_besidesE) (auto simp: joined_def open_account_def list_ex_iff user_row_def)
qed (use how_workspaces_escape in blast)

text \<open>
  C35. In every state that is reached, and after every call, the tables fit together: a user has one role in
  a workspace and one personal workspace, a personal workspace is private, stays open and has its user
  as its owner and nobody else, memberships and requests belong to workspaces and users that are there,
  and nobody asks twice for access or for access to a personal workspace.
\<close>

theorem collab_tables_fit_together:
  fixes u call
  assumes "reachable no_collab collab_move s" "others_move env"
  defines "t \<equiv> perform env u call s"
  shows "(\<forall>m \<in> set (cl_memberships t).
      (\<forall>n \<in> set (cl_memberships t). mb_workspace n = mb_workspace m \<and> mb_user n = mb_user m \<longrightarrow> n = m) \<and>
      (\<exists>v \<in> set (cl_users t). us_instance v = mb_instance m \<and> us_id v = mb_user m) \<and>
      (\<exists>w \<in> set (cl_workspaces t). cw_id w = mb_workspace m \<and> cw_instance w = mb_instance m \<and>
        (cw_kind w = Personal \<longrightarrow> cw_personalUserId w = Some (mb_user m) \<and> mb_role m = Owner))) \<and>
    (\<forall>w \<in> set (cl_workspaces t). cw_kind w = Personal \<longrightarrow>
      cw_visibility w = Private_Workspace \<and> cw_defaultVisibility w = For_Workspace \<and> cw_deletionRequestedAt w = None \<and>
      (\<forall>v \<in> set (cl_workspaces t). cw_kind v = Personal \<and> cw_instance v = cw_instance w \<and>
        cw_personalUserId v = cw_personalUserId w \<longrightarrow> v = w)) \<and>
    (\<forall>x \<in> set (cl_requests t).
      (\<forall>y \<in> set (cl_requests t). xr_workspace y = xr_workspace x \<and> xr_user y = xr_user x \<longrightarrow> y = x) \<and>
      (\<exists>w \<in> set (cl_workspaces t). cw_id w = xr_workspace x \<and> cw_instance w = xr_instance x \<and> cw_kind w = Shared))"
proof -
  have ok: "workspaces_ok t" "members_ok t" "requests_ok t"
    using calls_reach[OF assms(1,2), of u call] by (simp_all add: t_def tables_fit_def)
  have personal: "v = w" if "v \<in> set (cl_workspaces t)" "w \<in> set (cl_workspaces t)" "cw_kind v = Personal" "cw_kind w = Personal"
      "cw_instance v = cw_instance w" "cw_personalUserId v = cw_personalUserId w" for v w
  proof -
    have "cw_id v = cw_id w"
      using ok(1) that unfolding workspaces_ok_def by (elim conjE) (erule unique_byD, auto)
    with same_workspace[OF ok(1)] that show ?thesis by blast
  qed
  have "\<forall>m \<in> set (cl_memberships t). \<forall>n \<in> set (cl_memberships t). mb_workspace n = mb_workspace m \<and> mb_user n = mb_user m \<longrightarrow> n = m"
    using ok(2) by (auto simp: members_ok_def distinct_map inj_on_def)
  moreover have "\<forall>x \<in> set (cl_requests t). \<forall>y \<in> set (cl_requests t). xr_workspace y = xr_workspace x \<and> xr_user y = xr_user x \<longrightarrow> y = x"
    using ok(3) by (auto simp: requests_ok_def distinct_map inj_on_def)
  ultimately show ?thesis
    using ok personal unfolding members_ok_def requests_ok_def workspaces_ok_def notInDeletion_def joined_def
      user_row_def workspace_row_def by (intro conjI ballI impI) (blast | metis)+
qed

section \<open>Who may change a membership\<close>

definition role_in :: "'a collab \<Rightarrow> string \<Rightarrow> string \<Rightarrow> string \<Rightarrow> membership_role option" where
  "role_in s inst wid user = map_option mb_role (List.find (membership_where inst wid user) (cl_memberships s))"

lemma find_kept_row:
  "(\<And>x. x \<in> set xs \<Longrightarrow> p x \<Longrightarrow> \<not> q x) \<Longrightarrow> List.find p (delete_where q xs) = List.find p xs"
  by (induction xs) (auto simp: delete_where_def)

lemma find_other_row:
  "(\<And>x. x \<in> set xs \<Longrightarrow> p x \<Longrightarrow> \<not> q x) \<Longrightarrow> (\<And>x. x \<in> set xs \<Longrightarrow> q x \<Longrightarrow> \<not> p (f x)) \<Longrightarrow>
    List.find p (update_where q f xs) = List.find p xs"
  by (induction xs) (auto simp: update_where_def)

lemma role_in_insert:
  "insert_membership m s = Inr t \<Longrightarrow> role_in t inst wid user =
    (case role_in s inst wid user of None \<Rightarrow> if membership_where inst wid user m then Some (mb_role m) else None | Some r \<Rightarrow> Some r)"
  by (auto simp: insert_membership_def role_in_def find_append split: if_splits option.split)

lemma role_in_same: "cl_memberships t = cl_memberships s \<Longrightarrow> role_in t = role_in s"
  by (intro ext) (simp add: role_in_def)

lemma role_in_others:
  assumes "(i, wid, user) \<noteq> (i', wid', user')"
  shows "updateMembershipRole i' wid' user' role now s = Inr (t, m) \<Longrightarrow> role_in t i wid user = role_in s i wid user"
    and "removeMembership i' wid' user' s = Inr (t, m) \<Longrightarrow> role_in t i wid user = role_in s i wid user"
  using assms unfolding role_in_def
  by (auto elim!: updateMembershipRole_Inr removeMembership_Inr simp: with_role_def membership_where_def
      intro!: arg_cong[where f = "map_option mb_role"] find_other_row find_kept_row)

lemma role_in_removed:
  "removeMembership inst wid user s = Inr (t, m) \<Longrightarrow> role_in t inst wid user = None"
  by (auto elim!: removeMembership_Inr simp: role_in_def find_None_iff row_simps)

lemma getMembership_in_open:
  assumes "requireWorkspace s inst wid = Inr w"
  shows "getMembership s inst wid user = List.find (membership_where inst wid user) (cl_memberships s)"
proof -
  have "list_ex (\<lambda>w. joined m w \<and> notInDeletion w) (cl_workspaces s)" if "membership_where inst wid user m" for m
    using that requireWorkspace_Inr[OF assms] by (force simp: list_ex_iff joined_def membership_where_def workspace_row_def)
  then have "(\<lambda>m. membership_where inst wid user m \<and> list_ex (\<lambda>w. joined m w \<and> notInDeletion w) (cl_workspaces s)) =
      membership_where inst wid user" by blast
  then show ?thesis by (simp add: getMembership_def)
qed

text \<open>How a write ends: the checks refuse, the transaction fails, or it changes what is there by then.\<close>

lemma checked_write_cases:
  obtains "snd (checked_write env checks change s) = s"
  | "snd (checked_write env checks change s) = ce_meanwhile env s"
  | c t b where "checks = Inr c" "change c (ce_meanwhile env s) = Inr (t, b)" "snd (checked_write env checks change s) = t"
proof (cases checks)
  case (Inr c)
  with that show ?thesis by (cases "change c (ce_meanwhile env s)") (auto simp: checked_write_def Let_def)
qed (use that(1) in \<open>simp add: checked_write_def\<close>)

text \<open>
  The role in which somebody acts in an open workspace: the one of the membership, and for a superadmin
  that of an owner when the workspace is shared.
\<close>

definition acts_as :: "'a collab_env \<Rightarrow> collab_user \<Rightarrow> string \<Rightarrow> 'a collab \<Rightarrow> membership_role \<Rightarrow> bool" where
  "acts_as env u wid s role \<longleftrightarrow>
     list_ex (\<lambda>w. cw_id w = wid \<and> cw_instance w = ce_instance env \<and> cw_deletionRequestedAt w = None \<and>
       (if cu_superadmin u \<and> cw_kind w = Shared then role = Owner
        else role_in s (ce_instance env) wid (cu_id u) = Some role)) (cl_workspaces s)"

text \<open>The changes of a role that a call may make, by what was there when it began.\<close>

fun allowed_change ::
    "'a collab_env \<Rightarrow> collab_user \<Rightarrow> collab_call \<Rightarrow> 'a collab \<Rightarrow> string \<Rightarrow> string \<Rightarrow>
     membership_role option \<Rightarrow> membership_role option \<Rightarrow> bool" where
  "allowed_change env u (Create c) s wid user old new \<longleftrightarrow>
     wid = ce_newId env \<and> user = cu_id u \<and> old = None \<and> new = Some Owner"
| "allowed_change env u (Add_Member w email) s wid user old new \<longleftrightarrow>
     wid = w \<and> old = None \<and> new = Some Member \<and> (acts_as env u w s Owner \<or> acts_as env u w s Admin) \<and>
     (\<exists>v \<in> set (cl_users s). us_id v = user \<and> us_instance v = ce_instance env \<and> eligible_by_email (to_lower (trim email)) v)"
| "allowed_change env u (Change_Role w target role) s wid user old new \<longleftrightarrow>
     wid = w \<and> user = target \<and> old \<noteq> None \<and> new = Some role \<and> acts_as env u w s Owner"
| "allowed_change env u (Remove_Member w target) s wid user old new \<longleftrightarrow>
     wid = w \<and> user = target \<and> new = None \<and>
     (acts_as env u w s Owner \<or> acts_as env u w s Admin \<and> role_in s (ce_instance env) w target = Some Member)"
| "allowed_change env u (Leave w) s wid user old new \<longleftrightarrow> wid = w \<and> user = cu_id u \<and> new = None"
| "allowed_change env u (Approve w target) s wid user old new \<longleftrightarrow>
     wid = w \<and> user = target \<and> old = None \<and> new = Some Member \<and> (acts_as env u w s Owner \<or> acts_as env u w s Admin) \<and>
     (\<exists>x \<in> set (cl_requests s). xr_instance x = ce_instance env \<and> xr_workspace x = w \<and> xr_user x = target)"
| "allowed_change env u _ s wid user old new \<longleftrightarrow> False"

definition changes_allowed :: "'a collab_env \<Rightarrow> collab_user \<Rightarrow> collab_call \<Rightarrow> 'a collab \<Rightarrow> 'a collab \<Rightarrow> bool" where
  "changes_allowed env u call s t \<longleftrightarrow>
     (\<forall>inst wid user. role_in t inst wid user \<noteq> role_in (ce_meanwhile env s) inst wid user \<longrightarrow>
        inst = ce_instance env \<and>
        allowed_change env u call s wid user (role_in (ce_meanwhile env s) inst wid user) (role_in t inst wid user))"

text \<open>What a call leaves: nothing, its own changes, or those and what others did after them.\<close>

definition left_rightly :: "'a collab_env \<Rightarrow> collab_user \<Rightarrow> collab_call \<Rightarrow> 'a collab \<Rightarrow> 'a collab \<Rightarrow> bool" where
  "left_rightly env u call s t' \<longleftrightarrow>
     t' = s \<or> (\<exists>t. role_in t' \<in> {role_in t, role_in (ce_meanwhile env t)} \<and> changes_allowed env u call s t)"

lemma left_alone: "left_rightly env u call s s"
  by (simp add: left_rightly_def)

lemma left_to_others: "left_rightly env u call s (ce_meanwhile env s)"
  by (auto simp: left_rightly_def changes_allowed_def)

lemma left_changed: "changes_allowed env u call s t \<Longrightarrow> left_rightly env u call s t"
  by (auto simp: left_rightly_def)

lemma checked_write_rightly:
  assumes "\<And>c t b. checks = Inr c \<Longrightarrow> change c (ce_meanwhile env s) = Inr (t, b) \<Longrightarrow> changes_allowed env u call s t"
  shows "left_rightly env u call s (snd (checked_write env checks change s))"
  by (rule checked_write_cases[of env checks change s])
    (use assms in \<open>auto intro: left_alone left_to_others left_changed\<close>)

lemma same_roles_allowed: "cl_memberships t = cl_memberships (ce_meanwhile env s) \<Longrightarrow> changes_allowed env u call s t"
  using role_in_same[of t "ce_meanwhile env s"] by (simp add: changes_allowed_def)

lemma add_rightly:
  assumes "allowed_change env u call s wid target None (Some Member)"
  shows "left_rightly env u call s (snd (add_and_clear env type wid target pending (ce_meanwhile env s)))"
proof (cases "addMembership (ce_instance env) wid target Member (ce_now env) (ce_meanwhile env s)")
  case (Inl e)
  then show ?thesis by (simp add: add_and_clear_def left_to_others)
next
  case (Inr p)
  obtain t m where p: "p = (t, m)" by (cases p)
  note added = addMembership_Inr[OF Inr[unfolded p]]
  have allowed: "changes_allowed env u call s t"
    using assms role_in_insert[OF added(1)] unfolding changes_allowed_def
    by (auto simp: added(2) new_membership_def membership_where_def split: option.splits if_splits)
  let ?cleared = "snd (checked_write env (Inr ())
    (\<lambda>_ t. bind_result (deleteAccessRequest (ce_instance env) wid target t) (\<lambda>(t', _). Inr (t', m))) t)"
  have "role_in ?cleared \<in> {role_in t, role_in (ce_meanwhile env t)}"
    by (rule checked_write_cases[of env "Inr () :: (js_error, unit) result"
          "\<lambda>_ t. bind_result (deleteAccessRequest (ce_instance env) wid target t) (\<lambda>(t', _). Inr (t', m))" t])
      (auto dest!: deleteAccessRequest_Inr intro!: disjI2 role_in_same)
  with allowed have "left_rightly env u call s ?cleared" unfolding left_rightly_def by blast
  then show ?thesis using Inr p left_changed[OF allowed] by (simp add: add_and_clear_def)
qed

text \<open>What passing the checks says.\<close>

lemma access_acts:
  assumes "requireWorkspaceAccess env u wid s = Inr a"
  shows "acts_as env u wid s (wa_role a)"
proof -
  let ?m = "getMembership s (ce_instance env) wid (cu_id u)"
  have member: "role_in s (ce_instance env) wid (cu_id u) = Some (mb_role m) \<and>
      (\<exists>w \<in> set (cl_workspaces s). workspace_row (ce_instance env) wid w \<and> notInDeletion w)" if m: "?m = Some m" for m
  proof -
    from m obtain w where w: "w \<in> set (cl_workspaces s)" "workspace_row (ce_instance env) wid w" "notInDeletion w"
      using getMembership_Some[OF m] find_Some_iff[OF m[unfolded getMembership_def]]
      by (auto simp: list_ex_iff joined_def membership_where_def workspace_row_def)
    then have "\<exists>v. getWorkspace s (ce_instance env) wid = Some v"
      unfolding getWorkspace_def by (intro not_None_eq[THEN iffD1]) (auto simp: find_None_iff)
    then obtain v where "requireWorkspace s (ce_instance env) wid = Inr v" by (auto simp: requireWorkspace_def)
    from getMembership_in_open[OF this, of "cu_id u"] m
    have "List.find (membership_where (ce_instance env) wid (cu_id u)) (cl_memberships s) = Some m" by simp
    with w show ?thesis by (auto simp: role_in_def)
  qed
  show ?thesis
  proof (cases "if cu_superadmin u then getWorkspace s (ce_instance env) wid else None")
    case None
    with assms obtain m where m: "?m = Some m" "wa_role a = mb_role m"
      by (auto simp: requireWorkspaceAccess_def Let_def split: option.splits)
    with member have "\<not> cu_superadmin u"
      using None by (auto simp: getWorkspace_def find_None_iff)
    with m member[OF m(1)] show ?thesis
      by (auto simp: acts_as_def list_ex_iff workspace_row_def notInDeletion_def)
  next
    case (Some w)
    then have "w \<in> set (cl_workspaces s)" "workspace_row (ce_instance env) wid w" "notInDeletion w" "cu_superadmin u"
      by (auto simp: getWorkspace_def split: if_splits dest: find_Some_iff)
    with Some assms member show ?thesis
      by (auto simp: requireWorkspaceAccess_def acts_as_def list_ex_iff Let_def effectiveWorkspaceRole_def
          workspace_row_def notInDeletion_def split: option.splits if_splits)
  qed
qed

lemma owner_or_admin_acts:
  "requireWorkspaceAccess env u wid s = Inr a \<Longrightarrow> requireOwnerOrAdmin a = Inr () \<Longrightarrow>
    acts_as env u wid s Owner \<or> acts_as env u wid s Admin"
  using access_acts[of env u wid s a] by (auto simp: requireOwnerOrAdmin_def split: if_splits)

lemma requireSharedWorkspace_Inr:
  "requireSharedWorkspace env wid s = Inr w \<Longrightarrow> requireWorkspace s (ce_instance env) wid = Inr w \<and> cw_kind w = Shared"
  by (auto simp: requireSharedWorkspace_def split: if_splits)

lemma requireMembership_role:
  "requireSharedWorkspace env wid s = Inr w \<Longrightarrow> requireMembership env wid user s = Inr m \<Longrightarrow>
    role_in s (ce_instance env) wid user = Some (mb_role m)"
  by (auto simp: requireMembership_def role_in_def getMembership_in_open[OF conjunct1[OF requireSharedWorkspace_Inr]]
      split: option.splits)

lemma access_is_of_caller: "requireWorkspaceAccess env u wid s = Inr a \<Longrightarrow> wa_userId a = cu_id u"
  by (auto simp: requireWorkspaceAccess_def Let_def split: if_splits option.splits)

text \<open>Each write changes the role it is about.\<close>

lemma only_its_role:
  assumes "\<And>inst wid' user. (inst, wid', user) \<noteq> (ce_instance env, wid, target) \<Longrightarrow>
      role_in t inst wid' user = role_in (ce_meanwhile env s) inst wid' user"
    and "allowed_change env u call s wid target (role_in (ce_meanwhile env s) (ce_instance env) wid target)
      (role_in t (ce_instance env) wid target)"
  shows "changes_allowed env u call s t"
  using assms unfolding changes_allowed_def by (metis prod.inject)

lemma find_updated_row:
  "(\<And>x. p x \<Longrightarrow> p (f x)) \<Longrightarrow> List.find p (update_where p f xs) = map_option f (List.find p xs)"
  by (induction xs) (auto simp: update_where_def)

lemma role_in_updated:
  assumes "updateMembershipRole inst wid user role now s = Inr (t, m)"
  shows "role_in s inst wid user \<noteq> None \<and> role_in t inst wid user = Some role"
  using assms
proof (rule updateMembershipRole_Inr)
  fix n assume n: "List.find (membership_where inst wid user) (cl_memberships s) = Some n"
    and t: "t = s\<lparr>cl_memberships := update_where (membership_where inst wid user) (with_role role now) (cl_memberships s)\<rparr>"
  have "List.find (membership_where inst wid user) (cl_memberships t) = Some (with_role role now n)"
    using find_updated_row[of "membership_where inst wid user" "with_role role now" "cl_memberships s"] n
    by (simp add: t membership_where_def with_role_def)
  with n show ?thesis by (simp add: role_in_def with_role_def)
qed

lemma role_change_rightly: "left_rightly env u (Change_Role wid target role) s (perform env u (Change_Role wid target role) s)"
  unfolding perform.simps changeMemberRole_def snd_checked_then
proof (rule checked_write_rightly, rule only_its_role[of env wid target], goal_cases)
  case (1 c t m inst wid' user)
  then show ?case using role_in_others(1) underOwnerLock_Inr by blast
next
  case (2 c t m)
  note role_in_updated[OF conjunct1[OF underOwnerLock_Inr[OF 2(2)]]]
  moreover from 2(1) obtain a where "requireWorkspaceAccess env u wid s = Inr a" "wa_role a = Owner"
    by (cases role) (auto split: if_splits)
  ultimately show ?case using access_acts[of env u wid s a] by simp
qed

lemma removal_rightly: "left_rightly env u (Remove_Member wid target) s (perform env u (Remove_Member wid target) s)"
  unfolding perform.simps removeMember_def snd_checked_then
proof (rule checked_write_rightly, rule only_its_role[of env wid target], goal_cases)
  case (1 c t m inst wid' user)
  then show ?case using role_in_others(2) underOwnerLock_Inr by blast
next
  case (2 c t m)
  note role_in_removed[OF conjunct1[OF underOwnerLock_Inr[OF 2(2)]]]
  moreover from 2(1) obtain a w n where a: "requireWorkspaceAccess env u wid s = Inr a" "requireOwnerOrAdmin a = Inr ()"
      "requireSharedWorkspace env wid s = Inr w" "requireMembership env wid target s = Inr n"
      "wa_role a = Admin \<longrightarrow> mb_role n = Member"
    by (auto split: if_splits)
  moreover have "wa_role a = Owner \<or> wa_role a = Admin" using a(2) by (auto simp: requireOwnerOrAdmin_def split: if_splits)
  ultimately show ?case
    using requireMembership_role[OF a(3,4)] access_acts[OF a(1)] by auto
qed

lemma leaving_rightly: "left_rightly env u (Leave wid) s (perform env u (Leave wid) s)"
  unfolding perform.simps leaveWorkspace_def snd_checked_then
proof (rule checked_write_rightly, rule only_its_role[of env wid "cu_id u"], goal_cases)
  case (1 c t m inst wid' user)
  then have "c = cu_id u" by (auto simp: access_is_of_caller split: if_splits)
  with 1 show ?case using role_in_others(2) underOwnerLock_Inr by blast
next
  case (2 c t m)
  then have "c = cu_id u" by (auto simp: access_is_of_caller split: if_splits)
  with role_in_removed[OF conjunct1[OF underOwnerLock_Inr[OF 2(2)]]] show ?case by simp
qed

lemma creation_rightly: "left_rightly env u (Create c) s (perform env u (Create c) s)"
  unfolding perform.simps createSharedWorkspace_def snd_checked_then snd_answering
proof (rule checked_write_rightly, goal_cases)
  case (1 c' t w)
  from 1(1) have c': "wc_instance c' = ce_instance env" "wc_creator c' = cu_id u" by auto
  from 1(2) show ?case
  proof (rule createWorkspace_Inr, goal_cases)
    case (1 s1)
    from role_in_insert[OF 1(2)] role_in_same[of s1 "ce_meanwhile env s"] insert_workspace_Inr(1)[OF 1(1)]
    have "role_in t inst wid user = (case role_in (ce_meanwhile env s) inst wid user of
        None \<Rightarrow> if membership_where inst wid user (new_membership (ce_now env) (wc_instance c') (cw_id w) (wc_creator c') Owner)
          then Some Owner else None | Some r \<Rightarrow> Some r)" for inst wid user
      by (simp add: new_membership_def split: option.split)
    with c' 1(7) show ?case
      unfolding changes_allowed_def
      by (auto simp: membership_where_def new_membership_def split: option.splits if_splits)
  qed
qed

text \<open>The calls that leave every membership as it is.\<close>

lemma others_rightly:
  "left_rightly env u (Update wid x) s (perform env u (Update wid x) s)"
  "left_rightly env u (Request_Access wid) s (perform env u (Request_Access wid) s)"
  "left_rightly env u (Decline wid user) s (perform env u (Decline wid user) s)"
  "left_rightly env u (Delete wid name) s (perform env u (Delete wid name) s)"
proof -
  show "left_rightly env u (Update wid x) s (perform env u (Update wid x) s)"
    by (auto simp: updateSettings_def Let_def left_alone left_to_others split: sum.split
        intro!: checked_write_rightly same_roles_allowed elim!: updateWorkspace_Inr)
  show "left_rightly env u (Request_Access wid) s (perform env u (Request_Access wid) s)"
    by (auto simp: requestAccess_def createAccessRequest_def insert_request_def Let_def
        intro!: checked_write_rightly same_roles_allowed split: if_splits)
  show "left_rightly env u (Decline wid user) s (perform env u (Decline wid user) s)"
    by (auto simp: declineAccessRequest_def intro!: checked_write_rightly same_roles_allowed dest!: deleteAccessRequest_Inr)
  show "left_rightly env u (Delete wid name) s (perform env u (Delete wid name) s)"
    by (auto simp: deleteSharedWorkspace_def Let_def intro!: checked_write_rightly same_roles_allowed
        dest!: markWorkspaceDeletionRequested_Inr)
qed

lemma adding_rightly: "left_rightly env u (Add_Member wid email) s (perform env u (Add_Member wid email) s)"
proof (cases "snd (addMemberByEmail env u wid email s) = s")
  case False
  then obtain a target pending where a: "requireWorkspaceAccess env u wid s = Inr a" "requireOwnerOrAdmin a = Inr ()"
      "filter (eligible_by_email (to_lower (trim email))) (listUsers s (ce_instance env)) = [target]"
      "snd (addMemberByEmail env u wid email s) =
        snd (add_and_clear env ''collaboration_workspace.member_added'' wid (us_id target) pending (ce_meanwhile env s))"
    unfolding addMemberByEmail_def by (auto split: sum.splits list.splits if_splits)
  have "target \<in> set (filter (eligible_by_email (to_lower (trim email))) (listUsers s (ce_instance env)))"
    using a(3) by simp
  then have "allowed_change env u (Add_Member wid email) s wid (us_id target) None (Some Member)"
    using owner_or_admin_acts[OF a(1,2)] by (auto simp: listUsers_def)
  from add_rightly[OF this] a(4) show ?thesis by simp
qed (simp add: left_alone)

lemma approval_rightly: "left_rightly env u (Approve wid target) s (perform env u (Approve wid target) s)"
proof (cases "snd (approveAccessRequest env u wid target s) = s")
  case False
  then obtain a where a: "requireWorkspaceAccess env u wid s = Inr a" "requireOwnerOrAdmin a = Inr ()"
      "getAccessRequest s (ce_instance env) wid target \<noteq> None"
      "snd (approveAccessRequest env u wid target s) =
        snd (add_and_clear env ''collaboration_workspace.access_request_approved'' wid target True (ce_meanwhile env s))"
    unfolding approveAccessRequest_def by (auto split: sum.splits if_splits)
  then obtain x where "List.find (access_request_where (ce_instance env) wid target) (cl_requests s) = Some x"
    by (auto simp: getAccessRequest_def)
  from find_Some_iff[OF this]
  have "\<exists>x \<in> set (cl_requests s). xr_instance x = ce_instance env \<and> xr_workspace x = wid \<and> xr_user x = target"
    by (auto simp: access_request_where_def)
  then have "allowed_change env u (Approve wid target) s wid target None (Some Member)"
    using owner_or_admin_acts[OF a(1,2)] by simp
  from add_rightly[OF this] a(4) show ?thesis by simp
qed (simp add: left_alone)

text \<open>
  C33. A call changes roles only by right. It leaves everything as it is; or, on what is there by the
  time it writes, it changes no role but as its caller was allowed to when the call began, and what it
  leaves are the roles after that, or after what others do before its last write. Who creates a
  workspace becomes its owner; a member may leave; an owner (a superadmin counts as one in a shared
  workspace) may change and end memberships, an admin may only end those that were regular then; both may
  make eligible users and those who asked regular members. The rights are those read before the write:
  the last section has a removal that they no longer allow when it happens.
\<close>

theorem memberships_change_by_right:
  "perform env u call s = s \<or>
   (\<exists>t. role_in (perform env u call s) \<in> {role_in t, role_in (ce_meanwhile env t)} \<and>
      (\<forall>inst wid user. role_in t inst wid user \<noteq> role_in (ce_meanwhile env s) inst wid user \<longrightarrow>
         inst = ce_instance env \<and>
         allowed_change env u call s wid user (role_in (ce_meanwhile env s) inst wid user) (role_in t inst wid user)))"
proof -
  have "left_rightly env u call s (perform env u call s)"
    by (cases call) (simp_all only: creation_rightly others_rightly adding_rightly role_change_rightly removal_rightly
        leaving_rightly approval_rightly)
  then show ?thesis by (simp only: left_rightly_def changes_allowed_def)
qed

section \<open>What is listed\<close>

lemma open_workspace_read:
  assumes "workspaces_ok s" "w \<in> set (cl_workspaces s)" "cw_instance w = inst" "notInDeletion w"
  shows "getWorkspace s inst (cw_id w) = Some w"
proof -
  have "\<exists>v. List.find (\<lambda>v. workspace_row inst (cw_id w) v \<and> notInDeletion v) (cl_workspaces s) = Some v"
    using assms(2-4) by (intro not_None_eq[THEN iffD1]) (auto simp: find_None_iff workspace_row_def)
  then obtain v where v: "List.find (\<lambda>v. workspace_row inst (cw_id w) v \<and> notInDeletion v) (cl_workspaces s) = Some v" ..
  with find_Some_iff[OF v] same_workspace[OF assms(1) _ assms(2)] show ?thesis
    by (auto simp: getWorkspace_def workspace_row_def)
qed

lemma getWorkspace_Some:
  "getWorkspace s inst wid = Some w \<Longrightarrow>
    w \<in> set (cl_workspaces s) \<and> cw_instance w = inst \<and> cw_id w = wid \<and> notInDeletion w"
  by (auto simp: getWorkspace_def workspace_row_def dest: find_Some_iff)

lemma listed_membership:
  assumes ok: "tables_fit s" and w: "w \<in> set (cl_workspaces s)" "cw_instance w = inst" "notInDeletion w"
  shows "(w, role) \<in> set (listWorkspacesForUser s inst user) \<longleftrightarrow>
    map_option mb_role (getMembership s inst (cw_id w) user) = Some role"
proof
  assume "(w, role) \<in> set (listWorkspacesForUser s inst user)"
  then obtain m where m: "m \<in> set (cl_memberships s)" "mb_role m = role" "membership_where inst (cw_id w) user m"
    by (auto simp: listWorkspacesForUser_def joined_def membership_where_def)
  have "requireWorkspace s inst (cw_id w) = Inr w"
    using open_workspace_read[of s w inst] ok w by (simp add: requireWorkspace_def tables_fit_def)
  note read = getMembership_in_open[OF this, of user]
  have "\<exists>n. List.find (membership_where inst (cw_id w) user) (cl_memberships s) = Some n"
    using m by (intro not_None_eq[THEN iffD1]) (auto simp: find_None_iff)
  then obtain n where n: "List.find (membership_where inst (cw_id w) user) (cl_memberships s) = Some n" ..
  have "n = m" using same_membership[of s n m inst "cw_id w" user] find_Some_iff[OF n] m ok by (simp add: tables_fit_def)
  with n m(2) read show "map_option mb_role (getMembership s inst (cw_id w) user) = Some role" by simp
next
  assume "map_option mb_role (getMembership s inst (cw_id w) user) = Some role"
  then obtain m where "getMembership s inst (cw_id w) user = Some m" "mb_role m = role" by blast
  with getMembership_Some[of s inst "cw_id w" user m] w
  show "(w, role) \<in> set (listWorkspacesForUser s inst user)"
    by (force simp: listWorkspacesForUser_def joined_def membership_where_def)
qed

lemma listed_is_open:
  "(w, role) \<in> set (listWorkspacesForUser s inst user) \<Longrightarrow>
    w \<in> set (cl_workspaces s) \<and> cw_instance w = inst \<and> notInDeletion w"
  by (auto simp: listWorkspacesForUser_def joined_def)

lemma toListItem_open:
  assumes "workspaces_ok s" "w \<in> set (cl_workspaces s)" "cw_instance w = ce_instance env" "notInDeletion w"
  shows "\<exists>n. toListItem env s w r mr =
    Inr \<lparr>wi_workspace = w, wi_role = r, wi_membershipRole = mr, wi_pendingAccessRequestCount = n\<rparr>"
  using open_workspace_read[OF assms]
  by (auto simp: toListItem_def countPendingAccessRequests_def listAccessRequestsForWorkspace_def requireWorkspace_def)

lemma map_result_total:
  "(\<And>x. x \<in> set xs \<Longrightarrow> \<exists>y. f x = Inr y) \<Longrightarrow> \<exists>ys. map_result f xs = Inr ys \<and> set ys = {y. \<exists>x \<in> set xs. f x = Inr y}"
proof (induction xs)
  case (Cons x xs)
  from Cons.prems obtain y where "f x = Inr y" by auto
  moreover obtain ys where "map_result f xs = Inr ys" "set ys = {y. \<exists>x \<in> set xs. f x = Inr y}"
    using Cons by auto
  ultimately show ?case by auto
qed simp

lemma items_of:
  assumes "\<And>x. x \<in> set xs \<Longrightarrow> \<exists>n. f x = Inr \<lparr>wi_workspace = fst (h x), wi_role = fst (snd (h x)),
    wi_membershipRole = snd (snd (h x)), wi_pendingAccessRequestCount = n\<rparr>"
  shows "\<exists>ys. map_result f xs = Inr ys \<and>
    (\<forall>w r mr. (\<exists>item \<in> set ys. wi_workspace item = w \<and> wi_role item = r \<and> wi_membershipRole item = mr) =
      ((w, r, mr) \<in> h ` set xs))"
proof -
  obtain ys where ys: "map_result f xs = Inr ys" "set ys = {y. \<exists>x \<in> set xs. f x = Inr y}"
    using map_result_total[of xs f] assms by blast
  have "(\<exists>item \<in> set ys. wi_workspace item = w \<and> wi_role item = r \<and> wi_membershipRole item = mr) =
      ((w, r, mr) \<in> h ` set xs)" for w r mr
  proof
    assume "\<exists>item \<in> set ys. wi_workspace item = w \<and> wi_role item = r \<and> wi_membershipRole item = mr"
    then obtain item x where "x \<in> set xs" "f x = Inr item" "wi_workspace item = w" "wi_role item = r" "wi_membershipRole item = mr"
      unfolding ys(2) by blast
    with assms[of x] show "(w, r, mr) \<in> h ` set xs" by (auto simp: image_iff prod_eq_iff)
  next
    assume "(w, r, mr) \<in> h ` set xs"
    then obtain x where x: "x \<in> set xs" "h x = (w, r, mr)" by auto
    from assms[OF x(1)] x(2) obtain n where
      "f x = Inr \<lparr>wi_workspace = w, wi_role = r, wi_membershipRole = mr, wi_pendingAccessRequestCount = n\<rparr>" by auto
    with x(1) ys(2) show "\<exists>item \<in> set ys. wi_workspace item = w \<and> wi_role item = r \<and> wi_membershipRole item = mr"
      by (intro bexI[of _ "\<lparr>wi_workspace = w, wi_role = r, wi_membershipRole = mr, wi_pendingAccessRequestCount = n\<rparr>"]) auto
  qed
  with ys(1) show ?thesis by blast
qed

text \<open>What opening a workspace gives, from the memberships.\<close>

lemma access_of_open:
  assumes "workspaces_ok s" "w \<in> set (cl_workspaces s)" "cw_instance w = ce_instance env" "notInDeletion w"
  shows "requireWorkspaceAccess env u (cw_id w) s = Inr \<lparr>wa_userId = cu_id u, wa_role = r, wa_membershipRole = mr\<rparr> \<longleftrightarrow>
    mr = map_option mb_role (getMembership s (ce_instance env) (cw_id w) (cu_id u)) \<and>
    (if cu_superadmin u \<and> cw_kind w = Shared then r = Owner else mr = Some r)"
  using open_workspace_read[OF assms]
  by (auto simp: requireWorkspaceAccess_def effectiveWorkspaceRole_def Let_def split: option.splits)

text \<open>
  C34. The list of workspaces never fails and shows exactly what may be opened: a workspace with the role
  and the membership that opening it would give the caller, which is the membership for a member and
  the role of an owner for a superadmin in a shared workspace.
\<close>

theorem lists_show_what_may_be_opened:
  fixes s :: "'a collab"
  assumes "reachable no_collab collab_move s"
  shows "\<exists>xs. listWorkspaces env u s = Inr xs \<and>
    (\<forall>w r mr. (\<exists>item \<in> set xs. wi_workspace item = w \<and> wi_role item = r \<and> wi_membershipRole item = mr) =
      (w \<in> set (cl_workspaces s) \<and> cw_instance w = ce_instance env \<and> cw_deletionRequestedAt w = None \<and>
       requireWorkspaceAccess env u (cw_id w) s = Inr \<lparr>wa_userId = cu_id u, wa_role = r, wa_membershipRole = mr\<rparr>))"
proof -
  have ok: "tables_fit s" "workspaces_ok s" using collab.inv_reachable[OF assms] by (simp_all add: tables_fit_def)
  let ?i = "ce_instance env"
  let ?mine = "listWorkspacesForUser s ?i (cu_id u)"
  let ?others = "if cu_superadmin u
    then filter (\<lambda>w. cw_id w \<notin> set (map (\<lambda>(w, _). cw_id w) ?mine)) (listSharedWorkspaces s ?i) else []"
  have others: "w \<in> set ?others \<longleftrightarrow> cu_superadmin u \<and> w \<in> set (cl_workspaces s) \<and> cw_instance w = ?i \<and>
      cw_kind w = Shared \<and> notInDeletion w \<and> (\<forall>role. (w, role) \<notin> set ?mine)" for w
    using same_workspace[OF ok(2)] listed_is_open[of _ _ s ?i "cu_id u"]
    by (auto simp: listSharedWorkspaces_def image_iff) blast
  obtain xs where xs: "map_result (\<lambda>(w, role). toListItem env s w
        (set_or_keep (effectiveWorkspaceRole u w (Some role)) role) (Some role)) ?mine = Inr xs"
      "\<And>w r mr. (\<exists>item \<in> set xs. wi_workspace item = w \<and> wi_role item = r \<and> wi_membershipRole item = mr) =
        ((w, r, mr) \<in> (\<lambda>(w, role). (w, set_or_keep (effectiveWorkspaceRole u w (Some role)) role, Some role)) ` set ?mine)"
    using items_of[of ?mine "\<lambda>(w, role). toListItem env s w (set_or_keep (effectiveWorkspaceRole u w (Some role)) role) (Some role)"
        "\<lambda>(w, role). (w, set_or_keep (effectiveWorkspaceRole u w (Some role)) role, Some role)"]
      toListItem_open[OF ok(2)] listed_is_open[of _ _ s ?i "cu_id u"] by auto
  obtain ys where ys: "map_result (\<lambda>w. toListItem env s w Owner None) ?others = Inr ys"
      "\<And>w r mr. (\<exists>item \<in> set ys. wi_workspace item = w \<and> wi_role item = r \<and> wi_membershipRole item = mr) =
        ((w, r, mr) \<in> (\<lambda>w. (w, Owner, None)) ` set ?others)"
    using items_of[of ?others "\<lambda>w. toListItem env s w Owner None" "\<lambda>w. (w, Owner, None)"]
      toListItem_open[OF ok(2)] others by auto
  have "((\<exists>item \<in> set (xs @ ys). wi_workspace item = w \<and> wi_role item = r \<and> wi_membershipRole item = mr)) =
      (w \<in> set (cl_workspaces s) \<and> cw_instance w = ?i \<and> cw_deletionRequestedAt w = None \<and>
       requireWorkspaceAccess env u (cw_id w) s = Inr \<lparr>wa_userId = cu_id u, wa_role = r, wa_membershipRole = mr\<rparr>)" for w r mr
  proof (cases "w \<in> set (cl_workspaces s) \<and> cw_instance w = ?i \<and> notInDeletion w")
    case False
    then have "(w, role) \<notin> set ?mine" "w \<notin> set ?others" for role
      using listed_is_open[of w role s ?i "cu_id u"] others[of w] by blast+
    then show ?thesis using False xs(2)[of w r mr] ys(2)[of w r mr] by (auto simp: notInDeletion_def)
  next
    case True
    note mine = listed_membership[OF ok(1) conjunct1[OF True] conjunct1[OF conjunct2[OF True]] conjunct2[OF conjunct2[OF True]], of _ "cu_id u"]
      and access = access_of_open[OF ok(2) conjunct1[OF True] conjunct1[OF conjunct2[OF True]] conjunct2[OF conjunct2[OF True]], of u r mr]
    have "(\<exists>item \<in> set (xs @ ys). wi_workspace item = w \<and> wi_role item = r \<and> wi_membershipRole item = mr) =
        ((\<exists>role. (w, role) \<in> set ?mine \<and> r = set_or_keep (effectiveWorkspaceRole u w (Some role)) role \<and> mr = Some role) \<or>
         w \<in> set ?others \<and> r = Owner \<and> mr = None)"
    proof -
      have "((w, r, mr) \<in> (\<lambda>(w, role). (w, set_or_keep (effectiveWorkspaceRole u w (Some role)) role, Some role)) ` set ?mine) =
          (\<exists>role. (w, role) \<in> set ?mine \<and> r = set_or_keep (effectiveWorkspaceRole u w (Some role)) role \<and> mr = Some role)"
        by (force simp: image_iff)
      moreover have "((w, r, mr) \<in> (\<lambda>w. (w, Owner, None)) ` set ?others) = (w \<in> set ?others \<and> r = Owner \<and> mr = None)"
        by blast
      ultimately show ?thesis unfolding set_append bex_Un xs(2)[of w r mr] ys(2)[of w r mr] by (rule arg_cong2[where f = "(\<or>)"])
    qed
    also have "\<dots> = (requireWorkspaceAccess env u (cw_id w) s =
        Inr \<lparr>wa_userId = cu_id u, wa_role = r, wa_membershipRole = mr\<rparr>)"
      unfolding others mine access using True
      by (cases "getMembership s ?i (cw_id w) (cu_id u)")
        (auto simp: effectiveWorkspaceRole_def set_or_keep_def split: option.splits)
    finally show ?thesis using True by (simp add: notInDeletion_def)
  qed
  with xs(1) ys(1) show ?thesis by (auto simp: listWorkspaces_def Let_def)
qed

section \<open>Examples\<close>

definition demo_user :: "string \<Rightarrow> product_user" where
  "demo_user name = \<lparr>us_id = name, us_instance = ''i'', us_displayLabel = name, us_email = Some (name @ ''@x.org''), us_identities = [],
     us_disabled = False, us_deletionRequestedAt = None\<rparr>"

definition demo_creation :: workspace_creation where
  "demo_creation = \<lparr>wc_instance = ''i'', wc_kind = Shared, wc_name = ''Lab'', wc_description = None, wc_visibility = None,
     wc_defaultVisibility = None, wc_emoji = None, wc_accentColor = None, wc_personalUserId = None, wc_creator = ''ann''\<rparr>"

definition demo_workspace :: collab_workspace where
  "demo_workspace = \<lparr>cw_id = ''w'', cw_instance = ''i'', cw_kind = Shared, cw_name = ''Lab'', cw_description = None,
     cw_visibility = Discoverable, cw_defaultVisibility = For_Workspace, cw_emoji = None, cw_accentColor = None,
     cw_personalUserId = None, cw_deletionRequestedAt = None, cw_createdAt = 1, cw_updatedAt = 1\<rparr>"

definition demo_collab :: "string list \<Rightarrow> (string \<times> membership_role) list \<Rightarrow> unit collab" where
  "demo_collab users members = \<lparr>cl_workspaces = (if members = [] then [] else [demo_workspace]),
     cl_memberships = map (\<lambda>(user, role). new_membership 1 ''i'' ''w'' user role) members, cl_requests = [],
     cl_users = map demo_user users, cl_conversations = [], cl_assets = ()\<rparr>"

definition demo_caller :: "string \<Rightarrow> collab_user" where
  "demo_caller name = \<lparr>cu_id = name, cu_superadmin = False\<rparr>"

definition demo_env :: "(unit collab \<Rightarrow> unit collab) \<Rightarrow> unit collab_env" where
  "demo_env meanwhile = \<lparr>ce_instance = ''i'', ce_now = 1, ce_newId = ''w'', ce_meanwhile = meanwhile,
     ce_record = (\<lambda>_. Inr ()), ce_idle = (\<lambda>_. Inr ())\<rparr>"

lemmas demo_defs = demo_user_def demo_creation_def demo_workspace_def demo_collab_def demo_caller_def demo_env_def

lemma demo_alone: "ce_meanwhile (demo_env (\<lambda>t. t)) = (\<lambda>t. t)" "others_move (demo_env (\<lambda>t. t))"
  by (simp_all add: demo_env_def others_move_def)

lemma demo_reached: "reachable no_collab collab_move (demo_collab [''ann'', ''bob''] [(''ann'', Owner), (''bob'', Owner)])"
proof -
  have "reachable no_collab collab_move (demo_collab [] [])"
    by (rule reachable_start) code_simp
  then have "reachable no_collab collab_move (demo_collab [''ann''] [])"
    by (rule reachable_move) (rule mv_quiet, rule mv_new_user[of "demo_user ''ann''"], code_simp)
  then have "reachable no_collab collab_move (demo_collab [''ann'', ''bob''] [])"
    by (rule reachable_move) (rule mv_quiet, rule mv_new_user[of "demo_user ''bob''"], code_simp)
  then have "reachable no_collab collab_move (demo_collab [''ann'', ''bob''] [(''ann'', Owner)])"
    by (rule reachable_move) (rule mv_create[of demo_creation "''w''" 1 _ _ demo_workspace], code_simp)
  then show ?thesis
    by (rule reachable_move) (rule mv_quiet,
      rule mv_add[of "''i''" "''w''" "''bob''" Owner 1 _ _ "new_membership 1 ''i'' ''w'' ''bob'' Owner"], code_simp)
qed

text \<open>The same as a run, with nobody closing an account; and what is then added to it.\<close>

definition demo_run :: "string list \<Rightarrow> (string \<times> membership_role) list \<Rightarrow> unit collab_run" where
  "demo_run users members = \<lparr>cr_tables = demo_collab users members, cr_closing = [], cr_strays = []\<rparr>"

lemma demo_run_quiet:
  "quiet_move (demo_collab users members) (demo_collab users' members') \<Longrightarrow>
    owners_step (demo_run users members) (demo_run users' members')"
  using os_quiet[of "demo_run users members" "demo_collab users' members'"] by (simp add: demo_run_def)

lemma demo_run_created: "owners_step (demo_run [''ann'', ''bob''] []) (demo_run [''ann'', ''bob''] [(''ann'', Owner)])"
proof -
  have c: "createWorkspace demo_creation ''w'' 1 (cr_tables (demo_run [''ann'', ''bob''] [])) =
      Inr (demo_collab [''ann'', ''bob''] [(''ann'', Owner)], demo_workspace)"
    and o: "open_account (cr_tables (demo_run [''ann'', ''bob''] [])) (wc_instance demo_creation) (wc_creator demo_creation)"
    by code_simp+
  from os_create[OF c] o show ?thesis by (simp add: demo_run_def)
qed

lemma demo_added:
  "addMembership ''i'' ''w'' ''bob'' role 1 (demo_collab [''ann'', ''bob''] [(''ann'', Owner)]) =
    Inr (demo_collab [''ann'', ''bob''] [(''ann'', Owner), (''bob'', role)], new_membership 1 ''i'' ''w'' ''bob'' role)"
  by (induct role) code_simp+

lemma demo_run_reached: "reachable no_run owners_step (demo_run [''ann'', ''bob''] [(''ann'', Owner), (''bob'', role)])"
proof -
  have "reachable no_run owners_step (demo_run [] [])"
    by (rule reachable_start) code_simp
  then have "reachable no_run owners_step (demo_run [''ann''] [])"
    by (rule reachable_move) (rule demo_run_quiet, rule mv_new_user[of "demo_user ''ann''"], code_simp)
  then have "reachable no_run owners_step (demo_run [''ann'', ''bob''] [])"
    by (rule reachable_move) (rule demo_run_quiet, rule mv_new_user[of "demo_user ''bob''"], code_simp)
  then have "reachable no_run owners_step (demo_run [''ann'', ''bob''] [(''ann'', Owner)])"
    using demo_run_created by (rule reachable_move)
  then show ?thesis
    using demo_run_quiet[OF mv_add[OF demo_added[of role]]] by (rule reachable_move)
qed

lemma acceptances_given_up: "owners_step\<^sup>*\<^sup>* r (r\<lparr>cr_closing := []\<rparr>)"
proof (induction "cr_closing r" arbitrary: r)
  case (Cons c cs)
  have "owners_step r (r\<lparr>cr_closing := cs\<rparr>)" using os_abandon[of r c] Cons(2)[symmetric] by simp
  moreover have "owners_step\<^sup>*\<^sup>* (r\<lparr>cr_closing := cs\<rparr>) (r\<lparr>cr_closing := []\<rparr>)" using Cons(1)[of "r\<lparr>cr_closing := cs\<rparr>"] by simp
  ultimately show ?case by (rule converse_rtranclp_into_rtranclp)
next
  case Nil
  then have "r\<lparr>cr_closing := []\<rparr> = r" by (cases r) simp
  then show ?case by simp
qed

lemma demo_others: "others_run (demo_env (\<lambda>t. t)) call"
  unfolding others_run_def
proof (intro allI impI)
  fix r :: "unit collab_run"
  have "may_write call (r\<lparr>cr_closing := []\<rparr>)" by (simp add: may_write_def unlocked_def)
  then show "\<exists>r'. owners_step\<^sup>*\<^sup>* r r' \<and> cr_tables r' = ce_meanwhile (demo_env (\<lambda>t. t)) (cr_tables r) \<and> may_write call r'"
    using acceptances_given_up[of r] by (intro exI[of _ "r\<lparr>cr_closing := []\<rparr>"]) (simp add: demo_alone)
qed

lemma demo_left:
  "perform (demo_env (\<lambda>t. t)) (demo_caller ''ann'') (Leave ''w'') (demo_collab [''ann'', ''bob''] [(''ann'', Owner), (''bob'', Owner)]) =
    demo_collab [''ann'', ''bob''] [(''bob'', Owner)]"
  by code_simp

lemma workspaces_keep_an_owner_witness:
  "(\<exists>r. owners_step\<^sup>*\<^sup>* (demo_run [''ann'', ''bob''] [(''ann'', Owner), (''bob'', Owner)]) r \<and>
      cr_tables r = demo_collab [''ann'', ''bob''] [(''bob'', Owner)]) \<and>
   (\<exists>m \<in> set (cl_memberships (demo_collab [''ann'', ''bob''] [(''ann'', Owner), (''bob'', Owner)])).
      mb_workspace m = ''w'' \<and> mb_role m = Owner)"
proof -
  let ?r = "demo_run [''ann'', ''bob''] [(''ann'', Owner), (''bob'', Owner)]"
  have "demo_workspace \<in> set (cl_workspaces (cr_tables ?r))" "cw_kind demo_workspace = Shared"
    "cw_deletionRequestedAt demo_workspace = None" "cw_id demo_workspace \<notin> set (cr_strays ?r)"
    by (simp_all add: demo_run_def demo_collab_def demo_workspace_def)
  with workspaces_keep_an_owner[OF demo_run_reached[of Owner] demo_others[of "Leave ''w''"], of "demo_caller ''ann''"]
  have "\<exists>r. owners_step\<^sup>*\<^sup>* ?r r \<and> cr_tables r = perform (demo_env (\<lambda>t. t)) (demo_caller ''ann'') (Leave ''w'') (cr_tables ?r)"
    "\<exists>m \<in> set (cl_memberships (cr_tables ?r)). mb_workspace m = cw_id demo_workspace \<and> mb_role m = Owner"
    by blast+
  then show ?thesis using demo_left by (simp add: demo_run_def demo_workspace_def)
qed

lemma collab_tables_fit_together_witness:
  "\<exists>v \<in> set (cl_users (demo_collab [''ann'', ''bob''] [(''bob'', Owner)])). us_instance v = ''i'' \<and> us_id v = ''bob''"
proof -
  have "new_membership 1 ''i'' ''w'' ''bob'' Owner \<in> set (cl_memberships (demo_collab [''ann'', ''bob''] [(''bob'', Owner)]))"
    by (simp add: demo_collab_def)
  with collab_tables_fit_together[OF demo_reached demo_alone(2), of "demo_caller ''ann''" "Leave ''w''", unfolded demo_left]
  show ?thesis by (fastforce simp: new_membership_def)
qed

lemma memberships_change_by_right_witness:
  "acts_as (demo_env (\<lambda>t. t)) (demo_caller ''ann'') ''w''
    (demo_collab [''ann'', ''bob''] [(''ann'', Owner), (''bob'', Owner)]) Owner"
proof -
  define env s call where "env = demo_env (\<lambda>t. t)" and "s = demo_collab [''ann'', ''bob''] [(''ann'', Owner), (''bob'', Owner)]"
    and "call = Change_Role ''w'' ''bob'' Admin"
  define t where "t = perform env (demo_caller ''ann'') call s"
  have r: "role_in s ''i'' ''w'' ''bob'' = Some Owner" "role_in t ''i'' ''w'' ''bob'' = Some Admin"
    unfolding t_def s_def env_def call_def by code_simp+
  then have "t \<noteq> s" by auto
  moreover have "ce_meanwhile env = (\<lambda>t. t)" by (simp add: env_def demo_alone)
  note memberships_change_by_right[of env "demo_caller ''ann''" call s, unfolded this, folded t_def]
  ultimately have "allowed_change env (demo_caller ''ann'') call s ''w'' ''bob'' (Some Owner) (Some Admin)"
    using r by (metis insertE membership_role.distinct(1) option.inject singletonD)
  then show ?thesis by (simp add: call_def env_def s_def)
qed

lemma lists_show_what_may_be_opened_witness:
  "\<exists>xs item. listWorkspaces (demo_env (\<lambda>t. t)) (demo_caller ''bob'') (demo_collab [''ann'', ''bob''] [(''ann'', Owner), (''bob'', Owner)]) = Inr xs \<and>
    item \<in> set xs \<and> wi_workspace item = demo_workspace \<and> wi_role item = Owner"
proof -
  let ?s = "demo_collab [''ann'', ''bob''] [(''ann'', Owner), (''bob'', Owner)]"
  have "requireWorkspaceAccess (demo_env (\<lambda>t. t)) (demo_caller ''bob'') (cw_id demo_workspace) ?s =
      Inr \<lparr>wa_userId = cu_id (demo_caller ''bob''), wa_role = Owner, wa_membershipRole = Some Owner\<rparr>"
    by code_simp
  moreover have "demo_workspace \<in> set (cl_workspaces ?s)" "cw_instance demo_workspace = ce_instance (demo_env (\<lambda>t. t))"
      "cw_deletionRequestedAt demo_workspace = None"
    by (simp_all add: demo_collab_def demo_env_def demo_workspace_def)
  ultimately show ?thesis
    using lists_show_what_may_be_opened[OF demo_reached, of "demo_env (\<lambda>t. t)" "demo_caller ''bob''"] by blast
qed

section \<open>Where checks come too early\<close>

text \<open>
  The acceptance of an account deletion locks the workspaces its user owns when it begins. Somebody who
  is made an owner after that, and is then left alone with the workspace, is closed all the same.
\<close>

lemma promotion_slips_past_the_check:
  "\<exists>r. owners_step\<^sup>*\<^sup>* (demo_run [''ann'', ''bob''] [(''ann'', Owner), (''bob'', Member)]) r \<and>
    cr_strays r = [''w''] \<and> \<not> owners_stay [] (cr_tables r)"
proof -
  let ?members = "\<lambda>ms. demo_collab [''ann'', ''bob''] ms" and ?closing = "\<lambda>read. \<lparr>cg_instance = ''i'', cg_user = ''bob'', cg_locks = [], cg_read = read\<rparr>"
  define s where "s = ?members [(''ann'', Owner), (''bob'', Member)]"
  define run where "run = (\<lambda>read t. \<lparr>cr_tables = t, cr_closing = [?closing read], cr_strays = []\<rparr> :: unit collab_run)"
  define closed where "closed = (?members [(''bob'', Owner)])
    \<lparr>cl_users := [demo_user ''ann'', (demo_user ''bob'')\<lparr>us_deletionRequestedAt := Some 2\<rparr>]\<rparr>"
  have start: "demo_run [''ann'', ''bob''] [(''ann'', Owner), (''bob'', Member)] = \<lparr>cr_tables = s, cr_closing = [], cr_strays = []\<rparr>"
    by (simp add: demo_run_def s_def)
  have free: "unlocked (run read t) wid" for read t wid by (simp add: run_def unlocked_def)
  have "[] = locked_for_owner_change s ''i'' (Inr ''bob'')" unfolding s_def by code_simp
  then have "owners_step \<lparr>cr_tables = s, cr_closing = [], cr_strays = []\<rparr> (run None s)"
    using os_lock[of "[]" "\<lparr>cr_tables = s, cr_closing = [], cr_strays = []\<rparr>" "''i''" "''bob''"] by (simp add: run_def)
  moreover have "owners_step (run None s) (run (Some s) s)"
    using os_read[of "?closing None" "run None s"] by (simp add: run_def)
  moreover have "underOwnerLock (demo_env (\<lambda>t. t)) ''w'' ''bob'' (\<lambda>t. updateMembershipRole ''i'' ''w'' ''bob'' Owner 1 t) s =
      Inr (?members [(''ann'', Owner), (''bob'', Owner)], new_membership 1 ''i'' ''w'' ''bob'' Owner)"
    unfolding s_def by code_simp
  then have "owners_step (run (Some s) s) (run (Some s) (?members [(''ann'', Owner), (''bob'', Owner)]))"
    using os_role[OF free[of "Some s" s "''w''"], of "demo_env (\<lambda>t. t)" "''bob''" Owner 1 "?members [(''ann'', Owner), (''bob'', Owner)]"
        "new_membership 1 ''i'' ''w'' ''bob'' Owner"]
    by (simp add: run_def demo_env_def)
  moreover have "underOwnerLock (demo_env (\<lambda>t. t)) ''w'' ''ann'' (\<lambda>t. removeMembership ''i'' ''w'' ''ann'' t)
      (?members [(''ann'', Owner), (''bob'', Owner)]) =
      Inr (?members [(''bob'', Owner)], new_membership 1 ''i'' ''w'' ''ann'' Owner)"
    by code_simp
  then have "owners_step (run (Some s) (?members [(''ann'', Owner), (''bob'', Owner)])) (run (Some s) (?members [(''bob'', Owner)]))"
    using os_remove[OF free[of "Some s" "?members [(''ann'', Owner), (''bob'', Owner)]" "''w''"], of "demo_env (\<lambda>t. t)" "''ann''"
        "?members [(''bob'', Owner)]" "new_membership 1 ''i'' ''w'' ''ann'' Owner"]
    by (simp add: run_def demo_env_def)
  moreover have "requestAccountDeletion ''i'' ''bob'' False 2 s (?members [(''bob'', Owner)]) = Inr (closed, True)"
    "owned_unlocked (?members [(''bob'', Owner)]) (?closing (Some s)) = [''w'']"
    unfolding s_def closed_def by code_simp+
  then have "owners_step (run (Some s) (?members [(''bob'', Owner)])) \<lparr>cr_tables = closed, cr_closing = [], cr_strays = [''w'']\<rparr>"
    using os_mark[of "?closing (Some s)" "run (Some s) (?members [(''bob'', Owner)])" s 2 closed True] by (simp add: run_def)
  moreover have "\<not> owners_stay [] closed"
    by (simp add: owners_stay_def owner_besides_def open_shared_def closed_def demo_defs new_membership_def joined_def open_account_def
        user_row_def notInDeletion_def)
  ultimately show ?thesis unfolding start
    by (intro exI[of _ "\<lparr>cr_tables = closed, cr_closing = [], cr_strays = [''w'']\<rparr>"])
      (auto intro: converse_rtranclp_into_rtranclp r_into_rtranclp)
qed

text \<open>A workspace may be created for an account that is closed between sign-in and the insertion.\<close>

lemma creation_for_a_closed_account:
  "\<not> owners_stay [] (perform (demo_env (\<lambda>s. s\<lparr>cl_users := [(demo_user ''ann'')\<lparr>us_deletionRequestedAt := Some 2\<rparr>]\<rparr>))
    (demo_caller ''ann'') (Create demo_creation) (demo_collab [''ann''] []))"
proof -
  let ?u = "[(demo_user ''ann'')\<lparr>us_deletionRequestedAt := Some 2\<rparr>]"
  have "perform (demo_env (\<lambda>s. s\<lparr>cl_users := ?u\<rparr>)) (demo_caller ''ann'') (Create demo_creation) (demo_collab [''ann''] []) =
      (demo_collab [''ann''] [(''ann'', Owner)])\<lparr>cl_users := ?u\<rparr>"
    by code_simp
  then show ?thesis
    by (simp add: owners_stay_def owner_besides_def open_shared_def demo_defs new_membership_def joined_def open_account_def user_row_def notInDeletion_def)
qed

text \<open>
  An admin may remove regular members only. That is checked before the lock, so an admin removes a member
  who has meanwhile become an owner.
\<close>

lemma admin_removes_an_owner:
  "map_option mb_role (case fst (removeMember
      (demo_env (perform (demo_env (\<lambda>t. t)) (demo_caller ''ann'') (Change_Role ''w'' ''carl'' Owner)))
      (demo_caller ''bob'') ''w'' ''carl''
      (demo_collab [''ann'', ''bob'', ''carl''] [(''ann'', Owner), (''bob'', Admin), (''carl'', Member)])) of
    Inl _ \<Rightarrow> None | Inr m \<Rightarrow> Some m) = Some Owner"
  by code_simp

end
