(* ===== verification/Skill_Changes.thy ===== *)
theory Skill_Changes imports Errors begin

text \<open>
  Changes to the text of a skill: the operations a proposal consists of, how they are applied, and the
  preview a reviewer sees (\<open>packages/config-schema/src/skill-change.ts\<close>), with the parts of
  \<open>schemas.ts\<close> there that say what a skill is. A text is a list of code units below 256. The message a
  schema gives for its issues is the validation library's and a parameter.
\<close>

section \<open>Skills\<close>

record skill_resource =
  sr_path :: string
  sr_mediaType :: string
  sr_content :: string

record skill =
  sk_name :: string
  sk_title :: string
  sk_description :: string
  sk_content :: string
  sk_resources :: "skill_resource list option"

definition is_letter :: "char \<Rightarrow> bool" where
  "is_letter c = (let n = (of_char c :: nat) in 65 \<le> n \<and> n \<le> 90 \<or> 97 \<le> n \<and> n \<le> 122)"

definition is_name_char :: "char \<Rightarrow> bool" where
  "is_name_char c \<longleftrightarrow> is_letter c \<or> c \<in> set ''0123456789_.-''"

definition skill_name_ok :: "string \<Rightarrow> bool" where
  "skill_name_ok name \<longleftrightarrow> name \<noteq> [] \<and> is_letter (hd name) \<and> list_all is_name_char (tl name)"

definition is_control :: "char \<Rightarrow> bool" where
  "is_control c = (let n = (of_char c :: nat) in n \<le> 31 \<or> n = 127)"

definition ends_with :: "string \<Rightarrow> string \<Rightarrow> bool" where
  "ends_with s t \<longleftrightarrow> length t \<le> length s \<and> drop (length s - length t) s = t"

definition skill_resource_path_ok :: "string \<Rightarrow> bool" where
  "skill_resource_path_ok path \<longleftrightarrow> path \<noteq> [] \<and>
     hd path \<noteq> CHR ''/'' \<and> \<not> (is_letter (hd path) \<and> take 1 (tl path) = '':'') \<and> CHR 0x5C \<notin> set path \<and>
     \<not> list_ex is_control path \<and>
     \<not> list_ex (\<lambda>segment. segment \<in> {[], ''.'', ''..''}) (split_on CHR ''/'' path) \<and>
     to_lower path \<noteq> ''skill.md'' \<and> \<not> ends_with (to_lower path) ''/skill.md''"

text \<open>\<open>path.slice(path.lastIndexOf("."))\<close>: without a dot, the last code unit.\<close>

definition extension_of :: "string \<Rightarrow> string" where
  "extension_of path =
     (if CHR ''.'' \<in> set path then CHR ''.'' # rev (takeWhile (\<lambda>c. c \<noteq> CHR ''.'') (rev path))
      else drop (length path - 1) path)"

definition skillResourceMediaTypeForPath :: "string \<Rightarrow> string option" where
  "skillResourceMediaTypeForPath path =
     (let extension = to_lower (extension_of path) in
      if extension = ''.md'' then Some ''text/markdown''
      else if extension = ''.txt'' then Some ''text/plain''
      else if extension = ''.json'' then Some ''application/json''
      else if extension = ''.yaml'' \<or> extension = ''.yml'' then Some ''application/yaml''
      else None)"

definition skill_resource_ok :: "skill_resource \<Rightarrow> bool" where
  "skill_resource_ok r \<longleftrightarrow> skill_resource_path_ok (sr_path r) \<and> CHR 0x00 \<notin> set (sr_content r) \<and>
     skillResourceMediaTypeForPath (sr_path r) = Some (sr_mediaType r)"

definition resources_of :: "skill \<Rightarrow> skill_resource list" where
  "resources_of s = (case sk_resources s of None \<Rightarrow> [] | Some rs \<Rightarrow> rs)"

definition skill_config_ok :: "skill \<Rightarrow> bool" where
  "skill_config_ok s \<longleftrightarrow> skill_name_ok (sk_name s) \<and> sk_title s \<noteq> [] \<and> sk_description s \<noteq> [] \<and> sk_content s \<noteq> [] \<and>
     list_all skill_resource_ok (resources_of s) \<and> distinct (map (\<lambda>r. to_lower (sr_path r)) (resources_of s))"

section \<open>Operations\<close>

datatype skill_operation =
  Replace_Text string string string
| Append_Text string "string option" string
| Create_Resource string string
| Create_Skill string string string string

definition SKILL_CHANGE_MAX_OPERATION_TEXT :: nat where
  "SKILL_CHANGE_MAX_OPERATION_TEXT = 20000"

definition SKILL_CHANGE_MAX_CONTENT :: nat where
  "SKILL_CHANGE_MAX_CONTENT = 60000"

definition SKILL_CHANGE_MAX_RESOURCES :: nat where
  "SKILL_CHANGE_MAX_RESOURCES = 30"

definition operation_text_ok :: "string \<Rightarrow> bool" where
  "operation_text_ok t \<longleftrightarrow> length t \<le> SKILL_CHANGE_MAX_OPERATION_TEXT"

definition target_ok :: "string \<Rightarrow> bool" where
  "target_ok t \<longleftrightarrow> t = ''root'' \<or> skill_resource_path_ok t"

fun skill_operation_ok :: "skill_operation \<Rightarrow> bool" where
  "skill_operation_ok (Replace_Text target old new) \<longleftrightarrow>
     target_ok target \<and> old \<noteq> [] \<and> operation_text_ok old \<and> operation_text_ok new"
| "skill_operation_ok (Append_Text target heading added) \<longleftrightarrow>
     target_ok target \<and> (case heading of None \<Rightarrow> True | Some h \<Rightarrow> h \<noteq> [] \<and> operation_text_ok h) \<and>
     added \<noteq> [] \<and> operation_text_ok added"
| "skill_operation_ok (Create_Resource path content) \<longleftrightarrow> skill_resource_path_ok path \<and> operation_text_ok content"
| "skill_operation_ok (Create_Skill name title description content) \<longleftrightarrow>
     skill_name_ok name \<and> title \<noteq> [] \<and> operation_text_ok title \<and> description \<noteq> [] \<and> operation_text_ok description \<and>
     content \<noteq> [] \<and> operation_text_ok content"

fun is_creation :: "skill_operation \<Rightarrow> bool" where
  "is_creation (Create_Skill _ _ _ _) = True"
| "is_creation _ = False"

fun is_resource_creation :: "skill_operation \<Rightarrow> bool" where
  "is_resource_creation (Create_Resource _ _) = True"
| "is_resource_creation _ = False"

definition skill_operations_ok :: "skill_operation list \<Rightarrow> bool" where
  "skill_operations_ok ops \<longleftrightarrow> ops \<noteq> [] \<and> list_all skill_operation_ok ops \<and>
     (let creations = filter is_creation ops in
      creations = [] \<or>
      \<not> (1 < length creations \<or> \<not> is_creation (hd ops)) \<and> list_all is_resource_creation (tl ops))"

section \<open>Places in a text\<close>

text \<open>\<open>s.indexOf(t, start)\<close>.\<close>

definition starts_at :: "string \<Rightarrow> string \<Rightarrow> nat \<Rightarrow> bool" where
  "starts_at s t i \<longleftrightarrow> take (length t) (drop i s) = t"

definition index_from :: "string \<Rightarrow> string \<Rightarrow> nat \<Rightarrow> nat option" where
  "index_from s t start = List.find (starts_at s t) [start..<Suc (length s)]"

text \<open>A line break, white space and another: the length of a match of \<open>\r?\n[\t ]*\r?\n\<close> where it starts.\<close>

fun break_end :: "string \<Rightarrow> nat option" where
  "break_end [] = None"
| "break_end (c # s) =
     (if c = CHR 0x0A then Some 1
      else if c = CHR 0x0D then (case s of [] \<Rightarrow> None | d # _ \<Rightarrow> if d = CHR 0x0A then Some 2 else None)
      else None)"

definition paragraph_break :: "string \<Rightarrow> nat option" where
  "paragraph_break s =
     (case break_end s of
        None \<Rightarrow> None
      | Some n \<Rightarrow>
          let gap = takeWhile (\<lambda>c. c = CHR 0x09 \<or> c = CHR '' '') (drop n s) in
          map_option (\<lambda>m. n + length gap + m) (break_end (drop (n + length gap) s)))"

lemma break_end_pos: "break_end s = Some n \<Longrightarrow> 0 < n \<and> n \<le> length s"
  by (cases s) (auto split: if_splits list.splits)

lemma paragraph_break_pos: "paragraph_break s = Some n \<Longrightarrow> 0 < n"
  by (auto simp: paragraph_break_def Let_def dest!: break_end_pos split: option.splits)

function paragraph_breaks :: "nat \<Rightarrow> string \<Rightarrow> (nat \<times> nat) list" where
  "paragraph_breaks i s =
     (if s = [] then []
      else (case paragraph_break s of
          Some n \<Rightarrow> (i, i + n) # paragraph_breaks (i + n) (drop n s)
        | None \<Rightarrow> paragraph_breaks (Suc i) (tl s)))"
  by pat_completeness auto
termination by (relation "measure (\<lambda>(i, s). length s)") (auto dest: paragraph_break_pos)

fun bounds_in :: "(nat \<times> nat) list \<Rightarrow> nat \<Rightarrow> nat \<Rightarrow> nat \<Rightarrow> nat \<Rightarrow> nat \<times> nat" where
  "bounds_in [] start lo hi len = (start, len)"
| "bounds_in ((i, j) # ms) start lo hi len =
     (let start' = (if j \<le> lo then j else start) in
      if hi \<le> i then (start', i) else bounds_in ms start' lo hi len)"

definition paragraphBounds :: "string \<Rightarrow> nat \<Rightarrow> nat \<Rightarrow> nat \<times> nat" where
  "paragraphBounds content lo hi = bounds_in (paragraph_breaks 0 content) 0 lo hi (length content)"

subsection \<open>Sections\<close>

text \<open>\<open>content.split(/(?<=\n)/u)\<close>: every line keeps its line feed.\<close>

fun lines_kept :: "string \<Rightarrow> string list" where
  "lines_kept [] = [[]]"
| "lines_kept [c] = [[c]]"
| "lines_kept (c # d # s) =
     (if c = CHR 0x0A then [c] # lines_kept (d # s)
      else (case lines_kept (d # s) of [] \<Rightarrow> [[c]] | l # ls \<Rightarrow> (c # l) # ls))"

definition fence_marker :: "string \<Rightarrow> string option" where
  "fence_marker line =
     (let s = dropWhile is_white line in
      if 3 < length (takeWhile is_white line) \<or> s = [] \<or> hd s \<notin> {CHR 0x60, CHR ''~''} then None
      else (let marker = takeWhile (\<lambda>c. c = hd s) s in if 3 \<le> length marker then Some marker else None))"

text \<open>What may follow the text of a heading: \<open>(?:\s+#+)?\s*$\<close>.\<close>

definition heading_tail :: "string \<Rightarrow> bool" where
  "heading_tail s =
     (let r = dropWhile is_white s in
      r = [] \<or>
      (r \<noteq> s \<and> hd r = CHR ''#'' \<and> list_all is_white (dropWhile (\<lambda>c. c = CHR ''#'') r)))"

text \<open>The shortest text \<open>(.+?)\<close> after which the tail matches.\<close>

fun heading_text :: "string \<Rightarrow> string \<Rightarrow> string option" where
  "heading_text t [] = None"
| "heading_text t (c # s) =
     (if c = CHR 0x0A \<or> c = CHR 0x0D then None
      else if heading_tail s then Some (t @ [c])
      else heading_text (t @ [c]) s)"

text \<open>\<open>^ {0,3}(#{1,6})\s+(.+?)(?:\s+#+)?\s*$\<close>, the white space as long as the rest still matches.\<close>

definition heading_line :: "string \<Rightarrow> (string \<times> nat) option" where
  "heading_line line =
     (let spaces = takeWhile (\<lambda>c. c = CHR '' '') line;
          s = drop (length spaces) line;
          hashes = takeWhile (\<lambda>c. c = CHR ''#'') s;
          r = drop (length hashes) s;
          white = takeWhile is_white r in
      if 3 < length spaces \<or> hashes = [] \<or> 6 < length hashes then None
      else
        (case List.find (\<lambda>k. heading_text [] (drop k r) \<noteq> None) (rev [1..<Suc (length white)]) of
           None \<Rightarrow> None
         | Some k \<Rightarrow> map_option (\<lambda>t. (t, length hashes)) (heading_text [] (drop k r))))"

record section_heading =
  sh_text :: string
  sh_level :: nat
  sh_index :: nat

fun headings_in :: "string list \<Rightarrow> nat \<Rightarrow> string option \<Rightarrow> section_heading list" where
  "headings_in [] offset fence = []"
| "headings_in (line # ls) offset fence =
     (let rest = (\<lambda>f. headings_in ls (offset + length line) f) in
      case fence_marker line of
        Some marker \<Rightarrow>
          (case fence of
             None \<Rightarrow> rest (Some marker)
           | Some f \<Rightarrow> rest (if hd marker = hd f \<and> length f \<le> length marker then None else fence))
      | None \<Rightarrow>
          (if fence \<noteq> None then rest fence
           else (case heading_line line of
               None \<Rightarrow> rest fence
             | Some (t, level) \<Rightarrow> \<lparr>sh_text = t, sh_level = level, sh_index = offset\<rparr> # rest fence)))"

definition without_marks :: "string \<Rightarrow> string" where
  "without_marks s =
     (let hashes = takeWhile (\<lambda>c. c = CHR ''#'') s; r = dropWhile (\<lambda>c. c = CHR ''#'') s in
      if hashes \<noteq> [] \<and> length hashes \<le> 6 \<and> r \<noteq> [] \<and> is_white (hd r) then dropWhile is_white r else s)"

definition without_closing_marks :: "string \<Rightarrow> string" where
  "without_closing_marks s =
     (let r = dropWhile (\<lambda>c. c = CHR ''#'') (rev s) in
      if s \<noteq> [] \<and> last s = CHR ''#'' \<and> r \<noteq> [] \<and> is_white (hd r) then rev (dropWhile is_white r) else s)"

definition heading_label :: "string \<Rightarrow> string" where
  "heading_label heading = trim (without_closing_marks (without_marks heading))"

definition refuse :: "string \<Rightarrow> (js_error, 'a) result" where
  "refuse message = Inl (app_error VALIDATION_FAILED message)"

definition sectionEnd :: "string \<Rightarrow> string \<Rightarrow> (js_error, nat) result" where
  "sectionEnd content heading =
     (let headings = headings_in (lines_kept content) 0 None;
          matches = filter (\<lambda>h. sh_text h = heading_label heading) headings in
      case matches of
        [] \<Rightarrow> refuse (''Section heading '' @ quoted heading @ '' does not exist'')
      | [found] \<Rightarrow> Inr
          (case List.find (\<lambda>h. sh_index found < sh_index h \<and> sh_level h \<le> sh_level found) headings of
             Some h \<Rightarrow> sh_index h
           | None \<Rightarrow> length content)
      | _ \<Rightarrow> refuse (''Section heading '' @ quoted heading @ '' is ambiguous''))"

section \<open>Applying operations\<close>

record skill_change =
  ck_type :: string
  ck_target :: string
  ck_sectionHeading :: "string option"
  ck_before :: "string option"
  ck_after :: string

record new_skill =
  ns_name :: string
  ns_title :: string
  ns_description :: string
  ns_content :: string

record skill_preview =
  sp_skillName :: string
  sp_skillTitle :: string
  sp_isNewSkill :: bool
  sp_changes :: "skill_change list"
  sp_newSkill :: "new_skill option"

definition slice :: "string \<Rightarrow> nat \<Rightarrow> nat \<Rightarrow> string" where
  "slice s i j = take (j - i) (drop i s)"

fun update_first :: "('a \<Rightarrow> bool) \<Rightarrow> ('a \<Rightarrow> 'a) \<Rightarrow> 'a list \<Rightarrow> 'a list" where
  "update_first p f [] = []"
| "update_first p f (x # xs) = (if p x then f x # xs else x # update_first p f xs)"

definition text_of :: "skill \<Rightarrow> string \<Rightarrow> (js_error, string) result" where
  "text_of s target =
     (if target = ''root'' then Inr (sk_content s)
      else (case List.find (\<lambda>r. sr_path r = target) (resources_of s) of
          None \<Rightarrow> refuse (''Target resource '' @ quoted target @ '' does not exist'')
        | Some r \<Rightarrow> Inr (sr_content r)))"

definition with_text :: "string \<Rightarrow> string \<Rightarrow> skill \<Rightarrow> skill" where
  "with_text target t s =
     (if target = ''root'' then s\<lparr>sk_content := t\<rparr>
      else s\<lparr>sk_resources := map_option (update_first (\<lambda>r. sr_path r = target) (\<lambda>r. r\<lparr>sr_content := t\<rparr>)) (sk_resources s)\<rparr>)"

definition replace_in :: "string \<Rightarrow> string \<Rightarrow> string \<Rightarrow> string \<Rightarrow> (js_error, string \<times> skill_change) result" where
  "replace_in target before old new =
     (case index_from before old 0 of
        None \<Rightarrow> refuse (''oldText must occur exactly once in '' @ quoted target)
      | Some i \<Rightarrow>
          if index_from before old (i + 1) \<noteq> None
          then refuse (''oldText must occur exactly once in '' @ quoted target)
          else
            (let after = take i before @ new @ drop (i + length old) before;
                 bounds = paragraphBounds before i (i + length old) in
             Inr (after, \<lparr>ck_type = ''replace'', ck_target = target, ck_sectionHeading = None,
               ck_before = Some (slice before (fst bounds) (snd bounds)),
               ck_after = slice after (fst bounds) (snd bounds + length new - length old)\<rparr>)))"

definition append_at :: "string \<Rightarrow> nat \<Rightarrow> string \<Rightarrow> string" where
  "append_at before i added =
     (let prefix = take i before; suffix = drop i before; line = [CHR 0x0A] in
      prefix @ (if prefix \<noteq> [] \<and> \<not> ends_with prefix (line @ line)
        then (if ends_with prefix line then line else line @ line) else []) @
      added @ (if suffix \<noteq> [] then line @ line else []) @ suffix)"

definition append_in :: "string \<Rightarrow> string \<Rightarrow> string option \<Rightarrow> string \<Rightarrow> (js_error, string \<times> skill_change) result" where
  "append_in target before heading added =
     bind_result (case heading of None \<Rightarrow> Inr (length before)
        | Some h \<Rightarrow> if h = [] then Inr (length before) else sectionEnd before h) (\<lambda>i.
     Inr (append_at before i added, \<lparr>ck_type = ''add'', ck_target = target,
       ck_sectionHeading = (case heading of None \<Rightarrow> None | Some h \<Rightarrow> if h = [] then None else Some h),
       ck_before = None, ck_after = added\<rparr>))"

definition create_resource :: "string \<Rightarrow> string \<Rightarrow> skill \<Rightarrow> (js_error, skill \<times> skill_change) result" where
  "create_resource path content s =
     (if list_ex (\<lambda>r. to_lower (sr_path r) = to_lower path) (resources_of s)
      then refuse (''Resource '' @ quoted path @ '' already exists'')
      else (case skillResourceMediaTypeForPath path of
          None \<Rightarrow> refuse (''Unsupported skill resource extension: '' @ quoted path)
        | Some mediaType \<Rightarrow> Inr
            (s\<lparr>sk_resources := Some (resources_of s @ [\<lparr>sr_path = path, sr_mediaType = mediaType, sr_content = content\<rparr>])\<rparr>,
             \<lparr>ck_type = ''new_resource'', ck_target = path, ck_sectionHeading = None, ck_before = None,
              ck_after = content\<rparr>)))"

definition check_limits :: "skill \<Rightarrow> (js_error, unit) result" where
  "check_limits s =
     (if SKILL_CHANGE_MAX_CONTENT < length (sk_content s) then refuse ''Skill root exceeds 60000 characters''
      else if SKILL_CHANGE_MAX_RESOURCES < length (resources_of s) then refuse ''Skill exceeds 30 resources''
      else (case List.find (\<lambda>r. SKILL_CHANGE_MAX_CONTENT < length (sr_content r)) (resources_of s) of
          Some r \<Rightarrow> refuse (''Resource '' @ quoted (sr_path r) @ '' exceeds 60000 characters'')
        | None \<Rightarrow> Inr ()))"

fun apply_operation :: "skill \<Rightarrow> skill_operation \<Rightarrow> (js_error, skill \<times> skill_change list) result" where
  "apply_operation s (Create_Skill name title description content) = Inr (s, [])"
| "apply_operation s (Create_Resource path content) =
     bind_result (create_resource path content s) (\<lambda>(s', c). Inr (s', [c]))"
| "apply_operation s (Replace_Text target old new) =
     bind_result (text_of s target) (\<lambda>before.
     bind_result (replace_in target before old new) (\<lambda>(after, c). Inr (with_text target after s, [c])))"
| "apply_operation s (Append_Text target heading added) =
     bind_result (text_of s target) (\<lambda>before.
     bind_result (append_in target before heading added) (\<lambda>(after, c). Inr (with_text target after s, [c])))"

fun apply_operations :: "skill \<Rightarrow> skill_operation list \<Rightarrow> (js_error, skill \<times> skill_change list) result" where
  "apply_operations s [] = Inr (s, [])"
| "apply_operations s (op # ops) =
     bind_result (apply_operation s op) (\<lambda>(s', cs).
     bind_result (check_limits s') (\<lambda>_.
     bind_result (apply_operations s' ops) (\<lambda>(t, ds). Inr (t, cs @ ds))))"

text \<open>The messages of the schemas for the operations and for a skill.\<close>

record schema_messages =
  sm_operations :: "skill_operation list \<Rightarrow> string"
  sm_skill :: "skill \<Rightarrow> string"

definition starting_skill :: "skill option \<Rightarrow> skill_operation \<Rightarrow> (js_error, skill) result" where
  "starting_skill original creation =
     (case creation of
        Create_Skill name title description content \<Rightarrow>
          (case original of
             Some s \<Rightarrow> refuse (''Skill '' @ quoted (sk_name s) @ '' already exists'')
           | None \<Rightarrow> Inr \<lparr>sk_name = name, sk_title = title, sk_description = description, sk_content = content,
               sk_resources = None\<rparr>)
      | _ \<Rightarrow> (case original of None \<Rightarrow> refuse ''Target skill does not exist'' | Some s \<Rightarrow> Inr s))"

definition evaluate_change ::
    "schema_messages \<Rightarrow> skill option \<Rightarrow> skill_operation list \<Rightarrow> (js_error, skill \<times> skill_preview) result" where
  "evaluate_change says original ops =
     (if \<not> skill_operations_ok ops then refuse (sm_operations says ops)
      else
        bind_result (starting_skill original (hd ops)) (\<lambda>s.
        bind_result (apply_operations s ops) (\<lambda>(t, changes).
          if \<not> skill_config_ok t then refuse (sm_skill says t)
          else Inr (t, \<lparr>sp_skillName = sk_name s, sp_skillTitle = sk_title s,
            sp_isNewSkill = is_creation (hd ops), sp_changes = changes,
            sp_newSkill = (if is_creation (hd ops)
              then Some \<lparr>ns_name = sk_name s, ns_title = sk_title s, ns_description = sk_description s,
                ns_content = sk_content s\<rparr> else None)\<rparr>))))"

definition applySkillChange ::
    "schema_messages \<Rightarrow> skill option \<Rightarrow> skill_operation list \<Rightarrow> (js_error, skill) result" where
  "applySkillChange says original ops = bind_result (evaluate_change says original ops) (\<lambda>r. Inr (fst r))"

definition createSkillChangePreview ::
    "schema_messages \<Rightarrow> skill option \<Rightarrow> skill_operation list \<Rightarrow> (js_error, skill_preview) result" where
  "createSkillChangePreview says original ops = bind_result (evaluate_change says original ops) (\<lambda>r. Inr (snd r))"

section \<open>Who may propose\<close>

record skill_changes_policy =
  scp_enabled :: bool
  scp_allowSkillCreation :: bool

record proposing_agent =
  pa_name :: string
  pa_skillNames :: "string list"

definition assertSkillChangeScope ::
    "skill_changes_policy \<Rightarrow> proposing_agent option \<Rightarrow> string \<Rightarrow> skill_operation list \<Rightarrow> (js_error, unit) result" where
  "assertSkillChangeScope policy agent skillName ops =
     (if \<not> scp_enabled policy then Inl (app_error FORBIDDEN ''Agent skill changes are disabled'')
      else (case agent of
          None \<Rightarrow> Inl (app_error VALIDATION_FAILED ''The proposing agent does not exist'')
        | Some a \<Rightarrow>
            (case List.find is_creation ops of
               Some creation \<Rightarrow>
                 if \<not> scp_allowSkillCreation policy then Inl (app_error FORBIDDEN ''Agent skill creation is disabled'')
                 else (case creation of
                     Create_Skill name _ _ _ \<Rightarrow>
                       if name \<noteq> skillName then refuse ''create_skill name must match skillName'' else Inr ()
                   | _ \<Rightarrow> Inr ())
             | None \<Rightarrow>
                 if skillName \<notin> set (pa_skillNames a)
                 then Inl (app_error FORBIDDEN (''Skill '' @ quoted skillName @ '' is outside agent '' @
                   quoted (pa_name a) @ '' scope''))
                 else Inr ())))"

end
