(* ===== verification/Skill_Change_Facts.thy ===== *)
theory Skill_Change_Facts imports Skill_Changes begin

text \<open>
  What changes to skills promise: the skill they give is well formed and the same skill, the preview
  shows exactly what becomes of its texts, and replacing back undoes a replacement.
\<close>

section \<open>Places\<close>

lemma paragraph_breaks_within: "(a, b) \<in> set (paragraph_breaks i s) \<Longrightarrow> a < i + length s"
proof (induction i s rule: paragraph_breaks.induct)
  case (1 i s)
  show ?case
  proof (cases "s = []")
    case True
    then show ?thesis using 1(3) by simp
  next
    case False
    show ?thesis
    proof (cases "paragraph_break s")
      case None
      have "(a, b) \<in> set (paragraph_breaks (Suc i) (tl s))" using 1(3) False None by (subst (asm) paragraph_breaks.simps) simp
      from 1(1)[OF False None this] False show ?thesis by (cases s) auto
    next
      case (Some n)
      have "(a, b) = (i, i + n) \<or> (a, b) \<in> set (paragraph_breaks (i + n) (drop n s))"
        using 1(3) False Some by (subst (asm) paragraph_breaks.simps) simp
      then show ?thesis
      proof
        assume "(a, b) = (i, i + n)"
        then show ?thesis using False by simp
      next
        assume b: "(a, b) \<in> set (paragraph_breaks (i + n) (drop n s))"
        have "drop n s \<noteq> []" using b by (auto split: if_splits)
        then show ?thesis using 1(2)[OF False Some b] by simp
      qed
    qed
  qed
qed

lemma bounds_in_within:
  assumes "start \<le> lo" and "hi \<le> len" and "\<forall>(a, b) \<in> set ms. a \<le> len"
  shows "fst (bounds_in ms start lo hi len) \<le> lo \<and> hi \<le> snd (bounds_in ms start lo hi len) \<and>
    snd (bounds_in ms start lo hi len) \<le> len"
  using assms by (induction ms start lo hi len rule: bounds_in.induct) (auto simp: Let_def)

lemma paragraph_bounds:
  assumes "hi \<le> length s"
  shows "fst (paragraphBounds s lo hi) \<le> lo" "hi \<le> snd (paragraphBounds s lo hi)"
    "snd (paragraphBounds s lo hi) \<le> length s"
proof -
  have "\<forall>(a, b) \<in> set (paragraph_breaks 0 s). a \<le> length s"
    using paragraph_breaks_within[of _ _ 0 s] by force
  from bounds_in_within[OF _ assms this, of 0 lo]
  show "fst (paragraphBounds s lo hi) \<le> lo" "hi \<le> snd (paragraphBounds s lo hi)"
    "snd (paragraphBounds s lo hi) \<le> length s" by (simp_all add: paragraphBounds_def)
qed

lemma index_from_Some:
  "index_from s t k = Some i \<Longrightarrow> k \<le> i \<and> i + length t \<le> length s \<and> s = take i s @ t @ drop (i + length t) s"
proof -
  assume "index_from s t k = Some i"
  then have i: "k \<le> i" "i \<le> length s" "take (length t) (drop i s) = t"
    using find_Some_iff[of "starts_at s t" "[k..<Suc (length s)]" i] by (auto simp: index_from_def starts_at_def)
  have "length t \<le> length s - i" using arg_cong[OF i(3), of length] by simp
  moreover have "drop i s = t @ drop (length t) (drop i s)" using i(3) append_take_drop_id[of "length t" "drop i s"] by simp
  then have "s = take i s @ t @ drop (i + length t) s"
    using append_take_drop_id[of i s] by (simp add: add.commute)
  ultimately show ?thesis using i by auto
qed

text \<open>The only occurrence of a text.\<close>

lemma index_from_only:
  assumes "index_from s t 0 = Some i" and "index_from s t (i + 1) = None" and "starts_at s t j" and "j \<le> length s"
  shows "j = i"
proof (rule ccontr)
  assume "j \<noteq> i"
  then consider "j < i" | "i + 1 \<le> j" by linarith
  then show False
  proof cases
    case 1
    have "\<forall>k < i. \<not> starts_at s t k"
      using assms(1) by (auto simp: index_from_def List.find_Some_iff simp del: upt_Suc)
    then show False using 1 assms(3) by blast
  next
    case 2
    then have "j \<in> set [i + 1..<Suc (length s)]" using assms(4) by auto
    then show False using assms(2,3) by (auto simp: index_from_def find_None_iff simp del: upt_Suc)
  qed
qed

section \<open>What a preview shows\<close>

text \<open>
  A change as a reviewer reads it: the passage before and the passage after, in a text that is
  otherwise the same; an addition between line feeds; a new resource.
\<close>

definition change_shown :: "skill_change \<Rightarrow> skill \<Rightarrow> skill \<Rightarrow> bool" where
  "change_shown c s t \<longleftrightarrow>
     ck_type c = ''replace'' \<and> (\<exists>pre passage post. ck_before c = Some passage \<and>
       text_of s (ck_target c) = Inr (pre @ passage @ post) \<and>
       t = with_text (ck_target c) (pre @ ck_after c @ post) s) \<or>
     ck_type c = ''add'' \<and> (\<exists>pre gap gap' post. text_of s (ck_target c) = Inr (pre @ post) \<and>
       t = with_text (ck_target c) (pre @ gap @ ck_after c @ gap' @ post) s \<and>
       set gap \<union> set gap' \<subseteq> {CHR 0x0A}) \<or>
     ck_type c = ''new_resource'' \<and> (\<exists>mediaType. skillResourceMediaTypeForPath (ck_target c) = Some mediaType \<and>
       (\<forall>r \<in> set (resources_of s). to_lower (sr_path r) \<noteq> to_lower (ck_target c)) \<and>
       t = s\<lparr>sk_resources := Some (resources_of s @
         [\<lparr>sr_path = ck_target c, sr_mediaType = mediaType, sr_content = ck_after c\<rparr>])\<rparr>)"

fun changes_shown :: "skill_change list \<Rightarrow> skill \<Rightarrow> skill \<Rightarrow> bool" where
  "changes_shown [] s t \<longleftrightarrow> t = s"
| "changes_shown (c # cs) s t \<longleftrightarrow> (\<exists>m. change_shown c s m \<and> changes_shown cs m t)"

lemma changes_shown_append: "changes_shown (cs @ ds) s t \<longleftrightarrow> (\<exists>m. changes_shown cs s m \<and> changes_shown ds m t)"
  by (induction cs arbitrary: s) auto

lemma slices:
  assumes "a \<le> i" and "i + n \<le> e" and "e \<le> length s" and "s = take i s @ old @ drop (i + n) s" and "length old = n"
  shows "s = take a s @ slice s a e @ drop e s"
    and "take i s @ new @ drop (i + n) s =
      take a s @ slice (take i s @ new @ drop (i + n) s) a (e + length new - n) @ drop e s"
proof -
  define A B C D where "A = take a s" "B = slice s a i" "C = slice s (i + n) e" "D = drop e s"
  have "take (a + (i - a)) s = take a s @ take (i - a) (drop a s)" by (rule take_add)
  then have ab: "take i s = A @ B" using assms(1) by (simp add: A_B_C_D_def slice_def)
  have "drop (i + n) s = take (e - (i + n)) (drop (i + n) s) @ drop (e - (i + n)) (drop (i + n) s)"
    by (rule append_take_drop_id[symmetric])
  also have "\<dots> = C @ D" using assms(2) by (simp add: A_B_C_D_def slice_def)
  finally have cd: "drop (i + n) s = C @ D" .
  have len: "length A = a" "length B = i - a" "length C = e - (i + n)"
    using assms(1-3) by (simp_all add: A_B_C_D_def slice_def)
  have whole: "s = A @ B @ old @ C @ D" using assms(4) ab cd by simp
  have "slice s a e = B @ old @ C"
  proof -
    have "slice (A @ B @ old @ C @ D) a e = take (e - a) (B @ old @ C @ D)" using len(1) by (simp add: slice_def)
    also have "e - a = length (B @ old @ C)" using len assms(1,2,5) by simp
    finally show ?thesis using whole by simp
  qed
  then show "s = take a s @ slice s a e @ drop e s" using whole by (metis A_B_C_D_def(1,4) append.assoc)
  have "slice (A @ B @ new @ C @ D) a (e + length new - n) = take (e + length new - n - a) (B @ new @ C @ D)"
    using len(1) by (simp add: slice_def)
  also have "e + length new - n - a = length (B @ new @ C)" using len assms(1,2) by simp
  finally have "slice (A @ B @ new @ C @ D) a (e + length new - n) = B @ new @ C" by simp
  then show "take i s @ new @ drop (i + n) s =
      take a s @ slice (take i s @ new @ drop (i + n) s) a (e + length new - n) @ drop e s"
    unfolding ab cd by (simp add: A_B_C_D_def(1,4)[symmetric])
qed

lemma replacement_shown:
  "ck_type c = ''replace'' \<Longrightarrow> ck_before c = Some p \<Longrightarrow> text_of s (ck_target c) = Inr b \<Longrightarrow> b = x @ p @ y \<Longrightarrow>
    a = x @ ck_after c @ y \<Longrightarrow> t = with_text (ck_target c) a s \<Longrightarrow> change_shown c s t"
  unfolding change_shown_def by blast

lemma replace_shown:
  assumes "text_of s target = Inr before" and "replace_in target before old new = Inr (after, c)"
  shows "change_shown c s (with_text target after s)"
proof -
  obtain i where i: "index_from before old 0 = Some i"
    and after: "after = take i before @ new @ drop (i + length old) before"
    and c: "c = \<lparr>ck_type = ''replace'', ck_target = target, ck_sectionHeading = None,
      ck_before = Some (slice before (fst (paragraphBounds before i (i + length old))) (snd (paragraphBounds before i (i + length old)))),
      ck_after = slice after (fst (paragraphBounds before i (i + length old)))
        (snd (paragraphBounds before i (i + length old)) + length new - length old)\<rparr>"
    using assms(2) by (auto simp: replace_in_def refuse_def Let_def split: option.splits if_splits)
  let ?b = "paragraphBounds before i (i + length old)"
  note o' = index_from_Some[OF i]
  have b: "fst ?b \<le> i" "i + length old \<le> snd ?b" "snd ?b \<le> length before"
    using paragraph_bounds[of "i + length old" before i] o' by simp_all
  note s1 = slices(1)[OF b, where old = old] and s2 = slices(2)[OF b, where old = old and new = new]
  have "before = take (fst ?b) before @ slice before (fst ?b) (snd ?b) @ drop (snd ?b) before" using s1 o' by blast
  moreover have "after = take (fst ?b) before @ ck_after c @ drop (snd ?b) before"
    using s2 o' unfolding after c by simp
  moreover have "ck_type c = ''replace''" "ck_target c = target"
    "ck_before c = Some (slice before (fst ?b) (snd ?b))" by (simp_all add: c)
  ultimately show ?thesis using assms(1) by (intro replacement_shown) simp_all
qed

lemma append_shown:
  assumes "text_of s target = Inr before" and "append_in target before heading added = Inr (after, c)"
  shows "change_shown c s (with_text target after s)"
proof -
  obtain i where after: "after = append_at before i added" and c: "ck_type c = ''add''" "ck_target c = target" "ck_after c = added"
    using assms(2) by (auto simp: append_in_def)
  have "\<exists>gap gap'. after = take i before @ gap @ added @ gap' @ drop i before \<and> set gap \<union> set gap' \<subseteq> {CHR 0x0A}"
    unfolding after append_at_def Let_def
    by (rule exI, rule exI, rule conjI, rule refl) auto
  then show ?thesis using assms(1) c unfolding change_shown_def
    by (metis append_take_drop_id)
qed

lemma resource_shown:
  "create_resource path content s = Inr (t, c) \<Longrightarrow> change_shown c s t"
  by (auto simp: create_resource_def refuse_def change_shown_def list_ex_iff split: if_splits option.splits)

lemma operation_shown: "apply_operation s op = Inr (t, cs) \<Longrightarrow> changes_shown cs s t"
  by (cases op) (auto dest: resource_shown replace_shown append_shown)

lemma operations_shown: "apply_operations s ops = Inr (t, cs) \<Longrightarrow> changes_shown cs s t"
proof (induction ops arbitrary: s t cs)
  case Nil
  then show ?case by simp
next
  case (Cons op ops)
  then obtain m ds es where "apply_operation s op = Inr (m, ds)" "apply_operations m ops = Inr (t, es)" "cs = ds @ es"
    by auto
  with operation_shown Cons.IH have "changes_shown ds s m" "changes_shown es m t" by blast+
  then show ?case using \<open>cs = ds @ es\<close> changes_shown_append by blast
qed

section \<open>What stays\<close>

definition skill_within_limits :: "skill \<Rightarrow> bool" where
  "skill_within_limits s \<longleftrightarrow> length (sk_content s) \<le> SKILL_CHANGE_MAX_CONTENT \<and>
     length (resources_of s) \<le> SKILL_CHANGE_MAX_RESOURCES \<and>
     (\<forall>r \<in> set (resources_of s). length (sr_content r) \<le> SKILL_CHANGE_MAX_CONTENT)"

text \<open>The same skill: its name, title and description, and its resources in their order, before any new ones.\<close>

definition same_skill :: "skill \<Rightarrow> skill \<Rightarrow> bool" where
  "same_skill s t \<longleftrightarrow> sk_name t = sk_name s \<and> sk_title t = sk_title s \<and> sk_description t = sk_description s \<and>
     (\<exists>added. map sr_path (resources_of t) = map sr_path (resources_of s) @ added)"

lemma same_skill_refl: "same_skill s s"
  by (simp add: same_skill_def)

lemma same_skill_trans: "same_skill a b \<Longrightarrow> same_skill b c \<Longrightarrow> same_skill a c"
  by (auto simp: same_skill_def)

lemma update_first_paths: "map sr_path (update_first p (\<lambda>r. r\<lparr>sr_content := t\<rparr>) rs) = map sr_path rs"
  by (induction rs) auto

lemma same_with_text: "same_skill s (with_text target t s)"
  by (auto simp: same_skill_def with_text_def resources_of_def update_first_paths split: option.splits)

lemma creation_keeps: "create_resource path content s = Inr (t, c) \<Longrightarrow> same_skill s t"
  by (auto simp: create_resource_def refuse_def same_skill_def resources_of_def split: if_splits option.splits)

lemma operation_keeps: "apply_operation s op = Inr (t, cs) \<Longrightarrow> same_skill s t"
  by (cases op) (auto simp: same_skill_refl same_with_text dest: creation_keeps)

lemma check_limits_Inr: "check_limits s = Inr u \<longleftrightarrow> skill_within_limits s"
  by (auto simp: check_limits_def skill_within_limits_def refuse_def find_None_iff not_less not_le
      dest!: find_Some_iff split: option.splits)

lemma operations_keep: "apply_operations s ops = Inr (t, cs) \<Longrightarrow> same_skill s t"
proof (induction ops arbitrary: s t cs)
  case Nil
  then show ?case by (simp add: same_skill_refl)
next
  case (Cons op ops)
  then show ?case using operation_keeps same_skill_trans by (auto, blast)
qed

lemma operations_limits: "apply_operations s ops = Inr (t, cs) \<Longrightarrow> ops \<noteq> [] \<or> skill_within_limits s \<Longrightarrow> skill_within_limits t"
proof (induction ops arbitrary: s t cs)
  case Nil
  then show ?case by simp
next
  case (Cons op ops)
  then show ?case by (auto simp: check_limits_Inr)
qed

text \<open>An accepted change: where it started, what its operations did.\<close>

lemma evaluated:
  assumes "evaluate_change says original ops = Inr (t, p)"
  obtains s where "skill_operations_ok ops" "starting_skill original (hd ops) = Inr s"
    "apply_operations s ops = Inr (t, sp_changes p)" "skill_config_ok t"
  using assms by (auto simp: evaluate_change_def refuse_def split: if_splits)

section \<open>Promises\<close>

text \<open>
  C39. The skill a change gives is well formed: its name, texts, paths and media types follow the
  schema, no two resources share a path in any case, and every text and the number of resources stay
  within their limits. It is the skill the change started from, with its name, title and description
  and its resources in their order, and an existing skill is never created over.
\<close>

theorem applied_skills_are_well_formed:
  assumes "applySkillChange says original ops = Inr t"
  shows "skill_config_ok t \<and> skill_within_limits t \<and>
    (case original of
       Some s \<Rightarrow> same_skill s t \<and> \<not> list_ex is_creation ops
     | None \<Rightarrow> \<exists>title description content. hd ops = Create_Skill (sk_name t) title description content)"
proof -
  obtain p where "evaluate_change says original ops = Inr (t, p)"
    using assms by (auto simp: applySkillChange_def)
  then obtain s where s: "skill_operations_ok ops" "starting_skill original (hd ops) = Inr s"
    "apply_operations s ops = Inr (t, sp_changes p)" "skill_config_ok t"
    by (rule evaluated)
  have "ops \<noteq> []" using s(1) by (simp add: skill_operations_ok_def)
  then have limits: "skill_within_limits t" using operations_limits[OF s(3)] by simp
  have same: "same_skill s t" by (rule operations_keep[OF s(3)])
  show ?thesis
  proof (cases original)
    case None
    then show ?thesis using s(2,4) limits same
      by (cases "hd ops") (auto simp: starting_skill_def refuse_def same_skill_def)
  next
    case (Some x)
    then have "x = s" "\<not> is_creation (hd ops)" using s(2)
      by (cases "hd ops"; simp add: starting_skill_def refuse_def)+
    moreover have "\<not> list_ex is_creation ops" using s(1) \<open>\<not> is_creation (hd ops)\<close>
      by (auto simp: skill_operations_ok_def Let_def filter_empty_conv list_ex_iff)
    ultimately show ?thesis using s(4) limits same Some by simp
  qed
qed

text \<open>
  C40. A preview shows the change: from the skill the change starts from, the changes of the preview,
  one after the other, lead to the skill it gives. A replacement's passage stands in the text before
  and its new passage in the same place after, with everything around it unchanged; an addition stands
  between what was there, with nothing but line feeds next to it; a new resource comes last, under a
  path no other has.
\<close>

theorem previews_show_the_change:
  assumes "applySkillChange says original ops = Inr t" and "createSkillChangePreview says original ops = Inr p"
  shows "\<exists>s. starting_skill original (hd ops) = Inr s \<and> changes_shown (sp_changes p) s t \<and>
    length (sp_changes p) = length (filter (\<lambda>op. \<not> is_creation op) ops)"
proof -
  have "evaluate_change says original ops = Inr (t, p)"
    using assms by (auto simp: applySkillChange_def createSkillChangePreview_def)
  then obtain s where s: "starting_skill original (hd ops) = Inr s" "apply_operations s ops = Inr (t, sp_changes p)"
    by (rule evaluated)
  have one: "length cs = (if is_creation op then 0 else 1)" if "apply_operation s op = Inr (u, cs)" for s op u cs
    using that by (cases op) auto
  have "length cs = length (filter (\<lambda>op. \<not> is_creation op) ops)" if "apply_operations s ops = Inr (u, cs)" for s u cs
    using that by (induction ops arbitrary: s u cs) (auto dest!: one)
  then show ?thesis using s operations_shown by blast
qed

text \<open>Replacing back undoes a replacement, where the text put in is the only one of its kind.\<close>

lemma replace_back:
  assumes "replace_in target before old new = Inr (after, c)" and "replace_in target after new old = Inr (restored, d)"
  shows "restored = before"
proof -
  obtain i where i: "index_from before old 0 = Some i" and after: "after = take i before @ new @ drop (i + length old) before"
    using assms(1) by (auto simp: replace_in_def refuse_def Let_def split: option.splits if_splits)
  obtain j where j: "index_from after new 0 = Some j" "index_from after new (j + 1) = None"
    and restored: "restored = take j after @ old @ drop (j + length new) after"
    using assms(2) by (auto simp: replace_in_def refuse_def Let_def split: option.splits if_splits)
  note o' = index_from_Some[OF i]
  have len: "length (take i before) = i" using o' by simp
  have "starts_at after new i" "i \<le> length after" using len by (simp_all add: starts_at_def after)
  then have "i = j" by (rule index_from_only[OF j])
  have "take j after = take i before" "drop (j + length new) after = drop (i + length old) before"
    using len by (simp_all add: after \<open>i = j\<close>[symmetric])
  then show ?thesis using o' restored by simp
qed

lemma update_first_back:
  "List.find p rs = Some r \<Longrightarrow> (\<And>r t. p (r\<lparr>sr_content := t\<rparr>) = p r) \<Longrightarrow>
    update_first p (\<lambda>r. r\<lparr>sr_content := sr_content r0\<rparr>) (update_first p (\<lambda>r. r\<lparr>sr_content := t\<rparr>) rs) =
      update_first p (\<lambda>r. r\<lparr>sr_content := sr_content r0\<rparr>) rs"
  by (induction rs) (auto split: if_splits)

lemma update_first_same:
  "List.find p rs = Some r \<Longrightarrow> update_first p (\<lambda>x. x\<lparr>sr_content := sr_content r\<rparr>) rs = rs"
  by (induction rs) (auto split: if_splits)

lemma with_text_back:
  assumes "text_of s target = Inr before"
  shows "with_text target before (with_text target after s) = s"
proof (cases "target = ''root''")
  case True
  then show ?thesis using assms by (simp add: text_of_def with_text_def)
next
  case False
  let ?p = "\<lambda>r. sr_path r = target"
  obtain rs r where r: "sk_resources s = Some rs" "List.find ?p rs = Some r" "sr_content r = before"
    using assms False by (auto simp: text_of_def resources_of_def refuse_def split: option.splits)
  have "update_first ?p (\<lambda>x. x\<lparr>sr_content := before\<rparr>) (update_first ?p (\<lambda>x. x\<lparr>sr_content := after\<rparr>) rs) = rs"
    using update_first_back[OF r(2), of r after] update_first_same[OF r(2)] r(3) by simp
  then show ?thesis using False r(1) by (simp add: with_text_def)
qed

lemma find_update_first:
  "List.find (\<lambda>r. sr_path r = target) (update_first (\<lambda>r. sr_path r = target) (\<lambda>r. r\<lparr>sr_content := after\<rparr>) rs) =
    map_option (\<lambda>r. r\<lparr>sr_content := after\<rparr>) (List.find (\<lambda>r. sr_path r = target) rs)"
  by (induction rs) auto

lemma text_of_with_text:
  assumes "text_of s target = Inr before"
  shows "text_of (with_text target after s) target = Inr after"
proof (cases "target = ''root''")
  case True
  then show ?thesis by (simp add: text_of_def with_text_def)
next
  case False
  then obtain rs r where r: "sk_resources s = Some rs" "List.find (\<lambda>r. sr_path r = target) rs = Some r"
    using assms by (auto simp: text_of_def resources_of_def refuse_def split: option.splits)
  show ?thesis using False r find_update_first[of target after rs] by (simp add: text_of_def with_text_def resources_of_def)
qed

text \<open>
  A replacement can be taken back: where the text a replacement puts in then occurs once, the
  replacement the other way round gives the skill it started from.
\<close>

lemma replacements_are_undone:
  assumes "apply_operation s (Replace_Text target old new) = Inr (t, cs)"
    and "apply_operation t (Replace_Text target new old) = Inr (u, ds)"
  shows "u = s"
proof -
  obtain before after c where a: "text_of s target = Inr before" "replace_in target before old new = Inr (after, c)"
    "t = with_text target after s"
    using assms(1) by auto
  obtain restored d where b: "replace_in target after new old = Inr (restored, d)" "u = with_text target restored t"
    using assms(2) text_of_with_text[OF a(1)] unfolding a(3) by auto
  show ?thesis using replace_back[OF a(2) b(1)] with_text_back[OF a(1)] b(2) a(3) by simp
qed

section \<open>A small skill\<close>

definition demo_text :: "string \<Rightarrow> string \<Rightarrow> string" where
  "demo_text passage added =
     ''# A'' @ [CHR 0x0A, CHR 0x0A] @ passage @ [CHR 0x0A, CHR 0x0A] @ added @ ''# B'' @ [CHR 0x0A] @ ''end''"

definition demo_skill :: "string \<Rightarrow> string \<Rightarrow> skill" where
  "demo_skill passage added = \<lparr>sk_name = ''s'', sk_title = ''S'', sk_description = ''d'',
     sk_content = demo_text passage added,
     sk_resources = Some [\<lparr>sr_path = ''a/b.md'', sr_mediaType = ''text/markdown'', sr_content = ''x''\<rparr>]\<rparr>"

definition demo_replacement :: skill_operation where
  "demo_replacement = Replace_Text ''root'' ''two'' ''three''"

definition demo_addition :: skill_operation where
  "demo_addition = Append_Text ''root'' (Some ''# A'') ''more''"

definition demo_messages :: schema_messages where
  "demo_messages = \<lparr>sm_operations = (\<lambda>_. []), sm_skill = (\<lambda>_. [])\<rparr>"

definition demo_changes :: "skill_change list" where
  "demo_changes =
     [\<lparr>ck_type = ''replace'', ck_target = ''root'', ck_sectionHeading = None, ck_before = Some ''one two'',
       ck_after = ''one three''\<rparr>,
      \<lparr>ck_type = ''add'', ck_target = ''root'', ck_sectionHeading = Some ''# A'', ck_before = None, ck_after = ''more''\<rparr>]"

definition demo_more :: string where
  "demo_more = ''more'' @ [CHR 0x0A, CHR 0x0A]"

lemma demo_steps:
  "apply_operation (demo_skill ''one two'' []) demo_replacement = Inr (demo_skill ''one three'' [], [hd demo_changes])"
  "apply_operation (demo_skill ''one three'' []) demo_addition = Inr (demo_skill ''one three'' demo_more, [last demo_changes])"
  "skill_operations_ok [demo_replacement, demo_addition]"
  "skill_config_ok (demo_skill ''one three'' demo_more)"
  by code_simp+

lemma demo_limits: "check_limits (demo_skill ''one three'' added) = Inr ()" if "added = [] \<or> added = demo_more"
  using that
  by (auto simp: check_limits_Inr skill_within_limits_def demo_skill_def demo_text_def demo_more_def resources_of_def
      SKILL_CHANGE_MAX_CONTENT_def SKILL_CHANGE_MAX_RESOURCES_def)

lemma demo_applied:
  "apply_operations (demo_skill ''one two'' []) [demo_replacement, demo_addition] =
    Inr (demo_skill ''one three'' demo_more, demo_changes)"
  by (simp add: demo_steps demo_limits) (simp add: demo_changes_def)

lemma demo_evaluated:
  "\<exists>p. evaluate_change demo_messages (Some (demo_skill ''one two'' [])) [demo_replacement, demo_addition] =
      Inr (demo_skill ''one three'' demo_more, p) \<and> sp_changes p = demo_changes"
proof -
  have "starting_skill (Some (demo_skill ''one two'' [])) (hd [demo_replacement, demo_addition]) = Inr (demo_skill ''one two'' [])"
    by (simp add: starting_skill_def demo_replacement_def)
  then show ?thesis unfolding evaluate_change_def
    by (simp add: demo_steps(3,4) demo_applied del: apply_operations.simps bind_result_Inr)
qed

theorem applied_skills_are_well_formed_witness:
  "skill_config_ok (demo_skill ''one three'' demo_more) \<and> skill_within_limits (demo_skill ''one three'' demo_more) \<and>
    same_skill (demo_skill ''one two'' []) (demo_skill ''one three'' demo_more)"
proof -
  have "applySkillChange demo_messages (Some (demo_skill ''one two'' [])) [demo_replacement, demo_addition] =
      Inr (demo_skill ''one three'' demo_more)"
    using demo_evaluated by (auto simp: applySkillChange_def)
  from applied_skills_are_well_formed[OF this] show ?thesis by simp
qed

theorem previews_show_the_change_witness:
  "changes_shown demo_changes (demo_skill ''one two'' []) (demo_skill ''one three'' demo_more)"
proof -
  obtain p where "evaluate_change demo_messages (Some (demo_skill ''one two'' [])) [demo_replacement, demo_addition] =
      Inr (demo_skill ''one three'' demo_more, p)" and p: "sp_changes p = demo_changes"
    using demo_evaluated by blast
  then have "applySkillChange demo_messages (Some (demo_skill ''one two'' [])) [demo_replacement, demo_addition] =
      Inr (demo_skill ''one three'' demo_more)"
    "createSkillChangePreview demo_messages (Some (demo_skill ''one two'' [])) [demo_replacement, demo_addition] = Inr p"
    by (auto simp: applySkillChange_def createSkillChangePreview_def)
  from previews_show_the_change[OF this] show ?thesis
    by (auto simp: starting_skill_def demo_replacement_def p)
qed

end
