(* ===== verification/Spec2Isabelle.thy ===== *)
theory Spec2Isabelle imports
  Job_Promises
  Job_Worker_Promises
  Permission_Facts
  Product_Modules
  Usage_Promises
  Usage_Report_Promises
  Operation_Promises
  Workspace_Patch_Facts
  Run_Readers
  Model_Budget_Facts
  Run_Promises
  Model_Gateway_Ledger
  Web_Promises Config_Asset_Lists Approval_Promises Collab_Promises Skill_Change_Facts
begin

text \<open>
  A model of the core of the Vivd Catalyst server and the theorems that make it correct.

  The program. Users talk to agents. A message starts a run of an agent (\<open>packages/agent-runtime\<close>), which asks
  models through one gateway (\<open>packages/model-provider\<close>), and uses tools and operations
  (\<open>packages/tool-execution\<close>) as far as rights and policies allow (\<open>packages/core\<close>). Every model call is admitted
  and settled on a ledger of usage (\<open>packages/usage-governance\<close>), and what has to happen later or again is a
  job in a queue. All durable state is in PostgreSQL (\<open>packages/postgres-store\<close>).

  The parts, in the order of the theories. A definition has the name of the function or type it models; where
  that name is taken or the code has none, the map of the manifest says which lines it translates.

  \<^item> \<open>Prelude\<close>, \<open>Errors\<close>, \<open>Json_Text\<close>, \<open>Json_Check\<close>: results as sums, string operations, tables as lists of rows,
    reachable states and their invariants; JSON values, their printing and their recognition; the errors of the
    platform and the envelope made of an error nobody typed.
  \<^item> \<open>Job_Kinds\<close>, \<open>Job_Store\<close>, \<open>Job_Worker\<close> (\<open>core/src/jobs.ts\<close>, \<open>postgres-store/src/jobs/\<close>): the job table with every
    statement over it, and the worker with endings, burials, schedules, passes and release. \<open>Job_Invariants\<close>,
    \<open>Job_Queue\<close>, \<open>Job_Claims\<close> and \<open>Job_Worker_Facts\<close> carry the invariants through every transaction;
    \<open>Job_Promises\<close> and \<open>Job_Worker_Promises\<close> say what follows, a failure's way into the table among it: the ending
    it chooses, what is stored of its error, and that nothing else of it is.
  \<^item> \<open>Permissions\<close>, \<open>Product_Modules\<close> (\<open>core/src/permissions.ts\<close>, \<open>modules.ts\<close>): the evaluation of rights from
    references, legacy keys and grants; the modules of a build. \<open>Permission_Facts\<close> compares the two evaluators.
  \<^item> \<open>Usage_Cost\<close>, \<open>Usage_Ledger\<close>, \<open>Usage_Governance\<close>, \<open>Usage_Reports\<close> (\<open>usage-governance/src/\<close>,
    \<open>postgres-store/src/postgres-usage-ledger.ts\<close>): costs, the statements on events, counters and daily sums,
    reservation, admission, settlement and recovery, and the reports. \<open>Usage_Ledger_Facts\<close>, \<open>Usage_Promises\<close>,
    \<open>Usage_Calls\<close> and \<open>Usage_Report_Promises\<close> hold the theorems.
  \<^item> \<open>Operation_Policy\<close>, \<open>Operation_Runs\<close>, \<open>Operation_Call\<close> (\<open>core/src/operation-policy.ts\<close>,
    \<open>tool-execution/src/run-operation.ts\<close>, \<open>postgres-store/src/postgres-operation-run-operations.ts\<close>): the path
    of every call of an operation. \<open>Operation_Machine\<close> lets the calls of all processes interleave and
    \<open>Operation_Paths\<close> shows that a call as the code makes it is a path of that machine, and that the machine's log
    of starts is the one the implementations leave in the world (\<open>counts_starts\<close> names any such log);
    \<open>Operation_Replay\<close> and \<open>Operation_Promises\<close> hold the theorems. \<open>was_asked\<close> spells out, over the states a call
    goes through, what it asked before it started.
  \<^item> \<open>Workspace_Paths\<close>, \<open>Workspace_Patch\<close> (\<open>tool-execution/src/workspace-paths.ts\<close>,
    \<open>workspace-apply-patch.ts\<close>): paths that stay in a workspace, and unified diffs with the specification of
    what applying one means (\<open>Workspace_Patch_Facts\<close>).
  \<^item> \<open>Tool_Results\<close>, \<open>Run_State\<close>, \<open>Run_Projection\<close>, \<open>Model_History\<close>, \<open>Model_Budget\<close>, \<open>Run_Turns\<close>
    (\<open>agent-runtime/src/\<close>, \<open>core/src/agent-run-projection.ts\<close>): a run in execution, what readers are shown of
    it, the history and the images a model is sent, and the turns of model and tools. \<open>Run_Facts\<close> and
    \<open>Run_Readers\<close> relate the run, its events and its projection; \<open>Run_Protocol\<close> is an automaton written without
    the program, \<open>Run_Protocol_Facts\<close> shows that the turns follow it, \<open>Run_Promises\<close> says what follows.
  \<^item> \<open>Model_Calls\<close>, \<open>Model_Retry\<close>, \<open>Model_Gateway\<close> (\<open>model-provider/src/gateway.ts\<close>, \<open>retry.ts\<close>,
    \<open>model-provider-error.ts\<close>): one call to a model with its attempts, waits and settlement.
    \<open>Model_Gateway_Facts\<close> has what holds of a call alone; \<open>Model_Gateway_Ledger\<close> puts the gateway over the ledger
    through the interface \<open>call_governance\<close>.
  \<^item> \<open>Web_Address\<close>, \<open>Web_Text\<close>, \<open>Web_Fetch\<close> (\<open>web-access/src/\<close>): which addresses may be asked for, the text of a
    page, and one fetch with its redirects. \<open>Web_Networks\<close> and \<open>Web_Notations\<close> show that the check of an address
    is membership in a list of networks, whatever way it is written; \<open>Web_Promises\<close> follows a fetch. Parsing of URLs,
    the resolver, connections, UTF-8 and the hash are services; the loop counts the redirects left.
  \<^item> \<open>Config_Assets\<close>, \<open>Config_Asset_Store\<close>, \<open>Config_Asset_Lists\<close> (\<open>core/src/config-assets.ts\<close>,
    \<open>config-asset-concurrency.ts\<close>, \<open>postgres-store/src/postgres-config-asset-operations.ts\<close>): agents and skills with
    their revisions, availability and the default agent, batches of mutations as transactions, and the lists.
    \<open>Config_Asset_Spec\<close> says what a batch means on a map from keys to histories; \<open>Config_Asset_Facts\<close>,
    \<open>Config_Asset_Refine\<close>, \<open>Config_Asset_Steps\<close> and \<open>Config_Asset_Invariant\<close> show that the tables follow it;
    \<open>Config_Asset_Promises\<close> and the end of \<open>Config_Asset_Lists\<close> say what follows. New ids are functions of the place
    of a mutation in its batch, a violated key is the error \<open>key_refused\<close>, a list sees one state of the tables and
    its loop the names left.
  \<^item> \<open>Collab_Store\<close>, \<open>Collab_Accounts\<close>, \<open>Collab_Workflow\<close> (\<open>core/src/collaboration-workspace.ts\<close>,
    \<open>postgres-store/src/postgres-collaboration-workspace-operations.ts\<close>, \<open>postgres-workspace-deletion.ts\<close>,
    \<open>postgres-user-operations.ts\<close>, \<open>chat-server/src/collaboration-workspace-workflow.ts\<close>, \<open>user-deletion.ts\<close>,
    \<open>account-deletion.ts\<close>): workspaces people share or have alone, their members and requests, and what closes
    them. There are two machines. \<open>Collab_Facts\<close> has the transactions as moves without conditions of their own
    (\<open>collab_move\<close>) and the tables they keep. \<open>Collab_Owners\<close> has the closing of accounts in its steps, locking,
    reading and marking, beside everything else (\<open>owners_step\<close>), and notes the strays: workspaces whose lock came too
    late or that are created for an account closed by then. \<open>Collab_Promises\<close> shows that a handler is a path of
    either machine whatever others do, what follows from it, and three interleavings its checks come too early for.
  \<^item> \<open>Approval_Requests\<close>, \<open>Approval_Workflow\<close> (\<open>core/src/approval-requests.ts\<close>, \<open>message-metadata.ts\<close>,
    \<open>postgres-store/src/postgres-approval-request-operations.ts\<close>, \<open>chat-server/src/approval-request-workflow.ts\<close>,
    \<open>approval-check-runner.ts\<close>): proposals that people decide, with the checks a proposal passes, the transitions and
    the messages they leave. The handler of a kind is the interface of the code over a world of a free type.
    \<open>Approval_Facts\<close> has the steps and their invariant, with what a decision message says read off the row of its
    request (\<open>message_true\<close>); \<open>Approval_Promises\<close> has what people can rely on.
  \<^item> \<open>Skill_Changes\<close> (\<open>config-schema/src/skill-change.ts\<close>): the operations on the texts of a skill that a proposal
    consists of, and their preview; \<open>Skill_Change_Facts\<close> shows that the one is what the other shows.
  State and effects. A table is a list of rows and a statement a function on it, executed as a whole, as one
  statement of the database is; code that makes several statements outside a transaction makes several steps,
  and what other processes do in between is a parameter (\<open>dep_meanwhile\<close>, \<open>sv_meanwhile\<close>, \<open>ce_meanwhile\<close>, \<open>ledger_work\<close>).
  Clocks, new ids, random numbers, models, tools and handlers are parameters over a world of a free type.
  Whatever can be thrown is a value of an error type.

  Recursion and fuel. Loops are structural recursions or have a measure: the claim of jobs the free places,
  the parsers the length of the text, the attempts of the gateway the retries left, the turns of a run the
  steps left. \<open>counted_insert\<close> and the claim of an idempotency key take the number of attempts the code has (3).
  \<open>release_loop\<close> and \<open>value_rest\<close> take fuel; that the fuel given is enough is part of
  \<open>recovery_releases_the_abandoned\<close> and of the definition of \<open>is_json\<close> (two for each character and two more: every
  call at the same place goes one level down in the grammar).

  Idealisations. The reads of one list of workspaces, and those of the checks of one call, see one state; the
  acceptance of an account deletion takes its locks in one step and reads in another. Numbers of the language are rationals or integers where the code keeps them whole; strings
  are lists of code units below 256. Dates are numbers of days and months. JSON objects are lists of members
  in order. Images are told apart by their place, messages are given as the readers of their metadata see them.
  The reconciliation of usage is modelled for the scope of all events. A failed admission loses the counters it
  started, as the transaction does. A call without a deadline whose adapter never answers has no outcome in the
  model. Logging, telemetry and the audit recorder are left out: nothing modelled reads them.

  Not modelled, and why. User interfaces (\<open>chat-ui\<close>, \<open>chat-widget\<close>, \<open>chat-standalone\<close>, \<open>ui\<close>, \<open>docs\<close>) draw what
  the server says. The HTTP server, the API contract and its client, the adapters of models, mail and object
  storage, sandboxes and the renderers of previews translate between the model's operations and systems outside
  the repository. Schemas of configuration, but for those of a skill, and the command line are declarations. The
  handler that writes an approved change of a skill as config assets joins two modelled parts through the
  snapshot of the whole configuration, which is read by the schemas. The passes that
  carry out an accepted deletion call these stores and the worker. The stores of files, pages, conversations
  and identities hold rows with the same kinds of statements as the tables modelled here; they are
  what a later extension would take next. The manifest lists every part with its status.
\<close>

end
